(* ===== verification/Prelude.thy ===== *)
theory Prelude
  imports Main "HOL-Library.Word" "HOL-Library.Signed_Division" "HOL-Library.AList"
begin

text \<open>
  What the components share: the result type that carries Go's errors and panics as
  values, the sequencing combinators over it, Go's 64-bit integer arithmetic, decimal
  printing (\<open>%d\<close>), the string routines of the standard library the code calls, and
  facts on lists. The collection \<open>go_defs\<close> gathers the definitions a component's
  proofs unfold.
\<close>

named_theorems go_defs \<open>definitions the proofs about a component unfold\<close>
named_theorems res_simps \<open>equations of the result combinators\<close>

section \<open>Results: Go's error returns, panics and divergence\<close>

text \<open>
  \<open>Err\<close> is a non-nil \<open>error\<close> with its text, \<open>Panic\<close> a Go panic (a failed \<open>must\<close>,
  an index or slice bound out of range, a nil dereference) and \<open>Diverge\<close> a
  computation that has not returned: a fuel-indexed interpreter that ran out of fuel,
  or a loop of the source that never ends.
\<close>

datatype 'a res = Ok 'a | Err string | Panic string | Diverge

fun is_ok :: "'a res \<Rightarrow> bool" where
  "is_ok (Ok _) = True"
| "is_ok _ = False"

fun is_panic :: "'a res \<Rightarrow> bool" where
  "is_panic (Panic _) = True"
| "is_panic _ = False"

text \<open>\<open>if err != nil { return err }\<close>: the first failure is the result.\<close>

fun rbind :: "'a res \<Rightarrow> ('a \<Rightarrow> 'b res) \<Rightarrow> 'b res" where
  "rbind (Ok x) f = f x"
| "rbind (Err e) f = Err e"
| "rbind (Panic m) f = Panic m"
| "rbind Diverge f = Diverge"

text \<open>The same over a state: what was written before the failure stays written.\<close>

fun mbind :: "'a res \<times> 's \<Rightarrow> ('a \<Rightarrow> 's \<Rightarrow> 'b res \<times> 's) \<Rightarrow> 'b res \<times> 's" where
  "mbind (Ok x, s) f = f x s"
| "mbind (Err e, s) f = (Err e, s)"
| "mbind (Panic m, s) f = (Panic m, s)"
| "mbind (Diverge, s) f = (Diverge, s)"

text \<open>A pure result followed by a stateful continuation.\<close>

definition rlift :: "'a res \<Rightarrow> 's \<Rightarrow> ('a \<Rightarrow> 's \<Rightarrow> 'b res \<times> 's) \<Rightarrow> 'b res \<times> 's" where
  "rlift r s f = mbind (r, s) f"

text \<open>\<open>must(cond, msg)\<close> of \<open>pl/pl.go\<close>, in front of the rest of the computation.\<close>

definition must :: "bool \<Rightarrow> string \<Rightarrow> 'a res \<Rightarrow> 'a res" where
  "must c msg r = (if c then r else Panic (''must: '' @ msg))"

lemma must_simps [simp, res_simps]:
  "must True msg r = r"
  "must False msg r = Panic (''must: '' @ msg)"
  by (simp_all add: must_def)

lemma rlift_simps [simp, res_simps]:
  "rlift (Ok x) s f = f x s"
  "rlift (Err e) s f = (Err e, s)"
  "rlift (Panic m) s f = (Panic m, s)"
  "rlift Diverge s f = (Diverge, s)"
  by (simp_all add: rlift_def)

lemma rbind_Ok_iff: "rbind r f = Ok y \<longleftrightarrow> (\<exists>x. r = Ok x \<and> f x = Ok y)"
  by (cases r) auto

lemma rbind_OkE: "rbind r f = Ok y \<Longrightarrow> (\<And>x. r = Ok x \<Longrightarrow> f x = Ok y \<Longrightarrow> P) \<Longrightarrow> P"
  by (cases r) auto

lemma rbind_assoc: "rbind (rbind r f) g = rbind r (\<lambda>x. rbind (f x) g)"
  by (cases r) auto

lemma rbind_right_id [simp]: "rbind r Ok = r"
  by (cases r) auto

lemma mbind_Ok_iff:
  "mbind p f = (Ok y, s') \<longleftrightarrow> (\<exists>x s. p = (Ok x, s) \<and> f x s = (Ok y, s'))"
  by (cases "(p, f)" rule: mbind.cases) auto

lemma mbind_assoc: "mbind (mbind p f) g = mbind p (\<lambda>x s. mbind (f x s) g)"
  by (cases "(p, f)" rule: mbind.cases) auto

lemma mbind_cong [fundef_cong]:
  "p = q \<Longrightarrow> (\<And>x s. q = (Ok x, s) \<Longrightarrow> f x s = g x s) \<Longrightarrow> mbind p f = mbind q g"
  by (cases "(q, g)" rule: mbind.cases) auto

lemma rbind_cong [fundef_cong]:
  "p = q \<Longrightarrow> (\<And>x. q = Ok x \<Longrightarrow> f x = g x) \<Longrightarrow> rbind p f = rbind q g"
  by (cases q) auto

section \<open>Machine integers\<close>

text \<open>
  Go's \<open>int64\<close> (and \<open>int\<close> on the 64-bit platforms the code runs on) is a 64-bit word
  read as two's complement: \<open>+\<close>, \<open>-\<close>, \<open>*\<close> wrap, the order is that of \<open>sint\<close>, and
  division truncates towards zero. The most negative value divided by \<open>-1\<close> wraps to
  itself (the Go specification's only special case).
\<close>

type_synonym int64 = "64 word"

definition i64_max :: int64 where "i64_max = word_of_int (2 ^ 63 - 1)"

definition i64_quot :: "int64 \<Rightarrow> int64 \<Rightarrow> int64" where
  "i64_quot a b = word_of_int (sint a sdiv sint b)"

definition i64_rem :: "int64 \<Rightarrow> int64 \<Rightarrow> int64" where
  "i64_rem a b = word_of_int (sint a smod sint b)"

definition i64_of_nat :: "nat \<Rightarrow> int64" where
  "i64_of_nat n = word_of_int (int n)"

lemma sint_i64_range: "- (2 ^ 63) \<le> sint (a :: int64)" "sint (a :: int64) < 2 ^ 63"
  using sint_greater_eq[of a] sint_less[of a] by simp_all

lemma sint_word_of_int_small:
  "- (2 ^ 63) \<le> i \<Longrightarrow> i < 2 ^ 63 \<Longrightarrow> sint (word_of_int i :: int64) = i"
  by (simp add: sint_sbintrunc' signed_take_bit_int_eq_self)

lemma sint_i64_of_nat: "n < 2 ^ 63 \<Longrightarrow> sint (i64_of_nat n) = int n"
  unfolding i64_of_nat_def by (rule sint_word_of_int_small) auto

section \<open>Decimal printing\<close>

fun nat_digits :: "nat \<Rightarrow> string" where
  "nat_digits n =
     (if n < 10 then [char_of (48 + n)] else nat_digits (n div 10) @ [char_of (48 + n mod 10)])"

declare nat_digits.simps [simp del]

text \<open>\<open>fmt.Sprintf("%d", i)\<close>.\<close>

definition int_dec :: "int \<Rightarrow> string" where
  "int_dec i = (if i < 0 then CHR ''-'' # nat_digits (nat (- i)) else nat_digits (nat i))"

fun undigits :: "string \<Rightarrow> nat \<Rightarrow> nat" where
  "undigits [] a = a"
| "undigits (c # cs) a = undigits cs (10 * a + (of_char c - 48))"

definition undec :: "string \<Rightarrow> int" where
  "undec s = (case s of [] \<Rightarrow> 0 | c # cs \<Rightarrow>
     if c = CHR ''-'' then - int (undigits cs 0) else int (undigits s 0))"

lemma of_char_char_of_small: "n < 256 \<Longrightarrow> (of_char (char_of n :: char) :: nat) = n"
  by simp

lemma undigits_append: "undigits (xs @ ys) a = undigits ys (undigits xs a)"
  by (induction xs arbitrary: a) auto

lemma undigits_nat_digits: "undigits (nat_digits n) 0 = n"
proof (induction n rule: nat_digits.induct)
  case (1 n)
  then show ?case
    by (subst nat_digits.simps) (auto simp: undigits_append)
qed

lemma nat_digits_hd: "\<exists>c cs. nat_digits n = c # cs \<and> c \<noteq> CHR ''-''"
proof (induction n rule: nat_digits.induct)
  case (1 n)
  have "n < 10 \<Longrightarrow> (char_of (48 + n) :: char) \<noteq> CHR ''-''"
  proof
    assume n: "n < 10" and eq: "(char_of (48 + n) :: char) = CHR ''-''"
    have "(of_char (char_of (48 + n) :: char) :: nat) = 48 + n"
      using n by simp
    with eq show False by simp
  qed
  with 1 show ?case
    by (subst nat_digits.simps) auto
qed

lemma undec_int_dec [simp]: "undec (int_dec i) = i"
proof -
  obtain c cs where c: "nat_digits (nat i) = c # cs" "c \<noteq> CHR ''-''"
    using nat_digits_hd by blast
  have "int (undigits (nat_digits (nat i)) 0) = int (nat i)"
    by (simp add: undigits_nat_digits)
  with c show ?thesis
    by (auto simp: int_dec_def undec_def undigits_nat_digits)
qed

lemma int_dec_inj: "int_dec i = int_dec j \<Longrightarrow> i = j"
  by (metis undec_int_dec)

end
