(* ===== verification/Float64.thy ===== *)
theory Float64
  imports Prelude Complex_Main
begin

text \<open>
  Go's \<open>float64\<close>: the IEEE 754 binary64 numbers with rounding to nearest, ties to even.
  A finite number is a sign, a mantissa and an exponent, \<open>FNum s m e\<close> for
  \<open>(-1)^s * m * 2^e\<close>; the constructor function \<open>fl_round\<close> keeps the mantissa below
  \<open>2^53\<close> and the exponent between \<open>-1074\<close> and \<open>971\<close>. NaN payloads, which the code
  cannot see, are not distinguished. The type classes \<open>plus\<close>, \<open>minus\<close>, \<open>times\<close>,
  \<open>divide\<close>, \<open>uminus\<close> and \<open>ord\<close> are instantiated, so that the interpreter's model
  reads like its source.
\<close>

section \<open>Representation and rounding\<close>

datatype fl = FNaN | FInf bool | FNum bool nat int

fun bitlen :: "nat \<Rightarrow> nat" where
  "bitlen n = (if n = 0 then 0 else Suc (bitlen (n div 2)))"

declare bitlen.simps [simp del]

text \<open>
  \<open>fl_round s m e st\<close> rounds \<open>(-1)^s * (m + d) * 2^e\<close>, where \<open>0 < d < 1\<close> if the
  sticky flag \<open>st\<close> is set and \<open>d = 0\<close> otherwise.
\<close>

definition fl_round :: "bool \<Rightarrow> nat \<Rightarrow> int \<Rightarrow> bool \<Rightarrow> fl" where
  "fl_round s m e st =
     (if m = 0 \<and> \<not> st then FNum s 0 (- 1074) else
      let k = max (int (bitlen m) - 53) (- 1074 - e) in
      if k \<le> 0 then
        (if e + k > 971 then FInf s else FNum s (m * 2 ^ nat (- k)) (e + k))
      else
        let p = (2 :: nat) ^ nat k; q = m div p; r = m mod p; h = p div 2;
            up = (h < r \<or> (r = h \<and> (st \<or> odd q)));
            q' = (if up then Suc q else q);
            e' = e + k
        in if q' = 2 ^ 53 then (if e' + 1 > 971 then FInf s else FNum s (2 ^ 52) (e' + 1))
           else if e' > 971 then FInf s else FNum s q' e')"

text \<open>Conversion of an \<open>int64\<close>: \<open>float64(i)\<close>.\<close>

definition fl_of_int :: "int \<Rightarrow> fl" where
  "fl_of_int i = fl_round (i < 0) (nat \<bar>i\<bar>) 0 False"

definition fl_signed :: "bool \<Rightarrow> nat \<Rightarrow> int" where
  "fl_signed s m = (if s then - int m else int m)"

text \<open>The two mantissas of a pair of finite numbers at their common exponent.\<close>

definition fl_align :: "nat \<Rightarrow> int \<Rightarrow> nat \<Rightarrow> int \<Rightarrow> nat \<times> nat \<times> int" where
  "fl_align m1 e1 m2 e2 =
     (let e = min e1 e2 in (m1 * 2 ^ nat (e1 - e), m2 * 2 ^ nat (e2 - e), e))"

section \<open>Arithmetic and order\<close>

fun fl_add :: "fl \<Rightarrow> fl \<Rightarrow> fl" where
  "fl_add FNaN _ = FNaN"
| "fl_add _ FNaN = FNaN"
| "fl_add (FInf s) (FInf t) = (if s = t then FInf s else FNaN)"
| "fl_add (FInf s) (FNum _ _ _) = FInf s"
| "fl_add (FNum _ _ _) (FInf t) = FInf t"
| "fl_add (FNum s1 m1 e1) (FNum s2 m2 e2) =
     (let (a, b, e) = fl_align m1 e1 m2 e2; v = fl_signed s1 a + fl_signed s2 b in
      if v = 0 then FNum (s1 \<and> s2) 0 (- 1074) else fl_round (v < 0) (nat \<bar>v\<bar>) e False)"

fun fl_neg :: "fl \<Rightarrow> fl" where
  "fl_neg FNaN = FNaN"
| "fl_neg (FInf s) = FInf (\<not> s)"
| "fl_neg (FNum s m e) = FNum (\<not> s) m e"

fun fl_mul :: "fl \<Rightarrow> fl \<Rightarrow> fl" where
  "fl_mul FNaN _ = FNaN"
| "fl_mul _ FNaN = FNaN"
| "fl_mul (FInf s) (FInf t) = FInf (s \<noteq> t)"
| "fl_mul (FInf s) (FNum t m _) = (if m = 0 then FNaN else FInf (s \<noteq> t))"
| "fl_mul (FNum s m _) (FInf t) = (if m = 0 then FNaN else FInf (s \<noteq> t))"
| "fl_mul (FNum s1 m1 e1) (FNum s2 m2 e2) = fl_round (s1 \<noteq> s2) (m1 * m2) (e1 + e2) False"

fun fl_div :: "fl \<Rightarrow> fl \<Rightarrow> fl" where
  "fl_div FNaN _ = FNaN"
| "fl_div _ FNaN = FNaN"
| "fl_div (FInf s) (FInf t) = FNaN"
| "fl_div (FInf s) (FNum t _ _) = FInf (s \<noteq> t)"
| "fl_div (FNum s _ _) (FInf t) = FNum (s \<noteq> t) 0 (- 1074)"
| "fl_div (FNum s1 m1 e1) (FNum s2 m2 e2) =
     (if m2 = 0 then (if m1 = 0 then FNaN else FInf (s1 \<noteq> s2))
      else let n = m1 * 2 ^ 110 in
           fl_round (s1 \<noteq> s2) (n div m2) (e1 - e2 - 110) (n mod m2 \<noteq> 0))"

text \<open>Comparisons are false when an operand is NaN; the zeros are equal.\<close>

fun fl_eq :: "fl \<Rightarrow> fl \<Rightarrow> bool" where
  "fl_eq (FInf s) (FInf t) = (s = t)"
| "fl_eq (FNum s1 m1 e1) (FNum s2 m2 e2) =
     (let (a, b, e) = fl_align m1 e1 m2 e2 in fl_signed s1 a = fl_signed s2 b)"
| "fl_eq _ _ = False"

fun fl_less :: "fl \<Rightarrow> fl \<Rightarrow> bool" where
  "fl_less (FInf s) (FInf t) = (s \<and> \<not> t)"
| "fl_less (FInf s) (FNum _ _ _) = s"
| "fl_less (FNum _ _ _) (FInf t) = (\<not> t)"
| "fl_less (FNum s1 m1 e1) (FNum s2 m2 e2) =
     (let (a, b, e) = fl_align m1 e1 m2 e2 in fl_signed s1 a < fl_signed s2 b)"
| "fl_less _ _ = False"

instantiation fl :: "{plus, minus, uminus, times, divide, zero, ord}"
begin

definition plus_fl :: "fl \<Rightarrow> fl \<Rightarrow> fl" where "plus_fl = fl_add"
definition uminus_fl :: "fl \<Rightarrow> fl" where "uminus_fl = fl_neg"
definition minus_fl :: "fl \<Rightarrow> fl \<Rightarrow> fl" where "minus_fl a b = fl_add a (fl_neg b)"
definition times_fl :: "fl \<Rightarrow> fl \<Rightarrow> fl" where "times_fl = fl_mul"
definition divide_fl :: "fl \<Rightarrow> fl \<Rightarrow> fl" where "divide_fl = fl_div"
definition zero_fl :: fl where "zero_fl = FNum False 0 (- 1074)"
definition less_fl :: "fl \<Rightarrow> fl \<Rightarrow> bool" where "less_fl = fl_less"
definition less_eq_fl :: "fl \<Rightarrow> fl \<Rightarrow> bool" where "less_eq_fl a b = (fl_less a b \<or> fl_eq a b)"

instance ..

end

lemmas fl_class_defs [go_defs] =
  plus_fl_def minus_fl_def uminus_fl_def times_fl_def divide_fl_def zero_fl_def
  less_fl_def less_eq_fl_def

section \<open>The routines of package math and fmt the code calls\<close>

definition fl_is_nan :: "fl \<Rightarrow> bool" where "fl_is_nan f = (f = FNaN)"

text \<open>\<open>math.IsInf(f, sign)\<close>.\<close>

definition fl_is_inf :: "fl \<Rightarrow> int \<Rightarrow> bool" where
  "fl_is_inf f d =
     (case f of FInf s \<Rightarrow> (d \<ge> 0 \<and> \<not> s) \<or> (d \<le> 0 \<and> s) | _ \<Rightarrow> False)"

text \<open>\<open>math.Floor\<close> and \<open>math.Ceil\<close>; an integral or infinite argument is unchanged.\<close>

fun fl_floor :: "fl \<Rightarrow> fl" where
  "fl_floor (FNum s m e) =
     (if e \<ge> 0 \<or> m = 0 then FNum s m e
      else let p = 2 ^ nat (- e); v = fl_signed s m div int p in
           if v = 0 then FNum s 0 (- 1074) else fl_of_int v)"
| "fl_floor f = f"

definition fl_ceil :: "fl \<Rightarrow> fl" where
  "fl_ceil f = fl_neg (fl_floor (fl_neg f))"

text \<open>\<open>fmt.Sprintf("%f", x)\<close>: six decimals, correctly rounded, ties to even.\<close>

definition pad6 :: "string \<Rightarrow> string" where
  "pad6 s = replicate (6 - length s) (CHR ''0'') @ s"

definition fl_micro :: "nat \<Rightarrow> int \<Rightarrow> nat" where
  "fl_micro m e =
     (if e \<ge> 0 then m * 2 ^ nat e * 1000000
      else let p = 2 ^ nat (- e); n = m * 1000000; q = n div p; r = n mod p in
           if p < 2 * r \<or> (2 * r = p \<and> odd q) then Suc q else q)"

fun fl_fmt :: "fl \<Rightarrow> string" where
  "fl_fmt FNaN = ''NaN''"
| "fl_fmt (FInf s) = (if s then ''-Inf'' else ''+Inf'')"
| "fl_fmt (FNum s m e) =
     (let n = fl_micro m e in
      (if s then ''-'' else '''') @ nat_digits (n div 1000000) @ ''.'' @
      pad6 (nat_digits (n mod 1000000)))"

text \<open>
  The value of a decimal literal \<open>d * 10^p\<close>, correctly rounded: the conversion
  \<open>strconv.ParseFloat\<close> performs. An infinite result is its range error.
\<close>

definition fl_of_decimal :: "nat \<Rightarrow> int \<Rightarrow> fl" where
  "fl_of_decimal d p =
     (if p \<ge> 0 then fl_round False (d * 10 ^ nat p) 0 False
      else let t = 10 ^ nat (- p); k = 64 + bitlen t; n = d * 2 ^ k in
           fl_round False (n div t) (- int k) (n mod t \<noteq> 0))"

section \<open>Exactness below \<open>2^53\<close>\<close>

definition fl_real :: "fl \<Rightarrow> real" where
  "fl_real f = (case f of FNum s m e \<Rightarrow> of_int (fl_signed s m) * 2 powi e | _ \<Rightarrow> 0)"

fun fl_finite :: "fl \<Rightarrow> bool" where
  "fl_finite (FNum _ _ _) = True"
| "fl_finite _ = False"

lemma bitlen_le: "n < 2 ^ k \<Longrightarrow> bitlen n \<le> k"
proof (induction k arbitrary: n)
  case 0
  then show ?case by (simp add: bitlen.simps)
next
  case (Suc k)
  then have "n div 2 < 2 ^ k" by auto
  then have "bitlen (n div 2) \<le> k" by (rule Suc.IH)
  then show ?case by (subst bitlen.simps) simp
qed

lemma fl_signed_mult: "fl_signed s (m * k) = fl_signed s m * int k"
  by (simp add: fl_signed_def)

lemma fl_round_exact:
  assumes "m < 2 ^ 53" and "- 1074 \<le> e" and "e \<le> 971"
  shows "fl_finite (fl_round s m e False) \<and>
         fl_real (fl_round s m e False) = of_int (fl_signed s m) * 2 powi e"
proof -
  define k where "k = max (int (bitlen m) - 53) (- 1074 - e)"
  have "bitlen m \<le> 53" using assms(1) by (rule bitlen_le)
  with assms(2) have k: "k \<le> 0" by (simp add: k_def)
  have e: "e + k \<le> 971" using k assms(3) by simp
  show ?thesis
  proof (cases "m = 0")
    case True
    then show ?thesis by (simp add: fl_round_def fl_real_def fl_signed_def)
  next
    case False
    have "fl_round s m e False = FNum s (m * 2 ^ nat (- k)) (e + k)"
      using False k e unfolding fl_round_def k_def [symmetric] by (simp add: Let_def k_def)
    moreover have "(2::real) powi e = 2 ^ nat (- k) * 2 powi (e + k)"
    proof -
      have "(2::real) ^ nat (- k) = 2 powi (- k)" using k by (simp add: power_int_def)
      moreover have "(2::real) powi (- k) * 2 powi (e + k) = 2 powi e"
        by (simp add: power_int_add [symmetric])
      ultimately show ?thesis by simp
    qed
    ultimately show ?thesis
      by (simp add: fl_real_def fl_signed_mult)
  qed
qed

lemma fl_of_int_exact:
  assumes "\<bar>i\<bar> < 2 ^ 53"
  shows "fl_finite (fl_of_int i)" and "fl_real (fl_of_int i) = of_int i"
proof -
  have "nat \<bar>i\<bar> < 2 ^ 53" using assms by (simp add: nat_less_iff)
  from fl_round_exact [OF this, of 0 "i < 0"]
  show "fl_finite (fl_of_int i)" "fl_real (fl_of_int i) = of_int i"
    by (auto simp: fl_of_int_def fl_signed_def)
qed

lemma fl_align_real:
  assumes "fl_align m1 e1 m2 e2 = (a, b, e)"
  shows "real m1 * 2 powi e1 = real a * 2 powi e" and "real m2 * 2 powi e2 = real b * 2 powi e"
proof -
  have "(2::real) powi (e1 - e) * 2 powi e = 2 powi e1" "(2::real) powi (e2 - e) * 2 powi e = 2 powi e2"
    by (simp_all add: power_int_add [symmetric])
  moreover have "(2::real) powi (e1 - e) = 2 ^ nat (e1 - e)" "(2::real) powi (e2 - e) = 2 ^ nat (e2 - e)"
    using assms by (auto simp: fl_align_def Let_def power_int_def)
  ultimately show "real m1 * 2 powi e1 = real a * 2 powi e" "real m2 * 2 powi e2 = real b * 2 powi e"
    using assms by (auto simp: fl_align_def Let_def)
qed

lemma fl_signed_real: "of_int (fl_signed s m) = (if s then - 1 else 1 :: real) * real m"
  by (simp add: fl_signed_def)

text \<open>On finite numbers the comparisons are those of the reals they denote.\<close>

lemma fl_less_real:
  assumes "fl_finite f" and "fl_finite g"
  shows "f < g \<longleftrightarrow> fl_real f < fl_real g"
proof -
  obtain s1 m1 e1 s2 m2 e2 where fg: "f = FNum s1 m1 e1" "g = FNum s2 m2 e2"
    using assms by (cases f; cases g) auto
  obtain a b e where al: "fl_align m1 e1 m2 e2 = (a, b, e)"
    by (cases "fl_align m1 e1 m2 e2") auto
  have "fl_real f = of_int (fl_signed s1 a) * 2 powi e" "fl_real g = of_int (fl_signed s2 b) * 2 powi e"
    using fl_align_real [OF al] by (simp_all add: fg fl_real_def fl_signed_real mult.assoc)
  then show ?thesis
    by (simp add: fg less_fl_def al)
qed

lemma fl_eq_real:
  assumes "fl_finite f" and "fl_finite g"
  shows "fl_eq f g \<longleftrightarrow> fl_real f = fl_real g"
proof -
  obtain s1 m1 e1 s2 m2 e2 where fg: "f = FNum s1 m1 e1" "g = FNum s2 m2 e2"
    using assms by (cases f; cases g) auto
  obtain a b e where al: "fl_align m1 e1 m2 e2 = (a, b, e)"
    by (cases "fl_align m1 e1 m2 e2") auto
  have "fl_real f = of_int (fl_signed s1 a) * 2 powi e" "fl_real g = of_int (fl_signed s2 b) * 2 powi e"
    using fl_align_real [OF al] by (simp_all add: fg fl_real_def fl_signed_real mult.assoc)
  then show ?thesis
    by (simp add: fg al)
qed

lemma fl_nan_compare:
  "\<not> fl_eq FNaN f" "\<not> fl_eq f FNaN" "\<not> FNaN < f" "\<not> f < FNaN" "\<not> FNaN \<le> f" "\<not> f \<le> FNaN"
  by (cases f; simp add: less_fl_def less_eq_fl_def)+

end
