(* ===== verification/Bytecode.thy ===== *)
theory Bytecode
  imports Float64
begin

text \<open>
  \<open>pl/bytecode.go\<close>: the instruction set, the program object with its constant tables, the
  emitters and patchers the one-pass parser uses, and the disassembler. A \<open>*Module\<close> and a
  \<open>Template\<close> inside a program are references, kept as numbers. The locale \<open>const_pool\<close> is
  what the parser relies on when it adds a constant: the index it gets back reads the
  constant, and indices handed out before stay valid.
\<close>

section \<open>Instruction set\<close>

text \<open>
  The source's opcodes are \<open>int\<close> constants and an instruction may carry any number
  (\<open>runP\<close> stops the process on an unknown one), so they are numbers here too.
\<close>

type_synonym opcode = nat

abbreviation (input) BcPatch :: opcode where "BcPatch \<equiv> 0"
abbreviation (input) BcLoadInt :: opcode where "BcLoadInt \<equiv> 1"
abbreviation (input) BcLoadReal :: opcode where "BcLoadReal \<equiv> 2"
abbreviation (input) BcLoadStr :: opcode where "BcLoadStr \<equiv> 3"
abbreviation (input) BcLoadTrue :: opcode where "BcLoadTrue \<equiv> 4"
abbreviation (input) BcLoadFalse :: opcode where "BcLoadFalse \<equiv> 5"
abbreviation (input) BcLoadNull :: opcode where "BcLoadNull \<equiv> 6"
abbreviation (input) BcNewList :: opcode where "BcNewList \<equiv> 7"
abbreviation (input) BcAddList :: opcode where "BcAddList \<equiv> 8"
abbreviation (input) BcNewMap :: opcode where "BcNewMap \<equiv> 9"
abbreviation (input) BcAddMap :: opcode where "BcAddMap \<equiv> 10"
abbreviation (input) BcNewPair :: opcode where "BcNewPair \<equiv> 11"
abbreviation (input) BcToStr :: opcode where "BcToStr \<equiv> 12"
abbreviation (input) BcConStr :: opcode where "BcConStr \<equiv> 13"
abbreviation (input) BcStoreVar :: opcode where "BcStoreVar \<equiv> 14"
abbreviation (input) BcLoadVar :: opcode where "BcLoadVar \<equiv> 15"
abbreviation (input) BcDot :: opcode where "BcDot \<equiv> 16"
abbreviation (input) BcDotSet :: opcode where "BcDotSet \<equiv> 17"
abbreviation (input) BcIndex :: opcode where "BcIndex \<equiv> 18"
abbreviation (input) BcIndexSet :: opcode where "BcIndexSet \<equiv> 19"
abbreviation (input) BcLoadDollar :: opcode where "BcLoadDollar \<equiv> 20"
abbreviation (input) BcLoadLocal :: opcode where "BcLoadLocal \<equiv> 21"
abbreviation (input) BcStoreLocal :: opcode where "BcStoreLocal \<equiv> 22"
abbreviation (input) BcReserveLocal :: opcode where "BcReserveLocal \<equiv> 23"
abbreviation (input) BcLoadRegexp :: opcode where "BcLoadRegexp \<equiv> 24"
abbreviation (input) BcAction :: opcode where "BcAction \<equiv> 30"
abbreviation (input) BcAdd :: opcode where "BcAdd \<equiv> 31"
abbreviation (input) BcSub :: opcode where "BcSub \<equiv> 32"
abbreviation (input) BcMul :: opcode where "BcMul \<equiv> 33"
abbreviation (input) BcDiv :: opcode where "BcDiv \<equiv> 34"
abbreviation (input) BcPow :: opcode where "BcPow \<equiv> 35"
abbreviation (input) BcLt :: opcode where "BcLt \<equiv> 36"
abbreviation (input) BcLe :: opcode where "BcLe \<equiv> 37"
abbreviation (input) BcGt :: opcode where "BcGt \<equiv> 38"
abbreviation (input) BcGe :: opcode where "BcGe \<equiv> 39"
abbreviation (input) BcEq :: opcode where "BcEq \<equiv> 40"
abbreviation (input) BcNe :: opcode where "BcNe \<equiv> 41"
abbreviation (input) BcNot :: opcode where "BcNot \<equiv> 42"
abbreviation (input) BcNegate :: opcode where "BcNegate \<equiv> 43"
abbreviation (input) BcRegexpMatch :: opcode where "BcRegexpMatch \<equiv> 44"
abbreviation (input) BcRegexpNMatch :: opcode where "BcRegexpNMatch \<equiv> 45"
abbreviation (input) BcMod :: opcode where "BcMod \<equiv> 46"
abbreviation (input) BcJtrue :: opcode where "BcJtrue \<equiv> 51"
abbreviation (input) BcJfalse :: opcode where "BcJfalse \<equiv> 52"
abbreviation (input) BcAnd :: opcode where "BcAnd \<equiv> 53"
abbreviation (input) BcOr :: opcode where "BcOr \<equiv> 54"
abbreviation (input) BcTernary :: opcode where "BcTernary \<equiv> 55"
abbreviation (input) BcJump :: opcode where "BcJump \<equiv> 56"
abbreviation (input) BcSwap :: opcode where "BcSwap \<equiv> 61"
abbreviation (input) BcDup1 :: opcode where "BcDup1 \<equiv> 62"
abbreviation (input) BcDup2 :: opcode where "BcDup2 \<equiv> 63"
abbreviation (input) BcPop :: opcode where "BcPop \<equiv> 64"
abbreviation (input) BcSetSession :: opcode where "BcSetSession \<equiv> 71"
abbreviation (input) BcLoadSession :: opcode where "BcLoadSession \<equiv> 72"
abbreviation (input) BcStoreSession :: opcode where "BcStoreSession \<equiv> 73"
abbreviation (input) BcSetGlobal :: opcode where "BcSetGlobal \<equiv> 75"
abbreviation (input) BcLoadGlobal :: opcode where "BcLoadGlobal \<equiv> 76"
abbreviation (input) BcStoreGlobal :: opcode where "BcStoreGlobal \<equiv> 77"
abbreviation (input) BcICall :: opcode where "BcICall \<equiv> 83"
abbreviation (input) BcSCall :: opcode where "BcSCall \<equiv> 84"
abbreviation (input) BcVCall :: opcode where "BcVCall \<equiv> 85"
abbreviation (input) BcReturn :: opcode where "BcReturn \<equiv> 87"
abbreviation (input) BcYield :: opcode where "BcYield \<equiv> 88"
abbreviation (input) BcEmit :: opcode where "BcEmit \<equiv> 89"
abbreviation (input) BcNewIterator :: opcode where "BcNewIterator \<equiv> 90"
abbreviation (input) BcSetUpIterator :: opcode where "BcSetUpIterator \<equiv> 91"
abbreviation (input) BcHasIterator :: opcode where "BcHasIterator \<equiv> 92"
abbreviation (input) BcDerefIterator :: opcode where "BcDerefIterator \<equiv> 93"
abbreviation (input) BcNextIterator :: opcode where "BcNextIterator \<equiv> 94"
abbreviation (input) BcLoadIterator :: opcode where "BcLoadIterator \<equiv> 95"
abbreviation (input) BcNewClosure :: opcode where "BcNewClosure \<equiv> 97"
abbreviation (input) BcLoadUpvalue :: opcode where "BcLoadUpvalue \<equiv> 98"
abbreviation (input) BcStoreUpvalue :: opcode where "BcStoreUpvalue \<equiv> 99"
abbreviation (input) BcPushException :: opcode where "BcPushException \<equiv> 101"
abbreviation (input) BcPopException :: opcode where "BcPopException \<equiv> 102"
abbreviation (input) BcLoadException :: opcode where "BcLoadException \<equiv> 103"
abbreviation (input) BcLoadMethod :: opcode where "BcLoadMethod \<equiv> 104"
abbreviation (input) BcConfigPush :: opcode where "BcConfigPush \<equiv> 151"
abbreviation (input) BcConfigPushWithAttr :: opcode where "BcConfigPushWithAttr \<equiv> 152"
abbreviation (input) BcConfigPop :: opcode where "BcConfigPop \<equiv> 153"
abbreviation (input) BcConfigPropertySet :: opcode where "BcConfigPropertySet \<equiv> 155"
abbreviation (input) BcConfigPropertySetWithAttr :: opcode where "BcConfigPropertySetWithAttr \<equiv> 156"
abbreviation (input) BcConfigCommand :: opcode where "BcConfigCommand \<equiv> 157"
abbreviation (input) BcConfigCommandWithAttr :: opcode where "BcConfigCommandWithAttr \<equiv> 158"
abbreviation (input) BcTemplate :: opcode where "BcTemplate \<equiv> 200"
abbreviation (input) BcHalt :: opcode where "BcHalt \<equiv> 255"

record bytecode =
  opcode :: opcode
  argument :: nat

record sourceloc =
  sl_source :: string
  sl_offset :: nat
  sl_line :: nat
  sl_column :: nat

datatype progtype = ProgRule | ProgFunc | ProgSession | ProgExpression | ProgConfig | ProgIter

record upvalue =
  uv_index :: nat
  uv_onStack :: bool

record program =
  pr_module :: nat
  pr_name :: string
  localSize :: nat
  argSize :: nat
  tbReal :: "fl list"
  tbInt :: "int64 list"
  tbStr :: "string list"
  tbTemplate :: "nat list"
  tbRegexp :: "string list"
  bcList :: "bytecode list"
  dbgList :: "sourceloc list"
  progtype :: progtype
  pr_upvalue :: "upvalue list"

definition newProgram :: "nat \<Rightarrow> string \<Rightarrow> progtype \<Rightarrow> program" where
  "newProgram m n t =
     \<lparr>pr_module = m, pr_name = n, localSize = 0, argSize = 0, tbReal = [], tbInt = [],
      tbStr = [], tbTemplate = [], tbRegexp = [], bcList = [], dbgList = [], progtype = t,
      pr_upvalue = []\<rparr>"

definition newProgramEmpty :: "nat \<Rightarrow> string \<Rightarrow> progtype \<Rightarrow> program" where
  "newProgramEmpty m n t =
     (newProgram m n t)\<lparr>bcList := [\<lparr>opcode = BcHalt, argument = 0\<rparr>]\<rparr>"

definition freeCall :: "program \<Rightarrow> bool" where
  "freeCall p = (length (pr_upvalue p) = 0)"

definition upvalueSize :: "program \<Rightarrow> nat" where
  "upvalueSize p = length (pr_upvalue p)"

section \<open>Constant tables\<close>

text \<open>The search loop the three \<open>addX\<close> methods share: the first equal entry, from \<open>i\<close> on.\<close>

fun tb_find :: "('a \<Rightarrow> 'a \<Rightarrow> bool) \<Rightarrow> 'a list \<Rightarrow> 'a \<Rightarrow> nat \<Rightarrow> nat option" where
  "tb_find eq [] x i = None"
| "tb_find eq (y # ys) x i = (if eq y x then Some i else tb_find eq ys x (Suc i))"

definition addInt :: "program \<Rightarrow> int64 \<Rightarrow> program \<times> nat" where
  "addInt p i =
     (case tb_find (=) (tbInt p) i 0 of
        Some k \<Rightarrow> (p, k)
      | None \<Rightarrow> (p\<lparr>tbInt := tbInt p @ [i]\<rparr>, length (tbInt p)))"

definition addReal :: "program \<Rightarrow> fl \<Rightarrow> program \<times> nat" where
  "addReal p r =
     (case tb_find fl_eq (tbReal p) r 0 of
        Some k \<Rightarrow> (p, k)
      | None \<Rightarrow> (p\<lparr>tbReal := tbReal p @ [r]\<rparr>, length (tbReal p)))"

definition addStr :: "program \<Rightarrow> string \<Rightarrow> program \<times> nat" where
  "addStr p s =
     (case tb_find (=) (tbStr p) s 0 of
        Some k \<Rightarrow> (p, k)
      | None \<Rightarrow> (p\<lparr>tbStr := tbStr p @ [s]\<rparr>, length (tbStr p)))"

definition tb_idx :: "string \<Rightarrow> 'a list \<Rightarrow> nat \<Rightarrow> 'a res" where
  "tb_idx msg tb i = must (i < length tb) msg (Ok (tb ! i))"

definition idxInt :: "program \<Rightarrow> nat \<Rightarrow> int64 res" where
  "idxInt p = tb_idx ''invalid index(int)'' (tbInt p)"

definition idxReal :: "program \<Rightarrow> nat \<Rightarrow> fl res" where
  "idxReal p = tb_idx ''invalid index(real)'' (tbReal p)"

definition idxStr :: "program \<Rightarrow> nat \<Rightarrow> string res" where
  "idxStr p = tb_idx ''invalid index(str)'' (tbStr p)"

definition idxTemplate :: "program \<Rightarrow> nat \<Rightarrow> nat res" where
  "idxTemplate p = tb_idx ''invalid index(template)'' (tbTemplate p)"

definition idxRegexp :: "program \<Rightarrow> nat \<Rightarrow> string res" where
  "idxRegexp p = tb_idx ''invalid index(regexp)'' (tbRegexp p)"

text \<open>\<open>regexp.Compile\<close> is a parameter: \<open>None\<close> when it accepts the expression, else its error.\<close>

definition addRegexp :: "(string \<Rightarrow> string option) \<Rightarrow> program \<Rightarrow> string \<Rightarrow> (program \<times> nat) res" where
  "addRegexp compile p r =
     (case compile r of
        Some e \<Rightarrow> Err e
      | None \<Rightarrow> Ok (p\<lparr>tbRegexp := tbRegexp p @ [r]\<rparr>, length (tbRegexp p)))"

section \<open>Emitting and patching\<close>

definition emit1 :: "program \<Rightarrow> sourceloc \<Rightarrow> opcode \<Rightarrow> nat \<Rightarrow> program" where
  "emit1 p loc op arg =
     p\<lparr>bcList := bcList p @ [\<lparr>opcode = op, argument = arg\<rparr>], dbgList := dbgList p @ [loc]\<rparr>"

definition emit0 :: "program \<Rightarrow> sourceloc \<Rightarrow> opcode \<Rightarrow> program" where
  "emit0 p loc op =
     p\<lparr>bcList := bcList p @ [\<lparr>opcode = op, argument = 0\<rparr>], dbgList := dbgList p @ [loc]\<rparr>"

definition popLast :: "program \<Rightarrow> (program \<times> bytecode) res" where
  "popLast p =
     must (0 < length (bcList p)) ''not empty''
       (if length (bcList p) - 1 \<le> length (dbgList p)
        then Ok (p\<lparr>bcList := take (length (bcList p) - 1) (bcList p),
                  dbgList := take (length (bcList p) - 1) (dbgList p)\<rparr>,
                 bcList p ! (length (bcList p) - 1))
        else Panic ''slice bounds out of range'')"

definition label :: "program \<Rightarrow> nat" where
  "label p = length (bcList p)"

definition patch :: "program \<Rightarrow> sourceloc \<Rightarrow> program \<times> nat" where
  "patch p loc =
     (p\<lparr>bcList := bcList p @ [\<lparr>opcode = BcPatch, argument = 0\<rparr>], dbgList := dbgList p @ [loc]\<rparr>,
      length (bcList p))"

definition emit1At :: "program \<Rightarrow> nat \<Rightarrow> opcode \<Rightarrow> nat \<Rightarrow> program res" where
  "emit1At p i op arg =
     (if i < length (bcList p)
      then Ok (p\<lparr>bcList := (bcList p)[i := \<lparr>opcode = op, argument = arg\<rparr>]\<rparr>)
      else Panic ''index out of range'')"

definition emit0At :: "program \<Rightarrow> nat \<Rightarrow> opcode \<Rightarrow> program res" where
  "emit0At p i op = emit1At p i op 0"

section \<open>Source locations and names\<close>

text \<open>\<open>s[a:b]\<close> on a string.\<close>

definition go_substr :: "string \<Rightarrow> int \<Rightarrow> int \<Rightarrow> string res" where
  "go_substr s a b =
     (if 0 \<le> a \<and> a \<le> b \<and> b \<le> int (length s)
      then Ok (take (nat b - nat a) (drop (nat a) s))
      else Panic ''slice bounds out of range'')"

definition where_loc :: "sourceloc \<Rightarrow> string res" where
  "where_loc s =
     (let start = (if 32 \<le> sl_offset s then sl_offset s - 32 else 0);
          end = (if sl_offset s + 32 < length (sl_source s) then sl_offset s + 32
                 else length (sl_source s))
      in rbind (go_substr (sl_source s) (int start) (int end)) (\<lambda>t.
           Ok (''around ('' @ int_dec (int (sl_line s)) @ '', '' @ int_dec (int (sl_column s)) @
               '')@(---'' @ [CHR 0x0A, CHR 0x0A] @ t @ [CHR 0x0A, CHR 0x0A] @ ''---)'')))"

definition bytecode_names :: "(opcode \<times> string) list" where
  "bytecode_names =
    [(BcPatch, ''<patch>''),
     (BcAction, ''action''),
     (BcLoadInt, ''load-int''),
     (BcLoadReal, ''load-real''),
     (BcLoadStr, ''load-str''),
     (BcLoadTrue, ''load-true''),
     (BcLoadFalse, ''load-false''),
     (BcLoadNull, ''load-null''),
     (BcNewList, ''new-list''),
     (BcAddList, ''add-list''),
     (BcNewMap, ''new-map''),
     (BcAddMap, ''add-map''),
     (BcNewPair, ''new-pair''),
     (BcICall, ''icall''),
     (BcSCall, ''scall''),
     (BcReturn, ''return''),
     (BcYield, ''yield''),
     (BcNewIterator, ''new-iterator''),
     (BcLoadIterator, ''load-iterator''),
     (BcSetUpIterator, ''setup-iterator''),
     (BcHasIterator, ''has-iterator''),
     (BcDerefIterator, ''deref-iterator''),
     (BcNextIterator, ''next-iterator''),
     (BcToStr, ''to-str''),
     (BcConStr, ''con-str''),
     (BcLoadVar, ''load-var''),
     (BcStoreVar, ''store-var''),
     (BcDot, ''dot''),
     (BcIndex, ''index''),
     (BcLoadDollar, ''load-dollar''),
     (BcLoadLocal, ''load-local''),
     (BcStoreLocal, ''store-local''),
     (BcReserveLocal, ''reserve-local''),
     (BcAdd, ''add''),
     (BcSub, ''sub''),
     (BcMul, ''mul''),
     (BcDiv, ''div''),
     (BcMod, ''mod''),
     (BcPow, ''pow''),
     (BcLt, ''lt''),
     (BcLe, ''le''),
     (BcGt, ''gt''),
     (BcGe, ''ge''),
     (BcEq, ''eq''),
     (BcNe, ''ne''),
     (BcRegexpMatch, ''regexp-match''),
     (BcRegexpNMatch, ''regexp-nmatch''),
     (BcNot, ''not''),
     (BcNegate, ''negate''),
     (BcJfalse, ''jfalse''),
     (BcJtrue, ''jtrue''),
     (BcJump, ''jump''),
     (BcAnd, ''and''),
     (BcOr, ''or''),
     (BcTernary, ''ternary''),
     (BcSwap, ''swap''),
     (BcPop, ''pop''),
     (BcDup1, ''dup1''),
     (BcDup2, ''dup2''),
     (BcSetSession, ''set-session''),
     (BcLoadSession, ''load-session''),
     (BcStoreSession, ''store-session''),
     (BcSetGlobal, ''set-global''),
     (BcLoadGlobal, ''load-global''),
     (BcStoreGlobal, ''store-global''),
     (BcLoadRegexp, ''load-regexp''),
     (BcPushException, ''push-exception''),
     (BcPopException, ''pop-exception''),
     (BcLoadException, ''load-exception''),
     (BcLoadMethod, ''load-method''),
     (BcConfigPush, ''config-push''),
     (BcConfigPushWithAttr, ''config-push-with-attr''),
     (BcConfigPop, ''config-pop''),
     (BcConfigPropertySet, ''config-property-set''),
     (BcConfigPropertySetWithAttr, ''config-property-set-with-attr''),
     (BcConfigCommand, ''config-command''),
     (BcConfigCommandWithAttr, ''config-command-with-attr''),
     (BcNewClosure, ''new-closure''),
     (BcStoreUpvalue, ''store-upvalue''),
     (BcLoadUpvalue, ''load-upvalue''),
     (BcTemplate, ''template''),
     (BcHalt, ''halt'')]"

definition getBytecodeName :: "opcode \<Rightarrow> string" where
  "getBytecodeName bc =
     (case map_of bytecode_names bc of
        Some n \<Rightarrow> n
      | None \<Rightarrow> ''<unknown: '' @ int_dec (int bc) @ ''>'')"

text \<open>\<open>dumpWithProgram\<close>: the resolver reads the constant an instruction refers to.\<close>

definition bc_resolve :: "program \<Rightarrow> opcode \<Rightarrow> nat \<Rightarrow> string res" where
  "bc_resolve p op arg =
     (if op = BcLoadReal then rbind (idxReal p arg) (\<lambda>r. Ok (fl_fmt r))
      else if op \<in> {BcLoadStr, BcAction, BcDot} then idxStr p arg
      else if op = BcLoadRegexp then idxRegexp p arg
      else if op = BcTemplate then Ok ''[template]''
      else Ok ''<unknown>'')"

definition bc_dump :: "program \<Rightarrow> bytecode \<Rightarrow> string res" where
  "bc_dump p x =
     (let name = getBytecodeName (opcode x); arg = int_dec (int (argument x)) in
      if opcode x \<in> {BcLoadInt, BcLoadReal, BcLoadStr, BcAction, BcDot, BcLoadRegexp, BcTemplate}
      then rbind (bc_resolve p (opcode x) (argument x)) (\<lambda>r.
             Ok (name @ ''('' @ arg @ '':'' @ r @ '')''))
      else if opcode x \<in> {BcAddList, BcAddMap, BcICall, BcSCall, BcReturn, BcYield, BcConStr,
          BcLoadLocal, BcStoreLocal, BcReserveLocal, BcLoadVar, BcStoreVar, BcDotSet,
          BcAnd, BcOr, BcJfalse, BcJtrue, BcJump, BcTernary}
      then Ok (name @ ''('' @ arg @ '')'')
      else Ok (name @ ''['' @ arg @ '']''))"

fun typeName :: "progtype \<Rightarrow> string" where
  "typeName ProgRule = ''rule''"
| "typeName ProgFunc = ''function''"
| "typeName ProgSession = ''session''"
| "typeName _ = ''''"


section \<open>The interface of a constant table\<close>

text \<open>A run of additions.\<close>

fun add_all :: "(program \<Rightarrow> 'a \<Rightarrow> program \<times> nat) \<Rightarrow> program \<Rightarrow> 'a list \<Rightarrow> program \<times> nat list" where
  "add_all add p [] = (p, [])"
| "add_all add p (x # xs) =
     (let (p1, k) = add p x; (p2, ks) = add_all add p1 xs in (p2, k # ks))"

text \<open>
  \<open>add\<close> returns the program and an index; \<open>idx\<close> reads an index. \<open>dom\<close> are the constants
  the law is about (every value but NaN), \<open>same\<close> the equality the table deduplicates by.
\<close>

locale const_pool =
  fixes add :: "program \<Rightarrow> 'a \<Rightarrow> program \<times> nat"
    and idx :: "program \<Rightarrow> nat \<Rightarrow> 'a res"
    and same :: "'a \<Rightarrow> 'a \<Rightarrow> bool"
    and proper :: "'a \<Rightarrow> bool"
  assumes add_idx: "proper x \<Longrightarrow> add p x = (p', k) \<Longrightarrow> \<exists>y. idx p' k = Ok y \<and> same y x"
    and add_old: "add p x = (p', k) \<Longrightarrow> idx p i = Ok y \<Longrightarrow> idx p' i = Ok y"
    and add_code: "add p x = (p', k) \<Longrightarrow> bcList p' = bcList p \<and> dbgList p' = dbgList p"
begin

lemma add_all_old: "add_all add p xs = (p', ks) \<Longrightarrow> idx p i = Ok y \<Longrightarrow> idx p' i = Ok y"
proof (induction xs arbitrary: p ks)
  case Nil
  then show ?case by simp
next
  case (Cons x xs)
  then show ?case
    by (auto simp: Let_def split: prod.splits intro: add_old)
qed

lemma add_all_idx:
  "list_all proper xs \<Longrightarrow> add_all add p xs = (p', ks) \<Longrightarrow>
   list_all2 (\<lambda>k x. \<exists>y. idx p' k = Ok y \<and> same y x) ks xs"
proof (induction xs arbitrary: p p' ks)
  case Nil
  then show ?case by simp
next
  case (Cons x xs)
  obtain p1 k where a: "add p x = (p1, k)" by (cases "add p x")
  obtain p2 ks' where b: "add_all add p1 xs = (p2, ks')" by (cases "add_all add p1 xs")
  from Cons.prems a b have p': "p' = p2" "ks = k # ks'" by auto
  from add_idx [OF _ a] Cons.prems obtain y where "idx p1 k = Ok y" "same y x" by auto
  with add_all_old [OF b] p' Cons.IH [OF _ b] Cons.prems show ?case by auto
qed

lemma add_all_code: "add_all add p xs = (p', ks) \<Longrightarrow> bcList p' = bcList p \<and> dbgList p' = dbgList p"
proof (induction xs arbitrary: p ks)
  case Nil
  then show ?case by simp
next
  case (Cons x xs)
  then show ?case
    by (auto simp: Let_def split: prod.splits dest: add_code)
qed

end

lemma tb_find_Some: "tb_find eq tb x i = Some k \<Longrightarrow> i \<le> k \<and> k - i < length tb \<and> eq (tb ! (k - i)) x"
proof (induction tb arbitrary: i)
  case Nil
  then show ?case by simp
next
  case (Cons y ys)
  then show ?case by (auto split: if_splits simp: Suc_diff_le nth_Cons' dest!: Cons.IH)
qed

lemma tb_find_None: "tb_find eq tb x i = None \<longleftrightarrow> (\<forall>y\<in>set tb. \<not> eq y x)"
  by (induction tb arbitrary: i) auto

lemma tb_idx_append: "tb_idx m tb i = Ok y \<Longrightarrow> tb_idx m (tb @ ys) i = Ok y"
  by (auto simp: tb_idx_def must_def nth_append split: if_splits)

lemma fl_eq_refl: "r \<noteq> FNaN \<Longrightarrow> fl_eq r r"
  by (cases r) (auto simp: Let_def fl_align_def)

lemmas tb_defs = addInt_def addReal_def addStr_def idxInt_def idxReal_def idxStr_def

interpretation int_pool: const_pool addInt idxInt "(=)" "\<lambda>_. True"
  by unfold_locales
    (auto simp: tb_defs tb_idx_def must_def nth_append split: option.splits if_splits dest!: tb_find_Some)

interpretation str_pool: const_pool addStr idxStr "(=)" "\<lambda>_. True"
  by unfold_locales
    (auto simp: tb_defs tb_idx_def must_def nth_append split: option.splits if_splits dest!: tb_find_Some)

interpretation real_pool: const_pool addReal idxReal fl_eq "\<lambda>r. r \<noteq> FNaN"
  by unfold_locales
    (auto simp: tb_defs tb_idx_def must_def nth_append fl_eq_refl
      split: option.splits if_splits dest!: tb_find_Some)

text \<open>The tables hold no constant twice.\<close>

lemma addStr_distinct: "distinct (tbStr p) \<Longrightarrow> distinct (tbStr (fst (addStr p s)))"
  by (auto simp: addStr_def tb_find_None split: option.splits)

lemma addInt_distinct: "distinct (tbInt p) \<Longrightarrow> distinct (tbInt (fst (addInt p i)))"
  by (auto simp: addInt_def tb_find_None split: option.splits)

lemma add_all_distinct: "add_all addStr p ss = (p', ks) \<Longrightarrow> distinct (tbStr p) \<Longrightarrow> distinct (tbStr p')"
proof (induction ss arbitrary: p ks)
  case Nil
  then show ?case by simp
next
  case (Cons s ss)
  then show ?case using addStr_distinct [of p s] by (auto simp: Let_def split: prod.splits)
qed

section \<open>Emitters and patches\<close>

text \<open>Code and debug table stay aligned; a patch hole is overwritten in place.\<close>

definition prog_aligned :: "program \<Rightarrow> bool" where
  "prog_aligned p = (length (bcList p) = length (dbgList p))"

lemma emit_aligned [simp]:
  "prog_aligned (emit0 p l op) = prog_aligned p"
  "prog_aligned (emit1 p l op a) = prog_aligned p"
  "prog_aligned (fst (patch p l)) = prog_aligned p"
  by (simp_all add: prog_aligned_def emit0_def emit1_def patch_def)

lemma emitAt_aligned: "emit1At p i op a = Ok p' \<Longrightarrow> prog_aligned p' = prog_aligned p"
  by (auto simp: prog_aligned_def emit1At_def split: if_splits)

lemma popLast_aligned: "prog_aligned p \<Longrightarrow> popLast p = Ok (p', b) \<Longrightarrow> prog_aligned p'"
  by (auto simp: prog_aligned_def popLast_def must_def split: if_splits)

lemma popLast_emit: "prog_aligned p \<Longrightarrow> popLast (emit1 p l op a) = Ok (p, \<lparr>opcode = op, argument = a\<rparr>)"
  by (simp add: popLast_def emit1_def prog_aligned_def nth_append)

text \<open>
  A forward jump: the hole reserved by \<open>patch\<close>, whatever is emitted after it, and the hole
  filled with the current label; the code before and after the hole is untouched.
\<close>

lemma patch_then_emitAt:
  assumes "patch p l = (p1, hole)" and "bcList p2 = bcList p1 @ code"
  shows "\<exists>p3. emit1At p2 hole op (label p2) = Ok p3 \<and>
    bcList p3 = bcList p @ \<lparr>opcode = op, argument = label p2\<rparr> # code \<and>
    label p2 = Suc (length (bcList p) + length code)"
  using assms by (auto simp: patch_def emit1At_def label_def)

section \<open>Properties\<close>

text \<open>
  A run of string constants added to a program: each of them is read back at the index its
  addition returned, every index handed out before still reads what it read, the table holds
  no constant twice if it did not before, and no instruction changes.
\<close>

lemma addStr_pool_stable:
  "list_all2 (\<lambda>k s. idxStr (fst (add_all addStr p ss)) k = Ok s) (snd (add_all addStr p ss)) ss \<and>
   (\<forall>i s. idxStr p i = Ok s \<longrightarrow> idxStr (fst (add_all addStr p ss)) i = Ok s) \<and>
   (distinct (tbStr p) \<longrightarrow> distinct (tbStr (fst (add_all addStr p ss)))) \<and>
   bcList (fst (add_all addStr p ss)) = bcList p"
proof -
  obtain p' ks where a: "add_all addStr p ss = (p', ks)" by (cases "add_all addStr p ss")
  have "list_all2 (\<lambda>k s. idxStr p' k = Ok s) ks ss"
    using str_pool.add_all_idx [OF _ a] by (simp add: list_all_iff)
  moreover have "distinct (tbStr p) \<longrightarrow> distinct (tbStr p')"
    using add_all_distinct [OF a] by simp
  moreover have "bcList p' = bcList p" using str_pool.add_all_code [OF a] by simp
  ultimately show ?thesis using a str_pool.add_all_old [OF a] by simp
qed

lemma addStr_pool_stable_witness:
  "let p = fst (addStr (newProgram 0 ''rule'' ProgRule) ''x'') in
   idxStr p 0 = Ok ''x'' \<and> idxStr (fst (add_all addStr p [''y'', ''x''])) 0 = Ok ''x'' \<and>
   distinct (tbStr (fst (add_all addStr p [''y'', ''x''])))"
proof -
  let ?p = "fst (addStr (newProgram 0 ''rule'' ProgRule) ''x'')"
  have "idxStr ?p 0 = Ok ''x''" "distinct (tbStr ?p)" by code_simp+
  with addStr_pool_stable [of ?p "[''y'', ''x'']"] show ?thesis by (simp add: Let_def)
qed

text \<open>
  A forward jump. The hole reserved with \<open>patch\<close> and filled, after any code was emitted,
  with the label of that moment is the instruction that jumps exactly behind that code; the
  code before and after the hole is untouched, and the debug table still has one entry per
  instruction.
\<close>

lemma forward_jump_patched:
  assumes "patch p l = (p1, hole)" and "bcList p2 = bcList p1 @ code" and "dbgList p2 = dbgList p1 @ locs"
    and "length code = length locs" and "prog_aligned p"
  shows "\<exists>p3. emit1At p2 hole op (label p2) = Ok p3 \<and> prog_aligned p3 \<and>
    bcList p3 = bcList p @ \<lparr>opcode = op, argument = label p2\<rparr> # code \<and>
    label p2 = length (bcList p3)"
proof -
  from patch_then_emitAt [OF assms(1,2), of op] obtain p3 where p3:
    "emit1At p2 hole op (label p2) = Ok p3"
    "bcList p3 = bcList p @ \<lparr>opcode = op, argument = label p2\<rparr> # code"
    "label p2 = Suc (length (bcList p) + length code)"
    by blast
  have "prog_aligned p2" using assms by (auto simp: prog_aligned_def patch_def)
  with emitAt_aligned [OF p3(1)] p3 show ?thesis by (auto simp: prog_aligned_def)
qed


lemma forward_jump_patched_witness:
  "let p = newProgram 0 ''rule'' ProgRule; l = \<lparr>sl_source = '''', sl_offset = 0, sl_line = 1, sl_column = 1\<rparr>;
       p2 = emit0 (fst (patch p l)) l BcPop
   in \<exists>p3. emit1At p2 0 BcJfalse 2 = Ok p3 \<and> prog_aligned p3 \<and>
        bcList p3 = [\<lparr>opcode = BcJfalse, argument = 2\<rparr>, \<lparr>opcode = BcPop, argument = 0\<rparr>]"
proof -
  define p l where "p = newProgram 0 ''rule'' ProgRule"
    and "l = \<lparr>sl_source = '''', sl_offset = 0, sl_line = 1, sl_column = 1\<rparr>"
  define p1 where "p1 = fst (patch p l)"
  define p2 where "p2 = emit0 p1 l BcPop"
  have "patch p l = (p1, 0)" "bcList p2 = bcList p1 @ [\<lparr>opcode = BcPop, argument = 0\<rparr>]"
    "dbgList p2 = dbgList p1 @ [l]" "prog_aligned p" "bcList p = []" "label p2 = 2"
    by (simp_all add: p2_def p1_def p_def patch_def emit0_def newProgram_def prog_aligned_def label_def)
  with forward_jump_patched [of p l p1 0 p2 "[\<lparr>opcode = BcPop, argument = 0\<rparr>]" "[l]" BcJfalse]
  show ?thesis by (auto simp: Let_def p2_def p1_def p_def l_def)
qed

end
