(* ===== verification/GoSlice.thy ===== *)
theory GoSlice
  imports Prelude
begin

text \<open>
  Go slices: a window (offset, length, capacity) on a backing array in memory. Two slices
  may share an array, so that a write or an in-place append through one is seen through
  the other; \<open>pl.List\<close> hands such slices out. The locale \<open>seq_store\<close> is what a client of
  a slice relies on: the sequence it denotes and what get, set, append and reslice do to
  it. The interpretation at the end discharges its laws for the slices of this theory.
\<close>

record 'a mem =
  marr :: "nat \<Rightarrow> 'a list"
  mnext :: nat

record slice =
  sarr :: nat
  soff :: nat
  slen :: nat
  scap :: nat

section \<open>Operations\<close>

definition sl_empty :: slice where
  "sl_empty = \<lparr>sarr = 0, soff = 0, slen = 0, scap = 0\<rparr>"

text \<open>A fresh array holding \<open>xs\<close>, capacity exactly its length: a composite literal.\<close>

definition sl_new :: "'a mem \<Rightarrow> 'a list \<Rightarrow> 'a mem \<times> slice" where
  "sl_new m xs =
     (m\<lparr>marr := (marr m)(mnext m := xs), mnext := Suc (mnext m)\<rparr>,
      \<lparr>sarr = mnext m, soff = 0, slen = length xs, scap = length xs\<rparr>)"

definition sl_get :: "'a mem \<Rightarrow> slice \<Rightarrow> nat \<Rightarrow> 'a res" where
  "sl_get m s i =
     (if i < slen s then Ok (marr m (sarr s) ! (soff s + i)) else Panic ''index out of range'')"

definition sl_set :: "'a mem \<Rightarrow> slice \<Rightarrow> nat \<Rightarrow> 'a \<Rightarrow> 'a mem res" where
  "sl_set m s i v =
     (if i < slen s
      then Ok (m\<lparr>marr := (marr m)(sarr s := (marr m (sarr s))[soff s + i := v])\<rparr>)
      else Panic ''index out of range'')"

definition sl_abs :: "'a mem \<Rightarrow> slice \<Rightarrow> 'a list" where
  "sl_abs m s = take (slen s) (drop (soff s) (marr m (sarr s)))"

text \<open>
  \<open>append(s, v)\<close>: in place while there is capacity, otherwise into a fresh, larger array
  whose capacity is the runtime's choice \<open>grow\<close> (only \<open>max\<close>-ed with what is needed);
  \<open>z\<close> is the element type's zero value.
\<close>

definition sl_append :: "(nat \<Rightarrow> nat) \<Rightarrow> 'a \<Rightarrow> 'a mem \<Rightarrow> slice \<Rightarrow> 'a \<Rightarrow> 'a mem \<times> slice" where
  "sl_append grow z m s v =
     (if slen s < scap s then
        (m\<lparr>marr := (marr m)(sarr s := (marr m (sarr s))[soff s + slen s := v])\<rparr>,
         s\<lparr>slen := Suc (slen s)\<rparr>)
      else
        let c = max (Suc (slen s)) (grow (scap s));
            xs = sl_abs m s @ [v] @ replicate (c - Suc (slen s)) z
        in (m\<lparr>marr := (marr m)(mnext m := xs), mnext := Suc (mnext m)\<rparr>,
            \<lparr>sarr = mnext m, soff = 0, slen = Suc (slen s), scap = c\<rparr>))"

text \<open>\<open>s[a:b]\<close>: the bounds are checked against the capacity, not the length.\<close>

definition sl_slice :: "slice \<Rightarrow> int \<Rightarrow> int \<Rightarrow> slice res" where
  "sl_slice s a b =
     (if 0 \<le> a \<and> a \<le> b \<and> b \<le> int (scap s)
      then Ok \<lparr>sarr = sarr s, soff = soff s + nat a, slen = nat (b - a), scap = scap s - nat a\<rparr>
      else Panic ''slice bounds out of range'')"

section \<open>Well-formed slices and what the operations do to them\<close>

definition sl_ok :: "'a mem \<Rightarrow> slice \<Rightarrow> bool" where
  "sl_ok m s = (sarr s < mnext m \<and> soff s + scap s \<le> length (marr m (sarr s)) \<and> slen s \<le> scap s
    \<or> scap s = 0 \<and> slen s = 0 \<and> sarr s < mnext m)"

text \<open>\<open>sl_apart s t\<close>: what \<open>t\<close> denotes is not the cell after \<open>s\<close>'s last element.\<close>

definition sl_apart :: "slice \<Rightarrow> slice \<Rightarrow> bool" where
  "sl_apart s t = (sarr s \<noteq> sarr t \<or> soff t + slen t \<le> soff s + slen s \<or> soff s + slen s < soff t)"

lemma length_sl_abs: "sl_ok m s \<Longrightarrow> length (sl_abs m s) = slen s"
  by (auto simp: sl_abs_def sl_ok_def)

lemma sl_get_abs: "sl_ok m s \<Longrightarrow> i < slen s \<Longrightarrow> sl_get m s i = Ok (sl_abs m s ! i)"
  by (auto simp: sl_get_def sl_abs_def sl_ok_def)

lemma sl_set_abs:
  assumes "sl_ok m s" and "i < slen s"
  shows "\<exists>m'. sl_set m s i v = Ok m' \<and> sl_abs m' s = (sl_abs m s)[i := v] \<and> sl_ok m' s"
  using assms
  by (auto simp: sl_set_def sl_abs_def sl_ok_def drop_update_swap take_update_swap)

lemma sl_set_ok: "sl_set m s i v = Ok m' \<Longrightarrow> sl_ok m t \<Longrightarrow> sl_ok m' t"
  by (auto simp: sl_set_def sl_ok_def split: if_splits)

lemma sl_new_abs: "sl_new m xs = (m', s) \<Longrightarrow> sl_abs m' s = xs \<and> sl_ok m' s"
  by (auto simp: sl_new_def sl_abs_def sl_ok_def)

lemma sl_new_frame:
  "sl_new m xs = (m', s) \<Longrightarrow> sl_ok m t \<Longrightarrow> sl_abs m' t = sl_abs m t \<and> sl_ok m' t"
  by (auto simp: sl_new_def sl_abs_def sl_ok_def)

lemma sl_append_abs:
  assumes "sl_ok m s" and "sl_append g z m s v = (m', s')"
  shows "sl_abs m' s' = sl_abs m s @ [v]" and "sl_ok m' s'"
proof -
  have l: "length (sl_abs m s) = slen s" using assms(1) by (rule length_sl_abs)
  show "sl_abs m' s' = sl_abs m s @ [v]"
  proof (cases "slen s < scap s")
    case True
    then have b: "soff s + slen s < length (marr m (sarr s))"
      using assms(1) by (auto simp: sl_ok_def)
    have "take (Suc (slen s)) (drop (soff s) ((marr m (sarr s))[soff s + slen s := v])) =
          take (slen s) (drop (soff s) (marr m (sarr s))) @ [v]"
      using b by (simp add: take_Suc_conv_app_nth drop_update_swap)
    with True assms(2) show ?thesis
      by (auto simp: sl_append_def sl_abs_def)
  next
    case False
    with assms(2) l show ?thesis
      by (auto simp: sl_append_def Let_def sl_abs_def [of m'])
  qed
  show "sl_ok m' s'"
    using assms l by (auto simp: sl_append_def sl_ok_def Let_def split: if_splits)
qed

text \<open>
  What an append leaves alone: every well-formed slice whose elements do not include the
  cell an in-place append writes.
\<close>

lemma sl_append_frame:
  assumes "sl_ok m s" and "sl_append g z m s v = (m', s')" and "sl_ok m t" and "sl_apart s t"
  shows "sl_abs m' t = sl_abs m t" and "sl_ok m' t"
proof -
  have "sl_abs m' t = sl_abs m t \<and> sl_ok m' t"
  proof (cases "slen s < scap s \<and> sarr t = sarr s")
    case True
    with assms have m': "m' = m\<lparr>marr := (marr m)(sarr s := (marr m (sarr s))[soff s + slen s := v])\<rparr>"
      and ok: "sl_ok m' t"
      by (auto simp: sl_append_def sl_ok_def)
    have "take (slen t) (drop (soff t) ((marr m (sarr s))[soff s + slen s := v])) =
          take (slen t) (drop (soff t) (marr m (sarr s)))"
    proof (cases "soff s + slen s < soff t")
      case True
      then show ?thesis by (simp add: drop_update_cancel)
    next
      case False
      with assms(4) True have "soff t + slen t \<le> soff s + slen s"
        by (auto simp: sl_apart_def)
      with False show ?thesis
        by (simp add: drop_update_swap take_update_cancel)
    qed
    with True ok show ?thesis by (auto simp: sl_abs_def m')
  next
    case False
    with assms show ?thesis
      by (auto simp: sl_append_def sl_ok_def sl_abs_def Let_def split: if_splits)
  qed
  then show "sl_abs m' t = sl_abs m t" "sl_ok m' t" by auto
qed

lemma sl_slice_abs:
  assumes "sl_ok m s" and "0 \<le> a" and "a \<le> b" and "b \<le> int (slen s)"
  shows "\<exists>t. sl_slice s a b = Ok t \<and> sl_ok m t \<and> sl_abs m t = drop (nat a) (take (nat b) (sl_abs m s))"
proof -
  have le: "slen s \<le> scap s" using assms(1) by (auto simp: sl_ok_def)
  define t where "t = \<lparr>sarr = sarr s, soff = soff s + nat a, slen = nat (b - a), scap = scap s - nat a\<rparr>"
  have "sl_slice s a b = Ok t" using assms le by (simp add: sl_slice_def t_def)
  moreover have "sl_ok m t" using assms le by (auto simp: sl_ok_def t_def)
  moreover have "sl_abs m t = drop (nat a) (take (nat b) (sl_abs m s))"
  proof -
    have "nat (b - a) = nat b - nat a" "min (nat b) (slen s) = nat b"
      using assms by (simp_all add: nat_diff_distrib)
    then show ?thesis
      by (simp add: sl_abs_def t_def drop_take add.commute [of "soff s"])
  qed
  ultimately show ?thesis by blast
qed

section \<open>The interface a client of a slice relies on\<close>

locale seq_store =
  fixes abs :: "'m \<Rightarrow> 's \<Rightarrow> 'a list"
    and ok :: "'m \<Rightarrow> 's \<Rightarrow> bool"
    and get :: "'m \<Rightarrow> 's \<Rightarrow> nat \<Rightarrow> 'a res"
    and app :: "'m \<Rightarrow> 's \<Rightarrow> 'a \<Rightarrow> 'm \<times> 's"
  assumes get_abs: "ok m s \<Longrightarrow> i < length (abs m s) \<Longrightarrow> get m s i = Ok (abs m s ! i)"
    and app_abs: "ok m s \<Longrightarrow> app m s v = (m', s') \<Longrightarrow> abs m' s' = abs m s @ [v]"
    and app_ok: "ok m s \<Longrightarrow> app m s v = (m', s') \<Longrightarrow> ok m' s'"
begin

text \<open>A loop of appends denotes the concatenation.\<close>

lemma fold_app:
  "ok m s \<Longrightarrow> fold (\<lambda>v (m, s). app m s v) vs (m, s) = (m', s') \<Longrightarrow>
   ok m' s' \<and> abs m' s' = abs m s @ vs"
proof (induction vs arbitrary: m s)
  case Nil
  then show ?case by simp
next
  case (Cons v vs)
  obtain m1 s1 where a: "app m s v = (m1, s1)" by (cases "app m s v")
  with Cons.prems have "ok m1 s1" "abs m1 s1 = abs m s @ [v]"
    by (auto intro: app_ok app_abs)
  moreover from a Cons.prems(2) have "fold (\<lambda>v (m, s). app m s v) vs (m1, s1) = (m', s')"
    by simp
  ultimately show ?case using Cons.IH [of m1 s1] by auto
qed

end

interpretation slices: seq_store sl_abs sl_ok sl_get "sl_append g z" for g z
  by unfold_locales (auto simp: sl_get_abs length_sl_abs intro: sl_append_abs)

end
