(* ===== verification/Utf8.thy ===== *)
theory Utf8
  imports Prelude
begin

text \<open>
  Go strings are byte strings; \<open>[]rune(s)\<close> and \<open>string(r)\<close> convert them to and from
  Unicode code points. The lexer scans runes and the string iterator yields them. A byte
  is a \<open>char\<close>, a rune a \<open>nat\<close>; an invalid byte decodes to U+FFFD and is one byte wide,
  and encoding an invalid code point writes U+FFFD.
\<close>

type_synonym rune = nat

definition rune_error :: rune where "rune_error = 65533"

definition rune_valid :: "rune \<Rightarrow> bool" where
  "rune_valid r = (r < 55296 \<or> (57343 < r \<and> r < 1114112))"

definition byte :: "nat \<Rightarrow> char" where "byte n = char_of n"

definition utf8_rune :: "rune \<Rightarrow> string" where
  "utf8_rune r0 =
     (let r = (if rune_valid r0 then r0 else rune_error) in
      if r < 128 then [byte r]
      else if r < 2048 then [byte (192 + r div 64), byte (128 + r mod 64)]
      else if r < 65536 then
        [byte (224 + r div 4096), byte (128 + r div 64 mod 64), byte (128 + r mod 64)]
      else
        [byte (240 + r div 262144), byte (128 + r div 4096 mod 64),
         byte (128 + r div 64 mod 64), byte (128 + r mod 64)])"

text \<open>Evaluation takes the ASCII case first.\<close>

definition utf8_wide :: "rune \<Rightarrow> string" where
  "utf8_wide r = utf8_rune r"

lemma utf8_rune_code [code]: "utf8_rune r = (if r < 128 then [byte r] else utf8_wide r)"
  by (simp add: utf8_wide_def utf8_rune_def rune_valid_def)

lemma utf8_wide_code [code]:
  "utf8_wide r =
     (if r < 128 then [byte r]
      else if r < 2048 then [byte (192 + r div 64), byte (128 + r mod 64)]
      else if \<not> rune_valid r then [byte 239, byte 191, byte 189]
      else if r < 65536 then
        [byte (224 + r div 4096), byte (128 + r div 64 mod 64), byte (128 + r mod 64)]
      else
        [byte (240 + r div 262144), byte (128 + r div 4096 mod 64),
         byte (128 + r div 64 mod 64), byte (128 + r mod 64)])"
  by (simp add: utf8_wide_def utf8_rune_def rune_valid_def rune_error_def Let_def)

definition utf8_encode :: "rune list \<Rightarrow> string" where
  "utf8_encode rs = concat (map utf8_rune rs)"

definition cont :: "nat \<Rightarrow> bool" where "cont b = (128 \<le> b \<and> b < 192)"

text \<open>The first rune of a non-empty byte sequence and its width, by Go's table of valid leads.\<close>

fun utf8_first :: "nat list \<Rightarrow> rune \<times> nat" where
  "utf8_first [] = (rune_error, 0)"
| "utf8_first (b0 # bs) =
     (if b0 < 128 then (b0, 1)
      else case bs of
        [] \<Rightarrow> (rune_error, 1)
      | b1 # bs1 \<Rightarrow>
          if 194 \<le> b0 \<and> b0 < 224 then
            (if cont b1 then ((b0 - 192) * 64 + (b1 - 128), 2) else (rune_error, 1))
          else case bs1 of
            [] \<Rightarrow> (rune_error, 1)
          | b2 # bs2 \<Rightarrow>
              if 224 \<le> b0 \<and> b0 < 240 then
                (if cont b1 \<and> (b0 = 224 \<longrightarrow> 160 \<le> b1) \<and> (b0 = 237 \<longrightarrow> b1 < 160) \<and> cont b2
                 then ((b0 - 224) * 4096 + (b1 - 128) * 64 + (b2 - 128), 3) else (rune_error, 1))
              else case bs2 of
                [] \<Rightarrow> (rune_error, 1)
              | b3 # _ \<Rightarrow>
                  if 240 \<le> b0 \<and> b0 < 245 \<and> cont b1 \<and> (b0 = 240 \<longrightarrow> 144 \<le> b1) \<and>
                     (b0 = 244 \<longrightarrow> b1 < 144) \<and> cont b2 \<and> cont b3
                  then ((b0 - 240) * 262144 + (b1 - 128) * 4096 + (b2 - 128) * 64 + (b3 - 128), 4)
                  else (rune_error, 1))"

function utf8_runes :: "nat list \<Rightarrow> rune list" where
  "utf8_runes [] = []"
| "utf8_runes (b # bs) =
     (let (r, w) = utf8_first (b # bs) in r # utf8_runes (drop (w - 1) bs))"
  by pat_completeness auto
termination by (relation "measure length") auto

definition utf8_decode :: "string \<Rightarrow> rune list" where
  "utf8_decode s = utf8_runes (map of_char s)"

text \<open>Runes written here as ASCII characters.\<close>

definition runes :: "string \<Rightarrow> rune list" where "runes s = map of_char s"

definition rune_of :: "char \<Rightarrow> rune" where "rune_of c = of_char c"

section \<open>Decoding what was encoded gives the runes back\<close>

lemma of_char_byte: "n < 256 \<Longrightarrow> (of_char (byte n) :: nat) = n"
  by (simp add: byte_def)

lemma cont_mod: "cont (128 + n mod 64)"
  by (simp add: cont_def)

lemma utf8_first_rune:
  assumes "rune_valid r"
  shows "utf8_first (map of_char (utf8_rune r) @ bs) = (r, length (utf8_rune r))"
proof -
  note [simp] = utf8_rune_def Let_def assms of_char_byte cont_mod
  consider "r < 128" | "128 \<le> r" "r < 2048" | "2048 \<le> r" "r < 65536" | "65536 \<le> r" "r < 1114112"
    using assms unfolding rune_valid_def by linarith
  then show ?thesis
  proof cases
    case 1
    then show ?thesis by simp
  next
    case 2
    then have "r div 64 < 32" "2 \<le> r div 64" by auto
    then show ?thesis using 2 by simp
  next
    case 3
    have d: "r div 4096 < 16" using 3 by auto
    have dm: "r div 4096 = r div 64 div 64" by (simp add: div_mult2_eq [symmetric])
    have e: "r div 4096 * 4096 + r div 64 mod 64 * 64 + r mod 64 = r"
      using div_mult_mod_eq [of r 64] div_mult_mod_eq [of "r div 64" 64] dm by linarith
    have f: "r div 4096 = 0 \<Longrightarrow> 32 \<le> r div 64 mod 64"
      using 3 e mod_less_divisor [of 64 r] by linarith
    have g: "r div 4096 = 13 \<Longrightarrow> r div 64 mod 64 < 32"
      using assms 3 e unfolding rune_valid_def by linarith
    have "utf8_rune r = [byte (224 + r div 4096), byte (128 + r div 64 mod 64), byte (128 + r mod 64)]"
      using 3 by simp
    then show ?thesis using d e f g by (simp add: cont_mod)
  next
    case 4
    have d: "r div 262144 < 5" using 4 by auto
    have dm: "r div 4096 = r div 64 div 64" "r div 262144 = r div 4096 div 64"
      by (simp_all add: div_mult2_eq [symmetric])
    have e: "r div 262144 * 262144 + r div 4096 mod 64 * 4096 + r div 64 mod 64 * 64 + r mod 64 = r"
      using div_mult_mod_eq [of r 64] div_mult_mod_eq [of "r div 64" 64]
        div_mult_mod_eq [of "r div 4096" 64] dm by linarith
    have m: "r mod 64 < 64" "r div 64 mod 64 < 64" by simp_all
    have f: "r div 262144 = 0 \<Longrightarrow> 16 \<le> r div 4096 mod 64"
      using 4 e m by linarith
    have g: "r div 262144 = 4 \<Longrightarrow> r div 4096 mod 64 < 16"
      using 4 e by linarith
    have "utf8_rune r = [byte (240 + r div 262144), byte (128 + r div 4096 mod 64),
         byte (128 + r div 64 mod 64), byte (128 + r mod 64)]"
      using 4 by simp
    then show ?thesis using d e f g by (simp add: cont_mod)
  qed
qed

lemma utf8_rune_nonempty [simp]: "utf8_rune r \<noteq> []"
  by (simp add: utf8_rune_def Let_def)

lemma utf8_runes_step:
  assumes "bs \<noteq> []" and "utf8_first bs = (r, w)" and "0 < w"
  shows "utf8_runes bs = r # utf8_runes (drop w bs)"
  using assms by (cases bs; cases w) (auto simp del: utf8_first.simps)

lemma utf8_runes_rune:
  assumes "rune_valid r"
  shows "utf8_runes (map of_char (utf8_rune r) @ bs) = r # utf8_runes bs"
proof -
  have "utf8_runes (map of_char (utf8_rune r) @ bs) =
        r # utf8_runes (drop (length (utf8_rune r)) (map of_char (utf8_rune r) @ bs))"
    by (rule utf8_runes_step) (simp_all add: utf8_first_rune [OF assms] del: utf8_first.simps)
  then show ?thesis by simp
qed

lemma utf8_decode_encode:
  "list_all rune_valid rs \<Longrightarrow> utf8_decode (utf8_encode rs) = rs"
proof (induction rs)
  case Nil
  then show ?case by (simp add: utf8_decode_def utf8_encode_def)
next
  case (Cons r rs)
  then show ?case
    by (simp add: utf8_decode_def utf8_encode_def utf8_runes_rune)
qed

lemma utf8_decode_ascii:
  "list_all (\<lambda>c. (of_char c :: nat) < 128) s \<Longrightarrow> utf8_decode s = runes s"
  unfolding utf8_decode_def runes_def by (induction s) auto

lemma utf8_encode_Cons: "utf8_encode (r # rs) = utf8_rune r @ utf8_encode rs"
  by (simp add: utf8_encode_def)

lemma utf8_encode_append: "utf8_encode (xs @ ys) = utf8_encode xs @ utf8_encode ys"
  by (simp add: utf8_encode_def)

end
