(* ===== verification/ObjMap.thy ===== *)
theory ObjMap
  imports Prelude "HOL-Library.Multiset"
begin

text \<open>
  \<open>pl/obj_map.go\<close>: the script's map. A Go map holds the values, each with the index of its
  key in the key slice \<open>m_key\<close>, which makes the map iterable in insertion order; a deleted
  key leaves a tombstone there. The Go map is an association list with distinct keys; the
  order in which \<open>range\<close> walks it is the runtime's choice and enters as \<open>ord\<close> (a
  permutation), and so does the capacity \<open>append\<close> picks, \<open>grow\<close>. The locale
  \<open>string_map\<close> is what the rest of the interpreter relies on; the theory ends with what
  iteration really visits.
\<close>

record 'v mapval =
  mv_val :: 'v
  mv_index :: nat

record mapkey =
  mk_key :: string
  mk_use :: bool

record 'v gomap =
  m_data :: "(string \<times> 'v mapval) list"
  m_key :: "mapkey list"
  m_cap :: nat

section \<open>Operations\<close>

definition NewMap :: "'v gomap" where
  "NewMap = \<lparr>m_data = [], m_key = [], m_cap = 0\<rparr>"

definition Map_Length :: "'v gomap \<Rightarrow> nat" where
  "Map_Length m = length (m_data m)"

definition Map_Has :: "'v gomap \<Rightarrow> string \<Rightarrow> bool" where
  "Map_Has m key = (map_of (m_data m) key \<noteq> None)"

text \<open>\<open>append(m.key, ...)\<close> and what it does to the slice's capacity.\<close>

definition cap_after_append :: "(nat \<Rightarrow> nat) \<Rightarrow> nat \<Rightarrow> nat \<Rightarrow> nat" where
  "cap_after_append grow len cap = (if len < cap then cap else max (Suc len) (grow cap))"

definition Map_Set :: "(nat \<Rightarrow> nat) \<Rightarrow> 'v gomap \<Rightarrow> string \<Rightarrow> 'v \<Rightarrow> 'v gomap" where
  "Map_Set grow m key v =
     (case map_of (m_data m) key of
        Some old \<Rightarrow> m\<lparr>m_data := AList.update key \<lparr>mv_val = v, mv_index = mv_index old\<rparr> (m_data m)\<rparr>
      | None \<Rightarrow>
          (let ki = length (m_key m) in
           m\<lparr>m_key := m_key m @ [\<lparr>mk_key = key, mk_use = True\<rparr>],
             m_cap := cap_after_append grow (length (m_key m)) (m_cap m),
             m_data := AList.update key \<lparr>mv_val = v, mv_index = ki\<rparr> (m_data m)\<rparr>))"

text \<open>The loop of \<open>tryKeyGC\<close> over the Go map, one entry at a time.\<close>

fun gc_loop :: "(nat \<Rightarrow> nat) \<Rightarrow> (string \<times> 'v mapval) list \<Rightarrow> 'v gomap \<Rightarrow> 'v gomap" where
  "gc_loop grow [] m = m"
| "gc_loop grow ((k, v) # es) m =
     gc_loop grow es
       (m\<lparr>m_data := AList.update k \<lparr>mv_val = mv_val v, mv_index = length (m_key m)\<rparr> (m_data m),
          m_cap := cap_after_append grow (length (m_key m)) (m_cap m),
          m_key := m_key m @ [\<lparr>mk_key = k, mk_use = True\<rparr>]\<rparr>)"

text \<open>
  \<open>nkey\<close> is made with \<open>len(m.key)\<close> zero entries in front, not empty with that capacity:
  the collected keys are appended after as many tombstones as there were keys.
\<close>

definition tryKeyGC ::
  "(nat \<Rightarrow> nat) \<Rightarrow> ((string \<times> 'v mapval) list \<Rightarrow> (string \<times> 'v mapval) list) \<Rightarrow> 'v gomap \<Rightarrow> 'v gomap"
where
  "tryKeyGC grow ord m =
     (if Map_Length m * 2 < m_cap m then
        gc_loop grow (ord (m_data m))
          (m\<lparr>m_key := replicate (length (m_key m)) \<lparr>mk_key = '''', mk_use = False\<rparr>,
             m_cap := length (m_key m)\<rparr>)
      else m)"

definition Map_Del ::
  "(nat \<Rightarrow> nat) \<Rightarrow> ((string \<times> 'v mapval) list \<Rightarrow> (string \<times> 'v mapval) list) \<Rightarrow>
   'v gomap \<Rightarrow> string \<Rightarrow> ('v gomap \<times> bool) res"
where
  "Map_Del grow ord m key =
     (case map_of (m_data m) key of
        None \<Rightarrow> Ok (m, False)
      | Some x \<Rightarrow>
          if mv_index x < length (m_key m) then
            (let m1 = m\<lparr>m_key := (m_key m)[mv_index x := \<lparr>mk_key = '''', mk_use = False\<rparr>]\<rparr>;
                 m2 = tryKeyGC grow ord m1
             in Ok (m2\<lparr>m_data := AList.delete key (m_data m2)\<rparr>, True))
          else Panic ''index out of range'')"

definition Map_Get :: "'v gomap \<Rightarrow> string \<Rightarrow> 'v option" where
  "Map_Get m key = map_option mv_val (map_of (m_data m) key)"

section \<open>The iterator\<close>

text \<open>The loop \<open>init\<close> and \<open>Next\<close> share: skip tombstones below the bound \<open>l\<close>.\<close>

function mi_skip :: "mapkey list \<Rightarrow> nat \<Rightarrow> nat \<Rightarrow> nat res" where
  "mi_skip ks l i =
     (if i < l then
        if i < length ks then (if mk_use (ks ! i) then Ok i else mi_skip ks l (Suc i))
        else Panic ''index out of range''
      else Ok i)"
  by pat_completeness auto
termination by (relation "measure (\<lambda>(ks, l, i). l - i)") auto

declare mi_skip.simps [simp del]

definition MapIter_init :: "'v gomap \<Rightarrow> nat \<Rightarrow> nat res" where
  "MapIter_init m i = mi_skip (m_key m) (Map_Length m) i"

definition MapIter_Has :: "'v gomap \<Rightarrow> nat \<Rightarrow> bool" where
  "MapIter_Has m i = (i < Map_Length m)"

text \<open>\<open>Next\<close>: the new index; its boolean result is \<open>MapIter_Has\<close> there.\<close>

definition MapIter_Next :: "'v gomap \<Rightarrow> nat \<Rightarrow> nat res" where
  "MapIter_Next m i = mi_skip (m_key m) (Map_Length m) (Suc i)"

definition MapIter_Deref :: "'v gomap \<Rightarrow> nat \<Rightarrow> nat \<Rightarrow> (string \<times> 'v) res" where
  "MapIter_Deref m sz i =
     (if sz \<noteq> Map_Length m then Err ''map is been modified during iteration''
      else if \<not> MapIter_Has m i then Err ''iterator out of bound''
      else if i < length (m_key m) then
        (if \<not> mk_use (m_key m ! i) then Err ''map is been modified during iteration''
         else case map_of (m_data m) (mk_key (m_key m ! i)) of
                None \<Rightarrow> Err ''map is been modified during iteration''
              | Some v \<Rightarrow> Ok (mk_key (m_key m ! i), mv_val v))
      else Panic ''index out of range'')"

section \<open>The interface the interpreter relies on\<close>

locale string_map =
  fixes empty :: 'm
    and setm :: "'m \<Rightarrow> string \<Rightarrow> 'v \<Rightarrow> 'm"
    and del :: "'m \<Rightarrow> string \<Rightarrow> ('m \<times> bool) res"
    and get :: "'m \<Rightarrow> string \<Rightarrow> 'v option"
    and len :: "'m \<Rightarrow> nat"
    and inv :: "'m \<Rightarrow> bool"
  assumes inv_empty: "inv empty"
    and get_empty: "get empty = Map.empty"
    and inv_set: "inv m \<Longrightarrow> inv (setm m k v)"
    and get_set: "inv m \<Longrightarrow> get (setm m k v) = (get m)(k \<mapsto> v)"
    and del_ok: "inv m \<Longrightarrow> \<exists>m'. del m k = Ok (m', get m k \<noteq> None) \<and> inv m' \<and> get m' = (get m)(k := None)"
    and len_card: "inv m \<Longrightarrow> len m = card (dom (get m))"
    and fin: "inv m \<Longrightarrow> finite (dom (get m))"
begin

text \<open>A map literal: the last binding of a key wins.\<close>

lemma fold_set:
  "inv m \<Longrightarrow> inv (fold (\<lambda>(k, v) m. setm m k v) kvs m) \<and>
   get (fold (\<lambda>(k, v) m. setm m k v) kvs m) = get m ++ map_of (rev kvs)"
proof (induction kvs arbitrary: m)
  case Nil
  then show ?case by simp
next
  case (Cons kv kvs)
  obtain k v where kv: "kv = (k, v)" by (cases kv)
  have "inv (setm m k v)" "get (setm m k v) = (get m)(k \<mapsto> v)"
    using Cons.prems by (auto intro: inv_set get_set)
  with Cons.IH [of "setm m k v"] show ?case
    by (auto simp: kv map_add_def fun_eq_iff split: option.splits)
qed

lemma del_set:
  assumes "inv m" and "get m k = None"
  shows "\<exists>m'. del (setm m k v) k = Ok (m', True) \<and> get m' = get m"
proof -
  have "inv (setm m k v)" using assms by (auto intro: inv_set)
  from del_ok [OF this, of k] assms show ?thesis
    by (auto simp: get_set fun_upd_idem)
qed

lemma len_set: "inv m \<Longrightarrow> len (setm m k v) = (if get m k = None then Suc (len m) else len m)"
  by (auto simp: len_card inv_set get_set fin insert_absorb domI domIff card_insert_if)

end

section \<open>The invariant of the key slice\<close>

definition Map_inv :: "'v gomap \<Rightarrow> bool" where
  "Map_inv m \<longleftrightarrow> distinct (map fst (m_data m)) \<and> length (m_key m) \<le> m_cap m \<and>
     (\<forall>k mv. map_of (m_data m) k = Some mv \<longrightarrow>
        mv_index mv < length (m_key m) \<and> m_key m ! mv_index mv = \<lparr>mk_key = k, mk_use = True\<rparr>)"

lemma cap_after_append_ge: "len \<le> cap \<Longrightarrow> Suc len \<le> cap_after_append g len cap"
  by (simp add: cap_after_append_def)

lemma Map_inv_New: "Map_inv NewMap"
  by (simp add: Map_inv_def NewMap_def)

lemma distinct_update: "distinct (map fst al) \<Longrightarrow> distinct (map fst (AList.update k v al))"
  by (simp add: AList.distinct_update)

lemma Map_inv_Set: "Map_inv m \<Longrightarrow> Map_inv (Map_Set g m k v)"
  by (auto simp: Map_inv_def Map_Set_def Let_def AList.distinct_update update_conv' nth_append
      cap_after_append_ge less_Suc_eq simp del: map_of_eq_Some_iff split: option.splits if_splits)

lemma Map_Get_Set: "Map_Get (Map_Set g m k v) = (Map_Get m)(k \<mapsto> v)"
  by (auto simp: Map_Get_def Map_Set_def Let_def update_conv' fun_eq_iff split: option.splits)

lemma dom_Map_Get: "dom (Map_Get m) = fst ` set (m_data m)"
  by (auto simp: Map_Get_def dom_def dom_map_of_conv_image_fst [symmetric] simp del: map_of_eq_Some_iff)

lemma Map_Length_card: "Map_inv m \<Longrightarrow> Map_Length m = card (dom (Map_Get m))"
proof -
  assume "Map_inv m"
  then have d: "distinct (map fst (m_data m))" by (simp add: Map_inv_def)
  with dom_Map_Get [of m] show ?thesis
    by (metis Map_Length_def distinct_card length_map list.set_map)
qed

lemma Map_dom_finite: "finite (dom (Map_Get m))"
  by (simp add: dom_Map_Get)

text \<open>
  The collection's loop: the entries still to come are collected at the end of the key
  slice, so afterwards every value has an index of its own key.
\<close>

lemma gc_loop_inv:
  assumes "distinct (map fst (m_data m))" and "length (m_key m) \<le> m_cap m"
    and "distinct (map fst es)" and "fst ` set es \<subseteq> fst ` set (m_data m)"
    and "\<And>k v. (k, v) \<in> set es \<Longrightarrow> \<exists>w. map_of (m_data m) k = Some w \<and> mv_val w = mv_val v"
    and "\<And>k mv. map_of (m_data m) k = Some mv \<Longrightarrow> k \<notin> fst ` set es \<Longrightarrow>
          mv_index mv < length (m_key m) \<and> m_key m ! mv_index mv = \<lparr>mk_key = k, mk_use = True\<rparr>"
  shows "Map_inv (gc_loop g es m) \<and> Map_Get (gc_loop g es m) = Map_Get m"
  using assms
proof (induction es arbitrary: m)
  case Nil
  then show ?case by (auto simp: Map_inv_def)
next
  case (Cons e es)
  obtain k v where e: "e = (k, v)" by (cases e)
  let ?m = "m\<lparr>m_data := AList.update k \<lparr>mv_val = mv_val v, mv_index = length (m_key m)\<rparr> (m_data m),
          m_cap := cap_after_append g (length (m_key m)) (m_cap m),
          m_key := m_key m @ [\<lparr>mk_key = k, mk_use = True\<rparr>]\<rparr>"
  have get: "Map_Get ?m = Map_Get m"
    using Cons.prems(5) [of k v] e
    by (auto simp: Map_Get_def update_conv' fun_eq_iff)
  have "Map_inv (gc_loop g es ?m) \<and> Map_Get (gc_loop g es ?m) = Map_Get ?m"
  proof (rule Cons.IH)
    show "distinct (map fst (m_data ?m))" using Cons.prems(1) by (simp add: AList.distinct_update)
    show "length (m_key ?m) \<le> m_cap ?m" using Cons.prems(2) by (simp add: cap_after_append_ge)
    show "distinct (map fst es)" using Cons.prems(3) by simp
    show "fst ` set es \<subseteq> fst ` set (m_data ?m)"
      using Cons.prems(4) by (auto simp: dom_map_of_conv_image_fst [symmetric] update_conv')
    fix k' v' assume "(k', v') \<in> set es"
    with Cons.prems(3,5) e show "\<exists>w. map_of (m_data ?m) k' = Some w \<and> mv_val w = mv_val v'"
      by (force simp: update_conv')
  next
    fix k' mv assume "map_of (m_data ?m) k' = Some mv" and "k' \<notin> fst ` set es"
    with Cons.prems(6) e
    show "mv_index mv < length (m_key ?m) \<and> m_key ?m ! mv_index mv = \<lparr>mk_key = k', mk_use = True\<rparr>"
      by (auto simp: update_conv' nth_append split: if_splits)
  qed
  with get e show ?case by simp
qed

lemma tryKeyGC_inv:
  assumes "distinct (map fst (m_data m))" and "length (m_key m) \<le> m_cap m"
    and "\<And>es. mset (ord es) = mset es" and "Map_Length m * 2 < m_cap m"
  shows "Map_inv (tryKeyGC g ord m) \<and> Map_Get (tryKeyGC g ord m) = Map_Get m"
proof -
  let ?m = "m\<lparr>m_key := replicate (length (m_key m)) \<lparr>mk_key = '''', mk_use = False\<rparr>,
             m_cap := length (m_key m)\<rparr>"
  have s: "set (ord (m_data m)) = set (m_data m)" using assms(3) by (metis mset_eq_setD)
  have d: "distinct (map fst (ord (m_data m)))"
    by (metis assms(1,3) mset_eq_imp_distinct_iff mset_map)
  have "Map_inv (gc_loop g (ord (m_data m)) ?m) \<and> Map_Get (gc_loop g (ord (m_data m)) ?m) = Map_Get ?m"
  proof (rule gc_loop_inv)
    fix k v assume "(k, v) \<in> set (ord (m_data m))"
    then have "map_of (m_data m) k = Some v" using s assms(1) by simp
    then show "\<exists>w. map_of (m_data ?m) k = Some w \<and> mv_val w = mv_val v" by simp
  next
    fix k mv assume "map_of (m_data ?m) k = Some mv" and "k \<notin> fst ` set (ord (m_data m))"
    then show "mv_index mv < length (m_key ?m) \<and> m_key ?m ! mv_index mv = \<lparr>mk_key = k, mk_use = True\<rparr>"
      using s by (force dest: map_of_SomeD)
  qed (use assms s d in auto)
  moreover have "Map_Get ?m = Map_Get m" by (simp add: Map_Get_def fun_eq_iff)
  ultimately show ?thesis using assms(4) by (simp add: tryKeyGC_def)
qed

lemma Map_Del_ok:
  assumes inv: "Map_inv m" and ord: "\<And>es. mset (ord es) = mset es"
  shows "\<exists>m'. Map_Del g ord m k = Ok (m', Map_Get m k \<noteq> None) \<and> Map_inv m' \<and>
              Map_Get m' = (Map_Get m)(k := None)"
proof (cases "map_of (m_data m) k")
  case None
  with inv show ?thesis
    by (auto simp: Map_Del_def Map_Get_def fun_eq_iff)
next
  case (Some x)
  let ?m1 = "m\<lparr>m_key := (m_key m)[mv_index x := \<lparr>mk_key = '''', mk_use = False\<rparr>]\<rparr>"
  define m2 where "m2 = tryKeyGC g ord ?m1"
  let ?m' = "m2\<lparr>m_data := AList.delete k (m_data m2)\<rparr>"
  from inv Some have i: "mv_index x < length (m_key m)" by (simp add: Map_inv_def)
  have m2: "distinct (map fst (m_data m2)) \<and> length (m_key m2) \<le> m_cap m2 \<and> Map_Get m2 = Map_Get m \<and>
     (\<forall>k' mv. map_of (m_data m2) k' = Some mv \<longrightarrow> k' \<noteq> k \<longrightarrow>
        mv_index mv < length (m_key m2) \<and> m_key m2 ! mv_index mv = \<lparr>mk_key = k', mk_use = True\<rparr>)"
  proof (cases "Map_Length ?m1 * 2 < m_cap ?m1")
    case True
    have "Map_inv m2 \<and> Map_Get m2 = Map_Get ?m1"
      unfolding m2_def by (rule tryKeyGC_inv) (use inv ord True in \<open>auto simp: Map_inv_def\<close>)
    then show ?thesis by (auto simp: Map_inv_def Map_Get_def)
  next
    case False
    then have "m2 = ?m1" by (simp add: m2_def tryKeyGC_def)
    with inv Some show ?thesis
      by (auto simp: Map_inv_def Map_Get_def nth_list_update)
        (metis mapkey.iffs)
  qed
  have "Map_Del g ord m k = Ok (?m', Map_Get m k \<noteq> None)"
    using Some i by (simp add: Map_Del_def Let_def m2_def Map_Get_def)
  moreover have "Map_inv ?m'"
    using m2 by (auto simp: Map_inv_def AList.distinct_delete delete_conv' split: if_splits)
  moreover have "Map_Get ?m' = (Map_Get m)(k := None)"
    using m2 by (auto simp: Map_Get_def delete_conv' fun_eq_iff)
  ultimately show ?thesis by blast
qed

text \<open>The laws hold for every order the runtime may walk the map in.\<close>

lemma Map_is_string_map:
  assumes "\<And>es. mset (ord es) = mset es"
  shows "string_map NewMap (Map_Set g) (Map_Del g ord) Map_Get Map_Length Map_inv"
proof unfold_locales
  show "\<And>m k. Map_inv m \<Longrightarrow> \<exists>m'. Map_Del g ord m k = Ok (m', Map_Get m k \<noteq> None) \<and> Map_inv m' \<and>
              Map_Get m' = (Map_Get m)(k := None)"
    by (rule Map_Del_ok) (simp_all add: assms)
  show "Map_Get NewMap = Map.empty" by (simp add: Map_Get_def NewMap_def fun_eq_iff)
qed (simp_all add: Map_inv_New Map_inv_Set Map_Get_Set Map_Length_card Map_dom_finite)

interpretation gomap: string_map NewMap "Map_Set g" "Map_Del g (\<lambda>es. es)" Map_Get Map_Length Map_inv
  for g
  by (rule Map_is_string_map) simp

section \<open>What an iteration visits\<close>

text \<open>
  A \<open>for k, v = map\<close> loop over a map nobody changes: \<open>Has\<close>, \<open>Deref\<close>, \<open>Next\<close>, from the index
  \<open>init\<close> leaves. The fuel bounds the number of rounds.
\<close>

fun map_visit :: "nat \<Rightarrow> 'v gomap \<Rightarrow> nat \<Rightarrow> (string \<times> 'v) list res" where
  "map_visit 0 m i = Diverge"
| "map_visit (Suc n) m i =
     (if MapIter_Has m i then
        rbind (MapIter_Deref m (Map_Length m) i) (\<lambda>e.
        rbind (MapIter_Next m i) (\<lambda>j.
        rbind (map_visit n m j) (\<lambda>es. Ok (e # es))))
      else Ok [])"

definition map_iterate :: "'v gomap \<Rightarrow> (string \<times> 'v) list res" where
  "map_iterate m = rbind (MapIter_init m 0) (map_visit (Suc (Map_Length m)) m)"

text \<open>The indices of the values are distinct, so the length never exceeds the key slice.\<close>

lemma Map_Length_le_keys:
  assumes "Map_inv m"
  shows "Map_Length m \<le> length (m_key m)"
proof -
  let ?f = "\<lambda>k. mv_index (the (map_of (m_data m) k))"
  have "inj_on ?f (fst ` set (m_data m))"
  proof (rule inj_onI)
    fix j k assume "j \<in> fst ` set (m_data m)" "k \<in> fst ` set (m_data m)" and eq: "?f j = ?f k"
    then obtain u v where "map_of (m_data m) j = Some u" "map_of (m_data m) k = Some v"
      by (metis dom_map_of_conv_image_fst domD)
    with assms eq have "\<lparr>mk_key = j, mk_use = True\<rparr> = \<lparr>mk_key = k, mk_use = True\<rparr>"
      unfolding Map_inv_def by (metis option.sel)
    then show "j = k" by simp
  qed
  moreover have "?f ` (fst ` set (m_data m)) \<subseteq> {..<length (m_key m)}"
  proof clarify
    fix k v assume "(k, v) \<in> set (m_data m)"
    then obtain u where "map_of (m_data m) k = Some u"
      by (metis domD dom_map_of_conv_image_fst fst_conv image_eqI)
    with assms show "mv_index (the (map_of (m_data m) (fst (k, v)))) < length (m_key m)"
      by (simp add: Map_inv_def del: map_of_eq_Some_iff)
  qed
  ultimately have "card (fst ` set (m_data m)) \<le> card {..<length (m_key m)}"
    by (rule card_inj_on_le) simp
  moreover have "card (fst ` set (m_data m)) = Map_Length m"
    using Map_Length_card [OF assms] by (simp add: dom_Map_Get)
  ultimately show ?thesis by simp
qed

text \<open>The keys in use from index \<open>i\<close> on, below the bound the iterator checks.\<close>

definition live :: "mapkey list \<Rightarrow> nat \<Rightarrow> nat \<Rightarrow> mapkey list" where
  "live ks l i = filter mk_use (drop i (take l ks))"

lemma live_Cons: "i < l \<Longrightarrow> l \<le> length ks \<Longrightarrow>
    live ks l i = (if mk_use (ks ! i) then ks ! i # live ks l (Suc i) else live ks l (Suc i))"
  unfolding live_def by (subst Cons_nth_drop_Suc [symmetric]) simp_all

lemma live_Nil: "l \<le> i \<Longrightarrow> live ks l i = []"
  by (simp add: live_def)

lemma mi_skip_live:
  "l \<le> length ks \<Longrightarrow> \<exists>j. mi_skip ks l i = Ok j \<and> i \<le> j \<and> live ks l j = live ks l i \<and>
     (j < l \<longrightarrow> mk_use (ks ! j))"
proof (induction "l - i" arbitrary: i rule: less_induct)
  case less
  show ?case
  proof (cases "i < l \<and> \<not> mk_use (ks ! i)")
    case True
    then have "l - Suc i < l - i" by arith
    from less.hyps [OF this less.prems] obtain j where
      "mi_skip ks l (Suc i) = Ok j" "Suc i \<le> j" "live ks l j = live ks l (Suc i)"
      "j < l \<longrightarrow> mk_use (ks ! j)"
      by blast
    with True less.prems show ?thesis
      by (intro exI [of _ j]) (simp add: mi_skip.simps [of ks l i] live_Cons)
  next
    case False
    with less.prems show ?thesis by (auto simp: mi_skip.simps [of ks l i])
  qed
qed

text \<open>What the loop makes of a list of keys: the bindings, or the error of the first stale one.\<close>

fun deref_all :: "'v gomap \<Rightarrow> mapkey list \<Rightarrow> (string \<times> 'v) list res" where
  "deref_all m [] = Ok []"
| "deref_all m (k # ks) =
     (case Map_Get m (mk_key k) of
        None \<Rightarrow> Err ''map is been modified during iteration''
      | Some v \<Rightarrow> rbind (deref_all m ks) (\<lambda>es. Ok ((mk_key k, v) # es)))"

lemma MapIter_Deref_use:
  assumes "i < Map_Length m" "Map_Length m \<le> length (m_key m)" "mk_use (m_key m ! i)"
  shows "MapIter_Deref m (Map_Length m) i =
    (case Map_Get m (mk_key (m_key m ! i)) of
       None \<Rightarrow> Err ''map is been modified during iteration''
     | Some v \<Rightarrow> Ok (mk_key (m_key m ! i), v))"
  using assms by (simp add: MapIter_Deref_def MapIter_Has_def Map_Get_def split: option.split)

lemma map_visit_live:
  assumes "Map_Length m \<le> length (m_key m)"
  shows "Map_Length m - i < n \<Longrightarrow> i < Map_Length m \<longrightarrow> mk_use (m_key m ! i) \<Longrightarrow>
    map_visit n m i = deref_all m (live (m_key m) (Map_Length m) i)"
proof (induction n arbitrary: i)
  case 0
  then show ?case by simp
next
  case (Suc n)
  show ?case
  proof (cases "i < Map_Length m")
    case True
    from mi_skip_live [OF assms, of "Suc i"] obtain j where
      j: "mi_skip (m_key m) (Map_Length m) (Suc i) = Ok j" "Suc i \<le> j"
        "live (m_key m) (Map_Length m) j = live (m_key m) (Map_Length m) (Suc i)"
        "j < Map_Length m \<longrightarrow> mk_use (m_key m ! j)"
      by blast
    have "map_visit n m j = deref_all m (live (m_key m) (Map_Length m) (Suc i))"
      using Suc.IH [of j] Suc.prems True j by simp
    with True Suc.prems assms j(1) show ?thesis
      by (simp add: MapIter_Has_def MapIter_Next_def MapIter_Deref_use live_Cons split: option.split)
  next
    case False
    then show ?thesis by (simp add: MapIter_Has_def live_Nil)
  qed
qed

lemma map_iterate_eq:
  assumes "Map_inv m"
  shows "map_iterate m = deref_all m (filter mk_use (take (Map_Length m) (m_key m)))"
proof -
  note le = Map_Length_le_keys [OF assms]
  from mi_skip_live [OF le, of 0] obtain j where
    "mi_skip (m_key m) (Map_Length m) 0 = Ok j"
    "live (m_key m) (Map_Length m) j = live (m_key m) (Map_Length m) 0"
    "j < Map_Length m \<longrightarrow> mk_use (m_key m ! j)"
    by blast
  with map_visit_live [OF le, of j "Suc (Map_Length m)"] show ?thesis
    by (simp add: map_iterate_def MapIter_init_def live_def)
qed

lemma deref_all_no_panic: "(\<exists>es. deref_all m ks = Ok es) \<or> (\<exists>e. deref_all m ks = Err e)"
  by (induction ks) (auto split: option.split)

text \<open>A map only ever \<open>Set\<close> has no tombstones and its keys are exactly the key slice.\<close>

definition Map_dense :: "'v gomap \<Rightarrow> bool" where
  "Map_dense m \<longleftrightarrow> Map_inv m \<and> Map_Length m = length (m_key m) \<and> (\<forall>k \<in> set (m_key m). mk_use k) \<and>
     set (map mk_key (m_key m)) = dom (Map_Get m)"

lemma Map_dense_New: "Map_dense NewMap"
  by (simp add: Map_dense_def Map_inv_New) (simp add: NewMap_def Map_Length_def Map_Get_def dom_def)

lemma Map_dense_Set:
  assumes "Map_dense m"
  shows "Map_dense (Map_Set g m k v)"
    and "map mk_key (m_key (Map_Set g m k v)) =
         (if k \<in> dom (Map_Get m) then map mk_key (m_key m) else map mk_key (m_key m) @ [k])"
proof -
  have inv: "Map_inv m" using assms by (simp add: Map_dense_def)
  note len = gomap.len_set [OF inv, of g k v]
  have keys: "m_key (Map_Set g m k v) =
      (if k \<in> dom (Map_Get m) then m_key m else m_key m @ [\<lparr>mk_key = k, mk_use = True\<rparr>])"
    by (auto simp: Map_Set_def Map_Get_def Let_def split: option.split)
  then show "map mk_key (m_key (Map_Set g m k v)) =
         (if k \<in> dom (Map_Get m) then map mk_key (m_key m) else map mk_key (m_key m) @ [k])"
    by simp
  show "Map_dense (Map_Set g m k v)"
    using assms keys len by (auto simp: Map_dense_def Map_inv_Set Map_Get_Set split: if_splits)
qed

lemma deref_all_dom:
  "set (map mk_key ks) \<subseteq> dom (Map_Get m) \<Longrightarrow>
   deref_all m ks = Ok (map (\<lambda>k. (k, the (Map_Get m k))) (map mk_key ks))"
  by (induction ks) (auto split: option.split)

lemma map_iterate_dense:
  "Map_dense m \<Longrightarrow> map_iterate m = Ok (map (\<lambda>k. (k, the (Map_Get m k))) (map mk_key (m_key m)))"
  unfolding Map_dense_def
  by (simp add: map_iterate_eq deref_all_dom)

lemma fold_Set_dense:
  "Map_dense m \<Longrightarrow>
   Map_dense (fold (\<lambda>(k, v) m. Map_Set g m k v) kvs m) \<and>
   map mk_key (m_key (fold (\<lambda>(k, v) m. Map_Set g m k v) kvs m)) =
     fold (\<lambda>k ks. if k \<in> set ks then ks else ks @ [k]) (map fst kvs) (map mk_key (m_key m))"
proof (induction kvs arbitrary: m)
  case Nil
  then show ?case by simp
next
  case (Cons kv kvs)
  obtain k v where kv: "kv = (k, v)" by (cases kv)
  have "dom (Map_Get m) = set (map mk_key (m_key m))" using Cons.prems by (simp add: Map_dense_def)
  with Cons.IH [OF Map_dense_Set(1) [OF Cons.prems, of g k v]] Map_dense_Set(2) [OF Cons.prems, of g k v]
  show ?case by (simp add: kv)
qed

section \<open>Properties\<close>

definition set_all :: "(nat \<Rightarrow> nat) \<Rightarrow> (string \<times> 'v) list \<Rightarrow> 'v gomap" where
  "set_all g kvs = fold (\<lambda>(k, v) m. Map_Set g m k v) kvs NewMap"

text \<open>The keys of a list of bindings in the order of their first occurrence.\<close>

definition first_keys :: "(string \<times> 'v) list \<Rightarrow> string list" where
  "first_keys kvs = fold (\<lambda>k ks. if k \<in> set ks then ks else ks @ [k]) (map fst kvs) []"

lemma set_all_dense: "Map_dense (set_all g kvs)"
  using fold_Set_dense [OF Map_dense_New, of g kvs] by (simp add: set_all_def)

text \<open>Deleting without a collection leaves one tombstone and all other keys where they were.\<close>

lemma Map_dense_Del:
  assumes "Map_dense m" and x: "map_of (m_data m) k = Some x" and "m_cap m \<le> Map_Length m * 2"
  defines "ks \<equiv> (m_key m)[mv_index x := \<lparr>mk_key = '''', mk_use = False\<rparr>]"
  shows "\<exists>m'. Map_Del g ord m k = Ok (m', True) \<and> Map_Get m' = (Map_Get m)(k := None) \<and>
     map_iterate m' = Ok (map (\<lambda>k. (k, the (Map_Get m k)))
       (map mk_key (filter mk_use (take (length (m_key m) - 1) ks))))"
proof -
  have inv: "Map_inv m" and len: "Map_Length m = length (m_key m)"
    and dom: "set (map mk_key (m_key m)) = dom (Map_Get m)"
    using assms(1) by (simp_all add: Map_dense_def)
  from inv x have i: "mv_index x < length (m_key m)" "mk_key (m_key m ! mv_index x) = k"
    by (simp_all add: Map_inv_def)
  let ?m' = "m\<lparr>m_key := ks, m_data := AList.delete k (m_data m)\<rparr>"
  have del: "Map_Del g (\<lambda>es. es) m k = Ok (?m', True)" "Map_Del g ord m k = Ok (?m', True)"
    using x i assms(3) by (simp_all add: Map_Del_def tryKeyGC_def Map_Length_def ks_def)
  with gomap.del_ok [OF inv, of g k] have inv': "Map_inv ?m'" and get: "Map_Get ?m' = (Map_Get m)(k := None)"
    by auto
  have k: "k \<in> dom (Map_Get m)" using x by (auto simp: Map_Get_def)
  have dist: "distinct (map mk_key (m_key m))"
    using len dom Map_Length_card [OF inv] by (metis card_distinct length_map)
  have len': "Map_Length ?m' = length (m_key m) - 1"
    using k by (simp add: Map_Length_card [OF inv'] get card_Diff_singleton len [symmetric] Map_Length_card [OF inv])
  have sub: "set (map mk_key (filter mk_use ks)) \<subseteq> dom (Map_Get m) - {k}"
  proof
    fix a assume "a \<in> set (map mk_key (filter mk_use ks))"
    then obtain p where p: "p < length ks" "mk_use (ks ! p)" "a = mk_key (ks ! p)"
      by (auto simp: in_set_conv_nth)
    then have ne: "p \<noteq> mv_index x" by (auto simp: ks_def i)
    with p have a: "a = mk_key (m_key m ! p)" "p < length (m_key m)" by (simp_all add: ks_def)
    with dom have "a \<in> dom (Map_Get m)" by (metis length_map nth_map nth_mem)
    moreover have "a \<noteq> k" using nth_eq_iff_index_eq [OF dist, of p "mv_index x"] a i ne by auto
    ultimately show "a \<in> dom (Map_Get m) - {k}" by simp
  qed
  let ?vis = "filter mk_use (take (length (m_key m) - 1) ks)"
  have vis: "set (map mk_key ?vis) \<subseteq> dom (Map_Get m) - {k}"
    using sub set_take_subset [of "length (m_key m) - 1" ks] by auto
  then have "deref_all ?m' ?vis = Ok (map (\<lambda>k. (k, the (Map_Get ?m' k))) (map mk_key ?vis))"
    by (intro deref_all_dom) (auto simp: get)
  also have "map (\<lambda>k. (k, the (Map_Get ?m' k))) (map mk_key ?vis) = map (\<lambda>k. (k, the (Map_Get m k))) (map mk_key ?vis)"
    by (rule map_cong [OF refl]) (use vis in \<open>auto simp: get\<close>)
  finally have "map_iterate ?m' = Ok (map (\<lambda>k. (k, the (Map_Get m k))) (map mk_key ?vis))"
    by (simp add: map_iterate_eq [OF inv'] len')
  with del get show ?thesis by blast
qed

text \<open>
  C30: a map that was only ever written with \<open>Set\<close> iterates without an error over each of its
  keys exactly once, in the order in which the keys were first set, each with the value that
  was set last.
\<close>

theorem map_iterate_insertion_order:
  "map_iterate (set_all g kvs) = Ok (map (\<lambda>k. (k, the (map_of (rev kvs) k))) (first_keys kvs))"
proof -
  have "Map_Get (set_all g kvs) = map_of (rev kvs)"
    using gomap.fold_set [OF gomap.inv_empty, of g kvs]
    by (simp add: set_all_def gomap.get_empty)
  moreover have "map mk_key (m_key (set_all g kvs)) = first_keys kvs"
    using fold_Set_dense [OF Map_dense_New, of g kvs]
    by (simp add: set_all_def first_keys_def) (simp add: NewMap_def)
  ultimately show ?thesis using map_iterate_dense [OF set_all_dense] by metis
qed

text \<open>
  C26: deleting a key never panics, whichever order the runtime walks the map in when the key
  slice is collected: the result says whether the key was there, the map without the key is
  left, and the invariant of the key slice holds again.
\<close>

theorem Map_Del_correct:
  assumes "Map_inv m" and "\<And>es. mset (ord es) = mset es"
  shows "\<exists>m'. Map_Del g ord m k = Ok (m', Map_Has m k) \<and> Map_inv m' \<and>
              Map_Get m' = (Map_Get m)(k := None) \<and>
              Map_Length m' = (if Map_Has m k then Map_Length m - 1 else Map_Length m)"
proof -
  from Map_Del_ok [OF assms, of g k] obtain m' where
    m': "Map_Del g ord m k = Ok (m', Map_Get m k \<noteq> None)" "Map_inv m'"
      "Map_Get m' = (Map_Get m)(k := None)"
    by blast
  have has: "Map_Has m k = (Map_Get m k \<noteq> None)" by (simp add: Map_Has_def Map_Get_def)
  have "Map_Length m' = (if Map_Has m k then Map_Length m - 1 else Map_Length m)"
    using m' assms(1) by (auto simp: Map_Length_card has domIff card_Diff_singleton_if Map_dom_finite)
  with m' has show ?thesis by auto
qed

theorem Map_Del_correct_witness:
  "\<exists>m'. Map_Del (\<lambda>n. 2 * n) rev (set_all (\<lambda>n. 2 * n) [(''a'', 1 :: nat), (''b'', 2)]) ''a'' = Ok (m', True) \<and>
        Map_inv m' \<and> Map_Length m' = 1"
proof -
  have "Map_inv (set_all (\<lambda>n. 2 * n) [(''a'', 1 :: nat), (''b'', 2)])"
    by (rule set_all_dense [unfolded Map_dense_def, THEN conjunct1])
  from Map_Del_correct [OF this, of rev "\<lambda>n. 2 * n" "''a''"] show ?thesis
    by (auto simp: set_all_def Map_Has_def Map_Length_def Map_Set_def NewMap_def Let_def)
qed

text \<open>
  C36: iteration stops after as many slots of the key slice as the map has entries, but a
  deletion leaves its tombstone in the slice: after deleting any key but the last one set from
  a map without tombstones (and with no collection), the map still holds the key set last and
  iteration ends, without an error, before it visits that key.
\<close>

theorem map_iterate_skips_after_Del:
  assumes "Map_dense m" and "k \<in> dom (Map_Get m)" and "k \<noteq> mk_key (last (m_key m))"
    and "m_cap m \<le> Map_Length m * 2"
  shows "\<exists>m' es. Map_Del g ord m k = Ok (m', True) \<and> map_iterate m' = Ok es \<and>
           mk_key (last (m_key m)) \<in> dom (Map_Get m') \<and> mk_key (last (m_key m)) \<notin> fst ` set es"
proof -
  let ?last = "mk_key (last (m_key m))"
  from assms(2) obtain x where x: "map_of (m_data m) k = Some x" by (auto simp: Map_Get_def)
  let ?ks = "(m_key m)[mv_index x := \<lparr>mk_key = '''', mk_use = False\<rparr>]"
  from Map_dense_Del [OF assms(1) x assms(4), of g ord] obtain m' where
    m': "Map_Del g ord m k = Ok (m', True)" "Map_Get m' = (Map_Get m)(k := None)"
      "map_iterate m' = Ok (map (\<lambda>k. (k, the (Map_Get m k)))
         (map mk_key (filter mk_use (take (length (m_key m) - 1) ?ks))))"
    by blast
  have inv: "Map_inv m" and len: "Map_Length m = length (m_key m)"
    and dom: "set (map mk_key (m_key m)) = dom (Map_Get m)"
    using assms(1) by (simp_all add: Map_dense_def)
  have ne: "m_key m \<noteq> []" using assms(2) dom by auto
  have dist: "distinct (map mk_key (m_key m))"
    using len dom Map_Length_card [OF inv] by (metis card_distinct length_map)
  have "?last \<notin> mk_key ` set (filter mk_use (take (length (m_key m) - 1) ?ks))"
  proof
    assume "?last \<in> mk_key ` set (filter mk_use (take (length (m_key m) - 1) ?ks))"
    then obtain p where p: "p < length (m_key m) - 1" "mk_use (?ks ! p)" "?last = mk_key (?ks ! p)"
      by (force simp: in_set_conv_nth)
    then have "?last = mk_key (m_key m ! p)" by (cases "p = mv_index x") simp_all
    moreover have "?last = mk_key (m_key m ! (length (m_key m) - 1))" using ne by (simp add: last_conv_nth)
    moreover have "length (m_key m) - 1 < length (m_key m)" using ne by simp
    ultimately show False
      using nth_eq_iff_index_eq [OF dist, of p "length (m_key m) - 1"] p(1) by simp
  qed
  moreover have "?last \<in> dom (Map_Get m')"
    using dom ne assms(3) m'(2) by (simp add: last_in_set) (metis domIff image_eqI last_in_set)
  ultimately show ?thesis using m' by (auto simp: image_image)
qed

theorem map_iterate_skips_after_Del_witness:
  "\<exists>m' es. Map_Del (\<lambda>n. 2 * n) rev (set_all (\<lambda>n. 2 * n) [(''a'', 1 :: nat), (''b'', 2)]) ''a'' = Ok (m', True) \<and>
       map_iterate m' = Ok es \<and> ''b'' \<in> dom (Map_Get m') \<and> ''b'' \<notin> fst ` set es"
  using map_iterate_skips_after_Del [of "set_all (\<lambda>n. 2 * n) [(''a'', 1 :: nat), (''b'', 2)]" "''a''"
      "\<lambda>n. 2 * n" rev, OF set_all_dense]
  by (simp add: set_all_def Map_Length_def Map_Get_def Map_Set_def NewMap_def Let_def cap_after_append_def
      domIff)

end
