(* ===== verification/Values.thy ===== *)
theory Values
  imports Bytecode GoSlice Utf8 ObjMap
begin

text \<open>
  The data of the interpreter: the tagged value of \<open>pl/object.go\<close>, the frames of
  \<open>pl/eval.go\<close>, the closures of \<open>obj_sfunc.go\<close>, \<open>obj_nfunc.go\<close>, \<open>obj_mfunc.go\<close>, the
  iterators' states, and the store that holds every object a value points to. A pointer is
  the number of an entry of one of the store's tables, so that aliasing is as in the code.
  The last part declares what is outside the repository or installed by an embedder: user
  types, user iterators, \<open>append\<close>'s growth, the order of \<open>range\<close> over a map, regexp matching.
\<close>

section \<open>Frames and values\<close>

record exception =
  handlerPc :: nat
  ex_stackSize :: nat

datatype ftype = FtTop | FtScript | FtIntrinsic | FtRule | FtMethod | FtSFunc | FtNFunc | FtSIter

text \<open>
  \<open>prog\<close> and \<open>closure\<close> are pointers that may be nil; the field \<open>event\<close> is never read and is left
  out.
\<close>

record funcframe =
  ff_ftype :: ftype
  ff_farg :: nat
  ff_pc :: int
  ff_framep :: nat
  ff_prog :: "nat option"
  ff_excep :: "exception list"
  ff_closure :: "nat option"

datatype val =
    VNull
  | VInt int64
  | VReal fl
  | VStr string
  | VBool bool
  | VPair nat
  | VList nat
  | VMap nat
  | VRegexp string
  | VIter nat
  | VClosure nat
  | VUsr nat
  | VFrame funcframe

text \<open>\<open>Val.Type\<close>, in the order of the source's constants.\<close>

datatype vtype =
  ValNull | ValInt | ValReal | ValStr | ValBool | ValPair | ValList | ValMap | ValRegexp |
  ValIter | ValClosure | ValUsr | ValFrame

fun v_Type :: "val \<Rightarrow> vtype" where
  "v_Type VNull = ValNull"
| "v_Type (VInt _) = ValInt"
| "v_Type (VReal _) = ValReal"
| "v_Type (VStr _) = ValStr"
| "v_Type (VBool _) = ValBool"
| "v_Type (VPair _) = ValPair"
| "v_Type (VList _) = ValList"
| "v_Type (VMap _) = ValMap"
| "v_Type (VRegexp _) = ValRegexp"
| "v_Type (VIter _) = ValIter"
| "v_Type (VClosure _) = ValClosure"
| "v_Type (VUsr _) = ValUsr"
| "v_Type (VFrame _) = ValFrame"

definition IsPrimitiveType :: "vtype \<Rightarrow> bool" where
  "IsPrimitiveType t = (t \<in> {ValInt, ValNull, ValReal, ValStr, ValBool})"

definition IsValueType :: "vtype \<Rightarrow> bool" where
  "IsValueType t =
     (t \<in> {ValInt, ValNull, ValReal, ValStr, ValBool, ValPair, ValList, ValMap, ValRegexp})"

definition IsNumber :: "val \<Rightarrow> bool" where
  "IsNumber v = (v_Type v = ValInt \<or> v_Type v = ValReal)"

section \<open>Typed access: the accessors panic on another type\<close>

fun v_Int :: "val \<Rightarrow> int64 res" where
  "v_Int (VInt i) = Ok i"
| "v_Int _ = Panic ''must: must be int''"

fun v_Real :: "val \<Rightarrow> fl res" where
  "v_Real (VReal r) = Ok r"
| "v_Real _ = Panic ''must: must be real''"

fun v_Bool :: "val \<Rightarrow> bool res" where
  "v_Bool (VBool b) = Ok b"
| "v_Bool _ = Panic ''must: must be bool''"

fun v_String :: "val \<Rightarrow> string res" where
  "v_String (VStr s) = Ok s"
| "v_String _ = Panic ''must: must be string''"

fun v_Regexp :: "val \<Rightarrow> string res" where
  "v_Regexp (VRegexp s) = Ok s"
| "v_Regexp _ = Panic ''must: must be regexp''"

fun v_List :: "val \<Rightarrow> nat res" where
  "v_List (VList l) = Ok l"
| "v_List _ = Panic ''must: must be list''"

fun v_Map :: "val \<Rightarrow> nat res" where
  "v_Map (VMap m) = Ok m"
| "v_Map _ = Panic ''must: must be map''"

fun v_Pair :: "val \<Rightarrow> nat res" where
  "v_Pair (VPair p) = Ok p"
| "v_Pair _ = Panic ''must: must be pair''"

fun v_Usr :: "val \<Rightarrow> nat res" where
  "v_Usr (VUsr u) = Ok u"
| "v_Usr _ = Panic ''must: must be user''"

fun v_Iter :: "val \<Rightarrow> nat res" where
  "v_Iter (VIter i) = Ok i"
| "v_Iter _ = Panic ''must: must be iterator''"

fun v_Closure :: "val \<Rightarrow> nat res" where
  "v_Closure (VClosure c) = Ok c"
| "v_Closure _ = Panic ''must: must be closure''"

fun v_frame :: "val \<Rightarrow> funcframe res" where
  "v_frame (VFrame f) = Ok f"
| "v_frame _ = Panic ''must: must be frame''"

text \<open>An index is a non-negative integer (\<open>int(v.Int())\<close> keeps an \<open>int64\<close> as it is).\<close>

fun ToIndex :: "val \<Rightarrow> nat res" where
  "ToIndex (VInt i) =
     (if 0 \<le> sint i then Ok (nat (sint i)) else Err ''negative value cannot be index'')"
| "ToIndex _ = Err ''none integer type cannot be index''"

fun TypeName :: "val \<Rightarrow> string" where
  "TypeName (VInt _) = ''int''"
| "TypeName (VReal _) = ''real''"
| "TypeName (VBool _) = ''bool''"
| "TypeName VNull = ''null''"
| "TypeName (VStr _) = ''string''"
| "TypeName (VList _) = ''list''"
| "TypeName (VMap _) = ''map''"
| "TypeName (VPair _) = ''pair''"
| "TypeName (VRegexp _) = ''regexp''"
| "TypeName (VIter _) = ''iter''"
| "TypeName (VClosure _) = ''closure''"
| "TypeName (VFrame _) = ''#frame''"
| "TypeName (VUsr _) = ''user''"

section \<open>Closures, iterators and the store\<close>

text \<open>
  The entry of a native function is one the embedder installed (a number) or that of an
  intrinsic function (its index); user objects are numbers, too.
\<close>

datatype nref = NUser nat | NIntrinsic nat

datatype closure =
    CScript nat "val list"
  | CNative string nref
  | CMethod string val

datatype closure_type = ClosureScript | ClosureNative | ClosureMethod

fun closure_Type :: "closure \<Rightarrow> closure_type" where
  "closure_Type (CScript _ _) = ClosureScript"
| "closure_Type (CNative _ _) = ClosureNative"
| "closure_Type (CMethod _ _) = ClosureMethod"

fun GetClosureTypeId :: "closure_type \<Rightarrow> string" where
  "GetClosureTypeId ClosureScript = ''closure_script''"
| "GetClosureTypeId ClosureNative = ''closure_native''"
| "GetClosureTypeId ClosureMethod = ''closure_method''"

text \<open>
  A script iterator. \<open>si_eval\<close> tells whether \<open>SetUp\<close> has set the evaluator; \<open>si_pc\<close> is where
  to resume, on the iterator's own stack \<open>si_stack\<close> and frame \<open>si_frame\<close>.
\<close>

record siter =
  si_prog :: nat
  si_upvalue :: "val list"
  si_current :: val
  si_err :: "string option"
  si_next :: bool
  si_eval :: bool
  si_pc :: int
  si_stack :: "val list"
  si_frame :: funcframe

datatype iterobj =
    ListIter nat nat
  | MapIter nat nat nat
  | PairIter nat nat
  | StrIter "rune list" nat
  | ScriptIter siter
  | UsrIter nat

record 'w store =
  st_mem :: "val mem"
  st_lists :: "slice list"
  st_maps :: "val gomap list"
  st_pairs :: "(val \<times> val) list"
  st_iters :: "iterobj list"
  st_clos :: "closure list"
  st_world :: 'w

text \<open>The store of a fresh process over the embedder's state \<open>w\<close>.\<close>

definition st_init :: "'w \<Rightarrow> 'w store" where
  "st_init w =
     \<lparr>st_mem = \<lparr>marr = (\<lambda>_. []), mnext = 1\<rparr>, st_lists = [], st_maps = [], st_pairs = [],
      st_iters = [], st_clos = [], st_world = w\<rparr>"

text \<open>Following a pointer; a dangling one (which Go cannot make) counts as nil.\<close>

definition deref :: "'a list \<Rightarrow> nat \<Rightarrow> 'a res" where
  "deref t i = (if i < length t then Ok (t ! i) else Panic ''nil pointer'')"

definition new_pair :: "val \<Rightarrow> val \<Rightarrow> 'w store \<Rightarrow> val \<times> 'w store" where
  "new_pair f s st = (VPair (length (st_pairs st)), st\<lparr>st_pairs := st_pairs st @ [(f, s)]\<rparr>)"

definition new_list_raw :: "slice \<Rightarrow> 'w store \<Rightarrow> val \<times> 'w store" where
  "new_list_raw d st = (VList (length (st_lists st)), st\<lparr>st_lists := st_lists st @ [d]\<rparr>)"

definition new_list :: "'w store \<Rightarrow> val \<times> 'w store" where
  "new_list st = new_list_raw sl_empty st"

definition new_map :: "'w store \<Rightarrow> val \<times> 'w store" where
  "new_map st = (VMap (length (st_maps st)), st\<lparr>st_maps := st_maps st @ [NewMap]\<rparr>)"

definition new_closure :: "closure \<Rightarrow> 'w store \<Rightarrow> val \<times> 'w store" where
  "new_closure c st = (VClosure (length (st_clos st)), st\<lparr>st_clos := st_clos st @ [c]\<rparr>)"

definition new_iter :: "iterobj \<Rightarrow> 'w store \<Rightarrow> val \<times> 'w store" where
  "new_iter i st = (VIter (length (st_iters st)), st\<lparr>st_iters := st_iters st @ [i]\<rparr>)"

section \<open>What the embedder and the Go runtime provide\<close>

text \<open>The interface \<open>Usr\<close>: every operation may touch the store.\<close>

record 'w usr =
  us_Index :: "val \<Rightarrow> 'w store \<Rightarrow> val res \<times> 'w store"
  us_IndexSet :: "val \<Rightarrow> val \<Rightarrow> 'w store \<Rightarrow> unit res \<times> 'w store"
  us_Dot :: "string \<Rightarrow> 'w store \<Rightarrow> val res \<times> 'w store"
  us_DotSet :: "string \<Rightarrow> val \<Rightarrow> 'w store \<Rightarrow> unit res \<times> 'w store"
  us_Method :: "string \<Rightarrow> val list \<Rightarrow> 'w store \<Rightarrow> val res \<times> 'w store"
  us_ToString :: "'w store \<Rightarrow> string res"
  us_Id :: "'w store \<Rightarrow> string res"
  us_Info :: "'w store \<Rightarrow> string res"
  us_IsThreadSafe :: "'w store \<Rightarrow> bool res"
  us_NewIterator :: "'w store \<Rightarrow> nat res \<times> 'w store"

text \<open>The interface \<open>Iter\<close>, for iterators the embedder installs.\<close>

record 'w uiter =
  ui_SetUp :: "val list \<Rightarrow> 'w store \<Rightarrow> unit res \<times> 'w store"
  ui_Has :: "'w store \<Rightarrow> bool res"
  ui_Next :: "'w store \<Rightarrow> bool res \<times> 'w store"
  ui_Deref :: "'w store \<Rightarrow> (val \<times> val) res"

text \<open>
  \<open>oe_progs\<close> are the programs compiled code points to; \<open>oe_upper\<close> and \<open>oe_lower\<close> map one code
  point (\<open>unicode.ToUpper\<close>, \<open>ToLower\<close>); \<open>oe_match r s\<close> is \<open>regexp.Match\<close>.
\<close>

record 'w oenv =
  oe_grow :: "nat \<Rightarrow> nat"
  oe_order :: "(string \<times> val mapval) list \<Rightarrow> (string \<times> val mapval) list"
  oe_match :: "string \<Rightarrow> string \<Rightarrow> bool"
  oe_upper :: "rune \<Rightarrow> rune"
  oe_lower :: "rune \<Rightarrow> rune"
  oe_usr :: "nat \<Rightarrow> 'w usr"
  oe_uiter :: "nat \<Rightarrow> 'w uiter"
  oe_progs :: "nat \<Rightarrow> program"

text \<open>
  An environment for concrete runs: slices double, maps are walked in the order of their
  association list, no regexp matches, letters have no other case, and no user type answers.
\<close>

definition plain_usr :: "'w usr" where
  "plain_usr =
     \<lparr>us_Index = (\<lambda>_ st. (Err ''no'', st)), us_IndexSet = (\<lambda>_ _ st. (Err ''no'', st)),
      us_Dot = (\<lambda>_ st. (Err ''no'', st)), us_DotSet = (\<lambda>_ _ st. (Err ''no'', st)),
      us_Method = (\<lambda>_ _ st. (Err ''no'', st)), us_ToString = (\<lambda>_. Err ''no''),
      us_Id = (\<lambda>_. Ok ''[user]''), us_Info = (\<lambda>_. Ok ''[user]''),
      us_IsThreadSafe = (\<lambda>_. Ok False), us_NewIterator = (\<lambda>st. (Err ''no'', st))\<rparr>"

definition plain_env :: "program list \<Rightarrow> 'w oenv" where
  "plain_env ps =
     \<lparr>oe_grow = (\<lambda>n. 2 * n), oe_order = (\<lambda>es. es), oe_match = (\<lambda>_ _. False),
      oe_upper = (\<lambda>r. r), oe_lower = (\<lambda>r. r), oe_usr = (\<lambda>_. plain_usr),
      oe_uiter = (\<lambda>_. \<lparr>ui_SetUp = (\<lambda>_ st. (Ok (), st)), ui_Has = (\<lambda>_. Ok False),
                       ui_Next = (\<lambda>st. (Ok False, st)), ui_Deref = (\<lambda>_. Err ''no'')\<rparr>),
      oe_progs = (\<lambda>i. if i < length ps then ps ! i else newProgramEmpty 0 '''' ProgFunc)\<rparr>"

section \<open>Identities and descriptions\<close>

definition closure_Id :: "'w oenv \<Rightarrow> closure \<Rightarrow> string" where
  "closure_Id env c =
     (case c of
        CScript p _ \<Rightarrow> pr_name (oe_progs env p)
      | CNative i _ \<Rightarrow> i
      | CMethod n _ \<Rightarrow> n)"

definition closure_Info :: "'w oenv \<Rightarrow> closure \<Rightarrow> string" where
  "closure_Info env c =
     ''['' @ GetClosureTypeId (closure_Type c) @
     (case c of CScript _ _ \<Rightarrow> '':'' | _ \<Rightarrow> '': '') @ closure_Id env c @ '']''"

fun v_Id :: "'w oenv \<Rightarrow> 'w store \<Rightarrow> val \<Rightarrow> string res" where
  "v_Id env st (VClosure c) = rbind (deref (st_clos st) c) (\<lambda>x. Ok (closure_Id env x))"
| "v_Id env st (VUsr u) = us_Id (oe_usr env u) st"
| "v_Id env st v = Ok (TypeName v)"

definition List_Length :: "'w store \<Rightarrow> nat \<Rightarrow> nat res" where
  "List_Length st l = rbind (deref (st_lists st) l) (\<lambda>d. Ok (slen d))"

text \<open>
  \<open>Info\<close> recurses through pairs. A pair that reaches itself recurses for ever (\<open>Diverge\<close>:
  the process dies of its stack); without one no path of pairs is longer than the number of
  pairs, which is therefore fuel enough.
\<close>

fun v_InfoN :: "nat \<Rightarrow> 'w oenv \<Rightarrow> 'w store \<Rightarrow> val \<Rightarrow> string res" where
  "v_InfoN n env st (VPair p) =
     (case n of
        0 \<Rightarrow> Diverge
      | Suc k \<Rightarrow>
          rbind (deref (st_pairs st) p) (\<lambda>(a, b).
          rbind (v_InfoN k env st a) (\<lambda>s.
          rbind (v_InfoN k env st b) (\<lambda>t. Ok (''[pair: '' @ s @ ''=>'' @ t @ '']'')))))"
| "v_InfoN n env st (VInt i) = Ok (''[int: '' @ int_dec (sint i) @ '']'')"
| "v_InfoN n env st (VReal r) = Ok (''[real: '' @ fl_fmt r @ '']'')"
| "v_InfoN n env st (VBool b) = Ok (if b then ''[bool: true]'' else ''[bool: false]'')"
| "v_InfoN n env st VNull = Ok ''[null]''"
| "v_InfoN n env st (VStr s) = Ok (''[string: '' @ s @ '']'')"
| "v_InfoN n env st (VList l) =
     rbind (List_Length st l) (\<lambda>k. Ok (''[list: '' @ int_dec (int k) @ '']''))"
| "v_InfoN n env st (VMap m) =
     rbind (deref (st_maps st) m) (\<lambda>x. Ok (''[map: '' @ int_dec (int (Map_Length x)) @ '']''))"
| "v_InfoN n env st (VRegexp r) = Ok (''[regexp: '' @ r @ '']'')"
| "v_InfoN n env st (VIter _) = Ok ''iter''"
| "v_InfoN n env st (VClosure c) = rbind (deref (st_clos st) c) (\<lambda>x. Ok (closure_Info env x))"
| "v_InfoN n env st (VFrame _) = Ok ''#frame''"
| "v_InfoN n env st (VUsr u) = us_Info (oe_usr env u) st"

definition v_Info :: "'w oenv \<Rightarrow> 'w store \<Rightarrow> val \<Rightarrow> string res" where
  "v_Info env st v = v_InfoN (Suc (length (st_pairs st))) env st v"

section \<open>Facts on the store\<close>

lemma deref_append: "deref t i = Ok x \<Longrightarrow> deref (t @ ts) i = Ok x"
  by (auto simp: deref_def nth_append split: if_splits)

lemma deref_new [simp]: "deref (t @ [x]) (length t) = Ok x"
  by (simp add: deref_def)

lemma deref_update: "deref (t[i := x]) j = (if i = j \<and> j < length t then Ok x else deref t j)"
  by (auto simp: deref_def)

lemma deref_Ok: "deref t i = Ok x \<longleftrightarrow> i < length t \<and> x = t ! i"
  by (auto simp: deref_def)

lemma ToIndex_Ok: "ToIndex v = Ok i \<longleftrightarrow> (\<exists>w. v = VInt w \<and> 0 \<le> sint w \<and> i = nat (sint w))"
  by (cases v) auto

end
