(* ===== verification/FuncProto.thy ===== *)
theory FuncProto
  imports Values
begin

text \<open>
  \<open>pl/func_proto.go\<close>: the descriptor language in which native functions and methods state the
  types of their arguments (\<open>%d\<close>, \<open>%s\<close>, \<open>{%d}{%d%d}\<close>, \<open>%a*\<close>, ...), its one-pass compiler and
  the check of an argument list against a compiled descriptor. The cursor into the rune
  slice is the remaining suffix. \<open>Pack\<close>, the conversion to \<open>reflect.Value\<close>, is not modelled.
\<close>

section \<open>The compiled form\<close>

type_synonym opc = nat

abbreviation (input) PInt :: opc where "PInt \<equiv> 0"
abbreviation (input) PI8 :: opc where "PI8 \<equiv> 1"
abbreviation (input) PI16 :: opc where "PI16 \<equiv> 2"
abbreviation (input) PI32 :: opc where "PI32 \<equiv> 3"
abbreviation (input) PI64 :: opc where "PI64 \<equiv> 4"
abbreviation (input) PUInt :: opc where "PUInt \<equiv> 5"
abbreviation (input) PUI8 :: opc where "PUI8 \<equiv> 6"
abbreviation (input) PUI16 :: opc where "PUI16 \<equiv> 7"
abbreviation (input) PUI32 :: opc where "PUI32 \<equiv> 8"
abbreviation (input) PUI64 :: opc where "PUI64 \<equiv> 9"
abbreviation (input) PReal :: opc where "PReal \<equiv> 10"
abbreviation (input) PR32 :: opc where "PR32 \<equiv> 11"
abbreviation (input) PR64 :: opc where "PR64 \<equiv> 12"
abbreviation (input) PUReal :: opc where "PUReal \<equiv> 13"
abbreviation (input) PUR32 :: opc where "PUR32 \<equiv> 14"
abbreviation (input) PUR64 :: opc where "PUR64 \<equiv> 15"
abbreviation (input) PString :: opc where "PString \<equiv> 16"
abbreviation (input) PNEString :: opc where "PNEString \<equiv> 17"
abbreviation (input) PBool :: opc where "PBool \<equiv> 18"
abbreviation (input) PTrue :: opc where "PTrue \<equiv> 19"
abbreviation (input) PFalse :: opc where "PFalse \<equiv> 20"
abbreviation (input) PNull :: opc where "PNull \<equiv> 21"
abbreviation (input) PMap :: opc where "PMap \<equiv> 22"
abbreviation (input) PList :: opc where "PList \<equiv> 23"
abbreviation (input) PPair :: opc where "PPair \<equiv> 24"
abbreviation (input) PRegexp :: opc where "PRegexp \<equiv> 25"
abbreviation (input) PUsr :: opc where "PUsr \<equiv> 26"
abbreviation (input) PClosure :: opc where "PClosure \<equiv> 27"
abbreviation (input) PNFunc :: opc where "PNFunc \<equiv> 28"
abbreviation (input) PSFunc :: opc where "PSFunc \<equiv> 29"
abbreviation (input) PMFunc :: opc where "PMFunc \<equiv> 30"
abbreviation (input) PAny :: opc where "PAny \<equiv> 31"
abbreviation (input) PNone :: opc where "PNone \<equiv> 32"

definition opc_isInt :: "opc \<Rightarrow> bool" where
  "opc_isInt x = (x \<in> {PInt, PI8, PI16, PI32, PI64})"

definition opc_isUInt :: "opc \<Rightarrow> bool" where
  "opc_isUInt x = (x \<in> {PUInt, PUI8, PUI16, PUI32, PUI64})"

definition opc_isReal :: "opc \<Rightarrow> bool" where
  "opc_isReal x = (x \<in> {PReal, PR32, PR64})"

definition opc_isUReal :: "opc \<Rightarrow> bool" where
  "opc_isUReal x = (x \<in> {PUReal, PUR32, PUR64})"

record protoelem =
  pe_opcode :: opc
  pe_tname :: string

text \<open>\<open>argp\<close> is the list of alternatives of one argument.\<close>

type_synonym argp = "protoelem list"

record argpcase =
  ac_d :: "argp list"
  ac_noarg :: bool
  ac_varlen :: bool

record funcproto =
  fp_Descriptor :: string
  fp_Name :: string
  fp_d :: "argpcase list"
  fp_noarg :: bool
  fp_alwayspass :: bool

definition opc_names :: "(opc \<times> string) list" where
  "opc_names =
    [(PInt, ''int''), (PI8, ''int8''), (PI16, ''int16''), (PI32, ''int32''), (PI64, ''int64''),
     (PUInt, ''uint''), (PUI8, ''uint8''), (PUI16, ''uint16''), (PUI32, ''uint32''),
     (PUI64, ''uint64''), (PReal, ''real''), (PR32, ''float32''), (PR64, ''float64''),
     (PUReal, ''postive_real''), (PUR32, ''float32''), (PUR64, ''float64''),
     (PString, ''string''), (PNEString, ''none_empty_string''), (PBool, ''bool''),
     (PTrue, ''true''), (PFalse, ''false''), (PNull, ''null''), (PMap, ''map''), (PList, ''list''),
     (PPair, ''pair''), (PRegexp, ''regexp''), (PClosure, ''closure''),
     (PNFunc, ''native_function''), (PSFunc, ''script_function''), (PMFunc, ''method_function''),
     (PAny, ''any'')]"

definition protoelem_str :: "protoelem \<Rightarrow> string" where
  "protoelem_str p =
     (if pe_opcode p = PUsr then ''user['' @ pe_tname p @ '']''
      else case map_of opc_names (pe_opcode p) of Some n \<Rightarrow> n | None \<Rightarrow> ''none'')"

fun argp_str :: "argp \<Rightarrow> string" where
  "argp_str [] = ''''"
| "argp_str (e # es) = protoelem_str e @ concat (map (\<lambda>x. CHR ''|'' # protoelem_str x) es)"

section \<open>The compiler\<close>

abbreviation (input) rc :: "char \<Rightarrow> rune" where "rc c \<equiv> rune_of c"

text \<open>
  \<open>scanTName\<close>: the quoted type name; \<open>q\<close> is the quote and \<open>b\<close> what was written so far.
\<close>

fun scanTName_loop :: "rune \<Rightarrow> rune list \<Rightarrow> string \<Rightarrow> (rune list \<times> string) res" where
  "scanTName_loop q [] b = Err ''string is not closed by quote''"
| "scanTName_loop q (c # cs) b =
     (if c = q then Ok (cs, b)
      else if c = rc (CHR 0x5C) then
        (case cs of
           [] \<Rightarrow> Err ''invalid escape sequences''
         | nc # cs' \<Rightarrow>
             if nc \<in> {rc (CHR 0x5C), rc (CHR 0x22), rc (CHR 0x27)}
             then scanTName_loop q cs' (b @ utf8_rune nc)
             else Err ''invalid escape sequences'')
      else scanTName_loop q cs (b @ utf8_rune c))"

fun scanTName :: "rune list \<Rightarrow> (rune list \<times> string) res" where
  "scanTName [] = Panic ''index out of range''"
| "scanTName (bc # cs) =
     (if bc \<noteq> rc (CHR 0x27) \<and> bc \<noteq> rc (CHR 0x22)
      then Err (''expect '' @ [CHR 0x27] @ '' or '' @ [CHR 0x22] @ '' to indicate type name'')
      else scanTName_loop bc cs '''')"

text \<open>The letter after \<open>%\<close>.\<close>

definition type_letters :: "(rune \<times> opc) list" where
  "type_letters =
    [(rc (CHR ''d''), PInt), (rc (CHR ''i''), PInt), (rc (CHR ''u''), PUInt),
     (rc (CHR ''f''), PReal), (rc (CHR ''F''), PUReal), (rc (CHR ''s''), PString),
     (rc (CHR ''S''), PNEString), (rc (CHR ''b''), PBool), (rc (CHR ''Y''), PTrue),
     (rc (CHR ''N''), PFalse), (rc (CHR ''n''), PNull), (rc (CHR ''m''), PMap),
     (rc (CHR ''p''), PPair), (rc (CHR ''l''), PList), (rc (CHR ''r''), PRegexp),
     (rc (CHR ''U''), PUsr), (rc (CHR ''c''), PClosure), (rc (CHR ''C''), PSFunc),
     (rc (CHR ''R''), PNFunc), (rc (CHR ''M''), PMFunc), (rc (CHR ''a''), PAny),
     (rc (CHR ''0''), PNone)]"

definition byte_marks :: "(rune \<times> nat) list" where
  "byte_marks = [(rc (CHR ''1''), 1), (rc (CHR ''2''), 2), (rc (CHR ''4''), 3), (rc (CHR ''8''), 4)]"

text \<open>The optional part after the letter: a type name in brackets or a byte count.\<close>

definition compT_suffix :: "opc \<Rightarrow> rune \<Rightarrow> rune list \<Rightarrow> (rune list \<times> opc \<times> string) res" where
  "compT_suffix op nnc cs =
     (if nnc = rc (CHR ''['') then
        (if op \<noteq> PUsr then Err ''only %U(user type) can have optional type name''
         else case cs of
           [] \<Rightarrow> Err ''unfinished optinoal type name''
         | c # cs' \<Rightarrow>
             if c = rc (CHR '']'') then Ok (cs', op, '''')
             else rbind (scanTName cs) (\<lambda>(r, name).
                    case r of
                      [] \<Rightarrow> Panic ''index out of range''
                    | d # r' \<Rightarrow> if d = rc (CHR '']'') then Ok (r', op, name)
                               else Err ''type name must be closed by ]''))
      else case map_of byte_marks nnc of
        Some offset \<Rightarrow>
          (if op = PInt \<or> op = PUInt then Ok (cs, op + offset, '''')
           else if op = PReal then Ok (cs, op, '''')
           else if op = PUReal then
             (if offset = 1 \<or> offset = 2
              then Err ''real number can only have 4 or 8 byte count mark''
              else Ok (cs, op + (offset - 2), ''''))
           else Err ''only int, uint, real, ureal can have byte count mark'')
      | None \<Rightarrow> Ok (nnc # cs, op, ''''))"

text \<open>The result of \<open>compT\<close>: what is left, the element, and whether a \<open>*\<close> followed it.\<close>

definition compT :: "rune list \<Rightarrow> (rune list \<times> protoelem \<times> bool) res" where
  "compT rs =
     (case rs of
        [] \<Rightarrow> Panic ''index out of range''
      | c # cs \<Rightarrow>
          if c \<noteq> rc (CHR ''%'') then Err ''expect % to start type descriptor''
          else case cs of
            [] \<Rightarrow> Err ''dangling %''
          | nc # cs1 \<Rightarrow>
              (case map_of type_letters nc of
                 None \<Rightarrow>
                   if nc = rc (CHR ''-'') then Err ''%- cannot have any other leading type descriptors''
                   else Err (''unknown type descriptor '' @ utf8_rune nc)
               | Some op \<Rightarrow>
                   (case cs1 of
                      [] \<Rightarrow> Ok ([], \<lparr>pe_opcode = op, pe_tname = ''''\<rparr>, False)
                    | nnc # cs2 \<Rightarrow>
                        rbind (compT_suffix op nnc cs2) (\<lambda>(r, op', tname).
                        case r of
                          [] \<Rightarrow> Ok ([], \<lparr>pe_opcode = op', pe_tname = tname\<rparr>, False)
                        | d # r' \<Rightarrow>
                            if d = rc (CHR ''*'') then
                              (if r' \<noteq> [] \<and> hd r' \<noteq> rc (CHR ''}'')
                               then Err (''nothing should be expeceted after %'' @ utf8_rune nc @ ''*'')
                               else Ok (r', \<lparr>pe_opcode = op', pe_tname = tname\<rparr>, True))
                            else Ok (r, \<lparr>pe_opcode = op', pe_tname = tname\<rparr>, False)))))"

lemma scanTName_loop_length: "scanTName_loop q cs b = Ok (r, n) \<Longrightarrow> length r < length cs"
  by (induction q cs b rule: scanTName_loop.induct) (auto split: if_splits list.splits)

lemma scanTName_length: "scanTName cs = Ok (r, n) \<Longrightarrow> length r < length cs"
  by (cases cs) (auto split: if_splits dest!: scanTName_loop_length)

lemma compT_suffix_length: "compT_suffix op n cs = Ok (r, x) \<Longrightarrow> length r \<le> Suc (length cs)"
  by (auto simp: compT_suffix_def elim!: rbind_OkE split: if_split_asm list.split_asm option.split_asm
      simp del: scanTName.simps dest!: scanTName_length)

lemma compT_length: "compT rs = Ok (r, x) \<Longrightarrow> length r < length rs"
  by (auto simp: compT_def elim!: rbind_OkE split: if_split_asm list.split_asm option.split_asm
      dest!: compT_suffix_length)

text \<open>The parenthesised alternatives, after \<open>(\<close> or \<open>|\<close>.\<close>

function compGroup :: "rune list \<Rightarrow> protoelem list \<Rightarrow> (rune list \<times> protoelem list) res" where
  "compGroup rs orlist =
     (if rs = [] then Err ''not closed type group''
      else rbind (compT rs) (\<lambda>(cc, pelem, vlen).
        if pe_opcode pelem = PNone then Err ''%0 cannot show up in type OR list''
        else if vlen then
          Err (''or list cannot have type modifier with var length, '' @
               ''try to rewrite it with different group'')
        else case cc of
          [] \<Rightarrow> Panic ''index out of range''
        | c # cs \<Rightarrow>
            if c = rc (CHR ''|'') then compGroup cs (orlist @ [pelem])
            else if c = rc (CHR '')'') then Ok (cs, orlist @ [pelem])
            else Err (''unknown token '' @ utf8_rune c)))"
  by pat_completeness auto
termination
  by (relation "measure (\<lambda>(rs, _). length rs)") (auto dest!: compT_length)

declare compGroup.simps [simp del]

lemma compGroup_length: "compGroup rs ol = Ok (r, x) \<Longrightarrow> length r < length rs"
proof (induction rs ol rule: compGroup.induct)
  case (1 rs ol)
  note prems = "1.prems" [unfolded compGroup.simps [of rs ol]]
  from prems obtain cc p v where t: "rs \<noteq> []" "compT rs = Ok (cc, p, v)"
    by (auto elim!: rbind_OkE split: if_split_asm)
  from prems t(1) compT_length [OF t(2)] show ?case
    by (auto simp: t(2) split: if_split_asm list.split_asm dest!: "1.IH" [OF t refl refl])
qed

definition no_arg_error :: string where
  "no_arg_error = ''%0 shows up inside of the format list, the can just contain exactly one %0''"

text \<open>One overload, up to and including its \<open>}\<close>; \<open>hasnoarg\<close> and \<open>ac_noarg\<close> are the same flag.\<close>

function compCase_loop :: "rune list \<Rightarrow> argpcase \<Rightarrow> (argpcase \<times> rune list) res" where
  "compCase_loop [] ac = Ok (ac, [])"
| "compCase_loop (c # cs) ac =
     (if c = rc (CHR ''}'') then Ok (ac, cs)
      else if c = rc (CHR ''%'') then
        (if ac_noarg ac then Err no_arg_error
         else rbind (compT (c # cs)) (\<lambda>(cc, pelem, vlen).
           let ac1 = ac\<lparr>ac_varlen := ac_varlen ac \<or> vlen\<rparr> in
           if pe_opcode pelem = PNone then
             (if ac_d ac1 \<noteq> [] then Err no_arg_error
              else compCase_loop cc (ac1\<lparr>ac_noarg := True\<rparr>))
           else compCase_loop cc (ac1\<lparr>ac_d := ac_d ac1 @ [[pelem]]\<rparr>)))
      else if c = rc (CHR ''('') then
        rbind (compGroup cs []) (\<lambda>(cc, orlist).
          compCase_loop cc (ac\<lparr>ac_d := ac_d ac @ [orlist]\<rparr>))
      else Err (''unknown token '' @ utf8_rune c @ '', expect % or (''))"
  by pat_completeness auto
termination
  by (relation "measure (\<lambda>(rs, _). length rs)") (auto dest!: compT_length compGroup_length)

declare compCase_loop.simps [simp del]

definition compCase :: "rune list \<Rightarrow> (argpcase \<times> rune list) res" where
  "compCase rs = compCase_loop rs \<lparr>ac_d = [], ac_noarg = False, ac_varlen = False\<rparr>"

lemma compCase_loop_length: "compCase_loop rs ac = Ok (a, r) \<Longrightarrow> length r \<le> length rs - 1"
proof (induction "length rs" arbitrary: rs ac rule: less_induct)
  case less
  show ?case
  proof (cases rs)
    case Nil
    with less.prems show ?thesis by (simp add: compCase_loop.simps)
  next
    case (Cons c cs)
    have IH: "length r \<le> length cs" if "compCase_loop cc ac' = Ok (a, r)" "length cc \<le> length cs" for cc ac'
      using less.hyps [OF _ that(1)] that(2) Cons by fastforce
    have T: "length cc \<le> length cs" if "compT (d # cs) = Ok (cc, x)" for cc d x
      using compT_length [OF that] by simp
    have G: "length cc \<le> length cs" if "compGroup cs [] = Ok (cc, x)" for cc x
      using compGroup_length [OF that] by simp
    from less.prems Cons show ?thesis
      by (auto simp: compCase_loop.simps Let_def elim!: rbind_OkE split: if_split_asm
          dest!: T G dest: IH)
  qed
qed

text \<open>The overloads of a whole descriptor, in order.\<close>

function compile_loop :: "rune list \<Rightarrow> argpcase list res" where
  "compile_loop [] = Ok []"
| "compile_loop (c # cs) =
     rbind (compCase (if c = rc (CHR ''{'') then cs else c # cs)) (\<lambda>(ele, r).
     rbind (compile_loop r) (\<lambda>es. Ok (ele # es)))"
  by pat_completeness auto
termination
  by (relation "measure length") (auto simp: compCase_def split: if_splits dest!: compCase_loop_length)

declare compile_loop.simps [simp del]

definition NewFuncProto :: "string \<Rightarrow> string \<Rightarrow> funcproto res" where
  "NewFuncProto name d =
     (let f = \<lparr>fp_Descriptor = d, fp_Name = name, fp_d = [], fp_noarg = False, fp_alwayspass = False\<rparr> in
      if length d = 0 \<or> d = ''%0'' then Ok (f\<lparr>fp_noarg := True\<rparr>)
      else if d = ''%-'' then Ok (f\<lparr>fp_alwayspass := True\<rparr>)
      else rbind (compile_loop (utf8_decode d)) (\<lambda>es. Ok (f\<lparr>fp_d := es\<rparr>)))"

definition MustNewFuncProto :: "string \<Rightarrow> string \<Rightarrow> funcproto res" where
  "MustNewFuncProto name d =
     (case NewFuncProto name d of
        Err e \<Rightarrow> Panic (''MustNewFuncProto: '' @ e)
      | r \<Rightarrow> r)"

section \<open>Checking an argument list\<close>

text \<open>\<open>check0\<close> without a conversion callback: does one value fit one element?\<close>

definition check0 :: "'w oenv \<Rightarrow> 'w store \<Rightarrow> protoelem \<Rightarrow> val \<Rightarrow> bool res" where
  "check0 env st e got =
     (let o1 = pe_opcode e in
      if o1 = PAny then Ok True
      else case got of
        VInt i \<Rightarrow>
          Ok (if opc_isInt o1 then True else if opc_isUInt o1 then 0 \<le> sint i else False)
      | VReal r \<Rightarrow>
          Ok (if opc_isReal o1 then True else if opc_isUReal o1 then 0 \<le> r else False)
      | VStr s \<Rightarrow>
          Ok (if o1 = PString then True else if o1 = PNEString then length s \<noteq> 0 else False)
      | VBool b \<Rightarrow>
          Ok (if o1 = PBool then True else if o1 = PTrue then b else if o1 = PFalse then \<not> b else False)
      | VNull \<Rightarrow> Ok (o1 = PNull)
      | VPair _ \<Rightarrow> Ok (o1 = PPair)
      | VList _ \<Rightarrow> Ok (o1 = PList)
      | VMap _ \<Rightarrow> Ok (o1 = PMap)
      | VRegexp _ \<Rightarrow> Ok (o1 = PRegexp)
      | VClosure c \<Rightarrow>
          if o1 = PClosure then Ok True
          else if o1 \<in> {PNFunc, PSFunc, PMFunc} then
            rbind (deref (st_clos st) c) (\<lambda>x.
              Ok (closure_Type x = (if o1 = PNFunc then ClosureNative
                                    else if o1 = PSFunc then ClosureScript else ClosureMethod)))
          else Ok False
      | VIter _ \<Rightarrow> Ok False
      | _ \<Rightarrow>
          if o1 = PUsr then
            (if pe_tname e \<noteq> '''' then rbind (v_Id env st got) (\<lambda>i. Ok (pe_tname e = i)) else Ok True)
          else Ok False)"

text \<open>The alternatives, left to right.\<close>

fun check_or :: "'w oenv \<Rightarrow> 'w store \<Rightarrow> argp \<Rightarrow> val \<Rightarrow> bool res" where
  "check_or env st [] got = Ok False"
| "check_or env st (c # cs) got =
     rbind (check0 env st c got) (\<lambda>b. if b then Ok True else check_or env st cs got)"

definition check1 :: "'w oenv \<Rightarrow> 'w store \<Rightarrow> nat \<Rightarrow> argp \<Rightarrow> val \<Rightarrow> unit res" where
  "check1 env st index e got =
     rbind (check_or env st e got) (\<lambda>b.
       if b then Ok ()
       else rbind (v_Info env st got) (\<lambda>info.
         Err (int_dec (int (Suc index)) @ CHR 0x27 # ''th argument'' @ CHR 0x27 # ''s type is invalided, type input is '' @
              info @ '' but what we expect is '' @ argp_str e)))"

text \<open>The two loops of \<open>doCheck\<close>: element against argument, then the last element against the rest.\<close>

fun check_zip :: "'w oenv \<Rightarrow> 'w store \<Rightarrow> nat \<Rightarrow> argp list \<Rightarrow> val list \<Rightarrow> unit res" where
  "check_zip env st idx (a # d) (v # vs) =
     rbind (check1 env st idx a v) (\<lambda>_. check_zip env st (Suc idx) d vs)"
| "check_zip env st idx _ _ = Ok ()"

fun check_rest :: "'w oenv \<Rightarrow> 'w store \<Rightarrow> nat \<Rightarrow> argp \<Rightarrow> val list \<Rightarrow> unit res" where
  "check_rest env st i e [] = Ok ()"
| "check_rest env st i e (v # vs) =
     rbind (check1 env st i e v) (\<lambda>_. check_rest env st (Suc i) e vs)"

definition doCheck :: "'w oenv \<Rightarrow> 'w store \<Rightarrow> string \<Rightarrow> argpcase \<Rightarrow> val list \<Rightarrow> unit res" where
  "doCheck env st name c args =
     (let alen = length args; elen = length (ac_d c) in
      if ac_noarg c then
        (if alen \<noteq> 0 then
           Err (''function(method) call: '' @ name @ '' expect 0 arguments, but got '' @ int_dec (int alen))
         else Ok ())
      else if alen < elen \<and> \<not> (ac_varlen c \<and> alen = elen - 1) then
        Err (''function(method) call: '' @ name @ '' expects'' @
             (if ac_varlen c then '' at least '' else '''') @ int_dec (int elen) @
             '' arguments, but got '' @ int_dec (int alen) @ '' arguments'')
      else rbind (check_zip env st 0 (ac_d c) args) (\<lambda>_.
        if elen < alen then
          (if \<not> ac_varlen c then
             Err (''function(method) call: '' @ name @ '' expects '' @ int_dec (int elen) @
                  '' argument, but got '' @ int_dec (int alen))
           else if elen = 0 then Panic ''index out of range''
           else check_rest env st elen (ac_d c ! (elen - 1)) (drop elen args))
        else Ok ()))"

text \<open>The overloads \<open>Check\<close> tries: those with the right number of elements.\<close>

fun check_cases :: "'w oenv \<Rightarrow> 'w store \<Rightarrow> string \<Rightarrow> argpcase list \<Rightarrow> val list \<Rightarrow> bool res" where
  "check_cases env st name [] args = Ok False"
| "check_cases env st name (c # cs) args =
     (if length (ac_d c) = length args \<or> (length (ac_d c) < length args \<and> ac_varlen c) then
        (case doCheck env st name c args of
           Ok _ \<Rightarrow> Ok True
         | Err _ \<Rightarrow> check_cases env st name cs args
         | Panic m \<Rightarrow> Panic m
         | Diverge \<Rightarrow> Diverge)
      else check_cases env st name cs args)"

definition Check :: "'w oenv \<Rightarrow> 'w store \<Rightarrow> funcproto \<Rightarrow> val list \<Rightarrow> nat res" where
  "Check env st f args =
     (if fp_alwayspass f then Ok (length args)
      else if fp_noarg f then
        (if args = [] then Ok 0
         else Err (''function(method) call: '' @ fp_Name f @ '' expects no argument, but got '' @
                   int_dec (int (length args)) @ '' arguments''))
      else rbind (check_cases env st (fp_Name f) (fp_d f) args) (\<lambda>found.
        if found then Ok (length args)
        else Err (''function(method) call: '' @ fp_Name f @
                  '' invalid arguments, no matching argument type can be found'')))"

text \<open>What the methods do first: compile once (at start-up), check every call.\<close>

definition check_args :: "'w oenv \<Rightarrow> 'w store \<Rightarrow> string \<Rightarrow> string \<Rightarrow> val list \<Rightarrow> nat res" where
  "check_args env st name d args = rbind (MustNewFuncProto name d) (\<lambda>f. Check env st f args)"

section \<open>What a descriptor accepts\<close>

text \<open>
  The values a check can be made on: their description and identity can be computed (a pair
  that reaches itself has no description, see \<open>v_InfoN\<close>), and a closure points to one.
\<close>

definition describable :: "'w oenv \<Rightarrow> 'w store \<Rightarrow> val \<Rightarrow> bool" where
  "describable env st v \<longleftrightarrow> is_ok (v_Info env st v) \<and> is_ok (v_Id env st v)"

text \<open>
  What one element stands for, kind by kind: any value; an integer (of whatever size, the sizes only
  matter for a conversion) or one that is not negative; a number or one that is not negative (so not
  a NaN); a text or one that is not empty; a truth value or a particular one; null; a pair, list, map or
  regular expression; a function or one of a particular kind; a user value, of the named type if a
  type is named. An iterator is only let through by \<open>%a\<close>; a
  frame, which no script can name, passes for a user value.
\<close>

inductive elem_fits :: "'w oenv \<Rightarrow> 'w store \<Rightarrow> protoelem \<Rightarrow> val \<Rightarrow> bool" for env st e where
  fit_any: "pe_opcode e = PAny \<Longrightarrow> elem_fits env st e v"
| fit_int: "pe_opcode e \<in> {PInt, PI8, PI16, PI32, PI64} \<Longrightarrow> elem_fits env st e (VInt i)"
| fit_uint: "pe_opcode e \<in> {PUInt, PUI8, PUI16, PUI32, PUI64} \<Longrightarrow> 0 \<le> sint i \<Longrightarrow> elem_fits env st e (VInt i)"
| fit_real: "pe_opcode e \<in> {PReal, PR32, PR64} \<Longrightarrow> elem_fits env st e (VReal r)"
| fit_ureal: "pe_opcode e \<in> {PUReal, PUR32, PUR64} \<Longrightarrow> 0 \<le> r \<Longrightarrow> elem_fits env st e (VReal r)"
| fit_string: "pe_opcode e = PString \<Longrightarrow> elem_fits env st e (VStr s)"
| fit_nonempty: "pe_opcode e = PNEString \<Longrightarrow> s \<noteq> '''' \<Longrightarrow> elem_fits env st e (VStr s)"
| fit_bool: "pe_opcode e = PBool \<Longrightarrow> elem_fits env st e (VBool b)"
| fit_true: "pe_opcode e = PTrue \<Longrightarrow> elem_fits env st e (VBool True)"
| fit_false: "pe_opcode e = PFalse \<Longrightarrow> elem_fits env st e (VBool False)"
| fit_null: "pe_opcode e = PNull \<Longrightarrow> elem_fits env st e VNull"
| fit_pair: "pe_opcode e = PPair \<Longrightarrow> elem_fits env st e (VPair p)"
| fit_list: "pe_opcode e = PList \<Longrightarrow> elem_fits env st e (VList l)"
| fit_map: "pe_opcode e = PMap \<Longrightarrow> elem_fits env st e (VMap m)"
| fit_regexp: "pe_opcode e = PRegexp \<Longrightarrow> elem_fits env st e (VRegexp x)"
| fit_closure: "pe_opcode e = PClosure \<Longrightarrow> elem_fits env st e (VClosure c)"
| fit_native: "pe_opcode e = PNFunc \<Longrightarrow> deref (st_clos st) c = Ok (CNative n f) \<Longrightarrow> elem_fits env st e (VClosure c)"
| fit_script: "pe_opcode e = PSFunc \<Longrightarrow> deref (st_clos st) c = Ok (CScript p vs) \<Longrightarrow> elem_fits env st e (VClosure c)"
| fit_method: "pe_opcode e = PMFunc \<Longrightarrow> deref (st_clos st) c = Ok (CMethod m v) \<Longrightarrow> elem_fits env st e (VClosure c)"
| fit_user: "pe_opcode e = PUsr \<Longrightarrow> pe_tname e = '''' \<Longrightarrow> elem_fits env st e (VUsr u)"
| fit_named: "pe_opcode e = PUsr \<Longrightarrow> us_Id (oe_usr env u) st = Ok (pe_tname e) \<Longrightarrow> elem_fits env st e (VUsr u)"
| fit_frame: "pe_opcode e = PUsr \<Longrightarrow> pe_tname e \<in> {'''', ''#frame''} \<Longrightarrow> elem_fits env st e (VFrame f)"

inductive_simps elem_fits_simps:
  "elem_fits env st e (VInt i)" "elem_fits env st e (VReal r)" "elem_fits env st e (VStr s)"
  "elem_fits env st e (VBool b)" "elem_fits env st e VNull" "elem_fits env st e (VPair p)"
  "elem_fits env st e (VList l)" "elem_fits env st e (VMap m)" "elem_fits env st e (VRegexp x)"
  "elem_fits env st e (VClosure c)" "elem_fits env st e (VIter it)" "elem_fits env st e (VUsr u)"
  "elem_fits env st e (VFrame f)"

text \<open>An argument has alternatives.\<close>

definition fits :: "'w oenv \<Rightarrow> 'w store \<Rightarrow> argp \<Rightarrow> val \<Rightarrow> bool" where
  "fits env st a v \<longleftrightarrow> (\<exists>e\<in>set a. elem_fits env st e v)"

text \<open>
  An overload accepts as many arguments as it has elements, or more when it ends in \<open>*\<close>; the
  last element then stands for all that follow.
\<close>

definition case_fits :: "'w oenv \<Rightarrow> 'w store \<Rightarrow> argpcase \<Rightarrow> val list \<Rightarrow> bool" where
  "case_fits env st c args \<longleftrightarrow>
     (length args = length (ac_d c) \<or> ac_varlen c \<and> length (ac_d c) < length args) \<and>
     (if ac_noarg c then args = []
      else \<forall>i<length args. fits env st (ac_d c ! min i (length (ac_d c) - 1)) (args ! i))"

definition proto_fits :: "'w oenv \<Rightarrow> 'w store \<Rightarrow> funcproto \<Rightarrow> val list \<Rightarrow> bool" where
  "proto_fits env st f args \<longleftrightarrow>
     fp_alwayspass f \<or> (if fp_noarg f then args = [] else \<exists>c\<in>set (fp_d f). case_fits env st c args)"

text \<open>\<open>*\<close> only follows an element.\<close>

definition proto_wf :: "funcproto \<Rightarrow> bool" where
  "proto_wf f \<longleftrightarrow> (\<forall>c\<in>set (fp_d f). ac_varlen c \<longrightarrow> ac_noarg c \<or> ac_d c \<noteq> [])"

definition decides :: "unit res \<Rightarrow> bool \<Rightarrow> bool" where
  "decides r P \<longleftrightarrow> (if P then r = Ok () else (\<exists>e. r = Err e))"

lemma decides_bind:
  "decides r P \<Longrightarrow> (P \<Longrightarrow> r = Ok () \<Longrightarrow> decides s Q) \<Longrightarrow> decides (rbind r (\<lambda>_. s)) (P \<and> Q)"
  by (auto simp: decides_def split: if_splits)

lemma is_ok_iff: "is_ok r \<longleftrightarrow> (\<exists>x. r = Ok x)"
  by (cases r) auto

lemma check0_fits: "describable env st v \<Longrightarrow> check0 env st e v = Ok (elem_fits env st e v)"
proof (cases v)
  case (VClosure c)
  assume "describable env st v"
  then obtain x where "deref (st_clos st) c = Ok x"
    by (auto simp: VClosure describable_def is_ok_iff rbind_Ok_iff)
  then show ?thesis
    by (cases x) (simp_all add: VClosure check0_def elem_fits_simps Let_def)
qed (auto simp: check0_def elem_fits_simps describable_def is_ok_iff Let_def rbind_Ok_iff
    opc_isInt_def opc_isUInt_def opc_isReal_def opc_isUReal_def)

lemma check_or_fits: "describable env st v \<Longrightarrow> check_or env st a v = Ok (fits env st a v)"
  by (induction a) (auto simp: fits_def check0_fits)

lemma check1_decides: "describable env st v \<Longrightarrow> decides (check1 env st i a v) (fits env st a v)"
  by (auto simp: check1_def check_or_fits decides_def describable_def is_ok_iff)

lemma check_zip_decides:
  "\<forall>v\<in>set vs. describable env st v \<Longrightarrow>
   decides (check_zip env st i d vs) (\<forall>k<min (length d) (length vs). fits env st (d ! k) (vs ! k))"
proof (induction env st i d vs rule: check_zip.induct)
  case (1 env st idx a d v vs)
  then have "decides (rbind (check1 env st idx a v) (\<lambda>_. check_zip env st (Suc idx) d vs))
    (fits env st a v \<and> (\<forall>k<min (length d) (length vs). fits env st (d ! k) (vs ! k)))"
    by (intro decides_bind check1_decides) auto
  moreover have "(\<forall>k<min (length (a # d)) (length (v # vs)). fits env st ((a # d) ! k) ((v # vs) ! k)) =
    (fits env st a v \<and> (\<forall>k<min (length d) (length vs). fits env st (d ! k) (vs ! k)))"
    by (auto simp: nth_Cons' All_less_Suc2)
  ultimately show ?case by simp
qed (auto simp: decides_def)

lemma check_rest_decides:
  "\<forall>v\<in>set vs. describable env st v \<Longrightarrow>
   decides (check_rest env st i a vs) (\<forall>v\<in>set vs. fits env st a v)"
proof (induction env st i a vs rule: check_rest.induct)
  case (2 env st i a v vs)
  then have "decides (rbind (check1 env st i a v) (\<lambda>_. check_rest env st (Suc i) a vs))
    (fits env st a v \<and> (\<forall>v\<in>set vs. fits env st a v))"
    by (intro decides_bind check1_decides) auto
  then show ?case by simp
qed (simp add: decides_def)

lemma doCheck_decides:
  assumes v: "\<forall>v\<in>set args. describable env st v"
    and arity: "length args = length (ac_d c) \<or> length (ac_d c) < length args \<and> ac_varlen c"
    and wf: "ac_varlen c \<longrightarrow> ac_noarg c \<or> ac_d c \<noteq> []"
  shows "decides (doCheck env st name c args) (case_fits env st c args)"
proof (cases "ac_noarg c")
  case True
  with arity show ?thesis by (auto simp: doCheck_def case_fits_def decides_def)
next
  case False
  let ?n = "length (ac_d c)"
  have zip: "decides (check_zip env st 0 (ac_d c) args) (\<forall>k<?n. fits env st (ac_d c ! k) (args ! k))"
    using check_zip_decides [OF v, of 0 "ac_d c"] arity by (auto simp: min_def split: if_splits)
  show ?thesis
  proof (cases "?n < length args")
    case True
    with arity wf False have n: "ac_varlen c" "ac_d c \<noteq> []" by auto
    let ?last = "ac_d c ! (?n - 1)"
    have "decides (check_rest env st ?n ?last (drop ?n args)) (\<forall>v\<in>set (drop ?n args). fits env st ?last v)"
      by (rule check_rest_decides) (use v in \<open>auto dest: in_set_dropD\<close>)
    with zip have "decides (rbind (check_zip env st 0 (ac_d c) args)
        (\<lambda>_. check_rest env st ?n ?last (drop ?n args)))
      ((\<forall>k<?n. fits env st (ac_d c ! k) (args ! k)) \<and> (\<forall>v\<in>set (drop ?n args). fits env st ?last v))"
      by (rule decides_bind)
    moreover have "((\<forall>k<?n. fits env st (ac_d c ! k) (args ! k)) \<and> (\<forall>v\<in>set (drop ?n args). fits env st ?last v)) =
      (\<forall>i<length args. fits env st (ac_d c ! min i (?n - 1)) (args ! i))" (is "?l = ?r")
    proof
      assume l: ?l
      show ?r
      proof (intro allI impI)
        fix i assume i: "i < length args"
        show "fits env st (ac_d c ! min i (?n - 1)) (args ! i)"
        proof (cases "i < ?n")
          case True
          with l show ?thesis by (simp add: min_absorb1)
        next
          case False
          then have "args ! i \<in> set (drop ?n args)"
            using i by (metis add_diff_inverse_nat diff_less_mono in_set_conv_nth length_drop linorder_not_less nth_drop order_less_imp_le True)
          with l False show ?thesis by (simp add: min_absorb2)
        qed
      qed
    next
      assume r: ?r
      have "fits env st (ac_d c ! k) (args ! k)" if "k < ?n" for k
        using r [rule_format, of k] that True by (simp add: min_absorb1)
      moreover have "fits env st ?last v" if "v \<in> set (drop ?n args)" for v
      proof -
        from that obtain j where "j < length args - ?n" "v = args ! (?n + j)"
          by (metis in_set_conv_nth length_drop nth_drop order_less_imp_le True)
        with r [rule_format, of "?n + j"] show ?thesis by (simp add: min_absorb2)
      qed
      ultimately show ?l by blast
    qed
    ultimately show ?thesis
      using True n False arity by (simp add: doCheck_def case_fits_def Let_def)
  next
    case eq: False
    with arity have l: "length args = ?n" by auto
    with zip have "decides (rbind (check_zip env st 0 (ac_d c) args) (\<lambda>_. Ok ()))
        ((\<forall>k<?n. fits env st (ac_d c ! k) (args ! k)) \<and> True)"
      by (intro decides_bind) (simp_all add: decides_def)
    moreover have "(\<forall>k<?n. fits env st (ac_d c ! k) (args ! k)) =
      (\<forall>i<?n. fits env st (ac_d c ! min i (?n - 1)) (args ! i))"
      by (auto simp: min_absorb1)
    moreover have "doCheck env st name c args = rbind (check_zip env st 0 (ac_d c) args) (\<lambda>_. Ok ())"
      using l False by (simp add: doCheck_def)
    moreover have "case_fits env st c args = (\<forall>i<?n. fits env st (ac_d c ! min i (?n - 1)) (args ! i))"
      using l False by (simp add: case_fits_def)
    ultimately show ?thesis by (simp only: simp_thms)
  qed
qed

lemma check_cases_fits:
  assumes "\<forall>v\<in>set args. describable env st v"
  shows "\<forall>c\<in>set cs. ac_varlen c \<longrightarrow> ac_noarg c \<or> ac_d c \<noteq> [] \<Longrightarrow>
    check_cases env st name cs args = Ok (\<exists>c\<in>set cs. case_fits env st c args)"
proof (induction cs)
  case Nil
  then show ?case by simp
next
  case (Cons c cs)
  then have IH: "check_cases env st name cs args = Ok (\<exists>c\<in>set cs. case_fits env st c args)" by simp
  show ?case
  proof (cases "length (ac_d c) = length args \<or> length (ac_d c) < length args \<and> ac_varlen c")
    case True
    then have "length args = length (ac_d c) \<or> length (ac_d c) < length args \<and> ac_varlen c" by auto
    from doCheck_decides [OF assms this, of name] Cons.prems
    have "decides (doCheck env st name c args) (case_fits env st c args)" by simp
    with True IH show ?thesis by (cases "case_fits env st c args") (auto simp: decides_def)
  next
    case False
    then have "\<not> case_fits env st c args" by (auto simp: case_fits_def)
    with False IH show ?thesis by auto
  qed
qed

text \<open>What the compiler returns is well formed.\<close>

definition ac_wf :: "argpcase \<Rightarrow> bool" where
  "ac_wf c \<longleftrightarrow> (ac_varlen c \<longrightarrow> ac_noarg c \<or> ac_d c \<noteq> [])"

lemma ac_wf_upd:
  "ac_wf (ac\<lparr>ac_varlen := b, ac_noarg := True\<rparr>)"
  "ac_wf (ac\<lparr>ac_varlen := b, ac_d := d @ [x]\<rparr>)"
  "ac_wf (ac\<lparr>ac_d := d @ [x]\<rparr>)"
  "ac_wf \<lparr>ac_d = [], ac_noarg = False, ac_varlen = False\<rparr>"
  by (simp_all add: ac_wf_def)

lemma compCase_loop_wf: "compCase_loop rs ac = Ok (a, r) \<Longrightarrow> ac_wf ac \<Longrightarrow> ac_wf a"
proof (induction "length rs" arbitrary: rs ac rule: less_induct)
  case less
  show ?case
  proof (cases rs)
    case Nil
    with less.prems show ?thesis by (simp add: compCase_loop.simps)
  next
    case (Cons c cs)
    have IH: "ac_wf a" if "compCase_loop cc ac' = Ok (a, r)" "length cc \<le> length cs" "ac_wf ac'" for cc ac'
      using less.hyps [OF _ that(1)] that(2,3) Cons by fastforce
    have T: "length cc \<le> length cs" if "compT (d # cs) = Ok (cc, x)" for cc d x
      using compT_length [OF that] by simp
    have G: "length cc \<le> length cs" if "compGroup cs [] = Ok (cc, x)" for cc x
      using compGroup_length [OF that] by simp
    from less.prems Cons show ?thesis
      by (auto simp: compCase_loop.simps Let_def elim!: rbind_OkE split: if_split_asm
          dest!: T G dest: IH [OF _ _ ac_wf_upd(1)] IH [OF _ _ ac_wf_upd(2)] IH [OF _ _ ac_wf_upd(3)])
  qed
qed

lemma compile_loop_wf: "compile_loop rs = Ok es \<Longrightarrow> c \<in> set es \<Longrightarrow> ac_wf c"
proof (induction rs arbitrary: es rule: compile_loop.induct)
  case 1
  then show ?case by (simp add: compile_loop.simps)
next
  case (2 x xs)
  from "2.prems"(1) obtain e r es' where
    e: "compCase (if x = rc CHR ''{'' then xs else x # xs) = Ok (e, r)" "compile_loop r = Ok es'" "es = e # es'"
    by (auto simp: compile_loop.simps elim!: rbind_OkE)
  from compCase_loop_wf [OF e(1) [unfolded compCase_def] ac_wf_upd(4)] "2.IH" [OF e(1) refl e(2)] "2.prems"(2) e(3)
  show ?case by auto
qed

lemma NewFuncProto_wf: "NewFuncProto name d = Ok f \<Longrightarrow> proto_wf f"
  by (auto simp: NewFuncProto_def proto_wf_def ac_wf_def [symmetric] Let_def elim!: rbind_OkE split: if_split_asm
      dest: compile_loop_wf)

text \<open>
  C24: the argument check of native functions and methods decides exactly what the compiled
  descriptor says. For a descriptor the compiler accepts and arguments that can be described,
  it returns the number of arguments when the descriptor is \<open>%-\<close>, or allows no argument and
  there is none, or has an overload of the right length each of whose elements (the last one
  repeated after \<open>*\<close>) has an alternative that the argument fits in the sense of \<open>elem_fits\<close>; otherwise it returns an error. It
  never panics.
\<close>

theorem Check_spec:
  assumes "NewFuncProto name d = Ok f" and "\<forall>v\<in>set args. describable env st v"
  shows "if proto_fits env st f args then Check env st f args = Ok (length args)
         else (\<exists>e. Check env st f args = Err e)"
proof -
  have "check_cases env st (fp_Name f) (fp_d f) args = Ok (\<exists>c\<in>set (fp_d f). case_fits env st c args)"
    using check_cases_fits [OF assms(2)] NewFuncProto_wf [OF assms(1)] by (simp add: proto_wf_def)
  then show ?thesis by (auto simp: Check_def proto_fits_def)
qed

theorem Check_spec_witness:
  "Check (plain_env []) (st_init ()) \<lparr>fp_Descriptor = ''{%d}{%d%d}'', fp_Name = ''str.substr'',
     fp_d = [\<lparr>ac_d = [[\<lparr>pe_opcode = PInt, pe_tname = ''''\<rparr>]], ac_noarg = False, ac_varlen = False\<rparr>,
             \<lparr>ac_d = [[\<lparr>pe_opcode = PInt, pe_tname = ''''\<rparr>], [\<lparr>pe_opcode = PInt, pe_tname = ''''\<rparr>]],
              ac_noarg = False, ac_varlen = False\<rparr>],
     fp_noarg = False, fp_alwayspass = False\<rparr> [VInt 1, VInt 2] = Ok 2"
proof -
  let ?f = "\<lparr>fp_Descriptor = ''{%d}{%d%d}'', fp_Name = ''str.substr'',
     fp_d = [\<lparr>ac_d = [[\<lparr>pe_opcode = PInt, pe_tname = ''''\<rparr>]], ac_noarg = False, ac_varlen = False\<rparr>,
             \<lparr>ac_d = [[\<lparr>pe_opcode = PInt, pe_tname = ''''\<rparr>], [\<lparr>pe_opcode = PInt, pe_tname = ''''\<rparr>]],
              ac_noarg = False, ac_varlen = False\<rparr>],
     fp_noarg = False, fp_alwayspass = False\<rparr>"
  have f: "NewFuncProto ''str.substr'' ''{%d}{%d%d}'' = Ok ?f" by code_simp
  have d: "\<forall>v\<in>set [VInt 1, VInt 2]. describable (plain_env []) (st_init ()) v"
    by (simp add: describable_def v_Info_def)
  have "fits (plain_env []) (st_init ()) [\<lparr>pe_opcode = PInt, pe_tname = ''''\<rparr>] (VInt i)" for i
    by (simp add: fits_def elem_fits_simps)
  then have "proto_fits (plain_env []) (st_init ()) ?f [VInt 1, VInt 2]"
    by (auto simp: proto_fits_def case_fits_def nth_Cons' less_Suc_eq)
  with Check_spec [OF f d] show ?thesis by simp
qed

section \<open>Descriptors are read back as they are written\<close>

text \<open>The letter of each element, the byte mark of the sized ones, and the quoted type name.\<close>

definition op_letter :: "opc \<Rightarrow> rune list option" where
  "op_letter o1 =
     (if o1 \<in> {PI8, PI16, PI32, PI64} then
        Some [rc (CHR ''d''), rc (''1248'' ! (o1 - PI8))]
      else if o1 \<in> {PUI8, PUI16, PUI32, PUI64} then
        Some [rc (CHR ''u''), rc (''1248'' ! (o1 - PUI8))]
      else if o1 = PUR32 then Some [rc (CHR ''F''), rc (CHR ''4'')]
      else if o1 = PUR64 then Some [rc (CHR ''F''), rc (CHR ''8'')]
      else if o1 = PNone then None
      else map_option (\<lambda>l. [l]) (map_of (map (\<lambda>(l, p). (p, l)) type_letters) o1))"

definition esc :: "rune \<Rightarrow> rune list" where
  "esc c = (if c \<in> {rc (CHR 0x5C), rc (CHR 0x22), rc (CHR 0x27)} then [rc (CHR 0x5C), c] else [c])"

definition pr_elem :: "protoelem \<Rightarrow> rune list" where
  "pr_elem e =
     rc (CHR ''%'') # the (op_letter (pe_opcode e)) @
     (if pe_tname e = '''' then []
      else [rc (CHR ''[''), rc (CHR 0x27)] @ concat (map esc (utf8_decode (pe_tname e))) @
           [rc (CHR 0x27), rc (CHR '']'')])"

definition pr_argp :: "argp \<Rightarrow> rune list" where
  "pr_argp a =
     (if length a = 1 then pr_elem (hd a)
      else rc (CHR ''('') # pr_elem (hd a) @ concat (map (\<lambda>e. rc (CHR ''|'') # pr_elem e) (tl a)) @
           [rc (CHR '')'')])"

definition pr_case :: "argpcase \<Rightarrow> rune list" where
  "pr_case c =
     rc (CHR ''{'') #
     (if ac_noarg c then [rc (CHR ''%''), rc (CHR ''0'')] else concat (map pr_argp (ac_d c))) @
     (if ac_varlen c then [rc (CHR ''*'')] else []) @ [rc (CHR ''}'')]"

definition elem_ok :: "protoelem \<Rightarrow> bool" where
  "elem_ok e \<longleftrightarrow> op_letter (pe_opcode e) \<noteq> None \<and> (pe_tname e \<noteq> '''' \<longrightarrow> pe_opcode e = PUsr) \<and>
     utf8_encode (utf8_decode (pe_tname e)) = pe_tname e"

definition case_ok :: "argpcase \<Rightarrow> bool" where
  "case_ok c \<longleftrightarrow>
     (if ac_noarg c then ac_d c = [] \<and> \<not> ac_varlen c
      else (\<forall>a\<in>set (ac_d c). a \<noteq> [] \<and> (\<forall>e\<in>set a. elem_ok e)) \<and>
           (ac_varlen c \<longrightarrow> ac_d c \<noteq> [] \<and> length (last (ac_d c)) = 1))"

lemma scan_escaped:
  "scanTName_loop (rc (CHR 0x27)) (concat (map esc ns) @ rc (CHR 0x27) # rest) b =
   Ok (rest, b @ utf8_encode ns)"
proof (induction ns arbitrary: b)
  case Nil
  then show ?case by (simp add: utf8_encode_def)
next
  case (Cons n ns)
  then show ?case by (auto simp: esc_def rune_of_def utf8_encode_Cons)
qed

text \<open>What may follow an element without being taken for a part of it.\<close>

definition stops :: "rune list \<Rightarrow> bool" where
  "stops rest \<longleftrightarrow> (case rest of [] \<Rightarrow> True
     | c # _ \<Rightarrow> c \<in> {rc (CHR ''%''), rc (CHR ''(''), rc (CHR '')''), rc (CHR ''|''), rc (CHR ''}'')})"

text \<open>What \<open>compT\<close> makes of the letters: the base element and its byte mark.\<close>

definition letter_ok :: "opc \<Rightarrow> bool" where
  "letter_ok o1 =
     (case op_letter o1 of
        None \<Rightarrow> True
      | Some [x] \<Rightarrow> map_of type_letters x = Some o1 \<and> o1 \<noteq> PNone
      | Some [x, y] \<Rightarrow>
          (case (map_of type_letters x, map_of byte_marks y) of
             (Some b, Some k) \<Rightarrow>
               b = PInt \<and> o1 = b + k \<or> b = PUInt \<and> o1 = b + k \<or>
               b = PUReal \<and> k \<noteq> 1 \<and> k \<noteq> 2 \<and> o1 = b + (k - 2)
           | _ \<Rightarrow> False)
      | _ \<Rightarrow> False)"

lemma letter_ok: "letter_ok o1"
proof (cases "o1 < 32")
  case True
  have "\<forall>x\<in>set [0..<32]. letter_ok x" by code_simp
  with True show ?thesis by simp
next
  case False
  then have "op_letter o1 = None" by (simp add: op_letter_def type_letters_def)
  then show ?thesis by (simp add: letter_ok_def)
qed

lemma op_letter_cases:
  assumes "op_letter o1 = Some l"
  obtains (plain) x where "l = [x]" "map_of type_letters x = Some o1" "o1 \<noteq> PNone"
  | (sized) x y b k where "l = [x, y]" "map_of type_letters x = Some b" "map_of byte_marks y = Some k"
      "b = PInt \<or> b = PUInt" "o1 = b + k"
  | (real) x y k where "l = [x, y]" "map_of type_letters x = Some PUReal" "map_of byte_marks y = Some k"
      "k \<noteq> 1" "k \<noteq> 2" "o1 = PUReal + (k - 2)"
  using letter_ok [of o1] assms unfolding letter_ok_def
  by (simp split: list.split_asm option.split_asm prod.split_asm) blast+

lemma byte_marks_bracket: "map_of byte_marks y = Some k \<Longrightarrow> y \<noteq> rc (CHR ''['')"
  by (auto simp: byte_marks_def rune_of_def split: if_splits)

text \<open>The suffix of an element: nothing is taken from what follows the letters.\<close>

lemma compT_suffix_letters:
  assumes "op_letter o1 = Some l" and "c \<notin> insert (rc (CHR ''['')) (fst ` set byte_marks)"
  shows "compT (rc (CHR ''%'') # l @ c # cs) =
    (if c = rc (CHR ''*'') then
       if cs \<noteq> [] \<and> hd cs \<noteq> rc (CHR ''}'')
       then Err (''nothing should be expeceted after %'' @ utf8_rune (hd l) @ ''*'')
       else Ok (cs, \<lparr>pe_opcode = o1, pe_tname = ''''\<rparr>, True)
     else Ok (c # cs, \<lparr>pe_opcode = o1, pe_tname = ''''\<rparr>, False))"
proof -
  have c: "c \<noteq> rc (CHR ''['')" "map_of byte_marks c = None"
    using assms(2) by (auto simp: map_of_eq_None_iff)
  from assms(1) show ?thesis
  proof (cases rule: op_letter_cases)
    case (plain x)
    with c show ?thesis by (simp add: compT_def compT_suffix_def)
  next
    case (sized x y b k)
    with c byte_marks_bracket [OF sized(3)] show ?thesis by (auto simp: compT_def compT_suffix_def)
  next
    case (real x y k)
    with c byte_marks_bracket [OF real(3)] show ?thesis by (simp add: compT_def compT_suffix_def)
  qed
qed

lemma compT_letters_end:
  assumes "op_letter o1 = Some l"
  shows "compT (rc (CHR ''%'') # l) = Ok ([], \<lparr>pe_opcode = o1, pe_tname = ''''\<rparr>, False)"
  using assms
proof (cases rule: op_letter_cases)
  case (plain x)
  then show ?thesis by (simp add: compT_def)
next
  case (sized x y b k)
  with byte_marks_bracket [OF sized(3)] show ?thesis by (auto simp: compT_def compT_suffix_def)
next
  case (real x y k)
  with byte_marks_bracket [OF real(3)] show ?thesis by (simp add: compT_def compT_suffix_def)
qed

lemma compT_letter:
  assumes "op_letter o1 = Some l" and "stops rest"
  shows "compT (rc (CHR ''%'') # l @ rest) = Ok (rest, \<lparr>pe_opcode = o1, pe_tname = ''''\<rparr>, False)"
proof (cases rest)
  case Nil
  with compT_letters_end [OF assms(1)] show ?thesis by simp
next
  case (Cons c cs)
  with assms(2) have "c \<notin> insert (rc (CHR ''['')) (fst ` set byte_marks) \<and> c \<noteq> rc (CHR ''*'')"
    by (auto simp: stops_def byte_marks_def rune_of_def)
  with compT_suffix_letters [OF assms(1), of c cs] Cons show ?thesis by simp
qed

lemma compT_letter_star:
  assumes "op_letter o1 = Some l" and "r = [] \<or> hd r = rc (CHR ''}'')"
  shows "compT (rc (CHR ''%'') # l @ rc (CHR ''*'') # r) = Ok (r, \<lparr>pe_opcode = o1, pe_tname = ''''\<rparr>, True)"
proof -
  have "rc (CHR ''*'') \<notin> insert (rc (CHR ''['')) (fst ` set byte_marks)"
    by (simp add: byte_marks_def rune_of_def)
  from compT_suffix_letters [OF assms(1) this, of r] assms(2) show ?thesis by auto
qed

lemma compT_named:
  assumes "elem_ok e" and "pe_tname e \<noteq> ''''"
  shows "compT (pr_elem e @ rest) =
    (case rest of [] \<Rightarrow> Ok ([], e, False)
     | d # r' \<Rightarrow>
         if d = rc (CHR ''*'') then
           (if r' \<noteq> [] \<and> hd r' \<noteq> rc (CHR ''}'')
            then Err (''nothing should be expeceted after %'' @ utf8_rune (rc (CHR ''U'')) @ ''*'')
            else Ok (r', e, True))
         else Ok (rest, e, False))"
proof -
  have e: "pe_opcode e = PUsr" "utf8_encode (utf8_decode (pe_tname e)) = pe_tname e"
    using assms by (simp_all add: elem_ok_def)
  have l: "op_letter PUsr = Some [rc (CHR ''U'')]" "map_of type_letters (rc (CHR ''U'')) = Some PUsr"
    by (simp_all add: op_letter_def type_letters_def rune_of_def)
  have q: "rc (CHR 0x27) \<noteq> rc (CHR '']'')" "rc (CHR 0x27) \<noteq> rc (CHR ''['')" by (simp_all add: rune_of_def)
  have scan: "scanTName_loop (rc (CHR 0x27)) (concat (map esc ns) @ rc (CHR 0x27) # r) '''' = Ok (r, utf8_encode ns)"
    for ns r using scan_escaped [of ns r "''''"] by simp
  have s: "compT_suffix PUsr (rc (CHR ''['')) (rc (CHR 0x27) # concat (map esc (utf8_decode (pe_tname e))) @
      rc (CHR 0x27) # rc (CHR '']'') # rest) = Ok (rest, PUsr, pe_tname e)"
    using q e(2) by (simp add: compT_suffix_def scan)
  have "\<lparr>pe_opcode = PUsr, pe_tname = pe_tname e\<rparr> = e" using e(1) by (cases e) simp
  with assms(2) e l s show ?thesis by (simp add: pr_elem_def compT_def split: list.split)
qed

lemma compT_elem:
  assumes "elem_ok e" and "stops rest"
  shows "compT (pr_elem e @ rest) = Ok (rest, e, False)"
proof (cases "pe_tname e = ''''")
  case True
  from assms(1) obtain l where "op_letter (pe_opcode e) = Some l" by (auto simp: elem_ok_def)
  with compT_letter [OF this assms(2)] True show ?thesis by (cases e) (simp add: pr_elem_def)
next
  case False
  with compT_named [OF assms(1)] assms(2) show ?thesis
    by (auto simp: stops_def rune_of_def split: list.split)
qed

lemma compT_elem_star:
  assumes "elem_ok e" and "r = [] \<or> hd r = rc (CHR ''}'')"
  shows "compT (pr_elem e @ rc (CHR ''*'') # r) = Ok (r, e, True)"
proof (cases "pe_tname e = ''''")
  case True
  from assms(1) obtain l where "op_letter (pe_opcode e) = Some l" by (auto simp: elem_ok_def)
  with compT_letter_star [OF this assms(2)] True show ?thesis by (cases e) (simp add: pr_elem_def)
next
  case False
  with compT_named [OF assms(1)] assms(2) show ?thesis by auto
qed

lemma elem_opcode: "elem_ok e \<Longrightarrow> pe_opcode e \<noteq> PNone"
  by (auto simp: elem_ok_def op_letter_def)

lemma pr_elem_ne [simp]: "pr_elem e @ r \<noteq> []"
  by (simp add: pr_elem_def)

lemma compGroup_elems:
  "elem_ok e \<Longrightarrow> \<forall>x\<in>set es. elem_ok x \<Longrightarrow>
   compGroup (pr_elem e @ concat (map (\<lambda>x. rc (CHR ''|'') # pr_elem x) es) @ rc (CHR '')'') # rest) ol =
     Ok (rest, ol @ e # es)"
proof (induction es arbitrary: e ol)
  case Nil
  then show ?case
    by (subst compGroup.simps) (simp add: compT_elem stops_def elem_opcode rune_of_def)
next
  case (Cons x es)
  let ?r = "pr_elem x @ concat (map (\<lambda>x. rc (CHR ''|'') # pr_elem x) es) @ rc (CHR '')'') # rest"
  have "compGroup (pr_elem e @ rc (CHR ''|'') # ?r) ol = compGroup ?r (ol @ [e])"
    using Cons.prems by (subst compGroup.simps) (simp add: compT_elem stops_def elem_opcode)
  also have "\<dots> = Ok (rest, (ol @ [e]) @ x # es)" using Cons by simp
  finally show ?case by simp
qed

lemma compCase_argp:
  assumes "a \<noteq> []" and "\<forall>e\<in>set a. elem_ok e" and "stops rest" and "\<not> ac_noarg ac"
  shows "compCase_loop (pr_argp a @ rest) ac = compCase_loop rest (ac\<lparr>ac_d := ac_d ac @ [a]\<rparr>)"
proof -
  from assms(1) obtain e es where a: "a = e # es" by (cases a) auto
  show ?thesis
  proof (cases es)
    case Nil
    obtain cs where p: "pr_elem e = rc (CHR ''%'') # cs" by (simp add: pr_elem_def)
    have "compT (rc (CHR ''%'') # cs @ rest) = Ok (rest, e, False)"
      using compT_elem [of e rest] assms a p by simp
    then show ?thesis
      using assms(2,4) a Nil p
      by (simp add: pr_argp_def compCase_loop.simps(2) [of "rc (CHR ''%'')"] elem_opcode)
        (simp add: rune_of_def)
  next
    case (Cons e' es')
    then show ?thesis
      using compGroup_elems [of e es rest "[]"] assms(2) a
      by (simp add: pr_argp_def compCase_loop.simps(2) [of "rc (CHR ''('')"]) (simp add: rune_of_def)
  qed
qed

lemma stops_pr_argp: "stops (pr_argp a @ rest)"
  by (simp add: stops_def pr_argp_def pr_elem_def)

lemma compCase_argps:
  "\<forall>a\<in>set d. a \<noteq> [] \<and> (\<forall>e\<in>set a. elem_ok e) \<Longrightarrow> stops rest \<Longrightarrow> \<not> ac_noarg ac \<Longrightarrow>
   compCase_loop (concat (map pr_argp d) @ rest) ac = compCase_loop rest (ac\<lparr>ac_d := ac_d ac @ d\<rparr>)"
proof (induction d arbitrary: ac)
  case Nil
  then show ?case by simp
next
  case (Cons a d)
  have "stops (concat (map pr_argp d) @ rest)"
    using Cons.prems(2) by (cases d) (simp_all add: stops_pr_argp)
  with Cons show ?case by (simp add: compCase_argp)
qed

lemma compCase_close: "compCase_loop (rc (CHR ''}'') # rest) ac = Ok (ac, rest)"
  by (simp add: compCase_loop.simps)

lemma compCase_star:
  assumes "elem_ok e" and "\<not> ac_noarg ac"
  shows "compCase_loop (pr_elem e @ rc (CHR ''*'') # rc (CHR ''}'') # rest) ac =
    Ok (ac\<lparr>ac_varlen := True, ac_d := ac_d ac @ [[e]]\<rparr>, rest)"
proof -
  obtain cs where p: "pr_elem e = rc (CHR ''%'') # cs" by (simp add: pr_elem_def)
  have "compT (rc (CHR ''%'') # cs @ rc (CHR ''*'') # rc (CHR ''}'') # rest) = Ok (rc (CHR ''}'') # rest, e, True)"
    using compT_elem_star [OF assms(1), of "rc (CHR ''}'') # rest"] p by simp
  then show ?thesis
    using assms(2) p elem_opcode [OF assms(1)]
    by (simp add: compCase_loop.simps(2) [of "rc (CHR ''%'')"] compCase_close) (simp add: rune_of_def)
qed

lemma compCase_pr:
  assumes "case_ok c"
  shows "compCase (tl (pr_case c) @ rest) = Ok (c, rest)"
proof (cases "ac_noarg c")
  case True
  let ?z = "\<lparr>ac_d = [], ac_noarg = False, ac_varlen = False\<rparr>"
  have "compT (rc (CHR ''%'') # rc (CHR ''0'') # rc (CHR ''}'') # rest) =
      Ok (rc (CHR ''}'') # rest, \<lparr>pe_opcode = PNone, pe_tname = ''''\<rparr>, False)"
    by (simp add: compT_def compT_suffix_def type_letters_def byte_marks_def rune_of_def)
  moreover have "c = ?z\<lparr>ac_noarg := True\<rparr>" using assms True by (cases c) (simp add: case_ok_def)
  ultimately show ?thesis
    by (simp add: compCase_def pr_case_def compCase_loop.simps(2) [of "rc (CHR ''%'')"] compCase_close)
      (simp add: rune_of_def)
next
  case False
  let ?z = "\<lparr>ac_d = [], ac_noarg = False, ac_varlen = False\<rparr>"
  have ok: "\<forall>a\<in>set (ac_d c). a \<noteq> [] \<and> (\<forall>e\<in>set a. elem_ok e)" using assms False by (simp add: case_ok_def)
  show ?thesis
  proof (cases "ac_varlen c")
    case True
    with assms False obtain d e where d: "ac_d c = d @ [[e]]"
      by (auto simp: case_ok_def length_Suc_conv) (metis append_butlast_last_id)
    have c: "c = ?z\<lparr>ac_varlen := True, ac_d := d @ [[e]]\<rparr>" using True False d by (cases c) simp
    have "tl (pr_case c) @ rest =
        concat (map pr_argp d) @ pr_elem e @ rc (CHR ''*'') # rc (CHR ''}'') # rest"
      using True False d by (simp add: pr_case_def pr_argp_def)
    moreover have "stops (pr_elem e @ rc (CHR ''*'') # rc (CHR ''}'') # rest)"
      by (simp add: stops_def pr_elem_def)
    ultimately show ?thesis
      using ok d c by (simp add: compCase_def compCase_argps compCase_star)
  next
    case nv: False
    have c: "c = ?z\<lparr>ac_d := ac_d c\<rparr>" using nv False by (cases c) simp
    have "tl (pr_case c) @ rest = concat (map pr_argp (ac_d c)) @ rc (CHR ''}'') # rest"
      using nv False by (simp add: pr_case_def)
    with ok c show ?thesis
      by (simp add: compCase_def compCase_argps compCase_close stops_def)
  qed
qed

text \<open>
  C25: descriptors are compiled to what they say: the text of a list of overloads (each in
  braces; alternatives in parentheses separated by bars; \<open>*\<close> after the last element; byte
  marks; a quoted and escaped type name after \<open>%U\<close>) compiles to exactly these overloads.
\<close>

theorem compile_print_roundtrip:
  assumes "\<forall>c\<in>set cs. case_ok c"
  shows "compile_loop (concat (map pr_case cs)) = Ok cs"
  using assms
proof (induction cs)
  case Nil
  then show ?case by (simp add: compile_loop.simps)
next
  case (Cons c cs)
  have "pr_case c = rc (CHR ''{'') # tl (pr_case c)" by (simp add: pr_case_def)
  then have "compile_loop (concat (map pr_case (c # cs))) =
    rbind (compCase (tl (pr_case c) @ concat (map pr_case cs))) (\<lambda>(ele, r).
      rbind (compile_loop r) (\<lambda>es. Ok (ele # es)))"
    using compile_loop.simps(2) [of "rc (CHR ''{'')" "tl (pr_case c) @ concat (map pr_case cs)"]
    by (simp add: append_Cons [symmetric] del: append_Cons)
  with Cons show ?case by (simp add: compCase_pr)
qed

theorem compile_print_roundtrip_witness:
  "compile_loop (utf8_decode ''{%d(%s|%n)}{%u4%a*}'') =
     Ok [\<lparr>ac_d = [[\<lparr>pe_opcode = PInt, pe_tname = ''''\<rparr>],
                   [\<lparr>pe_opcode = PString, pe_tname = ''''\<rparr>, \<lparr>pe_opcode = PNull, pe_tname = ''''\<rparr>]],
          ac_noarg = False, ac_varlen = False\<rparr>,
         \<lparr>ac_d = [[\<lparr>pe_opcode = PUI32, pe_tname = ''''\<rparr>], [\<lparr>pe_opcode = PAny, pe_tname = ''''\<rparr>]],
          ac_noarg = False, ac_varlen = True\<rparr>]"
proof -
  let ?cs = "[\<lparr>ac_d = [[\<lparr>pe_opcode = PInt, pe_tname = ''''\<rparr>],
                   [\<lparr>pe_opcode = PString, pe_tname = ''''\<rparr>, \<lparr>pe_opcode = PNull, pe_tname = ''''\<rparr>]],
          ac_noarg = False, ac_varlen = False\<rparr>,
         \<lparr>ac_d = [[\<lparr>pe_opcode = PUI32, pe_tname = ''''\<rparr>], [\<lparr>pe_opcode = PAny, pe_tname = ''''\<rparr>]],
          ac_noarg = False, ac_varlen = True\<rparr>]"
  have "\<forall>c\<in>set ?cs. case_ok c" by code_simp
  moreover have "concat (map pr_case ?cs) = utf8_decode ''{%d(%s|%n)}{%u4%a*}''" by code_simp
  ultimately show ?thesis using compile_print_roundtrip [of ?cs] by simp
qed

end
