(* ===== verification/ObjList.thy ===== *)
theory ObjList
  imports FuncProto
begin

text \<open>
  \<open>pl/obj_list.go\<close>: the script's list is an object holding a Go slice of values. \<open>slice\<close> hands
  out a list over the same backing array and \<open>pop_back\<close> keeps the array, so lists may share
  storage; the model keeps the arrays (\<open>GoSlice\<close>). The methods' arguments are checked with
  the descriptors of the source (\<open>FuncProto\<close>).
\<close>

section \<open>Operations\<close>

definition set_list :: "nat \<Rightarrow> slice \<Rightarrow> 'w store \<Rightarrow> 'w store" where
  "set_list l d st = st\<lparr>st_lists := (st_lists st)[l := d]\<rparr>"

definition List_Append :: "'w oenv \<Rightarrow> nat \<Rightarrow> val \<Rightarrow> 'w store \<Rightarrow> unit res \<times> 'w store" where
  "List_Append env l x st =
     rlift (deref (st_lists st) l) st (\<lambda>d st.
       let (m, d') = sl_append (oe_grow env) VNull (st_mem st) d x in
       (Ok (), set_list l d' (st\<lparr>st_mem := m\<rparr>)))"

fun List_Append_all :: "'w oenv \<Rightarrow> nat \<Rightarrow> val list \<Rightarrow> 'w store \<Rightarrow> unit res \<times> 'w store" where
  "List_Append_all env l [] st = (Ok (), st)"
| "List_Append_all env l (x # xs) st =
     mbind (List_Append env l x st) (\<lambda>_ st. List_Append_all env l xs st)"

definition List_At :: "nat \<Rightarrow> nat \<Rightarrow> 'w store \<Rightarrow> val res" where
  "List_At l i st = rbind (deref (st_lists st) l) (\<lambda>d. sl_get (st_mem st) d i)"

definition List_Index :: "nat \<Rightarrow> val \<Rightarrow> 'w store \<Rightarrow> val res" where
  "List_Index l idx st =
     rbind (ToIndex idx) (\<lambda>i.
     rbind (deref (st_lists st) l) (\<lambda>d.
       if slen d \<le> i then Err ''index out of range'' else sl_get (st_mem st) d i))"

definition List_IndexSet :: "'w oenv \<Rightarrow> nat \<Rightarrow> val \<Rightarrow> val \<Rightarrow> 'w store \<Rightarrow> unit res \<times> 'w store" where
  "List_IndexSet env l idx v st =
     rlift (ToIndex idx) st (\<lambda>i st.
     rlift (deref (st_lists st) l) st (\<lambda>d st.
       if slen d \<le> i then
         mbind (List_Append_all env l (replicate (i - slen d) VNull) st) (\<lambda>_ st.
           List_Append env l v st)
       else rlift (sl_set (st_mem st) d i v) st (\<lambda>m st. (Ok (), st\<lparr>st_mem := m\<rparr>))))"

text \<open>
  \<open>extend\<close>: the range expression fixes the argument's slice, but each element is read from the
  array only when its turn comes.
\<close>

function extend_loop :: "'w oenv \<Rightarrow> nat \<Rightarrow> slice \<Rightarrow> nat \<Rightarrow> 'w store \<Rightarrow> unit res \<times> 'w store" where
  "extend_loop env l d i st =
     (if i < slen d then
        rlift (sl_get (st_mem st) d i) st (\<lambda>x st.
        mbind (List_Append env l x st) (\<lambda>_ st. extend_loop env l d (Suc i) st))
      else (Ok (), st))"
  by pat_completeness auto
termination by (relation "measure (\<lambda>(env, l, d, i, st). slen d - i)") auto

declare extend_loop.simps [simp del]

section \<open>The iterator\<close>

definition ListIter_Has :: "nat \<Rightarrow> nat \<Rightarrow> 'w store \<Rightarrow> bool res" where
  "ListIter_Has l cur st = rbind (List_Length st l) (\<lambda>n. Ok (cur < n))"

definition ListIter_Deref :: "nat \<Rightarrow> nat \<Rightarrow> 'w store \<Rightarrow> (val \<times> val) res" where
  "ListIter_Deref l cur st =
     rbind (ListIter_Has l cur st) (\<lambda>b.
       if b then rbind (List_At l cur st) (\<lambda>v. Ok (VInt (i64_of_nat cur), v))
       else Err ''iterator out of bound'')"

section \<open>Methods\<close>

definition List_pop_back :: "nat \<Rightarrow> int \<Rightarrow> 'w store \<Rightarrow> unit res \<times> 'w store" where
  "List_pop_back l num0 st =
     (let num = (if num0 < 0 then 0 else num0) in
      rlift (deref (st_lists st) l) st (\<lambda>d st.
        if num < int (slen d) then
          rlift (sl_slice d 0 (int (slen d) - num)) st (\<lambda>d' st. (Ok (), set_list l d' st))
        else (Ok (), set_list l sl_empty st)))"

definition List_slice :: "nat \<Rightarrow> int \<Rightarrow> int option \<Rightarrow> 'w store \<Rightarrow> val res \<times> 'w store" where
  "List_slice l start0 end0 st =
     rlift (deref (st_lists st) l) st (\<lambda>d st.
       let n = int (slen d);
           e = (case end0 of None \<Rightarrow> n | Some e \<Rightarrow> if n < e then n else e);
           s = (if n \<le> start0 then n else start0)
       in rlift (sl_slice d s e) st (\<lambda>d' st. let (v, st) = new_list_raw d' st in (Ok v, st)))"

definition List_Method :: "'w oenv \<Rightarrow> nat \<Rightarrow> string \<Rightarrow> val list \<Rightarrow> 'w store \<Rightarrow> val res \<times> 'w store" where
  "List_Method env l name args st =
     (if name = ''length'' then
        rlift (check_args env st ''list.length'' ''%0'' args) st (\<lambda>_ st.
        rlift (List_Length st l) st (\<lambda>n st. (Ok (VInt (i64_of_nat n)), st)))
      else if name = ''push_back'' then
        rlift (check_args env st ''list.push_back'' ''{%a}{%a%a*}'' args) st (\<lambda>_ st.
        mbind (List_Append_all env l args st) (\<lambda>_ st. (Ok (VList l), st)))
      else if name = ''pop_back'' then
        rlift (check_args env st ''list.pop_back'' ''{%d}{%0}'' args) st (\<lambda>alog st.
        rlift (if alog = 1 then rbind (v_Int (args ! 0)) (\<lambda>i. Ok (sint i)) else Ok 1) st (\<lambda>num st.
        mbind (List_pop_back l num st) (\<lambda>_ st. (Ok (VList l), st))))
      else if name = ''extend'' then
        rlift (check_args env st ''list.extend'' ''%l'' args) st (\<lambda>_ st.
        rlift (v_List (args ! 0)) st (\<lambda>l2 st.
        rlift (deref (st_lists st) l2) st (\<lambda>d st.
        mbind (extend_loop env l d 0 st) (\<lambda>_ st. (Ok (VList l), st)))))
      else if name = ''slice'' then
        rlift (check_args env st ''list.slice'' ''{%d}{%d%d}'' args) st (\<lambda>alog st.
        rlift (v_Int (args ! 0)) st (\<lambda>start st.
        rlift (if alog = 2 then rbind (v_Int (args ! 1)) (\<lambda>i. Ok (Some (sint i))) else Ok None) st
          (\<lambda>e st. List_slice l (sint start) e st)))
      else (Err (''method: list:'' @ name @ '' is unknown''), st))"

section \<open>Lists denote sequences\<close>

text \<open>The sequence a list object holds, and the lists whose slice is well formed.\<close>

definition list_of :: "'w store \<Rightarrow> nat \<Rightarrow> val list" where
  "list_of st l = sl_abs (st_mem st) (st_lists st ! l)"

definition list_ok :: "'w store \<Rightarrow> nat \<Rightarrow> bool" where
  "list_ok st l \<longleftrightarrow> l < length (st_lists st) \<and> sl_ok (st_mem st) (st_lists st ! l)"

definition lists_ok :: "'w store \<Rightarrow> bool" where
  "lists_ok st \<longleftrightarrow> (\<forall>l<length (st_lists st). sl_ok (st_mem st) (st_lists st ! l)) \<and> 0 < mnext (st_mem st)"

text \<open>What a list operation leaves alone: everything but the arrays and the list objects.\<close>

definition only_lists :: "'w store \<Rightarrow> 'w store \<Rightarrow> bool" where
  "only_lists st st' \<longleftrightarrow>
     st_maps st' = st_maps st \<and> st_pairs st' = st_pairs st \<and> st_iters st' = st_iters st \<and>
     st_clos st' = st_clos st \<and> st_world st' = st_world st"

lemma only_lists_refl [simp]: "only_lists st st"
  by (simp add: only_lists_def)

lemma only_lists_trans: "only_lists a b \<Longrightarrow> only_lists b c \<Longrightarrow> only_lists a c"
  by (simp add: only_lists_def)

lemma sl_append_mnext: "sl_append g z m d x = (m', d') \<Longrightarrow> mnext m \<le> mnext m'"
  by (auto simp: sl_append_def Let_def split: if_splits)

lemma sl_append_ok:
  assumes "sl_append g z m s v = (m', s')" and "sl_ok m t"
  shows "sl_ok m' t"
  using assms by (auto simp: sl_append_def sl_ok_def Let_def split: if_splits)

lemma List_Append_ok:
  assumes ok: "lists_ok st" and l: "l < length (st_lists st)"
  shows "\<exists>st'. List_Append env l x st = (Ok (), st') \<and> list_of st' l = list_of st l @ [x] \<and>
    lists_ok st' \<and> length (st_lists st') = length (st_lists st) \<and> only_lists st st'"
proof -
  let ?d = "st_lists st ! l"
  obtain m d' where a: "sl_append (oe_grow env) VNull (st_mem st) ?d x = (m, d')"
    by (cases "sl_append (oe_grow env) VNull (st_mem st) ?d x")
  let ?st = "set_list l d' (st\<lparr>st_mem := m\<rparr>)"
  have d: "sl_ok (st_mem st) ?d" using ok l by (simp add: lists_ok_def)
  have "List_Append env l x st = (Ok (), ?st)" using l by (simp add: List_Append_def deref_def a)
  moreover have "list_of ?st l = list_of st l @ [x]"
    using sl_append_abs(1) [OF d a] l by (simp add: list_of_def set_list_def)
  moreover have "lists_ok ?st"
  proof -
    have "sl_ok m ((st_lists st)[l := d'] ! k)" if "k < length (st_lists st)" for k
      using ok that sl_append_abs(2) [OF d a] sl_append_ok [OF a] l
      by (cases "k = l") (auto simp: lists_ok_def)
    then show ?thesis using ok sl_append_mnext [OF a] by (auto simp: lists_ok_def set_list_def)
  qed
  moreover have "length (st_lists ?st) = length (st_lists st)" "only_lists st ?st"
    by (simp_all add: set_list_def only_lists_def)
  ultimately show ?thesis by blast
qed

lemma List_Append_all_ok:
  assumes "lists_ok st" and "l < length (st_lists st)"
  shows "\<exists>st'. List_Append_all env l xs st = (Ok (), st') \<and> list_of st' l = list_of st l @ xs \<and>
    lists_ok st' \<and> length (st_lists st') = length (st_lists st) \<and> only_lists st st'"
  using assms
proof (induction xs arbitrary: st)
  case Nil
  then show ?case by simp
next
  case (Cons x xs)
  from List_Append_ok [OF Cons.prems, of env x] obtain st1 where
    st1: "List_Append env l x st = (Ok (), st1)" "list_of st1 l = list_of st l @ [x]" "lists_ok st1"
      "length (st_lists st1) = length (st_lists st)" "only_lists st st1"
    by blast
  from Cons.IH [OF st1(3)] st1(4) Cons.prems(2) obtain st' where
    "List_Append_all env l xs st1 = (Ok (), st')" "list_of st' l = list_of st1 l @ xs" "lists_ok st'"
    "length (st_lists st') = length (st_lists st1)" "only_lists st1 st'"
    by auto
  with st1 show ?case by (auto intro: only_lists_trans)
qed

lemma length_list_of: "lists_ok st \<Longrightarrow> l < length (st_lists st) \<Longrightarrow> length (list_of st l) = slen (st_lists st ! l)"
  by (simp add: list_of_def length_sl_abs lists_ok_def)

section \<open>Properties\<close>

lemma lists_ok_set:
  assumes "lists_ok st" and "sl_set (st_mem st) d i v = Ok m"
  shows "lists_ok (st\<lparr>st_mem := m\<rparr>)"
  using assms sl_set_ok [OF assms(2)] by (auto simp: lists_ok_def sl_set_def split: if_splits)

lemma List_slice_list:
  assumes ok: "lists_ok st" and l: "l < length (st_lists st)"
    and e: "e = (case end0 of None \<Rightarrow> int (length (list_of st l)) | Some e \<Rightarrow> min e (int (length (list_of st l))))"
    and s: "s = min start0 (int (length (list_of st l)))"
    and b: "0 \<le> s" "s \<le> e"
  shows "List_slice l start0 end0 st = (Ok (VList (length (st_lists st))),
      st\<lparr>st_lists := st_lists st @ [\<lparr>sarr = sarr (st_lists st ! l), soff = soff (st_lists st ! l) + nat s,
                                   slen = nat (e - s), scap = scap (st_lists st ! l) - nat s\<rparr>]\<rparr>)"
proof -
  let ?d = "st_lists st ! l"
  have d: "sl_ok (st_mem st) ?d" using ok l by (simp add: lists_ok_def)
  have n: "int (length (list_of st l)) = int (slen ?d)" using ok l by (simp add: length_list_of)
  have le: "slen ?d \<le> scap ?d" using d by (auto simp: sl_ok_def)
  have "e \<le> int (scap ?d)" using e n le by (auto split: option.splits)
  then have "sl_slice ?d s e =
      Ok \<lparr>sarr = sarr ?d, soff = soff ?d + nat s, slen = nat (e - s), scap = scap ?d - nat s\<rparr>"
    using b by (simp add: sl_slice_def)
  moreover have "(case end0 of None \<Rightarrow> int (slen ?d) | Some e \<Rightarrow> if int (slen ?d) < e then int (slen ?d) else e) = e"
    using e n by (auto split: option.splits)
  moreover have "(if int (slen ?d) \<le> start0 then int (slen ?d) else start0) = s" using s n by auto
  ultimately show ?thesis using l by (simp add: List_slice_def deref_def new_list_raw_def)
qed

text \<open>
  C38: \<open>list.slice\<close>. Both bounds are clipped to the length; when the start is then negative or
  behind the end the process panics (the script gets no error it could catch); otherwise a
  new list denotes the elements between the bounds, and no other list changes.
\<close>

theorem List_slice_spec:
  fixes st :: "'w store" and start0 :: int and end0 :: "int option"
  assumes "lists_ok st" and "l < length (st_lists st)"
  defines "n \<equiv> int (length (list_of st l))"
  defines "s \<equiv> min start0 n" and "e \<equiv> (case end0 of None \<Rightarrow> n | Some e \<Rightarrow> min e n)"
  shows "if 0 \<le> s \<and> s \<le> e
    then \<exists>st'. List_slice l start0 end0 st = (Ok (VList (length (st_lists st))), st') \<and> lists_ok st' \<and>
           list_of st' (length (st_lists st)) = drop (nat s) (take (nat e) (list_of st l)) \<and>
           (\<forall>k<length (st_lists st). list_of st' k = list_of st k)
    else List_slice l start0 end0 st = (Panic ''slice bounds out of range'', st)"
proof (cases "0 \<le> s \<and> s \<le> e")
  case True
  let ?d = "st_lists st ! l"
  let ?t = "\<lparr>sarr = sarr ?d, soff = soff ?d + nat s, slen = nat (e - s), scap = scap ?d - nat s\<rparr>"
  let ?st = "st\<lparr>st_lists := st_lists st @ [?t]\<rparr>"
  have eq: "List_slice l start0 end0 st = (Ok (VList (length (st_lists st))), ?st)"
    by (rule List_slice_list) (use assms True in \<open>auto split: option.split\<close>)
  have d: "sl_ok (st_mem st) ?d" using assms by (simp add: lists_ok_def)
  have le: "e \<le> int (slen ?d)" using assms(1,2) by (auto simp: e_def n_def length_list_of split: option.splits)
  from sl_slice_abs [OF d _ _ le, of s] True obtain t where
    t: "sl_slice ?d s e = Ok t" "sl_ok (st_mem st) t"
      "sl_abs (st_mem st) t = drop (nat s) (take (nat e) (sl_abs (st_mem st) ?d))"
    by blast
  then have "t = ?t" by (simp add: sl_slice_def split: if_splits)
  with t assms(1) have "lists_ok ?st" by (auto simp: lists_ok_def nth_append less_Suc_eq)
  moreover have "list_of ?st (length (st_lists st)) = drop (nat s) (take (nat e) (list_of st l))"
    using t \<open>t = ?t\<close> by (simp add: list_of_def)
  moreover have "\<forall>k<length (st_lists st). list_of ?st k = list_of st k"
    by (simp add: list_of_def nth_append)
  ultimately show ?thesis using True eq by auto
next
  case False
  let ?d = "st_lists st ! l"
  have n: "n = int (slen ?d)" using assms(1,2) by (simp add: n_def length_list_of)
  have "(case end0 of None \<Rightarrow> int (slen ?d) | Some e \<Rightarrow> if int (slen ?d) < e then int (slen ?d) else e) = e"
    by (auto simp: e_def n split: option.splits)
  moreover have "(if int (slen ?d) \<le> start0 then int (slen ?d) else start0) = s" by (auto simp: s_def n)
  moreover have "sl_slice ?d s e = Panic ''slice bounds out of range''"
    using False by (auto simp: sl_slice_def)
  ultimately show ?thesis using False assms(2) by (auto simp: List_slice_def deref_def)
qed

text \<open>A store with one list of three integers, for the worked examples.\<close>

definition list3 :: "unit store" where
  "list3 = (st_init ())\<lparr>st_mem := \<lparr>marr = (\<lambda>_. [])(1 := [VInt 1, VInt 2, VInt 3]), mnext = 2\<rparr>,
     st_lists := [\<lparr>sarr = 1, soff = 0, slen = 3, scap = 3\<rparr>]\<rparr>"

lemma list3_ok: "lists_ok list3" "length (st_lists list3) = 1" "list_of list3 0 = [VInt 1, VInt 2, VInt 3]"
  by (simp_all add: list3_def lists_ok_def sl_ok_def list_of_def sl_abs_def)

theorem List_slice_spec_witness:
  "List_slice 0 2 (Some 1) list3 = (Panic ''slice bounds out of range'', list3) \<and>
   (\<exists>st'. List_slice 0 1 None list3 = (Ok (VList 1), st') \<and> list_of st' 1 = [VInt 2, VInt 3])"
  using List_slice_spec [OF list3_ok(1), of 0 2 "Some 1"] List_slice_spec [OF list3_ok(1), of 0 1 None]
  by (auto simp: list3_ok)

text \<open>
  index assignment on a list. Inside the list it replaces one element; at or behind the
  end it fills the gap with nulls and appends; a negative or non-integer index is an error and
  changes nothing.
\<close>

theorem List_IndexSet_spec:
  assumes "lists_ok st" and "l < length (st_lists st)"
  shows "case ToIndex idx of
      Ok i \<Rightarrow> \<exists>st'. List_IndexSet env l idx v st = (Ok (), st') \<and> lists_ok st' \<and> only_lists st st' \<and>
        list_of st' l = (if i < length (list_of st l) then (list_of st l)[i := v]
                         else list_of st l @ replicate (i - length (list_of st l)) VNull @ [v])
    | _ \<Rightarrow> \<exists>e. List_IndexSet env l idx v st = (Err e, st)"
proof (cases "ToIndex idx")
  case (Ok i)
  let ?d = "st_lists st ! l"
  have d: "sl_ok (st_mem st) ?d" "slen ?d = length (list_of st l)"
    using assms by (simp_all add: lists_ok_def length_list_of)
  show ?thesis
  proof (cases "i < slen ?d")
    case True
    from sl_set_abs [OF d(1) True, of v] obtain m where
      m: "sl_set (st_mem st) ?d i v = Prelude.Ok m" "sl_abs m ?d = (sl_abs (st_mem st) ?d)[i := v]"
      by blast
    have "List_IndexSet env l idx v st = (Prelude.Ok (), st\<lparr>st_mem := m\<rparr>)"
      using Ok True assms(2) m(1) by (simp add: List_IndexSet_def deref_def)
    then show ?thesis
      using Ok True d m lists_ok_set [OF assms(1) m(1)] by (auto simp: list_of_def only_lists_def)
  next
    case False
    from List_Append_all_ok [OF assms, of env "replicate (i - slen ?d) VNull"] obtain st1 where
      st1: "List_Append_all env l (replicate (i - slen ?d) VNull) st = (Prelude.Ok (), st1)"
        "list_of st1 l = list_of st l @ replicate (i - slen ?d) VNull" "lists_ok st1"
        "length (st_lists st1) = length (st_lists st)" "only_lists st st1"
      by blast
    from List_Append_ok [OF st1(3), of l env v] st1(4) assms(2) obtain st' where
      "List_Append env l v st1 = (Prelude.Ok (), st')" "list_of st' l = list_of st1 l @ [v]" "lists_ok st'"
      "only_lists st1 st'"
      by auto
    then have "List_IndexSet env l idx v st = (Prelude.Ok (), st') \<and> lists_ok st' \<and> only_lists st st' \<and>
        list_of st' l = list_of st l @ replicate (i - length (list_of st l)) VNull @ [v]"
      using Ok False assms(2) st1 d(2)
      by (auto simp: List_IndexSet_def deref_def intro: only_lists_trans)
    then show ?thesis using Ok False d(2) by auto
  qed
next
  case (Panic m)
  then show ?thesis by (cases idx) (auto split: if_splits)
next
  case Diverge
  then show ?thesis by (cases idx) (auto split: if_splits)
qed (auto simp: List_IndexSet_def)

theorem List_IndexSet_spec_witness:
  "\<exists>st'. List_IndexSet (plain_env []) 0 (VInt 4) (VBool True) list3 = (Ok (), st') \<and>
     list_of st' 0 = [VInt 1, VInt 2, VInt 3, VNull, VBool True]"
  using List_IndexSet_spec [OF list3_ok(1), of 0 "plain_env []" "VInt 4" "VBool True"]
  by (auto simp: list3_ok)

text \<open>
  lists share storage. A slice of a list that ends before the list does still has room in
  the list's array: appending to the slice overwrites the element of the original list that
  follows it.
\<close>

theorem List_slice_append_aliases:
  assumes "lists_ok st" and "l < length (st_lists st)" and "a \<le> b" and "b < length (list_of st l)"
  shows "\<exists>s st1 st2. List_slice l (int a) (Some (int b)) st = (Ok (VList s), st1) \<and>
    List_Append env s x st1 = (Ok (), st2) \<and>
    list_of st2 s = drop a (take b (list_of st l)) @ [x] \<and>
    list_of st2 l = (list_of st l)[b := x]"
proof -
  let ?d = "st_lists st ! l" and ?s = "length (st_lists st)"
  let ?t = "\<lparr>sarr = sarr ?d, soff = soff ?d + a, slen = b - a, scap = scap ?d - a\<rparr>"
  let ?st = "st\<lparr>st_lists := st_lists st @ [?t]\<rparr>"
  have d: "sl_ok (st_mem st) ?d" "slen ?d = length (list_of st l)"
    using assms by (simp_all add: lists_ok_def length_list_of)
  have c: "soff ?d + scap ?d \<le> length (marr (st_mem st) (sarr ?d))" "slen ?d \<le> scap ?d"
    using d assms(4) by (auto simp: sl_ok_def)
  have eq: "List_slice l (int a) (Some (int b)) st = (Ok (VList ?s), ?st)"
    using List_slice_list [OF assms(1,2), of "int b" "Some (int b)" "int a" "int a"] assms(3,4)
    by (simp add: nat_diff_distrib)
  have abs: "sl_abs (st_mem st) ?t = drop a (take b (list_of st l))"
  proof -
    have "b < slen ?d" using assms(4) d(2) by simp
    then show ?thesis using assms(3) by (simp add: list_of_def sl_abs_def drop_take min_absorb1 add.commute)
  qed
  let ?m = "(st_mem st)\<lparr>marr := (marr (st_mem st))(sarr ?d := (marr (st_mem st) (sarr ?d))[soff ?d + b := x])\<rparr>"
  have app: "sl_append (oe_grow env) VNull (st_mem st) ?t x = (?m, ?t\<lparr>slen := Suc (b - a)\<rparr>)"
    using assms(3,4) c d(2) by (simp add: sl_append_def)
  let ?st2 = "?st\<lparr>st_mem := ?m, st_lists := st_lists st @ [?t\<lparr>slen := Suc (b - a)\<rparr>]\<rparr>"
  have "List_Append env ?s x ?st = (Ok (), ?st2)"
    by (simp add: List_Append_def deref_def app set_list_def)
  moreover have "sl_ok (st_mem st) ?t" using c assms(3,4) d by (auto simp: sl_ok_def)
  then have "list_of ?st2 ?s = drop a (take b (list_of st l)) @ [x]"
    using sl_append_abs(1) [OF _ app] abs by (simp add: list_of_def)
  moreover have "list_of ?st2 l = (list_of st l)[b := x]"
    using assms(2) by (simp add: list_of_def nth_append sl_abs_def drop_update_swap take_update_swap)
  ultimately show ?thesis using eq by blast
qed

theorem List_slice_append_aliases_witness:
  "\<exists>s st1 st2. List_slice 0 0 (Some 1) list3 = (Ok (VList s), st1) \<and>
     List_Append (plain_env []) s VNull st1 = (Ok (), st2) \<and> list_of st2 0 = [VInt 1, VNull, VInt 3]"
  using List_slice_append_aliases [OF list3_ok(1), of 0 0 1 "plain_env []" VNull]
  by (simp add: list3_ok) blast

end
