(* ===== verification/Object.thy ===== *)
theory Object
  imports ObjList
begin

text \<open>
  The operations of a value (\<open>pl/object.go\<close>) and of the objects behind it: pairs
  (\<open>obj_pair.go\<close>), maps (\<open>obj_map.go\<close>), string iteration (\<open>obj_str.go\<close>), user values with
  optional callbacks (\<open>obj_uval.go\<close>), methods and method closures, and the native part of the
  iterator protocol. \<open>ToNative\<close> and \<open>ToJSON\<close> are not modelled.
\<close>

section \<open>Strings\<close>

text \<open>\<open>strings.Index\<close>: the first byte offset of \<open>sub\<close>, or \<open>-1\<close>.\<close>

fun str_index_from :: "string \<Rightarrow> string \<Rightarrow> nat \<Rightarrow> int" where
  "str_index_from s sub i =
     (if take (length sub) s = sub then int i
      else case s of [] \<Rightarrow> - 1 | _ # cs \<Rightarrow> str_index_from cs sub (Suc i))"

declare str_index_from.simps [simp del]

definition str_index :: "string \<Rightarrow> string \<Rightarrow> int" where
  "str_index s sub = str_index_from s sub 0"

definition str_map :: "(rune \<Rightarrow> rune) \<Rightarrow> string \<Rightarrow> string" where
  "str_map f s = utf8_encode (map f (utf8_decode s))"

section \<open>Pairs\<close>

definition Pair_Index :: "nat \<Rightarrow> val \<Rightarrow> 'w store \<Rightarrow> val res" where
  "Pair_Index p idx st =
     rbind (ToIndex idx) (\<lambda>i.
     rbind (deref (st_pairs st) p) (\<lambda>(a, b).
       if i = 0 then Ok a else if i = 1 then Ok b
       else Err ''invalid index, 0 or 1 is allowed on Pair''))"

definition Pair_IndexSet :: "nat \<Rightarrow> val \<Rightarrow> val \<Rightarrow> 'w store \<Rightarrow> unit res \<times> 'w store" where
  "Pair_IndexSet p idx v st =
     rlift (ToIndex idx) st (\<lambda>i st.
     rlift (deref (st_pairs st) p) st (\<lambda>(a, b) st.
       if i = 0 then (Ok (), st\<lparr>st_pairs := (st_pairs st)[p := (v, b)]\<rparr>)
       else if i = 1 then (Ok (), st\<lparr>st_pairs := (st_pairs st)[p := (a, v)]\<rparr>)
       else (Err ''invalid index, 0 or 1 is allowed on Pair'', st)))"

definition pair_field_error :: string where
  "pair_field_error = ''invalid field name, '' @ CHR 0x27 # ''first'' @ CHR 0x27 # ''/'' @
     CHR 0x27 # ''second'' @ CHR 0x27 # '' is allowed on Pair''"

definition Pair_Dot :: "nat \<Rightarrow> string \<Rightarrow> 'w store \<Rightarrow> val res" where
  "Pair_Dot p i st =
     rbind (deref (st_pairs st) p) (\<lambda>(a, b).
       if i = ''first'' then Ok a else if i = ''second'' then Ok b else Err pair_field_error)"

definition Pair_DotSet :: "nat \<Rightarrow> string \<Rightarrow> val \<Rightarrow> 'w store \<Rightarrow> unit res \<times> 'w store" where
  "Pair_DotSet p i v st =
     rlift (deref (st_pairs st) p) st (\<lambda>(a, b) st.
       if i = ''first'' then (Ok (), st\<lparr>st_pairs := (st_pairs st)[p := (v, b)]\<rparr>)
       else if i = ''second'' then (Ok (), st\<lparr>st_pairs := (st_pairs st)[p := (a, v)]\<rparr>)
       else (Err pair_field_error, st))"

section \<open>Conversions\<close>

fun v_ToString :: "'w oenv \<Rightarrow> 'w store \<Rightarrow> val \<Rightarrow> string res" where
  "v_ToString env st (VInt i) = Ok (int_dec (sint i))"
| "v_ToString env st (VReal r) = Ok (fl_fmt r)"
| "v_ToString env st (VBool b) = Ok (if b then ''true'' else ''false'')"
| "v_ToString env st VNull = Ok ''null''"
| "v_ToString env st (VStr s) = Ok s"
| "v_ToString env st (VRegexp r) = Ok r"
| "v_ToString env st (VIter _) = Ok ''iter''"
| "v_ToString env st (VClosure c) = rbind (deref (st_clos st) c) (\<lambda>x. Ok (closure_Id env x))"
| "v_ToString env st (VFrame _) = Ok ''''"
| "v_ToString env st (VUsr u) = us_ToString (oe_usr env u) st"
| "v_ToString env st _ = Err ''cannot convert List/Map/Pair to string''"

text \<open>\<open>Iter.Has\<close>, for every kind of iterator.\<close>

definition iter_Has :: "'w oenv \<Rightarrow> 'w store \<Rightarrow> nat \<Rightarrow> bool res" where
  "iter_Has env st i =
     rbind (deref (st_iters st) i) (\<lambda>it.
       case it of
         ListIter l cur \<Rightarrow> ListIter_Has l cur st
       | MapIter m idx sz \<Rightarrow> rbind (deref (st_maps st) m) (\<lambda>x. Ok (MapIter_Has x idx))
       | PairIter p cnt \<Rightarrow> Ok (cnt < 2)
       | StrIter rs cnt \<Rightarrow> Ok (cnt < length rs)
       | ScriptIter s \<Rightarrow> Ok (si_next s)
       | UsrIter u \<Rightarrow> ui_Has (oe_uiter env u) st)"

fun ToBoolean :: "'w oenv \<Rightarrow> 'w store \<Rightarrow> val \<Rightarrow> bool res" where
  "ToBoolean env st (VInt i) = Ok (i \<noteq> 0)"
| "ToBoolean env st (VReal r) = Ok (\<not> fl_eq r 0)"
| "ToBoolean env st (VStr s) = Ok (length s \<noteq> 0)"
| "ToBoolean env st (VBool b) = Ok b"
| "ToBoolean env st VNull = Ok False"
| "ToBoolean env st (VList l) = rbind (List_Length st l) (\<lambda>n. Ok (n \<noteq> 0))"
| "ToBoolean env st (VMap m) = rbind (deref (st_maps st) m) (\<lambda>x. Ok (Map_Length x \<noteq> 0))"
| "ToBoolean env st (VIter i) = iter_Has env st i"
| "ToBoolean env st (VFrame _) = Ok False"
| "ToBoolean env st _ = Ok True"

fun v_IsThreadSafe :: "'w oenv \<Rightarrow> 'w store \<Rightarrow> val \<Rightarrow> bool res" where
  "v_IsThreadSafe env st (VUsr u) = us_IsThreadSafe (oe_usr env u) st"
| "v_IsThreadSafe env st v = Ok (v_Type v \<in> {ValInt, ValReal, ValNull, ValStr, ValBool})"

section \<open>Maps in the store\<close>

definition set_map :: "nat \<Rightarrow> val gomap \<Rightarrow> 'w store \<Rightarrow> 'w store" where
  "set_map m x st = st\<lparr>st_maps := (st_maps st)[m := x]\<rparr>"

definition map_set :: "'w oenv \<Rightarrow> nat \<Rightarrow> string \<Rightarrow> val \<Rightarrow> 'w store \<Rightarrow> unit res \<times> 'w store" where
  "map_set env m k v st =
     rlift (deref (st_maps st) m) st (\<lambda>x st. (Ok (), set_map m (Map_Set (oe_grow env) x k v) st))"

definition map_get :: "nat \<Rightarrow> string \<Rightarrow> 'w store \<Rightarrow> val option res" where
  "map_get m k st = rbind (deref (st_maps st) m) (\<lambda>x. Ok (Map_Get x k))"

definition Map_Dot :: "nat \<Rightarrow> string \<Rightarrow> 'w store \<Rightarrow> val res" where
  "Map_Dot m i st =
     rbind (map_get m i st) (\<lambda>r. case r of None \<Rightarrow> Err (i @ '' key not found'') | Some v \<Rightarrow> Ok v)"

definition Map_Index :: "'w oenv \<Rightarrow> nat \<Rightarrow> val \<Rightarrow> 'w store \<Rightarrow> val res" where
  "Map_Index env m idx st = rbind (v_ToString env st idx) (\<lambda>i. Map_Dot m i st)"

definition Map_IndexSet :: "'w oenv \<Rightarrow> nat \<Rightarrow> val \<Rightarrow> val \<Rightarrow> 'w store \<Rightarrow> unit res \<times> 'w store" where
  "Map_IndexSet env m idx v st = rlift (v_ToString env st idx) st (\<lambda>i st. map_set env m i v st)"

definition Map_Method :: "'w oenv \<Rightarrow> nat \<Rightarrow> string \<Rightarrow> val list \<Rightarrow> 'w store \<Rightarrow> val res \<times> 'w store" where
  "Map_Method env m name args st =
     (if name = ''length'' then
        rlift (check_args env st ''map.length'' ''%0'' args) st (\<lambda>_ st.
        rlift (deref (st_maps st) m) st (\<lambda>x st. (Ok (VInt (i64_of_nat (Map_Length x))), st)))
      else if name = ''set'' then
        rlift (check_args env st ''map.set'' ''%s%a'' args) st (\<lambda>_ st.
        rlift (v_String (args ! 0)) st (\<lambda>k st.
        mbind (map_set env m k (args ! 1) st) (\<lambda>_ st. (Ok (VMap m), st))))
      else if name = ''del'' then
        rlift (check_args env st ''map.del'' ''%s'' args) st (\<lambda>_ st.
        rlift (v_String (args ! 0)) st (\<lambda>k st.
        rlift (deref (st_maps st) m) st (\<lambda>x st.
        rlift (Map_Del (oe_grow env) (oe_order env) x k) st (\<lambda>(x', _) st.
          (Ok (VMap m), set_map m x' st)))))
      else if name = ''tryGet'' then
        rlift (check_args env st ''map.tryGet'' ''%s%a'' args) st (\<lambda>_ st.
        rlift (v_String (args ! 0)) st (\<lambda>k st.
        rlift (map_get m k st) st (\<lambda>r st.
          (Ok (case r of None \<Rightarrow> args ! 1 | Some v \<Rightarrow> v), st))))
      else if name = ''get'' then
        rlift (check_args env st ''map.get'' ''%s'' args) st (\<lambda>_ st.
        rlift (v_String (args ! 0)) st (\<lambda>k st.
        rlift (map_get m k st) st (\<lambda>r st.
          (case r of None \<Rightarrow> Err (''key '' @ k @ '' not found'') | Some v \<Rightarrow> Ok v, st))))
      else if name = ''has'' then
        rlift (check_args env st ''map.has'' ''%s'' args) st (\<lambda>_ st.
        rlift (v_String (args ! 0)) st (\<lambda>k st.
        rlift (deref (st_maps st) m) st (\<lambda>x st. (Ok (VBool (Map_Has x k)), st))))
      else (Err (''method: list:'' @ name @ '' is unknown''), st))"

section \<open>User values\<close>

text \<open>
  \<open>UVal\<close>: every operation is an optional callback on the value's context (the callbacks here
  are already applied to it).
\<close>

record 'w uval =
  indexFn :: "(val \<Rightarrow> 'w store \<Rightarrow> val res \<times> 'w store) option"
  indexSetFn :: "(val \<Rightarrow> val \<Rightarrow> 'w store \<Rightarrow> unit res \<times> 'w store) option"
  dotFn :: "(string \<Rightarrow> 'w store \<Rightarrow> val res \<times> 'w store) option"
  dotSetFn :: "(string \<Rightarrow> val \<Rightarrow> 'w store \<Rightarrow> unit res \<times> 'w store) option"
  methodFn :: "(string \<Rightarrow> val list \<Rightarrow> 'w store \<Rightarrow> val res \<times> 'w store) option"
  toStringFn :: "('w store \<Rightarrow> string res) option"
  idFn :: "('w store \<Rightarrow> string res) option"
  infoFn :: "('w store \<Rightarrow> string res) option"
  iterFn :: "('w store \<Rightarrow> nat res \<times> 'w store) option"
  immutableFn :: "('w store \<Rightarrow> bool res) option"

definition uval_Index :: "'w uval \<Rightarrow> val \<Rightarrow> 'w store \<Rightarrow> val res \<times> 'w store" where
  "uval_Index u b st = (case indexFn u of Some f \<Rightarrow> f b st
     | None \<Rightarrow> (Err ''user type does not support *index* operation'', st))"

definition uval_IndexSet :: "'w uval \<Rightarrow> val \<Rightarrow> val \<Rightarrow> 'w store \<Rightarrow> unit res \<times> 'w store" where
  "uval_IndexSet u b c st = (case indexSetFn u of Some f \<Rightarrow> f b c st
     | None \<Rightarrow> (Err ''user type does not support *index set* operator'', st))"

definition uval_Dot :: "'w uval \<Rightarrow> string \<Rightarrow> 'w store \<Rightarrow> val res \<times> 'w store" where
  "uval_Dot u b st = (case dotFn u of Some f \<Rightarrow> f b st
     | None \<Rightarrow> (Err ''user type does not support *dot* operator'', st))"

definition uval_DotSet :: "'w uval \<Rightarrow> string \<Rightarrow> val \<Rightarrow> 'w store \<Rightarrow> unit res \<times> 'w store" where
  "uval_DotSet u b c st = (case dotSetFn u of Some f \<Rightarrow> f b c st
     | None \<Rightarrow> (Err ''user type does not support *dot set* operator'', st))"

definition uval_Method :: "'w uval \<Rightarrow> string \<Rightarrow> val list \<Rightarrow> 'w store \<Rightarrow> val res \<times> 'w store" where
  "uval_Method u b c st = (case methodFn u of Some f \<Rightarrow> f b c st
     | None \<Rightarrow> (Err ''user type does not support *method* operator'', st))"

definition uval_ToString :: "'w uval \<Rightarrow> 'w store \<Rightarrow> string res" where
  "uval_ToString u st = (case toStringFn u of Some f \<Rightarrow> f st
     | None \<Rightarrow> Err ''user type does not support *to string* operator'')"

definition uval_Id :: "'w uval \<Rightarrow> 'w store \<Rightarrow> string res" where
  "uval_Id u st = (case idFn u of Some f \<Rightarrow> f st | None \<Rightarrow> Ok ''[user]'')"

definition uval_Info :: "'w uval \<Rightarrow> 'w store \<Rightarrow> string res" where
  "uval_Info u st = (case infoFn u of Some f \<Rightarrow> f st | None \<Rightarrow> Ok ''[user]'')"

definition uval_NewIterator :: "'w uval \<Rightarrow> 'w store \<Rightarrow> nat res \<times> 'w store" where
  "uval_NewIterator u st = (case iterFn u of Some f \<Rightarrow> f st
     | None \<Rightarrow> (Err ''user type does not support iterator'', st))"

text \<open>The nil test is inverted: a callback is never asked, and a missing one is called.\<close>

definition uval_IsThreadSafe :: "'w uval \<Rightarrow> 'w store \<Rightarrow> bool res" where
  "uval_IsThreadSafe u st =
     (case immutableFn u of Some f \<Rightarrow> Ok False | None \<Rightarrow> Panic ''nil function call'')"

definition uval_usr :: "'w uval \<Rightarrow> 'w usr" where
  "uval_usr u =
     \<lparr>us_Index = uval_Index u, us_IndexSet = uval_IndexSet u, us_Dot = uval_Dot u,
      us_DotSet = uval_DotSet u, us_Method = uval_Method u, us_ToString = uval_ToString u,
      us_Id = uval_Id u, us_Info = uval_Info u, us_IsThreadSafe = uval_IsThreadSafe u,
      us_NewIterator = uval_NewIterator u\<rparr>"

definition NewUValData :: "'w uval" where
  "NewUValData =
     \<lparr>indexFn = None, indexSetFn = None, dotFn = None, dotSetFn = None, methodFn = None,
      toStringFn = None, idFn = None, infoFn = None, iterFn = None, immutableFn = None\<rparr>"

section \<open>Indexing and fields\<close>

text \<open>Results that only read the store, in the shape of the operations that may write it.\<close>

definition reads :: "'a res \<Rightarrow> 'w store \<Rightarrow> 'a res \<times> 'w store" where
  "reads r st = (r, st)"

definition cannot :: "'w oenv \<Rightarrow> 'w store \<Rightarrow> string \<Rightarrow> val \<Rightarrow> 'a res \<times> 'w store" where
  "cannot env st what v = rlift (v_Id env st v) st (\<lambda>i st. (Err (what @ i), st))"

definition v_Index :: "'w oenv \<Rightarrow> val \<Rightarrow> val \<Rightarrow> 'w store \<Rightarrow> val res \<times> 'w store" where
  "v_Index env v idx st =
     (case v of
        VRegexp _ \<Rightarrow> (Err ''cannot index regexp'', st)
      | VStr s \<Rightarrow>
          rlift (ToIndex idx) st (\<lambda>i st.
            if length s \<le> i then (Err ''index out of range'', st)
            else (Ok (VStr [s ! i]), st))
      | VPair p \<Rightarrow> reads (Pair_Index p idx st) st
      | VList l \<Rightarrow> reads (List_Index l idx st) st
      | VMap m \<Rightarrow> reads (Map_Index env m idx st) st
      | VFrame _ \<Rightarrow> (Ok VNull, st)
      | VUsr u \<Rightarrow> us_Index (oe_usr env u) idx st
      | _ \<Rightarrow> cannot env st ''cannot index type: '' v)"

definition v_IndexSet :: "'w oenv \<Rightarrow> val \<Rightarrow> val \<Rightarrow> val \<Rightarrow> 'w store \<Rightarrow> unit res \<times> 'w store" where
  "v_IndexSet env v idx x st =
     (case v of
        VRegexp _ \<Rightarrow> (Err ''cannot do subfield set by indexing on regexp'', st)
      | VPair p \<Rightarrow> Pair_IndexSet p idx x st
      | VList l \<Rightarrow> List_IndexSet env l idx x st
      | VMap m \<Rightarrow> Map_IndexSet env m idx x st
      | VFrame _ \<Rightarrow> (Ok (), st)
      | VUsr u \<Rightarrow> us_IndexSet (oe_usr env u) idx x st
      | _ \<Rightarrow> cannot env st ''cannot do index set on type: '' v)"

definition v_Dot :: "'w oenv \<Rightarrow> val \<Rightarrow> string \<Rightarrow> 'w store \<Rightarrow> val res \<times> 'w store" where
  "v_Dot env v i st =
     (case v of
        VRegexp _ \<Rightarrow> (Err ''cannot apply dot operator on regexp'', st)
      | VMap m \<Rightarrow> reads (Map_Dot m i st) st
      | VPair p \<Rightarrow> reads (Pair_Dot p i st) st
      | VFrame _ \<Rightarrow> (Ok VNull, st)
      | VUsr u \<Rightarrow> us_Dot (oe_usr env u) i st
      | _ \<Rightarrow> cannot env st ''cannot do dot on type: '' v)"

definition v_DotSet :: "'w oenv \<Rightarrow> val \<Rightarrow> string \<Rightarrow> val \<Rightarrow> 'w store \<Rightarrow> unit res \<times> 'w store" where
  "v_DotSet env v i x st =
     (case v of
        VRegexp _ \<Rightarrow> (Err ''cannot apply dot operator on regexp'', st)
      | VMap m \<Rightarrow> map_set env m i x st
      | VPair p \<Rightarrow> Pair_DotSet p i x st
      | VFrame _ \<Rightarrow> (Ok (), st)
      | VUsr u \<Rightarrow> us_DotSet (oe_usr env u) i x st
      | _ \<Rightarrow> cannot env st ''cannot do dot set on type: '' v)"

section \<open>Methods\<close>

definition unknown_method :: "string \<Rightarrow> string \<Rightarrow> 'a res" where
  "unknown_method t name = Err (''method: '' @ t @ '':'' @ name @ '' is unknown'')"

text \<open>A method without arguments: its descriptor is \<open>%0\<close>.\<close>

definition noarg :: "'w oenv \<Rightarrow> 'w store \<Rightarrow> string \<Rightarrow> val list \<Rightarrow> val \<Rightarrow> val res" where
  "noarg env st name args v = rbind (check_args env st name ''%0'' args) (\<lambda>_. Ok v)"

definition methodInt :: "'w oenv \<Rightarrow> 'w store \<Rightarrow> int64 \<Rightarrow> string \<Rightarrow> val list \<Rightarrow> val res" where
  "methodInt env st i name args =
     (if name = ''to_string'' then noarg env st ''int.to_string'' args (VStr (int_dec (sint i)))
      else unknown_method ''int'' name)"

definition methodReal :: "'w oenv \<Rightarrow> 'w store \<Rightarrow> fl \<Rightarrow> string \<Rightarrow> val list \<Rightarrow> val res" where
  "methodReal env st r name args =
     (if name = ''to_string'' then noarg env st ''real.to_string'' args (VStr (fl_fmt r))
      else if name = ''is_nan'' then noarg env st ''real.is_nan'' args (VBool (fl_is_nan r))
      else if name = ''is_inf'' then noarg env st ''real.is_inf'' args (VBool (fl_is_inf r 0))
      else if name = ''is_ninf'' then noarg env st ''real.is_ninf'' args (VBool (fl_is_inf r (- 1)))
      else if name = ''is_pinf'' then noarg env st ''real.is_pinf'' args (VBool (fl_is_inf r 1))
      else if name = ''cell'' then noarg env st ''real.cell'' args (VReal (fl_ceil r))
      else if name = ''floor'' then noarg env st ''real.floor'' args (VReal (fl_floor r))
      else unknown_method ''real'' name)"

definition methodBool :: "'w oenv \<Rightarrow> 'w store \<Rightarrow> bool \<Rightarrow> string \<Rightarrow> val list \<Rightarrow> val res" where
  "methodBool env st b name args =
     (if name = ''to_string''
      then noarg env st ''bool.to_string'' args (VStr (if b then ''true'' else ''false''))
      else unknown_method ''bool'' name)"

definition methodNull :: "'w oenv \<Rightarrow> 'w store \<Rightarrow> string \<Rightarrow> val list \<Rightarrow> val res" where
  "methodNull env st name args =
     (if name = ''to_string'' then noarg env st ''null.to_string'' args (VStr ''null'')
      else unknown_method ''null'' name)"

definition str_substr :: "string \<Rightarrow> int \<Rightarrow> int option \<Rightarrow> string res" where
  "str_substr s a e0 =
     (case e0 of
        Some e \<Rightarrow> go_substr s a (if int (length s) \<le> e then int (length s) else e)
      | None \<Rightarrow> go_substr s a (int (length s)))"

definition str_index_at :: "string \<Rightarrow> string \<Rightarrow> int option \<Rightarrow> int res" where
  "str_index_at s sub pos =
     (case pos of
        None \<Rightarrow> Ok (str_index s sub)
      | Some a \<Rightarrow>
          rbind (go_substr s a (int (length s))) (\<lambda>t.
            let i = str_index t sub in Ok (if i = - 1 then - 1 else i + a)))"

definition methodStr :: "'w oenv \<Rightarrow> 'w store \<Rightarrow> string \<Rightarrow> string \<Rightarrow> val list \<Rightarrow> val res" where
  "methodStr env st s name args =
     (if name = ''to_string'' then noarg env st ''str.to_string'' args (VStr s)
      else if name = ''length'' then noarg env st ''str.length'' args (VInt (i64_of_nat (length s)))
      else if name = ''to_upper'' then noarg env st ''str.to_upper'' args (VStr (str_map (oe_upper env) s))
      else if name = ''to_lower'' then noarg env st ''str.to_lower'' args (VStr (str_map (oe_lower env) s))
      else if name = ''substr'' then
        rbind (check_args env st ''str.substr'' ''{%d}{%d%d}'' args) (\<lambda>alog.
        rbind (v_Int (args ! 0)) (\<lambda>a.
        rbind (if alog = 2 then rbind (v_Int (args ! 1)) (\<lambda>e. Ok (Some (sint e))) else Ok None) (\<lambda>e.
        rbind (str_substr s (sint a) e) (\<lambda>t. Ok (VStr t)))))
      else if name = ''index'' then
        rbind (check_args env st ''str.index'' ''{%s}{%s%d}'' args) (\<lambda>alog.
        rbind (if alog = 1 then Ok None else rbind (v_Int (args ! 1)) (\<lambda>a. Ok (Some (sint a)))) (\<lambda>pos.
        rbind (v_String (args ! 0)) (\<lambda>sub.
        rbind (str_index_at s sub pos) (\<lambda>i. Ok (VInt (word_of_int i))))))
      else unknown_method ''str'' name)"

definition v_Method :: "'w oenv \<Rightarrow> val \<Rightarrow> string \<Rightarrow> val list \<Rightarrow> 'w store \<Rightarrow> val res \<times> 'w store" where
  "v_Method env v name args st =
     (case v of
        VInt i \<Rightarrow> reads (methodInt env st i name args) st
      | VReal r \<Rightarrow> reads (methodReal env st r name args) st
      | VBool b \<Rightarrow> reads (methodBool env st b name args) st
      | VNull \<Rightarrow> reads (methodNull env st name args) st
      | VStr s \<Rightarrow> reads (methodStr env st s name args) st
      | VList l \<Rightarrow> List_Method env l name args st
      | VMap m \<Rightarrow> Map_Method env m name args st
      | VFrame _ \<Rightarrow> (Ok VNull, st)
      | VUsr u \<Rightarrow> us_Method (oe_usr env u) name args st
      | VPair _ \<Rightarrow> (Panic ''must: must be user'', st)
      | _ \<Rightarrow> rlift (v_Id env st v) st (\<lambda>i st. (Err (i @ '':'' @ name @ '' is unknown''), st)))"

text \<open>
  The closure of a method keeps the receiver; calling it is \<open>v_Method\<close> on that receiver with the
  name (the per-type entries the code stores are the branches of \<open>v_Method\<close>).
\<close>

definition MethodClosure :: "'w oenv \<Rightarrow> val \<Rightarrow> string \<Rightarrow> 'w store \<Rightarrow> val res \<times> 'w store" where
  "MethodClosure env v name st =
     (if v_Type v \<in> {ValInt, ValReal, ValBool, ValNull, ValStr, ValList, ValMap, ValUsr} then
        (let (c, st) = new_closure (CMethod name v) st in (Ok c, st))
      else if v_Type v = ValFrame then
        (Panic ''unreachable: should never create frame's method'', st)
      else rlift (v_Id env st v) st (\<lambda>i st.
             (Err (''type '' @ i @ '' does not have method '' @ name), st)))"

section \<open>Iterators\<close>

definition v_NewIterator :: "'w oenv \<Rightarrow> val \<Rightarrow> 'w store \<Rightarrow> val res \<times> 'w store" where
  "v_NewIterator env v st =
     (case v of
        VStr s \<Rightarrow> (let (x, st) = new_iter (StrIter (utf8_decode s) 0) st in (Ok x, st))
      | VList l \<Rightarrow> (let (x, st) = new_iter (ListIter l 0) st in (Ok x, st))
      | VMap m \<Rightarrow>
          rlift (deref (st_maps st) m) st (\<lambda>g st.
          rlift (MapIter_init g 0) st (\<lambda>i st.
            let (x, st) = new_iter (MapIter m i (Map_Length g)) st in (Ok x, st)))
      | VPair p \<Rightarrow> (let (x, st) = new_iter (PairIter p 0) st in (Ok x, st))
      | VIter _ \<Rightarrow> (Panic ''must: must be user'', st)
      | VUsr u \<Rightarrow>
          mbind (us_NewIterator (oe_usr env u) st) (\<lambda>i st. (Ok (VIter i), st))
      | _ \<Rightarrow> rlift (v_Id env st v) st (\<lambda>i st. (Err (''type '' @ i @ '' does not support iterator''), st)))"

definition set_iter :: "nat \<Rightarrow> iterobj \<Rightarrow> 'w store \<Rightarrow> 'w store" where
  "set_iter i it st = st\<lparr>st_iters := (st_iters st)[i := it]\<rparr>"

definition siter_Deref :: "siter \<Rightarrow> 'w store \<Rightarrow> (val \<times> val) res" where
  "siter_Deref s st =
     (if \<not> si_next s then Err ''iterator out of bound''
      else case si_err s of
        Some e \<Rightarrow> Err e
      | None \<Rightarrow>
          (case si_current s of
             VPair p \<Rightarrow> deref (st_pairs st) p
           | _ \<Rightarrow> Err ''invalid value from yield, must be pair''))"

definition iter_Deref :: "'w oenv \<Rightarrow> 'w store \<Rightarrow> nat \<Rightarrow> (val \<times> val) res" where
  "iter_Deref env st i =
     rbind (deref (st_iters st) i) (\<lambda>it.
       case it of
         ListIter l cur \<Rightarrow> ListIter_Deref l cur st
       | MapIter m idx sz \<Rightarrow>
           rbind (deref (st_maps st) m) (\<lambda>g.
           rbind (MapIter_Deref g sz idx) (\<lambda>(k, v). Ok (VStr k, v)))
       | PairIter p cnt \<Rightarrow>
           rbind (deref (st_pairs st) p) (\<lambda>(a, b).
             if cnt = 0 then Ok (VInt 0, a) else if cnt = 1 then Ok (VInt 1, b)
             else Err ''iterator out of bound'')
       | StrIter rs cnt \<Rightarrow>
           if cnt < length rs then Ok (VInt (i64_of_nat cnt), VStr (utf8_rune (rs ! cnt)))
           else Err ''iterator is out of bound''
       | ScriptIter s \<Rightarrow> siter_Deref s st
       | UsrIter u \<Rightarrow> ui_Deref (oe_uiter env u) st)"

text \<open>\<open>Next\<close> and \<open>SetUp\<close> of the native iterators; those of a script iterator run code (\<open>VM\<close>).\<close>

definition native_Next :: "'w oenv \<Rightarrow> nat \<Rightarrow> iterobj \<Rightarrow> 'w store \<Rightarrow> bool res \<times> 'w store" where
  "native_Next env i it st =
     (case it of
        ListIter l cur \<Rightarrow>
          (let st = set_iter i (ListIter l (Suc cur)) st in reads (iter_Has env st i) st)
      | MapIter m idx sz \<Rightarrow>
          rlift (deref (st_maps st) m) st (\<lambda>g st.
          rlift (MapIter_Next g idx) st (\<lambda>j st.
            let st = set_iter i (MapIter m j sz) st in reads (iter_Has env st i) st))
      | PairIter p cnt \<Rightarrow>
          (let st = set_iter i (PairIter p (Suc cnt)) st in reads (iter_Has env st i) st)
      | StrIter rs cnt \<Rightarrow>
          (let st = set_iter i (StrIter rs (Suc cnt)) st in reads (iter_Has env st i) st)
      | UsrIter u \<Rightarrow> ui_Next (oe_uiter env u) st
      | ScriptIter s \<Rightarrow> (Ok False, st))"

definition native_SetUp :: "'w oenv \<Rightarrow> iterobj \<Rightarrow> val list \<Rightarrow> 'w store \<Rightarrow> unit res \<times> 'w store" where
  "native_SetUp env it args st =
     (case it of UsrIter u \<Rightarrow> ui_SetUp (oe_uiter env u) args st | _ \<Rightarrow> (Ok (), st))"

section \<open>Properties\<close>

text \<open>A whole \<open>for\<close> loop over a native iterator: \<open>Has\<close>, \<open>Deref\<close>, \<open>Next\<close>.\<close>

fun iter_all :: "nat \<Rightarrow> 'w oenv \<Rightarrow> nat \<Rightarrow> 'w store \<Rightarrow> (val \<times> val) list res \<times> 'w store" where
  "iter_all 0 env i st = (Diverge, st)"
| "iter_all (Suc n) env i st =
     rlift (iter_Has env st i) st (\<lambda>b st.
       if \<not> b then (Ok [], st)
       else
         rlift (iter_Deref env st i) st (\<lambda>e st.
         rlift (deref (st_iters st) i) st (\<lambda>it st.
         mbind (native_Next env i it st) (\<lambda>_ st.
         mbind (iter_all n env i st) (\<lambda>es st. (Ok (e # es), st))))))"

definition enum_runes :: "nat \<Rightarrow> rune list \<Rightarrow> (val \<times> val) list" where
  "enum_runes k rs = map (\<lambda>j. (VInt (i64_of_nat j), VStr (utf8_rune (rs ! j)))) [k..<length rs]"

lemma iter_all_str:
  assumes "i < length (st_iters st)"
  shows "st_iters st ! i = StrIter rs k \<Longrightarrow> length rs - k < n \<Longrightarrow> k \<le> length rs \<Longrightarrow>
    fst (iter_all n env i st) = Ok (enum_runes k rs)"
  using assms
proof (induction n arbitrary: k st)
  case 0
  then show ?case by simp
next
  case (Suc n)
  show ?case
  proof (cases "k < length rs")
    case True
    let ?st = "set_iter i (StrIter rs (Suc k)) st"
    have "fst (iter_all n env i ?st) = Ok (enum_runes (Suc k) rs)"
      using Suc.IH [of ?st "Suc k"] Suc.prems True by (simp add: set_iter_def)
    moreover have "native_Next env i (StrIter rs k) st = (Ok (Suc k < length rs), ?st)"
      using Suc.prems by (simp add: native_Next_def reads_def iter_Has_def deref_def set_iter_def)
    moreover have "iter_Has env st i = Ok True" "deref (st_iters st) i = Ok (StrIter rs k)"
      "iter_Deref env st i = Ok (VInt (i64_of_nat k), VStr (utf8_rune (rs ! k)))"
      using Suc.prems True by (simp_all add: iter_Has_def iter_Deref_def deref_def)
    ultimately show ?thesis
      using True by (cases "iter_all n env i ?st") (simp add: enum_runes_def upt_rec [of k])
  next
    case False
    with Suc.prems show ?thesis by (simp add: iter_Has_def deref_def enum_runes_def)
  qed
qed

text \<open>
  iterating over a string made of code points visits each of them once, in order, as the
  pair of its position and the string holding just this code point.
\<close>

theorem string_iteration:
  assumes "list_all rune_valid rs"
  shows "\<exists>i st'. v_NewIterator env (VStr (utf8_encode rs)) st = (Ok (VIter i), st') \<and>
    fst (iter_all (Suc (length rs)) env i st') =
      Ok (map (\<lambda>j. (VInt (i64_of_nat j), VStr (utf8_rune (rs ! j)))) [0..<length rs])"
proof -
  let ?i = "length (st_iters st)"
  let ?st = "st\<lparr>st_iters := st_iters st @ [StrIter rs 0]\<rparr>"
  have "v_NewIterator env (VStr (utf8_encode rs)) st = (Ok (VIter ?i), ?st)"
    by (simp add: v_NewIterator_def new_iter_def utf8_decode_encode [OF assms])
  moreover have "fst (iter_all (Suc (length rs)) env ?i ?st) = Ok (enum_runes 0 rs)"
    by (rule iter_all_str) simp_all
  ultimately show ?thesis by (simp add: enum_runes_def)
qed

theorem string_iteration_witness:
  "\<exists>i st'. v_NewIterator (plain_env []) (VStr (utf8_encode [104, 233])) (st_init ()) = (Ok (VIter i), st') \<and>
    fst (iter_all 3 (plain_env []) i st') =
      Ok [(VInt (i64_of_nat 0), VStr (utf8_rune 104)), (VInt (i64_of_nat 1), VStr (utf8_rune 233))]"
proof -
  have v: "list_all rune_valid [104, 233]" by (simp add: rune_valid_def)
  have u: "[0..<length [104, 233 :: rune]] = [0, 1]" by (simp add: upt_rec)
  have l: "Suc (length [104, 233 :: rune]) = 3" by simp
  have n: "[104, 233 :: rune] ! 0 = 104" "[104, 233 :: rune] ! 1 = 233" by simp_all
  from string_iteration [OF v, of "plain_env []" "st_init ()", unfolded u l list.map n] show ?thesis .
qed

lemma str_index_from_spec:
  "(str_index_from s sub i = - 1 \<and> (\<forall>k. take (length sub) (drop k s) \<noteq> sub)) \<or>
   (\<exists>k\<le>length s. str_index_from s sub i = int (i + k) \<and> take (length sub) (drop k s) = sub \<and>
      (\<forall>j<k. take (length sub) (drop j s) \<noteq> sub))"
proof (induction s arbitrary: i)
  case Nil
  then show ?case by (subst (1 2) str_index_from.simps) auto
next
  case (Cons c s)
  show ?case
  proof (cases "take (length sub) (c # s) = sub")
    case True
    then have "str_index_from (c # s) sub i = int (i + 0) \<and> take (length sub) (drop 0 (c # s)) = sub \<and>
        (\<forall>j<0. take (length sub) (drop j (c # s)) \<noteq> sub)"
      by (subst str_index_from.simps) simp
    then show ?thesis by blast
  next
    case False
    then have step: "str_index_from (c # s) sub i = str_index_from s sub (Suc i)"
      by (subst str_index_from.simps) simp
    have zero: "take (length sub) (drop k (c # s)) \<noteq> sub" if "\<forall>j. k = Suc j \<longrightarrow> take (length sub) (drop j s) \<noteq> sub" for k
      using that False by (cases k) auto
    from Cons.IH [of "Suc i"] show ?thesis
    proof (elim disjE exE conjE)
      assume "str_index_from s sub (Suc i) = - 1" "\<forall>k. take (length sub) (drop k s) \<noteq> sub"
      then show ?thesis using step zero by simp
    next
      fix k assume "k \<le> length s" "str_index_from s sub (Suc i) = int (Suc i + k)"
        "take (length sub) (drop k s) = sub" "\<forall>j<k. take (length sub) (drop j s) \<noteq> sub"
      then have "Suc k \<le> length (c # s) \<and> str_index_from (c # s) sub i = int (i + Suc k) \<and>
          take (length sub) (drop (Suc k) (c # s)) = sub \<and>
          (\<forall>j<Suc k. take (length sub) (drop j (c # s)) \<noteq> sub)"
        using step zero by auto
      then show ?thesis by blast
    qed
  qed
qed

text \<open>
  The string method \<open>index\<close> with a start position. A start outside the string panics;
  otherwise the result is the first occurrence at or behind the start, or \<open>-1\<close> exactly when
  there is none.
\<close>

lemma str_index_at_spec:
  "if a < 0 \<or> int (length s) < a then str_index_at s sub (Some a) = Panic ''slice bounds out of range''
   else (str_index_at s sub (Some a) = Ok (- 1) \<and> (\<forall>k. nat a \<le> k \<longrightarrow> take (length sub) (drop k s) \<noteq> sub)) \<or>
     (\<exists>k. nat a \<le> k \<and> k \<le> length s \<and> str_index_at s sub (Some a) = Ok (int k) \<and>
        take (length sub) (drop k s) = sub \<and>
        (\<forall>j. nat a \<le> j \<and> j < k \<longrightarrow> take (length sub) (drop j s) \<noteq> sub))"
proof (cases "a < 0 \<or> int (length s) < a")
  case True
  then show ?thesis by (auto simp: str_index_at_def go_substr_def)
next
  case False
  let ?t = "drop (nat a) s"
  have t: "go_substr s a (int (length s)) = Ok ?t" using False by (simp add: go_substr_def)
  have sh: "drop (k - nat a) ?t = drop k s" if "nat a \<le> k" for k using that by simp
  from str_index_from_spec [of ?t sub 0]
  have "(str_index_at s sub (Some a) = Ok (- 1) \<and> (\<forall>k. nat a \<le> k \<longrightarrow> take (length sub) (drop k s) \<noteq> sub)) \<or>
     (\<exists>k. nat a \<le> k \<and> k \<le> length s \<and> str_index_at s sub (Some a) = Ok (int k) \<and>
        take (length sub) (drop k s) = sub \<and>
        (\<forall>j. nat a \<le> j \<and> j < k \<longrightarrow> take (length sub) (drop j s) \<noteq> sub))"
  proof (elim disjE exE conjE)
    assume "str_index_from ?t sub 0 = - 1" and no: "\<forall>k. take (length sub) (drop k ?t) \<noteq> sub"
    moreover have "take (length sub) (drop k s) \<noteq> sub" if "nat a \<le> k" for k
      using no [rule_format, of "k - nat a"] sh [OF that] by simp
    ultimately show ?thesis by (simp add: str_index_at_def t str_index_def)
  next
    fix k assume k: "k \<le> length ?t" "str_index_from ?t sub 0 = int (0 + k)"
      "take (length sub) (drop k ?t) = sub" and first: "\<forall>j<k. take (length sub) (drop j ?t) \<noteq> sub"
    have "take (length sub) (drop j s) \<noteq> sub" if "nat a \<le> j" "j < k + nat a" for j
      using first [rule_format, of "j - nat a"] that sh [OF that(1)] by simp
    moreover have "str_index_at s sub (Some a) = Ok (int (k + nat a))"
      using k False by (simp add: str_index_at_def t str_index_def)
    moreover have "k + nat a \<le> length s" using k(1) False by (simp add: le_diff_conv2 nat_le_iff)
    ultimately show ?thesis using k(3) by (intro disjI2 exI [of _ "k + nat a"]) auto
  qed
  then show ?thesis using False by simp
qed

lemma str_index_at_spec_witness:
  "str_index_at ''abcab'' ''ab'' (Some 1) = Ok 3 \<and> str_index_at ''abc'' ''c'' (Some 4) = Panic ''slice bounds out of range''"
proof -
  have "str_index_at ''abcab'' ''ab'' (Some 1) = Ok 3" by code_simp
  with str_index_at_spec [where a = 4 and s = "''abc''" and sub = "''c''"] show ?thesis by simp
qed

text \<open>
  no user value made from callbacks (\<open>UVal\<close>) is ever accepted as thread safe, whatever its
  callback says: with a callback the answer is no, and without one the check itself panics.
\<close>

theorem uval_never_thread_safe:
  assumes "oe_usr env u = uval_usr w"
  shows "v_IsThreadSafe env st (VUsr u) =
    (if immutableFn w = None then Panic ''nil function call'' else Ok False)"
  using assms by (auto simp: uval_usr_def uval_IsThreadSafe_def split: option.split)

theorem uval_never_thread_safe_witness:
  "v_IsThreadSafe ((plain_env [])\<lparr>oe_usr := \<lambda>_. uval_usr (NewUValData\<lparr>immutableFn := Some (\<lambda>_. Ok True)\<rparr>)\<rparr>)
     (st_init ()) (VUsr 0) = Ok False"
  using uval_never_thread_safe [of "(plain_env [])\<lparr>oe_usr := \<lambda>_. uval_usr (NewUValData\<lparr>immutableFn := Some (\<lambda>_. Ok True)\<rparr>)\<rparr>"
      0 "NewUValData\<lparr>immutableFn := Some (\<lambda>_. Ok True)\<rparr>" "st_init ()"]
  by simp

text \<open>
  maps as the script sees them. Assigning to a field or to an index of a map (the index is
  converted to its string first) makes exactly this key read the value, through either syntax,
  and leaves every other key of the map, and every other map, as it was.
\<close>

theorem map_assignment:
  assumes "m < length (st_maps st)" and "v_ToString env st idx = Ok k" and "Map_inv (st_maps st ! m)"
  shows "\<exists>st'. v_IndexSet env (VMap m) idx x st = (Ok (), st') \<and> v_DotSet env (VMap m) k x st = (Ok (), st') \<and>
    v_Dot env (VMap m) k st' = (Ok x, st') \<and> v_Index env (VMap m) (VStr k) st' = (Ok x, st') \<and>
    (\<forall>j. j \<noteq> k \<longrightarrow> fst (v_Dot env (VMap m) j st') = fst (v_Dot env (VMap m) j st)) \<and>
    (\<forall>n. n \<noteq> m \<longrightarrow> deref (st_maps st') n = deref (st_maps st) n) \<and> Map_inv (st_maps st' ! m)"
proof -
  let ?st = "set_map m (Map_Set (oe_grow env) (st_maps st ! m) k x) st"
  have "v_IndexSet env (VMap m) idx x st = (Ok (), ?st)" "v_DotSet env (VMap m) k x st = (Ok (), ?st)"
    using assms(1,2) by (simp_all add: v_IndexSet_def v_DotSet_def Map_IndexSet_def map_set_def deref_def)
  moreover have "map_get m j ?st = Ok (((Map_Get (st_maps st ! m))(k \<mapsto> x)) j)" for j
    using assms(1) gomap.get_set [OF assms(3), of "oe_grow env" k x]
    by (simp add: map_get_def deref_def set_map_def)
  moreover have "map_get m j st = Ok (Map_Get (st_maps st ! m) j)" for j
    using assms(1) by (simp add: map_get_def deref_def)
  moreover have "Map_inv (st_maps ?st ! m)"
    using gomap.inv_set [OF assms(3)] assms(1) by (simp add: set_map_def)
  moreover have "deref (st_maps ?st) n = deref (st_maps st) n" if "n \<noteq> m" for n
    using that by (simp add: set_map_def deref_update)
  ultimately show ?thesis
    by (intro exI [of _ ?st]) (simp add: v_Dot_def v_Index_def Map_Dot_def Map_Index_def reads_def)
qed

theorem map_assignment_witness:
  "\<exists>st'. v_IndexSet (plain_env []) (VMap 0) (VInt 7) (VBool True) (snd (new_map (st_init ()))) = (Ok (), st') \<and>
     v_Dot (plain_env []) (VMap 0) ''7'' st' = (Ok (VBool True), st')"
proof -
  have d: "v_ToString (plain_env []) (snd (new_map (st_init ()))) (VInt 7) = Ok ''7''" by code_simp
  have "Map_inv (st_maps (snd (new_map (st_init ()))) ! 0)"
    by (simp add: new_map_def st_init_def Map_inv_New)
  from map_assignment [OF _ d this, of "VBool True"] show ?thesis
    by (auto simp: new_map_def st_init_def)
qed

end
