(* ===== verification/Arith.thy ===== *)
theory Arith
  imports Object
begin

text \<open>
  The operators of \<open>pl/eval.go\<close>: \<open>doBin\<close>, \<open>doNegate\<close> and \<open>powI\<close>. Integers wrap at 64 bits and
  divide towards zero, mixed integer and real operands are converted to real, \<open>+\<close> also
  concatenates strings. The real power \<open>math.Pow\<close> is a parameter.
\<close>

section \<open>Integer power\<close>

text \<open>
  The loop \<open>for i = 2; i <= m; i++ { result *= n }\<close>. Its counter is an \<open>int64\<close>: for the largest
  exponent the test never fails and the loop does not end.
\<close>

function powI_loop :: "int64 \<Rightarrow> int \<Rightarrow> int \<Rightarrow> int64 \<Rightarrow> int64 res" where
  "powI_loop n m i result =
     (if m = 2 ^ 63 - 1 then Diverge
      else if i \<le> m then powI_loop n m (i + 1) (result * n)
      else Ok result)"
  by pat_completeness auto
termination by (relation "measure (\<lambda>(n, m, i, r). nat (m + 1 - i))") auto

declare powI_loop.simps [simp del]

definition powI :: "int64 \<Rightarrow> int64 \<Rightarrow> int64 res" where
  "powI n m = (if m = 0 then Ok 1 else powI_loop n (sint m) 2 n)"

section \<open>Binary operators\<close>

fun mustReal :: "val \<Rightarrow> fl res" where
  "mustReal (VInt i) = Ok (fl_of_int (sint i))"
| "mustReal v = v_Real v"

text \<open>Both operands as reals: only reached when both are numbers.\<close>

definition reals2 :: "val \<Rightarrow> val \<Rightarrow> (fl \<Rightarrow> fl \<Rightarrow> val) \<Rightarrow> val res" where
  "reals2 a b f = rbind (mustReal a) (\<lambda>x. rbind (mustReal b) (\<lambda>y. Ok (f x y)))"

text \<open>The shape of \<open>-\<close>, \<open>*\<close> and \<open>/\<close>: one operation on integers, one on reals.\<close>

definition arith2 ::
  "(int64 \<Rightarrow> int64 \<Rightarrow> val res) \<Rightarrow> (fl \<Rightarrow> fl \<Rightarrow> fl) \<Rightarrow> string \<Rightarrow> val \<Rightarrow> val \<Rightarrow> val res" where
  "arith2 fi fr msg lhs rhs =
     (case (lhs, rhs) of
        (VInt a, VInt b) \<Rightarrow> fi a b
      | (VReal a, VReal b) \<Rightarrow> Ok (VReal (fr a b))
      | _ \<Rightarrow> if v_Type lhs \<noteq> v_Type rhs \<and> IsNumber lhs \<and> IsNumber rhs
             then reals2 lhs rhs (\<lambda>x y. VReal (fr x y)) else Err msg)"

text \<open>The shape of the six comparisons, which also compare strings byte by byte.\<close>

definition comp2 ::
  "(int \<Rightarrow> int \<Rightarrow> bool) \<Rightarrow> (fl \<Rightarrow> fl \<Rightarrow> bool) \<Rightarrow> (string \<Rightarrow> string \<Rightarrow> bool) \<Rightarrow> string \<Rightarrow>
   val \<Rightarrow> val \<Rightarrow> val res" where
  "comp2 ci cr cs msg lhs rhs =
     (case (lhs, rhs) of
        (VInt a, VInt b) \<Rightarrow> Ok (VBool (ci (sint a) (sint b)))
      | (VReal a, VReal b) \<Rightarrow> Ok (VBool (cr a b))
      | (VStr a, VStr b) \<Rightarrow> Ok (VBool (cs a b))
      | _ \<Rightarrow> if v_Type lhs \<noteq> v_Type rhs \<and> IsNumber lhs \<and> IsNumber rhs
             then reals2 lhs rhs (\<lambda>x y. VBool (cr x y)) else Err msg)"

fun str_less :: "string \<Rightarrow> string \<Rightarrow> bool" where
  "str_less _ [] = False"
| "str_less [] (_ # _) = True"
| "str_less (a # as) (b # bs) =
     ((of_char a :: nat) < of_char b \<or> a = b \<and> str_less as bs)"

definition regexp2 :: "'w oenv \<Rightarrow> string \<Rightarrow> bool \<Rightarrow> val \<Rightarrow> val \<Rightarrow> val res" where
  "regexp2 env op neg lhs rhs =
     (case (lhs, rhs) of
        (VStr s, VRegexp r) \<Rightarrow> Ok (VBool (oe_match env r s \<noteq> neg))
      | _ \<Rightarrow> Err (''regexp operator '' @ op @ '' must be applied on string and regexp''))"

text \<open>\<open>+\<close>: two values of one other type are refused before the string case is tried.\<close>

definition plus2 :: "'w oenv \<Rightarrow> 'w store \<Rightarrow> val \<Rightarrow> val \<Rightarrow> val res" where
  "plus2 env st lhs rhs =
     (let bad = Err ''invalid operator for +'' in
      case (lhs, rhs) of
        (VInt a, VInt b) \<Rightarrow> Ok (VInt (a + b))
      | (VReal a, VReal b) \<Rightarrow> Ok (VReal (a + b))
      | (VStr a, VStr b) \<Rightarrow> Ok (VStr (a @ b))
      | _ \<Rightarrow>
          if v_Type lhs = v_Type rhs then bad
          else if IsNumber lhs \<and> IsNumber rhs then reals2 lhs rhs (\<lambda>x y. VReal (x + y))
          else if v_Type lhs = ValStr \<or> v_Type rhs = ValStr then
            (case v_ToString env st lhs of
               Ok a \<Rightarrow> (case v_ToString env st rhs of
                          Ok b \<Rightarrow> Ok (VStr (a @ b)) | Err _ \<Rightarrow> bad | Panic m \<Rightarrow> Panic m | Diverge \<Rightarrow> Diverge)
             | Err _ \<Rightarrow> bad | Panic m \<Rightarrow> Panic m | Diverge \<Rightarrow> Diverge)
          else bad)"

definition doBin ::
  "'w oenv \<Rightarrow> (fl \<Rightarrow> fl \<Rightarrow> fl) \<Rightarrow> 'w store \<Rightarrow> val \<Rightarrow> val \<Rightarrow> opcode \<Rightarrow> val res" where
  "doBin env pow st lhs rhs op =
     (if op = BcSub then arith2 (\<lambda>a b. Ok (VInt (a - b))) (-) ''invalid operand for -'' lhs rhs
      else if op = BcMul then arith2 (\<lambda>a b. Ok (VInt (a * b))) (*) ''invalid operand for *'' lhs rhs
      else if op = BcPow then
        arith2 (\<lambda>a b. rbind (powI a b) (\<lambda>r. Ok (VInt r))) pow ''invalid operand for *'' lhs rhs
      else if op = BcMod then
        (case (lhs, rhs) of
           (VInt a, VInt b) \<Rightarrow> if b = 0 then Err ''divide zero'' else Ok (VInt (i64_rem a b))
         | _ \<Rightarrow> Err ''invalid operand for *'')
      else if op = BcDiv then
        arith2 (\<lambda>a b. if b = 0 then Err ''divide zero'' else Ok (VInt (i64_quot a b))) fl_div
          ''invalid operand for *'' lhs rhs
      else if op = BcAdd then plus2 env st lhs rhs
      else if op = BcEq then comp2 (=) fl_eq (=) ''invalid operand for =='' lhs rhs
      else if op = BcNe then
        comp2 (\<noteq>) (\<lambda>a b. \<not> fl_eq a b) (\<noteq>) ''invalid operand for !='' lhs rhs
      else if op = BcLt then comp2 (<) (<) str_less ''invalid operand for <'' lhs rhs
      else if op = BcLe then
        comp2 (\<le>) (\<le>) (\<lambda>a b. \<not> str_less b a) ''invalid operand for <='' lhs rhs
      else if op = BcGt then
        comp2 (>) (\<lambda>a b. b < a) (\<lambda>a b. str_less b a) ''invalid operand for >'' lhs rhs
      else if op = BcGe then
        comp2 (\<ge>) (\<lambda>a b. b \<le> a) (\<lambda>a b. \<not> str_less a b) ''invalid operand for >='' lhs rhs
      else if op = BcRegexpMatch then regexp2 env ''~'' False lhs rhs
      else if op = BcRegexpNMatch then regexp2 env ''!~'' True lhs rhs
      else Panic ''unreachable: binary operator'')"

definition doNegate :: "val \<Rightarrow> val res" where
  "doNegate v =
     (case v of
        VInt i \<Rightarrow> Ok (VInt (- i))
      | VReal r \<Rightarrow> Ok (VReal (- r))
      | _ \<Rightarrow> Err ''invalid operand for !'')"

section \<open>Properties\<close>

lemma powI_loop_closed:
  "m \<noteq> 2 ^ 63 - 1 \<Longrightarrow> powI_loop n m i r = Ok (r * n ^ nat (m + 1 - i))"
proof (induction n m i r rule: powI_loop.induct)
  case (1 n m i r)
  show ?case
  proof (cases "i \<le> m")
    case True
    then have "nat (m + 1 - i) = Suc (nat (m + 1 - (i + 1)))" by simp
    with True 1 show ?thesis by (simp add: powI_loop.simps [of n m i r])
  next
    case False
    with 1 show ?thesis by (simp add: powI_loop.simps [of n m i r])
  qed
qed

text \<open>
  The loop with its wrapping counter, a round per unit of fuel: with the largest exponent no
  fuel is enough, otherwise the loop above is what it computes.
\<close>

fun powI_run :: "nat \<Rightarrow> int64 \<Rightarrow> int64 \<Rightarrow> int64 \<Rightarrow> int64 \<Rightarrow> int64 option" where
  "powI_run 0 n m i result = None"
| "powI_run (Suc k) n m i result =
     (if i \<le>s m then powI_run k n m (i + 1) (result * n) else Some result)"

lemma powI_run_max: "sint m = 2 ^ 63 - 1 \<Longrightarrow> powI_run k n m i r = None"
proof (induction k arbitrary: i r)
  case (Suc k)
  then show ?case using sint_i64_range(2) [of i] by (simp add: word_sle_eq)
qed simp

lemma powI_run_loop:
  "sint m \<noteq> 2 ^ 63 - 1 \<Longrightarrow> \<exists>k. \<forall>j\<ge>k. Ok (the (powI_run j n m i r)) = powI_loop n (sint m) (sint i) r \<and>
     powI_run j n m i r \<noteq> None"
proof (induction "nat (sint m + 1 - sint i)" arbitrary: i r rule: less_induct)
  case less
  have lt: "sint m < 2 ^ 63 - 1" using less.prems sint_i64_range(2) [of m] by simp
  show ?case
  proof (cases "sint i \<le> sint m")
    case True
    have w: "i + 1 = word_of_int (sint i + 1)" by simp
    have i: "sint (i + 1) = sint i + 1"
      unfolding w by (rule sint_word_of_int_small) (use True lt sint_i64_range(1) [of i] in simp_all)
    have "nat (sint m + 1 - sint (i + 1)) < nat (sint m + 1 - sint i)" using True i by simp
    from less.hyps [OF this less.prems, of "r * n"] obtain k where
      k: "\<forall>j\<ge>k. Ok (the (powI_run j n m (i + 1) (r * n))) = powI_loop n (sint m) (sint i + 1) (r * n) \<and>
        powI_run j n m (i + 1) (r * n) \<noteq> None"
      using i by auto
    have "Ok (the (powI_run j n m i r)) = powI_loop n (sint m) (sint i) r \<and> powI_run j n m i r \<noteq> None"
      if "Suc k \<le> j" for j
      using k [rule_format, of "j - 1"] that True less.prems
      by (cases j) (auto simp: word_sle_eq powI_loop.simps [of n "sint m" "sint i"])
    then show ?thesis by blast
  next
    case False
    have "Ok (the (powI_run j n m i r)) = powI_loop n (sint m) (sint i) r \<and> powI_run j n m i r \<noteq> None"
      if "Suc 0 \<le> j" for j
      using that False less.prems
      by (cases j) (auto simp: word_sle_eq powI_loop.simps [of n "sint m" "sint i"])
    then show ?thesis by blast
  qed
qed

text \<open>
  C17: the integer power operator. For a non-negative exponent below the largest integer it is
  the power modulo \<open>2 ^ 64\<close>; for a negative exponent it returns the base (not a fraction, not an
  error); for the largest exponent its loop never ends.
\<close>

theorem powI_spec:
  "powI n m = (if sint m = 2 ^ 63 - 1 then Diverge
               else if 0 \<le> sint m then Ok (n ^ nat (sint m)) else Ok n)"
proof (cases "m = 0")
  case True
  then show ?thesis by (simp add: powI_def)
next
  case False
  have "m = word_of_int (sint m)" by simp
  with False have "sint m \<noteq> 0" by (metis word_of_int_0)
  show ?thesis
  proof (cases "sint m = 2 ^ 63 - 1")
    case True
    with False show ?thesis by (simp add: powI_def powI_loop.simps)
  next
    case ne: False
    have p: "powI n m = Ok (n * n ^ nat (sint m + 1 - 2))"
      using False ne by (simp add: powI_def powI_loop_closed)
    show ?thesis
    proof (cases "0 \<le> sint m")
      case True
      with \<open>sint m \<noteq> 0\<close> have "nat (sint m) = Suc (nat (sint m + 1 - 2))" by simp
      with True ne p show ?thesis by simp
    next
      case neg: False
      then show ?thesis using ne p by simp
    qed
  qed
qed

text \<open>The quotient fits its width but for one pair of operands.\<close>

lemma quot_fits:
  assumes "sint b \<noteq> 0" "\<not> (sint a = - (2 ^ 63) \<and> sint b = - 1)"
  shows "sint (i64_quot a b) = sint a sdiv sint b"
proof -
  have a: "- (2 ^ 63) \<le> sint a" "sint a < 2 ^ 63" using sint_i64_range [of a] by auto
  have "- (2 ^ 63) \<le> sint a sdiv sint b \<and> sint a sdiv sint b < 2 ^ 63"
  proof (cases "\<bar>sint b\<bar> = 1")
    case True
    then show ?thesis using a assms(2) by (auto simp: abs_if split: if_splits)
  next
    case False
    then have "\<bar>sint a\<bar> div \<bar>sint b\<bar> \<le> \<bar>sint a\<bar> div 2"
      using assms(1) by (intro zdiv_mono2) auto
    moreover have "\<bar>sint a\<bar> div 2 < 2 ^ 63" using a by linarith
    moreover have "0 \<le> \<bar>sint a\<bar> div \<bar>sint b\<bar>" using assms(1) by (simp add: pos_imp_zdiv_nonneg_iff)
    moreover have "\<bar>sint a sdiv sint b\<bar> \<le> \<bar>sint a\<bar> div \<bar>sint b\<bar>"
      using calculation(3) by (simp add: signed_divide_int_def abs_mult sgn_if)
    ultimately show ?thesis by linarith
  qed
  then show ?thesis unfolding i64_quot_def by (intro sint_word_of_int_small) auto
qed

text \<open>
  C18: \<open>/\<close> and \<open>%\<close> on integers. A zero divisor is an error; otherwise the results are the quotient
  truncated towards zero and its remainder, which the division law in the integers determines: the
  remainder is smaller than the divisor and takes the sign of the dividend. Both fit 64 bits, except
  the quotient of the most negative value by \<open>-1\<close>, which wraps to the dividend.
\<close>

theorem doBin_div_mod:
  "if b = 0
   then doBin env pow st (VInt a) (VInt b) BcDiv = Err ''divide zero'' \<and>
        doBin env pow st (VInt a) (VInt b) BcMod = Err ''divide zero''
   else \<exists>q r. doBin env pow st (VInt a) (VInt b) BcDiv = Ok (VInt q) \<and>
        doBin env pow st (VInt a) (VInt b) BcMod = Ok (VInt r) \<and>
        \<bar>sint r\<bar> < \<bar>sint b\<bar> \<and> (0 \<le> sint a \<longrightarrow> 0 \<le> sint r) \<and> (sint a \<le> 0 \<longrightarrow> sint r \<le> 0) \<and>
        (if sint a = - (2 ^ 63) \<and> sint b = - 1 then q = a \<and> r = 0
         else sint q * sint b + sint r = sint a)"
proof (cases "b = 0")
  case True
  then show ?thesis by (simp add: doBin_def arith2_def)
next
  case False
  have "b = word_of_int (sint b)" by simp
  with False have b: "sint b \<noteq> 0" by (metis word_of_int_0)
  let ?m = "sint a smod sint b"
  have lt: "\<bar>?m\<bar> < \<bar>sint b\<bar>"
    using b by (simp add: signed_modulo_int_def abs_mult abs_mod_less)
  have "\<bar>sint b\<bar> \<le> 2 ^ 63" using sint_i64_range [of b] by auto
  with lt have r: "sint (i64_rem a b) = ?m"
    unfolding i64_rem_def by (intro sint_word_of_int_small) auto
  have law: "if sint a = - (2 ^ 63) \<and> sint b = - 1 then i64_quot a b = a \<and> i64_rem a b = 0
     else sint (i64_quot a b) * sint b + sint (i64_rem a b) = sint a"
  proof (cases "sint a = - (2 ^ 63) \<and> sint b = - 1")
    case True
    have "a = word_of_int (sint a)" by simp
    with True have "a = word_of_int (- (2 ^ 63))" by (simp only:)
    then show ?thesis using True by (simp add: i64_quot_def i64_rem_def signed_modulo_int_def word_of_int_eq_iff take_bit_eq_mod)
  next
    case False
    then show ?thesis
      unfolding if_not_P [OF False] quot_fits [OF b False] r by (intro sdiv_mult_smod_eq)
  qed
  have "(0 \<le> sint a \<longrightarrow> 0 \<le> ?m) \<and> (sint a \<le> 0 \<longrightarrow> ?m \<le> 0)"
    using b by (auto simp: signed_modulo_int_def sgn_if)
  with False b lt r law show ?thesis by (simp add: doBin_def arith2_def)
qed

theorem doBin_div_mod_witness:
  "\<exists>q r. doBin (plain_env []) (+) (st_init ()) (VInt (- 7)) (VInt 2) BcDiv = Ok (VInt q) \<and>
     doBin (plain_env []) (+) (st_init ()) (VInt (- 7)) (VInt 2) BcMod = Ok (VInt r) \<and> sint q = - 3 \<and> sint r = - 1"
proof -
  have s: "sint (- 7 :: int64) = - 7" "sint (2 :: int64) = 2" by simp_all
  obtain q r where q: "doBin (plain_env []) (+) (st_init ()) (VInt (- 7)) (VInt 2) BcDiv = Ok (VInt q)"
    "doBin (plain_env []) (+) (st_init ()) (VInt (- 7)) (VInt 2) BcMod = Ok (VInt r)"
    and "\<bar>sint r\<bar> < 2" "sint r \<le> 0" "sint q * 2 + sint r = - 7"
    using doBin_div_mod [of 2 "plain_env []" "(+)" "st_init ()" "- 7"] unfolding s by auto
  then have "sint q = - 3 \<and> sint r = - 1" by presburger
  then show ?thesis using q by blast
qed

end
