(* ===== verification/Module.thy ===== *)
theory Module
  imports Arith
begin

text \<open>
  \<open>pl/module.go\<close>: a compiled module (its rules, functions and scope programs), the lookups by
  name, the event table, and the module's global variables, which only ever hold values that
  are safe to share between sessions. Programs are the numbers \<open>oe_progs\<close> resolves. The locks
  around the globals are not modelled: one evaluator runs at a time here.
\<close>

record symbolInfo =
  si_globalName :: "string list"
  si_sessionName :: "string list"

record module =
  md_globalProgram :: "nat list"
  md_session :: "nat list"
  md_config :: "nat option"
  md_eventMap :: "(string \<times> nat) list"
  md_p :: "nat list"
  md_fn :: "nat list"
  md_sinfo :: symbolInfo

definition newModule :: module where
  "newModule = \<lparr>md_globalProgram = [], md_session = [], md_config = None, md_eventMap = [],
     md_p = [], md_fn = [], md_sinfo = \<lparr>si_globalName = [], si_sessionName = []\<rparr>\<rparr>"

definition addSessionProgram :: "module \<Rightarrow> nat \<Rightarrow> string list \<Rightarrow> module" where
  "addSessionProgram m p names =
     m\<lparr>md_session := md_session m @ [p],
       md_sinfo := (md_sinfo m)\<lparr>si_sessionName := si_sessionName (md_sinfo m) @ names\<rparr>\<rparr>"

definition addGlobalProgram :: "module \<Rightarrow> nat \<Rightarrow> string list \<Rightarrow> module" where
  "addGlobalProgram m p names =
     m\<lparr>md_globalProgram := md_globalProgram m @ [p],
       md_sinfo := (md_sinfo m)\<lparr>si_globalName := si_globalName (md_sinfo m) @ names\<rparr>\<rparr>"

section \<open>Lookup by name\<close>

definition nextAnonymousFuncName :: "module \<Rightarrow> string" where
  "nextAnonymousFuncName m = ''[anonymous_function_'' @ int_dec (int (length (md_fn m))) @ '']''"

definition is_anonymous :: "(nat \<Rightarrow> program) \<Rightarrow> nat \<Rightarrow> bool" where
  "is_anonymous ps p = (take 20 (pr_name (ps p)) = ''[anonymous_function_'')"

definition allAnonymousFunction :: "(nat \<Rightarrow> program) \<Rightarrow> module \<Rightarrow> nat list" where
  "allAnonymousFunction ps m = filter (is_anonymous ps) (md_fn m)"

definition GetAnonymousFunctionSize :: "(nat \<Rightarrow> program) \<Rightarrow> module \<Rightarrow> nat" where
  "GetAnonymousFunctionSize ps m = fold (\<lambda>p cnt. if is_anonymous ps p then cnt + 1 else cnt) (md_fn m) 0"

fun getfromlist :: "(nat \<Rightarrow> program) \<Rightarrow> string \<Rightarrow> nat list \<Rightarrow> nat \<Rightarrow> (nat \<times> nat) option" where
  "getfromlist ps name [] i = None"
| "getfromlist ps name (p # l) i =
     (if pr_name (ps p) = name then Some (p, i) else getfromlist ps name l (Suc i))"

definition getProgram :: "(nat \<Rightarrow> program) \<Rightarrow> module \<Rightarrow> string \<Rightarrow> nat option" where
  "getProgram ps m name = map_option fst (getfromlist ps name (md_p m) 0)"

definition getFn :: "(nat \<Rightarrow> program) \<Rightarrow> module \<Rightarrow> string \<Rightarrow> nat option" where
  "getFn ps m name = map_option fst (getfromlist ps name (md_fn m) 0)"

text \<open>\<open>getFunction\<close> and \<open>getIterator\<close> read the type of the program they may not have found.\<close>

definition getFunction :: "(nat \<Rightarrow> program) \<Rightarrow> module \<Rightarrow> string \<Rightarrow> nat option res" where
  "getFunction ps m name =
     (case getfromlist ps name (md_fn m) 0 of
        None \<Rightarrow> Panic ''nil pointer''
      | Some (p, _) \<Rightarrow> Ok (if progtype (ps p) = ProgFunc then Some p else None))"

definition getIterator :: "(nat \<Rightarrow> program) \<Rightarrow> module \<Rightarrow> string \<Rightarrow> nat option res" where
  "getIterator ps m name =
     (case getfromlist ps name (md_fn m) 0 of
        None \<Rightarrow> Panic ''nil pointer''
      | Some (p, _) \<Rightarrow> Ok (if progtype (ps p) = ProgIter then Some p else None))"

definition getFunctionIndex :: "(nat \<Rightarrow> program) \<Rightarrow> module \<Rightarrow> string \<Rightarrow> int" where
  "getFunctionIndex ps m name =
     (case getfromlist ps name (md_fn m) 0 of
        Some (p, i) \<Rightarrow> if progtype (ps p) = ProgFunc then int i else - 1
      | None \<Rightarrow> - 1)"

definition getIteratorIndex :: "(nat \<Rightarrow> program) \<Rightarrow> module \<Rightarrow> string \<Rightarrow> int" where
  "getIteratorIndex ps m name =
     (case getfromlist ps name (md_fn m) 0 of
        Some (p, i) \<Rightarrow> if progtype (ps p) = ProgIter then int i else - 1
      | None \<Rightarrow> - 1)"

definition getFnIndex :: "(nat \<Rightarrow> program) \<Rightarrow> module \<Rightarrow> string \<Rightarrow> int" where
  "getFnIndex ps m name =
     (case getfromlist ps name (md_fn m) 0 of Some (p, i) \<Rightarrow> int i | None \<Rightarrow> - 1)"

definition GetFunction :: "(nat \<Rightarrow> program) \<Rightarrow> module \<Rightarrow> string \<Rightarrow> 'w store \<Rightarrow> val res \<times> 'w store" where
  "GetFunction ps m name st =
     rlift (getFunction ps m name) st (\<lambda>p st.
       case p of
         None \<Rightarrow> (Ok VNull, st)
       | Some p \<Rightarrow> (let (v, st) = new_closure (CScript p []) st in (Ok v, st)))"

section \<open>Scopes and events\<close>

definition HasSession :: "module \<Rightarrow> bool" where
  "HasSession m = (length (md_session m) \<noteq> 0)"

definition HasConfig :: "module \<Rightarrow> bool" where
  "HasConfig m = (md_config m \<noteq> None)"

definition HasGlobal :: "module \<Rightarrow> bool" where
  "HasGlobal m = (length (md_globalProgram m) \<noteq> 0)"

definition HaveEvent :: "module \<Rightarrow> string \<Rightarrow> bool" where
  "HaveEvent m name = (map_of (md_eventMap m) name \<noteq> None)"

definition addEvent :: "module \<Rightarrow> string \<Rightarrow> nat \<Rightarrow> module \<times> bool" where
  "addEvent m name p =
     (if HaveEvent m name then (m, False)
      else (m\<lparr>md_eventMap := AList.update name p (md_eventMap m)\<rparr>, True))"

definition HasEvent :: "module \<Rightarrow> string \<Rightarrow> bool" where
  "HasEvent m name = (map_of (md_eventMap m) name \<noteq> None)"

definition findEvent :: "module \<Rightarrow> string \<Rightarrow> nat option" where
  "findEvent m name = map_of (md_eventMap m) name"

section \<open>Listing\<close>

fun dump_code :: "program \<Rightarrow> bytecode list \<Rightarrow> nat \<Rightarrow> string res" where
  "dump_code p [] i = Ok ''''"
| "dump_code p (x # xs) i =
     rbind (bc_dump p x) (\<lambda>t.
     rbind (dump_code p xs (Suc i)) (\<lambda>rest.
       Ok (int_dec (int i) @ ''> '' @ t @ [CHR 0x0A] @ rest)))"

definition program_dump :: "program \<Rightarrow> string res" where
  "program_dump p =
     rbind (dump_code p (bcList p) 0) (\<lambda>t. Ok ('':program ('' @ pr_name p @ '')'' @ [CHR 0x0A] @ t))"

fun dump_programs :: "(nat \<Rightarrow> program) \<Rightarrow> nat list \<Rightarrow> string res" where
  "dump_programs ps [] = Ok ''''"
| "dump_programs ps (p # l) =
     rbind (program_dump (ps p)) (\<lambda>t.
     rbind (dump_programs ps l) (\<lambda>rest. Ok (t @ [CHR 0x0A] @ rest)))"

definition module_Dump :: "(nat \<Rightarrow> program) \<Rightarrow> module \<Rightarrow> string res" where
  "module_Dump ps m =
     rbind (dump_programs ps (md_fn m)) (\<lambda>f.
     rbind (dump_programs ps (md_p m)) (\<lambda>r.
       Ok (''function> '' @ replicate 32 (CHR ''-'') @ '' '' @ [CHR 0x0A] @ f @
           ''rules>    '' @ replicate 32 (CHR ''-'') @ '' '' @ [CHR 0x0A] @ r)))"

section \<open>Global variables\<close>

definition global_size :: "val list \<Rightarrow> nat" where
  "global_size g = length g"

definition global_set :: "'w oenv \<Rightarrow> 'w store \<Rightarrow> val list \<Rightarrow> nat \<Rightarrow> val \<Rightarrow> (bool \<times> val list) res" where
  "global_set env st g i v =
     rbind (v_IsThreadSafe env st v) (\<lambda>b.
       if \<not> b then Ok (False, g)
       else if length g \<le> i then Ok (False, g)
       else Ok (True, g[i := v]))"

definition global_get :: "val list \<Rightarrow> nat \<Rightarrow> val option" where
  "global_get g i = (if length g \<le> i then None else Some (g ! i))"

definition global_add :: "'w oenv \<Rightarrow> 'w store \<Rightarrow> val list \<Rightarrow> val \<Rightarrow> (bool \<times> val list) res" where
  "global_add env st g v =
     rbind (v_IsThreadSafe env st v) (\<lambda>b. if \<not> b then Ok (False, g) else Ok (True, g @ [v]))"

section \<open>Facts\<close>

lemma getfromlist_Some:
  "getfromlist ps name l i = Some (p, k) \<Longrightarrow>
   i \<le> k \<and> k - i < length l \<and> p = l ! (k - i) \<and> pr_name (ps p) = name \<and>
   (\<forall>j<k - i. pr_name (ps (l ! j)) \<noteq> name)"
proof (induction l arbitrary: i)
  case Nil
  then show ?case by simp
next
  case (Cons q l)
  show ?case
  proof (cases "pr_name (ps q) = name")
    case True
    with Cons.prems show ?thesis by auto
  next
    case False
    with Cons have IH: "Suc i \<le> k \<and> k - Suc i < length l \<and> p = l ! (k - Suc i) \<and> pr_name (ps p) = name \<and>
        (\<forall>j<k - Suc i. pr_name (ps (l ! j)) \<noteq> name)" by simp
    then have "k - i = Suc (k - Suc i)" by linarith
    with IH False show ?thesis by (auto simp: nth_Cons' less_Suc_eq_0_disj)
  qed
qed

lemma getfromlist_None: "getfromlist ps name l i = None \<longleftrightarrow> (\<forall>p\<in>set l. pr_name (ps p) \<noteq> name)"
  by (induction l arbitrary: i) auto

lemma findEvent_addEvent:
  "addEvent m name p = (m', True) \<Longrightarrow> findEvent m' = (findEvent m)(name \<mapsto> p)"
  "addEvent m name p = (m', False) \<Longrightarrow> m' = m \<and> findEvent m name \<noteq> None"
  by (auto simp: addEvent_def findEvent_def HaveEvent_def update_conv' fun_eq_iff split: if_splits)

text \<open>The values a global may hold: those no two sessions can race on.\<close>

definition shareable :: "'w oenv \<Rightarrow> 'w store \<Rightarrow> val \<Rightarrow> bool" where
  "shareable env st v \<longleftrightarrow> v_IsThreadSafe env st v = Ok True"

lemma global_add_shareable:
  "list_all (shareable env st) g \<Longrightarrow> global_add env st g v = Ok (b, g') \<Longrightarrow> list_all (shareable env st) g'"
  by (cases "v_IsThreadSafe env st v") (auto simp: global_add_def shareable_def split: if_splits)

lemma global_set_shareable:
  "list_all (shareable env st) g \<Longrightarrow> global_set env st g i v = Ok (b, g') \<Longrightarrow> list_all (shareable env st) g'"
  by (cases "v_IsThreadSafe env st v")
    (auto simp: global_set_def shareable_def list_all_iff dest: set_update_subset_insert [THEN subsetD]
      split: if_splits)


text \<open>
  looking a function up by name in a module finds the first program of that name in the order
  of definition. It is returned as a closure without captured values when it is a function, as
  null when it is an iterator; and when no program has the name, the lookup does not return null
  but panics.
\<close>

theorem GetFunction_spec:
  "GetFunction ps m name st =
    (case filter (\<lambda>p. pr_name (ps p) = name) (md_fn m) of
       [] \<Rightarrow> (Panic ''nil pointer'', st)
     | p # _ \<Rightarrow>
         if progtype (ps p) = ProgFunc
         then (Ok (VClosure (length (st_clos st))), st\<lparr>st_clos := st_clos st @ [CScript p []]\<rparr>)
         else (Ok VNull, st))"
proof -
  have "(case filter (\<lambda>p. pr_name (ps p) = name) l of [] \<Rightarrow> None | p # _ \<Rightarrow> Some p) =
      map_option fst (getfromlist ps name l i)" for l i
    by (induction l arbitrary: i) auto
  from this [of "md_fn m" 0] show ?thesis
    by (cases "getfromlist ps name (md_fn m) 0")
      (auto simp: GetFunction_def getFunction_def new_closure_def split: list.splits)
qed

text \<open>
  the first rule registered for an event wins. Adding a rule for an event answers whether the
  event was free; if it was, exactly this event is now found, with the rule, and if it was not,
  nothing changes.
\<close>

theorem addEvent_spec:
  assumes "addEvent m name p = (m', ok)"
  shows "ok = (findEvent m name = None) \<and>
    findEvent m' = (if ok then (findEvent m)(name \<mapsto> p) else findEvent m) \<and> HasEvent m' name"
  using assms
  by (auto simp: addEvent_def findEvent_def HaveEvent_def HasEvent_def update_conv' fun_eq_iff split: if_splits)

theorem addEvent_spec_witness:
  "findEvent (fst (addEvent (fst (addEvent newModule ''e'' 1)) ''e'' 2)) ''e'' = Some 1"
  using addEvent_spec [of newModule "''e''" 1 "fst (addEvent newModule ''e'' 1)" True]
    addEvent_spec [of "fst (addEvent newModule ''e'' 1)" "''e''" 2 "fst (addEvent (fst (addEvent newModule ''e'' 1)) ''e'' 2)" False]
  by (simp add: addEvent_def newModule_def HaveEvent_def findEvent_def)

end
