(* ===== verification/EventQueue.thy ===== *)
theory EventQueue
  imports Module
begin

text \<open>
  The event queue of \<open>pl/event_queue.go\<close>: the interface \<open>EventQueue\<close> as a locale (without
  \<open>Drain\<close>, which runs scripts and is in the theory of the entry points), and its default
  implementation, a slice that \<open>OnEvent\<close> appends to and \<open>Drain\<close> takes from at the end.
\<close>

record eventEntry =
  ev_name :: string
  ev_context :: val

definition defq_OnEvent :: "string \<Rightarrow> val \<Rightarrow> eventEntry list \<Rightarrow> eventEntry list" where
  "defq_OnEvent n v q = q @ [\<lparr>ev_name = n, ev_context = v\<rparr>]"

definition defq_PendingSize :: "eventEntry list \<Rightarrow> nat" where
  "defq_PendingSize q = length q"

definition defq_Clear :: "eventEntry list \<Rightarrow> nat \<times> eventEntry list" where
  "defq_Clear q = (let x = length q in (x, []))"

text \<open>One round of \<open>Drain\<close>: the entry it takes, and what it leaves.\<close>

definition defq_take :: "eventEntry list \<Rightarrow> (eventEntry \<times> eventEntry list) option" where
  "defq_take q = (let sz = length q in if sz \<noteq> 0 then Some (q ! (sz - 1), take (sz - 1) q) else None)"

text \<open>What an evaluator may expect of its event queue.\<close>

locale event_queue =
  fixes OnEvent :: "string \<Rightarrow> val \<Rightarrow> 'q \<Rightarrow> 'q"
    and PendingSize :: "'q \<Rightarrow> nat"
    and Clear :: "'q \<Rightarrow> nat \<times> 'q"
    and take_event :: "'q \<Rightarrow> (eventEntry \<times> 'q) option"
  assumes size_OnEvent: "PendingSize (OnEvent n v q) = Suc (PendingSize q)"
    and Clear_count: "fst (Clear q) = PendingSize q"
    and Clear_empty: "PendingSize (snd (Clear q)) = 0"
    and take_None: "take_event q = None \<longleftrightarrow> PendingSize q = 0"
    and take_OnEvent: "take_event (OnEvent n v q) = Some (\<lparr>ev_name = n, ev_context = v\<rparr>, q)"
    and take_size: "take_event q = Some (x, q') \<Longrightarrow> PendingSize q = Suc (PendingSize q')"
begin

text \<open>A run of emitted events.\<close>

definition emit_all :: "eventEntry list \<Rightarrow> 'q \<Rightarrow> 'q" where
  "emit_all es q = fold (\<lambda>x. OnEvent (ev_name x) (ev_context x)) es q"

lemma emit_all_size: "PendingSize (emit_all es q) = PendingSize q + length es"
  by (induction es arbitrary: q) (simp_all add: emit_all_def size_OnEvent)

text \<open>Taking \<open>n\<close> entries.\<close>

fun take_all :: "nat \<Rightarrow> 'q \<Rightarrow> eventEntry list \<times> 'q" where
  "take_all 0 q = ([], q)"
| "take_all (Suc n) q =
     (case take_event q of
        None \<Rightarrow> ([], q)
      | Some (x, q') \<Rightarrow> (case take_all n q' of (xs, q'') \<Rightarrow> (x # xs, q'')))"

lemma emit_all_snoc: "emit_all (es @ [x]) q = OnEvent (ev_name x) (ev_context x) (emit_all es q)"
  by (simp add: emit_all_def)

text \<open>Events come out in the reverse order of their emission.\<close>

lemma take_all_emit_all: "take_all (length es) (emit_all es q) = (rev es, q)"
proof (induction es rule: rev_induct)
  case Nil
  then show ?case by (simp add: emit_all_def)
next
  case (snoc x es)
  then show ?case by (simp add: emit_all_snoc take_OnEvent)
qed

end

interpretation defq: event_queue defq_OnEvent defq_PendingSize defq_Clear defq_take
  by unfold_locales
    (auto simp: defq_OnEvent_def defq_PendingSize_def defq_Clear_def defq_take_def Let_def split: if_splits)

lemma defq_emit_all: "defq.emit_all es q = q @ es"
  by (induction es arbitrary: q) (simp_all add: defq.emit_all_def defq_OnEvent_def)

end
