(* ===== verification/VMState.thy ===== *)
theory VMState
  imports EventQueue
begin

text \<open>
  The state of the evaluator (\<open>pl/eval.go\<close>, \<open>Evaluator\<close>), its operand stack, the frames kept on
  that stack, entering and leaving a function, exception handlers and the stack unwinding, and
  the text of an error with its backtrace. Index 0 of the stack list is the bottom.

  A frame on the stack is a value (the code keeps a pointer to it; no two stack slots share
  one, so a copy behaves the same).
\<close>

section \<open>State and environment\<close>

record 'w vm =
  vm_Stack :: "val list"
  vm_Session :: "val list"
  vm_cf :: funcframe
  vm_excep :: val
  vm_eventQ :: "eventEntry list"
  vm_inQ :: bool
  vm_globals :: "nat \<Rightarrow> val list"
  vm_st :: "'w store"

text \<open>\<open>EvalConfig\<close>, when one is set.\<close>

record 'w config =
  cfg_Push :: "string \<Rightarrow> val \<Rightarrow> 'w vm \<Rightarrow> unit res \<times> 'w vm"
  cfg_Pop :: "'w vm \<Rightarrow> unit res \<times> 'w vm"
  cfg_Property :: "string \<Rightarrow> val \<Rightarrow> val \<Rightarrow> 'w vm \<Rightarrow> unit res \<times> 'w vm"
  cfg_Command :: "string \<Rightarrow> val list \<Rightarrow> val \<Rightarrow> 'w vm \<Rightarrow> unit res \<times> 'w vm"

text \<open>
  A Go function the script can call. Its first argument calls a closure: that is how it may
  come back into the evaluator.
\<close>

type_synonym 'w caller = "nat \<Rightarrow> val list \<Rightarrow> 'w vm \<Rightarrow> val res \<times> 'w vm"
type_synonym 'w entry = "'w caller \<Rightarrow> val list \<Rightarrow> 'w vm \<Rightarrow> val res \<times> 'w vm"

record 'w intrinsic =
  ii_cname :: string
  ii_entry :: "'w entry"

text \<open>
  What the embedder installs: the modules, the intrinsic functions in their order of
  registration, native functions, the evaluation context, the optional configuration sink, the
  handler of event errors (its answer: 0 go on, 1 pause, 2 stop and clear), templates, and
  \<open>math.Pow\<close>.
\<close>

record 'w venv = "'w oenv" +
  ve_mods :: "nat \<Rightarrow> module"
  ve_intrinsics :: "'w intrinsic list"
  ve_native :: "nat \<Rightarrow> 'w entry"
  ve_LoadVar :: "string \<Rightarrow> 'w vm \<Rightarrow> val res \<times> 'w vm"
  ve_StoreVar :: "string \<Rightarrow> val \<Rightarrow> 'w vm \<Rightarrow> unit res \<times> 'w vm"
  ve_Action :: "string \<Rightarrow> val \<Rightarrow> 'w vm \<Rightarrow> unit res \<times> 'w vm"
  ve_Config :: "'w config option"
  ve_Event :: "(string \<Rightarrow> string option \<Rightarrow> 'w vm \<Rightarrow> int \<times> 'w vm) option"
  ve_template :: "nat \<Rightarrow> val \<Rightarrow> 'w store \<Rightarrow> string res"
  ve_pow :: "fl \<Rightarrow> fl \<Rightarrow> fl"

abbreviation (input) oenv_of :: "('w, 'x) oenv_scheme \<Rightarrow> 'w oenv" where
  "oenv_of env \<equiv> oenv.truncate env"

definition topFrame :: funcframe where
  "topFrame = \<lparr>ff_ftype = FtTop, ff_farg = 0, ff_pc = 0, ff_framep = 0, ff_prog = None,
     ff_excep = [], ff_closure = None\<rparr>"

definition NewEvaluator :: "(nat \<Rightarrow> val list) \<Rightarrow> 'w store \<Rightarrow> 'w vm" where
  "NewEvaluator g st = \<lparr>vm_Stack = [], vm_Session = [], vm_cf = topFrame, vm_excep = VNull,
     vm_eventQ = [], vm_inQ = False, vm_globals = g, vm_st = st\<rparr>"

text \<open>An operation on the store.\<close>

definition onst :: "('w store \<Rightarrow> 'a res \<times> 'w store) \<Rightarrow> 'w vm \<Rightarrow> 'a res \<times> 'w vm" where
  "onst f s = (let (r, st) = f (vm_st s) in (r, s\<lparr>vm_st := st\<rparr>))"

section \<open>The operand stack\<close>

definition stack_get :: "nat \<Rightarrow> 'w vm \<Rightarrow> val res" where
  "stack_get i s = (if i < length (vm_Stack s) then Ok (vm_Stack s ! i) else Panic ''index out of range'')"

definition push :: "val \<Rightarrow> 'w vm \<Rightarrow> 'w vm" where
  "push v s = s\<lparr>vm_Stack := vm_Stack s @ [v]\<rparr>"

definition popN :: "nat \<Rightarrow> 'w vm \<Rightarrow> unit res \<times> 'w vm" where
  "popN cnt s =
     (if cnt \<le> length (vm_Stack s)
      then (Ok (), s\<lparr>vm_Stack := take (length (vm_Stack s) - cnt) (vm_Stack s)\<rparr>)
      else (Panic ''must: invalid pop size'', s))"

definition popTo :: "nat \<Rightarrow> 'w vm \<Rightarrow> unit res \<times> 'w vm" where
  "popTo n s =
     (if n \<le> length (vm_Stack s) then (Ok (), s\<lparr>vm_Stack := take n (vm_Stack s)\<rparr>)
      else (Panic ''must: invalid popTo size'', s))"

definition clearStack :: "'w vm \<Rightarrow> 'w vm" where
  "clearStack s = s\<lparr>vm_Stack := []\<rparr>"

definition topN :: "nat \<Rightarrow> 'w vm \<Rightarrow> val res" where
  "topN i s =
     (if Suc i \<le> length (vm_Stack s) then Ok (vm_Stack s ! (length (vm_Stack s) - i - 1))
      else Panic ''must: invalid topN index'')"

text \<open>The last \<open>n\<close> values, \<open>e.Stack[len(e.Stack)-n:]\<close>.\<close>

definition last_n :: "nat \<Rightarrow> 'w vm \<Rightarrow> val list res" where
  "last_n n s =
     (if n \<le> length (vm_Stack s) then Ok (drop (length (vm_Stack s) - n) (vm_Stack s))
      else Panic ''slice bounds out of range'')"

text \<open>\<open>top0\<close> followed by \<open>pop\<close>.\<close>

definition popv :: "'w vm \<Rightarrow> val res \<times> 'w vm" where
  "popv s = rlift (topN 0 s) s (\<lambda>v s. mbind (popN 1 s) (\<lambda>_ s. (Ok v, s)))"

section \<open>Frames\<close>

definition isTop :: "funcframe \<Rightarrow> bool" where
  "isTop f = (ff_ftype f = FtTop)"

definition isScript :: "funcframe \<Rightarrow> bool" where
  "isScript f = (ff_prog f \<noteq> None \<and> ff_ftype f \<noteq> FtSIter)"

text \<open>\<open>sfunc\<close>: the closure of the frame when it is a script function, with its number.\<close>

definition frame_sfunc :: "'w store \<Rightarrow> funcframe \<Rightarrow> (nat \<times> nat \<times> val list) option" where
  "frame_sfunc st f =
     (case ff_closure f of
        None \<Rightarrow> None
      | Some c \<Rightarrow> (case deref (st_clos st) c of Ok (CScript p up) \<Rightarrow> Some (c, p, up) | _ \<Rightarrow> None))"

definition localslot :: "'w vm \<Rightarrow> nat \<Rightarrow> nat" where
  "localslot s arg = ff_framep (vm_cf s) + 1 + arg"

definition prevframepos :: "'w vm \<Rightarrow> nat" where
  "prevframepos s = ff_framep (vm_cf s) + ff_farg (vm_cf s) + 1"

definition prevfuncframe :: "'w vm \<Rightarrow> funcframe res" where
  "prevfuncframe s = rbind (stack_get (prevframepos s) s) v_frame"

definition popfuncframe :: "funcframe \<Rightarrow> 'w vm \<Rightarrow> (int \<times> nat option) res \<times> 'w vm" where
  "popfuncframe prev s =
     mbind (popTo (ff_framep (vm_cf s)) s) (\<lambda>_ s.
       (Ok (ff_pc prev - 1, ff_prog prev), s\<lparr>vm_cf := prev\<rparr>))"

text \<open>
  The caller's frame, with the pc to return to, goes onto the stack above the arguments; the
  new frame's base is the slot of the callee below them.
\<close>

definition prologue :: "ftype \<Rightarrow> nat \<Rightarrow> nat option \<Rightarrow> nat option \<Rightarrow> 'w vm \<Rightarrow> 'w vm" where
  "prologue ft alen prog clos s =
     (let s1 = push (VFrame ((vm_cf s)\<lparr>ff_pc := ff_pc (vm_cf s) + 1\<rparr>)) s in
      s1\<lparr>vm_cf := \<lparr>ff_ftype = ft, ff_farg = alen, ff_pc = 0,
                   ff_framep = length (vm_Stack s1) - 2 - alen, ff_prog = prog, ff_excep = [],
                   ff_closure = clos\<rparr>\<rparr>)"

definition epilogue :: "val \<Rightarrow> bool \<Rightarrow> 'w vm \<Rightarrow> (int \<times> nat option) res \<times> 'w vm" where
  "epilogue v isMethod s =
     rlift (prevfuncframe s) s (\<lambda>prev s.
     mbind (popfuncframe prev s) (\<lambda>r s.
     mbind (if isMethod then popN 1 s else (Ok (), s)) (\<lambda>_ s. (Ok r, push v s))))"

definition pushes :: "val list \<Rightarrow> 'w vm \<Rightarrow> 'w vm" where
  "pushes vs s = s\<lparr>vm_Stack := vm_Stack s @ vs\<rparr>"

definition closurePrologue :: "'w venv \<Rightarrow> nat \<Rightarrow> val list \<Rightarrow> 'w vm \<Rightarrow> unit res \<times> 'w vm" where
  "closurePrologue env c args s =
     rlift (deref (st_clos (vm_st s)) c) s (\<lambda>x s.
       let (ft, prog) = (case x of CScript p _ \<Rightarrow> (FtSFunc, Some p) | CNative _ _ \<Rightarrow> (FtNFunc, None)
                                | CMethod _ _ \<Rightarrow> (FtMethod, None))
       in (Ok (), prologue ft (length args) prog (Some c) (pushes args (push (VClosure c) s))))"

definition iterPrologue :: "nat \<Rightarrow> nat \<Rightarrow> val list \<Rightarrow> 'w vm \<Rightarrow> 'w vm" where
  "iterPrologue i prog args s =
     prologue FtSIter (length args) (Some prog) None (pushes args (push (VIter i) s))"

section \<open>Exception handlers and unwinding\<close>

definition hasExcepHandler :: "'w vm \<Rightarrow> bool" where
  "hasExcepHandler s = (length (ff_excep (vm_cf s)) = 0)"

definition curExcep :: "'w vm \<Rightarrow> exception option" where
  "curExcep s = (if ff_excep (vm_cf s) = [] then None else Some (last (ff_excep (vm_cf s))))"

definition pushExcep :: "nat \<Rightarrow> nat \<Rightarrow> 'w vm \<Rightarrow> 'w vm" where
  "pushExcep pc sz s =
     s\<lparr>vm_cf := (vm_cf s)\<lparr>ff_excep := ff_excep (vm_cf s) @ [\<lparr>handlerPc = pc, ex_stackSize = sz\<rparr>]\<rparr>\<rparr>"

definition popExcep :: "'w vm \<Rightarrow> unit res \<times> 'w vm" where
  "popExcep s =
     (if ff_excep (vm_cf s) = [] then (Panic ''slice bounds out of range'', s)
      else (Ok (), s\<lparr>vm_cf := (vm_cf s)\<lparr>ff_excep := butlast (ff_excep (vm_cf s))\<rparr>\<rparr>))"

text \<open>How a run of the interpreter ends; the error carries the program (nil in native code).\<close>

datatype rr = RDone int | RYield int | RErr "nat option" int string

definition rr_pc :: "rr \<Rightarrow> int" where
  "rr_pc r = (case r of RDone p \<Rightarrow> p | RYield p \<Rightarrow> p | RErr _ p _ \<Rightarrow> p)"

definition rr_prog :: "rr \<Rightarrow> nat option" where
  "rr_prog r = (case r of RErr p _ _ \<Rightarrow> p | _ \<Rightarrow> None)"

definition rr_e :: "rr \<Rightarrow> string option" where
  "rr_e r = (case r of RErr _ _ e \<Rightarrow> Some e | _ \<Rightarrow> None)"

text \<open>
  \<open>unwindForExcep\<close>: frame by frame until one of them has a handler and may use it, the
  \<open>breaker\<close> stops, or the top frame is reached. \<open>bt\<close> collects the frames for the backtrace.
  Every round but the last shortens the stack.
\<close>

function unwind ::
  "('w vm \<Rightarrow> bool) \<Rightarrow> string option \<Rightarrow> funcframe list \<Rightarrow> 'w vm \<Rightarrow>
   ((nat \<times> nat) option \<times> funcframe list) res \<times> 'w vm"
where
  "unwind breaker err bt s =
     (if isTop (vm_cf s) \<or> breaker s then (Ok (None, bt), s)
      else case (curExcep s, isScript (vm_cf s), ff_prog (vm_cf s)) of
        (Some xp, True, Some prog) \<Rightarrow>
          mbind (popTo (ex_stackSize xp) s) (\<lambda>_ s.
          case err of
            None \<Rightarrow> (Panic ''nil pointer'', s)
          | Some e \<Rightarrow>
              mbind (popExcep (s\<lparr>vm_cf := (vm_cf s)\<lparr>ff_pc := int (handlerPc xp)\<rparr>, vm_excep := VStr e\<rparr>)) (\<lambda>_ s.
                (Ok (Some (handlerPc xp, prog), bt), s)))
      | _ \<Rightarrow>
          (case prevfuncframe s of
             Ok pframe \<Rightarrow>
               (case popfuncframe pframe s of
                  (Ok _, s') \<Rightarrow> unwind breaker err (if isTop pframe then bt else bt @ [pframe]) s'
                | (Err e, s') \<Rightarrow> (Err e, s')
                | (Panic m, s') \<Rightarrow> (Panic m, s')
                | (Diverge, s') \<Rightarrow> (Diverge, s'))
           | Err e \<Rightarrow> (Err e, s)
           | Panic m \<Rightarrow> (Panic m, s)
           | Diverge \<Rightarrow> (Diverge, s)))"
  by pat_completeness auto
termination
  by (relation "measure (\<lambda>(b, e, bt, s). length (vm_Stack s))")
    (auto simp: prevfuncframe_def stack_get_def prevframepos_def popfuncframe_def popTo_def
      elim!: rbind_OkE split: if_splits)

declare unwind.simps [simp del]

definition unwindForExcep ::
  "('w vm \<Rightarrow> bool) \<Rightarrow> string option \<Rightarrow> 'w vm \<Rightarrow> ((nat \<times> nat) option \<times> funcframe list) res \<times> 'w vm"
where
  "unwindForExcep breaker err s = unwind breaker err [vm_cf s] s"

section \<open>Error texts\<close>

definition ftypename :: "ftype \<Rightarrow> string" where
  "ftypename t =
     (case t of FtTop \<Rightarrow> ''#top'' | FtSFunc \<Rightarrow> ''script_func'' | FtNFunc \<Rightarrow> ''native_func''
      | FtScript \<Rightarrow> ''script'' | FtIntrinsic \<Rightarrow> ''intrinsic'' | FtRule \<Rightarrow> ''rule''
      | FtMethod \<Rightarrow> ''method'' | FtSIter \<Rightarrow> '''')"

text \<open>\<open>xs[i]\<close> with an \<open>int\<close> index.\<close>

definition idx :: "'a list \<Rightarrow> int \<Rightarrow> 'a res" where
  "idx xs i = (if 0 \<le> i \<and> i < int (length xs) then Ok (xs ! nat i) else Panic ''index out of range'')"

definition frame_head :: "funcframe \<Rightarrow> string" where
  "frame_head ff =
     ''[pc='' @ int_dec (ff_pc ff) @ ''][framep='' @ int_dec (int (ff_framep ff)) @
     ''][argcount='' @ int_dec (int (ff_farg ff)) @ '']''"

definition frameInfo :: "'w venv \<Rightarrow> 'w store \<Rightarrow> funcframe \<Rightarrow> string res" where
  "frameInfo env st ff =
     must (isTop ff \<longrightarrow> ff_prog ff = None) ''???''
       (case ff_prog ff of
          Some p \<Rightarrow>
            (let prog = oe_progs env p in
             rbind (idx (bcList prog) (ff_pc ff)) (\<lambda>bc.
             rbind (bc_dump prog bc) (\<lambda>instr.
             rbind (idx (dbgList prog) (ff_pc ff)) (\<lambda>loc.
             rbind (where_loc loc) (\<lambda>src.
               Ok (frame_head ff @ ''[instr='' @ instr @ ''][type='' @ ftypename (ff_ftype ff) @
                   ''][name='' @ pr_name prog @ ''][localcount='' @ int_dec (int (localSize prog)) @
                   ''][source=]:'' @ [CHR 0x0A] @ src))))))
        | None \<Rightarrow>
            (case ff_closure ff of
               Some c \<Rightarrow>
                 rbind (deref (st_clos st) c) (\<lambda>x.
                   Ok (frame_head ff @ ''[closure_type='' @ GetClosureTypeId (closure_Type x) @ '']'' @
                       closure_Info (oenv.truncate env) x))
             | None \<Rightarrow> Ok (frame_head ff @ ''['' @ ftypename (ff_ftype ff) @ '']'')))"

definition bt_sep :: string where "bt_sep = replicate 21 (CHR ''.'')"

text \<open>At most \<open>max + 1\<close> frames; then a row of dots.\<close>

fun backtrace :: "'w venv \<Rightarrow> 'w store \<Rightarrow> nat \<Rightarrow> nat \<Rightarrow> funcframe list \<Rightarrow> string res" where
  "backtrace env st mx i [] = Ok ''''"
| "backtrace env st mx i (cf # bt) =
     rbind (frameInfo env st cf) (\<lambda>info.
     rbind (if i = mx then Ok (replicate 9 (CHR ''.'') @ [CHR 0x0A]) else backtrace env st mx (Suc i) bt) (\<lambda>rest.
       Ok (int_dec (int i) @ ''>'' @ bt_sep @ [CHR 0x0A] @ info @ [CHR 0x0A] @ bt_sep @ [CHR 0x0A] @ rest)))"

text \<open>The result is the text of the error that is returned; \<open>None\<close> is a nil error.\<close>

definition doErr ::
  "'w venv \<Rightarrow> 'w store \<Rightarrow> funcframe list \<Rightarrow> nat option \<Rightarrow> int \<Rightarrow> string option \<Rightarrow> string res"
where
  "doErr env st bt p pc err =
     (case p of
        Some p \<Rightarrow>
          rbind (idx (dbgList (oe_progs env p)) pc) (\<lambda>dbg.
          rbind (where_loc dbg) (\<lambda>w.
          case err of
            None \<Rightarrow> Panic ''nil pointer''
          | Some e \<Rightarrow>
              rbind (backtrace env st 10 0 bt) (\<lambda>b.
                Ok (''symbol('' @ pr_name (oe_progs env p) @ ''), '' @ w @ '' has error: '' @ e @ [CHR 0x0A] @ b))))
      | None \<Rightarrow>
          (case err of
             None \<Rightarrow> Panic ''nil pointer''
           | Some e \<Rightarrow> Ok (''symbol([native function]): '' @ e)))"

section \<open>Calls return where they came from\<close>

lemma prologue_stack:
  "vm_Stack (prologue ft alen prog clos s) = vm_Stack s @ [VFrame ((vm_cf s)\<lparr>ff_pc := ff_pc (vm_cf s) + 1\<rparr>)]"
  by (simp add: prologue_def push_def Let_def)

lemma prologue_frame:
  "length (vm_Stack s) = b + 1 + alen \<Longrightarrow>
   vm_cf (prologue ft alen prog clos s) =
     \<lparr>ff_ftype = ft, ff_farg = alen, ff_pc = 0, ff_framep = b, ff_prog = prog, ff_excep = [], ff_closure = clos\<rparr>"
  by (simp add: prologue_def push_def Let_def)

text \<open>
  C7: leaving a function undoes entering it. Whatever the body of a called function has pushed
  above its frame, and whatever it did to its own program counter and handlers, the return
  removes callee, arguments, frame and all of that, leaves the result on the caller's stack,
  gives the caller its frame back (with the pc behind the call), and says where to go on.
\<close>

theorem epilogue_prologue:
  assumes "vm_Stack s = base @ [fn] @ args" and "s1 = prologue ft (length args) prog clos s"
    and "vm_Stack s2 = vm_Stack s1 @ locals"
    and "ff_framep (vm_cf s2) = ff_framep (vm_cf s1)" and "ff_farg (vm_cf s2) = ff_farg (vm_cf s1)"
  shows "epilogue v False s2 =
    (Ok (ff_pc (vm_cf s), ff_prog (vm_cf s)),
     s2\<lparr>vm_Stack := base @ [v], vm_cf := (vm_cf s)\<lparr>ff_pc := ff_pc (vm_cf s) + 1\<rparr>\<rparr>)"
proof -
  let ?f = "(vm_cf s)\<lparr>ff_pc := ff_pc (vm_cf s) + 1\<rparr>"
  have st: "vm_Stack s2 = base @ fn # args @ VFrame ?f # locals"
    using assms(1-3) by (simp add: prologue_stack)
  have cf: "ff_framep (vm_cf s2) = length base" "ff_farg (vm_cf s2) = length args"
    using assms(1,2,4,5) by (simp_all add: prologue_frame [where b = "length base"])
  have "vm_Stack s2 ! (length base + length args + 1) = VFrame ?f"
    unfolding st by (simp add: nth_append nth_Cons')
  then have "prevfuncframe s2 = Ok ?f"
    using st cf by (simp add: prevfuncframe_def prevframepos_def stack_get_def)
  then show ?thesis
    using st cf by (simp add: epilogue_def popfuncframe_def popTo_def push_def)
qed

definition s_call :: "unit vm" where
  "s_call = (NewEvaluator (\<lambda>_. []) (st_init ()))\<lparr>vm_Stack := [VNull, VInt 0, VBool True]\<rparr>"

theorem epilogue_prologue_witness:
  "epilogue (VInt 9) False (push (VStr ''local'') (prologue FtScript 1 (Some 3) None s_call)) =
    (Ok (0, None), s_call\<lparr>vm_Stack := [VNull, VInt 9], vm_cf := topFrame\<lparr>ff_pc := 1\<rparr>\<rparr>)"
proof -
  have a: "vm_Stack s_call = [VNull] @ [VInt 0] @ [VBool True]" by (simp add: s_call_def)
  have "epilogue (VInt 9) False (push (VStr ''local'') (prologue FtScript (length [VBool True]) (Some 3) None s_call)) =
    (Ok (ff_pc (vm_cf s_call), ff_prog (vm_cf s_call)),
     (push (VStr ''local'') (prologue FtScript (length [VBool True]) (Some 3) None s_call))
       \<lparr>vm_Stack := [VNull] @ [VInt 9], vm_cf := (vm_cf s_call)\<lparr>ff_pc := ff_pc (vm_cf s_call) + 1\<rparr>\<rparr>)"
    by (rule epilogue_prologue [OF a refl, where locals = "[VStr ''local'']"]) (simp_all add: push_def)
  then show ?thesis by (simp add: s_call_def NewEvaluator_def topFrame_def push_def prologue_def Let_def)
qed

section \<open>Unwinding finds the innermost handler\<close>

text \<open>
  The frames on a stack, from the current one outwards (the top frame left out); \<open>None\<close> for a
  stack on which a frame is missing.
\<close>

function frames :: "val list \<Rightarrow> funcframe \<Rightarrow> funcframe list option" where
  "frames stk f =
     (if isTop f then Some []
      else if ff_framep f + ff_farg f + 1 < length stk then
        (case stk ! (ff_framep f + ff_farg f + 1) of
           VFrame g \<Rightarrow> map_option (Cons f) (frames (take (ff_framep f) stk) g)
         | _ \<Rightarrow> None)
      else None)"
  by pat_completeness auto
termination by (relation "measure (\<lambda>(stk, f). length stk)") auto

declare frames.simps [simp del]

definition catches :: "funcframe \<Rightarrow> bool" where
  "catches f \<longleftrightarrow> isScript f \<and> ff_excep f \<noteq> []"

text \<open>The stack that is left when the frames \<open>pre\<close> have been popped.\<close>

definition stack_after :: "funcframe list \<Rightarrow> val list \<Rightarrow> val list" where
  "stack_after pre stk = (if pre = [] then stk else take (ff_framep (last pre)) stk)"

lemma frames_Cons:
  assumes "frames stk f = Some fs" and "\<not> isTop f"
  obtains g fs' where "ff_framep f + ff_farg f + 1 < length stk" "stk ! (ff_framep f + ff_farg f + 1) = VFrame g"
    "frames (take (ff_framep f) stk) g = Some fs'" "fs = f # fs'"
  using assms by (subst (asm) frames.simps) (auto split: if_splits val.splits)

lemma frames_framep:
  "frames stk f = Some fs \<Longrightarrow> h \<in> set fs \<Longrightarrow> ff_framep h < length stk"
proof (induction stk f arbitrary: fs rule: frames.induct)
  case (1 stk f)
  show ?case
  proof (cases "isTop f")
    case True
    with "1.prems" show ?thesis by (simp add: frames.simps [of stk f])
  next
    case False
    from frames_Cons [OF "1.prems"(1) False] obtain g fs' where
      c: "ff_framep f + ff_farg f + 1 < length stk" "stk ! (ff_framep f + ff_farg f + 1) = VFrame g"
        "frames (take (ff_framep f) stk) g = Some fs'" "fs = f # fs'" .
    from "1.IH" [OF False c(1,2,3)] "1.prems"(2) c show ?thesis by fastforce
  qed
qed

lemma stack_after_Cons:
  assumes "frames (take (ff_framep f) stk) g = Some fs" and "set pre \<subseteq> set fs"
  shows "stack_after (f # pre) stk = stack_after pre (take (ff_framep f) stk)"
proof (cases "pre = []")
  case False
  then have "last pre \<in> set fs" using assms(2) last_in_set by blast
  from frames_framep [OF assms(1) this] False show ?thesis
    by (auto simp: stack_after_def min_def split: if_splits)
qed (simp add: stack_after_def)

definition unwound :: "(funcframe \<Rightarrow> bool) \<Rightarrow> string \<Rightarrow> funcframe list \<Rightarrow> 'w vm \<Rightarrow>
    ((nat \<times> nat) option \<times> funcframe list) res \<times> 'w vm \<Rightarrow> bool" where
  "unwound brk e fs s r \<longleftrightarrow>
     (let go = (\<lambda>f. \<not> brk f \<and> \<not> catches f); stk = stack_after (takeWhile go fs) (vm_Stack s) in
      case dropWhile go fs of
        [] \<Rightarrow> (\<exists>bt s'. r = (Ok (None, bt), s') \<and> isTop (vm_cf s'))
      | f # _ \<Rightarrow>
          if brk f then \<exists>bt. r = (Ok (None, bt), s\<lparr>vm_Stack := stk, vm_cf := f\<rparr>)
          else let xp = last (ff_excep f) in
            ex_stackSize xp \<le> length stk \<longrightarrow>
            (\<exists>bt. r = (Ok (Some (handlerPc xp, the (ff_prog f)), bt),
               s\<lparr>vm_Stack := take (ex_stackSize xp) stk, vm_excep := VStr e,
                 vm_cf := f\<lparr>ff_pc := int (handlerPc xp), ff_excep := butlast (ff_excep f)\<rparr>\<rparr>)))"

lemma unwind_step:
  assumes "\<not> isTop (vm_cf s)" "\<not> breaker s" "\<not> catches (vm_cf s)"
    "prevframepos s < length (vm_Stack s)" "vm_Stack s ! prevframepos s = VFrame g"
  shows "unwind breaker err bt s =
    unwind breaker err (if isTop g then bt else bt @ [g])
      (s\<lparr>vm_Stack := take (ff_framep (vm_cf s)) (vm_Stack s), vm_cf := g\<rparr>)"
proof -
  have p: "prevfuncframe s = Ok g" using assms by (simp add: prevfuncframe_def stack_get_def)
  have "popfuncframe g s = (Ok (ff_pc g - 1, ff_prog g),
      s\<lparr>vm_Stack := take (ff_framep (vm_cf s)) (vm_Stack s), vm_cf := g\<rparr>)"
    using assms(4) by (simp add: popfuncframe_def popTo_def prevframepos_def)
  with assms(1-3) p show ?thesis
    by (subst unwind.simps) (auto simp: catches_def curExcep_def split: option.split bool.split)
qed

lemma unwind_frames:
  assumes "\<And>s. breaker s = brk (vm_cf s)"
  shows "frames (vm_Stack s) (vm_cf s) = Some fs \<Longrightarrow> unwound brk e fs s (unwind breaker (Some e) bt s)"
proof (induction fs arbitrary: s bt)
  case Nil
  then have "isTop (vm_cf s)"
    by (subst (asm) frames.simps) (auto split: if_splits val.splits)
  then show ?case by (simp add: unwound_def unwind.simps [of _ _ _ s])
next
  case (Cons f fs)
  then have nt: "\<not> isTop (vm_cf s)" by (auto simp: frames.simps [of "vm_Stack s"])
  from frames_Cons [OF Cons.prems nt] obtain g where
    g: "prevframepos s < length (vm_Stack s)" "vm_Stack s ! prevframepos s = VFrame g"
      "frames (take (ff_framep (vm_cf s)) (vm_Stack s)) g = Some fs" "f = vm_cf s"
    by (auto simp: prevframepos_def)
  show ?case
  proof (cases "brk f \<or> catches f")
    case True
    show ?thesis
    proof (cases "brk f")
      case True
      then have "unwind breaker (Some e) bt s = (Ok (None, bt), s)"
        using assms g(4) by (simp add: unwind.simps [of _ _ _ s])
      with True g(4) show ?thesis by (simp add: unwound_def stack_after_def)
    next
      case nb: False
      with True have c: "isScript f" "ff_excep f \<noteq> []" by (simp_all add: catches_def)
      then obtain p where p: "ff_prog f = Some p" by (auto simp: isScript_def)
      let ?xp = "last (ff_excep f)"
      show ?thesis
      proof (cases "ex_stackSize ?xp \<le> length (vm_Stack s)")
        case sz: True
        have "unwind breaker (Some e) bt s = (Ok (Some (handlerPc ?xp, p), bt),
            s\<lparr>vm_Stack := take (ex_stackSize ?xp) (vm_Stack s), vm_excep := VStr e,
              vm_cf := f\<lparr>ff_pc := int (handlerPc ?xp), ff_excep := butlast (ff_excep f)\<rparr>\<rparr>)"
          using nb c p nt sz assms g(4)
          by (simp add: unwind.simps [of _ _ _ s] curExcep_def popTo_def popExcep_def)
        with nb c True p show ?thesis by (simp add: unwound_def stack_after_def Let_def catches_def)
      next
        case False
        with nb c True show ?thesis by (simp add: unwound_def stack_after_def Let_def catches_def)
      qed
    qed
  next
    case False
    let ?s = "s\<lparr>vm_Stack := take (ff_framep (vm_cf s)) (vm_Stack s), vm_cf := g\<rparr>"
    let ?go = "\<lambda>f. \<not> brk f \<and> \<not> catches f"
    have "unwound brk e fs ?s (unwind breaker (Some e) (if isTop g then bt else bt @ [g]) ?s)"
      by (rule Cons.IH) (simp add: g(3))
    moreover have "unwind breaker (Some e) bt s = unwind breaker (Some e) (if isTop g then bt else bt @ [g]) ?s"
      by (rule unwind_step) (use nt False g assms in auto)
    moreover have "stack_after (takeWhile ?go (f # fs)) (vm_Stack s) = stack_after (takeWhile ?go fs) (vm_Stack ?s)"
      using stack_after_Cons [OF g(3), of "takeWhile ?go fs"] False g(4)
      by (auto dest: set_takeWhileD)
    ultimately show ?thesis
      using False
      by (cases "dropWhile ?go fs")
        (auto simp: unwound_def Let_def simp del: dropWhile_eq_Nil_conv split: if_splits)
  qed
qed

text \<open>
  C6: exception handling. On a stack whose frames are intact, the unwinding passes over every
  frame that neither stops it nor has a handler it may use (a script frame with a non-empty
  handler list that does not belong to an iterator), truncating the stack to each frame's
  base. At the first other frame it either stops (an iterator's or callback's own frame), or
  truncates the stack to the size recorded with the frame's last handler, removes that handler,
  stores the error's text as the exception value and continues at the handler's pc in that
  frame's program; without such a frame it ends at the top frame with no handler.
\<close>

theorem unwind_innermost_handler:
  assumes "frames (vm_Stack s) (vm_cf s) = Some fs"
  shows "unwound brk e fs s (unwindForExcep (\<lambda>s. brk (vm_cf s)) (Some e) s)"
  unfolding unwindForExcep_def by (rule unwind_frames) (simp_all add: assms)

text \<open>A rule's frame with a handler, below a script function's frame without one.\<close>

definition s_exc :: "unit vm" where
  "s_exc = (NewEvaluator (\<lambda>_. []) (st_init ()))
     \<lparr>vm_Stack := [VNull, VNull, VFrame (topFrame\<lparr>ff_pc := 1\<rparr>), VStr ''local'', VInt 0,
        VFrame \<lparr>ff_ftype = FtRule, ff_farg = 1, ff_pc = 6, ff_framep = 0, ff_prog = Some 7,
          ff_excep = [\<lparr>handlerPc = 9, ex_stackSize = 4\<rparr>], ff_closure = None\<rparr>, VBool True],
      vm_cf := \<lparr>ff_ftype = FtScript, ff_farg = 0, ff_pc = 2, ff_framep = 4, ff_prog = Some 8,
          ff_excep = [], ff_closure = None\<rparr>\<rparr>"

theorem unwind_innermost_handler_witness:
  "\<exists>bt s'. unwindForExcep (\<lambda>_. False) (Some ''boom'') s_exc = (Ok (Some (9, 7), bt), s') \<and>
     vm_excep s' = VStr ''boom'' \<and> ff_excep (vm_cf s') = [] \<and>
     vm_Stack s' = [VNull, VNull, VFrame (topFrame\<lparr>ff_pc := 1\<rparr>), VStr ''local'']"
proof -
  define r where "r = \<lparr>ff_ftype = FtRule, ff_farg = 1, ff_pc = 6, ff_framep = 0, ff_prog = Some 7,
          ff_excep = [\<lparr>handlerPc = 9, ex_stackSize = 4\<rparr>], ff_closure = None\<rparr>"
  have f: "frames (vm_Stack s_exc) (vm_cf s_exc) = Some [vm_cf s_exc, r]"
    by (simp add: r_def s_exc_def frames.simps isTop_def topFrame_def)
  have g: "\<not> catches (vm_cf s_exc)" "catches r"
    by (simp_all add: r_def s_exc_def catches_def isScript_def)
  from unwind_innermost_handler [OF f, of "\<lambda>_. False" "''boom''"] show ?thesis
    by (simp add: unwound_def Let_def g) (auto simp: r_def s_exc_def stack_after_def)
qed

end
