(* ===== verification/VM.thy ===== *)
theory VM
  imports VMState
begin

text \<open>
  The interpreter loop of \<open>pl/eval.go\<close>. \<open>runP\<close>'s switch is \<open>step\<close>, one function per group of
  instructions; each takes the instruction's argument and the state to what the loop does next.
  An instruction may run the interpreter again (script iterators, closures called by native
  functions): the nested runs are the parameter \<open>run\<close>, which the fuel-indexed loop ties.
\<close>

section \<open>What the loop does after an instruction\<close>

text \<open>
  Go on with the next instruction, jump to an index, continue in a program at a pc (nil makes
  the fetch panic), or leave the loop.
\<close>

datatype ctl = CNext | CJump nat | CGoto "nat option" int | CStop rr

type_synonym 'w step = "'w vm \<Rightarrow> ctl res \<times> 'w vm"

definition cnext :: "'w step" where
  "cnext s = (Ok CNext, s)"

text \<open>\<open>if err != nil { return rrErr(prog, pc, err) }\<close>.\<close>

definition orErr ::
  "nat option \<Rightarrow> int \<Rightarrow> 'a res \<times> 'w vm \<Rightarrow> ('a \<Rightarrow> 'w step) \<Rightarrow> ctl res \<times> 'w vm"
where
  "orErr p pc r k =
     (case r of
        (Ok x, s) \<Rightarrow> k x s
      | (Err e, s) \<Rightarrow> (Ok (CStop (RErr p pc e)), s)
      | (Panic m, s) \<Rightarrow> (Panic m, s)
      | (Diverge, s) \<Rightarrow> (Diverge, s))"

definition stopErr :: "nat option \<Rightarrow> int \<Rightarrow> string \<Rightarrow> 'w step" where
  "stopErr p pc e s = (Ok (CStop (RErr p pc e)), s)"

type_synonym 'w runner = "nat \<Rightarrow> int \<Rightarrow> 'w vm \<Rightarrow> rr res \<times> 'w vm"

section \<open>Operators and jumps\<close>

definition bin_ops :: "opcode list" where
  "bin_ops = [BcAdd, BcSub, BcMul, BcDiv, BcMod, BcPow, BcLt, BcLe, BcGt, BcGe, BcEq, BcNe,
     BcRegexpMatch, BcRegexpNMatch]"

definition step_bin :: "'w venv \<Rightarrow> nat \<Rightarrow> int \<Rightarrow> opcode \<Rightarrow> 'w step" where
  "step_bin env p pc op s =
     rlift (topN 1 s) s (\<lambda>lhs s.
     rlift (topN 0 s) s (\<lambda>rhs s.
     mbind (popN 2 s) (\<lambda>_ s.
     orErr (Some p) pc (doBin (oenv_of env) (ve_pow env) (vm_st s) lhs rhs op, s) (\<lambda>v s.
       cnext (push v s)))))"

definition step_unary :: "'w venv \<Rightarrow> nat \<Rightarrow> int \<Rightarrow> opcode \<Rightarrow> 'w step" where
  "step_unary env p pc op s =
     mbind (popv s) (\<lambda>t s.
       if op = BcNot then
         rlift (ToBoolean (oenv_of env) (vm_st s) t) s (\<lambda>b s. cnext (push (VBool (\<not> b)) s))
       else
         orErr (Some p) pc (doNegate t, s) (\<lambda>v s. cnext (push v s)))"

definition step_logic :: "'w venv \<Rightarrow> opcode \<Rightarrow> nat \<Rightarrow> 'w step" where
  "step_logic env op arg s =
     rlift (topN 0 s) s (\<lambda>cond s.
     rlift (ToBoolean (oenv_of env) (vm_st s) cond) s (\<lambda>b s.
       if b = (op = BcOr) then (Ok (CJump arg), s)
       else mbind (popN 1 s) (\<lambda>_ s. cnext s)))"

definition step_jump :: "'w venv \<Rightarrow> opcode \<Rightarrow> nat \<Rightarrow> 'w step" where
  "step_jump env op arg s =
     (if op = BcJump then (Ok (CJump arg), s)
      else
        mbind (popv s) (\<lambda>cond s.
        rlift (ToBoolean (oenv_of env) (vm_st s) cond) s (\<lambda>b s.
          if op = BcTernary then
            (if b then (Ok (CJump arg), s) else mbind (popN 1 s) (\<lambda>_ s. cnext s))
          else if b = (op = BcJtrue) then (Ok (CJump arg), s)
          else cnext s)))"

section \<open>The stack, constants and literals\<close>

definition step_stack :: "opcode \<Rightarrow> 'w step" where
  "step_stack op s =
     (let sz = length (vm_Stack s) in
      if op = BcSwap then
        (if 2 \<le> sz then
           cnext (s\<lparr>vm_Stack := (vm_Stack s)[sz - 1 := vm_Stack s ! (sz - 2), sz - 2 := vm_Stack s ! (sz - 1)]\<rparr>)
         else (Panic ''index out of range'', s))
      else if op = BcPop then mbind (popN 1 s) (\<lambda>_ s. cnext s)
      else if op = BcDup1 then rlift (topN 0 s) s (\<lambda>v s. cnext (push v s))
      else rlift (topN 1 s) s (\<lambda>to1 s. rlift (topN 0 s) s (\<lambda>to0 s. cnext (push to0 (push to1 s)))))"

definition step_load :: "program \<Rightarrow> opcode \<Rightarrow> nat \<Rightarrow> 'w step" where
  "step_load prog op arg s =
     (if op = BcLoadInt then rlift (idxInt prog arg) s (\<lambda>i s. cnext (push (VInt i) s))
      else if op = BcLoadReal then rlift (idxReal prog arg) s (\<lambda>r s. cnext (push (VReal r) s))
      else if op = BcLoadStr then rlift (idxStr prog arg) s (\<lambda>t s. cnext (push (VStr t) s))
      else if op = BcLoadRegexp then rlift (idxRegexp prog arg) s (\<lambda>t s. cnext (push (VRegexp t) s))
      else if op = BcLoadTrue then cnext (push (VBool True) s)
      else if op = BcLoadFalse then cnext (push (VBool False) s)
      else cnext (push VNull s))"

text \<open>The pairs of name and value a map literal has left on the stack.\<close>

fun add_map :: "'w oenv \<Rightarrow> nat \<Rightarrow> val list \<Rightarrow> 'w vm \<Rightarrow> unit res \<times> 'w vm" where
  "add_map env m (name # v # vs) s =
     (case name of
        VStr k \<Rightarrow> mbind (onst (map_set env m k v) s) (\<lambda>_ s. add_map env m vs s)
      | _ \<Rightarrow> (Panic ''must: must be string'', s))"
| "add_map env m _ s = (Ok (), s)"

definition step_literal :: "'w venv \<Rightarrow> opcode \<Rightarrow> nat \<Rightarrow> 'w step" where
  "step_literal env op cnt s =
     (if op = BcNewList then (let (v, st) = new_list (vm_st s) in cnext (push v (s\<lparr>vm_st := st\<rparr>)))
      else if op = BcAddList then
        rlift (topN cnt s) s (\<lambda>l s.
          case l of
            VList l \<Rightarrow>
              rlift (last_n cnt s) s (\<lambda>vs s.
              mbind (onst (List_Append_all (oenv_of env) l vs) s) (\<lambda>_ s.
              mbind (popN cnt s) (\<lambda>_ s. cnext s)))
          | _ \<Rightarrow> (Panic ''must: must be list'', s))
      else if op = BcNewMap then (let (v, st) = new_map (vm_st s) in cnext (push v (s\<lparr>vm_st := st\<rparr>)))
      else if op = BcAddMap then
        rlift (topN (cnt * 2) s) s (\<lambda>m s.
          case m of
            VMap m \<Rightarrow>
              rlift (last_n (cnt * 2) s) s (\<lambda>vs s.
              mbind (add_map (oenv_of env) m vs s) (\<lambda>_ s.
              mbind (popN (cnt * 2) s) (\<lambda>_ s. cnext s)))
          | _ \<Rightarrow> (Panic ''must: must be map'', s))
      else
        rlift (topN 1 s) s (\<lambda>t0 s.
        rlift (topN 0 s) s (\<lambda>t1 s.
        mbind (popN 2 s) (\<lambda>_ s.
          let (v, st) = new_pair t0 t1 (vm_st s) in cnext (push v (s\<lparr>vm_st := st\<rparr>))))))"

text \<open>\<open>bcConStr\<close>: the strings, bottom first.\<close>

fun con_str :: "val list \<Rightarrow> string res" where
  "con_str [] = Ok ''''"
| "con_str (v # vs) =
     (case v of
        VStr t \<Rightarrow> rbind (con_str vs) (\<lambda>r. Ok (t @ r))
      | _ \<Rightarrow> Panic ''must: must be string during concatenation'')"

definition step_string :: "'w venv \<Rightarrow> nat \<Rightarrow> int \<Rightarrow> opcode \<Rightarrow> nat \<Rightarrow> 'w step" where
  "step_string env p pc op arg s =
     (if op = BcToStr then
        rlift (topN 0 s) s (\<lambda>top s.
        orErr (Some p) pc (v_ToString (oenv_of env) (vm_st s) top, s) (\<lambda>t s.
        mbind (popN 1 s) (\<lambda>_ s. cnext (push (VStr t) s))))
      else
        rlift (last_n arg s) s (\<lambda>vs s.
        rlift (con_str vs) s (\<lambda>t s.
        mbind (popN arg s) (\<lambda>_ s. cnext (push (VStr t) s)))))"

definition step_template :: "'w venv \<Rightarrow> nat \<Rightarrow> int \<Rightarrow> nat \<Rightarrow> 'w step" where
  "step_template env p pc arg s =
     mbind (popv s) (\<lambda>ctx s.
     rlift (idxTemplate (oe_progs env p) arg) s (\<lambda>tmp s.
     orErr (Some p) pc (ve_template env tmp ctx (vm_st s), s) (\<lambda>t s. cnext (push (VStr t) s))))"

section \<open>Variables, fields and indices\<close>

text \<open>The last intrinsic function registered under a name is the one its name finds.\<close>

fun intrinsic_index :: "'w intrinsic list \<Rightarrow> string \<Rightarrow> nat \<Rightarrow> nat option \<Rightarrow> nat option" where
  "intrinsic_index [] name i found = found"
| "intrinsic_index (x # xs) name i found =
     intrinsic_index xs name (Suc i) (if ii_cname x = name then Some i else found)"

definition getIntrinsicByName :: "'w venv \<Rightarrow> string \<Rightarrow> nat option" where
  "getIntrinsicByName env name = intrinsic_index (ve_intrinsics env) name 0 None"

definition curevent :: "'w venv \<Rightarrow> 'w vm \<Rightarrow> val res" where
  "curevent env s =
     (case ff_prog (vm_cf s) of
        None \<Rightarrow> Panic ''nil pointer''
      | Some p \<Rightarrow> must (progtype (oe_progs env p) = ProgRule) ''must be rule''
                    (stack_get (ff_framep (vm_cf s) + 1) s))"

definition step_var :: "'w venv \<Rightarrow> nat \<Rightarrow> int \<Rightarrow> opcode \<Rightarrow> nat \<Rightarrow> 'w step" where
  "step_var env p pc op arg s =
     (if op = BcLoadVar then
        rlift (idxStr (oe_progs env p) arg) s (\<lambda>vname s.
          case getIntrinsicByName env vname of
            Some k \<Rightarrow>
              (let (v, st) = new_closure (CNative vname (NIntrinsic k)) (vm_st s) in
               cnext (push v (s\<lparr>vm_st := st\<rparr>)))
          | None \<Rightarrow> orErr (Some p) pc (ve_LoadVar env vname s) (\<lambda>v s. cnext (push v s)))
      else if op = BcStoreVar then
        mbind (popv s) (\<lambda>top s.
        rlift (idxStr (oe_progs env p) arg) s (\<lambda>vname s.
        orErr (Some p) pc (ve_StoreVar env vname top s) (\<lambda>_ s. cnext s)))
      else rlift (curevent env s) s (\<lambda>v s. cnext (push v s)))"

definition step_action :: "'w venv \<Rightarrow> nat \<Rightarrow> int \<Rightarrow> nat \<Rightarrow> 'w step" where
  "step_action env p pc arg s =
     rlift (idxStr (oe_progs env p) arg) s (\<lambda>name s.
     rlift (topN 0 s) s (\<lambda>v s.
     orErr (Some p) pc (ve_Action env name v s) (\<lambda>_ s.
     mbind (popN 1 s) (\<lambda>_ s. cnext s))))"

definition step_access :: "'w venv \<Rightarrow> nat \<Rightarrow> int \<Rightarrow> opcode \<Rightarrow> nat \<Rightarrow> 'w step" where
  "step_access env p pc op arg s =
     (if op = BcIndex then
        rlift (topN 1 s) s (\<lambda>ee s.
        rlift (topN 0 s) s (\<lambda>er s.
        orErr (Some p) pc (onst (v_Index (oenv_of env) ee er) s) (\<lambda>v s.
        mbind (popN 2 s) (\<lambda>_ s. cnext (push v s)))))
      else if op = BcIndexSet then
        rlift (topN 2 s) s (\<lambda>recv s.
        rlift (topN 1 s) s (\<lambda>index s.
        rlift (topN 0 s) s (\<lambda>value s.
        mbind (popN 3 s) (\<lambda>_ s.
        orErr (Some p) pc (onst (v_IndexSet (oenv_of env) recv index value) s) (\<lambda>_ s. cnext s)))))
      else if op = BcDot then
        rlift (topN 0 s) s (\<lambda>ee s.
        rlift (idxStr (oe_progs env p) arg) s (\<lambda>vname s.
        orErr (Some p) pc (onst (v_Dot (oenv_of env) ee vname) s) (\<lambda>v s.
        mbind (popN 1 s) (\<lambda>_ s. cnext (push v s)))))
      else
        rlift (topN 1 s) s (\<lambda>recv s.
        rlift (topN 0 s) s (\<lambda>value s.
        mbind (popN 2 s) (\<lambda>_ s.
        rlift (idxStr (oe_progs env p) arg) s (\<lambda>vname s.
        orErr (Some p) pc (onst (v_DotSet (oenv_of env) recv vname value) s) (\<lambda>_ s. cnext s))))))"

definition step_local :: "opcode \<Rightarrow> nat \<Rightarrow> 'w step" where
  "step_local op arg s =
     (if op = BcReserveLocal then cnext (pushes (replicate arg VNull) s)
      else if op = BcStoreLocal then
        rlift (topN 0 s) s (\<lambda>v s.
          if localslot s arg < length (vm_Stack s) then
            mbind (popN 1 (s\<lparr>vm_Stack := (vm_Stack s)[localslot s arg := v]\<rparr>)) (\<lambda>_ s. cnext s)
          else (Panic ''index out of range'', s))
      else rlift (stack_get (localslot s arg) s) s (\<lambda>v s. cnext (push v s)))"

definition step_session :: "nat \<Rightarrow> int \<Rightarrow> opcode \<Rightarrow> nat \<Rightarrow> 'w step" where
  "step_session p pc op arg s =
     (if op = BcSetSession then
        mbind (popv s) (\<lambda>ctx s. cnext (s\<lparr>vm_Session := vm_Session s @ [ctx]\<rparr>))
      else if length (vm_Session s) \<le> arg then
        stopErr (Some p) pc ''session variable is not existed'' s
      else if op = BcLoadSession then cnext (push (vm_Session s ! arg) s)
      else
        rlift (topN 0 s) s (\<lambda>v s.
        mbind (popN 1 (s\<lparr>vm_Session := (vm_Session s)[arg := v]\<rparr>)) (\<lambda>_ s. cnext s)))"

text \<open>The globals are those of the module \<open>runP\<close> was entered with.\<close>

definition step_global :: "'w venv \<Rightarrow> nat \<Rightarrow> nat \<Rightarrow> int \<Rightarrow> opcode \<Rightarrow> nat \<Rightarrow> 'w step" where
  "step_global env m p pc op arg s =
     (if op = BcSetGlobal then
        mbind (popv s) (\<lambda>ctx s.
        rlift (global_add (oenv_of env) (vm_st s) (vm_globals s m) ctx) s (\<lambda>(ok, g) s.
          if ok then cnext (s\<lparr>vm_globals := (vm_globals s)(m := g)\<rparr>)
          else stopErr (Some p) pc
                 (''global varaible must store immutable type, '' @ ''ie int, real, bool, string, null'') s))
      else if op = BcLoadGlobal then
        (case global_get (vm_globals s m) arg of
           Some v \<Rightarrow> cnext (push v s)
         | None \<Rightarrow> stopErr (Some p) pc (''global variable loading error, '' @ ''global variable is not existed'') s)
      else
        mbind (popv s) (\<lambda>ctx s.
        rlift (global_set (oenv_of env) (vm_st s) (vm_globals s m) arg ctx) s (\<lambda>(ok, g) s.
          if ok then cnext (s\<lparr>vm_globals := (vm_globals s)(m := g)\<rparr>)
          else stopErr (Some p) pc
                 (''global variable storing error, '' @
                  ''value is not immutable or global variable is not existed'') s)))"

section \<open>Exceptions, configuration, events\<close>

definition step_excep :: "opcode \<Rightarrow> nat \<Rightarrow> 'w step" where
  "step_excep op arg s =
     (if op = BcPushException then cnext (pushExcep arg (length (vm_Stack s)) s)
      else if op = BcPopException then mbind (popExcep s) (\<lambda>_ s. (Ok (CJump arg), s))
      else cnext (push (vm_excep s) s))"

text \<open>
  The test for an attribute of a command compares with another instruction's opcode: no command
  ever takes its attribute.
\<close>

definition step_config :: "'w venv \<Rightarrow> nat \<Rightarrow> int \<Rightarrow> opcode \<Rightarrow> nat \<Rightarrow> 'w step" where
  "step_config env p pc op arg s =
     (if op = BcConfigPush \<or> op = BcConfigPushWithAttr then
        mbind (if op = BcConfigPushWithAttr then popv s else (Ok VNull, s)) (\<lambda>attr s.
          case ve_Config env of
            None \<Rightarrow> cnext s
          | Some c \<Rightarrow>
              rlift (idxStr (oe_progs env p) arg) s (\<lambda>name s.
              orErr (Some p) pc (cfg_Push c name attr s) (\<lambda>_ s. cnext s)))
      else if op = BcConfigPop then
        (case ve_Config env of
           None \<Rightarrow> cnext s
         | Some c \<Rightarrow> orErr (Some p) pc (cfg_Pop c s) (\<lambda>_ s. cnext s))
      else if op = BcConfigPropertySet \<or> op = BcConfigPropertySetWithAttr then
        rlift (topN 1 s) s (\<lambda>name s.
        rlift (topN 0 s) s (\<lambda>value s.
        mbind (popN 2 s) (\<lambda>_ s.
        mbind (if op = BcConfigPropertySetWithAttr then popv s else (Ok VNull, s)) (\<lambda>attr s.
        orErr (Some p) pc (v_ToString (oenv_of env) (vm_st s) name, s) (\<lambda>t s.
          case ve_Config env of
            None \<Rightarrow> cnext s
          | Some c \<Rightarrow> orErr (Some p) pc (cfg_Property c t value attr s) (\<lambda>_ s. cnext s))))))
      else
        rlift (topN arg s) s (\<lambda>name s.
        orErr (Some p) pc (v_ToString (oenv_of env) (vm_st s) name, s) (\<lambda>t s.
        rlift (if op = BcConfigPropertySetWithAttr then topN (arg + 1) s else Ok VNull) s (\<lambda>attr s.
        rlift (last_n arg s) s (\<lambda>args s.
        mbind (case ve_Config env of
                 None \<Rightarrow> cnext s
               | Some c \<Rightarrow> orErr (Some p) pc (cfg_Command c t args attr s) (\<lambda>_ s. cnext s)) (\<lambda>r s.
          case r of
            CNext \<Rightarrow>
              mbind (popN (arg + 1 + (if op = BcConfigPropertySetWithAttr then 1 else 0)) s) (\<lambda>_ s. cnext s)
          | _ \<Rightarrow> (Ok r, s)))))))"

definition step_emit :: "'w step" where
  "step_emit s =
     rlift (topN 0 s) s (\<lambda>ctx s.
     rlift (topN 1 s) s (\<lambda>name s.
     mbind (popN 2 s) (\<lambda>_ s.
       case name of
         VStr n \<Rightarrow> cnext (s\<lparr>vm_eventQ := defq_OnEvent n ctx (vm_eventQ s)\<rparr>)
       | _ \<Rightarrow> (Panic ''must: event name must be string'', s))))"

section \<open>Running code from inside an instruction\<close>

text \<open>
  The \<open>RECOVER\<close> loop of every entry into the interpreter: run; on an error unwind, and go on in
  the handler that was found. \<open>Inl\<close> is a normal end, \<open>Inr\<close> the text of the error to return.
\<close>

fun recover ::
  "nat \<Rightarrow> 'w venv \<Rightarrow> 'w runner \<Rightarrow> ('w vm \<Rightarrow> bool) \<Rightarrow> (rr \<Rightarrow> bool) \<Rightarrow> nat \<Rightarrow> int \<Rightarrow> 'w vm \<Rightarrow>
   (rr + int \<times> string) res \<times> 'w vm"
where
  "recover 0 env run breaker stop p pc s = (Diverge, s)"
| "recover (Suc n) env run breaker stop p pc s =
     mbind (run p pc s) (\<lambda>r s.
       if stop r then (Ok (Inl r), s)
       else
         mbind (unwindForExcep breaker (rr_e r) s) (\<lambda>(h, bt) s.
           case h of
             Some (pc', p') \<Rightarrow> recover n env run breaker stop p' (int pc') s
           | None \<Rightarrow>
               rlift (doErr env (vm_st s) bt (rr_prog r) (rr_pc r) (rr_e r)) s (\<lambda>e s.
                 (Ok (Inr (rr_pc r, e)), s))))"

definition is_done :: "rr \<Rightarrow> bool" where
  "is_done r = (case r of RDone _ \<Rightarrow> True | _ \<Rightarrow> False)"

definition is_yield :: "rr \<Rightarrow> bool" where
  "is_yield r = (case r of RYield _ \<Rightarrow> True | _ \<Rightarrow> False)"

text \<open>
  \<open>runSFunc\<close>: a script function called by Go code. Its result is read but stays on the stack.
\<close>

definition runSFunc :: "nat \<Rightarrow> 'w venv \<Rightarrow> 'w runner \<Rightarrow> nat \<Rightarrow> nat \<Rightarrow> val list \<Rightarrow> 'w vm \<Rightarrow> val res \<times> 'w vm" where
  "runSFunc n env run c p args s =
     (if length args \<noteq> argSize (oe_progs env p) then (Err ''function call, argument mismatch'', s)
      else
        mbind (closurePrologue env c args s) (\<lambda>_ s.
        mbind (recover n env run
                 (\<lambda>s. case frame_sfunc (vm_st s) (vm_cf s) of Some (c', _) \<Rightarrow> c' = c | None \<Rightarrow> False)
                 is_done p 0 s) (\<lambda>r s.
          case r of
            Inl _ \<Rightarrow> rlift (topN 0 s) s (\<lambda>v s. (Ok v, s))
          | Inr (_, e) \<Rightarrow>
              rlift (prevfuncframe s) s (\<lambda>prev s.
              mbind (popfuncframe prev s) (\<lambda>_ s. (Err e, s))))))"

text \<open>\<open>runNFunc\<close>: the frame is popped whether the Go function fails or not.\<close>

definition runNFunc :: "'w venv \<Rightarrow> 'w caller \<Rightarrow> nat \<Rightarrow> 'w entry \<Rightarrow> val list \<Rightarrow> 'w vm \<Rightarrow> val res \<times> 'w vm" where
  "runNFunc env call c entry args s =
     mbind (closurePrologue env c args s) (\<lambda>_ s.
       let leave = (\<lambda>v s. mbind (epilogue v False s) (\<lambda>_ s. popN 1 s)) in
       case entry call args s of
         (Ok v, s) \<Rightarrow> mbind (leave v s) (\<lambda>_ s. (Ok v, s))
       | (Err e, s) \<Rightarrow> mbind (leave VNull s) (\<lambda>_ s. (Err e, s))
       | (Panic m, s) \<Rightarrow> (Panic m, s)
       | (Diverge, s) \<Rightarrow> (Diverge, s))"

definition native_entry :: "'w venv \<Rightarrow> nref \<Rightarrow> 'w entry" where
  "native_entry env r =
     (case r of
        NUser k \<Rightarrow> ve_native env k
      | NIntrinsic k \<Rightarrow>
          (if k < length (ve_intrinsics env) then ii_entry (ve_intrinsics env ! k)
           else (\<lambda>_ _ s. (Panic ''index out of range'', s))))"

definition method_entry :: "'w venv \<Rightarrow> val \<Rightarrow> string \<Rightarrow> val list \<Rightarrow> 'w vm \<Rightarrow> val res \<times> 'w vm" where
  "method_entry env recv name args s = onst (v_Method (oenv_of env) recv name args) s"

text \<open>\<open>Closure.Call\<close>: what Go code does with a closure; nested calls have less fuel.\<close>

fun call_closure :: "nat \<Rightarrow> 'w venv \<Rightarrow> 'w runner \<Rightarrow> 'w caller" where
  "call_closure 0 env run c args s = (Diverge, s)"
| "call_closure (Suc n) env run c args s =
     rlift (deref (st_clos (vm_st s)) c) s (\<lambda>x s.
       case x of
         CScript p _ \<Rightarrow> runSFunc n env run c p args s
       | CNative _ r \<Rightarrow> runNFunc env (call_closure n env run) c (native_entry env r) args s
       | CMethod name recv \<Rightarrow> method_entry env recv name args s)"

section \<open>Calls and returns\<close>

text \<open>What \<open>epilogue\<close> returned, continued by the loop's \<open>pc++\<close>.\<close>

definition leave :: "val \<Rightarrow> 'w step" where
  "leave v s = mbind (epilogue v False s) (\<lambda>(pc, prog) s. (Ok (CGoto prog (pc + 1)), s))"

definition step_icall :: "'w venv \<Rightarrow> 'w caller \<Rightarrow> nat \<Rightarrow> int \<Rightarrow> nat \<Rightarrow> 'w step" where
  "step_icall env call p pc n s =
     rlift (last_n n s) s (\<lambda>args s.
     rlift (topN n s) s (\<lambda>f s.
       case f of
         VInt i \<Rightarrow>
           (if sint i < 0 then (Panic ''must: function index must be none negative'', s)
            else
              (let s = prologue FtIntrinsic n None None (s\<lparr>vm_cf := (vm_cf s)\<lparr>ff_pc := pc\<rparr>\<rparr>) in
               if nat (sint i) < length (ve_intrinsics env) then
                 orErr (Some p) pc (ii_entry (ve_intrinsics env ! nat (sint i)) call args s) leave
               else (Panic ''index out of range'', s)))
       | _ \<Rightarrow> (Panic ''must: function indext must be indext'', s)))"

definition enter :: "'w venv \<Rightarrow> ftype \<Rightarrow> nat \<Rightarrow> nat \<Rightarrow> nat option \<Rightarrow> int \<Rightarrow> 'w step" where
  "enter env ft n p' clos pc s =
     (let s = prologue ft n (Some p') clos (s\<lparr>vm_cf := (vm_cf s)\<lparr>ff_pc := pc\<rparr>\<rparr>) in
      if n \<noteq> argSize (oe_progs env p')
      then stopErr (Some p') pc ''script function call, argument number mismatch'' s
      else (Ok (CGoto (Some p') 0), s))"

definition step_scall :: "'w venv \<Rightarrow> nat \<Rightarrow> int \<Rightarrow> nat \<Rightarrow> 'w step" where
  "step_scall env p pc n s =
     rlift (topN n s) s (\<lambda>f s.
     rlift (v_Int f) s (\<lambda>i s.
     rlift (idx (md_fn (ve_mods env (pr_module (oe_progs env p)))) (sint i)) s (\<lambda>p' s.
       if freeCall (oe_progs env p') then enter env FtScript n p' None pc s
       else (Panic ''must: must be freecall'', s))))"

text \<open>The arguments of a native call lie below the frame that was just pushed.\<close>

definition call_args :: "nat \<Rightarrow> 'w vm \<Rightarrow> val list res" where
  "call_args n s = rbind (last_n (n + 1) s) (\<lambda>vs. Ok (take n vs))"

definition step_vcall :: "'w venv \<Rightarrow> 'w caller \<Rightarrow> nat \<Rightarrow> int \<Rightarrow> nat \<Rightarrow> 'w step" where
  "step_vcall env call p pc n s =
     rlift (topN n s) s (\<lambda>f s.
       case f of
         VClosure c \<Rightarrow>
           rlift (deref (st_clos (vm_st s)) c) s (\<lambda>x s.
             case x of
               CScript p' _ \<Rightarrow> enter env FtSFunc n p' (Some c) pc s
             | CNative _ r \<Rightarrow>
                 (let s = prologue FtNFunc n None (Some c) (s\<lparr>vm_cf := (vm_cf s)\<lparr>ff_pc := pc\<rparr>\<rparr>) in
                  rlift (call_args n s) s (\<lambda>args s. orErr None pc (native_entry env r call args s) leave))
             | CMethod name recv \<Rightarrow>
                 (let s = prologue FtMethod n None (Some c) (s\<lparr>vm_cf := (vm_cf s)\<lparr>ff_pc := pc\<rparr>\<rparr>) in
                  rlift (call_args n s) s (\<lambda>args s. orErr None pc (method_entry env recv name args s) leave)))
       | _ \<Rightarrow>
           rlift (v_Id (oenv_of env) (vm_st s) f) s (\<lambda>i s.
             stopErr (Some p) pc (''object must be function, but got type: '' @ i) s))"

definition step_return :: "'w step" where
  "step_return s =
     (let ft = ff_ftype (vm_cf s) in
      rlift (topN 0 s) s (\<lambda>rv s.
      mbind (epilogue rv False s) (\<lambda>(pc, prog) s.
        if prog = None \<or> ft = FtSIter then (Ok (CStop (RDone pc)), s)
        else (Ok (CGoto prog (pc + 1)), s))))"

section \<open>Closures\<close>

text \<open>Captured variables: from the stack of the creating frame, or from its own closure.\<close>

fun capture :: "(nat \<times> nat \<times> val list) option \<Rightarrow> 'w vm \<Rightarrow> upvalue list \<Rightarrow> val list res" where
  "capture up s [] = Ok []"
| "capture up s (uv # uvs) =
     rbind (if uv_onStack uv then stack_get (localslot s (uv_index uv)) s
            else case up of
                   None \<Rightarrow> Panic ''must: upvalue capture function not existed?''
                 | Some (_, _, vs) \<Rightarrow> idx vs (int (uv_index uv))) (\<lambda>v.
     rbind (capture up s uvs) (\<lambda>vs. Ok (v # vs)))"

definition step_closure :: "'w venv \<Rightarrow> nat \<Rightarrow> int \<Rightarrow> opcode \<Rightarrow> nat \<Rightarrow> 'w step" where
  "step_closure env p pc op arg s =
     (if op = BcNewClosure then
        rlift (idx (md_fn (ve_mods env (pr_module (oe_progs env p)))) (int arg)) s (\<lambda>fn s.
          if progtype (oe_progs env fn) \<noteq> ProgFunc then
            stopErr (Some p) pc ''value must be function instead of iterator'' s
          else
            rlift (capture (frame_sfunc (vm_st s) (vm_cf s)) s (pr_upvalue (oe_progs env fn))) s (\<lambda>vs s.
              let (v, st) = new_closure (CScript fn vs) (vm_st s) in cnext (push v (s\<lparr>vm_st := st\<rparr>))))
      else
        (case frame_sfunc (vm_st s) (vm_cf s) of
           None \<Rightarrow> (Panic ''must: must existed(sfunc)'', s)
         | Some (c, q, vs) \<Rightarrow>
             if op = BcLoadUpvalue then rlift (idx vs (int arg)) s (\<lambda>v s. cnext (push v s))
             else
               rlift (topN 0 s) s (\<lambda>v s.
                 if arg < length vs then
                   mbind (popN 1 (s\<lparr>vm_st := (vm_st s)\<lparr>st_clos := (st_clos (vm_st s))[c := CScript q (vs[arg := v])]\<rparr>\<rparr>))
                     (\<lambda>_ s. cnext s)
                 else (Panic ''index out of range'', s))))"

definition step_method :: "'w venv \<Rightarrow> nat \<Rightarrow> int \<Rightarrow> nat \<Rightarrow> 'w step" where
  "step_method env p pc arg s =
     mbind (popv s) (\<lambda>recv s.
     rlift (idxStr (oe_progs env p) arg) s (\<lambda>name s.
     orErr (Some p) pc (onst (MethodClosure (oenv_of env) recv name) s) (\<lambda>v s. cnext (push v s))))"


section \<open>Script iterators\<close>

definition get_siter :: "nat \<Rightarrow> 'w vm \<Rightarrow> siter res" where
  "get_siter i s =
     rbind (deref (st_iters (vm_st s)) i) (\<lambda>it.
       case it of ScriptIter x \<Rightarrow> Ok x | _ \<Rightarrow> Panic ''nil pointer'')"

definition upd_siter :: "nat \<Rightarrow> (siter \<Rightarrow> siter) \<Rightarrow> 'w vm \<Rightarrow> 'w vm" where
  "upd_siter i f s =
     (case deref (st_iters (vm_st s)) i of
        Ok (ScriptIter x) \<Rightarrow> s\<lparr>vm_st := set_iter i (ScriptIter (f x)) (vm_st s)\<rparr>
      | _ \<Rightarrow> s)"

text \<open>The deferred part of \<open>runSIterRest\<close>: keep the iterator's frame, go back to the caller's.\<close>

definition siter_suspend :: "nat \<Rightarrow> 'w vm \<Rightarrow> unit res \<times> 'w vm" where
  "siter_suspend i s =
     rlift (prevfuncframe s) s (\<lambda>prev s.
       (Ok (), (upd_siter i (\<lambda>x. x\<lparr>si_frame := vm_cf s\<rparr>) s)\<lparr>vm_cf := prev\<rparr>))"

text \<open>The new pc and the error the run ended with.\<close>

definition runSIterRest ::
  "nat \<Rightarrow> 'w venv \<Rightarrow> 'w runner \<Rightarrow> nat \<Rightarrow> 'w vm \<Rightarrow> (int \<times> string option) res \<times> 'w vm"
where
  "runSIterRest n env run i s =
     rlift (get_siter i s) s (\<lambda>x s.
       case ff_prog (vm_cf s) of
         None \<Rightarrow> (Panic ''nil pointer'', s)
       | Some p \<Rightarrow>
           mbind (recover n env run (\<lambda>s. ff_ftype (vm_cf s) = FtSIter)
                    (\<lambda>r. is_done r \<or> is_yield r) p (si_pc x) s) (\<lambda>r s.
             case r of
               Inl r \<Rightarrow>
                 if is_done r then
                   mbind (popv s) (\<lambda>_ s. (Ok (rr_pc r, None), upd_siter i (\<lambda>x. x\<lparr>si_next := False\<rparr>) s))
                 else
                   mbind (popv s) (\<lambda>ret s.
                   mbind (siter_suspend i (upd_siter i (\<lambda>x. x\<lparr>si_current := ret, si_next := True\<rparr>) s)) (\<lambda>_ s.
                     (Ok (rr_pc r, None), s)))
             | Inr (pc, e) \<Rightarrow> mbind (siter_suspend i s) (\<lambda>_ s. (Ok (pc, Some e), s))))"

text \<open>Run with the iterator's own stack, and put the evaluator's back afterwards.\<close>

definition on_siter_stack ::
  "nat \<Rightarrow> ('w vm \<Rightarrow> (int \<times> string option) res \<times> 'w vm) \<Rightarrow> 'w vm \<Rightarrow> (int \<times> string option) res \<times> 'w vm"
where
  "on_siter_stack i f s =
     rlift (get_siter i s) s (\<lambda>x s.
       let old = vm_Stack s; (r, s') = f (s\<lparr>vm_Stack := si_stack x\<rparr>) in
       (r, (upd_siter i (\<lambda>x. x\<lparr>si_stack := vm_Stack s'\<rparr>) s')\<lparr>vm_Stack := old\<rparr>))"

definition runSIter ::
  "nat \<Rightarrow> 'w venv \<Rightarrow> 'w runner \<Rightarrow> nat \<Rightarrow> val list \<Rightarrow> 'w vm \<Rightarrow> (int \<times> string option) res \<times> 'w vm"
where
  "runSIter n env run i args =
     on_siter_stack i (\<lambda>s.
       rlift (get_siter i s) s (\<lambda>x s. runSIterRest n env run i (iterPrologue i (si_prog x) args s)))"

definition resumeSIter ::
  "nat \<Rightarrow> 'w venv \<Rightarrow> 'w runner \<Rightarrow> nat \<Rightarrow> 'w vm \<Rightarrow> (int \<times> string option) res \<times> 'w vm"
where
  "resumeSIter n env run i =
     on_siter_stack i (\<lambda>s.
       rlift (get_siter i s) s (\<lambda>x s.
         let tempF = vm_cf s; s = s\<lparr>vm_cf := si_frame x\<rparr> in
         rlift (prevfuncframe s) s (\<lambda>_ s.
           runSIterRest n env run i
             (s\<lparr>vm_Stack := (vm_Stack s)[prevframepos s := VFrame tempF]\<rparr>))))"

definition siter_SetUp ::
  "nat \<Rightarrow> 'w venv \<Rightarrow> 'w runner \<Rightarrow> nat \<Rightarrow> val list \<Rightarrow> 'w vm \<Rightarrow> unit res \<times> 'w vm"
where
  "siter_SetUp n env run i args s =
     (let s = upd_siter i (\<lambda>x. x\<lparr>si_eval := True, si_err := None, si_next := False\<rparr>) s in
      mbind (runSIter n env run i args s) (\<lambda>(pc, e) s.
        let s = upd_siter i (\<lambda>x. x\<lparr>si_pc := pc, si_err := e\<rparr>) s in
        case e of None \<Rightarrow> (Ok (), s) | Some e \<Rightarrow> (Err e, s)))"

definition siter_Next :: "nat \<Rightarrow> 'w venv \<Rightarrow> 'w runner \<Rightarrow> nat \<Rightarrow> 'w vm \<Rightarrow> bool res \<times> 'w vm" where
  "siter_Next n env run i s =
     rlift (get_siter i s) s (\<lambda>x s.
       if \<not> si_eval x then (Panic ''nil pointer'', s)
       else
         (let s = upd_siter i (\<lambda>x. x\<lparr>si_err := None, si_next := False\<rparr>) s in
          mbind (resumeSIter n env run i s) (\<lambda>(pc, e) s.
            let s = upd_siter i (\<lambda>x. x\<lparr>si_pc := pc, si_err := e\<rparr>) s in
            rlift (get_siter i s) s (\<lambda>x s.
              case e of None \<Rightarrow> (Ok (si_next x), s) | Some e \<Rightarrow> (Err e, s)))))"

definition iter_SetUp ::
  "nat \<Rightarrow> 'w venv \<Rightarrow> 'w runner \<Rightarrow> nat \<Rightarrow> val list \<Rightarrow> 'w vm \<Rightarrow> unit res \<times> 'w vm"
where
  "iter_SetUp n env run i args s =
     rlift (deref (st_iters (vm_st s)) i) s (\<lambda>it s.
       case it of
         ScriptIter _ \<Rightarrow> siter_SetUp n env run i args s
       | _ \<Rightarrow> onst (native_SetUp (oenv_of env) it args) s)"

definition iter_Next :: "nat \<Rightarrow> 'w venv \<Rightarrow> 'w runner \<Rightarrow> nat \<Rightarrow> 'w vm \<Rightarrow> bool res \<times> 'w vm" where
  "iter_Next n env run i s =
     rlift (deref (st_iters (vm_st s)) i) s (\<lambda>it s.
       case it of
         ScriptIter _ \<Rightarrow> siter_Next n env run i s
       | _ \<Rightarrow> onst (native_Next (oenv_of env) i it) s)"

definition newScriptIter :: "nat \<Rightarrow> val list \<Rightarrow> siter" where
  "newScriptIter p up =
     \<lparr>si_prog = p, si_upvalue = up, si_current = VNull, si_err = None, si_next = False,
      si_eval = False, si_pc = 0, si_stack = [], si_frame = topFrame\<rparr>"

definition must_iter :: "string \<Rightarrow> 'w vm \<Rightarrow> (nat \<Rightarrow> 'w step) \<Rightarrow> ctl res \<times> 'w vm" where
  "must_iter msg s k =
     rlift (topN 0 s) s (\<lambda>tos s. case tos of VIter i \<Rightarrow> k i s | _ \<Rightarrow> (Panic (''must: '' @ msg), s))"

text \<open>\<open>bcLoadIterator\<close> looks its function up in the module \<open>runP\<close> was entered with.\<close>

definition step_iter :: "nat \<Rightarrow> 'w venv \<Rightarrow> 'w runner \<Rightarrow> nat \<Rightarrow> nat \<Rightarrow> int \<Rightarrow> opcode \<Rightarrow> nat \<Rightarrow> 'w step" where
  "step_iter n env run m p pc op arg s =
     (if op = BcNewIterator then
        mbind (popv s) (\<lambda>tos s.
        orErr (Some p) pc (onst (v_NewIterator (oenv_of env) tos) s) (\<lambda>v s. cnext (push v s)))
      else if op = BcLoadIterator then
        rlift (idx (md_fn (ve_mods env m)) (int arg)) s (\<lambda>fn s.
          if progtype (oe_progs env fn) \<noteq> ProgIter then
            stopErr (Some p) pc ''function cannot be loaded as iterator'' s
          else
            rlift (capture (frame_sfunc (vm_st s) (vm_cf s)) s (pr_upvalue (oe_progs env fn))) s (\<lambda>vs s.
              let (v, st) = new_iter (ScriptIter (newScriptIter fn vs)) (vm_st s) in
              cnext (push v (s\<lparr>vm_st := st\<rparr>))))
      else if op = BcSetUpIterator then
        rlift (topN arg s) s (\<lambda>tos s.
          case tos of
            VIter i \<Rightarrow>
              rlift (last_n arg s) s (\<lambda>args s.
              orErr (Some p) pc (iter_SetUp n env run i args s) (\<lambda>_ s.
              mbind (popN arg s) (\<lambda>_ s. cnext s)))
          | _ \<Rightarrow> stopErr (Some p) pc ''value is not iterator, cannot use iter setup expression'' s)
      else if op = BcHasIterator then
        must_iter ''must be iterator(has_iterator)'' s (\<lambda>i s.
        rlift (iter_Has (oenv_of env) (vm_st s) i) s (\<lambda>b s. cnext (push (VBool b) s)))
      else if op = BcDerefIterator then
        must_iter ''must be iterator(deref_iterator)'' s (\<lambda>i s.
        orErr (Some p) pc (iter_Deref (oenv_of env) (vm_st s) i, s) (\<lambda>(key, v) s.
          cnext (push v (push key s))))
      else
        must_iter ''must be iterator(next_iterator)'' s (\<lambda>i s.
        orErr (Some p) pc (iter_Next n env run i s) (\<lambda>b s. cnext (push (VBool b) s))))"

section \<open>The loop\<close>

definition step ::
  "nat \<Rightarrow> 'w venv \<Rightarrow> 'w runner \<Rightarrow> nat \<Rightarrow> nat \<Rightarrow> int \<Rightarrow> opcode \<Rightarrow> nat \<Rightarrow> 'w step"
where
  "step n env run m p pc op arg s =
     (if op \<in> set bin_ops then step_bin env p pc op s
      else if op = BcNot \<or> op = BcNegate then step_unary env p pc op s
      else if op = BcOr \<or> op = BcAnd then step_logic env op arg s
      else if op \<in> set [BcJfalse, BcJtrue, BcTernary, BcJump] then step_jump env op arg s
      else if op \<in> set [BcSwap, BcPop, BcDup1, BcDup2] then step_stack op s
      else if op \<in> set [BcLoadInt, BcLoadReal, BcLoadStr, BcLoadRegexp, BcLoadTrue, BcLoadFalse, BcLoadNull]
      then step_load (oe_progs env p) op arg s
      else if op \<in> set [BcNewList, BcAddList, BcNewMap, BcAddMap, BcNewPair] then step_literal env op arg s
      else if op = BcICall then step_icall env (call_closure n env run) p pc arg s
      else if op = BcLoadMethod then step_method env p pc arg s
      else if op = BcSCall then step_scall env p pc arg s
      else if op = BcVCall then step_vcall env (call_closure n env run) p pc arg s
      else if op = BcReturn then step_return s
      else if op \<in> set [BcNewClosure, BcLoadUpvalue, BcStoreUpvalue] then step_closure env p pc op arg s
      else if op = BcToStr \<or> op = BcConStr then step_string env p pc op arg s
      else if op = BcTemplate then step_template env p pc arg s
      else if op \<in> set [BcLoadVar, BcStoreVar, BcLoadDollar] then step_var env p pc op arg s
      else if op = BcAction then step_action env p pc arg s
      else if op \<in> set [BcIndex, BcIndexSet, BcDot, BcDotSet] then step_access env p pc op arg s
      else if op \<in> set [BcReserveLocal, BcStoreLocal, BcLoadLocal] then step_local op arg s
      else if op \<in> set [BcSetSession, BcLoadSession, BcStoreSession] then step_session p pc op arg s
      else if op \<in> set [BcPushException, BcPopException, BcLoadException] then step_excep op arg s
      else if op \<in> set [BcConfigPush, BcConfigPushWithAttr, BcConfigPop, BcConfigPropertySet,
          BcConfigPropertySetWithAttr, BcConfigCommand, BcConfigCommandWithAttr]
      then step_config env p pc op arg s
      else if op \<in> set [BcSetGlobal, BcLoadGlobal, BcStoreGlobal] then step_global env m p pc op arg s
      else if op \<in> set [BcNewIterator, BcLoadIterator, BcSetUpIterator, BcHasIterator,
          BcDerefIterator, BcNextIterator]
      then step_iter n env run m p pc op arg s
      else if op = BcHalt then (Ok (CStop (RDone pc)), push VNull s)
      else if op = BcYield then (Ok (CStop (RYield (pc + 1))), s)
      else if op = BcEmit then step_emit s
      else (Panic ''fatal: invalid unknown bytecode'', s))"

text \<open>
  One unit of fuel per instruction; nested runs get what is left. \<open>m\<close> is the module the run was
  entered with: it does not change when a call enters another module's function.
\<close>

fun runL :: "nat \<Rightarrow> 'w venv \<Rightarrow> nat \<Rightarrow> 'w runner" where
  "runL 0 env m p pc s = (Diverge, s)"
| "runL (Suc n) env m p pc s =
     rlift (idx (bcList (oe_progs env p)) pc) s (\<lambda>bc s.
     mbind (step n env (\<lambda>p pc s. runL n env (pr_module (oe_progs env p)) p pc s) m p pc
              (opcode bc) (argument bc) s) (\<lambda>c s.
       case c of
         CNext \<Rightarrow> runL n env m p (pc + 1) s
       | CJump i \<Rightarrow> runL n env m p (int i) s
       | CGoto (Some p') pc' \<Rightarrow> runL n env m p' pc' s
       | CGoto None _ \<Rightarrow> (Panic ''nil pointer'', s)
       | CStop r \<Rightarrow> (Ok r, s)))"

definition runP :: "nat \<Rightarrow> 'w venv \<Rightarrow> 'w runner" where
  "runP n env p pc s = runL n env (pr_module (oe_progs env p)) p pc s"

section \<open>Entry points\<close>

definition runRule :: "nat \<Rightarrow> 'w venv \<Rightarrow> val \<Rightarrow> nat \<Rightarrow> 'w vm \<Rightarrow> val res \<times> 'w vm" where
  "runRule n env event p s =
     (let s = (clearStack s)\<lparr>vm_excep := VNull, vm_cf := topFrame\<rparr>;
          s = prologue FtRule 1 (Some p) None (push event (push VNull s))
      in mbind (recover n env (runP n env) (\<lambda>s. isTop (vm_cf s)) is_done p 0 s) (\<lambda>r s.
           case r of
             Inl _ \<Rightarrow> popv s
           | Inr (_, e) \<Rightarrow> (Err e, s)))"




end
