(* ===== verification/Eval.thy ===== *)
theory Eval
  imports VM
begin

text \<open>
  The entry points of the evaluator (\<open>pl/eval.go\<close>): evaluating a module's configuration, its
  globals, a session and an event, and draining the queue of emitted events behind each of
  them. \<open>Drain\<close> of the default queue is here because it runs scripts. One fuel bounds both the
  number of events and each event's run.
\<close>

section \<open>The event queue\<close>

definition EvalDeferred :: "nat \<Rightarrow> 'w venv \<Rightarrow> nat \<Rightarrow> string \<Rightarrow> val \<Rightarrow> 'w vm \<Rightarrow> val res \<times> 'w vm" where
  "EvalDeferred n env m name ctx s =
     (case findEvent (ve_mods env m) name of
        Some p \<Rightarrow> runRule n env ctx p s
      | None \<Rightarrow> (Ok VNull, s))"

definition EmitEvent :: "string \<Rightarrow> val \<Rightarrow> 'w vm \<Rightarrow> 'w vm" where
  "EmitEvent name ctx s = s\<lparr>vm_eventQ := defq_OnEvent name ctx (vm_eventQ s)\<rparr>"

text \<open>\<open>eval\<close> is \<open>EvalDeferred\<close> of the module; \<open>onError\<close> answers whether to go on.\<close>

fun Drain ::
  "nat \<Rightarrow> (string \<Rightarrow> val \<Rightarrow> 'w vm \<Rightarrow> val res \<times> 'w vm) \<Rightarrow>
   (string \<Rightarrow> string option \<Rightarrow> 'a \<times> 'w vm \<Rightarrow> bool \<times> 'a \<times> 'w vm) \<Rightarrow> 'a \<times> 'w vm \<Rightarrow> nat res \<times> 'a \<times> 'w vm"
where
  "Drain 0 eval onError (a, s) = (Diverge, a, s)"
| "Drain (Suc n) eval onError (a, s) =
     (case defq_take (vm_eventQ s) of
        None \<Rightarrow> (Ok 0, a, s)
      | Some (lst, q) \<Rightarrow>
          (let go = (\<lambda>err as. case onError (ev_name lst) err as of
                 (ok, a, s) \<Rightarrow>
                   if ok then mbind (Drain n eval onError (a, s)) (\<lambda>count as. (Ok (count + 1), as))
                   else (Ok 1, a, s))
           in case eval (ev_name lst) (ev_context lst) (s\<lparr>vm_eventQ := q\<rparr>) of
                (Ok _, s) \<Rightarrow> go None (a, s)
              | (Err e, s) \<Rightarrow> go (Some e) (a, s)
              | (Panic m, s) \<Rightarrow> (Panic m, a, s)
              | (Diverge, s) \<Rightarrow> (Diverge, a, s)))"

definition EventContextContinue :: int where "EventContextContinue = 0"
definition EventContextPuase :: int where "EventContextPuase = 1"
definition EventContextStopAndClear :: int where "EventContextStopAndClear = 2"

text \<open>The callback of \<open>drainEventQueue\<close>; its variable \<open>status\<close> is the first component.\<close>

definition drain_callback ::
  "'w venv \<Rightarrow> string \<Rightarrow> string option \<Rightarrow> int \<times> 'w vm \<Rightarrow> bool \<times> int \<times> 'w vm"
where
  "drain_callback env name err as =
     (case as of (status, s) \<Rightarrow>
       let (status, s) = (case ve_Event env of None \<Rightarrow> (status, s) | Some f \<Rightarrow> f name err s) in
       (status = EventContextContinue, status, s))"

definition drainEventQueue :: "nat \<Rightarrow> 'w venv \<Rightarrow> nat \<Rightarrow> 'w vm \<Rightarrow> unit res \<times> 'w vm" where
  "drainEventQueue n env m s =
     (if vm_inQ s then (Ok (), s)
      else
        case Drain n (EvalDeferred n env m) (drain_callback env) (0, s\<lparr>vm_inQ := True\<rparr>) of
          (Ok _, status, s) \<Rightarrow>
            (Ok (), (if status = EventContextStopAndClear
                     then s\<lparr>vm_eventQ := snd (defq_Clear (vm_eventQ s))\<rparr> else s)\<lparr>vm_inQ := False\<rparr>)
        | (Err e, _, s) \<Rightarrow> (Err e, s\<lparr>vm_inQ := False\<rparr>)
        | (Panic x, _, s) \<Rightarrow> (Panic x, s\<lparr>vm_inQ := False\<rparr>)
        | (Diverge, _, s) \<Rightarrow> (Diverge, s))"

text \<open>
  \<open>defer func() { e.drainEventQueue(p) }()\<close>: also behind a panic, which goes on afterwards
  unless the queue panics itself.
\<close>

definition with_drain :: "nat \<Rightarrow> 'w venv \<Rightarrow> nat \<Rightarrow> 'a res \<times> 'w vm \<Rightarrow> 'a res \<times> 'w vm" where
  "with_drain n env m r =
     (case r of
        (Diverge, s) \<Rightarrow> (Diverge, s)
      | (x, s) \<Rightarrow> mbind (drainEventQueue n env m s) (\<lambda>_ s. (x, s)))"

section \<open>Evaluating a module\<close>

definition EvalConfig :: "nat \<Rightarrow> 'w venv \<Rightarrow> nat \<Rightarrow> 'w vm \<Rightarrow> unit res \<times> 'w vm" where
  "EvalConfig n env m s =
     (case md_config (ve_mods env m) of
        None \<Rightarrow> (Ok (), s)
      | Some p \<Rightarrow>
          if ve_Config env = None then (Err ''evaluator's Config is not set'', s)
          else mbind (runRule n env VNull p s) (\<lambda>_ s. (Ok (), s)))"

fun run_rules :: "nat \<Rightarrow> 'w venv \<Rightarrow> nat list \<Rightarrow> 'w vm \<Rightarrow> unit res \<times> 'w vm" where
  "run_rules n env [] s = (Ok (), s)"
| "run_rules n env (p # ps) s = mbind (runRule n env VNull p s) (\<lambda>_ s. run_rules n env ps s)"

definition EvalGlobal :: "nat \<Rightarrow> 'w venv \<Rightarrow> nat \<Rightarrow> 'w vm \<Rightarrow> unit res \<times> 'w vm" where
  "EvalGlobal n env m s =
     with_drain n env m
       (if \<not> HasGlobal (ve_mods env m) then (Ok (), s)
        else run_rules n env (md_globalProgram (ve_mods env m)) (s\<lparr>vm_globals := (vm_globals s)(m := [])\<rparr>))"

definition EvalSession :: "nat \<Rightarrow> 'w venv \<Rightarrow> nat \<Rightarrow> 'w vm \<Rightarrow> unit res \<times> 'w vm" where
  "EvalSession n env m s =
     with_drain n env m
       (if \<not> HasSession (ve_mods env m) then (Ok (), s)
        else run_rules n env (md_session (ve_mods env m)) (s\<lparr>vm_Session := []\<rparr>))"

definition EvalWithContext :: "nat \<Rightarrow> 'w venv \<Rightarrow> string \<Rightarrow> val \<Rightarrow> nat \<Rightarrow> 'w vm \<Rightarrow> val res \<times> 'w vm" where
  "EvalWithContext n env event ctx m s =
     with_drain n env m
       (case findEvent (ve_mods env m) event of
          Some p \<Rightarrow> runRule n env ctx p s
        | None \<Rightarrow> (Ok VNull, s))"

definition Eval :: "nat \<Rightarrow> 'w venv \<Rightarrow> string \<Rightarrow> nat \<Rightarrow> 'w vm \<Rightarrow> val res \<times> 'w vm" where
  "Eval n env event m s =
     with_drain n env m
       (case findEvent (ve_mods env m) event of
          Some p \<Rightarrow> runRule n env VNull p s
        | None \<Rightarrow> (Ok VNull, s))"

end
