(* ===== verification/VMExample.thy ===== *)
theory VMExample
  imports Eval
begin

text \<open>
  A small compiled module that the witnesses run: the rule \<open>main\<close> calls the recursive function
  \<open>fact\<close>, the rule \<open>guarded\<close> divides by zero inside a \<open>try\<close>, and there is an iterator that
  yields twice, with instructions of the shape the compiler emits for such sources.
\<close>

definition code :: "(opcode \<times> nat) list \<Rightarrow> program \<Rightarrow> program" where
  "code is p = p\<lparr>bcList := map (\<lambda>(o', a). \<lparr>opcode = o', argument = a\<rparr>) is,
     dbgList := map (\<lambda>_. \<lparr>sl_source = ''x'', sl_offset = 0, sl_line = 1, sl_column = 1\<rparr>) is\<rparr>"

text \<open>\<open>fn fact(n) { if n < 2 { return 1; } return n * fact(n - 1); }\<close>.\<close>

definition p_fact :: program where
  "p_fact = code
     [(BcReserveLocal, 0), (BcLoadLocal, 0), (BcLoadInt, 0), (BcLt, 0), (BcJfalse, 7),
      (BcLoadInt, 1), (BcReturn, 0),
      (BcLoadLocal, 0), (BcLoadInt, 2), (BcLoadLocal, 0), (BcLoadInt, 1), (BcSub, 0), (BcSCall, 1),
      (BcMul, 0), (BcReturn, 0)]
     ((newProgram 0 ''fact'' ProgFunc)\<lparr>argSize := 1, localSize := 2, tbInt := [2, 1, 0]\<rparr>)"

text \<open>\<open>rule main { return fact(5); }\<close>.\<close>

definition p_main :: program where
  "p_main = code [(BcLoadInt, 0), (BcLoadInt, 1), (BcSCall, 1), (BcReturn, 0)]
     ((newProgram 0 ''main'' ProgRule)\<lparr>tbInt := [0, 5]\<rparr>)"

text \<open>\<open>rule guarded { return try 1 / 0 else 7; }\<close>.\<close>

definition p_guarded :: program where
  "p_guarded = code
     [(BcPushException, 5), (BcLoadInt, 0), (BcLoadInt, 1), (BcDiv, 0), (BcPopException, 6),
      (BcLoadInt, 2), (BcReturn, 0)]
     ((newProgram 0 ''guarded'' ProgRule)\<lparr>tbInt := [1, 0, 7]\<rparr>)"

text \<open>\<open>iter gen { yield 1; yield 2; }\<close>.\<close>

definition p_gen :: program where
  "p_gen = code [(BcLoadInt, 0), (BcYield, 0), (BcLoadInt, 1), (BcYield, 0), (BcLoadNull, 0), (BcReturn, 0)]
     ((newProgram 0 ''gen'' ProgIter)\<lparr>tbInt := [1, 2]\<rparr>)"

text \<open>A global scope: \<open>global { a = 1; b = []; }\<close>. The list is refused.\<close>

definition p_globals :: program where
  "p_globals = code [(BcLoadInt, 0), (BcSetGlobal, 0), (BcNewList, 0), (BcAddList, 0), (BcSetGlobal, 0), (BcHalt, 0)]
     ((newProgram 0 ''@global'' ProgSession)\<lparr>tbInt := [1]\<rparr>)"

text \<open>\<open>rule emitter { emit "main", 1; emit "guarded", 1; }\<close>.\<close>

definition p_emitter :: program where
  "p_emitter = code
     [(BcLoadStr, 0), (BcLoadInt, 0), (BcEmit, 0), (BcLoadStr, 1), (BcLoadInt, 0), (BcEmit, 0),
      (BcLoadNull, 0), (BcReturn, 0)]
     ((newProgram 0 ''emitter'' ProgRule)\<lparr>tbInt := [1], tbStr := [''main'', ''guarded'']\<rparr>)"

text \<open>\<open>rule log { ... }\<close>, which appends the event's context to the session.\<close>

definition p_log :: program where
  "p_log = code [(BcLoadDollar, 0), (BcSetSession, 0), (BcLoadNull, 0), (BcReturn, 0)]
     (newProgram 0 ''log'' ProgRule)"

definition mod0 :: module where
  "mod0 = newModule\<lparr>md_eventMap := [(''main'', 1), (''guarded'', 2), (''emitter'', 5), (''log'', 6)],
     md_p := [1, 2, 5, 6], md_fn := [0, 3], md_globalProgram := [4]\<rparr>"

definition venv0 :: "unit venv" where
  "venv0 = oenv.extend (plain_env [p_fact, p_main, p_guarded, p_gen, p_globals, p_emitter, p_log])
     \<lparr>ve_mods = (\<lambda>_. mod0), ve_intrinsics = [], ve_native = (\<lambda>_ _ _ s. (Err ''no'', s)),
      ve_LoadVar = (\<lambda>n s. (Err (''load_var: '' @ n @ '' is unknown''), s)),
      ve_StoreVar = (\<lambda>n _ s. (Err (''store_var: '' @ n @ '' is unknown''), s)),
      ve_Action = (\<lambda>n _ s. (Err (''action: '' @ n @ '' is unknown''), s)),
      ve_Config = None, ve_Event = None, ve_template = (\<lambda>_ _ _. Err ''no''), ve_pow = (\<lambda>x _. x)\<rparr>"

definition vm0 :: "unit vm" where
  "vm0 = NewEvaluator (\<lambda>_. []) (st_init ())"

lemma ex_fact: "fst (EvalWithContext 100 venv0 ''main'' VNull 0 vm0) = Ok (VInt 120)"
  by code_simp

lemma ex_globals: "vm_globals (snd (EvalGlobal 20 venv0 0 vm0)) 0 = [VInt 1]"
  by code_simp

lemma ex_emitter:
  "vm_eventQ (snd (runRule 20 venv0 VNull 5 (EmitEvent ''x'' VNull vm0))) =
     [\<lparr>ev_name = ''x'', ev_context = VNull\<rparr>, \<lparr>ev_name = ''main'', ev_context = VInt 1\<rparr>,
      \<lparr>ev_name = ''guarded'', ev_context = VInt 1\<rparr>]"
  by code_simp

lemma ex_guarded: "fst (EvalWithContext 20 venv0 ''guarded'' VNull 0 vm0) = Ok (VInt 7)"
  by code_simp

end
