(* ===== verification/Fuel.thy ===== *)
theory Fuel
  imports Prelude
begin

text \<open>
  The order of results by the fuel behind them, for the two interpreters of the development (the
  evaluator and the parser): one result is below another when it was cut short or is the same.
  \<open>fle_intro\<close> holds that the combinators keep the order.
\<close>

definition fle :: "'a res \<times> 's \<Rightarrow> 'a res \<times> 's \<Rightarrow> bool" where
  "fle r r' \<longleftrightarrow> fst r = Diverge \<or> r' = r"

named_theorems fle_intro \<open>monotonicity of the combinators\<close>

lemma fle_refl [simp, fle_intro]: "fle r r"
  by (simp add: fle_def)

lemma fle_Diverge [simp, fle_intro]: "fle (Diverge, s) r"
  by (simp add: fle_def)

lemma fle_mbind [fle_intro]:
  "fle p q \<Longrightarrow> (\<And>x s. fle (k x s) (l x s)) \<Longrightarrow> fle (mbind p k) (mbind q l)"
  by (cases p; cases "fst p") (auto simp: fle_def)

lemma fle_rlift [fle_intro]:
  "(\<And>x. fle (k x s) (l x s)) \<Longrightarrow> fle (rlift r s k) (rlift r s l)"
  by (cases r) (auto simp: fle_def)

lemma fle_if [fle_intro]:
  "(c \<Longrightarrow> fle a a') \<Longrightarrow> (\<not> c \<Longrightarrow> fle b b') \<Longrightarrow> fle (if c then a else b) (if c then a' else b')"
  by simp

lemma fle_option [fle_intro]:
  "fle a a' \<Longrightarrow> (\<And>y. fle (f y) (g y)) \<Longrightarrow>
   fle (case x of None \<Rightarrow> a | Some y \<Rightarrow> f y) (case x of None \<Rightarrow> a' | Some y \<Rightarrow> g y)"
  by (cases x) simp_all

lemma fle_prod [fle_intro]:
  "(\<And>a b. fle (f a b) (g a b)) \<Longrightarrow> fle (case x of (a, b) \<Rightarrow> f a b) (case x of (a, b) \<Rightarrow> g a b)"
  by (cases x) simp

lemma fle_prod2 [fle_intro]:
  "(\<And>a b. fle (f a b s) (g a b s)) \<Longrightarrow>
   fle ((case x of (a, b) \<Rightarrow> f a b) s) ((case x of (a, b) \<Rightarrow> g a b) s)"
  by (cases x) simp

lemma fle_sum [fle_intro]:
  "(\<And>a. fle (f a) (g a)) \<Longrightarrow> (\<And>b. fle (f' b) (g' b)) \<Longrightarrow>
   fle (case x of Inl a \<Rightarrow> f a | Inr b \<Rightarrow> f' b) (case x of Inl a \<Rightarrow> g a | Inr b \<Rightarrow> g' b)"
  by (cases x) simp_all

lemma fle_trans: "fle p q \<Longrightarrow> fle q r \<Longrightarrow> fle p r"
  by (auto simp: fle_def)

end
