(* ===== verification/VMFuel.thy ===== *)
theory VMFuel
  imports VMExample Fuel
begin

text \<open>
  The fuel of the interpreter's model only decides whether a result is reached, never which:
  with more fuel every run that ends stays as it is. Every part of the interpreter is monotone in
  the order \<open>fle\<close>.
\<close>

definition run_le :: "'w runner \<Rightarrow> 'w runner \<Rightarrow> bool" where
  "run_le f g \<longleftrightarrow> (\<forall>p pc s. fle (f p pc s) (g p pc s))"

definition call_le :: "'w caller \<Rightarrow> 'w caller \<Rightarrow> bool" where
  "call_le f g \<longleftrightarrow> (\<forall>c args s. fle (f c args s) (g c args s))"

text \<open>A Go function gets no different answer from a closure that is run for longer.\<close>

definition entry_mono :: "'w entry \<Rightarrow> bool" where
  "entry_mono e \<longleftrightarrow> (\<forall>f g args s. call_le f g \<longrightarrow> fle (e f args s) (e g args s))"

definition env_mono :: "'w venv \<Rightarrow> bool" where
  "env_mono env \<longleftrightarrow> (\<forall>x\<in>set (ve_intrinsics env). entry_mono (ii_entry x)) \<and> (\<forall>k. entry_mono (ve_native env k))"

section \<open>The order and the combinators\<close>

lemma fle_orErr [fle_intro]:
  "fle r q \<Longrightarrow> (\<And>x s. fle (k x s) (l x s)) \<Longrightarrow> fle (orErr p pc r k) (orErr p pc q l)"
  by (cases r; cases "fst r") (auto simp: fle_def orErr_def)

lemma run_leD: "run_le f g \<Longrightarrow> fle (f p pc s) (g p pc s)"
  by (simp add: run_le_def)

lemma call_leD: "call_le f g \<Longrightarrow> fle (f c args s) (g c args s)"
  by (simp add: call_le_def)

section \<open>The parts of the interpreter\<close>

lemma recover_mono:
  assumes "run_le f g"
  shows "n \<le> n' \<Longrightarrow> fle (recover n env f brk stop p pc s) (recover n' env g brk stop p pc s)"
proof (induction n arbitrary: n' p pc s)
  case 0
  then show ?case by simp
next
  case (Suc n)
  then obtain k where k: "n' = Suc k" "n \<le> k" by (cases n') auto
  show ?case
    unfolding k(1) recover.simps by (intro fle_intro run_leD [OF assms] Suc.IH k(2))
qed

lemma runSFunc_mono:
  "run_le f g \<Longrightarrow> n \<le> n' \<Longrightarrow> fle (runSFunc n env f c p args s) (runSFunc n' env g c p args s)"
  unfolding runSFunc_def by (intro fle_intro recover_mono)

lemma runNFunc_mono:
  assumes "entry_mono e" and "call_le f g"
  shows "fle (runNFunc env f c e args s) (runNFunc env g c e args s)"
proof -
  have e: "fle (e f args s) (e g args s)" for s
    using assms by (simp add: entry_mono_def)
  have "fle (case e f args s of (Ok v, s) \<Rightarrow> k v s | (Err x, s) \<Rightarrow> k' x s | (Panic m, s) \<Rightarrow> (Panic m, s) | (Diverge, s) \<Rightarrow> (Diverge, s))
            (case e g args s of (Ok v, s) \<Rightarrow> k v s | (Err x, s) \<Rightarrow> k' x s | (Panic m, s) \<Rightarrow> (Panic m, s) | (Diverge, s) \<Rightarrow> (Diverge, s))"
    for s and k :: "val \<Rightarrow> 'a vm \<Rightarrow> val res \<times> 'a vm" and k'
    using e [of s] by (cases "e f args s"; cases "fst (e f args s)") (auto simp: fle_def)
  then show ?thesis
    unfolding runNFunc_def Let_def by (intro fle_mbind fle_refl)
qed

lemma native_entry_mono: "env_mono env \<Longrightarrow> entry_mono (native_entry env r)"
  by (auto simp: env_mono_def native_entry_def entry_mono_def split: nref.split)

lemma call_closure_mono:
  assumes "env_mono env" and "run_le f g"
  shows "n \<le> n' \<Longrightarrow> call_le (call_closure n env f) (call_closure n' env g)"
proof (induction n arbitrary: n')
  case 0
  then show ?case by (simp add: call_le_def)
next
  case (Suc n)
  then obtain k where k: "n' = Suc k" "n \<le> k" by (cases n') auto
  show ?case
    unfolding k(1) call_le_def call_closure.simps
  proof (intro allI fle_rlift)
    fix c args s x
    show "fle (case x of CScript p up \<Rightarrow> runSFunc n env f c p args s
               | CNative nm r \<Rightarrow> runNFunc env (call_closure n env f) c (native_entry env r) args s
               | CMethod name recv \<Rightarrow> method_entry env recv name args s)
              (case x of CScript p up \<Rightarrow> runSFunc k env g c p args s
               | CNative nm r \<Rightarrow> runNFunc env (call_closure k env g) c (native_entry env r) args s
               | CMethod name recv \<Rightarrow> method_entry env recv name args s)"
      by (cases x)
        (auto intro: runSFunc_mono [OF assms(2) k(2)]
          runNFunc_mono [OF native_entry_mono [OF assms(1)] Suc.IH [OF k(2)]])
  qed
qed

lemma on_siter_stack_mono:
  assumes "\<And>s. fle (f s) (g s)"
  shows "fle (on_siter_stack i f s) (on_siter_stack i g s)"
  unfolding on_siter_stack_def Let_def
proof (rule fle_rlift)
  fix x
  let ?t = "s\<lparr>vm_Stack := si_stack x\<rparr>"
  show "fle (case f ?t of (r, s') \<Rightarrow> (r, upd_siter i (\<lambda>x. x\<lparr>si_stack := vm_Stack s'\<rparr>) s'\<lparr>vm_Stack := vm_Stack s\<rparr>))
            (case g ?t of (r, s') \<Rightarrow> (r, upd_siter i (\<lambda>x. x\<lparr>si_stack := vm_Stack s'\<rparr>) s'\<lparr>vm_Stack := vm_Stack s\<rparr>))"
    using assms [of ?t] by (cases "f ?t"; cases "g ?t") (auto simp: fle_def)
qed

lemma runSIterRest_mono:
  "run_le f g \<Longrightarrow> n \<le> n' \<Longrightarrow> fle (runSIterRest n env f i s) (runSIterRest n' env g i s)"
  unfolding runSIterRest_def by (intro fle_intro recover_mono)

lemma iter_SetUp_mono:
  assumes "run_le f g" "n \<le> n'"
  shows "fle (iter_SetUp n env f i args s) (iter_SetUp n' env g i args s)"
proof -
  have "fle (runSIter n env f i args s) (runSIter n' env g i args s)" for s
    unfolding runSIter_def by (intro on_siter_stack_mono fle_intro runSIterRest_mono [OF assms])
  then have "fle (siter_SetUp n env f i args s) (siter_SetUp n' env g i args s)" for s
    unfolding siter_SetUp_def Let_def by (intro fle_intro)
  then show ?thesis
    unfolding iter_SetUp_def by (intro fle_rlift) (simp split: iterobj.split)
qed

lemma iter_Next_mono:
  assumes "run_le f g" "n \<le> n'"
  shows "fle (iter_Next n env f i s) (iter_Next n' env g i s)"
proof -
  have "fle (resumeSIter n env f i s) (resumeSIter n' env g i s)" for s
    unfolding resumeSIter_def Let_def by (intro on_siter_stack_mono fle_intro runSIterRest_mono [OF assms])
  then have "fle (siter_Next n env f i s) (siter_Next n' env g i s)" for s
    unfolding siter_Next_def Let_def by (intro fle_intro)
  then show ?thesis
    unfolding iter_Next_def by (intro fle_rlift) (simp split: iterobj.split)
qed


lemma step_icall_mono:
  assumes "env_mono env" "call_le f g"
  shows "fle (step_icall env f p pc n s) (step_icall env g p pc n s)"
proof -
  have "entry_mono (ii_entry (ve_intrinsics env ! k))" if "k < length (ve_intrinsics env)" for k
    using assms(1) that by (simp add: env_mono_def)
  then have "fle (ii_entry (ve_intrinsics env ! k) f args s) (ii_entry (ve_intrinsics env ! k) g args s)"
    if "k < length (ve_intrinsics env)" for k args s
    using that assms(2) by (simp add: entry_mono_def)
  then show ?thesis
    unfolding step_icall_def Let_def
    by (intro fle_rlift) (auto split: val.split intro!: fle_orErr)
qed

lemma step_vcall_mono:
  assumes "env_mono env" "call_le f g"
  shows "fle (step_vcall env f p pc n s) (step_vcall env g p pc n s)"
proof -
  have "fle (native_entry env r f args s) (native_entry env r g args s)" for r args s
    using native_entry_mono [OF assms(1)] assms(2) by (simp add: entry_mono_def)
  then show ?thesis
    unfolding step_vcall_def Let_def
    by (intro fle_rlift) (auto split: val.split closure.split intro!: fle_orErr fle_rlift)
qed

lemma step_iter_mono:
  assumes "run_le f g" "n \<le> n'"
  shows "fle (step_iter n env f m p pc op arg s) (step_iter n' env g m p pc op arg s)"
  unfolding step_iter_def must_iter_def
  by (intro fle_if fle_refl fle_rlift)
    (auto split: val.split intro!: fle_orErr fle_rlift iter_SetUp_mono [OF assms] iter_Next_mono [OF assms])

lemma step_mono:
  assumes "env_mono env" "run_le f g" "n \<le> n'"
  shows "fle (step n env f m p pc op arg s) (step n' env g m p pc op arg s)"
  unfolding step_def
  by (intro fle_if fle_refl step_icall_mono step_vcall_mono step_iter_mono call_closure_mono assms)

section \<open>More fuel, the same result\<close>

lemma runL_mono:
  assumes "env_mono env"
  shows "n \<le> n' \<Longrightarrow> fle (runL n env m p pc s) (runL n' env m p pc s)"
proof (induction n arbitrary: n' m p pc s)
  case 0
  then show ?case by simp
next
  case (Suc n)
  then obtain k where k: "n' = Suc k" "n \<le> k" by (cases n') auto
  have le: "run_le (\<lambda>p pc s. runL n env (pr_module (oe_progs env p)) p pc s)
      (\<lambda>p pc s. runL k env (pr_module (oe_progs env p)) p pc s)"
    using Suc.IH k(2) by (simp add: run_le_def)
  show ?case
    unfolding k(1) runL.simps
    by (intro fle_rlift fle_mbind step_mono assms le k(2))
      (auto split: ctl.split option.split intro: Suc.IH k(2))
qed

lemma runP_mono: "env_mono env \<Longrightarrow> n \<le> n' \<Longrightarrow> run_le (runP n env) (runP n' env)"
  by (simp add: run_le_def runP_def runL_mono)

lemma runRule_mono:
  "env_mono env \<Longrightarrow> n \<le> n' \<Longrightarrow> fle (runRule n env event p s) (runRule n' env event p s)"
  unfolding runRule_def Let_def by (intro fle_intro recover_mono runP_mono)

lemma EvalDeferred_mono:
  "env_mono env \<Longrightarrow> n \<le> n' \<Longrightarrow> fle (EvalDeferred n env m name ctx s) (EvalDeferred n' env m name ctx s)"
  unfolding EvalDeferred_def by (intro fle_intro runRule_mono)

lemma Drain_mono:
  assumes ev: "\<And>nm c s. fle (eval nm c s) (eval' nm c s)"
  shows "n \<le> n' \<Longrightarrow> fle (Drain n eval onError as) (Drain n' eval' onError as)"
proof (induction n arbitrary: n' as)
  case 0
  then show ?case by (cases as) simp
next
  case (Suc n)
  obtain a s where as: "as = (a, s)" by (cases as)
  from Suc.prems obtain k where k: "n' = Suc k" "n \<le> k" by (cases n') auto
  show ?case
  proof (cases "defq_take (vm_eventQ s)")
    case None
    then show ?thesis by (simp add: as k(1))
  next
    case (Some y)
    obtain lst q where y: "y = (lst, q)" by (cases y)
    define go where "go n e err as = (case onError (ev_name lst) err as of
        (ok, a, s) \<Rightarrow> if ok then mbind (Drain n e onError (a, s)) (\<lambda>count as. (Ok (count + 1), as)) else (Ok 1, a, s))"
      for n e err as
    have go: "fle (go n eval err as) (go k eval' err as)" for err as
      unfolding go_def using Suc.IH [OF k(2)] by (intro fle_prod fle_prod2 fle_if fle_mbind fle_refl)
    have "fle (eval (ev_name lst) (ev_context lst) (s\<lparr>vm_eventQ := q\<rparr>))
        (eval' (ev_name lst) (ev_context lst) (s\<lparr>vm_eventQ := q\<rparr>))"
      by (rule ev)
    then show ?thesis
      unfolding as k(1) Drain.simps Some y option.case prod.case Let_def
      unfolding go_def [symmetric]
      using go by (auto simp: fle_def [of "eval _ _ _"] split: prod.split res.split)
  qed
qed

lemma drainEventQueue_mono:
  assumes "env_mono env" "n \<le> n'"
  shows "fle (drainEventQueue n env m s) (drainEventQueue n' env m s)"
proof -
  let ?s = "s\<lparr>vm_inQ := True\<rparr>"
  have "fle (Drain n (EvalDeferred n env m) (drain_callback env) (0, ?s))
      (Drain n' (EvalDeferred n' env m) (drain_callback env) (0, ?s))"
    by (intro Drain_mono EvalDeferred_mono assms)
  then show ?thesis
    unfolding drainEventQueue_def
    by (cases "Drain n (EvalDeferred n env m) (drain_callback env) (0, ?s)") (auto simp: fle_def)
qed

lemma with_drain_mono:
  assumes "env_mono env" "n \<le> n'" "fle r r'"
  shows "fle (with_drain n env m r) (with_drain n' env m r')"
proof (cases "fst r = Diverge")
  case True
  then show ?thesis by (cases r) (simp add: with_drain_def fle_def)
next
  case False
  then have "r' = r" using assms(3) by (simp add: fle_def)
  then show ?thesis
    unfolding with_drain_def
    by (cases r) (auto split: res.split intro!: fle_mbind drainEventQueue_mono assms)
qed

lemma EvalWithContext_mono:
  "env_mono env \<Longrightarrow> n \<le> n' \<Longrightarrow> fle (EvalWithContext n env event ctx m s) (EvalWithContext n' env event ctx m s)"
  unfolding EvalWithContext_def by (intro with_drain_mono fle_intro runRule_mono)


text \<open>
  the result of evaluating an event does not depend on the fuel of the model. If some fuel
  reaches a result other than running out (a value, an error or a panic, with the final state
  and the drained event queue), every larger fuel reaches the same result in the same state:
  the interpreter's model is one partial function, for every module, event, context and state.
  The Go functions a script may call are only assumed not to answer differently when the
  closures they call are run for longer.
\<close>

theorem eval_fuel_irrelevant:
  assumes "env_mono env" and "EvalWithContext n env event ctx m s = (r, s')" and "r \<noteq> Diverge" and "n \<le> n'"
  shows "EvalWithContext n' env event ctx m s = (r, s')"
  using EvalWithContext_mono [OF assms(1,4), of event ctx m s] assms(2,3) by (simp add: fle_def)

lemma env_mono_venv0: "env_mono venv0"
  by (simp add: env_mono_def venv0_def oenv.defs entry_mono_def)

theorem eval_fuel_irrelevant_witness:
  "fst (EvalWithContext 1000000 venv0 ''main'' VNull 0 vm0) = Ok (VInt 120)"
proof -
  obtain s' where s': "EvalWithContext 100 venv0 ''main'' VNull 0 vm0 = (Ok (VInt 120), s')"
    using ex_fact by (cases "EvalWithContext 100 venv0 ''main'' VNull 0 vm0") simp
  have "EvalWithContext 1000000 venv0 ''main'' VNull 0 vm0 = (Ok (VInt 120), s')"
    by (rule eval_fuel_irrelevant [OF env_mono_venv0 s']) simp_all
  then show ?thesis by simp
qed

end
