(* ===== verification/VMInv.thy ===== *)
theory VMInv
  imports VMExample "HOL-Library.Sublist"
begin

text \<open>
  Invariants of the evaluator that no script can break, whatever it does. The locale
  \<open>vm_invariant\<close> takes a predicate that does not look at the stack, the frame, the exception
  value, the session or the heap, is kept by the two ways a script changes a global and by
  emitting an event, and proves that every run of the interpreter keeps it. It is interpreted on
  the globals holding shareable values only, on the pending events, and on the draining flag.
\<close>

section \<open>What is asked of the embedder\<close>

definition post :: "('s \<Rightarrow> bool) \<Rightarrow> 'a res \<times> 's \<Rightarrow> bool" where
  "post I r \<longleftrightarrow> I (snd r)"

definition call_keeps :: "('w vm \<Rightarrow> bool) \<Rightarrow> 'w caller \<Rightarrow> bool" where
  "call_keeps I call \<longleftrightarrow> (\<forall>c args s. I s \<longrightarrow> post I (call c args s))"

text \<open>A Go function keeps the invariant when the closures it calls do.\<close>

definition entry_keeps :: "('w vm \<Rightarrow> bool) \<Rightarrow> 'w entry \<Rightarrow> bool" where
  "entry_keeps I e \<longleftrightarrow> (\<forall>call args s. call_keeps I call \<longrightarrow> I s \<longrightarrow> post I (e call args s))"

definition config_keeps :: "('w vm \<Rightarrow> bool) \<Rightarrow> 'w config \<Rightarrow> bool" where
  "config_keeps I c \<longleftrightarrow>
     (\<forall>n v s. I s \<longrightarrow> post I (cfg_Push c n v s)) \<and> (\<forall>s. I s \<longrightarrow> post I (cfg_Pop c s)) \<and>
     (\<forall>n v a s. I s \<longrightarrow> post I (cfg_Property c n v a s)) \<and>
     (\<forall>n vs a s. I s \<longrightarrow> post I (cfg_Command c n vs a s))"

definition env_keeps :: "('w vm \<Rightarrow> bool) \<Rightarrow> 'w venv \<Rightarrow> bool" where
  "env_keeps I env \<longleftrightarrow>
     (\<forall>x\<in>set (ve_intrinsics env). entry_keeps I (ii_entry x)) \<and> (\<forall>k. entry_keeps I (ve_native env k)) \<and>
     (\<forall>n s. I s \<longrightarrow> post I (ve_LoadVar env n s)) \<and> (\<forall>n v s. I s \<longrightarrow> post I (ve_StoreVar env n v s)) \<and>
     (\<forall>n v s. I s \<longrightarrow> post I (ve_Action env n v s)) \<and>
     (case ve_Config env of None \<Rightarrow> True | Some c \<Rightarrow> config_keeps I c) \<and>
     (case ve_Event env of None \<Rightarrow> True | Some f \<Rightarrow> \<forall>n e s. I s \<longrightarrow> I (snd (f n e s)))"

section \<open>The combinators\<close>

named_theorems post_intro \<open>what keeps an invariant\<close>

lemma post_pair [post_intro]: "I s \<Longrightarrow> post I (x, s)"
  by (simp add: post_def)

lemma post_mbind [post_intro]:
  "post I p \<Longrightarrow> (\<And>x s. p = (Ok x, s) \<Longrightarrow> I s \<Longrightarrow> post I (k x s)) \<Longrightarrow> post I (mbind p k)"
  by (cases p; cases "fst p") (auto simp: post_def)

lemma post_rlift [post_intro]: "I s \<Longrightarrow> (\<And>x. r = Ok x \<Longrightarrow> post I (k x s)) \<Longrightarrow> post I (rlift r s k)"
  by (cases r) (auto simp: post_def)

lemma post_orErr [post_intro]:
  "post I r \<Longrightarrow> (\<And>x s. I s \<Longrightarrow> post I (k x s)) \<Longrightarrow> post I (orErr p pc r k)"
  by (cases r; cases "fst r") (auto simp: post_def orErr_def)

lemma post_if [post_intro]: "(c \<Longrightarrow> post I a) \<Longrightarrow> (\<not> c \<Longrightarrow> post I b) \<Longrightarrow> post I (if c then a else b)"
  by simp

lemma post_option [post_intro]:
  "(x = None \<Longrightarrow> post I a) \<Longrightarrow> (\<And>y. x = Some y \<Longrightarrow> post I (f y)) \<Longrightarrow>
   post I (case x of None \<Rightarrow> a | Some y \<Rightarrow> f y)"
  by (cases x) simp_all

lemma post_prod [post_intro]:
  "(\<And>a b. x = (a, b) \<Longrightarrow> post I (f a b)) \<Longrightarrow> post I (case x of (a, b) \<Rightarrow> f a b)"
  by (cases x) simp

lemma post_prod2 [post_intro]:
  "(\<And>a b. x = (a, b) \<Longrightarrow> post I (f a b s)) \<Longrightarrow> post I ((case x of (a, b) \<Rightarrow> f a b) s)"
  by (cases x) simp

lemma post_sum [post_intro]:
  "(\<And>a. post I (f a)) \<Longrightarrow> (\<And>b. post I (g b)) \<Longrightarrow> post I (case x of Inl a \<Rightarrow> f a | Inr b \<Rightarrow> g b)"
  by (cases x) simp_all

lemma post_val [post_intro]:
  "(\<And>x. v = VClosure x \<Longrightarrow> post I (f x)) \<Longrightarrow> post I b \<Longrightarrow>
   post I (case v of VClosure x \<Rightarrow> f x | _ \<Rightarrow> b)"
  by (cases v) simp_all

section \<open>Invariants of every run\<close>

locale vm_invariant =
  fixes I :: "'w vm \<Rightarrow> bool"
  assumes I_stack: "I (s\<lparr>vm_Stack := x\<rparr>) = I s"
    and I_cf: "I (s\<lparr>vm_cf := f\<rparr>) = I s"
    and I_excep: "I (s\<lparr>vm_excep := v\<rparr>) = I s"
    and I_st: "I (s\<lparr>vm_st := st\<rparr>) = I s"
    and I_session: "I (s\<lparr>vm_Session := x\<rparr>) = I s"
    and I_emit: "I s \<Longrightarrow> I (s\<lparr>vm_eventQ := defq_OnEvent n v (vm_eventQ s)\<rparr>)"
    and I_add: "I s \<Longrightarrow> global_add env st (vm_globals s m) v = Ok (b, g) \<Longrightarrow>
                I (s\<lparr>vm_globals := (vm_globals s)(m := g)\<rparr>)"
    and I_set: "I s \<Longrightarrow> global_set env st (vm_globals s m) i v = Ok (b, g) \<Longrightarrow>
                I (s\<lparr>vm_globals := (vm_globals s)(m := g)\<rparr>)"
begin

lemmas I_upd = I_stack I_cf I_excep I_st I_session

definition run_keeps :: "'w runner \<Rightarrow> bool" where
  "run_keeps run \<longleftrightarrow> (\<forall>p pc s. I s \<longrightarrow> post I (run p pc s))"

lemma post_onst [post_intro]: "I s \<Longrightarrow> post I (onst f s)"
  by (auto simp: onst_def post_def I_upd split: prod.split)

lemma I_push [simp]: "I (push v s) = I s"
  by (simp add: push_def I_upd)

lemma I_pushes [simp]: "I (pushes vs s) = I s"
  by (simp add: pushes_def I_upd)

lemma I_prologue [simp]: "I (prologue ft n p c s) = I s"
  by (simp add: prologue_def Let_def push_def I_upd)

lemma I_iterPrologue [simp]: "I (iterPrologue i p args s) = I s"
  by (simp add: iterPrologue_def)

lemma I_upd_siter [simp]: "I (upd_siter i f s) = I s"
  by (auto simp: upd_siter_def I_upd split: res.split iterobj.split)

lemma I_pushExcep [simp]: "I (pushExcep pc n s) = I s"
  by (simp add: pushExcep_def I_upd)

lemma post_popN [post_intro]: "I s \<Longrightarrow> post I (popN n s)"
  by (simp add: popN_def post_def I_upd)

lemma post_popTo [post_intro]: "I s \<Longrightarrow> post I (popTo n s)"
  by (simp add: popTo_def post_def I_upd)

lemma post_popExcep [post_intro]: "I s \<Longrightarrow> post I (popExcep s)"
  by (simp add: popExcep_def post_def I_upd)

lemma post_popv [post_intro]: "I s \<Longrightarrow> post I (popv s)"
  unfolding popv_def by (intro post_intro)

lemma post_cnext [post_intro]: "I s \<Longrightarrow> post I (cnext s)"
  by (simp add: cnext_def post_def)

lemma post_stopErr [post_intro]: "I s \<Longrightarrow> post I (stopErr p pc e s)"
  by (simp add: stopErr_def post_def)

lemma post_popfuncframe [post_intro]: "I s \<Longrightarrow> post I (popfuncframe f s)"
  unfolding popfuncframe_def by (intro post_intro) (simp_all add: I_upd)

lemma post_epilogue [post_intro]: "I s \<Longrightarrow> post I (epilogue v b s)"
  unfolding epilogue_def by (intro post_intro) simp_all

lemma post_unwind: "I s \<Longrightarrow> post I (unwind brk e bt s)"
proof (induction "length (vm_Stack s)" arbitrary: s bt rule: less_induct)
  case less
  show ?case
  proof (cases "isTop (vm_cf s) \<or> brk s")
    case True
    with less.prems show ?thesis by (subst unwind.simps) (simp add: post_def)
  next
    case False
    show ?thesis
    proof (cases "\<exists>xp prog. curExcep s = Some xp \<and> isScript (vm_cf s) \<and> ff_prog (vm_cf s) = Some prog")
      case True
      with False less.prems show ?thesis
        by (subst unwind.simps) (auto intro!: post_intro simp: I_upd split: option.split)
    next
      case no: False
      let ?r = "case prevfuncframe s of
             Ok pframe \<Rightarrow>
               (case popfuncframe pframe s of
                  (Ok _, s') \<Rightarrow> unwind brk e (if isTop pframe then bt else bt @ [pframe]) s'
                | (Err e, s') \<Rightarrow> (Err e, s')
                | (Panic m, s') \<Rightarrow> (Panic m, s')
                | (Diverge, s') \<Rightarrow> (Diverge, s'))
           | Err e \<Rightarrow> (Err e, s)
           | Panic m \<Rightarrow> (Panic m, s)
           | Diverge \<Rightarrow> (Diverge, s)"
      have "post I ?r"
      proof (cases "prevfuncframe s")
        case (Ok f)
        obtain x s' where x: "popfuncframe f s = (x, s')" by (cases "popfuncframe f s")
        have I: "I s'" using post_popfuncframe [OF less.prems, of f] x by (simp add: post_def)
        show ?thesis
        proof (cases x)
          case (Ok y)
          with x \<open>prevfuncframe s = Ok f\<close> have "length (vm_Stack s') < length (vm_Stack s)"
            by (auto simp: prevfuncframe_def stack_get_def prevframepos_def popfuncframe_def popTo_def
                elim!: rbind_OkE split: if_splits)
          then have "post I (unwind brk e bt' s')" for bt' by (rule less.hyps) (rule I)
          with x Ok \<open>prevfuncframe s = Ok f\<close> show ?thesis by simp
        qed (use x I Ok in \<open>simp_all add: post_def\<close>)
      qed (use less.prems in \<open>simp_all add: post_def\<close>)
      moreover have "unwind brk e bt s = ?r"
        using False no by (subst unwind.simps) (auto split: option.split bool.split)
      ultimately show ?thesis by simp
    qed
  qed
qed

lemma post_recover:
  "run_keeps run \<Longrightarrow> I s \<Longrightarrow> post I (recover n env run brk stop p pc s)"
proof (induction n arbitrary: p pc s)
  case 0
  then show ?case by (simp add: post_def)
next
  case (Suc n)
  then have "post I (run p pc s)" by (simp add: run_keeps_def)
  then show ?case
    unfolding recover.simps unwindForExcep_def
    by (intro post_intro post_unwind Suc.IH Suc.prems(1)) simp_all
qed

lemma post_closurePrologue [post_intro]: "I s \<Longrightarrow> post I (closurePrologue env c args s)"
  unfolding closurePrologue_def Let_def
  by (intro post_rlift) (auto simp: post_def split: closure.split)

lemma post_runSFunc: "run_keeps run \<Longrightarrow> I s \<Longrightarrow> post I (runSFunc n env run c p args s)"
  unfolding runSFunc_def by (intro post_intro post_recover) simp_all

lemma post_runNFunc:
  assumes "entry_keeps I e" "call_keeps I call" "I s"
  shows "post I (runNFunc env call c e args s)"
proof -
  define leave :: "val \<Rightarrow> 'w vm \<Rightarrow> unit res \<times> 'w vm"
    where "leave = (\<lambda>v s. mbind (epilogue v False s) (\<lambda>_ s. popN 1 s))"
  have leave: "post I (leave v s)" if "I s" for v s
    unfolding leave_def using that by (intro post_intro)
  have "post I (case e call args s of
          (Ok v, s) \<Rightarrow> mbind (leave v s) (\<lambda>_ s. (Ok v, s))
        | (Err x, s) \<Rightarrow> mbind (leave VNull s) (\<lambda>_ s. (Err x, s))
        | (Panic m, s) \<Rightarrow> (Panic m, s)
        | (Diverge, s) \<Rightarrow> (Diverge, s))" if "I s" for s
  proof -
    obtain r s' where r: "e call args s = (r, s')" by (cases "e call args s")
    have I: "I s'" using assms(1,2) that r unfolding entry_keeps_def post_def by (metis snd_conv)
    have "post I (mbind (leave v s') (\<lambda>_ s. (x, s)))" for v and x :: "val res"
      by (intro post_mbind leave I post_pair)
    then show ?thesis
      unfolding r by (cases r) (simp_all add: I post_pair)
  qed
  then show ?thesis
    unfolding runNFunc_def Let_def leave_def by (intro post_mbind post_closurePrologue assms(3))
qed

lemma native_entry_keeps: "env_keeps I env \<Longrightarrow> entry_keeps I (native_entry env r)"
  by (auto simp: env_keeps_def native_entry_def entry_keeps_def post_def split: nref.split)

lemma call_closure_keeps:
  assumes "env_keeps I env" "run_keeps run"
  shows "call_keeps I (call_closure n env run)"
proof (induction n)
  case 0
  then show ?case by (simp add: call_keeps_def post_def)
next
  case (Suc n)
  have "post I (call_closure (Suc n) env run c args s)" if "I s" for c args s
    unfolding call_closure.simps
  proof (rule post_rlift)
    show "I s" by (rule that)
    fix x
    show "post I (case x of CScript p up \<Rightarrow> runSFunc n env run c p args s
               | CNative nm r \<Rightarrow> runNFunc env (call_closure n env run) c (native_entry env r) args s
               | CMethod name recv \<Rightarrow> method_entry env recv name args s)"
      using that by (cases x)
        (auto simp: method_entry_def intro!: post_runSFunc post_runNFunc post_onst assms(2) Suc.IH
          native_entry_keeps assms(1))
  qed
  then show ?case by (simp add: call_keeps_def)
qed

section \<open>Instructions\<close>

lemma post_ctl: "I s \<Longrightarrow> post I (Ok c, s)"
  by (rule post_pair)

lemma post_step_bin: "I s \<Longrightarrow> post I (step_bin env p pc op s)"
  unfolding step_bin_def by (intro post_intro) simp_all

lemma post_step_unary: "I s \<Longrightarrow> post I (step_unary env p pc op s)"
  unfolding step_unary_def by (intro post_intro) simp_all

lemma post_step_logic: "I s \<Longrightarrow> post I (step_logic env op arg s)"
  unfolding step_logic_def by (intro post_intro)

lemma post_step_jump: "I s \<Longrightarrow> post I (step_jump env op arg s)"
  unfolding step_jump_def by (intro post_intro)

lemma post_step_stack: "I s \<Longrightarrow> post I (step_stack op s)"
  unfolding step_stack_def Let_def by (intro post_intro) (simp_all add: I_upd)

lemma post_step_load: "I s \<Longrightarrow> post I (step_load pr op arg s)"
  unfolding step_load_def by (intro post_intro) simp_all

lemma post_add_map: "I s \<Longrightarrow> post I (add_map env m vs s)"
  by (induction env m vs s rule: add_map.induct) (auto split: val.split intro!: post_intro)

lemma post_step_literal: "I s \<Longrightarrow> post I (step_literal env op cnt s)"
  unfolding step_literal_def Let_def
  by (intro post_intro; (simp add: I_upd)?)
    (auto simp: I_upd split: val.split intro!: post_intro post_add_map)

lemma post_step_string: "I s \<Longrightarrow> post I (step_string env p pc op arg s)"
  unfolding step_string_def by (intro post_intro) simp_all

lemma post_step_template: "I s \<Longrightarrow> post I (step_template env p pc arg s)"
  unfolding step_template_def by (intro post_intro) simp_all

lemma post_step_action: "env_keeps I env \<Longrightarrow> I s \<Longrightarrow> post I (step_action env p pc arg s)"
  unfolding step_action_def by (intro post_intro) (simp_all add: env_keeps_def)

lemma post_step_var: "env_keeps I env \<Longrightarrow> I s \<Longrightarrow> post I (step_var env p pc op arg s)"
  unfolding step_var_def Let_def by (intro post_intro) (simp_all add: env_keeps_def I_upd)

lemma post_step_access: "I s \<Longrightarrow> post I (step_access env p pc op arg s)"
  unfolding step_access_def by (intro post_intro) simp_all

lemma post_step_local: "I s \<Longrightarrow> post I (step_local op arg s)"
  unfolding step_local_def by (intro post_intro) (simp_all add: I_upd)

lemma post_step_session: "I s \<Longrightarrow> post I (step_session p pc op arg s)"
  unfolding step_session_def by (intro post_intro) (simp_all add: I_upd)

lemma post_step_global: "I s \<Longrightarrow> post I (step_global env m p pc op arg s)"
  unfolding step_global_def by (intro post_intro; (rule I_add I_set)?; (assumption | simp)?)

lemma post_step_excep: "I s \<Longrightarrow> post I (step_excep op arg s)"
  unfolding step_excep_def by (intro post_intro) simp_all

lemma post_step_emit: "I s \<Longrightarrow> post I (step_emit s)"
  unfolding step_emit_def by (intro post_intro) (auto split: val.split intro!: post_intro I_emit)

lemma post_step_config:
  assumes "env_keeps I env" "I s"
  shows "post I (step_config env p pc op arg s)"
proof -
  have c: "config_keeps I c" if "ve_Config env = Some c" for c
    using assms(1) that by (simp add: env_keeps_def)
  show ?thesis
    unfolding step_config_def
    by (intro post_intro assms(2); (use c assms(2) in \<open>simp add: config_keeps_def\<close>)?)
      (auto split: ctl.split intro!: post_intro)
qed

lemma post_leave: "I s \<Longrightarrow> post I (leave v s)"
  unfolding leave_def by (intro post_intro)

lemma post_step_icall:
  assumes "env_keeps I env" "call_keeps I call" "I s"
  shows "post I (step_icall env call p pc n s)"
proof -
  have "post I (ii_entry (ve_intrinsics env ! k) call args s)"
    if "k < length (ve_intrinsics env)" "I s" for k args s
    using assms(1,2) that by (simp add: env_keeps_def entry_keeps_def)
  then show ?thesis
    unfolding step_icall_def Let_def using assms(3)
    by (intro post_rlift) (auto simp: I_upd split: val.split intro!: post_pair post_orErr post_leave)
qed

lemma post_enter: "I s \<Longrightarrow> post I (enter env ft n p' c pc s)"
  unfolding enter_def Let_def by (intro post_intro) (simp_all add: I_upd)

lemma post_step_scall: "I s \<Longrightarrow> post I (step_scall env p pc n s)"
  unfolding step_scall_def by (intro post_intro post_enter)

lemma post_step_vcall:
  assumes "env_keeps I env" "call_keeps I call" "I s"
  shows "post I (step_vcall env call p pc n s)"
proof -
  have e: "post I (native_entry env r call args s)" if "I s" for r args s
    using native_entry_keeps [OF assms(1)] assms(2) that by (simp add: entry_keeps_def)
  have m: "post I (method_entry env recv name args s)" if "I s" for recv name args s
    using that unfolding method_entry_def by (rule post_onst)
  show ?thesis
    unfolding step_vcall_def Let_def using assms(3)
    by (intro post_rlift)
      (auto simp: I_upd split: val.split closure.split
        intro!: post_stopErr post_enter post_orErr post_rlift post_leave e m)
qed

lemma post_step_return: "I s \<Longrightarrow> post I (step_return s)"
  unfolding step_return_def Let_def by (intro post_intro)

lemma post_step_closure: "I s \<Longrightarrow> post I (step_closure env p pc op arg s)"
  unfolding step_closure_def Let_def by (intro post_intro) (simp_all add: I_upd)

lemma post_step_method: "I s \<Longrightarrow> post I (step_method env p pc arg s)"
  unfolding step_method_def by (intro post_intro) simp_all

lemma post_siter_suspend: "I s \<Longrightarrow> post I (siter_suspend i s)"
  unfolding siter_suspend_def by (intro post_intro) (simp_all add: I_upd)

lemma post_runSIterRest:
  assumes "run_keeps run" "I s"
  shows "post I (runSIterRest n env run i s)"
  unfolding runSIterRest_def
  by (intro post_intro post_recover post_siter_suspend assms) simp_all

lemma post_on_siter_stack:
  assumes "\<And>s. I s \<Longrightarrow> post I (f s)" "I s"
  shows "post I (on_siter_stack i f s)"
  unfolding on_siter_stack_def Let_def
proof (rule post_rlift)
  show "I s" by (rule assms)
  fix x
  have "post I (f (s\<lparr>vm_Stack := si_stack x\<rparr>))" using assms by (simp add: I_upd)
  then show "post I (case f (s\<lparr>vm_Stack := si_stack x\<rparr>) of
      (r, s') \<Rightarrow> (r, upd_siter i (\<lambda>x. x\<lparr>si_stack := vm_Stack s'\<rparr>) s'\<lparr>vm_Stack := vm_Stack s\<rparr>))"
    by (auto simp: post_def I_upd split: prod.split)
qed

lemma post_iter_SetUp:
  assumes "run_keeps run" "I s"
  shows "post I (iter_SetUp n env run i args s)"
proof -
  have "post I (runSIter n env run i args s)" if "I s" for s
    unfolding runSIter_def
    by (intro post_on_siter_stack post_rlift post_runSIterRest assms(1) that) simp_all
  then have "post I (siter_SetUp n env run i args s)" if "I s" for s
    unfolding siter_SetUp_def Let_def using that by (intro post_intro) simp_all
  then show ?thesis
    unfolding iter_SetUp_def using assms(2)
    by (intro post_rlift) (auto split: iterobj.split intro!: post_onst)
qed

lemma post_iter_Next:
  assumes "run_keeps run" "I s"
  shows "post I (iter_Next n env run i s)"
proof -
  have "post I (resumeSIter n env run i s)" if "I s" for s
    unfolding resumeSIter_def Let_def
    by (intro post_on_siter_stack post_rlift post_runSIterRest assms(1) that; simp add: I_upd)
  then have "post I (siter_Next n env run i s)" if "I s" for s
    unfolding siter_Next_def Let_def using that by (intro post_intro) simp_all
  then show ?thesis
    unfolding iter_Next_def using assms(2)
    by (intro post_rlift) (auto split: iterobj.split intro!: post_onst)
qed

lemma post_step_iter:
  assumes "run_keeps run" "I s"
  shows "post I (step_iter n env run m p pc op arg s)"
  unfolding step_iter_def must_iter_def Let_def using assms(2)
  by (intro post_if post_rlift post_mbind post_popv)
    (auto simp: I_upd split: val.split prod.split
      intro!: post_pair post_stopErr post_orErr post_onst post_cnext post_rlift post_mbind post_popN
        post_iter_SetUp [OF assms(1)] post_iter_Next [OF assms(1)])

lemma post_step:
  assumes "env_keeps I env" "run_keeps run" "I s"
  shows "post I (step n env run m p pc op arg s)"
  unfolding step_def
  by (intro post_if post_step_bin post_step_unary post_step_logic post_step_jump post_step_stack
      post_step_load post_step_template post_step_action
      post_step_literal post_step_icall post_step_method post_step_scall post_step_vcall post_step_return
      post_step_closure post_step_string post_step_var post_step_access post_step_local post_step_session
      post_step_excep post_step_config post_step_global post_step_iter post_step_emit post_pair
      call_closure_keeps assms) (simp_all add: assms(3))

section \<open>Runs\<close>

lemma post_runL: "env_keeps I env \<Longrightarrow> I s \<Longrightarrow> post I (runL n env m p pc s)"
proof (induction n arbitrary: m p pc s)
  case 0
  then show ?case by (simp add: post_def)
next
  case (Suc n)
  have k: "run_keeps (\<lambda>p pc s. runL n env (pr_module (oe_progs env p)) p pc s)"
    using Suc by (simp add: run_keeps_def)
  show ?case
    unfolding runL.simps
    by (intro post_rlift post_mbind post_step Suc.prems k)
      (auto split: ctl.split option.split intro!: post_pair Suc.IH Suc.prems(1))
qed

lemma run_keeps_runP: "env_keeps I env \<Longrightarrow> run_keeps (runP n env)"
  by (simp add: run_keeps_def runP_def post_runL)

lemma post_runRule: "env_keeps I env \<Longrightarrow> I s \<Longrightarrow> post I (runRule n env event p s)"
  unfolding runRule_def Let_def clearStack_def
  by (intro post_intro post_recover run_keeps_runP) (simp_all add: I_upd)

end


section \<open>The globals\<close>








lemma env_keeps_venv0: "env_keeps I venv0"
  by (simp add: env_keeps_def venv0_def oenv.defs entry_keeps_def post_def)


section \<open>Pending events\<close>

definition pending_from :: "eventEntry list \<Rightarrow> 'w vm \<Rightarrow> bool" where
  "pending_from q s \<longleftrightarrow> prefix q (vm_eventQ s)"

interpretation pend: vm_invariant "pending_from q" for q
  by unfold_locales (auto simp: pending_from_def defq_OnEvent_def)

lemma step_emit_event:
  assumes "vm_Stack t = below @ [VStr e, ctx]"
  shows "step k env run m p pc BcEmit arg t =
    (Ok CNext, t\<lparr>vm_Stack := below, vm_eventQ := vm_eventQ t @ [\<lparr>ev_name = e, ev_context = ctx\<rparr>]\<rparr>)"
  using assms by (simp add: step_def bin_ops_def step_emit_def topN_def popN_def cnext_def defq_OnEvent_def nth_append)

text \<open>
  C10: a rule never loses an event. Whatever it runs and however it ends, the events that were
  pending before are still pending, in the same order and in front of those it emits; and an emit
  instruction, wherever it runs, takes the event's context and name off the stack and puts exactly
  this event behind those that are pending, where it stays however the run goes on. The Go functions
  that scripts may call are assumed not to remove pending events.
\<close>

theorem pending_events_survive:
  assumes "\<And>q. env_keeps (pending_from q) env"
  shows "prefix (vm_eventQ s) (vm_eventQ (snd (runRule n env event p s))) \<and>
    (\<forall>k m q pc arg e ctx below t t'. vm_Stack t = below @ [VStr e, ctx] \<longrightarrow>
      t' = t\<lparr>vm_Stack := below, vm_eventQ := vm_eventQ t @ [\<lparr>ev_name = e, ev_context = ctx\<rparr>]\<rparr> \<longrightarrow>
      step k env (runP k env) m q pc BcEmit arg t = (Ok CNext, t') \<and>
      prefix (vm_eventQ t @ [\<lparr>ev_name = e, ev_context = ctx\<rparr>]) (vm_eventQ (snd (runL k env m q (pc + 1) t'))))"
proof -
  have keeps: "prefix (vm_eventQ t') (vm_eventQ (snd (runL k env m q i t')))" for k m q i t'
    using pend.post_runL [OF assms, of "vm_eventQ t'" t'] by (simp add: post_def pending_from_def)
  have "prefix (vm_eventQ t @ [\<lparr>ev_name = e, ev_context = ctx\<rparr>]) (vm_eventQ (snd (runL k env m q (pc + 1) t')))"
    if "t' = t\<lparr>vm_Stack := below, vm_eventQ := vm_eventQ t @ [\<lparr>ev_name = e, ev_context = ctx\<rparr>]\<rparr>"
    for t t' :: "'a vm" and e ctx below k m q pc
    using keeps [of t' k m q "pc + 1"] that by simp
  moreover have "prefix (vm_eventQ s) (vm_eventQ (snd (runRule n env event p s)))"
    using pend.post_runRule [OF assms, of "vm_eventQ s" s n event p] by (simp add: post_def pending_from_def)
  ultimately show ?thesis by (blast intro: step_emit_event)
qed

theorem pending_events_survive_witness:
  "prefix [\<lparr>ev_name = ''x'', ev_context = VNull\<rparr>]
     (vm_eventQ (snd (runRule 20 venv0 VNull 5 (EmitEvent ''x'' VNull vm0)))) \<and>
   vm_eventQ (snd (step 1 venv0 (runP 1 venv0) 0 5 0 BcEmit 0 (vm0\<lparr>vm_Stack := [VStr ''y'', VInt 2]\<rparr>))) =
     [\<lparr>ev_name = ''y'', ev_context = VInt 2\<rparr>]"
proof -
  have "vm_Stack (vm0\<lparr>vm_Stack := [VStr ''y'', VInt 2]\<rparr>) = [] @ [VStr ''y'', VInt 2]" by simp
  then show ?thesis
    using pending_events_survive [OF env_keeps_venv0, of "EmitEvent ''x'' VNull vm0" 20 VNull 5]
    by (simp add: EmitEvent_def defq_OnEvent_def vm0_def NewEvaluator_def)
qed

end
