(* ===== verification/EvalProps.thy ===== *)
theory EvalProps
  imports VMExample
begin

text \<open>
  Draining the event queue: the order of the handlers, what the handler of event errors decides,
  and the guard against draining inside a drain.
\<close>

section \<open>Order\<close>

definition err_of :: "'a res \<Rightarrow> string option" where
  "err_of r = (case r of Err e \<Rightarrow> Some e | _ \<Rightarrow> None)"

definition returns :: "'a res \<Rightarrow> bool" where
  "returns r \<longleftrightarrow> (case r of Ok _ \<Rightarrow> True | Err _ \<Rightarrow> True | _ \<Rightarrow> False)"

text \<open>The reference: the events of a list, each run with the rest of the list still pending.\<close>

fun drain_ref :: "(string \<Rightarrow> val \<Rightarrow> 'w vm \<Rightarrow> val res \<times> 'w vm) \<Rightarrow> eventEntry list \<Rightarrow> 'w vm \<Rightarrow> 'w vm" where
  "drain_ref eval [] s = s\<lparr>vm_eventQ := []\<rparr>"
| "drain_ref eval (x # xs) s =
     drain_ref eval xs (snd (eval (ev_name x) (ev_context x) (s\<lparr>vm_eventQ := rev xs\<rparr>)))"

text \<open>
  The reference: events are taken from the end of the queue, where the last one was put, each run
  with the others still pending, until none is left; those a handler emits come next. The list says
  which events were run, in order.
\<close>

inductive drained :: "(string \<Rightarrow> val \<Rightarrow> 'w vm \<Rightarrow> val res \<times> 'w vm) \<Rightarrow> 'w vm \<Rightarrow> eventEntry list \<Rightarrow> 'w vm \<Rightarrow> bool" for eval where
  drained_end: "vm_eventQ s = [] \<Longrightarrow> drained eval s [] s"
| drained_next: "vm_eventQ s = q @ [x] \<Longrightarrow> eval (ev_name x) (ev_context x) (s\<lparr>vm_eventQ := q\<rparr>) = (r, t) \<Longrightarrow>
    returns r \<Longrightarrow> drained eval t xs u \<Longrightarrow> drained eval s (x # xs) u"

text \<open>Events whose handlers, run one after the other, end and emit nothing.\<close>

fun quiet_run :: "(string \<Rightarrow> val \<Rightarrow> 'w vm \<Rightarrow> val res \<times> 'w vm) \<Rightarrow> eventEntry list \<Rightarrow> 'w vm \<Rightarrow> bool" where
  "quiet_run eval [] s \<longleftrightarrow> True"
| "quiet_run eval (x # xs) s \<longleftrightarrow>
     (case eval (ev_name x) (ev_context x) (s\<lparr>vm_eventQ := rev xs\<rparr>) of
        (r, t) \<Rightarrow> returns r \<and> vm_eventQ t = rev xs \<and> quiet_run eval xs t)"

text \<open>The embedder has no handler of event errors, or one that always answers to go on.\<close>

definition goes_on :: "'w venv \<Rightarrow> bool" where
  "goes_on env \<longleftrightarrow> (\<forall>f. ve_Event env = Some f \<longrightarrow> (\<forall>nm e t. f nm e t = (EventContextContinue, t)))"

lemma goes_on_callback: "goes_on env \<Longrightarrow> drain_callback env nm e (0, t) = (True, 0, t)"
  by (cases "ve_Event env") (auto simp: goes_on_def drain_callback_def EventContextContinue_def)

lemma Drain_round:
  assumes "vm_eventQ s = q @ [x]" and "eval (ev_name x) (ev_context x) (s\<lparr>vm_eventQ := q\<rparr>) = (r, s')" and "returns r"
  shows "Drain (Suc n) eval onError (a, s) =
    (case onError (ev_name x) (err_of r) (a, s') of
       (ok, b, t) \<Rightarrow> if ok then mbind (Drain n eval onError (b, t)) (\<lambda>count as. (Ok (count + 1), as)) else (Ok 1, b, t))"
  using assms
  by (cases r) (auto simp: defq_take_def Let_def returns_def err_of_def split: prod.split)

lemma Drain_drained:
  assumes "goes_on env"
  shows "Drain n eval (drain_callback env) (0, s) = (Ok k, a, u) \<Longrightarrow>
    a = 0 \<and> vm_eventQ u = [] \<and> (\<exists>xs. drained eval s xs u \<and> length xs = k)"
proof (induction n arbitrary: s k)
  case (Suc n)
  show ?case
  proof (cases "vm_eventQ s" rule: rev_cases)
    case Nil
    then show ?thesis using Suc.prems by (auto simp: defq_take_def intro: drained_end)
  next
    case (snoc q x)
    obtain r t where r: "eval (ev_name x) (ev_context x) (s\<lparr>vm_eventQ := q\<rparr>) = (r, t)"
      by (cases "eval (ev_name x) (ev_context x) (s\<lparr>vm_eventQ := q\<rparr>)")
    have ret: "returns r" using Suc.prems snoc r by (cases r) (simp_all add: defq_take_def returns_def)
    have "mbind (Drain n eval (drain_callback env) (0, t)) (\<lambda>count as. (Ok (count + 1), as)) = (Ok k, a, u)"
      using Suc.prems Drain_round [of s q x eval r t n "drain_callback env" 0, OF snoc r ret]
      by (simp add: goes_on_callback [OF assms])
    then obtain k' where k: "Drain n eval (drain_callback env) (0, t) = (Ok k', a, u)" "k = k' + 1"
      by (auto simp: mbind_Ok_iff)
    from Suc.IH [OF k(1)] obtain xs where "a = 0" "vm_eventQ u = []" "drained eval t xs u" "length xs = k'" by blast
    then show ?thesis using drained_next [of s q x eval r t xs u, OF snoc r ret] k(2) by (intro conjI exI [of _ "x # xs"]) simp_all
  qed
qed simp

lemma Drain_quiet:
  assumes on: "\<And>nm e t. onError nm e (a, t) = (True, a, t)"
  shows "\<lbrakk>vm_eventQ s = rev xs; length xs < n; quiet_run eval xs s\<rbrakk> \<Longrightarrow>
    Drain n eval onError (a, s) = (Ok (length xs), a, drain_ref eval xs s)"
proof (induction xs arbitrary: s n)
  case Nil
  then show ?case by (cases n) (simp_all add: defq_take_def Let_def)
next
  case (Cons x xs)
  then obtain k where k: "n = Suc k" "length xs < k" by (cases n) auto
  obtain r t where r: "eval (ev_name x) (ev_context x) (s\<lparr>vm_eventQ := rev xs\<rparr>) = (r, t)"
    by (cases "eval (ev_name x) (ev_context x) (s\<lparr>vm_eventQ := rev xs\<rparr>)")
  have t: "returns r" "vm_eventQ t = rev xs" "quiet_run eval xs t" using Cons.prems(3) r by simp_all
  have "Drain n eval onError (a, s) = mbind (Drain k eval onError (a, t)) (\<lambda>count as. (Ok (count + 1), as))"
    unfolding k(1) using Drain_round [of s "rev xs" x eval r t k onError a] Cons.prems(1) r t(1) on by simp
  moreover have "Drain k eval onError (a, t) = (Ok (length xs), a, drain_ref eval xs t)"
    by (rule Cons.IH) (use t k in simp_all)
  ultimately show ?case by (simp add: r)
qed

text \<open>
  C31: pending events run last in, first out. When no handler of event errors is installed, or one that
  always answers to go on, and the draining ends (no handler panics or runs for ever), then
  the events were evaluated one after the other, the one emitted last first, each while those
  emitted before it were still pending, events that handlers emit themselves among them, errors of
  one did not keep the others from running, and the queue is empty. When the handlers end and emit
  nothing themselves, the draining does end, and just the events of the queue were run, once each. (An event
  nobody handles is skipped.)
\<close>

theorem drain_last_in_first_out:
  assumes "goes_on env" and "\<not> vm_inQ s"
  shows "(\<forall>s'. drainEventQueue n env m s = (Ok (), s') \<longrightarrow>
      (\<exists>xs u. drained (EvalDeferred n env m) (s\<lparr>vm_inQ := True\<rparr>) xs u \<and> s' = u\<lparr>vm_inQ := False\<rparr> \<and> vm_eventQ s' = [])) \<and>
    (length (vm_eventQ s) < n \<and> quiet_run (EvalDeferred n env m) (rev (vm_eventQ s)) (s\<lparr>vm_inQ := True\<rparr>) \<longrightarrow>
      drainEventQueue n env m s =
        (Ok (), (drain_ref (EvalDeferred n env m) (rev (vm_eventQ s)) (s\<lparr>vm_inQ := True\<rparr>))\<lparr>vm_inQ := False\<rparr>))"
proof (intro conjI allI impI)
  fix s'
  assume run: "drainEventQueue n env m s = (Ok (), s')"
  obtain k a u where d: "Drain n (EvalDeferred n env m) (drain_callback env) (0, s\<lparr>vm_inQ := True\<rparr>) = (Ok k, a, u)"
    using run assms(2) by (auto simp: drainEventQueue_def split: prod.splits res.splits)
  note ends = Drain_drained [OF assms(1) d]
  then have "s' = u\<lparr>vm_inQ := False\<rparr>"
    using run d assms(2) by (auto simp: drainEventQueue_def EventContextStopAndClear_def)
  then show "\<exists>xs u. drained (EvalDeferred n env m) (s\<lparr>vm_inQ := True\<rparr>) xs u \<and> s' = u\<lparr>vm_inQ := False\<rparr> \<and> vm_eventQ s' = []"
    using ends by auto
next
  assume q: "length (vm_eventQ s) < n \<and> quiet_run (EvalDeferred n env m) (rev (vm_eventQ s)) (s\<lparr>vm_inQ := True\<rparr>)"
  have "Drain n (EvalDeferred n env m) (drain_callback env) (0, s\<lparr>vm_inQ := True\<rparr>) =
      (Ok (length (vm_eventQ s)), 0, drain_ref (EvalDeferred n env m) (rev (vm_eventQ s)) (s\<lparr>vm_inQ := True\<rparr>))"
    using Drain_quiet [where a = "0 :: int" and s = "s\<lparr>vm_inQ := True\<rparr>" and xs = "rev (vm_eventQ s)",
        OF goes_on_callback [OF assms(1)]] q by simp
  then show "drainEventQueue n env m s =
      (Ok (), (drain_ref (EvalDeferred n env m) (rev (vm_eventQ s)) (s\<lparr>vm_inQ := True\<rparr>))\<lparr>vm_inQ := False\<rparr>)"
    using assms(2) by (simp add: drainEventQueue_def EventContextStopAndClear_def)
qed

lemma venv0_simps [simp]:
  "oe_progs venv0 6 = p_log" "ve_mods venv0 = (\<lambda>_. mod0)" "ve_Event venv0 = None"
  by (simp_all add: venv0_def plain_env_def oenv.defs)

lemma log_run:
  "runRule 5 venv0 v 6 s =
     (Ok VNull, s\<lparr>vm_Stack := [], vm_Session := vm_Session s @ [v], vm_cf := topFrame\<lparr>ff_pc := 1\<rparr>, vm_excep := VNull\<rparr>)"
proof -
  have n: "(5 :: nat) = Suc (Suc (Suc (Suc (Suc 0))))" by simp
  have steps: "step n env run m p pc BcLoadDollar a s = step_var env p pc BcLoadDollar a s"
    "step n env run m p pc BcSetSession a s = step_session p pc BcSetSession a s"
    "step n env run m p pc BcLoadNull a s = step_load (oe_progs env p) BcLoadNull a s"
    "step n env run m p pc BcReturn a s = step_return s" for n m p pc a and env :: "'b venv" and run s
    by (simp_all add: step_def bin_ops_def)
  show ?thesis
    unfolding n
    by (simp add: runRule_def runP_def p_log_def code_def newProgram_def steps idx_def
      step_var_def curevent_def stack_get_def step_session_def popv_def topN_def popN_def step_load_def step_return_def
      epilogue_def prevfuncframe_def prevframepos_def popfuncframe_def popTo_def clearStack_def prologue_def push_def
      topFrame_def isTop_def is_done_def cnext_def Let_def)
qed


lemma log_deferred:
  "EvalDeferred 5 venv0 0 ''log'' v s =
     (Ok VNull, s\<lparr>vm_Stack := [], vm_Session := vm_Session s @ [v], vm_cf := topFrame\<lparr>ff_pc := 1\<rparr>, vm_excep := VNull\<rparr>)"
  by (simp add: EvalDeferred_def findEvent_def mod0_def log_run)

definition two_logs :: "unit vm" where
  "two_logs = EmitEvent ''log'' (VInt 2) (EmitEvent ''log'' (VInt 1) vm0)"

theorem drain_last_in_first_out_witness:
  "vm_Session (snd (drainEventQueue 5 venv0 0 two_logs)) = [VInt 2, VInt 1] \<and>
   vm_eventQ (snd (drainEventQueue 5 venv0 0 two_logs)) = []"
proof -
  have q: "vm_eventQ two_logs =
      [\<lparr>ev_name = ''log'', ev_context = VInt 1\<rparr>, \<lparr>ev_name = ''log'', ev_context = VInt 2\<rparr>]"
    by (simp add: two_logs_def EmitEvent_def defq_OnEvent_def vm0_def NewEvaluator_def)
  have s: "\<not> vm_inQ two_logs" "vm_Session two_logs = []"
    by (simp_all add: two_logs_def EmitEvent_def vm0_def NewEvaluator_def)
  have "quiet_run (EvalDeferred 5 venv0 0) (rev (vm_eventQ two_logs)) (two_logs\<lparr>vm_inQ := True\<rparr>)"
    by (simp add: q log_deferred returns_def)
  moreover have "goes_on venv0" by (simp add: goes_on_def)
  ultimately have "drainEventQueue 5 venv0 0 two_logs = (Ok (), (drain_ref (EvalDeferred 5 venv0 0)
      (rev (vm_eventQ two_logs)) (two_logs\<lparr>vm_inQ := True\<rparr>))\<lparr>vm_inQ := False\<rparr>)"
    using drain_last_in_first_out [of venv0 two_logs 5 0] s(1) by (simp add: q)
  then show ?thesis by (simp add: q s log_deferred)
qed

section \<open>The handler of event errors\<close>

text \<open>
  what the embedder's error handler decides. It is called behind every event, with a nil
  error when the event succeeded, and any answer other than to continue ends the draining there:
  the events still pending stay in the queue for the next drain, except that the answer to stop
  and clear empties it. While a drain is going on, another one does nothing.
\<close>

theorem drain_error_answer:
  assumes "ve_Event env = Some f" and "\<not> vm_inQ s" and "vm_eventQ s = q @ [x]"
    and "EvalDeferred (Suc n) env m (ev_name x) (ev_context x) (s\<lparr>vm_inQ := True, vm_eventQ := q\<rparr>) = (r, s1)"
    and "returns r" and "f (ev_name x) (err_of r) s1 = (status, s2)" and "status \<noteq> EventContextContinue"
  shows "drainEventQueue (Suc n) env m s =
      (Ok (), (if status = EventContextStopAndClear then s2\<lparr>vm_eventQ := []\<rparr> else s2)\<lparr>vm_inQ := False\<rparr>) \<and>
    (\<forall>t. vm_inQ t \<longrightarrow> drainEventQueue (Suc n) env m t = (Ok (), t))"
proof -
  have "drain_callback env (ev_name x) (err_of r) (0, s1) = (False, status, s2)"
    using assms(1,6,7) by (simp add: drain_callback_def)
  then show ?thesis
    using assms(2) Drain_round [of "s\<lparr>vm_inQ := True\<rparr>" q x "EvalDeferred (Suc n) env m" r s1 n "drain_callback env" 0]
      assms(3,4,5)
    by (simp add: drainEventQueue_def defq_Clear_def Let_def)
qed

definition venv_stop :: "unit venv" where
  "venv_stop = venv0\<lparr>ve_Event := Some (\<lambda>_ _ s. (2, s))\<rparr>"

theorem drain_error_answer_witness:
  "vm_Session (snd (drainEventQueue 5 venv_stop 0 two_logs)) = [VInt 2] \<and>
   vm_eventQ (snd (drainEventQueue 5 venv_stop 0 two_logs)) = []"
proof -
  let ?x = "\<lparr>ev_name = ''log'', ev_context = VInt 2\<rparr>" and ?q = "[\<lparr>ev_name = ''log'', ev_context = VInt 1\<rparr>]"
  let ?s = "two_logs\<lparr>vm_inQ := True, vm_eventQ := ?q\<rparr>"
  have s: "vm_eventQ two_logs = ?q @ [?x]" "\<not> vm_inQ two_logs" "vm_Session two_logs = []"
    by (simp_all add: two_logs_def EmitEvent_def defq_OnEvent_def vm0_def NewEvaluator_def)
  have run: "fst (EvalDeferred 5 venv_stop 0 ''log'' (VInt 2) ?s) = Ok VNull"
    "vm_Session (snd (EvalDeferred 5 venv_stop 0 ''log'' (VInt 2) ?s)) = [VInt 2]"
    unfolding venv_stop_def two_logs_def by code_simp+
  obtain s1 where s1: "EvalDeferred 5 venv_stop 0 ''log'' (VInt 2) ?s = (Ok VNull, s1)" "vm_Session s1 = [VInt 2]"
    using run by (cases "EvalDeferred 5 venv_stop 0 ''log'' (VInt 2) ?s") simp
  have "drainEventQueue (Suc 4) venv_stop 0 two_logs =
      (Ok (), (if (2 :: int) = EventContextStopAndClear then s1\<lparr>vm_eventQ := []\<rparr> else s1)\<lparr>vm_inQ := False\<rparr>) \<and>
    (\<forall>t. vm_inQ t \<longrightarrow> drainEventQueue (Suc 4) venv_stop 0 t = (Ok (), t))"
    by (rule drain_error_answer [of venv_stop "\<lambda>_ _ s. (2, s)" two_logs ?q ?x 4 0 "Ok VNull" s1 2 s1])
      (use s1 s in \<open>simp_all add: venv_stop_def returns_def EventContextContinue_def\<close>)
  then show ?thesis using s1(2) by (simp add: EventContextStopAndClear_def)
qed

end
