(* ===== verification/VMStack.thy ===== *)
theory VMStack
  imports VMExample
begin

text \<open>
  The stack discipline of the bytecode: what each instruction takes from the stack and leaves
  there, that it touches nothing below, that iterators run on a stack of their own, and that a
  call instruction and the return of the called function belong together.
\<close>

section \<open>Effects\<close>

text \<open>
  Values taken and left, for an instruction that goes on with the next one or (\<open>jumped\<close>) jumps.
  Calls, the embedder's hooks and instructions that run other code have no entry.
\<close>

definition effect :: "opcode \<Rightarrow> nat \<Rightarrow> bool \<Rightarrow> (nat \<times> nat) option" where
  "effect op arg jumped =
     (if jumped then
        (if op = BcOr \<or> op = BcAnd then Some (1, 1)
         else if op \<in> set [BcJfalse, BcJtrue, BcTernary] then Some (1, 0)
         else if op = BcJump \<or> op = BcPopException then Some (0, 0)
         else None)
      else if op \<in> set bin_ops then Some (2, 1)
      else if op \<in> set [BcNot, BcNegate, BcToStr, BcTemplate, BcDot, BcLoadMethod, BcNewIterator] then Some (1, 1)
      else if op \<in> set [BcOr, BcAnd, BcJfalse, BcJtrue, BcPop, BcSetSession, BcStoreSession, BcSetGlobal,
          BcStoreGlobal, BcStoreUpvalue] then Some (1, 0)
      else if op \<in> set [BcTernary, BcDotSet, BcEmit] then Some (2, 0)
      else if op \<in> set [BcLoadInt, BcLoadReal, BcLoadStr, BcLoadRegexp, BcLoadTrue, BcLoadFalse, BcLoadNull,
          BcNewList, BcNewMap, BcLoadDollar, BcLoadLocal, BcLoadSession, BcLoadException, BcLoadGlobal,
          BcNewClosure, BcLoadUpvalue, BcLoadIterator, BcHasIterator] then Some (0, 1)
      else if op = BcSwap then Some (2, 2)
      else if op = BcDup1 then Some (1, 2)
      else if op = BcDup2 then Some (2, 4)
      else if op = BcAddList then Some (arg, 0)
      else if op = BcAddMap then Some (arg * 2, 0)
      else if op = BcNewPair \<or> op = BcIndex then Some (2, 1)
      else if op = BcConStr then Some (arg, 1)
      else if op = BcIndexSet then Some (3, 0)
      else if op = BcReserveLocal then Some (0, arg)
      else if op = BcPushException then Some (0, 0)
      else if op = BcDerefIterator then Some (0, 2)
      else None)"

definition touched :: "nat \<Rightarrow> nat \<Rightarrow> 'w vm \<Rightarrow> 'w vm \<Rightarrow> bool" where
  "touched a b s s' \<longleftrightarrow>
     a \<le> length (vm_Stack s) \<and> length (vm_Stack s') = length (vm_Stack s) - a + b \<and>
     take (length (vm_Stack s) - a) (vm_Stack s') = take (length (vm_Stack s) - a) (vm_Stack s) \<and>
     vm_cf s' = (vm_cf s)\<lparr>ff_excep := ff_excep (vm_cf s')\<rparr>"

section \<open>Reading successful steps\<close>

lemma mbind_OkE:
  "mbind p k = (Ok y, s') \<Longrightarrow> (\<And>x s. p = (Ok x, s) \<Longrightarrow> k x s = (Ok y, s') \<Longrightarrow> P) \<Longrightarrow> P"
  by (auto simp: mbind_Ok_iff)

lemma rlift_OkE: "rlift r s k = (Ok y, s') \<Longrightarrow> (\<And>x. r = Ok x \<Longrightarrow> k x s = (Ok y, s') \<Longrightarrow> P) \<Longrightarrow> P"
  by (cases r) auto

lemma orErr_CNextE:
  "orErr p pc r k = (Ok CNext, s') \<Longrightarrow> (\<And>x s. r = (Ok x, s) \<Longrightarrow> k x s = (Ok CNext, s') \<Longrightarrow> P) \<Longrightarrow> P"
  by (cases r; cases "fst r") (auto simp: orErr_def)

lemma orErr_not_CJump:
  "orErr p pc r k = (Ok (CJump i), s') \<Longrightarrow> (\<And>x s. r = (Ok x, s) \<Longrightarrow> k x s = (Ok (CJump i), s') \<Longrightarrow> P) \<Longrightarrow> P"
  by (cases r; cases "fst r") (auto simp: orErr_def)

lemma if_OkE: "(if c then a else b) = r \<Longrightarrow> (c \<Longrightarrow> a = r \<Longrightarrow> P) \<Longrightarrow> (\<not> c \<Longrightarrow> b = r \<Longrightarrow> P) \<Longrightarrow> P"
  by (cases c) simp_all

lemma prod_OkE: "(case x of (a, b) \<Rightarrow> f a b) = r \<Longrightarrow> (\<And>a b. x = (a, b) \<Longrightarrow> f a b = r \<Longrightarrow> P) \<Longrightarrow> P"
  by (cases x) simp

lemma option_OkE:
  "(case x of None \<Rightarrow> a | Some y \<Rightarrow> f y) = r \<Longrightarrow> (x = None \<Longrightarrow> a = r \<Longrightarrow> P) \<Longrightarrow>
   (\<And>y. x = Some y \<Longrightarrow> f y = r \<Longrightarrow> P) \<Longrightarrow> P"
  by (cases x) simp_all

lemmas okE = mbind_OkE rlift_OkE orErr_CNextE orErr_not_CJump if_OkE prod_OkE option_OkE

lemma popN_Ok: "popN n s = (Ok u, s') \<longleftrightarrow>
    n \<le> length (vm_Stack s) \<and> s' = s\<lparr>vm_Stack := take (length (vm_Stack s) - n) (vm_Stack s)\<rparr>"
  by (auto simp: popN_def)

lemma topN_Ok: "topN n s = Ok v \<longleftrightarrow> n < length (vm_Stack s) \<and> v = vm_Stack s ! (length (vm_Stack s) - n - 1)"
  by (auto simp: topN_def)

lemma popv_Ok: "popv s = (Ok v, s') \<longleftrightarrow>
    vm_Stack s \<noteq> [] \<and> v = last (vm_Stack s) \<and> s' = s\<lparr>vm_Stack := take (length (vm_Stack s) - 1) (vm_Stack s)\<rparr>"
  by (cases "vm_Stack s = []")
    (auto simp: popv_def topN_def popN_def last_conv_nth Suc_le_eq)

lemma onst_Ok: "onst f s = (r, s') \<longleftrightarrow> fst (f (vm_st s)) = r \<and> s' = s\<lparr>vm_st := snd (f (vm_st s))\<rparr>"
  by (auto simp: onst_def split: prod.split)

lemma last_n_Ok: "last_n n s = Ok vs \<longleftrightarrow> n \<le> length (vm_Stack s) \<and> vs = drop (length (vm_Stack s) - n) (vm_Stack s)"
  by (auto simp: last_n_def)

lemma cnext_Ok [simp]: "cnext s = (Ok c, s') \<longleftrightarrow> c = CNext \<and> s' = s"
  by (auto simp: cnext_def)

lemma stopErr_Ok [simp]: "stopErr p pc e s = (Ok c, s') \<longleftrightarrow> c = CStop (RErr p pc e) \<and> s' = s"
  by (auto simp: stopErr_def)

lemmas reads = popN_Ok topN_Ok popv_Ok onst_Ok last_n_Ok

lemma stack_frame_simps [simp]:
  "vm_Stack (push v s) = vm_Stack s @ [v]" "vm_cf (push v s) = vm_cf s"
  "vm_Stack (pushes vs s) = vm_Stack s @ vs" "vm_cf (pushes vs s) = vm_cf s"
  by (simp_all add: push_def pushes_def)

lemma bin_effect: "step_bin env p pc op s = (Ok CNext, s') \<Longrightarrow> touched 2 1 s s'"
  unfolding step_bin_def by (elim okE) (auto simp: reads touched_def)

lemma unary_effect: "step_unary env p pc op s = (Ok CNext, s') \<Longrightarrow> touched 1 1 s s'"
  unfolding step_unary_def
  by (elim okE) (auto simp: reads touched_def Suc_le_eq elim!: okE split: if_split_asm)

lemma logic_effect:
  "step_logic env op arg s = (Ok CNext, s') \<Longrightarrow> touched 1 0 s s'"
  "step_logic env op arg s = (Ok (CJump i), s') \<Longrightarrow> touched 1 1 s s'"
  unfolding step_logic_def
  by (elim okE; auto simp: reads touched_def Suc_le_eq elim!: okE split: if_split_asm)+

lemma jump_effect:
  "op \<in> set [BcJfalse, BcJtrue] \<Longrightarrow> step_jump env op arg s = (Ok CNext, s') \<Longrightarrow> touched 1 0 s s'"
  "op \<in> set [BcJfalse, BcJtrue, BcTernary] \<Longrightarrow> step_jump env op arg s = (Ok (CJump i), s') \<Longrightarrow> touched 1 0 s s'"
  "step_jump env BcTernary arg s = (Ok CNext, s') \<Longrightarrow> touched 2 0 s s'"
  "step_jump env BcJump arg s = (Ok (CJump i), s') \<Longrightarrow> touched 0 0 s s'"
  unfolding step_jump_def
  by (auto simp: reads touched_def Suc_le_eq elim!: okE split: if_split_asm)

lemma stack_effect:
  "step_stack BcSwap s = (Ok CNext, s') \<Longrightarrow> touched 2 2 s s'"
  "step_stack BcPop s = (Ok CNext, s') \<Longrightarrow> touched 1 0 s s'"
  "step_stack BcDup1 s = (Ok CNext, s') \<Longrightarrow> touched 1 2 s s'"
  "step_stack BcDup2 s = (Ok CNext, s') \<Longrightarrow> touched 2 4 s s'"
  unfolding step_stack_def
  by (auto simp: reads touched_def Suc_le_eq Let_def elim!: okE split: if_split_asm)

lemma load_effect: "step_load pr op arg s = (Ok CNext, s') \<Longrightarrow> touched 0 1 s s'"
  unfolding step_load_def by (elim okE) (simp_all add: touched_def)

lemma add_map_state: "add_map env m vs s = (r, s') \<Longrightarrow> vm_Stack s' = vm_Stack s \<and> vm_cf s' = vm_cf s"
proof (induction env m vs s rule: add_map.induct)
  case (1 env m name v vs s)
  show ?case
  proof (cases name)
    case (VStr k)
    obtain x t where x: "onst (map_set env m k v) s = (x, t)" by (cases "onst (map_set env m k v) s")
    then have t: "vm_Stack t = vm_Stack s \<and> vm_cf t = vm_cf s" by (simp add: onst_Ok)
    show ?thesis
    proof (cases x)
      case (Ok u)
      with "1.prems" VStr x have "add_map env m vs t = (r, s')" by simp
      with "1.IH" [OF VStr] x Ok have "vm_Stack s' = vm_Stack t \<and> vm_cf s' = vm_cf t" by simp
      with t show ?thesis by simp
    qed (use "1.prems" VStr x t in simp_all)
  qed (use "1.prems" in simp_all)
qed simp_all

lemma literal_effect:
  "op \<in> set [BcNewList, BcNewMap] \<Longrightarrow> step_literal env op cnt s = (Ok CNext, s') \<Longrightarrow> touched 0 1 s s'"
  "step_literal env BcAddList cnt s = (Ok CNext, s') \<Longrightarrow> touched cnt 0 s s'"
  "step_literal env BcAddMap cnt s = (Ok CNext, s') \<Longrightarrow> touched (cnt * 2) 0 s s'"
  "step_literal env BcNewPair cnt s = (Ok CNext, s') \<Longrightarrow> touched 2 1 s s'"
  unfolding step_literal_def Let_def
  subgoal by (elim okE) (auto simp: touched_def)
  subgoal by (elim okE; simp split: val.split_asm; elim okE; simp add: reads touched_def)
  subgoal by (elim okE; simp split: val.split_asm; elim okE; auto simp: reads touched_def dest!: add_map_state)
  subgoal by (elim okE) (simp_all add: reads touched_def)
  done


lemma string_effect:
  "step_string env p pc BcToStr arg s = (Ok CNext, s') \<Longrightarrow> touched 1 1 s s'"
  "step_string env p pc BcConStr arg s = (Ok CNext, s') \<Longrightarrow> touched arg 1 s s'"
  unfolding step_string_def by (elim okE; simp add: reads touched_def Suc_le_eq)+

lemma template_effect: "step_template env p pc arg s = (Ok CNext, s') \<Longrightarrow> touched 1 1 s s'"
  unfolding step_template_def by (elim okE) (simp add: reads touched_def Suc_le_eq)

lemma dollar_effect: "step_var env p pc BcLoadDollar arg s = (Ok CNext, s') \<Longrightarrow> touched 0 1 s s'"
  unfolding step_var_def by (elim okE; simp add: touched_def)

lemma access_effect:
  "step_access env p pc BcIndex arg s = (Ok CNext, s') \<Longrightarrow> touched 2 1 s s'"
  "step_access env p pc BcIndexSet arg s = (Ok CNext, s') \<Longrightarrow> touched 3 0 s s'"
  "step_access env p pc BcDot arg s = (Ok CNext, s') \<Longrightarrow> touched 1 1 s s'"
  "step_access env p pc BcDotSet arg s = (Ok CNext, s') \<Longrightarrow> touched 2 0 s s'"
  unfolding step_access_def by (elim okE; auto simp: reads touched_def)+

lemma local_effect:
  "step_local BcReserveLocal arg s = (Ok CNext, s') \<Longrightarrow> touched 0 arg s s'"
  "step_local BcLoadLocal arg s = (Ok CNext, s') \<Longrightarrow> touched 0 1 s s'"
  unfolding step_local_def by (elim okE; simp add: touched_def)+

lemma session_effect:
  "op \<in> set [BcSetSession, BcStoreSession] \<Longrightarrow> step_session p pc op arg s = (Ok CNext, s') \<Longrightarrow> touched 1 0 s s'"
  "step_session p pc BcLoadSession arg s = (Ok CNext, s') \<Longrightarrow> touched 0 1 s s'"
  unfolding step_session_def by (elim okE; auto simp: reads touched_def Suc_le_eq)+

lemma global_effect:
  "op \<in> set [BcSetGlobal, BcStoreGlobal] \<Longrightarrow> step_global env m p pc op arg s = (Ok CNext, s') \<Longrightarrow> touched 1 0 s s'"
  "step_global env m p pc BcLoadGlobal arg s = (Ok CNext, s') \<Longrightarrow> touched 0 1 s s'"
  unfolding step_global_def by (elim okE; auto simp: reads touched_def Suc_le_eq)+

lemma excep_effect:
  "step_excep BcPushException arg s = (Ok CNext, s') \<Longrightarrow> touched 0 0 s s'"
  "step_excep BcLoadException arg s = (Ok CNext, s') \<Longrightarrow> touched 0 1 s s'"
  "step_excep BcPopException arg s = (Ok (CJump i), s') \<Longrightarrow> touched 0 0 s s'"
  unfolding step_excep_def by (elim okE; auto simp: touched_def pushExcep_def popExcep_def split: if_splits)+

lemma emit_effect: "step_emit s = (Ok CNext, s') \<Longrightarrow> touched 2 0 s s'"
  unfolding step_emit_def
  by (elim okE) (auto simp: reads touched_def Suc_le_eq split: val.split_asm)

lemma closure_effect:
  "op \<in> set [BcNewClosure, BcLoadUpvalue] \<Longrightarrow> step_closure env p pc op arg s = (Ok CNext, s') \<Longrightarrow> touched 0 1 s s'"
  "step_closure env p pc BcStoreUpvalue arg s = (Ok CNext, s') \<Longrightarrow> touched 1 0 s s'"
  unfolding step_closure_def Let_def by (elim okE; auto simp: reads touched_def Suc_le_eq)+

lemma method_effect: "step_method env p pc arg s = (Ok CNext, s') \<Longrightarrow> touched 1 1 s s'"
  unfolding step_method_def by (elim okE) (simp add: reads touched_def Suc_le_eq)

lemma iter_effect:
  "step_iter n env run m p pc BcNewIterator arg s = (Ok CNext, s') \<Longrightarrow> touched 1 1 s s'"
  "step_iter n env run m p pc BcLoadIterator arg s = (Ok CNext, s') \<Longrightarrow> touched 0 1 s s'"
  "step_iter n env run m p pc BcHasIterator arg s = (Ok CNext, s') \<Longrightarrow> touched 0 1 s s'"
  "step_iter n env run m p pc BcDerefIterator arg s = (Ok CNext, s') \<Longrightarrow> touched 0 2 s s'"
  unfolding step_iter_def must_iter_def Let_def
  by (elim okE; auto simp: reads touched_def Suc_le_eq elim!: okE split: val.split_asm)+


section \<open>The discipline\<close>

lemmas effects = bin_effect unary_effect logic_effect jump_effect stack_effect load_effect literal_effect
  string_effect template_effect dollar_effect access_effect local_effect session_effect global_effect
  excep_effect emit_effect closure_effect method_effect iter_effect

lemmas effects_simplified = effects [simplified]

lemma set_ConsE: "x \<in> set (y # ys) \<Longrightarrow> (x = y \<Longrightarrow> P) \<Longrightarrow> (x \<in> set ys \<Longrightarrow> P) \<Longrightarrow> P"
  by auto

lemma set_NilE: "x \<in> set [] \<Longrightarrow> P"
  by simp

lemmas set_listE = set_ConsE set_NilE

lemma step_jumped_effect:
  assumes "effect op arg True = Some (a, b)" and "step n env run m p pc op arg s = (Ok (CJump i), s')"
  shows "touched a b s s'"
proof -
  from assms(1) have "op \<in> set [BcOr, BcAnd, BcJfalse, BcJtrue, BcTernary, BcJump, BcPopException]"
    by (auto simp: effect_def split: if_split_asm)
  with assms show ?thesis
    by (elim set_listE)
      (auto simp: effect_def step_def bin_ops_def
        dest: logic_effect(2) jump_effect(2) [of BcJfalse, simplified] jump_effect(2) [of BcJtrue, simplified]
          jump_effect(2) [of BcTernary, simplified] jump_effect(4) excep_effect(3))
qed

lemma step_next_effect:
  assumes "effect op arg False = Some (a, b)" and "step n env run m p pc op arg s = (Ok CNext, s')"
  shows "touched a b s s'"
proof -
  have bin: "step n env run m p pc op arg s = step_bin env p pc op s" if "op \<in> set bin_ops"
    using that by (simp add: step_def)
  from assms(1) consider "op \<in> set bin_ops" "a = 2" "b = 1"
    | "op \<in> set [BcNot, BcNegate, BcToStr, BcTemplate, BcDot, BcLoadMethod, BcNewIterator]"
    | "op \<in> set [BcOr, BcAnd, BcJfalse, BcJtrue, BcPop, BcSetSession, BcStoreSession, BcSetGlobal,
          BcStoreGlobal, BcStoreUpvalue]"
    | "op \<in> set [BcTernary, BcDotSet, BcEmit]"
    | "op \<in> set [BcLoadInt, BcLoadReal, BcLoadStr, BcLoadRegexp, BcLoadTrue, BcLoadFalse, BcLoadNull,
          BcNewList, BcNewMap, BcLoadDollar, BcLoadLocal, BcLoadSession, BcLoadException, BcLoadGlobal,
          BcNewClosure, BcLoadUpvalue, BcLoadIterator, BcHasIterator]"
    | "op \<in> set [BcSwap, BcDup1, BcDup2, BcAddList, BcAddMap, BcNewPair, BcIndex, BcConStr, BcIndexSet,
          BcReserveLocal, BcPushException, BcDerefIterator]"
    by (simp only: effect_def if_False split: if_split_asm) (simp_all, blast)
  then show ?thesis
  proof cases
    case 1
    with assms(2) bin bin_effect [of env p pc op s s'] show ?thesis by simp
  next
    case 2
    with assms show ?thesis
      by (elim set_listE) (auto simp: effect_def step_def bin_ops_def intro: effects_simplified)
  next
    case 3
    with assms show ?thesis
      by (elim set_listE) (auto simp: effect_def step_def bin_ops_def intro: effects_simplified)
  next
    case 4
    with assms show ?thesis
      by (elim set_listE) (auto simp: effect_def step_def bin_ops_def intro: effects_simplified)
  next
    case 5
    with assms show ?thesis
      by (elim set_listE) (auto simp: effect_def step_def bin_ops_def intro: effects_simplified)
  next
    case 6
    with assms show ?thesis
      by (elim set_listE) (auto simp: effect_def step_def bin_ops_def intro: effects_simplified)
  qed
qed


text \<open>
  C12: the stack discipline. An instruction that goes on or jumps takes exactly the operands and
  leaves exactly the results of its entry in the table, needs its operands to be there, and
  changes neither the stack below them nor the current frame (other than its list of handlers):
  arguments, locals and the frames of the callers are safe from it.
\<close>

theorem stack_discipline:
  assumes "effect op arg jumped = Some (a, b)"
    and "step n env run m p pc op arg s = (Ok (if jumped then CJump i else CNext), s')"
  shows "a \<le> length (vm_Stack s) \<and> length (vm_Stack s') = length (vm_Stack s) - a + b \<and>
    take (length (vm_Stack s) - a) (vm_Stack s') = take (length (vm_Stack s) - a) (vm_Stack s) \<and>
    vm_cf s' = (vm_cf s)\<lparr>ff_excep := ff_excep (vm_cf s')\<rparr>"
  using assms step_jumped_effect step_next_effect unfolding touched_def
  by (cases jumped) (simp_all, blast+)


definition s_sub :: "unit vm" where
  "s_sub = vm0\<lparr>vm_Stack := [VStr ''below'', VInt 7, VInt 5]\<rparr>"

theorem stack_discipline_witness:
  "\<exists>s'. step 0 venv0 (\<lambda>_ _ s. (Diverge, s)) 0 0 0 BcSub 0 s_sub = (Ok CNext, s') \<and>
     length (vm_Stack s') = 2 \<and> take 1 (vm_Stack s') = [VStr ''below'']"
proof -
  have "fst (step 0 venv0 (\<lambda>_ _ s. (Diverge, s)) 0 0 0 BcSub 0 s_sub) = Ok CNext" by code_simp
  then obtain s' where s': "step 0 venv0 (\<lambda>_ _ s. (Diverge, s)) 0 0 0 BcSub 0 s_sub = (Ok CNext, s')"
    by (cases "step 0 venv0 (\<lambda>_ _ s. (Diverge, s)) 0 0 0 BcSub 0 s_sub") simp
  moreover have "effect BcSub 0 False = Some (2, 1)" by (simp add: effect_def bin_ops_def)
  ultimately show ?thesis
    using stack_discipline [of BcSub 0 False 2 1 0 venv0 "\<lambda>_ _ s. (Diverge, s)" 0 0 0 s_sub 0 s']
    by (simp add: s_sub_def)
qed

section \<open>Iterators run on their own stack\<close>

lemma on_siter_stack_Stack:
  "on_siter_stack i f s = (r, s') \<Longrightarrow> vm_Stack s' = vm_Stack s"
  unfolding on_siter_stack_def Let_def rlift_def
  by (cases "get_siter i s") (auto split: prod.splits)

lemma upd_siter_Stack [simp]: "vm_Stack (upd_siter i f s) = vm_Stack s"
  by (auto simp: upd_siter_def split: res.split iterobj.split)

lemma siter_SetUp_Stack:
  assumes "siter_SetUp n env run i args s = (r, s')"
  shows "vm_Stack s' = vm_Stack s"
proof -
  let ?s = "upd_siter i (\<lambda>x. x\<lparr>si_eval := True, si_err := None, si_next := False\<rparr>) s"
  obtain q t where q: "runSIter n env run i args ?s = (q, t)" by (cases "runSIter n env run i args ?s")
  then have "vm_Stack t = vm_Stack s"
    unfolding runSIter_def by (auto dest: on_siter_stack_Stack)
  then show ?thesis
    using assms q unfolding siter_SetUp_def Let_def
    by (cases q) (auto split: option.splits prod.splits)
qed

lemma siter_Next_Stack:
  assumes "siter_Next n env run i s = (r, s')"
  shows "vm_Stack s' = vm_Stack s"
proof (cases "get_siter i s")
  case (Ok x)
  let ?s = "upd_siter i (\<lambda>x. x\<lparr>si_err := None, si_next := False\<rparr>) s"
  obtain q t where q: "resumeSIter n env run i ?s = (q, t)" by (cases "resumeSIter n env run i ?s")
  then have t: "vm_Stack t = vm_Stack s"
    unfolding resumeSIter_def by (auto dest: on_siter_stack_Stack)
  show ?thesis
  proof (cases q)
    case [simp]: (Ok y)
    obtain pc e where [simp]: "y = (pc, e)" by (cases y)
    let ?t = "upd_siter i (\<lambda>x. x\<lparr>si_pc := pc, si_err := e\<rparr>) t"
    show ?thesis
      using assms \<open>get_siter i s = Ok x\<close> q t unfolding siter_Next_def Let_def
      by (cases "get_siter i ?t") (auto split: option.splits if_splits)
  qed (use assms Ok q t in \<open>auto simp: siter_Next_def split: if_splits\<close>)
qed (use assms in \<open>simp_all add: siter_Next_def\<close>)

lemma onst_Stack: "onst f s = (r, s') \<Longrightarrow> vm_Stack s' = vm_Stack s"
  by (auto simp: onst_Ok)

text \<open>
  C13: an iterator cannot disturb the stack of whoever uses it. Setting an iterator up or asking
  it for its next element leaves the evaluator's operand stack as it was, whatever the
  iterator's script does on the way (calls, errors it catches, nested iterators) and whether it
  yields, returns, fails or panics.
\<close>

theorem iterator_isolated:
  "vm_Stack (snd (iter_SetUp n env run i args s)) = vm_Stack s \<and>
   vm_Stack (snd (iter_Next n env run i s)) = vm_Stack s"
proof (cases "deref (st_iters (vm_st s)) i")
  case (Ok it)
  then show ?thesis
    by (cases it) (auto simp: iter_SetUp_def iter_Next_def onst_def split: prod.split
      intro!: siter_SetUp_Stack [OF prod.collapse [symmetric]] siter_Next_Stack [OF prod.collapse [symmetric]])
qed (simp_all add: iter_SetUp_def iter_Next_def)


section \<open>Calls and returns\<close>

lemma localsN: "length (vm_Stack s) = b + 1 + n \<Longrightarrow> topN n s = Ok (vm_Stack s ! b)"
  by (simp add: topN_def)

text \<open>
  C11: a call of a script function and its return belong together. With the function's index and
  its arguments on the stack, the call enters the function named by the index at its first
  instruction, with the arguments in the first local slots and room for nothing else. When the
  function later returns, with any locals on its part of the stack and the result on top, the
  caller goes on behind the call with index, arguments and locals gone and the result on its
  stack, in the frame it had.
\<close>

theorem call_and_return:
  assumes st: "vm_Stack s = base @ [VInt i] @ args" and len: "length args = argSize (oe_progs env p')"
    and fn: "idx (md_fn (ve_mods env (pr_module (oe_progs env p)))) (sint i) = Ok p'"
    and free: "freeCall (oe_progs env p')" and cur: "ff_prog (vm_cf s) = Some p"
  shows "\<exists>s1. step n env run m p pc BcSCall (length args) s = (Ok (CGoto (Some p') 0), s1) \<and>
    (\<forall>k < length args. stack_get (localslot s1 k) s1 = Ok (args ! k)) \<and>
    (\<forall>s2 locals v n' run' m' pc' a.
       vm_Stack s2 = vm_Stack s1 @ locals @ [v] \<and> ff_framep (vm_cf s2) = ff_framep (vm_cf s1) \<and>
       ff_farg (vm_cf s2) = ff_farg (vm_cf s1) \<and> ff_ftype (vm_cf s2) = ff_ftype (vm_cf s1) \<longrightarrow>
       step n' env run' m' p' pc' BcReturn a s2 =
         (Ok (CGoto (Some p) (pc + 1)),
          s2\<lparr>vm_Stack := base @ [v], vm_cf := (vm_cf s)\<lparr>ff_pc := pc + 1\<rparr>\<rparr>))"
proof -
  let ?s = "s\<lparr>vm_cf := (vm_cf s)\<lparr>ff_pc := pc\<rparr>\<rparr>"
  let ?s1 = "prologue FtScript (length args) (Some p') None ?s"
  have pl: "length (vm_Stack ?s) = length base + 1 + length args" using st by simp
  note cf1 = prologue_frame [OF pl, of FtScript "Some p'" None]
  have top: "topN (length args) s = Ok (VInt i)"
    using localsN [of s "length base" "length args"] pl st by simp
  have call: "step n env run m p pc BcSCall (length args) s = (Ok (CGoto (Some p') 0), ?s1)"
    using top fn free len by (simp add: step_def bin_ops_def step_scall_def enter_def Let_def)
  have args: "stack_get (localslot ?s1 k) ?s1 = Ok (args ! k)" if "k < length args" for k
    using that st by (simp add: stack_get_def localslot_def cf1 prologue_stack nth_append)
  have ret: "step n' env run' m' p' pc' BcReturn a s2 = (Ok (CGoto (Some p) (pc + 1)),
          s2\<lparr>vm_Stack := base @ [v], vm_cf := (vm_cf s)\<lparr>ff_pc := pc + 1\<rparr>\<rparr>)"
    if s2: "vm_Stack s2 = vm_Stack ?s1 @ locals @ [v]" "ff_framep (vm_cf s2) = ff_framep (vm_cf ?s1)"
      "ff_farg (vm_cf s2) = ff_farg (vm_cf ?s1)" "ff_ftype (vm_cf s2) = ff_ftype (vm_cf ?s1)"
    for s2 locals v n' run' m' pc' a
  proof -
    have ft: "ff_ftype (vm_cf s2) = FtScript" using s2(4) by (simp add: cf1)
    have v: "topN 0 s2 = Ok v" using s2(1) by (simp add: topN_def)
    have "vm_Stack ?s = base @ [VInt i] @ args" using st by simp
    from epilogue_prologue [OF this refl, where prog = "Some p'" and clos = None and ft = FtScript and v = v
        and locals = "locals @ [v]", OF s2(1,2,3)]
    have "epilogue v False s2 = (Ok (pc, Some p), s2\<lparr>vm_Stack := base @ [v], vm_cf := (vm_cf s)\<lparr>ff_pc := pc + 1\<rparr>\<rparr>)"
      using cur by simp
    with ft v show ?thesis by (simp add: step_def bin_ops_def step_return_def Let_def)
  qed
  show ?thesis
    by (rule exI [of _ ?s1]) (use call args ret in blast)
qed

text \<open>In the rule \<open>main\<close>, about to call \<open>fact(5)\<close>.\<close>

definition s_main :: "unit vm" where
  "s_main = vm0\<lparr>vm_Stack := [VNull, VNull, VFrame topFrame, VInt 0, VInt 5],
     vm_cf := topFrame\<lparr>ff_ftype := FtRule, ff_farg := 1, ff_prog := Some 1\<rparr>\<rparr>"

theorem call_and_return_witness:
  "\<exists>s1. step 0 venv0 (\<lambda>_ _ s. (Diverge, s)) 0 1 2 BcSCall 1 s_main = (Ok (CGoto (Some 0) 0), s1) \<and>
     stack_get (localslot s1 0) s1 = Ok (VInt 5)"
proof -
  have p: "oe_progs venv0 0 = p_fact" "oe_progs venv0 1 = p_main" "ve_mods venv0 = (\<lambda>_. mod0)"
    by (simp_all add: venv0_def plain_env_def oenv.defs)
  have "vm_Stack s_main = [VNull, VNull, VFrame topFrame] @ [VInt 0] @ [VInt 5]" by (simp add: s_main_def)
  moreover have "length [VInt 5] = argSize (oe_progs venv0 0)" by (simp add: p p_fact_def code_def)
  moreover have "idx (md_fn (ve_mods venv0 (pr_module (oe_progs venv0 1)))) (sint (0 :: int64)) = Ok 0"
    by (simp add: p mod0_def idx_def)
  moreover have "freeCall (oe_progs venv0 0)"
    by (simp add: p p_fact_def code_def newProgram_def freeCall_def)
  moreover have "ff_prog (vm_cf s_main) = Some 1" by (simp add: s_main_def topFrame_def)
  ultimately show ?thesis
    using call_and_return [of s_main "[VNull, VNull, VFrame topFrame]" 0 "[VInt 5]" venv0 0 1 0 "\<lambda>_ _ s. (Diverge, s)" 0 2]
    by auto
qed

end
