(* ===== verification/VMEdges.thy ===== *)
theory VMEdges
  imports VMStack
begin

text \<open>
  Corners of the evaluator: closures capture values, calls with the wrong number of arguments,
  results of callbacks, and attributes of configuration commands.
\<close>

section \<open>Closures\<close>

lemma step_local_st: "vm_st (snd (step_local op arg t)) = vm_st t"
proof -
  have c: "vm_st (snd (cnext u)) = vm_st u" for u :: "'a vm"
    by (simp add: cnext_def)
  have p: "vm_st (snd (mbind (popN (Suc 0) u) (\<lambda>_. cnext))) = vm_st u" for u :: "'a vm"
    by (simp add: popN_def cnext_def)
  show ?thesis
    unfolding step_local_def rlift_def
    by (cases "topN 0 t"; cases "stack_get (localslot t arg) t")
      (simp_all add: p c, simp_all add: push_def pushes_def)
qed

text \<open>What \<open>capture\<close> takes, variable by variable.\<close>

definition captured :: "'w vm \<Rightarrow> upvalue \<Rightarrow> val \<Rightarrow> bool" where
  "captured s uv v \<longleftrightarrow>
     (if uv_onStack uv then stack_get (localslot s (uv_index uv)) s = Ok v
      else (\<exists>c q ups. frame_sfunc (vm_st s) (vm_cf s) = Some (c, q, ups) \<and> uv_index uv < length ups \<and>
              v = ups ! uv_index uv))"

lemma capture_all:
  "capture (frame_sfunc (vm_st s) (vm_cf s)) s uvs = Ok vs \<Longrightarrow> list_all2 (captured s) uvs vs"
proof (induction uvs arbitrary: vs)
  case (Cons uv uvs)
  from Cons.prems obtain v vs' where v: "(if uv_onStack uv then stack_get (localslot s (uv_index uv)) s
      else case frame_sfunc (vm_st s) (vm_cf s) of None \<Rightarrow> Panic ''must: upvalue capture function not existed?''
         | Some (_, _, vs) \<Rightarrow> idx vs (int (uv_index uv))) = Ok v"
    and r: "capture (frame_sfunc (vm_st s) (vm_cf s)) s uvs = Ok vs'" "vs = v # vs'"
    by (auto elim!: rbind_OkE)
  have "captured s uv v"
    using v by (auto simp: captured_def idx_def split: if_splits option.splits)
  with Cons.IH [OF r(1)] r(2) show ?case by simp
qed simp

lemma frame_sfunc_eq:
  assumes "ff_closure (vm_cf t) = Some c" "c < length (st_clos (vm_st t))" "st_clos (vm_st t) ! c = CScript fn vs"
  shows "frame_sfunc (vm_st t) (vm_cf t) = Some (c, fn, vs)"
  using assms by (simp add: frame_sfunc_def deref_def)

text \<open>
  C37: closures capture values, not variables. The instruction that makes a closure of the \<open>n\<close>-th
  function pushes a new closure that holds, in the order of the function's list, the values which the
  captured variables have at that moment, taken from the slots of the frame that makes it or from its
  own captured values. A frame that runs the closure loads exactly these values; assigning to a local
  variable of any frame leaves every closure as it is, and assigning to a captured variable changes
  the copy of the one closure that runs and nothing else.
\<close>

theorem capture_copies:
  assumes "step k env run m p pc BcNewClosure n s = (Ok CNext, s')"
  shows "\<exists>fn vs. idx (md_fn (ve_mods env (pr_module (oe_progs env p)))) (int n) = Ok fn \<and>
    progtype (oe_progs env fn) = ProgFunc \<and>
    vm_Stack s' = vm_Stack s @ [VClosure (length (st_clos (vm_st s)))] \<and>
    st_clos (vm_st s') = st_clos (vm_st s) @ [CScript fn vs] \<and>
    list_all2 (captured s) (pr_upvalue (oe_progs env fn)) vs \<and>
    (\<forall>t c ws i q. ff_closure (vm_cf t) = Some c \<longrightarrow> c < length (st_clos (vm_st t)) \<longrightarrow>
      st_clos (vm_st t) ! c = CScript q ws \<longrightarrow> i < length ws \<longrightarrow>
      step k env run m q pc BcLoadUpvalue i t = (Ok CNext, push (ws ! i) t) \<and>
      (\<forall>v. step k env run m q pc BcStoreUpvalue i (push v t) =
        (Ok CNext, t\<lparr>vm_st := (vm_st t)\<lparr>st_clos := (st_clos (vm_st t))[c := CScript q (ws[i := v])]\<rparr>\<rparr>))) \<and>
    (\<forall>op arg t. st_clos (vm_st (snd (step_local op arg t))) = st_clos (vm_st t))"
proof -
  have st: "step_closure env p pc BcNewClosure n s = (Ok CNext, s')"
    using assms by (simp add: step_def bin_ops_def)
  obtain fn vs where fn: "idx (md_fn (ve_mods env (pr_module (oe_progs env p)))) (int n) = Ok fn"
      "progtype (oe_progs env fn) = ProgFunc"
    and vs: "capture (frame_sfunc (vm_st s) (vm_cf s)) s (pr_upvalue (oe_progs env fn)) = Ok vs"
    and s': "vm_Stack s' = vm_Stack s @ [VClosure (length (st_clos (vm_st s)))]"
      "st_clos (vm_st s') = st_clos (vm_st s) @ [CScript fn vs]"
    using st by (auto simp: step_closure_def rlift_def mbind_Ok_iff new_closure_def cnext_def stopErr_def push_def pushes_def
        split: if_splits)
  have ups: "step k env run m q pc BcLoadUpvalue i t = (Ok CNext, push (ws ! i) t) \<and>
      (\<forall>v. step k env run m q pc BcStoreUpvalue i (push v t) =
        (Ok CNext, t\<lparr>vm_st := (vm_st t)\<lparr>st_clos := (st_clos (vm_st t))[c := CScript q (ws[i := v])]\<rparr>\<rparr>))"
    if "ff_closure (vm_cf t) = Some c" "c < length (st_clos (vm_st t))" "st_clos (vm_st t) ! c = CScript q ws"
      "i < length ws" for t :: "'a vm" and c ws i q
    using frame_sfunc_eq [OF that(1-3)] that(4)
    by (simp add: step_def bin_ops_def step_closure_def idx_def cnext_def topN_def popN_def push_def pushes_def)
  show ?thesis
    using fn s' capture_all [OF vs] ups by (auto simp: step_local_st)
qed

definition p_cap :: program where
  "p_cap = (newProgram 0 ''cap'' ProgFunc)\<lparr>pr_upvalue :=
     [\<lparr>uv_index = 0, uv_onStack = True\<rparr>, \<lparr>uv_index = 0, uv_onStack = False\<rparr>]\<rparr>"

definition venv_cap :: "unit venv" where
  "venv_cap = venv0\<lparr>oe_progs := (\<lambda>_. p_cap), ve_mods := (\<lambda>_. mod0\<lparr>md_fn := [3]\<rparr>)\<rparr>"

text \<open>A frame of a closure that has captured 9 makes a closure of its local variable and of that 9.\<close>

definition s_cap :: "unit vm" where
  "s_cap = s_sub\<lparr>vm_cf := (vm_cf s_sub)\<lparr>ff_closure := Some 0\<rparr>,
     vm_st := (vm_st s_sub)\<lparr>st_clos := [CScript 3 [VInt 9]]\<rparr>\<rparr>"

theorem capture_copies_witness:
  "st_clos (vm_st (snd (step 0 venv_cap (\<lambda>_ _ s. (Diverge, s)) 0 0 0 BcNewClosure 0 s_cap))) =
     [CScript 3 [VInt 9], CScript 3 [VInt 7, VInt 9]]"
proof -
  let ?r = "step 0 venv_cap (\<lambda>_ _ s. (Diverge, s)) 0 0 0 BcNewClosure 0 s_cap"
  have "fst ?r = Ok CNext" by code_simp
  then have r: "?r = (Ok CNext, snd ?r)" by (cases ?r) simp
  from capture_copies [OF r] obtain fn vs where
    fn: "idx (md_fn (ve_mods venv_cap (pr_module (oe_progs venv_cap 0)))) (int 0) = Ok fn"
    and c: "st_clos (vm_st (snd ?r)) = st_clos (vm_st s_cap) @ [CScript fn vs]"
    and vs: "list_all2 (captured s_cap) (pr_upvalue (oe_progs venv_cap fn)) vs" by blast
  have "fn = 3" using fn by (simp add: venv_cap_def idx_def)
  moreover have "vs = [VInt 7, VInt 9]"
    using vs by (auto simp: venv_cap_def p_cap_def newProgram_def list_all2_Cons1 captured_def s_cap_def s_sub_def
        vm0_def NewEvaluator_def topFrame_def stack_get_def localslot_def frame_sfunc_def deref_def)
  ultimately show ?thesis using c by (simp add: s_cap_def)
qed

section \<open>Calls with the wrong number of arguments\<close>

text \<open>
  a call with the wrong number of arguments is reported against the wrong place. The error
  the instruction raises names the called function's program together with the program counter
  of the caller, and the report looks that counter up in the called function's own line table:
  when the function has fewer instructions than that, the evaluator panics instead of reporting
  the error.
\<close>

theorem call_mismatch_location:
  assumes "topN n s = Ok (VInt i)" and "n \<noteq> argSize (oe_progs env p')"
    and "idx (md_fn (ve_mods env (pr_module (oe_progs env p)))) (sint i) = Ok p'"
    and "freeCall (oe_progs env p')"
  shows "\<exists>e s1. step k env run m p pc BcSCall n s = (Ok (CStop (RErr (Some p') pc e)), s1) \<and>
    (int (length (dbgList (oe_progs env p'))) \<le> pc \<longrightarrow>
       doErr env st bt (Some p') pc (Some e) = Panic ''index out of range'')"
  using assms by (auto simp: step_def bin_ops_def step_scall_def enter_def Let_def doErr_def idx_def stopErr_def)

definition p_one :: program where
  "p_one = code [(BcLoadNull, 0), (BcReturn, 0)] ((newProgram 0 ''one'' ProgFunc)\<lparr>argSize := 1\<rparr>)"

definition p_wrong :: program where
  "p_wrong = code [(BcLoadInt, 0), (BcLoadInt, 0), (BcLoadInt, 0), (BcSCall, 2), (BcReturn, 0)]
     ((newProgram 0 ''wrong'' ProgRule)\<lparr>tbInt := [0]\<rparr>)"

definition venv_wrong :: "unit venv" where
  "venv_wrong = venv0\<lparr>oe_progs := (\<lambda>i. if i = 0 then p_one else p_wrong)\<rparr>"

theorem call_mismatch_location_witness:
  "\<exists>e s1. step 0 venv_wrong (\<lambda>_ _ s. (Diverge, s)) 0 1 3 BcSCall 2 (vm0\<lparr>vm_Stack := [VInt 0, VInt 0, VInt 0]\<rparr>) =
       (Ok (CStop (RErr (Some 0) 3 e)), s1) \<and>
     doErr venv_wrong (st_init ()) [] (Some 0) 3 (Some e) = Panic ''index out of range''"
proof -
  let ?s = "vm0\<lparr>vm_Stack := [VInt 0, VInt 0, VInt 0]\<rparr>"
  have p: "oe_progs venv_wrong 0 = p_one" "oe_progs venv_wrong 1 = p_wrong" "ve_mods venv_wrong = (\<lambda>_. mod0)"
    by (simp_all add: venv_wrong_def venv0_def plain_env_def oenv.defs)
  have "topN 2 ?s = Ok (VInt 0)" by (simp add: topN_def)
  moreover have "2 \<noteq> argSize (oe_progs venv_wrong 0)" by (simp add: p p_one_def code_def)
  moreover have "idx (md_fn (ve_mods venv_wrong (pr_module (oe_progs venv_wrong 1)))) (sint (0 :: int64)) = Ok 0"
    by (simp add: p mod0_def idx_def)
  moreover have "freeCall (oe_progs venv_wrong 0)"
    by (simp add: p p_one_def code_def newProgram_def freeCall_def)
  moreover have "int (length (dbgList (oe_progs venv_wrong 0))) \<le> 3" by (simp add: p p_one_def code_def)
  ultimately show ?thesis
    using call_mismatch_location [of 2 ?s 0 venv_wrong 0 1 0 "\<lambda>_ _ s. (Diverge, s)" 0 3 "st_init ()" "[]"] by blast
qed

section \<open>Callbacks\<close>

text \<open>
  a script function called back by Go code leaves its result behind. Its body ends with a
  return that restores the stack of the call and puts the result on top; the caller gets the
  result, but nothing takes it off: the operand stack is one value higher than before the call.
\<close>

theorem callback_leaves_result:
  assumes "length args = argSize (oe_progs env p)" and "deref (st_clos (vm_st s)) c = Ok (CScript p up)"
    and "ff_prog (vm_cf s) = None" and "closurePrologue env c args s = (Ok (), s1)"
    and "vm_Stack s2 = vm_Stack s1 @ locals @ [v]" and "ff_framep (vm_cf s2) = ff_framep (vm_cf s1)"
    and "ff_farg (vm_cf s2) = ff_farg (vm_cf s1)"
    and "step_return s2 = (Ok (CStop r), s3)" and "run p 0 s1 = (Ok r, s3)"
  shows "runSFunc (Suc n) env run c p args s = (Ok v, s3) \<and> vm_Stack s3 = vm_Stack s @ [v]"
proof -
  let ?s = "pushes args (push (VClosure c) s)"
  have s1: "s1 = prologue FtSFunc (length args) (Some p) (Some c) ?s"
    using assms(2,4) by (simp add: closurePrologue_def)
  have "vm_Stack ?s = vm_Stack s @ [VClosure c] @ args" by simp
  from epilogue_prologue [OF this s1, of s2 "locals @ [v]" v] assms(5-7)
  have e: "epilogue v False s2 = (Ok (ff_pc (vm_cf s), None),
      s2\<lparr>vm_Stack := vm_Stack s @ [v], vm_cf := (vm_cf s)\<lparr>ff_pc := ff_pc (vm_cf s) + 1\<rparr>\<rparr>)"
    using assms(3) by simp
  moreover have "topN 0 s2 = Ok v" using assms(5) by (simp add: topN_def)
  ultimately have r: "r = RDone (ff_pc (vm_cf s))"
    "s3 = s2\<lparr>vm_Stack := vm_Stack s @ [v], vm_cf := (vm_cf s)\<lparr>ff_pc := ff_pc (vm_cf s) + 1\<rparr>\<rparr>"
    using assms(8) by (simp_all add: step_return_def Let_def)
  then have "topN 0 s3 = Ok v" by (simp add: topN_def)
  with r assms(1,4,9) show ?thesis by (simp add: runSFunc_def is_done_def)
qed

definition s_callback :: "unit vm" where
  "s_callback = (NewEvaluator (\<lambda>_. []) ((st_init ())\<lparr>st_clos := [CScript 0 []]\<rparr>))\<lparr>vm_Stack := [VStr ''x'']\<rparr>"

theorem callback_leaves_result_witness:
  "\<exists>s3. runSFunc 1 venv_wrong (runP 5 venv_wrong) 0 0 [VInt 1] s_callback = (Ok VNull, s3) \<and>
     vm_Stack s3 = [VStr ''x'', VNull]"
proof -
  have p: "oe_progs venv_wrong 0 = p_one" by (simp add: venv_wrong_def)
  define s1 where "s1 = prologue FtSFunc 1 (Some 0) (Some 0) (pushes [VInt 1] (push (VClosure 0) s_callback))"
  define s2 where "s2 = push VNull s1"
  define s3 where "s3 = s2\<lparr>vm_Stack := [VStr ''x'', VNull], vm_cf := topFrame\<lparr>ff_pc := 1\<rparr>\<rparr>"
  have s2: "vm_Stack s2 = [VStr ''x'', VClosure 0, VInt 1, VFrame (topFrame\<lparr>ff_pc := 1\<rparr>), VNull]"
    "ff_framep (vm_cf s2) = 1" "ff_farg (vm_cf s2) = 1" "ff_ftype (vm_cf s2) = FtSFunc"
    by (simp_all add: s2_def s1_def prologue_def push_def pushes_def s_callback_def NewEvaluator_def topFrame_def Let_def)
  have pro: "closurePrologue venv_wrong 0 [VInt 1] s_callback = (Ok (), s1)"
    by (simp add: closurePrologue_def s1_def s_callback_def NewEvaluator_def deref_def)
  have ret: "step_return s2 = (Ok (CStop (RDone 0)), s3)"
    using s2 by (simp add: step_return_def s3_def Let_def topN_def epilogue_def prevfuncframe_def prevframepos_def
      stack_get_def popfuncframe_def popTo_def push_def topFrame_def)
  have "step n venv_wrong run m p pc BcLoadNull a s1 = (Ok CNext, s2)" for n run m p pc a
    by (simp add: step_def bin_ops_def step_load_def cnext_def s2_def)
  moreover have "step n venv_wrong run m p pc BcReturn a s2 = (Ok (CStop (RDone 0)), s3)" for n run m p pc a
    using ret by (simp add: step_def bin_ops_def)
  ultimately have "runL (Suc (Suc k)) venv_wrong m 0 0 s1 = (Ok (RDone 0), s3)" for k m
    by (simp add: p p_one_def code_def idx_def)
  from this [of 3] have run: "runP 5 venv_wrong 0 0 s1 = (Ok (RDone 0), s3)"
    by (simp add: runP_def)
  have "runSFunc (Suc 0) venv_wrong (runP 5 venv_wrong) 0 0 [VInt 1] s_callback = (Ok VNull, s3) \<and>
      vm_Stack s3 = vm_Stack s_callback @ [VNull]"
    by (rule callback_leaves_result [where up = "[]" and r = "RDone 0" and locals = "[]", OF _ _ _ pro _ _ _ ret])
      (simp_all add: run p p_one_def code_def s_callback_def NewEvaluator_def topFrame_def deref_def s2_def)
  then show ?thesis by (simp add: s_callback_def)
qed

section \<open>Configuration commands\<close>

text \<open>
  the attribute of a configuration command is never read. The instruction for a command with
  an attribute does exactly what the one without does, so the configuration gets a null
  attribute and the attribute's value stays on the stack.
\<close>

theorem config_command_attr_ignored:
  "step n env run m p pc BcConfigCommandWithAttr arg s = step n env run m p pc BcConfigCommand arg s"
  by (simp add: step_def bin_ops_def step_config_def)

end
