(* ===== verification/Lexer.thy ===== *)
theory Lexer
  imports Bytecode Utf8
begin

text \<open>
  The lexer of the policy language, \<open>pl/lexer.go\<close>: the token stream over a text of runes, the
  ring of recent token boundaries it keeps for error messages, and the messages themselves.
  Errors are tokens (\<open>TkError\<close>, with the message as the lexeme); a slice out of bounds while a
  message is made is a panic.
\<close>

section \<open>Tokens\<close>

type_synonym token = nat

abbreviation (input) TkId :: token where "TkId \<equiv> 0"
abbreviation (input) TkSId :: token where "TkSId \<equiv> 1"
abbreviation (input) TkGId :: token where "TkGId \<equiv> 2"
abbreviation (input) TkDId :: token where "TkDId \<equiv> 3"
abbreviation (input) TkRId :: token where "TkRId \<equiv> 4"
abbreviation (input) TkEId :: token where "TkEId \<equiv> 5"
abbreviation (input) TkInt :: token where "TkInt \<equiv> 6"
abbreviation (input) TkReal :: token where "TkReal \<equiv> 7"
abbreviation (input) TkStr :: token where "TkStr \<equiv> 8"
abbreviation (input) TkDollar :: token where "TkDollar \<equiv> 9"
abbreviation (input) TkLPar :: token where "TkLPar \<equiv> 10"
abbreviation (input) TkRPar :: token where "TkRPar \<equiv> 11"
abbreviation (input) TkLSqr :: token where "TkLSqr \<equiv> 12"
abbreviation (input) TkRSqr :: token where "TkRSqr \<equiv> 13"
abbreviation (input) TkLBra :: token where "TkLBra \<equiv> 14"
abbreviation (input) TkRBra :: token where "TkRBra \<equiv> 15"
abbreviation (input) TkArrow :: token where "TkArrow \<equiv> 16"
abbreviation (input) TkDRBra :: token where "TkDRBra \<equiv> 17"
abbreviation (input) TkDot :: token where "TkDot \<equiv> 18"
abbreviation (input) TkComma :: token where "TkComma \<equiv> 19"
abbreviation (input) TkAssign :: token where "TkAssign \<equiv> 20"
abbreviation (input) TkColon :: token where "TkColon \<equiv> 21"
abbreviation (input) TkScope :: token where "TkScope \<equiv> 22"
abbreviation (input) TkSemicolon :: token where "TkSemicolon \<equiv> 23"
abbreviation (input) TkQuest :: token where "TkQuest \<equiv> 24"
abbreviation (input) TkAt :: token where "TkAt \<equiv> 25"
abbreviation (input) TkSharp :: token where "TkSharp \<equiv> 26"
abbreviation (input) TkPipe :: token where "TkPipe \<equiv> 27"
abbreviation (input) TkLExprBra :: token where "TkLExprBra \<equiv> 28"
abbreviation (input) TkNot :: token where "TkNot \<equiv> 29"
abbreviation (input) TkAdd :: token where "TkAdd \<equiv> 30"
abbreviation (input) TkSub :: token where "TkSub \<equiv> 31"
abbreviation (input) TkMul :: token where "TkMul \<equiv> 32"
abbreviation (input) TkDiv :: token where "TkDiv \<equiv> 33"
abbreviation (input) TkMod :: token where "TkMod \<equiv> 34"
abbreviation (input) TkPow :: token where "TkPow \<equiv> 35"
abbreviation (input) TkAddAssign :: token where "TkAddAssign \<equiv> 36"
abbreviation (input) TkSubAssign :: token where "TkSubAssign \<equiv> 37"
abbreviation (input) TkMulAssign :: token where "TkMulAssign \<equiv> 38"
abbreviation (input) TkDivAssign :: token where "TkDivAssign \<equiv> 39"
abbreviation (input) TkModAssign :: token where "TkModAssign \<equiv> 40"
abbreviation (input) TkPowAssign :: token where "TkPowAssign \<equiv> 41"
abbreviation (input) TkInc :: token where "TkInc \<equiv> 42"
abbreviation (input) TkDec :: token where "TkDec \<equiv> 43"
abbreviation (input) TkLt :: token where "TkLt \<equiv> 44"
abbreviation (input) TkLe :: token where "TkLe \<equiv> 45"
abbreviation (input) TkGt :: token where "TkGt \<equiv> 46"
abbreviation (input) TkGe :: token where "TkGe \<equiv> 47"
abbreviation (input) TkEq :: token where "TkEq \<equiv> 48"
abbreviation (input) TkNe :: token where "TkNe \<equiv> 49"
abbreviation (input) TkRegexpMatch :: token where "TkRegexpMatch \<equiv> 50"
abbreviation (input) TkRegexpNMatch :: token where "TkRegexpNMatch \<equiv> 51"
abbreviation (input) TkRegex :: token where "TkRegex \<equiv> 52"
abbreviation (input) TkMStr :: token where "TkMStr \<equiv> 53"
abbreviation (input) TkAnd :: token where "TkAnd \<equiv> 54"
abbreviation (input) TkOr :: token where "TkOr \<equiv> 55"
abbreviation (input) TkTrue :: token where "TkTrue \<equiv> 56"
abbreviation (input) TkFalse :: token where "TkFalse \<equiv> 57"
abbreviation (input) TkNull :: token where "TkNull \<equiv> 58"
abbreviation (input) TkDynamic :: token where "TkDynamic \<equiv> 59"
abbreviation (input) TkGlobal :: token where "TkGlobal \<equiv> 60"
abbreviation (input) TkSession :: token where "TkSession \<equiv> 61"
abbreviation (input) TkLet :: token where "TkLet \<equiv> 62"
abbreviation (input) TkConst :: token where "TkConst \<equiv> 63"
abbreviation (input) TkSwitch :: token where "TkSwitch \<equiv> 64"
abbreviation (input) TkCase :: token where "TkCase \<equiv> 65"
abbreviation (input) TkModule :: token where "TkModule \<equiv> 66"
abbreviation (input) TkImport :: token where "TkImport \<equiv> 67"
abbreviation (input) TkExtern :: token where "TkExtern \<equiv> 68"
abbreviation (input) TkIf :: token where "TkIf \<equiv> 69"
abbreviation (input) TkElif :: token where "TkElif \<equiv> 70"
abbreviation (input) TkElse :: token where "TkElse \<equiv> 71"
abbreviation (input) TkTry :: token where "TkTry \<equiv> 72"
abbreviation (input) TkReturn :: token where "TkReturn \<equiv> 73"
abbreviation (input) TkFor :: token where "TkFor \<equiv> 74"
abbreviation (input) TkContinue :: token where "TkContinue \<equiv> 75"
abbreviation (input) TkBreak :: token where "TkBreak \<equiv> 76"
abbreviation (input) TkFunction :: token where "TkFunction \<equiv> 77"
abbreviation (input) TkConfig :: token where "TkConfig \<equiv> 78"
abbreviation (input) TkRule :: token where "TkRule \<equiv> 79"
abbreviation (input) TkEmit :: token where "TkEmit \<equiv> 80"
abbreviation (input) TkIterator :: token where "TkIterator \<equiv> 81"
abbreviation (input) TkYield :: token where "TkYield \<equiv> 82"
abbreviation (input) TkTemplate :: token where "TkTemplate \<equiv> 83"
abbreviation (input) TkEof :: token where "TkEof \<equiv> 84"
abbreviation (input) TkError :: token where "TkError \<equiv> 85"

definition isaggassign :: "token \<Rightarrow> bool" where
  "isaggassign tk \<longleftrightarrow>
     tk \<in> set [TkAddAssign, TkSubAssign, TkMulAssign, TkDivAssign, TkPowAssign, TkModAssign, TkInc, TkDec]"

definition isassign :: "token \<Rightarrow> bool" where
  "isassign tk \<longleftrightarrow> tk = TkAssign \<or> isaggassign tk"

definition token_names :: "(token \<times> string) list" where
  "token_names =
    [(TkId, ''id''),
     (TkSId, ''session_id''),
     (TkDId, ''dynamic_id''),
     (TkRId, ''resource_id''),
     (TkEId, ''extern_id''),
     (TkGId, ''global_id''),
     (TkInt, ''int''),
     (TkReal, ''real''),
     (TkStr, ''str''),
     (TkMStr, ''mstr''),
     (TkDollar, ''dollar''),
     (TkLPar, ''(''),
     (TkRPar, '')''),
     (TkLSqr, ''[''),
     (TkRSqr, '']''),
     (TkLBra, ''{''),
     (TkRBra, ''}''),
     (TkDRBra, ''}}''),
     (TkDot, ''.''),
     (TkAssign, ''=''),
     (TkArrow, ''=>''),
     (TkColon, '':''),
     (TkScope, ''::''),
     (TkSemicolon, '';''),
     (TkQuest, ''?''),
     (TkAt, ''@''),
     (TkSharp, ''#''),
     (TkPipe, ''|''),
     (TkLExprBra, ''|{''),
     (TkAdd, ''+''),
     (TkAddAssign, ''+=''),
     (TkSub, ''-''),
     (TkSubAssign, ''-=''),
     (TkMul, ''*''),
     (TkMulAssign, ''*=''),
     (TkPow, ''**''),
     (TkPowAssign, ''**=''),
     (TkDiv, ''/''),
     (TkDivAssign, ''/=''),
     (TkMod, ''%''),
     (TkModAssign, ''%=''),
     (TkInc, ''++''),
     (TkDec, ''--''),
     (TkLt, ''<''),
     (TkLe, ''<=''),
     (TkGt, ''>''),
     (TkGe, ''>=''),
     (TkEq, ''==''),
     (TkNe, ''!=''),
     (TkNot, ''!''),
     (TkTrue, ''true''),
     (TkFalse, ''false''),
     (TkNull, ''null''),
     (TkLet, ''let''),
     (TkConst, ''const''),
     (TkGlobal, ''global''),
     (TkDynamic, ''dynamic''),
     (TkSession, ''session''),
     (TkExtern, ''extern''),
     (TkSwitch, ''switch''),
     (TkCase, ''case''),
     (TkModule, ''module''),
     (TkImport, ''import''),
     (TkTry, ''try''),
     (TkIf, ''if''),
     (TkElif, ''elif''),
     (TkElse, ''else''),
     (TkFor, ''for''),
     (TkContinue, ''continue''),
     (TkBreak, ''break''),
     (TkFunction, ''fn''),
     (TkRule, ''rule''),
     (TkIterator, ''iter''),
     (TkYield, ''yield''),
     (TkEmit, ''emit''),
     (TkReturn, ''return''),
     (TkConfig, ''config''),
     (TkTemplate, ''template''),
     (TkError, ''<error>'')]"

definition getTokenName :: "token \<Rightarrow> string" where
  "getTokenName tk = (case map_of token_names tk of Some n \<Rightarrow> n | None \<Rightarrow> ''<none>'')"

definition lexerkeyword :: "(string \<times> token) list" where
  "lexerkeyword =
    [(''true'', TkTrue),
     (''false'', TkFalse),
     (''null'', TkNull),
     (''dynamic'', TkDynamic),
     (''global'', TkGlobal),
     (''session'', TkSession),
     (''extern'', TkExtern),
     (''module'', TkModule),
     (''import'', TkImport),
     (''let'', TkLet),
     (''const'', TkConst),
     (''switch'', TkSwitch),
     (''case'', TkCase),
     (''if'', TkIf),
     (''elif'', TkElif),
     (''else'', TkElse),
     (''for'', TkFor),
     (''continue'', TkContinue),
     (''break'', TkBreak),
     (''try'', TkTry),
     (''return'', TkReturn),
     (''fn'', TkFunction),
     (''iter'', TkIterator),
     (''yield'', TkYield),
     (''rule'', TkRule),
     (''emit'', TkEmit),
     (''config'', TkConfig),
     (''template'', TkTemplate)]"

section \<open>Recent token boundaries\<close>

text \<open>A ring of the last 64 starts of tokens, and how many there have been.\<close>

abbreviation (input) minLexerDCursorOffset :: nat where "minLexerDCursorOffset \<equiv> 64"

record dcursorqueue =
  dq_q :: "nat list"
  dq_c :: nat

definition dq_empty :: dcursorqueue where
  "dq_empty = \<lparr>dq_q = replicate minLexerDCursorOffset 0, dq_c = 0\<rparr>"

definition dq_index :: "nat \<Rightarrow> nat" where
  "dq_index x = x mod minLexerDCursorOffset"

definition dq_add :: "dcursorqueue \<Rightarrow> nat \<Rightarrow> dcursorqueue" where
  "dq_add d x = d\<lparr>dq_q := (dq_q d)[dq_index (dq_c d) := x], dq_c := dq_c d + 1\<rparr>"

definition frontIndex :: "dcursorqueue \<Rightarrow> nat \<Rightarrow> nat" where
  "frontIndex d off =
     (if dq_c d \<le> minLexerDCursorOffset then dq_index (0 + off)
      else dq_index (dq_c d - minLexerDCursorOffset + off))"

definition backIndex :: "dcursorqueue \<Rightarrow> nat \<Rightarrow> int" where
  "backIndex d off = (if dq_c d \<le> off then - 1 else int (dq_index (dq_c d - off)))"

definition dq_front :: "dcursorqueue \<Rightarrow> nat \<Rightarrow> nat" where
  "dq_front d off = dq_q d ! frontIndex d off"

definition dq_back :: "dcursorqueue \<Rightarrow> nat \<Rightarrow> int" where
  "dq_back d off = (let i = backIndex d (1 + off) in if i = - 1 then - 1 else int (dq_q d ! nat i))"

definition allowedOffset :: "dcursorqueue \<Rightarrow> nat \<Rightarrow> bool" where
  "allowedOffset d off = (if off \<le> dq_c d then True else off < minLexerDCursorOffset)"

section \<open>The lexer\<close>

record lexer =
  lx_input :: "rune list"
  lx_cursor :: nat
  lx_token :: token
  lx_dCursor :: nat
  lx_dq :: dcursorqueue
  valueInt :: int64
  valueReal :: fl
  valueText :: string
  allowDRBra :: bool

definition newLexer :: "string \<Rightarrow> lexer" where
  "newLexer input =
     \<lparr>lx_input = utf8_decode input, lx_cursor = 0, lx_token = TkId, lx_dCursor = 0, lx_dq = dq_empty,
      valueInt = 0, valueReal = 0, valueText = [], allowDRBra = False\<rparr>"

text \<open>Letters and digits: ASCII, and beyond it the tables of the Go library.\<close>

record lexenv =
  le_letter :: "rune \<Rightarrow> bool"
  le_digit :: "rune \<Rightarrow> bool"

definition IsLetter :: "lexenv \<Rightarrow> rune \<Rightarrow> bool" where
  "IsLetter env r = (if r < 128 then (65 \<le> r \<and> r \<le> 90) \<or> (97 \<le> r \<and> r \<le> 122) else le_letter env r)"

definition IsDigit :: "lexenv \<Rightarrow> rune \<Rightarrow> bool" where
  "IsDigit env r = (if r < 128 then 48 \<le> r \<and> r \<le> 57 else le_digit env r)"

text \<open>The loop of \<open>saveDCursor\<close>: \<open>off\<close> and the candidate.\<close>

function bump :: "dcursorqueue \<Rightarrow> nat \<Rightarrow> nat \<Rightarrow> nat \<Rightarrow> nat" where
  "bump d cursor off ncursor =
     (if ncursor + minLexerDCursorOffset < cursor then
        if \<not> allowedOffset d off then ncursor
        else bump d cursor (off + 1) (dq_front d off)
      else ncursor)"
  by pat_completeness auto
termination
  by (relation "measure (\<lambda>(d, c, off, n). Suc (max (dq_c d) 64) - off)")
    (auto simp: allowedOffset_def split: if_splits)

declare bump.simps [simp del]

definition saveDCursor :: "nat \<Rightarrow> lexer \<Rightarrow> lexer" where
  "saveDCursor start t =
     (if lx_token t \<noteq> TkError then
        let d = dq_add (lx_dq t) start
        in t\<lparr>lx_dq := d, lx_dCursor := bump d (lx_cursor t) 0 (lx_dCursor t)\<rparr>
      else t)"

definition lx_yield :: "token \<Rightarrow> nat \<Rightarrow> lexer \<Rightarrow> token res \<times> lexer" where
  "lx_yield tk off t = (Ok tk, t\<lparr>lx_cursor := lx_cursor t + off, lx_token := tk\<rparr>)"

section \<open>Positions and messages\<close>

fun pos_loop :: "rune list \<Rightarrow> nat \<Rightarrow> nat \<Rightarrow> nat \<times> nat" where
  "pos_loop [] l c = (l, c)"
| "pos_loop (ch # rs) l c = (if ch = 10 then pos_loop rs (l + 1) 1 else pos_loop rs l (c + 1))"

definition lx_pos :: "lexer \<Rightarrow> nat \<times> nat" where
  "lx_pos t =
     (let clampedSize = (if length (lx_input t) \<le> lx_cursor t then length (lx_input t) else lx_cursor t)
      in pos_loop (take clampedSize (lx_input t)) 1 1)"

definition lx_dbg :: "lexer \<Rightarrow> sourceloc" where
  "lx_dbg t =
     (let (line, column) = lx_pos t in
      \<lparr>sl_source = utf8_encode (lx_input t), sl_offset = lx_cursor t, sl_line = line, sl_column = column\<rparr>)"

fun find_lb :: "rune list \<Rightarrow> nat \<Rightarrow> nat option" where
  "find_lb [] i = None"
| "find_lb (r # rs) i = (if r = 10 then Some i else find_lb rs (Suc i))"

definition nextLineBreak :: "lexer \<Rightarrow> nat \<Rightarrow> int" where
  "nextLineBreak t w =
     (case find_lb (drop w (lx_input t)) w of Some i \<Rightarrow> int i | None \<Rightarrow> int (length (lx_input t)) - 1)"

text \<open>Backwards to the last line break before the place; reading outside the text panics.\<close>

definition paddingSize :: "lexer \<Rightarrow> nat \<Rightarrow> nat res" where
  "paddingSize t w =
     (if length (lx_input t) < w then Panic ''index out of range''
      else Ok (length (takeWhile (\<lambda>r. r \<noteq> 10) (rev (take w (lx_input t))))))"

definition rune_slice :: "rune list \<Rightarrow> int \<Rightarrow> int \<Rightarrow> rune list res" where
  "rune_slice xs a b =
     (if 0 \<le> a \<and> a \<le> b \<and> b \<le> int (length xs) then Ok (take (nat (b - a)) (drop (nat a) xs))
      else Panic ''slice bounds out of range'')"

definition position :: "lexer \<Rightarrow> string res" where
  "position t =
     (let (line, col) = lx_pos t;
          start = int (lx_dCursor t);
          end0 = (if lx_cursor t + minLexerDCursorOffset < length (lx_input t)
                  then lx_cursor t + minLexerDCursorOffset else length (lx_input t));
          t1 = (let b = dq_back (lx_dq t) 0 in if b = - 1 then 0 else nat b);
          lb = nextLineBreak t t1;
          end = (if int end0 < lb then lb else int end0)
      in
      rbind (rune_slice (lx_input t) start lb) (\<lambda>prefix.
      rbind (rune_slice (lx_input t) (lb + 1) end) (\<lambda>after.
      rbind (paddingSize t t1) (\<lambda>off.
        Ok (''around line '' @ int_dec (int line) @ '' and column '' @ int_dec (int col) @
            '', near source code:'' @ [CHR 0x0A] @ utf8_encode prefix @ [CHR 0x0A] @
            replicate off (CHR '' '') @ replicate (lx_cursor t - t1) (CHR ''^'') @ [CHR 0x0A] @
            utf8_encode after @ [CHR 0x0A])))))"

definition lx_err :: "string \<Rightarrow> lexer \<Rightarrow> token res \<times> lexer" where
  "lx_err msg t =
     rlift (position t) t (\<lambda>prefix t.
       (Ok TkError, t\<lparr>valueText := prefix @ '': '' @ msg, lx_token := TkError\<rparr>))"

definition tokenName :: "lexer \<Rightarrow> string" where
  "tokenName t = getTokenName (lx_token t)"

text \<open>The error a parser function returns; not being in an error state ends the process.\<close>

definition toError :: "lexer \<Rightarrow> 'a res" where
  "toError t =
     (if lx_token t \<noteq> TkError then Panic ''fatal: invalid toError, current token is not error''
      else Err (valueText t))"

definition expectCurrent :: "token \<Rightarrow> lexer \<Rightarrow> bool res \<times> lexer" where
  "expectCurrent tk t =
     (if lx_token t = tk then (Ok True, t)
      else mbind (lx_err (''expect token '' @ getTokenName tk @ '', but got '' @ tokenName t) t)
             (\<lambda>_ t. (Ok False, t)))"


section \<open>Scanning strings and numbers\<close>

text \<open>
  The loop of \<open>scanStr\<close> over the runes behind the opening quote: what it stops at, and how many
  runes it has passed then.
\<close>

datatype str_end = StrDone "rune list" nat | StrEscape nat | StrEarly nat | StrOpen nat

definition str_escape :: "rune \<Rightarrow> rune option" where
  "str_escape nc =
     (if nc = rune_of (CHR 0x5C) then Some 92 else if nc = 39 then Some 39
      else if nc = rune_of (CHR ''t'') then Some 9 else if nc = rune_of (CHR ''r'') then Some 13
      else if nc = rune_of (CHR ''n'') then Some 10 else if nc = rune_of (CHR ''b'') then Some 8
      else if nc = rune_of (CHR ''v'') then Some 11 else None)"

fun scan_str :: "rune \<Rightarrow> rune list \<Rightarrow> rune list \<Rightarrow> nat \<Rightarrow> str_end" where
  "scan_str q [] buf n = StrOpen n"
| "scan_str q (c # rs) buf n =
     (if c = q then StrDone buf n
      else if c = 92 then
        (case rs of
           [] \<Rightarrow> StrEarly n
         | nc # rs' \<Rightarrow>
             (case str_escape nc of Some r \<Rightarrow> scan_str q rs' (buf @ [r]) (n + 2) | None \<Rightarrow> StrEscape n))
      else scan_str q rs (buf @ [c]) (n + 1))"

definition cur :: "lexer \<Rightarrow> rune res" where
  "cur t = (if lx_cursor t < length (lx_input t) then Ok (lx_input t ! lx_cursor t)
            else Panic ''index out of range'')"

definition advance :: "nat \<Rightarrow> lexer \<Rightarrow> lexer" where
  "advance n t = t\<lparr>lx_cursor := lx_cursor t + n\<rparr>"

text \<open>Any opening rune but the double quote means a single-quoted string.\<close>

definition scanStr :: "lexer \<Rightarrow> token res \<times> lexer" where
  "scanStr t =
     rlift (cur t) t (\<lambda>c t.
       let q = (if c = 34 then 34 else 39); t = advance 1 t in
       case scan_str q (drop (lx_cursor t) (lx_input t)) [] 0 of
         StrDone text n \<Rightarrow>
           (Ok TkStr, (advance (n + 1) t)\<lparr>valueText := utf8_encode text, lx_token := TkStr\<rparr>)
       | StrEscape n \<Rightarrow> lx_err ''invalid character escape'' (advance n t)
       | StrEarly n \<Rightarrow> lx_err ''early termination of string literal'' (advance n t)
       | StrOpen n \<Rightarrow> lx_err ''string not closed properly'' (advance n t))"

text \<open>
  The loop of \<open>scanNum\<close>: the buffer, whether it has a dot and an exponent, and the runes passed.
  The letter of the exponent does not get into the buffer.
\<close>

datatype num_end = NumDone "rune list" bool bool nat | NumBad nat

fun scan_num :: "lexenv \<Rightarrow> rune list \<Rightarrow> rune list \<Rightarrow> bool \<Rightarrow> bool \<Rightarrow> nat \<Rightarrow> num_end" where
  "scan_num env [] buf dot ex n = NumDone buf dot ex n"
| "scan_num env (c # rs) buf dot ex n =
     (if IsDigit env c then scan_num env rs (buf @ [c]) dot ex (n + 1)
      else if c = 46 then
        (if dot then NumDone buf dot ex n else scan_num env rs (buf @ [c]) True ex (n + 1))
      else if c = 101 \<or> c = 69 then
        (if ex then NumDone buf dot ex n
         else case rs of
                nc # rs' \<Rightarrow>
                  (if nc = 43 \<or> nc = 45 then scan_num env rs' (buf @ [nc]) dot True (n + 2) else NumBad n)
              | [] \<Rightarrow> NumBad n)
      else NumDone buf dot ex n)"

definition ascii_digit :: "rune \<Rightarrow> bool" where
  "ascii_digit r = (48 \<le> r \<and> r \<le> 57)"

definition dec_value :: "rune list \<Rightarrow> nat" where
  "dec_value ds = foldl (\<lambda>a r. a * 10 + (r - 48)) 0 ds"

definition num_error :: "string \<Rightarrow> rune list \<Rightarrow> string \<Rightarrow> string" where
  "num_error f buf what = ''strconv.'' @ f @ '': parsing '' @ [CHR 0x22] @ utf8_encode buf @ [CHR 0x22] @ '': '' @ what"

text \<open>\<open>strconv.ParseInt(s, 10, 64)\<close> on an optional minus sign and digits.\<close>

definition ParseInt :: "rune list \<Rightarrow> int64 res" where
  "ParseInt buf =
     (let neg = (buf \<noteq> [] \<and> hd buf = 45); ds = (if neg then tl buf else buf) in
      if ds = [] \<or> \<not> list_all ascii_digit ds then Err (num_error ''ParseInt'' buf ''invalid syntax'')
      else let v = (if neg then - int (dec_value ds) else int (dec_value ds)) in
        if - (2 ^ 63) \<le> v \<and> v < 2 ^ 63 then Ok (word_of_int v)
        else Err (num_error ''ParseInt'' buf ''value out of range''))"

text \<open>
  \<open>strconv.ParseFloat(s, 64)\<close> on what the scanner can pass it: digits, at most one dot, signs
  left over from exponents (which make the syntax invalid), an optional minus sign in front.
\<close>

definition ParseFloat :: "rune list \<Rightarrow> fl res" where
  "ParseFloat buf =
     (let neg = (buf \<noteq> [] \<and> hd buf = 45); ds = (if neg then tl buf else buf);
          a = takeWhile ascii_digit ds; r = dropWhile ascii_digit ds;
          b = (if r \<noteq> [] \<and> hd r = 46 then tl r else r) in
      if a @ b = [] \<or> \<not> list_all ascii_digit b then Err (num_error ''ParseFloat'' buf ''invalid syntax'')
      else let v = fl_of_decimal (dec_value (a @ b)) (- int (length b)) in
        if \<not> fl_finite v then Err (num_error ''ParseFloat'' buf ''value out of range'')
        else Ok (if neg then fl_neg v else v))"

definition lx_lift :: "'a res \<Rightarrow> lexer \<Rightarrow> ('a \<Rightarrow> lexer \<Rightarrow> token res \<times> lexer) \<Rightarrow> token res \<times> lexer" where
  "lx_lift r t k =
     (case r of Ok x \<Rightarrow> k x t | Err e \<Rightarrow> lx_err e t | Panic m \<Rightarrow> (Panic m, t) | Diverge \<Rightarrow> (Diverge, t))"

definition scanNum :: "lexenv \<Rightarrow> lexer \<Rightarrow> token res \<times> lexer" where
  "scanNum env t =
     rlift (cur t) t (\<lambda>c t.
       let (buf0, t) = (if c = 45 then ([45], advance 1 t) else ([], t)) in
       case scan_num env (drop (lx_cursor t) (lx_input t)) buf0 False False 0 of
         NumBad n \<Rightarrow>
           lx_err (''numeric number is invalid, Ee must follow a '+' or '-'' @ [CHR 0x27]) (advance n t)
       | NumDone buf dot ex n \<Rightarrow>
           (let t = advance n t in
            if dot \<or> ex then
              lx_lift (ParseFloat buf) t (\<lambda>v t. (Ok TkReal, t\<lparr>valueReal := v, lx_token := TkReal\<rparr>))
            else
              lx_lift (ParseInt buf) t (\<lambda>v t. (Ok TkInt, t\<lparr>valueInt := v, lx_token := TkInt\<rparr>))))"

section \<open>Resources, prefixed strings, comments\<close>

definition scanRId :: "lexer \<Rightarrow> token res \<times> lexer" where
  "scanRId t =
     rlift (cur t) t (\<lambda>c t.
       if c \<noteq> 64 then (Panic ''must: must be @'', t)
       else
         (let t = advance 1 t in
          if lx_cursor t = length (lx_input t) then lx_err ''early terminate of resource identifier'' t
          else
            rlift (cur t) t (\<lambda>c t.
              if c \<noteq> 39 \<and> c \<noteq> 34 then (Panic ''must: must be quoted string'', t)
              else mbind (scanStr t) (\<lambda>x t.
                if x \<noteq> TkStr then (Ok x, t) else (Ok TkRId, t\<lparr>lx_token := TkRId\<rparr>)))))"

text \<open>
  \<open>None\<close> when it is not a prefixed string. At the end of the input the prefix letter is skipped
  and an error is set, but the caller is told that there was no prefixed string.
\<close>

definition tryPrefixString :: "rune \<Rightarrow> lexer \<Rightarrow> token option res \<times> lexer" where
  "tryPrefixString c t =
     (if c \<noteq> rune_of (CHR ''R'') \<and> c \<noteq> rune_of (CHR ''r'') then (Ok None, t)
      else
        let more = lx_cursor t + 1 < length (lx_input t); nc = lx_input t ! (lx_cursor t + 1) in
        if more \<and> nc \<noteq> 39 \<and> nc \<noteq> 34 then (Ok None, t)
        else
          let tk = (if more then TkRegex else TkError); t = advance 1 t in
          if lx_cursor t = length (lx_input t) then
            mbind (lx_err ''early terminate of prefixed identifiers'' t) (\<lambda>_ t. (Ok None, t))
          else
            mbind (scanStr t) (\<lambda>x t.
              if x \<noteq> TkStr then (Ok (Some x), t) else (Ok (Some tk), t\<lparr>lx_token := tk\<rparr>)))"

fun comment_len :: "rune list \<Rightarrow> nat" where
  "comment_len [] = 0"
| "comment_len (c # rs) = (if c = 10 then 1 else Suc (comment_len rs))"

definition scanComment :: "lexer \<Rightarrow> lexer" where
  "scanComment t = advance (comment_len (drop (lx_cursor t) (lx_input t))) t"

text \<open>The runes up to and with the end of a block comment.\<close>

fun block_len :: "rune list \<Rightarrow> nat option" where
  "block_len (c # nc # rs) =
     (if c = 42 \<and> nc = 47 then Some 2 else map_option Suc (block_len (nc # rs)))"
| "block_len _ = None"

definition scanCommentBlock :: "lexer \<Rightarrow> bool res \<times> lexer" where
  "scanCommentBlock t =
     (case block_len (drop (lx_cursor t) (lx_input t)) of
        Some n \<Rightarrow> (Ok True, advance n t)
      | None \<Rightarrow>
          mbind (lx_err ''block comment must be closed by */''
                   (t\<lparr>lx_cursor := max (lx_cursor t) (length (lx_input t))\<rparr>))
            (\<lambda>_ t. (Ok False, t)))"


section \<open>Operators\<close>

definition lx_peek :: "lexer \<Rightarrow> nat \<Rightarrow> rune option" where
  "lx_peek t k =
     (if lx_cursor t + k < length (lx_input t) then Some (lx_input t ! (lx_cursor t + k)) else None)"

definition lx_p2 :: "token \<Rightarrow> token \<Rightarrow> rune \<Rightarrow> lexer \<Rightarrow> token res \<times> lexer" where
  "lx_p2 t0 t1 lh t = (if lx_peek t 1 = Some lh then lx_yield t1 2 t else lx_yield t0 1 t)"

definition lx_pp :: "token \<Rightarrow> rune \<Rightarrow> lexer \<Rightarrow> token res \<times> lexer" where
  "lx_pp tk lh t =
     (if lx_peek t 1 = Some lh then lx_yield tk 2 t
      else lx_err (''unknown token, expect one more '' @ utf8_rune lh) t)"

definition lx_pp2 :: "token \<Rightarrow> token \<Rightarrow> token \<Rightarrow> rune \<Rightarrow> rune \<Rightarrow> lexer \<Rightarrow> token res \<times> lexer" where
  "lx_pp2 tk0 tk1 tk2 l0 l1 t =
     (if lx_peek t 1 = Some l0 then lx_yield tk1 2 t
      else if lx_peek t 1 = Some l1 then lx_yield tk2 2 t
      else lx_yield tk0 1 t)"

section \<open>Multiple line strings\<close>

fun line_len :: "rune list \<Rightarrow> nat option" where
  "line_len [] = None"
| "line_len (c # rs) = (if c = 10 then Some 0 else map_option Suc (line_len rs))"

text \<open>The end marker; behind it the cursor is at the first line of the text.\<close>

definition mulstrMarker :: "lexer \<Rightarrow> string res \<times> lexer" where
  "mulstrMarker t =
     (if length (lx_input t) \<le> lx_cursor t + 2 then
        (Err ''multiple line string start marker invalid'', t)
      else if lx_input t ! (lx_cursor t + 1) \<noteq> 96 \<or> lx_input t ! (lx_cursor t + 2) \<noteq> 96 then
        (Err ''multiple line string start marker incomplete'', t)
      else
        let t = advance 3 t; rest = drop (lx_cursor t) (lx_input t) in
        case line_len rest of
          None \<Rightarrow>
            (Err (''multiple line string expect a linebreak after '' @ replicate 3 (CHR 0x60)),
             advance (length rest) t)
        | Some n \<Rightarrow>
            (Ok (if n = 0 then CHR 0x0A # replicate 3 (CHR 0x60)
                 else CHR 0x0A # utf8_encode (take n rest) @ replicate 3 (CHR 0x60)),
             advance (n + 1) t))"

fun find_tag :: "rune list \<Rightarrow> rune list \<Rightarrow> nat \<Rightarrow> nat option" where
  "find_tag tag [] i = None"
| "find_tag tag (r # rs) i =
     (if length (r # rs) < length tag then None
      else if take (length tag) (r # rs) = tag then Some i
      else find_tag tag rs (Suc i))"

text \<open>The cursor moves behind the end tag by the tag's number of bytes.\<close>

definition scanMStr :: "lexer \<Rightarrow> token res \<times> lexer" where
  "scanMStr t =
     (let (r, t) = mulstrMarker t in
      lx_lift r t (\<lambda>endTag t.
        if length (lx_input t) < lx_cursor t + 3 then
          lx_err ''the multiple line string is not terminated properly'' t
        else
          case find_tag (utf8_decode endTag) (drop (lx_cursor t) (lx_input t)) 0 of
            None \<Rightarrow> lx_err ''the multiple line string is not closed properly'' t
          | Some tagPos \<Rightarrow>
              (Ok TkMStr,
               t\<lparr>valueText := utf8_encode (take tagPos (drop (lx_cursor t) (lx_input t))),
                 lx_cursor := lx_cursor t + tagPos + length endTag, lx_token := TkMStr\<rparr>)))"

section \<open>Names, keywords, and the next token\<close>

text \<open>The letters of an identifier, behind the check of the first one.\<close>

fun ident_len :: "lexenv \<Rightarrow> rune list \<Rightarrow> nat" where
  "ident_len env [] = 0"
| "ident_len env (c # rs) =
     (if IsLetter env c \<or> c = 95 \<or> IsDigit env c then Suc (ident_len env rs) else 0)"

text \<open>\<open>- 1\<close> is \<open>None\<close>; the tokens of the attempt are taken back by the cursor only.\<close>

definition tryQualifyId ::
  "(lexer \<Rightarrow> token res \<times> lexer) \<Rightarrow> token \<Rightarrow> lexer \<Rightarrow> token option res \<times> lexer"
where
  "tryQualifyId nxt keyword t =
     (if keyword \<noteq> TkSession \<and> keyword \<noteq> TkGlobal \<and> keyword \<noteq> TkDynamic \<and> keyword \<noteq> TkExtern
      then (Ok None, t)
      else
        let cursor = lx_cursor t in
        mbind (nxt t) (\<lambda>ntk1 t.
          if ntk1 \<noteq> TkScope then (Ok None, t\<lparr>lx_cursor := cursor\<rparr>)
          else
            mbind (nxt t) (\<lambda>ntk2 t.
              if ntk2 \<noteq> TkId then (Ok None, t\<lparr>lx_cursor := cursor\<rparr>)
              else
                (Ok (Some (if keyword = TkSession then TkSId else if keyword = TkGlobal then TkGId
                           else if keyword = TkDynamic then TkDId else TkEId)), t))))"

definition scanIdOrKeywordOrPrefixString ::
  "lexenv \<Rightarrow> (lexer \<Rightarrow> token res \<times> lexer) \<Rightarrow> rune \<Rightarrow> lexer \<Rightarrow> token res \<times> lexer"
where
  "scanIdOrKeywordOrPrefixString env nxt c t =
     mbind (tryPrefixString c t) (\<lambda>p t.
       case p of
         Some tk \<Rightarrow> (Ok tk, t)
       | None \<Rightarrow>
           if \<not> IsLetter env c \<and> c \<noteq> 95 then
             lx_err ''unrecognized token here, expect keyword or identifier'' t
           else
             let rest = drop (lx_cursor t) (lx_input t); n = ident_len env rest;
                 idOrKeyword = utf8_encode (take n rest); t = advance n t in
             case map_of lexerkeyword idOrKeyword of
               Some k \<Rightarrow>
                 mbind (tryQualifyId nxt k t) (\<lambda>q t.
                   case q of
                     Some tk \<Rightarrow> (Ok tk, t\<lparr>lx_token := tk\<rparr>)
                   | None \<Rightarrow> (Ok k, t\<lparr>lx_token := k\<rparr>))
             | None \<Rightarrow> (Ok TkId, t\<lparr>valueText := idOrKeyword, lx_token := TkId\<rparr>))"

text \<open>One token that starts at the cursor, other than white space and comments.\<close>

definition scan_token ::
  "lexenv \<Rightarrow> (lexer \<Rightarrow> token res \<times> lexer) \<Rightarrow> rune \<Rightarrow> lexer \<Rightarrow> token res \<times> lexer"
where
  "scan_token env nxt c t =
     (if c = rune_of (CHR ''+'') then lx_pp2 TkAdd TkAddAssign TkInc 61 43 t
      else if c = rune_of (CHR ''-'') then lx_pp2 TkSub TkSubAssign TkDec 61 45 t
      else if c = rune_of (CHR ''*'') then
        (if lx_peek t 1 = Some 61 then lx_yield TkMulAssign 2 t
         else if lx_peek t 1 = Some 42 then
           (if lx_peek t 2 = Some 61 then lx_yield TkPowAssign 3 t else lx_yield TkPow 2 t)
         else lx_yield TkMul 1 t)
      else if c = rune_of (CHR ''/'') then
        (if lx_peek t 1 = Some 61 then lx_yield TkDivAssign 2 t else lx_yield TkDiv 1 t)
      else if c = rune_of (CHR 0x25) then lx_p2 TkMod TkModAssign 61 t
      else if c = rune_of (CHR ''='') then lx_pp2 TkAssign TkArrow TkEq 62 61 t
      else if c = 96 then scanMStr t
      else if c = rune_of (CHR ''&'') then lx_pp TkAnd 38 t
      else if c = rune_of (CHR ''|'') then lx_pp2 TkPipe TkOr TkLExprBra 124 123 t
      else if c = rune_of (CHR ''!'') then lx_pp2 TkNot TkNe TkRegexpNMatch 61 126 t
      else if c = rune_of (CHR ''~'') then lx_yield TkRegexpMatch 1 t
      else if c = rune_of (CHR ''>'') then lx_p2 TkGt TkGe 61 t
      else if c = rune_of (CHR ''<'') then lx_p2 TkLt TkLe 61 t
      else if c = rune_of (CHR ''('') then lx_yield TkLPar 1 t
      else if c = rune_of (CHR '')'') then lx_yield TkRPar 1 t
      else if c = rune_of (CHR ''['') then lx_yield TkLSqr 1 t
      else if c = rune_of (CHR '']'') then lx_yield TkRSqr 1 t
      else if c = rune_of (CHR ''{'') then lx_yield TkLBra 1 t
      else if c = rune_of (CHR ''}'') then
        (if allowDRBra t then lx_p2 TkRBra TkDRBra 125 t else lx_yield TkRBra 1 t)
      else if c = rune_of (CHR ''.'') then lx_yield TkDot 1 t
      else if c = rune_of (CHR '','') then lx_yield TkComma 1 t
      else if c = rune_of (CHR ''$'') then lx_yield TkDollar 1 t
      else if c = rune_of (CHR ''?'') then lx_yield TkQuest 1 t
      else if c = 64 then
        (if lx_peek t 1 = Some 34 \<or> lx_peek t 1 = Some 39 then scanRId t else lx_yield TkAt 1 t)
      else if c = rune_of (CHR ''#'') then lx_yield TkSharp 1 t
      else if c = rune_of (CHR '';'') then lx_yield TkSemicolon 1 t
      else if c = rune_of (CHR '':'') then lx_p2 TkColon TkScope 58 t
      else if ascii_digit c then scanNum env t
      else if c = 34 \<or> c = 39 then scanStr t
      else scanIdOrKeywordOrPrefixString env nxt c t)"

text \<open>
  \<open>next\<close>: one round of its loop, or one nested call, takes one unit of fuel. At the head of
  each round \<open>startDCursor\<close>, which the deferred call saves, is the cursor.
\<close>

fun lex_loop :: "nat \<Rightarrow> lexenv \<Rightarrow> lexer \<Rightarrow> token res \<times> lexer" where
  "lex_loop 0 env t = (Diverge, t)"
| "lex_loop (Suc n) env t =
     (if length (lx_input t) \<le> lx_cursor t then
        mbind (lx_yield TkEof 0 t) (\<lambda>tk t'. (Ok tk, saveDCursor (lx_cursor t) t'))
      else
        let c = lx_input t ! lx_cursor t in
        if c \<in> set [32, 9, 13, 10, 11] then lex_loop n env (advance 1 t)
        else if c = 47 \<and> lx_peek t 1 = Some 47 then lex_loop n env (scanComment (advance 2 t))
        else if c = 47 \<and> lx_peek t 1 = Some 42 then
          mbind (scanCommentBlock (advance 2 t)) (\<lambda>ok t'.
            if ok then lex_loop n env t'
            else (Ok (lx_token t'), saveDCursor (lx_cursor t) t'))
        else
          mbind (scan_token env (lex_loop n env) c t)
            (\<lambda>tk t'. (Ok tk, saveDCursor (lx_cursor t) t')))"

text \<open>Enough fuel: each unit passes at least one rune (\<open>next_total\<close>).\<close>

definition lex_fuel :: "lexer \<Rightarrow> nat" where
  "lex_fuel t = Suc (length (lx_input t) - lx_cursor t)"

definition lx_next :: "lexenv \<Rightarrow> lexer \<Rightarrow> token res \<times> lexer" where
  "lx_next env t = lex_loop (lex_fuel t) env t"

definition lx_expect :: "lexenv \<Rightarrow> token \<Rightarrow> lexer \<Rightarrow> bool res \<times> lexer" where
  "lx_expect env tk t = mbind (lx_next env t) (\<lambda>_ t. expectCurrent tk t)"

end
