(* ===== verification/Scope.thy ===== *)
theory Scope
  imports Lexer Module
begin

text \<open>
  The parser's lexical scopes (\<open>lexicalScope\<close> of \<open>pl/parser.go\<close>): one table of symbols per scope,
  the kind of code and of loop it belongs to, the jumps that wait for the end of a loop, and, in
  the top scope of a function, its program and the number of its local slots. The chain of
  \<open>parent\<close> pointers is a list with the innermost scope in front; \<open>next\<close> is the other direction
  of the same list and \<open>top\<close> its first top scope, so neither is a field.
\<close>

datatype scptype = ScpNormal | ScpLoop | ScpInLoop

datatype entrytype = EntryFunc | EntryIter | EntryRule | EntryVar | EntryExpr | EntryConfig

datatype symtype = SymtConst | SymtVar

abbreviation (input) symError :: int where "symError \<equiv> - 1"
abbreviation (input) symInvalidConst :: int where "symInvalidConst \<equiv> - 2"

record syminfo =
  sy_name :: string
  sy_dec :: symtype

record lexicalScope =
  sc_tbl :: "syminfo list"
  sc_eType :: entrytype
  sc_scpType :: scptype
  sc_isTop :: bool
  sc_brklist :: "nat list"
  sc_cntlist :: "nat list"
  sc_prog :: "nat option"
  sc_maxLocal :: nat
  sc_offset :: nat

type_synonym scopes = "lexicalScope list"

definition nextOffset :: "lexicalScope \<Rightarrow> nat" where
  "nextOffset s = sc_offset s + length (sc_tbl s)"

fun prevTop :: "scopes \<Rightarrow> scopes" where
  "prevTop [] = []"
| "prevTop (s # p) = (if sc_isTop s then s # p else prevTop p)"

definition newLexicalScope :: "scptype \<Rightarrow> scopes \<Rightarrow> bool \<Rightarrow> lexicalScope res" where
  "newLexicalScope t p atop =
     (let t = (case p of
                 [] \<Rightarrow> t
               | q # _ \<Rightarrow> if t = ScpNormal \<and> sc_scpType q \<in> {ScpLoop, ScpInLoop} then ScpInLoop else t);
          off = (case p of [] \<Rightarrow> 0 | q # _ \<Rightarrow> if atop then 0 else nextOffset q);
          et = (case p of [] \<Rightarrow> EntryRule | q # _ \<Rightarrow> sc_eType q)
      in must (atop \<or> prevTop p \<noteq> []) ''every scope should have a top''
           (Ok \<lparr>sc_tbl = [], sc_eType = et, sc_scpType = t, sc_isTop = atop, sc_brklist = [],
                sc_cntlist = [], sc_prog = None, sc_maxLocal = 0, sc_offset = off\<rparr>))"

text \<open>The scopes from the nearest loop on outwards.\<close>

fun nearestLoop :: "scopes \<Rightarrow> scopes" where
  "nearestLoop [] = []"
| "nearestLoop (s # p) = (if sc_scpType s = ScpLoop then s # p else nearestLoop p)"

definition topMaxLocal :: "scopes \<Rightarrow> nat res" where
  "topMaxLocal ss = (case prevTop ss of [] \<Rightarrow> Panic ''nil pointer'' | t # _ \<Rightarrow> Ok (sc_maxLocal t))"

definition localSizeOf :: "lexicalScope \<Rightarrow> nat" where
  "localSizeOf s = length (sc_tbl s)"

definition vdx :: "lexicalScope \<Rightarrow> nat \<Rightarrow> nat" where
  "vdx s i = sc_offset s + i"

definition sc_idx :: "lexicalScope \<Rightarrow> nat \<Rightarrow> nat" where
  "sc_idx s i = i - sc_offset s"

section \<open>Symbols of one scope\<close>

fun sym_pos :: "syminfo list \<Rightarrow> string \<Rightarrow> nat \<Rightarrow> nat option" where
  "sym_pos [] x i = None"
| "sym_pos (y # ys) x i = (if sy_name y = x then Some i else sym_pos ys x (Suc i))"

definition sc_find :: "lexicalScope \<Rightarrow> string \<Rightarrow> int" where
  "sc_find s x = (case sym_pos (sc_tbl s) x 0 of Some i \<Rightarrow> int (vdx s i) | None \<Rightarrow> symError)"

definition sc_findVar :: "lexicalScope \<Rightarrow> string \<Rightarrow> int" where
  "sc_findVar s x =
     (let i = sc_find s x in
      if i = symError then symError
      else if sy_dec (sc_tbl s ! sc_idx s (nat i)) = SymtConst then symInvalidConst
      else i)"

definition sc_findConst :: "lexicalScope \<Rightarrow> string \<Rightarrow> int" where
  "sc_findConst s x = sc_find s x"

text \<open>A new symbol of the innermost scope takes a slot of the frame its top scope counts.\<close>

fun on_top :: "(lexicalScope \<Rightarrow> lexicalScope) \<Rightarrow> scopes \<Rightarrow> scopes" where
  "on_top f [] = []"
| "on_top f (s # p) = (if sc_isTop s then f s # p else s # on_top f p)"

definition sc_add :: "string \<Rightarrow> symtype \<Rightarrow> scopes \<Rightarrow> (int \<times> scopes) res" where
  "sc_add x st ss =
     (case ss of
        [] \<Rightarrow> Panic ''nil pointer''
      | s # p \<Rightarrow>
          must (sc_find s x = symError) ''forget to put variable check?''
            (let s' = s\<lparr>sc_tbl := sc_tbl s @ [\<lparr>sy_name = x, sy_dec = st\<rparr>]\<rparr> in
             Ok (int (vdx s' (length (sc_tbl s') - 1)),
                 on_top (\<lambda>t. t\<lparr>sc_maxLocal := sc_maxLocal t + 1\<rparr>) (s' # p))))"

definition sc_addVar :: "string \<Rightarrow> scopes \<Rightarrow> (int \<times> scopes) res" where
  "sc_addVar x ss = sc_add x SymtVar ss"

definition sc_addConst :: "string \<Rightarrow> scopes \<Rightarrow> (int \<times> scopes) res" where
  "sc_addConst x ss = sc_add x SymtConst ss"

section \<open>Local symbols of one function\<close>

text \<open>From a scope outwards up to the top of its function: the index and the scope it ended at.\<close>

fun findLocalAt :: "string \<Rightarrow> scopes \<Rightarrow> int \<times> scopes" where
  "findLocalAt n [] = (symError, [])"
| "findLocalAt n (s # p) =
     (if sc_find s n \<noteq> symError then (sc_find s n, s # p)
      else if sc_isTop s then (symError, s # p)
      else findLocalAt n p)"

fun findLocalVarAt :: "string \<Rightarrow> scopes \<Rightarrow> int \<times> scopes" where
  "findLocalVarAt n [] = (symError, [])"
| "findLocalVarAt n (s # p) =
     (if sc_findVar s n \<noteq> symError then (sc_findVar s n, s # p)
      else if sc_isTop s then (symError, s # p)
      else findLocalVarAt n p)"

definition findLocal :: "string \<Rightarrow> scopes \<Rightarrow> int" where
  "findLocal n ss = fst (findLocalAt n ss)"

definition findLocalVar :: "string \<Rightarrow> scopes \<Rightarrow> int" where
  "findLocalVar n ss = fst (findLocalVarAt n ss)"

text \<open>The scopes around the current function, and those from its top on.\<close>

definition findNearestUpcall :: "scopes \<Rightarrow> (scopes \<times> scopes) res" where
  "findNearestUpcall ss =
     (case prevTop ss of [] \<Rightarrow> Panic ''nil pointer'' | t # p \<Rightarrow> Ok (p, t # p))"

section \<open>Symbols of the enclosing functions\<close>

lemma findLocalAt_length: "length (snd (findLocalAt n ss)) \<le> length ss"
  by (induction ss) auto

text \<open>\<open>cur\<close> runs from function to function; the result is the index and the scopes it is found in.\<close>

function find_outer :: "string \<Rightarrow> scopes \<Rightarrow> (nat \<times> scopes) option" where
  "find_outer n [] = None"
| "find_outer n (s # p) =
     (let (i, found) = findLocalAt n (s # p) in
      if 0 \<le> i then Some (nat i, found)
      else case found of [] \<Rightarrow> None | _ # q \<Rightarrow> find_outer n q)"
  by pat_completeness auto
termination
proof (relation "measure (\<lambda>(n, ss). length ss)", goal_cases)
  case 1
  then show ?case by simp
next
  case (2 n s p x i found t q)
  then have "length found \<le> length (s # p)" using findLocalAt_length [of n "s # p"] by (metis snd_conv)
  with 2 show ?case by simp
qed

text \<open>
  The programs between the scope a symbol was found in and the current one, outermost first:
  the functions a captured variable is handed through.
\<close>

definition between_tops :: "scopes \<Rightarrow> scopes \<Rightarrow> lexicalScope list" where
  "between_tops ss found = rev (filter sc_isTop (take (length ss - length found) ss))"

definition varPlaceholder :: string where "varPlaceholder = ''_''"

end
