(* ===== verification/ParserBase.thy ===== *)
theory ParserBase
  imports Scope
begin

text \<open>
  The state of the parser (\<open>parser\<close> of \<open>pl/parser.go\<close>) and what every parsing function uses: the
  current token, errors, emitting and patching, scopes and the jumps of loops, the resolution of
  symbols with the capture of upvalues, imported modules, and the calls that are resolved when
  everything is parsed.

  A program under construction is shared by the module, its scope and the pending calls; here a
  program is a number, its place in \<open>ps_progs\<close>.
\<close>

section \<open>State\<close>

datatype unboundCall = UnboundCallNormal | UnboundCallPipe | UnboundCallIterSetUp

record callentry =
  ce_entryPos :: nat
  ce_swapPos :: "nat option"
  ce_callPos :: nat
  ce_prog :: nat
  ce_arg :: nat
  ce_symbol :: string
  ce_ctype :: unboundCall

record modParser =
  mp_path :: string
  mp_modName :: string
  mp_gIndex :: nat
  mp_sIndex :: nat
  mp_fIndex :: nat

record importInfo =
  im_path :: string
  im_prefix :: string

record pstate =
  ps_l :: lexer
  ps_module :: module
  ps_stbl :: scopes
  ps_globalVar :: "string list"
  ps_sessVar :: "string list"
  ps_callPatch :: "callentry list"
  ps_counter :: int64
  ps_mlist :: "modParser list"
  ps_importList :: "importInfo list"
  ps_modModName :: string
  ps_modImportPath :: string
  ps_progs :: "program list"

text \<open>
  What the parser uses from outside: tables of letters, files to import and to include, the
  compilers of regular expressions and of templates (by the type, none for an unknown one; of a
  name, a text and options it makes the number of the template or an error), and the names of the
  intrinsic functions in their order.
\<close>

record penv =
  pe_lex :: lexenv
  pe_readFile :: "string \<Rightarrow> string res"
  pe_LoadFile :: "string \<Rightarrow> string res"
  pe_regexp :: "string \<Rightarrow> string option"
  pe_template :: "string \<Rightarrow> (string \<Rightarrow> string \<Rightarrow> (string \<times> val) list option \<Rightarrow> nat res) option"
  pe_intrinsics :: "string list"

definition newParser :: "string \<Rightarrow> pstate" where
  "newParser input =
     \<lparr>ps_l = newLexer input, ps_module = newModule, ps_stbl = [], ps_globalVar = [], ps_sessVar = [],
      ps_callPatch = [], ps_counter = 0, ps_mlist = [], ps_importList = [], ps_modModName = [],
      ps_modImportPath = [], ps_progs = []\<rparr>"

type_synonym 'a pm = "pstate \<Rightarrow> 'a res \<times> pstate"

definition parsingMod :: "pstate \<Rightarrow> bool" where
  "parsingMod s = (length (ps_mlist s) \<noteq> 0)"

definition curMod :: "pstate \<Rightarrow> modParser res" where
  "curMod s = (if ps_mlist s = [] then Panic ''index out of range'' else Ok (last (ps_mlist s)))"

section \<open>Sequencing\<close>

definition ret :: "'a \<Rightarrow> 's \<Rightarrow> 'a res \<times> 's" where
  "ret x s = (Ok x, s)"

definition bnd :: "('s \<Rightarrow> 'a res \<times> 's) \<Rightarrow> ('a \<Rightarrow> 's \<Rightarrow> 'b res \<times> 's) \<Rightarrow> 's \<Rightarrow> 'b res \<times> 's" where
  "bnd m f s = mbind (m s) f"

definition thn :: "('s \<Rightarrow> 'a res \<times> 's) \<Rightarrow> ('s \<Rightarrow> 'b res \<times> 's) \<Rightarrow> 's \<Rightarrow> 'b res \<times> 's" where
  "thn m n s = mbind (m s) (\<lambda>_. n)"

fun seqs :: "('s \<Rightarrow> unit res \<times> 's) list \<Rightarrow> 's \<Rightarrow> unit res \<times> 's" where
  "seqs [] s = (Ok (), s)"
| "seqs (m # ms) s = mbind (m s) (\<lambda>_. seqs ms)"

definition gets :: "('s \<Rightarrow> 'a) \<Rightarrow> 's \<Rightarrow> 'a res \<times> 's" where
  "gets f s = (Ok (f s), s)"

definition modify :: "('s \<Rightarrow> 's) \<Rightarrow> 's \<Rightarrow> unit res \<times> 's" where
  "modify f s = (Ok (), f s)"

definition liftr :: "'a res \<Rightarrow> 's \<Rightarrow> 'a res \<times> 's" where
  "liftr r s = (r, s)"

text \<open>
  A loop that ends with \<open>Inr\<close>; one unit of fuel per round. Its fuel, and the depth of the
  recursion, are the fuel of the parser.
\<close>

fun loop :: "nat \<Rightarrow> ('a \<Rightarrow> 's \<Rightarrow> ('a + 'b) res \<times> 's) \<Rightarrow> 'a \<Rightarrow> 's \<Rightarrow> 'b res \<times> 's" where
  "loop 0 body a s = (Diverge, s)"
| "loop (Suc n) body a s =
     mbind (body a s) (\<lambda>x s. case x of Inl a' \<Rightarrow> loop n body a' s | Inr b \<Rightarrow> (Ok b, s))"

section \<open>Tokens and errors\<close>

definition on_lexer :: "(lexer \<Rightarrow> 'a res \<times> lexer) \<Rightarrow> 'a pm" where
  "on_lexer f s = (case f (ps_l s) of (r, l) \<Rightarrow> (r, s\<lparr>ps_l := l\<rparr>))"

definition next_tk :: "penv \<Rightarrow> token pm" where
  "next_tk env s = on_lexer (lx_next (pe_lex env)) s"

text \<open>\<open>p.l.next()\<close> with its result unused.\<close>

definition skip :: "penv \<Rightarrow> unit pm" where
  "skip env s = mbind (next_tk env s) (\<lambda>_. ret ())"

definition tk :: "token pm" where
  "tk s = (Ok (lx_token (ps_l s)), s)"

definition text_value :: "string pm" where
  "text_value s = (Ok (valueText (ps_l s)), s)"

definition toErr :: "'a pm" where
  "toErr s = (toError (ps_l s), s)"

text \<open>\<open>if !p.l.expect(t) { return p.l.toError() }\<close>, and the same for the current token.\<close>

definition want :: "penv \<Rightarrow> token \<Rightarrow> unit pm" where
  "want env t s = mbind (on_lexer (lx_expect (pe_lex env) t) s) (\<lambda>b. if b then ret () else toErr)"

definition wantCurrent :: "token \<Rightarrow> unit pm" where
  "wantCurrent t s = mbind (on_lexer (expectCurrent t) s) (\<lambda>b. if b then ret () else toErr)"

definition perr :: "string \<Rightarrow> 'a pm" where
  "perr xx s =
     (if lx_token (ps_l s) = TkError then toErr s
      else rlift (position (ps_l s)) s (\<lambda>w s. (Err (w @ '': '' @ xx), s)))"

text \<open>The lexeme a statement may need again.\<close>

record lexeme =
  lm_cursor :: nat
  lm_token :: token
  lm_ival :: int64
  lm_rval :: fl
  lm_sval :: string
  lm_dflag :: bool

definition get_lexeme :: "pstate \<Rightarrow> lexeme" where
  "get_lexeme s =
     (let l = ps_l s in
      \<lparr>lm_cursor = lx_cursor l, lm_token = lx_token l, lm_ival = valueInt l, lm_rval = valueReal l,
       lm_sval = valueText l, lm_dflag = allowDRBra l\<rparr>)"

definition restore :: "lexeme \<Rightarrow> pstate \<Rightarrow> pstate" where
  "restore m s =
     s\<lparr>ps_l := (ps_l s)\<lparr>lx_cursor := lm_cursor m, lx_token := lm_token m, valueInt := lm_ival m,
                       valueReal := lm_rval m, valueText := lm_sval m, allowDRBra := lm_dflag m\<rparr>\<rparr>"

section \<open>Programs under construction\<close>

definition prog_at :: "pstate \<Rightarrow> nat \<Rightarrow> program" where
  "prog_at s p = ps_progs s ! p"

definition upd_prog :: "nat \<Rightarrow> (program \<Rightarrow> program) \<Rightarrow> unit pm" where
  "upd_prog p f s = (Ok (), s\<lparr>ps_progs := (ps_progs s)[p := f (ps_progs s ! p)]\<rparr>)"

definition alloc_prog :: "string \<Rightarrow> progtype \<Rightarrow> nat pm" where
  "alloc_prog name t s =
     (Ok (length (ps_progs s)), s\<lparr>ps_progs := ps_progs s @ [newProgram 0 name t]\<rparr>)"

definition em0 :: "nat \<Rightarrow> opcode \<Rightarrow> unit pm" where
  "em0 p op s = upd_prog p (\<lambda>x. emit0 x (lx_dbg (ps_l s)) op) s"

definition em1 :: "nat \<Rightarrow> opcode \<Rightarrow> nat \<Rightarrow> unit pm" where
  "em1 p op a s = upd_prog p (\<lambda>x. emit1 x (lx_dbg (ps_l s)) op a) s"

definition em1At :: "nat \<Rightarrow> nat \<Rightarrow> opcode \<Rightarrow> nat \<Rightarrow> unit pm" where
  "em1At p i op a s = rlift (emit1At (prog_at s p) i op a) s (\<lambda>x. upd_prog p (\<lambda>_. x))"

definition em0At :: "nat \<Rightarrow> nat \<Rightarrow> opcode \<Rightarrow> unit pm" where
  "em0At p i op s = em1At p i op 0 s"

definition cur_label :: "nat \<Rightarrow> nat pm" where
  "cur_label p s = (Ok (label (prog_at s p)), s)"

definition hole :: "nat \<Rightarrow> nat pm" where
  "hole p s =
     (case patch (prog_at s p) (lx_dbg (ps_l s)) of
        (x, i) \<Rightarrow> (Ok i, s\<lparr>ps_progs := (ps_progs s)[p := x]\<rparr>))"

text \<open>The hole is filled with an instruction that carries the current label.\<close>

definition land_here :: "nat \<Rightarrow> nat \<Rightarrow> opcode \<Rightarrow> unit pm" where
  "land_here p i op s = em1At p i op (label (prog_at s p)) s"

definition pop_last :: "nat \<Rightarrow> bytecode pm" where
  "pop_last p s =
     rlift (popLast (prog_at s p)) s
       (\<lambda>(x, b) s. (Ok b, s\<lparr>ps_progs := (ps_progs s)[p := x]\<rparr>))"

definition add_const :: "(program \<Rightarrow> 'a \<Rightarrow> program \<times> nat) \<Rightarrow> nat \<Rightarrow> 'a \<Rightarrow> nat pm" where
  "add_const add p x s =
     (case add (prog_at s p) x of (q, k) \<Rightarrow> (Ok k, s\<lparr>ps_progs := (ps_progs s)[p := q]\<rparr>))"

text \<open>An instruction that reads a constant.\<close>

definition em_str :: "nat \<Rightarrow> opcode \<Rightarrow> string \<Rightarrow> unit pm" where
  "em_str p op x s = mbind (add_const addStr p x s) (em1 p op)"

definition em_int :: "nat \<Rightarrow> opcode \<Rightarrow> int64 \<Rightarrow> unit pm" where
  "em_int p op x s = mbind (add_const addInt p x s) (em1 p op)"

definition em_real :: "nat \<Rightarrow> opcode \<Rightarrow> fl \<Rightarrow> unit pm" where
  "em_real p op x s = mbind (add_const addReal p x s) (em1 p op)"

definition em_regexp :: "penv \<Rightarrow> nat \<Rightarrow> string \<Rightarrow> unit pm" where
  "em_regexp env p x s =
     rlift (addRegexp (pe_regexp env) (prog_at s p) x) s
       (\<lambda>(q, k) s. em1 p BcLoadRegexp k (s\<lparr>ps_progs := (ps_progs s)[p := q]\<rparr>))"

definition addTemplate :: "penv \<Rightarrow> program \<Rightarrow> string \<Rightarrow> string \<Rightarrow> (string \<times> val) list option \<Rightarrow> (program \<times> nat) res" where
  "addTemplate env p t c opt =
     (case pe_template env t of
        None \<Rightarrow> Err (''unsupported template type '' @ t)
      | Some compile \<Rightarrow>
          (let i = length (tbTemplate p) in
           rbind (compile (''temp-'' @ int_dec (int i)) c opt) (\<lambda>x.
             Ok (p\<lparr>tbTemplate := tbTemplate p @ [x]\<rparr>, i))))"

section \<open>Scopes\<close>

definition enterScope :: "scptype \<Rightarrow> bool \<Rightarrow> unit pm" where
  "enterScope t atop s =
     rlift (newLexicalScope t (ps_stbl s) atop) s (\<lambda>x s. (Ok (), s\<lparr>ps_stbl := x # ps_stbl s\<rparr>))"

definition enterLoopScope :: "unit pm" where
  "enterLoopScope s = enterScope ScpLoop False s"

definition enterNormalScope :: "unit pm" where
  "enterNormalScope s = enterScope ScpNormal False s"

text \<open>The innermost scope.\<close>

definition cur_scope :: "lexicalScope pm" where
  "cur_scope s = (case ps_stbl s of [] \<Rightarrow> (Panic ''nil pointer'', s) | x # _ \<Rightarrow> (Ok x, s))"

definition upd_scope :: "(lexicalScope \<Rightarrow> lexicalScope) \<Rightarrow> unit pm" where
  "upd_scope f s =
     (case ps_stbl s of
        [] \<Rightarrow> (Panic ''nil pointer'', s)
      | x # p \<Rightarrow> (Ok (), s\<lparr>ps_stbl := f x # p\<rparr>))"

definition enterScopeTop :: "entrytype \<Rightarrow> nat \<Rightarrow> unit pm" where
  "enterScopeTop et p s =
     thn (enterScope ScpNormal True) (upd_scope (\<lambda>x. x\<lparr>sc_eType := et, sc_prog := Some p\<rparr>)) s"

definition leaveScope :: "unit pm" where
  "leaveScope s =
     (case ps_stbl s of [] \<Rightarrow> (Panic ''nil pointer'', s) | _ # p \<Rightarrow> (Ok (), s\<lparr>ps_stbl := p\<rparr>))"

text \<open>A deferred \<open>leaveScope\<close>: it runs on every return.\<close>

definition then_leave :: "'a pm \<Rightarrow> 'a pm" where
  "then_leave m s =
     (case m s of
        (Panic e, s) \<Rightarrow> (Panic e, s)
      | (Diverge, s) \<Rightarrow> (Diverge, s)
      | (r, s) \<Rightarrow> mbind (leaveScope s) (\<lambda>_ s. (r, s)))"

definition isInLoop :: "bool pm" where
  "isInLoop s = mbind (cur_scope s) (\<lambda>x s. (Ok (sc_scpType x \<in> {ScpInLoop, ScpLoop}), s))"

definition isLoop :: "bool pm" where
  "isLoop s = mbind (cur_scope s) (\<lambda>x s. (Ok (sc_scpType x = ScpLoop), s))"

definition isEntry :: "entrytype \<Rightarrow> bool pm" where
  "isEntry t s = mbind (cur_scope s) (\<lambda>x s. (Ok (sc_eType x = t), s))"

definition pmust :: "bool pm \<Rightarrow> string \<Rightarrow> unit pm" where
  "pmust c msg s = mbind (c s) (\<lambda>b s. (must b msg (Ok ()), s))"

text \<open>The scopes of the nearest loop get one more jump; \<open>f\<close> is the list it goes to.\<close>

definition on_loop :: "(lexicalScope \<Rightarrow> lexicalScope) \<Rightarrow> string \<Rightarrow> unit pm" where
  "on_loop f msg s =
     thn (pmust isInLoop msg) (\<lambda>s.
       case nearestLoop (ps_stbl s) of
         [] \<Rightarrow> (Panic ''must: must have a closed loop'', s)
       | l # p \<Rightarrow> (Ok (), s\<lparr>ps_stbl := take (length (ps_stbl s) - length (l # p)) (ps_stbl s) @ f l # p\<rparr>)) s"

definition addBreak :: "nat \<Rightarrow> unit pm" where
  "addBreak i s =
     on_loop (\<lambda>l. l\<lparr>sc_brklist := sc_brklist l @ [i]\<rparr>) ''must be in loop(addBreak)'' s"

definition addContinue :: "nat \<Rightarrow> unit pm" where
  "addContinue i s =
     on_loop (\<lambda>l. l\<lparr>sc_cntlist := sc_cntlist l @ [i]\<rparr>) ''must be in loop(addContinue)'' s"

fun jump_all :: "nat \<Rightarrow> nat list \<Rightarrow> nat \<Rightarrow> unit pm" where
  "jump_all p [] to s = (Ok (), s)"
| "jump_all p (x # xs) to s = mbind (em1At p x BcJump to s) (\<lambda>_. jump_all p xs to)"

definition patchBreak :: "nat \<Rightarrow> unit pm" where
  "patchBreak p s =
     thn (pmust isInLoop ''must be in loop(patchBreak)'') (\<lambda>s.
       mbind (cur_scope s) (\<lambda>x s.
       mbind (jump_all p (sc_brklist x) (label (prog_at s p)) s) (\<lambda>_.
         upd_scope (\<lambda>x. x\<lparr>sc_brklist := []\<rparr>)))) s"

definition patchContinue :: "nat \<Rightarrow> unit pm" where
  "patchContinue p s =
     thn (pmust isInLoop ''must be in loop(patchContinue)'') (\<lambda>s.
       mbind (cur_scope s) (\<lambda>x s.
       mbind (jump_all p (sc_cntlist x) (label (prog_at s p)) s) (\<lambda>_.
         upd_scope (\<lambda>x. x\<lparr>sc_cntlist := []\<rparr>)))) s"

section \<open>Local symbols\<close>

definition uid :: "string pm" where
  "uid s = (let c = ps_counter s + 1 in (Ok (''@uid_'' @ nat_digits (unat c)), s\<lparr>ps_counter := c\<rparr>))"

definition varName :: "string \<Rightarrow> string pm" where
  "varName x s = (if x = varPlaceholder then uid s else (Ok x, s))"

definition def_local :: "symtype \<Rightarrow> string \<Rightarrow> int pm" where
  "def_local st x s =
     mbind (varName x s) (\<lambda>x s.
     mbind (cur_scope s) (\<lambda>c s.
       if sc_find c x \<noteq> symError then (Ok symError, s)
       else rlift (sc_add x st (ps_stbl s)) s (\<lambda>(i, ss) s. (Ok i, s\<lparr>ps_stbl := ss\<rparr>))))"

definition defLocalVar :: "string \<Rightarrow> int pm" where
  "defLocalVar x s = def_local SymtVar x s"

definition defLocalConst :: "string \<Rightarrow> int pm" where
  "defLocalConst x s = def_local SymtConst x s"

definition mustAddLocalVar :: "string \<Rightarrow> nat pm" where
  "mustAddLocalVar x s =
     mbind (defLocalVar x s) (\<lambda>i s. (must (i \<noteq> symError) x (Ok (nat i)), s))"

section \<open>Upvalues\<close>

text \<open>
  The symbol is added to every function between its scope and the current one: from the frame
  in the first of them, from the upvalues of the one around it in the others.
\<close>

fun collapse :: "lexicalScope list \<Rightarrow> nat \<Rightarrow> bool \<Rightarrow> nat pm" where
  "collapse [] i onStack s = (Ok i, s)"
| "collapse (t # ts) i onStack s =
     (case sc_prog t of
        None \<Rightarrow> (Panic ''nil pointer'', s)
      | Some p \<Rightarrow>
          mbind (upd_prog p (\<lambda>x. x\<lparr>pr_upvalue := pr_upvalue x @ [\<lparr>uv_index = i, uv_onStack = onStack\<rparr>]\<rparr>) s)
            (\<lambda>_ s. collapse ts (length (pr_upvalue (prog_at s p)) - 1) False s))"

definition findUpval :: "string \<Rightarrow> int pm" where
  "findUpval n s =
     rlift (findNearestUpcall (ps_stbl s)) s (\<lambda>(start, cur_top) s.
       case find_outer n start of
         None \<Rightarrow> (Ok (- 1), s)
       | Some (i, found) \<Rightarrow>
           mbind (collapse (between_tops (ps_stbl s) found) i True s) (\<lambda>k s. (Ok (int k), s)))"

section \<open>Resolution of symbols\<close>

datatype symkind = SymSession | SymLocal | SymUpval | SymFunc | SymGlobal | SymDynamic

fun name_pos :: "string list \<Rightarrow> string \<Rightarrow> nat \<Rightarrow> int" where
  "name_pos [] x i = symError"
| "name_pos (n # ns) x i = (if n = x then int i else name_pos ns x (Suc i))"

definition findSessionIdx :: "string \<Rightarrow> pstate \<Rightarrow> int" where
  "findSessionIdx x s = name_pos (ps_sessVar s) x 0"

definition findGlobalIdx :: "string \<Rightarrow> pstate \<Rightarrow> int" where
  "findGlobalIdx x s = name_pos (ps_globalVar s) x 0"

definition resolve_outer :: "string \<Rightarrow> bool \<Rightarrow> (symkind \<times> int) pm" where
  "resolve_outer xx forWrite s =
     mbind (findUpval xx s) (\<lambda>u s.
       if 0 \<le> u then (Ok (SymUpval, u), s)
       else
         let f = (if forWrite then - 1 else getFnIndex (prog_at s) (ps_module s) xx) in
         if f \<noteq> - 1 then (Ok (SymFunc, f), s)
         else if findSessionIdx xx s \<noteq> symError then (Ok (SymSession, findSessionIdx xx s), s)
         else if findGlobalIdx xx s \<noteq> symError then (Ok (SymGlobal, findGlobalIdx xx s), s)
         else (Ok (SymDynamic, symError), s))"

definition resolveSymbol :: "string \<Rightarrow> bool \<Rightarrow> (symkind \<times> int) pm" where
  "resolveSymbol xx forWrite s =
     (if forWrite then
        (let i = findLocalVar xx (ps_stbl s) in
         if i = symInvalidConst \<or> 0 \<le> i then (Ok (SymLocal, i), s) else resolve_outer xx forWrite s)
      else
        (let i = findLocal xx (ps_stbl s) in
         if i \<noteq> symError then (Ok (SymLocal, i), s) else resolve_outer xx forWrite s))"

text \<open>Instructions that read and write a symbol; \<open>bcLoadVar\<close> and \<open>bcStoreVar\<close> go by name.\<close>

definition load_var :: "nat \<Rightarrow> string \<Rightarrow> symkind \<Rightarrow> int \<Rightarrow> unit pm" where
  "load_var p name k i s =
     (case k of
        SymSession \<Rightarrow> (if 0 \<le> i then em1 p BcLoadSession (nat i) s else (Panic ''must: must be valid index'', s))
      | SymLocal \<Rightarrow> (if 0 \<le> i then em1 p BcLoadLocal (nat i) s else (Panic ''must: must be valid index'', s))
      | SymUpval \<Rightarrow> (if 0 \<le> i then em1 p BcLoadUpvalue (nat i) s else (Panic ''must: must be valid index'', s))
      | SymGlobal \<Rightarrow> (if 0 \<le> i then em1 p BcLoadGlobal (nat i) s else (Panic ''must: must be valid index'', s))
      | _ \<Rightarrow> em_str p BcLoadVar name s)"

definition store_var :: "nat \<Rightarrow> string \<Rightarrow> symkind \<Rightarrow> int \<Rightarrow> unit pm" where
  "store_var p name k i s =
     (case k of
        SymSession \<Rightarrow> em1 p BcStoreSession (nat i) s
      | SymLocal \<Rightarrow> em1 p BcStoreLocal (nat i) s
      | SymUpval \<Rightarrow> em1 p BcStoreUpvalue (nat i) s
      | SymGlobal \<Rightarrow> em1 p BcStoreGlobal (nat i) s
      | _ \<Rightarrow> em_str p BcStoreVar name s)"


section \<open>Names of modules\<close>

record modSymbol =
  ms_prefix :: string
  ms_rest :: "string list"

fun join :: "string \<Rightarrow> string list \<Rightarrow> string" where
  "join sep [] = []"
| "join sep [x] = x"
| "join sep (x # y # xs) = x @ sep @ join sep (y # xs)"

definition modSep :: string where "modSep = ''::''"

definition modSymbolName :: "string \<Rightarrow> string \<Rightarrow> string" where
  "modSymbolName m n = m @ ''::'' @ n"

definition fullname :: "modSymbol \<Rightarrow> string" where
  "fullname m = (if ms_rest m = [] then ms_prefix m else join modSep (ms_prefix m # ms_rest m))"

definition isModule :: "modSymbol \<Rightarrow> bool" where
  "isModule m = (0 < length (ms_rest m))"

definition modulePrefix :: "modSymbol \<Rightarrow> string" where
  "modulePrefix m = (if ms_rest m = [] then [] else join modSep (ms_rest m))"

definition topModuleName :: "modSymbol \<Rightarrow> string" where
  "topModuleName m = (case ms_rest m of [] \<Rightarrow> [] | x # _ \<Rightarrow> x)"

definition mod_symbol_round :: "penv \<Rightarrow> modSymbol \<Rightarrow> (modSymbol + modSymbol) pm" where
  "mod_symbol_round env m s =
     thn (wantCurrent TkId) (bnd text_value (\<lambda>x. bnd (next_tk env) (\<lambda>t.
       let m' = m\<lparr>ms_rest := ms_rest m @ [x]\<rparr> in
       if t \<noteq> TkScope then ret (Inr m') else thn (skip env) (ret (Inl m'))))) s"

definition parseModSymbol :: "nat \<Rightarrow> penv \<Rightarrow> string \<Rightarrow> modSymbol pm" where
  "parseModSymbol n env prefix s =
     (let m = \<lparr>ms_prefix = prefix, ms_rest = []\<rparr> in
      bnd tk (\<lambda>t. if t = TkScope then thn (skip env) (loop n (mod_symbol_round env) m) else ret m)) s"

section \<open>Imported modules\<close>

definition isImported :: "string \<Rightarrow> pstate \<Rightarrow> bool" where
  "isImported path s = list_ex (\<lambda>x. im_path x = path) (ps_importList s)"

definition modPrefixExist :: "string \<Rightarrow> pstate \<Rightarrow> bool" where
  "modPrefixExist name s = list_ex (\<lambda>x. im_prefix x = name) (ps_importList s)"

definition addImportInfo :: "string \<Rightarrow> string \<Rightarrow> unit pm" where
  "addImportInfo path prefix s =
     (Ok (), s\<lparr>ps_importList := ps_importList s @ [\<lparr>im_path = path, im_prefix = prefix\<rparr>]\<rparr>)"

definition parseModDec :: "nat \<Rightarrow> penv \<Rightarrow> unit pm" where
  "parseModDec n env s =
     bnd tk (\<lambda>t.
       if t \<noteq> TkModule then
         bnd (gets ps_modImportPath) (\<lambda>p.
           perr (''parsing imported module: '' @ p @ '', first statement must be module declaration''))
       else thn (want env TkId) (bnd text_value (\<lambda>prefix. thn (skip env)
         (bnd (parseModSymbol n env prefix) (\<lambda>mname.
           thn (modify (\<lambda>s. s\<lparr>ps_modModName := fullname mname\<rparr>))
             (bnd (gets (modPrefixExist (fullname mname))) (\<lambda>b.
                bnd (gets ps_modImportPath) (\<lambda>p.
                  if b then
                    perr (''module from file '' @ p @ '', its module name '' @ fullname mname @ '' is already existed'')
                  else addImportInfo p (fullname mname))))))))) s"

definition importLoop :: "unit pm" where
  "importLoop s =
     (if list_ex (\<lambda>v. mp_path v = ps_modImportPath s) (ps_mlist s) then
        perr (''the module '' @ ps_modImportPath s @ '' has been imported already, cycle detected'') s
      else (Ok (), s))"

definition startModule :: "unit pm" where
  "startModule s =
     (Ok (), s\<lparr>ps_mlist := ps_mlist s @ [\<lparr>mp_path = ps_modImportPath s, mp_modName = ps_modModName s,
        mp_gIndex = length (ps_globalVar s), mp_sIndex = length (ps_sessVar s),
        mp_fIndex = length (md_fn (ps_module s))\<rparr>]\<rparr>)"

text \<open>Everything declared since the module began gets its name in front.\<close>

definition rename_from :: "string \<Rightarrow> nat \<Rightarrow> string list \<Rightarrow> string list" where
  "rename_from m i xs = take i xs @ map (modSymbolName m) (drop i xs)"

definition rename_progs :: "string \<Rightarrow> nat list \<Rightarrow> program list \<Rightarrow> program list" where
  "rename_progs m fns ps = fold (\<lambda>f ps. ps[f := (ps ! f)\<lparr>pr_name := modSymbolName m (pr_name (ps ! f))\<rparr>]) fns ps"

definition endModule :: "unit pm" where
  "endModule s =
     rlift (curMod s) s (\<lambda>c s.
       (Ok (), s\<lparr>ps_globalVar := rename_from (mp_modName c) (mp_gIndex c) (ps_globalVar s),
                 ps_sessVar := rename_from (mp_modName c) (mp_sIndex c) (ps_sessVar s),
                 ps_progs := rename_progs (mp_modName c) (drop (mp_fIndex c) (md_fn (ps_module s))) (ps_progs s),
                 ps_mlist := butlast (ps_mlist s)\<rparr>))"

section \<open>Calls that are resolved at the end\<close>

definition indexIntrinsic :: "penv \<Rightarrow> string \<Rightarrow> int" where
  "indexIntrinsic env name = name_pos (pe_intrinsics env) name 0"

definition patch_call :: "penv \<Rightarrow> callentry \<Rightarrow> unit pm" where
  "patch_call env e s =
     thn (case ce_swapPos e of None \<Rightarrow> ret () | Some i \<Rightarrow> em0At (ce_prog e) i BcSwap)
       (\<lambda>s.
          let p = ce_prog e; ii = indexIntrinsic env (ce_symbol e);
              fi = getFnIndex (prog_at s) (ps_module s) (ce_symbol e) in
          (if ii \<noteq> - 1 then
             bnd (add_const addInt p (word_of_int ii)) (\<lambda>k.
               thn (em1At p (ce_entryPos e) BcLoadInt k) (em1At p (ce_callPos e) BcICall (ce_arg e)))
           else if fi \<noteq> - 1 then
             (if ce_ctype e = UnboundCallIterSetUp then
                thn (em1At p (ce_entryPos e) BcLoadIterator (nat fi))
                  (em1At p (ce_callPos e) BcSetUpIterator (ce_arg e))
              else
                bnd (add_const addInt p (word_of_int fi)) (\<lambda>k.
                  thn (em1At p (ce_entryPos e) BcLoadInt k) (em1At p (ce_callPos e) BcSCall (ce_arg e))))
           else
             bnd (add_const addStr p (ce_symbol e)) (\<lambda>k.
               thn (em1At p (ce_entryPos e) BcLoadVar k) (em1At p (ce_callPos e) BcVCall (ce_arg e)))) s) s"

fun patch_calls :: "penv \<Rightarrow> callentry list \<Rightarrow> unit pm" where
  "patch_calls env [] s = (Ok (), s)"
| "patch_calls env (e # es) s = mbind (patch_call env e s) (\<lambda>_. patch_calls env es)"

text \<open>The list is not emptied.\<close>

definition patchAllCall :: "penv \<Rightarrow> unit pm" where
  "patchAllCall env s = patch_calls env (ps_callPatch s) s"

end
