(* ===== verification/ParserExpr.thy ===== *)
theory ParserExpr
  imports ParserBase
begin

text \<open>
  Expressions of \<open>pl/parser.go\<close>: calls, suffixes, literals, string interpolation and templates,
  primary expressions, operators by precedence climbing. The functions of the parser call each
  other; a function that is called before it is defined here is called through \<open>K\<close>, which
  \<open>Parser\<close> ties to the functions themselves. \<open>n\<close> bounds the rounds of a loop.
\<close>

datatype pcall =
    PExpr nat
  | PBinary nat int
  | PUnary nat
  | PBody nat
  | PConfigBody nat
  | PExprBody nat
  | PExprScope nat
  | PModule

type_synonym knot = "pcall \<Rightarrow> unit pm"

definition tk_is :: "token \<Rightarrow> bool pm" where
  "tk_is t s = (Ok (lx_token (ps_l s) = t), s)"

section \<open>Calls\<close>

definition call_arg_round :: "penv \<Rightarrow> knot \<Rightarrow> nat \<Rightarrow> nat \<Rightarrow> (nat + nat) pm" where
  "call_arg_round env K p c s =
     thn (K (PExpr p)) (bnd tk (\<lambda>t.
       if t = TkComma then thn (skip env) (ret (Inl (Suc c)))
       else if t = TkRPar then ret (Inr (Suc c))
       else perr ''invalid token, expect ',' or ')' in function argument list'')) s"

definition parseCallArgs :: "nat \<Rightarrow> penv \<Rightarrow> knot \<Rightarrow> nat \<Rightarrow> nat pm" where
  "parseCallArgs n env K p s =
     thn (pmust (tk_is TkLPar) ''expect '(' for function call'') (thn (skip env)
       (bnd (bnd tk (\<lambda>t. if t \<noteq> TkRPar then loop n (call_arg_round env K p) 0 else ret 0))
         (\<lambda>c. thn (skip env) (ret c)))) s"

definition parseICall :: "nat \<Rightarrow> penv \<Rightarrow> knot \<Rightarrow> nat \<Rightarrow> int64 \<Rightarrow> unit pm" where
  "parseICall n env K p index s =
     thn (em_int p BcLoadInt index) (bnd (parseCallArgs n env K p) (em1 p BcICall)) s"

definition parseVCall :: "nat \<Rightarrow> penv \<Rightarrow> knot \<Rightarrow> nat \<Rightarrow> unit pm" where
  "parseVCall n env K p s = bnd (parseCallArgs n env K p) (em1 p BcVCall) s"

definition defer_call :: "callentry \<Rightarrow> unit pm" where
  "defer_call e s = (Ok (), s\<lparr>ps_callPatch := ps_callPatch s @ [e]\<rparr>)"

definition parseUnboundCall ::
  "nat \<Rightarrow> penv \<Rightarrow> knot \<Rightarrow> nat \<Rightarrow> modSymbol \<Rightarrow> nat \<Rightarrow> unboundCall \<Rightarrow> unit pm"
where
  "parseUnboundCall n env K p modName argAdd ctype s =
     bnd (hole p) (\<lambda>entry.
     bnd (if ctype = UnboundCallPipe then bnd (hole p) (\<lambda>i. ret (Some i)) else ret None) (\<lambda>swp.
     bnd (bnd tk (\<lambda>t. if ctype \<noteq> UnboundCallPipe \<or> t = TkLPar then parseCallArgs n env K p else ret 0)) (\<lambda>pcnt.
     bnd (resolveSymbol (fullname modName) False) (\<lambda>(k, i).
       if k = SymDynamic then
         bnd (hole p) (\<lambda>cp. defer_call
           \<lparr>ce_entryPos = entry, ce_swapPos = swp, ce_callPos = cp, ce_prog = p, ce_arg = pcnt + argAdd,
            ce_symbol = fullname modName, ce_ctype = ctype\<rparr>)
       else
         let setUp = (k = SymFunc \<and> ctype = UnboundCallIterSetUp);
             op = (case k of SymSession \<Rightarrow> BcLoadSession | SymLocal \<Rightarrow> BcLoadLocal | SymUpval \<Rightarrow> BcLoadUpvalue
                   | SymGlobal \<Rightarrow> BcLoadGlobal | _ \<Rightarrow> if setUp then BcLoadIterator else BcNewClosure)
         in seqs [em1At p entry op (nat i),
                  case swp of None \<Rightarrow> ret () | Some j \<Rightarrow> em0At p j BcSwap,
                  em1 p (if setUp then BcSetUpIterator else BcVCall) (pcnt + argAdd)])))) s"

section \<open>Suffixes\<close>

datatype suffix = SuffixUnknown | SuffixDot | SuffixIndex | SuffixCall | SuffixMethod

definition suffix_round :: "nat \<Rightarrow> penv \<Rightarrow> knot \<Rightarrow> nat \<Rightarrow> suffix \<Rightarrow> (suffix + suffix) pm" where
  "suffix_round n env K p st s =
     bnd tk (\<lambda>t.
       if t = TkDot then
         bnd (next_tk env) (\<lambda>nt.
           if nt = TkId \<or> nt = TkStr then
             bnd text_value (\<lambda>name. thn (em_str p BcDot name) (thn (skip env) (ret (Inl SuffixDot))))
           else perr (''invalid expresion, expect id or string after '.'' @ [CHR 0x27]))
       else if t = TkLSqr then
         thn (skip env) (thn (K (PExpr p)) (thn (em0 p BcIndex) (bnd tk (\<lambda>t'.
           if t' \<noteq> TkRSqr then perr ''invalid expression, expect ] to close index''
           else thn (skip env) (ret (Inl SuffixIndex))))))
       else if t = TkColon then
         thn (want env TkId) (bnd text_value (\<lambda>name.
           thn (skip env) (thn (em_str p BcLoadMethod name) (ret (Inl SuffixMethod)))))
       else if t = TkLPar then thn (parseVCall n env K p) (ret (Inl SuffixCall))
       else if t = TkPipe then
         thn (want env TkId) (bnd text_value (\<lambda>name. thn (skip env)
           (bnd (parseModSymbol n env name) (\<lambda>mname.
             thn (parseUnboundCall n env K p mname 1 UnboundCallPipe) (ret (Inl SuffixCall))))))
       else ret (Inr st)) s"

definition parseSuffixImpl :: "nat \<Rightarrow> penv \<Rightarrow> knot \<Rightarrow> nat \<Rightarrow> suffix pm" where
  "parseSuffixImpl n env K p s = loop n (suffix_round n env K p) SuffixUnknown s"

definition parseSuffix :: "nat \<Rightarrow> penv \<Rightarrow> knot \<Rightarrow> nat \<Rightarrow> unit pm" where
  "parseSuffix n env K p s = bnd (parseSuffixImpl n env K p) (\<lambda>_. ret ()) s"

definition parseSessionLoad :: "nat \<Rightarrow> penv \<Rightarrow> knot \<Rightarrow> nat \<Rightarrow> unit pm" where
  "parseSessionLoad n env K p s =
     thn (pmust (tk_is TkSId) ''must be sesion id'') (bnd text_value (\<lambda>gname.
     bnd (gets (findSessionIdx gname)) (\<lambda>i.
       if i = symError then perr (''unknown session '' @ gname)
       else thn (skip env) (thn (em1 p BcLoadSession (nat i)) (parseSuffix n env K p))))) s"

section \<open>Names\<close>

definition parseLoadSymbol :: "nat \<Rightarrow> string \<Rightarrow> unit pm" where
  "parseLoadSymbol p name s =
     bnd (resolveSymbol name False) (\<lambda>(k, i).
       if i = symInvalidConst then liftr (Panic ''must: should never return invalid constant'')
       else case k of
         SymSession \<Rightarrow> em1 p BcLoadSession (nat i)
       | SymFunc \<Rightarrow> em1 p BcNewClosure (nat i)
       | SymLocal \<Rightarrow> em1 p BcLoadLocal (nat i)
       | SymUpval \<Rightarrow> em1 p BcLoadUpvalue (nat i)
       | SymGlobal \<Rightarrow> em1 p BcLoadGlobal (nat i)
       | SymDynamic \<Rightarrow> em_str p BcLoadVar name) s"

definition parsePrefixExpr :: "nat \<Rightarrow> penv \<Rightarrow> knot \<Rightarrow> nat \<Rightarrow> token \<Rightarrow> string \<Rightarrow> unit pm" where
  "parsePrefixExpr n env K p t name s =
     bnd (parseModSymbol n env name) (\<lambda>mname.
       let name = fullname mname in
       if t = TkId then
         bnd tk (\<lambda>c. if c = TkLPar then parseUnboundCall n env K p mname 0 UnboundCallNormal
                     else parseLoadSymbol p name)
       else if t = TkDollar then
         bnd (isEntry EntryRule) (\<lambda>b.
           if b then em0 p BcLoadDollar else perr ''only rule body can use $ as variable'')
       else if t = TkSId then
         bnd (gets (findSessionIdx name)) (\<lambda>i.
           if i = - 1 then perr (''session variable '' @ name @ '' is unknown'')
           else em1 p BcLoadSession (nat i))
       else if t = TkGId then
         bnd (gets (findGlobalIdx name)) (\<lambda>i.
           if i = - 1 then perr (''global variable '' @ name @ '' is unknown'')
           else em1 p BcLoadGlobal (nat i))
       else em_str p BcLoadVar name) s"

section \<open>Literals\<close>

definition list_round :: "penv \<Rightarrow> knot \<Rightarrow> nat \<Rightarrow> nat \<Rightarrow> (nat + nat) pm" where
  "list_round env K p c s =
     thn (K (PExpr p)) (bnd tk (\<lambda>t.
       if t = TkComma then thn (skip env) (ret (Inl (Suc c)))
       else if t = TkRSqr then thn (skip env) (ret (Inr (Suc c)))
       else perr ''unexpected token, expect ',' or ']' to close a list literal'')) s"

definition parseList :: "nat \<Rightarrow> penv \<Rightarrow> knot \<Rightarrow> nat \<Rightarrow> unit pm" where
  "parseList n env K p s =
     thn (em0 p BcNewList) (bnd tk (\<lambda>t.
       if t = TkRSqr then skip env
       else bnd (loop n (list_round env K p) 0) (em1 p BcAddList))) s"

definition map_round :: "penv \<Rightarrow> knot \<Rightarrow> nat \<Rightarrow> nat \<Rightarrow> (nat + nat) pm" where
  "map_round env K p c s =
     thn (bnd tk (\<lambda>t.
            if t = TkStr \<or> t = TkId then bnd text_value (\<lambda>x. thn (em_str p BcLoadStr x) (skip env))
            else if t = TkLSqr then
              thn (skip env) (thn (K (PExpr p)) (thn (wantCurrent TkRSqr) (skip env)))
            else perr ''unexpected token, expect a quoted string or identifier as map key''))
       (thn (wantCurrent TkColon) (thn (skip env) (thn (K (PExpr p)) (bnd tk (\<lambda>t.
          if t = TkComma then thn (skip env) (ret (Inl (Suc c)))
          else if t = TkRBra then thn (skip env) (ret (Inr (Suc c)))
          else perr ''unexpected token, expect '}' or ',' after a map entry''))))) s"

definition parseMap :: "nat \<Rightarrow> penv \<Rightarrow> knot \<Rightarrow> nat \<Rightarrow> unit pm" where
  "parseMap n env K p s =
     thn (em0 p BcNewMap) (bnd tk (\<lambda>t.
       if t = TkRBra then skip env
       else bnd (loop n (map_round env K p) 0) (em1 p BcAddMap))) s"

definition parsePairOrSubexpr :: "penv \<Rightarrow> knot \<Rightarrow> nat \<Rightarrow> unit pm" where
  "parsePairOrSubexpr env K p s =
     thn (K (PExpr p)) (bnd tk (\<lambda>t.
       if t = TkComma then
         thn (skip env) (thn (K (PExpr p)) (bnd tk (\<lambda>t'.
           if t' \<noteq> TkRPar then perr ''expect ')' to close the pair''
           else thn (skip env) (em0 p BcNewPair))))
       else if t = TkRPar then skip env
       else perr ''expect ')' or ',' for subexpression or pair'')) s"

section \<open>Templates\<close>

definition parseStringBlob :: "penv \<Rightarrow> string pm" where
  "parseStringBlob env s =
     bnd tk (\<lambda>t.
       if t = TkRId then
         bnd text_value (\<lambda>x. bnd (liftr (pe_LoadFile env x)) (\<lambda>c. thn (skip env) (ret c)))
       else if t = TkStr \<or> t = TkMStr then bnd text_value (\<lambda>c. thn (skip env) (ret c))
       else perr ''expect a string blob, start with @ or strings'') s"

text \<open>
  The selector has a lexer of its own. \<open>Inl\<close> is the message of an error, which the parser's
  lexer gives a place; no options are the value null.
\<close>

type_synonym 'a sel = "lexer \<Rightarrow> (string + 'a) res \<times> lexer"

definition sel_expect :: "penv \<Rightarrow> token \<Rightarrow> string \<Rightarrow> 'a sel \<Rightarrow> 'a sel" where
  "sel_expect env t msg k l =
     mbind (lx_expect (pe_lex env) t l) (\<lambda>b. if b then k else ret (Inl msg))"

definition sel_value :: "lexer \<Rightarrow> val option" where
  "sel_value l =
     (if lx_token l = TkStr then Some (VStr (valueText l))
      else if lx_token l = TkInt then Some (VInt (valueInt l))
      else if lx_token l = TkReal then Some (VReal (valueReal l))
      else if lx_token l = TkTrue then Some (VBool True)
      else if lx_token l = TkFalse then Some (VBool False)
      else if lx_token l = TkNull then Some VNull
      else None)"

definition selector_round ::
  "penv \<Rightarrow> (string \<times> val) list \<Rightarrow> lexer \<Rightarrow> ((string \<times> val) list + (string + (string \<times> val) list)) res \<times> lexer"
where
  "selector_round env opts l =
     mbind (expectCurrent TkId l) (\<lambda>b l.
       if \<not> b then (Ok (Inr (Inl ''template option name must be identifier'')), l)
       else let name = valueText l in
         mbind (lx_expect (pe_lex env) TkAssign l) (\<lambda>b l.
           if \<not> b then (Ok (Inr (Inl ''expect a '=' after option name'')), l)
           else mbind (lx_next (pe_lex env) l) (\<lambda>_ l.
             case sel_value l of
               None \<Rightarrow> (Ok (Inr (Inl ''invalid template compile option type'')), l)
             | Some v \<Rightarrow>
                 (let opts = AList.update name v opts in
                  mbind (lx_next (pe_lex env) l) (\<lambda>t l.
                    if t = TkComma then mbind (lx_next (pe_lex env) l) (\<lambda>_. ret (Inl opts))
                    else if t = TkRSqr then mbind (lx_next (pe_lex env) l) (\<lambda>_. ret (Inr (Inr opts)))
                    else (Ok (Inr (Inl ''unexpected token in template selector'')), l))))))"

definition selector :: "nat \<Rightarrow> penv \<Rightarrow> (string \<times> (string \<times> val) list option) sel" where
  "selector n env l =
     sel_expect env TkId ''template name must be valid identifier'' (\<lambda>l.
       let sel = valueText l in
       mbind (lx_next (pe_lex env) l) (\<lambda>t l.
         if t = TkEof then (Ok (Inr (sel, None)), l)
         else if t = TkLSqr then
           mbind (lx_next (pe_lex env) l) (\<lambda>t l.
             if t = TkRSqr then (Ok (Inr (sel, Some [])), l)
             else mbind (loop n (selector_round env) [] l) (\<lambda>r l.
               (Ok (map_sum (\<lambda>m. m) (\<lambda>opts. (sel, Some opts)) r), l)))
         else (Ok (Inl ''unexpected token in template selector''), l))) l"

definition parseTemplateSelector :: "nat \<Rightarrow> penv \<Rightarrow> string \<Rightarrow> (string \<times> (string \<times> val) list option) pm" where
  "parseTemplateSelector n env x s =
     bnd (liftr (fst (selector n env (newLexer x)))) (\<lambda>r. case r of Inl m \<Rightarrow> perr m | Inr v \<Rightarrow> ret v) s"

definition em_template :: "penv \<Rightarrow> nat \<Rightarrow> string \<Rightarrow> string \<Rightarrow> (string \<times> val) list option \<Rightarrow> unit pm" where
  "em_template env p t c opt s =
     rlift (addTemplate env (prog_at s p) t c opt) s
       (\<lambda>(q, k) s. em1 p BcTemplate k (s\<lparr>ps_progs := (ps_progs s)[p := q]\<rparr>))"

definition parseTemplate :: "nat \<Rightarrow> penv \<Rightarrow> knot \<Rightarrow> nat \<Rightarrow> unit pm" where
  "parseTemplate n env K p s =
     thn (wantCurrent TkStr) (bnd text_value (\<lambda>x. bnd (parseTemplateSelector n env x) (\<lambda>(t, opt).
       thn (want env TkComma) (thn (skip env) (thn (K (PExpr p))
         (thn (wantCurrent TkComma) (thn (skip env)
           (bnd (parseStringBlob env) (\<lambda>c. em_template env p t c opt))))))))) s"

section \<open>String interpolation\<close>

text \<open>
  The expression in a string is parsed by a parser of its own over the rest of the string, cut
  at the byte whose number is that of the current rune. It shares the scopes, the module and
  the programs with the parser around it and has its own names, pending calls and imports.
\<close>

definition inner_parser :: "string \<Rightarrow> pstate \<Rightarrow> pstate" where
  "inner_parser text s =
     (newParser text)\<lparr>ps_stbl := ps_stbl s, ps_globalVar := ps_globalVar s, ps_sessVar := ps_sessVar s,
       ps_module := ps_module s, ps_progs := ps_progs s,
       ps_l := (newLexer text)\<lparr>allowDRBra := True\<rparr>\<rparr>"

definition shared_of :: "pstate \<Rightarrow> pstate \<Rightarrow> pstate" where
  "shared_of pp s = s\<lparr>ps_stbl := ps_stbl pp, ps_module := ps_module pp, ps_progs := ps_progs pp\<rparr>"

definition parseStrInterpolationExpr :: "penv \<Rightarrow> knot \<Rightarrow> string \<Rightarrow> nat \<Rightarrow> nat \<Rightarrow> nat pm" where
  "parseStrInterpolationExpr env K strV offset p s =
     bnd (liftr (go_substr strV (int offset) (int (length strV)))) (\<lambda>text s.
       case thn (skip env) (K (PExpr p)) (inner_parser text s) of
         (Ok _, pp) \<Rightarrow>
           if lx_token (ps_l pp) \<noteq> TkDRBra then
             perr ''invalid string interpolation part, expect }}'' (shared_of pp s)
           else (Ok (lx_cursor (ps_l pp) + offset),
                 (shared_of pp s)\<lparr>ps_callPatch := ps_callPatch s @ ps_callPatch pp\<rparr>)
       | (Err e, pp) \<Rightarrow> perr (''string interpolation error: '' @ e) (shared_of pp s)
       | (Panic m, pp) \<Rightarrow> (Panic m, shared_of pp s)
       | (Diverge, pp) \<Rightarrow> (Diverge, shared_of pp s)) s"

definition maxLBra :: "rune list \<Rightarrow> nat \<Rightarrow> nat" where
  "maxLBra rlist offset = length (takeWhile (\<lambda>c. c = 123) (drop offset rlist))"

definition em_piece :: "nat \<Rightarrow> rune list \<Rightarrow> nat pm" where
  "em_piece p b s =
     (if utf8_encode b \<noteq> [] then thn (em_str p BcLoadStr (utf8_encode b)) (ret 1) s else ret 0 s)"

text \<open>The index, the piece so far, the number of values on the stack, and whether a script is due.\<close>

record interp =
  it_idx :: nat
  it_b :: "rune list"
  it_strCnt :: nat
  it_st :: bool

definition interp_round ::
  "penv \<Rightarrow> knot \<Rightarrow> nat \<Rightarrow> string \<Rightarrow> rune list \<Rightarrow> interp \<Rightarrow> (interp + interp) pm"
where
  "interp_round env K p strV rlist a s =
     (let i = it_idx a in
      if length rlist \<le> i then ret (Inr a)
      else if it_st a then
        bnd (parseStrInterpolationExpr env K strV i p) (\<lambda>newPos.
          thn (em0 p BcToStr)
            (ret (Inl (a\<lparr>it_idx := newPos, it_strCnt := it_strCnt a + 1, it_st := False\<rparr>))))
      else if rlist ! i = 123 then
        let cnt = maxLBra rlist i in
        if cnt = 2 then
          bnd (em_piece p (it_b a)) (\<lambda>k.
            ret (Inl (a\<lparr>it_idx := i + 2, it_b := [], it_strCnt := it_strCnt a + k, it_st := True\<rparr>)))
        else if cnt = 1 then ret (Inl (a\<lparr>it_idx := i + 1, it_b := it_b a @ [123]\<rparr>))
        else ret (Inl (a\<lparr>it_idx := i + (cnt - 1) + 1, it_b := it_b a @ replicate (cnt - 1) 123\<rparr>))
      else ret (Inl (a\<lparr>it_idx := i + 1, it_b := it_b a @ [rlist ! i]\<rparr>))) s"

definition parseStrInterpolation :: "nat \<Rightarrow> penv \<Rightarrow> knot \<Rightarrow> nat \<Rightarrow> string \<Rightarrow> unit pm" where
  "parseStrInterpolation n env K p strV s =
     (if length strV = 0 then em_str p BcLoadStr []
      else
        bnd (loop n (interp_round env K p strV (utf8_decode strV))
               \<lparr>it_idx = 0, it_b = [], it_strCnt = 0, it_st = False\<rparr>) (\<lambda>a.
        bnd (em_piece p (it_b a)) (\<lambda>k.
          if 1 < it_strCnt a + k then em1 p BcConStr (it_strCnt a + k) else ret ()))) s"

section \<open>Functions and iterators\<close>

definition getCallName :: "penv \<Rightarrow> bool \<Rightarrow> string pm" where
  "getCallName env anony s =
     (if \<not> anony then
        thn (wantCurrent TkId) (bnd text_value (\<lambda>name. thn (skip env) (ret name)))
      else gets (\<lambda>s. nextAnonymousFuncName (ps_module s))) s"

definition fnExists :: "string \<Rightarrow> pstate \<Rightarrow> bool" where
  "fnExists name s = (getFn (prog_at s) (ps_module s) name \<noteq> None)"

definition arg_round :: "penv \<Rightarrow> nat \<Rightarrow> (nat + nat) pm" where
  "arg_round env c s =
     thn (wantCurrent TkId) (bnd text_value (\<lambda>x.
       if x = varPlaceholder then perr ''argument name cannot be defined as placeholder''
       else bnd (defLocalVar x) (\<lambda>i.
         if i = symError then perr ''argument name duplicated''
         else thn (skip env) (bnd tk (\<lambda>t.
           if t = TkComma then thn (skip env) (ret (Inl (Suc c)))
           else if t = TkRPar then ret (Inr (Suc c))
           else perr ''expect a ')' or ',' inside of function argument list''))))) s"

text \<open>All the function's slots but that of the caller's frame are reserved.\<close>

definition finish_locals :: "nat \<Rightarrow> nat \<Rightarrow> unit pm" where
  "finish_locals p localR s =
     bnd (\<lambda>s. (topMaxLocal (ps_stbl s), s)) (\<lambda>k.
       thn (upd_prog p (\<lambda>x. x\<lparr>localSize := k - 1\<rparr>)) (em1At p localR BcReserveLocal (k - 1))) s"

definition parseFunctionRest :: "nat \<Rightarrow> penv \<Rightarrow> knot \<Rightarrow> nat \<Rightarrow> unit pm" where
  "parseFunctionRest n env K p s =
     bnd (hole p) (\<lambda>localR. seqs
       [wantCurrent TkLPar,
        bnd (next_tk env) (\<lambda>t.
          if t \<noteq> TkRPar then
            bnd (loop n (arg_round env) 0) (\<lambda>c. upd_prog p (\<lambda>x. x\<lparr>argSize := c\<rparr>))
          else ret ()),
        skip env,
        bnd (mustAddLocalVar ''#frame'') (\<lambda>_. ret ()),
        bnd tk (\<lambda>t.
          if t = TkColon then seqs [skip env, K (PExpr p), em0 p BcReturn]
          else seqs [K (PBody p), em0 p BcLoadNull, em0 p BcReturn]),
        finish_locals p localR]) s"

definition add_fn :: "nat \<Rightarrow> unit pm" where
  "add_fn p s = (Ok (), s\<lparr>ps_module := (ps_module s)\<lparr>md_fn := md_fn (ps_module s) @ [p]\<rparr>\<rparr>)"

definition parse_callable :: "nat \<Rightarrow> penv \<Rightarrow> knot \<Rightarrow> progtype \<Rightarrow> entrytype \<Rightarrow> bool \<Rightarrow> string pm" where
  "parse_callable n env K pt et anony s =
     bnd (getCallName env anony) (\<lambda>name.
     bnd (gets (fnExists name)) (\<lambda>b.
       if b then perr (''iterator/function '' @ name @ '' is already existed'')
       else
         bnd (alloc_prog name pt) (\<lambda>p.
         thn (enterScopeTop et p)
           (then_leave (thn (add_fn p) (thn (parseFunctionRest n env K p) (ret name))))))) s"

definition parseFunction :: "nat \<Rightarrow> penv \<Rightarrow> knot \<Rightarrow> bool \<Rightarrow> string pm" where
  "parseFunction n env K anony s = parse_callable n env K ProgFunc EntryFunc anony s"

definition parseIterator :: "nat \<Rightarrow> penv \<Rightarrow> knot \<Rightarrow> bool \<Rightarrow> string pm" where
  "parseIterator n env K anony s = parse_callable n env K ProgIter EntryIter anony s"

definition parseIteratorSetUp :: "nat \<Rightarrow> penv \<Rightarrow> knot \<Rightarrow> nat \<Rightarrow> unit pm" where
  "parseIteratorSetUp n env K p s =
     thn (wantCurrent TkId) (bnd text_value (\<lambda>name. thn (skip env)
       (bnd (parseModSymbol n env name) (\<lambda>mname.
         parseUnboundCall n env K p mname 0 UnboundCallIterSetUp)))) s"

end
