(* ===== verification/ParserStmt.thy ===== *)
theory ParserStmt
  imports ParserExpr
begin

text \<open>
  Operators, primary expressions and statements of \<open>pl/parser.go\<close>: assignments, exceptions,
  branches, the four kinds of loop, and the bodies of functions and rules.
\<close>

section \<open>Exceptions and branches\<close>

definition define_or :: "symtype \<Rightarrow> string \<Rightarrow> string \<Rightarrow> nat pm" where
  "define_or st x msg s =
     bnd (def_local st x) (\<lambda>i. if i = symError then perr msg else ret (nat i)) s"

definition parseTry :: "penv \<Rightarrow> nat \<Rightarrow> unit pm \<Rightarrow> unit pm \<Rightarrow> unit pm" where
  "parseTry env p tryGen elseGen s =
     bnd (hole p) (\<lambda>pushexp. thn tryGen (bnd (hole p) (\<lambda>popexp. seqs
       [land_here p pushexp BcPushException,
        wantCurrent TkElse,
        skip env,
        bnd tk (\<lambda>t.
          if t = TkLet then
            thn (want env TkId) (bnd text_value (\<lambda>x.
              bnd (define_or SymtVar x (''duplicate local variable: '' @ x)) (\<lambda>i.
                seqs [skip env, em0 p BcLoadException, em1 p BcStoreLocal i])))
          else ret ()),
        elseGen,
        land_here p popexp BcPopException]))) s"

text \<open>The hole of the last condition, and those that leave the branches.\<close>

definition elif_round ::
  "penv \<Rightarrow> knot \<Rightarrow> nat \<Rightarrow> unit pm \<Rightarrow> nat \<times> nat list \<Rightarrow> (nat \<times> nat list + nat \<times> nat list) pm"
where
  "elif_round env K p bodyGen a s =
     bnd tk (\<lambda>t.
       if t \<noteq> TkElif then ret (Inr a)
       else thn (skip env) (thn (land_here p (fst a) BcJfalse) (thn (K (PExpr p))
         (bnd (hole p) (\<lambda>prev. thn bodyGen (bnd (hole p) (\<lambda>out.
           ret (Inl (prev, snd a @ [out]))))))))) s"

fun land_all :: "nat \<Rightarrow> nat list \<Rightarrow> opcode \<Rightarrow> unit pm" where
  "land_all p [] op s = (Ok (), s)"
| "land_all p (i # is) op s = mbind (land_here p i op s) (\<lambda>_. land_all p is op)"

definition parseTernaryRest :: "penv \<Rightarrow> knot \<Rightarrow> nat \<Rightarrow> unit pm" where
  "parseTernaryRest env K p s =
     bnd tk (\<lambda>t.
       if t = TkIf then
         thn (skip env) (thn (K (PBinary p 0)) (bnd (hole p) (\<lambda>i. seqs
           [wantCurrent TkElse, skip env, K (PBinary p 0), land_here p i BcTernary])))
       else ret ()) s"

definition parseTernary :: "penv \<Rightarrow> knot \<Rightarrow> nat \<Rightarrow> unit pm" where
  "parseTernary env K p s = thn (K (PBinary p 0)) (parseTernaryRest env K p) s"

definition parseBranch :: "nat \<Rightarrow> penv \<Rightarrow> knot \<Rightarrow> nat \<Rightarrow> unit pm \<Rightarrow> unit pm \<Rightarrow> unit pm" where
  "parseBranch n env K p bodyGen dangling s =
     thn (parseTernary env K p) (bnd (hole p) (\<lambda>prev. thn bodyGen (bnd (hole p) (\<lambda>out.
       bnd (loop n (elif_round env K p bodyGen) (prev, [out])) (\<lambda>(prev, outs). seqs
         [land_here p prev BcJfalse,
          bnd tk (\<lambda>t. if t = TkElse then thn (skip env) bodyGen else dangling),
          land_all p outs BcJump]))))) s"

definition parseVarDecl :: "penv \<Rightarrow> knot \<Rightarrow> nat \<Rightarrow> symtype \<Rightarrow> unit pm" where
  "parseVarDecl env K p symt s =
     thn (want env TkId) (bnd text_value (\<lambda>x.
       bnd (define_or symt x ''duplicate local variable via let'') (\<lambda>i. seqs
         [skip env,
          bnd tk (\<lambda>t. if t = TkAssign then thn (skip env) (K (PExpr p)) else em0 p BcLoadNull),
          em1 p BcStoreLocal i]))) s"

section \<open>Loops\<close>

definition parseForeverLoop :: "nat \<Rightarrow> unit pm \<Rightarrow> unit pm" where
  "parseForeverLoop p bodyGen s =
     thn enterLoopScope (bnd (cur_label p) (\<lambda>loopHeader. seqs
       [bodyGen, patchContinue p, em1 p BcJump loopHeader, patchBreak p, leaveScope])) s"

definition iterator_expr :: "nat \<Rightarrow> penv \<Rightarrow> knot \<Rightarrow> nat \<Rightarrow> unit pm" where
  "iterator_expr n env K p s =
     bnd tk (\<lambda>t.
       let plain = thn (K (PExpr p)) (em0 p BcNewIterator) in
       if t = TkIterator then
         bnd (gets get_lexeme) (\<lambda>save. bnd (next_tk env) (\<lambda>ntk.
           if ntk = TkId then parseIteratorSetUp n env K p
           else thn (modify (restore save)) plain))
       else plain) s"

definition parseIteratorLoop :: "nat \<Rightarrow> penv \<Rightarrow> knot \<Rightarrow> nat \<Rightarrow> string \<Rightarrow> unit pm \<Rightarrow> unit pm" where
  "parseIteratorLoop n env K p key bodyGen s =
     thn (pmust (tk_is TkComma) ''must be comma'') (thn (want env TkId) (bnd text_value (\<lambda>val. seqs
       [skip env,
        bnd tk (\<lambda>t.
          if t = TkAssign then thn (skip env) (iterator_expr n env K p)
          else perr ''expect an '=' or '=>' for iterator expression''),
        enterLoopScope,
        bnd (mustAddLocalVar key) (\<lambda>keyIdx.
        bnd (define_or SymtVar val ''duplicate local variable name in iterator style loop'') (\<lambda>valIdx.
        thn (em0 p BcHasIterator) (bnd (hole p) (\<lambda>headerTestify. bnd (cur_label p) (\<lambda>headerPos. seqs
          [em0 p BcDerefIterator,
           em1 p BcStoreLocal valIdx,
           em1 p BcStoreLocal keyIdx,
           bodyGen,
           patchContinue p,
           em0 p BcNextIterator,
           em1 p BcJtrue headerPos,
           land_here p headerTestify BcJfalse,
           patchBreak p,
           em0 p BcPop,
           leaveScope]))))) ]))) s"

text \<open>\<open>basic\<close> is \<open>parseBasicStmt\<close> on the lexeme of the step.\<close>

definition parseTripCountLoopRest ::
  "penv \<Rightarrow> knot \<Rightarrow> (lexeme \<Rightarrow> bool pm) \<Rightarrow> nat \<Rightarrow> unit pm \<Rightarrow> unit pm"
where
  "parseTripCountLoopRest env K basic p bodyGen s =
     seqs
      [pmust (tk_is TkSemicolon) ''must be ;'',
       pmust isLoop ''loop must already setup'',
       skip env,
       bnd (cur_label p) (\<lambda>condPos. thn
         (bnd tk (\<lambda>t.
            if t = TkSemicolon then thn (em0 p BcLoadTrue) (skip env)
            else seqs [K (PExpr p), wantCurrent TkSemicolon, skip env]))
         (bnd (hole p) (\<lambda>condEvalJump. bnd (hole p) (\<lambda>condJump. bnd (cur_label p) (\<lambda>tripPos. seqs
           [bnd tk (\<lambda>t.
              if t \<noteq> TkLBra then
                bnd (gets get_lexeme) (\<lambda>lm. thn (skip env) (bnd (basic lm) (\<lambda>_. ret ())))
              else ret ()),
            em1 p BcJump condPos,
            bnd tk (\<lambda>t. if t \<noteq> TkLBra then perr ''expect '{' to start loop's body'' else ret ()),
            land_here p condJump BcJump,
            bodyGen,
            patchContinue p,
            em1 p BcJump tripPos,
            land_here p condEvalJump BcJfalse,
            patchBreak p])))))] s"

definition parseTripCountLoopFull ::
  "penv \<Rightarrow> knot \<Rightarrow> (lexeme \<Rightarrow> bool pm) \<Rightarrow> nat \<Rightarrow> string \<Rightarrow> unit pm \<Rightarrow> unit pm"
where
  "parseTripCountLoopFull env K basic p key bodyGen s =
     thn (pmust (tk_is TkAssign) ''must be ='') (thn enterLoopScope (then_leave (seqs
       [skip env,
        K (PExpr p),
        bnd (mustAddLocalVar key) (em1 p BcStoreLocal),
        wantCurrent TkSemicolon,
        parseTripCountLoopRest env K basic p bodyGen]))) s"

definition parseTripCountLoopNoInit ::
  "penv \<Rightarrow> knot \<Rightarrow> (lexeme \<Rightarrow> bool pm) \<Rightarrow> nat \<Rightarrow> unit pm \<Rightarrow> unit pm"
where
  "parseTripCountLoopNoInit env K basic p bodyGen s =
     thn (pmust (tk_is TkSemicolon) ''must be ;'') (thn enterLoopScope (then_leave
       (parseTripCountLoopRest env K basic p bodyGen))) s"

definition parseIteratorOrTripLoop ::
  "nat \<Rightarrow> penv \<Rightarrow> knot \<Rightarrow> (lexeme \<Rightarrow> bool pm) \<Rightarrow> nat \<Rightarrow> unit pm \<Rightarrow> unit pm"
where
  "parseIteratorOrTripLoop n env K basic p bodyGen s =
     thn (pmust (tk_is TkLet) ''must be let'') (thn (want env TkId) (bnd text_value (\<lambda>key.
       thn (skip env) (bnd tk (\<lambda>t.
         if t = TkComma then parseIteratorLoop n env K p key bodyGen
         else if t = TkAssign then parseTripCountLoopFull env K basic p key bodyGen
         else perr ''invalid token, expect a ',' for a range for loop or a '=' to start a trip count foreach's initial statement''))))) s"

definition parseConditionLoop :: "knot \<Rightarrow> nat \<Rightarrow> unit pm \<Rightarrow> unit pm" where
  "parseConditionLoop K p bodyGen s =
     bnd (cur_label p) (\<lambda>loopHeader. thn (K (PExpr p)) (bnd (hole p) (\<lambda>jumpOut. seqs
       [enterLoopScope,
        bodyGen,
        patchContinue p,
        em1 p BcJump loopHeader,
        land_here p jumpOut BcJfalse,
        patchBreak p,
        leaveScope]))) s"

definition parseForImpl ::
  "nat \<Rightarrow> penv \<Rightarrow> knot \<Rightarrow> (lexeme \<Rightarrow> bool pm) \<Rightarrow> nat \<Rightarrow> unit pm \<Rightarrow> unit pm"
where
  "parseForImpl n env K basic p bodyGen s =
     thn (skip env) (bnd tk (\<lambda>t.
       if t = TkLBra then parseForeverLoop p bodyGen
       else if t = TkLet then parseIteratorOrTripLoop n env K basic p bodyGen
       else if t = TkSemicolon then parseTripCountLoopNoInit env K basic p bodyGen
       else parseConditionLoop K p bodyGen)) s"

definition parseFor :: "nat \<Rightarrow> penv \<Rightarrow> knot \<Rightarrow> (lexeme \<Rightarrow> bool pm) \<Rightarrow> nat \<Rightarrow> unit pm" where
  "parseFor n env K basic p s = parseForImpl n env K basic p (K (PBody p)) s"

definition parseBreak :: "penv \<Rightarrow> nat \<Rightarrow> unit pm" where
  "parseBreak env p s =
     bnd isInLoop (\<lambda>b.
       if \<not> b then perr ''break can only work inside of the loop body''
       else thn (skip env) (bnd (hole p) addBreak)) s"

definition parseContinue :: "penv \<Rightarrow> nat \<Rightarrow> unit pm" where
  "parseContinue env p s =
     bnd isInLoop (\<lambda>b.
       if \<not> b then perr ''continue can only work inside of the loop body''
       else thn (skip env) (bnd (hole p) addContinue)) s"

section \<open>Operators\<close>

definition binPrecedence :: "token \<Rightarrow> int" where
  "binPrecedence t =
     (if t = TkOr then 0
      else if t = TkAnd then 1
      else if t \<in> set [TkEq, TkNe, TkRegexpMatch, TkRegexpNMatch] then 2
      else if t \<in> set [TkLt, TkLe, TkGt, TkGe] then 3
      else if t \<in> set [TkAdd, TkSub] then 4
      else if t \<in> set [TkMul, TkDiv, TkMod, TkPow] then 5
      else - 1)"

abbreviation (input) maxOperatorPrecedence :: int where "maxOperatorPrecedence \<equiv> 6"

definition bin_opcode :: "token \<Rightarrow> opcode" where
  "bin_opcode t =
     (if t = TkAdd then BcAdd else if t = TkSub then BcSub else if t = TkMul then BcMul
      else if t = TkDiv then BcDiv else if t = TkMod then BcMod else if t = TkPow then BcPow
      else if t = TkLt then BcLt else if t = TkLe then BcLe else if t = TkGt then BcGt
      else if t = TkGe then BcGe else if t = TkEq then BcEq else if t = TkNe then BcNe
      else if t = TkRegexpMatch then BcRegexpMatch else BcRegexpNMatch)"

text \<open>The short-circuit operators jump from a hole between their operands.\<close>

definition binary_round :: "penv \<Rightarrow> knot \<Rightarrow> nat \<Rightarrow> int \<Rightarrow> unit \<Rightarrow> (unit + unit) pm" where
  "binary_round env K p prec u s =
     bnd tk (\<lambda>t.
       let nextPrec = binPrecedence t in
       if nextPrec = - 1 \<or> nextPrec < prec then ret (Inr ())
       else if t = TkAnd \<or> t = TkOr then
         bnd (hole p) (\<lambda>i. thn (skip env) (thn (K (PBinary p (nextPrec + 1)))
           (thn (land_here p i (if t = TkAnd then BcAnd else BcOr)) (ret (Inl ())))))
       else
         thn (skip env) (thn (K (PBinary p (nextPrec + 1))) (thn (em0 p (bin_opcode t)) (ret (Inl ()))))) s"

definition parseBinaryRest :: "nat \<Rightarrow> penv \<Rightarrow> knot \<Rightarrow> nat \<Rightarrow> int \<Rightarrow> unit pm" where
  "parseBinaryRest n env K p prec s = loop n (binary_round env K p prec) () s"

definition parseBinary :: "nat \<Rightarrow> penv \<Rightarrow> knot \<Rightarrow> nat \<Rightarrow> int \<Rightarrow> unit pm" where
  "parseBinary n env K p prec s =
     (if prec = maxOperatorPrecedence then K (PUnary p)
      else thn (K (PUnary p)) (parseBinaryRest n env K p prec)) s"

section \<open>Primary expressions\<close>

definition parseTryExpr :: "penv \<Rightarrow> knot \<Rightarrow> nat \<Rightarrow> unit pm" where
  "parseTryExpr env K p s =
     (let chunk = bnd tk (\<lambda>t. if t = TkLBra then K (PExprBody p) else K (PExpr p))
      in parseTry env p chunk chunk) s"

definition parseBranchExpr :: "nat \<Rightarrow> penv \<Rightarrow> knot \<Rightarrow> nat \<Rightarrow> unit pm" where
  "parseBranchExpr n env K p s = parseBranch n env K p (K (PExprBody p)) (em0 p BcLoadNull) s"

definition parsePrimary :: "nat \<Rightarrow> penv \<Rightarrow> knot \<Rightarrow> nat \<Rightarrow> lexeme \<Rightarrow> unit pm" where
  "parsePrimary n env K p l s =
     (let t = lm_token l in
      if t = TkIf then parseBranchExpr n env K p
      else if t = TkTry then parseTryExpr env K p
      else if t = TkInt then em_int p BcLoadInt (lm_ival l)
      else if t = TkReal then em_real p BcLoadReal (lm_rval l)
      else if t = TkStr then parseStrInterpolation n env K p (lm_sval l)
      else if t = TkMStr then em_str p BcLoadStr (lm_sval l)
      else if t = TkTrue then em0 p BcLoadTrue
      else if t = TkFalse then em0 p BcLoadFalse
      else if t = TkNull then em0 p BcLoadNull
      else if t = TkFunction then
        bnd (parseFunction n env K True) (\<lambda>name.
        bnd (gets (\<lambda>s. getFunctionIndex (prog_at s) (ps_module s) name)) (\<lambda>i.
          if i = - 1 then liftr (Panic ''must: the function(anonymouse) must be existed'')
          else em1 p BcNewClosure (nat i)))
      else if t = TkIterator then
        bnd (parseIterator n env K True) (\<lambda>name.
        bnd (gets (\<lambda>s. getIteratorIndex (prog_at s) (ps_module s) name)) (\<lambda>i.
          if i = - 1 then liftr (Panic ''must: the iterator(anonymous) must be existed'')
          else em1 p BcLoadIterator (nat i)))
      else if t = TkRegex then em_regexp env p (lm_sval l)
      else if t = TkLPar then parsePairOrSubexpr env K p
      else if t = TkLSqr then parseList n env K p
      else if t = TkLBra then parseMap n env K p
      else if t \<in> set [TkDollar, TkId, TkGId, TkSId, TkDId] then parsePrefixExpr n env K p t (lm_sval l)
      else if t = TkLExprBra then K (PExprScope p)
      else if t = TkTemplate then parseTemplate n env K p
      else bnd (gets (\<lambda>s. tokenName (ps_l s))) (\<lambda>x.
        perr (''unexpected token '' @ x @ '' in expression parsing''))) s"

definition parseAtomic :: "nat \<Rightarrow> penv \<Rightarrow> knot \<Rightarrow> nat \<Rightarrow> unit pm" where
  "parseAtomic n env K p s =
     bnd (gets get_lexeme) (\<lambda>l. thn (skip env) (thn (parsePrimary n env K p l) (parseSuffix n env K p))) s"

definition parseUnary :: "nat \<Rightarrow> penv \<Rightarrow> knot \<Rightarrow> nat \<Rightarrow> unit pm" where
  "parseUnary n env K p s =
     bnd tk (\<lambda>t.
       if t \<in> set [TkAdd, TkSub, TkNot] then
         thn (skip env) (thn (K (PUnary p))
           (if t = TkSub then em0 p BcNegate else if t = TkNot then em0 p BcNot else ret ()))
       else parseAtomic n env K p) s"

section \<open>Assignments\<close>

text \<open>The operation of an assignment: its right-hand side and its operator, or the step by one.\<close>

definition agg_opcode :: "token \<Rightarrow> opcode option" where
  "agg_opcode t =
     (if t = TkAddAssign then Some BcAdd else if t = TkSubAssign then Some BcSub
      else if t = TkMulAssign then Some BcMul else if t = TkDivAssign then Some BcDiv
      else if t = TkModAssign then Some BcMod else if t = TkPowAssign then Some BcPow
      else None)"

definition assign_value :: "knot \<Rightarrow> nat \<Rightarrow> token \<Rightarrow> unit pm" where
  "assign_value K p assign s =
     (if assign = TkInc then thn (em_int p BcLoadInt 1) (em0 p BcAdd)
      else if assign = TkDec then thn (em_int p BcLoadInt 1) (em0 p BcSub)
      else thn (K (PExpr p)) (case agg_opcode assign of Some op \<Rightarrow> em0 p op | None \<Rightarrow> ret ())) s"

definition parseSymbolAssign :: "penv \<Rightarrow> knot \<Rightarrow> nat \<Rightarrow> string \<Rightarrow> symkind \<Rightarrow> int \<Rightarrow> unit pm" where
  "parseSymbolAssign env K p name k i s =
     bnd tk (\<lambda>assign. seqs
       [if assign = TkAssign then ret ()
        else if isaggassign assign then load_var p name k i
        else liftr (Panic ''unreachable: invalid token''),
        skip env,
        assign_value K p assign,
        store_var p name k i]) s"

definition parseBasicStmtExprRest :: "nat \<Rightarrow> penv \<Rightarrow> knot \<Rightarrow> nat \<Rightarrow> unit pm" where
  "parseBasicStmtExprRest n env K p s =
     thn (loop n (\<lambda>u. bnd tk (\<lambda>t. let prec = binPrecedence t in
            if prec = - 1 then ret (Inr ())
            else thn (parseBinaryRest n env K p prec) (ret (Inl ())))) ())
       (parseTernaryRest env K p) s"

text \<open>An assignment to a name: \<open>l\<close> is the lexeme in front of the operator.\<close>

definition assign_name :: "penv \<Rightarrow> knot \<Rightarrow> nat \<Rightarrow> lexeme \<Rightarrow> bool pm" where
  "assign_name env K p l s =
     (if lm_token l = TkId then
        bnd (resolveSymbol (lm_sval l) True) (\<lambda>(k, i).
          if k = SymFunc then liftr (Panic ''must: cannot be function index'')
          else if k = SymLocal \<and> i = symInvalidConst then
            perr (''local variable '' @ lm_sval l @ '' is const, cannot be assigned to'')
          else thn (parseSymbolAssign env K p (lm_sval l) k i) (ret True))
      else if lm_token l = TkSId then
        bnd (gets (findSessionIdx (lm_sval l))) (\<lambda>i.
          if i = symError then perr (''session '' @ lm_sval l @ '' variable not existed'')
          else thn (parseSymbolAssign env K p (lm_sval l) SymSession i) (ret True))
      else if lm_token l = TkGId then perr ''global scope variable cannot be used for storing''
      else if lm_token l = TkDId then
        thn (parseSymbolAssign env K p (lm_sval l) SymDynamic symError) (ret True)
      else perr (''assignment'' @ [CHR 0x27] @ ''s lhs must be identifier or a session identifier'')) s"

text \<open>
  An assignment to a field: the last instruction, which reads the field, is taken back. An
  assignment with an operator reads it after all, from a copy of what it reads it from.
\<close>

definition assign_field :: "penv \<Rightarrow> knot \<Rightarrow> nat \<Rightarrow> suffix \<Rightarrow> bool pm" where
  "assign_field env K p st s =
     bnd tk (\<lambda>assign.
       if st \<noteq> SuffixDot \<and> st \<noteq> SuffixIndex then
         perr ''invalid assignment expression, the field assignment can only apply to [] or '.' operators''
       else bnd (pop_last p) (\<lambda>lastbc. thn (seqs
         [if isaggassign assign then
            thn (em0 p (if st = SuffixIndex then BcDup2 else BcDup1)) (em1 p (opcode lastbc) (argument lastbc))
          else ret (),
          skip env,
          assign_value K p assign,
          if st = SuffixDot then
            (if opcode lastbc = BcDot then em1 p BcDotSet (argument lastbc)
             else liftr (Panic ''must: must be dot''))
          else
            (if opcode lastbc = BcIndex then em0 p BcIndexSet
             else liftr (Panic ''must: must be index''))])
         (ret True))) s"

text \<open>The result is whether it was an assignment.\<close>

definition parseBasicStmt :: "nat \<Rightarrow> penv \<Rightarrow> knot \<Rightarrow> nat \<Rightarrow> bool \<Rightarrow> lexeme \<Rightarrow> bool pm" where
  "parseBasicStmt n env K p popExpr l s =
     bnd tk (\<lambda>t.
       if isassign t then assign_name env K p l
       else thn (parsePrimary n env K p l) (bnd (parseSuffixImpl n env K p) (\<lambda>st.
         bnd tk (\<lambda>t.
           if isassign t then assign_field env K p st
           else thn (parseBasicStmtExprRest n env K p)
             (thn (if popExpr then em0 p BcPop else ret ()) (ret False)))))) s"

definition parseStmt :: "nat \<Rightarrow> penv \<Rightarrow> knot \<Rightarrow> nat \<Rightarrow> unit pm" where
  "parseStmt n env K p s =
     bnd (gets get_lexeme) (\<lambda>l. thn (skip env) (bnd tk (\<lambda>t.
       if t = TkArrow then
         bnd (isEntry EntryRule) (\<lambda>b.
           if \<not> b then perr ''action can only be applied inside of the rule''
           else thn (skip env) (thn (K (PExpr p))
             (if lm_token l \<noteq> TkId then perr (''action'' @ [CHR 0x27] @ ''s lhs must be an identifier'')
              else em_str p BcAction (lm_sval l))))
       else bnd (parseBasicStmt n env K p True l) (\<lambda>_. ret ())))) s"

section \<open>Bodies of expressions\<close>

text \<open>Whether a semicolon has to follow, and whether it leaves a value.\<close>

definition parseExprStmt :: "nat \<Rightarrow> penv \<Rightarrow> knot \<Rightarrow> nat \<Rightarrow> (bool \<times> bool) pm" where
  "parseExprStmt n env K p s =
     bnd tk (\<lambda>t.
       if t = TkLet then thn (parseVarDecl env K p SymtVar) (ret (True, False))
       else if t = TkConst then thn (parseVarDecl env K p SymtConst) (ret (True, False))
       else if t = TkFor then thn (parseFor n env K (parseBasicStmt n env K p True) p) (ret (False, False))
       else if t = TkSemicolon then ret (True, False)
       else bnd (gets get_lexeme) (\<lambda>l. thn (skip env) (bnd (parseBasicStmt n env K p False l) (\<lambda>isStmt.
         ret (True, \<not> isStmt))))) s"

text \<open>A statement with its semicolon; whether it left a value.\<close>

definition expr_stmt_sep :: "nat \<Rightarrow> penv \<Rightarrow> knot \<Rightarrow> nat \<Rightarrow> bool pm" where
  "expr_stmt_sep n env K p s =
     bnd (parseExprStmt n env K p) (\<lambda>(sep, val).
       thn (if sep then thn (wantCurrent TkSemicolon) (skip env) else ret ()) (ret val)) s"

definition expr_stmt_round :: "nat \<Rightarrow> penv \<Rightarrow> knot \<Rightarrow> nat \<Rightarrow> bool \<Rightarrow> (bool + bool) pm" where
  "expr_stmt_round n env K p val s =
     bnd tk (\<lambda>t.
       if t = TkRBra then ret (Inr val)
       else thn (if val then em0 p BcPop else ret ())
         (bnd (expr_stmt_sep n env K p) (\<lambda>val. ret (Inl val)))) s"

definition parseExprBody :: "nat \<Rightarrow> penv \<Rightarrow> knot \<Rightarrow> nat \<Rightarrow> unit pm" where
  "parseExprBody n env K p s =
     seqs
      [wantCurrent TkLBra,
       skip env,
       enterNormalScope,
       bnd (bnd (expr_stmt_sep n env K p) (loop n (expr_stmt_round n env K p))) (\<lambda>val.
         thn leaveScope
           (if \<not> val then
              perr ''the if expression scope does not generate any value, please make sure the last statement inside if scope is a expression instead of other statement like, let ''
            else thn (wantCurrent TkRBra) (skip env)))] s"

definition parseExprScope :: "nat \<Rightarrow> penv \<Rightarrow> knot \<Rightarrow> nat \<Rightarrow> unit pm" where
  "parseExprScope n env K p s =
     thn enterNormalScope (then_leave
       (bnd (bnd tk (\<lambda>t. if t \<noteq> TkRBra then expr_stmt_sep n env K p else ret False)) (\<lambda>val.
        bnd (loop n (expr_stmt_round n env K p) val) (\<lambda>val.
          if \<not> val then
            perr ''expression scope's last statement must be an expression which can generate a value. It cannot be things like for loop, let/const declarations!''
          else thn (pmust (tk_is TkRBra) ''must be }'') (skip env))))) s"

section \<open>Statements\<close>

definition in_scope :: "unit pm \<Rightarrow> unit pm" where
  "in_scope m s = seqs [enterNormalScope, m, leaveScope] s"

definition parseTryStmt :: "penv \<Rightarrow> nat \<Rightarrow> unit pm \<Rightarrow> unit pm" where
  "parseTryStmt env p body s = thn (skip env) (parseTry env p (in_scope body) (in_scope body)) s"

definition parseBranchStmtBody :: "unit pm \<Rightarrow> unit pm" where
  "parseBranchStmtBody body s = thn (wantCurrent TkLBra) (in_scope body) s"

definition parseBranchStmt :: "nat \<Rightarrow> penv \<Rightarrow> knot \<Rightarrow> nat \<Rightarrow> unit pm \<Rightarrow> unit pm" where
  "parseBranchStmt n env K p body s =
     thn (skip env) (parseBranch n env K p (parseBranchStmtBody body) (ret ())) s"

definition parseYield :: "penv \<Rightarrow> knot \<Rightarrow> nat \<Rightarrow> unit pm" where
  "parseYield env K p s =
     bnd (isEntry EntryIter) (\<lambda>b.
       if \<not> b then perr ''yield is only allowed inside of iterator body''
       else seqs [skip env, K (PExpr p), em0 p BcYield]) s"

definition parseReturn :: "penv \<Rightarrow> knot \<Rightarrow> nat \<Rightarrow> unit pm" where
  "parseReturn env K p s =
     bnd cur_scope (\<lambda>c.
       if sc_eType c \<notin> set [EntryRule, EntryFunc, EntryIter] then
         perr ''return is only allowed inside of function, iterator or rule body''
       else seqs [skip env, K (PExpr p), em0 p BcReturn]) s"

definition parseEmit :: "penv \<Rightarrow> knot \<Rightarrow> nat \<Rightarrow> unit pm" where
  "parseEmit env K p s =
     thn (pmust (tk_is TkEmit) ''must be emit'') (bnd (isEntry EntryRule) (\<lambda>b.
       if \<not> b then perr ''emit statement is only allowed inside of rule body''
       else seqs
         [skip env,
          bnd tk (\<lambda>t. bnd text_value (\<lambda>x. thn (skip env)
            (em_str p BcLoadStr (if t = TkId \<or> t = TkStr then x else [])))),
          bnd tk (\<lambda>t. if t = TkComma then thn (skip env) (K (PExpr p)) else em0 p BcLoadNull),
          em1 p BcEmit 1])) s"

text \<open>Whether a semicolon has to follow.\<close>

definition parseBodyStmt :: "nat \<Rightarrow> penv \<Rightarrow> knot \<Rightarrow> nat \<Rightarrow> bool pm" where
  "parseBodyStmt n env K p s =
     bnd tk (\<lambda>t.
       if t = TkSemicolon then ret True
       else if t = TkLBra then thn (in_scope (K (PBody p))) (ret False)
       else if t = TkLet then thn (parseVarDecl env K p SymtVar) (ret True)
       else if t = TkConst then thn (parseVarDecl env K p SymtConst) (ret True)
       else if t = TkIf then thn (parseBranchStmt n env K p (K (PBody p))) (ret False)
       else if t = TkTry then thn (parseTryStmt env p (K (PBody p))) (ret False)
       else if t = TkFor then thn (parseFor n env K (parseBasicStmt n env K p True) p) (ret False)
       else if t = TkBreak then thn (parseBreak env p) (ret True)
       else if t = TkContinue then thn (parseContinue env p) (ret True)
       else if t = TkReturn then thn (parseReturn env K p) (ret True)
       else if t = TkYield then thn (parseYield env K p) (ret True)
       else if t = TkEmit then thn (parseEmit env K p) (ret True)
       else thn (parseStmt n env K p) (ret True)) s"

definition body_round :: "penv \<Rightarrow> bool pm \<Rightarrow> unit \<Rightarrow> (unit + unit) pm" where
  "body_round env stmt u s =
     bnd stmt (\<lambda>hasSep.
       thn (if hasSep then thn (wantCurrent TkSemicolon) (skip env) else ret ())
         (bnd tk (\<lambda>t. if t = TkRBra then thn (skip env) (ret (Inr ())) else ret (Inl ())))) s"

definition parseBodyImpl :: "nat \<Rightarrow> penv \<Rightarrow> bool pm \<Rightarrow> unit pm" where
  "parseBodyImpl n env stmt s =
     seqs
      [wantCurrent TkLBra,
       skip env,
       bnd tk (\<lambda>t. if t = TkRBra then skip env else loop n (body_round env stmt) ())] s"

definition parseBody :: "nat \<Rightarrow> penv \<Rightarrow> knot \<Rightarrow> nat \<Rightarrow> unit pm" where
  "parseBody n env K p s = parseBodyImpl n env (parseBodyStmt n env K p) s"

end
