(* ===== verification/Parser.thy ===== *)
theory Parser
  imports ParserStmt
begin

text \<open>
  The top level of \<open>pl/parser.go\<close>: configuration scopes, variable scopes, rules, imports, and the
  entry points \<open>parse\<close> and \<open>CompileModule\<close>. \<open>knot\<close> ties the functions of \<open>ParserExpr\<close> and
  \<open>ParserStmt\<close> together: a call through it costs one unit of fuel.
\<close>

section \<open>Configuration\<close>

definition parseConfigScopeCmd :: "nat \<Rightarrow> penv \<Rightarrow> knot \<Rightarrow> nat \<Rightarrow> unit pm" where
  "parseConfigScopeCmd n env K p s =
     seqs
      [bnd tk (\<lambda>t.
         if t = TkDot then
           thn (want env TkId) (bnd text_value (\<lambda>x. thn (em_str p BcLoadStr x) (skip env)))
         else if t = TkLSqr then seqs [skip env, K (PExpr p), wantCurrent TkRSqr, skip env]
         else if t = TkId then bnd text_value (\<lambda>x. thn (em_str p BcLoadStr x) (skip env))
         else perr ''unknown token for config command instruction''),
       bnd tk (\<lambda>t.
         if t = TkAssign then seqs [skip env, K (PExpr p), em0 p BcConfigPropertySet]
         else if t = TkLPar then bnd (parseCallArgs n env K p) (em1 p BcConfigCommand)
         else perr (''unknown statement inside of config scope, you are trying to set a config item, but with invalid operator. A config name, like .foo or ['' @
           [CHR 0x22] @ ''bar'' @ [CHR 0x22] @
           ''] should follow a '=' to set a property or a '(' argument ')' set a config command''))] s"

definition parseConfigScopeInner :: "knot \<Rightarrow> nat \<Rightarrow> string \<Rightarrow> unit pm" where
  "parseConfigScopeInner K p name s =
     seqs [enterNormalScope, em_str p BcConfigPush name, K (PConfigBody p), em0 p BcConfigPop, leaveScope] s"

definition parseConfigScopeBasicStmt :: "nat \<Rightarrow> penv \<Rightarrow> knot \<Rightarrow> nat \<Rightarrow> bool pm" where
  "parseConfigScopeBasicStmt n env K p s =
     bnd (gets get_lexeme) (\<lambda>l. thn (skip env) (bnd tk (\<lambda>t.
       if lm_token l = TkId \<and> t = TkLBra then
         thn (parseConfigScopeInner K p (lm_sval l)) (ret False)
       else if lm_token l = TkId \<and> t \<in> set [TkId, TkLSqr, TkDot] then
         thn (seqs [enterNormalScope, em_str p BcConfigPush (lm_sval l), parseConfigScopeCmd n env K p,
                    em0 p BcConfigPop, leaveScope]) (ret True)
       else thn (bnd (parseBasicStmt n env K p True l) (\<lambda>_. ret ())) (ret True)))) s"

definition parseConfigScopeBodyStmt :: "nat \<Rightarrow> penv \<Rightarrow> knot \<Rightarrow> nat \<Rightarrow> bool pm" where
  "parseConfigScopeBodyStmt n env K p s =
     bnd tk (\<lambda>t.
       if t = TkSemicolon then ret True
       else if t = TkLBra then thn (in_scope (K (PConfigBody p))) (ret False)
       else if t = TkLet then thn (parseVarDecl env K p SymtVar) (ret True)
       else if t = TkConst then thn (parseVarDecl env K p SymtConst) (ret True)
       else if t = TkIf then thn (parseBranchStmt n env K p (K (PConfigBody p))) (ret False)
       else if t = TkTry then thn (parseTryStmt env p (K (PConfigBody p))) (ret False)
       else if t = TkFor then
         thn (parseForImpl n env K (parseBasicStmt n env K p True) p (K (PConfigBody p))) (ret False)
       else if t = TkBreak then thn (parseBreak env p) (ret True)
       else if t = TkContinue then thn (parseContinue env p) (ret True)
       else if t = TkDot \<or> t = TkLSqr then thn (parseConfigScopeCmd n env K p) (ret True)
       else parseConfigScopeBasicStmt n env K p) s"

definition parseConfigScopeBody :: "nat \<Rightarrow> penv \<Rightarrow> knot \<Rightarrow> nat \<Rightarrow> unit pm" where
  "parseConfigScopeBody n env K p s = parseBodyImpl n env (parseConfigScopeBodyStmt n env K p) s"

section \<open>Variable scopes and configuration scopes\<close>

definition var_round ::
  "penv \<Rightarrow> knot \<Rightarrow> nat \<Rightarrow> opcode \<Rightarrow> string list \<Rightarrow> (string list + string list) pm"
where
  "var_round env K p setop names s =
     bnd tk (\<lambda>t.
       if t \<noteq> TkId then perr ''expect a symbol as variable name''
       else bnd (bnd text_value varName) (\<lambda>gname.
         bnd (on_lexer (lx_expect (pe_lex env) TkAssign)) (\<lambda>b.
           if \<not> b then perr ''expect a '=' for variable assignment''
           else thn (seqs [skip env, K (PExpr p), em0 p setop, wantCurrent TkSemicolon, skip env])
             (bnd tk (\<lambda>t. if t = TkRBra then ret (Inr (names @ [gname])) else ret (Inl (names @ [gname]))))))) s"

definition parseVarScope :: "nat \<Rightarrow> penv \<Rightarrow> knot \<Rightarrow> string \<Rightarrow> opcode \<Rightarrow> (nat \<times> string list) pm" where
  "parseVarScope n env K rulename setop s =
     thn (want env TkLBra) (thn (skip env) (bnd (alloc_prog rulename ProgSession) (\<lambda>p.
       thn (enterScopeTop EntryVar p) (then_leave
         (bnd (hole p) (\<lambda>localR.
          bnd (bnd tk (\<lambda>t. if t \<noteq> TkRBra then loop n (var_round env K p setop) [] else ret [])) (\<lambda>names.
            thn (seqs [em0 p BcHalt, em1At p localR BcReserveLocal 0, skip env]) (ret (p, names))))))))) s"

definition parseSessionScope :: "nat \<Rightarrow> penv \<Rightarrow> knot \<Rightarrow> unit pm" where
  "parseSessionScope n env K s =
     bnd (parseVarScope n env K ''@config'' BcSetSession) (\<lambda>(x, names).
       modify (\<lambda>s. s\<lparr>ps_sessVar := ps_sessVar s @ names,
                     ps_module := addSessionProgram (ps_module s) x names\<rparr>)) s"

definition parseGlobalScope :: "nat \<Rightarrow> penv \<Rightarrow> knot \<Rightarrow> unit pm" where
  "parseGlobalScope n env K s =
     bnd (parseVarScope n env K ''@global'' BcSetGlobal) (\<lambda>(x, names).
       modify (\<lambda>s. s\<lparr>ps_globalVar := ps_globalVar s @ names,
                     ps_module := addGlobalProgram (ps_module s) x names\<rparr>)) s"

definition parseConfigScope :: "penv \<Rightarrow> knot \<Rightarrow> nat \<Rightarrow> unit pm" where
  "parseConfigScope env K p s =
     thn (enterScopeTop EntryConfig p) (then_leave
       (thn (wantCurrent TkId) (bnd text_value (\<lambda>name. thn (skip env) (parseConfigScopeInner K p name))))) s"

definition parseConfig :: "penv \<Rightarrow> knot \<Rightarrow> unit pm" where
  "parseConfig env K s =
     bnd (case md_config (ps_module s) of
            Some p \<Rightarrow> ret p
          | None \<Rightarrow> bnd (alloc_prog ''@config'' ProgConfig) (\<lambda>p.
              thn (modify (\<lambda>s. s\<lparr>ps_module := (ps_module s)\<lparr>md_config := Some p\<rparr>\<rparr>)) (ret p)))
       (parseConfigScope env K) s"

definition parseTopVarScope :: "nat \<Rightarrow> penv \<Rightarrow> knot \<Rightarrow> unit pm" where
  "parseTopVarScope n env K s =
     seqs
      [bnd tk (\<lambda>t.
         if t = TkGlobal then parseGlobalScope n env K
         else if t = TkConfig then thn (skip env) (parseConfig env K)
         else ret ()),
       bnd tk (\<lambda>t.
         if t = TkSession then parseSessionScope n env K
         else if t = TkConfig then thn (skip env) (parseConfig env K)
         else ret ())] s"

section \<open>Rules\<close>

definition rule_name :: "penv \<Rightarrow> string pm" where
  "rule_name env s =
     bnd tk (\<lambda>t.
       if t = TkStr \<or> t = TkId then bnd text_value (\<lambda>x. thn (skip env) (ret x))
       else if t = TkLSqr then
         thn (skip env) (bnd tk (\<lambda>t.
           if t \<noteq> TkStr \<and> t \<noteq> TkId then perr ''unexpected token, expect string or identifier for rule name''
           else bnd text_value (\<lambda>x. thn (want env TkRSqr) (thn (skip env) (ret x)))))
       else perr ''unexpected token here! A rule *MUST* have an identifier to represent event name, can be a string literal, an identifier or a '[' id ']' for documentation'') s"

definition parseRule :: "nat \<Rightarrow> penv \<Rightarrow> knot \<Rightarrow> unit pm" where
  "parseRule n env K s =
     thn (bnd tk (\<lambda>t. if t = TkRule then skip env else ret ())) (bnd (rule_name env) (\<lambda>name.
       if name = [] then perr ''invalid rule name, cannot be empty string''
       else if hd name = CHR ''@'' then perr ''invalid rule name, cannot start with @ which is builtin name''
       else
         bnd (alloc_prog name ProgRule) (\<lambda>p. thn (enterScopeTop EntryRule p) (then_leave
           (thn (bnd (mustAddLocalVar ''#event'') (\<lambda>_. bnd (mustAddLocalVar ''#frame'') (\<lambda>_. ret ())))
             (bnd (hole p) (\<lambda>localR. bnd (gets (\<lambda>s. addEvent (ps_module s) name p)) (\<lambda>(m, ok).
               if \<not> ok then perr ''invalid rule name, the rule has already been existed''
               else seqs
                 [modify (\<lambda>s. s\<lparr>ps_module := m\<rparr>),
                  bnd tk (\<lambda>t. if t = TkArrow then skip env else ret ()),
                  K (PBody p),
                  em0 p BcHalt,
                  finish_locals p localR,
                  modify (\<lambda>s. s\<lparr>ps_module := (ps_module s)\<lparr>md_p := md_p (ps_module s) @ [p]\<rparr>\<rparr>)])))))))) s"

section \<open>Imports\<close>

text \<open>The parser's lexer is put back when the computation returns.\<close>

definition with_saved_lexer :: "unit pm \<Rightarrow> unit pm" where
  "with_saved_lexer m s = (case m s of (r, s') \<Rightarrow> (r, s'\<lparr>ps_l := ps_l s\<rparr>))"

definition doImport :: "penv \<Rightarrow> knot \<Rightarrow> unit pm" where
  "doImport env K s =
     thn importLoop (bnd (gets (\<lambda>s. isImported (ps_modImportPath s) s)) (\<lambda>b.
       if b then ret ()
       else bnd (gets ps_modImportPath) (\<lambda>path.
         case pe_readFile env path of
           Err e \<Rightarrow> perr (''cannot load import file from path '' @ path @ '': '' @ e)
         | Ok data \<Rightarrow>
             with_saved_lexer (seqs [modify (\<lambda>s. s\<lparr>ps_l := newLexer data\<rparr>), skip env, K PModule])
         | Panic m \<Rightarrow> liftr (Panic m)
         | Diverge \<Rightarrow> liftr Diverge))) s"

definition import_path :: "penv \<Rightarrow> knot \<Rightarrow> unit pm" where
  "import_path env K s =
     bnd text_value (\<lambda>x. seqs [modify (\<lambda>s. s\<lparr>ps_modImportPath := x\<rparr>), skip env, doImport env K]) s"

definition import_round :: "penv \<Rightarrow> knot \<Rightarrow> unit \<Rightarrow> (unit + unit) pm" where
  "import_round env K u s =
     thn (wantCurrent TkStr) (thn (import_path env K) (bnd tk (\<lambda>t.
       if t = TkRPar then thn (skip env) (ret (Inr ())) else ret (Inl ())))) s"

definition parseImportStmt :: "nat \<Rightarrow> penv \<Rightarrow> knot \<Rightarrow> unit pm" where
  "parseImportStmt n env K s =
     thn (pmust (tk_is TkImport) ''must be import'') (thn (skip env) (bnd tk (\<lambda>t.
       if t = TkStr then import_path env K
       else if t = TkLPar then
         thn (skip env) (bnd tk (\<lambda>t.
           if t = TkRPar then perr ''nothing has been imported, do you forget to write import path ?''
           else loop n (import_round env K) ()))
       else perr ''expect a string as module path or '(' to start a group of paths after import''))) s"

definition parseImport :: "nat \<Rightarrow> penv \<Rightarrow> knot \<Rightarrow> unit pm" where
  "parseImport n env K s =
     loop n (\<lambda>u. bnd tk (\<lambda>t.
       if t = TkImport then thn (parseImportStmt n env K) (ret (Inl ())) else ret (Inr ()))) () s"

section \<open>The top level\<close>

text \<open>What functions, iterators and the end of the text do at the top of a module and of the text.\<close>

definition top_other :: "nat \<Rightarrow> penv \<Rightarrow> knot \<Rightarrow> (unit + unit) pm" where
  "top_other n env K s =
     bnd tk (\<lambda>t.
       if t = TkFunction then
         thn (skip env) (bnd (parseFunction n env K False) (\<lambda>_. ret (Inl ())))
       else if t = TkIterator then
         thn (skip env) (bnd (parseIterator n env K False) (\<lambda>_. ret (Inl ())))
       else if t = TkError then toErr
       else if t = TkEof then ret (Inr ())
       else if t = TkSession then perr ''session section should be put at the top, after global scope''
       else if t = TkGlobal then perr ''global section should be put at the top''
       else bnd (gets (\<lambda>s. tokenName (ps_l s))) (\<lambda>x.
         perr (''unknown token: '' @ x @ '', unrecognized statement''))) s"

definition parseModule :: "nat \<Rightarrow> penv \<Rightarrow> knot \<Rightarrow> unit pm" where
  "parseModule n env K s =
     seqs
      [parseModDec n env,
       startModule,
       parseImport n env K,
       parseTopVarScope n env K,
       loop n (\<lambda>u. top_other n env K) (),
       patchAllCall env,
       endModule] s"

definition entry_round :: "nat \<Rightarrow> penv \<Rightarrow> knot \<Rightarrow> unit \<Rightarrow> (unit + unit) pm" where
  "entry_round n env K u s =
     bnd tk (\<lambda>t.
       if t \<in> set [TkRule, TkId, TkStr, TkLSqr] then thn (parseRule n env K) (ret (Inl ()))
       else if t = TkConfig then thn (skip env) (thn (parseConfig env K) (ret (Inl ())))
       else top_other n env K) s"

definition parseEntry :: "nat \<Rightarrow> penv \<Rightarrow> knot \<Rightarrow> unit pm" where
  "parseEntry n env K s =
     seqs
      [parseImport n env K,
       parseTopVarScope n env K,
       loop n (entry_round n env K) (),
       patchAllCall env,
       bnd (gets (\<lambda>s. md_config (ps_module s))) (\<lambda>c.
         case c of Some p \<Rightarrow> em0 p BcHalt | None \<Rightarrow> ret ())] s"

section \<open>The knot\<close>

definition parse_call :: "nat \<Rightarrow> penv \<Rightarrow> knot \<Rightarrow> pcall \<Rightarrow> unit pm" where
  "parse_call n env K c s =
     (case c of
        PExpr p \<Rightarrow> parseTernary env K p
      | PBinary p prec \<Rightarrow> parseBinary n env K p prec
      | PUnary p \<Rightarrow> parseUnary n env K p
      | PBody p \<Rightarrow> parseBody n env K p
      | PConfigBody p \<Rightarrow> parseConfigScopeBody n env K p
      | PExprBody p \<Rightarrow> parseExprBody n env K p
      | PExprScope p \<Rightarrow> parseExprScope n env K p
      | PModule \<Rightarrow> parseModule n env K) s"

fun tied :: "nat \<Rightarrow> penv \<Rightarrow> knot" where
  "tied 0 env c s = (Diverge, s)"
| "tied (Suc n) env c s = parse_call n env (tied n env) c s"

definition parseExpr :: "nat \<Rightarrow> penv \<Rightarrow> nat \<Rightarrow> unit pm" where
  "parseExpr n env p s = tied n env (PExpr p) s"

definition parse :: "nat \<Rightarrow> penv \<Rightarrow> module pm" where
  "parse n env s =
     thn (skip env) (thn (parseEntry n env (tied n env)) (gets ps_module)) s"

text \<open>The module with the programs it names.\<close>

definition CompileModule :: "nat \<Rightarrow> penv \<Rightarrow> string \<Rightarrow> (module \<times> program list) res" where
  "CompileModule n env text =
     (case parse n env (newParser text) of
        (Ok m, s) \<Rightarrow> Ok (m, ps_progs s)
      | (Err e, s) \<Rightarrow> Err e
      | (Panic e, s) \<Rightarrow> Panic e
      | (Diverge, s) \<Rightarrow> Diverge)"

end
