(* ===== verification/ParserFuel.thy ===== *)
theory ParserFuel
  imports Parser Fuel
begin

text \<open>
  The fuel of the parser only decides whether there is a result: what some fuel gives, every
  larger fuel gives. The locale \<open>more_fuel\<close> holds two parsers, one of which answers whenever
  the other does; every function of the parser keeps that order.
\<close>

section \<open>The order on computations\<close>

definition le :: "('s \<Rightarrow> 'a res \<times> 's) \<Rightarrow> ('s \<Rightarrow> 'a res \<times> 's) \<Rightarrow> bool" where
  "le m m' \<longleftrightarrow> (\<forall>s. fle (m s) (m' s))"

named_theorems le_intros \<open>the combinators keep the order\<close>

lemma leI: "(\<And>s. fle (m s) (m' s)) \<Longrightarrow> le m m'"
  by (simp add: le_def)

lemma leD: "le m m' \<Longrightarrow> fle (m s) (m' s)"
  by (simp add: le_def)

lemma le_refl [le_intros]: "le m m"
  by (simp add: le_def)

lemma bnd_le [le_intros]: "le m m' \<Longrightarrow> (\<And>x. le (f x) (f' x)) \<Longrightarrow> le (bnd m f) (bnd m' f')"
  by (simp add: le_def bnd_def fle_mbind)

lemma thn_le [le_intros]: "le m m' \<Longrightarrow> le k k' \<Longrightarrow> le (thn m k) (thn m' k')"
  by (simp add: le_def thn_def fle_mbind)

lemma seqs_Cons_le [le_intros]: "le m m' \<Longrightarrow> le (seqs ms) (seqs ms') \<Longrightarrow> le (seqs (m # ms)) (seqs (m' # ms'))"
  by (simp add: le_def fle_mbind)

lemma if_le [le_intros]: "(c \<Longrightarrow> le a a') \<Longrightarrow> (\<not> c \<Longrightarrow> le b b') \<Longrightarrow> le (if c then a else b) (if c then a' else b')"
  by simp

lemma prod_le [le_intros]: "(\<And>x y. le (f x y) (f' x y)) \<Longrightarrow> le (case p of (x, y) \<Rightarrow> f x y) (case p of (x, y) \<Rightarrow> f' x y)"
  by (cases p) simp

lemma option_le [le_intros]:
  "le a a' \<Longrightarrow> (\<And>x. le (f x) (f' x)) \<Longrightarrow>
   le (case y of None \<Rightarrow> a | Some x \<Rightarrow> f x) (case y of None \<Rightarrow> a' | Some x \<Rightarrow> f' x)"
  by (cases y) simp_all

lemma sum_le [le_intros]:
  "(\<And>x. le (f x) (f' x)) \<Longrightarrow> (\<And>x. le (g x) (g' x)) \<Longrightarrow>
   le (case y of Inl x \<Rightarrow> f x | Inr x \<Rightarrow> g x) (case y of Inl x \<Rightarrow> f' x | Inr x \<Rightarrow> g' x)"
  by (cases y) simp_all

lemma res_le [le_intros]:
  "(\<And>x. le (f x) (f' x)) \<Longrightarrow> (\<And>e. le (g e) (g' e)) \<Longrightarrow> (\<And>e. le (h e) (h' e)) \<Longrightarrow> le d d' \<Longrightarrow>
   le (case y of Ok x \<Rightarrow> f x | Err e \<Rightarrow> g e | Panic e \<Rightarrow> h e | Diverge \<Rightarrow> d)
      (case y of Ok x \<Rightarrow> f' x | Err e \<Rightarrow> g' e | Panic e \<Rightarrow> h' e | Diverge \<Rightarrow> d')"
  by (cases y) simp_all

lemma let_le [le_intros]: "(\<And>x. le (f x) (f' x)) \<Longrightarrow> le (Let a f) (Let a f')"
  by (simp add: Let_def)

lemma loop_le [le_intros]:
  assumes "n \<le> n'" and "\<And>a. le (b a) (b' a)"
  shows "le (loop n b a) (loop n' b' a)"
  using assms(1)
proof (induction n arbitrary: n' a)
  case 0
  then show ?case by (simp add: le_def)
next
  case (Suc n)
  then obtain k where k: "n' = Suc k" "n \<le> k" by (cases n') auto
  show ?case
    unfolding k(1) by (auto intro!: leI fle_mbind leD [OF assms(2)] leD [OF Suc.IH [OF k(2)]] split: sum.split)
qed

lemma then_leave_le [le_intros]:
  assumes "le m m'"
  shows "le (then_leave m) (then_leave m')"
proof (rule leI)
  fix s
  from leD [OF assms, of s] show "fle (then_leave m s) (then_leave m' s)"
    by (cases "m s"; cases "fst (m s)") (auto simp: fle_def then_leave_def)
qed

lemma with_saved_lexer_le [le_intros]:
  assumes "le m m'"
  shows "le (with_saved_lexer m) (with_saved_lexer m')"
proof (rule leI)
  fix s
  from leD [OF assms, of s] show "fle (with_saved_lexer m s) (with_saved_lexer m' s)"
    by (cases "m s") (auto simp: fle_def with_saved_lexer_def)
qed

lemma fle_case:
  assumes "fle p q" and "\<And>s. fst (d s) = Diverge"
  shows "fle (case p of (Ok u, s) \<Rightarrow> f u s | (Err e, s) \<Rightarrow> g e s | (Panic m, s) \<Rightarrow> h m s | (Diverge, s) \<Rightarrow> d s)
    (case q of (Ok u, s) \<Rightarrow> f u s | (Err e, s) \<Rightarrow> g e s | (Panic m, s) \<Rightarrow> h m s | (Diverge, s) \<Rightarrow> d s)"
  using assms by (cases p; cases "fst p") (auto simp: fle_def)

section \<open>The functions of the parser\<close>

locale more_fuel =
  fixes n n' :: nat and env :: penv and K K' :: knot
  assumes fuel: "n \<le> n'" and knot: "le (K c) (K' c)"
begin

lemmas rules = fuel knot le_intros

lemma modSymbol_le: "le (parseModSymbol n env x) (parseModSymbol n' env x)"
  unfolding parseModSymbol_def [abs_def] by (intro rules)

lemma callArgs_le: "le (parseCallArgs n env K p) (parseCallArgs n' env K' p)"
  unfolding parseCallArgs_def [abs_def] call_arg_round_def [abs_def] by (intro rules)

lemma vcall_le: "le (parseVCall n env K p) (parseVCall n' env K' p)"
  unfolding parseVCall_def [abs_def] by (intro rules callArgs_le)

lemma unboundCall_le: "le (parseUnboundCall n env K p m a c) (parseUnboundCall n' env K' p m a c)"
  unfolding parseUnboundCall_def [abs_def] by (intro rules callArgs_le)

lemma suffixImpl_le: "le (parseSuffixImpl n env K p) (parseSuffixImpl n' env K' p)"
  unfolding parseSuffixImpl_def [abs_def] suffix_round_def [abs_def]
  by (intro rules vcall_le modSymbol_le unboundCall_le)

lemma suffix_le: "le (parseSuffix n env K p) (parseSuffix n' env K' p)"
  unfolding parseSuffix_def [abs_def] by (intro rules suffixImpl_le)

lemma prefixExpr_le: "le (parsePrefixExpr n env K p t x) (parsePrefixExpr n' env K' p t x)"
  unfolding parsePrefixExpr_def [abs_def] by (intro rules modSymbol_le unboundCall_le)

lemma list_le: "le (parseList n env K p) (parseList n' env K' p)"
  unfolding parseList_def [abs_def] list_round_def [abs_def] by (intro rules)

lemma map_le: "le (parseMap n env K p) (parseMap n' env K' p)"
  unfolding parseMap_def [abs_def] map_round_def [abs_def] by (intro rules)

lemma pair_le: "le (parsePairOrSubexpr env K p) (parsePairOrSubexpr env K' p)"
  unfolding parsePairOrSubexpr_def [abs_def] by (intro rules)

lemma selector_le: "le (selector n env) (selector n' env)"
proof (rule leI)
  fix l
  show "fle (selector n env l) (selector n' env l)"
    unfolding selector_def sel_expect_def Let_def
    by (intro fle_intro leD [OF if_le] leI leD [OF loop_le] le_refl fuel)
qed

lemma templateSelector_le: "le (parseTemplateSelector n env x) (parseTemplateSelector n' env x)"
proof (rule leI)
  fix s
  show "fle (parseTemplateSelector n env x s) (parseTemplateSelector n' env x s)"
    using leD [OF selector_le, of "newLexer x"]
    unfolding parseTemplateSelector_def bnd_def liftr_def fle_def by auto
qed

lemma template_le: "le (parseTemplate n env K p) (parseTemplate n' env K' p)"
  unfolding parseTemplate_def [abs_def] by (intro rules templateSelector_le)

lemma interpolationExpr_le:
  "le (parseStrInterpolationExpr env K x i p) (parseStrInterpolationExpr env K' x i p)"
proof -
  have "fle (thn (skip env) (K (PExpr p)) s) (thn (skip env) (K' (PExpr p)) s)" for s
    by (rule leD) (intro rules)
  then show ?thesis
    unfolding parseStrInterpolationExpr_def [abs_def] by (intro bnd_le le_refl leI fle_case) simp_all
qed

lemma interpolation_le: "le (parseStrInterpolation n env K p x) (parseStrInterpolation n' env K' p x)"
  unfolding parseStrInterpolation_def [abs_def] interp_round_def [abs_def] by (intro rules interpolationExpr_le)

lemma functionRest_le: "le (parseFunctionRest n env K p) (parseFunctionRest n' env K' p)"
  unfolding parseFunctionRest_def [abs_def] by (intro rules)

lemma callable_le: "le (parse_callable n env K pt et a) (parse_callable n' env K' pt et a)"
  unfolding parse_callable_def [abs_def] by (intro rules functionRest_le)

lemma function_le: "le (parseFunction n env K a) (parseFunction n' env K' a)"
  unfolding parseFunction_def [abs_def] by (intro rules callable_le)

lemma iterator_le: "le (parseIterator n env K a) (parseIterator n' env K' a)"
  unfolding parseIterator_def [abs_def] by (intro rules callable_le)

lemma iteratorSetUp_le: "le (parseIteratorSetUp n env K p) (parseIteratorSetUp n' env K' p)"
  unfolding parseIteratorSetUp_def [abs_def] by (intro rules modSymbol_le unboundCall_le)

lemma try_le:
  assumes "le b b'" and "le c c'"
  shows "le (parseTry env p b c) (parseTry env p b' c')"
  unfolding parseTry_def [abs_def] by (intro rules assms)

lemma ternaryRest_le: "le (parseTernaryRest env K p) (parseTernaryRest env K' p)"
  unfolding parseTernaryRest_def [abs_def] by (intro rules)

lemma ternary_le: "le (parseTernary env K p) (parseTernary env K' p)"
  unfolding parseTernary_def [abs_def] by (intro rules ternaryRest_le)

lemma branch_le:
  assumes "le b b'" and "le c c'"
  shows "le (parseBranch n env K p b c) (parseBranch n' env K' p b' c')"
  unfolding parseBranch_def [abs_def] elif_round_def [abs_def] by (intro rules ternary_le assms)

lemma varDecl_le: "le (parseVarDecl env K p t) (parseVarDecl env K' p t)"
  unfolding parseVarDecl_def [abs_def] by (intro rules)

lemma forever_le:
  assumes "le b b'"
  shows "le (parseForeverLoop p b) (parseForeverLoop p b')"
  unfolding parseForeverLoop_def [abs_def] by (intro rules assms)

lemma iteratorLoop_le:
  assumes "le b b'"
  shows "le (parseIteratorLoop n env K p x b) (parseIteratorLoop n' env K' p x b')"
  unfolding parseIteratorLoop_def [abs_def] iterator_expr_def [abs_def] Let_def by (intro rules iteratorSetUp_le assms)

lemma tripRest_le:
  assumes "\<And>l. le (c l) (c' l)" and "le b b'"
  shows "le (parseTripCountLoopRest env K c p b) (parseTripCountLoopRest env K' c' p b')"
  unfolding parseTripCountLoopRest_def [abs_def] by (intro rules assms)

lemma tripFull_le:
  assumes "\<And>l. le (c l) (c' l)" and "le b b'"
  shows "le (parseTripCountLoopFull env K c p x b) (parseTripCountLoopFull env K' c' p x b')"
  unfolding parseTripCountLoopFull_def [abs_def] by (intro rules tripRest_le assms)

lemma tripNoInit_le:
  assumes "\<And>l. le (c l) (c' l)" and "le b b'"
  shows "le (parseTripCountLoopNoInit env K c p b) (parseTripCountLoopNoInit env K' c' p b')"
  unfolding parseTripCountLoopNoInit_def [abs_def] by (intro rules tripRest_le assms)

lemma iteratorOrTrip_le:
  assumes "\<And>l. le (c l) (c' l)" and "le b b'"
  shows "le (parseIteratorOrTripLoop n env K c p b) (parseIteratorOrTripLoop n' env K' c' p b')"
  unfolding parseIteratorOrTripLoop_def [abs_def] by (intro rules iteratorLoop_le tripFull_le assms)

lemma condition_le:
  assumes "le b b'"
  shows "le (parseConditionLoop K p b) (parseConditionLoop K' p b')"
  unfolding parseConditionLoop_def [abs_def] by (intro rules assms)

lemma forImpl_le:
  assumes "\<And>l. le (c l) (c' l)" and "le b b'"
  shows "le (parseForImpl n env K c p b) (parseForImpl n' env K' c' p b')"
  unfolding parseForImpl_def [abs_def] by (intro rules forever_le iteratorOrTrip_le tripNoInit_le condition_le assms)

lemma for_le:
  assumes "\<And>l. le (c l) (c' l)"
  shows "le (parseFor n env K c p) (parseFor n' env K' c' p)"
  unfolding parseFor_def [abs_def] by (intro rules forImpl_le assms)

lemma binaryRest_le: "le (parseBinaryRest n env K p q) (parseBinaryRest n' env K' p q)"
  unfolding parseBinaryRest_def [abs_def] binary_round_def [abs_def] by (intro rules)

lemma binary_le: "le (parseBinary n env K p q) (parseBinary n' env K' p q)"
  unfolding parseBinary_def [abs_def] by (intro rules binaryRest_le)

lemma tryExpr_le: "le (parseTryExpr env K p) (parseTryExpr env K' p)"
  unfolding parseTryExpr_def [abs_def] Let_def by (intro rules try_le)

lemma branchExpr_le: "le (parseBranchExpr n env K p) (parseBranchExpr n' env K' p)"
  unfolding parseBranchExpr_def [abs_def] by (intro rules branch_le)

lemma primary_le: "le (parsePrimary n env K p l) (parsePrimary n' env K' p l)"
  unfolding parsePrimary_def [abs_def] by (intro rules branchExpr_le tryExpr_le interpolation_le function_le iterator_le pair_le list_le map_le prefixExpr_le template_le)

lemma atomic_le: "le (parseAtomic n env K p) (parseAtomic n' env K' p)"
  unfolding parseAtomic_def [abs_def] by (intro rules primary_le suffix_le)

lemma unary_le: "le (parseUnary n env K p) (parseUnary n' env K' p)"
  unfolding parseUnary_def [abs_def] by (intro rules atomic_le)

lemma symbolAssign_le: "le (parseSymbolAssign env K p x k i) (parseSymbolAssign env K' p x k i)"
  unfolding parseSymbolAssign_def [abs_def] assign_value_def [abs_def] by (intro rules)

lemma stmtExprRest_le: "le (parseBasicStmtExprRest n env K p) (parseBasicStmtExprRest n' env K' p)"
  unfolding parseBasicStmtExprRest_def [abs_def] by (intro rules binaryRest_le ternaryRest_le)

lemma assignName_le: "le (assign_name env K p l) (assign_name env K' p l)"
  unfolding assign_name_def [abs_def] by (intro rules symbolAssign_le)

lemma assignField_le: "le (assign_field env K p st) (assign_field env K' p st)"
  unfolding assign_field_def [abs_def] assign_value_def [abs_def] by (intro rules)

lemma basicStmt_le: "le (parseBasicStmt n env K p b l) (parseBasicStmt n' env K' p b l)"
  unfolding parseBasicStmt_def [abs_def] by (intro rules assignName_le assignField_le primary_le suffixImpl_le stmtExprRest_le)

lemma stmt_le: "le (parseStmt n env K p) (parseStmt n' env K' p)"
  unfolding parseStmt_def [abs_def] by (intro rules basicStmt_le)

lemma exprStmt_le: "le (parseExprStmt n env K p) (parseExprStmt n' env K' p)"
  unfolding parseExprStmt_def [abs_def] by (intro rules varDecl_le for_le basicStmt_le)

lemma exprStmtSep_le: "le (expr_stmt_sep n env K p) (expr_stmt_sep n' env K' p)"
  unfolding expr_stmt_sep_def [abs_def] by (intro rules exprStmt_le)

lemma exprStmtRound_le: "le (expr_stmt_round n env K p v) (expr_stmt_round n' env K' p v)"
  unfolding expr_stmt_round_def [abs_def] by (intro rules exprStmtSep_le)

lemma exprBody_le: "le (parseExprBody n env K p) (parseExprBody n' env K' p)"
  unfolding parseExprBody_def [abs_def] by (intro rules exprStmtSep_le exprStmtRound_le)

lemma exprScope_le: "le (parseExprScope n env K p) (parseExprScope n' env K' p)"
  unfolding parseExprScope_def [abs_def] by (intro rules exprStmtSep_le exprStmtRound_le)

lemma inScope_le:
  assumes "le b b'"
  shows "le (in_scope b) (in_scope b')"
  unfolding in_scope_def [abs_def] by (intro rules assms)

lemma tryStmt_le:
  assumes "le b b'"
  shows "le (parseTryStmt env p b) (parseTryStmt env p b')"
  unfolding parseTryStmt_def [abs_def] by (intro rules try_le inScope_le assms)

lemma branchStmt_le:
  assumes "le b b'"
  shows "le (parseBranchStmt n env K p b) (parseBranchStmt n' env K' p b')"
  unfolding parseBranchStmt_def [abs_def] parseBranchStmtBody_def [abs_def] by (intro rules branch_le inScope_le assms)

lemma yield_le: "le (parseYield env K p) (parseYield env K' p)"
  unfolding parseYield_def [abs_def] by (intro rules)

lemma return_le: "le (parseReturn env K p) (parseReturn env K' p)"
  unfolding parseReturn_def [abs_def] by (intro rules)

lemma emit_le: "le (parseEmit env K p) (parseEmit env K' p)"
  unfolding parseEmit_def [abs_def] by (intro rules)

lemma bodyStmt_le: "le (parseBodyStmt n env K p) (parseBodyStmt n' env K' p)"
  unfolding parseBodyStmt_def [abs_def] by (intro rules inScope_le varDecl_le branchStmt_le tryStmt_le for_le basicStmt_le return_le yield_le emit_le stmt_le)

lemma bodyImpl_le:
  assumes "le b b'"
  shows "le (parseBodyImpl n env b) (parseBodyImpl n' env b')"
  unfolding parseBodyImpl_def [abs_def] body_round_def [abs_def] by (intro rules assms)

lemma body_le: "le (parseBody n env K p) (parseBody n' env K' p)"
  unfolding parseBody_def [abs_def] by (intro rules bodyImpl_le bodyStmt_le)

lemma configCmd_le: "le (parseConfigScopeCmd n env K p) (parseConfigScopeCmd n' env K' p)"
  unfolding parseConfigScopeCmd_def [abs_def] by (intro rules callArgs_le)

lemma configInner_le: "le (parseConfigScopeInner K p x) (parseConfigScopeInner K' p x)"
  unfolding parseConfigScopeInner_def [abs_def] by (intro rules)

lemma configBasic_le: "le (parseConfigScopeBasicStmt n env K p) (parseConfigScopeBasicStmt n' env K' p)"
  unfolding parseConfigScopeBasicStmt_def [abs_def] by (intro rules configInner_le configCmd_le basicStmt_le)

lemma configStmt_le: "le (parseConfigScopeBodyStmt n env K p) (parseConfigScopeBodyStmt n' env K' p)"
  unfolding parseConfigScopeBodyStmt_def [abs_def] by (intro rules inScope_le varDecl_le branchStmt_le tryStmt_le forImpl_le basicStmt_le configCmd_le configBasic_le)

lemma configBody_le: "le (parseConfigScopeBody n env K p) (parseConfigScopeBody n' env K' p)"
  unfolding parseConfigScopeBody_def [abs_def] by (intro rules bodyImpl_le configStmt_le)

lemma varScope_le: "le (parseVarScope n env K x op) (parseVarScope n' env K' x op)"
  unfolding parseVarScope_def [abs_def] var_round_def [abs_def] by (intro rules)

lemma sessionScope_le: "le (parseSessionScope n env K) (parseSessionScope n' env K')"
  unfolding parseSessionScope_def [abs_def] by (intro rules varScope_le)

lemma globalScope_le: "le (parseGlobalScope n env K) (parseGlobalScope n' env K')"
  unfolding parseGlobalScope_def [abs_def] by (intro rules varScope_le)

lemma configScope_le: "le (parseConfigScope env K p) (parseConfigScope env K' p)"
  unfolding parseConfigScope_def [abs_def] by (intro rules configInner_le)

lemma config_le: "le (parseConfig env K) (parseConfig env K')"
  unfolding parseConfig_def [abs_def]
  by (intro leI) (rule leD, intro rules configScope_le)

lemma topVarScope_le: "le (parseTopVarScope n env K) (parseTopVarScope n' env K')"
  unfolding parseTopVarScope_def [abs_def] by (intro rules sessionScope_le globalScope_le config_le)

lemma rule_le: "le (parseRule n env K) (parseRule n' env K')"
  unfolding parseRule_def [abs_def] by (intro rules)

lemma doImport_le: "le (doImport env K) (doImport env K')"
  unfolding doImport_def [abs_def] by (intro rules)

lemma importStmt_le: "le (parseImportStmt n env K) (parseImportStmt n' env K')"
  unfolding parseImportStmt_def [abs_def] import_round_def [abs_def] import_path_def [abs_def] by (intro rules doImport_le)

lemma import_le: "le (parseImport n env K) (parseImport n' env K')"
  unfolding parseImport_def [abs_def] by (intro rules importStmt_le)

lemma topOther_le: "le (top_other n env K) (top_other n' env K')"
  unfolding top_other_def [abs_def] by (intro rules function_le iterator_le)

lemma modDec_le: "le (parseModDec n env) (parseModDec n' env)"
  unfolding parseModDec_def [abs_def] by (intro rules modSymbol_le)

lemma module_le: "le (parseModule n env K) (parseModule n' env K')"
  unfolding parseModule_def [abs_def] by (intro rules modDec_le import_le topVarScope_le topOther_le)

lemma entry_le: "le (parseEntry n env K) (parseEntry n' env K')"
  unfolding parseEntry_def [abs_def] entry_round_def [abs_def] by (intro rules import_le topVarScope_le topOther_le rule_le config_le)

lemma call_le: "le (parse_call n env K c) (parse_call n' env K' c)"
  unfolding parse_call_def [abs_def]
  by (cases c) (simp_all add: ternary_le binary_le unary_le body_le configBody_le exprBody_le exprScope_le module_le)

end

lemma tied_le: "n \<le> n' \<Longrightarrow> le (tied n env c) (tied n' env c)"
proof (induction n arbitrary: n' c)
  case 0
  then show ?case by (simp add: le_def)
next
  case (Suc n)
  then obtain k where k: "n' = Suc k" "n \<le> k" by (cases n') auto
  have "more_fuel n k (tied n env) (tied k env)"
    using k(2) Suc.IH by (simp add: more_fuel_def)
  from more_fuel.call_le [OF this, of env c] show ?case
    by (simp add: k(1) le_def)
qed

interpretation next_fuel: more_fuel n "Suc n" env "tied n env" "tied (Suc n) env" for n env
  by unfold_locales (auto intro: tied_le)

end
