(* ===== verification/LexerProps.thy ===== *)
theory LexerProps
  imports Lexer
begin

text \<open>
  What the lexer's \<open>next\<close> guarantees: it always ends and never moves back, every operator and
  keyword is read back from its name, literals are read back from their printed form, and where
  the making of an error message panics.
\<close>

text \<open>No letters and digits beyond ASCII: the tables of the examples.\<close>

definition ascii_env :: lexenv where
  "ascii_env = \<lparr>le_letter = \<lambda>_. False, le_digit = \<lambda>_. False\<rparr>"

section \<open>The lexer only moves forward\<close>

definition fwd :: "nat \<Rightarrow> lexer \<Rightarrow> 'a res \<times> lexer \<Rightarrow> bool" where
  "fwd k t r \<longleftrightarrow>
     fst r \<noteq> Diverge \<and> lx_input (snd r) = lx_input t \<and> lx_cursor t + k \<le> lx_cursor (snd r)"

text \<open>A token result, with at least \<open>k\<close> runes passed unless it is an error or the end.\<close>

definition tok :: "nat \<Rightarrow> lexer \<Rightarrow> token res \<times> lexer \<Rightarrow> bool" where
  "tok k t r \<longleftrightarrow>
     fwd 0 t r \<and> (\<forall>e. fst r \<noteq> Err e) \<and>
     (\<forall>tk. fst r = Ok tk \<longrightarrow> tk \<noteq> TkEof \<longrightarrow> tk \<noteq> TkError \<longrightarrow> fwd k t r)"

lemma advance_simps [simp]:
  "lx_input (advance n t) = lx_input t" "lx_cursor (advance n t) = lx_cursor t + n"
  "lx_token (advance n t) = lx_token t"
  by (simp_all add: advance_def)

lemma saveDCursor_simps [simp]:
  "lx_input (saveDCursor s t) = lx_input t" "lx_cursor (saveDCursor s t) = lx_cursor t"
  "lx_token (saveDCursor s t) = lx_token t" "valueInt (saveDCursor s t) = valueInt t"
  "valueText (saveDCursor s t) = valueText t" "allowDRBra (saveDCursor s t) = allowDRBra t"
  by (simp_all add: saveDCursor_def Let_def)

lemma position_cases: "(\<exists>p. position t = Ok p) \<or> (\<exists>m. position t = Panic m)"
  by (auto simp: position_def rune_slice_def paddingSize_def Let_def split: prod.split)

lemma lx_err_tok: "lx_input t = lx_input t0 \<Longrightarrow> lx_cursor t0 \<le> lx_cursor t \<Longrightarrow> tok k t0 (lx_err msg t)"
  using position_cases [of t] by (auto simp: lx_err_def tok_def fwd_def)

lemma lx_err_result: "lx_err msg t = (Ok tk, t') \<Longrightarrow> tk = TkError \<and> lx_input t' = lx_input t \<and> lx_cursor t' = lx_cursor t"
  using position_cases [of t] by (auto simp: lx_err_def)

lemma yield_tok: "k \<le> n \<Longrightarrow> tok k t (lx_yield tk n t)"
  by (simp add: lx_yield_def tok_def fwd_def)

lemma ops_tok:
  "tok 1 t (lx_p2 t0 t1 c t)" "tok 1 t (lx_pp t0 c t)" "tok 1 t (lx_pp2 t0 t1 t2 c d t)"
  by (auto simp: lx_p2_def lx_pp_def lx_pp2_def intro: yield_tok lx_err_tok)

lemma scanStr_tok:
  assumes "lx_cursor t < length (lx_input t)"
  shows "tok 1 t (scanStr t)"
proof -
  obtain c where c: "cur t = Ok c" using assms by (simp add: cur_def)
  show ?thesis
    unfolding scanStr_def c rlift_simps Let_def
    by (auto split: str_end.split intro!: lx_err_tok) (simp_all add: tok_def fwd_def)
qed

lemma ParseInt_cases: "(\<exists>v. ParseInt b = Ok v) \<or> (\<exists>e. ParseInt b = Err e)"
  by (auto simp: ParseInt_def Let_def)

lemma ParseFloat_cases: "(\<exists>v. ParseFloat b = Ok v) \<or> (\<exists>e. ParseFloat b = Err e)"
  by (auto simp: ParseFloat_def Let_def)

lemma scan_num_pos:
  "scan_num env rs b d x n = NumDone b' d' x' m \<Longrightarrow> n \<le> m \<and> (rs \<noteq> [] \<longrightarrow> IsDigit env (hd rs) \<longrightarrow> n < m)"
  by (induction env rs b d x n rule: scan_num.induct)
    (fastforce split: if_splits list.splits)+

lemma scanNum_tok:
  assumes "lx_cursor t < length (lx_input t)" and "ascii_digit (lx_input t ! lx_cursor t)"
  shows "tok 1 t (scanNum env t)"
proof -
  let ?c = "lx_input t ! lx_cursor t"
  have c: "cur t = Ok ?c" "?c \<noteq> 45" "IsDigit env ?c"
    using assms by (auto simp: cur_def ascii_digit_def IsDigit_def)
  have hd: "drop (lx_cursor t) (lx_input t) \<noteq> []" "hd (drop (lx_cursor t) (lx_input t)) = ?c"
    using assms(1) by (simp_all add: hd_drop_conv_nth)
  show ?thesis
  proof (cases "scan_num env (drop (lx_cursor t) (lx_input t)) [] False False 0")
    case (NumDone b d x n)
    then have n: "0 < n" using scan_num_pos [OF NumDone] hd c(3) by simp
    show ?thesis
      using c NumDone n ParseInt_cases [of b] ParseFloat_cases [of b]
      unfolding scanNum_def
      by (auto simp: lx_lift_def Let_def intro!: lx_err_tok) (simp_all add: tok_def fwd_def)
  next
    case (NumBad n)
    with c show ?thesis unfolding scanNum_def by (auto simp: Let_def intro!: lx_err_tok)
  qed
qed

lemma tok_weaken: "tok k t (r, t') \<Longrightarrow> lx_input t = lx_input t0 \<Longrightarrow> lx_cursor t0 + j \<le> lx_cursor t \<Longrightarrow> tok j t0 (r, t')"
  by (auto simp: tok_def fwd_def)

lemma scanRId_tok:
  assumes "lx_cursor t + 1 < length (lx_input t)" and "lx_input t ! lx_cursor t = 64"
    and "lx_peek t 1 = Some 34 \<or> lx_peek t 1 = Some 39"
  shows "tok 1 t (scanRId t)"
proof -
  let ?t = "advance 1 t"
  have s: "tok 1 ?t (scanStr ?t)" by (rule scanStr_tok) (use assms(1) in simp)
  obtain r t' where r: "scanStr ?t = (r, t')" by (cases "scanStr ?t")
  have c: "cur t = Ok 64" "cur ?t = Ok 34 \<or> cur ?t = Ok 39" "lx_cursor ?t \<noteq> length (lx_input ?t)"
    using assms by (auto simp: cur_def lx_peek_def split: if_splits)
  show ?thesis
    using c s r by (cases r) (auto simp: scanRId_def Let_def tok_def fwd_def split: if_splits)
qed

lemma scanMStr_tok: "tok 1 t (scanMStr t)"
proof -
  obtain r t' where r: "mulstrMarker t = (r, t')" by (cases "mulstrMarker t")
  then have m: "lx_input t' = lx_input t" "lx_cursor t \<le> lx_cursor t'"
    "(\<exists>e. r = Err e) \<or> (\<exists>e. r = Ok e \<and> lx_cursor t < lx_cursor t')"
    by (auto simp: mulstrMarker_def Let_def split: if_splits option.splits)
  then show ?thesis
    unfolding scanMStr_def r
    by (auto simp: lx_lift_def split: option.split intro!: lx_err_tok) (auto simp: tok_def fwd_def)
qed


text \<open>Nested calls of \<open>next\<close> start further on.\<close>

definition nested :: "(lexer \<Rightarrow> token res \<times> lexer) \<Rightarrow> lexer \<Rightarrow> bool" where
  "nested nxt t0 \<longleftrightarrow> (\<forall>t. lx_input t = lx_input t0 \<longrightarrow> lx_cursor t0 < lx_cursor t \<longrightarrow> tok 0 t (nxt t))"

lemma tryQualifyId_fwd:
  assumes "nested nxt t0" and "lx_input t = lx_input t0" and "lx_cursor t0 < lx_cursor t"
  shows "fwd 0 t (tryQualifyId nxt k t) \<and> (\<forall>e. fst (tryQualifyId nxt k t) \<noteq> Err e)"
proof -
  obtain r1 t1 where r1: "nxt t = (r1, t1)" by (cases "nxt t")
  have s1: "tok 0 t (r1, t1)" using assms r1 unfolding nested_def by metis
  then have i1: "lx_input t1 = lx_input t0" "lx_cursor t0 < lx_cursor t1" "lx_cursor t \<le> lx_cursor t1"
    using assms(2,3) by (simp_all add: tok_def fwd_def)
  obtain r2 t2 where r2: "nxt t1 = (r2, t2)" by (cases "nxt t1")
  have s2: "tok 0 t1 (r2, t2)" using assms(1) i1 r2 unfolding nested_def by metis
  show ?thesis
    using s1 s2 r1 r2 i1 assms(2)
    by (cases r1; cases r2) (auto simp: tryQualifyId_def Let_def tok_def fwd_def)
qed

lemma tryPrefixString_fwd:
  assumes "lx_cursor t < length (lx_input t)"
  shows "(\<exists>t'. tryPrefixString c t = (Ok None, t') \<and> lx_input t' = lx_input t \<and>
            (t' = t \<or> lx_cursor t < lx_cursor t')) \<or>
         (\<exists>tk t'. tryPrefixString c t = (Ok (Some tk), t') \<and> tok 1 t (Ok tk, t')) \<or>
         (\<exists>m t'. tryPrefixString c t = (Panic m, t') \<and> lx_input t' = lx_input t \<and> lx_cursor t \<le> lx_cursor t')"
proof (cases "c = rune_of (CHR ''R'') \<or> c = rune_of (CHR ''r'')")
  case True
  let ?t = "advance 1 t"
  show ?thesis
  proof (cases "lx_cursor t + 1 < length (lx_input t)")
    case more: True
    obtain r t' where r: "scanStr ?t = (r, t')" by (cases "scanStr ?t")
    have "tok 1 ?t (r, t')" using scanStr_tok [of ?t] more r by simp
    then show ?thesis
      using True more r by (cases r) (auto simp: tryPrefixString_def Let_def tok_def fwd_def)
  next
    case False
    then have e: "lx_cursor t + 1 = length (lx_input t)" using assms by simp
    show ?thesis
      using position_cases [of ?t] True False e by (auto simp: tryPrefixString_def lx_err_def Let_def)
  qed
qed (auto simp: tryPrefixString_def)

lemma ident_len_pos: "rs \<noteq> [] \<Longrightarrow> IsLetter env (hd rs) \<or> hd rs = 95 \<Longrightarrow> 0 < ident_len env rs"
  by (cases rs) auto

lemma scanId_tok:
  assumes "nested nxt t" and "lx_cursor t < length (lx_input t)" and "c = lx_input t ! lx_cursor t"
  shows "tok 1 t (scanIdOrKeywordOrPrefixString env nxt c t)"
proof -
  consider t1 where "tryPrefixString c t = (Ok None, t1)" "lx_input t1 = lx_input t" "t1 = t \<or> lx_cursor t < lx_cursor t1"
    | tk t1 where "tryPrefixString c t = (Ok (Some tk), t1)" "tok 1 t (Ok tk, t1)"
    | m t1 where "tryPrefixString c t = (Panic m, t1)" "lx_input t1 = lx_input t" "lx_cursor t \<le> lx_cursor t1"
    using tryPrefixString_fwd [OF assms(2), of c] by blast
  then show ?thesis
  proof cases
    case (1 t1)
    let ?rest = "drop (lx_cursor t1) (lx_input t1)"
    let ?n = "ident_len env ?rest"
    let ?t2 = "advance ?n t1"
    show ?thesis
    proof (cases "IsLetter env c \<or> c = 95")
      case True
      have n: "lx_cursor t < lx_cursor ?t2"
      proof (cases "t1 = t")
        case eq: True
        have "0 < ?n"
          by (rule ident_len_pos) (use eq assms(2,3) True in \<open>simp_all add: hd_drop_conv_nth\<close>)
        with eq show ?thesis by simp
      qed (use 1(3) in simp)
      have i: "lx_input ?t2 = lx_input t" using 1(2) by simp
      have q: "fwd 0 ?t2 (tryQualifyId nxt k ?t2)" "fst (tryQualifyId nxt k ?t2) \<noteq> Err e" for k e
        using tryQualifyId_fwd [OF assms(1) i n, of k] by auto
      have "tok 1 t (mbind (tryQualifyId nxt k ?t2) (\<lambda>q t. case q of
          Some tk \<Rightarrow> (Ok tk, t\<lparr>lx_token := tk\<rparr>) | None \<Rightarrow> (Ok k, t\<lparr>lx_token := k\<rparr>)))" for k
        using q [of k] n i
        by (cases "tryQualifyId nxt k ?t2"; cases "fst (tryQualifyId nxt k ?t2)")
          (auto simp: tok_def fwd_def split: option.split)
      then show ?thesis
        using 1 True n i by (auto simp: scanIdOrKeywordOrPrefixString_def Let_def split: option.split)
          (auto simp: tok_def fwd_def)
    next
      case False
      with 1 show ?thesis
        by (auto simp: scanIdOrKeywordOrPrefixString_def intro!: lx_err_tok)
    qed
  next
    case (2 tk t1)
    then show ?thesis by (simp add: scanIdOrKeywordOrPrefixString_def)
  next
    case (3 m t1)
    then show ?thesis by (simp add: scanIdOrKeywordOrPrefixString_def tok_def fwd_def)
  qed
qed

lemma scan_token_tok:
  assumes "nested nxt t" and "lx_cursor t < length (lx_input t)" and "c = lx_input t ! lx_cursor t"
  shows "tok 1 t (scan_token env nxt c t)"
proof -
  have "lx_peek t 1 = Some r \<Longrightarrow> lx_cursor t + 1 < length (lx_input t)" for r
    by (simp add: lx_peek_def split: if_splits)
  then have rid: "c = 64 \<Longrightarrow> lx_peek t 1 = Some 34 \<or> lx_peek t 1 = Some 39 \<Longrightarrow> tok 1 t (scanRId t)"
    using assms(3) by (intro scanRId_tok) auto
  have num: "ascii_digit c \<Longrightarrow> tok 1 t (scanNum env t)"
    using assms(2,3) by (intro scanNum_tok) simp_all
  note r = rid num ops_tok yield_tok [of 1] scanMStr_tok [of t] scanStr_tok [OF assms(2)] scanId_tok [OF assms]
  show ?thesis
    unfolding scan_token_def by (simp only: if_split) (intro conjI impI r; simp)
qed


lemma comment_len_le: "comment_len rs \<le> length rs"
  by (induction rs) auto

lemma block_comment:
  "(\<exists>t'. scanCommentBlock t = (Ok True, t') \<and> lx_input t' = lx_input t \<and> lx_cursor t \<le> lx_cursor t') \<or>
   (\<exists>t'. scanCommentBlock t = (Ok False, t') \<and> lx_token t' = TkError \<and> lx_input t' = lx_input t \<and>
      lx_cursor t \<le> lx_cursor t') \<or>
   (\<exists>m t'. scanCommentBlock t = (Panic m, t') \<and> lx_input t' = lx_input t \<and> lx_cursor t \<le> lx_cursor t')"
  using position_cases [of "t\<lparr>lx_cursor := max (lx_cursor t) (length (lx_input t))\<rparr>"]
  by (auto simp: scanCommentBlock_def lx_err_def split: option.split)

lemma tok_save:
  assumes "tok k t p"
  shows "tok k t (mbind p (\<lambda>tk t. (Ok tk, saveDCursor s t)))"
  using assms by (cases p; cases "fst p") (auto simp: tok_def fwd_def)

lemma lex_loop_tok: "length (lx_input t) - lx_cursor t < n \<Longrightarrow> tok 1 t (lex_loop n env t)"
proof (induction n arbitrary: t)
  case (Suc n)
  have IH: "tok (Suc 0) t (lex_loop n env u)"
    if "lx_input u = lx_input t" "lx_cursor t < lx_cursor u" "lx_cursor t < length (lx_input t)" for u :: lexer
  proof -
    have "tok 1 u (lex_loop n env u)" by (rule Suc.IH) (use Suc.prems that in simp)
    then show ?thesis using that by (auto simp: tok_def fwd_def)
  qed
  show ?case
  proof (cases "lx_cursor t < length (lx_input t)")
    case False
    then show ?thesis by (simp add: lx_yield_def tok_def fwd_def)
  next
    case True
    let ?c = "lx_input t ! lx_cursor t"
    have nest: "nested (lex_loop n env) t"
      unfolding nested_def
    proof (intro allI impI)
      fix u :: lexer
      assume u: "lx_input u = lx_input t" "lx_cursor t < lx_cursor u"
      have "tok 1 u (lex_loop n env u)" by (rule Suc.IH) (use Suc.prems u True in simp)
      then show "tok 0 u (lex_loop n env u)" by (auto simp: tok_def fwd_def)
    qed
    have scan: "tok (Suc 0) t (mbind (scan_token env (lex_loop n env) ?c t)
        (\<lambda>tk t'. (Ok tk, saveDCursor (lx_cursor t) t')))"
      using tok_save [OF scan_token_tok [OF nest True refl]] by simp
    let ?b = "advance 2 t"
    have block: "tok (Suc 0) t (mbind (scanCommentBlock ?b) (\<lambda>ok t'.
        if ok then lex_loop n env t' else (Ok (lx_token t'), saveDCursor (lx_cursor t) t')))"
    proof -
      consider t' where "scanCommentBlock ?b = (Ok True, t')" "lx_input t' = lx_input t" "lx_cursor t + 2 \<le> lx_cursor t'"
        | t' where "scanCommentBlock ?b = (Ok False, t')" "lx_token t' = TkError" "lx_input t' = lx_input t" "lx_cursor t + 2 \<le> lx_cursor t'"
        | m t' where "scanCommentBlock ?b = (Panic m, t')" "lx_input t' = lx_input t" "lx_cursor t + 2 \<le> lx_cursor t'"
        using block_comment [of ?b] by auto
      then show ?thesis
      proof cases
        case (1 t')
        have "tok (Suc 0) t (lex_loop n env t')" by (rule IH) (use 1 True in simp_all)
        with 1 show ?thesis by simp
      qed (simp_all add: tok_def fwd_def)
    qed
    show ?thesis
      using True scan block by (auto simp: Let_def scanComment_def intro!: IH)
  qed
qed simp

lemma lx_next_input: "lx_next env t = (r, t') \<Longrightarrow> lx_input t' = lx_input t"
  using lex_loop_tok [of t "lex_fuel t" env] by (simp add: lx_next_def lex_fuel_def tok_def fwd_def)

text \<open>
  C16: the lexer always ends and always moves on. Asking for the next token gives a token or
  panics, never an endless loop; the input stays, the cursor never moves back, and unless the
  token is the end or an error at least one rune has been passed. So a parser that stops at
  errors reads any text in finitely many tokens.
\<close>

theorem next_total:
  "\<exists>r t'. lx_next env t = (r, t') \<and> lx_input t' = lx_input t \<and> lx_cursor t \<le> lx_cursor t' \<and>
     (case r of
        Ok tk \<Rightarrow> tk \<in> {TkEof, TkError} \<or> lx_cursor t < lx_cursor t'
      | Panic _ \<Rightarrow> True
      | _ \<Rightarrow> False)"
proof -
  obtain r t' where r: "lx_next env t = (r, t')" by (cases "lx_next env t")
  moreover have "tok 1 t (r, t')"
    using lex_loop_tok [of t "lex_fuel t" env] r by (simp add: lx_next_def lex_fuel_def)
  ultimately show ?thesis by (cases r) (auto simp: tok_def fwd_def)
qed

section \<open>Operators and keywords\<close>

definition operator_tokens :: "token list" where
  "operator_tokens =
     [TkLPar, TkRPar, TkLSqr, TkRSqr, TkLBra, TkRBra, TkArrow, TkDot, TkAssign, TkColon, TkScope,
      TkSemicolon, TkQuest, TkAt, TkSharp, TkPipe, TkLExprBra, TkNot, TkAdd, TkSub, TkMul, TkDiv, TkMod, TkPow,
      TkAddAssign, TkSubAssign, TkMulAssign, TkDivAssign, TkModAssign, TkPowAssign, TkInc, TkDec,
      TkLt, TkLe, TkGt, TkGe, TkEq, TkNe]"

definition reads_itself :: "lexenv \<Rightarrow> token \<Rightarrow> bool" where
  "reads_itself env tk =
     (case lx_next env (newLexer (getTokenName tk)) of
        (Ok k, t) \<Rightarrow> k = tk \<and> lx_cursor t = length (getTokenName tk)
      | _ \<Rightarrow> False)"

lemma operators_read: "list_all (reads_itself env) operator_tokens"
  by code_simp

lemma keywords_read1: "list_all (reads_itself env) (map snd (take 7 lexerkeyword))"
  by code_simp

lemma keywords_read2: "list_all (reads_itself env) (map snd (take 7 (drop 7 lexerkeyword)))"
  by code_simp

lemma keywords_read3: "list_all (reads_itself env) (map snd (take 7 (drop 14 lexerkeyword)))"
  by code_simp

lemma keywords_read4: "list_all (reads_itself env) (map snd (drop 21 lexerkeyword))"
  by code_simp

text \<open>
  the names in messages are the tokens' spelling. Every keyword of the table, and every
  operator token, lexes from its name to itself and ends where the name ends: no longer or
  shorter operator, and no identifier, is taken instead.
\<close>

theorem token_names_lex:
  "\<forall>tk \<in> set operator_tokens \<union> set (map snd lexerkeyword).
     \<exists>t'. lx_next env (newLexer (getTokenName tk)) = (Ok tk, t') \<and> lx_cursor t' = length (getTokenName tk)"
proof -
  have split: "lexerkeyword = take 7 lexerkeyword @ take 7 (drop 7 lexerkeyword) @
      take 7 (drop 14 lexerkeyword) @ drop 21 lexerkeyword"
    by (simp add: lexerkeyword_def)
  have "list_all (reads_itself env) (operator_tokens @ map snd lexerkeyword)"
    using operators_read keywords_read1 keywords_read2 keywords_read3 keywords_read4
    by (subst split) simp
  then have r: "reads_itself env tk" if "tk \<in> set operator_tokens \<union> set (map snd lexerkeyword)" for tk
    using that by (auto simp: list_all_iff)
  show ?thesis
  proof
    fix tk
    assume "tk \<in> set operator_tokens \<union> set (map snd lexerkeyword)"
    from r [OF this] show "\<exists>t'. lx_next env (newLexer (getTokenName tk)) = (Ok tk, t') \<and> lx_cursor t' = length (getTokenName tk)"
      by (auto simp: reads_itself_def split: prod.splits res.splits)
  qed
qed

theorem token_names_lex_witness:
  "\<exists>t'. lx_next ascii_env (newLexer ''=>'') = (Ok TkArrow, t') \<and> lx_cursor t' = 2"
proof -
  have n: "getTokenName TkArrow = ''=>''" by code_simp
  have m: "TkArrow \<in> set operator_tokens" by (simp add: operator_tokens_def)
  show ?thesis
    using token_names_lex [of "ascii_env"] m n by (metis UnI1 length_Cons list.size(3) numeral_2_eq_2)
qed


section \<open>Literals\<close>

text \<open>How a rune is written in a single-quoted literal.\<close>

definition quote_rune :: "rune \<Rightarrow> rune list" where
  "quote_rune r =
     (if r = 92 \<or> r = 39 then [92, r] else if r = 10 then [92, 110] else if r = 9 then [92, 116] else [r])"

definition quoted :: "rune list \<Rightarrow> rune list" where
  "quoted rs = 39 # concat (map quote_rune rs) @ [39]"

lemma scan_str_quoted:
  "scan_str 39 (concat (map quote_rune rs) @ 39 # rest) buf n =
     StrDone (buf @ rs) (n + length (concat (map quote_rune rs)))"
  by (induction rs arbitrary: buf n)
    (auto simp: quote_rune_def str_escape_def rune_of_def)

lemma lx_next_token:
  assumes "lx_cursor t < length (lx_input t)" and "lx_input t ! lx_cursor t = c"
    and "c \<notin> set [32, 9, 13, 10, 11]" and "c \<noteq> 47"
  shows "\<exists>nxt. lx_next env t = mbind (scan_token env nxt c t) (\<lambda>tk t'. (Ok tk, saveDCursor (lx_cursor t) t'))"
  using assms by (auto simp: lx_next_def lex_fuel_def Let_def intro!: exI [of _ "lex_loop (length (lx_input t) - lx_cursor t) env"])

text \<open>
  C14: string literals are read back. The single-quoted form of any text, with the escapes of the
  language, lexes to one string token whose lexeme is the text, whatever stands in front of it
  and behind it, and the cursor ends behind the closing quote.
\<close>

theorem string_literal_roundtrip:
  assumes "lx_input t = pre @ quoted rs @ rest" and "lx_cursor t = length pre"
  shows "\<exists>t'. lx_next env t = (Ok TkStr, t') \<and> valueText t' = utf8_encode rs \<and>
    lx_cursor t' = length pre + length (quoted rs)"
proof -
  have c: "lx_cursor t < length (lx_input t)" "lx_input t ! lx_cursor t = 39"
    using assms by (simp_all add: quoted_def nth_append)
  obtain nxt where nxt: "lx_next env t = mbind (scan_token env nxt 39 t) (\<lambda>tk t'. (Ok tk, saveDCursor (lx_cursor t) t'))"
    using lx_next_token [OF c] by auto
  have "scan_token env nxt 39 t = scanStr t"
    by (simp add: scan_token_def rune_of_def ascii_digit_def)
  moreover have "drop (Suc (length pre)) (lx_input t) = concat (map quote_rune rs) @ 39 # rest"
    using assms(1) by (simp add: quoted_def)
  ultimately show ?thesis
    using c assms(2) nxt by (simp add: scanStr_def cur_def Let_def scan_str_quoted quoted_def saveDCursor_def)
qed

theorem string_literal_roundtrip_witness:
  "\<exists>t'. lx_next ascii_env (newLexer ''x='' \<lparr>lx_input := [120, 61] @ quoted [105, 116, 39, 115, 10] @ [59], lx_cursor := 2\<rparr>)
     = (Ok TkStr, t') \<and> valueText t' = ''it'' @ [CHR 0x27] @ ''s'' @ [CHR 0x0A] \<and> lx_cursor t' = 2 + length (quoted [105, 116, 39, 115, 10])"
proof -
  let ?t = "newLexer ''x='' \<lparr>lx_input := [120, 61] @ quoted [105, 116, 39, 115, 10] @ [59], lx_cursor := 2\<rparr>"
  have u: "utf8_encode [105, 116, 39, 115, 10] = ''it'' @ [CHR 0x27] @ ''s'' @ [CHR 0x0A]" by code_simp
  have "\<exists>t'. lx_next ascii_env ?t = (Ok TkStr, t') \<and> valueText t' = utf8_encode [105, 116, 39, 115, 10] \<and>
      lx_cursor t' = length [120, 61 :: nat] + length (quoted [105, 116, 39, 115, 10])"
    by (rule string_literal_roundtrip) simp_all
  then show ?thesis unfolding u by simp
qed


lemma nat_digits_ascii: "list_all ascii_digit (runes (nat_digits n))"
proof (induction n rule: nat_digits.induct)
  case (1 n)
  then show ?case
    by (subst nat_digits.simps) (auto simp: runes_def ascii_digit_def [abs_def])
qed

lemma nat_digits_not_Nil: "nat_digits n \<noteq> []"
  by (subst nat_digits.simps) simp

lemma dec_value_append: "dec_value (xs @ ys) = foldl (\<lambda>a r. a * 10 + (r - 48)) (dec_value xs) ys"
  by (simp add: dec_value_def)

lemma dec_value_digits: "dec_value (runes (nat_digits n)) = n"
proof (induction n rule: nat_digits.induct)
  case (1 n)
  show ?case
  proof (cases "n < 10")
    case True
    then show ?thesis by (subst nat_digits.simps) (simp add: dec_value_def runes_def)
  next
    case False
    have "dec_value (runes (nat_digits (n div 10)) @ runes [char_of (48 + n mod 10)]) = n div 10 * 10 + n mod 10"
      using "1.IH" [OF False] by (simp add: dec_value_append runes_def)
    with False show ?thesis by (subst nat_digits.simps) (simp add: runes_def)
  qed
qed

text \<open>A rune that ends a number.\<close>

definition ends_number :: "lexenv \<Rightarrow> rune list \<Rightarrow> bool" where
  "ends_number env rest \<longleftrightarrow> rest = [] \<or> (\<not> IsDigit env (hd rest) \<and> hd rest \<notin> {46, 101, 69})"

lemma scan_num_digits:
  "list_all ascii_digit ds \<Longrightarrow> ends_number env rest \<Longrightarrow>
   scan_num env (ds @ rest) buf False False n = NumDone (buf @ ds) False False (n + length ds)"
proof (induction ds arbitrary: buf n)
  case Nil
  then show ?case by (cases rest) (auto simp: ends_number_def)
next
  case (Cons d ds)
  then have "IsDigit env d" by (simp add: IsDigit_def ascii_digit_def)
  with Cons show ?case by simp
qed

lemma lex_int_literal:
  assumes "lx_input t = pre @ runes (nat_digits n) @ rest" and "lx_cursor t = length pre"
    and "ends_number env rest"
  shows "\<exists>r t'. lx_next env t = (r, t') \<and>
    (if n < 2 ^ 63
     then r = Ok TkInt \<and> sint (valueInt t') = int n \<and> lx_cursor t' = length pre + length (nat_digits n) \<and>
       lx_token t' = TkInt
     else r = Ok TkError \<or> (\<exists>m. r = Panic m))"
proof -
  let ?ds = "runes (nat_digits n)"
  obtain d ds where d: "?ds = d # ds" using nat_digits_not_Nil [of n] by (cases "nat_digits n") (auto simp: runes_def)
  have a: "list_all ascii_digit ?ds" by (rule nat_digits_ascii)
  have da: "ascii_digit d" using a d by simp
  have c: "lx_cursor t < length (lx_input t)" "lx_input t ! lx_cursor t = d"
    using assms(1,2) d by (simp_all add: nth_append)
  have dn: "d \<notin> set [32, 9, 13, 10, 11]" "d \<noteq> 47" "d \<noteq> 45" using da by (auto simp: ascii_digit_def)
  obtain nxt where nxt: "lx_next env t = mbind (scan_token env nxt d t) (\<lambda>tk t'. (Ok tk, saveDCursor (lx_cursor t) t'))"
    using lx_next_token [OF c dn(1,2)] by blast
  have st: "scan_token env nxt d t = scanNum env t"
    using da by (auto simp: scan_token_def rune_of_def ascii_digit_def)
  have dr: "drop (lx_cursor t) (lx_input t) = ?ds @ rest" using assms(1,2) by simp
  have len: "length ?ds = length (nat_digits n)" by (simp add: runes_def)
  have num: "scanNum env t = (let t = advance (length ?ds) t in
      lx_lift (ParseInt ?ds) t (\<lambda>v t. (Ok TkInt, t\<lparr>valueInt := v, lx_token := TkInt\<rparr>)))"
    using c dn(3) dr scan_num_digits [OF a assms(3), of "[]" 0]
    by (simp add: scanNum_def cur_def Let_def)
  have p: "ParseInt ?ds = (if n < 2 ^ 63 then Ok (word_of_int (int n))
      else Err (num_error ''ParseInt'' ?ds ''value out of range''))"
    using a d dn(3) dec_value_digits [of n] by (auto simp: ParseInt_def Let_def)
  show ?thesis
  proof (cases "n < 2 ^ 63")
    case True
    then have "sint (word_of_int (int n) :: int64) = int n" by (intro sint_word_of_int_small) auto
    with True p num st nxt assms(2) len show ?thesis
      by (simp add: lx_lift_def Let_def)
  next
    case False
    then have "scanNum env t = lx_err (num_error ''ParseInt'' ?ds ''value out of range'') (advance (length ?ds) t)"
      using p num by (simp add: lx_lift_def Let_def)
    with False nxt st show ?thesis
      using position_cases [of "advance (length ?ds) t"] by (auto simp: lx_err_def)
  qed
qed

text \<open>
  C15: integer literals are read back, and only those that fit. The decimal form of a natural
  number, followed by anything that cannot continue a number, lexes to one integer token with
  exactly that value when it is below 2^63; a larger one is an error (or the panic of making
  its message), never a wrapped value.
\<close>

theorem int_literal_roundtrip:
  assumes "lx_input t = pre @ runes (nat_digits n) @ rest" and "lx_cursor t = length pre"
    and "ends_number env rest"
  shows "\<exists>r t'. lx_next env t = (r, t') \<and>
    (if n < 2 ^ 63
     then r = Ok TkInt \<and> sint (valueInt t') = int n \<and> lx_cursor t' = length pre + length (nat_digits n)
     else r = Ok TkError \<or> (\<exists>m. r = Panic m))"
  using lex_int_literal [OF assms] by (auto split: if_splits)

theorem int_literal_roundtrip_witness:
  "\<exists>t'. lx_next ascii_env (newLexer ''123;'') = (Ok TkInt, t') \<and> sint (valueInt t') = 123"
proof -
  have d: "nat_digits 123 = ''123''" by code_simp
  have i: "lx_input (newLexer ''123;'') = [] @ runes (nat_digits 123) @ [59]"
    unfolding d by code_simp
  have "ends_number ascii_env [59]" by (simp add: ends_number_def IsDigit_def)
  from int_literal_roundtrip [OF i _ this] show ?thesis by (auto simp: newLexer_def)
qed


section \<open>Reporting an error can panic\<close>

lemma find_lb_None: "10 \<notin> set rs \<Longrightarrow> find_lb rs i = None"
  by (induction rs arbitrary: i) auto

text \<open>
  reporting a lexical or syntax error panics on long lines. When no line break follows the
  start of the last recorded token and more than 64 runes of text follow the cursor, or when the
  text is empty, the slices around the place do not fit and the message is never made: the
  lexer panics instead of returning an error token.
\<close>

theorem error_report_panics:
  assumes "lx_input t = [] \<or>
    (10 \<notin> set (drop (nat (dq_back (lx_dq t) 0)) (lx_input t)) \<and> lx_cursor t + 64 < length (lx_input t))"
  shows "lx_err msg t = (Panic ''slice bounds out of range'', t)"
proof -
  obtain l c where pos: "lx_pos t = (l, c)" by (cases "lx_pos t")
  let ?t1 = "nat (dq_back (lx_dq t) 0)"
  have t1: "(if dq_back (lx_dq t) 0 = - 1 then 0 else ?t1) = ?t1" by simp
  have lb: "nextLineBreak t ?t1 = int (length (lx_input t)) - 1"
    using assms by (auto simp: nextLineBreak_def find_lb_None)
  have "position t = Panic ''slice bounds out of range''"
    using assms unfolding position_def pos Let_def prod.case t1 lb
    by (auto simp: rune_slice_def)
  then show ?thesis by (simp add: lx_err_def)
qed

theorem error_report_panics_witness:
  "fst (lx_next ascii_env (newLexer (CHR 0x26 # replicate 70 (CHR ''a'')))) = Panic ''slice bounds out of range''"
proof -
  let ?t = "newLexer (CHR 0x26 # replicate 70 (CHR ''a''))"
  have i: "lx_input ?t = 38 # replicate 70 97"
    by (simp add: newLexer_def utf8_decode_ascii runes_def list_all_iff)
  have z: "lx_cursor ?t = 0" "dq_back (lx_dq ?t) 0 = - 1"
    by (simp_all add: newLexer_def dq_back_def backIndex_def dq_empty_def Let_def)
  have "lx_err msg ?t = (Panic ''slice bounds out of range'', ?t)" for msg
    by (rule error_report_panics) (simp add: i z)
  moreover have c: "lx_cursor ?t < length (lx_input ?t)" "lx_input ?t ! lx_cursor ?t = 38"
    by (simp_all add: i z)
  moreover obtain nxt where
    "lx_next ascii_env ?t = mbind (scan_token ascii_env nxt 38 ?t) (\<lambda>tk t'. (Ok tk, saveDCursor (lx_cursor ?t) t'))"
    using lx_next_token [OF c] by auto
  moreover have "scan_token ascii_env nxt 38 ?t = lx_pp TkAnd 38 ?t" for nxt
    by (simp add: scan_token_def rune_of_def)
  moreover have "lx_peek ?t 1 = Some 97"
    by (simp add: lx_peek_def i z)
  ultimately show ?thesis by (simp add: lx_pp_def)
qed

end
