(* ===== verification/TokenStream.thy ===== *)
theory TokenStream
  imports LexerProps
begin

text \<open>
  Texts of separated tokens: numbers, names, keywords and operators, each followed by a space.
  The lexer reads such a text back token by token, whatever stands around it.
\<close>

datatype ptok = PNum nat | PName string | PTok token

fun ptk :: "ptok \<Rightarrow> token" where
  "ptk (PNum n) = TkInt"
| "ptk (PName x) = TkId"
| "ptk (PTok t) = t"

text \<open>The four operators \<open>getTokenName\<close> does not know, and the others by their names.\<close>

definition spelling :: "token \<Rightarrow> string" where
  "spelling t =
     (if t = TkRegexpMatch then ''~'' else if t = TkRegexpNMatch then ''!~''
      else if t = TkAnd then ''&&'' else if t = TkOr then ''||'' else getTokenName t)"

fun ptext :: "ptok \<Rightarrow> string" where
  "ptext (PNum n) = nat_digits n"
| "ptext (PName x) = x"
| "ptext (PTok t) = spelling t"

text \<open>What the lexer leaves beside the token.\<close>

fun pval :: "ptok \<Rightarrow> lexer \<Rightarrow> bool" where
  "pval (PNum n) l \<longleftrightarrow> sint (valueInt l) = int n"
| "pval (PName x) l \<longleftrightarrow> valueText l = x"
| "pval (PTok t) l \<longleftrightarrow> True"

definition ident_char :: "char \<Rightarrow> bool" where
  "ident_char c = (let n = of_char c :: nat in
     (65 \<le> n \<and> n \<le> 90) \<or> (97 \<le> n \<and> n \<le> 122) \<or> n = 95 \<or> (48 \<le> n \<and> n \<le> 57))"

definition ident_start :: "char \<Rightarrow> bool" where
  "ident_start c = (ident_char c \<and> \<not> (48 \<le> (of_char c :: nat) \<and> (of_char c :: nat) \<le> 57))"

definition is_word :: "string \<Rightarrow> bool" where
  "is_word w = (w \<noteq> [] \<and> ident_start (hd w) \<and> list_all ident_char w)"

definition sym_tokens :: "token list" where
  "sym_tokens =
     [TkLPar, TkRPar, TkLSqr, TkRSqr, TkLBra, TkRBra, TkSemicolon, TkAssign, TkNot, TkAdd, TkSub, TkMul,
      TkMod, TkPow, TkLt, TkLe, TkGt, TkGe, TkEq, TkNe, TkRegexpMatch, TkRegexpNMatch, TkAnd, TkOr]"

definition word_tokens :: "token list" where
  "word_tokens = [TkTrue, TkFalse, TkNull, TkIf, TkElse, TkFor, TkLet, TkReturn]"

fun ptok_ok :: "ptok \<Rightarrow> bool" where
  "ptok_ok (PNum n) = (n < 2 ^ 63)"
| "ptok_ok (PName x) = (is_word x \<and> map_of lexerkeyword x = None)"
| "ptok_ok (PTok t) = (t = TkDiv \<or> t \<in> set sym_tokens \<or> t \<in> set word_tokens)"

section \<open>One token\<close>

text \<open>The lexer stands in front of some text.\<close>

definition before :: "lexer \<Rightarrow> rune list \<Rightarrow> bool" where
  "before l rs \<longleftrightarrow> (\<exists>pre. lx_input l = pre @ rs \<and> lx_cursor l = length pre)"

lemma before_nth:
  "before l rs \<Longrightarrow> k < length rs \<Longrightarrow> lx_cursor l + k < length (lx_input l) \<and> lx_input l ! (lx_cursor l + k) = rs ! k"
  by (auto simp: before_def nth_append)

lemma before_peek: "before l rs \<Longrightarrow> k < length rs \<Longrightarrow> lx_peek l k = Some (rs ! k)"
  using before_nth [of l rs k] by (simp add: lx_peek_def)

lemma before_drop: "before l rs \<Longrightarrow> drop (lx_cursor l) (lx_input l) = rs"
  by (auto simp: before_def)

lemma before_moved:
  "before l (rs @ rest) \<Longrightarrow> lx_input l' = lx_input l \<Longrightarrow> lx_cursor l' = lx_cursor l + length rs \<Longrightarrow> before l' rest"
  by (auto simp: before_def intro!: exI [of _ "take (lx_cursor l + length rs) (lx_input l)"])

lemma before_first:
  "before l (r # rs) \<Longrightarrow> lx_cursor l < length (lx_input l) \<and> lx_input l ! lx_cursor l = r"
  using before_nth [of l "r # rs" 0] by simp

text \<open>White space is skipped.\<close>

lemma lx_next_space:
  assumes "before l (32 # rs)"
  shows "lx_next env l = lx_next env (advance 1 l)" and "before (advance 1 l) rs"
proof -
  have c: "lx_cursor l < length (lx_input l)" "lx_input l ! lx_cursor l = 32"
    using before_first [OF assms] by simp_all
  then have "lex_fuel l = Suc (lex_fuel (advance 1 l))" by (simp add: lex_fuel_def)
  with c show "lx_next env l = lx_next env (advance 1 l)" by (simp add: lx_next_def)
  show "before (advance 1 l) rs" using before_moved [of l "[32]" rs "advance 1 l"] assms by simp
qed

text \<open>What reading one token establishes.\<close>

definition reads :: "lexenv \<Rightarrow> lexer \<Rightarrow> ptok \<Rightarrow> rune list \<Rightarrow> bool" where
  "reads env l x rest \<longleftrightarrow>
     (\<exists>m. lx_next env l = (Ok (ptk x), m) \<and> lx_token m = ptk x \<and> pval x m \<and> before m rest)"

lemma readsI:
  assumes "before l (runes w @ rest)" and "lx_next env l = (Ok (ptk x), m)" and "lx_token m = ptk x"
    and "pval x m" and "lx_cursor m = lx_cursor l + length w"
  shows "reads env l x rest"
  using assms lx_next_input [OF assms(2)] before_moved [OF assms(1), of m] by (auto simp: reads_def runes_def)

lemma reads_int:
  assumes "before l (runes (nat_digits n) @ 32 # rest)" and "n < 2 ^ 63"
  shows "reads env l (PNum n) (32 # rest)"
proof -
  from assms(1) obtain pre where p: "lx_input l = pre @ runes (nat_digits n) @ 32 # rest" "lx_cursor l = length pre"
    by (auto simp: before_def)
  have "ends_number env (32 # rest)" by (simp add: ends_number_def IsDigit_def)
  from lex_int_literal [OF p this] assms(2) obtain m where m: "lx_next env l = (Ok TkInt, m)"
    "sint (valueInt m) = int n" "lx_cursor m = length pre + length (nat_digits n)" "lx_token m = TkInt"
    by auto
  then show ?thesis by (intro readsI [OF assms(1), where m = m]) (simp_all add: p)
qed

lemma yield_reads:
  assumes "before l (runes w @ rest)" and "lx_next env l = mbind (lx_yield t (length w) l) (\<lambda>tk t'. (Ok tk, saveDCursor c t'))"
  shows "reads env l (PTok t) rest"
  by (rule readsI [OF assms(1)]) (simp add: assms(2) lx_yield_def, simp_all)

section \<open>Operators\<close>

text \<open>The operators that are not one rune to divide, as the switch of \<open>next\<close> reads them.\<close>

lemma sym_scan:
  assumes "t \<in> set sym_tokens" and "before l (runes (spelling t) @ 32 # rest)"
  shows "scan_token env nxt (lx_input l ! lx_cursor l) l = lx_yield t (length (spelling t)) l"
proof -
  define w where "w = runes (spelling t) @ 32 # rest"
  have b: "before l w" using assms(2) by (simp add: w_def)
  have l: "2 \<le> length w" and z: "w ! 0 \<noteq> 47"
    using assms(1) by (auto simp: w_def sym_tokens_def spelling_def getTokenName_def token_names_def numeral_2_eq_2 runes_def)
  have p0: "lx_input l ! lx_cursor l = w ! 0" using before_nth [OF b, of 0] l by (cases w) auto
  have p1: "lx_peek l 1 = Some (w ! 1)" using before_peek [OF b, of 1] l by simp
  have p2: "2 < length w \<Longrightarrow> lx_peek l 2 = Some (w ! 2)" by (rule before_peek [OF b])
  from assms(1) show ?thesis
    unfolding p0 sym_tokens_def
    by (simp only: list.set insert_iff empty_iff simp_thms)
      (elim disjE; insert p1 p2; simp add: w_def spelling_def getTokenName_def token_names_def numeral_2_eq_2 runes_def scan_token_def
        rune_of_def ascii_digit_def lx_pp2_def lx_p2_def lx_pp_def)
qed

lemma sym_start:
  "t \<in> set sym_tokens \<Longrightarrow> \<exists>c cs. runes (spelling t) = c # cs \<and> c \<notin> set [32, 9, 13, 10, 11, 47]"
  by (auto simp: sym_tokens_def spelling_def getTokenName_def token_names_def numeral_2_eq_2 runes_def)

lemma reads_sym:
  assumes "t \<in> set sym_tokens" and b: "before l (runes (spelling t) @ 32 # rest)"
  shows "reads env l (PTok t) (32 # rest)"
proof -
  obtain c cs where c: "runes (spelling t) = c # cs" "c \<notin> set [32, 9, 13, 10, 11, 47]"
    using sym_start [OF assms(1)] by blast
  have f: "lx_cursor l < length (lx_input l)" "lx_input l ! lx_cursor l = c"
    using before_first [of l c] b c(1) by auto
  obtain nxt where n: "lx_next env l = mbind (scan_token env nxt c l) (\<lambda>tk t'. (Ok tk, saveDCursor (lx_cursor l) t'))"
    using lx_next_token [OF f, of env] c(2) by auto
  show ?thesis
    using sym_scan [OF assms, of env nxt] f(2) n by (intro yield_reads [OF b]) simp
qed

lemma reads_div:
  assumes b: "before l (runes (spelling TkDiv) @ 32 # rest)"
  shows "reads env l (PTok TkDiv) (32 # rest)"
proof -
  have d: "spelling TkDiv = ''/''" by code_simp
  have b': "before l (47 # 32 # rest)" using b by (simp add: d runes_def)
  have f: "lx_cursor l < length (lx_input l)" "lx_input l ! lx_cursor l = 47" "lx_peek l (Suc 0) = Some 32"
    using before_first [OF b'] before_peek [OF b', of 1] by simp_all
  have "lx_next env l = mbind (lx_yield TkDiv (length (spelling TkDiv)) l) (\<lambda>tk t'. (Ok tk, saveDCursor (lx_cursor l) t'))"
    using f by (simp add: lx_next_def lex_fuel_def Let_def d scan_token_def rune_of_def)
  then show ?thesis by (rule yield_reads [OF b])
qed

section \<open>Names and keywords\<close>

lemma ident_len_word: "list_all ident_char w \<Longrightarrow> ident_len env (runes w @ 32 # rest) = length w"
proof (induction w)
  case Nil
  then show ?case by (simp add: runes_def IsLetter_def IsDigit_def)
next
  case (Cons c w)
  then show ?case by (auto simp: runes_def ident_char_def Let_def IsLetter_def IsDigit_def)
qed

lemma ident_char_ascii: "ident_char c \<Longrightarrow> (of_char c :: nat) < 128"
  by (auto simp: ident_char_def Let_def)

lemma utf8_encode_word: "list_all ident_char w \<Longrightarrow> utf8_encode (runes w) = w"
proof (induction w)
  case Nil
  then show ?case by (simp add: utf8_encode_def runes_def)
next
  case (Cons c w)
  then have "utf8_rune (of_char c) = [c]"
    using ident_char_ascii [of c] by (simp add: utf8_rune_code byte_def)
  with Cons show ?case by (simp add: utf8_encode_Cons runes_def)
qed

lemma lex_word:
  assumes w: "is_word w" and b: "before l (runes w @ 32 # rest)"
    and k: "case map_of lexerkeyword w of None \<Rightarrow> True | Some k \<Rightarrow> k \<notin> {TkSession, TkGlobal, TkDynamic, TkExtern}"
  shows "\<exists>m. lx_next env l = (Ok (case map_of lexerkeyword w of None \<Rightarrow> TkId | Some k \<Rightarrow> k), m) \<and>
    lx_token m = (case map_of lexerkeyword w of None \<Rightarrow> TkId | Some k \<Rightarrow> k) \<and>
    (map_of lexerkeyword w = None \<longrightarrow> valueText m = w) \<and> lx_cursor m = lx_cursor l + length w"
proof -
  obtain c cs where c: "w = c # cs" "ident_start c" "list_all ident_char w"
    using w by (cases w) (auto simp: is_word_def)
  let ?r = "of_char c :: rune"
  have f: "lx_cursor l < length (lx_input l)" "lx_input l ! lx_cursor l = ?r"
    using before_first [of l ?r] b c(1) by (auto simp: runes_def)
  have r: "(65 \<le> ?r \<and> ?r \<le> 90) \<or> (97 \<le> ?r \<and> ?r \<le> 122) \<or> ?r = 95"
    using c(2) by (auto simp: ident_start_def ident_char_def Let_def)
  obtain nxt where nx: "lx_next env l = mbind (scan_token env nxt ?r l) (\<lambda>tk t'. (Ok tk, saveDCursor (lx_cursor l) t'))"
    using lx_next_token [OF f, of env] r by auto
  have st: "scan_token env nxt ?r l = scanIdOrKeywordOrPrefixString env nxt ?r l"
  proof -
    have "?r \<notin> set [43, 45, 42, 47, 37, 61, 96, 38, 124, 33, 126, 62, 60, 40, 41, 91, 93, 123, 125, 46, 44, 36, 63, 64, 35, 59, 58, 34, 39]"
      using r by auto
    moreover have "\<not> ascii_digit ?r" using r by (auto simp: ascii_digit_def)
    ultimately show ?thesis by (simp add: scan_token_def rune_of_def)
  qed
  have l: "(\<not> IsLetter env ?r \<and> ?r \<noteq> 95) = False" using r by (auto simp: IsLetter_def)
  have "lx_cursor l + 1 < length (lx_input l) \<and> lx_input l ! (lx_cursor l + 1) \<notin> {39, 34}"
    using before_nth [OF b, of 1] c(1,3) by (cases cs) (auto simp: runes_def ident_char_def Let_def)
  then have tp: "tryPrefixString ?r l = (Ok None, l)"
    by (auto simp: tryPrefixString_def Let_def)
  define n where "n = length w"
  have d: "ident_len env (drop (lx_cursor l) (lx_input l)) = n"
    "utf8_encode (take n (drop (lx_cursor l) (lx_input l))) = w"
    using ident_len_word [OF c(3)] utf8_encode_word [OF c(3)]
    by (simp_all add: before_drop [OF b] n_def runes_def)
  show ?thesis
  proof (cases "map_of lexerkeyword w")
    case None
    then show ?thesis
      unfolding nx st scanIdOrKeywordOrPrefixString_def tp mbind.simps option.case l if_False d Let_def
      by (simp add: n_def)
  next
    case (Some k)
    with assms(3) show ?thesis
      unfolding nx st scanIdOrKeywordOrPrefixString_def tp mbind.simps option.case l if_False d Let_def
      by (simp add: n_def tryQualifyId_def)
  qed
qed

lemma reads_name:
  assumes "is_word x" and "map_of lexerkeyword x = None" and b: "before l (runes x @ 32 # rest)"
  shows "reads env l (PName x) (32 # rest)"
  using lex_word [OF assms(1) b, of env] assms(2) by (auto intro!: readsI [OF b])

lemma word_spelling:
  "t \<in> set word_tokens \<Longrightarrow> is_word (spelling t) \<and> map_of lexerkeyword (spelling t) = Some t \<and>
     t \<notin> {TkSession, TkGlobal, TkDynamic, TkExtern}"
proof -
  have "list_all (\<lambda>t. is_word (spelling t) \<and> map_of lexerkeyword (spelling t) = Some t \<and>
      t \<notin> set [TkSession, TkGlobal, TkDynamic, TkExtern]) word_tokens"
    by code_simp
  then show "t \<in> set word_tokens \<Longrightarrow> ?thesis" by (auto simp: list_all_iff)
qed

lemma reads_word:
  assumes "t \<in> set word_tokens" and b: "before l (runes (spelling t) @ 32 # rest)"
  shows "reads env l (PTok t) (32 # rest)"
proof -
  note s = word_spelling [OF assms(1)]
  obtain m where "lx_next env l = (Ok t, m)" "lx_token m = t" "lx_cursor m = lx_cursor l + length (spelling t)"
    using lex_word [OF _ b, of env] s by auto
  then show ?thesis by (intro readsI [OF b, where m = m]) simp_all
qed

lemma reads_ptok:
  assumes "ptok_ok x" and "before l (runes (ptext x) @ 32 # rest)"
  shows "reads env l x (32 # rest)"
proof (cases x)
  case (PTok t)
  with assms show ?thesis using reads_div [of l rest env] by (auto intro: reads_sym reads_word)
qed (use assms in \<open>auto intro: reads_int reads_name\<close>)

section \<open>Runs of tokens\<close>

fun avail :: "lexenv \<Rightarrow> lexer \<Rightarrow> ptok list \<Rightarrow> bool" where
  "avail env l [] \<longleftrightarrow> True"
| "avail env l (x # xs) \<longleftrightarrow>
     (\<exists>m. lx_next env l = (Ok (ptk x), m) \<and> lx_token m = ptk x \<and> pval x m \<and> avail env m xs)"

definition spaced :: "ptok list \<Rightarrow> string" where
  "spaced xs = concat (map (\<lambda>x. ptext x @ '' '') xs)"

text \<open>A text of separated tokens is read as those tokens, and then what follows it.\<close>

lemma avail_spaced_then:
  assumes "\<And>m. before m rest \<or> before m (32 # rest) \<Longrightarrow> avail env m ys"
  shows "list_all ptok_ok xs \<Longrightarrow> before l (runes (spaced xs) @ rest) \<or> before l (32 # runes (spaced xs) @ rest) \<Longrightarrow>
    avail env l (xs @ ys)"
proof (induction xs arbitrary: l)
  case Nil
  then show ?case using assms by (simp add: spaced_def runes_def)
next
  case (Cons x xs)
  have sp: "runes (spaced (x # xs)) @ rest = runes (ptext x) @ 32 # runes (spaced xs) @ rest"
    by (simp add: spaced_def runes_def)
  have "reads env l x (32 # runes (spaced xs) @ rest)"
  proof (cases "before l (runes (spaced (x # xs)) @ rest)")
    case True
    with Cons.prems sp show ?thesis by (intro reads_ptok) simp_all
  next
    case False
    with Cons.prems have b: "before l (32 # runes (spaced (x # xs)) @ rest)" by blast
    have "reads env (advance 1 l) x (32 # runes (spaced xs) @ rest)"
      using lx_next_space(2) [OF b] Cons.prems sp by (intro reads_ptok) simp_all
    then show ?thesis using lx_next_space(1) [OF b, of env] by (simp add: reads_def)
  qed
  then obtain m where "lx_next env l = (Ok (ptk x), m)" "lx_token m = ptk x" "pval x m"
    "before m (32 # runes (spaced xs) @ rest)" by (auto simp: reads_def)
  with Cons.IH [of m] Cons.prems show ?case by auto
qed

lemma reads_eof:
  assumes "before m [] \<or> before m [32]"
  shows "avail env m [PTok TkEof]"
proof -
  have e: "avail env l [PTok TkEof]" if "before l []" for l
  proof -
    have "lx_cursor l = length (lx_input l)" using that by (auto simp: before_def)
    then show ?thesis by (simp add: lx_next_def lex_fuel_def lx_yield_def)
  qed
  from assms show ?thesis
  proof
    assume b: "before m [32]"
    with e [OF lx_next_space(2) [OF b]] lx_next_space(1) [OF b, of env] show ?thesis by simp
  qed (rule e)
qed

lemma ptext_ascii: "ptok_ok x \<Longrightarrow> list_all (\<lambda>c. (of_char c :: nat) < 128) (ptext x)"
proof (cases x)
  case (PNum n)
  then show ?thesis using nat_digits_ascii [of n]
    by (auto simp: list_all_iff runes_def ascii_digit_def)
next
  case (PName w)
  assume "ptok_ok x"
  then show ?thesis using ident_char_ascii by (auto simp: PName is_word_def list_all_iff)
next
  case (PTok t)
  assume "ptok_ok x"
  moreover have "list_all (\<lambda>t. list_all (\<lambda>c. (of_char c :: nat) < 128) (spelling t)) (TkDiv # sym_tokens @ word_tokens)"
    by code_simp
  ultimately show ?thesis by (auto simp: PTok list_all_iff)
qed

text \<open>A whole text: its tokens and the end.\<close>

lemma avail_text:
  assumes "list_all ptok_ok xs"
  shows "avail env (newLexer (spaced xs)) (xs @ [PTok TkEof])"
proof (rule avail_spaced_then [OF reads_eof assms])
  have "list_all (\<lambda>c. (of_char c :: nat) < 128) (spaced xs)"
    using assms ptext_ascii by (fastforce simp: list_all_iff spaced_def)
  then have "utf8_decode (spaced xs) = runes (spaced xs)"
    by (simp add: utf8_decode_ascii runes_def list_all_iff)
  then show "before (newLexer (spaced xs)) (runes (spaced xs) @ []) \<or> before (newLexer (spaced xs)) (32 # runes (spaced xs) @ [])"
    by (simp add: before_def newLexer_def)
qed (simp_all)

end
