(* ===== verification/ParserProps.thy ===== *)
theory ParserProps
  imports ParserFuel TokenStream
begin

text \<open>
  Properties of the whole compiler, from a text to a module.
\<close>

section \<open>The fuel\<close>

lemma parse_le: "n \<le> n' \<Longrightarrow> le (parse n env) (parse n' env)"
proof -
  assume n: "n \<le> n'"
  then have "more_fuel n n' (tied n env) (tied n' env)"
    by (simp add: more_fuel_def tied_le)
  then have "le (parseEntry n env (tied n env)) (parseEntry n' env (tied n' env))"
    by (rule more_fuel.entry_le)
  then show ?thesis
    unfolding parse_def [abs_def] by (intro le_intros)
qed

text \<open>Texts of witnesses are ASCII, and nothing is read from files.\<close>

definition closed_env :: penv where
  "closed_env =
     \<lparr>pe_lex = ascii_env, pe_readFile = (\<lambda>_. Err ''no file''), pe_LoadFile = (\<lambda>_. Err ''no file''),
      pe_regexp = (\<lambda>_. None), pe_template = (\<lambda>_. None), pe_intrinsics = []\<rparr>"

text \<open>
  The compiler's recursion depth and loop bounds, which the model limits by fuel, only decide
  whether it reaches a result: once compilation of a text ends, with a module, an error or a
  panic, any larger amount of fuel gives exactly the same.
\<close>
theorem compile_fuel_irrelevant:
  assumes "CompileModule n env src \<noteq> Diverge" and "n \<le> n'"
  shows "CompileModule n' env src = CompileModule n env src"
proof -
  have "fst (parse n env (newParser src)) \<noteq> Diverge"
    using assms(1) by (auto simp: CompileModule_def split: prod.splits)
  moreover have "fle (parse n env (newParser src)) (parse n' env (newParser src))"
    using parse_le [OF assms(2)] by (rule leD)
  ultimately show ?thesis by (simp add: fle_def CompileModule_def)
qed

lemma rule_compiles: "CompileModule 8 closed_env ''r{}'' \<noteq> Diverge"
  by code_simp

theorem compile_fuel_irrelevant_witness:
  "CompileModule 30 closed_env ''r{}'' = CompileModule 8 closed_env ''r{}''"
  by (rule compile_fuel_irrelevant [OF rule_compiles]) simp

end
