(* ===== verification/ScopeProps.thy ===== *)
theory ScopeProps
  imports ParserExpr
begin

text \<open>
  The compiler's lexical scopes as what they stand for: the list of a function's live local
  variables, each with the slot of the frame it keeps until its scope is left.
\<close>

section \<open>Live variables\<close>

text \<open>Where the frame keeps a variable: they lie in the order of their declarations.\<close>

fun slot_of :: "string list \<Rightarrow> string \<Rightarrow> nat option" where
  "slot_of [] x = None"
| "slot_of (y # ns) x = (if y = x then Some (length ns) else slot_of ns x)"

lemma slot_of_Some: "x \<in> set ns \<longleftrightarrow> (\<exists>i. slot_of ns x = Some i)"
  by (induction ns) auto


fun live :: "scopes \<Rightarrow> string list" where
  "live [] = []"
| "live (s # p) = rev (map sy_name (sc_tbl s)) @ (if sc_isTop s then [] else live p)"

fun tidy :: "scopes \<Rightarrow> bool" where
  "tidy [] = True"
| "tidy (s # p) =
     (distinct (map sy_name (sc_tbl s)) \<and> tidy p \<and>
      (if sc_isTop s then sc_offset s = 0 else p \<noteq> [] \<and> sc_offset s = length (live p)))"

text \<open>
  The number of variables counted for the function under construction; what its frame has room for
  follows from it when the function is finished (\<open>finish_locals\<close>).
\<close>

definition slots :: "scopes \<Rightarrow> nat" where
  "slots ss = (case prevTop ss of [] \<Rightarrow> 0 | t # p \<Rightarrow> sc_maxLocal t)"

text \<open>Every function under construction has counted its variables.\<close>

fun roomy :: "scopes \<Rightarrow> bool" where
  "roomy [] = True"
| "roomy (s # p) = (length (live (s # p)) \<le> slots (s # p) \<and> roomy p)"

section \<open>Finding a variable\<close>

lemma slot_of_append: "slot_of (xs @ ns) x = (case slot_of xs x of Some i \<Rightarrow> Some (i + length ns) | None \<Rightarrow> slot_of ns x)"
  by (induction xs) auto

lemma slot_of_rev_Cons:
  "distinct (y # ys) \<Longrightarrow> slot_of (rev (y # ys)) x = (if x = y then Some 0 else map_option Suc (slot_of (rev ys) x))"
  using slot_of_Some [of x "rev ys"] by (auto simp: slot_of_append split: option.splits)

lemma sym_pos_slot:
  "distinct (map sy_name tbl) \<Longrightarrow>
   sym_pos tbl x i = map_option (\<lambda>k. i + k) (slot_of (rev (map sy_name tbl)) x)"
proof (induction tbl arbitrary: i)
  case (Cons y tbl)
  then show ?case
    by (cases "slot_of (rev (map sy_name tbl)) x") (auto simp: slot_of_rev_Cons simp del: rev.simps)
qed simp

lemma findLocal_slot:
  "tidy ss \<Longrightarrow> findLocal x ss = (case slot_of (live ss) x of Some i \<Rightarrow> int i | None \<Rightarrow> symError)"
proof (induction ss)
  case (Cons s p)
  then show ?case
    by (auto simp: findLocal_def sc_find_def sym_pos_slot slot_of_append vdx_def split: option.splits if_splits)
qed (simp add: findLocal_def)
section \<open>Operations keep the order\<close>

text \<open>Scopes that differ only in what the invariants do not mention.\<close>

definition alike :: "lexicalScope \<Rightarrow> lexicalScope \<Rightarrow> bool" where
  "alike s s' \<longleftrightarrow> sc_tbl s' = sc_tbl s \<and> sc_isTop s' = sc_isTop s \<and> sc_offset s' = sc_offset s \<and>
     sc_maxLocal s' = sc_maxLocal s"

lemma alike_refl [simp]: "alike s s"
  by (simp add: alike_def)

lemma alike_live: "list_all2 alike ss ss' \<Longrightarrow> live ss' = live ss"
  by (induction rule: list_all2_induct) (auto simp: alike_def)

lemma alike_tidy: "list_all2 alike ss ss' \<Longrightarrow> tidy ss \<Longrightarrow> tidy ss'"
proof (induction rule: list_all2_induct)
  case (Cons s ss s' ss')
  then show ?case using alike_live [OF Cons.hyps(2)] by (auto simp: alike_def split: if_splits)
qed simp

lemma alike_slots: "list_all2 alike ss ss' \<Longrightarrow> slots ss' = slots ss"
  by (induction rule: list_all2_induct) (auto simp: alike_def slots_def)

lemma alike_roomy: "list_all2 alike ss ss' \<Longrightarrow> roomy ss \<Longrightarrow> roomy ss'"
proof (induction rule: list_all2_induct)
  case (Cons s ss s' ss')
  then have "list_all2 alike (s # ss) (s' # ss')" by simp
  from alike_live [OF this] alike_slots [OF this] Cons show ?case by simp
qed simp

definition scopes_ok :: "scopes \<Rightarrow> bool" where
  "scopes_ok ss \<longleftrightarrow> tidy ss \<and> roomy ss"

lemma alike_ok: "list_all2 alike ss ss' \<Longrightarrow> scopes_ok ss \<Longrightarrow> scopes_ok ss'"
  by (simp add: scopes_ok_def alike_tidy alike_roomy)

lemma tidy_offset: "tidy (s # p) \<Longrightarrow> nextOffset s = length (live (s # p))"
  by (auto simp: nextOffset_def split: if_splits)

lemma newLexicalScope_ok:
  assumes "newLexicalScope t ss b = Ok x" and "scopes_ok ss"
  shows "scopes_ok (x # ss)" and "sc_tbl x = []" and "sc_isTop x = b"
proof -
  have m: "b \<or> prevTop ss \<noteq> []"
    using assms(1) by (auto simp: newLexicalScope_def must_def Let_def split: if_splits)
  have x: "x = \<lparr>sc_tbl = [], sc_eType = sc_eType x, sc_scpType = sc_scpType x, sc_isTop = b, sc_brklist = [],
      sc_cntlist = [], sc_prog = None, sc_maxLocal = 0,
      sc_offset = (case ss of [] \<Rightarrow> 0 | q # _ \<Rightarrow> if b then 0 else nextOffset q)\<rparr>"
    using assms(1) m by (auto simp: newLexicalScope_def Let_def)
  have f: "sc_tbl x = []" "sc_isTop x = b" "sc_maxLocal x = 0"
    "sc_offset x = (case ss of [] \<Rightarrow> 0 | q # _ \<Rightarrow> if b then 0 else nextOffset q)"
    by (subst x, simp)+
  then show "sc_tbl x = []" "sc_isTop x = b" by simp_all
  show "scopes_ok (x # ss)"
  proof (cases ss)
    case Nil
    then show ?thesis using m f by (simp add: scopes_ok_def)
  next
    case (Cons q p)
    then show ?thesis using assms(2) f tidy_offset [of q p] by (simp add: scopes_ok_def slots_def)
  qed
qed

text \<open>A declaration gives the innermost scope one more symbol and the function one more slot.\<close>

definition bump :: "nat \<Rightarrow> scopes \<Rightarrow> scopes" where
  "bump k = on_top (\<lambda>t. t\<lparr>sc_maxLocal := sc_maxLocal t + k\<rparr>)"

definition declare_all :: "syminfo list \<Rightarrow> scopes \<Rightarrow> scopes" where
  "declare_all ys ss = (case ss of [] \<Rightarrow> [] | s # p \<Rightarrow> s\<lparr>sc_tbl := sc_tbl s @ ys\<rparr> # p)"

lemma bump_simps [simp]:
  "bump k [] = []"
  "bump k (s # p) = (if sc_isTop s then s\<lparr>sc_maxLocal := sc_maxLocal s + k\<rparr> # p else s # bump k p)"
  by (simp_all add: bump_def)

lemma live_bump [simp]: "live (bump k ss) = live ss"
  by (induction ss) auto

lemma bump_Nil [simp]: "bump k ss = [] \<longleftrightarrow> ss = []"
  by (cases ss) auto

lemma tidy_bump [simp]: "tidy (bump k ss) = tidy ss"
  by (induction ss) auto

lemma slots_bump: "prevTop ss \<noteq> [] \<Longrightarrow> slots (bump k ss) = slots ss + k"
  by (induction ss) (auto simp: slots_def)

lemma tidy_prevTop: "tidy ss \<Longrightarrow> ss \<noteq> [] \<Longrightarrow> prevTop ss \<noteq> []"
  by (induction ss) (auto split: if_splits)

lemma roomy_bump: "tidy ss \<Longrightarrow> roomy ss \<Longrightarrow> roomy (bump k ss)"
proof (induction ss)
  case (Cons s p)
  show ?case
  proof (cases "sc_isTop s")
    case True
    with Cons.prems show ?thesis by (simp add: slots_def)
  next
    case False
    with Cons.prems have "p \<noteq> []" "tidy p" by (simp_all split: if_splits)
    with tidy_prevTop [of p] have "slots (s # bump k p) = slots (s # p) + k"
      using slots_bump [of p k] False by (simp add: slots_def)
    with Cons False show ?thesis by simp
  qed
qed simp

lemma declare_ok:
  assumes "scopes_ok ss" and "ss \<noteq> []" and "sy_name y \<notin> set (map sy_name (sc_tbl (hd ss)))"
  shows "scopes_ok (bump 1 (declare_all [y] ss))" and "live (bump 1 (declare_all [y] ss)) = sy_name y # live ss"
proof -
  obtain s p where s: "ss = s # p" using assms(2) by (cases ss) auto
  let ?s = "s\<lparr>sc_tbl := sc_tbl s @ [y]\<rparr>"
  show "live (bump 1 (declare_all [y] ss)) = sy_name y # live ss" by (simp add: s declare_all_def)
  have t: "tidy (?s # p)" using assms by (simp add: s scopes_ok_def split: if_splits)
  have "roomy (bump 1 (?s # p))"
  proof (cases "sc_isTop s")
    case True
    then show ?thesis using assms(1) by (simp add: s scopes_ok_def slots_def)
  next
    case False
    have p: "tidy p" "roomy p" "p \<noteq> []" using assms(1) False by (simp_all add: s scopes_ok_def split: if_splits)
    have "slots (?s # bump 1 p) = slots (s # p) + 1"
      using slots_bump [OF tidy_prevTop [OF p(1,3)], of 1] False by (simp add: slots_def)
    then show ?thesis using assms(1) False roomy_bump [OF p(1,2), of 1] by (simp add: s scopes_ok_def)
  qed
  with t show "scopes_ok (bump 1 (declare_all [y] ss))" using tidy_bump [of 1 "?s # p"] by (simp add: s scopes_ok_def declare_all_def)
qed

lemma sc_find_symError: "sc_find s x = symError \<longleftrightarrow> x \<notin> set (map sy_name (sc_tbl s))"
proof -
  have "sym_pos tbl x i = None \<longleftrightarrow> x \<notin> set (map sy_name tbl)" for tbl i
    by (induction tbl arbitrary: i) auto
  from this [of "sc_tbl s" 0] show ?thesis by (cases "sym_pos (sc_tbl s) x 0") (simp_all add: sc_find_def)
qed

lemma sc_add_declares:
  assumes "sc_find s x = symError" and "tidy (s # p)"
  shows "sc_add x st (s # p) =
    Ok (int (length (live (s # p))), bump 1 (declare_all [\<lparr>sy_name = x, sy_dec = st\<rparr>] (s # p)))"
  using assms tidy_offset [OF assms(2)]
  by (simp add: sc_add_def Let_def bump_def declare_all_def vdx_def nextOffset_def)

lemma def_local_cases:
  assumes "def_local st x s = (Ok i, s')" and "tidy (ps_stbl s)"
  shows "(i = symError \<and> ps_stbl s' = ps_stbl s) \<or>
    (\<exists>y. ps_stbl s \<noteq> [] \<and> sy_name y \<notin> set (map sy_name (sc_tbl (hd (ps_stbl s)))) \<and>
       i = int (length (live (ps_stbl s))) \<and> ps_stbl s' = bump 1 (declare_all [y] (ps_stbl s)))"
proof -
  obtain x' s1 where v: "varName x s = (Ok x', s1)" "ps_stbl s1 = ps_stbl s"
    by (cases "x = varPlaceholder") (auto simp: varName_def uid_def Let_def)
  obtain c p where c: "ps_stbl s = c # p"
    using assms(1) v by (cases "ps_stbl s") (auto simp: def_local_def cur_scope_def)
  show ?thesis
  proof (cases "sc_find c x' = symError")
    case True
    then have "x' \<notin> set (map sy_name (sc_tbl c))" using sc_find_symError by blast
    then show ?thesis using assms(1) v c sc_add_declares [OF True, of p st] assms(2)
      by (intro disjI2 exI [of _ "\<lparr>sy_name = x', sy_dec = st\<rparr>"]) (auto simp: def_local_def cur_scope_def True)
  next
    case False
    then show ?thesis using assms(1) v c by (auto simp: def_local_def cur_scope_def)
  qed
qed


section \<open>Every scope the compiler reaches\<close>

text \<open>The operations the parsing functions apply to the scopes.\<close>

inductive scope_step :: "pstate \<Rightarrow> pstate \<Rightarrow> bool" where
  st_enter: "enterScope t b s = (Ok (), s') \<Longrightarrow> scope_step s s'"
| st_top: "enterScopeTop e p s = (Ok (), s') \<Longrightarrow> scope_step s s'"
| st_leave: "leaveScope s = (Ok (), s') \<Longrightarrow> scope_step s s'"
| st_declare: "def_local d x s = (Ok i, s') \<Longrightarrow> scope_step s s'"
| st_break: "addBreak i s = (Ok (), s') \<Longrightarrow> scope_step s s'"
| st_continue: "addContinue i s = (Ok (), s') \<Longrightarrow> scope_step s s'"
| st_patchBreak: "patchBreak p s = (Ok (), s') \<Longrightarrow> scope_step s s'"
| st_patchContinue: "patchContinue p s = (Ok (), s') \<Longrightarrow> scope_step s s'"
| st_rest: "ps_stbl s' = ps_stbl s \<Longrightarrow> scope_step s s'"

lemma enterScope_scopes:
  "enterScope t b s = (Ok (), s') \<Longrightarrow> \<exists>x. newLexicalScope t (ps_stbl s) b = Ok x \<and> ps_stbl s' = x # ps_stbl s"
  by (cases "newLexicalScope t (ps_stbl s) b") (auto simp: enterScope_def)

lemma upd_scope_alike:
  "upd_scope f s = (Ok (), s') \<Longrightarrow> (\<And>x. alike x (f x)) \<Longrightarrow> list_all2 alike (ps_stbl s) (ps_stbl s')"
  by (cases "ps_stbl s") (auto simp: upd_scope_def list_all2_refl)

lemma nearestLoop_suffix: "\<exists>q. ss = q @ nearestLoop ss"
  by (induction ss) (auto intro: exI [of _ "_ # _"])

lemma on_loop_alike:
  assumes "on_loop f msg s = (Ok (), s')" and "\<And>x. alike x (f x)"
  shows "list_all2 alike (ps_stbl s) (ps_stbl s')"
proof -
  obtain q where q: "ps_stbl s = q @ nearestLoop (ps_stbl s)" using nearestLoop_suffix by blast
  obtain l p where l: "nearestLoop (ps_stbl s) = l # p" "ps_stbl s' = take (length (ps_stbl s) - length (l # p)) (ps_stbl s) @ f l # p"
    using assms(1)
    by (auto simp: on_loop_def thn_def pmust_def isInLoop_def cur_scope_def must_def
        split: list.splits if_splits)
  have "take (length (ps_stbl s) - length (l # p)) (ps_stbl s) = q"
    by (subst q, subst (2) q) (simp add: l(1))
  with q l assms(2) show ?thesis by (metis list_all2_appendI list_all2_Cons list_all2_refl alike_refl)
qed

lemma jump_all_scopes: "jump_all p xs a s = (r, s') \<Longrightarrow> ps_stbl s' = ps_stbl s"
  by (induction xs arbitrary: s)
    (auto simp: em1At_def upd_prog_def rlift_def emit1At_def prog_at_def split: if_splits)


lemma patch_alike:
  assumes "mbind (jump_all p xs a s) (\<lambda>_. upd_scope f) = (Ok (), s')" and "\<And>x. alike x (f x)"
  shows "list_all2 alike (ps_stbl s) (ps_stbl s')"
proof -
  obtain s1 where j: "jump_all p xs a s = (Ok (), s1)" "upd_scope f s1 = (Ok (), s')"
    using assms(1) by (cases "jump_all p xs a s"; cases "fst (jump_all p xs a s)") auto
  from upd_scope_alike [OF j(2) assms(2)] jump_all_scopes [OF j(1)] show ?thesis by simp
qed

lemma leave_ok: "scopes_ok (x # p) \<Longrightarrow> scopes_ok p"
  by (simp add: scopes_ok_def)

lemma enterScope_ok: "enterScope t b s = (Ok (), s') \<Longrightarrow> scopes_ok (ps_stbl s) \<Longrightarrow> scopes_ok (ps_stbl s')"
  using enterScope_scopes [of t b s s'] newLexicalScope_ok(1) by fastforce

lemma enterScopeTop_ok:
  assumes "enterScopeTop e p s = (Ok (), s')" and "scopes_ok (ps_stbl s)"
  shows "scopes_ok (ps_stbl s')"
proof -
  obtain s1 where e: "enterScope ScpNormal True s = (Ok (), s1)"
    "upd_scope (\<lambda>x. x\<lparr>sc_eType := e, sc_prog := Some p\<rparr>) s1 = (Ok (), s')"
    using assms(1) by (cases "enterScope ScpNormal True s"; cases "fst (enterScope ScpNormal True s)")
      (auto simp: enterScopeTop_def thn_def)
  have "list_all2 alike (ps_stbl s1) (ps_stbl s')"
    using upd_scope_alike [OF e(2)] by (simp add: alike_def)
  then show ?thesis using enterScope_ok [OF e(1) assms(2)] by (rule alike_ok)
qed

lemma leaveScope_ok: "leaveScope s = (Ok (), s') \<Longrightarrow> scopes_ok (ps_stbl s) \<Longrightarrow> scopes_ok (ps_stbl s')"
  by (cases "ps_stbl s") (auto simp: leaveScope_def scopes_ok_def)

lemma def_local_ok:
  "def_local d x s = (Ok i, s') \<Longrightarrow> scopes_ok (ps_stbl s) \<Longrightarrow> scopes_ok (ps_stbl s')"
  using def_local_cases [of d x s i s'] declare_ok(1) [of "ps_stbl s"] by (auto simp: scopes_ok_def)

lemma on_loop_ok:
  "on_loop f msg s = (Ok (), s') \<Longrightarrow> (\<And>x. alike x (f x)) \<Longrightarrow> scopes_ok (ps_stbl s) \<Longrightarrow> scopes_ok (ps_stbl s')"
  by (rule alike_ok [OF on_loop_alike])

lemma patchBreak_alike:
  assumes "patchBreak p s = (Ok (), s')"
  shows "list_all2 alike (ps_stbl s) (ps_stbl s')"
proof (rule patch_alike)
  show "mbind (jump_all p (sc_brklist (hd (ps_stbl s))) (label (prog_at s p)) s)
      (\<lambda>_. upd_scope (\<lambda>x. x\<lparr>sc_brklist := []\<rparr>)) = (Ok (), s')"
    using assms
    by (auto simp: patchBreak_def thn_def pmust_def isInLoop_def cur_scope_def must_def split: list.splits if_splits)
qed (simp add: alike_def)

lemma patchContinue_alike:
  assumes "patchContinue p s = (Ok (), s')"
  shows "list_all2 alike (ps_stbl s) (ps_stbl s')"
proof (rule patch_alike)
  show "mbind (jump_all p (sc_cntlist (hd (ps_stbl s))) (label (prog_at s p)) s)
      (\<lambda>_. upd_scope (\<lambda>x. x\<lparr>sc_cntlist := []\<rparr>)) = (Ok (), s')"
    using assms
    by (auto simp: patchContinue_def thn_def pmust_def isInLoop_def cur_scope_def must_def split: list.splits if_splits)
qed (simp add: alike_def)

lemma step_scopes_ok: "scope_step s s' \<Longrightarrow> scopes_ok (ps_stbl s) \<Longrightarrow> scopes_ok (ps_stbl s')"
proof (induction rule: scope_step.induct)
  case (st_break i s s')
  then show ?case by (intro on_loop_ok [OF st_break(1) [unfolded addBreak_def]]) (simp_all add: alike_def)
next
  case (st_continue i s s')
  then show ?case by (intro on_loop_ok [OF st_continue(1) [unfolded addContinue_def]]) (simp_all add: alike_def)
qed (simp_all only: enterScope_ok enterScopeTop_ok leaveScope_ok def_local_ok alike_ok [OF patchBreak_alike]
    alike_ok [OF patchContinue_alike])

lemma reach_scopes_ok: "scope_step\<^sup>*\<^sup>* s s' \<Longrightarrow> scopes_ok (ps_stbl s) \<Longrightarrow> scopes_ok (ps_stbl s')"
  by (induction rule: rtranclp_induct) (auto intro: step_scopes_ok)

lemma slot_of_less: "slot_of ns x = Some i \<Longrightarrow> i < length ns"
  by (induction ns) (auto split: if_splits)

lemma slot_of_inj: "slot_of ns x = Some i \<Longrightarrow> slot_of ns y = Some i \<Longrightarrow> x = y"
  by (induction ns) (auto split: if_splits dest: slot_of_less)

section \<open>The counters only grow\<close>

text \<open>The counter of the \<open>d\<close>-th scope from the outermost.\<close>

definition room :: "nat \<Rightarrow> scopes \<Rightarrow> nat" where
  "room d ss = (case drop (length ss - d) ss of [] \<Rightarrow> 0 | t # _ \<Rightarrow> sc_maxLocal t)"

lemma prevTop_drop: "prevTop ss = drop (length ss - length (prevTop ss)) ss \<and> length (prevTop ss) \<le> length ss"
  by (induction ss) (auto simp: Suc_diff_le)

lemma slots_room: "slots ss = room (length (prevTop ss)) ss"
  using prevTop_drop [of ss] by (simp add: slots_def room_def)

lemma room_Cons: "d \<le> length p \<Longrightarrow> room d (x # p) = room d p"
  by (simp add: room_def Suc_diff_le)

lemma room_alike:
  assumes "list_all2 alike ss ss'"
  shows "room d ss' = room d ss"
proof -
  have len: "length ss' = length ss" using assms by (simp add: list_all2_lengthD)
  have "list_all2 alike (drop (length ss - d) ss) (drop (length ss - d) ss')"
    using assms by (rule list_all2_dropI)
  then show ?thesis
    by (cases "drop (length ss - d) ss"; cases "drop (length ss - d) ss'") (simp_all add: room_def len alike_def)
qed

lemma length_bump [simp]: "length (bump k ss) = length ss"
  by (induction ss) auto

lemma room_bump: "d \<le> length ss \<Longrightarrow> room d ss \<le> room d (bump k ss)"
proof (induction ss)
  case (Cons s p)
  show ?case
  proof (cases "d \<le> length p")
    case True
    then show ?thesis using Cons.IH by (simp add: room_Cons)
  next
    case False
    then have "d = Suc (length p)" using Cons.prems by simp
    then show ?thesis by (simp add: room_def)
  qed
qed simp

lemma room_declare: "room d (declare_all ys ss) = room d ss"
proof (cases ss)
  case (Cons s p)
  then show ?thesis by (cases "length ss - d") (simp_all add: room_def declare_all_def)
qed (simp add: declare_all_def)

lemma room_enter: "enterScope t b s = (Ok (), s') \<Longrightarrow> d \<le> length (ps_stbl s) \<Longrightarrow> room d (ps_stbl s') = room d (ps_stbl s)"
  using enterScope_scopes [of t b s s'] by (auto simp: room_Cons)

lemma room_enterTop:
  assumes "enterScopeTop e p s = (Ok (), s')" and "d \<le> length (ps_stbl s)"
  shows "room d (ps_stbl s') = room d (ps_stbl s)"
proof -
  obtain s1 where e: "enterScope ScpNormal True s = (Ok (), s1)"
    "upd_scope (\<lambda>x. x\<lparr>sc_eType := e, sc_prog := Some p\<rparr>) s1 = (Ok (), s')"
    using assms(1) by (cases "enterScope ScpNormal True s"; cases "fst (enterScope ScpNormal True s)")
      (auto simp: enterScopeTop_def thn_def)
  have "list_all2 alike (ps_stbl s1) (ps_stbl s')"
    using upd_scope_alike [OF e(2)] by (simp add: alike_def)
  then show ?thesis using room_enter [OF e(1) assms(2)] room_alike by simp
qed

lemma room_leave: "leaveScope s = (Ok (), s') \<Longrightarrow> d \<le> length (ps_stbl s') \<Longrightarrow> room d (ps_stbl s') = room d (ps_stbl s)"
  by (cases "ps_stbl s") (auto simp: leaveScope_def room_Cons)

lemma room_def_local:
  assumes "def_local t x s = (Ok i, s')" and "tidy (ps_stbl s)" and "d \<le> length (ps_stbl s)"
  shows "room d (ps_stbl s) \<le> room d (ps_stbl s')"
proof -
  have "length (declare_all ys (ps_stbl s)) = length (ps_stbl s)" for ys
    by (simp add: declare_all_def split: list.split)
  then show ?thesis
    using def_local_cases [OF assms(1,2)] room_bump [of d "declare_all _ (ps_stbl s)" 1] assms(3)
    by (auto simp: room_declare)
qed

text \<open>A step that leaves the first \<open>d\<close> scopes where they are.\<close>

definition inside :: "nat \<Rightarrow> pstate \<Rightarrow> pstate \<Rightarrow> bool" where
  "inside d s s' \<longleftrightarrow> scope_step s s' \<and> d \<le> length (ps_stbl s')"

lemma room_step:
  assumes "scope_step s s'" and "tidy (ps_stbl s)" and "d \<le> length (ps_stbl s)" and "d \<le> length (ps_stbl s')"
  shows "room d (ps_stbl s) \<le> room d (ps_stbl s')"
  using assms
proof (induction rule: scope_step.induct)
  case (st_break i s s')
  then have "list_all2 alike (ps_stbl s) (ps_stbl s')"
    by (intro on_loop_alike [OF st_break(1) [unfolded addBreak_def]]) (simp add: alike_def)
  then show ?case by (simp add: room_alike)
next
  case (st_continue i s s')
  then have "list_all2 alike (ps_stbl s) (ps_stbl s')"
    by (intro on_loop_alike [OF st_continue(1) [unfolded addContinue_def]]) (simp add: alike_def)
  then show ?case by (simp add: room_alike)
qed (simp_all add: room_enter room_enterTop room_leave room_def_local room_alike [OF patchBreak_alike]
    room_alike [OF patchContinue_alike])

lemma room_inside:
  "(inside d)\<^sup>*\<^sup>* s s' \<Longrightarrow> scopes_ok (ps_stbl s) \<Longrightarrow> d \<le> length (ps_stbl s) \<Longrightarrow>
   room d (ps_stbl s) \<le> room d (ps_stbl s') \<and> scopes_ok (ps_stbl s') \<and> d \<le> length (ps_stbl s')"
proof (induction rule: rtranclp_induct)
  case (step t u)
  then have t: "room d (ps_stbl s) \<le> room d (ps_stbl t)" "scopes_ok (ps_stbl t)" "d \<le> length (ps_stbl t)" by simp_all
  have u: "scope_step t u" "d \<le> length (ps_stbl u)" using step.hyps(2) by (simp_all add: inside_def)
  show ?case using room_step [OF u(1) _ t(3) u(2)] step_scopes_ok [OF u(1) t(2)] t u(2) by (simp add: scopes_ok_def)
qed simp

lemma finish_locals_reserves:
  assumes "finish_locals p r s = (Ok (), s')" and "p < length (ps_progs s)"
  shows "localSize (prog_at s' p) = slots (ps_stbl s) - 1 \<and>
    bcList (prog_at s' p) ! r = \<lparr>opcode = BcReserveLocal, argument = slots (ps_stbl s) - 1\<rparr>"
  using assms
  by (auto simp: finish_locals_def bnd_def thn_def topMaxLocal_def slots_def upd_prog_def em1At_def rlift_def emit1At_def
      prog_at_def split: list.splits if_splits)

text \<open>
  C9: Whatever scopes the compiler enters and leaves, whatever it declares in them and however it
  collects and patches the jumps of loops, the local variables it can name have slots of their
  own: two names that resolve to the same slot are the same name. And when a rule, function or iterator
  is finished, however the compilation of its body went on (nested functions included), the instruction
  that reserves its local variables is patched to reserve enough for every slot that was ever given
  out in it: the first slot needs no reservation, it is the frame or an argument below it. (The global,
  session and config scopes are not finished in this way, they reserve nothing.)
\<close>

theorem locals_have_own_slots:
  assumes "scope_step\<^sup>*\<^sup>* (newParser src) s" and "findLocal x (ps_stbl s) = int i"
    and "findLocal y (ps_stbl s) = int j"
  shows "(i = j \<longrightarrow> x = y) \<and>
    (\<forall>s1 s2 p r. (inside (length (prevTop (ps_stbl s))))\<^sup>*\<^sup>* s s1 \<longrightarrow>
      length (prevTop (ps_stbl s1)) = length (prevTop (ps_stbl s)) \<longrightarrow>
      p < length (ps_progs s1) \<longrightarrow> finish_locals p r s1 = (Ok (), s2) \<longrightarrow>
      i \<le> localSize (prog_at s2 p) \<and>
      bcList (prog_at s2 p) ! r = \<lparr>opcode = BcReserveLocal, argument = localSize (prog_at s2 p)\<rparr>)"
proof -
  have ok: "scopes_ok (ps_stbl s)" "tidy (ps_stbl s)" "roomy (ps_stbl s)"
    using reach_scopes_ok [OF assms(1)] by (simp_all add: scopes_ok_def newParser_def)
  from assms(2,3) findLocal_slot [OF ok(2)]
  have s: "slot_of (live (ps_stbl s)) x = Some i" "slot_of (live (ps_stbl s)) y = Some j"
    by (auto split: option.splits)
  have "length (live (ps_stbl s)) \<le> slots (ps_stbl s)" using ok(3) by (cases "ps_stbl s") simp_all
  then have i: "i < slots (ps_stbl s)" using slot_of_less [OF s(1)] by simp
  let ?d = "length (prevTop (ps_stbl s))"
  have "i \<le> localSize (prog_at s2 p) \<and>
      bcList (prog_at s2 p) ! r = \<lparr>opcode = BcReserveLocal, argument = localSize (prog_at s2 p)\<rparr>"
    if run: "(inside ?d)\<^sup>*\<^sup>* s s1" "length (prevTop (ps_stbl s1)) = ?d" "p < length (ps_progs s1)"
      "finish_locals p r s1 = (Ok (), s2)" for s1 s2 p r
  proof -
    have "?d \<le> length (ps_stbl s)" using prevTop_drop by blast
    from room_inside [OF run(1) ok(1) this] have "slots (ps_stbl s) \<le> slots (ps_stbl s1)"
      by (simp add: slots_room run(2))
    with i finish_locals_reserves [OF run(4,3)] show ?thesis by simp
  qed
  then show ?thesis using slot_of_inj [OF s(1)] s(2) by blast
qed

text \<open>Two variables of a rule, the second in a block.\<close>

definition s_two :: pstate where
  "s_two = snd (seqs [bnd (alloc_prog ''r'' ProgRule) (\<lambda>_. ret ()), bnd (hole 0) (\<lambda>_. ret ()), enterScopeTop EntryRule 0,
     bnd (defLocalVar ''a'') (\<lambda>_. ret ()), enterNormalScope, bnd (defLocalVar ''b'') (\<lambda>_. ret ())] (newParser ''''))"

lemma s_two_reached: "scope_step\<^sup>*\<^sup>* (newParser '''') s_two"
proof -
  define s0 where "s0 = snd (seqs [bnd (alloc_prog ''r'' ProgRule) (\<lambda>_. ret ()), bnd (hole 0) (\<lambda>_. ret ())] (newParser ''''))"
  define s1 where "s1 = snd (enterScopeTop EntryRule 0 s0)"
  define s2 where "s2 = snd (def_local SymtVar ''a'' s1)"
  define s3 where "s3 = snd (enterScope ScpNormal False s2)"
  define s4 where "s4 = snd (def_local SymtVar ''b'' s3)"
  note defs = s0_def s1_def s2_def s3_def s4_def
  have "ps_stbl s0 = ps_stbl (newParser '''')" unfolding defs by code_simp
  moreover have "enterScopeTop EntryRule 0 s0 = (Ok (), s1)" unfolding defs by code_simp
  moreover have "def_local SymtVar ''a'' s1 = (Ok 0, s2)" unfolding defs by code_simp
  moreover have "enterScope ScpNormal False s2 = (Ok (), s3)" unfolding defs by code_simp
  moreover have "def_local SymtVar ''b'' s3 = (Ok 1, s4)" unfolding defs by code_simp
  moreover have "s_two = s4" unfolding defs s_two_def by code_simp
  ultimately show ?thesis
    by (metis st_top st_declare st_enter st_rest rtranclp.rtrancl_refl rtranclp.rtrancl_into_rtrancl)
qed

theorem locals_have_own_slots_witness:
  "\<exists>s. finish_locals 0 0 s_two = (Ok (), s) \<and> 1 \<le> localSize (prog_at s 0)"
proof -
  have f: "findLocal ''b'' (ps_stbl s_two) = int 1" "findLocal ''a'' (ps_stbl s_two) = int 0" by code_simp+
  have "fst (finish_locals 0 0 s_two) = Ok ()" "length (ps_progs s_two) = 1" by code_simp+
  then obtain s where "finish_locals 0 0 s_two = (Ok (), s)" "0 < length (ps_progs s_two)"
    by (cases "finish_locals 0 0 s_two") auto
  then show ?thesis
    using locals_have_own_slots [OF s_two_reached f] by blast
qed

section \<open>Variables only\<close>

fun vars_only :: "scopes \<Rightarrow> bool" where
  "vars_only [] = True"
| "vars_only (s # p) =
     (list_all (\<lambda>y. sy_dec y = SymtVar) (sc_tbl s) \<and> (sc_isTop s \<or> vars_only p))"

lemma sym_pos_less: "sym_pos tbl x i = Some k \<Longrightarrow> i \<le> k \<and> k - i < length tbl"
  by (induction tbl arbitrary: i) (fastforce split: if_splits)+

lemma findLocalVar_vars: "vars_only ss \<Longrightarrow> findLocalVar x ss = findLocal x ss"
proof (induction ss)
  case (Cons s p)
  have "sc_findVar s x = sc_find s x"
  proof (cases "sym_pos (sc_tbl s) x 0")
    case (Some k)
    with sym_pos_less [OF Some] Cons.prems show ?thesis
      by (simp add: sc_findVar_def sc_find_def vdx_def sc_idx_def list_all_length)
  qed (simp add: sc_findVar_def sc_find_def)
  with Cons show ?case by (auto simp: findLocal_def findLocalVar_def)
qed (simp add: findLocal_def findLocalVar_def)

lemma vars_only_bump [simp]: "vars_only (bump k ss) = vars_only ss"
  by (induction ss) auto

text \<open>Declarations add up.\<close>

lemma declare_all_simps [simp]:
  "declare_all [] ss = ss"
  "declare_all zs (declare_all ys ss) = declare_all (ys @ zs) ss"
  "bump i (bump j ss) = bump (j + i) ss"
  "bump 0 ss = ss"
proof -
  show "bump i (bump j ss) = bump (j + i) ss" by (induction ss) (auto simp: add.assoc)
  show "bump 0 ss = ss" by (induction ss) auto
qed (cases ss; simp add: declare_all_def)+

lemma declare_bump: "declare_all ys (bump k ss) = bump k (declare_all ys ss)"
  by (cases ss) (simp_all add: declare_all_def)

lemma bump_snd: "\<not> sc_isTop s \<Longrightarrow> bump k (s # p) = s # bump k p"
  by simp

end
