(* ===== verification/Language.thy ===== *)
theory Language
  imports TokenStream ScopeProps Parser VM
begin

text \<open>
  A core of the scripting language, to state what compiling and running it means: expressions with
  the operators and their precedence, local variables, assignments, branches, loops and return.
  Here are its syntax, its tokens with no more parentheses than needed, its meaning without any
  bytecode, and the shape of the code the compiler gives it.
\<close>

section \<open>Syntax\<close>

datatype expr =
    EInt nat
  | ETrue
  | EFalse
  | ENull
  | EVar string
  | EUn token expr
  | EBin token expr expr
  | ECond expr expr expr

datatype stmt =
    SLet string expr
  | SSet string expr
  | SReturn expr
  | SIf expr "stmt list" "stmt list"
  | SFor expr "stmt list"

definition un_tokens :: "token list" where
  "un_tokens = [TkAdd, TkSub, TkNot]"

text \<open>The binary operators, from the loosest to the tightest.\<close>

definition bin_tokens :: "(token \<times> int) list" where
  "bin_tokens =
     [(TkOr, 0), (TkAnd, 1), (TkEq, 2), (TkNe, 2), (TkRegexpMatch, 2), (TkRegexpNMatch, 2), (TkLt, 3),
      (TkLe, 3), (TkGt, 3), (TkGe, 3), (TkAdd, 4), (TkSub, 4), (TkMul, 5), (TkDiv, 5), (TkMod, 5), (TkPow, 5)]"

definition strength :: "token \<Rightarrow> int" where
  "strength t = (case map_of bin_tokens t of Some i \<Rightarrow> i | None \<Rightarrow> - 1)"

definition name_ok :: "string \<Rightarrow> bool" where
  "name_ok x = (is_word x \<and> map_of lexerkeyword x = None \<and> x \<noteq> ''_'')"

text \<open>An expression over the variables of \<open>ns\<close>.\<close>

fun expr_ok :: "string list \<Rightarrow> expr \<Rightarrow> bool" where
  "expr_ok ns (EInt n) = (n < 2 ^ 63)"
| "expr_ok ns ETrue = True"
| "expr_ok ns EFalse = True"
| "expr_ok ns ENull = True"
| "expr_ok ns (EVar x) = (name_ok x \<and> x \<in> set ns)"
| "expr_ok ns (EUn t e) = (t \<in> set un_tokens \<and> expr_ok ns e)"
| "expr_ok ns (EBin t a b) = (t \<in> set (map fst bin_tokens) \<and> expr_ok ns a \<and> expr_ok ns b)"
| "expr_ok ns (ECond v c w) = (expr_ok ns v \<and> expr_ok ns c \<and> expr_ok ns w)"

text \<open>
  Statements over \<open>ns\<close>, the innermost variable first; \<open>k\<close> of them belong to the current block,
  which must not declare a name twice.
\<close>

fun stmts_ok :: "nat \<Rightarrow> string list \<Rightarrow> stmt list \<Rightarrow> bool" where
  "stmts_ok k ns [] = True"
| "stmts_ok k ns (SLet x e # ss) =
     (name_ok x \<and> x \<notin> set (take k ns) \<and> expr_ok (filter (\<lambda>y. y \<noteq> x) ns) e \<and> stmts_ok (Suc k) (x # ns) ss)"
| "stmts_ok k ns (SSet x e # ss) = (name_ok x \<and> x \<in> set ns \<and> expr_ok ns e \<and> stmts_ok k ns ss)"
| "stmts_ok k ns (SReturn e # ss) = (expr_ok ns e \<and> stmts_ok k ns ss)"
| "stmts_ok k ns (SIf c a b # ss) =
     (expr_ok ns c \<and> stmts_ok 0 ns a \<and> stmts_ok 0 ns b \<and> stmts_ok k ns ss)"
| "stmts_ok k ns (SFor c b # ss) = (expr_ok ns c \<and> stmts_ok 0 ns b \<and> stmts_ok k ns ss)"

text \<open>What statements declare, in their own block and in all blocks.\<close>

fun lets :: "stmt list \<Rightarrow> nat" where
  "lets [] = 0"
| "lets (SLet x e # ss) = Suc (lets ss)"
| "lets (SIf c a b # ss) = lets a + lets b + lets ss"
| "lets (SFor c b # ss) = lets b + lets ss"
| "lets (s # ss) = lets ss"

fun decls :: "stmt list \<Rightarrow> string list" where
  "decls [] = []"
| "decls (SLet x e # ss) = x # decls ss"
| "decls (s # ss) = decls ss"

text \<open>The locals every rule has before its own.\<close>

definition hidden :: "string list" where
  "hidden = [''#frame'', ''#event'']"

section \<open>Tokens\<close>

fun level :: "expr \<Rightarrow> int" where
  "level (EBin t a b) = strength t"
| "level (ECond v c w) = - 1"
| "level e = 6"

text \<open>Where an operand of at least level \<open>q\<close> is due.\<close>

fun operand :: "int \<Rightarrow> expr \<Rightarrow> ptok list" and body :: "expr \<Rightarrow> ptok list" where
  "operand q e = (if level e < q then PTok TkLPar # body e @ [PTok TkRPar] else body e)"
| "body (EInt n) = [PNum n]"
| "body ETrue = [PTok TkTrue]"
| "body EFalse = [PTok TkFalse]"
| "body ENull = [PTok TkNull]"
| "body (EVar x) = [PName x]"
| "body (EUn t e) = PTok t # operand 6 e"
| "body (EBin t a b) = operand (strength t) a @ PTok t # operand (strength t + 1) b"
| "body (ECond v c w) = operand 0 v @ PTok TkIf # operand 0 c @ PTok TkElse # operand 0 w"

fun stmts_toks :: "stmt list \<Rightarrow> ptok list" where
  "stmts_toks [] = []"
| "stmts_toks (SLet x e # ss) =
     PTok TkLet # PName x # PTok TkAssign # body e @ PTok TkSemicolon # stmts_toks ss"
| "stmts_toks (SSet x e # ss) =
     PName x # PTok TkAssign # body e @ PTok TkSemicolon # stmts_toks ss"
| "stmts_toks (SReturn e # ss) = PTok TkReturn # body e @ PTok TkSemicolon # stmts_toks ss"
| "stmts_toks (SIf c a b # ss) =
     PTok TkIf # body c @ PTok TkLBra # stmts_toks a @ PTok TkRBra # PTok TkElse # PTok TkLBra #
     stmts_toks b @ PTok TkRBra # stmts_toks ss"
| "stmts_toks (SFor c b # ss) =
     PTok TkFor # body c @ PTok TkLBra # stmts_toks b @ PTok TkRBra # stmts_toks ss"

text \<open>A rule and nothing else.\<close>

definition rule_toks :: "string \<Rightarrow> stmt list \<Rightarrow> ptok list" where
  "rule_toks name ss = PName name # PTok TkLBra # stmts_toks ss @ [PTok TkRBra]"

definition rule_text :: "string \<Rightarrow> stmt list \<Rightarrow> string" where
  "rule_text name ss = spaced (rule_toks name ss)"

section \<open>Meaning\<close>

text \<open>
  An environment lists the variables with their values, the innermost first. Operators and the
  truth of a value are those of the values themselves.
\<close>

type_synonym bindings = "(string \<times> val) list"

definition un_value :: "('w, 'x) oenv_scheme \<Rightarrow> 'w store \<Rightarrow> token \<Rightarrow> val \<Rightarrow> val res" where
  "un_value env st t v =
     (if t = TkSub then doNegate v
      else if t = TkNot then rbind (ToBoolean (oenv_of env) st v) (\<lambda>b. Ok (VBool (\<not> b)))
      else Ok v)"

fun ev :: "'w venv \<Rightarrow> 'w store \<Rightarrow> bindings \<Rightarrow> expr \<Rightarrow> val res" where
  "ev env st \<rho> (EInt n) = Ok (VInt (of_nat n))"
| "ev env st \<rho> ETrue = Ok (VBool True)"
| "ev env st \<rho> EFalse = Ok (VBool False)"
| "ev env st \<rho> ENull = Ok VNull"
| "ev env st \<rho> (EVar x) = (case map_of \<rho> x of Some v \<Rightarrow> Ok v | None \<Rightarrow> Err x)"
| "ev env st \<rho> (EUn t e) = rbind (ev env st \<rho> e) (un_value env st t)"
| "ev env st \<rho> (EBin t a b) =
     rbind (ev env st \<rho> a) (\<lambda>v.
       if t = TkAnd \<or> t = TkOr then
         rbind (ToBoolean (oenv_of env) st v) (\<lambda>c. if c = (t = TkOr) then Ok v else ev env st \<rho> b)
       else rbind (ev env st \<rho> b) (\<lambda>w. doBin (oenv_of env) (ve_pow env) st v w (bin_opcode t)))"
| "ev env st \<rho> (ECond v c w) =
     rbind (ev env st \<rho> v) (\<lambda>x. rbind (ev env st \<rho> c) (\<lambda>y.
       rbind (ToBoolean (oenv_of env) st y) (\<lambda>b. if b then Ok x else ev env st \<rho> w)))"

fun assign :: "bindings \<Rightarrow> string \<Rightarrow> val \<Rightarrow> bindings" where
  "assign [] x v = []"
| "assign ((y, w) # \<rho>) x v = (if y = x then (y, v) # \<rho> else (y, w) # assign \<rho> x v)"

text \<open>A list of statements comes to its end, or returns a value.\<close>

datatype outcome = Going bindings | Returned val

text \<open>A block ends: what it declared is gone.\<close>

definition leaving :: "bindings \<Rightarrow> bindings \<Rightarrow> bindings" where
  "leaving \<rho> \<rho>' = drop (length \<rho>' - length \<rho>) \<rho>'"

definition going :: "outcome res \<Rightarrow> (bindings \<Rightarrow> outcome res) \<Rightarrow> outcome res" where
  "going r k = rbind r (\<lambda>z. case z of Going \<rho> \<Rightarrow> k \<rho> | Returned v \<Rightarrow> Ok (Returned v))"

text \<open>Every round of a loop takes one unit of fuel.\<close>

fun exec :: "nat \<Rightarrow> 'w venv \<Rightarrow> 'w store \<Rightarrow> stmt list \<Rightarrow> bindings \<Rightarrow> outcome res" where
  "exec n env st [] \<rho> = Ok (Going \<rho>)"
| "exec n env st (SLet x e # ss) \<rho> = rbind (ev env st \<rho> e) (\<lambda>v. exec n env st ss ((x, v) # \<rho>))"
| "exec n env st (SSet x e # ss) \<rho> = rbind (ev env st \<rho> e) (\<lambda>v. exec n env st ss (assign \<rho> x v))"
| "exec n env st (SReturn e # ss) \<rho> = rbind (ev env st \<rho> e) (\<lambda>v. Ok (Returned v))"
| "exec n env st (SIf c a b # ss) \<rho> =
     rbind (ev env st \<rho> c) (\<lambda>v. rbind (ToBoolean (oenv_of env) st v) (\<lambda>t.
       going (if t then exec n env st a \<rho> else exec n env st b \<rho>) (\<lambda>\<rho>'. exec n env st ss (leaving \<rho> \<rho>'))))"
| "exec 0 env st (SFor c b # ss) \<rho> = Diverge"
| "exec (Suc n) env st (SFor c b # ss) \<rho> =
     rbind (ev env st \<rho> c) (\<lambda>v. rbind (ToBoolean (oenv_of env) st v) (\<lambda>t.
       if t then going (exec n env st b \<rho>) (\<lambda>\<rho>'. exec n env st (SFor c b # ss) (leaving \<rho> \<rho>'))
       else exec n env st ss \<rho>))"

section \<open>Code\<close>

abbreviation (input) bc :: "opcode \<Rightarrow> nat \<Rightarrow> bytecode" where
  "bc op a \<equiv> \<lparr>opcode = op, argument = a\<rparr>"

text \<open>The code of an expression at address \<open>a\<close>, with the integer constants \<open>K\<close>.\<close>

inductive codes :: "string list \<Rightarrow> int64 list \<Rightarrow> nat \<Rightarrow> expr \<Rightarrow> bytecode list \<Rightarrow> bool"
  for ns :: "string list" and K :: "int64 list"
where
  c_int: "k < length K \<Longrightarrow> K ! k = of_nat n \<Longrightarrow> codes ns K a (EInt n) [bc BcLoadInt k]"
| c_true: "codes ns K a ETrue [bc BcLoadTrue 0]"
| c_false: "codes ns K a EFalse [bc BcLoadFalse 0]"
| c_null: "codes ns K a ENull [bc BcLoadNull 0]"
| c_var: "slot_of ns x = Some i \<Longrightarrow> codes ns K a (EVar x) [bc BcLoadLocal i]"
| c_un: "codes ns K a e c \<Longrightarrow>
    codes ns K a (EUn t e)
      (c @ (if t = TkSub then [bc BcNegate 0] else if t = TkNot then [bc BcNot 0] else []))"
| c_logic: "t = TkAnd \<or> t = TkOr \<Longrightarrow> codes ns K a l cl \<Longrightarrow> codes ns K (a + length cl + 1) r cr \<Longrightarrow>
    codes ns K a (EBin t l r)
      (cl @ bc (if t = TkAnd then BcAnd else BcOr) (a + length cl + 1 + length cr) # cr)"
| c_bin: "\<not> (t = TkAnd \<or> t = TkOr) \<Longrightarrow> codes ns K a l cl \<Longrightarrow> codes ns K (a + length cl) r cr \<Longrightarrow>
    codes ns K a (EBin t l r) (cl @ cr @ [bc (bin_opcode t) 0])"
| c_cond: "codes ns K a v cv \<Longrightarrow> codes ns K (a + length cv) c cc \<Longrightarrow>
    codes ns K (a + length cv + length cc + 1) w cw \<Longrightarrow>
    codes ns K a (ECond v c w)
      (cv @ cc @ bc BcTernary (a + length cv + length cc + 1 + length cw) # cw)"


text \<open>The code of statements; a branch or loop jumps over its blocks, a loop back to its condition.\<close>

inductive scodes :: "int64 list \<Rightarrow> string list \<Rightarrow> nat \<Rightarrow> stmt list \<Rightarrow> bytecode list \<Rightarrow> bool"
  for K :: "int64 list"
where
  s_nil: "scodes K ns a [] []"
| s_let: "codes ns K a e c \<Longrightarrow> scodes K (x # ns) (a + length c + 1) ss cs \<Longrightarrow>
    scodes K ns a (SLet x e # ss) (c @ bc BcStoreLocal (length ns) # cs)"
| s_set: "codes ns K a e c \<Longrightarrow> slot_of ns x = Some i \<Longrightarrow> scodes K ns (a + length c + 1) ss cs \<Longrightarrow>
    scodes K ns a (SSet x e # ss) (c @ bc BcStoreLocal i # cs)"
| s_return: "codes ns K a e c \<Longrightarrow> scodes K ns (a + length c + 1) ss cs \<Longrightarrow>
    scodes K ns a (SReturn e # ss) (c @ bc BcReturn 0 # cs)"
| s_if: "codes ns K a e c \<Longrightarrow> scodes K ns (a + length c + 1) t ct \<Longrightarrow>
    scodes K ns (a + length c + 1 + length ct + 1) f cf \<Longrightarrow>
    scodes K ns (a + length c + 1 + length ct + 1 + length cf) ss cs \<Longrightarrow>
    scodes K ns a (SIf e t f # ss)
      (c @ bc BcJfalse (a + length c + 1 + length ct + 1) # ct @
       bc BcJump (a + length c + 1 + length ct + 1 + length cf) # cf @ cs)"
| s_for: "codes ns K a e c \<Longrightarrow> scodes K ns (a + length c + 1) b cb \<Longrightarrow>
    scodes K ns (a + length c + 1 + length cb + 1) ss cs \<Longrightarrow>
    scodes K ns a (SFor e b # ss)
      (c @ bc BcJfalse (a + length c + 1 + length cb + 1) # cb @ bc BcJump a # cs)"

inductive_cases codes_cases [elim!]:
  "codes ns K a (EInt n) c" "codes ns K a ETrue c" "codes ns K a EFalse c" "codes ns K a ENull c"
  "codes ns K a (EVar x) c" "codes ns K a (EUn t e) c" "codes ns K a (EBin t l r) c"
  "codes ns K a (ECond v e w) c"

inductive_cases scodes_cases [elim!]:
  "scodes K ns a [] c" "scodes K ns a (SLet x e # ss) c" "scodes K ns a (SSet x e # ss) c"
  "scodes K ns a (SReturn e # ss) c" "scodes K ns a (SIf e t f # ss) c"
  "scodes K ns a (SFor e b # ss) c"

text \<open>Constants that are added later do not disturb the code.\<close>

lemma codes_more: "codes ns K a e c \<Longrightarrow> codes ns (K @ ks) a e c"
proof (induction rule: codes.induct)
  case (c_int k n a)
  then show ?case by (intro codes.c_int) (simp_all add: nth_append)
qed ((rule codes.intros; assumption)+)

lemma scodes_more: "scodes K ns a ss c \<Longrightarrow> scodes (K @ ks) ns a ss c"
  by (induction rule: scodes.induct) (rule scodes.intros; (assumption | rule codes_more, assumption))+

lemma codes_outer:
  "codes (x # ns) K a e c \<Longrightarrow> expr_ok (filter (\<lambda>y. y \<noteq> x) ns) e \<Longrightarrow> codes ns K a e c"
proof (induction rule: codes.induct)
  case (c_var y i a)
  then show ?case by (intro codes.c_var) (auto split: if_splits)
qed (simp only: expr_ok.simps simp_thms, (rule codes.intros; (assumption | simp)))+

lemma expr_ok_subset: "expr_ok ns e \<Longrightarrow> set ns \<subseteq> set ns' \<Longrightarrow> expr_ok ns' e"
  by (induction e) auto

end
