(* ===== verification/CompileExpr.thy ===== *)
theory CompileExpr
  imports Language ParserProps
begin

text \<open>
  The compiler gives expressions the code of \<open>codes\<close>: what the parser's state is in front of
  tokens, what growing the program means, and the proof by precedence climbing that any operand
  of the right level is read to its end, whatever follows it.
\<close>

section \<open>In front of tokens\<close>

text \<open>The first token is the current one, the lexer has the others.\<close>

fun at_toks :: "penv \<Rightarrow> pstate \<Rightarrow> ptok list \<Rightarrow> bool" where
  "at_toks env s [] \<longleftrightarrow> True"
| "at_toks env s (x # xs) \<longleftrightarrow> lx_token (ps_l s) = ptk x \<and> pval x (ps_l s) \<and> avail (pe_lex env) (ps_l s) xs"

lemma at_tk: "at_toks env s (x # xs) \<Longrightarrow> lx_token (ps_l s) = ptk x"
  by simp

lemma skip_at:
  assumes "at_toks env s (x # xs)" and "xs \<noteq> []"
  obtains l where "skip env s = (Ok (), s\<lparr>ps_l := l\<rparr>)" and "at_toks env (s\<lparr>ps_l := l\<rparr>) xs"
proof -
  obtain y ys where y: "xs = y # ys" using assms(2) by (cases xs) auto
  with assms(1) obtain l where "lx_next (pe_lex env) (ps_l s) = (Ok (ptk y), l)" "lx_token l = ptk y" "pval y l"
    "avail (pe_lex env) l ys" by auto
  then show thesis by (intro that [of l]) (simp_all add: skip_def next_tk_def on_lexer_def ret_def y)
qed

lemma wantCurrent_at: "lx_token (ps_l s) = t \<Longrightarrow> wantCurrent t s = (Ok (), s)"
  by (simp add: wantCurrent_def on_lexer_def expectCurrent_def ret_def)

section \<open>Growing a program\<close>

definition added :: "bytecode list \<Rightarrow> sourceloc list \<Rightarrow> int64 list \<Rightarrow> program \<Rightarrow> program" where
  "added c ds ks P = P\<lparr>bcList := bcList P @ c, dbgList := dbgList P @ ds, tbInt := tbInt P @ ks\<rparr>"

lemma added_simps [simp]:
  "bcList (added c ds ks P) = bcList P @ c"
  "tbInt (added c ds ks P) = tbInt P @ ks"
  "added d ds' ks' (added c ds ks P) = added (c @ d) (ds @ ds') (ks @ ks') P"
  "added [] [] [] P = P"
  by (simp_all add: added_def)

text \<open>Instructions and integer constants are added to program \<open>p\<close>, and the lexer moves.\<close>

definition grows :: "nat \<Rightarrow> pstate \<Rightarrow> pstate \<Rightarrow> bytecode list \<Rightarrow> bool" where
  "grows p s s' c \<longleftrightarrow>
     p < length (ps_progs s) \<and>
     (\<exists>l ds ks. s' = s\<lparr>ps_l := l, ps_progs := (ps_progs s)[p := added c ds ks (ps_progs s ! p)]\<rparr>)"

lemma growsI:
  "p < length (ps_progs s) \<Longrightarrow>
   s' = s\<lparr>ps_l := l, ps_progs := (ps_progs s)[p := added c ds ks (ps_progs s ! p)]\<rparr> \<Longrightarrow> grows p s s' c"
  by (auto simp: grows_def)

definition here :: "pstate \<Rightarrow> nat \<Rightarrow> nat" where
  "here s p = length (bcList (ps_progs s ! p))"

definition ints :: "pstate \<Rightarrow> nat \<Rightarrow> int64 list" where
  "ints s p = tbInt (ps_progs s ! p)"

lemma grows_lexer: "p < length (ps_progs s) \<Longrightarrow> grows p s (s\<lparr>ps_l := l\<rparr>) []"
  by (rule growsI [where l = l and ds = "[]" and ks = "[]"]) simp_all

lemma grows_refl: "p < length (ps_progs s) \<Longrightarrow> grows p s s []"
  using grows_lexer [of p s "ps_l s"] by simp

lemma growsE:
  assumes "grows p s s' c"
  obtains "p < length (ps_progs s)" "p < length (ps_progs s')" "ps_stbl s' = ps_stbl s"
    "bcList (ps_progs s' ! p) = bcList (ps_progs s ! p) @ c" "here s' p = here s p + length c"
    "\<exists>ks. ints s' p = ints s p @ ks"
  using assms by (auto simp: grows_def here_def ints_def)

lemma grows_trans [trans]: "grows p s s1 c \<Longrightarrow> grows p s1 s2 d \<Longrightarrow> grows p s s2 (c @ d)"
  by (clarsimp simp: grows_def) (blast intro: refl)

lemma grows_ints: "grows p s s' c \<Longrightarrow> codes ns (ints s p) a e d \<Longrightarrow> codes ns (ints s' p) a e d"
  by (erule growsE) (auto intro: codes_more)

text \<open>What a generating function has done when it succeeds.\<close>

definition gens :: "nat \<Rightarrow> pstate \<Rightarrow> unit res \<times> pstate \<Rightarrow> bytecode list \<Rightarrow> bool" where
  "gens p s r c \<longleftrightarrow> fst r = Ok () \<and> ps_l (snd r) = ps_l s \<and> grows p s (snd r) c"

lemma gens_em1: "p < length (ps_progs s) \<Longrightarrow> gens p s (em1 p op a s) [bc op a]"
  unfolding gens_def em1_def upd_prog_def
  by (auto simp: emit1_def added_def intro!: growsI [where l = "ps_l s" and ds = "[lx_dbg (ps_l s)]" and ks = "[]"])

lemma gens_em0: "p < length (ps_progs s) \<Longrightarrow> gens p s (em0 p op s) [bc op 0]"
  using gens_em1 [of p s op 0] by (simp add: em0_def em1_def emit0_def emit1_def)

section \<open>Ready to parse\<close>

text \<open>The variables \<open>ns\<close> are the locals the scopes know, at their places.\<close>

definition sees :: "string list \<Rightarrow> scopes \<Rightarrow> bool" where
  "sees ns ss \<longleftrightarrow> (\<forall>x i. slot_of ns x = Some i \<longrightarrow> findLocal x ss = int i)"

definition ready :: "penv \<Rightarrow> string list \<Rightarrow> nat \<Rightarrow> pstate \<Rightarrow> ptok list \<Rightarrow> bool" where
  "ready env ns p s xs \<longleftrightarrow> p < length (ps_progs s) \<and> sees ns (ps_stbl s) \<and> at_toks env s xs"

lemma ready_tk: "ready env ns p s (x # xs) \<Longrightarrow> lx_token (ps_l s) = ptk x"
  by (simp add: ready_def)

lemma at_same: "ps_l s' = ps_l s \<Longrightarrow> at_toks env s' xs \<longleftrightarrow> at_toks env s xs"
  by (cases xs) simp_all

lemma ready_grows:
  "ready env ns p s xs \<Longrightarrow> grows p s s' c \<Longrightarrow> at_toks env s' ys \<Longrightarrow> ready env ns p s' ys"
  by (erule growsE) (auto simp: ready_def)

lemma ready_skip:
  assumes "ready env ns p s (x # xs)" and "xs \<noteq> []"
  obtains s' where "skip env s = (Ok (), s')" and "ready env ns p s' xs" and "grows p s s' []"
proof -
  obtain l where l: "skip env s = (Ok (), s\<lparr>ps_l := l\<rparr>)" "at_toks env (s\<lparr>ps_l := l\<rparr>) xs"
    using skip_at [of env s x xs] assms by (auto simp: ready_def)
  have g: "grows p s (s\<lparr>ps_l := l\<rparr>) []" using assms(1) by (simp add: ready_def grows_lexer)
  show thesis using that [OF l(1) ready_grows [OF assms(1) g l(2)] g] .
qed

lemma ready_gens:
  assumes "ready env ns p s xs" and "gens p s (m s) c"
  obtains s' where "m s = (Ok (), s')" and "ready env ns p s' xs" and "grows p s s' c"
proof -
  obtain s' where m: "m s = (Ok (), s')" "ps_l s' = ps_l s" "grows p s s' c"
    using assms(2) by (cases "m s") (auto simp: gens_def)
  have "at_toks env s' xs" using assms(1) at_same [OF m(2)] by (simp add: ready_def)
  from that [OF m(1) ready_grows [OF assms(1) m(3) this] m(3)] show thesis .
qed

lemma ready_em1:
  assumes "ready env ns p s xs"
  obtains s' where "em1 p op a s = (Ok (), s')" and "ready env ns p s' xs" and "grows p s s' [bc op a]"
  using ready_gens [OF assms, of "em1 p op a"] gens_em1 [of p s op a] assms by (auto simp: ready_def)

lemma ready_em0:
  assumes "ready env ns p s xs"
  obtains s' where "em0 p op s = (Ok (), s')" and "ready env ns p s' xs" and "grows p s s' [bc op 0]"
  using ready_gens [OF assms, of "em0 p op"] gens_em0 [of p s op] assms by (auto simp: ready_def)

text \<open>An integer constant is found or added.\<close>

lemma tb_find_at: "tb_find (=) xs x i = Some k \<Longrightarrow> i \<le> k \<and> k < i + length xs \<and> xs ! (k - i) = x"
  using tb_find_Some [of "(=)" xs x i k] by auto

lemma ready_em_int:
  assumes r: "ready env ns p s xs"
  obtains s' k where "em_int p op x s = (Ok (), s')" and "ready env ns p s' xs" and "grows p s s' [bc op k]"
    and "k < length (ints s' p)" and "ints s' p ! k = x"
proof -
  let ?P = "ps_progs s ! p"
  obtain Q k ks where q: "addInt ?P x = (Q, k)" and ks: "Q = added [] [] ks ?P"
    "k < length (tbInt ?P @ ks)" "(tbInt ?P @ ks) ! k = x"
  proof (cases "tb_find (=) (tbInt ?P) x 0")
    case None
    then show thesis by (intro that [of "added [] [] [x] ?P" "length (tbInt ?P)" "[x]"]) (simp_all add: addInt_def added_def)
  next
    case (Some k)
    then show thesis using tb_find_at [OF Some] by (intro that [of ?P k "[]"]) (simp_all add: addInt_def)
  qed
  define s1 where "s1 = s\<lparr>ps_progs := (ps_progs s)[p := Q]\<rparr>"
  have p: "p < length (ps_progs s)" using r by (simp add: ready_def)
  have g: "grows p s s1 []"
    using p by (intro growsI [where l = "ps_l s" and ds = "[]" and ks = ks]) (simp_all add: s1_def ks(1))
  have "ready env ns p s1 xs"
    using ready_grows [OF r g] r at_same [of s1 s env xs] by (simp add: ready_def s1_def)
  then obtain s2 where s2: "em1 p op k s1 = (Ok (), s2)" "ready env ns p s2 xs" "grows p s1 s2 [bc op k]"
    by (rule ready_em1)
  from s2(3) obtain ks' where "ints s2 p = ints s1 p @ ks'" by (rule growsE) blast
  moreover obtain J where "ints s1 p = J" "k < length J" "J ! k = x"
    using ks p by (simp add: ints_def s1_def del: append_assoc)
  ultimately have "k < length (ints s2 p)" "ints s2 p ! k = x" by (simp_all add: nth_append)
  moreover have "em_int p op x s = (Ok (), s2)"
    using s2(1) by (simp add: em_int_def add_const_def prog_at_def q s1_def)
  moreover have "grows p s s2 [bc op k]" using grows_trans [OF g s2(3)] by simp
  ultimately show thesis using that s2(2) by blast
qed


section \<open>Atoms\<close>

text \<open>What may follow an operand: nothing that would make it longer.\<close>

definition ends_atom :: "ptok \<Rightarrow> bool" where
  "ends_atom y \<longleftrightarrow> ptk y \<notin> {TkDot, TkLSqr, TkColon, TkLPar, TkPipe, TkScope}"

definition parsed ::
  "penv \<Rightarrow> string list \<Rightarrow> nat \<Rightarrow> expr \<Rightarrow> ptok list \<Rightarrow> pstate \<Rightarrow> unit res \<times> pstate \<Rightarrow> bool"
where
  "parsed env ns p e xs s r \<longleftrightarrow>
     (\<exists>s' c. r = (Ok (), s') \<and> ready env ns p s' xs \<and> grows p s s' c \<and> codes ns (ints s' p) (here s p) e c)"

lemma parsedI:
  "r = (Ok (), s') \<Longrightarrow> ready env ns p s' xs \<Longrightarrow> grows p s s' c \<Longrightarrow> codes ns (ints s' p) (here s p) e c \<Longrightarrow>
   parsed env ns p e xs s r"
  by (auto simp: parsed_def)

lemma parsedE:
  assumes "parsed env ns p e xs s r"
  obtains s' c where "r = (Ok (), s')" and "ready env ns p s' xs" and "grows p s s' c"
    and "codes ns (ints s' p) (here s p) e c"
  using assms by (auto simp: parsed_def)

lemma parseSuffix_none:
  assumes "ready env ns p s (y # ys)" and "ends_atom y"
  shows "parseSuffix (Suc n) env K p s = (Ok (), s)"
  using assms by (simp add: ready_def ends_atom_def parseSuffix_def parseSuffixImpl_def suffix_round_def bnd_def
      tk_def ret_def)

text \<open>A primary expression of one token: \<open>m\<close> generates it behind the token.\<close>

lemma parseAtomic_token:
  assumes r: "ready env ns p s (x # y # ys)" and y: "ends_atom y"
    and m: "\<And>s1. ready env ns p s1 (y # ys) \<Longrightarrow> grows p s s1 [] \<Longrightarrow>
      parsed env ns p e (y # ys) s1 (parsePrimary (Suc n) env K p (get_lexeme s) s1)"
  shows "parsed env ns p e (y # ys) s (parseAtomic (Suc n) env K p s)"
proof -
  obtain s1 where s1: "skip env s = (Ok (), s1)" "ready env ns p s1 (y # ys)" "grows p s s1 []"
    using r by (rule ready_skip) simp
  from m [OF s1(2,3)] obtain s2 c where s2: "parsePrimary (Suc n) env K p (get_lexeme s) s1 = (Ok (), s2)"
    "ready env ns p s2 (y # ys)" "grows p s1 s2 c" "codes ns (ints s2 p) (here s1 p) e c" by (rule parsedE)
  show ?thesis
  proof (rule parsedI [OF _ s2(2)])
    show "parseAtomic (Suc n) env K p s = (Ok (), s2)"
      using s1(1) s2(1) parseSuffix_none [OF s2(2) y]
      by (simp add: parseAtomic_def bnd_def thn_def gets_def)
    show "grows p s s2 c" using grows_trans [OF s1(3) s2(3)] by simp
    show "codes ns (ints s2 p) (here s p) e c" using s2(4) s1(3) by (auto elim!: growsE)
  qed
qed

fun is_atom :: "expr \<Rightarrow> bool" where
  "is_atom (EUn t e) = False"
| "is_atom (EBin t a b) = False"
| "is_atom (ECond v c w) = False"
| "is_atom e = True"

lemma findLocal_resolves:
  "findLocal x (ps_stbl s) = int i \<Longrightarrow> resolveSymbol x False s = (Ok (SymLocal, int i), s)"
  by (simp add: resolveSymbol_def)

lemma int_value: "sint (w :: int64) = int n \<Longrightarrow> w = of_nat n"
proof -
  assume "sint w = int n"
  then have "word_of_int (sint w) = (word_of_int (int n) :: int64)" by simp
  then show "w = of_nat n" by simp
qed

lemma get_lexeme_simps [simp]:
  "lm_token (get_lexeme s) = lx_token (ps_l s)"
  "lm_ival (get_lexeme s) = valueInt (ps_l s)"
  "lm_sval (get_lexeme s) = valueText (ps_l s)"
  by (simp_all add: get_lexeme_def Let_def)

lemma parse_keyword:
  assumes k: "(e, t, op) \<in> {(ETrue, TkTrue, BcLoadTrue), (EFalse, TkFalse, BcLoadFalse), (ENull, TkNull, BcLoadNull)}"
    and r: "ready env ns p s (PTok t # y # ys)" and y: "ends_atom y"
  shows "parsed env ns p e (y # ys) s (parseAtomic (Suc n) env K p s)"
proof (rule parseAtomic_token [OF r y])
  fix s1 assume "ready env ns p s1 (y # ys)"
  then obtain s2 where s2: "em0 p op s1 = (Ok (), s2)" "ready env ns p s2 (y # ys)" "grows p s1 s2 [bc op 0]"
    by (rule ready_em0)
  show "parsed env ns p e (y # ys) s1 (parsePrimary (Suc n) env K p (get_lexeme s) s1)"
  proof (rule parsedI [OF _ s2(2,3)])
    show "parsePrimary (Suc n) env K p (get_lexeme s) s1 = (Ok (), s2)"
      using k s2(1) ready_tk [OF r] by (auto simp: parsePrimary_def)
    show "codes ns (ints s2 p) (here s1 p) e [bc op 0]" using k by (auto intro: codes.intros)
  qed
qed

lemma parse_int:
  assumes r: "ready env ns p s (PNum i # y # ys)" and y: "ends_atom y"
  shows "parsed env ns p (EInt i) (y # ys) s (parseAtomic (Suc n) env K p s)"
proof (rule parseAtomic_token [OF r y])
  have v: "lx_token (ps_l s) = TkInt" "valueInt (ps_l s) = of_nat i"
    using r by (auto simp: ready_def intro: int_value)
  fix s1 assume "ready env ns p s1 (y # ys)"
  then obtain s2 k where s2: "em_int p BcLoadInt (of_nat i) s1 = (Ok (), s2)" "ready env ns p s2 (y # ys)"
    "grows p s1 s2 [bc BcLoadInt k]" "k < length (ints s2 p)" "ints s2 p ! k = of_nat i"
    by (rule ready_em_int)
  show "parsed env ns p (EInt i) (y # ys) s1 (parsePrimary (Suc n) env K p (get_lexeme s) s1)"
  proof (rule parsedI [OF _ s2(2,3)])
    show "parsePrimary (Suc n) env K p (get_lexeme s) s1 = (Ok (), s2)"
      using s2(1) v by (simp add: parsePrimary_def)
  qed (use s2(4,5) in \<open>rule c_int\<close>)
qed

lemma parse_var:
  assumes x: "x \<in> set ns" and r: "ready env ns p s (PName x # y # ys)" and y: "ends_atom y"
  shows "parsed env ns p (EVar x) (y # ys) s (parseAtomic (Suc n) env K p s)"
proof (rule parseAtomic_token [OF r y])
  have l: "lx_token (ps_l s) = TkId" "valueText (ps_l s) = x" using r by (auto simp: ready_def)
  obtain i where i: "slot_of ns x = Some i" using x by (auto simp: slot_of_Some)
  fix s1 assume s1: "ready env ns p s1 (y # ys)"
  then have f: "findLocal x (ps_stbl s1) = int i" using i by (simp add: ready_def sees_def)
  have t: "lx_token (ps_l s1) \<noteq> TkScope" "lx_token (ps_l s1) \<noteq> TkLPar"
    using s1 y by (auto simp: ready_def ends_atom_def)
  from s1 obtain s2 where s2: "em1 p BcLoadLocal i s1 = (Ok (), s2)" "ready env ns p s2 (y # ys)"
    "grows p s1 s2 [bc BcLoadLocal i]" by (rule ready_em1)
  show "parsed env ns p (EVar x) (y # ys) s1 (parsePrimary (Suc n) env K p (get_lexeme s) s1)"
  proof (rule parsedI [OF _ s2(2,3)])
    show "parsePrimary (Suc n) env K p (get_lexeme s) s1 = (Ok (), s2)"
      using s2(1) l t by (simp add: parsePrimary_def parsePrefixExpr_def parseModSymbol_def bnd_def
          tk_def ret_def fullname_def parseLoadSymbol_def Let_def findLocal_resolves [OF f])
  qed (use i in \<open>simp add: c_var\<close>)
qed

lemma parse_atom:
  assumes "is_atom e" "expr_ok ns e" "ready env ns p s (body e @ y # ys)" "ends_atom y"
  shows "parsed env ns p e (y # ys) s (parseAtomic (Suc n) env K p s)"
  using assms parse_int parse_var parse_keyword [of e]
  by (cases e) simp_all

section \<open>Holes\<close>

lemma ready_hole:
  assumes "ready env ns p s xs"
  obtains s' where "hole p s = (Ok (here s p), s')" and "ready env ns p s' xs" and "grows p s s' [bc BcPatch 0]"
proof -
  have h: "hole p s = (Ok (here s p), snd (em0 p BcPatch s))"
    by (simp add: hole_def em0_def upd_prog_def emit0_def patch_def prog_at_def here_def)
  from assms obtain s' where "em0 p BcPatch s = (Ok (), s')" "ready env ns p s' xs" "grows p s s' [bc BcPatch 0]"
    by (rule ready_em0)
  with h that show thesis by simp
qed

text \<open>A hole in what has been generated since \<open>s0\<close> is filled.\<close>

lemma ready_patch:
  assumes r: "ready env ns p s xs" and g: "grows p s0 s (cl @ b # cr)" and i: "i = here s0 p + length cl"
  obtains s' where "em1At p i op a s = (Ok (), s')" and "ready env ns p s' xs" and "grows p s0 s' (cl @ bc op a # cr)"
    and "ints s' p = ints s p"
proof -
  have p: "p < length (ps_progs s0)" "p < length (ps_progs s)" using g by (auto elim: growsE)
  from g obtain l ds ks where s: "s = s0\<lparr>ps_l := l, ps_progs := (ps_progs s0)[p := added (cl @ b # cr) ds ks (ps_progs s0 ! p)]\<rparr>"
    by (auto simp: grows_def)
  let ?P = "ps_progs s ! p" and ?Q = "added (cl @ bc op a # cr) ds ks (ps_progs s0 ! p)"
  have bcs: "bcList ?P = bcList (ps_progs s0 ! p) @ cl @ b # cr" using p(1) by (simp add: s)
  have e: "emit1At ?P i op a = Ok ?Q"
    using i p(1) by (simp add: emit1At_def bcs here_def list_update_append) (simp add: s added_def)
  define s' where "s' = s\<lparr>ps_progs := (ps_progs s)[p := ?Q]\<rparr>"
  have "em1At p i op a s = (Ok (), s')"
    by (simp add: em1At_def prog_at_def e upd_prog_def s'_def)
  moreover have "grows p s0 s' (cl @ bc op a # cr)"
    using p(1) by (intro growsI [where l = l and ds = ds and ks = ks]) (simp_all add: s'_def s)
  moreover have "ready env ns p s' xs"
    using r at_same [of s' s env xs] by (simp add: ready_def s'_def)
  moreover have "ints s' p = ints s p" using p(1) by (simp add: ints_def s'_def s)
  ultimately show thesis using that by blast
qed

section \<open>The parser's calls\<close>

definition X_ok :: "penv \<Rightarrow> string list \<Rightarrow> nat \<Rightarrow> nat \<Rightarrow> expr \<Rightarrow> bool" where
  "X_ok env ns p n e \<longleftrightarrow> (\<forall>s y ys. ready env ns p s (body e @ y # ys) \<longrightarrow> ends_atom y \<longrightarrow>
     binPrecedence (ptk y) = - 1 \<longrightarrow> ptk y \<noteq> TkIf \<longrightarrow> parsed env ns p e (y # ys) s (tied n env (PExpr p) s))"

definition B_ok :: "penv \<Rightarrow> string list \<Rightarrow> nat \<Rightarrow> nat \<Rightarrow> int \<Rightarrow> expr \<Rightarrow> bool" where
  "B_ok env ns p n q e \<longleftrightarrow> (\<forall>s y ys. ready env ns p s (operand q e @ y # ys) \<longrightarrow> ends_atom y \<longrightarrow>
     binPrecedence (ptk y) < q \<longrightarrow> parsed env ns p e (y # ys) s (tied n env (PBinary p q) s))"

definition U_ok :: "penv \<Rightarrow> string list \<Rightarrow> nat \<Rightarrow> nat \<Rightarrow> expr \<Rightarrow> bool" where
  "U_ok env ns p n e \<longleftrightarrow> (\<forall>s y ys. ready env ns p s (operand 6 e @ y # ys) \<longrightarrow> ends_atom y \<longrightarrow>
     parsed env ns p e (y # ys) s (tied n env (PUnary p) s))"

lemma parse_paren:
  assumes X: "X_ok env ns p n e" and r: "ready env ns p s (PTok TkLPar # body e @ PTok TkRPar # y # ys)"
    and y: "ends_atom y"
  shows "parsed env ns p e (y # ys) s (parseAtomic (Suc k) env (tied n env) p s)"
proof -
  obtain s1 where s1: "skip env s = (Ok (), s1)" "ready env ns p s1 (body e @ PTok TkRPar # y # ys)" "grows p s s1 []"
    using r by (rule ready_skip) simp
  have "parsed env ns p e (PTok TkRPar # y # ys) s1 (tied n env (PExpr p) s1)"
    using X s1(2) by (auto simp: X_ok_def ends_atom_def binPrecedence_def)
  then obtain s2 c where s2: "tied n env (PExpr p) s1 = (Ok (), s2)" "ready env ns p s2 (PTok TkRPar # y # ys)"
    "grows p s1 s2 c" "codes ns (ints s2 p) (here s1 p) e c" by (rule parsedE)
  obtain s3 where s3: "skip env s2 = (Ok (), s3)" "ready env ns p s3 (y # ys)" "grows p s2 s3 []"
    using s2(2) by (rule ready_skip) simp
  have t: "lx_token (ps_l s) = TkLPar" "lx_token (ps_l s2) = TkRPar"
    using r s2(2) by (simp_all add: ready_def)
  show ?thesis
  proof (rule parsedI [OF _ s3(2)])
    show "parseAtomic (Suc k) env (tied n env) p s = (Ok (), s3)"
      using s1(1) s2(1) s3(1) t parseSuffix_none [OF s3(2) y]
      by (simp add: parseAtomic_def parsePrimary_def parsePairOrSubexpr_def bnd_def thn_def gets_def tk_def)
    show "grows p s s3 c" using grows_trans [OF grows_trans [OF s1(3) s2(3)] s3(3)] by simp
    show "codes ns (ints s3 p) (here s p) e c"
      using s2(4) s1(3) s3(3) grows_ints by (auto elim!: growsE [of p s s1])
  qed
qed

lemma not_unary_start: "is_atom e \<Longrightarrow> \<exists>x. body e = [x] \<and> ptk x \<notin> set [TkAdd, TkSub, TkNot]"
  by (cases e) simp_all

lemma parse_unary:
  assumes e: "expr_ok ns e" and X: "level e < 6 \<Longrightarrow> X_ok env ns p n e"
    and U: "\<And>t a. e = EUn t a \<Longrightarrow> U_ok env ns p n a" and n: "0 < n"
  shows "U_ok env ns p (Suc n) e"
  unfolding U_ok_def
proof (intro allI impI)
  fix s y ys assume r: "ready env ns p s (operand 6 e @ y # ys)" and y: "ends_atom y"
  obtain k where k: "n = Suc k" using n by (cases n) auto
  have u: "tied (Suc n) env (PUnary p) s = parseUnary n env (tied n env) p s" by (simp add: parse_call_def)
  consider (paren) "level e < 6" | (atom) "is_atom e" | (un) t a where "e = EUn t a"
    using e by (cases e) (auto simp: strength_def bin_tokens_def split: option.splits if_splits)
  then show "parsed env ns p e (y # ys) s (tied (Suc n) env (PUnary p) s)"
  proof cases
    case paren
    with r have r': "ready env ns p s (PTok TkLPar # body e @ PTok TkRPar # y # ys)" by simp
    with u have "tied (Suc n) env (PUnary p) s = parseAtomic (Suc k) env (tied n env) p s"
      by (simp add: parseUnary_def bnd_def tk_def ready_def k)
    with parse_paren [OF X [OF paren] r' y] show ?thesis by simp
  next
    case atom
    then have l: "level e = 6" by (cases e) simp_all
    from not_unary_start [OF atom] obtain x where "body e = [x]" "ptk x \<notin> set [TkAdd, TkSub, TkNot]" by blast
    with r l u have "tied (Suc n) env (PUnary p) s = parseAtomic (Suc k) env (tied n env) p s"
      by (simp add: parseUnary_def bnd_def tk_def ready_def k)
    with parse_atom [OF atom e _ y] r l show ?thesis by simp
  next
    case (un t a)
    with r have r': "ready env ns p s (PTok t # operand 6 a @ y # ys)" by simp
    from r' obtain s1 where s1: "skip env s = (Ok (), s1)" "ready env ns p s1 (operand 6 a @ y # ys)" "grows p s s1 []"
      by (rule ready_skip) simp
    have "parsed env ns p a (y # ys) s1 (tied n env (PUnary p) s1)"
      using U [OF un] s1(2) y by (simp add: U_ok_def del: operand.simps)
    then obtain s2 c where s2: "tied n env (PUnary p) s1 = (Ok (), s2)" "ready env ns p s2 (y # ys)"
      "grows p s1 s2 c" "codes ns (ints s2 p) (here s1 p) a c" by (rule parsedE)
    define d where "d = (if t = TkSub then [bc BcNegate 0] else if t = TkNot then [bc BcNot 0] else [])"
    obtain s3 where s3: "(if t = TkSub then em0 p BcNegate else if t = TkNot then em0 p BcNot else ret ()) s2 = (Ok (), s3)"
      "ready env ns p s3 (y # ys)" "grows p s2 s3 d"
    proof -
      consider "t = TkSub" | "t = TkNot" | "t \<noteq> TkSub" "t \<noteq> TkNot" by blast
      then show thesis
      proof cases
        case 1
        from s2(2) obtain s3 where "em0 p BcNegate s2 = (Ok (), s3)" "ready env ns p s3 (y # ys)" "grows p s2 s3 [bc BcNegate 0]"
          by (rule ready_em0)
        with 1 show thesis by (intro that) (simp_all add: d_def)
      next
        case 2
        from s2(2) obtain s3 where "em0 p BcNot s2 = (Ok (), s3)" "ready env ns p s3 (y # ys)" "grows p s2 s3 [bc BcNot 0]"
          by (rule ready_em0)
        with 2 show thesis by (intro that) (simp_all add: d_def)
      next
        case 3
        then show thesis using s2(2) by (intro that [of s2]) (auto simp: d_def ret_def ready_def intro: grows_refl)
      qed
    qed
    show ?thesis
    proof (rule parsedI [OF _ s3(2)])
      have "t \<in> set [TkAdd, TkSub, TkNot]" using e by (simp add: un un_tokens_def)
      then show "tied (Suc n) env (PUnary p) s = (Ok (), s3)"
        using s1(1) s2(1) s3(1) ready_tk [OF r'] unfolding u
        by (simp add: parseUnary_def bnd_def thn_def tk_def)
      show "grows p s s3 (c @ d)" using grows_trans [OF grows_trans [OF s1(3) s2(3)] s3(3)] by simp
      have "codes ns (ints s3 p) (here s p) a c"
        using s2(4) s1(3) grows_ints [OF s3(3)] by (auto elim!: growsE [of p s s1])
      then show "codes ns (ints s3 p) (here s p) e (c @ d)" unfolding un d_def by (rule c_un)
    qed
  qed
qed


section \<open>Precedence climbing\<close>

lemma bin_token_strength:
  "t \<in> set (map fst bin_tokens) \<Longrightarrow>
   binPrecedence t = strength t \<and> 0 \<le> strength t \<and> strength t < 6 \<and> ends_atom (PTok t) \<and> t \<noteq> TkIf"
  by (auto simp: bin_tokens_def binPrecedence_def strength_def ends_atom_def)

fun esize :: "expr \<Rightarrow> nat" where
  "esize (EUn t e) = Suc (esize e)"
| "esize (EBin t a b) = Suc (esize a + esize b)"
| "esize (ECond v c w) = Suc (esize v + esize c + esize w)"
| "esize e = 1"

text \<open>An operator and its right operand, behind the code of its left operand.\<close>

lemma binary_round_step:
  assumes t: "t \<in> set (map fst bin_tokens)" "q \<le> strength t" and B: "B_ok env ns p n (strength t + 1) b"
    and r: "ready env ns p s1 (PTok t # operand (strength t + 1) b @ y # ys)" and y: "ends_atom y"
    "binPrecedence (ptk y) \<le> strength t"
    and g: "grows p s s1 ca" and ca: "codes ns (ints s1 p) (here s p) a ca"
  obtains s2 c where "binary_round env (tied n env) p q () s1 = (Ok (Inl ()), s2)" and "ready env ns p s2 (y # ys)"
    and "grows p s s2 c" and "codes ns (ints s2 p) (here s p) (EBin t a b) c"
proof -
  note st = bin_token_strength [OF t(1)]
  have tk: "lx_token (ps_l s1) = t" using ready_tk [OF r] by simp
  have here1: "here s1 p = here s p + length ca" using g by (rule growsE)
  show thesis
  proof (cases "t = TkAnd \<or> t = TkOr")
    case True
    let ?op = "if t = TkAnd then BcAnd else BcOr"
    from r obtain s2 where s2: "hole p s1 = (Ok (here s1 p), s2)"
      "ready env ns p s2 (PTok t # operand (strength t + 1) b @ y # ys)" "grows p s1 s2 [bc BcPatch 0]"
      by (rule ready_hole)
    from s2(2) obtain s3 where s3: "skip env s2 = (Ok (), s3)" "ready env ns p s3 (operand (strength t + 1) b @ y # ys)"
      "grows p s2 s3 []" by (rule ready_skip) simp
    have "parsed env ns p b (y # ys) s3 (tied n env (PBinary p (strength t + 1)) s3)"
      using B s3(2) y by (simp add: B_ok_def del: operand.simps)
    then obtain s4 cb where s4: "tied n env (PBinary p (strength t + 1)) s3 = (Ok (), s4)" "ready env ns p s4 (y # ys)"
      "grows p s3 s4 cb" "codes ns (ints s4 p) (here s3 p) b cb" by (rule parsedE)
    have g4: "grows p s s4 (ca @ bc BcPatch 0 # cb)"
      using grows_trans [OF grows_trans [OF grows_trans [OF g s2(3)] s3(3)] s4(3)] by simp
    obtain s5 where s5: "em1At p (here s1 p) ?op (here s4 p) s4 = (Ok (), s5)" "ready env ns p s5 (y # ys)"
      "grows p s s5 (ca @ bc ?op (here s4 p) # cb)" "ints s5 p = ints s4 p"
      using ready_patch [OF s4(2) g4 here1, of ?op "here s4 p"] by blast
    have h3: "here s3 p = here s p + length ca + 1"
      using s2(3) s3(3) here1 by (auto elim!: growsE)
    have h4: "here s4 p = here s p + length ca + 1 + length cb"
      using g4 by (auto elim!: growsE)
    show thesis
    proof (rule that [OF _ s5(2)])
      show "binary_round env (tied n env) p q () s1 = (Ok (Inl ()), s5)"
        using s2(1) s3(1) s4(1) s5(1) st t(2) True
        by (auto simp: binary_round_def bnd_def thn_def tk_def tk Let_def ret_def land_here_def label_def prog_at_def here_def)
      show "grows p s s5 (ca @ bc ?op (here s p + length ca + 1 + length cb) # cb)"
        using s5(3) by (simp only: h4)
      have "codes ns (ints s5 p) (here s p) a ca"
        using grows_ints [OF s2(3) ca, THEN grows_ints [OF s3(3)], THEN grows_ints [OF s4(3)]] by (simp only: s5(4))
      then show "codes ns (ints s5 p) (here s p) (EBin t a b) (ca @ bc ?op (here s p + length ca + 1 + length cb) # cb)"
        using s4(4) True by (intro c_logic) (simp_all only: s5(4) h3)
    qed
  next
    case False
    from r obtain s2 where s2: "skip env s1 = (Ok (), s2)" "ready env ns p s2 (operand (strength t + 1) b @ y # ys)"
      "grows p s1 s2 []" by (rule ready_skip) simp
    have "parsed env ns p b (y # ys) s2 (tied n env (PBinary p (strength t + 1)) s2)"
      using B s2(2) y by (simp add: B_ok_def del: operand.simps)
    then obtain s3 cb where s3: "tied n env (PBinary p (strength t + 1)) s2 = (Ok (), s3)" "ready env ns p s3 (y # ys)"
      "grows p s2 s3 cb" "codes ns (ints s3 p) (here s2 p) b cb" by (rule parsedE)
    from s3(2) obtain s4 where s4: "em0 p (bin_opcode t) s3 = (Ok (), s4)" "ready env ns p s4 (y # ys)"
      "grows p s3 s4 [bc (bin_opcode t) 0]" by (rule ready_em0)
    show thesis
    proof (rule that [OF _ s4(2)])
      show "binary_round env (tied n env) p q () s1 = (Ok (Inl ()), s4)"
        using s2(1) s3(1) s4(1) st t(2) False
        by (simp add: binary_round_def bnd_def thn_def tk_def tk Let_def ret_def)
      show "grows p s s4 (ca @ cb @ [bc (bin_opcode t) 0])"
        using grows_trans [OF grows_trans [OF grows_trans [OF g s2(3)] s3(3)] s4(3)] by simp
      have "here s2 p = here s p + length ca" using s2(3) here1 by (auto elim!: growsE)
      then show "codes ns (ints s4 p) (here s p) (EBin t a b) (ca @ cb @ [bc (bin_opcode t) 0])"
        using False grows_ints [OF s2(3) ca, THEN grows_ints [OF s3(3)], THEN grows_ints [OF s4(3)]]
          grows_ints [OF s4(3) s3(4)]
        by (intro c_bin) simp_all
    qed
  qed
qed

text \<open>
  The loop of \<open>parseBinaryRest\<close> from the first unary operand on: it consumes the whole operand in
  some of its rounds, and goes on behind it.
\<close>

lemma level_cases: "expr_ok ns e \<Longrightarrow> level e < 6 \<or> level e = 6"
  using bin_token_strength by (cases e) auto

lemma climb_atom:
  assumes "U_ok env ns p n e"
    and "ready env ns p s (operand 6 e @ y # ys)" and "ends_atom y"
  shows "\<exists>s1 c j. j < esize e \<and>
    thn (tied n env (PUnary p)) (loop m (binary_round env (tied n env) p q) ()) s =
      loop (m - j) (binary_round env (tied n env) p q) () s1 \<and>
    ready env ns p s1 (y # ys) \<and> grows p s s1 c \<and> codes ns (ints s1 p) (here s p) e c"
proof -
  have "parsed env ns p e (y # ys) s (tied n env (PUnary p) s)"
    using assms by (simp add: U_ok_def del: operand.simps)
  then obtain s1 c where s1: "tied n env (PUnary p) s = (Ok (), s1)" "ready env ns p s1 (y # ys)" "grows p s s1 c"
    "codes ns (ints s1 p) (here s p) e c" by (rule parsedE)
  have "0 < esize e" by (cases e) simp_all
  with s1 show ?thesis by (intro exI [of _ s1] exI [of _ c] exI [of _ 0]) (simp add: thn_def)
qed

lemma climb:
  assumes "expr_ok ns e" and "\<And>f. expr_ok ns f \<Longrightarrow> esize f < esize e \<or> f = e \<and> (level e < i \<or> level e = 6) \<Longrightarrow> U_ok env ns p n f"
    and "\<And>f i. expr_ok ns f \<Longrightarrow> esize f < esize e \<Longrightarrow> 0 \<le> i \<Longrightarrow> i \<le> 6 \<Longrightarrow> B_ok env ns p n i f"
    and "0 \<le> q" "q \<le> i" "i \<le> 6" and "ready env ns p s (operand i e @ y # ys)" and "ends_atom y"
    and "level e < i \<or> binPrecedence (ptk y) \<le> level e" and "esize e \<le> m"
  shows "\<exists>s1 c j. j < esize e \<and>
    thn (tied n env (PUnary p)) (loop m (binary_round env (tied n env) p q) ()) s =
      loop (m - j) (binary_round env (tied n env) p q) () s1 \<and>
    ready env ns p s1 (y # ys) \<and> grows p s s1 c \<and> codes ns (ints s1 p) (here s p) e c"
  using assms
proof (induction e arbitrary: q i y ys m)
  case (EBin t a b)
  show ?case
  proof (cases "level (EBin t a b) < i")
    case True
    with EBin.prems(6,7) have "ready env ns p s (operand 6 (EBin t a b) @ y # ys)" by simp
    with EBin.prems(1,2,8) True show ?thesis by (intro climb_atom) simp_all
  next
    case False
    have t: "t \<in> set (map fst bin_tokens)" "expr_ok ns a" "expr_ok ns b" "q \<le> strength t"
      "binPrecedence (ptk y) \<le> strength t" using EBin.prems False by auto
    note st = bin_token_strength [OF t(1)]
    have r: "ready env ns p s (operand (strength t) a @ PTok t # operand (strength t + 1) b @ y # ys)"
      using EBin.prems(7) False by simp
    have Ua: "U_ok env ns p n f" if "expr_ok ns f" "esize f < esize a \<or> f = a \<and> (level a < strength t \<or> level a = 6)" for f
      using that by (intro EBin.prems(2)) auto
    have Ba: "B_ok env ns p n k f" if "expr_ok ns f" "esize f < esize a" "0 \<le> k" "k \<le> 6" for f k
      using that by (intro EBin.prems(3)) auto
    have d: "level a < strength t \<or> binPrecedence (ptk (PTok t)) \<le> level a" using st by auto
    obtain s1 ca j where s1: "j < esize a"
      "thn (tied n env (PUnary p)) (loop m (binary_round env (tied n env) p q) ()) s =
         loop (m - j) (binary_round env (tied n env) p q) () s1"
      "ready env ns p s1 (PTok t # operand (strength t + 1) b @ y # ys)" "grows p s s1 ca"
      "codes ns (ints s1 p) (here s p) a ca"
      using EBin.IH(1) [OF t(2) Ua Ba EBin.prems(4) t(4) _ r _ d, of m] EBin.prems(10) st by auto
    have "B_ok env ns p n (strength t + 1) b" using EBin.prems(3) t(3) st by simp
    from binary_round_step [OF t(1,4) this s1(3) EBin.prems(8) t(5) s1(4,5)] obtain s2 c where
      s2: "binary_round env (tied n env) p q () s1 = (Ok (Inl ()), s2)" "ready env ns p s2 (y # ys)" "grows p s s2 c"
        "codes ns (ints s2 p) (here s p) (EBin t a b) c" by blast
    have "m - j = Suc (m - Suc j)" using s1(1) EBin.prems(10) by simp
    then have "loop (m - j) (binary_round env (tied n env) p q) () s1 = loop (m - Suc j) (binary_round env (tied n env) p q) () s2"
      using s2(1) by simp
    with s1(1,2) s2 show ?thesis by (intro exI [of _ s2] exI [of _ c] exI [of _ "Suc j"]) simp
  qed
next
  case (EUn t e)
  then show ?case by (intro climb_atom) (simp_all split: if_splits)
next
  case (ECond v c w)
  then show ?case by (intro climb_atom) (simp_all split: if_splits)
qed (intro climb_atom; simp split: if_splits)+


lemma parse_binary:
  assumes e: "expr_ok ns e" and U: "\<And>f. expr_ok ns f \<Longrightarrow> esize f < esize e \<or> f = e \<and> (level e < q \<or> level e = 6) \<Longrightarrow> U_ok env ns p n f"
    and B: "\<And>f i. expr_ok ns f \<Longrightarrow> esize f < esize e \<Longrightarrow> 0 \<le> i \<Longrightarrow> i \<le> 6 \<Longrightarrow> B_ok env ns p n i f"
    and q: "0 \<le> q" "q \<le> 6" and n: "esize e \<le> n"
  shows "B_ok env ns p (Suc n) q e"
  unfolding B_ok_def
proof (intro allI impI)
  fix s y ys
  assume r: "ready env ns p s (operand q e @ y # ys)" and y: "ends_atom y" "binPrecedence (ptk y) < q"
  show "parsed env ns p e (y # ys) s (tied (Suc n) env (PBinary p q) s)"
  proof (cases "q = 6")
    case True
    then show ?thesis using U [OF e] level_cases [OF e] r y(1) by (simp add: U_ok_def parse_call_def parseBinary_def)
  next
    case False
    have d: "level e < q \<or> binPrecedence (ptk y) \<le> level e" using y(2) by linarith
    obtain s1 c j where s1: "j < esize e"
      "thn (tied n env (PUnary p)) (loop n (binary_round env (tied n env) p q) ()) s =
        loop (n - j) (binary_round env (tied n env) p q) () s1"
      "ready env ns p s1 (y # ys)" "grows p s s1 c" "codes ns (ints s1 p) (here s p) e c"
      using climb [OF e U B q(1) order_refl q(2) r y(1) d n] by blast
    obtain k where k: "n - j = Suc k" using s1(1) n by (cases "n - j") auto
    have "loop (n - j) (binary_round env (tied n env) p q) () s1 = (Ok (), s1)"
      using ready_tk [OF s1(3)] y(2) by (simp add: k binary_round_def bnd_def tk_def Let_def ret_def)
    then have "tied (Suc n) env (PBinary p q) s = (Ok (), s1)"
      using s1(2) False by (simp add: parse_call_def parseBinary_def parseBinaryRest_def [abs_def])
    then show ?thesis using s1(3-5) by (rule parsedI)
  qed
qed

lemma parse_expr:
  assumes e: "expr_ok ns e" and n: "0 < n"
    and B: "\<And>f q. expr_ok ns f \<Longrightarrow> 0 \<le> q \<Longrightarrow> q \<le> 6 \<Longrightarrow>
      f = e \<and> q \<le> level e \<or> esize f < esize e \<Longrightarrow> B_ok env ns p n q f"
  shows "X_ok env ns p (Suc n) e"
  unfolding X_ok_def
proof (intro allI impI)
  fix s y ys
  assume r: "ready env ns p s (body e @ y # ys)" and y: "ends_atom y" "binPrecedence (ptk y) = - 1" "ptk y \<noteq> TkIf"
  have t: "tied (Suc n) env (PExpr p) s = parseTernary env (tied n env) p s" by (simp add: parse_call_def)
  show "parsed env ns p e (y # ys) s (tied (Suc n) env (PExpr p) s)"
  proof (cases "level e < 0")
    case False
    then have "parsed env ns p e (y # ys) s (tied n env (PBinary p 0) s)"
      using B [OF e, of 0] r y False by (simp add: B_ok_def)
    then obtain s1 c where s1: "tied n env (PBinary p 0) s = (Ok (), s1)" "ready env ns p s1 (y # ys)"
      "grows p s s1 c" "codes ns (ints s1 p) (here s p) e c" by (rule parsedE)
    show ?thesis
      using s1 ready_tk [OF s1(2)] y(3)
      by (intro parsedI [OF _ s1(2-4)]) (simp add: parse_call_def parseTernary_def parseTernaryRest_def thn_def bnd_def tk_def ret_def)
  next
    case True
    then obtain v u w where e': "e = ECond v u w"
    proof (cases e)
      case (EBin t a b)
      with e True bin_token_strength [of t] show ?thesis by simp
    qed simp_all
    have ok: "expr_ok ns v" "expr_ok ns u" "expr_ok ns w" using e by (simp_all add: e')
    have Bs: "B_ok env ns p n 0 v" "B_ok env ns p n 0 u" "B_ok env ns p n 0 w"
      using B [of v 0] B [of u 0] B [of w 0] ok by (simp_all add: e')
    have r0: "ready env ns p s (operand 0 v @ PTok TkIf # operand 0 u @ PTok TkElse # operand 0 w @ y # ys)"
      using r by (simp add: e')
    have f: "ends_atom (PTok TkIf)" "ends_atom (PTok TkElse)" "binPrecedence TkIf = - 1" "binPrecedence TkElse = - 1"
      by (simp_all add: ends_atom_def binPrecedence_def)
    have "parsed env ns p v (PTok TkIf # operand 0 u @ PTok TkElse # operand 0 w @ y # ys) s (tied n env (PBinary p 0) s)"
      using Bs(1) r0 f by (simp add: B_ok_def del: operand.simps)
    then obtain s1 cv where s1: "tied n env (PBinary p 0) s = (Ok (), s1)"
      "ready env ns p s1 (PTok TkIf # operand 0 u @ PTok TkElse # operand 0 w @ y # ys)"
      "grows p s s1 cv" "codes ns (ints s1 p) (here s p) v cv" by (rule parsedE)
    from s1(2) obtain s2 where s2: "skip env s1 = (Ok (), s2)"
      "ready env ns p s2 (operand 0 u @ PTok TkElse # operand 0 w @ y # ys)" "grows p s1 s2 []" by (rule ready_skip) simp
    have "parsed env ns p u (PTok TkElse # operand 0 w @ y # ys) s2 (tied n env (PBinary p 0) s2)"
      using Bs(2) s2(2) f by (simp add: B_ok_def del: operand.simps)
    then obtain s3 cu where s3: "tied n env (PBinary p 0) s2 = (Ok (), s3)"
      "ready env ns p s3 (PTok TkElse # operand 0 w @ y # ys)"
      "grows p s2 s3 cu" "codes ns (ints s3 p) (here s2 p) u cu" by (rule parsedE)
    from s3(2) obtain s4 where s4: "hole p s3 = (Ok (here s3 p), s4)"
      "ready env ns p s4 (PTok TkElse # operand 0 w @ y # ys)" "grows p s3 s4 [bc BcPatch 0]" by (rule ready_hole)
    from s4(2) obtain s5 where s5: "skip env s4 = (Ok (), s5)" "ready env ns p s5 (operand 0 w @ y # ys)"
      "grows p s4 s5 []" by (rule ready_skip) simp
    have "parsed env ns p w (y # ys) s5 (tied n env (PBinary p 0) s5)"
      using Bs(3) s5(2) y by (simp add: B_ok_def del: operand.simps)
    then obtain s6 cw where s6: "tied n env (PBinary p 0) s5 = (Ok (), s6)" "ready env ns p s6 (y # ys)"
      "grows p s5 s6 cw" "codes ns (ints s6 p) (here s5 p) w cw" by (rule parsedE)
    have g3: "grows p s s3 (cv @ cu)" using grows_trans [OF grows_trans [OF s1(3) s2(3)] s3(3)] by simp
    have g6: "grows p s s6 ((cv @ cu) @ bc BcPatch 0 # cw)"
      using grows_trans [OF g3 grows_trans [OF s4(3) grows_trans [OF s5(3) s6(3)]]] by simp
    have h: "here s3 p = here s p + length (cv @ cu)" "here s2 p = here s p + length cv"
      "here s5 p = here s p + length cv + length cu + 1" "here s6 p = here s p + length cv + length cu + 1 + length cw"
      using s1(3) s2(3) g3 g6 s4(3) s5(3) by (auto elim!: growsE)
    obtain s7 where s7: "em1At p (here s3 p) BcTernary (here s6 p) s6 = (Ok (), s7)" "ready env ns p s7 (y # ys)"
      "grows p s s7 ((cv @ cu) @ bc BcTernary (here s6 p) # cw)" "ints s7 p = ints s6 p"
      using ready_patch [OF s6(2) g6 h(1), of BcTernary "here s6 p"] by blast
    have k: "codes ns (ints s6 p) (here s p) v cv" "codes ns (ints s6 p) (here s2 p) u cu"
      using s1(4) s3(4) s2(3) s3(3) s4(3) s5(3) s6(3) by (blast intro: grows_ints)+
    show ?thesis
    proof (rule parsedI [OF _ s7(2)])
      show "tied (Suc n) env (PExpr p) s = (Ok (), s7)"
        using s1(1) s2(1) s3(1) s4(1) s5(1) s6(1) s7(1) ready_tk [OF s1(2)] wantCurrent_at [of s4 TkElse] ready_tk [OF s4(2)]
        by (simp add: parse_call_def parseTernary_def parseTernaryRest_def thn_def bnd_def tk_def land_here_def label_def prog_at_def here_def)
      show "grows p s s7 (cv @ cu @ bc BcTernary (here s p + length cv + length cu + 1 + length cw) # cw)"
        using s7(3) h(4) by simp
      show "codes ns (ints s7 p) (here s p) e (cv @ cu @ bc BcTernary (here s p + length cv + length cu + 1 + length cw) # cw)"
        using k s6(4) unfolding e' s7(4) h by (rule c_cond)
    qed
  qed
qed

text \<open>Every expression is compiled to its end and to its code, with fuel for four calls per node.\<close>

lemma esize_pos: "0 < esize e"
  by (cases e) simp_all

lemma expr_compiles_all:
  assumes "expr_ok ns e"
  shows "(\<forall>n. 4 * esize e \<le> n \<longrightarrow> X_ok env ns p n e) \<and>
    (\<forall>n. 4 * esize e + (if level e < 6 then 1 else 0) \<le> n + (if level e < 6 then 0 else 2) \<longrightarrow> U_ok env ns p n e) \<and>
    (\<forall>n q. 4 * esize e + (if level e < q then 2 else 0) \<le> n + (if level e < q then 0 else 1) \<longrightarrow>
       0 \<le> q \<longrightarrow> q \<le> 6 \<longrightarrow> B_ok env ns p n q e)"
  using assms
proof (induction e rule: measure_induct_rule [of esize])
  case (less e)
  note pos = esize_pos [of e]
  have U: "4 * esize f + 1 \<le> n \<Longrightarrow> U_ok env ns p n f" if "expr_ok ns f" "esize f < esize e" for f n
    using less.IH [OF that(2,1)] by auto
  have B: "4 * esize f + 2 \<le> n \<Longrightarrow> 0 \<le> q \<Longrightarrow> q \<le> 6 \<Longrightarrow> B_ok env ns p n q f" if "expr_ok ns f" "esize f < esize e" for f n q
    using less.IH [OF that(2,1)] by auto
  have Ue: "U_ok env ns p (Suc n) e"
    if "level e < 6 \<Longrightarrow> X_ok env ns p n e" "4 * esize e \<le> n + 3" for n
    by (rule parse_unary [OF less.prems that(1)]) (use less.prems that(2) pos in \<open>auto intro!: U\<close>)
  have U6: "U_ok env ns p n e" if "level e = 6" "4 * esize e \<le> n + 2" for n
    using Ue [of "n - 1"] that pos by (cases n) simp_all
  have Be: "B_ok env ns p (Suc n) q e"
    if "0 \<le> q" "q \<le> 6" "4 * esize e \<le> n + 2" "level e < q \<Longrightarrow> U_ok env ns p n e" for n q
  proof (rule parse_binary [OF less.prems])
    fix f assume f: "expr_ok ns f" "esize f < esize e \<or> f = e \<and> (level e < q \<or> level e = 6)"
    then show "U_ok env ns p n f" using U [OF f(1), of n] U6 [of n] that(3,4) by auto
  qed (use that pos in \<open>auto intro!: B\<close>)
  have Xe: "X_ok env ns p n e" if n: "4 * esize e \<le> n" for n
  proof -
    obtain k where k: "n = Suc (Suc k)" "4 * esize e \<le> k + 2"
      using n pos by (cases n; cases "n - 1") auto
    have "X_ok env ns p (Suc (Suc k)) e"
    proof (rule parse_expr [OF less.prems])
      fix f q assume f: "expr_ok ns f" "0 \<le> q" "q \<le> (6 :: int)" "f = e \<and> q \<le> level e \<or> esize f < esize e"
      from f(4) show "B_ok env ns p (Suc k) q f"
      proof
        assume "f = e \<and> q \<le> level e"
        then show ?thesis using Be [OF f(2,3) k(2)] by simp
      next
        assume "esize f < esize e"
        then show ?thesis using B [OF f(1), of "Suc k" q] f(2,3) k(2) by simp
      qed
    qed simp
    then show ?thesis by (simp add: k)
  qed
  have Ux: "U_ok env ns p n e" if "level e < 6" "4 * esize e + 1 \<le> n" for n
    using Ue [of "n - 1"] Xe [of "n - 1"] that by (cases n) simp_all
  have Bx: "B_ok env ns p n q e"
    if "0 \<le> q" "q \<le> 6" "if level e < q then 4 * esize e + 2 \<le> n else 4 * esize e \<le> n + 1" for n q
    using Be [of q "n - 1"] Ux [of "n - 1"] that pos by (cases n) (auto split: if_splits)
  show ?case using Xe Ux U6 Bx level_cases [OF less.prems] by (auto split: if_splits)
qed

text \<open>Parsing an expression that ends here gives its code.\<close>

lemma expr_compiles:
  assumes "expr_ok ns e" and "4 * esize e \<le> n" and "ready env ns p s (body e @ y # ys)" and "ends_atom y"
    and "binPrecedence (ptk y) = - 1" and "ptk y \<noteq> TkIf"
  shows "parsed env ns p e (y # ys) s (tied n env (PExpr p) s)"
  using expr_compiles_all [OF assms(1), of env p] assms(2-6) by (auto simp: X_ok_def)

end
