(* ===== verification/CompileStmt.thy ===== *)
theory CompileStmt
  imports CompileExpr
begin

text \<open>
  The compiler gives statements the code of \<open>scodes\<close>: declarations extend the innermost scope,
  blocks enter and leave a scope of their own, and the holes in front of blocks are filled with
  the addresses behind them.
\<close>

section \<open>Scopes of a body\<close>

definition body_scopes :: "scopes \<Rightarrow> bool" where
  "body_scopes ss \<longleftrightarrow> ss \<noteq> [] \<and> tidy ss \<and> vars_only ss \<and> sc_eType (hd ss) \<in> set [EntryRule, EntryFunc, EntryIter]"

lemma sees_live: "tidy ss \<Longrightarrow> sees (live ss) ss"
  by (simp add: sees_def findLocal_slot)

abbreviation (input) lives :: "pstate \<Rightarrow> string list" where
  "lives s \<equiv> live (ps_stbl s)"

definition sready :: "penv \<Rightarrow> nat \<Rightarrow> pstate \<Rightarrow> ptok list \<Rightarrow> bool" where
  "sready env p s xs \<longleftrightarrow> body_scopes (ps_stbl s) \<and> ready env (lives s) p s xs"

lemma sready_ready: "sready env p s xs \<Longrightarrow> ready env (lives s) p s xs"
  by (simp add: sready_def)

lemma sreadyI:
  "sready env p s xs \<Longrightarrow> grows p s s' c \<Longrightarrow> ready env (lives s) p s' ys \<Longrightarrow> sready env p s' ys"
  by (erule growsE) (simp add: sready_def)

lemma sready_tk: "sready env p s (x # xs) \<Longrightarrow> lx_token (ps_l s) = ptk x"
  by (simp add: sready_def ready_def)

lemma sready_skip:
  assumes "sready env p s (x # xs)" and "xs \<noteq> []"
  obtains s' where "skip env s = (Ok (), s')" and "sready env p s' xs" and "grows p s s' []"
  using ready_skip [OF sready_ready [OF assms(1)] assms(2)] sreadyI [OF assms(1)] by metis

lemma sready_em1:
  assumes "sready env p s xs"
  obtains s' where "em1 p op a s = (Ok (), s')" and "sready env p s' xs" and "grows p s s' [bc op a]"
  using ready_em1 [OF sready_ready [OF assms]] sreadyI [OF assms] by metis

lemma sready_em0:
  assumes "sready env p s xs"
  obtains s' where "em0 p op s = (Ok (), s')" and "sready env p s' xs" and "grows p s s' [bc op 0]"
  using ready_em0 [OF sready_ready [OF assms]] sreadyI [OF assms] by metis

lemma sready_hole:
  assumes "sready env p s xs"
  obtains s' where "hole p s = (Ok (here s p), s')" and "sready env p s' xs" and "grows p s s' [bc BcPatch 0]"
  using ready_hole [OF sready_ready [OF assms]] sreadyI [OF assms] by metis

definition ends_expr :: "ptok \<Rightarrow> bool" where
  "ends_expr y \<longleftrightarrow> y \<in> PTok ` {TkSemicolon, TkLBra}"

lemma sready_expr:
  assumes r: "sready env p s (body e @ y # ys)" and e: "expr_ok (lives s) e" "4 * esize e \<le> n" and y: "ends_expr y"
  obtains s' c where "tied n env (PExpr p) s = (Ok (), s')" and "sready env p s' (y # ys)" and "grows p s s' c"
    and "codes (lives s) (ints s' p) (here s p) e c"
proof -
  have "parsed env (lives s) p e (y # ys) s (tied n env (PExpr p) s)"
    using y by (intro expr_compiles [OF e sready_ready [OF r]]) (auto simp: ends_expr_def ends_atom_def binPrecedence_def)
  then obtain s' c where "tied n env (PExpr p) s = (Ok (), s')" "ready env (lives s) p s' (y # ys)" "grows p s s' c"
    "codes (lives s) (ints s' p) (here s p) e c" by (rule parsedE)
  then show thesis using that sreadyI [OF r] by blast
qed

section \<open>What statements leave\<close>

abbreviation (input) var :: "string \<Rightarrow> syminfo" where
  "var x \<equiv> \<lparr>sy_name = x, sy_dec = SymtVar\<rparr>"

text \<open>Code \<open>c\<close> was added, \<open>xs\<close> were declared in the innermost scope and \<open>k\<close> slots taken.\<close>

definition after :: "nat \<Rightarrow> pstate \<Rightarrow> pstate \<Rightarrow> bytecode list \<Rightarrow> string list \<Rightarrow> nat \<Rightarrow> bool" where
  "after p s s' c xs k \<longleftrightarrow>
     grows p s (s'\<lparr>ps_stbl := ps_stbl s\<rparr>) c \<and> ps_stbl s' = bump k (declare_all (map var xs) (ps_stbl s))"

lemma grows_after:
  assumes "grows p s s' c"
  shows "after p s s' c [] 0"
proof -
  have "ps_stbl s' = ps_stbl s" using assms by (rule growsE)
  then show ?thesis using assms by (simp add: after_def flip: \<open>ps_stbl s' = ps_stbl s\<close>)
qed

lemma grows_stbl:
  assumes "grows p s s' c"
  shows "grows p (s\<lparr>ps_stbl := x\<rparr>) (s'\<lparr>ps_stbl := x\<rparr>) c"
proof -
  obtain l ds ks where "p < length (ps_progs s)"
    "s' = s\<lparr>ps_l := l, ps_progs := (ps_progs s)[p := added c ds ks (ps_progs s ! p)]\<rparr>"
    using assms by (auto simp: grows_def)
  then show ?thesis by (intro growsI [where l = l and ds = ds and ks = ks]) simp_all
qed

lemma after_trans:
  assumes "after p s s1 c xs k" and "after p s1 s2 d ys j"
  shows "after p s s2 (c @ d) (xs @ ys) (k + j)"
proof -
  have "grows p (s1\<lparr>ps_stbl := ps_stbl s\<rparr>) (s2\<lparr>ps_stbl := ps_stbl s\<rparr>) d"
    using grows_stbl [of p s1 "s2\<lparr>ps_stbl := ps_stbl s1\<rparr>" d "ps_stbl s"] assms(2) by (simp add: after_def)
  from grows_trans [OF _ this] assms show ?thesis by (simp add: after_def declare_bump)
qed

lemma afterE:
  assumes "after p s s' c xs k"
  obtains "p < length (ps_progs s)" "p < length (ps_progs s')"
    "here s' p = here s p + length c" "\<exists>ks. ints s' p = ints s p @ ks"
  using assms by (auto simp: after_def here_def ints_def elim!: growsE)

lemma after_codes: "after p s s' c xs k \<Longrightarrow> codes ns (ints s p) a e d \<Longrightarrow> codes ns (ints s' p) a e d"
  by (erule afterE) (auto intro: codes_more)

lemma after_scodes: "after p s s' c xs k \<Longrightarrow> scodes (ints s p) ns a e d \<Longrightarrow> scodes (ints s' p) ns a e d"
  by (erule afterE) (auto intro: scodes_more)

lemma codes_ext: "\<exists>ks. K' = K @ ks \<Longrightarrow> codes ns K a e c \<Longrightarrow> codes ns K' a e c"
  by (auto intro: codes_more)

lemma scodes_ext: "\<exists>ks. K' = K @ ks \<Longrightarrow> scodes K ns a ss c \<Longrightarrow> scodes K' ns a ss c"
  by (auto intro: scodes_more)

text \<open>A hole in what statements have generated is filled.\<close>

lemma sready_patch:
  assumes r: "sready env p s xs" and g: "after p s0 s (cl @ b # cr) ds k" and i: "i = here s0 p + length cl"
  obtains s' where "em1At p i op a s = (Ok (), s')" and "sready env p s' xs" and "after p s0 s' (cl @ bc op a # cr) ds k"
    and "ints s' p = ints s p" and "here s' p = here s p" and "ps_stbl s' = ps_stbl s"
proof -
  let ?s0 = "s0\<lparr>ps_stbl := ps_stbl s\<rparr>"
  have g': "grows p ?s0 s (cl @ b # cr)"
    using grows_stbl [of p s0 "s\<lparr>ps_stbl := ps_stbl s0\<rparr>" _ "ps_stbl s"] g by (simp add: after_def)
  have i': "i = here ?s0 p + length cl" using i by (simp add: here_def)
  obtain s' where s': "em1At p i op a s = (Ok (), s')" "ready env (lives s) p s' xs" "grows p ?s0 s' (cl @ bc op a # cr)"
    "ints s' p = ints s p"
    using ready_patch [OF sready_ready [OF r] g' i'] by blast
  have st: "ps_stbl s' = ps_stbl s" and h: "here s' p = here s p"
    using s'(3) g' by (auto elim!: growsE)
  have "after p s0 s' (cl @ bc op a # cr) ds k"
    using grows_stbl [OF s'(3), of "ps_stbl s0"] g st by (simp add: after_def)
  moreover have "sready env p s' xs" using s'(2) r by (simp add: sready_def st)
  ultimately show thesis using that s'(1,4) st h by blast
qed

section \<open>Entering, leaving and declaring\<close>

lemma at_toks_stbl [simp]: "at_toks env (s\<lparr>ps_stbl := x\<rparr>) xs = at_toks env s xs"
  by (cases xs) simp_all

lemma sready_stbl:
  "sready env p s xs \<Longrightarrow> body_scopes ss \<Longrightarrow> sready env p (s\<lparr>ps_stbl := ss\<rparr>) xs"
  by (simp add: sready_def ready_def body_scopes_def sees_live)

lemma body_scopes_bump [simp]: "body_scopes (bump k ss) = body_scopes ss"
  by (cases ss) (simp_all add: body_scopes_def)

lemma bump_not_top: "\<not> sc_isTop x \<Longrightarrow> bump k (declare_all ys (x # p)) = declare_all ys [x] @ bump k p"
  by (simp add: declare_all_def)

lemma sready_enter:
  assumes r: "sready env p s xs"
  obtains x where "enterScope t False s = (Ok (), s\<lparr>ps_stbl := x # ps_stbl s\<rparr>)" and "sc_tbl x = []"
    and "\<not> sc_isTop x" and "sc_brklist x = []" and "sc_cntlist x = []" and "t = ScpLoop \<longrightarrow> sc_scpType x = ScpLoop"
    and "sready env p (s\<lparr>ps_stbl := x # ps_stbl s\<rparr>) xs"
proof -
  have b: "body_scopes (ps_stbl s)" using r by (simp add: sready_def)
  then obtain q ss where q: "ps_stbl s = q # ss" by (cases "ps_stbl s") (auto simp: body_scopes_def)
  have m: "prevTop (ps_stbl s) \<noteq> []" using b by (simp add: body_scopes_def tidy_prevTop)
  let ?x = "\<lparr>sc_tbl = [], sc_eType = sc_eType q,
     sc_scpType = (if t = ScpNormal \<and> sc_scpType q \<in> {ScpLoop, ScpInLoop} then ScpInLoop else t), sc_isTop = False,
     sc_brklist = [], sc_cntlist = [], sc_prog = None, sc_maxLocal = 0, sc_offset = nextOffset q\<rparr>"
  have n: "newLexicalScope t (ps_stbl s) False = Ok ?x"
    using m by (simp add: newLexicalScope_def Let_def q)
  have "body_scopes (?x # ps_stbl s)"
    using b tidy_offset [of q ss] by (simp add: body_scopes_def q)
  then show thesis using n r by (intro that [of ?x]) (simp_all add: enterScope_def sready_stbl)
qed

lemma sready_leave:
  assumes r: "sready env p s2 xs" and s: "sready env p s ys" and x: "sc_tbl x = []" "\<not> sc_isTop x"
    and a: "after p (s\<lparr>ps_stbl := x # ps_stbl s\<rparr>) s2 c ds k"
  obtains s3 where "leaveScope s2 = (Ok (), s3)" and "sready env p s3 xs" and "after p s s3 c [] k"
    and "ints s3 p = ints s2 p" and "here s3 p = here s2 p"
proof -
  have st: "ps_stbl s2 = declare_all (map var ds) [x] @ bump k (ps_stbl s)"
    using a x(2) by (simp add: after_def bump_not_top)
  let ?s3 = "s2\<lparr>ps_stbl := bump k (ps_stbl s)\<rparr>"
  have l: "leaveScope s2 = (Ok (), ?s3)" by (simp add: leaveScope_def st declare_all_def)
  have "grows p s (s2\<lparr>ps_stbl := ps_stbl s\<rparr>) c"
    using grows_stbl [of p "s\<lparr>ps_stbl := x # ps_stbl s\<rparr>" _ c "ps_stbl s"] a by (fastforce simp: after_def)
  then have "after p s ?s3 c [] k" by (simp add: after_def)
  moreover have "sready env p ?s3 xs" using s by (intro sready_stbl [OF r]) (simp add: sready_def)
  ultimately show thesis using that l by (simp add: ints_def here_def)
qed

definition heads :: "pstate \<Rightarrow> string list" where
  "heads s = map sy_name (sc_tbl (hd (ps_stbl s)))"

lemma sready_declare:
  assumes r: "sready env p s xs" and x: "name_ok x" "x \<notin> set (heads s)"
  obtains s' where "def_local SymtVar x s = (Ok (int (length (lives s))), s')" and "sready env p s' xs"
    and "after p s s' [] [x] 1" and "ps_l s' = ps_l s" and "lives s' = x # lives s" and "here s' p = here s p"
proof -
  obtain q ss where q: "ps_stbl s = q # ss" using r by (cases "ps_stbl s") (auto simp: sready_def body_scopes_def)
  have b: "body_scopes (q # ss)" using r by (simp add: sready_def q)
  have f: "sc_find q x = symError" using x(2) by (simp add: heads_def q sc_find_symError)
  let ?ss = "bump 1 (declare_all [var x] (ps_stbl s))"
  have d: "def_local SymtVar x s = (Ok (int (length (lives s))), s\<lparr>ps_stbl := ?ss\<rparr>)"
    using sc_add_declares [OF f, of ss SymtVar] b x(1) f
    by (simp add: def_local_def varName_def varPlaceholder_def name_ok_def cur_scope_def q body_scopes_def)
  have bs: "body_scopes ?ss"
    using b x(2) by (auto simp: body_scopes_def q declare_all_def heads_def)
  have "grows p s s []" using r by (simp add: sready_def ready_def grows_refl)
  then have a: "after p s (s\<lparr>ps_stbl := ?ss\<rparr>) [] [x] 1" by (simp add: after_def)
  have l: "live ?ss = x # lives s" by (simp add: q declare_all_def)
  show thesis by (rule that [OF d sready_stbl [OF r bs] a]) (use l in \<open>simp_all add: here_def\<close>)
qed


section \<open>Statements\<close>

text \<open>Fuel for a list of statements: for its expressions, and one unit per statement and block.\<close>

fun ssize :: "stmt list \<Rightarrow> nat" where
  "ssize [] = 1"
| "ssize (SLet x e # ss) = Suc (4 * esize e + ssize ss)"
| "ssize (SSet x e # ss) = Suc (4 * esize e + ssize ss)"
| "ssize (SReturn e # ss) = Suc (4 * esize e + ssize ss)"
| "ssize (SIf c a b # ss) = Suc (4 * esize c + ssize a + ssize b + ssize ss)"
| "ssize (SFor c b # ss) = Suc (4 * esize c + ssize b + ssize ss)"

definition stmt_done ::
  "penv \<Rightarrow> nat \<Rightarrow> stmt \<Rightarrow> ptok list \<Rightarrow> pstate \<Rightarrow> bool res \<times> pstate \<Rightarrow> bool"
where
  "stmt_done env p st xs s r \<longleftrightarrow>
     (\<exists>b s' c. r = (Ok b, s') \<and> sready env p s' ((if b then [PTok TkSemicolon] else []) @ xs) \<and>
        after p s s' c (decls [st]) (lets [st]) \<and> scodes (ints s' p) (lives s) (here s p) [st] c)"

lemma stmt_done_sep:
  assumes "r = (Ok True, s')" and "sready env p s' (PTok TkSemicolon # xs)"
    and "after p s s' c (decls [st]) (lets [st])" and "scodes (ints s' p) (lives s) (here s p) [st] c"
  shows "stmt_done env p st xs s r"
  using assms unfolding stmt_done_def by (intro exI [of _ True] exI [of _ s'] exI [of _ c]) simp

lemma stmt_done_block:
  assumes "r = (Ok False, s')" and "sready env p s' xs"
    and "after p s s' c (decls [st]) (lets [st])" and "scodes (ints s' p) (lives s) (here s p) [st] c"
  shows "stmt_done env p st xs s r"
  using assms unfolding stmt_done_def by (intro exI [of _ False] exI [of _ s'] exI [of _ c]) simp

definition stmts_done ::
  "penv \<Rightarrow> nat \<Rightarrow> stmt list \<Rightarrow> ptok list \<Rightarrow> pstate \<Rightarrow> unit res \<times> pstate \<Rightarrow> bool"
where
  "stmts_done env p ss xs s r \<longleftrightarrow>
     (\<exists>s' c. r = (Ok (), s') \<and> sready env p s' xs \<and> after p s s' c (decls ss) (lets ss) \<and>
        scodes (ints s' p) (lives s) (here s p) ss c)"

lemma stmts_doneE:
  assumes "stmts_done env p ss xs s r"
  obtains s' c where "r = (Ok (), s')" and "sready env p s' xs" and "after p s s' c (decls ss) (lets ss)"
    and "scodes (ints s' p) (lives s) (here s p) ss c"
  using assms by (auto simp: stmts_done_def)

lemma want_at:
  assumes "sready env p s (x # y # ys)"
  obtains s' where "want env (ptk y) s = (Ok (), s')" and "sready env p s' (y # ys)" and "grows p s s' []"
proof -
  obtain s' where s': "skip env s = (Ok (), s')" "sready env p s' (y # ys)" "grows p s s' []"
    using assms by (rule sready_skip) simp
  have "want env (ptk y) s = (Ok (), s')"
    using s'(1) sready_tk [OF s'(2)]
    by (cases "lx_next (pe_lex env) (ps_l s)"; cases "fst (lx_next (pe_lex env) (ps_l s))")
      (auto simp: skip_def next_tk_def on_lexer_def want_def lx_expect_def expectCurrent_def ret_def)
  then show thesis using that s'(2,3) by blast
qed

lemma let_compiles:
  assumes r: "sready env p s (PTok TkLet # PName x # PTok TkAssign # body e @ PTok TkSemicolon # ys)"
    and ok: "name_ok x" "x \<notin> set (heads s)" "expr_ok (filter (\<lambda>y. y \<noteq> x) (lives s)) e" and n: "4 * esize e \<le> n"
  shows "stmt_done env p (SLet x e) ys s (parseBodyStmt k env (tied n env) p s)"
proof -
  obtain s1 where s1: "want env TkId s = (Ok (), s1)"
    "sready env p s1 (PName x # PTok TkAssign # body e @ PTok TkSemicolon # ys)" "grows p s s1 []"
    using want_at [OF r] by auto
  have st1: "ps_stbl s1 = ps_stbl s" "here s1 p = here s p" using s1(3) by (auto elim!: growsE)
  have v: "valueText (ps_l s1) = x" using s1(2) by (simp add: sready_def ready_def)
  obtain s2 where s2: "def_local SymtVar x s1 = (Ok (int (length (lives s))), s2)"
    "sready env p s2 (PName x # PTok TkAssign # body e @ PTok TkSemicolon # ys)" "after p s1 s2 [] [x] 1"
    "lives s2 = x # lives s" "here s2 p = here s p"
    using sready_declare [OF s1(2) ok(1)] ok(2) st1 by (auto simp: heads_def)
  obtain s3 where s3: "skip env s2 = (Ok (), s3)" "sready env p s3 (PTok TkAssign # body e @ PTok TkSemicolon # ys)"
    "grows p s2 s3 []" using s2(2) by (rule sready_skip) simp
  obtain s4 where s4: "skip env s3 = (Ok (), s4)" "sready env p s4 (body e @ PTok TkSemicolon # ys)"
    "grows p s3 s4 []" using s3(2) by (rule sready_skip) simp
  have l4: "lives s4 = x # lives s" and h4: "here s4 p = here s p"
    using s3(3) s4(3) s2(4,5) by (auto elim!: growsE)
  have e: "expr_ok (lives s4) e" using ok(3) l4 by (auto intro: expr_ok_subset)
  obtain s5 c where s5: "tied n env (PExpr p) s4 = (Ok (), s5)" "sready env p s5 (PTok TkSemicolon # ys)" "grows p s4 s5 c"
    "codes (lives s4) (ints s5 p) (here s4 p) e c"
    using sready_expr [OF s4(2) e n] by (auto simp: ends_expr_def)
  obtain s6 where s6: "em1 p BcStoreLocal (length (lives s)) s5 = (Ok (), s6)" "sready env p s6 (PTok TkSemicolon # ys)"
    "grows p s5 s6 [bc BcStoreLocal (length (lives s))]" using s5(2) by (rule sready_em1)
  have a: "after p s s6 (c @ [bc BcStoreLocal (length (lives s))]) [x] 1"
    using after_trans [OF grows_after [OF s1(3)] after_trans [OF s2(3) after_trans [OF grows_after [OF s3(3)]
      after_trans [OF grows_after [OF s4(3)] after_trans [OF grows_after [OF s5(3)] grows_after [OF s6(3)]]]]]]
    by simp
  have "codes (lives s) (ints s5 p) (here s p) e c"
    using s5(4) ok(3) unfolding l4 h4 by (rule codes_outer)
  then have "scodes (ints s6 p) (lives s) (here s p) [SLet x e] (c @ [bc BcStoreLocal (length (lives s))])"
    by (intro s_let s_nil grows_ints [OF s6(3)])
  moreover have "parseBodyStmt k env (tied n env) p s = (Ok True, s6)"
    using s1(1) s2(1) s3(1) s4(1) s5(1) s6(1) sready_tk [OF r] sready_tk [OF s3(2)] v
    by (simp add: parseBodyStmt_def parseVarDecl_def define_or_def bnd_def thn_def tk_def text_value_def ret_def)
  ultimately show ?thesis using s6(2) a by (intro stmt_done_sep) simp_all
qed

lemma set_compiles:
  assumes r: "sready env p s (PName x # PTok TkAssign # body e @ PTok TkSemicolon # ys)"
    and ok: "name_ok x" "x \<in> set (lives s)" "expr_ok (lives s) e" and n: "4 * esize e \<le> n"
  shows "stmt_done env p (SSet x e) ys s (parseBodyStmt k env (tied n env) p s)"
proof -
  obtain i where i: "slot_of (lives s) x = Some i" using ok(2) by (auto simp: slot_of_Some)
  obtain s1 where s1: "skip env s = (Ok (), s1)" "sready env p s1 (PTok TkAssign # body e @ PTok TkSemicolon # ys)"
    "grows p s s1 []" using r by (rule sready_skip) simp
  have l1: "lives s1 = lives s" "here s1 p = here s p" using s1(3) by (auto elim!: growsE)
  have f: "findLocalVar x (ps_stbl s1) = int i"
    using s1(2) i by (simp add: sready_def body_scopes_def findLocalVar_vars findLocal_slot l1)
  obtain s2 where s2: "skip env s1 = (Ok (), s2)" "sready env p s2 (body e @ PTok TkSemicolon # ys)"
    "grows p s1 s2 []" using s1(2) by (rule sready_skip) simp
  have l2: "lives s2 = lives s" "here s2 p = here s p" using l1 s2(3) by (auto elim!: growsE)
  obtain s3 c where s3: "tied n env (PExpr p) s2 = (Ok (), s3)" "sready env p s3 (PTok TkSemicolon # ys)" "grows p s2 s3 c"
    "codes (lives s2) (ints s3 p) (here s2 p) e c"
    using sready_expr [OF s2(2) _ n] ok(3) by (auto simp: ends_expr_def l2)
  obtain s4 where s4: "em1 p BcStoreLocal i s3 = (Ok (), s4)" "sready env p s4 (PTok TkSemicolon # ys)"
    "grows p s3 s4 [bc BcStoreLocal i]" using s3(2) by (rule sready_em1)
  have a: "after p s s4 (c @ [bc BcStoreLocal i]) [] 0"
    using grows_trans [OF grows_trans [OF s1(3) s2(3)] grows_trans [OF s3(3) s4(3)]] by (simp add: grows_after)
  have sc: "scodes (ints s4 p) (lives s) (here s p) [SSet x e] (c @ [bc BcStoreLocal i])"
    using s3(4) i by (intro s_set s_nil grows_ints [OF s4(3)]) (simp_all add: l2)
  have l: "lm_token (get_lexeme s) = TkId" "lm_sval (get_lexeme s) = x" using r by (simp_all add: sready_def ready_def)
  have as: "assign_name env (tied n env) p (get_lexeme s) s1 = (Ok True, s4)"
    using l f s2(1) s3(1) s4(1) sready_tk [OF s1(2)]
    by (simp add: assign_name_def resolveSymbol_def parseSymbolAssign_def assign_value_def agg_opcode_def
        store_var_def bnd_def thn_def tk_def ret_def)
  have "isassign TkAssign" by code_simp
  then have "parseBodyStmt k env (tied n env) p s = (Ok True, s4)"
    using sready_tk [OF r] sready_tk [OF s1(2)] s1(1) as
    by (simp add: parseBodyStmt_def parseStmt_def parseBasicStmt_def bnd_def thn_def tk_def gets_def ret_def)
  then show ?thesis using s4(2) a sc by (intro stmt_done_sep) simp_all
qed

lemma return_compiles:
  assumes r: "sready env p s (PTok TkReturn # body e @ PTok TkSemicolon # ys)"
    and ok: "expr_ok (lives s) e" and n: "4 * esize e \<le> n"
  shows "stmt_done env p (SReturn e) ys s (parseBodyStmt k env (tied n env) p s)"
proof -
  obtain s1 where s1: "skip env s = (Ok (), s1)" "sready env p s1 (body e @ PTok TkSemicolon # ys)"
    "grows p s s1 []" using r by (rule sready_skip) simp
  have l1: "lives s1 = lives s" "here s1 p = here s p" using s1(3) by (auto elim!: growsE)
  obtain s2 c where s2: "tied n env (PExpr p) s1 = (Ok (), s2)" "sready env p s2 (PTok TkSemicolon # ys)" "grows p s1 s2 c"
    "codes (lives s1) (ints s2 p) (here s1 p) e c"
    using sready_expr [OF s1(2) _ n] ok by (auto simp: ends_expr_def l1)
  obtain s3 where s3: "em0 p BcReturn s2 = (Ok (), s3)" "sready env p s3 (PTok TkSemicolon # ys)"
    "grows p s2 s3 [bc BcReturn 0]" using s2(2) by (rule sready_em0)
  have a: "after p s s3 (c @ [bc BcReturn 0]) [] 0"
    using grows_trans [OF s1(3) grows_trans [OF s2(3) s3(3)]] by (simp add: grows_after)
  have sc: "scodes (ints s3 p) (lives s) (here s p) [SReturn e] (c @ [bc BcReturn 0])"
    using s2(4) by (intro s_return s_nil grows_ints [OF s3(3)]) (simp add: l1)
  have "\<exists>q ss. ps_stbl s = q # ss \<and> sc_eType q \<in> set [EntryRule, EntryFunc, EntryIter]"
    using r by (cases "ps_stbl s") (auto simp: sready_def body_scopes_def)
  then have "parseBodyStmt k env (tied n env) p s = (Ok True, s3)"
    using sready_tk [OF r] s1(1) s2(1) s3(1)
    by (auto simp: parseBodyStmt_def parseReturn_def cur_scope_def bnd_def thn_def tk_def ret_def)
  then show ?thesis using s3(2) a sc by (intro stmt_done_sep) simp_all
qed


section \<open>Blocks\<close>

definition body_ok :: "penv \<Rightarrow> nat \<Rightarrow> nat \<Rightarrow> stmt list \<Rightarrow> bool" where
  "body_ok env p n ss \<longleftrightarrow> (\<forall>s y ys.
     sready env p s (PTok TkLBra # stmts_toks ss @ PTok TkRBra # y # ys) \<longrightarrow>
     stmts_ok (length (heads s)) (lives s) ss \<longrightarrow> stmts_done env p ss (y # ys) s (tied n env (PBody p) s))"

lemma body_in_scope:
  assumes b: "body_ok env p n ss" and r: "sready env p s (PTok TkLBra # stmts_toks ss @ PTok TkRBra # y # ys)"
    and ok: "stmts_ok 0 (lives s) ss"
  obtains s' c where "parseBranchStmtBody (tied n env (PBody p)) s = (Ok (), s')" and "sready env p s' (y # ys)"
    and "after p s s' c [] (lets ss)" and "scodes (ints s' p) (lives s) (here s p) ss c"
proof -
  obtain x where x: "enterScope ScpNormal False s = (Ok (), s\<lparr>ps_stbl := x # ps_stbl s\<rparr>)" "sc_tbl x = []"
    "\<not> sc_isTop x" "sready env p (s\<lparr>ps_stbl := x # ps_stbl s\<rparr>) (PTok TkLBra # stmts_toks ss @ PTok TkRBra # y # ys)"
    using r by (rule sready_enter)
  let ?s1 = "s\<lparr>ps_stbl := x # ps_stbl s\<rparr>"
  have "stmts_done env p ss (y # ys) ?s1 (tied n env (PBody p) ?s1)"
    using b x ok by (simp add: body_ok_def heads_def)
  then obtain s2 c where s2: "tied n env (PBody p) ?s1 = (Ok (), s2)" "sready env p s2 (y # ys)"
    "after p ?s1 s2 c (decls ss) (lets ss)" "scodes (ints s2 p) (lives ?s1) (here ?s1 p) ss c" by (rule stmts_doneE)
  obtain s3 where s3: "leaveScope s2 = (Ok (), s3)" "sready env p s3 (y # ys)" "after p s s3 c [] (lets ss)"
    "ints s3 p = ints s2 p"
    using sready_leave [OF s2(2) r x(2,3) s2(3)] by metis
  have "parseBranchStmtBody (tied n env (PBody p)) s = (Ok (), s3)"
    using x(1) s2(1) s3(1) wantCurrent_at [of s TkLBra] sready_tk [OF r]
    by (simp add: parseBranchStmtBody_def in_scope_def enterNormalScope_def thn_def)
  moreover have "scodes (ints s3 p) (lives s) (here s p) ss c"
    using s2(4) x(2,3) by (simp add: s3(4) here_def)
  ultimately show thesis using that s3(2,3) by blast
qed

lemma if_compiles:
  assumes r: "sready env p s (PTok TkIf # body e @ PTok TkLBra # stmts_toks t @ PTok TkRBra # PTok TkElse #
      PTok TkLBra # stmts_toks f @ PTok TkRBra # y # ys)"
    and ok: "expr_ok (lives s) e" "stmts_ok 0 (lives s) t" "stmts_ok 0 (lives s) f"
    and n: "4 * esize e \<le> Suc n" and b: "body_ok env p n t" "body_ok env p n f"
  shows "stmt_done env p (SIf e t f) (y # ys) s (parseBodyStmt (Suc k) env (tied n env) p s)"
proof -
  let ?B = "parseBranchStmtBody (tied n env (PBody p))"
  obtain s1 where s1: "skip env s = (Ok (), s1)" "sready env p s1 (body e @ PTok TkLBra # stmts_toks t @ PTok TkRBra #
      PTok TkElse # PTok TkLBra # stmts_toks f @ PTok TkRBra # y # ys)" "grows p s s1 []"
    using r by (rule sready_skip) simp
  have l1: "lives s1 = lives s" "here s1 p = here s p" using s1(3) by (auto elim!: growsE)
  obtain s2 c where s2: "parseTernary env (tied n env) p s1 = (Ok (), s2)"
    "sready env p s2 (PTok TkLBra # stmts_toks t @ PTok TkRBra # PTok TkElse # PTok TkLBra # stmts_toks f @ PTok TkRBra # y # ys)"
    "grows p s1 s2 c" "codes (lives s) (ints s2 p) (here s p) e c"
    using sready_expr [OF s1(2) _ n] ok by (auto simp: ends_expr_def l1 parse_call_def)
  obtain s3 where s3: "hole p s2 = (Ok (here s2 p), s3)"
    "sready env p s3 (PTok TkLBra # stmts_toks t @ PTok TkRBra # PTok TkElse # PTok TkLBra # stmts_toks f @ PTok TkRBra # y # ys)"
    "grows p s2 s3 [bc BcPatch 0]" using s2(2) by (rule sready_hole)
  have h2: "here s2 p = here s p + length c" using s2(3) l1 by (auto elim!: growsE)
  have l3: "lives s3 = lives s" "here s3 p = here s p + length c + 1"
    using s2(3) s3(3) l1 by (auto elim!: growsE)
  obtain s4 ct where s4: "?B s3 = (Ok (), s4)"
    "sready env p s4 (PTok TkElse # PTok TkLBra # stmts_toks f @ PTok TkRBra # y # ys)"
    "after p s3 s4 ct [] (lets t)" "scodes (ints s4 p) (lives s) (here s p + length c + 1) t ct"
    using body_in_scope [OF b(1) s3(2)] ok(2) by (auto simp: l3)
  obtain s5 where s5: "hole p s4 = (Ok (here s4 p), s5)"
    "sready env p s5 (PTok TkElse # PTok TkLBra # stmts_toks f @ PTok TkRBra # y # ys)"
    "grows p s4 s5 [bc BcPatch 0]" using s4(2) by (rule sready_hole)
  have a5: "after p s s5 (c @ bc BcPatch 0 # (ct @ [bc BcPatch 0])) [] (lets t)"
    using after_trans [OF grows_after [OF grows_trans [OF s1(3) grows_trans [OF s2(3) s3(3)]]]
        after_trans [OF s4(3) grows_after [OF s5(3)]]] by simp
  have h5: "here s5 p = here s p + length c + 1 + length ct + 1" using a5 by (auto elim!: afterE)
  have h4: "here s4 p = here s p + length c + 1 + length ct" using s4(3) l3 by (auto elim!: afterE)
  obtain s6 where s6: "em1At p (here s2 p) BcJfalse (here s5 p) s5 = (Ok (), s6)"
    "sready env p s6 (PTok TkElse # PTok TkLBra # stmts_toks f @ PTok TkRBra # y # ys)"
    "after p s s6 (c @ bc BcJfalse (here s5 p) # (ct @ [bc BcPatch 0])) [] (lets t)"
    "ints s6 p = ints s5 p" "here s6 p = here s5 p"
    by (rule sready_patch [OF s5(2) a5 h2, where op = BcJfalse and a = "here s5 p"])
  obtain s7 where s7: "skip env s6 = (Ok (), s7)" "sready env p s7 (PTok TkLBra # stmts_toks f @ PTok TkRBra # y # ys)"
    "grows p s6 s7 []" using s6(2) by (rule sready_skip) simp
  have a7: "after p s s7 (c @ bc BcJfalse (here s5 p) # (ct @ [bc BcPatch 0])) [] (lets t)"
    using after_trans [OF s6(3) grows_after [OF s7(3)]] by simp
  then have l7: "lives s7 = lives s" "here s7 p = here s5 p"
    using s7(3) s6(5) by (auto simp: after_def elim!: growsE)
  obtain s8 cf where s8: "?B s7 = (Ok (), s8)" "sready env p s8 (y # ys)"
    "after p s7 s8 cf [] (lets f)" "scodes (ints s8 p) (lives s) (here s5 p) f cf"
    using body_in_scope [OF b(2) s7(2)] ok(3) by (auto simp: l7)
  have a8: "after p s s8 ((c @ bc BcJfalse (here s5 p) # ct) @ bc BcPatch 0 # cf) [] (lets t + lets f)"
    using after_trans [OF a7 s8(3)] by simp
  have h4': "here s4 p = here s p + length (c @ bc BcJfalse (here s5 p) # ct)" by (simp add: h4)
  have h8: "here s8 p = here s5 p + length cf" using a8 h5 by (auto elim!: afterE)
  obtain s9 where s9: "em1At p (here s4 p) BcJump (here s8 p) s8 = (Ok (), s9)" "sready env p s9 (y # ys)"
    "after p s s9 ((c @ bc BcJfalse (here s5 p) # ct) @ bc BcJump (here s8 p) # cf) [] (lets t + lets f)" "ints s9 p = ints s8 p"
    by (rule sready_patch [OF s8(2) a8 h4', where op = BcJump and a = "here s8 p"])
  have "parseBranchStmt (Suc k) env (tied n env) p (tied n env (PBody p)) s = (Ok (), s9)"
    using s1(1) s2(1) s3(1) s4(1) s5(1) s6(1) s7(1) s8(1) s9(1) sready_tk [OF s5(2)] sready_tk [OF s6(2)]
    by (simp add: parseBranchStmt_def parseBranch_def elif_round_def bnd_def thn_def tk_def ret_def land_here_def
        label_def prog_at_def here_def)
  then have p: "parseBodyStmt (Suc k) env (tied n env) p s = (Ok False, s9)"
    using sready_tk [OF r] by (simp add: parseBodyStmt_def bnd_def thn_def tk_def ret_def)
  have K: "codes (lives s) (ints s9 p) (here s p) e c" "scodes (ints s9 p) (lives s) (here s p + length c + 1) t ct"
    "scodes (ints s9 p) (lives s) (here s5 p) f cf"
  proof -
    have "\<exists>ks. ints s9 p = ints s2 p @ ks" "\<exists>ks. ints s9 p = ints s4 p @ ks"
      using s3(3) s4(3) s5(3) s7(3) s8(3) by (auto simp: s6(4) s9(4) elim!: growsE afterE)
    then show "codes (lives s) (ints s9 p) (here s p) e c" "scodes (ints s9 p) (lives s) (here s p + length c + 1) t ct"
      using s2(4) s4(4) by (blast intro: codes_ext scodes_ext)+
  qed (use s8(4) in \<open>simp only: s9(4)\<close>)
  have "scodes (ints s9 p) (lives s) (here s p) [SIf e t f]
      (c @ bc BcJfalse (here s5 p) # ct @ bc BcJump (here s8 p) # cf @ [])"
    unfolding h8 h5 using K unfolding h5 by (intro s_if s_nil)
  then show ?thesis using s9(2,3) by (intro stmt_done_block [OF p]) simp_all
qed


section \<open>Loops\<close>

lemma body_start:
  "expr_ok ns e \<Longrightarrow> \<exists>x xs. body e = x # xs \<and> ptk x \<notin> {TkLBra, TkLet, TkSemicolon}"
proof (induction e)
  case (EUn t e)
  then show ?case by (auto simp: un_tokens_def)
next
  case (EBin t a b)
  then obtain x xs where "body a = x # xs" "ptk x \<notin> {TkLBra, TkLet, TkSemicolon}" by auto
  then show ?case by (cases "level a < strength t") simp_all
next
  case (ECond v c w)
  then obtain x xs where "body v = x # xs" "ptk x \<notin> {TkLBra, TkLet, TkSemicolon}" by auto
  then show ?case by (cases "level v < 0") simp_all
qed simp_all

lemma patch_none:
  assumes "ps_stbl s = x # ss" and "sc_scpType x = ScpLoop"
  shows "sc_cntlist x = [] \<Longrightarrow> patchContinue p s = (Ok (), s)"
    and "sc_brklist x = [] \<Longrightarrow> patchBreak p s = (Ok (), s)"
proof -
  have "sc_cntlist x = [] \<Longrightarrow> x\<lparr>sc_cntlist := []\<rparr> = x" "sc_brklist x = [] \<Longrightarrow> x\<lparr>sc_brklist := []\<rparr> = x"
    by (cases x; simp)+
  moreover have "s\<lparr>ps_stbl := x # ss\<rparr> = s" by (simp flip: assms(1))
  ultimately show "sc_cntlist x = [] \<Longrightarrow> patchContinue p s = (Ok (), s)"
    "sc_brklist x = [] \<Longrightarrow> patchBreak p s = (Ok (), s)"
    using assms by (simp_all add: patchContinue_def patchBreak_def thn_def pmust_def isInLoop_def cur_scope_def upd_scope_def)
qed

lemma for_compiles:
  assumes r: "sready env p s (PTok TkFor # body e @ PTok TkLBra # stmts_toks t @ PTok TkRBra # y # ys)"
    and ok: "expr_ok (lives s) e" "stmts_ok 0 (lives s) t"
    and n: "4 * esize e \<le> n" and b: "body_ok env p n t"
  shows "stmt_done env p (SFor e t) (y # ys) s (parseBodyStmt k env (tied n env) p s)"
proof -
  obtain s1 where s1: "skip env s = (Ok (), s1)" "sready env p s1 (body e @ PTok TkLBra # stmts_toks t @ PTok TkRBra # y # ys)"
    "grows p s s1 []" using r by (rule sready_skip) simp
  have l1: "lives s1 = lives s" "here s1 p = here s p" using s1(3) by (auto elim!: growsE)
  have t1: "lx_token (ps_l s1) \<notin> {TkLBra, TkLet, TkSemicolon}"
    using body_start [OF ok(1)] s1(2) by (auto simp: sready_def ready_def)
  obtain s2 c where s2: "tied n env (PExpr p) s1 = (Ok (), s2)" "sready env p s2 (PTok TkLBra # stmts_toks t @ PTok TkRBra # y # ys)"
    "grows p s1 s2 c" "codes (lives s) (ints s2 p) (here s p) e c"
    using sready_expr [OF s1(2) _ n] ok by (auto simp: ends_expr_def l1)
  obtain s3 where s3: "hole p s2 = (Ok (here s2 p), s3)" "sready env p s3 (PTok TkLBra # stmts_toks t @ PTok TkRBra # y # ys)"
    "grows p s2 s3 [bc BcPatch 0]" using s2(2) by (rule sready_hole)
  have g3: "grows p s s3 (c @ [bc BcPatch 0])" using grows_trans [OF s1(3) grows_trans [OF s2(3) s3(3)]] by simp
  have h2: "here s2 p = here s p + length c" using s2(3) l1 by (auto elim!: growsE)
  have l3: "lives s3 = lives s" "here s3 p = here s p + length c + 1" "ps_stbl s3 = ps_stbl s"
    using g3 by (auto elim!: growsE)
  obtain x where x: "enterScope ScpLoop False s3 = (Ok (), s3\<lparr>ps_stbl := x # ps_stbl s3\<rparr>)" "sc_tbl x = []" "\<not> sc_isTop x"
    "sc_brklist x = []" "sc_cntlist x = []" "sc_scpType x = ScpLoop"
    "sready env p (s3\<lparr>ps_stbl := x # ps_stbl s3\<rparr>) (PTok TkLBra # stmts_toks t @ PTok TkRBra # y # ys)"
    using sready_enter [OF s3(2), of ScpLoop] by blast
  let ?s4 = "s3\<lparr>ps_stbl := x # ps_stbl s3\<rparr>"
  have "stmts_done env p t (y # ys) ?s4 (tied n env (PBody p) ?s4)"
    using b x ok(2) by (simp add: body_ok_def heads_def l3(1))
  then obtain s5 ct where s5: "tied n env (PBody p) ?s4 = (Ok (), s5)" "sready env p s5 (y # ys)"
    "after p ?s4 s5 ct (decls t) (lets t)" "scodes (ints s5 p) (lives ?s4) (here ?s4 p) t ct" by (rule stmts_doneE)
  obtain s6 where s6: "em1 p BcJump (here s1 p) s5 = (Ok (), s6)" "sready env p s6 (y # ys)"
    "grows p s5 s6 [bc BcJump (here s p)]" using sready_em1 [OF s5(2)] l1(2) by metis
  let ?s0 = "s\<lparr>ps_stbl := x # ps_stbl s\<rparr>"
  have "grows p ?s0 ?s4 (c @ [bc BcPatch 0])" using grows_stbl [OF g3, of "x # ps_stbl s"] by (simp add: l3)
  then have a6: "after p ?s0 s6 (c @ bc BcPatch 0 # (ct @ [bc BcJump (here s p)])) (decls t) (lets t)"
    using after_trans [OF grows_after after_trans [OF s5(3) grows_after [OF s6(3)]]] by fastforce
  have h6: "here s6 p = here s p + length c + 1 + length ct + 1"
    using a6 by (auto simp: here_def elim!: afterE)
  have h2': "here s2 p = here ?s0 p + length c" using h2 by (simp add: here_def)
  obtain s7 where s7: "em1At p (here s2 p) BcJfalse (here s6 p) s6 = (Ok (), s7)" "sready env p s7 (y # ys)"
    "after p ?s0 s7 (c @ bc BcJfalse (here s6 p) # (ct @ [bc BcJump (here s p)])) (decls t) (lets t)"
    "ints s7 p = ints s6 p" "ps_stbl s7 = ps_stbl s6"
    by (rule sready_patch [OF s6(2) a6 h2', where op = BcJfalse and a = "here s6 p"])
  obtain s8 where s8: "leaveScope s7 = (Ok (), s8)" "sready env p s8 (y # ys)"
    "after p s s8 (c @ bc BcJfalse (here s6 p) # (ct @ [bc BcJump (here s p)])) [] (lets t)" "ints s8 p = ints s7 p"
    using sready_leave [OF s7(2) r x(2,3) s7(3)] by metis
  have st: "ps_stbl s5 = declare_all (map var (decls t)) [x] @ bump (lets t) (ps_stbl s3)"
    using s5(3) x(3) by (simp add: after_def bump_not_top)
  have st6: "ps_stbl s6 = ps_stbl s5" using s6(3) by (auto elim!: growsE)
  have pc: "patchContinue p s5 = (Ok (), s5)" "patchBreak p s7 = (Ok (), s7)"
    using st x(4-6) by (auto intro!: patch_none simp: declare_all_def s7(5) st6)
  have "parseForImpl k env (tied n env) (parseBasicStmt k env (tied n env) p True) p (tied n env (PBody p)) s = (Ok (), s8)"
    using s1(1) s2(1) s3(1) x(1) s5(1) s6(1) s7(1) s8(1) t1 pc
    by (simp add: parseForImpl_def parseConditionLoop_def cur_label_def enterLoopScope_def bnd_def thn_def tk_def
        land_here_def label_def prog_at_def here_def)
  then have p: "parseBodyStmt k env (tied n env) p s = (Ok False, s8)"
    using sready_tk [OF r] by (simp add: parseBodyStmt_def parseFor_def bnd_def thn_def tk_def ret_def)
  have K: "codes (lives s) (ints s8 p) (here s p) e c" "scodes (ints s8 p) (lives s) (here s p + length c + 1) t ct"
  proof -
    have "ints ?s4 p = ints s3 p" by (simp add: ints_def)
    then have "\<exists>ks. ints s8 p = ints s2 p @ ks" "\<exists>ks. ints s8 p = ints s5 p @ ks"
      using s3(3) s5(3) s6(3) by (auto simp: s7(4) s8(4) elim!: growsE afterE)
    moreover have "scodes (ints s5 p) (lives s) (here s p + length c + 1) t ct"
      using s5(4) x(2,3) l3 by (simp add: here_def)
    ultimately show "codes (lives s) (ints s8 p) (here s p) e c" "scodes (ints s8 p) (lives s) (here s p + length c + 1) t ct"
      using s2(4) by (blast intro: codes_ext scodes_ext)+
  qed
  have "scodes (ints s8 p) (lives s) (here s p) [SFor e t]
      (c @ bc BcJfalse (here s6 p) # ct @ bc BcJump (here s p) # [])"
    unfolding h6 using K by (intro s_for s_nil)
  then show ?thesis using s8(2,3) by (intro stmt_done_block [OF p]) simp_all
qed


section \<open>Lists of statements\<close>

lemma stmts_toks_Cons: "stmts_toks (st # ss) = stmts_toks [st] @ stmts_toks ss"
  by (cases st) simp_all

lemma ssize_Cons: "ssize [st] + ssize ss = Suc (ssize (st # ss))" and ssize_pos: "length ss < ssize ss"
proof -
  show "ssize [st] + ssize ss = Suc (ssize (st # ss))" by (cases st) simp_all
  show "length ss < ssize ss" by (induction ss rule: ssize.induct) auto
qed

lemma lets_Cons: "lets (st # ss) = lets [st] + lets ss" and decls_Cons: "decls (st # ss) = decls [st] @ decls ss"
  by (cases st; simp)+

lemma stmts_ok_Cons:
  "stmts_ok k ns (st # ss) \<longleftrightarrow>
     stmts_ok k ns [st] \<and> stmts_ok (k + length (decls [st])) (rev (decls [st]) @ ns) ss"
  by (cases st) auto

lemma scodes_Cons:
  assumes "scodes K ns a [st] c" and "scodes K (rev (decls [st]) @ ns) (a + length c) ss d"
  shows "scodes K ns a (st # ss) (c @ d)"
proof (cases st)
  case (SLet x e)
  with assms obtain c' where "c = c' @ [bc BcStoreLocal (length ns)]" "codes ns K a e c'" by auto
  then show ?thesis using assms(2) s_let [of ns K a e c' x ss d] by (simp add: SLet)
next
  case (SSet x e)
  with assms obtain c' i where "c = c' @ [bc BcStoreLocal i]" "codes ns K a e c'" "slot_of ns x = Some i" by auto
  then show ?thesis using assms(2) s_set [of ns K a e c' x i ss d] by (simp add: SSet)
next
  case (SReturn e)
  with assms obtain c' where "c = c' @ [bc BcReturn 0]" "codes ns K a e c'" by auto
  then show ?thesis using assms(2) s_return [of ns K a e c' ss d] by (simp add: SReturn)
next
  case (SIf e t f)
  with assms obtain c' ct cf where "c = c' @ bc BcJfalse (a + length c' + 1 + length ct + 1) # ct @
      [bc BcJump (a + length c' + 1 + length ct + 1 + length cf)] @ cf" "codes ns K a e c'"
    "scodes K ns (a + length c' + 1) t ct" "scodes K ns (a + length c' + 1 + length ct + 1) f cf" by auto
  then show ?thesis using assms(2) s_if [of ns K a e c' t ct f cf ss d] by (simp add: SIf ac_simps)
next
  case (SFor e t)
  with assms obtain c' ct where "c = c' @ bc BcJfalse (a + length c' + 1 + length ct + 1) # ct @ [bc BcJump a]"
    "codes ns K a e c'" "scodes K ns (a + length c' + 1) t ct" by auto
  then show ?thesis using assms(2) s_for [of ns K a e c' t ct ss d] by (simp add: SFor ac_simps)
qed

lemma after_lives:
  assumes "after p s s' c xs k" and "ps_stbl s \<noteq> []"
  shows "lives s' = rev xs @ lives s" and "heads s' = heads s @ xs"
proof -
  obtain q ss where q: "ps_stbl s = q # ss" using assms(2) by (cases "ps_stbl s") auto
  have "map (sy_name \<circ> var) xs = xs" by (induction xs) simp_all
  with assms(1) show "lives s' = rev xs @ lives s" "heads s' = heads s @ xs"
    by (simp_all add: after_def heads_def q declare_all_def)
qed

lemma stmt_compiles:
  assumes r: "sready env p s (stmts_toks [st] @ y # ys)" and ok: "stmts_ok (length (heads s)) (lives s) [st]"
    and n: "ssize [st] \<le> Suc n" and b: "\<And>t. ssize t \<le> n \<Longrightarrow> body_ok env p n t"
  shows "stmt_done env p st (y # ys) s (parseBodyStmt n env (tied n env) p s)"
proof (cases st)
  case (SLet x e)
  have "take (length (heads s)) (lives s) = rev (heads s)"
    using r by (cases "ps_stbl s") (simp_all add: sready_def body_scopes_def heads_def)
  then show ?thesis using let_compiles [of env p s x e "y # ys" n] r ok n by (simp add: SLet)
next
  case (SSet x e)
  then show ?thesis using set_compiles [of env p s x e "y # ys" n] r ok n by simp
next
  case (SReturn e)
  then show ?thesis using return_compiles [of env p s e "y # ys" n] r ok n by simp
next
  case (SIf e t f)
  obtain k where k: "n = Suc k" using n ssize_pos [of t] by (cases n) (simp_all add: SIf)
  have "body_ok env p n t" "body_ok env p n f"
    using n ssize_pos [of t] ssize_pos [of f] by (auto intro!: b simp: SIf)
  then show ?thesis using if_compiles [of env p s e t f y ys n k] r ok n by (simp add: SIf k)
next
  case (SFor e t)
  have "body_ok env p n t" using n by (intro b) (simp add: SFor)
  then show ?thesis using for_compiles [of env p s e t y ys n] r ok n by (simp add: SFor)
qed

text \<open>The loop of \<open>parseBodyImpl\<close>, one round per statement.\<close>

lemma loop_compiles:
  assumes b: "\<And>t. ssize t \<le> n \<Longrightarrow> body_ok env p n t"
  shows "ss \<noteq> [] \<Longrightarrow> sready env p s (stmts_toks ss @ PTok TkRBra # y # ys) \<Longrightarrow>
    stmts_ok (length (heads s)) (lives s) ss \<Longrightarrow> ssize ss \<le> Suc n \<Longrightarrow> length ss \<le> m \<Longrightarrow>
    stmts_done env p ss (y # ys) s (loop m (body_round env (parseBodyStmt n env (tied n env) p)) () s)"
proof (induction ss arbitrary: s m)
  case (Cons st ss)
  let ?R = "body_round env (parseBodyStmt n env (tied n env) p)"
  have n: "ssize [st] \<le> Suc n" "ssize ss \<le> Suc n"
    using Cons.prems(4) ssize_Cons [of st ss] ssize_pos [of ss] ssize_pos [of "[st]"] by simp_all
  obtain w ws where w: "stmts_toks ss @ PTok TkRBra # y # ys = w # ws" by (cases "stmts_toks ss") auto
  have "sready env p s (stmts_toks [st] @ w # ws)"
    using Cons.prems(2) by (simp add: stmts_toks_Cons [of st ss] flip: w)
  moreover note ok = iffD1 [OF stmts_ok_Cons Cons.prems(3)]
  ultimately have "stmt_done env p st (w # ws) s (parseBodyStmt n env (tied n env) p s)"
    using stmt_compiles [OF _ _ n(1) b] by blast
  then obtain sep s1 c where s1: "parseBodyStmt n env (tied n env) p s = (Ok sep, s1)"
    "sready env p s1 ((if sep then [PTok TkSemicolon] else []) @ w # ws)" "after p s s1 c (decls [st]) (lets [st])"
    "scodes (ints s1 p) (lives s) (here s p) [st] c" by (auto simp: stmt_done_def)
  obtain s2 where s2: "(if sep then thn (wantCurrent TkSemicolon) (skip env) else ret ()) s1 = (Ok (), s2)"
    "sready env p s2 (w # ws)" "grows p s1 s2 []"
  proof (cases sep)
    case True
    then have r: "sready env p s1 (PTok TkSemicolon # w # ws)" using s1(2) by simp
    then obtain s2 where "skip env s1 = (Ok (), s2)" "sready env p s2 (w # ws)" "grows p s1 s2 []"
      by (rule sready_skip) simp
    then show thesis using that True wantCurrent_at [of s1] sready_tk [OF r] by (simp add: thn_def)
  next
    case False
    then show thesis using that [of s1] s1(2,3) by (auto simp: ret_def intro: grows_refl elim: afterE)
  qed
  have a2: "after p s s2 c (decls [st]) (lets [st])" using after_trans [OF s1(3) grows_after [OF s2(3)]] by simp
  have c2: "scodes (ints s2 p) (lives s) (here s p) [st] c"
    using after_scodes [OF grows_after [OF s2(3)] s1(4)] .
  have ne: "ps_stbl s \<noteq> []" using Cons.prems(2) by (simp add: sready_def body_scopes_def)
  note l2 = after_lives [OF a2 ne]
  obtain m' where m: "m = Suc m'" using Cons.prems(5) by (cases m) auto
  show ?case
  proof (cases "ss = []")
    case True
    then have r2: "sready env p s2 (PTok TkRBra # y # ys)" using s2(2) w by simp
    then obtain s3 where s3: "skip env s2 = (Ok (), s3)" "sready env p s3 (y # ys)" "grows p s2 s3 []"
      by (rule sready_skip) simp
    have "?R () s = (Ok (Inr ()), s3)"
      using s1(1) s2(1) s3(1) sready_tk [OF r2] by (simp add: body_round_def bnd_def thn_def tk_def ret_def)
    moreover have "after p s s3 c (decls [st]) (lets [st])" using after_trans [OF a2 grows_after [OF s3(3)]] by simp
    ultimately show ?thesis
      unfolding stmts_done_def using after_scodes [OF grows_after [OF s3(3)] c2] s3(2) True
      by (intro exI [of _ s3] exI [of _ c]) (simp add: m)
  next
    case False
    have r2: "sready env p s2 (stmts_toks ss @ PTok TkRBra # y # ys)" using s2(2) by (simp only: w)
    have "ptk w \<noteq> TkRBra"
    proof -
      obtain u us where "ss = u # us" using False by (cases ss) auto
      then show ?thesis using w by (cases u) (auto)
    qed
    then have R: "?R () s = (Ok (Inl ()), s2)"
      using s1(1) s2(1) sready_tk [OF s2(2)] by (simp add: body_round_def bnd_def thn_def tk_def ret_def)
    have "stmts_done env p ss (y # ys) s2 (loop m' ?R () s2)"
      using ok Cons.prems(5) n(2) by (intro Cons.IH [OF False r2]) (simp_all add: l2 m add.commute)
    then obtain s3 d where s3: "loop m' ?R () s2 = (Ok (), s3)" "sready env p s3 (y # ys)" "after p s2 s3 d (decls ss) (lets ss)"
      "scodes (ints s3 p) (lives s2) (here s2 p) ss d" by (rule stmts_doneE)
    have "here s2 p = here s p + length c" using a2 by (rule afterE)
    then have "scodes (ints s3 p) (lives s) (here s p) (st # ss) (c @ d)"
      using s3(4) after_scodes [OF s3(3) c2] by (intro scodes_Cons) (simp_all add: l2)
    moreover have "after p s s3 (c @ d) (decls (st # ss)) (lets (st # ss))"
      using after_trans [OF a2 s3(3)] by (simp only: decls_Cons [of st ss] lets_Cons [of st ss])
    ultimately show ?thesis unfolding stmts_done_def using s3(1,2) R by (intro exI [of _ s3] exI [of _ "c @ d"]) (simp add: m)
  qed
qed simp

lemma mbind_seqs_Nil: "mbind r (\<lambda>_. seqs []) = r"
  by (cases r; cases "fst r") auto

text \<open>Every body of statements is compiled to its end and to its code.\<close>

lemma body_compiles: "ssize ss \<le> n \<Longrightarrow> body_ok env p n ss"
proof (induction n arbitrary: ss)
  case 0
  then show ?case using ssize_pos [of ss] by simp
next
  case (Suc n)
  show ?case unfolding body_ok_def
  proof (intro allI impI)
    fix s y ys
    assume r: "sready env p s (PTok TkLBra # stmts_toks ss @ PTok TkRBra # y # ys)"
      and ok: "stmts_ok (length (heads s)) (lives s) ss"
    obtain s1 where s1: "skip env s = (Ok (), s1)" "sready env p s1 (stmts_toks ss @ PTok TkRBra # y # ys)" "grows p s s1 []"
      using r by (rule sready_skip) simp
    have l1: "lives s1 = lives s" "here s1 p = here s p" "heads s1 = heads s"
      using s1(3) by (auto simp: heads_def elim!: growsE)
    have u: "tied (Suc n) env (PBody p) s = (if lx_token (ps_l s1) = TkRBra then skip env
        else loop n (body_round env (parseBodyStmt n env (tied n env) p)) ()) s1"
      using s1(1) wantCurrent_at [of s TkLBra] sready_tk [OF r]
      by (simp add: parse_call_def parseBody_def parseBodyImpl_def bnd_def tk_def mbind_seqs_Nil)
    show "stmts_done env p ss (y # ys) s (tied (Suc n) env (PBody p) s)"
    proof (cases "ss = []")
      case True
      then have r1: "sready env p s1 (PTok TkRBra # y # ys)" using s1(2) by simp
      then obtain s2 where s2: "skip env s1 = (Ok (), s2)" "sready env p s2 (y # ys)" "grows p s1 s2 []"
        by (rule sready_skip) simp
      show ?thesis unfolding stmts_done_def u
        using s2 sready_tk [OF r1] grows_after [OF grows_trans [OF s1(3) s2(3)]]
        by (intro exI [of _ s2] exI [of _ "[]"]) (simp add: True s_nil)
    next
      case False
      obtain v vs where v: "ss = v # vs" using False by (cases ss) auto
      then obtain x xs where x: "stmts_toks ss = x # xs" "ptk x \<noteq> TkRBra" by (cases v) auto
      have "stmts_done env p ss (y # ys) s1 (loop n (body_round env (parseBodyStmt n env (tied n env) p)) () s1)"
        using Suc.prems ok ssize_pos [of ss]
        by (intro loop_compiles [OF Suc.IH False s1(2)]) (simp_all add: l1)
      then obtain s2 c where s2: "loop n (body_round env (parseBodyStmt n env (tied n env) p)) () s1 = (Ok (), s2)"
        "sready env p s2 (y # ys)" "after p s1 s2 c (decls ss) (lets ss)" "scodes (ints s2 p) (lives s1) (here s1 p) ss c"
        by (rule stmts_doneE)
      show ?thesis unfolding stmts_done_def u
        using s2 x s1(2) after_trans [OF grows_after [OF s1(3)] s2(3)]
        by (intro exI [of _ s2] exI [of _ c]) (simp add: l1 sready_def ready_def)
    qed
  qed
qed

end
