(* ===== verification/CompileRule.thy ===== *)
theory CompileRule
  imports CompileStmt
begin

text \<open>
  The compiler from a text to a module, for a text that is one rule: the module has that rule, and
  the rule's program has the code of its statements between the reservation of its locals and the
  final halt.
\<close>

definition rule_ok :: "string \<Rightarrow> stmt list \<Rightarrow> bool" where
  "rule_ok name ss = (name_ok name \<and> stmts_ok 2 hidden ss)"

section \<open>Tokens\<close>

lemma ptok_un: "t \<in> set un_tokens \<Longrightarrow> ptok_ok (PTok t)"
  by (auto simp: un_tokens_def sym_tokens_def)

lemma ptok_bin: "t \<in> set (map fst bin_tokens) \<Longrightarrow> ptok_ok (PTok t)"
  by (auto simp: bin_tokens_def sym_tokens_def)

lemma ptok_fixed:
  "t \<in> set [TkLPar, TkRPar, TkLBra, TkRBra, TkSemicolon, TkAssign, TkTrue, TkFalse, TkNull, TkIf, TkElse, TkFor,
     TkLet, TkReturn] \<Longrightarrow> ptok_ok (PTok t)"
  by (auto simp: sym_tokens_def word_tokens_def)

lemma body_toks_ok: "expr_ok ns e \<Longrightarrow> list_all ptok_ok (body e)"
  by (induction e) (auto simp: ptok_fixed ptok_un ptok_bin name_ok_def simp del: ptok_ok.simps(3))

lemma stmts_toks_ok: "stmts_ok k ns ss \<Longrightarrow> list_all ptok_ok (stmts_toks ss)"
  by (induction k ns ss rule: stmts_ok.induct)
    (auto simp: ptok_fixed name_ok_def body_toks_ok simp del: ptok_ok.simps(3))

lemma rule_toks_ok: "rule_ok name ss \<Longrightarrow> list_all ptok_ok (rule_toks name ss)"
  by (auto simp: rule_ok_def rule_toks_def name_ok_def ptok_fixed stmts_toks_ok simp del: ptok_ok.simps(3))


section \<open>The rule\<close>

definition rule_scope :: "nat \<Rightarrow> syminfo list \<Rightarrow> lexicalScope" where
  "rule_scope k ys =
     \<lparr>sc_tbl = [var ''#event'', var ''#frame''] @ ys, sc_eType = EntryRule, sc_scpType = ScpNormal,
      sc_isTop = True, sc_brklist = [], sc_cntlist = [], sc_prog = Some 0, sc_maxLocal = k, sc_offset = 0\<rparr>"

definition rule_module :: "string \<Rightarrow> module" where
  "rule_module name = newModule\<lparr>md_eventMap := [(name, 0)], md_p := [0]\<rparr>"

text \<open>The state in which the body of the first rule is compiled.\<close>

definition in_rule :: "string \<Rightarrow> string \<Rightarrow> lexer \<Rightarrow> pstate" where
  "in_rule src name l =
     (newParser src)\<lparr>ps_l := l, ps_stbl := [rule_scope 2 []],
       ps_module := newModule\<lparr>md_eventMap := [(name, 0)]\<rparr>,
       ps_progs := [added [bc BcPatch 0] [lx_dbg l] [] (newProgram 0 name ProgRule)]\<rparr>"

lemma enter_rule:
  assumes "ps_stbl s = []"
  shows "\<exists>s1. enterScopeTop EntryRule 0 s = (Ok (), s1) \<and>
    bnd (mustAddLocalVar ''#event'') (\<lambda>_. bnd (mustAddLocalVar ''#frame'') (\<lambda>_. ret ())) s1 =
      (Ok (), s\<lparr>ps_stbl := [rule_scope 2 []]\<rparr>)"
  using assms
  by (simp add: thn_def bnd_def enterScopeTop_def enterScope_def newLexicalScope_def upd_scope_def ret_def Let_def
      mustAddLocalVar_def defLocalVar_def def_local_def varName_def varPlaceholder_def cur_scope_def sc_find_def
      sc_add_def vdx_def rule_scope_def numeral_2_eq_2)

lemma hole_only: "ps_progs s = [P] \<Longrightarrow> hole 0 s = (Ok (length (bcList P)), s\<lparr>ps_progs := [added [bc BcPatch 0] [lx_dbg (ps_l s)] [] P]\<rparr>)"
  by (simp add: hole_def patch_def prog_at_def added_def)

lemma em0_only: "ps_progs s = [P] \<Longrightarrow> em0 0 op s = (Ok (), s\<lparr>ps_progs := [added [bc op 0] [lx_dbg (ps_l s)] [] P]\<rparr>)"
  by (simp add: em0_def upd_prog_def emit0_def added_def)

lemma finish_only:
  assumes "ps_progs s = [added (b # c) ds ks (newProgram m x t)]" and "ps_stbl s = [rule_scope (Suc k) ys]"
  shows "finish_locals 0 0 s =
    (Ok (), s\<lparr>ps_progs := [(added (bc BcReserveLocal k # c) ds ks (newProgram m x t))\<lparr>localSize := k\<rparr>]\<rparr>)"
  using assms
  by (simp add: finish_locals_def bnd_def thn_def topMaxLocal_def upd_prog_def em1At_def emit1At_def prog_at_def
      rule_scope_def) (simp add: added_def newProgram_def)

lemma rule_scopes: "body_scopes [rule_scope k []]" and rule_lives: "live [rule_scope k []] = hidden"
  by (simp_all add: body_scopes_def rule_scope_def hidden_def)

lemma in_rule_ready:
  assumes "at_toks env (in_rule src name l) xs"
  shows "sready env 0 (in_rule src name l) xs"
proof -
  have st: "ps_stbl (in_rule src name l) = [rule_scope 2 []]" "ps_progs (in_rule src name l) \<noteq> []"
    by (simp_all add: in_rule_def)
  then show ?thesis
    using assms rule_scopes [of 2] sees_live [of "[rule_scope 2 []]"]
    by (simp add: sready_def ready_def body_scopes_def del: live.simps tidy.simps)
qed

lemma in_rule_locals: "lives (in_rule src name l) = hidden" "length (heads (in_rule src name l)) = 2"
  by (simp_all add: in_rule_def rule_scope_def hidden_def heads_def)

lemma rule_bump: "bump k (declare_all ys [rule_scope j zs]) = [rule_scope (j + k) (zs @ ys)]"
  by (simp add: declare_all_def rule_scope_def)

text \<open>Behind the name of the rule, up to the first token behind its body.\<close>

lemma parseRule_compiles:
  assumes ok: "rule_ok name ss" and n: "ssize ss \<le> n"
    and at: "at_toks env (s0\<lparr>ps_l := l0\<rparr>) (rule_toks name ss @ y # ys)" and s0: "s0 = newParser src"
  shows "\<exists>l ds ks c. parseRule m env (tied n env) (s0\<lparr>ps_l := l0\<rparr>) =
      (Ok (), s0\<lparr>ps_l := l, ps_module := rule_module name,
        ps_progs := [(added (bc BcReserveLocal (Suc (lets ss)) # c @ [bc BcHalt 0]) ds ks (newProgram 0 name ProgRule))
          \<lparr>localSize := Suc (lets ss)\<rparr>]\<rparr>) \<and>
    at_toks env (s0\<lparr>ps_l := l\<rparr>) (y # ys) \<and> scodes ks hidden 1 ss c"
proof -
  have nm: "name_ok name" "name \<noteq> []" "hd name \<noteq> CHR ''@''"
    using ok by (auto simp: rule_ok_def name_ok_def is_word_def ident_start_def ident_char_def Let_def)
  let ?s = "s0\<lparr>ps_l := l0\<rparr>"
  let ?xs = "PTok TkLBra # stmts_toks ss @ PTok TkRBra # y # ys"
  have at': "at_toks env ?s (PName name # ?xs)" using at by (simp add: rule_toks_def)
  then obtain l1 where l1: "skip env ?s = (Ok (), s0\<lparr>ps_l := l1\<rparr>)" "at_toks env (s0\<lparr>ps_l := l1\<rparr>) ?xs"
    using skip_at [of env ?s "PName name" ?xs] by auto
  have t: "lx_token l0 = TkId" "valueText l0 = name" "lx_token l1 = TkLBra" using at' l1(2) by simp_all
  let ?r = "in_rule src name l1"
  have rd: "sready env 0 ?r ?xs"
    using l1(2) at_same [of ?r "s0\<lparr>ps_l := l1\<rparr>" env ?xs] by (intro in_rule_ready) (simp add: in_rule_def)
  have "stmts_done env 0 ss (y # ys) ?r (tied n env (PBody 0) ?r)"
    using body_compiles [OF n, of env 0] rd ok
    by (simp add: body_ok_def rule_ok_def in_rule_locals)
  then obtain s2 c where s2: "tied n env (PBody 0) ?r = (Ok (), s2)" "sready env 0 s2 (y # ys)"
    "after 0 ?r s2 c (decls ss) (lets ss)" "scodes (ints s2 0) (lives ?r) (here ?r 0) ss c" by (rule stmts_doneE)
  let ?P = "newProgram 0 name ProgRule"
  obtain l ds ks where e2: "s2 = ?r\<lparr>ps_l := l, ps_stbl := [rule_scope (2 + lets ss) (map var (decls ss))],
      ps_progs := [added (bc BcPatch 0 # c) (lx_dbg l1 # ds) ks ?P]\<rparr>"
  proof -
    from s2(3) obtain l ds ks where g: "s2\<lparr>ps_stbl := ps_stbl ?r\<rparr> = ?r\<lparr>ps_l := l, ps_progs := (ps_progs ?r)
        [0 := added c ds ks (ps_progs ?r ! 0)]\<rparr>" and st: "ps_stbl s2 = bump (lets ss) (declare_all (map var (decls ss)) (ps_stbl ?r))"
      by (auto simp: after_def grows_def)
    have "s2 = (s2\<lparr>ps_stbl := ps_stbl ?r\<rparr>)\<lparr>ps_stbl := ps_stbl s2\<rparr>" by simp
    also have "\<dots> = ?r\<lparr>ps_l := l, ps_stbl := [rule_scope (2 + lets ss) (map var (decls ss))],
      ps_progs := [added (bc BcPatch 0 # c) (lx_dbg l1 # ds) ks ?P]\<rparr>"
      unfolding g st by (simp add: in_rule_def rule_bump)
    finally show thesis by (rule that)
  qed
  have sc: "scodes ks hidden 1 ss c"
    using s2(4) unfolding in_rule_locals by (simp add: e2 ints_def here_def in_rule_def newProgram_def added_def)
  have a2: "at_toks env (s0\<lparr>ps_l := l\<rparr>) (y # ys)"
    using s2(2) at_same [of s2 "s0\<lparr>ps_l := l\<rparr>" env "y # ys"] by (simp add: sready_def ready_def e2)
  have rn: "rule_name env ?s = (Ok name, s0\<lparr>ps_l := l1\<rparr>)"
    using t l1(1) by (simp add: rule_name_def bnd_def thn_def tk_def text_value_def ret_def)
  let ?fin = "s0\<lparr>ps_l := l, ps_module := rule_module name,
      ps_progs := [(added (bc BcReserveLocal (Suc (lets ss)) # c @ [bc BcHalt 0]) (lx_dbg l1 # ds @ [lx_dbg l]) ks ?P)
        \<lparr>localSize := Suc (lets ss)\<rparr>]\<rparr>"
  let ?A = "s0\<lparr>ps_l := l1, ps_progs := [?P]\<rparr>"
  obtain sB where B: "enterScopeTop EntryRule 0 ?A = (Ok (), sB)"
    "bnd (mustAddLocalVar ''#event'') (\<lambda>_. bnd (mustAddLocalVar ''#frame'') (\<lambda>_. ret ())) sB =
      (Ok (), ?A\<lparr>ps_stbl := [rule_scope 2 []]\<rparr>)"
    using enter_rule [of ?A] by (auto simp: s0 newParser_def)
  let ?C = "?A\<lparr>ps_stbl := [rule_scope 2 []], ps_progs := [added [bc BcPatch 0] [lx_dbg l1] [] ?P]\<rparr>"
  have C: "hole 0 (?A\<lparr>ps_stbl := [rule_scope 2 []]\<rparr>) = (Ok 0, ?C)"
    using hole_only [of "?A\<lparr>ps_stbl := [rule_scope 2 []]\<rparr>" ?P] by (simp add: newProgram_def)
  have D: "addEvent (ps_module ?C) name 0 = (newModule\<lparr>md_eventMap := [(name, 0)]\<rparr>, True)"
    by (simp add: s0 newParser_def addEvent_def HaveEvent_def newModule_def)
  have R: "?C\<lparr>ps_module := newModule\<lparr>md_eventMap := [(name, 0)]\<rparr>\<rparr> = ?r"
    by (simp add: in_rule_def s0)
  let ?E = "s2\<lparr>ps_progs := [added (bc BcPatch 0 # c @ [bc BcHalt 0]) (lx_dbg l1 # ds @ [lx_dbg l]) ks ?P]\<rparr>"
  have E: "em0 0 BcHalt s2 = (Ok (), ?E)"
    using em0_only [of s2] by (simp add: e2)
  have F: "finish_locals 0 0 ?E = (Ok (), ?E\<lparr>ps_progs := ps_progs ?fin\<rparr>)"
    using finish_only [of ?E "bc BcPatch 0" "c @ [bc BcHalt 0]" "lx_dbg l1 # ds @ [lx_dbg l]" ks 0 name ProgRule "Suc (lets ss)"]
    by (simp add: e2)
  have G: "ps_stbl s2 = [rule_scope (2 + lets ss) (map var (decls ss))]"
    "ps_module s2 = newModule\<lparr>md_eventMap := [(name, 0)]\<rparr>"
    "s2\<lparr>ps_progs := ps_progs ?fin, ps_module := rule_module name, ps_stbl := []\<rparr> = ?fin"
    by (simp_all add: e2 in_rule_def s0) (simp add: newParser_def)
  have p0: "ps_progs s0 = []" by (simp add: s0 newParser_def)
  have M: "newModule\<lparr>md_eventMap := [(name, 0)], md_p := md_p newModule @ [0]\<rparr> = rule_module name"
    by (simp add: rule_module_def newModule_def)
  have "parseRule m env (tied n env) ?s = (Ok (), ?fin)"
    using t nm rn B C D R s2(1) E F G sready_tk [OF rd]
    by (simp add: parseRule_def bnd_def thn_def tk_def ret_def alloc_prog_def then_leave_def gets_def modify_def
        leaveScope_def p0 M)
  with sc a2 show ?thesis by blast
qed


section \<open>The module\<close>

definition rule_program :: "string \<Rightarrow> nat \<Rightarrow> bytecode list \<Rightarrow> sourceloc list \<Rightarrow> int64 list \<Rightarrow> program" where
  "rule_program name k c ds ks =
     (added (bc BcReserveLocal k # c @ [bc BcHalt 0]) ds ks (newProgram 0 name ProgRule))\<lparr>localSize := k\<rparr>"

theorem rule_text_compiles:
  assumes ok: "rule_ok name ss" and n: "ssize ss < n"
  shows "\<exists>ds ks c. CompileModule n env (rule_text name ss) =
      Ok (rule_module name, [rule_program name (Suc (lets ss)) c ds ks]) \<and> scodes ks hidden 1 ss c"
proof -
  let ?s0 = "newParser (rule_text name ss)" and ?K = "tied n env"
  have av: "avail (pe_lex env) (ps_l ?s0) (rule_toks name ss @ [PTok TkEof])"
    using avail_text [OF rule_toks_ok [OF ok]] by (simp add: newParser_def rule_text_def)
  obtain l0 where l0: "skip env ?s0 = (Ok (), ?s0\<lparr>ps_l := l0\<rparr>)"
    "at_toks env (?s0\<lparr>ps_l := l0\<rparr>) (rule_toks name ss @ [PTok TkEof])"
  proof -
    from av obtain l where "lx_next (pe_lex env) (ps_l ?s0) = (Ok TkId, l)" "lx_token l = TkId" "valueText l = name"
      "avail (pe_lex env) l (tl (rule_toks name ss) @ [PTok TkEof])" by (auto simp: rule_toks_def)
    then show thesis
      by (intro that [of l]) (simp_all add: skip_def next_tk_def on_lexer_def ret_def rule_toks_def)
  qed
  obtain m where m: "n = Suc (Suc m)" using n ssize_pos [of ss] by (cases n; cases "n - 1") auto
  obtain l ds ks c where r: "parseRule n env ?K (?s0\<lparr>ps_l := l0\<rparr>) =
      (Ok (), ?s0\<lparr>ps_l := l, ps_module := rule_module name, ps_progs := [rule_program name (Suc (lets ss)) c ds ks]\<rparr>)"
    "at_toks env (?s0\<lparr>ps_l := l\<rparr>) [PTok TkEof]" "scodes ks hidden 1 ss c"
    using parseRule_compiles [OF ok _ l0(2) refl, of n n] n unfolding rule_program_def by auto
  have t: "lx_token l0 = TkId" "lx_token l = TkEof" using l0(2) r(2) by (simp_all add: rule_toks_def)
  let ?fin = "?s0\<lparr>ps_l := l, ps_module := rule_module name, ps_progs := [rule_program name (Suc (lets ss)) c ds ks]\<rparr>"
  have i: "parseImport n env ?K (?s0\<lparr>ps_l := l0\<rparr>) = (Ok (), ?s0\<lparr>ps_l := l0\<rparr>)"
    using t by (simp add: m parseImport_def bnd_def tk_def ret_def)
  have v: "parseTopVarScope n env ?K (?s0\<lparr>ps_l := l0\<rparr>) = (Ok (), ?s0\<lparr>ps_l := l0\<rparr>)"
    using t by (simp add: parseTopVarScope_def bnd_def tk_def ret_def)
  have e1: "entry_round n env ?K () (?s0\<lparr>ps_l := l0\<rparr>) = (Ok (Inl ()), ?fin)"
    using t r(1) by (simp add: entry_round_def bnd_def thn_def tk_def ret_def)
  have e2: "entry_round n env ?K () ?fin = (Ok (Inr ()), ?fin)"
    using t by (simp add: entry_round_def top_other_def bnd_def tk_def ret_def)
  have pc: "ps_callPatch ?s0 = []" "md_config (rule_module name) = None"
    by (simp_all add: newParser_def rule_module_def newModule_def)
  have "parseEntry n env ?K (?s0\<lparr>ps_l := l0\<rparr>) = (Ok (), ?fin)"
    using i v e1 e2 pc by (simp add: m parseEntry_def patchAllCall_def bnd_def gets_def ret_def)
  then have "CompileModule n env (rule_text name ss) =
      Ok (rule_module name, [rule_program name (Suc (lets ss)) c ds ks])"
    using l0(1) by (simp add: CompileModule_def parse_def thn_def gets_def)
  with r(3) show ?thesis by blast
qed

end
