(* ===== verification/RunCode.thy ===== *)
theory RunCode
  imports Language
begin

text \<open>
  The evaluator on the code of \<open>codes\<close> and \<open>scodes\<close>, wherever it stands in a program: it computes
  the meaning of the expression or the statements, pushes the value or changes the frame's locals,
  and ends in the errors and panics they have.
\<close>

section \<open>Runs of code\<close>

type_synonym 'w point = "int \<times> 'w vm"

text \<open>
  From one pc and state to another, at the cost of some fuel that is not enough for anything else;
  or to an end.
\<close>

abbreviation runs :: "nat \<Rightarrow> 'w venv \<Rightarrow> nat \<Rightarrow> nat \<Rightarrow> 'w point \<Rightarrow> rr res \<times> 'w vm" where
  "runs n env m p x \<equiv> runL n env m p (fst x) (snd x)"

definition goes :: "'w venv \<Rightarrow> nat \<Rightarrow> nat \<Rightarrow> 'w point \<Rightarrow> 'w point \<Rightarrow> bool" where
  "goes env m p x y \<longleftrightarrow>
     (\<exists>k. (\<forall>n. runs (n + k) env m p x = runs n env m p y) \<and> (\<forall>n<k. fst (runs n env m p x) = Diverge))"

definition stops :: "'w venv \<Rightarrow> nat \<Rightarrow> nat \<Rightarrow> 'w point \<Rightarrow> rr res \<times> 'w vm \<Rightarrow> bool" where
  "stops env m p x r \<longleftrightarrow>
     (\<exists>k. (\<forall>n. runs (n + k) env m p x = r) \<and> (\<forall>n<k. fst (runs n env m p x) = Diverge))"

text \<open>This much fuel does not get a run to an end.\<close>

definition hangs :: "nat \<Rightarrow> 'w venv \<Rightarrow> nat \<Rightarrow> nat \<Rightarrow> 'w point \<Rightarrow> bool" where
  "hangs N env m p x \<longleftrightarrow> (\<forall>n\<le>N. fst (runs n env m p x) = Diverge)"

lemma goes_refl [simp]: "goes env m p x x"
  unfolding goes_def by (rule exI [of _ 0]) simp

lemma goes_cost:
  fixes f g :: "nat \<Rightarrow> 'a res \<times> 's"
  assumes "\<forall>n. f (n + k) = g n" and "\<forall>n<k. fst (f n) = (Diverge :: 'a res)" and "\<forall>n<j. fst (g n) = Diverge"
  shows "\<forall>n<j + k. fst (f n) = Diverge"
proof (intro allI impI)
  fix n assume "n < j + k"
  show "fst (f n) = Diverge"
  proof (cases "n < k")
    case False
    then have "f n = g (n - k)" using assms(1) [rule_format, of "n - k"] by simp
    with False \<open>n < j + k\<close> assms(3) show ?thesis by simp
  qed (use assms(2) in simp)
qed

lemma goes_trans [trans]:
  assumes "goes env m p x y" and "goes env m p y z"
  shows "goes env m p x z"
proof -
  obtain k j where k: "\<forall>n. runs (n + k) env m p x = runs n env m p y" "\<forall>n<k. fst (runs n env m p x) = Diverge"
    and j: "\<forall>n. runs (n + j) env m p y = runs n env m p z" "\<forall>n<j. fst (runs n env m p y) = Diverge"
    using assms by (auto simp: goes_def)
  have "runs (n + (j + k)) env m p x = runs n env m p z" for n
    using k(1) j(1) by (simp flip: add.assoc)
  with goes_cost [OF k j(2)] show ?thesis unfolding goes_def by blast
qed

lemma goes_stops:
  assumes "goes env m p x y" and "stops env m p y r"
  shows "stops env m p x r"
proof -
  obtain k j where k: "\<forall>n. runs (n + k) env m p x = runs n env m p y" "\<forall>n<k. fst (runs n env m p x) = Diverge"
    and j: "\<forall>n. runs (n + j) env m p y = r" "\<forall>n<j. fst (runs n env m p y) = Diverge"
    using assms by (auto simp: goes_def stops_def)
  have "runs (n + (j + k)) env m p x = r" for n
    using k(1) j(1) by (simp flip: add.assoc)
  with goes_cost [OF k j(2)] show ?thesis unfolding stops_def by blast
qed

lemma goes_hangs:
  assumes "goes env m p x y" and "hangs N env m p y"
  shows "hangs N env m p x"
proof -
  obtain k where "\<forall>n. runs (n + k) env m p x = runs n env m p y" "\<forall>n<k. fst (runs n env m p x) = Diverge"
    using assms(1) by (auto simp: goes_def)
  from goes_cost [OF this, of "Suc N"] assms(2) show ?thesis by (auto simp: hangs_def less_Suc_eq_le)
qed

lemma stops_hangs: "stops env m p x (Diverge, s) \<Longrightarrow> hangs N env m p x"
proof -
  assume "stops env m p x (Diverge, s)"
  then obtain k where k: "\<forall>n. runs (n + k) env m p x = (Diverge, s)" "\<forall>n<k. fst (runs n env m p x) = Diverge"
    by (auto simp: stops_def)
  have "fst (runs n env m p x) = Diverge" for n
    using k(1) [rule_format, of "n - k"] k(2) by (cases "n < k") simp_all
  then show ?thesis by (simp add: hangs_def)
qed

lemma hangs_le: "hangs N env m p x \<Longrightarrow> M \<le> N \<Longrightarrow> hangs M env m p x"
  by (simp add: hangs_def)

definition code_at :: "program \<Rightarrow> nat \<Rightarrow> bytecode list \<Rightarrow> bool" where
  "code_at P a c \<longleftrightarrow> (\<exists>pre post. bcList P = pre @ c @ post \<and> length pre = a)"

lemma code_at_append: "code_at P a (c @ d) \<Longrightarrow> code_at P a c \<and> code_at P (a + length c) d"
  unfolding code_at_def by (metis append_assoc length_append)

lemma code_at_Cons: "code_at P a (b # d) \<Longrightarrow> code_at P a [b] \<and> code_at P (a + 1) d"
  using code_at_append [of P a "[b]" d] by simp

lemma code_at_idx: "code_at P a (b # d) \<Longrightarrow> idx (bcList P) (int a) = Ok b"
  by (auto simp: code_at_def idx_def nth_append)

text \<open>One instruction that needs neither fuel nor a nested run.\<close>

definition does :: "'w venv \<Rightarrow> nat \<Rightarrow> nat \<Rightarrow> nat \<Rightarrow> opcode \<Rightarrow> nat \<Rightarrow> 'w vm \<Rightarrow> ctl res \<times> 'w vm \<Rightarrow> bool" where
  "does env m p a op arg s r \<longleftrightarrow> (\<forall>n run. step n env run m p (int a) op arg s = r)"

lemma does_runL:
  assumes "code_at (oe_progs env p) a (bc op arg # d)" and "does env m p a op arg s r"
  shows "runL (n + 1) env m p (int a) s = mbind r (\<lambda>c s.
     case c of
       CNext \<Rightarrow> runL n env m p (int a + 1) s
     | CJump i \<Rightarrow> runL n env m p (int i) s
     | CGoto (Some p') pc' \<Rightarrow> runL n env m p' pc' s
     | CGoto None _ \<Rightarrow> (Panic ''nil pointer'', s)
     | CStop r \<Rightarrow> (Ok r, s))"
  using assms by (simp add: does_def code_at_idx)

lemma does_next:
  assumes "code_at (oe_progs env p) a (bc op arg # d)" and "does env m p a op arg s (Ok CNext, s')"
  shows "goes env m p (int a, s) (int (a + 1), s')"
  unfolding goes_def using does_runL [OF assms] by (intro exI [of _ 1] conjI allI impI) (simp_all add: add.commute)

lemma does_jump:
  assumes "code_at (oe_progs env p) a (bc op arg # d)" and "does env m p a op arg s (Ok (CJump i), s')"
  shows "goes env m p (int a, s) (int i, s')"
  unfolding goes_def using does_runL [OF assms] by (intro exI [of _ 1] conjI allI impI) simp_all

lemma does_stop:
  assumes "code_at (oe_progs env p) a (bc op arg # d)" and "does env m p a op arg s (Ok (CStop r), s')"
  shows "stops env m p (int a, s) (Ok r, s')"
  unfolding stops_def using does_runL [OF assms] by (intro exI [of _ 1] conjI allI impI) simp_all

lemma does_err:
  assumes "code_at (oe_progs env p) a (bc op arg # d)" and "does env m p a op arg s (Err e, s')"
  shows "stops env m p (int a, s) (Err e, s')"
  unfolding stops_def using does_runL [OF assms] by (intro exI [of _ 1] conjI allI impI) simp_all

lemma does_panic:
  assumes "code_at (oe_progs env p) a (bc op arg # d)" and "does env m p a op arg s (Panic e, s')"
  shows "stops env m p (int a, s) (Panic e, s')"
  unfolding stops_def using does_runL [OF assms] by (intro exI [of _ 1] conjI allI impI) simp_all

lemma does_diverge:
  assumes "code_at (oe_progs env p) a (bc op arg # d)" and "does env m p a op arg s (Diverge, s')"
  shows "stops env m p (int a, s) (Diverge, s')"
  unfolding stops_def using does_runL [OF assms] by (intro exI [of _ 1] conjI allI impI) simp_all

lemma does_hangs:
  assumes "code_at (oe_progs env p) a (bc op arg # d)" and "does env m p a op arg s (Ok c, s')"
    and "c = CNext \<and> b = a + 1 \<or> c = CJump b" and "hangs N env m p (int b, s')"
  shows "hangs (Suc N) env m p (int a, s)"
  unfolding hangs_def
proof (intro allI impI)
  fix n assume n: "n \<le> Suc N"
  show "fst (runs n env m p (int a, s)) = Diverge"
  proof (cases n)
    case (Suc k)
    then have "runs n env m p (int a, s) = runs k env m p (int b, s')"
      using does_runL [OF assms(1,2), of k] assms(3) by (auto simp: add.commute)
    then show ?thesis using assms(4) n Suc by (simp add: hangs_def)
  qed simp
qed

section \<open>Failing\<close>

text \<open>
  A run from \<open>x\<close> ends as \<open>r\<close> says, unless that is a value; an error is one of the script, or of an
  embedder's iterator in the test of a condition. The lower \<open>k\<close> slots of the stack of
  \<open>s\<close> are left alone.
\<close>

definition base :: "nat \<Rightarrow> 'w vm \<Rightarrow> val list \<Rightarrow> bool" where
  "base k s stk \<longleftrightarrow> k \<le> length stk \<and> take k stk = take k (vm_Stack s)"

definition fails :: "'w venv \<Rightarrow> nat \<Rightarrow> nat \<Rightarrow> 'w point \<Rightarrow> nat \<Rightarrow> 'w vm \<Rightarrow> 'a res \<Rightarrow> bool" where
  "fails env m p x k s r \<longleftrightarrow>
     (case r of
        Err e \<Rightarrow> \<exists>pc stk. base k s stk \<and> (stops env m p x (Ok (RErr (Some p) pc e), s\<lparr>vm_Stack := stk\<rparr>) \<or>
          stops env m p x (Err e, s\<lparr>vm_Stack := stk\<rparr>))
      | Panic e \<Rightarrow> \<exists>stk. stops env m p x (Panic e, s\<lparr>vm_Stack := stk\<rparr>)
      | Diverge \<Rightarrow> \<exists>stk. stops env m p x (Diverge, s\<lparr>vm_Stack := stk\<rparr>)
      | _ \<Rightarrow> True)"

lemma fails_Ok [simp]: "fails env m p x k s (Ok v)"
  by (simp add: fails_def)

lemma fails_goes:
  assumes "goes env m p x y" and "fails env m p y k s r"
  shows "fails env m p x k s r"
  using assms(2) goes_stops [OF assms(1)] by (cases r) (fastforce simp: fails_def)+

text \<open>The stack may have grown or changed above its base.\<close>

lemma fails_stack:
  assumes "fails env m p x k (s\<lparr>vm_Stack := stk\<rparr>) r" and "base k s stk"
  shows "fails env m p x k s r"
  using assms by (cases r) (auto simp: fails_def base_def)

lemma fails_push:
  "fails env m p x k (push v s) r \<Longrightarrow> k \<le> length (vm_Stack s) \<Longrightarrow> fails env m p x k s r"
  unfolding push_def by (erule fails_stack) (simp add: base_def)

lemma does_fails:
  assumes "code_at (oe_progs env p) a (bc op arg # d)" and "k \<le> length (vm_Stack s)"
    and "does env m p a op arg s' (case r of Ok v \<Rightarrow> c v | Err e \<Rightarrow> (Ok (CStop (RErr (Some p) pc e)), s)
      | Panic e \<Rightarrow> (Panic e, s) | Diverge \<Rightarrow> (Diverge, s))"
  shows "fails env m p (int a, s') k s r"
proof (cases r)
  case (Err e)
  then have "stops env m p (int a, s') (Ok (RErr (Some p) pc e), s\<lparr>vm_Stack := vm_Stack s\<rparr>)"
    using does_stop [OF assms(1)] assms(3) by simp
  then show ?thesis using assms(2) unfolding Err fails_def
    by (auto simp: base_def intro!: exI [of _ pc] exI [of _ "vm_Stack s"])
next
  case (Panic e)
  then have "stops env m p (int a, s') (Panic e, s\<lparr>vm_Stack := vm_Stack s\<rparr>)"
    using does_panic [OF assms(1)] assms(3) by simp
  then show ?thesis unfolding Panic fails_def by (auto intro!: exI [of _ "vm_Stack s"])
next
  case Diverge
  then have "stops env m p (int a, s') (Diverge, s\<lparr>vm_Stack := vm_Stack s\<rparr>)"
    using does_diverge [OF assms(1)] assms(3) by simp
  then show ?thesis unfolding Diverge fails_def by (auto intro!: exI [of _ "vm_Stack s"])
qed simp_all

text \<open>The same for the test of a condition, with what comes behind it.\<close>

lemma does_test:
  assumes "code_at (oe_progs env p) a (bc op arg # d)" and "base k s stk"
    and "does env m p a op arg s' (rlift r (s\<lparr>vm_Stack := stk\<rparr>) c)"
    and "\<And>b. r = Ok b \<Longrightarrow> fails env m p (int a, s') k s (f b)"
  shows "fails env m p (int a, s') k s (rbind r f)"
proof (cases r)
  case (Err e)
  then have "stops env m p (int a, s') (Err e, s\<lparr>vm_Stack := stk\<rparr>)"
    using does_err [OF assms(1)] assms(3) by simp
  then show ?thesis using assms(2) unfolding Err fails_def by auto
next
  case (Panic e)
  then have "stops env m p (int a, s') (Panic e, s\<lparr>vm_Stack := stk\<rparr>)"
    using does_panic [OF assms(1)] assms(3) by simp
  then show ?thesis unfolding Panic fails_def by auto
next
  case Diverge
  then have "stops env m p (int a, s') (Diverge, s\<lparr>vm_Stack := stk\<rparr>)"
    using does_diverge [OF assms(1)] assms(3) by simp
  then show ?thesis unfolding Diverge fails_def by auto
qed (use assms(4) in simp_all)

section \<open>Frames\<close>

text \<open>The frame's slots hold the values of the variables, the outermost first.\<close>

definition frame_has :: "bindings \<Rightarrow> 'w vm \<Rightarrow> bool" where
  "frame_has \<rho> s \<longleftrightarrow> (\<forall>i<length \<rho>. stack_get (localslot s i) s = Ok (snd (rev \<rho> ! i)))"

lemma slot_value:
  "slot_of (map fst \<rho>) x = Some i \<Longrightarrow> i < length \<rho> \<and> map_of \<rho> x = Some (snd (rev \<rho> ! i))"
proof (induction \<rho>)
  case (Cons b \<rho>)
  obtain y v where b: "b = (y, v)" by (cases b)
  show ?case
  proof (cases "y = x")
    case True
    with Cons.prems show ?thesis by (auto simp: b nth_append)
  next
    case False
    with Cons show ?thesis by (auto simp: b nth_append)
  qed
qed simp

lemma stack_get_push: "stack_get i s = Ok v \<Longrightarrow> stack_get i (push w s) = Ok v"
  by (auto simp: stack_get_def push_def nth_append split: if_splits)

lemma localslot_stack [simp]: "localslot (s\<lparr>vm_Stack := stk\<rparr>) i = localslot s i" "localslot (push v s) i = localslot s i"
  by (simp_all add: localslot_def push_def)

lemma frame_has_push: "frame_has \<rho> s \<Longrightarrow> frame_has \<rho> (push v s)"
  by (simp add: frame_has_def stack_get_push)

lemma push_simps [simp]:
  "vm_st (push v s) = vm_st s" "vm_Stack (push v s) = vm_Stack s @ [v]" "vm_cf (push v s) = vm_cf s"
  by (simp_all add: push_def)

lemma topN_push: "topN 0 (push v s) = Ok v" "topN 1 (push w (push v s)) = Ok v"
  "topN (Suc 0) (push w (push v s)) = Ok v"
  by (simp_all add: topN_def nth_append)

lemma popN_push: "popN 1 (push v s) = (Ok (), s)" "popN 2 (push w (push v s)) = (Ok (), s)"
  "popN (Suc 0) (push v s) = (Ok (), s)" "popN (Suc (Suc 0)) (push w (push v s)) = (Ok (), s)"
  by (simp_all add: popN_def push_def)

lemma popv_push: "popv (push v s) = (Ok v, s)"
  by (simp add: popv_def topN_push popN_push)

lemma push_stack: "push v s = s\<lparr>vm_Stack := vm_Stack s @ [v]\<rparr>"
  by (simp add: push_def)

section \<open>Expressions\<close>

text \<open>
  From \<open>x\<close> a run gets to the pc \<open>b\<close> with the value of \<open>r\<close> on the stack of \<open>s\<close>, or fails.
\<close>

definition computes :: "'w venv \<Rightarrow> nat \<Rightarrow> nat \<Rightarrow> 'w point \<Rightarrow> nat \<Rightarrow> 'w vm \<Rightarrow> nat \<Rightarrow> val res \<Rightarrow> bool" where
  "computes env m p x b s k r \<longleftrightarrow>
     (\<forall>v. r = Ok v \<longrightarrow> goes env m p x (int b, push v s)) \<and> fails env m p x k s r"

lemma computes_Ok: "computes env m p x b s k (Ok v) \<longleftrightarrow> goes env m p x (int b, push v s)"
  by (simp add: computes_def)

lemma computes_goes:
  "goes env m p x y \<Longrightarrow> computes env m p y b s k r \<Longrightarrow> computes env m p x b s k r"
  unfolding computes_def by (blast intro: goes_trans fails_goes)

text \<open>The rest of the code, once the first operand has its value.\<close>

lemma computes_bind:
  assumes "computes env m p x b s k r" and "\<And>v. r = Ok v \<Longrightarrow> computes env m p (int b, push v s) c s k (f v)"
  shows "computes env m p x c s k (rbind r f)"
proof (cases r)
  case (Ok v)
  then show ?thesis using computes_goes assms by (fastforce simp: computes_Ok)
qed (use assms(1) in \<open>auto simp: computes_def fails_def\<close>)

lemma computes_bind_push:
  assumes "computes env m p x b (push v s) k r" and "k \<le> length (vm_Stack s)"
    and "\<And>w. r = Ok w \<Longrightarrow> computes env m p (int b, push w (push v s)) c s k (f w)"
  shows "computes env m p x c s k (rbind r f)"
proof (cases r)
  case (Ok w)
  then show ?thesis using computes_goes assms by (fastforce simp: computes_Ok)
next
  case (Err e)
  then show ?thesis using fails_push [of env m p x k v s "Err e :: val res"] assms(1,2)
    by (simp add: computes_def fails_def)
next
  case (Panic e)
  then show ?thesis using fails_push [of env m p x k v s "Panic e :: val res"] assms(1,2)
    by (simp add: computes_def fails_def)
next
  case Diverge
  then show ?thesis using fails_push [of env m p x k v s "Diverge :: val res"] assms(1,2)
    by (simp add: computes_def fails_def)
qed

lemma computes_test:
  assumes "code_at (oe_progs env p) a (bc op arg # d)" and "base k s stk"
    and "does env m p a op arg s' (rlift r (s\<lparr>vm_Stack := stk\<rparr>) c)"
    and "\<And>b. r = Ok b \<Longrightarrow> computes env m p (int a, s') to s k (f b)"
  shows "computes env m p (int a, s') to s k (rbind r f)"
  using does_test [OF assms(1-3)] assms(4) by (auto simp: computes_def rbind_Ok_iff)

lemma step_load_does:
  "does env m p a BcLoadTrue 0 s (Ok CNext, push (VBool True) s)"
  "does env m p a BcLoadFalse 0 s (Ok CNext, push (VBool False) s)"
  "does env m p a BcLoadNull 0 s (Ok CNext, push VNull s)"
  by (simp_all add: does_def step_def bin_ops_def step_load_def cnext_def)

lemma step_int_does:
  "k < length (tbInt (oe_progs env p)) \<Longrightarrow>
   does env m p a BcLoadInt k s (Ok CNext, push (VInt (tbInt (oe_progs env p) ! k)) s)"
  by (simp add: does_def step_def bin_ops_def step_load_def cnext_def idxInt_def tb_idx_def)

lemma step_local_does:
  "stack_get (localslot s i) s = Ok v \<Longrightarrow> does env m p a BcLoadLocal i s (Ok CNext, push v s)"
  by (simp add: does_def step_def bin_ops_def step_local_def cnext_def)

lemma step_bin_does:
  "op \<in> set bin_ops \<Longrightarrow> does env m p a op 0 (push w (push v s))
     (case doBin (oenv_of env) (ve_pow env) (vm_st s) v w op of
        Ok x \<Rightarrow> (Ok CNext, push x s)
      | Err e \<Rightarrow> (Ok (CStop (RErr (Some p) (int a) e)), s)
      | Panic e \<Rightarrow> (Panic e, s)
      | Diverge \<Rightarrow> (Diverge, s))"
  by (simp add: does_def step_def step_bin_def topN_push popN_push orErr_def cnext_def split: res.splits)

lemma step_negate_does:
  "does env m p a BcNegate 0 (push v s)
     (case doNegate v of
        Ok x \<Rightarrow> (Ok CNext, push x s)
      | Err e \<Rightarrow> (Ok (CStop (RErr (Some p) (int a) e)), s)
      | Panic e \<Rightarrow> (Panic e, s)
      | Diverge \<Rightarrow> (Diverge, s))"
  by (simp add: does_def step_def bin_ops_def step_unary_def popv_push orErr_def cnext_def split: res.splits)

lemma step_not_does:
  "does env m p a BcNot 0 (push v s)
     (rlift (ToBoolean (oenv_of env) (vm_st s) v) s (\<lambda>b s. (Ok CNext, push (VBool (\<not> b)) s)))"
  by (simp add: does_def step_def bin_ops_def step_unary_def popv_push cnext_def)

lemma step_logic_does:
  "op = BcAnd \<or> op = BcOr \<Longrightarrow> does env m p a op i (push v s)
     (rlift (ToBoolean (oenv_of env) (vm_st s) v) (push v s) (\<lambda>b s'.
        if b = (op = BcOr) then (Ok (CJump i), s') else (Ok CNext, s)))"
  by (cases "ToBoolean (oenv_of env) (vm_st s) v")
    (auto simp: does_def step_def bin_ops_def step_logic_def topN_push popN_push cnext_def)

lemma step_ternary_does:
  "does env m p a BcTernary i (push w (push v s))
     (rlift (ToBoolean (oenv_of env) (vm_st s) w) (push v s) (\<lambda>b s'.
        if b then (Ok (CJump i), s') else (Ok CNext, s)))"
  by (cases "ToBoolean (oenv_of env) (vm_st s) w")
    (auto simp: does_def step_def bin_ops_def step_jump_def popv_push popN_push cnext_def)

lemma step_jfalse_does:
  "does env m p a BcJfalse i (push v s)
     (rlift (ToBoolean (oenv_of env) (vm_st s) v) s (\<lambda>b s. if b then (Ok CNext, s) else (Ok (CJump i), s)))"
  by (cases "ToBoolean (oenv_of env) (vm_st s) v")
    (auto simp: does_def step_def bin_ops_def step_jump_def popv_push cnext_def)

lemma step_jump_does: "does env m p a BcJump i s (Ok (CJump i), s)"
  by (simp add: does_def step_def bin_ops_def step_jump_def)


lemma computes_operator:
  assumes "code_at (oe_progs env p) a (bc op arg # d)" and "k \<le> length (vm_Stack s)"
    and "does env m p a op arg s' (case r of Ok v \<Rightarrow> (Ok CNext, push v s)
      | Err e \<Rightarrow> (Ok (CStop (RErr (Some p) pc e)), s) | Panic e \<Rightarrow> (Panic e, s) | Diverge \<Rightarrow> (Diverge, s))"
  shows "computes env m p (int a, s') (a + 1) s k r"
  using does_fails [OF assms] does_next [OF assms(1)] assms(3) by (auto simp: computes_def)

lemma computes_load:
  assumes "code_at (oe_progs env p) a (bc op arg # d)" and "does env m p a op arg s (Ok CNext, push v s)"
  shows "computes env m p (int a, s) (a + 1) s k (Ok v)"
  using does_next [OF assms] by (simp add: computes_Ok)

lemma bin_opcode_ops: "t \<in> set (map fst bin_tokens) \<Longrightarrow> t \<noteq> TkAnd \<Longrightarrow> t \<noteq> TkOr \<Longrightarrow> bin_opcode t \<in> set bin_ops"
  by (auto simp: bin_tokens_def bin_opcode_def bin_ops_def)

lemma expr_runs:
  assumes "codes (map fst \<rho>) K a e c" and "code_at (oe_progs env p) a c" and "tbInt (oe_progs env p) = K"
    and "frame_has \<rho> s" and "vm_st s = st" and "expr_ok (map fst \<rho>) e" and "k \<le> length (vm_Stack s)"
  shows "computes env m p (int a, s) (a + length c) s k (ev env st \<rho> e)"
  using assms
proof (induction arbitrary: s rule: codes.induct)
  case (c_int j n a)
  have "does env m p a BcLoadInt j s (Ok CNext, push (VInt (K ! j)) s)"
    using step_int_does [of j env p m a s] c_int by simp
  from computes_load [OF c_int.prems(1) this] show ?case using c_int.hyps by simp
next
  case (c_true a)
  from computes_load [OF c_true.prems(1) step_load_does(1)] show ?case by simp
next
  case (c_false a)
  from computes_load [OF c_false.prems(1) step_load_does(2)] show ?case by simp
next
  case (c_null a)
  from computes_load [OF c_null.prems(1) step_load_does(3)] show ?case by simp
next
  case (c_var x i a)
  from slot_value [OF c_var.hyps] have "i < length \<rho>" "map_of \<rho> x = Some (snd (rev \<rho> ! i))" by simp_all
  then show ?case using computes_load [OF c_var.prems(1) step_local_does] c_var.prems(3)
    by (simp add: frame_has_def)
next
  case (c_un a e c t)
  let ?d = "if t = TkSub then [bc BcNegate 0] else if t = TkNot then [bc BcNot 0] else []"
  have cs: "code_at (oe_progs env p) a c" "code_at (oe_progs env p) (a + length c) ?d"
    using code_at_append [OF c_un.prems(1)] by simp_all
  have e: "computes env m p (int a, s) (a + length c) s k (ev env st \<rho> e)"
    using c_un.prems by (intro c_un.IH cs(1)) simp_all
  show ?case unfolding ev.simps
  proof (rule computes_bind [OF e])
    fix v
    consider "t = TkSub" | "t = TkNot" | "t \<noteq> TkSub" "t \<noteq> TkNot" by blast
    then show "computes env m p (int (a + length c), push v s) (a + length (c @ ?d)) s k (un_value env st t v)"
    proof cases
      case 1
      then have d: "code_at (oe_progs env p) (a + length c) (bc BcNegate 0 # [])" using cs(2) by simp
      from computes_operator [OF d c_un.prems(6) step_negate_does] show ?thesis by (simp add: un_value_def 1 add.assoc)
    next
      case 2
      then have d: "code_at (oe_progs env p) (a + length c) (bc BcNot 0 # [])" using cs(2) by simp
      have does: "does env m p (a + length c) BcNot 0 (push v s) (rlift (ToBoolean (oenv_of env) st v)
          (s\<lparr>vm_Stack := vm_Stack s\<rparr>) (\<lambda>b s. (Ok CNext, push (VBool (\<not> b)) s)))"
        using step_not_does [of env m p "a + length c" v s] c_un.prems(4) by simp
      have b: "base k s (vm_Stack s)" using c_un.prems(6) by (simp add: base_def)
      have "computes env m p (int (a + length c), push v s) (a + length c + 1) s k
          (rbind (ToBoolean (oenv_of env) st v) (\<lambda>b. Ok (VBool (\<not> b))))"
        using does_next [OF d] does by (intro computes_test [OF d b does]) (simp add: computes_Ok)
      then show ?thesis by (simp add: un_value_def 2 add.assoc)
    qed (simp add: un_value_def computes_Ok)
  qed
next
  case (c_logic t a l cl r cr)
  let ?op = "if t = TkAnd then BcAnd else BcOr" and ?b = "a + length cl"
  let ?to = "?b + 1 + length cr"
  have cs: "code_at (oe_progs env p) a cl" "code_at (oe_progs env p) ?b (bc ?op ?to # cr)"
    "code_at (oe_progs env p) (?b + 1) cr"
    using code_at_append [OF c_logic.prems(1)] code_at_Cons by blast+
  have l: "computes env m p (int a, s) ?b s k (ev env st \<rho> l)"
    using c_logic.prems by (intro c_logic.IH(1) cs(1)) simp_all
  have r: "computes env m p (int (?b + 1), s) ?to s k (ev env st \<rho> r)"
    using c_logic.prems by (intro c_logic.IH(2) cs(3)) simp_all
  have op: "?op = BcAnd \<or> ?op = BcOr" "(?op = BcOr) = (t = TkOr)" using c_logic.hyps(1) by auto
  have "computes env m p (int ?b, push v s) ?to s k
      (rbind (ToBoolean (oenv_of env) st v) (\<lambda>c. if c = (t = TkOr) then Ok v else ev env st \<rho> r))" for v
  proof (rule computes_test [OF cs(2)])
    show "base k s (vm_Stack s @ [v])" using c_logic.prems(6) by (simp add: base_def)
    show does: "does env m p ?b ?op ?to (push v s) (rlift (ToBoolean (oenv_of env) st v) (s\<lparr>vm_Stack := vm_Stack s @ [v]\<rparr>)
        (\<lambda>c s'. if c = (t = TkOr) then (Ok (CJump ?to), s') else (Ok CNext, s)))"
      using step_logic_does [OF op(1), of env m p ?b ?to v s] c_logic.prems(4) unfolding op(2) by (simp add: push_stack)
    fix c assume c: "ToBoolean (oenv_of env) st v = Ok c"
    show "computes env m p (int ?b, push v s) ?to s k (if c = (t = TkOr) then Ok v else ev env st \<rho> r)"
    proof (cases "c = (t = TkOr)")
      case True
      then have "goes env m p (int ?b, push v s) (int ?to, push v s)"
        using does c by (intro does_jump [OF cs(2)]) (simp add: push_stack)
      then have "computes env m p (int ?b, push v s) ?to s k (Ok v)" by (simp only: computes_Ok)
      then show ?thesis using True by simp
    next
      case False
      then have "goes env m p (int ?b, push v s) (int (?b + 1), s)"
        using does_next [OF cs(2)] does c by simp
      from computes_goes [OF this r] False show ?thesis by simp
    qed
  qed
  then show ?case using c_logic.hyps(1) by (simp add: computes_bind [OF l] add.assoc)
next
  case (c_bin t a l cl r cr)
  let ?b = "a + length cl" and ?c = "a + length cl + length cr"
  have cs: "code_at (oe_progs env p) a cl" "code_at (oe_progs env p) ?b cr"
    "code_at (oe_progs env p) ?c (bc (bin_opcode t) 0 # [])"
    using code_at_append [OF c_bin.prems(1)] code_at_append by blast+
  have l: "computes env m p (int a, s) ?b s k (ev env st \<rho> l)"
    using c_bin.prems by (intro c_bin.IH(1) cs(1)) simp_all
  have op: "bin_opcode t \<in> set bin_ops" using c_bin by (intro bin_opcode_ops) auto
  have "computes env m p (int ?b, push v s) (?c + 1) s k
      (rbind (ev env st \<rho> r) (\<lambda>w. doBin (oenv_of env) (ve_pow env) st v w (bin_opcode t)))" for v
  proof -
    have r: "computes env m p (int ?b, push v s) ?c (push v s) k (ev env st \<rho> r)"
      using c_bin.prems by (intro c_bin.IH(2) cs(2)) (simp_all add: frame_has_push)
    have "computes env m p (int ?c, push w (push v s)) (?c + 1) s k
        (doBin (oenv_of env) (ve_pow env) st v w (bin_opcode t))" for w
      using computes_operator [OF cs(3) c_bin.prems(6) step_bin_does [OF op]] c_bin.prems(4) by simp
    then show ?thesis by (rule computes_bind_push [OF r c_bin.prems(6)])
  qed
  then show ?case using c_bin.hyps(1) by (simp add: computes_bind [OF l] add.assoc)
next
  case (c_cond a v cv c cc w cw)
  let ?b = "a + length cv" and ?c = "a + length cv + length cc"
  let ?to = "?c + 1 + length cw"
  have cs: "code_at (oe_progs env p) a cv" "code_at (oe_progs env p) ?b cc"
    "code_at (oe_progs env p) ?c (bc BcTernary ?to # cw)" "code_at (oe_progs env p) (?c + 1) cw"
    using code_at_append [OF c_cond.prems(1)] code_at_append code_at_Cons by blast+
  have v: "computes env m p (int a, s) ?b s k (ev env st \<rho> v)"
    using c_cond.prems by (intro c_cond.IH(1) cs(1)) simp_all
  have w: "computes env m p (int (?c + 1), s) ?to s k (ev env st \<rho> w)"
    using c_cond.prems by (intro c_cond.IH(3) cs(4)) simp_all
  have t: "computes env m p (int ?c, push y (push x s)) ?to s k
      (rbind (ToBoolean (oenv_of env) st y) (\<lambda>b. if b then Ok x else ev env st \<rho> w))" for x y
  proof (rule computes_test [OF cs(3)])
    show "base k s (vm_Stack s @ [x])" using c_cond.prems(6) by (simp add: base_def)
    show does: "does env m p ?c BcTernary ?to (push y (push x s)) (rlift (ToBoolean (oenv_of env) st y)
        (s\<lparr>vm_Stack := vm_Stack s @ [x]\<rparr>) (\<lambda>b s'. if b then (Ok (CJump ?to), s') else (Ok CNext, s)))"
      using step_ternary_does [of env m p ?c ?to y x s] c_cond.prems(4) by (simp add: push_stack)
    fix b assume b: "ToBoolean (oenv_of env) st y = Ok b"
    show "computes env m p (int ?c, push y (push x s)) ?to s k (if b then Ok x else ev env st \<rho> w)"
    proof (cases b)
      case True
      have "goes env m p (int ?c, push y (push x s)) (int ?to, push x s)"
        using does b True by (intro does_jump [OF cs(3)]) (simp add: push_stack)
      then show ?thesis using True by (simp only: computes_Ok if_True)
    next
      case False
      then have "goes env m p (int ?c, push y (push x s)) (int (?c + 1), s)"
        using does_next [OF cs(3)] does b by simp
      from computes_goes [OF this w] False show ?thesis by simp
    qed
  qed
  have c: "computes env m p (int ?b, push x s) ?c (push x s) k (ev env st \<rho> c)" for x
    using c_cond.prems by (intro c_cond.IH(2) cs(2)) (simp_all add: frame_has_push)
  have "computes env m p (int a, s) ?to s k (ev env st \<rho> (ECond v c w))"
    unfolding ev.simps by (rule computes_bind [OF v], rule computes_bind_push [OF c c_cond.prems(6)], rule t)
  then show ?case by (simp add: add.assoc)
qed


section \<open>Statements\<close>

text \<open>
  What the code of statements does that come to the outcome \<open>r\<close>: it gets to the pc \<open>b\<close> with the
  new values in the frame, or to a return with the value on the stack, or fails; or it runs on
  for at least \<open>N\<close> instructions.
\<close>

definition performs :: "nat \<Rightarrow> 'w venv \<Rightarrow> nat \<Rightarrow> nat \<Rightarrow> 'w point \<Rightarrow> nat \<Rightarrow> 'w vm \<Rightarrow> nat \<Rightarrow> outcome res \<Rightarrow> bool" where
  "performs N env m p x b s k r \<longleftrightarrow>
     (case r of
        Ok (Going \<rho>) \<Rightarrow> \<exists>stk. goes env m p x (int b, s\<lparr>vm_Stack := stk\<rparr>) \<and> length stk = length (vm_Stack s) \<and>
          base k s stk \<and> frame_has \<rho> (s\<lparr>vm_Stack := stk\<rparr>)
      | Ok (Returned v) \<Rightarrow> \<exists>pc stk d. goes env m p x (int pc, push v (s\<lparr>vm_Stack := stk\<rparr>)) \<and> base k s stk \<and>
          code_at (oe_progs env p) pc (bc BcReturn 0 # d)
      | Diverge \<Rightarrow> hangs N env m p x
      | _ \<Rightarrow> fails env m p x k s r)"

lemma performs_goes:
  assumes g: "goes env m p x y" and "performs N env m p y b s k r"
  shows "performs N env m p x b s k r"
proof (cases r)
  case (Ok z)
  then show ?thesis using assms(2) goes_trans [OF g] by (cases z) (simp_all add: performs_def, blast+)
next
  case (Err e)
  then show ?thesis using assms(2) fails_goes [OF g, of k s "Err e :: outcome res"] by (simp add: performs_def)
next
  case (Panic e)
  then show ?thesis using assms(2) fails_goes [OF g, of k s "Panic e :: outcome res"] by (simp add: performs_def)
next
  case Diverge
  then show ?thesis using assms(2) goes_hangs [OF g] by (simp add: performs_def)
qed

lemma performs_le: "performs N env m p x b s k r \<Longrightarrow> M \<le> N \<Longrightarrow> performs M env m p x b s k r"
  by (auto simp: performs_def hangs_le split: res.splits)

lemma performs_does:
  assumes "code_at (oe_progs env p) a (bc op arg # d)" and "does env m p a op arg s1 (Ok c, s2)"
    and "c = CNext \<and> to = a + 1 \<or> c = CJump to" and "performs N env m p (int to, s2) b s k r"
  shows "performs (Suc N) env m p (int a, s1) b s k r"
proof (cases "r = Diverge")
  case True
  then show ?thesis using does_hangs [OF assms(1-3)] assms(4) by (simp add: performs_def)
next
  case False
  have "goes env m p (int a, s1) (int to, s2)"
    using assms(3) does_next [OF assms(1)] does_jump [OF assms(1)] assms(2) by auto
  from performs_goes [OF this assms(4)] False show ?thesis by (simp add: performs_def split: res.splits)
qed

lemma base_trans: "base k s stk \<Longrightarrow> base k (s\<lparr>vm_Stack := stk\<rparr>) stk' \<Longrightarrow> base k s stk'"
  by (simp add: base_def)

lemma performs_stack:
  assumes "performs N env m p x b (s\<lparr>vm_Stack := stk\<rparr>) k r" and "base k s stk" and "length stk = length (vm_Stack s)"
  shows "performs N env m p x b s k r"
proof (cases r)
  case (Ok z)
  then show ?thesis using assms(1,3) base_trans [OF assms(2)]
    by (cases z) (simp_all add: performs_def, blast+)
next
  case (Err e)
  then show ?thesis using fails_stack [OF _ assms(2), of env m p x "Err e :: outcome res"] assms(1)
    by (simp add: performs_def)
next
  case (Panic e)
  then show ?thesis using fails_stack [OF _ assms(2), of env m p x "Panic e :: outcome res"] assms(1)
    by (simp add: performs_def)
next
  case Diverge
  then show ?thesis using assms(1) by (simp add: performs_def)
qed

lemma fails_cast: "fails env m p x k s (Err e :: 'a res) \<Longrightarrow> fails env m p x k s (Err e :: 'b res)"
  "fails env m p x k s (Panic e :: 'a res) \<Longrightarrow> fails env m p x k s (Panic e :: 'b res)"
  unfolding fails_def by simp_all

lemma performs_bind:
  assumes "computes env m p x b s k r" and "\<And>v. r = Ok v \<Longrightarrow> performs N env m p (int b, push v s) c s k (f v)"
  shows "performs N env m p x c s k (rbind r f)"
proof (cases r)
  case (Ok v)
  then show ?thesis using performs_goes assms by (fastforce simp: computes_Ok)
next
  case (Err e)
  then show ?thesis using assms(1) unfolding Err by (simp add: computes_def performs_def fails_cast(1) [of env m p x k s e])
next
  case (Panic e)
  then show ?thesis using assms(1) unfolding Panic by (simp add: computes_def performs_def fails_cast(2) [of env m p x k s e])
next
  case Diverge
  then show ?thesis using assms(1) by (auto simp: computes_def performs_def fails_def elim: stops_hangs [of _ _ _ x])
qed

lemma performs_test:
  assumes "code_at (oe_progs env p) a (bc op arg # d)" and "base k s stk"
    and "does env m p a op arg s' (rlift r (s\<lparr>vm_Stack := stk\<rparr>) c)"
    and "\<And>b. r = Ok b \<Longrightarrow> performs N env m p (int a, s') to s k (f b)"
  shows "performs N env m p (int a, s') to s k (rbind r f)"
proof (cases r)
  case (Err e)
  then have "fails env m p (int a, s') k s (rbind r (\<lambda>_. Err e :: outcome res))"
    by (intro does_test [OF assms(1-3)]) simp
  then show ?thesis by (simp add: Err performs_def)
next
  case (Panic e)
  then have "fails env m p (int a, s') k s (rbind r (\<lambda>_. Panic e :: outcome res))"
    by (intro does_test [OF assms(1-3)]) simp
  then show ?thesis by (simp add: Panic performs_def)
next
  case Diverge
  then have "fails env m p (int a, s') k s (rbind r (\<lambda>_. Diverge :: outcome res))"
    by (intro does_test [OF assms(1-3)]) simp
  then show ?thesis using stops_hangs by (auto simp: Diverge performs_def fails_def)
qed (use assms(4) in \<open>simp_all add: performs_def\<close>)

lemma performs_going:
  assumes "performs N env m p x b s k r"
    and "\<And>\<rho> stk. r = Ok (Going \<rho>) \<Longrightarrow> length stk = length (vm_Stack s) \<Longrightarrow> base k s stk \<Longrightarrow>
      frame_has \<rho> (s\<lparr>vm_Stack := stk\<rparr>) \<Longrightarrow> performs N env m p (int b, s\<lparr>vm_Stack := stk\<rparr>) c (s\<lparr>vm_Stack := stk\<rparr>) k (f \<rho>)"
  shows "performs N env m p x c s k (going r f)"
proof (cases r)
  case (Ok z)
  show ?thesis
  proof (cases z)
    case (Going \<rho>)
    then obtain stk where g: "goes env m p x (int b, s\<lparr>vm_Stack := stk\<rparr>)" and stk: "length stk = length (vm_Stack s)"
      "base k s stk" "frame_has \<rho> (s\<lparr>vm_Stack := stk\<rparr>)" using assms(1) by (auto simp: performs_def Ok)
    from performs_stack [OF performs_goes [OF g] stk(2,1)] assms(2) [OF _ stk] show ?thesis
      by (simp add: Ok Going going_def)
  next
    case (Returned v)
    then show ?thesis using assms(1) by (simp add: performs_def Ok going_def)
  qed
qed (use assms(1) in \<open>simp_all add: performs_def going_def\<close>)

lemma step_store_does:
  "localslot s i < length (vm_Stack s) \<Longrightarrow> does env m p a BcStoreLocal i (push v s)
     (Ok CNext, s\<lparr>vm_Stack := (vm_Stack s)[localslot s i := v]\<rparr>)"
  by (simp add: does_def step_def bin_ops_def step_local_def topN_def popN_def cnext_def list_update_append push_stack nth_append)

text \<open>The values of the variables after a declaration, an assignment and the end of a block.\<close>

lemma frame_has_let:
  assumes "frame_has \<rho> s" and "localslot s (length \<rho>) < length (vm_Stack s)"
  shows "frame_has ((x, v) # \<rho>) (s\<lparr>vm_Stack := (vm_Stack s)[localslot s (length \<rho>) := v]\<rparr>)"
  using assms by (auto simp: frame_has_def stack_get_def nth_append less_Suc_eq localslot_def nth_list_update split: if_splits)

lemma rev_assign: "slot_of (map fst \<rho>) x = Some i \<Longrightarrow> rev (assign \<rho> x v) = (rev \<rho>)[i := (x, v)]"
proof (induction \<rho>)
  case (Cons b \<rho>)
  obtain y w where b: "b = (y, w)" by (cases b)
  show ?case
  proof (cases "y = x")
    case True
    with Cons.prems show ?thesis by (auto simp: b list_update_append)
  next
    case False
    with Cons.prems slot_value [of \<rho> x i] have "i < length \<rho>" by (simp add: b)
    with Cons False show ?thesis by (simp add: b list_update_append)
  qed
qed simp

lemma assign_names [simp]: "map fst (assign \<rho> x v) = map fst \<rho>"
  by (induction \<rho>) auto

lemma assign_length [simp]: "length (assign \<rho> x v) = length \<rho>"
  by (metis assign_names length_map)

lemma frame_has_set:
  assumes "frame_has \<rho> s" and "slot_of (map fst \<rho>) x = Some i" and "localslot s i < length (vm_Stack s)"
  shows "frame_has (assign \<rho> x v) (s\<lparr>vm_Stack := (vm_Stack s)[localslot s i := v]\<rparr>)"
  using assms slot_value [OF assms(2)]
  by (auto simp: frame_has_def stack_get_def rev_assign localslot_def nth_list_update split: if_splits)

lemma frame_has_leaving: "frame_has \<rho>' s \<Longrightarrow> frame_has (leaving \<rho> \<rho>') s"
  by (auto simp: frame_has_def leaving_def rev_drop)

lemma leaving_names: "map fst \<rho>' = xs @ map fst \<rho> \<Longrightarrow> map fst (leaving \<rho> \<rho>') = map fst \<rho>"
proof -
  assume n: "map fst \<rho>' = xs @ map fst \<rho>"
  from arg_cong [OF n, of length] have "length \<rho>' - length \<rho> = length xs" by simp
  with n show ?thesis by (simp add: leaving_def drop_map [symmetric])
qed

lemma slot_of_visible: "slot_of (us @ hidden) x = Some i \<Longrightarrow> name_ok x \<Longrightarrow> 2 \<le> i"
  by (induction us) (auto simp: hidden_def name_ok_def is_word_def ident_start_def ident_char_def Let_def split: if_splits)

lemma base_update: "k \<le> i \<Longrightarrow> k \<le> length (vm_Stack s) \<Longrightarrow> base k s ((vm_Stack s)[i := v])"
  by (simp add: base_def)

lemma going_Ok_iff: "going r k = Ok (Going \<rho>') \<longleftrightarrow> (\<exists>\<rho>. r = Ok (Going \<rho>) \<and> k \<rho> = Ok (Going \<rho>'))"
  by (cases r) (auto simp: going_def split: outcome.splits)

lemma exec_names: "exec n env st ss \<rho> = Ok (Going \<rho>') \<Longrightarrow> \<exists>xs. map fst \<rho>' = xs @ map fst \<rho>"
proof (induction n env st ss \<rho> arbitrary: \<rho>' rule: exec.induct)
  case (5 n env st c a b ss \<rho>)
  then obtain v t \<rho>1 where "ev env st \<rho> c = Ok v" "ToBoolean (oenv_of env) st v = Ok t"
    and 1: "(if t then exec n env st a \<rho> else exec n env st b \<rho>) = Ok (Going \<rho>1)"
    and 2: "exec n env st ss (leaving \<rho> \<rho>1) = Ok (Going \<rho>')" by (auto simp: rbind_Ok_iff going_Ok_iff)
  moreover from 5(1,2) [OF calculation(1,2)] 1 obtain xs where "map fst \<rho>1 = xs @ map fst \<rho>"
    by (cases t) auto
  ultimately show ?case using 5(3) [OF _ _ 2] leaving_names by metis
next
  case (7 n env st c b ss \<rho>)
  then obtain v t where v: "ev env st \<rho> c = Ok v" "ToBoolean (oenv_of env) st v = Ok t" by (auto simp: rbind_Ok_iff)
  show ?case
  proof (cases t)
    case True
    with 7(4) v obtain \<rho>1 where 1: "exec n env st b \<rho> = Ok (Going \<rho>1)"
      and 2: "exec n env st (SFor c b # ss) (leaving \<rho> \<rho>1) = Ok (Going \<rho>')" by (auto simp: rbind_Ok_iff going_Ok_iff)
    from 7(1) [OF v True 1] obtain xs where "map fst \<rho>1 = xs @ map fst \<rho>" by blast
    with 7(2) [OF v True 2] show ?thesis using leaving_names by metis
  next
    case False
    with 7(3) [OF v] 7(4) v show ?thesis by simp
  qed
qed (fastforce simp: rbind_Ok_iff)+


text \<open>What the code of statements may rely on.\<close>

definition ready :: "'w venv \<Rightarrow> nat \<Rightarrow> int64 list \<Rightarrow> nat \<Rightarrow> nat \<Rightarrow> bytecode list \<Rightarrow> stmt list \<Rightarrow> bindings \<Rightarrow> 'w store \<Rightarrow> 'w vm \<Rightarrow> bool" where
  "ready env p K k a c ss \<rho> st s \<longleftrightarrow>
     scodes K (map fst \<rho>) a ss c \<and> code_at (oe_progs env p) a c \<and> tbInt (oe_progs env p) = K \<and>
     frame_has \<rho> s \<and> vm_st s = st \<and> (\<exists>j. stmts_ok j (map fst \<rho>) ss) \<and> (\<exists>us. map fst \<rho> = us @ hidden) \<and>
     k \<le> localslot s 2 \<and> localslot s (length \<rho> + lets ss) \<le> length (vm_Stack s)"

lemma ready_facts:
  assumes "ready env p K k a c ss \<rho> st s"
  shows "scodes K (map fst \<rho>) a ss c" and "code_at (oe_progs env p) a c" and "\<exists>j. stmts_ok j (map fst \<rho>) ss"
    and "\<exists>us. map fst \<rho> = us @ hidden" and "vm_st s = st"
  using assms by (simp_all add: ready_def)

lemma ready_stack:
  "ready env p K k a c ss \<rho> st s \<Longrightarrow> length stk = length (vm_Stack s) \<Longrightarrow> frame_has \<rho>' (s\<lparr>vm_Stack := stk\<rparr>) \<Longrightarrow>
   map fst \<rho>' = map fst \<rho> \<Longrightarrow> ready env p K k a c ss \<rho>' st (s\<lparr>vm_Stack := stk\<rparr>)"
  unfolding ready_def by (auto dest: map_eq_imp_length_eq)

lemma ready_room:
  assumes "ready env p K k a c ss \<rho> st s"
  shows "k \<le> length (vm_Stack s)" and "2 \<le> length \<rho>"
proof -
  from assms obtain us where us: "map fst \<rho> = us @ hidden" and r: "k \<le> localslot s 2"
    "localslot s (length \<rho> + lets ss) \<le> length (vm_Stack s)"
    by (auto simp: ready_def)
  from arg_cong [OF us, of length] show "2 \<le> length \<rho>" by (simp add: hidden_def)
  with r show "k \<le> length (vm_Stack s)" by (simp add: localslot_def)
qed


text \<open>A value on the stack goes into a slot of the frame, and the statements behind follow.\<close>

lemma performs_store:
  assumes "code_at (oe_progs env p) a (bc BcStoreLocal i # d)" and "k \<le> localslot s i"
    and "localslot s i < length (vm_Stack s)"
    and "performs N env m p (int (a + 1), s\<lparr>vm_Stack := (vm_Stack s)[localslot s i := v]\<rparr>) c
      (s\<lparr>vm_Stack := (vm_Stack s)[localslot s i := v]\<rparr>) k r"
  shows "performs N env m p (int a, push v s) c s k r"
proof -
  let ?stk = "(vm_Stack s)[localslot s i := v]"
  have "base k s ?stk" using assms(2,3) by (intro base_update) simp_all
  then have "performs N env m p (int (a + 1), s\<lparr>vm_Stack := ?stk\<rparr>) c s k r"
    by (rule performs_stack [OF assms(4)]) simp
  then show ?thesis
    by (rule performs_goes [OF does_next [OF assms(1) step_store_does [OF assms(3)]]])
qed

lemma ready_expr:
  assumes "ready env p K k a c ss \<rho> st s" and "codes (map fst \<rho>) K a e ce" and "code_at (oe_progs env p) a ce"
    and "expr_ok (map fst \<rho>) e"
  shows "computes env m p (int a, s) (a + length ce) s k (ev env st \<rho> e)"
  using assms ready_room [OF assms(1)] by (intro expr_runs) (auto simp: ready_def)

lemma performs_let:
  assumes r: "ready env p K k a c (SLet x e # ss) \<rho> st s"
    and IH: "\<And>v a c s. ev env st \<rho> e = Ok v \<Longrightarrow> ready env p K k a c ss ((x, v) # \<rho>) st s \<Longrightarrow>
      performs N env m p (int a, s) (a + length c) s k (exec n env st ss ((x, v) # \<rho>))"
  shows "performs N env m p (int a, s) (a + length c) s k (exec n env st (SLet x e # ss) \<rho>)"
proof -
  from ready_facts(1) [OF r] obtain ce cs where c: "c = ce @ bc BcStoreLocal (length \<rho>) # cs" "codes (map fst \<rho>) K a e ce"
    and cs: "scodes K (x # map fst \<rho>) (a + length ce + 1) ss cs" by auto
  from ready_facts(3) [OF r] obtain j where ok: "stmts_ok j (map fst \<rho>) (SLet x e # ss)" ..
  have at: "code_at (oe_progs env p) a ce" "code_at (oe_progs env p) (a + length ce) (bc BcStoreLocal (length \<rho>) # cs)"
    "code_at (oe_progs env p) (a + length ce + 1) cs"
    using ready_facts(2) [OF r] code_at_append code_at_Cons unfolding c(1) by blast+
  have e: "expr_ok (map fst \<rho>) e" using ok expr_ok_subset by fastforce
  have room: "k \<le> localslot s (length \<rho>)" "localslot s (length \<rho>) < length (vm_Stack s)"
    using r ready_room [OF r] by (auto simp: ready_def localslot_def)
  have "performs N env m p (int (a + length ce), push v s) (a + length c) s k (exec n env st ss ((x, v) # \<rho>))"
    if v: "ev env st \<rho> e = Ok v" for v
  proof (rule performs_store [OF at(2) room])
    let ?s = "s\<lparr>vm_Stack := (vm_Stack s)[localslot s (length \<rho>) := v]\<rparr>"
    have "frame_has ((x, v) # \<rho>) ?s" using r room(2) by (intro frame_has_let) (simp_all add: ready_def)
    then have "ready env p K k (a + length ce + 1) cs ss ((x, v) # \<rho>) st ?s"
      using r ok cs at(3) by (auto simp: ready_def localslot_def intro: exI [of _ "Suc j"])
    from IH [OF v this] show "performs N env m p (int (a + length ce + 1), ?s) (a + length c) ?s k (exec n env st ss ((x, v) # \<rho>))"
      by (simp add: c(1) add.assoc)
  qed
  then show ?thesis unfolding exec.simps by (rule performs_bind [OF ready_expr [OF r c(2) at(1) e]])
qed


lemma performs_set:
  assumes r: "ready env p K k a c (SSet x e # ss) \<rho> st s"
    and IH: "\<And>v a c s. ev env st \<rho> e = Ok v \<Longrightarrow> ready env p K k a c ss (assign \<rho> x v) st s \<Longrightarrow>
      performs N env m p (int a, s) (a + length c) s k (exec n env st ss (assign \<rho> x v))"
  shows "performs N env m p (int a, s) (a + length c) s k (exec n env st (SSet x e # ss) \<rho>)"
proof -
  from ready_facts(1) [OF r] obtain ce i cs where c: "c = ce @ bc BcStoreLocal i # cs" "codes (map fst \<rho>) K a e ce"
    and i: "slot_of (map fst \<rho>) x = Some i" and cs: "scodes K (map fst \<rho>) (a + length ce + 1) ss cs" by auto
  from ready_facts(3) [OF r] obtain j where ok: "stmts_ok j (map fst \<rho>) (SSet x e # ss)" ..
  have at: "code_at (oe_progs env p) a ce" "code_at (oe_progs env p) (a + length ce) (bc BcStoreLocal i # cs)"
    "code_at (oe_progs env p) (a + length ce + 1) cs"
    using ready_facts(2) [OF r] code_at_append code_at_Cons unfolding c(1) by blast+
  have e: "expr_ok (map fst \<rho>) e" using ok by simp
  have "2 \<le> i" using ready_facts(4) [OF r] i ok slot_of_visible by fastforce
  then have room: "k \<le> localslot s i" "localslot s i < length (vm_Stack s)"
    using r slot_value [OF i] by (auto simp: ready_def localslot_def)
  have "performs N env m p (int (a + length ce), push v s) (a + length c) s k (exec n env st ss (assign \<rho> x v))"
    if v: "ev env st \<rho> e = Ok v" for v
  proof (rule performs_store [OF at(2) room])
    let ?s = "s\<lparr>vm_Stack := (vm_Stack s)[localslot s i := v]\<rparr>"
    have "frame_has (assign \<rho> x v) ?s" using r i room(2) by (intro frame_has_set) (simp_all add: ready_def)
    then have "ready env p K k (a + length ce + 1) cs ss (assign \<rho> x v) st ?s"
      using r ok cs at(3) by (auto simp: ready_def localslot_def intro: exI [of _ j])
    from IH [OF v this] show "performs N env m p (int (a + length ce + 1), ?s) (a + length c) ?s k (exec n env st ss (assign \<rho> x v))"
      by (simp add: c(1) add.assoc)
  qed
  then show ?thesis unfolding exec.simps by (rule performs_bind [OF ready_expr [OF r c(2) at(1) e]])
qed

lemma performs_return:
  assumes r: "ready env p K k a c (SReturn e # ss) \<rho> st s"
  shows "performs N env m p (int a, s) (a + length c) s k (exec n env st (SReturn e # ss) \<rho>)"
proof -
  from ready_facts(1) [OF r] obtain ce cs where c: "c = ce @ bc BcReturn 0 # cs" "codes (map fst \<rho>) K a e ce" by auto
  from ready_facts(3) [OF r] have e: "expr_ok (map fst \<rho>) e" by auto
  have at: "code_at (oe_progs env p) a ce" "code_at (oe_progs env p) (a + length ce) (bc BcReturn 0 # cs)"
    using ready_facts(2) [OF r] code_at_append unfolding c(1) by blast+
  have "performs N env m p (int (a + length ce), push v s) (a + length c) s k (Ok (Returned v))" for v
    unfolding performs_def using at(2) ready_room [OF r]
    by (auto intro!: exI [of _ "a + length ce"] exI [of _ "vm_Stack s"] exI [of _ cs] simp: base_def)
  then show ?thesis unfolding exec.simps by (intro performs_bind [OF ready_expr [OF r c(2) at(1) e]])
qed

text \<open>The test of a branch or of a loop.\<close>

lemma performs_jfalse:
  assumes "code_at (oe_progs env p) a (bc BcJfalse to # d)" and "vm_st s = st" and "k \<le> length (vm_Stack s)"
    and "ToBoolean (oenv_of env) st v = Ok True \<Longrightarrow> performs N env m p (int (a + 1), s) c s k (f True)"
    and "ToBoolean (oenv_of env) st v = Ok False \<Longrightarrow> performs N env m p (int to, s) c s k (f False)"
  shows "performs (Suc N) env m p (int a, push v s) c s k (rbind (ToBoolean (oenv_of env) st v) f)"
proof (rule performs_test [OF assms(1)])
  show "base k s (vm_Stack s)" using assms(3) by (simp add: base_def)
  show does: "does env m p a BcJfalse to (push v s) (rlift (ToBoolean (oenv_of env) st v) (s\<lparr>vm_Stack := vm_Stack s\<rparr>)
      (\<lambda>b s. if b then (Ok CNext, s) else (Ok (CJump to), s)))"
    using step_jfalse_does [of env m p a to v s] assms(2) by simp
  fix b assume b: "ToBoolean (oenv_of env) st v = Ok b"
  show "performs (Suc N) env m p (int a, push v s) c s k (f b)"
  proof (cases b)
    case True
    then have "does env m p a BcJfalse to (push v s) (Ok CNext, s)" using does b by simp
    from performs_does [OF assms(1) this _ assms(4)] b True show ?thesis by simp
  next
    case False
    then have "does env m p a BcJfalse to (push v s) (Ok (CJump to), s)" using does b by simp
    from performs_does [OF assms(1) this _ assms(5)] b False show ?thesis by simp
  qed
qed

text \<open>A block, a jump behind it, and what the jump leads to.\<close>

lemma performs_block:
  assumes r: "ready env p K k a c ss \<rho> st s"
    and block: "performs N env m p x b s k (exec n env st bs \<rho>)"
    and jump: "code_at (oe_progs env p) b (bc BcJump to # d) \<or> to = b"
    and rest: "\<And>\<rho>' s. exec n env st bs \<rho> = Ok (Going \<rho>') \<Longrightarrow> ready env p K k a c ss (leaving \<rho> \<rho>') st s \<Longrightarrow>
      performs N env m p (int to, s) e s k (f (leaving \<rho> \<rho>'))"
  shows "performs N env m p x e s k (going (exec n env st bs \<rho>) (\<lambda>\<rho>'. f (leaving \<rho> \<rho>')))"
proof (rule performs_going [OF block])
  fix \<rho>' stk
  let ?s = "s\<lparr>vm_Stack := stk\<rparr>"
  assume ex: "exec n env st bs \<rho> = Ok (Going \<rho>')" and stk: "length stk = length (vm_Stack s)" and has: "frame_has \<rho>' ?s"
  obtain xs where "map fst \<rho>' = xs @ map fst \<rho>" using exec_names [OF ex] by blast
  then have "ready env p K k a c ss (leaving \<rho> \<rho>') st ?s"
    by (intro ready_stack [OF r stk] frame_has_leaving has leaving_names)
  from rest [OF ex this] have "performs N env m p (int to, ?s) e ?s k (f (leaving \<rho> \<rho>'))" .
  moreover have "goes env m p (int b, ?s) (int to, ?s)"
    using jump does_jump [OF _ step_jump_does] by auto
  ultimately show "performs N env m p (int b, ?s) e ?s k (f (leaving \<rho> \<rho>'))" by (rule performs_goes [rotated])
qed

lemma performs_if:
  assumes r: "ready env p K k a c (SIf e t f # ss) \<rho> st s"
    and IHt: "\<And>v a c s. ev env st \<rho> e = Ok v \<Longrightarrow> ToBoolean (oenv_of env) st v = Ok True \<Longrightarrow> ready env p K k a c t \<rho> st s \<Longrightarrow> performs N env m p (int a, s) (a + length c) s k (exec n env st t \<rho>)"
    and IHf: "\<And>v a c s. ev env st \<rho> e = Ok v \<Longrightarrow> ToBoolean (oenv_of env) st v = Ok False \<Longrightarrow> ready env p K k a c f \<rho> st s \<Longrightarrow> performs N env m p (int a, s) (a + length c) s k (exec n env st f \<rho>)"
    and IH: "\<And>v b \<rho>' a c s. ev env st \<rho> e = Ok v \<Longrightarrow> ToBoolean (oenv_of env) st v = Ok b \<Longrightarrow>
      exec n env st (if b then t else f) \<rho> = Ok (Going \<rho>') \<Longrightarrow> ready env p K k a c ss (leaving \<rho> \<rho>') st s \<Longrightarrow>
      performs N env m p (int a, s) (a + length c) s k (exec n env st ss (leaving \<rho> \<rho>'))"
  shows "performs N env m p (int a, s) (a + length c) s k (exec n env st (SIf e t f # ss) \<rho>)"
proof -
  from ready_facts(1) [OF r] obtain ce ct cf cs where
    c: "c = ce @ bc BcJfalse (a + length ce + 1 + length ct + 1) # ct @
       bc BcJump (a + length ce + 1 + length ct + 1 + length cf) # cf @ cs" "codes (map fst \<rho>) K a e ce"
    and ct: "scodes K (map fst \<rho>) (a + length ce + 1) t ct" and cf: "scodes K (map fst \<rho>) (a + length ce + 1 + length ct + 1) f cf"
    and cs: "scodes K (map fst \<rho>) (a + length ce + 1 + length ct + 1 + length cf) ss cs" by auto
  let ?t = "a + length ce + 1" and ?f = "a + length ce + 1 + length ct + 1" and ?to = "a + length ce + 1 + length ct + 1 + length cf"
  from ready_facts(3) [OF r] obtain j where ok: "stmts_ok j (map fst \<rho>) (SIf e t f # ss)" ..
  have at: "code_at (oe_progs env p) a ce" "code_at (oe_progs env p) (a + length ce) (bc BcJfalse ?f # (ct @ bc BcJump ?to # cf @ cs))"
    "code_at (oe_progs env p) ?t (ct @ bc BcJump ?to # cf @ cs)"
    using ready_facts(2) [OF r] code_at_append code_at_Cons unfolding c(1) by blast+
  have at2: "code_at (oe_progs env p) ?t ct" "code_at (oe_progs env p) (?t + length ct) (bc BcJump ?to # (cf @ cs))"
    "code_at (oe_progs env p) ?f cf" "code_at (oe_progs env p) ?to cs"
    using at(3) code_at_append code_at_Cons by blast+
  have rt: "ready env p K k ?t ct t \<rho> st s" and rf: "ready env p K k ?f cf f \<rho> st s" and rs: "ready env p K k ?to cs ss \<rho> st s"
    using r ok ct cf cs at2 unfolding ready_def by (auto simp: localslot_def)
  have e: "expr_ok (map fst \<rho>) e" using ok by simp
  let ?rest = "\<lambda>\<rho>'. exec n env st ss \<rho>'" and ?len = "a + length c"
  have len: "?len = ?to + length cs" by (simp add: c(1))
  have rest: "performs N env m p (int ?to, s') ?len s' k (?rest (leaving \<rho> \<rho>'))"
    if "ev env st \<rho> e = Ok v" "ToBoolean (oenv_of env) st v = Ok b" "exec n env st (if b then t else f) \<rho> = Ok (Going \<rho>')"
      "ready env p K k ?to cs ss (leaving \<rho> \<rho>') st s'" for \<rho>' s' b v
    unfolding len using that by (rule IH)
  have t: "performs N env m p (int ?t, s) ?len s k (going (exec n env st t \<rho>) (\<lambda>\<rho>'. ?rest (leaving \<rho> \<rho>')))"
    if "ev env st \<rho> e = Ok v" "ToBoolean (oenv_of env) st v = Ok True" for v
    by (rule performs_block [OF rs IHt [OF that rt] disjI1 [OF at2(2)]]) (erule rest [OF that, unfolded if_True])
  have f: "performs N env m p (int ?f, s) ?len s k (going (exec n env st f \<rho>) (\<lambda>\<rho>'. ?rest (leaving \<rho> \<rho>')))"
    if "ev env st \<rho> e = Ok v" "ToBoolean (oenv_of env) st v = Ok False" for v
    by (rule performs_block [OF rs IHf [OF that rf] disjI2 [OF refl]]) (erule rest [OF that, unfolded if_False])
  have "performs N env m p (int (a + length ce), push v s) ?len s k (rbind (ToBoolean (oenv_of env) st v) (\<lambda>b.
       going (if b then exec n env st t \<rho> else exec n env st f \<rho>) (\<lambda>\<rho>'. ?rest (leaving \<rho> \<rho>'))))"
    if v: "ev env st \<rho> e = Ok v" for v
    by (rule performs_le [OF performs_jfalse [where N = N, OF at(2) ready_facts(5) [OF r] ready_room(1) [OF r]]])
      (simp_all only: t [OF v] f [OF v] if_True if_False le_SucI order.refl)
  then show ?thesis unfolding exec.simps by (intro performs_bind [OF ready_expr [OF r c(2) at(1) e]])
qed


lemma performs_for:
  assumes r: "ready env p K k a c (SFor e t # ss) \<rho> st s"
    and IHt: "\<And>v a c s. ev env st \<rho> e = Ok v \<Longrightarrow> ToBoolean (oenv_of env) st v = Ok True \<Longrightarrow> ready env p K k a c t \<rho> st s \<Longrightarrow> performs n env m p (int a, s) (a + length c) s k (exec n env st t \<rho>)"
    and again: "\<And>v \<rho>' s. ev env st \<rho> e = Ok v \<Longrightarrow> ToBoolean (oenv_of env) st v = Ok True \<Longrightarrow> exec n env st t \<rho> = Ok (Going \<rho>') \<Longrightarrow> ready env p K k a c (SFor e t # ss) (leaving \<rho> \<rho>') st s \<Longrightarrow>
      performs n env m p (int a, s) (a + length c) s k (exec n env st (SFor e t # ss) (leaving \<rho> \<rho>'))"
    and IH: "\<And>v a c s. ev env st \<rho> e = Ok v \<Longrightarrow> ToBoolean (oenv_of env) st v = Ok False \<Longrightarrow> ready env p K k a c ss \<rho> st s \<Longrightarrow> performs n env m p (int a, s) (a + length c) s k (exec n env st ss \<rho>)"
  shows "performs (Suc n) env m p (int a, s) (a + length c) s k (exec (Suc n) env st (SFor e t # ss) \<rho>)"
proof -
  from ready_facts(1) [OF r] obtain ce ct cs where
    c: "c = ce @ bc BcJfalse (a + length ce + 1 + length ct + 1) # ct @ bc BcJump a # cs" "codes (map fst \<rho>) K a e ce"
    and ct: "scodes K (map fst \<rho>) (a + length ce + 1) t ct" and cs: "scodes K (map fst \<rho>) (a + length ce + 1 + length ct + 1) ss cs" by auto
  let ?t = "a + length ce + 1" and ?to = "a + length ce + 1 + length ct + 1"
  from ready_facts(3) [OF r] obtain j where ok: "stmts_ok j (map fst \<rho>) (SFor e t # ss)" ..
  have at: "code_at (oe_progs env p) a ce" "code_at (oe_progs env p) (a + length ce) (bc BcJfalse ?to # (ct @ bc BcJump a # cs))"
    "code_at (oe_progs env p) ?t (ct @ bc BcJump a # cs)"
    using ready_facts(2) [OF r] code_at_append code_at_Cons unfolding c(1) by blast+
  have at2: "code_at (oe_progs env p) ?t ct" "code_at (oe_progs env p) (?t + length ct) (bc BcJump a # cs)"
    "code_at (oe_progs env p) ?to cs"
    using at(3) code_at_append code_at_Cons by blast+
  have rt: "ready env p K k ?t ct t \<rho> st s" and rs: "ready env p K k ?to cs ss \<rho> st s"
    using r ok ct cs at2 unfolding ready_def by (auto simp: localslot_def)
  have e: "expr_ok (map fst \<rho>) e" using ok by simp
  let ?len = "a + length c" and ?again = "\<lambda>\<rho>'. exec n env st (SFor e t # ss) \<rho>'"
  have len: "?len = ?to + length cs" by (simp add: c(1))
  have t: "performs n env m p (int ?t, s) ?len s k (going (exec n env st t \<rho>) (\<lambda>\<rho>'. ?again (leaving \<rho> \<rho>')))"
    if "ev env st \<rho> e = Ok v" "ToBoolean (oenv_of env) st v = Ok True" for v
    by (rule performs_block [OF r IHt [OF that rt] disjI1 [OF at2(2)]]) (erule again [OF that])
  have f: "performs n env m p (int ?to, s) ?len s k (exec n env st ss \<rho>)"
    if "ev env st \<rho> e = Ok v" "ToBoolean (oenv_of env) st v = Ok False" for v
    unfolding len by (rule IH [OF that rs])
  have "performs (Suc n) env m p (int (a + length ce), push v s) ?len s k (rbind (ToBoolean (oenv_of env) st v) (\<lambda>b.
       if b then going (exec n env st t \<rho>) (\<lambda>\<rho>'. ?again (leaving \<rho> \<rho>')) else exec n env st ss \<rho>))"
    if v: "ev env st \<rho> e = Ok v" for v
    by (rule performs_jfalse [OF at(2) ready_facts(5) [OF r] ready_room(1) [OF r]])
      (simp_all only: t [OF v] f [OF v] if_True if_False)
  then show ?thesis unfolding exec.simps by (intro performs_bind [OF ready_expr [OF r c(2) at(1) e]])
qed


theorem stmts_run:
  "ready env p K k a c ss \<rho> st s \<Longrightarrow> performs n env m p (int a, s) (a + length c) s k (exec n env st ss \<rho>)"
proof (induction n env st ss \<rho> arbitrary: a c s rule: exec.induct)
  case (1 n env st \<rho>)
  then have "c = []" "frame_has \<rho> s" by (auto simp: ready_def)
  then show ?case using ready_room(1) [OF 1]
    by (auto simp: performs_def base_def intro!: exI [of _ "vm_Stack s"])
next
  case (2 n env st x e ss \<rho>)
  show ?case by (rule performs_let [OF 2(2)]) (rule 2(1))
next
  case (3 n env st x e ss \<rho>)
  show ?case by (rule performs_set [OF 3(2)]) (rule 3(1))
next
  case (4 n env st e ss \<rho>)
  then show ?case by (rule performs_return)
next
  case (5 n env st c1 t f ss \<rho>)
  show ?case
  proof (rule performs_if [OF 5(4)])
    show "performs n env m p (int a, s) (a + length c) s k (exec n env st ss (leaving \<rho> \<rho>'))"
      if "ev env st \<rho> c1 = Ok v" "ToBoolean (oenv_of env) st v = Ok b" "exec n env st (if b then t else f) \<rho> = Ok (Going \<rho>')"
        "ready env p K k a c ss (leaving \<rho> \<rho>') st s" for v b \<rho>' a c s
      by (rule 5(3) [OF that(1,2,4)])
  qed (erule (1) 5(1) 5(2); simp)+
next
  case (6 env st c1 b ss \<rho>)
  then show ?case by (simp add: performs_def hangs_def)
next
  case (7 n env st c1 b ss \<rho>)
  show ?case
    by (rule performs_for [OF 7(4)]) (erule (1) 7(1) 7(2) 7(3), simp, assumption)+
qed

end
