(* ===== verification/CompileRun.thy ===== *)
theory CompileRun
  imports CompileRule RunCode VMExample
begin

text \<open>
  From the text of a rule to the answer of its event: the compiler and the evaluator together do
  what the statements mean.
\<close>

section \<open>A rule's frame\<close>

text \<open>The caller's frame, which is the slot below the rule's own variables.\<close>

definition caller :: val where
  "caller = VFrame (topFrame\<lparr>ff_pc := 1\<rparr>)"

definition rule_frame :: "nat \<Rightarrow> funcframe" where
  "rule_frame p = \<lparr>ff_ftype = FtRule, ff_farg = 1, ff_pc = 0, ff_framep = 0, ff_prog = Some p,
     ff_excep = [], ff_closure = None\<rparr>"

definition rule_bindings :: "val \<Rightarrow> bindings" where
  "rule_bindings ctx = [(''#frame'', caller), (''#event'', ctx)]"

definition entered :: "nat \<Rightarrow> val \<Rightarrow> 'w vm \<Rightarrow> 'w vm" where
  "entered p ctx s = s\<lparr>vm_Stack := [VNull, ctx, caller], vm_excep := VNull, vm_cf := rule_frame p\<rparr>"

lemma entered_prologue:
  "prologue FtRule 1 (Some p) None (push ctx (push VNull ((clearStack s)\<lparr>vm_excep := VNull, vm_cf := topFrame\<rparr>))) =
   entered p ctx s"
  by (simp add: prologue_def push_def clearStack_def entered_def caller_def rule_frame_def topFrame_def)

text \<open>Without a handler an error ends the rule.\<close>

definition left :: "'w vm \<Rightarrow> 'w vm" where
  "left s = s\<lparr>vm_Stack := [], vm_cf := topFrame\<lparr>ff_pc := 1\<rparr>\<rparr>"

lemma caller_slot:
  assumes "base 3 (entered p ctx s) stk"
  shows "3 \<le> length stk" and "stk ! 2 = caller"
proof -
  have t: "3 \<le> length stk" "take 3 stk = [VNull, ctx, caller]" using assms by (simp_all add: base_def entered_def)
  from t show "3 \<le> length stk" by simp
  from arg_cong [OF t(2), of "\<lambda>xs. xs ! 2"] t(1) show "stk ! 2 = caller" by simp
qed

lemma rule_caller:
  assumes "base 3 (entered p ctx s) stk"
  shows "prevfuncframe ((entered p ctx s)\<lparr>vm_Stack := stk\<rparr>) = Ok (topFrame\<lparr>ff_pc := 1\<rparr>)"
    and "popfuncframe (topFrame\<lparr>ff_pc := 1\<rparr>) ((entered p ctx s)\<lparr>vm_Stack := stk\<rparr>) =
      (Ok (0, None), left ((entered p ctx s)\<lparr>vm_Stack := stk\<rparr>))"
  using caller_slot [OF assms]
  by (simp_all add: prevfuncframe_def stack_get_def prevframepos_def entered_def rule_frame_def caller_def 
      popfuncframe_def popTo_def left_def topFrame_def numeral_2_eq_2)

lemma rule_unwinds:
  assumes "base 3 (entered p ctx s) stk"
  shows "unwindForExcep (\<lambda>s. isTop (vm_cf s)) e ((entered p ctx s)\<lparr>vm_Stack := stk\<rparr>) =
    (Ok (None, [rule_frame p]), left ((entered p ctx s)\<lparr>vm_Stack := stk\<rparr>))"
proof -
  have r: "vm_cf ((entered p ctx s)\<lparr>vm_Stack := stk\<rparr>) = rule_frame p" "\<not> isTop (rule_frame p)" "ff_excep (rule_frame p) = []"
    by (simp_all add: entered_def rule_frame_def isTop_def)
  have t: "isTop (vm_cf (left u))" "isTop (topFrame\<lparr>ff_pc := 1\<rparr>)" for u :: "'a vm"
    by (simp_all add: left_def isTop_def topFrame_def)
  show ?thesis
    unfolding unwindForExcep_def
    by (subst unwind.simps)
      (simp add: r t curExcep_def rule_caller [OF assms] unwind.simps [of _ _ _ "left _"])
qed

definition ending :: "'w venv \<Rightarrow> nat \<Rightarrow> rr res \<times> 'w vm \<Rightarrow> val res \<times> 'w vm" where
  "ending env p r = mbind r (\<lambda>r s.
     if is_done r then popv s
     else rlift (doErr env (vm_st s) [rule_frame p] (rr_prog r) (rr_pc r) (rr_e r)) (left s) (\<lambda>e s. (Err e, s)))"

lemma runRule_stops:
  assumes "stops env (pr_module (oe_progs env p)) p (0, entered p ctx s) r"
    and "\<And>x t. r = (Ok x, t) \<Longrightarrow> \<not> is_done x \<Longrightarrow>
      \<exists>stk. base 3 (entered p ctx s) stk \<and> t = (entered p ctx s)\<lparr>vm_Stack := stk\<rparr>"
  shows "\<exists>N. \<forall>n\<ge>N. runRule n env ctx p s = ending env p r"
proof -
  obtain k where k: "\<And>n. runL (n + k) env (pr_module (oe_progs env p)) p 0 (entered p ctx s) = r"
    using assms(1) by (auto simp: stops_def)
  have "runRule n env ctx p s = ending env p r" if n: "Suc k \<le> n" for n
  proof -
    obtain j where j: "n = Suc j" using n by (cases n) auto
    have r: "runP (Suc j) env p 0 (entered p ctx s) = r"
      using k [of "n - k"] n by (simp add: runP_def j)
    obtain x t where x: "r = (x, t)" by (cases r)
    show ?thesis
    proof (cases "\<exists>y. x = Ok y \<and> \<not> is_done y")
      case True
      then obtain y stk where y: "x = Ok y" "\<not> is_done y" "base 3 (entered p ctx s) stk"
        "t = (entered p ctx s)\<lparr>vm_Stack := stk\<rparr>" using assms(2) x by blast
      have "vm_st (left t) = vm_st t" by (simp add: left_def)
      then show ?thesis using rule_unwinds [OF y(3)] r y(2) unfolding runRule_def Let_def entered_prologue j
        by (cases "doErr env (vm_st t) [rule_frame p] (rr_prog y) (rr_pc y) (rr_e y)")
          (simp_all add: x y(1) ending_def flip: y(4))
    next
      case False
      then show ?thesis using r unfolding runRule_def Let_def entered_prologue j
        by (cases x) (simp_all add: x ending_def)
    qed
  qed
  then show ?thesis by blast
qed

section \<open>Statements in a rule\<close>

text \<open>
  What the evaluator answers when the statements come to \<open>r\<close>; an error gets the place and the
  backtrace around its text, except where the embedder's iterators raise it.
\<close>

definition answer :: "outcome \<Rightarrow> val" where
  "answer z = (case z of Going _ \<Rightarrow> VNull | Returned v \<Rightarrow> v)"

definition answers :: "'w venv \<Rightarrow> 'w store \<Rightarrow> nat \<Rightarrow> outcome res \<Rightarrow> val res \<Rightarrow> bool" where
  "answers env st p r x \<longleftrightarrow>
     (case r of
        Ok z \<Rightarrow> x = Ok (answer z)
      | Err e \<Rightarrow> x = Err e \<or> (\<exists>pc. x = rbind (doErr env st [rule_frame p] (Some p) pc (Some e)) Err)
      | Panic e \<Rightarrow> x = Panic e
      | Diverge \<Rightarrow> x = Diverge)"

lemma returns_from_rule:
  assumes "base 3 (entered p ctx s) stk" and "code_at (oe_progs env p) pc (bc BcReturn 0 # d)"
  shows "stops env m p (int pc, push v ((entered p ctx s)\<lparr>vm_Stack := stk\<rparr>))
    (Ok (RDone 0), push v (left ((entered p ctx s)\<lparr>vm_Stack := stk\<rparr>)))"
proof (rule does_stop [OF assms(2)])
  let ?t = "(entered p ctx s)\<lparr>vm_Stack := stk\<rparr>"
  have b: "base 3 (entered p ctx s) (stk @ [v])" using assms(1) by (simp add: base_def)
  have p: "push v ?t = (entered p ctx s)\<lparr>vm_Stack := stk @ [v]\<rparr>" by (simp add: push_def)
  have l: "left (push v ?t) = left ?t" by (simp add: left_def push_def)
  have "prevfuncframe (push v ?t) = Ok (topFrame\<lparr>ff_pc := 1\<rparr>)"
    "popfuncframe (topFrame\<lparr>ff_pc := 1\<rparr>) (push v ?t) = (Ok (0, None), left ?t)"
    using rule_caller [OF b] l unfolding p by simp_all
  then show "does env m p pc BcReturn 0 (push v ?t) (Ok (CStop (RDone 0)), push v (left ?t))"
    by (simp add: does_def step_def bin_ops_def step_return_def topN_push epilogue_def)
qed

lemma runs_into_rule:
  assumes "oe_progs env p = rule_program name k c ds ks"
  shows "goes env m p (0, entered p ctx s) (int 1, (entered p ctx s)\<lparr>vm_Stack := [VNull, ctx, caller] @ replicate k VNull\<rparr>)"
    and "code_at (oe_progs env p) 1 c" and "code_at (oe_progs env p) (1 + length c) [bc BcHalt 0]"
    and "tbInt (oe_progs env p) = ks"
proof -
  have code: "bcList (oe_progs env p) = bc BcReserveLocal k # c @ [bc BcHalt 0]" and K: "tbInt (oe_progs env p) = ks"
    by (simp_all add: assms rule_program_def added_def newProgram_def)
  show "tbInt (oe_progs env p) = ks" by (rule K)
  have "code_at (oe_progs env p) 0 (bc BcReserveLocal k # c @ [bc BcHalt 0])"
    unfolding code_at_def code by auto
  moreover have "does env m p 0 BcReserveLocal k (entered p ctx s)
      (Ok CNext, (entered p ctx s)\<lparr>vm_Stack := [VNull, ctx, caller] @ replicate k VNull\<rparr>)"
    by (simp add: does_def step_def bin_ops_def step_local_def cnext_def pushes_def entered_def)
  ultimately show "goes env m p (0, entered p ctx s) (int 1, (entered p ctx s)\<lparr>vm_Stack := [VNull, ctx, caller] @ replicate k VNull\<rparr>)"
    using does_next [of env p 0 BcReserveLocal k] by fastforce
  show "code_at (oe_progs env p) 1 c" unfolding code_at_def code
    by (intro exI [of _ "[bc BcReserveLocal k]"] exI [of _ "[bc BcHalt 0]"]) simp
  show "code_at (oe_progs env p) (1 + length c) [bc BcHalt 0]" unfolding code_at_def code
    by (intro exI [of _ "bc BcReserveLocal k # c"] exI [of _ "[]"]) simp
qed


definition settles :: "'w venv \<Rightarrow> nat \<Rightarrow> val \<Rightarrow> 'w vm \<Rightarrow> outcome res \<Rightarrow> bool" where
  "settles env p ctx s r \<longleftrightarrow>
     (\<exists>N x t. answers env (vm_st s) p r x \<and> vm_eventQ t = vm_eventQ s \<and> vm_inQ t = vm_inQ s \<and>
       (\<forall>n\<ge>N. runRule n env ctx p s = (x, t)))"

lemma settles_value:
  assumes "stops env (pr_module (oe_progs env p)) p (0, entered p ctx s) (Ok (RDone pc), push v t)"
    and "vm_eventQ t = vm_eventQ s" and "vm_inQ t = vm_inQ s" and "r = Ok z" and "answer z = v"
  shows "settles env p ctx s r"
proof -
  obtain N where "\<forall>n\<ge>N. runRule n env ctx p s = ending env p (Ok (RDone pc), push v t)"
    using runRule_stops [OF assms(1)] by (auto simp: is_done_def)
  moreover have "ending env p (Ok (RDone pc), push v t) = (Ok v, t)"
    by (simp add: ending_def is_done_def popv_push)
  ultimately show ?thesis using assms(2-5) unfolding settles_def answers_def
    by (intro exI [of _ N] exI [of _ "Ok v"] exI [of _ t]) auto
qed

lemma settles_failure:
  assumes "fails env (pr_module (oe_progs env p)) p (0, entered p ctx s) 3 (entered p ctx s) r"
    and "(\<exists>e. r = Err e) \<or> (\<exists>e. r = Panic e)"
  shows "settles env p ctx s r"
proof -
  let ?s = "entered p ctx s" and ?m = "pr_module (oe_progs env p)"
  have st: "vm_st ?s = vm_st s" "vm_eventQ ?s = vm_eventQ s" "vm_inQ ?s = vm_inQ s" by (simp_all add: entered_def)
  consider (err) e pc stk where "r = Err e" "base 3 ?s stk"
      "stops env ?m p (0, ?s) (Ok (RErr (Some p) pc e), ?s\<lparr>vm_Stack := stk\<rparr>)"
    | (raise) e stk where "r = Err e" "stops env ?m p (0, ?s) (Err e, ?s\<lparr>vm_Stack := stk\<rparr>)"
    | (panic) e stk where "r = Panic e" "stops env ?m p (0, ?s) (Panic e, ?s\<lparr>vm_Stack := stk\<rparr>)"
    using assms by (auto simp: fails_def)
  then show ?thesis
  proof cases
    case err
    let ?r = "(Ok (RErr (Some p) pc e), ?s\<lparr>vm_Stack := stk\<rparr>) :: rr res \<times> 'a vm"
    let ?x = "rbind (doErr env (vm_st s) [rule_frame p] (Some p) pc (Some e)) Err :: val res"
    obtain N where N: "\<forall>n\<ge>N. runRule n env ctx p s = ending env p ?r"
      using runRule_stops [OF err(3)] err(2) by fastforce
    have "ending env p ?r = (?x, left (?s\<lparr>vm_Stack := stk\<rparr>))"
      by (cases "doErr env (vm_st s) [rule_frame p] (Some p) pc (Some e)")
        (simp_all add: ending_def is_done_def rr_prog_def rr_pc_def rr_e_def st)
    with N st err(1) show ?thesis unfolding settles_def answers_def
      by (intro exI [of _ N] exI [of _ ?x] exI [of _ "left (?s\<lparr>vm_Stack := stk\<rparr>)"]) (auto simp: left_def)
  next
    case raise
    obtain N where "\<forall>n\<ge>N. runRule n env ctx p s = ending env p (Err e, ?s\<lparr>vm_Stack := stk\<rparr>)"
      using runRule_stops [OF raise(2)] by auto
    with st raise(1) show ?thesis unfolding settles_def answers_def
      by (intro exI [of _ N] exI [of _ "Err e"] exI [of _ "?s\<lparr>vm_Stack := stk\<rparr>"]) (simp add: ending_def)
  next
    case panic
    obtain N where "\<forall>n\<ge>N. runRule n env ctx p s = ending env p (Panic e, ?s\<lparr>vm_Stack := stk\<rparr>)"
      using runRule_stops [OF panic(2)] by auto
    with st panic(1) show ?thesis unfolding settles_def answers_def
      by (intro exI [of _ N] exI [of _ "Panic e"] exI [of _ "?s\<lparr>vm_Stack := stk\<rparr>"]) (simp add: ending_def)
  qed
qed

text \<open>The statements of a rule, behind the reservation of its locals.\<close>

lemma rule_performs:
  assumes prog: "oe_progs env p = rule_program name (Suc (lets ss)) c ds ks"
    and sc: "scodes ks hidden 1 ss c" and ok: "stmts_ok 2 hidden ss"
  shows "performs N env m p (0, entered p ctx s) (1 + length c)
    ((entered p ctx s)\<lparr>vm_Stack := [VNull, ctx, caller] @ replicate (Suc (lets ss)) VNull\<rparr>) 3
    (exec N env (vm_st s) ss (rule_bindings ctx))"
proof (rule performs_goes [OF runs_into_rule(1) [OF prog]], rule stmts_run)
  let ?s = "(entered p ctx s)\<lparr>vm_Stack := [VNull, ctx, caller] @ replicate (Suc (lets ss)) VNull\<rparr>"
  have names: "map fst (rule_bindings ctx) = hidden" by (simp add: rule_bindings_def hidden_def)
  have "frame_has (rule_bindings ctx) ?s"
    by (auto simp: frame_has_def rule_bindings_def stack_get_def localslot_def entered_def rule_frame_def less_Suc_eq)
  then show "ready env p ks 3 1 c ss (rule_bindings ctx) (vm_st s) ?s"
    using assms runs_into_rule(2-) [OF prog] unfolding ready_def names
    by (auto simp: localslot_def entered_def rule_frame_def rule_bindings_def)
qed


lemma rule_settles:
  assumes prog: "oe_progs env p = rule_program name (Suc (lets ss)) c ds ks"
    and sc: "scodes ks hidden 1 ss c" and ok: "stmts_ok 2 hidden ss"
    and ends: "exec N env (vm_st s) ss (rule_bindings ctx) \<noteq> Diverge"
  shows "settles env p ctx s (exec N env (vm_st s) ss (rule_bindings ctx))"
proof -
  let ?r = "exec N env (vm_st s) ss (rule_bindings ctx)" and ?m = "pr_module (oe_progs env p)"
  let ?s = "entered p ctx s" and ?s1 = "(entered p ctx s)\<lparr>vm_Stack := [VNull, ctx, caller] @ replicate (Suc (lets ss)) VNull\<rparr>"
  have st: "vm_eventQ (?s\<lparr>vm_Stack := stk\<rparr>) = vm_eventQ s" "vm_inQ (?s\<lparr>vm_Stack := stk\<rparr>) = vm_inQ s"
    "vm_eventQ (left (?s\<lparr>vm_Stack := stk\<rparr>)) = vm_eventQ s" "vm_inQ (left (?s\<lparr>vm_Stack := stk\<rparr>)) = vm_inQ s" for stk
    by (simp_all add: entered_def left_def)
  have b: "base 3 (?s\<lparr>vm_Stack := VNull # ctx # caller # xs\<rparr>) stk = base 3 ?s stk" "base 3 ?s (vm_Stack ?s1)" for stk xs
    by (simp_all add: base_def entered_def)
  have P: "performs N env ?m p (0, ?s) (1 + length c) ?s1 3 ?r"
    by (rule rule_performs [OF prog sc ok])
  show ?thesis
  proof (cases ?r)
    case (Ok z)
    show ?thesis
    proof (cases z)
      case (Going \<rho>)
      obtain stk where g: "goes env ?m p (0, ?s) (int (1 + length c), ?s\<lparr>vm_Stack := stk\<rparr>)"
        using P by (auto simp: Ok Going performs_def)
      have h: "stops env ?m p (int (1 + length c), ?s\<lparr>vm_Stack := stk\<rparr>)
          (Ok (RDone (int (1 + length c))), push VNull (?s\<lparr>vm_Stack := stk\<rparr>))"
        by (rule does_stop [OF runs_into_rule(3) [OF prog]]) (simp add: does_def step_def bin_ops_def)
      show ?thesis
        by (rule settles_value [OF goes_stops [OF g h] st(1,2) Ok]) (simp add: answer_def Going)
    next
      case (Returned v)
      obtain pc stk d where g: "goes env ?m p (0, ?s) (int pc, push v (?s\<lparr>vm_Stack := stk\<rparr>))"
        and stk: "base 3 ?s stk" "code_at (oe_progs env p) pc (bc BcReturn 0 # d)"
        using P by (auto simp: Ok Returned performs_def b(1))
      show ?thesis
        by (rule settles_value [OF goes_stops [OF g returns_from_rule [OF stk]] st(3,4) Ok]) (simp add: answer_def Returned)
    qed
  next
    case (Err e)
    then have "fails env ?m p (0, ?s) 3 ?s ?r" using P fails_stack [OF _ b(2), of env ?m p "(0, ?s)" ?r]
      by (simp add: performs_def)
    with Err show ?thesis by (intro settles_failure) auto
  next
    case (Panic e)
    then have "fails env ?m p (0, ?s) 3 ?s ?r" using P fails_stack [OF _ b(2), of env ?m p "(0, ?s)" ?r]
      by (simp add: performs_def)
    with Panic show ?thesis by (intro settles_failure) auto
  qed (use ends in simp)
qed

lemma rule_runs_on:
  assumes prog: "oe_progs env p = rule_program name (Suc (lets ss)) c ds ks"
    and sc: "scodes ks hidden 1 ss c" and ok: "stmts_ok 2 hidden ss"
    and on: "\<And>N. exec N env (vm_st s) ss (rule_bindings ctx) = Diverge"
  shows "fst (runRule n env ctx p s) = Diverge"
proof -
  have "hangs n env (pr_module (oe_progs env p)) p (0, entered p ctx s)"
    using rule_performs [OF prog sc ok, of n "pr_module (oe_progs env p)" ctx s] on [of n] by (simp add: performs_def)
  then have "fst (runP n env p 0 (entered p ctx s)) = Diverge" by (simp add: hangs_def runP_def)
  then show ?thesis unfolding runRule_def Let_def entered_prologue
    by (cases n; cases "runP n env p 0 (entered p ctx s)") simp_all
qed

section \<open>From the text to the answer\<close>

lemma with_drain_idle: "vm_eventQ s = [] \<Longrightarrow> 0 < n \<Longrightarrow> fst (with_drain n env m (r, s)) = r"
  by (cases n; cases r) (auto simp: with_drain_def drainEventQueue_def defq_take_def Let_def)

text \<open>A report is written or panics.\<close>

lemma rbind_Diverge: "rbind r f = Diverge \<longleftrightarrow> r = Diverge \<or> (\<exists>v. r = Ok v \<and> f v = Diverge)"
  by (cases r) simp_all

lemma Diverge_rbind: "Diverge = rbind r f \<longleftrightarrow> r = Diverge \<or> (\<exists>v. r = Ok v \<and> f v = Diverge)"
  using rbind_Diverge [of r f] by metis

lemma where_loc_ends: "where_loc l \<noteq> Diverge"
  by (auto simp: where_loc_def go_substr_def Let_def rbind_Diverge)

lemma tb_idx_ends: "tb_idx msg tb i \<noteq> Diverge"
  by (simp add: tb_idx_def must_def)

lemma bc_dump_ends: "bc_dump P x \<noteq> Diverge"
proof -
  have "bc_resolve P op i \<noteq> Diverge" for op i
    by (auto simp: bc_resolve_def idxInt_def idxReal_def idxStr_def idxRegexp_def rbind_Diverge tb_idx_ends)
  then show ?thesis by (simp add: bc_dump_def Let_def rbind_Diverge)
qed

lemma doErr_ends: "doErr env st [rule_frame p] (Some p) pc (Some e) \<noteq> Diverge"
proof -
  have "frameInfo env st (rule_frame p) \<noteq> Diverge"
    by (simp add: frameInfo_def rule_frame_def must_def idx_def Let_def rbind_Diverge bc_dump_ends where_loc_ends)
  then show ?thesis by (simp add: doErr_def idx_def rbind_Diverge where_loc_ends)
qed

lemma answers_end: "answers env st p r x \<Longrightarrow> r \<noteq> Diverge \<Longrightarrow> x \<noteq> Diverge"
  by (auto simp: answers_def Diverge_rbind doErr_ends split: res.splits)

lemma compiled_rule:
  assumes "rule_ok name ss" and "ssize ss < n" and "CompileModule n penv (rule_text name ss) = Ok (md, ps)"
    and "ve_mods env m = md" and "oe_progs env 0 = ps ! 0" and "vm_eventQ s = []"
  shows "exec k env (vm_st s) ss (rule_bindings ctx) \<noteq> Diverge \<Longrightarrow>
      \<exists>N. \<forall>j\<ge>N. answers env (vm_st s) 0 (exec k env (vm_st s) ss (rule_bindings ctx)) (fst (EvalWithContext j env name ctx m s))"
    and "\<forall>k. exec k env (vm_st s) ss (rule_bindings ctx) = Diverge \<Longrightarrow> fst (EvalWithContext j env name ctx m s) = Diverge"
proof -
  obtain ds ks c where c: "md = rule_module name" "ps = [rule_program name (Suc (lets ss)) c ds ks]" "scodes ks hidden 1 ss c"
    using rule_text_compiles [OF assms(1,2), of penv] assms(3) by auto
  have prog: "oe_progs env 0 = rule_program name (Suc (lets ss)) c ds ks" using c(2) assms(5) by simp
  have ok: "stmts_ok 2 hidden ss" using assms(1) by (simp add: rule_ok_def)
  have E: "EvalWithContext j env name ctx m s = with_drain j env m (runRule j env ctx 0 s)" for j
    using assms(4) by (simp add: EvalWithContext_def c(1) rule_module_def findEvent_def)
  {
    assume "exec k env (vm_st s) ss (rule_bindings ctx) \<noteq> Diverge"
    from rule_settles [OF prog c(3) ok this] obtain N x t where
      a: "answers env (vm_st s) 0 (exec k env (vm_st s) ss (rule_bindings ctx)) x" and q: "vm_eventQ t = []"
      and r: "\<forall>n\<ge>N. runRule n env ctx 0 s = (x, t)" using assms(6) by (auto simp: settles_def)
    have "answers env (vm_st s) 0 (exec k env (vm_st s) ss (rule_bindings ctx)) (fst (EvalWithContext j env name ctx m s))"
      if "Suc N \<le> j" for j using that a r with_drain_idle [OF q, of j env m x] by (simp add: E)
    then show "\<exists>N. \<forall>j\<ge>N. answers env (vm_st s) 0 (exec k env (vm_st s) ss (rule_bindings ctx))
        (fst (EvalWithContext j env name ctx m s))" by blast
  next
    assume "\<forall>k. exec k env (vm_st s) ss (rule_bindings ctx) = Diverge"
    then have "fst (runRule j env ctx 0 s) = Diverge" using rule_runs_on [OF prog c(3) ok] by blast
    then show "fst (EvalWithContext j env name ctx m s) = Diverge"
      by (cases "runRule j env ctx 0 s") (simp add: E with_drain_def)
  }
qed

text \<open>
  C1: a script does what it says. Take any rule whose statements are well-formed (declarations,
  assignments, branches, loops, returns, over expressions with all the unary and binary operators
  and conditionals), print it with no more parentheses than the operators' precedence needs,
  compile the text and evaluate its event, with no other event pending. When the statements come
  to an end, by falling off it, returning a value, an error or a panic, the evaluator answers
  null, that value, an error with that text, or that panic, for all fuel from some amount on.
\<close>

theorem compiled_rule_means_its_text:
  assumes "rule_ok name ss" and "ssize ss < n" and "CompileModule n penv (rule_text name ss) = Ok (md, ps)"
    and "ve_mods env m = md" and "oe_progs env 0 = ps ! 0" and "vm_eventQ s = []"
    and "exec k env (vm_st s) ss (rule_bindings ctx) = r" and "r \<noteq> Diverge"
  shows "\<exists>N. \<forall>j\<ge>N. answers env (vm_st s) 0 r (fst (EvalWithContext j env name ctx m s))"
  using compiled_rule(1) [OF assms(1-6)] assms(7,8) by blast

text \<open>A factorial, and a branch that returns it.\<close>

definition s_fact :: "stmt list" where
  "s_fact =
     [SLet ''n'' (EInt 4), SLet ''r'' (EInt 1),
      SFor (EBin TkGt (EVar ''n'') (EInt 0))
        [SSet ''r'' (EBin TkMul (EVar ''r'') (EVar ''n'')), SSet ''n'' (EBin TkSub (EVar ''n'') (EInt 1))],
      SIf (EBin TkEq (EVar ''r'') (EInt 24))
        [SReturn (EBin TkSub (EBin TkAdd (EVar ''r'') (EBin TkMul (EInt 2) (EInt 3))) (EBin TkSub (EInt 4) (EInt 1)))] []]"

lemma s_fact_text:
  "rule_text ''main'' s_fact = ''main { let n = 4 ; let r = 1 ; for n > 0 { r = r * n ; n = n - 1 ; } '' @
     ''if r == 24 { return r + 2 * 3 - ( 4 - 1 ) ; } else { } } ''"
  by code_simp

lemma s_fact_names: "name_ok ''n''" "name_ok ''r''" "name_ok ''main''"
  by code_simp+

lemma s_fact_ok: "rule_ok ''main'' s_fact"
  by (simp add: rule_ok_def s_fact_def s_fact_names hidden_def bin_tokens_def)

lemma s_fact_size: "ssize s_fact < 300"
  by (simp add: s_fact_def)

lemma int_operators:
  "doBin env pw st (VInt a) (VInt b) (bin_opcode TkAdd) = Ok (VInt (a + b))"
  "doBin env pw st (VInt a) (VInt b) (bin_opcode TkSub) = Ok (VInt (a - b))"
  "doBin env pw st (VInt a) (VInt b) (bin_opcode TkMul) = Ok (VInt (a * b))"
  "doBin env pw st (VInt a) (VInt b) (bin_opcode TkGt) = Ok (VBool (sint b < sint a))"
  "doBin env pw st (VInt a) (VInt b) (bin_opcode TkEq) = Ok (VBool (sint a = sint b))"
  by (simp_all add: bin_opcode_def doBin_def arith2_def comp2_def plus2_def)

text \<open>Evaluation from the outside in.\<close>

lemma rbind_weak: "r = r' \<Longrightarrow> rbind r f = rbind r' f"
  by simp

lemma going_weak: "r = r' \<Longrightarrow> going r f = going r' f"
  by simp

lemma going_simps: "going (Ok (Going \<rho>)) f = f \<rho>" "going (Ok (Returned v)) f = Ok (Returned v)"
  by (simp_all add: going_def)

lemma s_fact_exec: "exec (Suc (Suc (Suc (Suc (Suc 0))))) env st s_fact (rule_bindings ctx) = Ok (Returned (VInt 27))"
  by (simp add: s_fact_def rule_bindings_def int_operators going_simps leaving_def cong: rbind_weak going_weak)


definition loaded :: "module \<Rightarrow> program list \<Rightarrow> unit venv" where
  "loaded md ps = venv0\<lparr>oe_progs := (\<lambda>i. ps ! i), ve_mods := (\<lambda>_. md)\<rparr>"

theorem compiled_rule_means_its_text_witness:
  "\<exists>md ps N. CompileModule 300 closed_env (''main { let n = 4 ; let r = 1 ; for n > 0 { r = r * n ; n = n - 1 ; } '' @
      ''if r == 24 { return r + 2 * 3 - ( 4 - 1 ) ; } else { } } '') = Ok (md, ps) \<and>
    (\<forall>j\<ge>N. fst (EvalWithContext j (loaded md ps) ''main'' VNull 0 vm0) = Ok (VInt 27))"
proof -
  obtain md ps where c: "CompileModule 300 closed_env (rule_text ''main'' s_fact) = Ok (md, ps)"
    using rule_text_compiles [OF s_fact_ok s_fact_size, of closed_env] by blast
  have l: "ve_mods (loaded md ps) 0 = md" "oe_progs (loaded md ps) 0 = ps ! 0" "vm_eventQ vm0 = []"
    by (simp_all add: loaded_def vm0_def NewEvaluator_def)
  from compiled_rule_means_its_text [OF s_fact_ok s_fact_size c l s_fact_exec, of VNull]
  have "\<exists>N. \<forall>j\<ge>N. fst (EvalWithContext j (loaded md ps) ''main'' VNull 0 vm0) = Ok (VInt 27)"
    by (simp add: answers_def answer_def)
  with c s_fact_text show ?thesis by metis
qed

text \<open>
  C2: the evaluator ends on a compiled rule exactly when its statements do. If they come to an end
  in some number of rounds of their loops, the event is answered; if they loop forever, no fuel
  is enough.
\<close>

theorem compiled_rule_ends:
  assumes "rule_ok name ss" and "ssize ss < n" and "CompileModule n penv (rule_text name ss) = Ok (md, ps)"
    and "ve_mods env m = md" and "oe_progs env 0 = ps ! 0" and "vm_eventQ s = []"
  shows "(\<exists>j. fst (EvalWithContext j env name ctx m s) \<noteq> Diverge) \<longleftrightarrow>
    (\<exists>k. exec k env (vm_st s) ss (rule_bindings ctx) \<noteq> Diverge)"
proof
  show "\<exists>k. exec k env (vm_st s) ss (rule_bindings ctx) \<noteq> Diverge"
    if "\<exists>j. fst (EvalWithContext j env name ctx m s) \<noteq> Diverge"
    using that compiled_rule(2) [OF assms] by blast
  show "\<exists>j. fst (EvalWithContext j env name ctx m s) \<noteq> Diverge"
    if "\<exists>k. exec k env (vm_st s) ss (rule_bindings ctx) \<noteq> Diverge"
    using that compiled_rule(1) [OF assms] answers_end by (metis order.refl)
qed

text \<open>A loop without an end.\<close>

definition s_loop :: "stmt list" where
  "s_loop = [SFor ETrue []]"

lemma s_loop_ok: "rule_ok ''main'' s_loop" "ssize s_loop < 300" "rule_text ''main'' s_loop = ''main { for true { } } ''"
  by (simp add: rule_ok_def s_loop_def s_fact_names, simp add: s_loop_def, code_simp)

lemma s_loop_exec: "exec k env st s_loop \<rho> = Diverge"
  by (induction k) (simp_all add: s_loop_def going_def leaving_def)

theorem compiled_rule_ends_witness:
  "\<exists>md ps. CompileModule 300 closed_env ''main { for true { } } '' = Ok (md, ps) \<and>
    (\<forall>j. fst (EvalWithContext j (loaded md ps) ''main'' VNull 0 vm0) = Diverge)"
proof -
  obtain md ps where c: "CompileModule 300 closed_env (rule_text ''main'' s_loop) = Ok (md, ps)"
    using rule_text_compiles [OF s_loop_ok(1,2), of closed_env] by blast
  have l: "ve_mods (loaded md ps) 0 = md" "oe_progs (loaded md ps) 0 = ps ! 0" "vm_eventQ vm0 = []"
    by (simp_all add: loaded_def vm0_def NewEvaluator_def)
  from compiled_rule_ends [OF s_loop_ok(1,2) c l, of VNull] s_loop_exec c s_loop_ok(3) show ?thesis by metis
qed

text \<open>
  C3: the compiler understands the grammar. It accepts the text of every well-formed rule and gives
  one program: the reservation of the rule's locals, the code of its statements, whose shape
  follows the syntax (operands first and in order, jumps to the ends of their blocks, a slot of its
  own for every variable in scope), and the final halt; the module has the rule under its name.
  Well-formed rules contain return statements, which the compiler accepts like any other; the manuals
  (\<open>doc/pl.md\<close>, \<open>doc/pl-cn.md\<close>) call return in a rule a syntax error.
\<close>

theorem compiler_output:
  assumes "rule_ok name ss" and "ssize ss < n"
  shows "\<exists>ds ks c. CompileModule n penv (rule_text name ss) =
      Ok (rule_module name, [rule_program name (Suc (lets ss)) c ds ks]) \<and> scodes ks hidden 1 ss c"
  by (rule rule_text_compiles [OF assms])

theorem compiler_output_witness:
  "\<exists>ds ks c. CompileModule 300 closed_env (rule_text ''main'' s_fact) =
      Ok (rule_module ''main'', [rule_program ''main'' 3 c ds ks]) \<and> scodes ks hidden 1 s_fact c"
proof -
  have "Suc (lets s_fact) = 3" by (simp add: s_fact_def)
  with compiler_output [OF s_fact_ok s_fact_size, of closed_env] show ?thesis by simp
qed

end
