(* ===== verification/AccessLog.thy ===== *)
theory AccessLog
  imports Prelude
begin

text \<open>
  The access log (\<open>alog/\<close>): the compiler of format strings to a small bytecode
  (\<open>format.go\<close>), the rendering of a line from what a \<open>Provider\<close> supplies (\<open>text.go\<close>, \<open>alog.go\<close>),
  and the virtual host's provider is one instance of that record. A format is text with fields
  between percent signs, a field has a name, an optional argument and an optional length.
\<close>

section \<open>Constants and tables\<close>

text \<open>The operations of the bytecode; those for text and look-up share numbers with commands.\<close>

definition fmtText :: nat where "fmtText = 0"
definition fmtLookUp :: nat where "fmtLookUp = 1"

definition fStartTime :: nat where "fStartTime = 0"
definition fReqHeaderBytes :: nat where "fReqHeaderBytes = 1"
definition fBytesReceived :: nat where "fBytesReceived = 2"
definition fResponseHeadersBytes :: nat where "fResponseHeadersBytes = 3"
definition fResponseTrailersBytes :: nat where "fResponseTrailersBytes = 4"
definition fDuration :: nat where "fDuration = 5"
definition fBytesSent :: nat where "fBytesSent = 6"
definition fRequestDuration :: nat where "fRequestDuration = 7"
definition fResponseDuration :: nat where "fResponseDuration = 8"
definition fConnectionTerminationDetails :: nat where "fConnectionTerminationDetails = 9"
definition fConnectionId :: nat where "fConnectionId = 10"
definition fVirtualHost :: nat where "fVirtualHost = 11"
definition fRouterInfo :: nat where "fRouterInfo = 12"
definition fReq :: nat where "fReq = 13"
definition fResp :: nat where "fResp = 14"
definition fURI :: nat where "fURI = 15"
definition fTrailer :: nat where "fTrailer = 16"
definition fResponseCode :: nat where "fResponseCode = 17"
definition fResponseCodeDetail :: nat where "fResponseCodeDetail = 18"
definition fHost :: nat where "fHost = 19"
definition fRequestMiddleware :: nat where "fRequestMiddleware = 20"
definition fResponseMiddleware :: nat where "fResponseMiddleware = 21"
definition fApplicationMiddleware :: nat where "fApplicationMiddleware = 22"
definition fServiceName :: nat where "fServiceName = 23"
definition fClientIp :: nat where "fClientIp = 24"
definition fProtocol :: nat where "fProtocol = 25"
definition fScheme :: nat where "fScheme = 26"

lemmas f_ops = fmtText_def fmtLookUp_def fStartTime_def fReqHeaderBytes_def fBytesReceived_def
  fResponseHeadersBytes_def fResponseTrailersBytes_def fDuration_def fBytesSent_def fRequestDuration_def
  fResponseDuration_def fConnectionTerminationDetails_def fConnectionId_def fVirtualHost_def fRouterInfo_def
  fReq_def fResp_def fURI_def fTrailer_def fResponseCode_def fResponseCodeDetail_def fHost_def
  fRequestMiddleware_def fResponseMiddleware_def fApplicationMiddleware_def fServiceName_def fClientIp_def
  fProtocol_def fScheme_def

datatype cmdopt = cmdOnly | cmdParamRequired | cmdParamOptional

definition cmdMap :: "(string \<times> nat) list" where
  "cmdMap =
    [(''START_TIME'', fStartTime),
     (''REQ_HEADER_BYTES'', fReqHeaderBytes),
     (''BYTES_RECEIVED'', fBytesReceived),
     (''RESPONSE_HEADERS_BYTES'', fResponseHeadersBytes),
     (''RESPONSE_TRAILERS_BYTES'', fResponseTrailersBytes),
     (''DURATION'', fDuration),
     (''BYTES_SENT'', fBytesSent),
     (''REQUEST_DURATION'', fRequestDuration),
     (''RESPONSE_DURATION'', fResponseDuration),
     (''CONNECTION_TERMINATION_DETAILS'', fConnectionTerminationDetails),
     (''CONNECTION_ID'', fConnectionId),
     (''REQ'', fReq),
     (''RESP'', fResp),
     (''URI'', fURI),
     (''TRAILER'', fTrailer),
     (''RESPONSE_CODE'', fResponseCode),
     (''RESPONSE_CODE_DETAIL'', fResponseCodeDetail),
     (''HOST'', fHost),
     (''REQUEST_MIDDLEWARE'', fRequestMiddleware),
     (''RESPONSE_MIDDLEWARE'', fResponseMiddleware),
     (''APPLICATION_MIDDLEWARE'', fApplicationMiddleware),
     (''SERVICE_NAME'', fServiceName),
     (''CLIENT_IP'', fClientIp),
     (''PROTOCOL'', fProtocol),
     (''SCHEME'', fScheme)]"

definition paramMap :: "(nat \<times> cmdopt) list" where
  "paramMap =
    [(fStartTime, cmdParamOptional),
     (fReqHeaderBytes, cmdOnly),
     (fBytesReceived, cmdOnly),
     (fRequestDuration, cmdOnly),
     (fResponseDuration, cmdOnly),
     (fConnectionTerminationDetails, cmdOnly),
     (fConnectionId, cmdOnly),
     (fVirtualHost, cmdOnly),
     (fReq, cmdParamRequired),
     (fResp, cmdParamRequired),
     (fURI, cmdParamRequired),
     (fTrailer, cmdParamRequired),
     (fResponseCode, cmdOnly),
     (fResponseCodeDetail, cmdOnly),
     (fHost, cmdOnly),
     (fRequestMiddleware, cmdParamRequired),
     (fResponseMiddleware, cmdParamRequired),
     (fApplicationMiddleware, cmdParamRequired),
     (fServiceName, cmdOnly),
     (fClientIp, cmdOnly),
     (fProtocol, cmdOnly),
     (fScheme, cmdOnly)]"

text \<open>The fields' own tables: the numbers of the constants \<open>HF\<close>, \<open>UF\<close> and \<open>MF\<close>.\<close>

definition wellknownHttp :: "(string \<times> nat) list" where
  "wellknownHttp =
    [('':METHOD'', 1), ('':STATUS_CODE'', 2), ('':PROTOCOL_VERSION'', 3), ('':TLS_CIPHER_SUITE'', 4),
     ('':TLS_VERSION'', 5), ('':PATH'', 6), ('':Host'', 7), ('':AUTHORITY'', 8), ('':USER_AGENT'', 9),
     ('':COOKIE'', 10)]"

definition HFUser :: nat where "HFUser = 11"

definition wellknownURI :: "(string \<times> nat) list" where
  "wellknownURI =
    [('':SCHEME'', 1), ('':USERNAME'', 2), ('':PASSWORD'', 3), ('':HOST'', 4), ('':PATH'', 5),
     ('':RAW_PATH'', 6), ('':RAW_QUERY'', 7), ('':FRAGMENT'', 8)]"

definition UFUser :: nat where "UFUser = 9"

definition wellknownMiddleware :: "(string \<times> nat) list" where
  "wellknownMiddleware =
    [('':LAST_REQUEST'', 1), ('':LAST_RESPONSE'', 2), ('':FIRST_REQUEST'', 3), ('':FIRST_RESPONSE'', 4),
     ('':COUNT'', 5), ('':REQUEST_NAME'', 6), ('':RESPONSE_NAME'', 7), ('':APPLICATION_NAME'', 8)]"

definition MFUser :: nat where "MFUser = 9"

section \<open>The compiler\<close>

record FormatField =
  ff_t :: nat
  ff_cname :: string

record FormatParam =
  fp_field :: FormatField
  fp_orField :: FormatField

datatype bparam = NoParam | TextParam string | FieldParam FormatParam

record fmt_bytecode =
  bc_op :: nat
  bc_param :: bparam
  bc_length :: int

text \<open>\<open>strings.Index\<close> of one byte, and \<open>strconv.Atoi\<close>.\<close>

fun index_byte :: "char \<Rightarrow> string \<Rightarrow> nat option" where
  "index_byte c [] = None"
| "index_byte c (x # xs) = (if x = c then Some 0 else map_option Suc (index_byte c xs))"

definition digit_char :: "char \<Rightarrow> bool" where
  "digit_char c = (48 \<le> (of_char c :: nat) \<and> (of_char c :: nat) \<le> 57)"

definition Atoi :: "string \<Rightarrow> int option" where
  "Atoi s =
     (let neg = (s \<noteq> [] \<and> hd s = CHR ''-''); ds = (if s \<noteq> [] \<and> hd s \<in> {CHR ''-'', CHR ''+''} then tl s else s)
      in if ds = [] \<or> \<not> list_all digit_char ds then None
         else let v = (if neg then - int (undigits ds 0) else int (undigits ds 0)) in
           if - (2 ^ 63) \<le> v \<and> v < 2 ^ 63 then Some v else None)"

definition notUsedHttpField :: FormatField where
  "notUsedHttpField = \<lparr>ff_t = 0, ff_cname = ''''\<rparr>"

definition asField :: "(string \<times> nat) list \<Rightarrow> nat \<Rightarrow> string \<Rightarrow> FormatField" where
  "asField table cflag field =
     (case map_of table field of
        None \<Rightarrow> \<lparr>ff_t = cflag, ff_cname = field\<rparr>
      | Some t \<Rightarrow> notUsedHttpField\<lparr>ff_t := t\<rparr>)"

definition parseField :: "(string \<times> nat) list \<Rightarrow> nat \<Rightarrow> nat \<Rightarrow> string \<Rightarrow> int \<Rightarrow> fmt_bytecode" where
  "parseField table flag cflag field len =
     (let par = (case index_byte (CHR ''?'') field of
                   None \<Rightarrow> \<lparr>fp_field = asField table cflag field, fp_orField = notUsedHttpField\<rparr>
                 | Some quest \<Rightarrow> \<lparr>fp_field = asField table cflag (take quest field),
                                  fp_orField = asField table cflag (drop (quest + 1) field)\<rparr>)
      in \<lparr>bc_op = flag, bc_param = FieldParam par, bc_length = len\<rparr>)"

definition parseHttpField :: "nat \<Rightarrow> string \<Rightarrow> int \<Rightarrow> fmt_bytecode" where
  "parseHttpField flag param len = parseField wellknownHttp flag HFUser param len"

definition parseURIField :: "nat \<Rightarrow> string \<Rightarrow> int \<Rightarrow> fmt_bytecode" where
  "parseURIField flag param len = parseField wellknownURI flag UFUser param len"

definition parseMiddleware :: "nat \<Rightarrow> string \<Rightarrow> int \<Rightarrow> fmt_bytecode" where
  "parseMiddleware flag param len = parseField wellknownMiddleware flag MFUser param len"

definition parseStartTime :: "string \<Rightarrow> int \<Rightarrow> fmt_bytecode" where
  "parseStartTime format len = \<lparr>bc_op = fStartTime, bc_param = TextParam format, bc_length = len\<rparr>"

definition parseSize :: "nat \<Rightarrow> string \<Rightarrow> int \<Rightarrow> fmt_bytecode" where
  "parseSize flag param len = \<lparr>bc_op = flag, bc_param = NoParam, bc_length = len\<rparr>"

definition parseToggle :: "nat \<Rightarrow> string \<Rightarrow> int \<Rightarrow> fmt_bytecode" where
  "parseToggle flag param len = \<lparr>bc_op = flag, bc_param = NoParam, bc_length = len\<rparr>"

text \<open>What a command adds to the program; a command without a case adds nothing.\<close>

definition parseCommand :: "nat \<Rightarrow> string \<Rightarrow> int \<Rightarrow> fmt_bytecode list" where
  "parseCommand flag param len =
     (if flag = fStartTime then [parseStartTime param len]
      else if flag \<in> set [fReqHeaderBytes, fBytesReceived, fResponseHeadersBytes, fResponseTrailersBytes,
          fDuration, fBytesSent, fRequestDuration] then [parseSize flag param len]
      else if flag \<in> set [fConnectionTerminationDetails, fConnectionId, fVirtualHost] then [parseToggle flag param len]
      else if flag \<in> set [fRouterInfo, fReq, fResp, fTrailer] then [parseHttpField flag param len]
      else if flag = fURI then [parseURIField fURI param len]
      else if flag \<in> set [fResponseCode, fResponseCodeDetail, fHost] then [parseToggle flag param len]
      else if flag \<in> set [fRequestMiddleware, fResponseMiddleware, fApplicationMiddleware]
      then [parseMiddleware flag param len]
      else if flag \<in> set [fServiceName, fClientIp, fProtocol, fScheme] then [parseToggle flag param len]
      else [])"


text \<open>
  A field between percent signs: its name up to the argument, the argument up to the first closing
  parenthesis of the field (a slice from behind the opening one, which panics when there is none
  or it comes first), then a length behind a colon. The colon is searched from behind the argument,
  but its place is then counted from the start of the field.
\<close>

definition field_param :: "string \<Rightarrow> (string \<times> string \<times> nat) res" where
  "field_param field =
     (case index_byte (CHR ''('') field of
        None \<Rightarrow> Ok (field, '''', 0)
      | Some lpar \<Rightarrow>
          (case index_byte (CHR '')'') field of
             None \<Rightarrow> Panic ''slice bounds out of range''
           | Some rpar \<Rightarrow>
               if rpar < lpar + 1 then Panic ''slice bounds out of range''
               else Ok (take lpar field, take (rpar - (lpar + 1)) (drop (lpar + 1) field), rpar + 1)))"

definition field_length :: "string \<Rightarrow> nat \<Rightarrow> int res" where
  "field_length field colon =
     (case index_byte (CHR '':'') (drop colon field) of
        None \<Rightarrow> Ok (- 1)
      | Some colonIndex \<Rightarrow>
          (case Atoi (drop (colonIndex + 1) field) of None \<Rightarrow> Err ''length is invalid'' | Some l \<Rightarrow> Ok l))"

definition field_command :: "string \<Rightarrow> string \<Rightarrow> int \<Rightarrow> fmt_bytecode list res" where
  "field_command name param len =
     (case map_of cmdMap name of
        None \<Rightarrow> Err (''access log format field '' @ name @ '' is unknown'')
      | Some cmd \<Rightarrow>
          (case map_of paramMap cmd of
             None \<Rightarrow> Panic (''BUG: '' @ name @ '' does not have parameter flags'')
           | Some opt \<Rightarrow>
               if opt = cmdOnly \<and> param \<noteq> '''' \<or> opt = cmdParamRequired \<and> param = ''''
               then Err (''cmd: '' @ name @ '' does not require parameter'')
               else Ok (parseCommand cmd param len)))"

definition compile_field :: "string \<Rightarrow> fmt_bytecode list res" where
  "compile_field field =
     (if field = '''' then Ok [\<lparr>bc_op = fmtText, bc_param = TextParam ''%'', bc_length = 0\<rparr>]
      else rbind (field_param field) (\<lambda>(name, param, colon).
           rbind (field_length field colon) (\<lambda>len. field_command name param len)))"

text \<open>The loop of \<open>parse\<close>, on what is left of the format.\<close>

function parse_format :: "string \<Rightarrow> fmt_bytecode list \<Rightarrow> fmt_bytecode list res" where
  "parse_format format prog =
     (if format = '''' then Ok prog
      else case index_byte (CHR ''%'') format of
        None \<Rightarrow> Ok (prog @ [\<lparr>bc_op = fmtText, bc_param = TextParam format, bc_length = 0\<rparr>])
      | Some percentBeg \<Rightarrow>
          (case index_byte (CHR ''%'') (drop (percentBeg + 1) format) of
             None \<Rightarrow> Err ''invalid % pair, % must be closed with another %''
           | Some percentEnd \<Rightarrow>
               rbind (compile_field (take percentEnd (drop (percentBeg + 1) format))) (\<lambda>code.
                 parse_format (drop (percentEnd + percentBeg + 2) format) (prog @ code))))"
  by pat_completeness auto
termination
  by (relation "measure (\<lambda>(f, p). length f)") auto

declare parse_format.simps [simp del]

record Format =
  fmt_Raw :: string
  fmt_bc :: "fmt_bytecode list"

record Log =
  lg_Format :: Format
  lg_Appendix :: "string list"

definition CompileFormat :: "string \<Rightarrow> Format res" where
  "CompileFormat input = rbind (parse_format input []) (\<lambda>prog. Ok \<lparr>fmt_Raw = input, fmt_bc = prog\<rparr>)"

definition NewLog :: "Format \<Rightarrow> Log" where
  "NewLog f = \<lparr>lg_Format = f, lg_Appendix = []\<rparr>"

section \<open>Rendering\<close>

text \<open>What the rest of the system supplies; the flag says whether a value is there.\<close>

record Provider =
  pv_FormatStartTime :: "string \<Rightarrow> string"
  pv_ReqHeaderBytes :: "int64 \<times> bool"
  pv_BytesReceived :: "int64 \<times> bool"
  pv_ResponseHeadersBytes :: "int64 \<times> bool"
  pv_ResponseTrailersBytes :: "int64 \<times> bool"
  pv_BytesSent :: "int64 \<times> bool"
  pv_Duration :: "int64 \<times> bool"
  pv_RequestDuration :: "int64 \<times> bool"
  pv_ResponseDuration :: "int64 \<times> bool"
  pv_ConnectionTerminationDetails :: "string \<times> bool"
  pv_ConnectionId :: "string \<times> bool"
  pv_VirtualHost :: "string \<times> bool"
  pv_RouterInfo :: "FormatParam \<Rightarrow> string \<times> bool"
  pv_Req :: "FormatParam \<Rightarrow> string \<times> bool"
  pv_Resp :: "FormatParam \<Rightarrow> string \<times> bool"
  pv_URI :: "FormatParam \<Rightarrow> string \<times> bool"
  pv_Trailer :: "FormatParam \<Rightarrow> string \<times> bool"
  pv_ResponseCode :: "int64 \<times> bool"
  pv_ResponseCodeDetail :: "string \<times> bool"
  pv_RequestMiddleware :: "FormatParam \<Rightarrow> string \<times> bool"
  pv_ResponseMiddleware :: "FormatParam \<Rightarrow> string \<times> bool"
  pv_ApplicationMiddleware :: "FormatParam \<Rightarrow> string \<times> bool"
  pv_Host :: "string \<times> bool"
  pv_ServiceName :: "string \<times> bool"
  pv_ClientIp :: "string \<times> bool"
  pv_Protocol :: "string \<times> bool"
  pv_Scheme :: "string \<times> bool"

definition fmtInt :: "int64 \<times> bool \<Rightarrow> string \<Rightarrow> string" where
  "fmtInt vv ep = (if snd vv then int_dec (sint (fst vv)) else ep)"

definition fmtStr :: "string \<times> bool \<Rightarrow> string \<Rightarrow> string" where
  "fmtStr vv ep = (if snd vv then fst vv else ep)"

definition fmtField :: "(FormatParam \<Rightarrow> string \<times> bool) \<Rightarrow> bparam \<Rightarrow> string \<Rightarrow> string res" where
  "fmtField vv param ep =
     (case param of FieldParam q \<Rightarrow> Ok (fmtStr (vv q) ep) | _ \<Rightarrow> Panic ''interface conversion'')"

text \<open>One instruction: a case of the switch in \<open>toText\<close>.\<close>

definition bc_text :: "Provider \<Rightarrow> string \<Rightarrow> fmt_bytecode \<Rightarrow> string res" where
  "bc_text pv ep bc =
     (let op = bc_op bc; par = bc_param bc in
      if op = fStartTime then
        (case par of TextParam f \<Rightarrow> Ok (pv_FormatStartTime pv f) | _ \<Rightarrow> Panic ''interface conversion'')
      else if op = fReqHeaderBytes then Ok (fmtInt (pv_ReqHeaderBytes pv) ep)
      else if op = fBytesReceived then Ok (fmtInt (pv_BytesReceived pv) ep)
      else if op = fResponseHeadersBytes then Ok (fmtInt (pv_ResponseHeadersBytes pv) ep)
      else if op = fResponseTrailersBytes then Ok (fmtInt (pv_ResponseTrailersBytes pv) ep)
      else if op = fDuration then Ok (fmtInt (pv_Duration pv) ep)
      else if op = fBytesSent then Ok (fmtInt (pv_BytesSent pv) ep)
      else if op = fRequestDuration then Ok (fmtInt (pv_RequestDuration pv) ep)
      else if op = fResponseDuration then Ok (fmtInt (pv_ResponseDuration pv) ep)
      else if op = fConnectionTerminationDetails then Ok (fmtStr (pv_ConnectionTerminationDetails pv) ep)
      else if op = fConnectionId then Ok (fmtStr (pv_ConnectionId pv) ep)
      else if op = fVirtualHost then Ok (fmtStr (pv_VirtualHost pv) ep)
      else if op = fRouterInfo then fmtField (pv_RouterInfo pv) par ep
      else if op = fReq then fmtField (pv_Req pv) par ep
      else if op = fResp then fmtField (pv_Resp pv) par ep
      else if op = fURI then fmtField (pv_URI pv) par ep
      else if op = fTrailer then fmtField (pv_Trailer pv) par ep
      else if op = fResponseCode then Ok (fmtInt (pv_ResponseCode pv) ep)
      else if op = fResponseCodeDetail then Ok (fmtStr (pv_ResponseCodeDetail pv) ep)
      else if op = fHost then Ok (fmtStr (pv_Host pv) ep)
      else if op = fRequestMiddleware then fmtField (pv_RequestMiddleware pv) par ep
      else if op = fResponseMiddleware then fmtField (pv_ResponseMiddleware pv) par ep
      else if op = fApplicationMiddleware then fmtField (pv_ApplicationMiddleware pv) par ep
      else if op = fServiceName then Ok (fmtStr (pv_ServiceName pv) ep)
      else if op = fClientIp then Ok (fmtStr (pv_ClientIp pv) ep)
      else if op = fProtocol then Ok (fmtStr (pv_Protocol pv) ep)
      else if op = fScheme then Ok (fmtStr (pv_Scheme pv) ep)
      else Panic ''should not reach here'')"

fun toText :: "fmt_bytecode list \<Rightarrow> Provider \<Rightarrow> string \<Rightarrow> string \<Rightarrow> string res" where
  "toText [] pv ep dl = Ok ''''"
| "toText (bc # prog) pv ep dl =
     rbind (bc_text pv ep bc) (\<lambda>t. rbind (toText prog pv ep dl) (\<lambda>rest. Ok (t @ dl @ rest)))"

definition ToText :: "Log \<Rightarrow> Provider \<Rightarrow> string \<Rightarrow> string \<Rightarrow> string res" where
  "ToText l pv emptyPlaceholder delimiter =
     rbind (toText (fmt_bc (lg_Format l)) pv emptyPlaceholder delimiter) (\<lambda>buf.
       Ok (buf @ concat (map (\<lambda>a. a @ delimiter) (lg_Appendix l))))"


section \<open>Lengths\<close>

lemma index_byte_Some: "index_byte c s = Some i \<Longrightarrow> i < length s \<and> s ! i = c \<and> c \<notin> set (take i s)"
proof (induction s arbitrary: i)
  case (Cons x xs)
  then show ?case by (cases i) (auto split: if_splits)
qed simp

lemma index_byte_None: "index_byte c s = None \<longleftrightarrow> c \<notin> set s"
  by (induction s) (auto split: if_splits)

lemma Atoi_no_colon: "CHR '':'' \<in> set s \<Longrightarrow> Atoi s = None"
  by (cases s) (auto simp: Atoi_def digit_char_def list_all_iff)

lemma cmdMap_no_colon: "map_of cmdMap name = Some c \<Longrightarrow> CHR '':'' \<notin> set name"
  by (auto simp: cmdMap_def split: if_splits)

lemma compile_field_length:
  assumes "compile_field field = Ok code" and "bc \<in> set code"
  shows "bc_length bc \<le> 0"
proof (cases "field = ''''")
  case True
  then show ?thesis using assms by (auto simp: compile_field_def)
next
  case False
  then obtain name param colon len where n: "field_param field = Ok (name, param, colon)"
    and l: "field_length field colon = Ok len" and c: "field_command name param len = Ok code"
    using assms(1) by (auto simp: compile_field_def elim!: rbind_OkE)
  have "len = - 1"
  proof (rule ccontr)
    assume "len \<noteq> - 1"
    then obtain ci where ci: "index_byte (CHR '':'') (drop colon field) = Some ci" and a: "Atoi (drop (ci + 1) field) = Some len"
      using l by (auto simp: field_length_def split: option.splits)
    have at: "colon + ci < length field" "field ! (colon + ci) = CHR '':''"
      using index_byte_Some [OF ci] by auto
    show False
    proof (cases "index_byte (CHR ''('') field")
      case None
      then have "name = field" "colon = 0" using n by (simp_all add: field_param_def)
      with at c cmdMap_no_colon show False
        by (fastforce simp: field_command_def split: option.splits dest: nth_mem)
    next
      case (Some lpar)
      then have "0 < colon" using n by (auto simp: field_param_def split: option.splits if_splits)
      then have "drop (ci + 1) field ! (colon - 1) = CHR '':''" "colon - 1 < length (drop (ci + 1) field)"
        using at by (auto simp: add.commute)
      with Atoi_no_colon [of "drop (ci + 1) field"] a show False by (metis nth_mem option.distinct(1))
    qed
  qed
  with c assms(2) show ?thesis
    by (auto simp: field_command_def parseCommand_def parseStartTime_def parseSize_def parseToggle_def
        parseHttpField_def parseURIField_def parseMiddleware_def parseField_def Let_def
        split: option.splits if_splits)
qed

lemma parse_format_all:
  assumes "\<forall>bc\<in>set prog. Q bc" and "parse_format f prog = Ok prog'"
    and lit: "\<And>t. Q \<lparr>bc_op = fmtText, bc_param = TextParam t, bc_length = 0\<rparr>"
    and code: "\<And>x code bc. compile_field x = Ok code \<Longrightarrow> bc \<in> set code \<Longrightarrow> Q bc"
  shows "\<forall>bc\<in>set prog'. Q bc"
  using assms(1,2)
proof (induction f prog rule: parse_format.induct)
  case (1 format prog)
  show ?case
  proof (cases "format = '''' \<or> index_byte (CHR ''%'') format = None")
    case True
    then show ?thesis using "1.prems" lit unfolding parse_format.simps [of format prog] by (auto split: if_splits)
  next
    case False
    then obtain b where b: "format \<noteq> ''''" "index_byte (CHR ''%'') format = Some b" by auto
    then obtain e where e: "index_byte (CHR ''%'') (drop (b + 1) format) = Some e"
      using "1.prems"(2) by (subst (asm) parse_format.simps) (auto split: option.splits)
    then obtain c where c: "compile_field (take e (drop (b + 1) format)) = Ok c"
      and rest: "parse_format (drop (e + b + 2) format) (prog @ c) = Ok prog'"
      using "1.prems"(2) b by (subst (asm) parse_format.simps) (auto elim!: rbind_OkE)
    have "\<forall>bc\<in>set (prog @ c). Q bc" using "1.prems"(1) code [OF c] by auto
    from "1.IH" [OF b e c this rest] show ?thesis .
  qed
qed

text \<open>
  the length of an access log field is dead syntax. No format that compiles has an instruction
  with a length: every field with a colon behind its name or its argument is refused, because the
  colon's place is counted from the wrong end and the name is not cut at it.
\<close>

theorem access_log_no_length:
  assumes "CompileFormat s = Ok f" and "bc \<in> set (fmt_bc f)"
  shows "bc_length bc \<le> 0"
  using parse_format_all [of "[]" "\<lambda>bc. bc_length bc \<le> 0" s "fmt_bc f"] assms compile_field_length
  by (auto simp: CompileFormat_def elim!: rbind_OkE)

theorem access_log_no_length_witness:
  "CompileFormat ''%HOST%'' = Ok \<lparr>fmt_Raw = ''%HOST%'', fmt_bc = [\<lparr>bc_op = fHost, bc_param = NoParam, bc_length = - 1\<rparr>]\<rparr> \<and>
   (- 1 :: int) \<le> 0 \<and> CompileFormat ''%HOST:10%'' = Err ''access log format field HOST:10 is unknown'' \<and>
   CompileFormat ''%REQ(x):10%'' = Err ''length is invalid''"
proof -
  have c: "CompileFormat ''%HOST%'' =
      Ok \<lparr>fmt_Raw = ''%HOST%'', fmt_bc = [\<lparr>bc_op = fHost, bc_param = NoParam, bc_length = - 1\<rparr>]\<rparr>"
    by code_simp
  have e: "CompileFormat ''%HOST:10%'' = Err ''access log format field HOST:10 is unknown''"
    "CompileFormat ''%REQ(x):10%'' = Err ''length is invalid''" by code_simp+
  from access_log_no_length [OF c, of "\<lparr>bc_op = fHost, bc_param = NoParam, bc_length = - 1\<rparr>"] c e show ?thesis
    by simp
qed

section \<open>Lines\<close>

text \<open>Every instruction the compiler gives has the kind of argument its operation reads.\<close>

definition line_ops :: "nat list" where
  "line_ops = [fStartTime, fReqHeaderBytes, fBytesReceived, fResponseHeadersBytes, fResponseTrailersBytes, fDuration,
     fBytesSent, fRequestDuration, fResponseDuration, fConnectionTerminationDetails, fConnectionId, fVirtualHost,
     fRouterInfo, fReq, fResp, fURI, fTrailer, fResponseCode, fResponseCodeDetail, fHost, fRequestMiddleware,
     fResponseMiddleware, fApplicationMiddleware, fServiceName, fClientIp, fProtocol, fScheme]"

definition renders :: "fmt_bytecode \<Rightarrow> bool" where
  "renders bc \<longleftrightarrow> bc_op bc \<in> set line_ops \<and> (bc_op bc = fStartTime \<longrightarrow> (\<exists>t. bc_param bc = TextParam t)) \<and>
     (bc_op bc \<in> {fRouterInfo, fReq, fResp, fURI, fTrailer, fRequestMiddleware, fResponseMiddleware,
        fApplicationMiddleware} \<longrightarrow> (\<exists>q. bc_param bc = FieldParam q))"

lemma if_Ok: "(c \<Longrightarrow> \<exists>t. a = Ok t) \<Longrightarrow> (\<not> c \<Longrightarrow> \<exists>t. b = Ok t) \<Longrightarrow> \<exists>t. (if c then a else b) = Ok t"
  by simp

lemma renders_text:
  assumes "renders bc"
  shows "\<exists>t. bc_text pv ep bc = Ok t"
proof -
  have f: "\<exists>t. fmtField vv (bc_param bc) ep = Ok t"
    if "bc_op bc \<in> {fRouterInfo, fReq, fResp, fURI, fTrailer, fRequestMiddleware, fResponseMiddleware, fApplicationMiddleware}" for vv
    using assms that unfolding renders_def fmtField_def by fastforce
  have t: "\<exists>t. (case bc_param bc of TextParam f \<Rightarrow> Ok (pv_FormatStartTime pv f) | _ \<Rightarrow> Panic ''interface conversion'') = Ok t"
    if "bc_op bc = fStartTime"
    using assms that unfolding renders_def by fastforce
  show ?thesis unfolding bc_text_def Let_def
  proof (intro if_Ok)
    assume "bc_op bc \<noteq> fStartTime" "bc_op bc \<noteq> fReqHeaderBytes" "bc_op bc \<noteq> fBytesReceived" "bc_op bc \<noteq> fResponseHeadersBytes"
      "bc_op bc \<noteq> fResponseTrailersBytes" "bc_op bc \<noteq> fDuration" "bc_op bc \<noteq> fBytesSent" "bc_op bc \<noteq> fRequestDuration"
      "bc_op bc \<noteq> fResponseDuration" "bc_op bc \<noteq> fConnectionTerminationDetails" "bc_op bc \<noteq> fConnectionId"
      "bc_op bc \<noteq> fVirtualHost" "bc_op bc \<noteq> fRouterInfo" "bc_op bc \<noteq> fReq" "bc_op bc \<noteq> fResp" "bc_op bc \<noteq> fURI"
      "bc_op bc \<noteq> fTrailer" "bc_op bc \<noteq> fResponseCode" "bc_op bc \<noteq> fResponseCodeDetail" "bc_op bc \<noteq> fHost"
      "bc_op bc \<noteq> fRequestMiddleware" "bc_op bc \<noteq> fResponseMiddleware" "bc_op bc \<noteq> fApplicationMiddleware"
      "bc_op bc \<noteq> fServiceName" "bc_op bc \<noteq> fClientIp" "bc_op bc \<noteq> fProtocol" "bc_op bc \<noteq> fScheme"
    then show "\<exists>t. Panic ''should not reach here'' = Ok t" using assms by (simp add: renders_def line_ops_def)
  qed ((erule t | rule exI, rule refl | rule f, simp only: insert_iff simp_thms)+)
qed

lemma parseCommand_renders: "bc \<in> set (parseCommand cmd param len) \<Longrightarrow> renders bc"
  by (auto simp: parseCommand_def parseStartTime_def parseSize_def parseToggle_def parseHttpField_def
      parseURIField_def parseMiddleware_def parseField_def Let_def renders_def line_ops_def split: if_splits)
    (simp_all add: f_ops)


lemma renders_fmtText: "renders \<lparr>bc_op = fmtText, bc_param = TextParam t, bc_length = 0\<rparr>"
  by (simp add: renders_def line_ops_def f_ops)

lemma compile_field_renders:
  assumes "compile_field x = Ok code" and "bc \<in> set code"
  shows "renders bc"
proof (cases "x = ''''")
  case True
  then have "bc = \<lparr>bc_op = fmtText, bc_param = TextParam ''%'', bc_length = 0\<rparr>"
    using assms by (auto simp: compile_field_def)
  then show ?thesis by (simp add: renders_fmtText)
next
  case False
  then obtain cmd param len where "code = parseCommand cmd param len"
    using assms(1)
    by (fastforce simp: compile_field_def field_command_def elim!: rbind_OkE split: if_splits option.splits)
  with assms(2) parseCommand_renders show ?thesis by simp
qed

lemma toText_ends: "\<forall>bc\<in>set prog. renders bc \<Longrightarrow> \<exists>t. toText prog pv ep dl = Ok t"
proof (induction prog)
  case (Cons bc prog)
  obtain t where "bc_text pv ep bc = Ok t" using renders_text Cons.prems by fastforce
  with Cons show ?case by auto
qed simp

text \<open>
  C34: every access log format that compiles can be rendered. Whatever the format, the provider, the
  placeholder, the delimiter and the lines appended by the script, rendering ends without a
  panic: every instruction has the kind of argument its operation reads, and no operation is
  without a case.
\<close>

theorem access_log_renders:
  assumes "CompileFormat s = Ok f"
  shows "\<exists>line. ToText \<lparr>lg_Format = f, lg_Appendix = appendix\<rparr> pv ep dl = Ok line"
proof -
  have "parse_format s [] = Ok (fmt_bc f)" using assms by (auto simp: CompileFormat_def elim!: rbind_OkE)
  from parse_format_all [where Q = renders, OF _ this renders_fmtText compile_field_renders]
  have "\<forall>bc\<in>set (fmt_bc f). renders bc" by simp
  from toText_ends [OF this] obtain t where "toText (fmt_bc f) pv ep dl = Ok t" by blast
  then show ?thesis by (simp add: ToText_def)
qed

theorem access_log_renders_witness:
  "\<forall>pv. \<exists>line. ToText \<lparr>lg_Format = \<lparr>fmt_Raw = ''%HOST% %REQ(:PATH)%'', fmt_bc =
       [\<lparr>bc_op = fHost, bc_param = NoParam, bc_length = - 1\<rparr>,
        \<lparr>bc_op = fReq, bc_param = FieldParam \<lparr>fp_field = \<lparr>ff_t = 6, ff_cname = ''''\<rparr>,
           fp_orField = \<lparr>ff_t = 0, ff_cname = ''''\<rparr>\<rparr>, bc_length = - 1\<rparr>]\<rparr>, lg_Appendix = [''note'']\<rparr>
     pv ''-'' '' '' = Ok line"
proof -
  have "CompileFormat ''%HOST% %REQ(:PATH)%'' = Ok \<lparr>fmt_Raw = ''%HOST% %REQ(:PATH)%'', fmt_bc =
       [\<lparr>bc_op = fHost, bc_param = NoParam, bc_length = - 1\<rparr>,
        \<lparr>bc_op = fReq, bc_param = FieldParam \<lparr>fp_field = \<lparr>ff_t = 6, ff_cname = ''''\<rparr>,
           fp_orField = \<lparr>ff_t = 0, ff_cname = ''''\<rparr>\<rparr>, bc_length = - 1\<rparr>]\<rparr>"
    by code_simp
  from access_log_renders [OF this] show ?thesis by blast
qed

text \<open>A field of a format, and a format of fields with text before them and behind the last.\<close>

definition field_text :: "string \<times> string \<Rightarrow> string" where
  "field_text f = (if snd f = '''' then fst f else fst f @ CHR ''('' # snd f @ '')'')"

definition field_ok :: "string \<times> string \<Rightarrow> bool" where
  "field_ok f =
     (case map_of cmdMap (fst f) of
        None \<Rightarrow> False
      | Some cmd \<Rightarrow>
          (case map_of paramMap cmd of
             None \<Rightarrow> False
           | Some opt \<Rightarrow> (opt = cmdOnly \<longrightarrow> snd f = '''') \<and> (opt = cmdParamRequired \<longrightarrow> snd f \<noteq> '''') \<and>
               CHR ''%'' \<notin> set (snd f) \<and> CHR '')'' \<notin> set (snd f)))"

definition field_code :: "string \<times> string \<Rightarrow> fmt_bytecode list" where
  "field_code f = parseCommand (the (map_of cmdMap (fst f))) (snd f) (- 1)"

definition format_text :: "(string \<times> string \<times> string) list \<Rightarrow> string \<Rightarrow> string" where
  "format_text items tail = concat (map (\<lambda>(t, f). t @ CHR ''%'' # field_text f @ ''%'') items) @ tail"

definition text_code :: "string \<Rightarrow> fmt_bytecode list" where
  "text_code t = (if t = '''' then [] else [\<lparr>bc_op = fmtText, bc_param = TextParam t, bc_length = 0\<rparr>])"

lemma index_byte_append: "c \<notin> set xs \<Longrightarrow> index_byte c (xs @ c # ys) = Some (length xs)"
  by (induction xs) auto

lemma cmdMap_names:
  "map_of cmdMap name = Some c \<Longrightarrow> name \<noteq> '''' \<and> CHR '':'' \<notin> set name \<and> CHR ''('' \<notin> set name \<and> CHR '')'' \<notin> set name \<and>
     CHR ''%'' \<notin> set name"
  by (auto simp: cmdMap_def split: if_splits)


lemma compile_field_ok:
  assumes "field_ok f"
  shows "compile_field (field_text f) = Ok (field_code f)" and "CHR ''%'' \<notin> set (field_text f)"
proof -
  obtain name param where f: "f = (name, param)" by (cases f)
  obtain cmd opt where cmd: "map_of cmdMap name = Some cmd" "map_of paramMap cmd = Some opt"
    and opt: "opt = cmdOnly \<longrightarrow> param = ''''" "opt = cmdParamRequired \<longrightarrow> param \<noteq> ''''"
    and p: "CHR ''%'' \<notin> set param" "CHR '')'' \<notin> set param"
    using assms by (auto simp: field_ok_def f split: option.splits)
  note n = cmdMap_names [OF cmd(1)]
  show "CHR ''%'' \<notin> set (field_text f)" using n p by (simp add: field_text_def f)
  have c: "field_command name param (- 1) = Ok (field_code f)"
    using cmd opt by (simp add: field_command_def field_code_def f)
  show "compile_field (field_text f) = Ok (field_code f)"
  proof (cases "param = ''''")
    case True
    have "index_byte (CHR ''('') name = None" "index_byte (CHR '':'') name = None"
      using n by (simp_all add: index_byte_None)
    with True c n show ?thesis
      by (simp add: compile_field_def field_text_def f field_param_def field_length_def)
  next
    case False
    let ?x = "name @ CHR ''('' # param @ '')''"
    have "index_byte (CHR ''('') ?x = Some (length name)" using n by (intro index_byte_append) simp
    moreover have "index_byte (CHR '')'') ?x = Some (length name + 1 + length param)"
      using index_byte_append [of "CHR '')''" "name @ CHR ''('' # param" "[]"] n p by simp
    ultimately have "field_param ?x = Ok (name, param, length ?x)"
      by (simp add: field_param_def)
    moreover have "field_length ?x (length ?x) = Ok (- 1)" by (simp add: field_length_def)
    ultimately show ?thesis using False c by (simp add: compile_field_def field_text_def f)
  qed
qed

lemma parse_format_items:
  "\<forall>x\<in>set items. CHR ''%'' \<notin> set (fst x) \<and> field_ok (snd x) \<Longrightarrow> CHR ''%'' \<notin> set tail \<Longrightarrow>
   parse_format (format_text items tail) prog = Ok (prog @ concat (map (\<lambda>x. field_code (snd x)) items) @ text_code tail)"
proof (induction items arbitrary: prog)
  case Nil
  then have "index_byte (CHR ''%'') tail = None" by (simp add: index_byte_None)
  then show ?case by (subst parse_format.simps) (simp add: format_text_def text_code_def)
next
  case (Cons x items)
  obtain t f where x: "x = (t, f)" by (cases x)
  have t: "CHR ''%'' \<notin> set t" and f: "field_ok f" using Cons.prems(1) by (simp_all add: x)
  let ?rest = "format_text items tail"
  have form: "format_text (x # items) tail = t @ CHR ''%'' # field_text f @ CHR ''%'' # ?rest"
    by (simp add: format_text_def x)
  have b: "index_byte (CHR ''%'') (t @ CHR ''%'' # field_text f @ CHR ''%'' # ?rest) = Some (length t)"
    using t by (rule index_byte_append)
  have e: "index_byte (CHR ''%'') (field_text f @ CHR ''%'' # ?rest) = Some (length (field_text f))"
    using compile_field_ok(2) [OF f] by (rule index_byte_append)
  have "parse_format (format_text (x # items) tail) prog = parse_format ?rest (prog @ field_code f)"
    unfolding form using b e compile_field_ok(1) [OF f]
    by (subst parse_format.simps) simp
  then show ?case using Cons by (simp add: x)
qed

text \<open>
  C35: what an access log format compiles to. Take fields with known names and fitting arguments,
  with any text before each of them and behind the last. The program is the code of the fields in
  order and then that last text: the text before a field leaves no trace. And the text that does
  get in is rendered by the formatter of the start time, because the two operations share a number.
\<close>

theorem access_log_format:
  assumes "\<forall>x\<in>set items. CHR ''%'' \<notin> set (fst x) \<and> field_ok (snd x)" and "CHR ''%'' \<notin> set tail"
  shows "CompileFormat (format_text items tail) = Ok \<lparr>fmt_Raw = format_text items tail,
      fmt_bc = concat (map (\<lambda>x. field_code (snd x)) items) @ text_code tail\<rparr> \<and>
    toText (text_code tail) pv ep dl = Ok (if tail = '''' then '''' else pv_FormatStartTime pv tail @ dl)"
  using parse_format_items [OF assms, of "[]"]
  by (simp add: CompileFormat_def text_code_def bc_text_def f_ops)

theorem access_log_format_witness:
  "CompileFormat ''host=%HOST% path=%REQ(:PATH?x)%done'' = Ok \<lparr>fmt_Raw = ''host=%HOST% path=%REQ(:PATH?x)%done'',
     fmt_bc = field_code (''HOST'', '''') @ field_code (''REQ'', '':PATH?x'') @ text_code ''done''\<rparr>"
proof -
  let ?items = "[(''host='', ''HOST'', ''''), ('' path='', ''REQ'', '':PATH?x'')]"
  have "\<forall>x\<in>set ?items. CHR ''%'' \<notin> set (fst x) \<and> field_ok (snd x)" "CHR ''%'' \<notin> set ''done''"
    by code_simp+
  from access_log_format [OF this, of undefined "''-''" "'' ''"] show ?thesis
    by (simp add: format_text_def field_text_def)
qed

end
