(* ===== verification/HttpLib.thy ===== *)
theory HttpLib
  imports Prelude
begin

text \<open>
  What the HTTP packages use of Go's standard library (\<open>net/http\<close> headers, \<open>net/url\<close> queries),
  and the name patterns of \<open>util/matcher.go\<close>. A Go map is an association list with distinct keys;
  where the code walks one, the order is the runtime's choice and is a parameter there.
\<close>

section \<open>Header names and headers\<close>

type_synonym hdr = "(string \<times> string list) list"

definition upper_char :: "char \<Rightarrow> char" where
  "upper_char c = (let n = (of_char c :: nat) in if 97 \<le> n \<and> n \<le> 122 then char_of (n - 32) else c)"

definition lower_char :: "char \<Rightarrow> char" where
  "lower_char c = (let n = (of_char c :: nat) in if 65 \<le> n \<and> n \<le> 90 then char_of (n + 32) else c)"

definition alnum_char :: "char \<Rightarrow> bool" where
  "alnum_char c =
     (let n = (of_char c :: nat) in 48 \<le> n \<and> n \<le> 57 \<or> 65 \<le> n \<and> n \<le> 90 \<or> 97 \<le> n \<and> n \<le> 122)"

definition validHeaderFieldByte :: "char \<Rightarrow> bool" where
  "validHeaderFieldByte c \<longleftrightarrow> alnum_char c \<or> c \<in> set ''!#$%&*+-.^_`|~'' \<or> c = CHR 39"

fun canonical :: "bool \<Rightarrow> string \<Rightarrow> string" where
  "canonical up [] = []"
| "canonical up (c # cs) = (if up then upper_char c else lower_char c) # canonical (c = CHR ''-'') cs"

definition CanonicalHeaderKey :: "string \<Rightarrow> string" where
  "CanonicalHeaderKey s = (if list_all validHeaderFieldByte s then canonical True s else s)"

definition hdr_Values :: "hdr \<Rightarrow> string \<Rightarrow> string list" where
  "hdr_Values h k = (case map_of h (CanonicalHeaderKey k) of None \<Rightarrow> [] | Some v \<Rightarrow> v)"

definition hdr_Get :: "hdr \<Rightarrow> string \<Rightarrow> string" where
  "hdr_Get h k = (case hdr_Values h k of [] \<Rightarrow> '''' | v # _ \<Rightarrow> v)"

definition hdr_Set :: "hdr \<Rightarrow> string \<Rightarrow> string \<Rightarrow> hdr" where
  "hdr_Set h k v = AList.update (CanonicalHeaderKey k) [v] h"

definition hdr_Add :: "hdr \<Rightarrow> string \<Rightarrow> string \<Rightarrow> hdr" where
  "hdr_Add h k v = AList.update (CanonicalHeaderKey k) (hdr_Values h k @ [v]) h"

definition hdr_Del :: "hdr \<Rightarrow> string \<Rightarrow> hdr" where
  "hdr_Del h k = AList.delete (CanonicalHeaderKey k) h"

lemma upper_upper [simp]: "upper_char (upper_char c) = upper_char c"
  by (auto simp: upper_char_def Let_def)

lemma lower_lower [simp]: "lower_char (lower_char c) = lower_char c"
  by (auto simp: lower_char_def Let_def)

lemma dash_case: "(if up then upper_char c else lower_char c) = CHR ''-'' \<longleftrightarrow> c = CHR ''-''"
proof -
  obtain n :: nat where n: "n < 256" "c = char_of n" "of_char c = n"
    using of_char_mod_256 [of c, where ?'a = nat] by (metis char_of_char mod_less_divisor zero_less_numeral)
  have eq: "char_of m = CHR ''-'' \<longleftrightarrow> m = 45" if "m < 256" for m :: nat
    using that by (simp add: char_of_eq_iff take_bit_eq_mod)
  have "upper_char c = CHR ''-'' \<longleftrightarrow> c = CHR ''-''" "lower_char c = CHR ''-'' \<longleftrightarrow> c = CHR ''-''"
    unfolding upper_char_def lower_char_def Let_def n(3) using n(1) by (auto simp: n(2) eq)
  then show ?thesis by simp
qed

lemma canonical_canonical [simp]: "canonical up (canonical up s) = canonical up s"
  by (induction s arbitrary: up) (auto simp: dash_case)

section \<open>Queries\<close>

definition hex_digit :: "nat \<Rightarrow> char" where
  "hex_digit n = (if n < 10 then char_of (48 + n) else char_of (55 + n))"

definition unhex :: "char \<Rightarrow> nat option" where
  "unhex c =
     (let n = (of_char c :: nat)
      in if 48 \<le> n \<and> n \<le> 57 then Some (n - 48)
         else if 97 \<le> n \<and> n \<le> 102 then Some (n - 87)
         else if 65 \<le> n \<and> n \<le> 70 then Some (n - 55)
         else None)"

fun QueryEscape :: "string \<Rightarrow> string" where
  "QueryEscape [] = []"
| "QueryEscape (c # cs) =
     (if alnum_char c \<or> c \<in> set ''-_.~'' then c # QueryEscape cs
      else if c = CHR '' '' then CHR ''+'' # QueryEscape cs
      else let n = (of_char c :: nat) in CHR ''%'' # hex_digit (n div 16) # hex_digit (n mod 16) # QueryEscape cs)"

text \<open>\<open>url.QueryUnescape\<close>; \<open>quote\<close> is \<open>strconv.Quote\<close> in the message of a bad escape.\<close>

fun QueryUnescape :: "(string \<Rightarrow> string) \<Rightarrow> string \<Rightarrow> string res" where
  "QueryUnescape quote [] = Ok []"
| "QueryUnescape quote (c # cs) =
     (if c = CHR ''%'' then
        (case cs of
           a # b # rest \<Rightarrow>
             (case (unhex a, unhex b) of
                (Some x, Some y) \<Rightarrow> rbind (QueryUnescape quote rest) (\<lambda>s. Ok (char_of (16 * x + y) # s))
              | _ \<Rightarrow> Err (''invalid URL escape '' @ quote (take 3 (c # cs))))
         | _ \<Rightarrow> Err (''invalid URL escape '' @ quote (take 3 (c # cs))))
      else rbind (QueryUnescape quote cs) (\<lambda>s. Ok ((if c = CHR ''+'' then CHR '' '' else c) # s)))"

fun cut :: "char \<Rightarrow> string \<Rightarrow> string \<times> string" where
  "cut sep [] = ([], [])"
| "cut sep (c # cs) = (if c = sep then ([], cs) else let (a, b) = cut sep cs in (c # a, b))"

lemma cut_length: "length (snd (cut sep s)) \<le> length s" "s \<noteq> [] \<Longrightarrow> length (snd (cut sep s)) < length s"
proof -
  show l: "length (snd (cut sep s)) \<le> length s" for s by (induction s) (auto split: prod.splits)
  show "s \<noteq> [] \<Longrightarrow> length (snd (cut sep s)) < length s"
    using l [of "tl s"] by (cases s) (auto split: prod.splits)
qed

text \<open>\<open>url.ParseQuery\<close>: bad pairs are left out and the first error is reported with the rest.\<close>

function parse_query :: "(string \<Rightarrow> string) \<Rightarrow> string \<Rightarrow> hdr \<Rightarrow> string option \<Rightarrow> hdr \<times> string option" where
  "parse_query quote query m err =
     (if query = '''' then (m, err)
      else
        let (key, rest) = cut (CHR ''&'') query; fst_err = (\<lambda>e. case err of None \<Rightarrow> Some e | Some e0 \<Rightarrow> Some e0)
        in if CHR '';'' \<in> set key then parse_query quote rest m (Some ''invalid semicolon separator in query'')
           else if key = '''' then parse_query quote rest m err
           else let (k, v) = cut (CHR ''='') key
             in (case QueryUnescape quote k of
                   Ok k' \<Rightarrow>
                     (case QueryUnescape quote v of
                        Ok v' \<Rightarrow>
                          parse_query quote rest
                            (AList.update k' ((case map_of m k' of None \<Rightarrow> [] | Some vs \<Rightarrow> vs) @ [v']) m) err
                      | Err e \<Rightarrow> parse_query quote rest m (fst_err e)
                      | _ \<Rightarrow> (m, err))
                 | Err e \<Rightarrow> parse_query quote rest m (fst_err e)
                 | _ \<Rightarrow> (m, err)))"
  by pat_completeness auto
termination
  by (relation "measure (\<lambda>(quote, query, m, err). length query)")
    (auto dest: sym simp: prod_eq_iff intro: cut_length)

declare parse_query.simps [simp del]

text \<open>\<open>strings.Join\<close>.\<close>

fun str_join :: "string \<Rightarrow> string list \<Rightarrow> string" where
  "str_join d [] = ''''"
| "str_join d [x] = x"
| "str_join d (x # xs) = x @ d @ str_join d xs"

section \<open>Name patterns\<close>

definition has_prefix :: "string \<Rightarrow> string \<Rightarrow> bool" where
  "has_prefix s p \<longleftrightarrow> take (length p) s = p"

definition has_suffix :: "string \<Rightarrow> string \<Rightarrow> bool" where
  "has_suffix s p \<longleftrightarrow> length p \<le> length s \<and> drop (length s - length p) s = p"

fun contains :: "string \<Rightarrow> string \<Rightarrow> bool" where
  "contains [] p \<longleftrightarrow> p = []"
| "contains (c # cs) p \<longleftrightarrow> has_prefix (c # cs) p \<or> contains cs p"

definition ToMatcher :: "string \<Rightarrow> string \<Rightarrow> string \<Rightarrow> bool" where
  "ToMatcher pattern =
     (if pattern = ''*'' then (\<lambda>_ _. True)
      else
        let prefixWildcard = has_prefix pattern ''*''; suffixWildcard = has_suffix pattern ''*''
        in if prefixWildcard \<and> suffixWildcard then contains
           else if prefixWildcard then has_prefix
           else if suffixWildcard then has_suffix
           else (\<lambda>a b. a = b))"

text \<open>Every use hands the matcher the pattern itself, star and all.\<close>

lemma contains_set: "contains s p \<Longrightarrow> set p \<subseteq> set s"
proof (induction s)
  case (Cons c cs)
  show ?case
  proof (cases "has_prefix (c # cs) p")
    case True
    then show ?thesis using set_take_subset [of "length p" "c # cs"] by (simp add: has_prefix_def)
  qed (use Cons in auto)
qed simp

lemma has_prefix_set: "has_prefix s p \<Longrightarrow> set p \<subseteq> set s"
  using set_take_subset [of "length p" s] by (simp add: has_prefix_def)

lemma has_suffix_set: "has_suffix s p \<Longrightarrow> set p \<subseteq> set s"
  using set_drop_subset [of "length s - length p" s] by (simp add: has_suffix_def)

lemma matcher_wildcard:
  assumes "pattern \<noteq> ''*''" and "CHR ''*'' \<in> set pattern" and "ToMatcher pattern name pattern"
  shows "CHR ''*'' \<in> set name"
  using assms contains_set [of name pattern] has_prefix_set [of name pattern] has_suffix_set [of name pattern]
  by (auto simp: ToMatcher_def Let_def split: if_splits)

end
