(* ===== verification/HplWorld.thy ===== *)
theory HplWorld
  imports HttpLib AccessLog Object
begin

text \<open>
  The objects of the HTTP policy library (\<open>hpl/\<close>): Go objects a script holds as user values. They
  live in the embedder's part of the store, \<open>hworld\<close>: readers, header maps, requests, responses,
  URLs, log lines and the user objects themselves, each a table indexed by pointers, so that two
  objects that share a map or a reader see each other's changes. The theories that follow give the
  operations of one kind of object each.
\<close>

section \<open>Readers\<close>

text \<open>
  \<open>io.ReadCloser\<close>: \<open>REof\<close> and \<open>RBytes\<close> are \<open>eofReadCloser\<close> and \<open>eofByteReadCloser\<close> of
  \<open>hpl/stream.go\<close> (the latter over text, or \<open>RMulti\<close> over other readers; \<open>None\<close> once closed);
  \<open>RStr\<close> is a reader without a close of its own, and \<open>RNet\<close> the body of a message from the network:
  what is left, how it ends, and whether it was closed.
\<close>

datatype reader =
    REof
  | RBytes "string option"
  | RMulti "nat list option"
  | RStr string
  | RNet string "string option" bool

text \<open>
  Reading to the end (\<open>io.ReadAll\<close>, \<open>io.Copy\<close>): what came, the error that ended it if it was not the
  end, and the readers afterwards. A compound reader is built over readers that exist, so it refers
  to smaller pointers only.
\<close>

function read_all :: "nat \<Rightarrow> nat list option \<Rightarrow> reader list \<Rightarrow> (string \<times> string option) \<times> reader list" where
  "read_all i (Some []) rs = (('''', None), rs)"
| "read_all i (Some (j # js)) rs =
     (if j < i then
        let ((s, e), rs1) = read_all j None rs
        in (case e of
              Some _ \<Rightarrow> ((s, e), rs1)
            | None \<Rightarrow> let ((t, e), rs2) = read_all i (Some js) rs1 in ((s @ t, e), rs2))
      else (('''', None), rs))"
| "read_all i None rs =
     (if i < length rs then
        (case rs ! i of
           REof \<Rightarrow> (('''', None), rs)
         | RBytes None \<Rightarrow> (('''', None), rs)
         | RBytes (Some s) \<Rightarrow> ((s, None), rs[i := RBytes (Some '''')])
         | RMulti None \<Rightarrow> (('''', None), rs)
         | RMulti (Some js) \<Rightarrow> read_all i (Some js) rs
         | RStr s \<Rightarrow> ((s, None), rs[i := RStr ''''])
         | RNet s e cl \<Rightarrow>
             if cl then (('''', Some ''http: invalid Read on closed Body''), rs)
             else ((s, e), rs[i := RNet '''' e False]))
      else (('''', None), rs))"
  by pat_completeness auto
termination
  by (relation "inv_image (less_than <*lex*> less_than <*lex*> less_than)
      (\<lambda>(i, js, rs). (i, case js of None \<Rightarrow> 1 | Some _ \<Rightarrow> 0, case js of None \<Rightarrow> 0 | Some l \<Rightarrow> length l))") auto

definition close_reader :: "nat \<Rightarrow> reader list \<Rightarrow> reader list" where
  "close_reader i rs =
     (if i < length rs then
        (case rs ! i of
           REof \<Rightarrow> rs
         | RBytes _ \<Rightarrow> rs[i := RBytes None]
         | RMulti _ \<Rightarrow> rs[i := RMulti None]
         | RStr s \<Rightarrow> rs
         | RNet s e _ \<Rightarrow> rs[i := RNet s e True])
      else rs)"

section \<open>Objects\<close>

text \<open>What the code reads of \<open>url.URL\<close>, \<open>http.Cookie\<close>, \<open>tls.ConnectionState\<close> and the messages.\<close>

record URL =
  u_Scheme :: string
  u_User :: "(string \<times> string option) option"
  u_Host :: string
  u_Path :: string
  u_RawQuery :: string
  u_Fragment :: string
  u_rest :: string

datatype samesite = SameSiteDefaultMode | SameSiteLaxMode | SameSiteStrictMode | SameSiteNoneMode | SameSiteUnset

record Cookie =
  c_Name :: string
  c_Value :: string
  c_Path :: string
  c_Domain :: string
  c_RawExpires :: string
  c_MaxAge :: int64
  c_SameSite :: samesite
  c_Secure :: bool
  c_HttpOnly :: bool
  c_Raw :: string
  c_Unparsed :: "string list"

record TLSState =
  t_Version :: nat
  t_CipherSuite :: nat
  t_NegotiatedProtocol :: string
  t_ServerName :: string

record HttpRequest =
  r_Method :: string
  r_Proto :: string
  r_ProtoMajor :: int64
  r_ProtoMinor :: int64
  r_Header :: nat
  r_URL :: nat
  r_Body :: nat
  r_RequestURI :: string
  r_Host :: string
  r_RemoteAddr :: string
  r_TLS :: "nat option"
  r_ContentLength :: int64
  r_TransferEncoding :: "string list"

record HttpResponse =
  s_Status :: string
  s_StatusCode :: int64
  s_Proto :: string
  s_Header :: nat
  s_Body :: nat
  s_ContentLength :: int64
  s_TransferEncoding :: "string list"
  s_Uncompressed :: bool
  s_Request :: "nat option"

text \<open>The objects of \<open>hpl\<close>; their fields that are pointers are numbers.\<close>

record ReadableStream =
  rs_Stream :: nat
  rs_cacheBuf :: string
  rs_hasCache :: bool
  rs_closed :: bool

record Body =
  bd_streamVal :: val
  bd_stream :: nat

record Request =
  rq_request :: nat
  rq_header :: val
  rq_url :: val
  rq_body :: val
  rq_tls :: val

record Response =
  rp_response :: nat
  rp_header :: val
  rp_request :: val
  rp_body :: val

record accesslog =
  al_l :: nat
  al_appendix :: val

datatype uobj =
    OHeader nat
  | OSearch slice
  | OStream ReadableStream
  | OBody Body
  | ORequest Request
  | OResponse Response
  | OUrl nat
  | OCookie nat
  | OTls nat
  | OParams nat
  | OLog accesslog
  | OStrList nat

text \<open>Iterators over pairs: a window on the search's array, a copy, or the strings of a log line.\<close>

datatype uiter_obj = ISearch slice nat | IPairs "(string \<times> string) list" nat | IStrs nat nat

text \<open>\<open>hw_closeErr\<close> is what \<open>Close\<close> of the body of a message answers (a Go library's).\<close>

record hworld =
  hw_readers :: "reader list"
  hw_headers :: "hdr list"
  hw_kv :: "(string \<times> string) mem"
  hw_urls :: "URL list"
  hw_cookies :: "Cookie list"
  hw_tls :: "TLSState list"
  hw_params :: "(string \<times> string) list option list"
  hw_requests :: "HttpRequest list"
  hw_responses :: "HttpResponse list"
  hw_logs :: "Log list"
  hw_objs :: "uobj list"
  hw_iters :: "uiter_obj list"
  hw_closeErr :: "nat \<Rightarrow> string option"

type_synonym hstore = "hworld store"

definition on_world :: "(hworld \<Rightarrow> hworld) \<Rightarrow> hstore \<Rightarrow> hstore" where
  "on_world f st = st\<lparr>st_world := f (st_world st)\<rparr>"

definition new_obj :: "uobj \<Rightarrow> hstore \<Rightarrow> val \<times> hstore" where
  "new_obj x st = (VUsr (length (hw_objs (st_world st))), on_world (hw_objs_update (\<lambda>xs. xs @ [x])) st)"

definition set_obj :: "nat \<Rightarrow> uobj \<Rightarrow> hstore \<Rightarrow> hstore" where
  "set_obj u x st = on_world (hw_objs_update (\<lambda>xs. xs[u := x])) st"

definition get_obj :: "hstore \<Rightarrow> nat \<Rightarrow> uobj res" where
  "get_obj st u = deref (hw_objs (st_world st)) u"

definition new_reader :: "reader \<Rightarrow> hstore \<Rightarrow> nat \<times> hstore" where
  "new_reader r st = (length (hw_readers (st_world st)), on_world (hw_readers_update (\<lambda>xs. xs @ [r])) st)"

definition new_header_map :: "hdr \<Rightarrow> hstore \<Rightarrow> nat \<times> hstore" where
  "new_header_map h st = (length (hw_headers (st_world st)), on_world (hw_headers_update (\<lambda>xs. xs @ [h])) st)"

definition new_uiter :: "uiter_obj \<Rightarrow> hstore \<Rightarrow> nat \<times> hstore" where
  "new_uiter i st = (length (hw_iters (st_world st)), on_world (hw_iters_update (\<lambda>xs. xs @ [i])) st)"

lemma on_world_simps [simp]:
  "st_world (on_world f st) = f (st_world st)" "st_mem (on_world f st) = st_mem st"
  "st_lists (on_world f st) = st_lists st" "st_maps (on_world f st) = st_maps st"
  "st_pairs (on_world f st) = st_pairs st" "st_iters (on_world f st) = st_iters st"
  "st_clos (on_world f st) = st_clos st"
  by (simp_all add: on_world_def)

text \<open>\<open>hpl/hpl.go\<close>: the identities, which the checks on values compare.\<close>

definition ReadableStreamTypeId :: string where "ReadableStreamTypeId = ''.readablestream''"
definition UrlTypeId :: string where "UrlTypeId = ''.url''"
definition UrlSearchTypeId :: string where "UrlSearchTypeId = ''.urlsearch''"
definition TLSConnStateTypeId :: string where "TLSConnStateTypeId = ''.tlsconnstate''"
definition AccessLogTypeId :: string where "AccessLogTypeId = ''.accesslog''"
definition HttpHeaderTypeId :: string where "HttpHeaderTypeId = ''http.header''"
definition HttpBodyTypeId :: string where "HttpBodyTypeId = ''http.body''"
definition HttpRequestTypeId :: string where "HttpRequestTypeId = ''http.request''"
definition HttpResponseTypeId :: string where "HttpResponseTypeId = ''http.response''"
definition HttpRouterParamsTypeId :: string where "HttpRouterParamsTypeId = ''http.router.params''"
definition HttpCookieTypeId :: string where "HttpCookieTypeId = ''http.cookie''"
definition StrListTypeId :: string where "StrListTypeId = ''.str_list''"

lemmas type_ids = ReadableStreamTypeId_def UrlTypeId_def UrlSearchTypeId_def TLSConnStateTypeId_def
  AccessLogTypeId_def HttpHeaderTypeId_def HttpBodyTypeId_def HttpRequestTypeId_def HttpResponseTypeId_def
  HttpRouterParamsTypeId_def HttpCookieTypeId_def StrListTypeId_def

text \<open>The method \<open>Id\<close> of each kind.\<close>

fun obj_Id :: "uobj \<Rightarrow> string" where
  "obj_Id (OHeader _) = HttpHeaderTypeId"
| "obj_Id (OSearch _) = UrlSearchTypeId"
| "obj_Id (OStream _) = ReadableStreamTypeId"
| "obj_Id (OBody _) = HttpBodyTypeId"
| "obj_Id (ORequest _) = HttpRequestTypeId"
| "obj_Id (OResponse _) = HttpResponseTypeId"
| "obj_Id (OUrl _) = UrlTypeId"
| "obj_Id (OCookie _) = HttpCookieTypeId"
| "obj_Id (OTls _) = TLSConnStateTypeId"
| "obj_Id (OParams _) = HttpRouterParamsTypeId"
| "obj_Id (OLog _) = AccessLogTypeId"
| "obj_Id (OStrList _) = StrListTypeId"

text \<open>
  \<open>v.Id() == id\<close>, as the \<open>ValIs...\<close> functions ask. A script value of another kind can have such
  an identity too (a closure's is its name); the assertion on the Go type that follows then gives
  a nil pointer, which \<open>as_obj\<close> gives back as \<open>None\<close>.
\<close>

definition has_id :: "hworld oenv \<Rightarrow> hstore \<Rightarrow> string \<Rightarrow> val \<Rightarrow> bool res" where
  "has_id env st i v = rbind (v_Id env st v) (\<lambda>s. Ok (s = i))"

definition as_obj :: "hstore \<Rightarrow> val \<Rightarrow> uobj option res" where
  "as_obj st v =
     (case v of VUsr u \<Rightarrow> rbind (get_obj st u) (\<lambda>x. Ok (Some x)) | _ \<Rightarrow> Panic ''must: must be user'')"

text \<open>Environments whose user values are these objects.\<close>

definition hpl_env :: "hworld oenv \<Rightarrow> bool" where
  "hpl_env env \<longleftrightarrow> (\<forall>u st. us_Id (oe_usr env u) st = rbind (get_obj st u) (\<lambda>x. Ok (obj_Id x)))"

definition plain_hpl_env :: "hworld oenv" where
  "plain_hpl_env =
     (plain_env [])\<lparr>oe_usr := \<lambda>u. plain_usr\<lparr>us_Id := \<lambda>st. rbind (get_obj st u) (\<lambda>x. Ok (obj_Id x))\<rparr>\<rparr>"

lemma plain_hpl_env [simp]: "hpl_env plain_hpl_env"
  by (simp add: hpl_env_def plain_hpl_env_def)

definition hworld_init :: hworld where
  "hworld_init =
     \<lparr>hw_readers = [], hw_headers = [], hw_kv = \<lparr>marr = (\<lambda>_. []), mnext = 1\<rparr>, hw_urls = [], hw_cookies = [],
      hw_tls = [], hw_params = [], hw_requests = [], hw_responses = [], hw_logs = [], hw_objs = [], hw_iters = [],
      hw_closeErr = (\<lambda>_. None)\<rparr>"

end
