(* ===== verification/HplStream.thy ===== *)
theory HplStream
  imports HplWorld
begin

text \<open>
  Readable streams and message bodies (\<open>hpl/readable_stream.go\<close>, \<open>hpl/body.go\<close>, \<open>hpl/stream.go\<close>).
  A stream is a reader with an optional cache of all its text; a body is a stream and the value
  that shows it to scripts. A body made from another value shares that value's reader.
\<close>

section \<open>Readable streams\<close>

definition set_stream :: "nat \<Rightarrow> ReadableStream \<Rightarrow> hstore \<Rightarrow> hstore" where
  "set_stream u h st = set_obj u (OStream h) st"

definition stream_of :: "hstore \<Rightarrow> nat \<Rightarrow> ReadableStream res" where
  "stream_of st u = rbind (get_obj st u) (\<lambda>x. case x of OStream h \<Rightarrow> Ok h | _ \<Rightarrow> Panic ''nil pointer'')"

definition ByteLength :: "ReadableStream \<Rightarrow> int" where
  "ByteLength h = (if rs_hasCache h then int (length (rs_cacheBuf h)) else - 1)"

definition ReadAll :: "nat \<Rightarrow> hstore \<Rightarrow> (string \<times> string option) \<times> hstore" where
  "ReadAll i st =
     (let (r, rs) = read_all i None (hw_readers (st_world st)) in (r, on_world (hw_readers_update (\<lambda>_. rs)) st))"

definition CloseReader :: "nat \<Rightarrow> hstore \<Rightarrow> hstore" where
  "CloseReader i st = on_world (hw_readers_update (close_reader i)) st"

text \<open>What \<open>Close\<close> of a reader answers: only the body of a message may answer an error.\<close>

definition close_error :: "nat \<Rightarrow> hstore \<Rightarrow> string option" where
  "close_error i st =
     (let rs = hw_readers (st_world st) in
      if i < length rs then (case rs ! i of RNet _ _ _ \<Rightarrow> hw_closeErr (st_world st) i | _ \<Rightarrow> None) else None)"

definition stream_Close :: "nat \<Rightarrow> hstore \<Rightarrow> unit res \<times> hstore" where
  "stream_Close u st =
     rlift (stream_of st u) st (\<lambda>h st.
       if rs_closed h then (Ok (), st)
       else
         let err = close_error (rs_Stream h) st;
             (e, st) = new_reader REof (CloseReader (rs_Stream h) st)
         in (case err of None \<Rightarrow> Ok () | Some x \<Rightarrow> Err x, set_stream u \<lparr>rs_Stream = e, rs_cacheBuf = '''', rs_hasCache = True, rs_closed = True\<rparr> st))"

text \<open>\<open>readAll\<close> closes behind itself, error or not, and what the closing answers is dropped.\<close>

definition stream_readAll :: "nat \<Rightarrow> hstore \<Rightarrow> string res \<times> hstore" where
  "stream_readAll u st =
     rlift (stream_of st u) st (\<lambda>h st.
       let ((b, err), st) = (if rs_hasCache h then ((rs_cacheBuf h, None), st) else ReadAll (rs_Stream h) st)
       in (case err of None \<Rightarrow> Ok b | Some e \<Rightarrow> Err e, snd (stream_Close u st)))"

definition ConsumeAsString :: "nat \<Rightarrow> hstore \<Rightarrow> string res \<times> hstore" where
  "ConsumeAsString u st = mbind (stream_readAll u st) (\<lambda>b st. (Ok b, st))"

definition CacheBuffer :: "nat \<Rightarrow> hstore \<Rightarrow> string res \<times> hstore" where
  "CacheBuffer u st =
     rlift (stream_of st u) st (\<lambda>h st.
       if rs_hasCache h then (Ok (rs_cacheBuf h), st)
       else
         let ((buf, err), st) = ReadAll (rs_Stream h) st
         in (case err of
               Some e \<Rightarrow> (Err e, st)
             | None \<Rightarrow>
                 let (r, st) = new_reader (RBytes (Some buf)) st
                 in (Ok buf, set_stream u (h\<lparr>rs_cacheBuf := buf, rs_hasCache := True, rs_Stream := r\<rparr>) st)))"

definition TryCacheBuffer :: "ReadableStream \<Rightarrow> string option" where
  "TryCacheBuffer h = (if rs_hasCache h then Some (rs_cacheBuf h) else None)"

definition SetStream :: "nat \<Rightarrow> nat \<Rightarrow> hstore \<Rightarrow> unit res \<times> hstore" where
  "SetStream u r st =
     rlift (stream_of st u) st (\<lambda>h st.
       (Ok (), set_stream u (h\<lparr>rs_cacheBuf := '''', rs_hasCache := False, rs_Stream := r\<rparr>) st))"

text \<open>\<open>SetBuffer\<close> and \<open>SetString\<close>: a text is its bytes here, so the two are one operation.\<close>

definition SetBuffer :: "nat \<Rightarrow> string \<Rightarrow> hstore \<Rightarrow> unit res \<times> hstore" where
  "SetBuffer u b st =
     rlift (stream_of st u) st (\<lambda>h st.
       let (r, st) = new_reader (RBytes (Some b)) st
       in (Ok (), set_stream u (h\<lparr>rs_cacheBuf := b, rs_hasCache := True, rs_Stream := r\<rparr>) st))"

definition NewReadableStreamFromString :: "string \<Rightarrow> hstore \<Rightarrow> val \<times> hstore" where
  "NewReadableStreamFromString b st =
     (let (r, st) = new_reader (RBytes (Some b)) st
      in new_obj (OStream \<lparr>rs_Stream = r, rs_cacheBuf = b, rs_hasCache = True, rs_closed = False\<rparr>) st)"

definition NewReadableStreamFromStream :: "nat \<Rightarrow> hstore \<Rightarrow> val \<times> hstore" where
  "NewReadableStreamFromStream r st =
     new_obj (OStream \<lparr>rs_Stream = r, rs_cacheBuf = '''', rs_hasCache = False, rs_closed = False\<rparr>) st"

definition stream_Index :: "nat \<Rightarrow> val \<Rightarrow> hstore \<Rightarrow> val res \<times> hstore" where
  "stream_Index u name st =
     (case name of
        VStr s \<Rightarrow>
          rlift (stream_of st u) st (\<lambda>h st.
            if s = ''hasCache'' then (Ok (VBool (rs_hasCache h)), st)
            else if s = ''close'' then (Ok (VBool (rs_closed h)), st)
            else if s = ''byteLength'' then
              (Ok (if 0 \<le> ByteLength h then VInt (word_of_int (ByteLength h)) else VNull), st)
            else (Err (''invalid index, unknown name '' @ s), st))
      | _ \<Rightarrow> (Err ''invalid index, .readablestream field name must be string'', st))"

definition stream_Dot :: "nat \<Rightarrow> string \<Rightarrow> hstore \<Rightarrow> val res \<times> hstore" where
  "stream_Dot u name st = stream_Index u (VStr name) st"

definition stream_IndexSet :: "val \<Rightarrow> val \<Rightarrow> hstore \<Rightarrow> unit res \<times> hstore" where
  "stream_IndexSet k v st = (Err ''.readablestream does not support index set'', st)"

definition stream_DotSet :: "string \<Rightarrow> val \<Rightarrow> hstore \<Rightarrow> unit res \<times> hstore" where
  "stream_DotSet k v st = (Err ''.readablestream does not support dot set'', st)"

definition stream_ToString :: "nat \<Rightarrow> hstore \<Rightarrow> string res \<times> hstore" where
  "stream_ToString u st = CacheBuffer u st"

definition stream_Method :: "hworld oenv \<Rightarrow> nat \<Rightarrow> string \<Rightarrow> val list \<Rightarrow> hstore \<Rightarrow> val res \<times> hstore" where
  "stream_Method env u name arg st =
     (if name = ''cacheString'' then
        rlift (check_args env st ''.readablestream.cacheString'' ''%0'' arg) st (\<lambda>_ st.
        mbind (CacheBuffer u st) (\<lambda>b st. (Ok (VStr b), st)))
      else if name = ''tryCacheString'' then
        rlift (check_args env st ''.readablestream.tryCacheString'' ''%0'' arg) st (\<lambda>_ st.
        rlift (stream_of st u) st (\<lambda>h st.
          (Ok (case TryCacheBuffer h of None \<Rightarrow> VNull | Some b \<Rightarrow> VStr b), st)))
      else if name = ''string'' then
        rlift (check_args env st ''.readablestream.string'' ''%0'' arg) st (\<lambda>_ st.
        mbind (ConsumeAsString u st) (\<lambda>s st. (Ok (VStr s), st)))
      else if name = ''close'' then
        rlift (check_args env st ''.readablestream.close'' ''%0'' arg) st (\<lambda>_ st.
        mbind (stream_Close u st) (\<lambda>_ st. (Ok VNull, st)))
      else (Err (''method: .readablestream:'' @ name @ '' is unknown''), st))"

definition stream_Info :: "ReadableStream \<Rightarrow> string" where
  "stream_Info h =
     (let b = (\<lambda>x. if x then ''true'' else ''false'')
      in ''.readablestream[cache='' @ b (rs_hasCache h) @ '';close='' @ b (rs_closed h) @ '']'')"

definition stream_NewIterator :: "hstore \<Rightarrow> nat res \<times> hstore" where
  "stream_NewIterator st = (Err ''.readablestream does not support iterator'', st)"

section \<open>Bodies\<close>

definition ValIsReadableStream :: "hworld oenv \<Rightarrow> hstore \<Rightarrow> val \<Rightarrow> bool res" where
  "ValIsReadableStream env st v = has_id env st ReadableStreamTypeId v"

definition ValIsHttpBody :: "hworld oenv \<Rightarrow> hstore \<Rightarrow> val \<Rightarrow> bool res" where
  "ValIsHttpBody env st v = has_id env st HttpBodyTypeId v"

definition body_of :: "hstore \<Rightarrow> nat \<Rightarrow> Body res" where
  "body_of st u = rbind (get_obj st u) (\<lambda>x. case x of OBody b \<Rightarrow> Ok b | _ \<Rightarrow> Panic ''nil pointer'')"

text \<open>The stream a value is, where the code asserts or uses it as one.\<close>

definition as_stream :: "hstore \<Rightarrow> val \<Rightarrow> (nat \<times> ReadableStream) res" where
  "as_stream st v =
     (case v of VUsr u \<Rightarrow> rbind (stream_of st u) (\<lambda>h. Ok (u, h)) | _ \<Rightarrow> Panic ''must: must be user'')"

definition as_body :: "hstore \<Rightarrow> val \<Rightarrow> (nat \<times> Body) res" where
  "as_body st v =
     (case v of VUsr u \<Rightarrow> rbind (body_of st u) (\<lambda>h. Ok (u, h)) | _ \<Rightarrow> Panic ''must: must be user'')"

definition newBodyValFromReadableStream :: "val \<Rightarrow> hstore \<Rightarrow> val res \<times> hstore" where
  "newBodyValFromReadableStream rsVal st =
     rlift (as_stream st rsVal) st (\<lambda>(u, _) st.
       let (v, st) = new_obj (OBody \<lparr>bd_streamVal = rsVal, bd_stream = u\<rparr>) st in (Ok v, st))"

definition NewBodyValFromStream :: "nat \<Rightarrow> hstore \<Rightarrow> val res \<times> hstore" where
  "NewBodyValFromStream raw st =
     (let (s, st) = NewReadableStreamFromStream raw st in newBodyValFromReadableStream s st)"

definition NewBodyValFromString :: "string \<Rightarrow> hstore \<Rightarrow> val res \<times> hstore" where
  "NewBodyValFromString data st =
     (let (s, st) = NewReadableStreamFromString data st in newBodyValFromReadableStream s st)"

definition NewBodyValFromVal :: "hworld oenv \<Rightarrow> val \<Rightarrow> hstore \<Rightarrow> val res \<times> hstore" where
  "NewBodyValFromVal env v st =
     (case v of
        VStr s \<Rightarrow> NewBodyValFromString s st
      | _ \<Rightarrow>
          rlift (ValIsReadableStream env st v) st (\<lambda>is_stream st.
            if is_stream then rlift (as_stream st v) st (\<lambda>(_, h) st. NewBodyValFromStream (rs_Stream h) st)
            else rlift (ValIsHttpBody env st v) st (\<lambda>is_body st.
              if is_body then
                rlift (as_body st v) st (\<lambda>(_, b) st.
                rlift (stream_of st (bd_stream b)) st (\<lambda>h st. NewBodyValFromStream (rs_Stream h) st))
              else rlift (v_Id env st v) st (\<lambda>i st. (Err (''cannot create http.body from type: '' @ i), st)))))"

definition body_Index :: "nat \<Rightarrow> val \<Rightarrow> hstore \<Rightarrow> val res \<times> hstore" where
  "body_Index u name st =
     (case name of
        VStr s \<Rightarrow>
          rlift (body_of st u) st (\<lambda>b st.
            if s = ''stream'' then (Ok (bd_streamVal b), st)
            else (Err (''http.body unknown field name '' @ s), st))
      | _ \<Rightarrow> (Err ''http.body invalid field index'', st))"

definition body_Dot :: "nat \<Rightarrow> string \<Rightarrow> hstore \<Rightarrow> val res \<times> hstore" where
  "body_Dot u name st = body_Index u (VStr name) st"

text \<open>The message of an unknown field formats the value, not its text (\<open>%s\<close> of a \<open>pl.Val\<close>).\<close>

definition body_IndexSet :: "hworld oenv \<Rightarrow> (val \<Rightarrow> string) \<Rightarrow> nat \<Rightarrow> val \<Rightarrow> val \<Rightarrow> hstore \<Rightarrow> unit res \<times> hstore" where
  "body_IndexSet env show_val u name v st =
     (case name of
        VStr s \<Rightarrow>
          if s = ''stream'' then
            rlift (ValIsReadableStream env st v) st (\<lambda>is_stream st.
              if is_stream then
                rlift (as_stream st v) st (\<lambda>(r, _) st.
                  (Ok (), set_obj u (OBody \<lparr>bd_streamVal = v, bd_stream = r\<rparr>) st))
              else (case v of
                VStr t \<Rightarrow>
                  (let (sv, st) = NewReadableStreamFromString t st
                   in rlift (as_stream st sv) st (\<lambda>(r, _) st.
                     (Ok (), set_obj u (OBody \<lparr>bd_streamVal = sv, bd_stream = r\<rparr>) st)))
              | _ \<Rightarrow> (Err ''http.body.stream assignment value type invalid'', st)))
          else (Err (''http.body component assign unknown field '' @ show_val name), st)
      | _ \<Rightarrow> (Err ''http.body invalid field index'', st))"

definition body_DotSet :: "hworld oenv \<Rightarrow> (val \<Rightarrow> string) \<Rightarrow> nat \<Rightarrow> string \<Rightarrow> val \<Rightarrow> hstore \<Rightarrow> unit res \<times> hstore" where
  "body_DotSet env show_val u name v st = body_IndexSet env show_val u (VStr name) v st"

definition body_Method :: "hworld oenv \<Rightarrow> nat \<Rightarrow> string \<Rightarrow> val list \<Rightarrow> hstore \<Rightarrow> val res \<times> hstore" where
  "body_Method env u name arg st =
     (if name = ''string'' then
        rlift (check_args env st ''http.body.string'' ''%0'' arg) st (\<lambda>_ st.
        rlift (body_of st u) st (\<lambda>b st.
        mbind (ConsumeAsString (bd_stream b) st) (\<lambda>s st. (Ok (VStr s), st))))
      else (Err (''http.body unknown method '' @ name), st))"

definition body_SetStream :: "nat \<Rightarrow> nat \<Rightarrow> hstore \<Rightarrow> unit res \<times> hstore" where
  "body_SetStream u r st = rlift (body_of st u) st (\<lambda>b st. SetStream (bd_stream b) r st)"

definition body_SetBuffer :: "nat \<Rightarrow> string \<Rightarrow> hstore \<Rightarrow> unit res \<times> hstore" where
  "body_SetBuffer u d st = rlift (body_of st u) st (\<lambda>b st. SetBuffer (bd_stream b) d st)"

section \<open>Reading\<close>

text \<open>What reading does to the readers: some of them are emptied, none is refilled.\<close>

definition emptied :: "reader \<Rightarrow> reader \<Rightarrow> bool" where
  "emptied a b \<longleftrightarrow> b = a \<or>
     (case a of
        RBytes (Some s) \<Rightarrow> b = RBytes (Some '''')
      | RStr s \<Rightarrow> b = RStr ''''
      | RNet s e cl \<Rightarrow> \<not> cl \<and> b = RNet '''' e False
      | _ \<Rightarrow> False)"

definition drains :: "reader list \<Rightarrow> reader list \<Rightarrow> bool" where
  "drains rs rs' \<longleftrightarrow> length rs' = length rs \<and> (\<forall>k<length rs. emptied (rs ! k) (rs' ! k))"

lemma drains_refl [simp]: "drains rs rs"
  by (simp add: drains_def emptied_def)

lemma emptied_trans: "emptied a b \<Longrightarrow> emptied b c \<Longrightarrow> emptied a c"
  by (auto simp: emptied_def split: reader.splits option.splits)

lemma drains_trans: "drains a b \<Longrightarrow> drains b c \<Longrightarrow> drains a c"
  by (auto simp: drains_def intro: emptied_trans)

lemma drains_update: "emptied (rs ! i) x \<Longrightarrow> drains rs (rs[i := x])"
  by (cases "i < length rs") (auto simp: drains_def nth_list_update emptied_def [of a a for a])

lemma read_all_drains: "read_all i js rs = (r, rs') \<Longrightarrow> drains rs rs'"
proof (induction i js rs arbitrary: r rs' rule: read_all.induct)
  case (2 i j js rs)
  show ?case
  proof (cases "j < i")
    case True
    obtain s e rs1 where r1: "read_all j None rs = ((s, e), rs1)" by (metis prod.exhaust)
    have d1: "drains rs rs1" using "2.IH"(1) [OF True r1] .
    show ?thesis
    proof (cases e)
      case None
      obtain t f rs2 where r2: "read_all i (Some js) rs1 = ((t, f), rs2)" by (metis prod.exhaust)
      have "drains rs1 rs2" using "2.IH"(2) [OF True r1 [symmetric] refl refl None r2] .
      then show ?thesis using "2.prems" True r1 r2 None d1 by (auto intro: drains_trans)
    next
      case Some
      then show ?thesis using "2.prems" True r1 d1 by simp
    qed
  qed (use "2.prems" in simp)
next
  case (3 i rs)
  then show ?case
    by (auto split: if_splits reader.splits option.splits intro!: drains_update simp: emptied_def)
qed auto

text \<open>Nothing left to read, and no error at the end.\<close>

function nothing_left :: "nat \<Rightarrow> nat list option \<Rightarrow> reader list \<Rightarrow> bool" where
  "nothing_left i (Some []) rs = True"
| "nothing_left i (Some (j # js)) rs = (j < i \<longrightarrow> nothing_left j None rs \<and> nothing_left i (Some js) rs)"
| "nothing_left i None rs =
     (i < length rs \<longrightarrow>
        (case rs ! i of
           RBytes (Some s) \<Rightarrow> s = ''''
         | RMulti (Some js) \<Rightarrow> nothing_left i (Some js) rs
         | RStr s \<Rightarrow> s = ''''
         | RNet s e cl \<Rightarrow> s = '''' \<and> e = None \<and> \<not> cl
         | _ \<Rightarrow> True))"
  by pat_completeness auto
termination
  by (relation "inv_image (less_than <*lex*> less_than <*lex*> less_than)
      (\<lambda>(i, js, rs). (i, case js of None \<Rightarrow> 1 | Some _ \<Rightarrow> 0, case js of None \<Rightarrow> 0 | Some l \<Rightarrow> length l))") auto

lemma nothing_left_drains: "nothing_left i js rs \<Longrightarrow> drains rs rs' \<Longrightarrow> nothing_left i js rs'"
proof (induction i js rs rule: nothing_left.induct)
  case (3 i rs)
  show ?case
  proof (cases "i < length rs")
    case True
    then have e: "emptied (rs ! i) (rs' ! i)" and l: "length rs' = length rs"
      using 3 by (auto simp: drains_def)
    then show ?thesis using 3 True by (auto simp: emptied_def split: reader.splits option.splits)
  qed (use 3 in \<open>auto simp: drains_def\<close>)
qed auto

lemma read_all_nothing_left: "nothing_left i js rs \<Longrightarrow> read_all i js rs = (('''', None), rs)"
  by (induction i js rs rule: read_all.induct)
    (auto split: reader.splits option.splits, (metis list_update_id)+)

lemma read_all_leaves_nothing: "read_all i js rs = ((s, None), rs') \<Longrightarrow> nothing_left i js rs'"
proof (induction i js rs arbitrary: s rs' rule: read_all.induct)
  case (2 i j js rs)
  show ?case
  proof (cases "j < i")
    case True
    obtain s1 e rs1 where r1: "read_all j None rs = ((s1, e), rs1)" by (metis prod.exhaust)
    with "2.prems" True have e: "e = None" by (cases e) auto
    obtain t f rs2 where r2: "read_all i (Some js) rs1 = ((t, f), rs2)" by (metis prod.exhaust)
    with "2.prems" True r1 e have f: "f = None" "rs' = rs2" by auto
    have "nothing_left j None rs1" using "2.IH"(1) [OF True] r1 e by simp
    then have "nothing_left j None rs2" using nothing_left_drains read_all_drains [OF r2] by blast
    moreover have "nothing_left i (Some js) rs2"
      using "2.IH"(2) [OF True r1 [symmetric] refl refl e] r2 f by simp
    ultimately show ?thesis using f by simp
  qed simp
next
  case (3 i rs)
  show ?case
  proof (cases "i < length rs \<and> (\<exists>js. rs ! i = RMulti (Some js))")
    case True
    then obtain js where i: "i < length rs" and m: "rs ! i = RMulti (Some js)" by blast
    with "3.prems" have r: "read_all i (Some js) rs = ((s, None), rs')" by simp
    then have "rs' ! i = RMulti (Some js)" using read_all_drains [OF r] i m by (auto simp: drains_def emptied_def)
    then show ?thesis using "3.IH" [OF i m refl r] by simp
  next
    case False
    with "3.prems" show ?thesis by (auto split: if_splits reader.splits option.splits)
  qed
qed auto

text \<open>A reader read to its end once has nothing left.\<close>

lemma ReadAll_twice:
  assumes "ReadAll i st = ((s, None), st')"
  shows "ReadAll i st' = (('''', None), st')"
proof -
  obtain rs where r: "read_all i None (hw_readers (st_world st)) = ((s, None), rs)"
    and st': "st' = on_world (hw_readers_update (\<lambda>_. rs)) st"
    using assms by (auto simp: ReadAll_def split: prod.splits)
  have "read_all i None rs = (('''', None), rs)"
    by (rule read_all_nothing_left [OF read_all_leaves_nothing [OF r]])
  then show ?thesis by (simp add: ReadAll_def st' on_world_def)
qed

section \<open>What a stream gives\<close>

lemma get_set_obj:
  "u < length (hw_objs (st_world st)) \<Longrightarrow>
   get_obj (set_obj u x st) k = (if k = u then Ok x else get_obj st k)"
  by (auto simp: get_obj_def set_obj_def deref_def)

lemma stream_of_iff: "stream_of st u = Ok h \<longleftrightarrow> get_obj st u = Ok (OStream h)"
proof (cases "get_obj st u")
  case (Ok x)
  then show ?thesis by (cases x) (simp_all add: stream_of_def)
qed (simp_all add: stream_of_def)

lemma body_of_iff: "body_of st u = Ok h \<longleftrightarrow> get_obj st u = Ok (OBody h)"
proof (cases "get_obj st u")
  case (Ok x)
  then show ?thesis by (cases x) (simp_all add: body_of_def)
qed (simp_all add: body_of_def)

lemma get_obj_bound: "get_obj st u = Ok x \<Longrightarrow> u < length (hw_objs (st_world st))"
  by (auto simp: get_obj_def deref_def split: if_splits)

lemma stream_bound: "stream_of st u = Ok h \<Longrightarrow> u < length (hw_objs (st_world st))"
  by (auto simp: stream_of_iff dest: get_obj_bound)

lemma stream_of_set_stream:
  "u < length (hw_objs (st_world st)) \<Longrightarrow>
   stream_of (set_stream u h st) k = (if k = u then Ok h else stream_of st k)"
  by (simp add: set_stream_def get_set_obj stream_of_def)

text \<open>Readers come and go without touching the objects.\<close>

lemma objs_frame:
  "hw_objs (st_world (CloseReader i st)) = hw_objs (st_world st)"
  "new_reader r st = (i, st') \<Longrightarrow> hw_objs (st_world st') = hw_objs (st_world st)"
  "ReadAll i st = (x, st') \<Longrightarrow> hw_objs (st_world st') = hw_objs (st_world st)"
  by (auto simp: CloseReader_def new_reader_def ReadAll_def split: prod.splits)

lemma get_obj_cong: "hw_objs (st_world st') = hw_objs (st_world st) \<Longrightarrow> get_obj st' u = get_obj st u"
  by (simp add: get_obj_def)

lemma stream_of_cong: "hw_objs (st_world st') = hw_objs (st_world st) \<Longrightarrow> stream_of st' u = stream_of st u"
  by (simp add: stream_of_def get_obj_def)

definition closed_stream :: "nat \<Rightarrow> ReadableStream" where
  "closed_stream e = \<lparr>rs_Stream = e, rs_cacheBuf = '''', rs_hasCache = True, rs_closed = True\<rparr>"

lemma stream_Close_open:
  assumes "stream_of st u = Ok h" and "\<not> rs_closed h"
  shows "\<exists>e. stream_of (snd (stream_Close u st)) u = Ok (closed_stream e)"
proof -
  obtain e st1 where n: "new_reader REof (CloseReader (rs_Stream h) st) = (e, st1)" by (metis prod.exhaust)
  have "hw_objs (st_world st1) = hw_objs (st_world st)"
    using objs_frame(2) [OF n] objs_frame(1) by simp
  then have s: "stream_of (set_stream u (closed_stream e) st1) u = Ok (closed_stream e)"
    using stream_bound [OF assms(1)] by (simp add: stream_of_set_stream)
  have "snd (stream_Close u st) = set_stream u (closed_stream e) st1"
    using assms n by (simp add: stream_Close_def closed_stream_def)
  with s show ?thesis by auto
qed

lemma stream_Close_closed: "stream_of st u = Ok h \<Longrightarrow> rs_closed h \<Longrightarrow> stream_Close u st = (Ok (), st)"
  by (simp add: stream_Close_def)

lemma ConsumeAsString_cached:
  assumes "stream_of st u = Ok h" and "rs_hasCache h"
  shows "fst (ConsumeAsString u st) = Ok (rs_cacheBuf h)"
    and "rs_closed h \<Longrightarrow> ConsumeAsString u st = (Ok (rs_cacheBuf h), st)"
  using assms by (simp_all add: ConsumeAsString_def stream_readAll_def stream_Close_closed)

lemma ConsumeAsString_closes:
  assumes "stream_of st u = Ok h" and "\<not> rs_closed h"
  shows "\<exists>e. stream_of (snd (ConsumeAsString u st)) u = Ok (closed_stream e)"
proof -
  obtain b err st1 where r: "(if rs_hasCache h then ((rs_cacheBuf h, None), st) else ReadAll (rs_Stream h) st) = ((b, err), st1)"
    by (metis prod.exhaust)
  have "stream_of st1 u = Ok h"
    using assms(1) r stream_of_cong [OF objs_frame(3)] by (cases "rs_hasCache h") auto
  from stream_Close_open [OF this assms(2)] have "\<exists>e. stream_of (snd (stream_Close u st1)) u = Ok (closed_stream e)" .
  then show ?thesis
    using assms(1) r by (cases err) (simp_all add: ConsumeAsString_def stream_readAll_def)
qed

text \<open>
  C28: a stream's text is given once. Reading an open stream as a string closes it, whatever the
  reader answers; from then on it reads as empty and stays as it is. But a stream stays closed for
  ever, so text that is set on it afterwards is given again and again.
\<close>

theorem stream_string_once:
  assumes "stream_of st u = Ok h" and "\<not> rs_closed h" and "ConsumeAsString u st = (r, st1)"
  shows "ConsumeAsString u st1 = (Ok '''', st1) \<and>
    (\<exists>st2. SetBuffer u b st1 = (Ok (), st2) \<and> ConsumeAsString u st2 = (Ok b, st2))"
proof -
  obtain e where e: "stream_of st1 u = Ok (closed_stream e)"
    using ConsumeAsString_closes [OF assms(1,2)] assms(3) by auto
  then have 1: "ConsumeAsString u st1 = (Ok '''', st1)"
    using ConsumeAsString_cached(2) [OF e] by (simp add: closed_stream_def)
  obtain i st2 where n: "new_reader (RBytes (Some b)) st1 = (i, st2)" by (metis prod.exhaust)
  let ?h = "(closed_stream e)\<lparr>rs_cacheBuf := b, rs_hasCache := True, rs_Stream := i\<rparr>"
  have "u < length (hw_objs (st_world st2))"
    using stream_bound [OF e] objs_frame(2) [OF n] by simp
  then have "stream_of (set_stream u ?h st2) u = Ok ?h" by (simp add: stream_of_set_stream)
  from ConsumeAsString_cached(2) [OF this] have "ConsumeAsString u (set_stream u ?h st2) = (Ok b, set_stream u ?h st2)"
    by (simp add: closed_stream_def)
  with 1 e n show ?thesis by (simp add: SetBuffer_def)
qed

lemma CacheBuffer_cached:
  "stream_of st u = Ok h \<Longrightarrow> rs_hasCache h \<Longrightarrow> CacheBuffer u st = (Ok (rs_cacheBuf h), st)"
  by (simp add: CacheBuffer_def)

lemma CacheBuffer_caches:
  assumes "CacheBuffer u st = (Ok s, st1)"
  shows "\<exists>h. stream_of st1 u = Ok h \<and> rs_hasCache h \<and> rs_cacheBuf h = s"
proof -
  obtain h where h: "stream_of st u = Ok h"
    using assms by (cases "stream_of st u") (simp_all add: CacheBuffer_def)
  show ?thesis
  proof (cases "rs_hasCache h")
    case True
    then show ?thesis using CacheBuffer_cached [OF h] h assms by auto
  next
    case False
    obtain b err st2 where r: "ReadAll (rs_Stream h) st = ((b, err), st2)" by (metis prod.exhaust)
    with assms h False have err: "err = None" by (cases err) (simp_all add: CacheBuffer_def)
    obtain i st3 where n: "new_reader (RBytes (Some b)) st2 = (i, st3)" by (metis prod.exhaust)
    have "u < length (hw_objs (st_world st3))"
      using stream_bound [OF h] objs_frame(2) [OF n] objs_frame(3) [OF r] by simp
    then show ?thesis
      using assms h False r n err by (auto simp: CacheBuffer_def stream_of_set_stream)
  qed
qed

text \<open>
  Caching a stream makes its text permanent: asked again it answers the same and changes nothing,
  and reading it as a string gives that text too.
\<close>

lemma cache_string_idempotent:
  assumes "CacheBuffer u st = (Ok s, st1)"
  shows "CacheBuffer u st1 = (Ok s, st1) \<and> fst (ConsumeAsString u st1) = Ok s"
  using CacheBuffer_caches [OF assms] CacheBuffer_cached ConsumeAsString_cached(1) by metis

section \<open>Bodies share their readers\<close>

lemma nothing_left_append:
  "i < length rs \<Longrightarrow> nothing_left i js rs \<Longrightarrow> nothing_left i js (rs @ xs)"
  by (induction i js rs rule: nothing_left.induct)
    (auto simp: nth_append split: reader.splits option.splits)

lemma ReadAll_nothing_left:
  "nothing_left i None (hw_readers (st_world st)) \<Longrightarrow> ReadAll i st = (('''', None), st)"
  by (drule read_all_nothing_left) (simp del: read_all.simps nothing_left.simps add: ReadAll_def on_world_def)

lemma ReadAll_readers:
  assumes "ReadAll i st = ((s, None), st')"
  shows "nothing_left i None (hw_readers (st_world st'))"
    and "length (hw_readers (st_world st')) = length (hw_readers (st_world st))"
proof -
  obtain rs where r: "read_all i None (hw_readers (st_world st)) = ((s, None), rs)"
    and st': "st' = on_world (hw_readers_update (\<lambda>_. rs)) st"
    using assms by (auto simp: ReadAll_def split: prod.splits)
  show "nothing_left i None (hw_readers (st_world st'))"
    using read_all_leaves_nothing [OF r] by (simp add: st')
  show "length (hw_readers (st_world st')) = length (hw_readers (st_world st))"
    using read_all_drains [OF r] by (simp add: st' drains_def)
qed

text \<open>Caching a stream that had no cache leaves its old reader with nothing.\<close>

lemma CacheBuffer_drains:
  assumes "stream_of st u = Ok h" and "\<not> rs_hasCache h" and "rs_Stream h < length (hw_readers (st_world st))"
    and "CacheBuffer u st = (Ok s, st')"
  shows "nothing_left (rs_Stream h) None (hw_readers (st_world st'))"
    and "\<forall>k. k \<noteq> u \<longrightarrow> get_obj st' k = get_obj st k"
proof -
  obtain b err st1 where r: "ReadAll (rs_Stream h) st = ((b, err), st1)" by (metis prod.exhaust)
  with assms have err: "err = None" by (cases err) (simp_all add: CacheBuffer_def)
  note d = ReadAll_readers [OF r [unfolded err]]
  obtain i st2 where n: "new_reader (RBytes (Some b)) st1 = (i, st2)" by (metis prod.exhaust)
  have o: "hw_objs (st_world st2) = hw_objs (st_world st)"
    using objs_frame(2) [OF n] objs_frame(3) [OF r] by simp
  have st': "st' = set_stream u (h\<lparr>rs_cacheBuf := b, rs_hasCache := True, rs_Stream := i\<rparr>) st2"
    using assms(1,2,4) r n err by (auto simp: CacheBuffer_def)
  have rd: "hw_readers (st_world st') = hw_readers (st_world st1) @ [RBytes (Some b)]"
    using n by (auto simp: st' set_stream_def set_obj_def new_reader_def)
  show "nothing_left (rs_Stream h) None (hw_readers (st_world st'))"
    unfolding rd by (rule nothing_left_append) (use d assms(3) in simp_all)
  show "\<forall>k. k \<noteq> u \<longrightarrow> get_obj st' k = get_obj st k"
    using o by (auto simp: st' set_stream_def set_obj_def get_obj_def deref_def)
qed

lemma NewBodyValFromStream_spec:
  "\<exists>st'. NewBodyValFromStream raw st = (Ok (VUsr (Suc (length (hw_objs (st_world st))))), st') \<and>
     st_world st' = (st_world st)\<lparr>hw_objs := hw_objs (st_world st) @
       [OStream \<lparr>rs_Stream = raw, rs_cacheBuf = '''', rs_hasCache = False, rs_closed = False\<rparr>,
        OBody \<lparr>bd_streamVal = VUsr (length (hw_objs (st_world st))), bd_stream = length (hw_objs (st_world st))\<rparr>]\<rparr>"
  by (simp add: NewBodyValFromStream_def NewReadableStreamFromStream_def new_obj_def
      newBodyValFromReadableStream_def as_stream_def stream_of_def get_obj_def deref_def nth_append)

text \<open>A body made from a body is a new object on the old one's reader.\<close>

lemma NewBodyValFromVal_body:
  assumes "hpl_env env" and "body_of st u = Ok b" and "stream_of st (bd_stream b) = Ok h"
  shows "NewBodyValFromVal env (VUsr u) st = NewBodyValFromStream (rs_Stream h) st"
  using assms assms(2) [unfolded body_of_iff]
  by (simp add: NewBodyValFromVal_def ValIsReadableStream_def ValIsHttpBody_def has_id_def hpl_env_def
      as_body_def type_ids)

text \<open>Reading a copy as a string closes the reader both share, after reading it to its end.\<close>

definition on_network :: "nat \<Rightarrow> hstore \<Rightarrow> bool" where
  "on_network i st \<longleftrightarrow> (\<exists>s e cl. hw_readers (st_world st) ! i = RNet s e cl)"

lemma drains_network:
  assumes "drains rs rs'" and "i < length rs"
  shows "(\<exists>s e cl. rs' ! i = RNet s e cl) = (\<exists>s e cl. rs ! i = RNet s e cl)"
proof -
  have "emptied (rs ! i) (rs' ! i)" using assms by (simp add: drains_def)
  then show ?thesis by (cases "rs ! i"; cases "rs' ! i") (auto simp: emptied_def split: option.splits)
qed

lemma read_closed:
  assumes "nothing_left i None rs" and "i < length rs"
  shows "fst (read_all i None (close_reader i rs @ xs)) =
    ('''', if \<exists>s e cl. rs ! i = RNet s e cl then Some ''http: invalid Read on closed Body'' else None)"
  using assms by (cases "rs ! i") (auto simp: close_reader_def nth_append)

lemma ReadAll_fst: "fst (ReadAll i st) = fst (read_all i None (hw_readers (st_world st)))"
  by (simp add: ReadAll_def del: read_all.simps split: prod.split)

lemma ConsumeAsString_drains:
  assumes "stream_of st u = Ok h" and "\<not> rs_hasCache h" and "\<not> rs_closed h"
    and "rs_Stream h < length (hw_readers (st_world st))" and "ConsumeAsString u st = (Ok s, st')"
  shows "fst (fst (ReadAll (rs_Stream h) st')) = '''' \<and> snd (fst (ReadAll (rs_Stream h) st')) =
      (if on_network (rs_Stream h) st then Some ''http: invalid Read on closed Body'' else None)"
    and "\<forall>k. k \<noteq> u \<longrightarrow> get_obj st' k = get_obj st k"
proof -
  let ?i = "rs_Stream h"
  obtain b err st1 where r: "ReadAll ?i st = ((b, err), st1)" by (metis prod.exhaust)
  have o1: "hw_objs (st_world st1) = hw_objs (st_world st)" using objs_frame(3) [OF r] .
  have err: "err = None" and st': "st' = snd (stream_Close u st1)"
    using assms(1,2,5) r by (cases err; simp add: ConsumeAsString_def stream_readAll_def)+
  note d = ReadAll_readers [OF r [unfolded err]]
  obtain e st2 where n: "new_reader REof (CloseReader ?i st1) = (e, st2)" by (metis prod.exhaust)
  have h1: "stream_of st1 u = Ok h" using assms(1) stream_of_cong [OF o1] by simp
  have c: "st' = set_stream u (closed_stream e) st2"
    unfolding st' using h1 assms(3) n by (simp add: stream_Close_def closed_stream_def)
  have rd: "hw_readers (st_world st') = close_reader ?i (hw_readers (st_world st1)) @ [REof]"
    using n by (auto simp: c set_stream_def set_obj_def new_reader_def CloseReader_def on_world_def)
  obtain rs where ra: "read_all ?i None (hw_readers (st_world st)) = ((b, err), rs)" and rs: "hw_readers (st_world st1) = rs"
    using r by (auto simp: ReadAll_def on_world_def simp del: read_all.simps split: prod.splits)
  have kind: "on_network ?i st1 = on_network ?i st"
    unfolding on_network_def rs by (rule drains_network [OF read_all_drains [OF ra] assms(4)])
  show "fst (fst (ReadAll ?i st')) = '''' \<and> snd (fst (ReadAll ?i st')) =
      (if on_network ?i st then Some ''http: invalid Read on closed Body'' else None)"
    using read_closed [OF d(1), of "[REof]"] assms(4) d(2) kind
    unfolding ReadAll_fst rd on_network_def by (simp del: read_all.simps)
  show "\<forall>k. k \<noteq> u \<longrightarrow> get_obj st' k = get_obj st k"
    using o1 objs_frame(2) [OF n] objs_frame(1)
    by (auto simp: c set_stream_def set_obj_def get_obj_def deref_def)
qed

text \<open>
  C29: a body made from another body whose text is not cached shares its reader. When the copy's text
  has been cached, the other body reads as empty; when the copy has been read with \<open>string()\<close>, which
  also closes the reader, reading the other is an error if the body came from the network and empty
  otherwise. Either way the text is lost to whoever holds the original.
\<close>

theorem body_copy_shares_reader:
  assumes "hpl_env env" and "body_of st u = Ok b" and "stream_of st (bd_stream b) = Ok h"
    and "\<not> rs_hasCache h" and "rs_Stream h < length (hw_readers (st_world st))"
    and "NewBodyValFromVal env (VUsr u) st = (Ok (VUsr w), st1)" and "body_of st1 w = Ok b'"
  shows "(\<forall>s st2. CacheBuffer (bd_stream b') st1 = (Ok s, st2) \<longrightarrow> fst (CacheBuffer (bd_stream b) st2) = Ok '''') \<and>
    (\<forall>s st2. ConsumeAsString (bd_stream b') st1 = (Ok s, st2) \<longrightarrow> fst (CacheBuffer (bd_stream b) st2) =
      (if on_network (rs_Stream h) st then Err ''http: invalid Read on closed Body'' else Ok ''''))"
proof -
  let ?n = "length (hw_objs (st_world st))"
  let ?h = "\<lparr>rs_Stream = rs_Stream h, rs_cacheBuf = '''', rs_hasCache = False, rs_closed = False\<rparr>"
  have w: "w = Suc ?n" and st1: "st_world st1 = (st_world st)\<lparr>hw_objs := hw_objs (st_world st) @
      [OStream ?h, OBody \<lparr>bd_streamVal = VUsr ?n, bd_stream = ?n\<rparr>]\<rparr>"
    using assms(6) NewBodyValFromStream_spec [of "rs_Stream h" st]
    by (auto simp: NewBodyValFromVal_body [OF assms(1-3)])
  have b': "bd_stream b' = ?n"
    using assms(7) by (auto simp: body_of_iff get_obj_def deref_def st1 w nth_append split: if_splits)
  have h: "stream_of st1 ?n = Ok ?h" by (simp add: stream_of_def get_obj_def deref_def st1 nth_append)
  have len: "rs_Stream ?h < length (hw_readers (st_world st1))" using assms(5) by (simp add: st1)
  have net: "on_network (rs_Stream ?h) st1 = on_network (rs_Stream h) st" by (simp add: on_network_def st1)
  have "bd_stream b < ?n" using stream_bound [OF assms(3)] .
  then have still: "stream_of st2 (bd_stream b) = Ok h" if "\<forall>k. k \<noteq> ?n \<longrightarrow> get_obj st2 k = get_obj st1 k" for st2
    using that assms(3) by (simp add: stream_of_iff) (simp add: get_obj_def deref_def st1 nth_append)
  have "fst (CacheBuffer (bd_stream b) st2) = Ok ''''" if "CacheBuffer ?n st1 = (Ok s, st2)" for s st2
  proof -
    note d = CacheBuffer_drains [OF h _ len that]
    show ?thesis using still [OF d(2)] d(1) assms(4) ReadAll_nothing_left [of "rs_Stream h" st2]
      by (simp add: CacheBuffer_def new_reader_def)
  qed
  moreover have "fst (CacheBuffer (bd_stream b) st2) =
      (if on_network (rs_Stream h) st then Err ''http: invalid Read on closed Body'' else Ok '''')"
    if "ConsumeAsString ?n st1 = (Ok s, st2)" for s st2
  proof -
    note d = ConsumeAsString_drains [OF h _ _ len that, unfolded net]
    show ?thesis using still [OF d(2)] d(1) assms(4)
      by (cases "ReadAll (rs_Stream h) st2"; cases "fst (ReadAll (rs_Stream h) st2)")
        (simp add: CacheBuffer_def new_reader_def)
  qed
  ultimately show ?thesis unfolding b' by blast
qed

text \<open>A body from the network, as a request has it: object 1, its stream object 0.\<close>

definition upload :: hstore where
  "upload = st_init (hworld_init\<lparr>hw_readers := [RNet ''abc'' None False],
     hw_objs := [OStream \<lparr>rs_Stream = 0, rs_cacheBuf = '''', rs_hasCache = False, rs_closed = False\<rparr>,
                 OBody \<lparr>bd_streamVal = VUsr 0, bd_stream = 0\<rparr>]\<rparr>)"

lemmas hpl_eval = get_obj_def deref_def set_obj_def set_stream_def stream_of_def body_of_def new_obj_def
  new_reader_def on_world_def ReadAll_def CacheBuffer_def

theorem body_copy_shares_reader_witness:
  "\<exists>st1 st2. NewBodyValFromVal plain_hpl_env (VUsr 1) upload = (Ok (VUsr 3), st1) \<and>
     CacheBuffer 2 st1 = (Ok ''abc'', st2) \<and> fst (CacheBuffer 0 st2) = Ok '''' \<and>
     fst (CacheBuffer 0 (snd (ConsumeAsString 2 st1))) = Err ''http: invalid Read on closed Body''"
proof -
  let ?h = "\<lparr>rs_Stream = 0, rs_cacheBuf = '''', rs_hasCache = False, rs_closed = False\<rparr>"
  have b: "body_of upload 1 = Ok \<lparr>bd_streamVal = VUsr 0, bd_stream = 0\<rparr>"
    and h: "stream_of upload (bd_stream \<lparr>bd_streamVal = VUsr 0, bd_stream = 0\<rparr>) = Ok ?h"
    by (simp_all add: upload_def st_init_def hworld_init_def hpl_eval)
  obtain st1 where s1: "NewBodyValFromVal plain_hpl_env (VUsr 1) upload = (Ok (VUsr 3), st1)"
    and w1: "st_world st1 = (st_world upload)\<lparr>hw_objs := hw_objs (st_world upload) @
      [OStream ?h, OBody \<lparr>bd_streamVal = VUsr 2, bd_stream = 2\<rparr>]\<rparr>"
    using NewBodyValFromVal_body [OF plain_hpl_env b h] NewBodyValFromStream_spec [of 0 upload]
    by (auto simp: upload_def st_init_def hworld_init_def)
  have b1: "body_of st1 3 = Ok \<lparr>bd_streamVal = VUsr 2, bd_stream = 2\<rparr>"
    by (simp add: hpl_eval w1) (simp add: upload_def st_init_def hworld_init_def)
  have h1: "stream_of st1 2 = Ok ?h"
    by (simp add: hpl_eval w1) (simp add: upload_def st_init_def hworld_init_def)
  have r1: "ReadAll 0 st1 = ((''abc'', None), on_world (hw_readers_update (\<lambda>_. [RNet '''' None False])) st1)"
    by (simp add: ReadAll_def w1) (simp add: upload_def st_init_def hworld_init_def)
  obtain st2 where s2: "CacheBuffer 2 st1 = (Ok ''abc'', st2)"
    by (simp add: CacheBuffer_def h1 r1 new_reader_def)
  obtain st3 where s3: "ConsumeAsString 2 st1 = (Ok ''abc'', st3)"
    by (simp add: ConsumeAsString_def stream_readAll_def h1 r1)
  have p: "\<not> rs_hasCache ?h" "rs_Stream ?h < length (hw_readers (st_world upload))"
    by (simp_all add: upload_def st_init_def hworld_init_def)
  have lost: "(\<forall>s st2. CacheBuffer 2 st1 = (Ok s, st2) \<longrightarrow> fst (CacheBuffer 0 st2) = Ok '''') \<and>
    (\<forall>s st2. ConsumeAsString 2 st1 = (Ok s, st2) \<longrightarrow> fst (CacheBuffer 0 st2) =
      (if on_network 0 upload then Err ''http: invalid Read on closed Body'' else Ok ''''))"
    using body_copy_shares_reader [OF plain_hpl_env b h p s1 b1] by simp
  have "hw_readers (st_world upload) ! 0 = RNet ''abc'' None False" by (simp add: upload_def st_init_def hworld_init_def)
  then have "on_network 0 upload" unfolding on_network_def by blast
  with lost s1 s2 s3 show ?thesis by simp
qed

theorem stream_string_once_witness:
  "\<exists>st1 st2. ConsumeAsString 0 upload = (Ok ''abc'', st1) \<and> ConsumeAsString 0 st1 = (Ok '''', st1) \<and>
     SetBuffer 0 ''again'' st1 = (Ok (), st2) \<and> ConsumeAsString 0 st2 = (Ok ''again'', st2)"
proof -
  have h: "stream_of upload 0 = Ok \<lparr>rs_Stream = 0, rs_cacheBuf = '''', rs_hasCache = False, rs_closed = False\<rparr>"
    by (simp add: upload_def st_init_def hworld_init_def hpl_eval)
  obtain st1 where s1: "ConsumeAsString 0 upload = (Ok ''abc'', st1)"
    by (simp add: upload_def st_init_def hworld_init_def hpl_eval ConsumeAsString_def stream_readAll_def
        stream_Close_def CloseReader_def close_reader_def close_error_def)
  from stream_string_once [OF h _ s1, of "''again''"] s1 show ?thesis by auto
qed

end
