(* ===== verification/HplHeader.thy ===== *)
theory HplHeader
  imports HplWorld
begin

text \<open>
  Header objects (\<open>hpl/header.go\<close>) and the walks over headers (\<open>hpl/util.go\<close>). A header object
  points to a header map that other objects may share; \<open>ho\<close> is the order in which the runtime
  walks a map.
\<close>

section \<open>Walks\<close>

definition get_header_map :: "hstore \<Rightarrow> nat \<Rightarrow> hdr res" where
  "get_header_map st h = deref (hw_headers (st_world st)) h"

definition set_header_map :: "nat \<Rightarrow> hdr \<Rightarrow> hstore \<Rightarrow> hstore" where
  "set_header_map h m st = on_world (hw_headers_update (\<lambda>xs. xs[h := m])) st"

definition header_of :: "hstore \<Rightarrow> nat \<Rightarrow> nat res" where
  "header_of st u = rbind (get_obj st u) (\<lambda>x. case x of OHeader h \<Rightarrow> Ok h | _ \<Rightarrow> Panic ''nil pointer'')"

text \<open>
  \<open>httpHeaderFilter\<close>: the callback is told the name, the values and the header and answers whether to
  go on. An entry the callback deletes before the walk reaches it is not produced any more.
\<close>

fun filter_loop ::
  "(string \<Rightarrow> bool) \<Rightarrow> (string \<Rightarrow> string list \<Rightarrow> hdr \<times> 'a \<Rightarrow> bool \<times> hdr \<times> 'a) \<Rightarrow> hdr \<Rightarrow> nat \<Rightarrow> hdr \<times> 'a
   \<Rightarrow> nat \<times> hdr \<times> 'a" where
  "filter_loop matches f [] cnt s = (cnt, s)"
| "filter_loop matches f ((key, val) # es) cnt s =
     (if map_of (fst s) key = None then filter_loop matches f es cnt s
      else if matches key then
        (let (go, s) = f key val s in if go then filter_loop matches f es (Suc cnt) s else (Suc cnt, s))
      else filter_loop matches f es cnt s)"

definition httpHeaderFilter ::
  "hworld oenv \<Rightarrow> (hdr \<Rightarrow> hdr) \<Rightarrow> val \<Rightarrow> (string \<Rightarrow> string list \<Rightarrow> hdr \<times> 'a \<Rightarrow> bool \<times> hdr \<times> 'a) \<Rightarrow> hdr \<times> 'a
   \<Rightarrow> nat \<times> hdr \<times> 'a" where
  "httpHeaderFilter env ho key_pattern f s =
     (case key_pattern of
        VStr k \<Rightarrow> filter_loop (\<lambda>key. ToMatcher k (str_map (oe_lower env) key) k) f (ho (fst s)) 0 s
      | VRegexp r \<Rightarrow> filter_loop (\<lambda>key. oe_match env r (str_map (oe_lower env) key)) f (ho (fst s)) 0 s
      | _ \<Rightarrow> (0, s))"

definition httpHeaderDelete :: "hworld oenv \<Rightarrow> (hdr \<Rightarrow> hdr) \<Rightarrow> val \<Rightarrow> hdr \<Rightarrow> nat \<times> hdr" where
  "httpHeaderDelete env ho key_pattern m =
     (let (n, m, _) = httpHeaderFilter env ho key_pattern (\<lambda>key _ (m, _). (True, hdr_Del m key, ())) (m, ())
      in (n, m))"

text \<open>
  \<open>foreachHeaderKV\<close>: the pairs of strings a value holds, and whether it is of a kind that may hold
  them; entries of other types are left out. For a header the pairs are visited, but the answer is
  still no.
\<close>

definition str_pair :: "val \<times> val \<Rightarrow> (string \<times> string) list" where
  "str_pair p = (case p of (VStr k, VStr v) \<Rightarrow> [(k, v)] | _ \<Rightarrow> [])"

definition val_str_pair :: "hstore \<Rightarrow> val \<Rightarrow> (string \<times> string) list" where
  "val_str_pair st v =
     (case v of VPair p \<Rightarrow> if p < length (st_pairs st) then str_pair (st_pairs st ! p) else [] | _ \<Rightarrow> [])"

definition foreachHeaderKV ::
  "hworld oenv \<Rightarrow> (hdr \<Rightarrow> hdr) \<Rightarrow> hstore \<Rightarrow> val \<Rightarrow> ((string \<times> string) list \<times> bool) res" where
  "foreachHeaderKV env ho st arg =
     (case arg of
        VList l \<Rightarrow>
          rbind (deref (st_lists st) l) (\<lambda>d. Ok (concat (map (val_str_pair st) (sl_abs (st_mem st) d)), True))
      | VPair _ \<Rightarrow> Ok (val_str_pair st arg, True)
      | VMap m \<Rightarrow>
          rbind (deref (st_maps st) m) (\<lambda>x.
            Ok (concat (map (\<lambda>(k, v). str_pair (VStr k, mv_val v)) (oe_order env (m_data x))), True))
      | _ \<Rightarrow>
          rbind (has_id env st HttpHeaderTypeId arg) (\<lambda>b.
            if b then
              (case arg of
                 VUsr u \<Rightarrow>
                   rbind (header_of st u) (\<lambda>h. rbind (get_header_map st h) (\<lambda>m.
                     Ok (concat (map (\<lambda>(k, vs). map (\<lambda>v. (k, v)) vs) (ho m)), False)))
               | _ \<Rightarrow> Panic ''must: must be user'')
            else Ok ([], False)))"

section \<open>Header objects\<close>

definition Header_Has :: "hdr \<Rightarrow> string \<Rightarrow> bool" where
  "Header_Has m key \<longleftrightarrow> map_of m key \<noteq> None"

definition Header_DeleteByFilter :: "hworld oenv \<Rightarrow> (hdr \<Rightarrow> hdr) \<Rightarrow> hdr \<Rightarrow> val \<Rightarrow> nat \<times> hdr" where
  "Header_DeleteByFilter env ho m key =
     (let (n, m, _) = httpHeaderFilter env ho key (\<lambda>key _ (m, _). (True, hdr_Del m key, ())) (m, ())
      in (n, m))"

definition Header_GetByFilter :: "hworld oenv \<Rightarrow> (hdr \<Rightarrow> hdr) \<Rightarrow> hdr \<Rightarrow> val \<Rightarrow> string \<Rightarrow> string" where
  "Header_GetByFilter env ho m key d =
     (let (_, _, b) = httpHeaderFilter env ho key (\<lambda>_ val (m, b). (True, m, b @ val)) (m, []) in str_join d b)"

definition Header_Get :: "hdr \<Rightarrow> string \<Rightarrow> string \<Rightarrow> string" where
  "Header_Get m key d = str_join d (hdr_Values m key)"

definition Header_Length :: "hdr \<Rightarrow> nat" where
  "Header_Length m = sum_list (map (\<lambda>(_, x). length x) m)"

text \<open>An operation that reads, and one that changes, the map a header object points to.\<close>

definition read_header :: "nat \<Rightarrow> hstore \<Rightarrow> (hdr \<Rightarrow> 'a) \<Rightarrow> 'a res" where
  "read_header u st f = rbind (header_of st u) (\<lambda>h. rbind (get_header_map st h) (\<lambda>m. Ok (f m)))"

definition change_header :: "nat \<Rightarrow> (hdr \<Rightarrow> 'a \<times> hdr) \<Rightarrow> hstore \<Rightarrow> 'a res \<times> hstore" where
  "change_header u f st =
     rlift (header_of st u) st (\<lambda>h st. rlift (get_header_map st h) st (\<lambda>m st.
       let (a, m) = f m in (Ok a, set_header_map h m st)))"

definition Header_Index :: "nat \<Rightarrow> val \<Rightarrow> hstore \<Rightarrow> val res \<times> hstore" where
  "Header_Index u key st =
     (case key of
        VStr k \<Rightarrow> (read_header u st (\<lambda>m. VStr (hdr_Get m k)), st)
      | _ \<Rightarrow> (Err ''invalid index for http.header'', st))"

definition Header_Dot :: "nat \<Rightarrow> string \<Rightarrow> hstore \<Rightarrow> val res \<times> hstore" where
  "Header_Dot u key st = Header_Index u (VStr key) st"

definition Header_DotSet :: "hworld oenv \<Rightarrow> nat \<Rightarrow> string \<Rightarrow> val \<Rightarrow> hstore \<Rightarrow> unit res \<times> hstore" where
  "Header_DotSet env u key v st =
     (case v_ToString env st v of
        Ok s \<Rightarrow> change_header u (\<lambda>m. ((), hdr_Set m key s)) st
      | Err e \<Rightarrow> (Err (''http.header value cannot be converted to string: '' @ e), st)
      | Panic p \<Rightarrow> (Panic p, st)
      | Diverge \<Rightarrow> (Diverge, st))"

definition Header_IndexSet :: "hworld oenv \<Rightarrow> nat \<Rightarrow> val \<Rightarrow> val \<Rightarrow> hstore \<Rightarrow> unit res \<times> hstore" where
  "Header_IndexSet env u key v st =
     (case key of
        VStr k \<Rightarrow> Header_DotSet env u k v st
      | _ \<Rightarrow> (Err ''invalid index type for http.header'', st))"

definition Header_ToString :: "(hdr \<Rightarrow> hdr) \<Rightarrow> nat \<Rightarrow> hstore \<Rightarrow> string res" where
  "Header_ToString ho u st =
     read_header u st (\<lambda>m. concat (map (\<lambda>(k, v). k @ '' => ['' @ str_join '' '' v @ '']'' @ [char_of (10::nat)]) (ho m)))"

definition Header_Method ::
  "hworld oenv \<Rightarrow> (hdr \<Rightarrow> hdr) \<Rightarrow> nat \<Rightarrow> string \<Rightarrow> val list \<Rightarrow> hstore \<Rightarrow> val res \<times> hstore" where
  "Header_Method env ho u name arg st =
     (if name = ''has'' then
        rlift (check_args env st ''http.header.has'' ''%s'' arg) st (\<lambda>_ st.
        rlift (v_String (arg ! 0)) st (\<lambda>k st. (read_header u st (\<lambda>m. VBool (Header_Has m k)), st)))
      else if name = ''getFirst'' then
        rlift (check_args env st ''http.header.getFirst'' ''%s'' arg) st (\<lambda>_ st.
        rlift (v_String (arg ! 0)) st (\<lambda>k st. (read_header u st (\<lambda>m. VStr (hdr_Get m k)), st)))
      else if name = ''get'' then
        rlift (check_args env st ''http.header.get'' ''%s%s'' arg) st (\<lambda>_ st.
        rlift (v_String (arg ! 0)) st (\<lambda>k st. rlift (v_String (arg ! 1)) st (\<lambda>d st.
          (read_header u st (\<lambda>m. VStr (Header_Get m k d)), st))))
      else if name = ''getByFilter'' then
        rlift (check_args env st ''http.header.getByFilter'' ''%s(%s|%r)'' arg) st (\<lambda>_ st.
        rlift (v_String (arg ! 1)) st (\<lambda>d st.
          (read_header u st (\<lambda>m. VStr (Header_GetByFilter env ho m (arg ! 0) d)), st)))
      else if name = ''delete'' then
        rlift (check_args env st ''http.header.delete'' ''%s'' arg) st (\<lambda>_ st.
        rlift (v_String (arg ! 0)) st (\<lambda>k st. change_header u (\<lambda>m. (VNull, hdr_Del m k)) st))
      else if name = ''deleteByFilter'' then
        rlift (check_args env st ''http.header.deleteByFilter'' ''(%s|%r)'' arg) st (\<lambda>_ st.
          change_header u (\<lambda>m. let (n, m) = Header_DeleteByFilter env ho m (arg ! 0) in (VInt (i64_of_nat n), m)) st)
      else if name = ''set'' then
        rlift (check_args env st ''http.header.set'' ''%s%s'' arg) st (\<lambda>_ st.
        rlift (v_String (arg ! 0)) st (\<lambda>k st. rlift (v_String (arg ! 1)) st (\<lambda>d st.
          change_header u (\<lambda>m. (VNull, hdr_Set m k d)) st)))
      else if name = ''add'' then
        rlift (check_args env st ''http.header.add'' ''%s%s'' arg) st (\<lambda>_ st.
        rlift (v_String (arg ! 0)) st (\<lambda>k st. rlift (v_String (arg ! 1)) st (\<lambda>d st.
          change_header u (\<lambda>m. (VNull, hdr_Add m k d)) st)))
      else if name = ''length'' then
        rlift (check_args env st ''http.header.length'' ''%0'' arg) st (\<lambda>_ st.
          (read_header u st (\<lambda>m. VInt (i64_of_nat (Header_Length m))), st))
      else (Err (''method: http.header:'' @ name @ '' is unknown''), st))"

section \<open>Iterators over pairs that were copied\<close>

text \<open>\<open>headeriter\<close> (and \<open>routerpariter\<close>, which is the same code): a list of pairs and a cursor.\<close>

definition newheaderiter :: "(hdr \<Rightarrow> hdr) \<Rightarrow> hdr \<Rightarrow> uiter_obj" where
  "newheaderiter ho m = IPairs (concat (map (\<lambda>(k, vs). map (\<lambda>v. (k, v)) vs) (ho m))) 0"

definition pairs_Has :: "(string \<times> string) list \<Rightarrow> nat \<Rightarrow> bool" where
  "pairs_Has kv cursor \<longleftrightarrow> cursor < length kv"

definition pairs_Next :: "(string \<times> string) list \<Rightarrow> nat \<Rightarrow> bool \<times> uiter_obj" where
  "pairs_Next kv cursor = (pairs_Has kv (Suc cursor), IPairs kv (Suc cursor))"

definition pairs_Deref :: "(string \<times> string) list \<Rightarrow> nat \<Rightarrow> (val \<times> val) res" where
  "pairs_Deref kv cursor =
     (if pairs_Has kv cursor then Ok (VStr (fst (kv ! cursor)), VStr (snd (kv ! cursor)))
      else Err ''iterator out of bound'')"

definition Header_NewIterator :: "(hdr \<Rightarrow> hdr) \<Rightarrow> nat \<Rightarrow> hstore \<Rightarrow> nat res \<times> hstore" where
  "Header_NewIterator ho u st =
     rlift (read_header u st (newheaderiter ho)) st (\<lambda>it st. let (i, st) = new_uiter it st in (Ok i, st))"

section \<open>Making headers\<close>

definition NewHeaderVal :: "nat \<Rightarrow> hstore \<Rightarrow> val \<times> hstore" where
  "NewHeaderVal header st = new_obj (OHeader header) st"

text \<open>
  A header is shared, anything else is copied. The message of a value of the wrong kind has an
  argument that its format does not use, which \<open>fmt\<close> appends.
\<close>

definition NewHeaderValFromVal ::
  "hworld oenv \<Rightarrow> (hdr \<Rightarrow> hdr) \<Rightarrow> val \<Rightarrow> hstore \<Rightarrow> val res \<times> hstore" where
  "NewHeaderValFromVal env ho v st =
     rlift (has_id env st HttpHeaderTypeId v) st (\<lambda>is_header st.
       if is_header then
         (case v of
            VUsr u \<Rightarrow> rlift (header_of st u) st (\<lambda>h st. let (x, st) = NewHeaderVal h st in (Ok x, st))
          | _ \<Rightarrow> (Panic ''must: must be user'', st))
       else
         rlift (foreachHeaderKV env ho st v) st (\<lambda>(kvs, ok) st.
           if ok then
             (let (h, st) = new_header_map (fold (\<lambda>(k, v) m. hdr_Add m k v) kvs []) st; (x, st) = NewHeaderVal h st
              in (Ok x, st))
           else
             rlift (v_Id env st v) st (\<lambda>i st.
               (Err (''unknown value type to initialize http.header%!(EXTRA string='' @ i @ '')''), st))))"

section \<open>What the names mean\<close>

text \<open>A header the code builds: every name in canonical form, none twice.\<close>

definition hdr_ok :: "hdr \<Rightarrow> bool" where
  "hdr_ok m \<longleftrightarrow> distinct (map fst m) \<and> (\<forall>k\<in>set (map fst m). CanonicalHeaderKey k = k)"

lemma validHeaderFieldByte_case [simp]:
  assumes "validHeaderFieldByte c"
  shows "validHeaderFieldByte (upper_char c)" and "validHeaderFieldByte (lower_char c)"
proof -
  obtain n :: nat where n: "n < 256" "c = char_of n" "of_char c = n"
    using of_char_mod_256 [of c, where ?'a = nat] by (metis char_of_char mod_less_divisor zero_less_numeral)
  have "alnum_char (char_of (n - 32))" if "97 \<le> n" "n \<le> 122"
    using that n(1) by (auto simp: alnum_char_def Let_def)
  then show "validHeaderFieldByte (upper_char c)"
    using assms by (auto simp: upper_char_def Let_def n(3) validHeaderFieldByte_def [of "char_of (n - 32)"])
  have "alnum_char (char_of (n + 32))" if "65 \<le> n" "n \<le> 90"
    using that n(1) by (auto simp: alnum_char_def Let_def)
  then show "validHeaderFieldByte (lower_char c)"
    using assms by (auto simp: lower_char_def Let_def n(3) validHeaderFieldByte_def [of "char_of (n + 32)"])
qed

lemma canonical_valid: "list_all validHeaderFieldByte s \<Longrightarrow> list_all validHeaderFieldByte (canonical up s)"
  by (induction s arbitrary: up) auto

lemma CanonicalHeaderKey_idem [simp]: "CanonicalHeaderKey (CanonicalHeaderKey k) = CanonicalHeaderKey k"
  by (simp add: CanonicalHeaderKey_def canonical_valid)

lemma update_names: "set (map fst (AList.update k v m)) = insert k (set (map fst m))"
  by (simp add: dom_map_of_conv_image_fst [symmetric] update_conv')

lemma hdr_ok_Set: "hdr_ok m \<Longrightarrow> hdr_ok (hdr_Set m k v)" "hdr_ok m \<Longrightarrow> hdr_ok (hdr_Add m k v)"
  unfolding hdr_ok_def hdr_Set_def hdr_Add_def update_names by (auto intro: distinct_update)

lemma hdr_ok_Del: "hdr_ok m \<Longrightarrow> hdr_ok (hdr_Del m k)"
  unfolding hdr_ok_def hdr_Del_def by (auto simp: AList.delete_eq distinct_map_filter)

text \<open>
  reading and testing a header do not agree on names. A value set under a name is read back
  under every spelling of that name, but \<open>has\<close> compares with the map's key: on a header built by
  the code it says yes only for the canonical spelling, even for a name that was just set.
\<close>

theorem header_has_is_case_sensitive:
  assumes "hdr_ok m" and "CanonicalHeaderKey k' = CanonicalHeaderKey k"
  shows "hdr_ok (hdr_Set m k v) \<and> hdr_Get (hdr_Set m k v) k' = v \<and>
    (Header_Has (hdr_Set m k v) k' \<longleftrightarrow> k' = CanonicalHeaderKey k')"
proof -
  have ok: "hdr_ok (hdr_Set m k v)" by (rule hdr_ok_Set [OF assms(1)])
  have g: "map_of (hdr_Set m k v) (CanonicalHeaderKey k') = Some [v]"
    by (simp add: hdr_Set_def assms(2) update_conv')
  then have "Header_Has (hdr_Set m k v) k' \<longleftrightarrow> k' = CanonicalHeaderKey k'"
    using ok by (fastforce simp: Header_Has_def hdr_ok_def dest: map_of_SomeD)
  with ok g show ?thesis by (simp add: hdr_Get_def hdr_Values_def)
qed

theorem header_has_is_case_sensitive_witness:
  "hdr_ok (hdr_Set [] ''x-foo'' ''1'') \<and> hdr_Get (hdr_Set [] ''x-foo'' ''1'') ''X-FOO'' = ''1'' \<and>
   \<not> Header_Has (hdr_Set [] ''x-foo'' ''1'') ''x-foo''"
  using header_has_is_case_sensitive [of "[]" "''X-FOO''" "''x-foo''" "''1''"]
    header_has_is_case_sensitive [of "[]" "''x-foo''" "''x-foo''" "''1''"]
  by (simp add: hdr_ok_def) code_simp

lemma filter_loop_no_match:
  "\<forall>(key, val) \<in> set es. \<not> matches key \<Longrightarrow> filter_loop matches f es cnt s = (cnt, s)"
  by (induction es) auto

text \<open>
  a pattern with a star in it selects nothing. The matcher of a prefix or suffix pattern is
  handed the pattern with its star, and takes the two the wrong way round, so on a header whose
  names have no star (they may not be the single star, which selects everything) deleting by such a
  pattern deletes nothing and reading by it gives the empty text.
\<close>

theorem wildcard_filters_nothing:
  assumes "p \<noteq> ''*''" and "CHR ''*'' \<in> set p" and "set (ho m) = set m"
    and "\<forall>(k, vs) \<in> set m. CHR ''*'' \<notin> set (str_map (oe_lower env) k)"
  shows "Header_DeleteByFilter env ho m (VStr p) = (0, m) \<and> Header_GetByFilter env ho m (VStr p) d = ''''"
proof -
  have "\<forall>(k, vs) \<in> set (ho m). \<not> ToMatcher p (str_map (oe_lower env) k) p"
    using assms(3,4) matcher_wildcard [OF assms(1,2)] by fastforce
  then show ?thesis
    by (simp add: Header_DeleteByFilter_def Header_GetByFilter_def httpHeaderFilter_def filter_loop_no_match)
qed

theorem wildcard_filters_nothing_witness:
  "Header_DeleteByFilter plain_hpl_env (\<lambda>m. m) [(''X-Foo'', [''1'']), (''X-Bar'', [''2''])] (VStr ''x-*'') =
     (0, [(''X-Foo'', [''1'']), (''X-Bar'', [''2''])])"
proof -
  have "\<forall>(k, vs) \<in> set [(''X-Foo'', [''1'']), (''X-Bar'', [''2''])].
      CHR ''*'' \<notin> set (str_map (oe_lower plain_hpl_env) k)"
    unfolding plain_hpl_env_def plain_env_def by code_simp
  from wildcard_filters_nothing [of "''x-*''" "\<lambda>m. m", OF _ _ _ this, of "''''"] show ?thesis by simp
qed

end
