(* ===== verification/HttpWriter.thy ===== *)
theory HttpWriter
  imports HplStream HplHeader
begin

text \<open>
  The response writer of the virtual host (\<open>http/vhost/response_writer.go\<close>): status, header and body
  are values until they are flushed, first the header and then the body, each at most once. The
  connection underneath is a record of what was written to it.
\<close>

section \<open>The connection\<close>

text \<open>
  What \<open>net/http\<close> is told: a status line with a header, and the text of a body. A body that is
  written first sends the status 200 with the header so far by itself.
\<close>

datatype wire = WHeader int64 hdr | WBody string

record writer =
  w_status :: int64
  w_header :: nat
  w_body :: "nat option"
  w_headerDone :: bool
  w_bodyDone :: bool
  w_bodyError :: "string option"
  w_headerVal :: val
  w_bodyVal :: val
  w_netHeader :: hdr
  w_wire :: "wire list"

record wst =
  ws_w :: writer
  ws_st :: hstore

definition valid_code :: "int64 \<Rightarrow> bool" where
  "valid_code c \<longleftrightarrow> 100 \<le> sint c \<and> sint c \<le> 999"

text \<open>\<open>WriteHeader\<close> panics on a code that does not have three digits, and ignores a second call.\<close>

definition net_WriteHeader :: "int64 \<Rightarrow> 'a wst_scheme \<Rightarrow> unit res \<times> 'a wst_scheme" where
  "net_WriteHeader code s =
     (if \<not> valid_code code then (Panic ''invalid WriteHeader code'', s)
      else if w_wire (ws_w s) \<noteq> [] then (Ok (), s)
      else (Ok (), s\<lparr>ws_w := (ws_w s)\<lparr>w_wire := [WHeader code (w_netHeader (ws_w s))]\<rparr>\<rparr>))"

definition net_Write :: "string \<Rightarrow> 'a wst_scheme \<Rightarrow> 'a wst_scheme" where
  "net_Write b s =
     (let w = ws_w s; h = (if w_wire w = [] then [WHeader 200 (w_netHeader w)] else w_wire w)
      in s\<lparr>ws_w := w\<lparr>w_wire := h @ [WBody b]\<rparr>\<rparr>)"

section \<open>Operations\<close>

definition on_st :: "('b \<times> hstore) \<Rightarrow> 'a wst_scheme \<Rightarrow> 'b \<times> 'a wst_scheme" where
  "on_st r s = (fst r, s\<lparr>ws_st := snd r\<rparr>)"

definition upd_w :: "(writer \<Rightarrow> writer) \<Rightarrow> 'a wst_scheme \<Rightarrow> 'a wst_scheme" where
  "upd_w f s = s\<lparr>ws_w := f (ws_w s)\<rparr>"

definition newResponseWriterWrapper :: "hstore \<Rightarrow> (writer \<times> hstore) res" where
  "newResponseWriterWrapper st =
     (let (h, st) = new_header_map [] st; (b, st) = new_reader REof st; (hv, st) = NewHeaderVal h st
      in case NewBodyValFromStream b st of
           (Ok bv, st) \<Rightarrow>
             Ok (\<lparr>w_status = 200, w_header = h, w_body = Some b, w_headerDone = False, w_bodyDone = False,
                  w_bodyError = None, w_headerVal = hv, w_bodyVal = bv, w_netHeader = [], w_wire = []\<rparr>, st)
         | (Err e, _) \<Rightarrow> Err e
         | (Panic p, _) \<Rightarrow> Panic p
         | (Diverge, _) \<Rightarrow> Diverge)"

text \<open>\<open>hpl.NewReadCloserFromString\<close>.\<close>

definition string_reader :: "string \<Rightarrow> 'a wst_scheme \<Rightarrow> nat \<times> 'a wst_scheme" where
  "string_reader b s = on_st (new_reader (RBytes (Some b)) (ws_st s)) s"

definition IsFlushed :: "'a wst_scheme \<Rightarrow> bool" where
  "IsFlushed s = w_bodyDone (ws_w s)"

definition IsHeaderFlushed :: "'a wst_scheme \<Rightarrow> bool" where
  "IsHeaderFlushed s = w_headerDone (ws_w s)"

definition SetReply :: "int64 \<Rightarrow> string \<Rightarrow> 'a wst_scheme \<Rightarrow> bool \<times> 'a wst_scheme" where
  "SetReply status body s =
     (if \<not> IsHeaderFlushed s \<and> \<not> IsFlushed s then
        (let (r, s) = string_reader body s in (True, upd_w (\<lambda>w. w\<lparr>w_status := status, w_body := Some r\<rparr>) s))
      else (False, s))"

definition SetHeader :: "nat \<Rightarrow> 'a wst_scheme \<Rightarrow> 'a wst_scheme" where
  "SetHeader h s =
     (if w_headerDone (ws_w s) then s
      else (let (v, s) = on_st (NewHeaderVal h (ws_st s)) s
            in upd_w (\<lambda>w. w\<lparr>w_header := h, w_headerVal := v\<rparr>) s))"

definition WriteStatus :: "int64 \<Rightarrow> 'a wst_scheme \<Rightarrow> 'a wst_scheme" where
  "WriteStatus status s =
     (if w_headerDone (ws_w s) then s else upd_w (\<lambda>w. w\<lparr>w_status := status\<rparr>) s)"

text \<open>The header's entries replace those of the connection, in whatever order.\<close>

definition FlushHeader :: "'a wst_scheme \<Rightarrow> bool res \<times> 'a wst_scheme" where
  "FlushHeader s =
     (if w_headerDone (ws_w s) then (Ok False, s)
      else
        let s = upd_w (\<lambda>w. w\<lparr>w_headerDone := True\<rparr>) s
        in rlift (get_header_map (ws_st s) (w_header (ws_w s))) s (\<lambda>m s.
             let s = upd_w (\<lambda>w. w\<lparr>w_netHeader := fold (\<lambda>(k, v) n. AList.update k v n) m (w_netHeader w)\<rparr>) s
             in mbind (net_WriteHeader (w_status (ws_w s)) s) (\<lambda>_ s. (Ok True, s))))"

definition WriteBody :: "nat \<Rightarrow> 'a wst_scheme \<Rightarrow> 'a wst_scheme" where
  "WriteBody x s = (if w_bodyDone (ws_w s) then s else upd_w (\<lambda>w. w\<lparr>w_body := Some x\<rparr>) s)"

text \<open>
  \<open>io.Copy\<close>: nothing is written when there is nothing to read; \<open>net\<close> is the connection's error. The code
  writes in chunks as it reads; one \<open>WBody\<close> stands for all the chunks of a body together. When the
  connection fails the rest of the text does not go out, so \<open>WBody\<close> is the text that was to be written,
  of which the client may have got only the beginning (\<open>w_bodyError\<close> is set then).
\<close>

definition copy_body :: "(string \<Rightarrow> string option) \<Rightarrow> nat \<Rightarrow> 'a wst_scheme \<Rightarrow> 'a wst_scheme" where
  "copy_body net r s =
     (let ((b, err), s) = on_st (ReadAll r (ws_st s)) s
      in if b = '''' then upd_w (\<lambda>w. w\<lparr>w_bodyError := err\<rparr>) s
         else upd_w (\<lambda>w. w\<lparr>w_bodyError := (case net b of None \<Rightarrow> err | Some e \<Rightarrow> Some e)\<rparr>) (net_Write b s))"

definition Flush :: "(string \<Rightarrow> string option) \<Rightarrow> 'a wst_scheme \<Rightarrow> bool res \<times> 'a wst_scheme" where
  "Flush net s =
     (if w_bodyDone (ws_w s) then (Ok False, s)
      else
        mbind (FlushHeader s) (\<lambda>_ s.
          let s = (case w_body (ws_w s) of None \<Rightarrow> s | Some r \<Rightarrow> copy_body net r s)
          in (Ok True, upd_w (\<lambda>w. w\<lparr>w_bodyDone := True, w_body := None\<rparr>) s)))"

definition Finalize :: "(string \<Rightarrow> string option) \<Rightarrow> 'a wst_scheme \<Rightarrow> unit res \<times> 'a wst_scheme" where
  "Finalize net s = mbind (Flush net s) (\<lambda>_ s. (Ok (), s))"

definition ReplyNow :: "(string \<Rightarrow> string option) \<Rightarrow> int64 \<Rightarrow> string \<Rightarrow> 'a wst_scheme \<Rightarrow> unit res \<times> 'a wst_scheme" where
  "ReplyNow net status body s =
     (let (r, s) = string_reader body (WriteStatus status s)
      in mbind (Flush net (WriteBody r s)) (\<lambda>_ s. (Ok (), s)))"

text \<open>
  \<open>replyErr\<close>: the reply, the module's rule for errors if it has one (\<open>has\<close>, \<open>emit\<close>: the script may
  do anything a script can), then the flush. What the rule answers is not looked at; a panic in it is.
\<close>

definition ignore_err :: "'b res \<times> 's \<Rightarrow> unit res \<times> 's" where
  "ignore_err x = (case x of (Ok _, s) \<Rightarrow> (Ok (), s) | (Err _, s) \<Rightarrow> (Ok (), s)
     | (Panic p, s) \<Rightarrow> (Panic p, s) | (Diverge, s) \<Rightarrow> (Diverge, s))"

definition replyErr ::
  "(string \<Rightarrow> string option) \<Rightarrow> bool \<Rightarrow> (string \<Rightarrow> val \<Rightarrow> 'a wst_scheme \<Rightarrow> val res \<times> 'a wst_scheme) \<Rightarrow>
   string \<Rightarrow> int64 \<Rightarrow> string \<Rightarrow> 'a wst_scheme \<Rightarrow> unit res \<times> 'a wst_scheme" where
  "replyErr net has emit reason status body s =
     (let (_, s) = SetReply status body s
      in mbind (if has then ignore_err (emit ''error'' (VStr reason) s) else (Ok (), s)) (\<lambda>_ s.
         mbind (Flush net s) (\<lambda>_ s. (Ok (), s))))"

section \<open>The writer as a value of the language\<close>

definition writer_Index :: "val \<Rightarrow> 'a wst_scheme \<Rightarrow> val res" where
  "writer_Index key s =
     (case key of
        VStr k \<Rightarrow>
          (let w = ws_w s
           in if k = ''status'' then Ok (VInt (w_status w))
              else if k = ''body'' then Ok (w_bodyVal w)
              else if k = ''header'' then Ok (w_headerVal w)
              else if k = ''headerDone'' then Ok (VBool (w_headerDone w))
              else if k = ''bodyDone'' then Ok (VBool (w_bodyDone w))
              else if k = ''bodyFlushError'' then
                Ok (VStr (case w_bodyError w of None \<Rightarrow> '''' | Some e \<Rightarrow> e))
              else Err (''unknown field name: '' @ k))
      | _ \<Rightarrow> Err (''invalid index, http.response_writer'' @ CHR 39 # ''s component require a string as index''))"

definition writer_Dot :: "string \<Rightarrow> 'a wst_scheme \<Rightarrow> val res" where
  "writer_Dot key s = writer_Index (VStr key) s"

text \<open>
  Setting a field does not ask whether it was flushed. The header that is shown afterwards is the
  value that was given, the header that is sent is the one made from it; the body that is sent is
  the reader behind the new body value.
\<close>

definition writer_IndexSet ::
  "hworld oenv \<Rightarrow> (hdr \<Rightarrow> hdr) \<Rightarrow> val \<Rightarrow> val \<Rightarrow> 'a wst_scheme \<Rightarrow> unit res \<times> 'a wst_scheme" where
  "writer_IndexSet env ho key v s =
     (case key of
        VStr k \<Rightarrow>
          if k = ''status'' then
            (case v of
               VInt i \<Rightarrow> (Ok (), upd_w (\<lambda>w. w\<lparr>w_status := i\<rparr>) s)
             | _ \<Rightarrow> rlift (v_Id env (ws_st s) v) s (\<lambda>i s. (Err (''invalid status type: '' @ i), s)))
          else if k = ''header'' then
            mbind (on_st (NewHeaderValFromVal env ho v (ws_st s)) s) (\<lambda>hv s.
            rlift (case hv of VUsr u \<Rightarrow> header_of (ws_st s) u | _ \<Rightarrow> Panic ''must: must be user'') s (\<lambda>h s.
              (Ok (), upd_w (\<lambda>w. w\<lparr>w_headerVal := v, w_header := h\<rparr>) s)))
          else if k = ''body'' then
            mbind (on_st (NewBodyValFromVal env v (ws_st s)) s) (\<lambda>bv s.
            rlift (as_body (ws_st s) bv) s (\<lambda>(_, b) s.
            rlift (stream_of (ws_st s) (bd_stream b)) s (\<lambda>h s.
              (Ok (), upd_w (\<lambda>w. w\<lparr>w_bodyVal := bv, w_body := Some (rs_Stream h)\<rparr>) s))))
          else (Err (''invalid field of http.response_writer: '' @ k), s)
      | _ \<Rightarrow> (Err (''invalid index, http.response_writer'' @ CHR 39 # ''s field name must be type string''), s))"

definition writer_DotSet ::
  "hworld oenv \<Rightarrow> (hdr \<Rightarrow> hdr) \<Rightarrow> string \<Rightarrow> val \<Rightarrow> 'a wst_scheme \<Rightarrow> unit res \<times> 'a wst_scheme" where
  "writer_DotSet env ho key v s = writer_IndexSet env ho (VStr key) v s"

definition writer_Method ::
  "hworld oenv \<Rightarrow> (string \<Rightarrow> string option) \<Rightarrow> string \<Rightarrow> val list \<Rightarrow> 'a wst_scheme \<Rightarrow> val res \<times> 'a wst_scheme" where
  "writer_Method env net name arg s =
     (if name = ''flushHeader'' then
        rlift (check_args env (ws_st s) ''http.response_writer.flushHeader'' ''%0'' arg) s (\<lambda>_ s.
        mbind (FlushHeader s) (\<lambda>b s. (Ok (VBool b), s)))
      else if name = ''flush'' then
        rlift (check_args env (ws_st s) ''http.response_writer.flush'' ''%0'' arg) s (\<lambda>_ s.
        mbind (Flush net s) (\<lambda>b s. (Ok (VBool b), s)))
      else if name = ''isFlushed'' then
        rlift (check_args env (ws_st s) ''http.response_writer.isFlushed'' ''%0'' arg) s (\<lambda>_ s.
          (Ok (VBool (IsFlushed s)), s))
      else if name = ''isHeaderFlushed'' then
        rlift (check_args env (ws_st s) ''http.response_writer.isHeaderFlushed'' ''%0'' arg) s (\<lambda>_ s.
          (Ok (VBool (IsHeaderFlushed s)), s))
      else (Err (''http.response_writer method: '' @ name @ '' is unknown''), s))"

end
