(* ===== verification/WriterProps.thy ===== *)
theory WriterProps
  imports HttpWriter "HOL-Library.Sublist"
begin

text \<open>
  What reaches the connection. Whatever uses the response writer, in whatever order and even when an
  operation panics half way, the client is sent at most one header and after it at most one body.
\<close>

section \<open>The invariant of the writer\<close>

fun wire_shape :: "bool \<Rightarrow> bool \<Rightarrow> wire list \<Rightarrow> bool" where
  "wire_shape hdone bdone [] \<longleftrightarrow> True"
| "wire_shape hdone bdone [WHeader _ _] \<longleftrightarrow> hdone"
| "wire_shape hdone bdone [WHeader _ _, WBody _] \<longleftrightarrow> hdone \<and> bdone"
| "wire_shape hdone bdone _ \<longleftrightarrow> False"

definition wire_ok :: "writer \<Rightarrow> bool" where
  "wire_ok w \<longleftrightarrow> wire_shape (w_headerDone w) (w_bodyDone w) (w_wire w) \<and> (w_bodyDone w \<longrightarrow> w_headerDone w)"

text \<open>Nothing that was sent is taken back, and nothing is sent once the body is done.\<close>

definition onward :: "writer \<Rightarrow> writer \<Rightarrow> bool" where
  "onward w w' \<longleftrightarrow>
     (wire_ok w \<longrightarrow>
       wire_ok w' \<and> prefix (w_wire w) (w_wire w') \<and> (w_headerDone w \<longrightarrow> w_headerDone w') \<and>
       (w_bodyDone w \<longrightarrow> w_bodyDone w' \<and> w_wire w' = w_wire w))"

lemma onward_same:
  "w_wire w' = w_wire w \<Longrightarrow> w_headerDone w' = w_headerDone w \<Longrightarrow> w_bodyDone w' = w_bodyDone w \<Longrightarrow> onward w w'"
  by (simp add: onward_def wire_ok_def)

lemma onward_refl [simp]: "onward w w"
  by (simp add: onward_same)

lemma onward_trans: "onward w v \<Longrightarrow> onward v u \<Longrightarrow> onward w u"
  unfolding onward_def by (metis prefix_order.trans)

lemma wire_shapeD:
  "wire_shape hdone False wr \<Longrightarrow> wr = [] \<or> (\<exists>c h. wr = [WHeader c h])"
  by (induction hdone "False" wr rule: wire_shape.induct) auto

lemma wire_shape_header: "wire_shape False False wr \<Longrightarrow> wr = []"
  by (induction "False" "False" wr rule: wire_shape.induct) auto

section \<open>Operations\<close>

lemma on_st_w [simp]: "ws_w (snd (on_st r s)) = ws_w s"
  by (simp add: on_st_def)

lemma upd_w_w [simp]: "ws_w (upd_w f s) = f (ws_w s)"
  by (simp add: upd_w_def)

lemma string_reader_w: "string_reader b s = (r, s') \<Longrightarrow> ws_w s' = ws_w s"
  by (auto simp: string_reader_def on_st_def)

lemma SetReply_w: "onward (ws_w s) (ws_w (snd (SetReply c b s)))"
  by (auto simp: SetReply_def intro!: onward_same split: prod.split dest!: string_reader_w)

lemma SetHeader_w: "onward (ws_w s) (ws_w (SetHeader h s))"
  by (auto simp: SetHeader_def on_st_def intro!: onward_same split: prod.split)

lemma WriteStatus_w: "onward (ws_w s) (ws_w (WriteStatus c s))"
  by (auto simp: WriteStatus_def intro!: onward_same)

lemma WriteBody_w: "onward (ws_w s) (ws_w (WriteBody r s))"
  by (auto simp: WriteBody_def intro!: onward_same)

lemma wire_ok_start:
  assumes "wire_ok w" "\<not> w_headerDone w"
  shows "w_wire w = []" "\<not> w_bodyDone w"
  using assms wire_shape_header [of "w_wire w"] by (auto simp: wire_ok_def)

lemma snd_mbind_Ok [simp]: "snd (mbind p (\<lambda>x s. (Ok (f x), s))) = snd p"
  by (cases p; cases "fst p") auto

text \<open>What flushing the header does to the writer, whether it succeeds or not.\<close>

lemma FlushHeader_writer:
  assumes "\<not> w_headerDone (ws_w s)"
  obtains n where "ws_w (snd (FlushHeader s)) = (ws_w s)\<lparr>w_headerDone := True, w_netHeader := n\<rparr>"
  | n c where "w_wire (ws_w s) = []"
      "ws_w (snd (FlushHeader s)) = (ws_w s)\<lparr>w_headerDone := True, w_netHeader := n, w_wire := [WHeader c n]\<rparr>"
proof (cases "get_header_map (ws_st s) (w_header (ws_w s))")
  case (Ok m)
  let ?n = "fold (\<lambda>(k, v) n. AList.update k v n) m (w_netHeader (ws_w s))"
  have "ws_w (snd (FlushHeader s)) = (ws_w s)\<lparr>w_headerDone := True, w_netHeader := ?n\<rparr> \<or>
      w_wire (ws_w s) = [] \<and> ws_w (snd (FlushHeader s)) =
        (ws_w s)\<lparr>w_headerDone := True, w_netHeader := ?n, w_wire := [WHeader (w_status (ws_w s)) ?n]\<rparr>"
    using assms Ok by (simp add: FlushHeader_def net_WriteHeader_def upd_w_def Let_def)
  then show ?thesis using that by metis
qed (use that(1) [of "w_netHeader (ws_w s)"] assms in \<open>simp_all add: FlushHeader_def upd_w_def\<close>)

lemma header_done_w:
  assumes "\<not> w_headerDone w"
  shows "onward w (w\<lparr>w_headerDone := True, w_netHeader := n\<rparr>)"
    "onward w (w\<lparr>w_headerDone := True, w_netHeader := n, w_wire := [WHeader c n]\<rparr>)"
proof -
  have "wire_ok w \<Longrightarrow> w_wire w = [] \<and> \<not> w_bodyDone w"
    using assms wire_ok_start by blast
  then show "onward w (w\<lparr>w_headerDone := True, w_netHeader := n\<rparr>)"
    "onward w (w\<lparr>w_headerDone := True, w_netHeader := n, w_wire := [WHeader c n]\<rparr>)"
    using assms by (auto simp: onward_def wire_ok_def)
qed

lemma FlushHeader_w: "onward (ws_w s) (ws_w (snd (FlushHeader s)))"
proof (cases "w_headerDone (ws_w s)")
  case False
  then show ?thesis by (rule FlushHeader_writer) (simp_all only: header_done_w False not_False_eq_True)
qed (simp add: FlushHeader_def)

lemma FlushHeader_done: "w_headerDone (ws_w (snd (FlushHeader s)))"
  by (cases "w_headerDone (ws_w s)")
    (simp add: FlushHeader_def, erule FlushHeader_writer, simp_all)

lemma FlushHeader_bodyDone [simp]: "w_bodyDone (ws_w (snd (FlushHeader s))) = w_bodyDone (ws_w s)"
  by (cases "w_headerDone (ws_w s)")
    (simp add: FlushHeader_def, erule FlushHeader_writer, simp_all)

lemma body_done_w:
  assumes "wire_ok w" "w_headerDone w" "\<not> w_bodyDone w"
  shows "onward w (w\<lparr>w_bodyDone := True, w_body := None\<rparr>)"
  using assms by (auto simp: onward_def wire_ok_def dest!: wire_shapeD)

lemma copy_body_w:
  assumes "wire_ok (ws_w s)" "w_headerDone (ws_w s)" "\<not> w_bodyDone (ws_w s)"
  shows "onward (ws_w s) (ws_w (upd_w (\<lambda>w. w\<lparr>w_bodyDone := True, w_body := None\<rparr>) (copy_body net r s)))"
proof -
  have "w_wire (ws_w s) = [] \<or> (\<exists>c h. w_wire (ws_w s) = [WHeader c h])"
    using assms by (auto simp: wire_ok_def dest: wire_shapeD)
  then show ?thesis
    using assms
    by (auto simp: copy_body_def on_st_def net_Write_def upd_w_def Let_def onward_def wire_ok_def split: prod.split)
qed

lemma Flush_w: "onward (ws_w s) (ws_w (snd (Flush net s)))"
proof (cases "wire_ok (ws_w s) \<and> \<not> w_bodyDone (ws_w s)")
  case True
  obtain r t where f: "FlushHeader s = (r, t)" by fastforce
  have t: "onward (ws_w s) (ws_w t)" "w_headerDone (ws_w t)"
    using FlushHeader_w [of s] FlushHeader_done [of s] f by simp_all
  have "\<not> w_bodyDone (ws_w t)"
    using True FlushHeader_bodyDone [of s] f by simp
  moreover have "wire_ok (ws_w t)"
    using True t(1) by (simp add: onward_def)
  ultimately have "onward (ws_w t) (ws_w (upd_w (\<lambda>w. w\<lparr>w_bodyDone := True, w_body := None\<rparr>)
      (case w_body (ws_w t) of None \<Rightarrow> t | Some r \<Rightarrow> copy_body net r t)))"
    using t(2) by (cases "w_body (ws_w t)") (auto intro: body_done_w copy_body_w [simplified])
  then show ?thesis
    using True t onward_trans by (cases r) (auto simp: Flush_def f Let_def)
qed (auto simp: Flush_def onward_def)

text \<open>A state whose writer has sent as much as another's.\<close>

definition as_sent :: "'a wst_scheme \<Rightarrow> 'a wst_scheme \<Rightarrow> bool" where
  "as_sent s t \<longleftrightarrow> w_wire (ws_w t) = w_wire (ws_w s) \<and> w_headerDone (ws_w t) = w_headerDone (ws_w s) \<and>
     w_bodyDone (ws_w t) = w_bodyDone (ws_w s)"

lemma as_sent_refl: "as_sent s s"
  by (simp add: as_sent_def)

lemma as_sent_on_st: "as_sent s t \<Longrightarrow> as_sent s (snd (on_st r t))"
  by (simp add: as_sent_def)

lemma snd_mbind_keeps:
  assumes "P (snd p)" "\<And>x t. P t \<Longrightarrow> P (snd (f x t))"
  shows "P (snd (mbind p f))"
  using assms by (cases "(p, f)" rule: mbind.cases) auto

lemma snd_rlift_keeps:
  assumes "P s" "\<And>x t. P t \<Longrightarrow> P (snd (f x t))"
  shows "P (snd (rlift r s f))"
  using assms by (simp add: rlift_def snd_mbind_keeps)

lemma as_sent_pair: "(\<And>a b. as_sent s (snd (f a b t))) \<Longrightarrow> as_sent s (snd ((case x of (a, b) \<Rightarrow> f a b) t))"
  by (cases x) simp

lemmas as_sent_intros = as_sent_refl as_sent_on_st as_sent_pair snd_mbind_keeps [where P = "as_sent s" for s]
  snd_rlift_keeps [where P = "as_sent s" for s]

lemma writer_IndexSet_as_sent: "as_sent s (snd (writer_IndexSet env ho key v s))"
proof (cases key)
  case (VStr k)
  consider "k = ''status''" | "k = ''header''" | "k = ''body''"
    | "k \<noteq> ''status''" "k \<noteq> ''header''" "k \<noteq> ''body''" by blast
  then show ?thesis
  proof cases
    case 1
    show ?thesis
      by (cases v) (simp_all add: VStr 1 writer_IndexSet_def as_sent_def snd_rlift_keeps [where P = "\<lambda>t. t = s"])
  next
    case 2
    show ?thesis
      unfolding VStr 2 writer_IndexSet_def val.case if_True if_False list.inject char.inject simp_thms list.distinct
      by (intro as_sent_intros) (simp_all add: as_sent_def)
  next
    case 3
    show ?thesis
      unfolding VStr 3 writer_IndexSet_def val.case if_True if_False list.inject char.inject simp_thms list.distinct
      by (intro as_sent_intros) (simp_all add: as_sent_def)
  qed (simp add: writer_IndexSet_def VStr as_sent_def)
qed (simp_all add: writer_IndexSet_def as_sent_def)

lemma writer_IndexSet_w: "onward (ws_w s) (ws_w (snd (writer_IndexSet env ho key v s)))"
  using writer_IndexSet_as_sent [of s env ho key v] by (simp add: as_sent_def onward_same)

section \<open>Uses of the writer\<close>

text \<open>
  One use: an operation of the writer (the exported ones of Go and those of scripts), or anything
  that leaves the writer alone. \<open>wops\<close> is any sequence of uses.
\<close>

inductive wop ::
  "hworld oenv \<Rightarrow> (hdr \<Rightarrow> hdr) \<Rightarrow> (string \<Rightarrow> string option) \<Rightarrow> 'a wst_scheme \<Rightarrow> 'a wst_scheme \<Rightarrow> bool"
  for env ho net where
  wop_other: "ws_w s' = ws_w s \<Longrightarrow> wop env ho net s s'"
| wop_SetReply: "wop env ho net s (snd (SetReply c b s))"
| wop_SetHeader: "wop env ho net s (SetHeader h s)"
| wop_WriteStatus: "wop env ho net s (WriteStatus c s)"
| wop_WriteBody: "wop env ho net s (WriteBody r s)"
| wop_FlushHeader: "wop env ho net s (snd (FlushHeader s))"
| wop_Flush: "wop env ho net s (snd (Flush net s))"
| wop_IndexSet: "wop env ho net s (snd (writer_IndexSet env ho key v s))"

abbreviation wops ::
  "hworld oenv \<Rightarrow> (hdr \<Rightarrow> hdr) \<Rightarrow> (string \<Rightarrow> string option) \<Rightarrow> 'a wst_scheme \<Rightarrow> 'a wst_scheme \<Rightarrow> bool" where
  "wops env ho net \<equiv> (wop env ho net)\<^sup>*\<^sup>*"

lemma wop_onward: "wop env ho net s s' \<Longrightarrow> onward (ws_w s) (ws_w s')"
  by (induction rule: wop.induct)
    (simp_all add: SetReply_w SetHeader_w WriteStatus_w WriteBody_w FlushHeader_w Flush_w writer_IndexSet_w)

lemma wops_onward: "wops env ho net s s' \<Longrightarrow> onward (ws_w s) (ws_w s')"
  by (induction rule: rtranclp_induct) (auto dest: wop_onward onward_trans)

lemma wire_okD:
  assumes "wire_ok w"
  shows "w_wire w = [] \<or> (\<exists>c h. w_wire w = [WHeader c h]) \<or> (\<exists>c h b. w_wire w = [WHeader c h, WBody b])"
  using assms
  by (cases "(w_headerDone w, w_bodyDone w, w_wire w)" rule: wire_shape.cases) (auto simp: wire_ok_def)

lemma wops_refl: "wops env ho net s s"
  by simp

lemma wops_other: "wops env ho net s t \<Longrightarrow> ws_w t' = ws_w t \<Longrightarrow> wops env ho net s t'"
  by (meson rtranclp.rtrancl_into_rtrancl wop_other)

lemma wops_ops:
  assumes "wops env ho net s t"
  shows "wops env ho net s (snd (SetReply c b t))" "wops env ho net s (SetHeader h t)"
    "wops env ho net s (WriteStatus c t)" "wops env ho net s (WriteBody r t)"
    "wops env ho net s (snd (FlushHeader t))" "wops env ho net s (snd (Flush net t))"
    "wops env ho net s (snd (writer_IndexSet env ho key v t))"
  using assms by (meson rtranclp.rtrancl_into_rtrancl wop.intros)+

lemma wops_on_st: "wops env ho net s t \<Longrightarrow> wops env ho net s (snd (on_st x t))"
  by (rule wops_other) simp_all

lemmas wops_binds = snd_mbind_keeps [where P = "wops env ho net s" for env ho net s]
  snd_rlift_keeps [where P = "wops env ho net s" for env ho net s]

lemmas wops_intros = wops_refl wops_ops wops_binds wops_on_st

lemma ReplyNow_wops:
  assumes "wops env ho net s t"
  shows "wops env ho net s (snd (ReplyNow net c b t))"
proof -
  obtain r u where r: "string_reader b (WriteStatus c t) = (r, u)" by fastforce
  then have "wops env ho net s u"
    using assms string_reader_w wops_ops(3) wops_other by metis
  then show ?thesis
    by (simp add: ReplyNow_def r) (intro wops_intros)
qed

lemma Finalize_wops: "wops env ho net s t \<Longrightarrow> wops env ho net s (snd (Finalize net t))"
  by (simp add: Finalize_def wops_ops)

text \<open>
  C19: Whatever uses the response writer of a request, in any order and even when an operation panics,
  the connection gets at most one header and then at most one body; what was sent is never changed;
  and once the response is flushed nothing more is sent.
\<close>

theorem response_sent_once:
  assumes "newResponseWriterWrapper st = Ok (w, st')" "ws_w s = w"
    and "wops env ho net s t" "wops env ho net t u"
  shows "(w_wire (ws_w u) = [] \<or> (\<exists>c h. w_wire (ws_w u) = [WHeader c h]) \<or>
      (\<exists>c h b. w_wire (ws_w u) = [WHeader c h, WBody b])) \<and>
    prefix (w_wire (ws_w t)) (w_wire (ws_w u)) \<and>
    (IsFlushed t \<longrightarrow> IsFlushed u \<and> w_wire (ws_w u) = w_wire (ws_w t))"
proof -
  have "wire_ok w"
    using assms(1)
    by (auto simp: newResponseWriterWrapper_def Let_def wire_ok_def split: prod.splits res.splits)
  then have t: "wire_ok (ws_w t)" using wops_onward [OF assms(3)] assms(2) by (simp add: onward_def)
  then have u: "wire_ok (ws_w u)" using wops_onward [OF assms(4)] by (simp add: onward_def)
  have "prefix (w_wire (ws_w t)) (w_wire (ws_w u))"
    "IsFlushed t \<longrightarrow> IsFlushed u \<and> w_wire (ws_w u) = w_wire (ws_w t)"
    using t wops_onward [OF assms(4)] by (simp_all add: onward_def IsFlushed_def)
  then show ?thesis using wire_okD [OF u] by blast
qed

text \<open>A response that is flushed before anyone sets it, and an error that comes too late.\<close>

definition s_new :: wst where
  "s_new = (case newResponseWriterWrapper (st_init hworld_init) of
     Ok (w, st) \<Rightarrow> \<lparr>ws_w = w, ws_st = st\<rparr> | _ \<Rightarrow> undefined)"

definition s_sent :: wst where
  "s_sent = snd (Flush (\<lambda>_. None) (snd (SetReply 201 ''made'' s_new)))"

lemma s_new_eq: "newResponseWriterWrapper (st_init hworld_init) = Ok (ws_w s_new, ws_st s_new)"
proof -
  have "case newResponseWriterWrapper (st_init hworld_init) of Ok _ \<Rightarrow> True | _ \<Rightarrow> False"
    by code_simp
  then show ?thesis
    unfolding s_new_def by (cases "newResponseWriterWrapper (st_init hworld_init)") (auto split: prod.split)
qed

lemmas writer_eval = hpl_eval new_header_map_def NewHeaderVal_def NewBodyValFromStream_def as_stream_def
  NewReadableStreamFromStream_def newBodyValFromReadableStream_def upd_w_def on_st_def string_reader_def
  get_header_map_def

lemma s_sent_wire: "IsFlushed s_sent \<and> w_wire (ws_w s_sent) = [WHeader 201 [], WBody ''made'']"
proof -
  obtain st where st: "s_new = \<lparr>ws_w = \<lparr>w_status = 200, w_header = 0, w_body = Some 0, w_headerDone = False,
      w_bodyDone = False, w_bodyError = None, w_headerVal = VUsr 0, w_bodyVal = VUsr 2, w_netHeader = [],
      w_wire = []\<rparr>, ws_st = st\<rparr>" "hw_readers (st_world st) = [REof]" "hw_headers (st_world st) = [[]]"
    by (simp add: s_new_def newResponseWriterWrapper_def writer_eval st_init_def hworld_init_def)
  have "valid_code 201"
    by (simp add: valid_code_def)
  then show ?thesis
    using st(2,3)
    by (simp add: s_sent_def st(1) SetReply_def IsHeaderFlushed_def IsFlushed_def Flush_def FlushHeader_def
        net_WriteHeader_def copy_body_def net_Write_def writer_eval)
qed

theorem response_sent_once_witness:
  "w_wire (ws_w (snd (ReplyNow (\<lambda>_. None) 500 ''late'' s_sent))) = [WHeader 201 [], WBody ''made'']"
proof -
  have "wops plain_hpl_env id (\<lambda>_. None) s_new s_sent"
    unfolding s_sent_def by (intro wops_ops wops_refl)
  then show ?thesis
    using response_sent_once [OF s_new_eq refl _ ReplyNow_wops [OF wops_refl [of _ _ _ s_sent]]] s_sent_wire by simp
qed

section \<open>Users of the writer\<close>

text \<open>
  What the handler of a request calls: middleware, applications and the replies. The contract is that
  they touch the response only through the writer's operations.
\<close>

locale responder =
  fixes env :: "hworld oenv" and ho :: "hdr \<Rightarrow> hdr" and net :: "string \<Rightarrow> string option"
    and act :: "'a wst_scheme \<Rightarrow> 'b \<times> 'a wst_scheme"
  assumes acts: "wops env ho net s (snd (act s))"
begin

lemma flushed_is_final: "wire_ok (ws_w s) \<Longrightarrow> IsFlushed s \<Longrightarrow> w_wire (ws_w (snd (act s))) = w_wire (ws_w s)"
  using wops_onward [OF acts] by (simp add: onward_def IsFlushed_def)

lemma keeps_wire_ok: "wire_ok (ws_w s) \<Longrightarrow> wire_ok (ws_w (snd (act s)))"
  using wops_onward [OF acts] by (simp add: onward_def)

lemma extends_wire: "wire_ok (ws_w s) \<Longrightarrow> prefix (w_wire (ws_w s)) (w_wire (ws_w (snd (act s))))"
  using wops_onward [OF acts] by (simp add: onward_def)

end

text \<open>The writer's own operations and its methods for scripts keep the contract.\<close>

interpretation finalize: responder env ho net "Finalize net" for env ho net
  by unfold_locales (simp add: Finalize_wops)

interpretation reply_now: responder env ho net "ReplyNow net c b" for env ho net c b
  by unfold_locales (simp add: ReplyNow_wops)

interpretation script_set: responder env ho net "writer_IndexSet env ho key v" for env ho net key v
  by unfold_locales (blast intro: wop_IndexSet)

lemma writer_Method_wops: "wops env ho net s (snd (writer_Method env net name arg s))"
proof -
  have op: "wops env ho net s (snd (rlift r s (\<lambda>_ s. mbind (f s) (\<lambda>b s. (Ok (VBool b), s)))))"
    if "\<And>s t. wops env ho net s t \<Longrightarrow> wops env ho net s (snd (f t))" for r f
    by (rule snd_rlift_keeps [where P = "wops env ho net s"]) (simp_all add: that)
  have ask: "wops env ho net s (snd (rlift r s (\<lambda>_ s. (Ok (VBool (g s)), s))))" for r g
    by (cases r) simp_all
  note FlushHeader = op [of FlushHeader, OF wops_ops(5)] and Flush = op [of "Flush net", OF wops_ops(6)]
  show ?thesis
    unfolding writer_Method_def by (simp only: ask FlushHeader Flush snd_conv wops_refl simp_thms split: if_split)
qed

interpretation script_call: responder env ho net "writer_Method env net name arg" for env ho net name arg
  by unfold_locales (rule writer_Method_wops)

section \<open>What the operations leave alone\<close>

lemma snd_on_st: "snd (on_st r s) = s\<lparr>ws_st := snd r\<rparr>"
  by (simp add: on_st_def)

lemma more_upd [simp]: "wst.more (upd_w f s) = wst.more s" "wst.more (snd (on_st r s)) = wst.more s"
  by (simp_all add: upd_w_def on_st_def)

lemma more_string_reader: "string_reader b s = (r, s') \<Longrightarrow> wst.more s' = wst.more s"
  by (auto simp: string_reader_def on_st_def)

lemma more_ops:
  "wst.more (snd (SetReply c b s)) = wst.more s" "wst.more (SetHeader h s) = wst.more s"
  "wst.more (WriteStatus c s) = wst.more s" "wst.more (WriteBody r s) = wst.more s"
  by (auto simp: SetReply_def SetHeader_def WriteStatus_def WriteBody_def on_st_def split: prod.split
      dest: more_string_reader)

lemma more_FlushHeader: "wst.more (snd (FlushHeader s)) = wst.more s"
  by (cases "get_header_map (ws_st s) (w_header (ws_w s))")
    (simp_all add: FlushHeader_def Let_def net_WriteHeader_def upd_w_def)

lemma more_copy_body: "wst.more (copy_body net r s) = wst.more s"
  by (simp add: copy_body_def Let_def on_st_def net_Write_def split: prod.split)

lemma more_Flush: "wst.more (snd (Flush net s)) = wst.more s"
proof -
  obtain r t where f: "FlushHeader s = (r, t)" by fastforce
  then have "wst.more t = wst.more s" using more_FlushHeader [of s] by simp
  then show ?thesis
    by (cases r) (auto simp: Flush_def f Let_def more_copy_body split: option.split)
qed

lemma more_ReplyNow: "wst.more (snd (ReplyNow net c b s)) = wst.more s"
  by (auto simp: ReplyNow_def more_Flush more_ops split: prod.split dest!: more_string_reader)

text \<open>When an operation that flushes returns, the response is out.\<close>

lemma Flush_Ok: "Flush net s = (Ok b, s') \<Longrightarrow> IsFlushed s'"
  by (auto simp: Flush_def Let_def IsFlushed_def mbind_Ok_iff split: if_splits)

lemma Flush_ends: "fst (Flush net s) \<noteq> Err e"
proof -
  obtain r t where f: "FlushHeader s = (r, t)" by fastforce
  moreover have "r \<noteq> Err x" for x
    using f by (cases "get_header_map (ws_st s) (w_header (ws_w s))")
      (auto simp: FlushHeader_def Let_def net_WriteHeader_def get_header_map_def deref_def split: if_splits)
  ultimately show ?thesis by (cases r) (auto simp: Flush_def Let_def)
qed

end
