(* ===== verification/HClientPool.thy ===== *)
theory HClientPool
  imports HplStream
begin

text \<open>
  The pool of HTTP clients of a virtual host (\<open>util/hclient.go\<close>): idle clients by scheme and host,
  and the goroutine that reads the rest of a client's last response before the client is idle again.
  A \<open>http.Client\<close> itself is the Go library's; a client is known here by its URL and last response
  (the pointer of the response's body). Every critical section is a step of its own (\<open>pool_step\<close>), so
  \<open>Get\<close> and \<open>Put\<close>, which take the lock twice, may be interleaved with each other.
\<close>

section \<open>Clients\<close>

record HClient =
  hc_URL :: URL
  hc_resp :: "nat option"
  hc_err :: "string option"

text \<open>\<open>r\<close> is what the Go client answers: the response's body or an error.\<close>

definition HClient_Do :: "nat res \<Rightarrow> HClient \<Rightarrow> nat res \<times> HClient" where
  "HClient_Do r h =
     (r, (case r of Ok b \<Rightarrow> h\<lparr>hc_err := None, hc_resp := Some b\<rparr> | Err e \<Rightarrow> h\<lparr>hc_err := Some e\<rparr> | _ \<Rightarrow> h))"

definition cacheKey :: "URL \<Rightarrow> string" where
  "cacheKey u = u_Scheme u @ '':'' @ u_Host u"

definition CacheKey :: "HClient \<Rightarrow> string" where
  "CacheKey h = cacheKey (hc_URL h)"

section \<open>The pool\<close>

text \<open>
  \<open>hp_drain\<close> is the channel: the clients whose senders wait for the goroutine, in order. The
  counters are unbounded integers; the code counts in 64 bits, which no run fills.
\<close>

record HClientPool =
  hp_Name :: string
  hp_p :: "(string \<times> HClient list) list"
  hp_size :: int
  hp_drain :: "HClient list"
  hp_drainSize :: int
  hp_maxPoolSize :: int
  hp_maxDrainSize :: int
  hp_clientTimeout :: int
  hp_reuseSize :: int
  hp_newSize :: int
  hp_drainProduce :: int
  hp_drainConsume :: int

definition NewHClientPool :: "string \<Rightarrow> int \<Rightarrow> int \<Rightarrow> int \<Rightarrow> HClientPool" where
  "NewHClientPool name maxPoolSize clientTimeout maxDrain =
     \<lparr>hp_Name = name, hp_p = [], hp_size = 0, hp_drain = [], hp_drainSize = 0, hp_maxPoolSize = maxPoolSize,
      hp_maxDrainSize = maxDrain, hp_clientTimeout = clientTimeout, hp_reuseSize = 0, hp_newSize = 0,
      hp_drainProduce = 0, hp_drainConsume = 0\<rparr>"

definition tryGet :: "URL \<Rightarrow> HClientPool \<Rightarrow> HClient option \<times> HClientPool" where
  "tryGet url h =
     (if hp_size h = 0 \<or> hp_p h = [] then (None, h)
      else
        let key = cacheKey url
        in (case map_of (hp_p h) key of
              None \<Rightarrow> (None, h)
            | Some [] \<Rightarrow> (None, h)
            | Some x \<Rightarrow>
                (Some (last x),
                 h\<lparr>hp_p := AList.update key (butlast x) (hp_p h), hp_reuseSize := hp_reuseSize h + 1,
                   hp_size := hp_size h - 1\<rparr>)))"

definition tryCreate :: "URL \<Rightarrow> HClientPool \<Rightarrow> HClient \<times> HClientPool" where
  "tryCreate url h =
     (\<lparr>hc_URL = url, hc_resp = None, hc_err = None\<rparr>, h\<lparr>hp_newSize := hp_newSize h + 1\<rparr>)"

definition DrainSize :: "HClientPool \<Rightarrow> int" where
  "DrainSize h = hp_drainSize h"

definition CacheSize :: "HClientPool \<Rightarrow> int" where
  "CacheSize h = hp_size h"

definition pool_Get :: "(string \<Rightarrow> URL res) \<Rightarrow> string \<Rightarrow> HClientPool \<Rightarrow> HClient res \<times> HClientPool" where
  "pool_Get url_Parse rawStr h =
     rlift (url_Parse rawStr) h (\<lambda>url h.
       if u_Scheme url = ''http'' \<or> u_Scheme url = ''https'' then
         (case tryGet url h of
            (Some c, h) \<Rightarrow> (Ok c, h)
          | (None, h) \<Rightarrow> let (c, h) = tryCreate url h in (Ok c, h))
       else (Err (''URL: '' @ rawStr @ '' unsupported scheme''), h))"

definition tryDrain :: "HClient \<Rightarrow> HClientPool \<Rightarrow> HClientPool" where
  "tryDrain c h =
     (if hc_resp c = None then h
      else h\<lparr>hp_drainSize := hp_drainSize h + 1, hp_drainProduce := hp_drainProduce h + 1,
             hp_drain := hp_drain h @ [c]\<rparr>)"

definition shouldPut :: "HClientPool \<Rightarrow> bool" where
  "shouldPut h \<longleftrightarrow> hp_size h + hp_drainSize h + 1 < hp_maxPoolSize h"

definition pool_Put :: "HClient \<Rightarrow> HClientPool \<Rightarrow> bool \<times> HClientPool" where
  "pool_Put c h = (if shouldPut h then (True, tryDrain c h) else (False, h))"

definition putBack :: "HClient \<Rightarrow> HClientPool \<Rightarrow> HClientPool" where
  "putBack x h =
     (let ckey = CacheKey x;
          l = (case map_of (hp_p h) ckey of Some l \<Rightarrow> l @ [x] | None \<Rightarrow> [x])
      in h\<lparr>hp_drainSize := hp_drainSize h - 1, hp_size := hp_size h + 1, hp_p := AList.update ckey l (hp_p h)\<rparr>)"

text \<open>
  \<open>io.CopyN\<close> into nothing: the error that is neither the end nor \<open>n\<close> bytes, if there is one. The
  body is closed at once, so what is left in it does not matter.
\<close>

definition discardN :: "int \<Rightarrow> nat \<Rightarrow> hstore \<Rightarrow> string option" where
  "discardN n r st = (let ((s, e), _) = ReadAll r st in if n \<le> int (length s) then None else e)"

text \<open>
  The loop of \<open>doDrain\<close>: a client is taken from its sender, its last response is read and closed, and it
  is idle again unless the reading failed.
\<close>

definition drain_take :: "HClientPool \<Rightarrow> HClient option \<times> HClientPool" where
  "drain_take h =
     (case hp_drain h of
        [] \<Rightarrow> (None, h)
      | x # xs \<Rightarrow> (Some x, h\<lparr>hp_drain := xs, hp_drainConsume := hp_drainConsume h + 1\<rparr>))"

definition drain_done :: "HClient \<Rightarrow> HClientPool \<Rightarrow> hstore \<Rightarrow> HClientPool \<times> hstore" where
  "drain_done x h st =
     (case hc_resp x of
        None \<Rightarrow> (h, st)
      | Some r \<Rightarrow>
          (let e = discardN (hp_maxDrainSize h) r st; st = CloseReader r st
           in (case e of Some _ \<Rightarrow> (h, st) | None \<Rightarrow> (putBack x h, st))))"

section \<open>What the pool keeps\<close>

text \<open>
  The pool with what is under way: the clients whose \<open>Put\<close> has found room and has not queued them yet,
  and the client the goroutine is draining. At most \<open>k\<close> calls of \<open>Put\<close> are under way at once. Reading
  and closing happens outside the lock and is part of the step that follows it; everything else may change
  the objects at any time.
\<close>

record pooled =
  pl_h :: HClientPool
  pl_puts :: "HClient list"
  pl_hand :: "HClient option"
  pl_st :: hstore

inductive pool_step :: "nat \<Rightarrow> pooled \<Rightarrow> pooled \<Rightarrow> bool" for k where
  ps_tryGet: "pool_step k s (s\<lparr>pl_h := snd (tryGet url (pl_h s))\<rparr>)"
| ps_tryCreate: "pool_step k s (s\<lparr>pl_h := snd (tryCreate url (pl_h s))\<rparr>)"
| ps_check: "shouldPut (pl_h s) \<Longrightarrow> length (pl_puts s) < k \<Longrightarrow> pool_step k s (s\<lparr>pl_puts := pl_puts s @ [c]\<rparr>)"
| ps_queue: "pl_puts s = as @ c # bs \<Longrightarrow> pool_step k s (s\<lparr>pl_h := tryDrain c (pl_h s), pl_puts := as @ bs\<rparr>)"
| ps_take: "pl_hand s = None \<Longrightarrow> drain_take (pl_h s) = (x, h) \<Longrightarrow> pool_step k s (s\<lparr>pl_h := h, pl_hand := x\<rparr>)"
| ps_done: "pl_hand s = Some x \<Longrightarrow> drain_done x (pl_h s) (pl_st s) = (h, st) \<Longrightarrow>
    pool_step k s (s\<lparr>pl_h := h, pl_hand := None, pl_st := st\<rparr>)"
| ps_other: "pool_step k s (s\<lparr>pl_st := st\<rparr>)"

inductive_cases pool_stepE: "pool_step k s t"

text \<open>\<open>Get\<close> and \<open>Put\<close> as a whole are runs of these steps.\<close>

lemma pool_Get_steps: "(pool_step k)\<^sup>*\<^sup>* s (s\<lparr>pl_h := snd (pool_Get parse raw (pl_h s))\<rparr>)"
proof (cases "parse raw")
  case (Ok url)
  obtain r h where g: "tryGet url (pl_h s) = (r, h)" by fastforce
  let ?t = "s\<lparr>pl_h := h\<rparr>"
  have "(pool_step k)\<^sup>*\<^sup>* s ?t" "pool_step k ?t (s\<lparr>pl_h := snd (tryCreate url h)\<rparr>)"
    using ps_tryGet [of k s url] ps_tryCreate [of k ?t url] by (simp_all add: g r_into_rtranclp)
  then show ?thesis
    by (cases r) (auto simp: pool_Get_def Ok g tryCreate_def intro: rtranclp.rtrancl_into_rtrancl)
qed (simp_all add: pool_Get_def)

lemma pool_Put_steps:
  assumes "length (pl_puts s) < k"
  shows "(pool_step k)\<^sup>*\<^sup>* s (s\<lparr>pl_h := snd (pool_Put c (pl_h s))\<rparr>)"
proof (cases "shouldPut (pl_h s)")
  case True
  let ?t = "s\<lparr>pl_puts := pl_puts s @ [c]\<rparr>"
  have "pool_step k s ?t" using True assms by (rule ps_check)
  moreover have "pool_step k ?t (?t\<lparr>pl_h := tryDrain c (pl_h ?t), pl_puts := pl_puts s @ []\<rparr>)"
    by (rule ps_queue) simp
  ultimately show ?thesis
    using True by (auto simp: pool_Put_def intro: converse_rtranclp_into_rtranclp)
qed (simp add: pool_Put_def)

text \<open>The idle clients are counted, and so are the places that are waiting, in hand or lost.\<close>

definition total :: "(string \<times> HClient list) list \<Rightarrow> nat" where
  "total p = sum_list (map (\<lambda>(k, l). length l) p)"

definition lost :: "pooled \<Rightarrow> int" where
  "lost s = hp_drainSize (pl_h s) - int (length (hp_drain (pl_h s))) - (case pl_hand s of None \<Rightarrow> 0 | Some _ \<Rightarrow> 1)"

definition places :: "pooled \<Rightarrow> int" where
  "places s = hp_size (pl_h s) + hp_drainSize (pl_h s) + int (length (pl_puts s))"

definition pool_ok :: "nat \<Rightarrow> pooled \<Rightarrow> bool" where
  "pool_ok k s \<longleftrightarrow>
     distinct (map fst (hp_p (pl_h s))) \<and> hp_size (pl_h s) = int (total (hp_p (pl_h s))) \<and> 0 \<le> lost s \<and>
     (\<forall>c \<in> set (hp_drain (pl_h s)) \<union> set_option (pl_hand s). hc_resp c \<noteq> None) \<and>
     (places s \<le> hp_maxPoolSize (pl_h s) - 2 + int k \<or> places s = 0)"

text \<open>What every step leaves alone, and the places it may lose but never gives back.\<close>

definition pool_goes :: "pooled \<Rightarrow> pooled \<Rightarrow> bool" where
  "pool_goes s t \<longleftrightarrow> hp_maxPoolSize (pl_h t) = hp_maxPoolSize (pl_h s) \<and>
     hp_maxDrainSize (pl_h t) = hp_maxDrainSize (pl_h s) \<and> lost s \<le> lost t"

lemma total_update:
  assumes "distinct (map fst p)"
  shows "int (total (AList.update key l p)) =
     int (total p) + int (length l) - int (case map_of p key of Some l' \<Rightarrow> length l' | None \<Rightarrow> 0)"
  using assms unfolding total_def
  by (induction p) (auto simp: map_of_eq_None_iff split: option.split dest: map_of_SomeD)

lemma length_le_total: "map_of p key = Some l \<Longrightarrow> length l \<le> total p"
  unfolding total_def using member_le_sum_list [of "length l" "map (\<lambda>(k, l). length l) p"]
  by (force dest: map_of_SomeD)

lemma tryGet_cases:
  obtains "snd (tryGet url h) = h" | l where "map_of (hp_p h) (cacheKey url) = Some l" "l \<noteq> []"
    "snd (tryGet url h) = h\<lparr>hp_p := AList.update (cacheKey url) (butlast l) (hp_p h),
       hp_reuseSize := hp_reuseSize h + 1, hp_size := hp_size h - 1\<rparr>"
proof (cases "hp_size h = 0 \<or> hp_p h = []")
  case False
  show thesis
  proof (cases "map_of (hp_p h) (cacheKey url)")
    case (Some l)
    then show thesis using False that by (cases l) (simp_all add: tryGet_def Let_def)
  qed (use False that in \<open>simp add: tryGet_def\<close>)
qed (use that in \<open>auto simp: tryGet_def\<close>)

lemma drainSize_nonneg: "pool_ok k s \<Longrightarrow> 0 \<le> hp_drainSize (pl_h s)"
  by (simp add: pool_ok_def lost_def split: option.splits)

lemma tryGet_ok:
  assumes "pool_ok k s"
  shows "pool_ok k (s\<lparr>pl_h := snd (tryGet url (pl_h s))\<rparr>) \<and> pool_goes s (s\<lparr>pl_h := snd (tryGet url (pl_h s))\<rparr>)"
proof (cases rule: tryGet_cases [of url "pl_h s"])
  case 1
  then show ?thesis using assms by (simp add: pool_goes_def)
next
  case (2 l)
  have "distinct (map fst (hp_p (pl_h s)))"
    using assms by (simp add: pool_ok_def)
  then have "int (total (AList.update (cacheKey url) (butlast l) (hp_p (pl_h s)))) = int (total (hp_p (pl_h s))) - 1"
    using total_update [of "hp_p (pl_h s)" "cacheKey url" "butlast l"] 2(1,2) by (cases l) simp_all
  moreover have "1 \<le> total (hp_p (pl_h s))"
    using length_le_total [OF 2(1)] 2(2) by (cases l) simp_all
  ultimately show ?thesis
    using assms drainSize_nonneg [OF assms] unfolding 2(3) pool_ok_def pool_goes_def lost_def places_def
    by (auto simp: distinct_update)
qed

lemma putBack_ok:
  assumes "pool_ok k s" "pl_hand s = Some x"
  shows "pool_ok k (s\<lparr>pl_h := putBack x (pl_h s), pl_hand := None, pl_st := st\<rparr>) \<and>
    pool_goes s (s\<lparr>pl_h := putBack x (pl_h s), pl_hand := None, pl_st := st\<rparr>)"
proof -
  have "distinct (map fst (hp_p (pl_h s)))" using assms(1) by (simp add: pool_ok_def)
  then show ?thesis
    using assms total_update [of "hp_p (pl_h s)" "CacheKey x"]
    by (auto simp: putBack_def Let_def pool_ok_def pool_goes_def lost_def places_def distinct_update split: option.split)
qed

text \<open>A response that cannot be read to its end costs a place.\<close>

lemma failed_drain:
  assumes "pl_hand s = Some x" "hc_resp x = Some r" "discardN (hp_maxDrainSize (pl_h s)) r (pl_st s) = Some e"
    and "drain_done x (pl_h s) (pl_st s) = (h, st)"
  shows "h = pl_h s" "lost (s\<lparr>pl_h := h, pl_hand := None, pl_st := st\<rparr>) = lost s + 1"
  using assms by (auto simp: drain_done_def lost_def)

lemma drain_done_ok:
  assumes "pool_ok k s" "pl_hand s = Some x" "drain_done x (pl_h s) (pl_st s) = (h, st)"
  shows "pool_ok k (s\<lparr>pl_h := h, pl_hand := None, pl_st := st\<rparr>) \<and>
    pool_goes s (s\<lparr>pl_h := h, pl_hand := None, pl_st := st\<rparr>)"
proof -
  obtain r where r: "hc_resp x = Some r" using assms(1,2) by (auto simp: pool_ok_def)
  show ?thesis
  proof (cases "discardN (hp_maxDrainSize (pl_h s)) r (pl_st s)")
    case None
    then have "h = putBack x (pl_h s)" using assms(3) by (simp add: drain_done_def r)
    then show ?thesis using putBack_ok [OF assms(1,2)] by simp
  next
    case (Some e)
    then show ?thesis
      using assms failed_drain [OF assms(2) r Some assms(3)]
      by (auto simp: pool_ok_def pool_goes_def places_def)
  qed
qed

lemma pool_step_ok: "pool_step k s t \<Longrightarrow> pool_ok k s \<Longrightarrow> pool_ok k t \<and> pool_goes s t"
proof (induction rule: pool_step.induct)
  case (ps_tryGet s url)
  then show ?case by (rule tryGet_ok)
next
  case (ps_done s x h st)
  then show ?case by (simp only: drain_done_ok)
qed (auto simp: pool_ok_def pool_goes_def lost_def places_def tryCreate_def shouldPut_def tryDrain_def drain_take_def
    split: list.splits option.splits)

lemma pool_steps_ok: "(pool_step k)\<^sup>*\<^sup>* s t \<Longrightarrow> pool_ok k s \<Longrightarrow> pool_ok k t \<and> pool_goes s t"
  by (induction rule: rtranclp_induct) (auto simp: pool_goes_def dest!: pool_step_ok)

definition new_pooled :: "HClientPool \<Rightarrow> hstore \<Rightarrow> pooled" where
  "new_pooled h st = \<lparr>pl_h = h, pl_puts = [], pl_hand = None, pl_st = st\<rparr>"

lemma NewHClientPool_ok: "pool_ok k (new_pooled (NewHClientPool name m t d) st)"
  by (simp add: NewHClientPool_def new_pooled_def pool_ok_def total_def lost_def places_def)

lemma lost_fills:
  assumes "pool_ok k s" "hp_maxPoolSize (pl_h s) \<le> lost s + 1"
  shows "\<not> shouldPut (pl_h s)" "hp_size (pl_h s) < int k \<or> hp_size (pl_h s) = 0"
  using assms by (auto simp: pool_ok_def lost_def places_def shouldPut_def split: option.splits)

text \<open>
  C33: The pool counts its idle clients. With at most \<open>k\<close> calls of \<open>Put\<close> at once, the places it has given
  out (idle, waiting, about to wait) are at most its maximum plus \<open>k - 2\<close>: one caller alone stays below the
  maximum, several may pass it together. A client whose last response ends in an error while it is
  drained is given up without giving its place back: places are lost for good, and once all but one are
  lost the pool refuses every client for ever and has fewer than \<open>k\<close> idle ones.
\<close>

theorem pool_loses_places:
  assumes "(pool_step k)\<^sup>*\<^sup>* (new_pooled (NewHClientPool name m t d) st0) s" and "(pool_step k)\<^sup>*\<^sup>* s s'"
  shows "hp_size (pl_h s') = int (total (hp_p (pl_h s'))) \<and>
    (places s' \<le> m - 2 + int k \<or> places s' = 0) \<and>
    lost s \<le> lost s' \<and>
    (\<forall>x r e h st. pl_hand s = Some x \<longrightarrow> hc_resp x = Some r \<longrightarrow> discardN d r (pl_st s) = Some e \<longrightarrow>
      drain_done x (pl_h s) (pl_st s) = (h, st) \<longrightarrow>
      h = pl_h s \<and> lost (s\<lparr>pl_h := h, pl_hand := None, pl_st := st\<rparr>) = lost s + 1) \<and>
    (m \<le> lost s + 1 \<longrightarrow> (\<forall>c. pool_Put c (pl_h s') = (False, pl_h s')) \<and>
      (hp_size (pl_h s') < int k \<or> hp_size (pl_h s') = 0))"
proof -
  have s: "pool_ok k s" "hp_maxPoolSize (pl_h s) = m" "hp_maxDrainSize (pl_h s) = d"
    using pool_steps_ok [OF assms(1) NewHClientPool_ok] by (simp_all add: pool_goes_def new_pooled_def NewHClientPool_def)
  have s': "pool_ok k s'" "hp_maxPoolSize (pl_h s') = m" "lost s \<le> lost s'"
    using pool_steps_ok [OF assms(2) s(1)] s(2) by (simp_all add: pool_goes_def)
  have "hp_size (pl_h s') = int (total (hp_p (pl_h s')))" "places s' \<le> m - 2 + int k \<or> places s' = 0"
    using s'(1,2) unfolding pool_ok_def by blast+
  moreover have "m \<le> lost s + 1 \<longrightarrow> (\<forall>c. pool_Put c (pl_h s') = (False, pl_h s')) \<and>
      (hp_size (pl_h s') < int k \<or> hp_size (pl_h s') = 0)"
    using lost_fills [OF s'(1)] s'(2,3) by (auto simp: pool_Put_def)
  ultimately show ?thesis
    using s'(3) failed_drain [of s] s(3) by blast
qed

definition s_client :: HClient where
  "s_client = \<lparr>hc_URL = \<lparr>u_Scheme = ''http'', u_User = None, u_Host = ''a'', u_Path = '''', u_RawQuery = '''',
     u_Fragment = '''', u_rest = ''''\<rparr>, hc_resp = Some 0, hc_err = None\<rparr>"

definition s_broken :: hstore where
  "s_broken = st_init (hworld_init\<lparr>hw_readers := [RNet ''ab'' (Some ''unexpected EOF'') False]\<rparr>)"

text \<open>A pool of two after one broken response: it is empty for ever.\<close>

definition s_pool :: HClientPool where
  "s_pool = fst (drain_done s_client (snd (drain_take (tryDrain s_client (NewHClientPool ''p'' 2 30 4096)))) s_broken)"

lemma broken_run:
  "\<exists>st. (pool_step 1)\<^sup>*\<^sup>* (new_pooled (NewHClientPool ''p'' 2 30 4096) s_broken) (new_pooled s_pool st)"
proof -
  let ?n = "NewHClientPool ''p'' 2 30 4096"
  let ?s = "new_pooled ?n s_broken"
  have "(pool_step 1)\<^sup>*\<^sup>* ?s (?s\<lparr>pl_h := snd (pool_Put s_client ?n)\<rparr>)"
    using pool_Put_steps [of ?s 1 s_client] by (simp add: new_pooled_def)
  also have "snd (pool_Put s_client ?n) = tryDrain s_client ?n"
    by (simp add: pool_Put_def shouldPut_def NewHClientPool_def)
  finally have put: "(pool_step 1)\<^sup>*\<^sup>* ?s (?s\<lparr>pl_h := tryDrain s_client ?n\<rparr>)" .
  obtain h where take: "drain_take (tryDrain s_client ?n) = (Some s_client, h)"
    by (simp add: drain_take_def tryDrain_def s_client_def NewHClientPool_def)
  obtain st where run: "drain_done s_client h s_broken = (s_pool, st)"
    unfolding s_pool_def take by (metis prod.exhaust_sel snd_conv)
  let ?t = "?s\<lparr>pl_h := tryDrain s_client ?n\<rparr>"
  have "pool_step 1 ?t (?t\<lparr>pl_h := h, pl_hand := Some s_client\<rparr>)"
    using take by (intro ps_take) (simp_all add: new_pooled_def)
  moreover have "pool_step 1 (?t\<lparr>pl_h := h, pl_hand := Some s_client\<rparr>)
      (?t\<lparr>pl_h := h, pl_hand := Some s_client\<rparr>\<lparr>pl_h := s_pool, pl_hand := None, pl_st := st\<rparr>)"
    using run by (intro ps_done) (simp_all add: new_pooled_def)
  ultimately have "(pool_step 1)\<^sup>*\<^sup>* ?s (?t\<lparr>pl_h := s_pool, pl_hand := None, pl_st := st\<rparr>)"
    using put by (auto intro: rtranclp.rtrancl_into_rtrancl)
  then show ?thesis by (auto simp: new_pooled_def)
qed

theorem pool_loses_places_witness:
  "shouldPut (NewHClientPool ''p'' 2 30 4096) \<and> pool_Put s_client s_pool = (False, s_pool) \<and> hp_size s_pool = 0"
proof -
  obtain st where run: "(pool_step 1)\<^sup>*\<^sup>* (new_pooled (NewHClientPool ''p'' 2 30 4096) s_broken) (new_pooled s_pool st)"
    using broken_run by blast
  have "lost (new_pooled s_pool st) = 1"
    by (simp add: s_pool_def drain_take_def drain_done_def NewHClientPool_def tryDrain_def s_client_def new_pooled_def
        s_broken_def discardN_def ReadAll_def st_init_def hworld_init_def lost_def)
  moreover have "0 \<le> hp_size s_pool"
    using pool_loses_places [OF run rtranclp.rtrancl_refl] by (simp add: new_pooled_def)
  ultimately show ?thesis
    using pool_loses_places [OF run rtranclp.rtrancl_refl]
    by (auto simp: shouldPut_def NewHClientPool_def new_pooled_def)
qed

text \<open>Two calls of \<open>Put\<close> at once on a pool for less than two clients: both find room.\<close>

lemma concurrent_puts_overshoot:
  "\<exists>s. (pool_step 2)\<^sup>*\<^sup>* (new_pooled (NewHClientPool ''p'' 2 30 4096) st) s \<and> hp_drainSize (pl_h s) = 2"
proof -
  let ?n = "NewHClientPool ''p'' 2 30 4096"
  let ?s = "new_pooled ?n st"
  let ?h = "tryDrain s_client ?n"
  have "pool_step 2 ?s (?s\<lparr>pl_puts := [s_client]\<rparr>)"
    using ps_check [of ?s 2 s_client] by (simp add: new_pooled_def shouldPut_def NewHClientPool_def)
  moreover have "pool_step 2 (?s\<lparr>pl_puts := [s_client]\<rparr>) (?s\<lparr>pl_puts := [s_client, s_client]\<rparr>)"
    using ps_check [of "?s\<lparr>pl_puts := [s_client]\<rparr>" 2 s_client]
    by (simp add: new_pooled_def shouldPut_def NewHClientPool_def)
  moreover have "pool_step 2 (?s\<lparr>pl_puts := [s_client, s_client]\<rparr>) (?s\<lparr>pl_h := ?h, pl_puts := [s_client]\<rparr>)"
    using ps_queue [of "?s\<lparr>pl_puts := [s_client, s_client]\<rparr>" "[]" s_client "[s_client]" 2] by (simp add: new_pooled_def)
  moreover have "pool_step 2 (?s\<lparr>pl_h := ?h, pl_puts := [s_client]\<rparr>) (?s\<lparr>pl_h := tryDrain s_client ?h, pl_puts := []\<rparr>)"
    using ps_queue [of "?s\<lparr>pl_h := ?h, pl_puts := [s_client]\<rparr>" "[]" s_client "[]" 2] by (simp add: new_pooled_def)
  ultimately have "(pool_step 2)\<^sup>*\<^sup>* ?s (?s\<lparr>pl_h := tryDrain s_client ?h, pl_puts := []\<rparr>)"
    by (meson converse_rtranclp_into_rtranclp r_into_rtranclp)
  then show ?thesis
    by (intro exI conjI) (auto simp: tryDrain_def s_client_def NewHClientPool_def)
qed

end
