(* ===== verification/HplConfig.thy ===== *)
theory HplConfig
  imports HplWorld
begin

text \<open>
  Configuration arguments (\<open>hpl/pl_config.go\<close>) and the wrapper of a Go string list
  (\<open>pl/obj_str_list.go\<close>). The getters write through a pointer when they succeed; here they return
  what they would write.
\<close>

section \<open>Configuration arguments\<close>

text \<open>
  A closure should be called for its value, but it is first taken for a user object, which panics.
  The messages of a failed evaluation print the error where the index belongs.
\<close>

definition tryeval :: "val \<Rightarrow> val res" where
  "tryeval v = (case v of VClosure _ \<Rightarrow> Panic ''must: must be user'' | _ \<Rightarrow> Ok v)"

definition eval_error :: "string \<Rightarrow> string" where
  "eval_error e = ''%!d(string='' @ e @ '')'' @ CHR 39 # ''th elements evaluation error: %!s(MISSING)''"

definition cfg_Get :: "val list \<Rightarrow> nat \<Rightarrow> val res" where
  "cfg_Get args index =
     (if length args \<le> index then Err ''out of range!''
      else (case tryeval (args ! index) of
              Err e \<Rightarrow> Err (eval_error e)
            | r \<Rightarrow> r))"

text \<open>What the \<open>Try\<close> variants make of a getter: an error is the default, a panic stays one.\<close>

definition or_default :: "'a res \<Rightarrow> 'a \<Rightarrow> 'a res" where
  "or_default r def = (case r of Err _ \<Rightarrow> Ok def | r \<Rightarrow> r)"

definition cfg_TryGet :: "val list \<Rightarrow> nat \<Rightarrow> val \<Rightarrow> val res" where
  "cfg_TryGet args index def = or_default (cfg_Get args index) def"

definition nth_elem :: "nat \<Rightarrow> string \<Rightarrow> string" where
  "nth_elem index s = nat_digits index @ CHR 39 # ''th elements '' @ s"

definition cfg_GetStr :: "hworld oenv \<Rightarrow> hstore \<Rightarrow> val list \<Rightarrow> nat \<Rightarrow> string res" where
  "cfg_GetStr env st args index =
     rbind (cfg_Get args index) (\<lambda>arg.
       case v_ToString env st arg of
         Err e \<Rightarrow> Err (nth_elem index (''cannot be converted to string: '' @ e))
       | r \<Rightarrow> r)"

definition cfg_TryGetStr :: "hworld oenv \<Rightarrow> hstore \<Rightarrow> val list \<Rightarrow> nat \<Rightarrow> string \<Rightarrow> string res" where
  "cfg_TryGetStr env st args index def = or_default (cfg_GetStr env st args index) def"

text \<open>The test is the wrong way round: an integer is refused, anything else is read as one.\<close>

definition cfg_GetInt :: "val list \<Rightarrow> nat \<Rightarrow> int64 res" where
  "cfg_GetInt args index =
     rbind (cfg_Get args index) (\<lambda>arg.
       if v_Type arg = ValInt then Err (nth_elem index ''is not int'') else v_Int arg)"

definition cfg_TryGetInt :: "val list \<Rightarrow> nat \<Rightarrow> int64 \<Rightarrow> int64 res" where
  "cfg_TryGetInt args index def = or_default (cfg_GetInt args index) def"

definition cfg_GetInt64 :: "val list \<Rightarrow> nat \<Rightarrow> int64 res" where
  "cfg_GetInt64 args index =
     rbind (cfg_Get args index) (\<lambda>arg.
       if v_Type arg = ValInt then Err (nth_elem index ''is not int'') else v_Int arg)"

definition cfg_TryGetInt64 :: "val list \<Rightarrow> nat \<Rightarrow> int64 \<Rightarrow> int64 res" where
  "cfg_TryGetInt64 args index def = or_default (cfg_GetInt64 args index) def"

definition cfg_GetReal :: "val list \<Rightarrow> nat \<Rightarrow> fl res" where
  "cfg_GetReal args index =
     rbind (cfg_Get args index) (\<lambda>arg.
       if v_Type arg \<noteq> ValReal then Err (nth_elem index ''is not real'') else v_Real arg)"

definition cfg_TryGetReal :: "val list \<Rightarrow> nat \<Rightarrow> fl \<Rightarrow> fl res" where
  "cfg_TryGetReal args index def = or_default (cfg_GetReal args index) def"

definition cfg_GetBool :: "val list \<Rightarrow> nat \<Rightarrow> bool res" where
  "cfg_GetBool args index =
     rbind (cfg_Get args index) (\<lambda>arg.
       if v_Type arg \<noteq> ValBool then Err (nth_elem index ''is not bool'') else v_Bool arg)"

definition cfg_TryGetBool :: "val list \<Rightarrow> nat \<Rightarrow> bool \<Rightarrow> bool res" where
  "cfg_TryGetBool args index def = or_default (cfg_GetBool args index) def"

definition cfg_At :: "val list \<Rightarrow> nat \<Rightarrow> val res" where
  "cfg_At args index = (if length args \<le> index then Panic ''out of range!'' else Ok (args ! index))"

definition cfg_Any :: "val list \<Rightarrow> nat \<Rightarrow> val res" where
  "cfg_Any args index = rbind (cfg_At args index) tryeval"

text \<open>
  an integer of the configuration is never used. Reading one gives the default if there is no
  argument or it is an integer, whatever its value, and panics if it is anything else.
\<close>

theorem config_int_is_ignored:
  "cfg_TryGetInt args index def =
     (if length args \<le> index \<or> v_Type (args ! index) = ValInt then Ok def
      else Panic (if v_Type (args ! index) = ValClosure then ''must: must be user'' else ''must: must be int''))"
  by (cases "args ! index") (auto simp: cfg_TryGetInt_def or_default_def cfg_GetInt_def cfg_Get_def tryeval_def)

section \<open>String lists\<close>

text \<open>\<open>gostrlist\<close> points to the appendix of a log line; pointer \<open>l\<close> is that line.\<close>

definition get_strs :: "hstore \<Rightarrow> nat \<Rightarrow> string list res" where
  "get_strs st l = rbind (deref (hw_logs (st_world st)) l) (\<lambda>x. Ok (lg_Appendix x))"

definition set_strs :: "nat \<Rightarrow> string list \<Rightarrow> hstore \<Rightarrow> hstore" where
  "set_strs l xs st = on_world (hw_logs_update (\<lambda>ls. ls[l := (ls ! l)\<lparr>lg_Appendix := xs\<rparr>])) st"

text \<open>An index behind the end is clipped to the length, which is still behind the end.\<close>

definition strs_Index :: "nat \<Rightarrow> val \<Rightarrow> hstore \<Rightarrow> val res" where
  "strs_Index l key st =
     (case ToIndex key of
        Ok idx \<Rightarrow>
          rbind (get_strs st l) (\<lambda>xs.
            let i = (if length xs \<le> idx then length xs else idx)
            in if i < length xs then Ok (VStr (xs ! i)) else Panic ''index out of range'')
      | Err e \<Rightarrow> Err (''string list index: '' @ e)
      | Panic p \<Rightarrow> Panic p
      | Diverge \<Rightarrow> Diverge)"

definition strs_IndexSet :: "nat \<Rightarrow> val \<Rightarrow> val \<Rightarrow> hstore \<Rightarrow> unit res \<times> hstore" where
  "strs_IndexSet l key value st =
     (case ToIndex key of
        Ok idx \<Rightarrow>
          (case value of
             VStr s \<Rightarrow>
               rlift (get_strs st l) st (\<lambda>xs st.
                 if length xs \<le> idx then (Err ''string list index set: index out of bound'', st)
                 else (Ok (), set_strs l (xs[idx := s]) st))
           | _ \<Rightarrow> (Err ''string list index set: value cannot be converted to string'', st))
      | Err e \<Rightarrow> (Err (''string list index set: '' @ e), st)
      | Panic p \<Rightarrow> (Panic p, st)
      | Diverge \<Rightarrow> (Diverge, st))"

definition strs_Dot :: "string \<Rightarrow> val res" where
  "strs_Dot k = Err ''string list dot: unsupported operator''"

definition strs_DotSet :: "string \<Rightarrow> val \<Rightarrow> unit res" where
  "strs_DotSet k v = Err ''string list dot set: unsupported operator''"

definition strs_ToString :: "nat \<Rightarrow> hstore \<Rightarrow> string res" where
  "strs_ToString l st = rbind (get_strs st l) (\<lambda>xs. Ok (str_join '', '' xs))"

fun as_strings :: "val list \<Rightarrow> string list res" where
  "as_strings [] = Ok []"
| "as_strings (x # xs) = rbind (v_String x) (\<lambda>s. rbind (as_strings xs) (\<lambda>ss. Ok (s # ss)))"

text \<open>The methods that change the list answer with a new value for it.\<close>

definition strs_Method :: "hworld oenv \<Rightarrow> nat \<Rightarrow> string \<Rightarrow> val list \<Rightarrow> hstore \<Rightarrow> val res \<times> hstore" where
  "strs_Method env l name args st =
     (if name = ''length'' then
        rlift (check_args env st ''.str_list.length'' ''%0'' args) st (\<lambda>_ st.
        rlift (get_strs st l) st (\<lambda>xs st. (Ok (VInt (i64_of_nat (length xs))), st)))
      else if name = ''push_back'' then
        rlift (check_args env st ''.str_list.push_back'' ''{%s}{%s%s*}'' args) st (\<lambda>_ st.
        rlift (get_strs st l) st (\<lambda>xs st.
        rlift (as_strings args) st (\<lambda>ss st.
          let (v, st) = new_obj (OStrList l) (set_strs l (xs @ ss) st) in (Ok v, st))))
      else if name = ''pop_back'' then
        rlift (check_args env st ''.str_list.pop_Back'' ''{%d}{%0}'' args) st (\<lambda>alog st.
        rlift (get_strs st l) st (\<lambda>xs st.
        rlift (if alog = 1 then rbind (v_Int (args ! 0)) (\<lambda>i. Ok (if sint i < 0 then 0 else nat (sint i))) else Ok 1) st
          (\<lambda>num st.
            let (v, st) = new_obj (OStrList l)
              (set_strs l (if num < length xs then take (length xs - num) xs else []) st)
            in (Ok v, st))))
      else (Err (StrListTypeId @ '' metohd: '' @ name @ '' is unknown''), st))"

definition strs_NewIterator :: "nat \<Rightarrow> hstore \<Rightarrow> nat res \<times> hstore" where
  "strs_NewIterator l st = (let (i, st) = new_uiter (IStrs l 0) st in (Ok i, st))"

definition strsiter_Has :: "nat \<Rightarrow> nat \<Rightarrow> hstore \<Rightarrow> bool res" where
  "strsiter_Has l cursor st = rbind (get_strs st l) (\<lambda>xs. Ok (cursor < length xs))"

definition strsiter_Next :: "nat \<Rightarrow> nat \<Rightarrow> hstore \<Rightarrow> (bool \<times> uiter_obj) res" where
  "strsiter_Next l cursor st = rbind (strsiter_Has l (Suc cursor) st) (\<lambda>b. Ok (b, IStrs l (Suc cursor)))"

definition strsiter_Deref :: "nat \<Rightarrow> nat \<Rightarrow> hstore \<Rightarrow> (val \<times> val) res" where
  "strsiter_Deref l cursor st =
     rbind (get_strs st l) (\<lambda>xs.
       if cursor < length xs then Ok (VInt (i64_of_nat cursor), VStr (xs ! cursor))
       else Err ''iterator out of bound'')"

section \<open>The access log object\<close>

definition newAccessLog :: "nat \<Rightarrow> hstore \<Rightarrow> val \<times> hstore" where
  "newAccessLog l st =
     (let (a, st) = new_obj (OStrList l) st in new_obj (OLog \<lparr>al_l = l, al_appendix = a\<rparr>) st)"

definition log_of :: "hstore \<Rightarrow> nat \<Rightarrow> accesslog res" where
  "log_of st u = rbind (get_obj st u) (\<lambda>x. case x of OLog a \<Rightarrow> Ok a | _ \<Rightarrow> Panic ''nil pointer'')"

text \<open>The identity asked for is not the identity access logs have.\<close>

definition ValIsAccessLog :: "hworld oenv \<Rightarrow> hstore \<Rightarrow> val \<Rightarrow> bool res" where
  "ValIsAccessLog env st v = has_id env st ''.access_log'' v"

definition log_Index :: "nat \<Rightarrow> val \<Rightarrow> hstore \<Rightarrow> val res" where
  "log_Index u key st =
     (case key of
        VStr k \<Rightarrow>
          rbind (log_of st u) (\<lambda>a.
            if k = ''format'' then
              rbind (deref (hw_logs (st_world st)) (al_l a)) (\<lambda>l. Ok (VStr (fmt_Raw (lg_Format l))))
            else if k = ''appendix'' then Ok (al_appendix a)
            else Err (AccessLogTypeId @ '' index: key '' @ k @ '' is unknown''))
      | _ \<Rightarrow> Err (AccessLogTypeId @ '' index: key type is invalid''))"

definition log_Dot :: "nat \<Rightarrow> string \<Rightarrow> hstore \<Rightarrow> val res" where
  "log_Dot u key st = log_Index u (VStr key) st"

definition log_IndexSet :: "val \<Rightarrow> val \<Rightarrow> unit res" where
  "log_IndexSet k v = Err (AccessLogTypeId @ '' does not support index set'')"

definition log_DotSet :: "string \<Rightarrow> val \<Rightarrow> unit res" where
  "log_DotSet k v = Err (AccessLogTypeId @ '' does not support dot set'')"

definition log_Method :: "string \<Rightarrow> val list \<Rightarrow> val res" where
  "log_Method name args = Err (''%!d(string='' @ AccessLogTypeId @ '')'' @ CHR 39 # ''s method '' @ name @ '' is unknown'')"

definition log_Info :: string where "log_Info = AccessLogTypeId"

definition log_ToString :: "string res" where "log_ToString = Ok log_Info"

definition log_NewIterator :: "nat res" where
  "log_NewIterator = Err (AccessLogTypeId @ '' does not support iterator'')"

lemma no_value_is_an_access_log:
  "hpl_env env \<Longrightarrow> get_obj st u = Ok x \<Longrightarrow> ValIsAccessLog env st (VUsr u) = Ok False"
  by (cases x) (simp_all add: ValIsAccessLog_def has_id_def hpl_env_def type_ids)

end
