(* ===== verification/HplSearch.thy ===== *)
theory HplSearch
  imports HplWorld
begin

text \<open>
  The query of a URL as a list of pairs (\<open>hpl/url_search.go\<close>): a slice that deletion partitions in
  place. \<open>ho\<close> is the order in which the runtime walks a map, \<open>grow\<close> how it grows a slice.
\<close>

section \<open>Operations on the slice\<close>

type_synonym kv = "string \<times> string"

text \<open>
  \<open>Delete\<close> runs one index up over the pairs with the key and one down over the others, and swaps
  where both stop.
\<close>

function find_top :: "kv mem \<Rightarrow> slice \<Rightarrow> string \<Rightarrow> nat \<Rightarrow> nat \<Rightarrow> nat res" where
  "find_top m s key lo hi =
     (if lo < hi then
        rbind (sl_get m s lo) (\<lambda>x. if fst x = key then find_top m s key (Suc lo) hi else Ok lo)
      else Ok lo)"
  by pat_completeness auto
termination
  by (relation "measure (\<lambda>(m, s, key, lo, hi). hi - lo)") auto

function find_bot :: "kv mem \<Rightarrow> slice \<Rightarrow> string \<Rightarrow> nat \<Rightarrow> nat \<Rightarrow> nat res" where
  "find_bot m s key lo hi =
     (if lo < hi then
        rbind (sl_get m s hi) (\<lambda>x. if fst x = key then Ok hi else find_bot m s key lo (hi - 1))
      else Ok hi)"
  by pat_completeness auto
termination
  by (relation "measure (\<lambda>(m, s, key, lo, hi). hi)") auto

declare find_top.simps [simp del] find_bot.simps [simp del]

lemma find_top_ge: "find_top m s key lo hi = Ok t \<Longrightarrow> lo \<le> t"
proof (induction m s key lo hi rule: find_top.induct)
  case (1 m s key lo hi)
  show ?case
  proof (cases "lo < hi")
    case True
    then obtain x where "sl_get m s lo = Ok x" "(if fst x = key then find_top m s key (Suc lo) hi else Ok lo) = Ok t"
      using "1.prems" by (subst (asm) find_top.simps) (auto elim: rbind_OkE)
    then show ?thesis using "1.IH" [OF True] by (fastforce split: if_splits)
  qed (use "1.prems" in \<open>simp add: find_top.simps\<close>)
qed

lemma find_bot_le: "find_bot m s key lo hi = Ok b \<Longrightarrow> b \<le> hi"
proof (induction m s key lo hi rule: find_bot.induct)
  case (1 m s key lo hi)
  show ?case
  proof (cases "lo < hi")
    case True
    then obtain x where "sl_get m s hi = Ok x" "(if fst x = key then Ok hi else find_bot m s key lo (hi - 1)) = Ok b"
      using "1.prems" by (subst (asm) find_bot.simps) (auto elim: rbind_OkE)
    then show ?thesis using "1.IH" [OF True] by (fastforce split: if_splits)
  qed (use "1.prems" in \<open>simp add: find_bot.simps\<close>)
qed

function delete_loop :: "slice \<Rightarrow> string \<Rightarrow> kv mem \<Rightarrow> nat \<Rightarrow> nat \<Rightarrow> (kv mem \<times> nat) res" where
  "delete_loop s key m lo hi =
     (if lo < hi then
        rbind (find_top m s key lo hi) (\<lambda>lo'.
          if lo' = hi then Ok (m, lo')
          else
            rbind (find_bot m s key lo' (hi - 1)) (\<lambda>hi'.
              if lo' = hi' then Ok (m, lo')
              else
                rbind (sl_get m s hi') (\<lambda>t.
                rbind (sl_get m s lo') (\<lambda>x.
                rbind (sl_set m s hi' x) (\<lambda>m.
                rbind (sl_set m s lo' t) (\<lambda>m.
                  delete_loop s key m (Suc lo') hi'))))))
      else Ok (m, lo))"
  by pat_completeness auto
termination
  by (relation "measure (\<lambda>(s, key, m, lo, hi). hi - lo)")
    (auto dest!: find_top_ge find_bot_le)

declare delete_loop.simps [simp del]

section \<open>The object\<close>

definition search_of :: "hstore \<Rightarrow> nat \<Rightarrow> slice res" where
  "search_of st u = rbind (get_obj st u) (\<lambda>x. case x of OSearch s \<Rightarrow> Ok s | _ \<Rightarrow> Panic ''nil pointer'')"

definition kv_mem :: "hstore \<Rightarrow> kv mem" where
  "kv_mem st = hw_kv (st_world st)"

definition set_search :: "nat \<Rightarrow> kv mem \<Rightarrow> slice \<Rightarrow> hstore \<Rightarrow> hstore" where
  "set_search u m s st = set_obj u (OSearch s) (on_world (hw_kv_update (\<lambda>_. m)) st)"

text \<open>\<open>newUrlSearch\<close>: a list literal without elements, then one append after another.\<close>

definition append_all :: "(nat \<Rightarrow> nat) \<Rightarrow> kv list \<Rightarrow> kv mem \<times> slice \<Rightarrow> kv mem \<times> slice" where
  "append_all grow kvs ms = fold (\<lambda>x (m, s). sl_append grow ('''', '''') m s x) kvs ms"

definition newUrlSearch :: "hworld oenv \<Rightarrow> (hdr \<Rightarrow> hdr) \<Rightarrow> hdr \<Rightarrow> hstore \<Rightarrow> slice \<times> hstore" where
  "newUrlSearch env ho q st =
     (let (m, s) = append_all (oe_grow env) (concat (map (\<lambda>(k, vs). map (\<lambda>v. (k, v)) vs) (ho q))) (sl_new (kv_mem st) [])
      in (s, on_world (hw_kv_update (\<lambda>_. m)) st))"

definition NewUrlSearchValFromValues :: "hworld oenv \<Rightarrow> (hdr \<Rightarrow> hdr) \<Rightarrow> hdr \<Rightarrow> hstore \<Rightarrow> val \<times> hstore" where
  "NewUrlSearchValFromValues env ho q st = (let (s, st) = newUrlSearch env ho q st in new_obj (OSearch s) st)"

definition NewUrlSearchValFromString ::
  "hworld oenv \<Rightarrow> (string \<Rightarrow> string) \<Rightarrow> (hdr \<Rightarrow> hdr) \<Rightarrow> string \<Rightarrow> hstore \<Rightarrow> val res \<times> hstore" where
  "NewUrlSearchValFromString env quote ho input st =
     (case parse_query quote input [] None of
        (_, Some e) \<Rightarrow> (Err e, st)
      | (q, None) \<Rightarrow> let (v, st) = NewUrlSearchValFromValues env ho q st in (Ok v, st))"

text \<open>
  \<open>String\<close>: the arguments stand behind the closing parenthesis of \<open>Sprintf\<close>, so each pair adds
  three parts, the first of them the text of a format without its arguments.
\<close>

definition UrlSearch_String :: "kv list \<Rightarrow> string" where
  "UrlSearch_String kvs =
     str_join ''&'' (concat (map (\<lambda>(k, v). [''%!s(MISSING)=%!s(MISSING)'', k, QueryEscape v]) kvs))"

definition UrlSearch_Get :: "string \<Rightarrow> kv list \<Rightarrow> string list" where
  "UrlSearch_Get key kvs = map snd (filter (\<lambda>x. fst x = key) kvs)"

fun UrlSearch_GetFirst :: "string \<Rightarrow> kv list \<Rightarrow> string option" where
  "UrlSearch_GetFirst key [] = None"
| "UrlSearch_GetFirst key ((k, v) # kvs) = (if k = key then Some v else UrlSearch_GetFirst key kvs)"

text \<open>What a search holds.\<close>

definition search_kvs :: "hstore \<Rightarrow> nat \<Rightarrow> kv list res" where
  "search_kvs st u = rbind (search_of st u) (\<lambda>s. Ok (sl_abs (kv_mem st) s))"

definition UrlSearch_Delete :: "nat \<Rightarrow> string \<Rightarrow> hstore \<Rightarrow> nat res \<times> hstore" where
  "UrlSearch_Delete u key st =
     rlift (search_of st u) st (\<lambda>s st.
     rlift (delete_loop s key (kv_mem st) 0 (slen s)) st (\<lambda>(m, lo) st.
     rlift (sl_slice s 0 (int lo)) st (\<lambda>t st. (Ok (slen s - lo), set_search u m t st))))"

definition UrlSearch_Append :: "hworld oenv \<Rightarrow> nat \<Rightarrow> string \<Rightarrow> string \<Rightarrow> hstore \<Rightarrow> unit res \<times> hstore" where
  "UrlSearch_Append env u key value st =
     rlift (search_of st u) st (\<lambda>s st.
       let (m, s) = sl_append (oe_grow env) ('''', '''') (kv_mem st) s (key, value) in (Ok (), set_search u m s st))"

definition UrlSearch_Set :: "hworld oenv \<Rightarrow> nat \<Rightarrow> string \<Rightarrow> string \<Rightarrow> hstore \<Rightarrow> unit res \<times> hstore" where
  "UrlSearch_Set env u key value st =
     mbind (UrlSearch_Delete u key st) (\<lambda>_ st. UrlSearch_Append env u key value st)"

definition UrlSearch_Index :: "nat \<Rightarrow> val \<Rightarrow> hstore \<Rightarrow> val res \<times> hstore" where
  "UrlSearch_Index u key st =
     (case key of
        VStr k \<Rightarrow>
          rlift (search_kvs st u) st (\<lambda>kvs st.
            (Ok (case UrlSearch_GetFirst k kvs of Some x \<Rightarrow> VStr x | None \<Rightarrow> VNull), st))
      | _ \<Rightarrow> (Err ''invalid index, UrlSearch index key must be string'', st))"

definition UrlSearch_IndexSet :: "hworld oenv \<Rightarrow> nat \<Rightarrow> val \<Rightarrow> val \<Rightarrow> hstore \<Rightarrow> unit res \<times> hstore" where
  "UrlSearch_IndexSet env u key v st =
     (case (key, v) of
        (VStr k, VStr x) \<Rightarrow> UrlSearch_Append env u k x st
      | _ \<Rightarrow> (Err ''invalid index, UrlSearch index set key and value must be string'', st))"

definition UrlSearch_Dot :: "nat \<Rightarrow> string \<Rightarrow> hstore \<Rightarrow> val res \<times> hstore" where
  "UrlSearch_Dot u name st = UrlSearch_Index u (VStr name) st"

definition UrlSearch_DotSet :: "hworld oenv \<Rightarrow> nat \<Rightarrow> string \<Rightarrow> val \<Rightarrow> hstore \<Rightarrow> unit res \<times> hstore" where
  "UrlSearch_DotSet env u key v st =
     (case v of
        VStr x \<Rightarrow> UrlSearch_Set env u key x st
      | _ \<Rightarrow> (Err ''invalid dot set value, UrlSearch expect value to be string'', st))"

definition UrlSearch_Method :: "hworld oenv \<Rightarrow> nat \<Rightarrow> string \<Rightarrow> val list \<Rightarrow> hstore \<Rightarrow> val res \<times> hstore" where
  "UrlSearch_Method env u name args st =
     (if name = ''get'' then
        rlift (check_args env st ''.urlsearch.get'' ''%s'' args) st (\<lambda>_ st.
        rlift (v_String (args ! 0)) st (\<lambda>k st.
        rlift (search_kvs st u) st (\<lambda>kvs st.
          (Ok (case UrlSearch_GetFirst k kvs of Some x \<Rightarrow> VStr x | None \<Rightarrow> VNull), st))))
      else if name = ''getAll'' then
        rlift (check_args env st ''.urlsearch.getAll'' ''%s'' args) st (\<lambda>_ st.
        rlift (v_String (args ! 0)) st (\<lambda>k st.
        rlift (search_kvs st u) st (\<lambda>kvs st.
          let (l, st) = new_list st
          in rlift (v_List l) st (\<lambda>p st.
             mbind (List_Append_all env p (map VStr (UrlSearch_Get k kvs)) st) (\<lambda>_ st. (Ok l, st))))))
      else if name = ''delete'' then
        rlift (check_args env st ''.urlsearch.delete'' ''%s'' args) st (\<lambda>_ st.
        rlift (v_String (args ! 0)) st (\<lambda>k st.
        mbind (UrlSearch_Delete u k st) (\<lambda>n st. (Ok (VInt (i64_of_nat n)), st))))
      else if name = ''set'' then
        rlift (check_args env st ''.urlsearch.set'' ''%s%s'' args) st (\<lambda>_ st.
        rlift (v_String (args ! 0)) st (\<lambda>k st. rlift (v_String (args ! 1)) st (\<lambda>v st.
        mbind (UrlSearch_Set env u k v st) (\<lambda>_ st. (Ok VNull, st)))))
      else if name = ''append'' then
        rlift (check_args env st ''.urlsearch.append'' ''%s%s'' args) st (\<lambda>_ st.
        rlift (v_String (args ! 0)) st (\<lambda>k st. rlift (v_String (args ! 1)) st (\<lambda>v st.
        mbind (UrlSearch_Append env u k v st) (\<lambda>_ st. (Ok VNull, st)))))
      else if name = ''string'' then
        rlift (check_args env st ''.urlsearch.string'' ''%0'' args) st (\<lambda>_ st.
        rlift (search_kvs st u) st (\<lambda>kvs st. (Ok (VStr (UrlSearch_String kvs)), st)))
      else (Err (''method: .urlsearch's '' @ name @ '' method is unknown''), st))"

text \<open>The iterator takes the slice as it is now and reads its array when it is asked.\<close>

definition UrlSearch_NewIterator :: "nat \<Rightarrow> hstore \<Rightarrow> nat res \<times> hstore" where
  "UrlSearch_NewIterator u st =
     rlift (search_of st u) st (\<lambda>s st. let (i, st) = new_uiter (ISearch s 0) st in (Ok i, st))"

definition searchiter_Has :: "slice \<Rightarrow> nat \<Rightarrow> bool" where
  "searchiter_Has s cursor \<longleftrightarrow> cursor < slen s"

definition searchiter_Next :: "slice \<Rightarrow> nat \<Rightarrow> bool \<times> uiter_obj" where
  "searchiter_Next s cursor = (searchiter_Has s (Suc cursor), ISearch s (Suc cursor))"

definition searchiter_Deref :: "slice \<Rightarrow> nat \<Rightarrow> hstore \<Rightarrow> (val \<times> val) res" where
  "searchiter_Deref s cursor st =
     (if searchiter_Has s cursor then
        rbind (sl_get (kv_mem st) s cursor) (\<lambda>x. Ok (VStr (fst x), VStr (snd x)))
      else Err ''iterator out of bound'')"

section \<open>What deletion leaves\<close>

lemma find_top_spec:
  "sl_ok m s \<Longrightarrow> lo \<le> hi \<Longrightarrow> hi \<le> slen s \<Longrightarrow>
   \<exists>t. find_top m s key lo hi = Ok t \<and> lo \<le> t \<and> t \<le> hi \<and>
     (\<forall>k. lo \<le> k \<and> k < t \<longrightarrow> fst (sl_abs m s ! k) = key) \<and> (t < hi \<longrightarrow> fst (sl_abs m s ! t) \<noteq> key)"
proof (induction m s key lo hi rule: find_top.induct)
  case (1 m s key lo hi)
  show ?case
  proof (cases "lo < hi \<and> fst (sl_abs m s ! lo) = key")
    case True
    then have g: "sl_get m s lo = Ok (sl_abs m s ! lo)" using 1 by (intro sl_get_abs) auto
    obtain t where t: "find_top m s key (Suc lo) hi = Ok t" "Suc lo \<le> t" "t \<le> hi"
      "\<forall>k. Suc lo \<le> k \<and> k < t \<longrightarrow> fst (sl_abs m s ! k) = key" "t < hi \<longrightarrow> fst (sl_abs m s ! t) \<noteq> key"
      using "1.IH" [of "sl_abs m s ! lo"] True g "1.prems" by auto
    then have "\<forall>k. lo \<le> k \<and> k < t \<longrightarrow> fst (sl_abs m s ! k) = key"
      using True by (metis Suc_leI le_neq_implies_less)
    with t g True show ?thesis by (subst find_top.simps) auto
  next
    case False
    have "sl_get m s lo = Ok (sl_abs m s ! lo)" if "lo < hi" using 1 that by (intro sl_get_abs) auto
    with False "1.prems" show ?thesis by (subst find_top.simps) auto
  qed
qed

lemma find_bot_spec:
  "sl_ok m s \<Longrightarrow> lo \<le> hi \<Longrightarrow> hi < slen s \<Longrightarrow>
   \<exists>b. find_bot m s key lo hi = Ok b \<and> lo \<le> b \<and> b \<le> hi \<and>
     (\<forall>k. b < k \<and> k \<le> hi \<longrightarrow> fst (sl_abs m s ! k) \<noteq> key) \<and> (lo < b \<longrightarrow> fst (sl_abs m s ! b) = key)"
proof (induction m s key lo hi rule: find_bot.induct)
  case (1 m s key lo hi)
  have g: "sl_get m s hi = Ok (sl_abs m s ! hi)" using "1.prems" by (intro sl_get_abs)
  show ?case
  proof (cases "lo < hi \<and> fst (sl_abs m s ! hi) \<noteq> key")
    case True
    obtain b where b: "find_bot m s key lo (hi - 1) = Ok b" "lo \<le> b" "b \<le> hi - 1"
      "\<forall>k. b < k \<and> k \<le> hi - 1 \<longrightarrow> fst (sl_abs m s ! k) \<noteq> key" "lo < b \<longrightarrow> fst (sl_abs m s ! b) = key"
    proof -
      have "lo \<le> hi - 1" "hi - 1 < slen s" using True "1.prems" by auto
      from "1.IH" [OF conjunct1 [OF True] g conjunct2 [OF True] "1.prems"(1) this] that show thesis by blast
    qed
    then have "\<forall>k. b < k \<and> k \<le> hi \<longrightarrow> fst (sl_abs m s ! k) \<noteq> key"
      using True by (metis Suc_diff_1 le_Suc_eq not_gr_zero not_less_zero)
    with b g True show ?thesis by (subst find_bot.simps) auto
  next
    case False
    with g "1.prems" show ?thesis by (subst find_bot.simps) auto
  qed
qed

lemma swap_spec:
  assumes "sl_ok m s" and "i < slen s" and "j < slen s"
  shows "\<exists>m1 m2. sl_set m s j (sl_abs m s ! i) = Ok m1 \<and> sl_set m1 s i (sl_abs m s ! j) = Ok m2 \<and> sl_ok m2 s \<and>
    sl_abs m2 s = (sl_abs m s)[j := sl_abs m s ! i, i := sl_abs m s ! j] \<and> mset (sl_abs m2 s) = mset (sl_abs m s)"
proof -
  obtain m1 where m1: "sl_set m s j (sl_abs m s ! i) = Ok m1" "sl_abs m1 s = (sl_abs m s)[j := sl_abs m s ! i]" "sl_ok m1 s"
    using sl_set_abs [OF assms(1,3)] by blast
  obtain m2 where m2: "sl_set m1 s i (sl_abs m s ! j) = Ok m2" "sl_abs m2 s = (sl_abs m1 s)[i := sl_abs m s ! j]" "sl_ok m2 s"
    using sl_set_abs [OF m1(3) assms(2)] by blast
  moreover have "mset ((sl_abs m s)[j := sl_abs m s ! i, i := sl_abs m s ! j]) = mset (sl_abs m s)"
    using assms(2,3) length_sl_abs [OF assms(1)] by (intro mset_swap) simp_all
  ultimately show ?thesis using m1 by auto
qed

lemma delete_loop_spec:
  "sl_ok m s \<Longrightarrow> lo \<le> hi \<Longrightarrow> hi \<le> slen s \<Longrightarrow> \<forall>k<lo. fst (sl_abs m s ! k) = key \<Longrightarrow>
   \<forall>k. hi \<le> k \<and> k < slen s \<longrightarrow> fst (sl_abs m s ! k) \<noteq> key \<Longrightarrow>
   \<exists>m' t. delete_loop s key m lo hi = Ok (m', t) \<and> sl_ok m' s \<and> t \<le> slen s \<and>
     mset (sl_abs m' s) = mset (sl_abs m s) \<and> (\<forall>k<t. fst (sl_abs m' s ! k) = key) \<and>
     (\<forall>k. t \<le> k \<and> k < slen s \<longrightarrow> fst (sl_abs m' s ! k) \<noteq> key)"
proof (induction s key m lo hi rule: delete_loop.induct)
  case (1 s key m lo hi)
  note ok = "1.prems"(1) and l = length_sl_abs [OF "1.prems"(1)]
  show ?case
  proof (cases "lo < hi")
    case True
    obtain t where t: "find_top m s key lo hi = Ok t" "lo \<le> t" "t \<le> hi"
      "\<forall>k. lo \<le> k \<and> k < t \<longrightarrow> fst (sl_abs m s ! k) = key" "t < hi \<longrightarrow> fst (sl_abs m s ! t) \<noteq> key"
      using find_top_spec [OF ok "1.prems"(2,3)] by blast
    then have low: "\<forall>k<t. fst (sl_abs m s ! k) = key" using "1.prems"(4) by (metis not_le)
    show ?thesis
    proof (cases "t = hi")
      case True
      with t(1) \<open>lo < hi\<close> low "1.prems" show ?thesis by (subst delete_loop.simps) auto
    next
      case False
      with t have th: "t < hi" by simp
      then obtain b where b: "find_bot m s key t (hi - 1) = Ok b" "t \<le> b" "b \<le> hi - 1"
        "\<forall>k. b < k \<and> k \<le> hi - 1 \<longrightarrow> fst (sl_abs m s ! k) \<noteq> key" "t < b \<longrightarrow> fst (sl_abs m s ! b) = key"
      proof -
        have "t \<le> hi - 1" "hi - 1 < slen s" using th "1.prems"(3) by auto
        from find_bot_spec [OF ok this] that show thesis by blast
      qed
      have high: "\<forall>k. b < k \<and> k < slen s \<longrightarrow> fst (sl_abs m s ! k) \<noteq> key"
        using b(4) "1.prems"(5) th by (metis Suc_diff_1 less_Suc_eq_le not_le not_less_zero zero_less_iff_neq_zero)
      show ?thesis
      proof (cases "t = b")
        case True
        with high t(5) th have "\<forall>k. t \<le> k \<and> k < slen s \<longrightarrow> fst (sl_abs m s ! k) \<noteq> key"
          by (metis le_neq_implies_less)
        with True t(1) b(1) \<open>lo < hi\<close> th low "1.prems"(1,3) show ?thesis
          by (subst delete_loop.simps) auto
      next
        case False
        with b have tb: "t < b" "b < slen s" "t < slen s" using "1.prems"(3) th by auto
        obtain m1 m2 where m: "sl_set m s b (sl_abs m s ! t) = Ok m1" "sl_set m1 s t (sl_abs m s ! b) = Ok m2" "sl_ok m2 s"
          "sl_abs m2 s = (sl_abs m s)[b := sl_abs m s ! t, t := sl_abs m s ! b]" "mset (sl_abs m2 s) = mset (sl_abs m s)"
          using swap_spec [OF ok tb(3,2)] by blast
        have g: "sl_get m s b = Ok (sl_abs m s ! b)" "sl_get m s t = Ok (sl_abs m s ! t)"
          using sl_get_abs [OF ok] tb by auto
        have step: "delete_loop s key m lo hi = delete_loop s key m2 (Suc t) b"
          using \<open>lo < hi\<close> t(1) th b(1) False g m(1,2) by (subst delete_loop.simps) auto
        have low2: "\<forall>k<Suc t. fst (sl_abs m2 s ! k) = key"
          using low b(5) tb l by (auto simp: m(4) nth_list_update less_Suc_eq)
        have high2: "\<forall>k. b \<le> k \<and> k < slen s \<longrightarrow> fst (sl_abs m2 s ! k) \<noteq> key"
          using high t(5) th tb l by (auto simp: m(4) nth_list_update)
        have "Suc t \<le> b" "b \<le> slen s" using tb by auto
        from "1.IH" [OF \<open>lo < hi\<close> t(1) _ b(1) False g m(1,2) m(3) this low2 high2] th
        show ?thesis unfolding step m(5) by auto
      qed
    qed
  next
    case False
    with "1.prems" show ?thesis by (subst delete_loop.simps) auto
  qed
qed

lemma filter_split:
  assumes "t \<le> length xs" and "\<forall>k<t. P (xs ! k)" and "\<forall>k. t \<le> k \<and> k < length xs \<longrightarrow> \<not> P (xs ! k)"
  shows "filter P xs = take t xs"
proof -
  have a: "filter P (take t xs) = take t xs"
    using assms(1,2) by (auto simp: filter_id_conv in_set_conv_nth)
  have b: "filter P (drop t xs) = []"
    using assms(3) by (auto simp: filter_empty_conv in_set_conv_nth)
  have "filter P xs = filter P (take t xs @ drop t xs)" by simp
  also have "\<dots> = take t xs" unfolding filter_append a b by simp
  finally show ?thesis .
qed

lemma search_of_set_search:
  "u < length (hw_objs (st_world st)) \<Longrightarrow> search_of (set_search u m s st) u = Ok s"
  by (simp add: search_of_def set_search_def get_obj_def set_obj_def deref_def)

lemma kv_mem_set_search [simp]: "kv_mem (set_search u m s st) = m"
  by (simp add: kv_mem_def set_search_def set_obj_def)

lemma search_bound: "search_of st u = Ok s \<Longrightarrow> u < length (hw_objs (st_world st))"
  by (auto simp: search_of_def get_obj_def deref_def split: if_splits)

lemma UrlSearch_Delete_spec:
  assumes "search_of st u = Ok s" and "sl_ok (kv_mem st) s"
  shows "\<exists>st' t. UrlSearch_Delete u key st = (Ok (length (filter (\<lambda>x. fst x \<noteq> key) (sl_abs (kv_mem st) s))), st') \<and>
    search_of st' u = Ok t \<and> sl_ok (kv_mem st') t \<and>
    mset (sl_abs (kv_mem st') t) = mset (filter (\<lambda>x. fst x = key) (sl_abs (kv_mem st) s))"
proof -
  let ?xs = "sl_abs (kv_mem st) s"
  obtain m t where d: "delete_loop s key (kv_mem st) 0 (slen s) = Ok (m, t)" "sl_ok m s" "t \<le> slen s"
    "mset (sl_abs m s) = mset ?xs" "\<forall>k<t. fst (sl_abs m s ! k) = key"
    "\<forall>k. t \<le> k \<and> k < slen s \<longrightarrow> fst (sl_abs m s ! k) \<noteq> key"
  proof -
    have "\<forall>k<0. fst (?xs ! k) = key" "\<forall>k. slen s \<le> k \<and> k < slen s \<longrightarrow> fst (?xs ! k) \<noteq> key" by auto
    from delete_loop_spec [OF assms(2) le0 le_refl this] that show thesis by blast
  qed
  obtain s' where s': "sl_slice s 0 (int t) = Ok s'" "sl_ok m s'" "sl_abs m s' = take t (sl_abs m s)"
    using sl_slice_abs [OF d(2), of 0 "int t"] d(3) by auto
  have f: "filter (\<lambda>x. fst x = key) (sl_abs m s) = take t (sl_abs m s)"
    using d(3,5,6) length_sl_abs [OF d(2)] by (intro filter_split) auto
  have k: "mset (take t (sl_abs m s)) = mset (filter (\<lambda>x. fst x = key) ?xs)"
    unfolding f [symmetric] mset_filter d(4) ..
  have "length (filter (\<lambda>x. fst x = key) ?xs) = t"
    using k length_sl_abs [OF d(2)] d(3) by (metis length_take min.absorb2 size_mset)
  moreover have "length (filter (\<lambda>x. fst x = key) ?xs) + length (filter (\<lambda>x. fst x \<noteq> key) ?xs) = slen s"
    using sum_length_filter_compl [of "\<lambda>x. fst x = key" ?xs] length_sl_abs [OF assms(2)] by simp
  ultimately have n: "slen s - t = length (filter (\<lambda>x. fst x \<noteq> key) ?xs)" by linarith
  show ?thesis
    using assms(1) d(1) s' k n search_of_set_search [OF search_bound [OF assms(1)]]
    by (simp add: UrlSearch_Delete_def)
qed

text \<open>
  C27: deleting a key from a query deletes everything else. The partition keeps the pairs with the
  key (in some order) and the answer counts the others; setting a key therefore leaves its old
  values in place, drops all other keys and adds the new value at the end.
\<close>

theorem search_delete_keeps_only_the_key:
  assumes "search_kvs st u = Ok kvs" and "search_of st u = Ok s" and "sl_ok (kv_mem st) s"
  shows "(\<exists>st' kept. UrlSearch_Delete u key st = (Ok (length (filter (\<lambda>x. fst x \<noteq> key) kvs)), st') \<and>
      search_kvs st' u = Ok kept \<and> mset kept = mset (filter (\<lambda>x. fst x = key) kvs)) \<and>
    (\<exists>st' kept. UrlSearch_Set env u key v st = (Ok (), st') \<and>
      search_kvs st' u = Ok (kept @ [(key, v)]) \<and> mset kept = mset (filter (\<lambda>x. fst x = key) kvs))"
proof -
  have kvs: "kvs = sl_abs (kv_mem st) s" using assms(1,2) by (simp add: search_kvs_def)
  obtain st' t where d: "UrlSearch_Delete u key st = (Ok (length (filter (\<lambda>x. fst x \<noteq> key) kvs)), st')"
    "search_of st' u = Ok t" "sl_ok (kv_mem st') t"
    "mset (sl_abs (kv_mem st') t) = mset (filter (\<lambda>x. fst x = key) kvs)"
    using UrlSearch_Delete_spec [OF assms(2,3)] kvs by blast
  obtain m s' where a: "sl_append (oe_grow env) ('''', '''') (kv_mem st') t (key, v) = (m, s')"
    by (metis prod.exhaust)
  have "UrlSearch_Set env u key v st = (Ok (), set_search u m s' st')"
    using d(1,2) a by (simp add: UrlSearch_Set_def UrlSearch_Append_def)
  moreover have "search_kvs (set_search u m s' st') u = Ok (sl_abs (kv_mem st') t @ [(key, v)])"
    using search_of_set_search [OF search_bound [OF d(2)]] sl_append_abs(1) [OF d(3) a]
    by (simp add: search_kvs_def)
  ultimately show ?thesis using d by (auto simp: search_kvs_def)
qed

definition query_sample :: hstore where
  "query_sample = st_init (hworld_init\<lparr>
     hw_kv := \<lparr>marr = (\<lambda>_. [])(1 := [(''a'', ''1''), (''b'', ''2''), (''a'', ''3'')]), mnext = 2\<rparr>,
     hw_objs := [OSearch \<lparr>sarr = 1, soff = 0, slen = 3, scap = 3\<rparr>]\<rparr>)"

theorem search_delete_keeps_only_the_key_witness:
  "\<exists>st' kept. UrlSearch_Set plain_hpl_env 0 ''b'' ''9'' query_sample = (Ok (), st') \<and>
     search_kvs st' 0 = Ok (kept @ [(''b'', ''9'')]) \<and> mset kept = {#(''b'', ''2'')#}"
proof -
  have "search_kvs query_sample 0 = Ok [(''a'', ''1''), (''b'', ''2''), (''a'', ''3'')]"
    and "search_of query_sample 0 = Ok \<lparr>sarr = 1, soff = 0, slen = 3, scap = 3\<rparr>"
    and "sl_ok (kv_mem query_sample) \<lparr>sarr = 1, soff = 0, slen = 3, scap = 3\<rparr>"
    by (simp_all add: query_sample_def search_kvs_def search_of_def get_obj_def deref_def st_init_def
        hworld_init_def kv_mem_def sl_abs_def sl_ok_def)
  from search_delete_keeps_only_the_key [OF this, of "''b''" plain_hpl_env "''9''"] show ?thesis by simp
qed

end
