(* ===== verification/HplMessage.thy ===== *)
theory HplMessage
  imports HplStream HplHeader HplSearch
begin

text \<open>
  URLs, cookies, TLS states, router parameters, requests and responses as scripts see them
  (\<open>hpl/url.go\<close>, \<open>cookie.go\<close>, \<open>tls_conn_state.go\<close>, \<open>router_params.go\<close>, \<open>request.go\<close>,
  \<open>response.go\<close>), the functions that make them (\<open>builtin_object.go\<close>) and the HTTP client functions
  (\<open>builtin_http.go\<close>). A message object keeps the header, URL and body it shows beside the Go message.
\<close>

text \<open>What the Go library supplies: map order, URLs as text, quoting, cipher names, cookies.\<close>

record hlib =
  hl_order :: "hdr \<Rightarrow> hdr"
  hl_params_order :: "(string \<times> string) list \<Rightarrow> (string \<times> string) list"
  hl_quote :: "string \<Rightarrow> string"
  hl_Parse :: "string \<Rightarrow> URL res"
  hl_URLString :: "URL \<Rightarrow> string"
  hl_RequestURI :: "URL \<Rightarrow> string"
  hl_UserString :: "string \<times> string option \<Rightarrow> string"
  hl_cipher :: "nat \<Rightarrow> string"
  hl_cookies :: "hdr \<Rightarrow> Cookie list"
  hl_cookie_valid :: "Cookie \<Rightarrow> bool"
  hl_show :: "val \<Rightarrow> string"

section \<open>URLs\<close>

definition url_of :: "hstore \<Rightarrow> nat \<Rightarrow> nat res" where
  "url_of st u = rbind (get_obj st u) (\<lambda>x. case x of OUrl p \<Rightarrow> Ok p | _ \<Rightarrow> Panic ''nil pointer'')"

definition get_url :: "hstore \<Rightarrow> nat \<Rightarrow> URL res" where
  "get_url st u = rbind (url_of st u) (\<lambda>p. deref (hw_urls (st_world st)) p)"

definition set_url :: "nat \<Rightarrow> URL \<Rightarrow> hstore \<Rightarrow> hstore" where
  "set_url p x st = on_world (hw_urls_update (\<lambda>xs. xs[p := x])) st"

definition new_url :: "URL \<Rightarrow> hstore \<Rightarrow> nat \<times> hstore" where
  "new_url x st = (length (hw_urls (st_world st)), on_world (hw_urls_update (\<lambda>xs. xs @ [x])) st)"

definition NewUrlVal :: "nat \<Rightarrow> hstore \<Rightarrow> val \<times> hstore" where
  "NewUrlVal p st = new_obj (OUrl p) st"

definition ValIsUrl :: "hworld oenv \<Rightarrow> hstore \<Rightarrow> val \<Rightarrow> bool res" where
  "ValIsUrl env st v = has_id env st ''.url'' v"

text \<open>The last place of a character.\<close>

fun last_index :: "char \<Rightarrow> string \<Rightarrow> nat option" where
  "last_index c [] = None"
| "last_index c (x # xs) =
     (case last_index c xs of Some i \<Rightarrow> Some (Suc i) | None \<Rightarrow> if x = c then Some 0 else None)"

text \<open>\<open>url.URL.Hostname\<close> and \<open>Port\<close>: a port is a colon and digits only, brackets are taken off.\<close>

definition split_host_port :: "string \<Rightarrow> string \<times> string" where
  "split_host_port hp =
     (let (host, port) =
        (case last_index (CHR '':'') hp of
           None \<Rightarrow> (hp, '''')
         | Some i \<Rightarrow> if list_all digit_char (drop (i + 1) hp) then (take i hp, drop (i + 1) hp) else (hp, ''''))
      in (if has_prefix host ''['' \<and> has_suffix host '']'' then butlast (tl host) else host, port))"

text \<open>\<open>User\<close> is a pointer that may be nil, and its \<open>String\<close> reads through it.\<close>

definition user_string :: "hlib \<Rightarrow> URL \<Rightarrow> string res" where
  "user_string lib x = (case u_User x of None \<Rightarrow> Panic ''nil pointer'' | Some w \<Rightarrow> Ok (hl_UserString lib w))"

definition Url_Index :: "hworld oenv \<Rightarrow> hlib \<Rightarrow> nat \<Rightarrow> val \<Rightarrow> hstore \<Rightarrow> val res \<times> hstore" where
  "Url_Index env lib u key st =
     (case key of
        VStr k \<Rightarrow>
          rlift (get_url st u) st (\<lambda>x st.
            if k = ''scheme'' then (Ok (VStr (u_Scheme x)), st)
            else if k = ''host'' then (Ok (VStr (u_Host x)), st)
            else if k = ''hostname'' then (Ok (VStr (fst (split_host_port (u_Host x)))), st)
            else if k = ''port'' then (Ok (VStr (snd (split_host_port (u_Host x)))), st)
            else if k = ''path'' then (Ok (VStr (u_Path x)), st)
            else if k = ''query'' then (Ok (VStr (u_RawQuery x)), st)
            else if k = ''search'' then
              (let (v, st) = NewUrlSearchValFromValues env (hl_order lib)
                 (fst (parse_query (hl_quote lib) (u_RawQuery x) [] None)) st
               in (Ok v, st))
            else if k = ''url'' then (Ok (VStr (hl_URLString lib x)), st)
            else if k = ''userInfo'' then (rbind (user_string lib x) (\<lambda>s. Ok (VStr s)), st)
            else if k = ''requestURI'' then (Ok (VStr (hl_RequestURI lib x)), st)
            else if k = ''href'' then (Ok (VStr (hl_URLString lib x)), st)
            else (Err (''unknown component '' @ k @ '' in URL''), st))
      | _ \<Rightarrow> (Err ''invalid index, URL name must be string'', st))"

definition Url_Dot :: "hworld oenv \<Rightarrow> hlib \<Rightarrow> nat \<Rightarrow> string \<Rightarrow> hstore \<Rightarrow> val res \<times> hstore" where
  "Url_Dot env lib u name st = Url_Index env lib u (VStr name) st"

definition userinfo :: "string \<Rightarrow> string \<times> string option" where
  "userinfo s =
     (case last_index (CHR '':'') s of None \<Rightarrow> (s, None) | Some i \<Rightarrow> (take i s, Some (drop (i + 1) s)))"

definition Url_DotSet :: "hworld oenv \<Rightarrow> nat \<Rightarrow> string \<Rightarrow> val \<Rightarrow> hstore \<Rightarrow> unit res \<times> hstore" where
  "Url_DotSet env u key v st =
     (case v_ToString env st v of
        Ok s \<Rightarrow>
          rlift (url_of st u) st (\<lambda>p st. rlift (get_url st u) st (\<lambda>x st.
            if key = ''scheme'' then (Ok (), set_url p (x\<lparr>u_Scheme := s\<rparr>) st)
            else if key = ''user'' then (Ok (), set_url p (x\<lparr>u_User := Some (userinfo s)\<rparr>) st)
            else if key = ''host'' then (Ok (), set_url p (x\<lparr>u_Host := s\<rparr>) st)
            else if key = ''path'' then (Ok (), set_url p (x\<lparr>u_Path := s\<rparr>) st)
            else if key = ''query'' then (Ok (), set_url p (x\<lparr>u_RawQuery := s\<rparr>) st)
            else if key = ''hash'' then (Ok (), set_url p (x\<lparr>u_Fragment := s\<rparr>) st)
            else (Err (''.url component set, unknown field '' @ key), st)))
      | Err e \<Rightarrow> (Err (''.url component set, value cannot convert to string: '' @ e), st)
      | Panic p \<Rightarrow> (Panic p, st)
      | Diverge \<Rightarrow> (Diverge, st))"

definition Url_IndexSet :: "hworld oenv \<Rightarrow> nat \<Rightarrow> val \<Rightarrow> val \<Rightarrow> hstore \<Rightarrow> unit res \<times> hstore" where
  "Url_IndexSet env u key v st =
     (case key of VStr k \<Rightarrow> Url_DotSet env u k v st | _ \<Rightarrow> (Err ''.url index set type must be string'', st))"

definition Url_ToString :: "hlib \<Rightarrow> nat \<Rightarrow> hstore \<Rightarrow> string res" where
  "Url_ToString lib u st = rbind (get_url st u) (\<lambda>x. Ok (hl_URLString lib x))"

definition Url_Method :: "hworld oenv \<Rightarrow> nat \<Rightarrow> string \<Rightarrow> val list \<Rightarrow> hstore \<Rightarrow> val res" where
  "Url_Method env u name args st =
     (if name = ''isAbs'' then
        rbind (check_args env st ''.url.isAbs'' ''%0'' args) (\<lambda>_.
        rbind (get_url st u) (\<lambda>x. Ok (VBool (u_Scheme x \<noteq> ''''))))
      else Err (''method: .url:'' @ name @ '' is unknown''))"

definition Url_Info :: "hlib \<Rightarrow> nat \<Rightarrow> hstore \<Rightarrow> string res" where
  "Url_Info lib u st =
     rbind (get_url st u) (\<lambda>x. rbind (user_string lib x) (\<lambda>w.
       Ok (''.url[scheme='' @ u_Scheme x @ '';user='' @ w @ '';host='' @ u_Host x @ '';path='' @ u_Path x @
         '';query='' @ u_RawQuery x @ '';frag='' @ u_Fragment x @ '']'')))"

section \<open>Cookies\<close>

definition get_cookie :: "hstore \<Rightarrow> nat \<Rightarrow> (nat \<times> Cookie) res" where
  "get_cookie st u =
     rbind (get_obj st u) (\<lambda>x. case x of
       OCookie p \<Rightarrow> rbind (deref (hw_cookies (st_world st)) p) (\<lambda>c. Ok (p, c)) | _ \<Rightarrow> Panic ''nil pointer'')"

definition set_cookie :: "nat \<Rightarrow> Cookie \<Rightarrow> hstore \<Rightarrow> hstore" where
  "set_cookie p x st = on_world (hw_cookies_update (\<lambda>xs. xs[p := x])) st"

definition NewCookieVal :: "Cookie \<Rightarrow> hstore \<Rightarrow> val \<times> hstore" where
  "NewCookieVal c st =
     new_obj (OCookie (length (hw_cookies (st_world st)))) (on_world (hw_cookies_update (\<lambda>xs. xs @ [c])) st)"

definition SameSiteString :: "samesite \<Rightarrow> string" where
  "SameSiteString s =
     (case s of SameSiteDefaultMode \<Rightarrow> ''default'' | SameSiteLaxMode \<Rightarrow> ''lax'' | SameSiteStrictMode \<Rightarrow> ''strict''
      | SameSiteNoneMode \<Rightarrow> ''none'' | SameSiteUnset \<Rightarrow> ''unknown'')"

definition NewValStrList :: "hworld oenv \<Rightarrow> string list \<Rightarrow> hstore \<Rightarrow> val res \<times> hstore" where
  "NewValStrList env xs st =
     (let (l, st) = new_list st
      in rlift (v_List l) st (\<lambda>p st. mbind (List_Append_all env p (map VStr xs) st) (\<lambda>_ st. (Ok l, st))))"

definition cookie_Dot :: "hworld oenv \<Rightarrow> nat \<Rightarrow> string \<Rightarrow> hstore \<Rightarrow> val res \<times> hstore" where
  "cookie_Dot env u key st =
     rlift (get_cookie st u) st (\<lambda>(p, c) st.
       if key = ''name'' then (Ok (VStr (c_Name c)), st)
       else if key = ''value'' then (Ok (VStr (c_Value c)), st)
       else if key = ''path'' then (Ok (VStr (c_Path c)), st)
       else if key = ''domain'' then (Ok (VStr (c_Domain c)), st)
       else if key = ''expireString'' then (Ok (VStr (c_RawExpires c)), st)
       else if key = ''maxAge'' then
         (Ok (if c_MaxAge c = 0 then VNull else if sint (c_MaxAge c) < 0 then VInt (- 1) else VInt (c_MaxAge c)), st)
       else if key = ''sameSite'' then (Ok (VStr (SameSiteString (c_SameSite c))), st)
       else if key = ''secure'' then (Ok (VBool (c_Secure c)), st)
       else if key = ''httpOnly'' then (Ok (VBool (c_HttpOnly c)), st)
       else if key = ''raw'' then (Ok (VStr (c_Raw c)), st)
       else if key = ''rawList'' then NewValStrList env (c_Unparsed c) st
       else (Err (''unknown field name '' @ key @ '' for '' @ HttpCookieTypeId), st))"

definition cookie_Index :: "hworld oenv \<Rightarrow> nat \<Rightarrow> val \<Rightarrow> hstore \<Rightarrow> val res \<times> hstore" where
  "cookie_Index env u key st =
     (case key of VStr k \<Rightarrow> cookie_Dot env u k st
      | _ \<Rightarrow> (Err (''invalid index, cookie'' @ CHR 39 # ''s index type must be string''), st))"

definition cookie_field_error :: "string \<Rightarrow> string \<Rightarrow> string" where
  "cookie_field_error f t =
     HttpCookieTypeId @ CHR 39 # ''s field '' @ CHR 39 # f @ CHR 39 # '' must set with value of type '' @ t"

definition cookie_DotSet :: "nat \<Rightarrow> string \<Rightarrow> val \<Rightarrow> hstore \<Rightarrow> unit res \<times> hstore" where
  "cookie_DotSet u key v st =
     rlift (get_cookie st u) st (\<lambda>(p, c) st.
       if key \<in> set [''name'', ''value'', ''path'', ''domain''] then
         (case v of
            VStr s \<Rightarrow>
              (Ok (), set_cookie p
                (if key = ''name'' then c\<lparr>c_Name := s\<rparr> else if key = ''value'' then c\<lparr>c_Value := s\<rparr>
                 else if key = ''path'' then c\<lparr>c_Path := s\<rparr> else c\<lparr>c_Domain := s\<rparr>) st)
          | _ \<Rightarrow> (Err (cookie_field_error key ''string''), st))
       else if key = ''maxAge'' then
         (case v of VInt i \<Rightarrow> (Ok (), set_cookie p (c\<lparr>c_MaxAge := i\<rparr>) st)
          | _ \<Rightarrow> (Err (cookie_field_error key ''int''), st))
       else if key = ''secure'' then
         (case v of VBool b \<Rightarrow> (Ok (), set_cookie p (c\<lparr>c_Secure := b\<rparr>) st)
          | _ \<Rightarrow> (Err (cookie_field_error key ''bool''), st))
       else if key = ''httpOnly'' then
         (case v of VBool b \<Rightarrow> (Ok (), set_cookie p (c\<lparr>c_HttpOnly := b\<rparr>) st)
          | _ \<Rightarrow> (Err (cookie_field_error key ''bool''), st))
       else (Err (HttpCookieTypeId @ CHR 39 # ''s field '' @ key @ '' is unknown''), st))"

definition cookie_IndexSet :: "nat \<Rightarrow> val \<Rightarrow> val \<Rightarrow> hstore \<Rightarrow> unit res \<times> hstore" where
  "cookie_IndexSet u key v st =
     (case key of VStr k \<Rightarrow> cookie_DotSet u k v st
      | _ \<Rightarrow> (Err (''invalid index set key type for '' @ HttpCookieTypeId @ '', must be string''), st))"

definition cookie_Method :: "hworld oenv \<Rightarrow> hlib \<Rightarrow> nat \<Rightarrow> string \<Rightarrow> val list \<Rightarrow> hstore \<Rightarrow> val res" where
  "cookie_Method env lib u name args st =
     (if name = ''isValid'' then
        rbind (check_args env st ''http.cookie.isValid'' ''%0'' args) (\<lambda>_.
        rbind (get_cookie st u) (\<lambda>(p, c). Ok (VBool (hl_cookie_valid lib c))))
      else Err (HttpCookieTypeId @ CHR 39 # ''s method '' @ name @ '' is unknown''))"

section \<open>TLS states and router parameters\<close>

definition get_tls :: "hstore \<Rightarrow> nat \<Rightarrow> TLSState res" where
  "get_tls st u =
     rbind (get_obj st u) (\<lambda>x. case x of OTls p \<Rightarrow> deref (hw_tls (st_world st)) p | _ \<Rightarrow> Panic ''nil pointer'')"

text \<open>The numbers of the protocol versions, SSL 3.0 to TLS 1.3, are consecutive.\<close>

definition VersionString :: "nat \<Rightarrow> string" where
  "VersionString v =
     (if v = 0x301 then ''tls_10'' else if v = 0x302 then ''tls_11'' else if v = 0x303 then ''tls_12''
      else if v = 0x304 then ''tls_13'' else if v = 0x300 then ''ssl_30'' else ''unknown'')"

definition tls_Dot :: "hlib \<Rightarrow> nat \<Rightarrow> string \<Rightarrow> hstore \<Rightarrow> val res" where
  "tls_Dot lib u key st =
     rbind (get_tls st u) (\<lambda>c.
       if key = ''serverName'' then Ok (VStr (t_ServerName c))
       else if key = ''version'' then Ok (VStr (VersionString (t_Version c)))
       else if key = ''cipherSuit'' then Ok (VStr (hl_cipher lib (t_CipherSuite c)))
       else if key = ''negotiatedProtocol'' then Ok (VStr (t_NegotiatedProtocol c))
       else Ok VNull)"

definition tls_Index :: "hlib \<Rightarrow> nat \<Rightarrow> val \<Rightarrow> hstore \<Rightarrow> val res" where
  "tls_Index lib u key st =
     (case key of VStr k \<Rightarrow> tls_Dot lib u k st
      | _ \<Rightarrow> Err ''invalid index type, http.tlsconnstate must use string index'')"

definition NewTLSConnStateVal :: "nat option \<Rightarrow> hstore \<Rightarrow> val \<times> hstore" where
  "NewTLSConnStateVal s st = (case s of None \<Rightarrow> (VNull, st) | Some p \<Rightarrow> new_obj (OTls p) st)"

text \<open>Parameters are a map that is nil when the router found none: reading gives nothing, writing panics.\<close>

definition get_params :: "hstore \<Rightarrow> nat \<Rightarrow> (nat \<times> (string \<times> string) list option) res" where
  "get_params st u =
     rbind (get_obj st u) (\<lambda>x. case x of
       OParams p \<Rightarrow> rbind (deref (hw_params (st_world st)) p) (\<lambda>m. Ok (p, m)) | _ \<Rightarrow> Panic ''nil pointer'')"

definition Params_ByName :: "(string \<times> string) list option \<Rightarrow> string \<Rightarrow> string" where
  "Params_ByName m k = (case m of None \<Rightarrow> '''' | Some xs \<Rightarrow> (case map_of xs k of None \<Rightarrow> '''' | Some v \<Rightarrow> v))"

definition Params_Set :: "(string \<times> string) list option \<Rightarrow> string \<Rightarrow> string \<Rightarrow> (string \<times> string) list option res" where
  "Params_Set m k v =
     (case m of None \<Rightarrow> Panic ''assignment to entry in nil map'' | Some xs \<Rightarrow> Ok (Some (AList.update k v xs)))"

definition Params_ToList :: "hlib \<Rightarrow> (string \<times> string) list option \<Rightarrow> (string \<times> string) list" where
  "Params_ToList lib m = (case m of None \<Rightarrow> [] | Some xs \<Rightarrow> hl_params_order lib xs)"

definition Params_Length :: "(string \<times> string) list option \<Rightarrow> nat" where
  "Params_Length m = (case m of None \<Rightarrow> 0 | Some xs \<Rightarrow> length xs)"

definition Params_String :: "hlib \<Rightarrow> (string \<times> string) list option \<Rightarrow> string" where
  "Params_String lib m = concat (map (\<lambda>(k, v). k @ ''=>'' @ v @ '' '') (Params_ToList lib m))"

definition params_Index :: "nat \<Rightarrow> val \<Rightarrow> hstore \<Rightarrow> val res" where
  "params_Index u name st =
     (case name of VStr k \<Rightarrow> rbind (get_params st u) (\<lambda>(p, m). Ok (VStr (Params_ByName m k)))
      | _ \<Rightarrow> Err (''invalid index, http.router'' @ CHR 39 # ''s field must be string''))"

definition params_DotSet :: "hworld oenv \<Rightarrow> nat \<Rightarrow> string \<Rightarrow> val \<Rightarrow> hstore \<Rightarrow> unit res \<times> hstore" where
  "params_DotSet env u name v st =
     (case v_ToString env st v of
        Ok s \<Rightarrow>
          rlift (get_params st u) st (\<lambda>(p, m) st. rlift (Params_Set m name s) st (\<lambda>m st.
            (Ok (), on_world (hw_params_update (\<lambda>xs. xs[p := m])) st)))
      | Err e \<Rightarrow> (Err (''invalid index, http.router.param'' @ CHR 39 # ''s key set value must be string''), st)
      | Panic p \<Rightarrow> (Panic p, st)
      | Diverge \<Rightarrow> (Diverge, st))"

definition params_IndexSet :: "hworld oenv \<Rightarrow> nat \<Rightarrow> val \<Rightarrow> val \<Rightarrow> hstore \<Rightarrow> unit res \<times> hstore" where
  "params_IndexSet env u name v st =
     (case name of VStr k \<Rightarrow> params_DotSet env u k v st
      | _ \<Rightarrow> (Err (''invalid index, http.router.params'' @ CHR 39 # ''key field must be string''), st))"

definition params_ToString :: "hlib \<Rightarrow> nat \<Rightarrow> hstore \<Rightarrow> string res" where
  "params_ToString lib u st = rbind (get_params st u) (\<lambda>(p, m). Ok (Params_String lib m))"

definition params_NewIterator :: "hlib \<Rightarrow> nat \<Rightarrow> hstore \<Rightarrow> nat res \<times> hstore" where
  "params_NewIterator lib u st =
     rlift (get_params st u) st (\<lambda>(p, m) st.
       let (i, st) = new_uiter (IPairs (Params_ToList lib m) 0) st in (Ok i, st))"

definition NewRouterParamsVal :: "nat \<Rightarrow> hstore \<Rightarrow> val \<times> hstore" where
  "NewRouterParamsVal p st = new_obj (OParams p) st"

end
