(* ===== verification/HplRequest.thy ===== *)
theory HplRequest
  imports HplMessage
begin

text \<open>
  Requests and responses (\<open>hpl/request.go\<close>, \<open>hpl/response.go\<close>), the functions that make objects
  (\<open>hpl/builtin_object.go\<close>) and the HTTP client functions (\<open>hpl/builtin_http.go\<close>).
\<close>

section \<open>Requests\<close>

definition request_of :: "hstore \<Rightarrow> nat \<Rightarrow> Request res" where
  "request_of st u = rbind (get_obj st u) (\<lambda>x. case x of ORequest r \<Rightarrow> Ok r | _ \<Rightarrow> Panic ''nil pointer'')"

definition http_request :: "hstore \<Rightarrow> nat \<Rightarrow> HttpRequest res" where
  "http_request st p = deref (hw_requests (st_world st)) p"

definition ValIsHttpHeader :: "hworld oenv \<Rightarrow> hstore \<Rightarrow> val \<Rightarrow> bool res" where
  "ValIsHttpHeader env st v = has_id env st HttpHeaderTypeId v"

definition NewRequestVal :: "nat \<Rightarrow> hstore \<Rightarrow> val res \<times> hstore" where
  "NewRequestVal p st =
     rlift (http_request st p) st (\<lambda>r st.
       let (h, st) = NewHeaderVal (r_Header r) st; (u, st) = NewUrlVal (r_URL r) st
       in mbind (NewBodyValFromStream (r_Body r) st) (\<lambda>b st.
            let (t, st) = NewTLSConnStateVal (r_TLS r) st;
                (v, st) = new_obj (ORequest \<lparr>rq_request = p, rq_header = h, rq_url = u, rq_body = b, rq_tls = t\<rparr>) st
            in (Ok v, st)))"

text \<open>The setters change what the object shows, not the Go request behind it.\<close>

definition Request_setUrl :: "hworld oenv \<Rightarrow> hlib \<Rightarrow> nat \<Rightarrow> val \<Rightarrow> hstore \<Rightarrow> unit res \<times> hstore" where
  "Request_setUrl env lib u v st =
     rlift (request_of st u) st (\<lambda>r st.
       case v of
         VStr s \<Rightarrow>
           rlift (hl_Parse lib s) st (\<lambda>x st.
             let (p, st) = new_url x st; (w, st) = NewUrlVal p st
             in (Ok (), set_obj u (ORequest (r\<lparr>rq_url := w\<rparr>)) st))
       | _ \<Rightarrow>
           rlift (ValIsUrl env st v) st (\<lambda>b st.
             if b then (Ok (), set_obj u (ORequest (r\<lparr>rq_url := v\<rparr>)) st)
             else (Err ''http.request.url set, invalid type'', st)))"

definition Request_setHeader :: "hworld oenv \<Rightarrow> nat \<Rightarrow> val \<Rightarrow> hstore \<Rightarrow> unit res \<times> hstore" where
  "Request_setHeader env u v st =
     rlift (request_of st u) st (\<lambda>r st. rlift (ValIsHttpHeader env st v) st (\<lambda>b st.
       if b then (Ok (), set_obj u (ORequest (r\<lparr>rq_header := v\<rparr>)) st)
       else (Err ''http.request.header set, invalid type'', st)))"

definition Request_setBody :: "hworld oenv \<Rightarrow> nat \<Rightarrow> val \<Rightarrow> hstore \<Rightarrow> unit res \<times> hstore" where
  "Request_setBody env u v st =
     rlift (request_of st u) st (\<lambda>r st. rlift (ValIsHttpBody env st v) st (\<lambda>b st.
       if b then (Ok (), set_obj u (ORequest (r\<lparr>rq_body := v\<rparr>)) st)
       else (case v of
               VStr s \<Rightarrow> mbind (NewBodyValFromString s st) (\<lambda>w st. (Ok (), set_obj u (ORequest (r\<lparr>rq_body := w\<rparr>)) st))
             | _ \<Rightarrow> (Err ''http.request.body set, invalid type'', st))))"

definition isChunked :: "string list \<Rightarrow> bool" where
  "isChunked te = (''chunked'' \<in> set te)"

definition content_length :: "int64 \<Rightarrow> val" where
  "content_length n = (if 0 \<le> sint n then VInt n else VNull)"

definition Request_Index :: "nat \<Rightarrow> val \<Rightarrow> hstore \<Rightarrow> val res" where
  "Request_Index u key st =
     (case key of
        VStr k \<Rightarrow>
          rbind (request_of st u) (\<lambda>h. rbind (http_request st (rq_request h)) (\<lambda>r.
            if k = ''header'' then Ok (rq_header h)
            else if k = ''method'' then Ok (VStr (r_Method r))
            else if k = ''proto'' then Ok (VStr (r_Proto r))
            else if k = ''protoMajor'' then Ok (VInt (r_ProtoMajor r))
            else if k = ''protoMinor'' then Ok (VInt (r_ProtoMinor r))
            else if k = ''body'' then Ok (rq_body h)
            else if k = ''requestURI'' then Ok (VStr (r_RequestURI r))
            else if k = ''url'' then Ok (rq_url h)
            else if k = ''host'' then Ok (VStr (r_Host r))
            else if k = ''remoteAddr'' then Ok (VStr (r_RemoteAddr r))
            else if k = ''isTLS'' then Ok (VBool (r_TLS r \<noteq> None))
            else if k = ''tls'' then Ok (rq_tls h)
            else if k = ''contentLength'' then Ok (content_length (r_ContentLength r))
            else if k = ''transferEncoding'' then Ok (VBool (isChunked (r_TransferEncoding r)))
            else if k = ''referer'' then rbind (get_header_map st (r_Header r)) (\<lambda>m. Ok (VStr (hdr_Get m ''Referer'')))
            else if k = ''userAgent'' then
              rbind (get_header_map st (r_Header r)) (\<lambda>m. Ok (VStr (hdr_Get m ''User-Agent'')))
            else Err (''unknown field name '' @ k @ '' for request'')))
      | _ \<Rightarrow> Err (''invalid index, request'' @ CHR 39 # ''s component must be string''))"

definition Request_DotSet :: "hworld oenv \<Rightarrow> hlib \<Rightarrow> nat \<Rightarrow> string \<Rightarrow> val \<Rightarrow> hstore \<Rightarrow> unit res \<times> hstore" where
  "Request_DotSet env lib u key v st =
     (if key = ''header'' then Request_setHeader env u v st
      else if key = ''url'' then Request_setUrl env lib u v st
      else if key = ''body'' then Request_setBody env u v st
      else (Err (''http.request set, unknown field: '' @ key), st))"

definition Request_IndexSet :: "hworld oenv \<Rightarrow> hlib \<Rightarrow> nat \<Rightarrow> val \<Rightarrow> val \<Rightarrow> hstore \<Rightarrow> unit res \<times> hstore" where
  "Request_IndexSet env lib u key v st =
     (case key of VStr k \<Rightarrow> Request_DotSet env lib u k v st
      | _ \<Rightarrow> (Err ''http.request index set, invalid key type'', st))"

fun add_cookies :: "hworld oenv \<Rightarrow> nat \<Rightarrow> Cookie list \<Rightarrow> hstore \<Rightarrow> unit res \<times> hstore" where
  "add_cookies env l [] st = (Ok (), st)"
| "add_cookies env l (c # cs) st =
     (let (v, st) = NewCookieVal c st in mbind (List_Append env l v st) (\<lambda>_ st. add_cookies env l cs st))"

text \<open>\<open>http.Request.Cookie\<close> gives the first cookie of the name; the library parses the header.\<close>

definition Request_Method :: "hworld oenv \<Rightarrow> hlib \<Rightarrow> nat \<Rightarrow> string \<Rightarrow> val list \<Rightarrow> hstore \<Rightarrow> val res \<times> hstore" where
  "Request_Method env lib u name args st =
     (let cookies = rbind (request_of st u) (\<lambda>h. rbind (http_request st (rq_request h)) (\<lambda>r.
            rbind (get_header_map st (r_Header r)) (\<lambda>m. Ok (hl_cookies lib m))))
      in if name = ''cookie'' then
           rlift (check_args env st ''http.request.cookie'' ''%s'' args) st (\<lambda>_ st.
           rlift (v_String (args ! 0)) st (\<lambda>n st. rlift cookies st (\<lambda>cs st.
             (case find (\<lambda>c. c_Name c = n) cs of
                None \<Rightarrow> (Ok VNull, st)
              | Some c \<Rightarrow> let (v, st) = NewCookieVal c st in (Ok v, st)))))
         else if name = ''allCookie'' then
           rlift (check_args env st ''http.request.allCookie'' ''%0'' args) st (\<lambda>_ st.
           rlift cookies st (\<lambda>cs st.
             let (o', st) = new_list st
             in rlift (v_List o') st (\<lambda>l st. mbind (add_cookies env l cs st) (\<lambda>_ st. (Ok o', st)))))
         else (Err (''method: http.request:'' @ name @ '' is unknown''), st))"

text \<open>
  \<open>http.NewRequest\<close>: an empty method is GET, a method is a header token, a body that is only a
  reader is given a close that does nothing, and the host loses an empty port.
\<close>

definition removeEmptyPort :: "string \<Rightarrow> string" where
  "removeEmptyPort host =
     (let has_port = (case last_index (CHR '':'') host of
                        None \<Rightarrow> False
                      | Some i \<Rightarrow> (case last_index (CHR '']'') host of None \<Rightarrow> True | Some j \<Rightarrow> j < i))
      in if has_port \<and> has_suffix host '':'' then butlast host else host)"

definition http_NewRequest ::
  "hlib \<Rightarrow> string \<Rightarrow> string \<Rightarrow> nat \<Rightarrow> int64 \<Rightarrow> hstore \<Rightarrow> nat res \<times> hstore" where
  "http_NewRequest lib method url body len st =
     (let method = (if method = '''' then ''GET'' else method)
      in if \<not> list_all validHeaderFieldByte method then
           (Err (''net/http: invalid method '' @ hl_quote lib method), st)
         else rlift (hl_Parse lib url) st (\<lambda>x st.
           let x = x\<lparr>u_Host := removeEmptyPort (u_Host x)\<rparr>;
               (p, st) = new_url x st; (h, st) = new_header_map [] st;
               r = \<lparr>r_Method = method, r_Proto = ''HTTP/1.1'', r_ProtoMajor = 1, r_ProtoMinor = 1, r_Header = h,
                    r_URL = p, r_Body = body, r_RequestURI = '''', r_Host = u_Host x, r_RemoteAddr = '''',
                    r_TLS = None, r_ContentLength = len, r_TransferEncoding = []\<rparr>
           in (Ok (length (hw_requests (st_world st))), on_world (hw_requests_update (\<lambda>xs. xs @ [r])) st)))"

definition NewRequestValFromStream :: "hlib \<Rightarrow> string \<Rightarrow> string \<Rightarrow> nat \<Rightarrow> int64 \<Rightarrow> hstore \<Rightarrow> val res \<times> hstore" where
  "NewRequestValFromStream lib method url body len st =
     mbind (http_NewRequest lib method url body len st) (\<lambda>p st. NewRequestVal p st)"

definition NewRequestValFromString :: "hlib \<Rightarrow> string \<Rightarrow> string \<Rightarrow> string \<Rightarrow> hstore \<Rightarrow> val res \<times> hstore" where
  "NewRequestValFromString lib method url body st =
     (let (b, st) = new_reader (if body = '''' then REof else RStr body) st
      in NewRequestValFromStream lib method url b (i64_of_nat (length body)) st)"

definition NewRequestValFromVal :: "hworld oenv \<Rightarrow> hlib \<Rightarrow> string \<Rightarrow> string \<Rightarrow> val \<Rightarrow> hstore \<Rightarrow> val res \<times> hstore" where
  "NewRequestValFromVal env lib method url body st =
     (case body of
        VStr s \<Rightarrow> NewRequestValFromString lib method url s st
      | _ \<Rightarrow>
          rlift (ValIsHttpBody env st body) st (\<lambda>is_body st.
            if is_body then
              rlift (as_body st body) st (\<lambda>(_, b) st. rlift (stream_of st (bd_stream b)) st (\<lambda>h st.
                NewRequestValFromStream lib method url (rs_Stream h) 0 st))
            else rlift (ValIsReadableStream env st body) st (\<lambda>is_stream st.
              if is_stream then
                rlift (as_stream st body) st (\<lambda>(_, h) st. NewRequestValFromStream lib method url (rs_Stream h) 0 st)
              else rlift (v_Id env st body) st (\<lambda>i st. (Err (''unknown body type: '' @ i), st)))))"

section \<open>Responses\<close>

definition response_of :: "hstore \<Rightarrow> nat \<Rightarrow> Response res" where
  "response_of st u = rbind (get_obj st u) (\<lambda>x. case x of OResponse r \<Rightarrow> Ok r | _ \<Rightarrow> Panic ''nil pointer'')"

definition http_response :: "hstore \<Rightarrow> nat \<Rightarrow> HttpResponse res" where
  "http_response st p = deref (hw_responses (st_world st)) p"

definition Response_setHeader :: "hworld oenv \<Rightarrow> nat \<Rightarrow> val \<Rightarrow> hstore \<Rightarrow> unit res \<times> hstore" where
  "Response_setHeader env u v st =
     rlift (response_of st u) st (\<lambda>r st. rlift (ValIsHttpHeader env st v) st (\<lambda>b st.
       if b then (Ok (), set_obj u (OResponse (r\<lparr>rp_header := v\<rparr>)) st)
       else (Err ''http.response.header set, invalid type'', st)))"

definition Response_setBody :: "hworld oenv \<Rightarrow> nat \<Rightarrow> val \<Rightarrow> hstore \<Rightarrow> unit res \<times> hstore" where
  "Response_setBody env u v st =
     rlift (response_of st u) st (\<lambda>r st. rlift (ValIsHttpBody env st v) st (\<lambda>b st.
       if b then (Ok (), set_obj u (OResponse (r\<lparr>rp_body := v\<rparr>)) st)
       else (case v of
               VStr s \<Rightarrow> mbind (NewBodyValFromString s st) (\<lambda>w st. (Ok (), set_obj u (OResponse (r\<lparr>rp_body := w\<rparr>)) st))
             | _ \<Rightarrow> (Err ''http.response.body set, invalid type'', st))))"

definition Response_Index :: "nat \<Rightarrow> val \<Rightarrow> hstore \<Rightarrow> val res" where
  "Response_Index u name st =
     (case name of
        VStr k \<Rightarrow>
          rbind (response_of st u) (\<lambda>h. rbind (http_response st (rp_response h)) (\<lambda>r.
            if k = ''statusText'' then Ok (VStr (s_Status r))
            else if k = ''status'' then Ok (VInt (s_StatusCode r))
            else if k = ''proto'' then Ok (VStr (s_Proto r))
            else if k = ''header'' then Ok (rp_header h)
            else if k = ''body'' then Ok (rp_body h)
            else if k = ''contentLength'' then Ok (content_length (s_ContentLength r))
            else if k = ''transferEncoding'' then Ok (VBool (isChunked (s_TransferEncoding r)))
            else if k = ''uncompressed'' then Ok (VBool (s_Uncompressed r))
            else if k = ''request'' then Ok (rp_request h)
            else Err (''invalid index, unknown field: '' @ k)))
      | _ \<Rightarrow> Err ''invalid index, name must be string'')"

text \<open>The body is set under the name of the URL.\<close>

definition Response_DotSet :: "hworld oenv \<Rightarrow> nat \<Rightarrow> string \<Rightarrow> val \<Rightarrow> hstore \<Rightarrow> unit res \<times> hstore" where
  "Response_DotSet env u key v st =
     (if key = ''header'' then Response_setHeader env u v st
      else if key = ''url'' then Response_setBody env u v st
      else (Err (''http.response set, unknown field: '' @ key), st))"

definition Response_IndexSet :: "hworld oenv \<Rightarrow> nat \<Rightarrow> val \<Rightarrow> val \<Rightarrow> hstore \<Rightarrow> unit res \<times> hstore" where
  "Response_IndexSet env u key v st =
     (case key of VStr k \<Rightarrow> Response_DotSet env u k v st
      | _ \<Rightarrow> (Err ''http.response index set, invalid key type'', st))"

definition NewResponseVal :: "nat \<Rightarrow> hstore \<Rightarrow> val res \<times> hstore" where
  "NewResponseVal p st =
     rlift (http_response st p) st (\<lambda>r st.
       mbind (case s_Request r of None \<Rightarrow> (Ok VNull, st) | Some q \<Rightarrow> NewRequestVal q st) (\<lambda>q st.
         let (h, st) = NewHeaderVal (s_Header r) st
         in mbind (NewBodyValFromStream (s_Body r) st) (\<lambda>b st.
              let (v, st) = new_obj (OResponse \<lparr>rp_response = p, rp_header = h, rp_request = q, rp_body = b\<rparr>) st
              in (Ok v, st))))"

section \<open>The HTTP client\<close>

text \<open>
  A factory gives a client for a URL, and the client answers a request with a response; both are
  the network's, and parameters. \<open>no_body\<close> is \<open>http.NoBody\<close>.
\<close>

type_synonym client = "nat \<Rightarrow> hstore \<Rightarrow> nat res \<times> hstore"
type_synonym factory = "string \<Rightarrow> hstore \<Rightarrow> client res \<times> hstore"

definition prefix_err :: "string \<Rightarrow> 'a res \<times> hstore \<Rightarrow> 'a res \<times> hstore" where
  "prefix_err p x = (case fst x of Err e \<Rightarrow> Err (p @ e) | r \<Rightarrow> r, snd x)"

definition issue :: "factory \<Rightarrow> string \<Rightarrow> string \<Rightarrow> nat \<Rightarrow> hstore \<Rightarrow> val res \<times> hstore" where
  "issue factory fn url req st =
     mbind (prefix_err (fn @ '' cannot create client: '') (factory url st)) (\<lambda>cl st.
     mbind (prefix_err (fn @ '' cannot issue request: '') (cl req st)) (\<lambda>resp st. NewResponseVal resp st))"

definition set_req_header :: "nat \<Rightarrow> nat \<Rightarrow> hstore \<Rightarrow> hstore" where
  "set_req_header p h st = on_world (hw_requests_update (\<lambda>xs. xs[p := (xs ! p)\<lparr>r_Header := h\<rparr>])) st"

definition header_ptr :: "hstore \<Rightarrow> val \<Rightarrow> nat res" where
  "header_ptr st v = (case v of VUsr u \<Rightarrow> header_of st u | _ \<Rightarrow> Panic ''must: must be user'')"

definition FnHttpGet :: "hworld oenv \<Rightarrow> hlib \<Rightarrow> factory \<Rightarrow> val list \<Rightarrow> hstore \<Rightarrow> val res \<times> hstore" where
  "FnHttpGet env lib factory args st =
     rlift (check_args env st ''http::get'' ''{%s}{%s%a}'' args) st (\<lambda>asize st.
     rlift (v_String (args ! 0)) st (\<lambda>url st.
       let (b, st) = new_reader REof st
       in mbind (prefix_err ''http::get cannot create request: '' (http_NewRequest lib ''GET'' url b 0 st)) (\<lambda>req st.
          mbind (if asize = 2 then
                   mbind (prefix_err ''http::get cannot create header: ''
                       (NewHeaderValFromVal env (hl_order lib) (args ! 1) st)) (\<lambda>hv st.
                     rlift (header_ptr st hv) st (\<lambda>h st. (Ok (), set_req_header req h st)))
                 else (Ok (), st)) (\<lambda>_ st.
            issue factory ''http::get'' url req st))))"

definition FnHttpPost :: "hworld oenv \<Rightarrow> hlib \<Rightarrow> factory \<Rightarrow> val list \<Rightarrow> hstore \<Rightarrow> val res \<times> hstore" where
  "FnHttpPost env lib factory args st =
     rlift (check_args env st ''http::post'' ''{%s%a}{%s%a%a}'' args) st (\<lambda>asize st.
     mbind (if asize = 2 then (Ok None, st)
            else mbind (prefix_err ''http::post cannot create header: ''
                   (NewHeaderValFromVal env (hl_order lib) (args ! 1) st)) (\<lambda>v st. (Ok (Some v), st))) (\<lambda>hv st.
     mbind (prefix_err ''http::post cannot create body: ''
         (NewBodyValFromVal env (args ! (if asize = 2 then 1 else 2)) st)) (\<lambda>bv st.
     rlift (as_body st bv) st (\<lambda>(_, b) st.
     rlift (stream_of st (bd_stream b)) st (\<lambda>s st.
     rlift (v_String (args ! 0)) st (\<lambda>url st.
     mbind (prefix_err ''http::post cannot create request: '' (http_NewRequest lib ''POST'' url (rs_Stream s) 0 st)) (\<lambda>req st.
     mbind (case hv of None \<Rightarrow> (Ok (), st)
            | Some v \<Rightarrow> rlift (header_ptr st v) st (\<lambda>h st. (Ok (), set_req_header req h st))) (\<lambda>_ st.
       issue factory ''http::post'' url req st))))))))"

text \<open>The header is looked for in the place of the body, which a call with three arguments does not have.\<close>

definition FnHttpDo :: "hworld oenv \<Rightarrow> hlib \<Rightarrow> factory \<Rightarrow> val list \<Rightarrow> hstore \<Rightarrow> val res \<times> hstore" where
  "FnHttpDo env lib factory args st =
     rlift (check_args env st ''http::do''
         (''{%U['' @ CHR 39 # ''http.request'' @ CHR 39 # '']}{%s%s}{%s%s%a}{%s%s%a%a}'') args) st (\<lambda>asize st.
     mbind (if 1 < asize then
              rlift (v_String (args ! 0)) st (\<lambda>url st.
              rlift (v_String (args ! 1)) st (\<lambda>method st.
              mbind (if asize = 4 \<and> v_Type (args ! 3) \<noteq> ValNull then
                       mbind (prefix_err ''http::do cannot create body: '' (NewBodyValFromVal env (args ! 3) st)) (\<lambda>bv st.
                       rlift (as_body st bv) st (\<lambda>(_, b) st.
                       rlift (stream_of st (bd_stream b)) st (\<lambda>s st. (Ok (rs_Stream s), st))))
                     else (let (b, st) = new_reader REof st in (Ok b, st))) (\<lambda>body st.
              mbind (prefix_err ''http::do cannot create request: '' (http_NewRequest lib method url body 0 st)) (\<lambda>req st.
              mbind (if 3 \<le> asize then
                       (if length args \<le> 3 then (Panic ''index out of range'', st)
                        else if v_Type (args ! 3) \<noteq> ValNull then
                          mbind (prefix_err ''http::do cannot create header: ''
                              (NewHeaderValFromVal env (hl_order lib) (args ! 2) st)) (\<lambda>hv st.
                            rlift (header_ptr st hv) st (\<lambda>h st. (Ok (), set_req_header req h st)))
                        else (Ok (), st))
                     else (Ok (), st)) (\<lambda>_ st. (Ok req, st))))))
            else
              (case args ! 0 of
                 VUsr u \<Rightarrow> rlift (request_of st u) st (\<lambda>h st. (Ok (rq_request h), st))
               | _ \<Rightarrow> (Panic ''must: must be user'', st))) (\<lambda>req st.
     rlift (http_request st req) st (\<lambda>r st.
     rlift (deref (hw_urls (st_world st)) (r_URL r)) st (\<lambda>x st.
       issue factory ''http::do'' (hl_URLString lib x) req st))))"

section \<open>Functions that make objects\<close>

definition fnNewUrl :: "hworld oenv \<Rightarrow> hlib \<Rightarrow> val list \<Rightarrow> hstore \<Rightarrow> val res \<times> hstore" where
  "fnNewUrl env lib args st =
     rlift (check_args env st ''http::new_url'' ''{%0}{%s}'' args) st (\<lambda>alog st.
       if alog = 1 then
         rlift (v_String (args ! 0)) st (\<lambda>s st.
         mbind (prefix_err ''http::new_url cannot create url: '' (hl_Parse lib s, st)) (\<lambda>x st.
           let (p, st) = new_url x st; (v, st) = NewUrlVal p st in (Ok v, st)))
       else
         (let (p, st) = new_url \<lparr>u_Scheme = '''', u_User = None, u_Host = '''', u_Path = '''', u_RawQuery = '''',
                                  u_Fragment = '''', u_rest = ''''\<rparr> st;
              (v, st) = NewUrlVal p st
          in (Ok v, st)))"

definition fnNewRequest :: "hworld oenv \<Rightarrow> hlib \<Rightarrow> val list \<Rightarrow> hstore \<Rightarrow> val res \<times> hstore" where
  "fnNewRequest env lib args st =
     rlift (check_args env st ''http::new_request''
         (''{%s%s}{%s%s%s}{%s%s%U['' @ CHR 39 # ''http.body'' @ CHR 39 # '']}{%s%s%U['' @ CHR 39 # ''.readablestream''
          @ CHR 39 # '']}'') args) st (\<lambda>alog st.
     rlift (v_String (args ! 0)) st (\<lambda>method st. rlift (v_String (args ! 1)) st (\<lambda>url st.
       if alog = 2 then
         (let (b, st) = new_reader REof st in NewRequestValFromStream lib method url b 0 st)
       else NewRequestValFromVal env lib method url (args ! 2) st)))"

definition fnNewHeader :: "hworld oenv \<Rightarrow> hlib \<Rightarrow> val list \<Rightarrow> hstore \<Rightarrow> val res \<times> hstore" where
  "fnNewHeader env lib args st =
     rlift (check_args env st ''http::new_header''
         (''{%p}{%l}{%m}{%U['' @ CHR 39 # ''http.header'' @ CHR 39 # '']}'') args) st (\<lambda>_ st.
       prefix_err ''http::new_header cannot create header: '' (NewHeaderValFromVal env (hl_order lib) (args ! 0) st))"

text \<open>The readers of bodies are used as they are, other values become text.\<close>

fun concat_readers :: "hworld oenv \<Rightarrow> nat \<Rightarrow> val list \<Rightarrow> nat list \<Rightarrow> hstore \<Rightarrow> nat list res \<times> hstore" where
  "concat_readers env idx [] input st = (Ok input, st)"
| "concat_readers env idx (a # as) input st =
     rlift (ValIsHttpBody env st a) st (\<lambda>is_body st.
       if is_body then
         rlift (as_body st a) st (\<lambda>(_, b) st. rlift (stream_of st (bd_stream b)) st (\<lambda>h st.
           concat_readers env (Suc idx) as (input @ [rs_Stream h]) st))
       else (case v_ToString env st a of
               Ok s \<Rightarrow> let (r, st) = new_reader (RStr s) st in concat_readers env (Suc idx) as (input @ [r]) st
             | Err e \<Rightarrow> (Err (''http::concate_body: the '' @ nat_digits (idx + 1) @
                 '' argument cannot be converted to string: '' @ e), st)
             | Panic p \<Rightarrow> (Panic p, st)
             | Diverge \<Rightarrow> (Diverge, st)))"

definition fnConcateHttpBody :: "hworld oenv \<Rightarrow> val list \<Rightarrow> hstore \<Rightarrow> val res \<times> hstore" where
  "fnConcateHttpBody env args st =
     rlift (check_args env st ''http::concate_body'' ''%a*'' args) st (\<lambda>_ st.
     mbind (concat_readers env 0 args [] st) (\<lambda>input st.
       let (r, st) = new_reader (RMulti (Some input)) st in NewBodyValFromStream r st))"

definition fnNewUrlSearch :: "hworld oenv \<Rightarrow> hlib \<Rightarrow> val list \<Rightarrow> hstore \<Rightarrow> val res \<times> hstore" where
  "fnNewUrlSearch env lib args st =
     rlift (check_args env st ''http::new_url_search'' ''%s'' args) st (\<lambda>_ st.
     rlift (v_String (args ! 0)) st (\<lambda>s st.
       prefix_err ''http::new_url_search parsing error: ''
         (NewUrlSearchValFromString env (hl_quote lib) (hl_order lib) s st)))"

section \<open>What reaches the network\<close>

lemma new_obj_frame:
  "new_obj x st = (v, st') \<Longrightarrow> st_world st' = (st_world st)\<lparr>hw_objs := hw_objs (st_world st) @ [x]\<rparr> \<and>
     v = VUsr (length (hw_objs (st_world st)))"
  by (auto simp: new_obj_def)

lemma request_of_iff: "request_of st u = Ok r \<longleftrightarrow> get_obj st u = Ok (ORequest r)"
proof (cases "get_obj st u")
  case (Ok x)
  then show ?thesis by (cases x) (simp_all add: request_of_def)
qed (simp_all add: request_of_def)

lemma request_bound: "request_of st u = Ok r \<Longrightarrow> u < length (hw_objs (st_world st))"
  by (auto simp: request_of_def get_obj_def deref_def split: if_splits)

lemma NewBodyValFromString_frame:
  assumes "NewBodyValFromString s st = (Ok w, st')"
  shows "hw_requests (st_world st') = hw_requests (st_world st) \<and> hw_headers (st_world st') = hw_headers (st_world st) \<and>
     hw_urls (st_world st') = hw_urls (st_world st) \<and>
     take (length (hw_readers (st_world st))) (hw_readers (st_world st')) = hw_readers (st_world st) \<and>
     (\<forall>k<length (hw_objs (st_world st)). hw_objs (st_world st') ! k = hw_objs (st_world st) ! k) \<and>
     length (hw_objs (st_world st)) \<le> length (hw_objs (st_world st'))"
    and "\<exists>k b h. w = VUsr k \<and> length (hw_objs (st_world st)) \<le> k \<and> length (hw_objs (st_world st)) \<le> bd_stream b \<and>
     body_of st' k = Ok b \<and> stream_of st' (bd_stream b) = Ok h \<and> rs_hasCache h \<and> rs_cacheBuf h = s"
proof -
  let ?n = "length (hw_objs (st_world st))"
  let ?h = "\<lparr>rs_Stream = length (hw_readers (st_world st)), rs_cacheBuf = s, rs_hasCache = True, rs_closed = False\<rparr>"
  let ?b = "\<lparr>bd_streamVal = VUsr ?n, bd_stream = ?n\<rparr>"
  have w: "w = VUsr (Suc ?n)" and st': "st_world st' = (st_world st)\<lparr>hw_readers := hw_readers (st_world st) @ [RBytes (Some s)],
      hw_objs := hw_objs (st_world st) @ [OStream ?h, OBody ?b]\<rparr>"
    using assms
    by (auto simp: NewBodyValFromString_def NewReadableStreamFromString_def newBodyValFromReadableStream_def
        new_reader_def new_obj_def as_stream_def stream_of_def get_obj_def deref_def)
  show "hw_requests (st_world st') = hw_requests (st_world st) \<and> hw_headers (st_world st') = hw_headers (st_world st) \<and>
     hw_urls (st_world st') = hw_urls (st_world st) \<and>
     take (length (hw_readers (st_world st))) (hw_readers (st_world st')) = hw_readers (st_world st) \<and>
     (\<forall>k<length (hw_objs (st_world st)). hw_objs (st_world st') ! k = hw_objs (st_world st) ! k) \<and>
     length (hw_objs (st_world st)) \<le> length (hw_objs (st_world st'))"
    by (simp add: st' nth_append)
  have "body_of st' (Suc ?n) = Ok ?b" "stream_of st' (bd_stream ?b) = Ok ?h"
    by (simp_all add: body_of_def stream_of_def get_obj_def deref_def st' nth_append)
  then show "\<exists>k b h. w = VUsr k \<and> length (hw_objs (st_world st)) \<le> k \<and> length (hw_objs (st_world st)) \<le> bd_stream b \<and>
     body_of st' k = Ok b \<and> stream_of st' (bd_stream b) = Ok h \<and> rs_hasCache h \<and> rs_cacheBuf h = s"
    using w by (intro exI [of _ "Suc ?n"] exI [of _ ?b] exI [of _ ?h]) simp
qed

text \<open>
  What a setter keeps of what was there: the Go requests, the header maps, the URLs and the readers of
  bodies. It may add a URL or a reader of its own.
\<close>

definition net_same :: "hstore \<Rightarrow> hstore \<Rightarrow> bool" where
  "net_same st st' \<longleftrightarrow> hw_requests (st_world st') = hw_requests (st_world st) \<and>
     hw_headers (st_world st') = hw_headers (st_world st) \<and>
     take (length (hw_urls (st_world st))) (hw_urls (st_world st')) = hw_urls (st_world st) \<and>
     take (length (hw_readers (st_world st))) (hw_readers (st_world st')) = hw_readers (st_world st)"

lemma net_same_set_obj [simp]: "net_same st (set_obj u x st') = net_same st st'"
  by (simp add: net_same_def set_obj_def)

lemma net_same_refl [simp]: "net_same st st"
  by (simp add: net_same_def)

lemma request_of_set_obj:
  "u < length (hw_objs (st_world st)) \<Longrightarrow> request_of (set_obj u (ORequest r) st) u = Ok r"
  by (simp add: request_of_def get_obj_def set_obj_def deref_def)

text \<open>
  What the object shows after an assignment: the value itself if it is of the right kind, otherwise a
  new URL that a text was parsed to, or a new body with the text.
\<close>

definition shows_url :: "hworld oenv \<Rightarrow> hlib \<Rightarrow> val \<Rightarrow> hstore \<Rightarrow> val \<Rightarrow> bool" where
  "shows_url env lib v st' w \<longleftrightarrow>
     (case v of
        VStr s \<Rightarrow> \<exists>k p x. w = VUsr k \<and> url_of st' k = Ok p \<and> deref (hw_urls (st_world st')) p = Ok x \<and> hl_Parse lib s = Ok x
      | _ \<Rightarrow> w = v)"

definition shows_body :: "hworld oenv \<Rightarrow> hstore \<Rightarrow> val \<Rightarrow> hstore \<Rightarrow> val \<Rightarrow> bool" where
  "shows_body env st v st' w \<longleftrightarrow>
     (if ValIsHttpBody env st v = Ok True then w = v
      else \<exists>s k b. v = VStr s \<and> w = VUsr k \<and> body_of st' k = Ok b \<and> fst (CacheBuffer (bd_stream b) st') = Ok s)"

lemma Request_setHeader_spec:
  assumes "request_of st u = Ok r" and "Request_setHeader env u v st = (Ok (), st')"
  shows "net_same st st' \<and> request_of st' u = Ok (r\<lparr>rq_header := v\<rparr>)"
proof (cases "ValIsHttpHeader env st v")
  case (Ok b)
  with assms have "b" "st' = set_obj u (ORequest (r\<lparr>rq_header := v\<rparr>)) st"
    by (auto simp: Request_setHeader_def split: if_splits)
  then show ?thesis using request_bound [OF assms(1)] by (simp add: request_of_set_obj)
qed (use assms in \<open>auto simp: Request_setHeader_def\<close>)

lemma Request_setUrl_spec:
  assumes "request_of st u = Ok r" and "Request_setUrl env lib u v st = (Ok (), st')"
  shows "net_same st st' \<and> (\<exists>w. request_of st' u = Ok (r\<lparr>rq_url := w\<rparr>) \<and> shows_url env lib v st' w)"
proof (cases "\<exists>s. v = VStr s")
  case True
  then obtain s where s: "v = VStr s" by blast
  then obtain x where x: "hl_Parse lib s = Ok x"
    using assms by (cases "hl_Parse lib s") (auto simp: Request_setUrl_def)
  obtain p st1 where p: "new_url x st = (p, st1)" by (metis prod.exhaust)
  obtain w st2 where w: "NewUrlVal p st1 = (w, st2)" by (metis prod.exhaust)
  have st': "st' = set_obj u (ORequest (r\<lparr>rq_url := w\<rparr>)) st2"
    using assms s x p w by (simp add: Request_setUrl_def)
  have u: "u < length (hw_objs (st_world st))" using request_bound [OF assms(1)] .
  have same: "net_same st st2" and "u < length (hw_objs (st_world st2))"
    using p w u by (auto simp: new_url_def NewUrlVal_def new_obj_def net_same_def)
  then have "net_same st st'" "request_of st' u = Ok (r\<lparr>rq_url := w\<rparr>)"
    unfolding st' by (simp_all add: request_of_set_obj)
  moreover have k: "w = VUsr (length (hw_objs (st_world st)))" "hw_objs (st_world st2) = hw_objs (st_world st) @ [OUrl p]"
    "p = length (hw_urls (st_world st))" "hw_urls (st_world st2) = hw_urls (st_world st) @ [x]"
    using p w by (auto simp: new_url_def NewUrlVal_def new_obj_def)
  have "url_of st' (length (hw_objs (st_world st))) = Ok p" "deref (hw_urls (st_world st')) p = Ok x"
    using k u by (simp_all add: st' url_of_def get_obj_def set_obj_def deref_def nth_append)
  then have "shows_url env lib v st' w" using k(1) x s by (simp add: shows_url_def)
  ultimately show ?thesis by blast
next
  case False
  then have g: "Request_setUrl env lib u v st = rlift (ValIsUrl env st v) st (\<lambda>b st.
      if b then (Ok (), set_obj u (ORequest (r\<lparr>rq_url := v\<rparr>)) st) else (Err ''http.request.url set, invalid type'', st))"
    using assms(1) by (auto simp: Request_setUrl_def split: val.split)
  then have "st' = set_obj u (ORequest (r\<lparr>rq_url := v\<rparr>)) st"
    using assms(2) by (cases "ValIsUrl env st v") (auto split: if_splits)
  moreover have "shows_url env lib v t v" for t using False by (cases v) (simp_all add: shows_url_def)
  ultimately show ?thesis using request_bound [OF assms(1)] by (auto simp: request_of_set_obj)
qed

lemma Request_setBody_spec:
  assumes "request_of st u = Ok r" and "Request_setBody env u v st = (Ok (), st')"
  shows "net_same st st' \<and> (\<exists>w. request_of st' u = Ok (r\<lparr>rq_body := w\<rparr>) \<and> shows_body env st v st' w)"
proof (cases "ValIsHttpBody env st v")
  case (Ok b)
  show ?thesis
  proof (cases b)
    case True
    with assms Ok have "st' = set_obj u (ORequest (r\<lparr>rq_body := v\<rparr>)) st" by (auto simp: Request_setBody_def)
    then show ?thesis using request_bound [OF assms(1)] Ok True by (auto simp: request_of_set_obj shows_body_def)
  next
    case False
    then obtain s where s: "v = VStr s" using assms Ok by (cases v) (auto simp: Request_setBody_def)
    obtain q st1 where q: "NewBodyValFromString s st = (q, st1)" by (metis prod.exhaust)
    then obtain w where w: "q = Ok w" using assms Ok False s by (cases q) (auto simp: Request_setBody_def)
    have st': "st' = set_obj u (ORequest (r\<lparr>rq_body := w\<rparr>)) st1"
      using assms Ok False s q w by (simp add: Request_setBody_def)
    note f = NewBodyValFromString_frame [OF q [unfolded w]]
    have "net_same st st1" "u < length (hw_objs (st_world st1))"
      using f(1) request_bound [OF assms(1)] by (auto simp: net_same_def)
    moreover have "shows_body env st v st' w"
    proof -
      obtain k b' h where k: "w = VUsr k" "length (hw_objs (st_world st)) \<le> k" "length (hw_objs (st_world st)) \<le> bd_stream b'"
        "body_of st1 k = Ok b'" "stream_of st1 (bd_stream b') = Ok h" "rs_hasCache h" "rs_cacheBuf h = s"
        using f(2) by blast
      have "get_obj st' i = get_obj st1 i" if "length (hw_objs (st_world st)) \<le> i" for i
        using that request_bound [OF assms(1)] by (auto simp: st' set_obj_def get_obj_def deref_def)
      then have "body_of st' k = Ok b'" "stream_of st' (bd_stream b') = Ok h"
        using k by (simp_all add: body_of_def stream_of_def)
      then show ?thesis
        using Ok False s k by (simp add: shows_body_def CacheBuffer_cached)
    qed
    ultimately show ?thesis by (auto simp: st' request_of_set_obj)
  qed
qed (use assms in \<open>auto simp: Request_setBody_def\<close>)

lemma deref_take: "take (length xs) ys = xs \<Longrightarrow> deref xs i = Ok x \<Longrightarrow> deref ys i = Ok x"
proof -
  assume "take (length xs) ys = xs"
  then have "ys = xs @ drop (length xs) ys" by (metis append_take_drop_id)
  then show "deref xs i = Ok x \<Longrightarrow> deref ys i = Ok x"
    by (metis deref_def length_append nth_append res.distinct(3) trans_less_add1)
qed

text \<open>What \<open>http::do\<close> does with a request object: it issues the Go request behind it, under that one's URL.\<close>

lemma do_descriptor:
  "\<exists>cs. MustNewFuncProto ''http::do''
      (''{%U['' @ CHR 39 # ''http.request'' @ CHR 39 # '']}{%s%s}{%s%s%a}{%s%s%a%a}'') =
    Ok \<lparr>fp_Descriptor = ''{%U['' @ CHR 39 # ''http.request'' @ CHR 39 # '']}{%s%s}{%s%s%a}{%s%s%a%a}'',
        fp_Name = ''http::do'', fp_d = \<lparr>ac_d = [[\<lparr>pe_opcode = PUsr, pe_tname = ''http.request''\<rparr>]], ac_noarg = False,
          ac_varlen = False\<rparr> # cs, fp_noarg = False, fp_alwayspass = False\<rparr>"
  by (rule exI [of _ "map (\<lambda>d. \<lparr>ac_d = map (\<lambda>o1. [\<lparr>pe_opcode = o1, pe_tname = ''''\<rparr>]) d, ac_noarg = False, ac_varlen = False\<rparr>)
      [[PString, PString], [PString, PString, PAny], [PString, PString, PAny, PAny]]"]) code_simp

lemma do_takes_request:
  assumes "hpl_env env" and "request_of st u = Ok r"
  shows "check_args env st ''http::do''
      (''{%U['' @ CHR 39 # ''http.request'' @ CHR 39 # '']}{%s%s}{%s%s%a}{%s%s%a%a}'') [VUsr u] = Ok 1"
proof -
  have x: "get_obj st u = Ok (ORequest r)"
    using assms(2) by (simp add: request_of_iff)
  have "v_Id env st (VUsr u) = Ok ''http.request''"
    using assms(1) x by (simp add: hpl_env_def type_ids)
  then show ?thesis
    using do_descriptor by (auto simp: check_args_def Check_def doCheck_def check1_def check0_def)
qed

lemma do_sends:
  assumes "hpl_env env" and "request_of st u = Ok r" and "http_request st (rq_request r) = Ok q"
    and "deref (hw_urls (st_world st)) (r_URL q) = Ok x"
  shows "FnHttpDo env lib factory [VUsr u] st = issue factory ''http::do'' (hl_URLString lib x) (rq_request r) st"
  using assms do_takes_request [OF assms(1,2)] by (simp add: FnHttpDo_def)

text \<open>
  C32: what a script sets on a request is never sent. Assigning the header, URL or body of a request
  changes what the object shows, and just that field of it, to the given value; no Go request, header map,
  URL or reader that was there changes, and \<open>http::do\<close> hands the client the Go request which
  the object stood for from the beginning, under the URL of that one.
\<close>

theorem request_assignment_is_not_sent:
  assumes "hpl_env env" and "request_of st u = Ok r" and "http_request st (rq_request r) = Ok q"
    and "deref (hw_urls (st_world st)) (r_URL q) = Ok x" and "Request_DotSet env lib u key v st = (Ok (), st')"
  shows "net_same st st' \<and>
    (\<exists>w. key = ''header'' \<and> w = v \<and> request_of st' u = Ok (r\<lparr>rq_header := w\<rparr>) \<or>
       key = ''url'' \<and> shows_url env lib v st' w \<and> request_of st' u = Ok (r\<lparr>rq_url := w\<rparr>) \<or>
       key = ''body'' \<and> shows_body env st v st' w \<and> request_of st' u = Ok (r\<lparr>rq_body := w\<rparr>)) \<and>
    http_request st' (rq_request r) = Ok q \<and>
    (\<forall>factory. FnHttpDo env lib factory [VUsr u] st' = issue factory ''http::do'' (hl_URLString lib x) (rq_request r) st')"
proof -
  consider "key = ''header''" "Request_setHeader env u v st = (Ok (), st')"
    | "key = ''url''" "Request_setUrl env lib u v st = (Ok (), st')"
    | "key = ''body''" "Request_setBody env u v st = (Ok (), st')"
    using assms(5) by (auto simp: Request_DotSet_def split: if_splits)
  then have set: "net_same st st' \<and>
    (\<exists>w. key = ''header'' \<and> w = v \<and> request_of st' u = Ok (r\<lparr>rq_header := w\<rparr>) \<or>
       key = ''url'' \<and> shows_url env lib v st' w \<and> request_of st' u = Ok (r\<lparr>rq_url := w\<rparr>) \<or>
       key = ''body'' \<and> shows_body env st v st' w \<and> request_of st' u = Ok (r\<lparr>rq_body := w\<rparr>))"
  proof cases
    case 1
    from Request_setHeader_spec [OF assms(2) 1(2)] 1(1) show ?thesis by simp
  next
    case 2
    from Request_setUrl_spec [OF assms(2) 2(2)] 2(1) show ?thesis by (simp; blast)
  next
    case 3
    from Request_setBody_spec [OF assms(2) 3(2)] 3(1) show ?thesis by (simp; blast)
  qed
  then have "\<exists>r'. request_of st' u = Ok r' \<and> rq_request r' = rq_request r" by auto
  then obtain r' where r': "request_of st' u = Ok r'" "rq_request r' = rq_request r" by blast
  have q: "http_request st' (rq_request r) = Ok q"
    using set assms(3) by (simp add: http_request_def net_same_def)
  have "deref (hw_urls (st_world st')) (r_URL q) = Ok x"
    using set assms(4) deref_take [of "hw_urls (st_world st)" "hw_urls (st_world st')"] by (simp add: net_same_def)
  then show ?thesis
    using set q do_sends [OF assms(1) r'(1) q [folded r'(2)]] r'(2) by simp
qed

text \<open>
  \<open>http::do\<close> with a URL, a method and a header always fails: once the request is made it looks
  for a fourth argument and panics, so no such request is ever sent.
\<close>

theorem http_do_with_header_panics:
  assumes "check_args env st ''http::do''
      (''{%U['' @ CHR 39 # ''http.request'' @ CHR 39 # '']}{%s%s}{%s%s%a}{%s%s%a%a}'') [VStr url, VStr method, h] = Ok 3"
    and "http_NewRequest lib method url b 0 st1 = (Ok req, st2)" and "new_reader REof st = (b, st1)"
  shows "FnHttpDo env lib factory [VStr url, VStr method, h] st = (Panic ''index out of range'', st2)"
  using assms by (simp add: FnHttpDo_def prefix_err_def)

text \<open>A library for concrete runs.\<close>

definition plain_lib :: hlib where
  "plain_lib =
     \<lparr>hl_order = (\<lambda>m. m), hl_params_order = (\<lambda>m. m), hl_quote = (\<lambda>s. s),
      hl_Parse = (\<lambda>s. Ok \<lparr>u_Scheme = '''', u_User = None, u_Host = '''', u_Path = s, u_RawQuery = '''',
                            u_Fragment = '''', u_rest = ''''\<rparr>),
      hl_URLString = u_Path, hl_RequestURI = u_Path, hl_UserString = fst, hl_cipher = (\<lambda>_. ''''),
      hl_cookies = (\<lambda>_. []), hl_cookie_valid = (\<lambda>_. True), hl_show = (\<lambda>_. '''')\<rparr>"

text \<open>A Go request for \<open>/a\<close> with its object (0), and the object (1) of another header.\<close>

definition s_goreq :: HttpRequest where
  "s_goreq = \<lparr>r_Method = ''GET'', r_Proto = ''HTTP/1.1'', r_ProtoMajor = 1, r_ProtoMinor = 1, r_Header = 0, r_URL = 0,
     r_Body = 0, r_RequestURI = '''', r_Host = ''h'', r_RemoteAddr = '''', r_TLS = None, r_ContentLength = 0,
     r_TransferEncoding = []\<rparr>"

definition s_gourl :: URL where
  "s_gourl = \<lparr>u_Scheme = ''http'', u_User = None, u_Host = ''h'', u_Path = ''/a'', u_RawQuery = '''', u_Fragment = '''',
     u_rest = ''''\<rparr>"

definition request_sample :: hstore where
  "request_sample = st_init (hworld_init\<lparr>hw_headers := [[(''Host'', [''a''])], []], hw_requests := [s_goreq],
     hw_urls := [s_gourl], hw_readers := [REof],
     hw_objs := [ORequest \<lparr>rq_request = 0, rq_header = VNull, rq_url = VNull, rq_body = VNull, rq_tls = VNull\<rparr>,
                 OHeader 1]\<rparr>)"

theorem request_assignment_is_not_sent_witness:
  "\<exists>st'. Request_DotSet plain_hpl_env plain_lib 0 ''header'' (VUsr 1) request_sample = (Ok (), st') \<and>
     net_same request_sample st' \<and>
     request_of st' 0 = Ok \<lparr>rq_request = 0, rq_header = VUsr 1, rq_url = VNull, rq_body = VNull, rq_tls = VNull\<rparr> \<and>
     (\<forall>factory. FnHttpDo plain_hpl_env plain_lib factory [VUsr 0] st' = issue factory ''http::do'' ''/a'' 0 st')"
proof -
  let ?r = "\<lparr>rq_request = 0, rq_header = VNull, rq_url = VNull, rq_body = VNull, rq_tls = VNull\<rparr>"
  note defs = request_sample_def st_init_def hworld_init_def
  have r: "request_of request_sample 0 = Ok ?r"
    by (simp add: request_of_def get_obj_def deref_def defs)
  have q: "http_request request_sample (rq_request ?r) = Ok s_goreq"
    and x: "deref (hw_urls (st_world request_sample)) (r_URL s_goreq) = Ok s_gourl"
    by (simp_all add: http_request_def deref_def defs s_goreq_def)
  have "v_Id plain_hpl_env request_sample (VUsr 1) = Ok ''http.header''"
    by (simp add: plain_hpl_env_def get_obj_def deref_def defs type_ids)
  then obtain st' where s: "Request_DotSet plain_hpl_env plain_lib 0 ''header'' (VUsr 1) request_sample = (Ok (), st')"
    by (simp add: Request_DotSet_def Request_setHeader_def r ValIsHttpHeader_def has_id_def type_ids)
  have "hl_URLString plain_lib s_gourl = ''/a''" by (simp add: plain_lib_def s_gourl_def)
  with request_assignment_is_not_sent [OF plain_hpl_env r q x s] s show ?thesis by auto
qed

theorem http_do_with_header_panics_witness:
  "\<exists>st2. FnHttpDo plain_hpl_env plain_lib (\<lambda>_ st. (Err ''no client'', st)) [VStr ''/x'', VStr ''GET'', VNull]
     (st_init hworld_init) = (Panic ''index out of range'', st2)"
proof -
  have c: "check_args plain_hpl_env (st_init hworld_init) ''http::do''
      (''{%U['' @ CHR 39 # ''http.request'' @ CHR 39 # '']}{%s%s}{%s%s%a}{%s%s%a%a}'')
      [VStr ''/x'', VStr ''GET'', VNull] = Ok 3"
    by code_simp
  obtain b st1 where b: "new_reader REof (st_init hworld_init) = (b, st1)" by (metis prod.exhaust)
  have "list_all validHeaderFieldByte ''GET''" by code_simp
  then obtain req st2 where "http_NewRequest plain_lib ''GET'' ''/x'' b 0 st1 = (Ok req, st2)"
    by (simp add: http_NewRequest_def plain_lib_def new_url_def new_header_map_def)
  from http_do_with_header_panics [OF c this b] show ?thesis by blast
qed

end
