(* ===== verification/HttpModules.thy ===== *)
theory HttpModules
  imports WriterProps HClientPool HplConfig HplRequest
begin

text \<open>
  The middleware and applications of the framework (\<open>http/framework\<close>, \<open>http/module\<close>): their
  factories and registries, the chain of middleware, and each builtin one. The interfaces of Go are
  closed here: a middleware is one of those that are registered. The state of a request, \<open>session\<close>,
  is the response writer and the store of objects with what the handler and its application keep.
\<close>

section \<open>The session\<close>

text \<open>
  \<open>bodySignApplication\<close> of \<open>body_sign.go\<close> and \<open>concateApplication\<close> of \<open>concate.go\<close>. The temporary
  file of a signature is a reader; the pipe's reader of a concatenation too.
\<close>

record signResult =
  sr_contentLength :: nat
  sr_sign :: string
  sr_result :: string
  sr_body :: nat

record bodySignConfig =
  bc_tempDir :: string
  bc_signPrefix :: string
  bc_verifyPrefix :: string
  bc_verifyHeaderName :: string
  bc_opHeaderName :: string
  bc_methodHeaderName :: string

record bodySignInput =
  bi_op :: string
  bi_method :: string
  bi_expect :: string
  bi_body :: nat

record bodySign =
  bs_r :: "signResult option"
  bs_op :: string
  bs_method :: string
  bs_args :: "val list"
  bs_config :: bodySignConfig

datatype concateRequest =
    RequestUrl string
  | RequestRequest nat
  | RequestString string
  | RequestStream nat
  | RequestResponse nat

record concate =
  cc_reqList :: "concateRequest list"
  cc_idx :: nat
  cc_reader :: "nat option"
  cc_closed :: bool
  cc_args :: "val list"

datatype app =
    AppNull
  | AppEvent "val list"
  | AppBodySign bodySign
  | AppConcate concate

text \<open>
  \<open>serviceHandler\<close> with the locals of its \<open>main\<close> that outlive a phase. \<open>ss_trace\<close> is the sequence of
  phases that were entered, \<open>ss_rand\<close> the numbers the random source will give, \<open>ss_files\<close> the temporary
  files that exist.
\<close>

record session = wst +
  ss_app :: app
  ss_phase :: string
  ss_phaseIndex :: nat
  ss_trace :: "nat list"
  ss_clients :: "HClient list"
  ss_pool :: HClientPool
  ss_rand :: "nat list"
  ss_files :: "nat list"

text \<open>
  The rest of the system as the pipeline sees it: the environment of the objects, the order of Go
  maps, the connection's errors, the module's session rule and its event rules (any of which may do
  what a script can, see \<open>script_env\<close>), and the temporary files and digests of other packages.
\<close>

record henv =
  he_env :: "hworld oenv"
  he_ho :: "hdr \<Rightarrow> hdr"
  he_net :: "string \<Rightarrow> string option"
  he_init :: "val \<Rightarrow> val \<Rightarrow> session \<Rightarrow> unit res \<times> session"
  he_emit :: "string \<Rightarrow> val \<Rightarrow> session \<Rightarrow> val res \<times> session"
  he_hasError :: bool
  he_createTemp :: "string \<Rightarrow> string \<Rightarrow> string option"
  he_writeTemp :: "nat \<Rightarrow> string \<Rightarrow> string option"
  he_digest :: "string \<Rightarrow> string \<Rightarrow> string"

definition on_store :: "(hstore \<Rightarrow> 'b \<times> hstore) \<Rightarrow> session \<Rightarrow> 'b \<times> session" where
  "on_store f s = on_st (f (ws_st s)) s"

definition ReplyError :: "henv \<Rightarrow> string \<Rightarrow> int64 \<Rightarrow> string \<Rightarrow> session \<Rightarrow> unit res \<times> session" where
  "ReplyError he reason status err s = replyErr (he_net he) (he_hasError he) (he_emit he) reason status err s"

section \<open>Header changes\<close>

definition with_err :: "(string \<Rightarrow> string) \<Rightarrow> 'a res \<Rightarrow> 'a res" where
  "with_err f r = (case r of Err e \<Rightarrow> Err (f e) | r \<Rightarrow> r)"

text \<open>The callbacks run one by one, so what came before an error stays done.\<close>

fun modForeachKV ::
  "hworld oenv \<Rightarrow> string \<Rightarrow> val list \<Rightarrow> (string \<Rightarrow> string \<Rightarrow> hdr \<Rightarrow> hdr) \<Rightarrow> nat \<Rightarrow> nat list \<Rightarrow> hstore \<Rightarrow>
   unit res \<times> hstore" where
  "modForeachKV env context args cb h [] st = (Ok (), st)"
| "modForeachKV env context args cb h (i # is) st =
     rlift (cfg_Get args i) st (\<lambda>v st.
       case v of
         VPair p \<Rightarrow>
           rlift (deref (st_pairs st) p) st (\<lambda>(a, b) st.
           rlift (with_err (\<lambda>e. context @ '': key is not string, '' @ e) (v_ToString env st a)) st (\<lambda>key st.
           rlift (with_err (\<lambda>e. context @ '': value is not string, '' @ e) (v_ToString env st b)) st (\<lambda>val st.
           rlift (get_header_map st h) st (\<lambda>m st.
             modForeachKV env context args cb h is (set_header_map h (cb key val m) st)))))
       | _ \<Rightarrow> (Err (context @ '': the argument must be pair to represent header kv''), st))"

fun modForeachKey ::
  "hworld oenv \<Rightarrow> string \<Rightarrow> val list \<Rightarrow> (string \<Rightarrow> hdr \<Rightarrow> hdr) \<Rightarrow> nat \<Rightarrow> nat list \<Rightarrow> hstore \<Rightarrow>
   unit res \<times> hstore" where
  "modForeachKey env context args cb h [] st = (Ok (), st)"
| "modForeachKey env context args cb h (i # is) st =
     rlift (cfg_Get args i) st (\<lambda>v st.
     rlift (with_err (\<lambda>e. context @ '': key is not string, '' @ e) (v_ToString env st v)) st (\<lambda>key st.
     rlift (get_header_map st h) st (\<lambda>m st.
       modForeachKey env context args cb h is (set_header_map h (cb key m) st))))"

definition HeaderAdd :: "hworld oenv \<Rightarrow> string \<Rightarrow> val list \<Rightarrow> nat \<Rightarrow> hstore \<Rightarrow> unit res \<times> hstore" where
  "HeaderAdd env context args h =
     modForeachKV env context args (\<lambda>k v m. hdr_Add m k v) h [0..<length args]"

definition HeaderSet :: "hworld oenv \<Rightarrow> string \<Rightarrow> val list \<Rightarrow> nat \<Rightarrow> hstore \<Rightarrow> unit res \<times> hstore" where
  "HeaderSet env context args h =
     modForeachKV env context args (\<lambda>k v m. hdr_Set m k v) h [0..<length args]"

definition del_matching :: "string \<Rightarrow> hdr \<Rightarrow> hdr" where
  "del_matching key m = fold (\<lambda>k m. if ToMatcher key k key then hdr_Del m k else m) (map fst m) m"

definition HeaderDel :: "hworld oenv \<Rightarrow> string \<Rightarrow> val list \<Rightarrow> nat \<Rightarrow> hstore \<Rightarrow> unit res \<times> hstore" where
  "HeaderDel env context args h = modForeachKey env context args del_matching h [0..<length args]"

datatype headerModFn = FnAdd | FnSet | FnDel

fun modFn :: "headerModFn \<Rightarrow> hworld oenv \<Rightarrow> string \<Rightarrow> val list \<Rightarrow> nat \<Rightarrow> hstore \<Rightarrow> unit res \<times> hstore" where
  "modFn FnAdd = HeaderAdd"
| "modFn FnSet = HeaderSet"
| "modFn FnDel = HeaderDel"

section \<open>Random text\<close>

definition letterBytes :: string where
  "letterBytes = ''abcdefghujkmnopqrstuvwxyzABCDEFGHIJKLMNOPQRSTUVWXYZ1234567890!@#$%^&*()_+|-='' @ [CHR 0x5C, CHR ''~'', CHR 0x60]"

text \<open>
  Seven bits of a random number pick a letter, or none; a number serves nine times. The text is
  filled from its end. \<open>rs\<close> are the numbers the source gives; the loop needs more when they run out.
\<close>

fun fill_random :: "nat \<Rightarrow> nat \<Rightarrow> nat \<Rightarrow> nat list \<Rightarrow> string \<Rightarrow> string res \<times> nat list" where
  "fill_random 0 cache remain rs b = (Ok b, rs)"
| "fill_random (Suc i) cache (Suc remain) rs b =
     (let idx = cache mod 128
      in if idx < length letterBytes then fill_random i (cache div 128) remain rs (letterBytes ! idx # b)
         else fill_random (Suc i) (cache div 128) remain rs b)"
| "fill_random (Suc i) cache 0 (r # rs) b = fill_random (Suc i) r 9 rs b"
| "fill_random (Suc i) cache 0 [] b = (Diverge, [])"

definition RandomString :: "int64 \<Rightarrow> nat list \<Rightarrow> string res \<times> nat list" where
  "RandomString n rs =
     (if sint n < 0 then (Panic ''makeslice: len out of range'', rs)
      else (case rs of
              [] \<Rightarrow> (if n = 0 then (Ok '''', []) else (Diverge, []))
            | r # rs \<Rightarrow> fill_random (unat n) r 9 rs ''''))"

section \<open>Middleware\<close>

datatype middleware =
    MwEvent "val list"
  | MwRequestHeader headerModFn string "val list"
  | MwResponseHeader headerModFn string "val list"
  | MwEcho "val list"
  | MwRandom "val list"
  | MwResponse "val list"
  | MwCompose string "middleware list"

definition event_Accept :: "henv \<Rightarrow> val list \<Rightarrow> session \<Rightarrow> bool res \<times> session" where
  "event_Accept he args s =
     (case cfg_GetStr (he_env he) (ws_st s) args 0 of
        Err e \<Rightarrow> mbind (ReplyError he ''event.hpl'' 500 e s) (\<lambda>_ s. (Ok False, s))
      | Ok eventName \<Rightarrow>
          rlift (cfg_TryGet args 1 VNull) s (\<lambda>context s.
            (case he_emit he eventName context s of
               (Err e, s) \<Rightarrow> mbind (ReplyError he (''event.'' @ eventName) 500 e s) (\<lambda>_ s. (Ok False, s))
             | (Ok _, s) \<Rightarrow> (Ok True, s)
             | (Panic p, s) \<Rightarrow> (Panic p, s)
             | (Diverge, s) \<Rightarrow> (Diverge, s)))
      | Panic p \<Rightarrow> (Panic p, s)
      | Diverge \<Rightarrow> (Diverge, s))"

text \<open>\<open>modheader\<close> of the request and of the response differ in the header they change.\<close>

definition mod_Accept :: "henv \<Rightarrow> headerModFn \<Rightarrow> string \<Rightarrow> val list \<Rightarrow> nat \<Rightarrow> session \<Rightarrow> bool res \<times> session" where
  "mod_Accept he fn name args h s =
     (case on_store (modFn fn (he_env he) name args h) s of
        (Ok _, s) \<Rightarrow> (Ok True, s)
      | (Err e, s) \<Rightarrow> mbind (ReplyError he name 500 e s) (\<lambda>_ s. (Ok False, s))
      | (Panic p, s) \<Rightarrow> (Panic p, s)
      | (Diverge, s) \<Rightarrow> (Diverge, s))"

definition reqmod_Accept ::
  "henv \<Rightarrow> headerModFn \<Rightarrow> string \<Rightarrow> val list \<Rightarrow> nat \<Rightarrow> session \<Rightarrow> bool res \<times> session" where
  "reqmod_Accept he fn name args req s =
     rlift (http_request (ws_st s) req) s (\<lambda>r s. mod_Accept he fn name args (r_Header r) s)"

definition respmod_Accept :: "henv \<Rightarrow> headerModFn \<Rightarrow> string \<Rightarrow> val list \<Rightarrow> session \<Rightarrow> bool res \<times> session" where
  "respmod_Accept he fn name args s = mod_Accept he fn name args (w_header (ws_w s)) s"

definition flush_if :: "henv \<Rightarrow> bool \<Rightarrow> session \<Rightarrow> bool res \<times> session" where
  "flush_if he flush s =
     (if flush then mbind (Flush (he_net he) s) (\<lambda>_ s. (Ok True, s)) else (Ok True, s))"

definition echo_Accept :: "henv \<Rightarrow> val list \<Rightarrow> nat \<Rightarrow> session \<Rightarrow> bool res \<times> session" where
  "echo_Accept he args req s =
     rlift (cfg_TryGetInt args 0 200) s (\<lambda>status s.
     rlift (cfg_TryGetBool args 1 False) s (\<lambda>flush s.
     rlift (http_request (ws_st s) req) s (\<lambda>r s.
       flush_if he flush (WriteBody (r_Body r) (WriteStatus status s)))))"

definition write_string :: "string \<Rightarrow> session \<Rightarrow> session" where
  "write_string body s = (let (r, s) = string_reader body s in WriteBody r s)"

definition random_Accept :: "henv \<Rightarrow> val list \<Rightarrow> session \<Rightarrow> bool res \<times> session" where
  "random_Accept he args s =
     rlift (cfg_TryGetInt args 0 200) s (\<lambda>status s.
     rlift (cfg_TryGetInt args 1 1024) s (\<lambda>size s.
     rlift (cfg_TryGetBool args 2 False) s (\<lambda>flush s.
       let s = WriteStatus status s; (t, rs) = RandomString size (ss_rand s); s = s\<lparr>ss_rand := rs\<rparr>
       in rlift t s (\<lambda>text s. flush_if he flush (write_string text s)))))"

text \<open>The header of the response is only touched when the argument gives one.\<close>

definition response_Accept :: "henv \<Rightarrow> val list \<Rightarrow> session \<Rightarrow> bool res \<times> session" where
  "response_Accept he args s =
     rlift (cfg_TryGetInt args 0 200) s (\<lambda>status s.
     rlift (cfg_TryGetStr (he_env he) (ws_st s) args 1 '''') s (\<lambda>body s.
     rlift (cfg_TryGet args 2 VNull) s (\<lambda>headerVal s.
     rlift (cfg_TryGetBool args 3 False) s (\<lambda>flush s.
       let finish = (\<lambda>s. flush_if he flush (write_string body (WriteStatus status s)))
       in if headerVal = VNull then finish s
          else
            (case on_store (NewHeaderValFromVal (he_env he) (he_ho he) headerVal) s of
               (Err e, s) \<Rightarrow> mbind (ReplyError he ''response.response'' 500 e s) (\<lambda>_ s. (Ok False, s))
             | (Ok hv, s) \<Rightarrow>
                 rlift (case hv of VUsr u \<Rightarrow> header_of (ws_st s) u | _ \<Rightarrow> Panic ''must: must be user'') s (\<lambda>h s.
                   finish (SetHeader h s))
             | (Panic p, s) \<Rightarrow> (Panic p, s)
             | (Diverge, s) \<Rightarrow> (Diverge, s))))))"

text \<open>The chain ends when a middleware says so or the response is out.\<close>

fun mw_Accept :: "henv \<Rightarrow> nat \<Rightarrow> middleware \<Rightarrow> session \<Rightarrow> bool res \<times> session"
and compose_Accept :: "henv \<Rightarrow> nat \<Rightarrow> middleware list \<Rightarrow> session \<Rightarrow> bool res \<times> session" where
  "mw_Accept he req (MwEvent args) s = event_Accept he args s"
| "mw_Accept he req (MwRequestHeader fn name args) s = reqmod_Accept he fn name args req s"
| "mw_Accept he req (MwResponseHeader fn name args) s = respmod_Accept he fn name args s"
| "mw_Accept he req (MwEcho args) s = echo_Accept he args req s"
| "mw_Accept he req (MwRandom args) s = random_Accept he args s"
| "mw_Accept he req (MwResponse args) s = response_Accept he args s"
| "mw_Accept he req (MwCompose name l) s = compose_Accept he req l s"
| "compose_Accept he req [] s = (Ok True, s)"
| "compose_Accept he req (x # xs) s =
     mbind (mw_Accept he req x s) (\<lambda>b s.
       if \<not> b then (Ok False, s)
       else if IsFlushed s then (Ok False, s)
       else compose_Accept he req xs s)"

section \<open>Factories\<close>

datatype mwfactory =
    FacEvent
  | FacRequestHeader headerModFn string
  | FacResponseHeader headerModFn string
  | FacEcho
  | FacRandom
  | FacResponse

record middlewareFactoryEntry =
  fe_m :: mwfactory
  fe_config :: "val list"

record MiddlewareFactoryList =
  fl_l :: "middlewareFactoryEntry list"
  fl_name :: string

fun mw_Create :: "mwfactory \<Rightarrow> val list \<Rightarrow> middleware res" where
  "mw_Create FacEvent x = Ok (MwEvent x)"
| "mw_Create (FacRequestHeader fn name) x = Ok (MwRequestHeader fn name x)"
| "mw_Create (FacResponseHeader fn name) x = Ok (MwResponseHeader fn name x)"
| "mw_Create FacEcho x = Ok (MwEcho x)"
| "mw_Create FacRandom x = Ok (MwRandom x)"
| "mw_Create FacResponse x = Ok (MwResponse x)"

fun create_loop :: "middlewareFactoryEntry list \<Rightarrow> middleware list \<Rightarrow> middleware list res" where
  "create_loop [] l = Ok l"
| "create_loop (x # xs) l = rbind (mw_Create (fe_m x) (fe_config x)) (\<lambda>m. create_loop xs (l @ [m]))"

definition list_Create :: "MiddlewareFactoryList \<Rightarrow> middleware res" where
  "list_Create f = rbind (create_loop (fl_l f) []) (\<lambda>l. Ok (MwCompose (fl_name f) l))"

text \<open>The registries, as the packages' \<open>init\<close> functions fill them.\<close>

definition requestmap :: "(string \<times> mwfactory) list" where
  "requestmap =
     [(''event'', FacEvent),
      (''header_add'', FacRequestHeader FnAdd ''request.header_add''),
      (''header_set'', FacRequestHeader FnSet ''request.header_set''),
      (''header_del'', FacRequestHeader FnDel ''request.header_del'')]"

definition responsemap :: "(string \<times> mwfactory) list" where
  "responsemap =
     [(''event'', FacEvent),
      (''echo'', FacEcho),
      (''header_add'', FacResponseHeader FnAdd ''response.header_add''),
      (''header_set'', FacResponseHeader FnSet ''response.header_set''),
      (''header_del'', FacResponseHeader FnDel ''response.header_del''),
      (''random'', FacRandom),
      (''response'', FacResponse)]"

definition GetRequestFactory :: "string \<Rightarrow> mwfactory option" where
  "GetRequestFactory name = map_of requestmap name"

definition GetResponseFactory :: "string \<Rightarrow> mwfactory option" where
  "GetResponseFactory name = map_of responsemap name"

definition NewMiddlewareFactoryList :: "string \<Rightarrow> MiddlewareFactoryList" where
  "NewMiddlewareFactoryList n = \<lparr>fl_l = [], fl_name = n\<rparr>"

definition AddRequest :: "string \<Rightarrow> val list \<Rightarrow> MiddlewareFactoryList \<Rightarrow> MiddlewareFactoryList res" where
  "AddRequest name config f =
     (case GetRequestFactory name of
        None \<Rightarrow> Err (''middleware(request): '' @ name @ '' is not found'')
      | Some x \<Rightarrow> Ok (f\<lparr>fl_l := fl_l f @ [\<lparr>fe_m = x, fe_config = config\<rparr>]\<rparr>))"

definition AddResponse :: "string \<Rightarrow> val list \<Rightarrow> MiddlewareFactoryList \<Rightarrow> MiddlewareFactoryList res" where
  "AddResponse name config f =
     (case GetResponseFactory name of
        None \<Rightarrow> Err (''middleware(response): '' @ name @ '' is not found'')
      | Some x \<Rightarrow> Ok (f\<lparr>fl_l := fl_l f @ [\<lparr>fe_m = x, fe_config = config\<rparr>]\<rparr>))"

end
