(* ===== verification/HttpApps.thy ===== *)
theory HttpApps
  imports HttpModules
begin

text \<open>
  The applications (\<open>http/framework/application.go\<close>, \<open>builtin.go\<close>, \<open>http/module/application\<close>): what
  each does before, for and after a request. The feeder goroutine of a concatenation is not modelled:
  nothing ever gives it work (\<open>concate_is_empty\<close>).
\<close>

section \<open>Results\<close>

record ApplicationResult =
  ar_Event :: string
  ar_Context :: val

definition NewApplicationResult :: "string \<Rightarrow> ApplicationResult" where
  "NewApplicationResult event = \<lparr>ar_Event = event, ar_Context = VNull\<rparr>"

text \<open>The zero value.\<close>

definition no_result :: ApplicationResult where
  "no_result = \<lparr>ar_Event = '''', ar_Context = VNull\<rparr>"

definition AddContext ::
  "hworld oenv \<Rightarrow> string \<Rightarrow> val \<Rightarrow> ApplicationResult \<Rightarrow> hstore \<Rightarrow> ApplicationResult res \<times> hstore" where
  "AddContext env key value a st =
     (let (c, st) = (case ar_Context a of VMap m \<Rightarrow> (VMap m, st) | _ \<Rightarrow> new_map st); a = a\<lparr>ar_Context := c\<rparr>
      in rlift (v_Map c) st (\<lambda>m st. rlift (deref (st_maps st) m) st (\<lambda>x st.
           (Ok a, set_map m (Map_Set (oe_grow env) x key value) st))))"

fun add_contexts ::
  "hworld oenv \<Rightarrow> (string \<times> val) list \<Rightarrow> ApplicationResult \<Rightarrow> hstore \<Rightarrow> ApplicationResult res \<times> hstore" where
  "add_contexts env [] a st = (Ok a, st)"
| "add_contexts env ((k, v) # kvs) a st = mbind (AddContext env k v a st) (add_contexts env kvs)"

section \<open>The signature of a body\<close>

definition no_config :: bodySignConfig where
  "no_config = \<lparr>bc_tempDir = '''', bc_signPrefix = '''', bc_verifyPrefix = '''', bc_verifyHeaderName = '''',
     bc_opHeaderName = '''', bc_methodHeaderName = ''''\<rparr>"

definition set_sign :: "bodySign \<Rightarrow> session \<Rightarrow> session" where
  "set_sign b s = s\<lparr>ss_app := AppBodySign b\<rparr>"

text \<open>
  The header is only asked whether it has the operation and the method; what it says is not used. The
  names of the headers are those of the configuration, which is only read when the first request is
  accepted.
\<close>

definition sign_Prepare :: "bodySign \<Rightarrow> nat \<Rightarrow> nat \<Rightarrow> hstore \<Rightarrow> bodySignInput res" where
  "sign_Prepare b req p st =
     rbind (http_request st req) (\<lambda>r.
     rbind (get_header_map st (r_Header r)) (\<lambda>h.
     rbind (deref (hw_params (st_world st)) p) (\<lambda>ps.
       let op = Params_ByName ps ''op''; method = Params_ByName ps ''method'' in
       if op = '''' \<and> hdr_Get h (bc_opHeaderName (bs_config b)) = '''' then
         Err ''body_sign op parameter is not specified''
       else if method = '''' \<and> hdr_Get h (bc_methodHeaderName (bs_config b)) = '''' then
         Err ''body_sign method parameter is not specified''
       else
         let expect = (if op = ''verify'' then hdr_Get h (bc_verifyHeaderName (bs_config b)) else '''')
         in if op = ''verify'' \<and> expect = '''' then Err ''verification result header is not set''
            else Ok \<lparr>bi_op = op, bi_method = method, bi_expect = expect, bi_body = r_Body r\<rparr>)))"

definition prepareConfig :: "hworld oenv \<Rightarrow> hstore \<Rightarrow> bodySign \<Rightarrow> bodySign res" where
  "prepareConfig env st b =
     (let get = cfg_TryGetStr env st (bs_args b) in
      rbind (get 0 ''/tmp'') (\<lambda>d.
      rbind (get 1 ''BODY-SIGN-SIGN-'') (\<lambda>sp.
      rbind (get 2 ''BODY-SIGN-VERIFY-'') (\<lambda>vp.
      rbind (get 3 ''x-body-sign-verify-expect'') (\<lambda>vh.
      rbind (get 4 ''x-body-sign-op'') (\<lambda>oh.
      rbind (get 5 ''x-body-sign-digest'') (\<lambda>mh.
        Ok (b\<lparr>bs_config := \<lparr>bc_tempDir = d, bc_signPrefix = sp, bc_verifyPrefix = vp, bc_verifyHeaderName = vh,
          bc_opHeaderName = oh, bc_methodHeaderName = mh\<rparr>\<rparr>))))))))"

text \<open>The digest each method gets; \<open>sha256\<close> gets the shorter one.\<close>

definition newHasher :: "string \<Rightarrow> string res" where
  "newHasher method =
     (if method = ''md4'' then Ok ''md4''
      else if method = ''md5'' \<or> method = '''' then Ok ''md5''
      else if method = ''sha1'' then Ok ''sha1''
      else if method = ''sha256'' then Ok ''sha224''
      else if method = ''sha512'' then Ok ''sha512''
      else if method = ''sha384'' then Ok ''sha384''
      else Err (''invalid hash method '' @ method))"

text \<open>
  The file is there before the method is known to be good, and stays when anything fails. What is read is
  written to the file before it is hashed (\<open>io.TeeReader\<close>), so an error of writing comes before one of
  reading; how much was read by then is not modelled, the body is taken to be read to its end.
\<close>

definition hashBody :: "henv \<Rightarrow> bodySign \<Rightarrow> nat \<Rightarrow> string \<Rightarrow> session \<Rightarrow> signResult res \<times> session" where
  "hashBody he b data method s =
     (case he_createTemp he (bc_tempDir (bs_config b)) (bc_signPrefix (bs_config b)) of
        Some e \<Rightarrow> (Err e, s)
      | None \<Rightarrow>
          (let (f, s) = on_store (new_reader (RNet '''' None False)) s; s = s\<lparr>ss_files := ss_files s @ [f]\<rparr>
           in rlift (newHasher method) s (\<lambda>hasher s.
                let ((bytes, err), s) = on_store (ReadAll data) s
                in (case he_writeTemp he f bytes of
                      Some e \<Rightarrow> (Err e, s)
                    | None \<Rightarrow>
                        (case err of
                           Some e \<Rightarrow> (Err e, s)
                         | None \<Rightarrow>
                             (Ok \<lparr>sr_contentLength = length bytes, sr_sign = '''', sr_result = he_digest he hasher bytes,
                                  sr_body = f\<rparr>,
                              s\<lparr>ws_st := on_world (hw_readers_update (\<lambda>rs. rs[f := RNet bytes None False])) (ws_st s)\<rparr>))))))"

definition do_sign :: "henv \<Rightarrow> bodySign \<Rightarrow> nat \<Rightarrow> string \<Rightarrow> session \<Rightarrow> bodySign res \<times> session" where
  "do_sign he b data method s =
     mbind (hashBody he b data method s) (\<lambda>r s.
       let b = b\<lparr>bs_r := Some r, bs_op := ''sign'', bs_method := method\<rparr> in (Ok b, set_sign b s))"

definition do_verify :: "henv \<Rightarrow> bodySign \<Rightarrow> nat \<Rightarrow> string \<Rightarrow> string \<Rightarrow> session \<Rightarrow> bodySign res \<times> session" where
  "do_verify he b data expect method s =
     mbind (hashBody he b data method s) (\<lambda>r s.
       let b = b\<lparr>bs_r := Some (r\<lparr>sr_sign := expect\<rparr>), bs_op := ''verify'', bs_method := method\<rparr>
       in (Ok b, set_sign b s))"

definition sign_Accept :: "henv \<Rightarrow> bodySign \<Rightarrow> bodySignInput option \<Rightarrow> session \<Rightarrow> ApplicationResult res \<times> session" where
  "sign_Accept he b ctx s =
     rlift (prepareConfig (he_env he) (ws_st s) b) s (\<lambda>b s.
       let s = set_sign b s in
       case ctx of
         None \<Rightarrow> (Err ''module(body_sign): input context parameter invalid'', s)
       | Some param \<Rightarrow>
           mbind (if bi_op param = ''sign'' then do_sign he b (bi_body param) (bi_method param) s
                  else if bi_op param = ''verify'' then
                    do_verify he b (bi_body param) (bi_expect param) (bi_method param) s
                  else (Err (''invalid operation '' @ bi_op param), s)) (\<lambda>b s.
             case bs_r b of
               None \<Rightarrow> (Panic ''nil pointer'', s)
             | Some r \<Rightarrow>
                 let selector = (if bi_op param = ''sign'' then ''body_sign.sign''
                                 else if sr_sign r = sr_result r then ''body_sign.pass'' else ''body_sign.reject'')
                 in mbind (on_store (NewBodyValFromStream (sr_body r)) s) (\<lambda>body s.
                      on_store (add_contexts (he_env he)
                        [(''signMethod'', VStr (bi_method param)), (''signOp'', VStr (bi_op param)),
                         (''sign'', VStr (sr_result r)), (''signExpect'', VStr (sr_sign r)), (''signBody'', body)]
                        (NewApplicationResult selector)) s)))"

text \<open>\<open>reset\<close> takes for granted that there was a result.\<close>

definition sign_reset :: "bodySign \<Rightarrow> session \<Rightarrow> unit res \<times> session" where
  "sign_reset b s =
     (case bs_r b of
        None \<Rightarrow> (Panic ''nil pointer'', s)
      | Some r \<Rightarrow>
          (Ok (), set_sign (b\<lparr>bs_r := None, bs_op := '''', bs_method := ''''\<rparr>)
            (s\<lparr>ws_st := CloseReader (sr_body r) (ws_st s), ss_files := remove1 (sr_body r) (ss_files s)\<rparr>)))"

section \<open>Concatenation\<close>

definition set_concate :: "concate \<Rightarrow> session \<Rightarrow> session" where
  "set_concate c s = s\<lparr>ss_app := AppConcate c\<rparr>"

definition resetForAccept :: "concate \<Rightarrow> concate" where
  "resetForAccept c = c\<lparr>cc_reqList := [], cc_idx := 0, cc_reader := None, cc_closed := False\<rparr>"

definition hasPending :: "concate \<Rightarrow> bool" where
  "hasPending c \<longleftrightarrow> cc_reqList c \<noteq> []"

text \<open>
  The reader's end of an empty pipe. Without requests the writer's end is closed at once and the
  output is empty; with requests a goroutine would write into it.
\<close>

definition concate_Accept :: "henv \<Rightarrow> concate \<Rightarrow> session \<Rightarrow> ApplicationResult res \<times> session" where
  "concate_Accept he c s =
     (let (r, s) = on_store (new_reader (RNet '''' None False)) s; c = (resetForAccept c)\<lparr>cc_reader := Some r\<rparr>
      in mbind (he_emit he ''concate.generate'' VNull (set_concate c s)) (\<lambda>_ s.
           let c = (case ss_app s of AppConcate c \<Rightarrow> c | _ \<Rightarrow> c);
               s = (if hasPending c then s else set_concate (c\<lparr>cc_closed := True\<rparr>) s);
               (v, s) = on_store (NewReadableStreamFromStream r) s
           in on_store (add_contexts (he_env he) [(''output'', v)] (NewApplicationResult ''concate.response'')) s))"

text \<open>\<open>Done\<close> waits for the goroutine when there was work, then closes both ends.\<close>

definition concate_Done :: "concate \<Rightarrow> session \<Rightarrow> unit res \<times> session" where
  "concate_Done c s =
     (if hasPending c then (Diverge, s)
      else
        let s = (case cc_reader c of None \<Rightarrow> s | Some r \<Rightarrow> s\<lparr>ws_st := CloseReader r (ws_st s)\<rparr>)
        in (Ok (), set_concate (c\<lparr>cc_closed := True\<rparr>) s))"

section \<open>Applications\<close>

definition eventApp_Accept :: "henv \<Rightarrow> val list \<Rightarrow> session \<Rightarrow> ApplicationResult res \<times> session" where
  "eventApp_Accept he args s =
     rlift (cfg_GetStr (he_env he) (ws_st s) args 0) s (\<lambda>eventName s.
     rlift (cfg_TryGet args 1 VNull) s (\<lambda>c s. (Ok \<lparr>ar_Event = eventName, ar_Context = c\<rparr>, s)))"

definition app_Prepare :: "app \<Rightarrow> nat \<Rightarrow> nat \<Rightarrow> session \<Rightarrow> bodySignInput option res" where
  "app_Prepare a req p s =
     (case a of
        AppBodySign b \<Rightarrow> rbind (sign_Prepare b req p (ws_st s)) (\<lambda>i. Ok (Some i))
      | _ \<Rightarrow> Ok None)"

definition app_Accept :: "henv \<Rightarrow> app \<Rightarrow> bodySignInput option \<Rightarrow> session \<Rightarrow> ApplicationResult res \<times> session" where
  "app_Accept he a ctx s =
     (case a of
        AppNull \<Rightarrow> (Ok no_result, s)
      | AppEvent args \<Rightarrow> eventApp_Accept he args s
      | AppBodySign b \<Rightarrow> sign_Accept he b ctx s
      | AppConcate c \<Rightarrow> concate_Accept he c s)"

definition app_Done :: "app \<Rightarrow> session \<Rightarrow> unit res \<times> session" where
  "app_Done a s =
     (case a of
        AppBodySign b \<Rightarrow> sign_reset b s
      | AppConcate c \<Rightarrow> concate_Done c s
      | _ \<Rightarrow> (Ok (), s))"

datatype appfactory = AppFacNull | AppFacEvent | AppFacBodySign | AppFacConcate

fun app_Create :: "appfactory \<Rightarrow> val list \<Rightarrow> app res" where
  "app_Create AppFacNull args = Ok AppNull"
| "app_Create AppFacEvent args = Ok (AppEvent args)"
| "app_Create AppFacBodySign args =
     Ok (AppBodySign \<lparr>bs_r = None, bs_op = '''', bs_method = '''', bs_args = args, bs_config = no_config\<rparr>)"
| "app_Create AppFacConcate args =
     Ok (AppConcate \<lparr>cc_reqList = [], cc_idx = 0, cc_reader = None, cc_closed = False, cc_args = args\<rparr>)"

definition applicationmap :: "(string \<times> appfactory) list" where
  "applicationmap =
     [(''event'', AppFacEvent), (''noop'', AppFacNull), (''body_sign'', AppFacBodySign),
      (''concate'', AppFacConcate)]"

definition GetApplicationFactory :: "string \<Rightarrow> appfactory option" where
  "GetApplicationFactory name = map_of applicationmap name"

end
