(* ===== verification/HttpPipeline.thy ===== *)
theory HttpPipeline
  imports HttpApps
begin

text \<open>
  The life of a request (\<open>http/vhost/service_handler.go\<close>, \<open>new_vhost.go\<close>, \<open>http/framework/service.go\<close>,
  \<open>http/phase\<close>): services and their pool of handlers, the phases of a request and what is deferred to
  its end.
\<close>

section \<open>Phases\<close>

abbreviation (input) PhaseCreateService :: nat where "PhaseCreateService \<equiv> 0"
abbreviation (input) PhaseInit :: nat where "PhaseInit \<equiv> 1"
abbreviation (input) PhaseHttpRequest :: nat where "PhaseHttpRequest \<equiv> 2"
abbreviation (input) PhaseApplicationPrepare :: nat where "PhaseApplicationPrepare \<equiv> 3"
abbreviation (input) PhaseApplicationAccept :: nat where "PhaseApplicationAccept \<equiv> 4"
abbreviation (input) PhaseApplicationEvent :: nat where "PhaseApplicationEvent \<equiv> 5"
abbreviation (input) PhaseApplicationDone :: nat where "PhaseApplicationDone \<equiv> 6"
abbreviation (input) PhaseHttpResponse :: nat where "PhaseHttpResponse \<equiv> 7"
abbreviation (input) PhaseHttpResponseFinalize :: nat where "PhaseHttpResponseFinalize \<equiv> 8"
abbreviation (input) PhaseAccessLog :: nat where "PhaseAccessLog \<equiv> 9"
abbreviation (input) PhaseBackground :: nat where "PhaseBackground \<equiv> 10"

text \<open>One phase has no name and one a misspelt name.\<close>

definition GetPhaseName :: "nat \<Rightarrow> string" where
  "GetPhaseName p =
     (if p = PhaseCreateService then ''create_service''
      else if p = PhaseInit then ''init''
      else if p = PhaseApplicationPrepare then ''application.prepare''
      else if p = PhaseApplicationAccept then ''application.accept''
      else if p = PhaseApplicationEvent then ''application.event''
      else if p = PhaseApplicationDone then ''application.done''
      else if p = PhaseHttpResponse then ''http.response''
      else if p = PhaseHttpResponseFinalize then ''http.response_finalize''
      else if p = PhaseAccessLog then ''access_log''
      else if p = PhaseBackground then ''backgronud''
      else ''<unknown>'')"

definition setPhase :: "nat \<Rightarrow> string \<Rightarrow> session \<Rightarrow> session" where
  "setPhase p n s = s\<lparr>ss_phaseIndex := p, ss_phase := n, ss_trace := ss_trace s @ [p]\<rparr>"

section \<open>Services\<close>

record Service =
  sv_Request :: middleware
  sv_Response :: middleware
  sv_App :: app

record ServiceFactory =
  sf_Request :: MiddlewareFactoryList
  sf_Response :: MiddlewareFactoryList
  sf_App :: appfactory
  sf_AppConfig :: "val list"

definition NewService :: "ServiceFactory \<Rightarrow> Service res" where
  "NewService f =
     rbind (list_Create (sf_Request f)) (\<lambda>req.
     rbind (list_Create (sf_Response f)) (\<lambda>resp.
     rbind (app_Create (sf_App f) (sf_AppConfig f)) (\<lambda>a.
       Ok \<lparr>sv_Request = req, sv_Response = resp, sv_App = a\<rparr>)))"

text \<open>\<open>servicePool\<close>; a handler that is idle is its service, if it has one.\<close>

record servicePool =
  sp_idle :: "Service option list"
  sp_maxSize :: int

definition newServicePool :: "int \<Rightarrow> servicePool" where
  "newServicePool cacheSize = \<lparr>sp_idle = [], sp_maxSize = (if cacheSize = 0 then 200 else cacheSize)\<rparr>"

definition idleSize :: "servicePool \<Rightarrow> nat" where
  "idleSize s = length (sp_idle s)"

definition sp_get :: "servicePool \<Rightarrow> Service option option \<times> servicePool" where
  "sp_get s =
     (if sp_idle s = [] then (None, s) else (Some (last (sp_idle s)), s\<lparr>sp_idle := butlast (sp_idle s)\<rparr>))"

definition sp_put :: "Service option \<Rightarrow> servicePool \<Rightarrow> bool \<times> servicePool" where
  "sp_put h s =
     (if int (length (sp_idle s)) + 1 \<ge> sp_maxSize s then (False, s)
      else (True, s\<lparr>sp_idle := sp_idle s @ [h]\<rparr>))"

record vHS =
  vs_factory :: ServiceFactory
  vs_servicePool :: servicePool

definition getServiceHandler :: "vHS \<Rightarrow> (Service option \<times> string option) \<times> vHS" where
  "getServiceHandler v =
     (case sp_get (vs_servicePool v) of
        (Some h, p) \<Rightarrow> ((h, None), v\<lparr>vs_servicePool := p\<rparr>)
      | (None, p) \<Rightarrow>
          (case NewService (vs_factory v) of
             Ok service \<Rightarrow> ((Some service, None), v)
           | Err e \<Rightarrow> ((None, Some e), v)
           | _ \<Rightarrow> ((None, None), v)))"

section \<open>One request\<close>

text \<open>\<open>GetHttpClient\<close> takes a client from the pool for the request; \<open>finish\<close> gives all of them back.\<close>

definition GetHttpClient :: "(string \<Rightarrow> URL res) \<Rightarrow> string \<Rightarrow> session \<Rightarrow> nat res \<times> session" where
  "GetHttpClient parse url s =
     (let (r, p) = pool_Get parse url (ss_pool s); s = s\<lparr>ss_pool := p\<rparr>
      in rlift r s (\<lambda>c s. (Ok (length (ss_clients s)), s\<lparr>ss_clients := ss_clients s @ [c]\<rparr>)))"

definition finish_request :: "session \<Rightarrow> session" where
  "finish_request s =
     s\<lparr>ss_pool := fold (\<lambda>c p. snd (pool_Put c p)) (ss_clients s) (ss_pool s), ss_clients := []\<rparr>"

definition service_Log :: "henv \<Rightarrow> session \<Rightarrow> unit res \<times> session" where
  "service_Log he s = ignore_err (he_emit he ''log'' VNull s)"

text \<open>
  The function that \<open>main\<close> defers: the response goes out first, then the application is told (if it
  gave a context), then the access log, and the clients go back.
\<close>

definition main_deferred :: "henv \<Rightarrow> bodySignInput option \<Rightarrow> session \<Rightarrow> unit res \<times> session" where
  "main_deferred he ctx s =
     mbind (Finalize (he_net he) (setPhase PhaseHttpResponseFinalize ''http.response_finalize'' s)) (\<lambda>_ s.
     mbind (case ctx of
              None \<Rightarrow> (Ok (), s)
            | Some _ \<Rightarrow> (let s = setPhase PhaseApplicationDone ''application.done'' s in app_Done (ss_app s) s))
       (\<lambda>_ s.
     mbind (service_Log he (setPhase PhaseAccessLog ''.access_log'' s)) (\<lambda>_ s. (Ok (), finish_request s))))"

text \<open>
  The application's part and the response chain. The context is what the deferred function finds:
  it is set as soon as the preparation has succeeded.
\<close>

definition main_response :: "henv \<Rightarrow> nat \<Rightarrow> Service \<Rightarrow> session \<Rightarrow> unit res \<times> session" where
  "main_response he req service s =
     mbind (mw_Accept he req (sv_Response service) (setPhase PhaseHttpResponse ''http.response'' s))
       (\<lambda>_ s. (Ok (), s))"

definition main_accept :: "henv \<Rightarrow> nat \<Rightarrow> Service \<Rightarrow> bodySignInput option \<Rightarrow> session \<Rightarrow> unit res \<times> session" where
  "main_accept he req service ctx s =
     (let s = setPhase PhaseApplicationAccept ''application.accept'' s
      in (case app_Accept he (ss_app s) ctx s of
            (Err e, s) \<Rightarrow> ReplyError he ''application.accept'' 500 e s
          | (Ok r, s) \<Rightarrow>
              if ar_Event r \<noteq> '''' then
                (case he_emit he (ar_Event r) (ar_Context r)
                        (setPhase PhaseApplicationEvent ''application.event'' s) of
                   (Err e, s) \<Rightarrow> ReplyError he ''hpl'' 500 e s
                 | (Ok _, s) \<Rightarrow> main_response he req service s
                 | (Panic p, s) \<Rightarrow> (Panic p, s)
                 | (Diverge, s) \<Rightarrow> (Diverge, s))
              else main_response he req service s
          | (Panic p, s) \<Rightarrow> (Panic p, s)
          | (Diverge, s) \<Rightarrow> (Diverge, s)))"

definition main_app ::
  "henv \<Rightarrow> nat \<Rightarrow> nat \<Rightarrow> Service \<Rightarrow> session \<Rightarrow> (unit res \<times> session) \<times> bodySignInput option" where
  "main_app he req p service s =
     (let s = setPhase PhaseApplicationPrepare ''application.prepare'' s
      in (case app_Prepare (ss_app s) req p s of
            Err e \<Rightarrow> (ReplyError he ''application.prepare'' 500 e s, None)
          | Ok ctx \<Rightarrow> (main_accept he req service ctx s, ctx)
          | Panic m \<Rightarrow> ((Panic m, s), None)
          | Diverge \<Rightarrow> ((Diverge, s), None)))"

text \<open>From the session rule to the request chain; early returns leave without a context.\<close>

definition main_body ::
  "henv \<Rightarrow> Service option \<Rightarrow> nat \<Rightarrow> nat \<Rightarrow> string option \<Rightarrow> val \<Rightarrow> val \<Rightarrow> session \<Rightarrow>
   (unit res \<times> session) \<times> bodySignInput option" where
  "main_body he service req p prevError reqVal routerVal s =
     (case he_init he reqVal routerVal (setPhase PhaseInit ''.init'' s) of
        (Err e, s) \<Rightarrow> (ReplyError he ''hpl'' 500 e s, None)
      | (Panic m, s) \<Rightarrow> ((Panic m, s), None)
      | (Diverge, s) \<Rightarrow> ((Diverge, s), None)
      | (Ok _, s) \<Rightarrow>
          if IsFlushed s then ((Ok (), s), None)
          else
            (case prevError of
               Some e \<Rightarrow>
                 (ReplyError he ''create_service'' 500 e (setPhase PhaseCreateService ''.create_service'' s), None)
             | None \<Rightarrow>
                 (let s = setPhase PhaseHttpRequest ''http.request'' s
                  in (case service of
                        None \<Rightarrow> ((Panic ''nil pointer'', s), None)
                      | Some sv \<Rightarrow>
                          (case mw_Accept he req (sv_Request sv) s of
                             (Ok True, s) \<Rightarrow> main_app he req p sv s
                           | (Ok False, s) \<Rightarrow> ((Ok (), s), None)
                           | (Err e, s) \<Rightarrow> ((Err e, s), None)
                           | (Panic m, s) \<Rightarrow> ((Panic m, s), None)
                           | (Diverge, s) \<Rightarrow> ((Diverge, s), None))))))"

text \<open>
  \<open>main\<close>: the objects of the request, the body, and then the deferred function also when the body
  panicked. A panic in the deferred function takes the place of the body's.
\<close>

definition deferred :: "unit res \<times> session \<Rightarrow> (session \<Rightarrow> unit res \<times> session) \<Rightarrow> unit res \<times> session" where
  "deferred x d =
     (case x of
        (Diverge, s) \<Rightarrow> (Diverge, s)
      | (r, s) \<Rightarrow> (case d s of (Ok _, s) \<Rightarrow> (r, s) | y \<Rightarrow> y))"

definition service_main ::
  "henv \<Rightarrow> Service option \<Rightarrow> nat \<Rightarrow> nat \<Rightarrow> string option \<Rightarrow> session \<Rightarrow> unit res \<times> session" where
  "service_main he service req p prevError s =
     mbind (on_store (NewRequestVal req) s) (\<lambda>reqVal s.
       let (routerVal, s) = on_store (NewRouterParamsVal p) s
       in rlift (newResponseWriterWrapper (ws_st s)) s (\<lambda>(w, st) s.
            let (x, ctx) = main_body he service req p prevError reqVal routerVal (s\<lparr>ws_w := w, ws_st := st\<rparr>)
            in deferred x (main_deferred he ctx)))"

text \<open>
  \<open>doRoute\<close>: the handler goes back to the pool when \<open>main\<close> returned; its application keeps its
  state. \<open>s\<close> holds what does not belong to the request.
\<close>

definition doRoute :: "henv \<Rightarrow> nat \<Rightarrow> nat \<Rightarrow> vHS \<Rightarrow> session \<Rightarrow> (unit res \<times> session) \<times> vHS" where
  "doRoute he req p v s =
     (let ((h, err), v) = getServiceHandler v;
          s = (case h of Some sv \<Rightarrow> s\<lparr>ss_app := sv_App sv\<rparr> | None \<Rightarrow> s);
          (r, s) = service_main he h req p err s
      in (case r of
            Ok _ \<Rightarrow> ((r, s), v\<lparr>vs_servicePool :=
                       snd (sp_put (map_option (\<lambda>sv. sv\<lparr>sv_App := ss_app s\<rparr>) h) (vs_servicePool v))\<rparr>)
          | _ \<Rightarrow> ((r, s), v)))"

end
