(* ===== verification/VHostConfig.thy ===== *)
theory VHostConfig
  imports HttpPipeline
begin

text \<open>
  Configuration of virtual hosts and services (\<open>http/vhost/vhost.go\<close>, \<open>vhs.go\<close>, \<open>util.go\<close>, \<open>router.go\<close>,
  \<open>log.go\<close>) and the table of virtual hosts of a listener (\<open>http/vhost_list.go\<close>, \<open>http/listener.go\<close>). The
  builders are what the evaluator of a configuration calls: scopes, properties and commands. Of a route the
  methods and the path are kept, which are all the router of another package gets.
\<close>

section \<open>Properties\<close>

text \<open>Setters give back what they write through their pointer. The name misses in two messages.\<close>

definition propSetString :: "hworld oenv \<Rightarrow> hstore \<Rightarrow> val \<Rightarrow> string \<Rightarrow> string res" where
  "propSetString env st v name = with_err (\<lambda>e. name @ '': set field error, '' @ e) (v_ToString env st v)"

definition propSetInt :: "val \<Rightarrow> string \<Rightarrow> int64 res" where
  "propSetInt v name =
     (case v of VInt i \<Rightarrow> Ok i | _ \<Rightarrow> Err ''%!s(MISSING): set field error, value is not int'')"

definition propSetInt64 :: "val \<Rightarrow> string \<Rightarrow> int64 res" where
  "propSetInt64 v name =
     (case v of VInt i \<Rightarrow> Ok i | _ \<Rightarrow> Err ''%!s(MISSING): set field error, value is not int'')"

definition NotZeroInt64 :: "int64 \<Rightarrow> int64 \<Rightarrow> int64" where
  "NotZeroInt64 v d = (if v = 0 then d else v)"

definition NotZeroStr :: "string \<Rightarrow> string \<Rightarrow> string" where
  "NotZeroStr v d = (if v = '''' then d else v)"

section \<open>Virtual hosts\<close>

record VHostConfig =
  vc_Name :: string
  vc_Path :: string
  vc_Comment :: string
  vc_ServerName :: string
  vc_Listener :: string
  vc_LogFormat :: string
  vc_HttpClientPoolMaxSize :: int64
  vc_HttpClientPoolTimeout :: int64
  vc_HttpClientPoolMaxDrainSize :: int64

definition no_vhost_config :: VHostConfig where
  "no_vhost_config = \<lparr>vc_Name = '''', vc_Path = '''', vc_Comment = '''', vc_ServerName = '''', vc_Listener = '''',
     vc_LogFormat = '''', vc_HttpClientPoolMaxSize = 0, vc_HttpClientPoolTimeout = 0, vc_HttpClientPoolMaxDrainSize = 0\<rparr>"

record VHostConfigBuilder =
  vb_configPush :: bool
  vb_config :: VHostConfig

definition vhost_PushConfig :: "string \<Rightarrow> VHostConfigBuilder \<Rightarrow> unit res \<times> VHostConfigBuilder" where
  "vhost_PushConfig name x =
     (if vb_configPush x then (Err ''http_vhost config: nested config scope is not allowed'', x)
      else if name \<noteq> ''http_vhost'' then
        (Err ''http_vhost config: unknown config type, expect http_vhost'', x)
      else (Ok (), x\<lparr>vb_configPush := True\<rparr>))"

definition vhost_PopConfig :: "VHostConfigBuilder \<Rightarrow> unit res \<times> VHostConfigBuilder" where
  "vhost_PopConfig x = (Ok (), x\<lparr>vb_configPush := False\<rparr>)"

definition vb_set :: "'a res \<Rightarrow> ('a \<Rightarrow> VHostConfig \<Rightarrow> VHostConfig) \<Rightarrow> VHostConfigBuilder \<Rightarrow> unit res \<times> VHostConfigBuilder" where
  "vb_set r f x = rlift r x (\<lambda>v x. (Ok (), x\<lparr>vb_config := f v (vb_config x)\<rparr>))"

definition vhost_ConfigProperty ::
  "hworld oenv \<Rightarrow> hstore \<Rightarrow> string \<Rightarrow> val \<Rightarrow> VHostConfigBuilder \<Rightarrow> unit res \<times> VHostConfigBuilder" where
  "vhost_ConfigProperty env st key value x =
     (let str = propSetString env st value; num = propSetInt64 value in
      if \<not> vb_configPush x then (Err ''config property must be set inside of http_vhost scope'', x)
      else if key = ''name'' then vb_set (str ''http_vhost.name'') (\<lambda>v. vc_Name_update (\<lambda>_. v)) x
      else if key = ''comment'' then vb_set (str ''http_vhost.comment'') (\<lambda>v. vc_Comment_update (\<lambda>_. v)) x
      else if key = ''server_name'' then
        vb_set (str ''http_vhost.server_name'') (\<lambda>v. vc_ServerName_update (\<lambda>_. v)) x
      else if key = ''listener'' then vb_set (str ''http_vhost.listener'') (\<lambda>v. vc_Listener_update (\<lambda>_. v)) x
      else if key = ''log_format'' then vb_set (str ''http_vhost.log_format'') (\<lambda>v. vc_LogFormat_update (\<lambda>_. v)) x
      else if key = ''http_client_pool_max_size'' then
        vb_set (num ''http_vhost.http_client_pool_max_size'') (\<lambda>v. vc_HttpClientPoolMaxSize_update (\<lambda>_. v)) x
      else if key = ''http_client_pool_timeout'' then
        vb_set (num ''http_vhost.http_client_pool_timeout'') (\<lambda>v. vc_HttpClientPoolTimeout_update (\<lambda>_. v)) x
      else if key = ''http_client_pool_max_drain_size'' then
        vb_set (num ''http_vhost.http_client_pool_max_drain_size'')
          (\<lambda>v. vc_HttpClientPoolMaxDrainSize_update (\<lambda>_. v)) x
      else (Err (''http_vhost: unknown property: '' @ key), x))"

definition vhost_ConfigCommand :: "string \<Rightarrow> VHostConfigBuilder \<Rightarrow> unit res \<times> VHostConfigBuilder" where
  "vhost_ConfigCommand key x = (Err (''http_vhost: unknown command '' @ key), x)"

text \<open>\<open>g/default.go\<close>.\<close>

definition VHostLogFormat :: string where
  "VHostLogFormat = ''%START_TIME%'' @ ''%SERVICE_NAME%'' @ ''%REQ(:METHOD)%'' @ ''%REQ(:STATUS_CODE)%'' @
     ''%REQ(:PATH)%'' @ ''%RESP(:STATUS_CODE)%'' @ ''%CLIENT_IP%''"

record VHost =
  vh_Config :: VHostConfig
  vh_LogFormat :: Format
  vh_clientPool :: HClientPool

definition vhost_Compose :: "VHostConfig \<Rightarrow> VHost res" where
  "vhost_Compose config =
     rbind (CompileFormat (NotZeroStr (vc_LogFormat config) VHostLogFormat)) (\<lambda>logf.
       Ok \<lparr>vh_Config = config, vh_LogFormat = logf,
           vh_clientPool =
             NewHClientPool (vc_Name config) (sint (NotZeroInt64 (vc_HttpClientPoolMaxSize config) 256))
               (sint (NotZeroInt64 (vc_HttpClientPoolTimeout config) 30))
               (sint (NotZeroInt64 (vc_HttpClientPoolMaxDrainSize config) 4096))\<rparr>)"

section \<open>Services\<close>

record vHSMiddlewareConfigEntry =
  me_Name :: string
  me_Config :: "val list"

record vHSConfig =
  hc_Name :: string
  hc_Tag :: string
  hc_Comment :: string
  hc_Router :: string
  hc_MaxSessionCacheSize :: int64
  hc_Request :: "vHSMiddlewareConfigEntry list"
  hc_Response :: "vHSMiddlewareConfigEntry list"
  hc_AppName :: string
  hc_AppConfig :: "val list"

definition no_service_config :: vHSConfig where
  "no_service_config = \<lparr>hc_Name = '''', hc_Tag = '''', hc_Comment = '''', hc_Router = '''', hc_MaxSessionCacheSize = 0,
     hc_Request = [], hc_Response = [], hc_AppName = '''', hc_AppConfig = []\<rparr>"

fun add_all ::
  "(string \<Rightarrow> val list \<Rightarrow> MiddlewareFactoryList \<Rightarrow> MiddlewareFactoryList res) \<Rightarrow>
   vHSMiddlewareConfigEntry list \<Rightarrow> MiddlewareFactoryList \<Rightarrow> MiddlewareFactoryList res" where
  "add_all add [] f = Ok f"
| "add_all add (x # xs) f = rbind (add (me_Name x) (me_Config x) f) (add_all add xs)"

definition service_Compose :: "vHSConfig \<Rightarrow> ServiceFactory res" where
  "service_Compose cfg =
     rbind (add_all AddRequest (hc_Request cfg) (NewMiddlewareFactoryList ''request'')) (\<lambda>req.
     rbind (add_all AddResponse (hc_Response cfg) (NewMiddlewareFactoryList ''response'')) (\<lambda>resp.
       if hc_AppName cfg = '''' then Err (''service'' @ CHR 39 # ''s application is not set'')
       else (case GetApplicationFactory (hc_AppName cfg) of
               None \<Rightarrow> Err (''application '' @ hc_AppName cfg @ '' is not found'')
             | Some a \<Rightarrow>
                 Ok \<lparr>sf_Request = req, sf_Response = resp, sf_App = a, sf_AppConfig = hc_AppConfig cfg\<rparr>)))"

definition newvHS :: "ServiceFactory \<Rightarrow> vHSConfig \<Rightarrow> vHS" where
  "newvHS factory config =
     \<lparr>vs_factory = factory, vs_servicePool = newServicePool (sint (hc_MaxSessionCacheSize config))\<rparr>"

text \<open>The builder keeps the scopes it is in; a service holds scopes, which hold nothing further.\<close>

datatype svcScope = svcConfigInit | svcConfigService | svcConfigRequest | svcConfigResponse | svcConfigApplication

record svcConfigBuilder =
  sb_config :: vHSConfig
  sb_cur :: "svcScope list"

definition curType :: "svcConfigBuilder \<Rightarrow> svcScope" where
  "curType s = (if sb_cur s = [] then svcConfigInit else last (sb_cur s))"

definition setCur :: "svcScope \<Rightarrow> svcConfigBuilder \<Rightarrow> svcConfigBuilder" where
  "setCur x s = s\<lparr>sb_cur := sb_cur s @ [x]\<rparr>"

definition popCur :: "svcConfigBuilder \<Rightarrow> unit res \<times> svcConfigBuilder" where
  "popCur s =
     (if sb_cur s = [] then (Panic ''slice bounds out of range'', s) else (Ok (), s\<lparr>sb_cur := butlast (sb_cur s)\<rparr>))"

definition svc_PushConfig :: "string \<Rightarrow> svcConfigBuilder \<Rightarrow> unit res \<times> svcConfigBuilder" where
  "svc_PushConfig name s =
     (if curType s = svcConfigInit \<and> name = ''service'' then (Ok (), setCur svcConfigService s)
      else if curType s = svcConfigService then
        (if name = ''request'' then (Ok (), setCur svcConfigRequest s)
         else if name = ''response'' then (Ok (), setCur svcConfigResponse s)
         else if name = ''application'' then (Ok (), setCur svcConfigApplication s)
         else (Err ''invalid service config status: expect request/response/application type'', s))
      else (Err ''cannot have more nested config scope'', s))"

definition svc_PopConfig :: "svcConfigBuilder \<Rightarrow> unit res \<times> svcConfigBuilder" where
  "svc_PopConfig s = popCur s"

definition sb_set :: "'a res \<Rightarrow> ('a \<Rightarrow> vHSConfig \<Rightarrow> vHSConfig) \<Rightarrow> svcConfigBuilder \<Rightarrow> unit res \<times> svcConfigBuilder" where
  "sb_set r f s = rlift r s (\<lambda>v s. (Ok (), s\<lparr>sb_config := f v (sb_config s)\<rparr>))"

definition propService ::
  "hworld oenv \<Rightarrow> hstore \<Rightarrow> string \<Rightarrow> val \<Rightarrow> svcConfigBuilder \<Rightarrow> unit res \<times> svcConfigBuilder" where
  "propService env st key value s =
     (let str = propSetString env st value in
      if key = ''name'' then sb_set (str ''service.name'') (\<lambda>v. hc_Name_update (\<lambda>_. v)) s
      else if key = ''tag'' then sb_set (str ''service.tag'') (\<lambda>v. hc_Tag_update (\<lambda>_. v)) s
      else if key = ''comment'' then sb_set (str ''service.comment'') (\<lambda>v. hc_Comment_update (\<lambda>_. v)) s
      else if key = ''router'' then sb_set (str ''service.router'') (\<lambda>v. hc_Router_update (\<lambda>_. v)) s
      else if key = ''max_session_cache_size'' then
        sb_set (propSetInt value ''service.max_session_cache_size'') (\<lambda>v. hc_MaxSessionCacheSize_update (\<lambda>_. v)) s
      else (Err (''unknown property '' @ key @ '' of service config''), s))"

definition svc_ConfigProperty ::
  "hworld oenv \<Rightarrow> hstore \<Rightarrow> string \<Rightarrow> val \<Rightarrow> svcConfigBuilder \<Rightarrow> unit res \<times> svcConfigBuilder" where
  "svc_ConfigProperty env st key value s =
     (case curType s of
        svcConfigService \<Rightarrow> propService env st key value s
      | svcConfigRequest \<Rightarrow> (Err (''unknown property '' @ key @ '' of service middleware''), s)
      | svcConfigResponse \<Rightarrow> (Err (''unknown property '' @ key @ '' of service middleware''), s)
      | svcConfigApplication \<Rightarrow> (Err (''unknown property '' @ key @ '' of service application''), s)
      | svcConfigInit \<Rightarrow> (Err (''unknown config instruction: '' @ key), s))"

definition cmdMiddleware :: "string \<Rightarrow> val list \<Rightarrow> vHSMiddlewareConfigEntry list \<Rightarrow> vHSMiddlewareConfigEntry list" where
  "cmdMiddleware key value x = x @ [\<lparr>me_Name = key, me_Config = value\<rparr>]"

definition svc_ConfigCommand :: "string \<Rightarrow> val list \<Rightarrow> svcConfigBuilder \<Rightarrow> unit res \<times> svcConfigBuilder" where
  "svc_ConfigCommand key value s =
     (case curType s of
        svcConfigRequest \<Rightarrow>
          (Ok (), s\<lparr>sb_config := (sb_config s)\<lparr>hc_Request := cmdMiddleware key value (hc_Request (sb_config s))\<rparr>\<rparr>)
      | svcConfigResponse \<Rightarrow>
          (Ok (), s\<lparr>sb_config := (sb_config s)\<lparr>hc_Response := cmdMiddleware key value (hc_Response (sb_config s))\<rparr>\<rparr>)
      | svcConfigApplication \<Rightarrow>
          (Ok (), s\<lparr>sb_config := (sb_config s)\<lparr>hc_AppName := key, hc_AppConfig := value\<rparr>\<rparr>)
      | _ \<Rightarrow> (Err (''unknown command '' @ key @ '' inside of config service''), s))"

section \<open>Routes\<close>

text \<open>
  \<open>[methods]path\<close>, where the methods are a list or a star, and a star in the path stands for the rest.
  Routes are ASCII text here. The first closing bracket counts, even when it comes before the opening one.
\<close>

definition httpmethodlist :: "string list" where
  "httpmethodlist = [''GET'', ''POST'', ''PUT'', ''DELETE'', ''PURGE'', ''OPTION'', ''HEAD'']"

definition space_char :: "char \<Rightarrow> bool" where
  "space_char c \<longleftrightarrow> c \<in> set [CHR 0x09, CHR 0x0A, CHR 0x0B, CHR 0x0C, CHR 0x0D, CHR '' '']"

definition TrimSpace :: "string \<Rightarrow> string" where
  "TrimSpace s = rev (dropWhile space_char (rev (dropWhile space_char s)))"

fun split_on :: "char \<Rightarrow> string \<Rightarrow> string list" where
  "split_on c [] = [[]]"
| "split_on c (x # xs) =
     (if x = c then [] # split_on c xs else (case split_on c xs of y # ys \<Rightarrow> (x # y) # ys | [] \<Rightarrow> [[x]]))"

definition last_index :: "char \<Rightarrow> string \<Rightarrow> nat option" where
  "last_index c s = map_option (\<lambda>i. length s - 1 - i) (index_byte c (rev s))"

definition checkrouterpath :: "string \<Rightarrow> string" where
  "checkrouterpath p =
     (case last_index (CHR ''*'') p of
        None \<Rightarrow> p
      | Some idx \<Rightarrow>
          (let suffix = take idx p
           in if suffix \<noteq> '''' \<and> last suffix = CHR ''/'' then suffix @ ''{_Rest:.*}''
              else suffix @ ''/{_Rest:.*}''))"

definition newRouter :: "string \<Rightarrow> (string list \<times> string) res" where
  "newRouter router =
     (case index_byte (CHR ''['') router of
        None \<Rightarrow> Err (''invalid router: '' @ router @ '', cannot find ['')
      | Some startSqr \<Rightarrow>
          (case index_byte (CHR '']'') router of
             None \<Rightarrow> Err (''invalid router: '' @ router @ '', cannot find ]'')
           | Some endSqr \<Rightarrow>
               if endSqr < startSqr + 1 then Panic ''slice bounds out of range''
               else
                 let mlist = TrimSpace (take (endSqr - (startSqr + 1)) (drop (startSqr + 1) router));
                     methodList = (if mlist = ''*'' then httpmethodlist
                                   else map (\<lambda>xx. map upper_char (TrimSpace xx)) (split_on (CHR '','') mlist))
                 in Ok (methodList, checkrouterpath (drop (endSqr + 1) router))))"

section \<open>The access log's provider\<close>

text \<open>Nothing but the durations is there; its session, request and response are never read.\<close>

record logProvider =
  lp_duration :: int64
  lp_requestDuration :: int64
  lp_responseDuration :: int64

definition log_Provider :: "(string \<Rightarrow> string) \<Rightarrow> logProvider \<Rightarrow> Provider" where
  "log_Provider start_time l =
     \<lparr>pv_FormatStartTime = start_time, pv_ReqHeaderBytes = (0, False), pv_BytesReceived = (0, False),
      pv_ResponseHeadersBytes = (0, False), pv_ResponseTrailersBytes = (0, False), pv_BytesSent = (0, False),
      pv_Duration = (lp_duration l, True), pv_RequestDuration = (lp_requestDuration l, True),
      pv_ResponseDuration = (lp_responseDuration l, True), pv_ConnectionTerminationDetails = ('''', False),
      pv_ConnectionId = ('''', False), pv_VirtualHost = ('''', False), pv_RouterInfo = (\<lambda>_. ('''', False)),
      pv_Req = (\<lambda>_. ('''', False)), pv_Resp = (\<lambda>_. ('''', False)), pv_URI = (\<lambda>_. ('''', False)),
      pv_Trailer = (\<lambda>_. ('''', False)), pv_ResponseCode = (0, False), pv_ResponseCodeDetail = ('''', False),
      pv_RequestMiddleware = (\<lambda>_. ('''', False)), pv_ResponseMiddleware = (\<lambda>_. ('''', False)),
      pv_ApplicationMiddleware = (\<lambda>_. ('''', False)), pv_Host = ('''', False), pv_ServiceName = ('''', False),
      pv_ClientIp = ('''', False), pv_Protocol = ('''', False), pv_Scheme = ('''', False)\<rparr>"

section \<open>The virtual hosts of a listener\<close>

text \<open>
  \<open>vhostlist\<close>: by server name (what requests are matched with) and by name (what configuration uses).
  The address of a virtual host is a number, its configuration does not change.
\<close>

record hosted =
  vp_id :: nat
  vp_ServerName :: string
  vp_Name :: string
  vp_Listener :: string

record vhostlist =
  vl_index :: "string \<rightharpoonup> hosted"
  vl_name :: "string \<rightharpoonup> hosted"

definition newvhostlist :: vhostlist where
  "newvhostlist = \<lparr>vl_index = (\<lambda>_. None), vl_name = (\<lambda>_. None)\<rparr>"

definition vl_add :: "hosted \<Rightarrow> vhostlist \<Rightarrow> unit res \<times> vhostlist" where
  "vl_add v l =
     (if vl_index l (vp_ServerName v) \<noteq> None then
        (Err (''server name '' @ vp_ServerName v @ '' already existed''), l)
      else if vl_name l (vp_Name v) \<noteq> None then (Err (''vhost name '' @ vp_Name v @ '' already existed''), l)
      else (Ok (), l\<lparr>vl_index := (vl_index l)(vp_ServerName v \<mapsto> v), vl_name := (vl_name l)(vp_Name v \<mapsto> v)\<rparr>))"

definition vl_remove :: "string \<Rightarrow> vhostlist \<Rightarrow> bool \<times> vhostlist" where
  "vl_remove n l =
     (case vl_name l n of
        None \<Rightarrow> (False, l)
      | Some v \<Rightarrow>
          (True, l\<lparr>vl_index := (vl_index l)(vp_ServerName v := None), vl_name := (vl_name l)(n := None)\<rparr>))"

text \<open>
  \<open>update\<close> takes the lock twice, in \<open>remove\<close> and again to insert; \<open>vl_update\<close> is both with nothing in between.
\<close>

definition vl_insert :: "hosted \<Rightarrow> vhostlist \<Rightarrow> vhostlist" where
  "vl_insert v l = l\<lparr>vl_index := (vl_index l)(vp_ServerName v \<mapsto> v), vl_name := (vl_name l)(vp_Name v \<mapsto> v)\<rparr>"

definition vl_update :: "hosted \<Rightarrow> vhostlist \<Rightarrow> vhostlist" where
  "vl_update v l = vl_insert v (snd (vl_remove (vp_Name v) l))"

definition vl_get :: "string \<Rightarrow> vhostlist \<Rightarrow> hosted option" where
  "vl_get n l = vl_name l n"

definition vl_resolve :: "string \<Rightarrow> vhostlist \<Rightarrow> hosted option" where
  "vl_resolve h l = vl_index l h"

text \<open>\<open>ServeHTTP\<close>: the virtual host that answers, or the status of a refusal.\<close>

definition ServeHTTP :: "string \<Rightarrow> vhostlist \<Rightarrow> hosted + int64" where
  "ServeHTTP host l = (case vl_resolve host l of Some v \<Rightarrow> Inl v | None \<Rightarrow> Inr 403)"

record listenerConfig =
  lc_Name :: string
  lc_Type :: string
  lc_Endpoint :: string
  lc_ReadTimeout :: int64
  lc_WriteTimeout :: int64
  lc_IdleTimeout :: int64
  lc_ReadHeaderTimeout :: int64
  lc_MaxHeaderSize :: int64

text \<open>
  Fields separated by commas; the numbers may be left out from the end, and are 0 then. \<open>perr\<close> is the
  text of \<open>strconv\<close> for a number it does not take.
\<close>

definition opt_int :: "(string \<Rightarrow> string) \<Rightarrow> string list \<Rightarrow> string \<Rightarrow> nat \<Rightarrow> int64 res" where
  "opt_int perr x field index =
     (if index < length x then
        (case Atoi (x ! index) of
           Some i \<Rightarrow> Ok (word_of_int i)
         | None \<Rightarrow>
             Err (''invalid listener config field '' @ field @ '', must be valid integer, but has error: '' @
               perr (x ! index)))
      else Ok 0)"

definition ParseConfigCompact :: "(string \<Rightarrow> string) \<Rightarrow> string \<Rightarrow> listenerConfig res" where
  "ParseConfigCompact perr input =
     (let x = split_on (CHR '','') input; num = opt_int perr x in
      if length x < 3 then Err (''invalid listener config: '' @ input @ '', at least 3 elements are needed'')
      else
        rbind (num ''ReadTimeout'' 3) (\<lambda>rt.
        rbind (num ''WriteTimeout'' 4) (\<lambda>wt.
        rbind (num ''IdleTimeout'' 5) (\<lambda>it.
        rbind (num ''ReadHeaderTimeout'' 6) (\<lambda>rh.
        rbind (num ''MaxHeaderSize'' 7) (\<lambda>mh.
          Ok \<lparr>lc_Name = x ! 1, lc_Type = x ! 0, lc_Endpoint = x ! 2, lc_ReadTimeout = rt, lc_WriteTimeout = wt,
              lc_IdleTimeout = it, lc_ReadHeaderTimeout = rh, lc_MaxHeaderSize = mh\<rparr>))))))"

end
