(* ===== verification/VHostProps.thy ===== *)
theory VHostProps
  imports VHostConfig
begin

text \<open>
  Configurations that are well formed, routes, the default access log, and the consistency of the
  table of virtual hosts.
\<close>

section \<open>Scopes of a configuration\<close>

definition scopes_ok :: "svcConfigBuilder \<Rightarrow> bool" where
  "scopes_ok s \<longleftrightarrow> sb_cur s \<in>
     {[], [svcConfigService], [svcConfigService, svcConfigRequest], [svcConfigService, svcConfigResponse],
      [svcConfigService, svcConfigApplication]}"

lemma scopes_okE:
  assumes "scopes_ok s"
  obtains "sb_cur s = []" | "sb_cur s = [svcConfigService]" |
    x where "sb_cur s = [svcConfigService, x]" "x \<in> {svcConfigRequest, svcConfigResponse, svcConfigApplication}"
  using assms unfolding scopes_ok_def by blast

text \<open>What the evaluator of a configuration does to the builder.\<close>

inductive svc_event :: "hworld oenv \<Rightarrow> svcConfigBuilder \<Rightarrow> svcConfigBuilder \<Rightarrow> bool" for env where
  se_push: "svc_event env s (snd (svc_PushConfig name s))"
| se_pop: "svc_event env s (snd (svc_PopConfig s))"
| se_property: "svc_event env s (snd (svc_ConfigProperty env st key v s))"
| se_command: "svc_event env s (snd (svc_ConfigCommand key vs s))"

lemma sb_set_cur: "sb_cur (snd (sb_set r f s)) = sb_cur s"
  by (cases r) (simp_all add: sb_set_def)

lemma err_cur: "sb_cur (snd (r, s)) = sb_cur s"
  by simp

lemma if_cur: "sb_cur (snd x) = c \<Longrightarrow> sb_cur (snd y) = c \<Longrightarrow> sb_cur (snd (if b then x else y)) = c"
  by simp

lemma propService_cur: "sb_cur (snd (propService env st key v s)) = sb_cur s"
  unfolding propService_def Let_def by (rule if_cur sb_set_cur err_cur)+

lemma property_cur: "sb_cur (snd (svc_ConfigProperty env st key v s)) = sb_cur s"
  unfolding svc_ConfigProperty_def by (cases "curType s") (simp_all only: snd_conv svcScope.case propService_cur)

lemma command_cur: "sb_cur (snd (svc_ConfigCommand key vs s)) = sb_cur s"
  by (cases "curType s") (simp_all add: svc_ConfigCommand_def)

lemma push_scopes: "scopes_ok s \<Longrightarrow> scopes_ok (snd (svc_PushConfig name s))"
  by (erule scopes_okE) (auto simp: scopes_ok_def svc_PushConfig_def curType_def setCur_def)

lemma pop_scopes: "scopes_ok s \<Longrightarrow> scopes_ok (snd (svc_PopConfig s))"
  by (erule scopes_okE) (simp_all add: scopes_ok_def svc_PopConfig_def popCur_def)

lemma same_scopes: "sb_cur t = sb_cur s \<Longrightarrow> scopes_ok s \<Longrightarrow> scopes_ok t"
  by (simp only: scopes_ok_def)

lemma svc_event_scopes: "svc_event env s t \<Longrightarrow> scopes_ok s \<Longrightarrow> scopes_ok t"
  by (erule svc_event.cases)
    (simp_all only: push_scopes pop_scopes same_scopes [OF property_cur] same_scopes [OF command_cur])

lemma svc_scopes:
  assumes "(svc_event env)\<^sup>*\<^sup>* \<lparr>sb_config = c, sb_cur = []\<rparr> s"
  shows "scopes_ok s"
  using assms by (induction rule: rtranclp_induct) (auto simp: scopes_ok_def[of "\<lparr>sb_config = c, sb_cur = []\<rparr>"] svc_event_scopes)

text \<open>A middleware that is configured is one of the registered ones, or the service is refused.\<close>

lemma add_all_length:
  "add_all AddRequest xs f = Ok g \<Longrightarrow> length (fl_l g) = length (fl_l f) + length xs"
  "add_all AddResponse xs f = Ok g \<Longrightarrow> length (fl_l g) = length (fl_l f) + length xs"
  by (induction xs arbitrary: f) (auto simp: AddRequest_def AddResponse_def split: option.splits)

section \<open>Routes\<close>

definition plain_route_char :: "char \<Rightarrow> bool" where
  "plain_route_char c \<longleftrightarrow> c \<notin> set ''[]*,'' \<and> \<not> space_char c"

lemma plain_route:
  "\<not> plain_route_char (CHR ''['')" "\<not> plain_route_char (CHR '']'')" "\<not> plain_route_char (CHR ''*'')"
  "\<not> plain_route_char (CHR '','')" "plain_route_char c \<Longrightarrow> \<not> space_char c"
  by (simp_all add: plain_route_char_def)

lemma index_byte_first: "c \<notin> set xs \<Longrightarrow> index_byte c (xs @ c # ys) = Some (length xs)"
  by (induction xs) auto

lemma TrimSpace_plain: "\<forall>c \<in> set s. \<not> space_char c \<Longrightarrow> TrimSpace s = s"
proof -
  assume a: "\<forall>c \<in> set s. \<not> space_char c"
  then have "dropWhile space_char s = s" by (cases s) simp_all
  moreover have "s = [] \<or> last s \<in> set s" by (cases "s = []") simp_all
  then have "dropWhile space_char (rev s) = rev s"
    using a by (simp add: dropWhile_eq_self_iff hd_rev) blast
  ultimately show ?thesis by (simp add: TrimSpace_def)
qed

lemma split_on_plain: "c \<notin> set xs \<Longrightarrow> split_on c xs = [xs]"
  by (induction xs) auto

lemma split_on_append: "c \<notin> set xs \<Longrightarrow> split_on c (xs @ c # ys) = xs # split_on c ys"
  by (induction xs) auto

lemma split_on_join:
  "ms \<noteq> [] \<Longrightarrow> \<forall>m \<in> set ms. c \<notin> set m \<Longrightarrow> split_on c (str_join [c] ms) = ms"
proof (induction "[c]" ms rule: str_join.induct)
  case (3 x y zs)
  then show ?case by (simp add: split_on_append)
qed (simp_all add: split_on_plain)

lemma set_join: "set (str_join sep ms) \<subseteq> set sep \<union> (\<Union>m \<in> set ms. set m)"
  by (induction sep ms rule: str_join.induct) auto

lemma route_roundtrip:
  assumes "ms \<noteq> []" "\<forall>m \<in> set ms. m \<noteq> '''' \<and> (\<forall>c \<in> set m. plain_route_char c \<and> upper_char c = c)"
    and "CHR ''*'' \<notin> set path"
  shows "newRouter (CHR ''['' # str_join '','' ms @ CHR '']'' # path) = Ok (ms, path)"
proof -
  let ?l = "str_join '','' ms"
  have chars: "\<forall>c \<in> set ?l. c = CHR '','' \<or> plain_route_char c"
    using set_join [of "'',''" ms] assms(2) by auto
  have close: "CHR '']'' \<notin> set (CHR ''['' # ?l)" "CHR ''*'' \<notin> set ?l"
    using bspec [OF chars, of "CHR '']''"] bspec [OF chars, of "CHR ''*''"] plain_route(2,3) by (simp_all, blast+)
  have "\<not> space_char (CHR '','')"
    by (simp add: space_char_def)
  moreover have plain: "\<not> space_char c" if "plain_route_char c" for c
    using that by (simp add: plain_route_char_def)
  ultimately have trim: "TrimSpace ?l = ?l"
    using chars plain by (intro TrimSpace_plain) metis
  have each: "map upper_char (TrimSpace m) = m" if "m \<in> set ms" for m
  proof -
    have "TrimSpace m = m" using assms(2) that plain by (intro TrimSpace_plain) simp
    then show ?thesis using assms(2) that by (simp add: map_idI)
  qed
  have list: "split_on (CHR '','') ?l = ms"
    using assms(1) bspec [OF assms(2)] plain_route(4) by (intro split_on_join ballI notI) blast+
  have brackets: "index_byte (CHR ''['') (CHR ''['' # ?l @ CHR '']'' # path) = Some 0"
    "index_byte (CHR '']'') (CHR ''['' # ?l @ CHR '']'' # path) = Some (Suc (length ?l))"
    using index_byte_first [OF close(1), of path] by simp_all
  have "last_index (CHR ''*'') path = None"
    using assms(3) by (simp add: last_index_def index_byte_None)
  then have path: "checkrouterpath path = path" by (simp add: checkrouterpath_def)
  have star: "?l \<noteq> ''*''" using close(2) by auto
  have methods: "map (\<lambda>xx. map upper_char (TrimSpace xx)) ms = ms"
    using each by (simp add: map_idI)
  have parts: "take (Suc (length ?l) - (0 + 1)) (drop (0 + 1) (CHR ''['' # ?l @ CHR '']'' # path)) = ?l"
    "drop (Suc (length ?l) + 1) (CHR ''['' # ?l @ CHR '']'' # path) = path" by simp_all
  show ?thesis
    unfolding newRouter_def brackets option.case parts Let_def trim list methods path
    using star by simp
qed

text \<open>A star stands for seven methods; the name \<open>OPTION\<close> is not HTTP's \<open>OPTIONS\<close>, and \<open>PATCH\<close> is missing.\<close>

lemma star_methods:
  "newRouter ''[*]/a'' = Ok (httpmethodlist, ''/a'')" "''OPTIONS'' \<notin> set httpmethodlist" "''PATCH'' \<notin> set httpmethodlist"
proof -
  show "newRouter ''[*]/a'' = Ok (httpmethodlist, ''/a'')" by code_simp
qed (simp_all add: httpmethodlist_def)

lemma index_byte_behind: "c \<notin> set xs \<Longrightarrow> index_byte c (xs @ ys) = map_option (\<lambda>n. n + length xs) (index_byte c ys)"
  by (induction xs) (auto simp: option.map_comp comp_def option.map_ident)

text \<open>The first closing bracket counts: a route that has one before its opening bracket panics.\<close>

lemma route_brackets_panic:
  assumes "CHR ''['' \<notin> set a" "CHR '']'' \<notin> set a"
  shows "\<exists>p. newRouter (a @ CHR '']'' # b @ CHR ''['' # c) = Panic p"
proof -
  have "index_byte (CHR '']'') (a @ CHR '']'' # b @ CHR ''['' # c) = Some (length a)"
    using assms(2) by (simp add: index_byte_first)
  moreover obtain k where "index_byte (CHR ''['') (CHR '']'' # b @ CHR ''['' # c) = Some k"
    using index_byte_None [of "CHR ''[''" "CHR '']'' # b @ CHR ''['' # c"] by fastforce
  then have "index_byte (CHR ''['') (a @ CHR '']'' # b @ CHR ''['' # c) = Some (k + length a)"
    using assms(1) by (simp add: index_byte_behind)
  ultimately show ?thesis
    by (simp add: newRouter_def)
qed

section \<open>The access log\<close>

text \<open>A virtual host that gives no format of its own has the default one, which compiles.\<close>

lemma default_format_compiles: "case CompileFormat VHostLogFormat of Ok f \<Rightarrow> True | _ \<Rightarrow> False"
  by code_simp

lemma vhost_Compose_default:
  assumes "vc_LogFormat config = ''''"
  shows "\<exists>v. vhost_Compose config = Ok v \<and> vh_Config v = config"
proof -
  obtain f where "CompileFormat VHostLogFormat = Ok f"
    using default_format_compiles by (cases "CompileFormat VHostLogFormat") simp_all
  then show ?thesis by (simp add: vhost_Compose_def NotZeroStr_def assms)
qed

lemma service_Compose_ok:
  "service_Compose cfg = Ok f \<Longrightarrow>
     GetApplicationFactory (hc_AppName cfg) = Some (sf_App f) \<and> sf_AppConfig f = hc_AppConfig cfg \<and>
     length (fl_l (sf_Request f)) = length (hc_Request cfg) \<and>
     length (fl_l (sf_Response f)) = length (hc_Response cfg)"
  using add_all_length [of "hc_Request cfg"] add_all_length(2) [of "hc_Response cfg"]
  by (auto simp: service_Compose_def NewMiddlewareFactoryList_def rbind_Ok_iff split: if_splits option.splits)

section \<open>The table of virtual hosts\<close>

text \<open>
  What the two maps are for: each virtual host is found under its name and under its server name, and
  nothing else is found.
\<close>

definition vl_ok :: "vhostlist \<Rightarrow> bool" where
  "vl_ok l \<longleftrightarrow>
     (\<forall>k v. vl_index l k = Some v \<longrightarrow> vp_ServerName v = k \<and> vl_name l (vp_Name v) = Some v) \<and>
     (\<forall>n v. vl_name l n = Some v \<longrightarrow> vp_Name v = n \<and> vl_index l (vp_ServerName v) = Some v)"

lemma vl_okD:
  assumes "vl_ok l"
  shows "vl_index l k = Some v \<Longrightarrow> vp_ServerName v = k \<and> vl_name l (vp_Name v) = Some v"
    and "vl_name l n = Some v \<Longrightarrow> vp_Name v = n \<and> vl_index l (vp_ServerName v) = Some v"
  using assms by (auto simp: vl_ok_def)

lemma newvhostlist_ok: "vl_ok newvhostlist"
  by (simp add: vl_ok_def newvhostlist_def)

lemma vl_put_ok:
  assumes "vl_ok l" "vl_index l (vp_ServerName v) = None" "vl_name l (vp_Name v) = None"
  shows "vl_ok (l\<lparr>vl_index := (vl_index l)(vp_ServerName v \<mapsto> v), vl_name := (vl_name l)(vp_Name v \<mapsto> v)\<rparr>)"
  using assms by (auto simp: vl_ok_def) (metis option.distinct(1))+

lemma vl_okI:
  assumes "\<And>k v. vl_index l k = Some v \<Longrightarrow> vp_ServerName v = k \<and> vl_name l (vp_Name v) = Some v"
    and "\<And>n v. vl_name l n = Some v \<Longrightarrow> vp_Name v = n \<and> vl_index l (vp_ServerName v) = Some v"
  shows "vl_ok l"
  unfolding vl_ok_def using assms by blast

lemma vl_delete_ok:
  assumes "vl_ok l" "vl_name l n = Some w"
  shows "vl_ok (l\<lparr>vl_index := (vl_index l)(vp_ServerName w := None), vl_name := (vl_name l)(n := None)\<rparr>)"
proof (rule vl_okI, goal_cases)
  case (1 k v)
  then have k: "k \<noteq> vp_ServerName w" "vl_index l k = Some v" by (auto split: if_splits)
  have "vp_Name v \<noteq> n"
    using vl_okD(1) [OF assms(1) k(2)] assms(2) k(1) by (metis option.inject)
  then show ?case using vl_okD(1) [OF assms(1) k(2)] by simp
next
  case (2 m v)
  then have m: "m \<noteq> n" "vl_name l m = Some v" by (auto split: if_splits)
  have "vp_ServerName v \<noteq> vp_ServerName w"
    using vl_okD(2) [OF assms(1) m(2)] vl_okD(2) [OF assms] m(1) by (metis option.inject)
  then show ?case using vl_okD(2) [OF assms(1) m(2)] by simp
qed

lemma vl_remove_some: "vl_name l n = Some w \<Longrightarrow> snd (vl_remove n l) =
   l\<lparr>vl_index := (vl_index l)(vp_ServerName w := None), vl_name := (vl_name l)(n := None)\<rparr>"
  by (simp add: vl_remove_def)

lemma vl_remove_ok:
  assumes "vl_ok l"
  shows "vl_ok (snd (vl_remove n l))" "vl_name (snd (vl_remove n l)) n = None"
    "vl_index (snd (vl_remove n l)) k = Some v \<longleftrightarrow> vl_index l k = Some v \<and> vp_Name v \<noteq> n"
proof -
  show "vl_ok (snd (vl_remove n l))"
    using assms vl_delete_ok [OF assms, of n] by (cases "vl_name l n") (simp_all only: vl_remove_some, simp add: vl_remove_def)
  show "vl_name (snd (vl_remove n l)) n = None"
    by (cases "vl_name l n") (simp_all add: vl_remove_def)
  show "vl_index (snd (vl_remove n l)) k = Some v \<longleftrightarrow> vl_index l k = Some v \<and> vp_Name v \<noteq> n"
  proof (cases "vl_name l n")
    case None
    then have "vl_index l k = Some v \<Longrightarrow> vp_Name v \<noteq> n" using vl_okD(1) [OF assms, of k v] by (metis option.distinct(1))
    then show ?thesis using None by (simp add: vl_remove_def) blast
  next
    case (Some w)
    have "vl_index l k = Some v \<Longrightarrow> k = vp_ServerName w \<longleftrightarrow> vp_Name v = n"
      using vl_okD(1) [OF assms, of k v] vl_okD(2) [OF assms Some] Some by (metis option.inject)
    then show ?thesis unfolding vl_remove_some [OF Some] by (cases "k = vp_ServerName w") auto
  qed
qed

lemma vl_add_ok: "vl_ok l \<Longrightarrow> vl_ok (snd (vl_add v l))"
  using vl_put_ok [of l v] by (simp add: vl_add_def)

text \<open>The server name is free, or the virtual host that has it is the one to be replaced.\<close>

definition free_for :: "hosted \<Rightarrow> vhostlist \<Rightarrow> bool" where
  "free_for v l \<longleftrightarrow> (\<forall>w. vl_index l (vp_ServerName v) = Some w \<longrightarrow> vp_Name w = vp_Name v)"

lemma vl_update_ok:
  assumes "vl_ok l" "free_for v l"
  shows "vl_ok (vl_update v l)"
proof -
  let ?l = "snd (vl_remove (vp_Name v) l)"
  have "vl_index ?l (vp_ServerName v) = None"
    using vl_remove_ok(3) [OF assms(1), of "vp_Name v" "vp_ServerName v"] assms(2)
    by (cases "vl_index ?l (vp_ServerName v)") (auto simp: free_for_def)
  then show ?thesis
    using vl_put_ok [of ?l v] vl_remove_ok(1,2) [OF assms(1), of "vp_Name v"] by (simp add: vl_update_def vl_insert_def)
qed

lemma vl_update_taken:
  assumes "vl_ok l" "vl_index l (vp_ServerName v) = Some w" "vp_Name w \<noteq> vp_Name v"
  shows "vl_get (vp_Name w) (vl_update v l) = Some w" "vl_resolve (vp_ServerName w) (vl_update v l) = Some v"
    "vl_resolve (vp_ServerName v) (snd (vl_remove (vp_Name w) (vl_update v l))) = None"
    "vl_get (vp_Name v) (snd (vl_remove (vp_Name w) (vl_update v l))) = Some v"
proof -
  let ?l = "snd (vl_remove (vp_Name v) l)"
  have w: "vp_ServerName w = vp_ServerName v" "vl_name ?l (vp_Name w) = Some w"
    using vl_okD(1) [OF assms(1,2)] vl_okD(1) [OF vl_remove_ok(1) [OF assms(1)]] vl_remove_ok(3) [OF assms(1)]
      assms(2,3) by blast+
  show "vl_get (vp_Name w) (vl_update v l) = Some w" "vl_resolve (vp_ServerName w) (vl_update v l) = Some v"
    using w assms(3) by (simp_all add: vl_get_def vl_resolve_def vl_update_def vl_insert_def)
  show "vl_resolve (vp_ServerName v) (snd (vl_remove (vp_Name w) (vl_update v l))) = None"
    "vl_get (vp_Name v) (snd (vl_remove (vp_Name w) (vl_update v l))) = Some v"
    using w assms(3) by (simp_all add: vl_get_def vl_resolve_def vl_update_def vl_insert_def vl_remove_def)
qed

text \<open>
  Two updates of one virtual host that both have removed it before either inserts: the first one's host
  stays in the index for ever, it still answers after the virtual host has been removed.
\<close>

lemma racing_updates_leave_entry:
  assumes "vp_Name v = vp_Name w" "vp_ServerName v \<noteq> vp_ServerName w"
  shows "let l1 = snd (vl_remove (vp_Name w) (snd (vl_remove (vp_Name v) l)));
      l2 = snd (vl_remove (vp_Name w) (vl_insert w (vl_insert v l1)))
    in vl_get (vp_Name v) l2 = None \<and> vl_resolve (vp_ServerName v) l2 = Some v"
  using assms by (simp add: vl_insert_def vl_remove_def vl_get_def vl_resolve_def Let_def)

section \<open>Runs of the table\<close>

text \<open>
  The contract of a table with two keys: every step keeps it consistent, and a consistent table finds
  a value under its host exactly when it finds it under its name.
\<close>

locale two_keys =
  fixes ok :: "'t \<Rightarrow> bool" and step :: "'t \<Rightarrow> 't \<Rightarrow> bool"
    and by_host by_name :: "string \<Rightarrow> 't \<Rightarrow> 'v option" and host name_of :: "'v \<Rightarrow> string"
  assumes keeps: "step t u \<Longrightarrow> ok t \<Longrightarrow> ok u"
    and found_by_host: "ok t \<Longrightarrow> by_host k t = Some v \<Longrightarrow> host v = k \<and> by_name (name_of v) t = Some v"
    and found_by_name: "ok t \<Longrightarrow> by_name n t = Some v \<Longrightarrow> name_of v = n \<and> by_host (host v) t = Some v"
begin

lemma run_ok: "step\<^sup>*\<^sup>* t u \<Longrightarrow> ok t \<Longrightarrow> ok u"
  by (induction rule: rtranclp_induct) (auto intro: keeps)

lemma same_table: "ok t \<Longrightarrow> by_host k t = Some v \<longleftrightarrow> host v = k \<and> by_name (name_of v) t = Some v"
  using found_by_host [of t k v] found_by_name [of t "name_of v" v] by blast

end

text \<open>What a listener does with its table, as long as no update takes the server name of another.\<close>

inductive vl_step :: "vhostlist \<Rightarrow> vhostlist \<Rightarrow> bool" where
  vl_step_add: "vl_step l (snd (vl_add v l))"
| vl_step_remove: "vl_step l (snd (vl_remove n l))"
| vl_step_update: "free_for v l \<Longrightarrow> vl_step l (vl_update v l)"

inductive_cases vl_stepE: "vl_step l l'"

lemma vl_step_ok: "vl_step l l' \<Longrightarrow> vl_ok l \<Longrightarrow> vl_ok l'"
  by (erule vl_stepE) (simp_all only: vl_add_ok vl_remove_ok(1) vl_update_ok)

interpretation vl: two_keys vl_ok vl_step vl_resolve vl_get vp_ServerName vp_Name
  by unfold_locales (simp_all only: vl_resolve_def vl_get_def vl_step_ok vl_okD)

text \<open>
  C20: With operations one after the other, and as long as no update takes the server name of another, a virtual host answers for a
  host exactly when it is listed by its name, under its own server name. But an update is not refused
  the server name of another virtual host: that one stays listed and answers nothing, and when it is
  removed, requests for the updated one are refused although it is listed.
\<close>

theorem vhost_table_consistent:
  assumes "vl_step\<^sup>*\<^sup>* newvhostlist l"
  shows "(\<forall>k v. ServeHTTP k l = Inl v \<longleftrightarrow> vp_ServerName v = k \<and> vl_get (vp_Name v) l = Some v) \<and>
    (\<forall>v w. ServeHTTP (vp_ServerName v) l = Inl w \<longrightarrow> vp_Name w \<noteq> vp_Name v \<longrightarrow>
      (let l1 = vl_update v l; l2 = snd (vl_remove (vp_Name w) l1)
       in vl_get (vp_Name w) l1 = Some w \<and> ServeHTTP (vp_ServerName w) l1 = Inl v \<and>
         vl_get (vp_Name v) l2 = Some v \<and> ServeHTTP (vp_ServerName v) l2 = Inr 403))"
proof -
  have ok: "vl_ok l" using vl.run_ok [OF assms newvhostlist_ok] .
  have serve: "ServeHTTP k l = Inl v \<longleftrightarrow> vl_resolve k l = Some v" for k l v
    by (simp add: ServeHTTP_def split: option.split)
  have refuse: "vl_resolve k l = None \<Longrightarrow> ServeHTTP k l = Inr 403" for k l
    by (simp add: ServeHTTP_def)
  have taken: "let l1 = vl_update v l; l2 = snd (vl_remove (vp_Name w) l1)
      in vl_get (vp_Name w) l1 = Some w \<and> ServeHTTP (vp_ServerName w) l1 = Inl v \<and>
        vl_get (vp_Name v) l2 = Some v \<and> ServeHTTP (vp_ServerName v) l2 = Inr 403"
    if "vl_index l (vp_ServerName v) = Some w" "vp_Name w \<noteq> vp_Name v" for v w
    unfolding Let_def serve using vl_update_taken [OF ok that] refuse by blast
  then show ?thesis
    unfolding serve using vl.same_table [OF ok] by (simp add: vl_resolve_def)
qed

definition s_blog :: hosted where "s_blog = \<lparr>vp_id = 1, vp_ServerName = ''blog.com'', vp_Name = ''blog'', vp_Listener = ''web''\<rparr>"
definition s_shop :: hosted where "s_shop = \<lparr>vp_id = 2, vp_ServerName = ''shop.com'', vp_Name = ''shop'', vp_Listener = ''web''\<rparr>"

text \<open>Two virtual hosts; the shop is given the blog's server name, and the blog is removed.\<close>

theorem vhost_table_consistent_witness:
  "let l = snd (vl_add s_shop (snd (vl_add s_blog newvhostlist))); v = s_shop\<lparr>vp_ServerName := ''blog.com''\<rparr>;
     l2 = snd (vl_remove ''blog'' (vl_update v l))
   in ServeHTTP ''shop.com'' l = Inl s_shop \<and> vl_get ''shop'' l2 = Some v \<and> ServeHTTP ''blog.com'' l2 = Inr 403"
proof -
  let ?l = "snd (vl_add s_shop (snd (vl_add s_blog newvhostlist)))"
  have run: "vl_step\<^sup>*\<^sup>* newvhostlist ?l"
    using vl_step_add [of newvhostlist s_blog] vl_step_add [of "snd (vl_add s_blog newvhostlist)" s_shop]
    by (meson converse_rtranclp_into_rtranclp r_into_rtranclp)
  have "ServeHTTP ''blog.com'' ?l = Inl s_blog" "vl_get ''shop'' ?l = Some s_shop"
    "vp_Name s_blog = ''blog''" "vp_Name s_shop = ''shop''" "vp_ServerName s_shop = ''shop.com''"
    by (simp_all add: ServeHTTP_def vl_resolve_def vl_get_def vl_add_def newvhostlist_def s_blog_def s_shop_def)
  then show ?thesis
    using conjunct1 [OF vhost_table_consistent [OF run], rule_format, of "''shop.com''" s_shop]
      conjunct2 [OF vhost_table_consistent [OF run], rule_format, of "s_shop\<lparr>vp_ServerName := ''blog.com''\<rparr>" s_blog]
    by (simp add: Let_def)
qed

end
