(* ===== verification/Server.thy ===== *)
theory Server
  imports VHostProps
begin

text \<open>
  The server and its listeners (\<open>server/server.go\<close>, \<open>new_listener.go\<close>, \<open>vhost.go\<close>, \<open>listener.go\<close>, the
  virtual hosts of \<open>http/listener.go\<close> and \<open>redis/listener.go\<close>, \<open>manifest/manifest_dir.go\<close>). A virtual
  host and a listener are of one of two kinds each; which virtual host is given to which listener is
  decided by the listener's name alone.
\<close>

section \<open>Virtual hosts and listeners\<close>

record redis_hosted =
  rv_id :: nat
  rv_Name :: string
  rv_Listener :: string

datatype server_vhost = HttpVHost hosted | RedisVHost redis_hosted

fun vhost_Name :: "server_vhost \<Rightarrow> string" where
  "vhost_Name (HttpVHost v) = vp_Name v"
| "vhost_Name (RedisVHost v) = rv_Name v"

fun vhost_ListenerName :: "server_vhost \<Rightarrow> string" where
  "vhost_ListenerName (HttpVHost v) = vp_Listener v"
| "vhost_ListenerName (RedisVHost v) = rv_Listener v"

fun vhost_ListenerType :: "server_vhost \<Rightarrow> string" where
  "vhost_ListenerType (HttpVHost v) = ''http''"
| "vhost_ListenerType (RedisVHost v) = ''redis''"

text \<open>A listener for HTTP has a table, one for Redis has a pointer to at most one virtual host.\<close>

datatype listener = HttpListener string vhostlist | RedisListener string "server_vhost option"

fun lis_Name :: "listener \<Rightarrow> string" where
  "lis_Name (HttpListener n _) = n"
| "lis_Name (RedisListener n _) = n"

fun lis_Type :: "listener \<Rightarrow> string" where
  "lis_Type (HttpListener _ _) = ''http''"
| "lis_Type (RedisListener _ _) = ''redis''"

text \<open>The type assertions on what the server hands over.\<close>

definition as_http :: "server_vhost \<Rightarrow> hosted res" where
  "as_http v =
     (case v of HttpVHost x \<Rightarrow> Ok x
      | RedisVHost _ \<Rightarrow> Panic ''interface conversion: server.VHost is *vhost.VHost, not *vhost.VHost (types from different packages)'')"

definition redis_vhs :: "server_vhost option \<Rightarrow> redis_hosted option res" where
  "redis_vhs p =
     (case p of None \<Rightarrow> Ok None
      | Some (RedisVHost x) \<Rightarrow> Ok (Some x)
      | Some (HttpVHost _) \<Rightarrow> Panic ''interface conversion: server.VHost is *vhost.VHost, not *vhost.VHost (types from different packages)'')"

definition redis_AddVHost :: "server_vhost \<Rightarrow> server_vhost option \<Rightarrow> unit res \<times> server_vhost option" where
  "redis_AddVHost x p =
     rlift (redis_vhs p) p (\<lambda>y p.
       if (case y of Some y \<Rightarrow> rv_Name y = vhost_Name x | None \<Rightarrow> False)
       then (Err ''vhost has already been added'', p) else (Ok (), Some x))"

definition redis_UpdateVHost :: "server_vhost \<Rightarrow> server_vhost option \<Rightarrow> server_vhost option" where
  "redis_UpdateVHost x p = Some x"

text \<open>
  The loop of \<open>RemoveVHost\<close>. \<open>others\<close> are the pointers that other goroutines store between the reading of
  the pointer and the swap, one for each swap that fails; the next round finds the last of them.
\<close>

fun redis_remove_loop :: "server_vhost option list \<Rightarrow> string \<Rightarrow> server_vhost option \<Rightarrow> unit res \<times> server_vhost option" where
  "redis_remove_loop others n None = (Panic ''nil pointer'', None)"
| "redis_remove_loop others n (Some x) =
     (if vhost_Name x = n then
        (case others of [] \<Rightarrow> (Ok (), None) | q # others \<Rightarrow> redis_remove_loop others n q)
      else (Ok (), Some x))"

text \<open>With nobody else at the pointer.\<close>

definition redis_RemoveVHost :: "string \<Rightarrow> server_vhost option \<Rightarrow> unit res \<times> server_vhost option" where
  "redis_RemoveVHost n p = redis_remove_loop [] n p"

text \<open>Whoever interferes: the name is gone, unless the virtual host was taken away meanwhile, which panics.\<close>

lemma redis_remove_races:
  "redis_remove_loop others n p = (r, p') \<Longrightarrow>
     r = Ok () \<and> (\<forall>v. p' = Some v \<longrightarrow> vhost_Name v \<noteq> n) \<or>
     r = Panic ''nil pointer'' \<and> p' = None \<and> (p = None \<or> None \<in> set others)"
  by (induction others n p rule: redis_remove_loop.induct) (auto split: if_splits list.splits)

definition redis_GetVHost :: "string \<Rightarrow> server_vhost option \<Rightarrow> server_vhost option res" where
  "redis_GetVHost n p =
     rbind (redis_vhs p) (\<lambda>x.
       case x of
         None \<Rightarrow> Panic ''nil pointer''
       | Some x \<Rightarrow> Ok (if rv_Name x = n then Some (RedisVHost x) else None))"

text \<open>The operations of the interface. \<open>GetVHost\<close> of an HTTP listener gives an interface that may hold nil.\<close>

fun lis_AddVHost :: "server_vhost \<Rightarrow> listener \<Rightarrow> unit res \<times> listener" where
  "lis_AddVHost v (HttpListener n t) =
     rlift (as_http v) (HttpListener n t) (\<lambda>x _. let (r, t) = vl_add x t in (r, HttpListener n t))"
| "lis_AddVHost v (RedisListener n p) = (let (r, p) = redis_AddVHost v p in (r, RedisListener n p))"

fun lis_UpdateVHost :: "server_vhost \<Rightarrow> listener \<Rightarrow> unit res \<times> listener" where
  "lis_UpdateVHost v (HttpListener n t) =
     rlift (as_http v) (HttpListener n t) (\<lambda>x _. (Ok (), HttpListener n (vl_update x t)))"
| "lis_UpdateVHost v (RedisListener n p) = (Ok (), RedisListener n (redis_UpdateVHost v p))"

fun lis_RemoveVHost :: "string \<Rightarrow> listener \<Rightarrow> unit res \<times> listener" where
  "lis_RemoveVHost x (HttpListener n t) = (Ok (), HttpListener n (snd (vl_remove x t)))"
| "lis_RemoveVHost x (RedisListener n p) = (let (r, p) = redis_RemoveVHost x p in (r, RedisListener n p))"

datatype vhost_iface = NilInterface | NilVHost | IfaceVHost server_vhost

fun lis_GetVHost :: "string \<Rightarrow> listener \<Rightarrow> vhost_iface res" where
  "lis_GetVHost x (HttpListener n t) =
     Ok (case vl_get x t of None \<Rightarrow> NilVHost | Some v \<Rightarrow> IfaceVHost (HttpVHost v))"
| "lis_GetVHost x (RedisListener n p) =
     rbind (redis_GetVHost x p) (\<lambda>v. Ok (case v of None \<Rightarrow> NilInterface | Some v \<Rightarrow> IfaceVHost v))"

section \<open>The server\<close>

type_synonym server = "listener list"

text \<open>\<open>getListener\<close> gives the first listener of a name; what is called on it changes it in place.\<close>

fun getListener :: "string \<Rightarrow> server \<Rightarrow> listener option" where
  "getListener x [] = None"
| "getListener x (l # ls) = (if lis_Name l = x then Some l else getListener x ls)"

fun at_listener :: "string \<Rightarrow> (listener \<Rightarrow> unit res \<times> listener) \<Rightarrow> unit res \<Rightarrow> server \<Rightarrow> unit res \<times> server" where
  "at_listener x f none [] = (none, [])"
| "at_listener x f none (l # ls) =
     (if lis_Name l = x then let (r, l) = f l in (r, l # ls)
      else let (r, ls) = at_listener x f none ls in (r, l # ls))"

text \<open>
  Listeners are made by the factory of their type; an error of one of them is the error of the server.
\<close>

fun NewServer :: "(string \<Rightarrow> ('c \<Rightarrow> listener res) option) \<Rightarrow> ('c \<Rightarrow> string) \<Rightarrow> 'c list \<Rightarrow> server \<Rightarrow> server res" where
  "NewServer fac ty [] s = Ok s"
| "NewServer fac ty (x # xs) s =
     (case fac (ty x) of
        None \<Rightarrow> Err (''unknown listener type: '' @ ty x)
      | Some new \<Rightarrow>
          rbind (with_err (\<lambda>e. ''cannot create listener: '' @ e) (new x)) (\<lambda>l. NewServer fac ty xs (s @ [l])))"

text \<open>\<open>fac\<close> are the registered factories of virtual hosts, which make one of a manifest of their type.\<close>

definition AddVirtualHost ::
  "(string \<Rightarrow> ('m \<Rightarrow> server_vhost res) option) \<Rightarrow> string \<Rightarrow> 'm \<Rightarrow> server \<Rightarrow> unit res \<times> server" where
  "AddVirtualHost fac ty manifest s =
     (case fac ty of
        None \<Rightarrow> (Err (''listener: unknown manifest type '' @ ty), s)
      | Some new \<Rightarrow>
          rlift (new manifest) s (\<lambda>v s.
            if vhost_ListenerType v \<noteq> ty then
              (Err (''listener: mismatched listener type '' @ vhost_ListenerType v @ '' and vhost type '' @ ty), s)
            else at_listener (vhost_ListenerName v) (lis_AddVHost v)
              (Err (''listener: '' @ vhost_ListenerName v @ '' is not existed'')) s))"

definition server_AddVHost :: "server_vhost \<Rightarrow> server \<Rightarrow> unit res \<times> server" where
  "server_AddVHost v s =
     at_listener (vhost_ListenerName v) (lis_AddVHost v)
       (Err (''listener '' @ vhost_ListenerName v @ '' is not existed'')) s"

definition RemoveVHostFromListener :: "string \<Rightarrow> string \<Rightarrow> server \<Rightarrow> unit res \<times> server" where
  "RemoveVHostFromListener l v s = at_listener l (lis_RemoveVHost v) (Panic ''nil pointer'') s"

fun server_RemoveVHost :: "string \<Rightarrow> server \<Rightarrow> unit res \<times> server" where
  "server_RemoveVHost v [] = (Ok (), [])"
| "server_RemoveVHost v (l # ls) =
     (case lis_RemoveVHost v l of
        (Ok _, l) \<Rightarrow> let (r, ls) = server_RemoveVHost v ls in (r, l # ls)
      | (r, l) \<Rightarrow> (r, l # ls))"

definition server_UpdateVHost :: "server_vhost \<Rightarrow> server \<Rightarrow> unit res \<times> server" where
  "server_UpdateVHost v s = at_listener (vhost_ListenerName v) (lis_UpdateVHost v) (Ok ()) s"

text \<open>
  \<open>Run\<close>: each goroutine runs the listener that the variable of the loop holds when it comes to read it
  (the language version of the module is 1.16): its own or a later one.
\<close>

definition Run_may_start :: "server \<Rightarrow> nat list \<Rightarrow> bool" where
  "Run_may_start s js \<longleftrightarrow> length js = length s \<and> (\<forall>i < length s. i \<le> js ! i \<and> js ! i < length s)"

section \<open>Configurations of listeners\<close>

definition tryCompact :: "string \<Rightarrow> string option" where
  "tryCompact data = (case split_on (CHR '','') data of [] \<Rightarrow> None | x # _ \<Rightarrow> Some x)"

text \<open>\<open>json\<close> gives the type that a JSON text names; a factory has two parsers.\<close>

definition ParseListenerConfig ::
  "(string \<Rightarrow> string option) \<Rightarrow> (string \<Rightarrow> ((string \<Rightarrow> 'c res) \<times> (string \<Rightarrow> 'c res)) option) \<Rightarrow> string \<Rightarrow> 'c res" where
  "ParseListenerConfig json fac content =
     (case json content of
        Some t \<Rightarrow>
          (case fac t of None \<Rightarrow> Err (''unknown listener type: '' @ t) | Some (parseJson, _) \<Rightarrow> parseJson content)
      | None \<Rightarrow>
          (case tryCompact content of
             Some t \<Rightarrow>
               (case fac t of
                  None \<Rightarrow> Err (''unknown listener type: '' @ t)
                | Some (_, parseCompact) \<Rightarrow> parseCompact content)
           | None \<Rightarrow> Err (''invalid listener config: '' @ content)))"

record redisListenerConfig =
  rc_Name :: string
  rc_Type :: string
  rc_Endpoint :: string
  rc_TLSKey :: string
  rc_TLSCertificate :: string
  rc_IdleTimeout :: int64

definition opt_string :: "string list \<Rightarrow> nat \<Rightarrow> string" where
  "opt_string x i = (if i < length x then x ! i else '''')"

definition redis_ParseConfigCompact :: "(string \<Rightarrow> string) \<Rightarrow> string \<Rightarrow> redisListenerConfig res" where
  "redis_ParseConfigCompact perr input =
     (let x = split_on (CHR '','') input in
      if length x < 3 then Err (''invalid listener config: '' @ input @ '', at least 3 elements are needed'')
      else
        rbind (opt_int perr x ''IdleTimeout'' 5) (\<lambda>t.
          Ok \<lparr>rc_Name = x ! 1, rc_Type = x ! 0, rc_Endpoint = x ! 2, rc_TLSKey = opt_string x 3,
              rc_TLSCertificate = opt_string x 4, rc_IdleTimeout = t\<rparr>))"

section \<open>Manifests\<close>

record Manifest =
  mf_Main :: string
  mf_ServiceFile :: "string list"
  mf_Type :: string

definition path_Ext :: "string \<Rightarrow> string" where
  "path_Ext p =
     (let b = rev (takeWhile (\<lambda>c. c \<noteq> CHR ''/'') (rev p))
      in case last_index (CHR ''.'') b of None \<Rightarrow> '''' | Some i \<Rightarrow> drop i b)"

text \<open>
  \<open>dir\<close> is what \<open>filepath.Dir\<close> gives for the main file, \<open>walk\<close> the paths below it in the order of
  \<open>filepath.Walk\<close>, each with whether it cannot be read and whether it is a directory.
\<close>

definition NewManifestFromLocalDir :: "string \<Rightarrow> (string \<times> bool \<times> bool) list \<Rightarrow> string \<Rightarrow> string \<Rightarrow> Manifest res" where
  "NewManifestFromLocalDir dir walk mainPath t =
     (let relativeOffset = length dir + 1;
          files = map fst (filter (\<lambda>(path, err, isDir).
            \<not> err \<and> path \<noteq> mainPath \<and> \<not> isDir \<and> path_Ext path = ''.pl'') walk)
      in if length mainPath < relativeOffset \<or> (\<exists>p \<in> set files. length p < relativeOffset)
         then Panic ''slice bounds out of range''
         else Ok \<lparr>mf_Main = drop relativeOffset mainPath, mf_ServiceFile = map (drop relativeOffset) files, mf_Type = t\<rparr>)"

end
