(* ===== verification/RedisCategory.thy ===== *)
theory RedisCategory
  imports Prelude
begin

text \<open>
  The command categories of the Redis front end (\<open>redis/util/category.go\<close>): the tables of command
  names, the list of tables the package's \<open>init\<close> builds, and the look-ups on it.
\<close>

section \<open>Tables\<close>

definition RedisCommandBitmap :: nat where "RedisCommandBitmap = 0"
definition RedisCommandGeneric :: nat where "RedisCommandGeneric = 1"
definition RedisCommandGeo :: nat where "RedisCommandGeo = 2"
definition RedisCommandHash :: nat where "RedisCommandHash = 3"
definition RedisCommandHyperLogLog :: nat where "RedisCommandHyperLogLog = 4"
definition RedisCommandList :: nat where "RedisCommandList = 5"
definition RedisCommandPubSub :: nat where "RedisCommandPubSub = 6"
definition RedisCommandScript :: nat where "RedisCommandScript = 7"
definition RedisCommandSet :: nat where "RedisCommandSet = 8"
definition RedisCommandSortedSet :: nat where "RedisCommandSortedSet = 9"
definition RedisCommandStream :: nat where "RedisCommandStream = 10"
definition RedisCommandString :: nat where "RedisCommandString = 11"
definition RedisCommandTransaction :: nat where "RedisCommandTransaction = 12"
definition RedisCommandUnknown :: nat where "RedisCommandUnknown = 13"

lemmas command_tags = RedisCommandBitmap_def
  RedisCommandGeneric_def
  RedisCommandGeo_def
  RedisCommandHash_def
  RedisCommandHyperLogLog_def
  RedisCommandList_def
  RedisCommandPubSub_def
  RedisCommandScript_def
  RedisCommandSet_def
  RedisCommandSortedSet_def
  RedisCommandStream_def
  RedisCommandString_def
  RedisCommandTransaction_def
  RedisCommandUnknown_def

definition redisCommandBitmap :: "string list" where
  "redisCommandBitmap =
    [''BITCOUNT'', ''BITFIELD'', ''BITFIELD_RO'', ''BITOP'', ''BITOPS'', ''GETBIT'', ''SETBIT'']"

definition redisCommandGeneric :: "string list" where
  "redisCommandGeneric =
    [''COPY'', ''DEL'', ''DUMP'', ''EXISTS'', ''EXPIRE'', ''EXPIREAT'', ''EXPIRETIME'', ''KEYS'',
     ''MIGRATE'', ''MOVE'', ''OBJECT'', ''PERSISTENT'', ''PEXPIRE'', ''PEXPIREAT'', ''PEXPIRETIME'',
     ''PTTL'', ''RANDOMKEY'', ''RENAME'', ''RENAMENX'', ''RESTORE'', ''SCAN'', ''SORT'',
     ''SORT_RO'', ''TOUCH'', ''TTL'', ''TYPE'', ''UNLINK'', ''WAIT'']"

definition redisCommandGeo :: "string list" where
  "redisCommandGeo =
    [''GEOADD'', ''GEODIST'', ''GEOHASH'', ''GEOPOS'', ''GEORADIUS'', ''GEORADIUS_RO'',
     ''GEORADIUSBYMEMBER'', ''GEORADIUSBYMEMBER_RO'', ''GEOSERACH'', ''GEOSEARCHSTORE'']"

definition redisCommandHash :: "string list" where
  "redisCommandHash =
    [''HDEL'', ''HEXISTS'', ''HGET'', ''HGETALL'', ''HINCRBY'', ''HINCRBYFLOAT'', ''HKEYS'',
     ''HLEN'', ''HMGET'', ''HMSET'', ''HRANDFIELD'', ''HSCAN'', ''HSET'', ''HSETNX'', ''HSTRLEN'',
     ''HVALS'']"

definition redisCommandHyperLogLog :: "string list" where
  "redisCommandHyperLogLog =
    [''PFADD'', ''PFCOUNT'', ''PFDEBUG'', ''PFMERGE'', ''PFSELFTEST'']"

definition redisCommandList :: "string list" where
  "redisCommandList =
    [''BLMOVE'', ''BLMPOP'', ''BLPOP'', ''BRPOP'', ''BRPOPFLUSH'', ''LINDEX'', ''LINSERT'',
     ''LLEN'', ''LMOVE'', ''LMPOP'', ''LPOP'', ''LPOS'', ''LPUSH'', ''LPUSHX'', ''LRANGE'',
     ''LREM'', ''LSET'', ''LTRIM'', ''RPOP'', ''RPOPLPUSH'', ''RPUSH'', ''RPUSHX'']"

definition redisCommandPubSub :: "string list" where
  "redisCommandPubSub =
    [''PSUBSCRIBE'', ''PUBLISH'', ''PUBSUB'', ''PUNSUBSCRIBE'', ''SPUBLISH'', ''SSUBSCRIBE'',
     ''SUBSCRIBE'', ''SUNSUBSCRIBE'', ''UNSUBSCRIBE'']"

definition redisCommandScript :: "string list" where
  "redisCommandScript =
    [''EVAL'', ''EVAL_RO'', ''EVALSHA'', ''EVALSHA_RO'', ''FCALL'', ''FCALL_RO'', ''FUNCTION'',
     ''SCRIPT'']"

definition redisCommandSet :: "string list" where
  "redisCommandSet =
    [''SADD'', ''SCARD'', ''SDIFF'', ''SDIFFSTORE'', ''SINTER'', ''SINTERCARD'', ''SINTERSTORE'',
     ''SISMEMBER'', ''SMEMEBERS'', ''SMISMEMBER'', ''SMOVE'', ''SPOP'', ''SRANDMEMBER'', ''SREM'',
     ''SSCAN'', ''SUNION'', ''SUNIONSTORE'']"

definition redisCommandSortedSet :: "string list" where
  "redisCommandSortedSet =
    [''BZMPOP'', ''BZPOPMAX'', ''BZPOPMIN'', ''ZADD'', ''ZCARD'', ''ZCOUNT'', ''ZDIFF'',
     ''ZDIFFSTORE'', ''ZINCRBY'', ''ZINTER'', ''ZINTERCARD'', ''ZINTERSTORE'', ''ZLEXCOUNT'',
     ''ZMPOP'', ''ZMSCORE'', ''ZPOPMAX'', ''ZPOPMIN'', ''ZRANDMEMBER'', ''ZRANGE'', ''ZRANGEBYLEX'',
     ''ZRANGEBYSCORE'', ''ZRANGESTORE'', ''ZRANK'', ''ZREM'', ''ZREMRANGEBYLEX'',
     ''ZREMRANGEBYRANK'', ''ZREMRANGEBYSCORE'', ''ZREVRANGE'', ''ZREVRANGEBYLEX'',
     ''ZREVRANGEBYSCORE'', ''ZREVRANK'', ''ZSCAN'', ''ZSCORE'', ''ZUNION'', ''ZUNIONSTORE'']"

definition redisCommandStream :: "string list" where
  "redisCommandStream =
    [''XACK'', ''XADD'', ''XAUTOCLAIM'', ''XCLAIM'', ''XDEL'', ''XGROUP'', ''XINFO'', ''XLEN'',
     ''XPENDING'', ''XRANGE'', ''XREAD'', ''XREADGROUP'', ''XREVRANGE'', ''XSETID'', ''XTRIM'']"

definition redisCommandString :: "string list" where
  "redisCommandString =
    [''APPEND'', ''DECR'', ''DECRBY'', ''GET'', ''GETDEL'', ''GETEX'', ''GETRANGE'', ''GETSET'',
     ''INCR'', ''INCRBY'', ''INCRBYFLOAT'', ''LCS'', ''MGET'', ''MSET'', ''MSETNX'', ''PSETEX'',
     ''SET'', ''SETEX'', ''SETNX'', ''SETRANGE'', ''STRLEN'', ''SUBSTR'']"

definition redisCommandTransaction :: "string list" where
  "redisCommandTransaction =
    [''DISCARD'', ''EXEC'', ''MULTI'', ''UNWATCH'', ''WATCH'']"

lemmas command_tables = redisCommandBitmap_def
  redisCommandGeneric_def
  redisCommandGeo_def
  redisCommandHash_def
  redisCommandHyperLogLog_def
  redisCommandList_def
  redisCommandPubSub_def
  redisCommandScript_def
  redisCommandSet_def
  redisCommandSortedSet_def
  redisCommandString_def
  redisCommandStream_def
  redisCommandTransaction_def

text \<open>The list \<open>init\<close> fills by appending, a table and its tag at a time.\<close>

definition commandInfoMapList :: "(string list \<times> nat) list" where
  "commandInfoMapList =
    [(redisCommandBitmap, RedisCommandBitmap),
     (redisCommandGeneric, RedisCommandGeneric),
     (redisCommandGeo, RedisCommandGeo),
     (redisCommandHash, RedisCommandHash),
     (redisCommandHyperLogLog, RedisCommandHyperLogLog),
     (redisCommandList, RedisCommandList),
     (redisCommandPubSub, RedisCommandPubSub),
     (redisCommandScript, RedisCommandScript),
     (redisCommandSet, RedisCommandSet),
     (redisCommandSortedSet, RedisCommandSortedSet),
     (redisCommandString, RedisCommandString),
     (redisCommandStream, RedisCommandStream),
     (redisCommandTransaction, RedisCommandTransaction)]"

section \<open>Look-up\<close>

fun category_loop :: "(string list \<times> nat) list \<Rightarrow> string \<Rightarrow> nat" where
  "category_loop [] name = RedisCommandUnknown"
| "category_loop ((infoMap, tag) # xs) name = (if name \<in> set infoMap then tag else category_loop xs name)"

definition CommandCategory :: "string \<Rightarrow> nat" where
  "CommandCategory name = category_loop commandInfoMapList name"

definition RedisCommandTypeName :: "nat \<Rightarrow> string" where
  "RedisCommandTypeName t =
     (if t = RedisCommandBitmap then ''bitmap''
      else if t = RedisCommandGeneric then ''generic''
      else if t = RedisCommandGeo then ''geo''
      else if t = RedisCommandHash then ''hash''
      else if t = RedisCommandHyperLogLog then ''hyper_log_log''
      else if t = RedisCommandList then ''list''
      else if t = RedisCommandPubSub then ''pubsub''
      else if t = RedisCommandScript then ''script''
      else if t = RedisCommandSet then ''set''
      else if t = RedisCommandSortedSet then ''sorted_set''
      else if t = RedisCommandStream then ''stream''
      else if t = RedisCommandString then ''string''
      else if t = RedisCommandTransaction then ''transaction''
      else ''unknown'')"

definition CommandCategoryName :: "string \<Rightarrow> string" where
  "CommandCategoryName name = RedisCommandTypeName (CommandCategory name)"

definition CommandIsBitmap :: "string \<Rightarrow> bool" where
  "CommandIsBitmap name \<longleftrightarrow> CommandCategory name = RedisCommandBitmap"

definition CommandIsGeneric :: "string \<Rightarrow> bool" where
  "CommandIsGeneric name \<longleftrightarrow> CommandCategory name = RedisCommandGeneric"

definition CommandIsGeo :: "string \<Rightarrow> bool" where
  "CommandIsGeo name \<longleftrightarrow> CommandCategory name = RedisCommandGeo"

definition CommandIsHash :: "string \<Rightarrow> bool" where
  "CommandIsHash name \<longleftrightarrow> CommandCategory name = RedisCommandHash"

definition CommandIsHyperLogLog :: "string \<Rightarrow> bool" where
  "CommandIsHyperLogLog name \<longleftrightarrow> CommandCategory name = RedisCommandHyperLogLog"

definition CommandIsList :: "string \<Rightarrow> bool" where
  "CommandIsList name \<longleftrightarrow> CommandCategory name = RedisCommandList"

definition CommandIsPubSub :: "string \<Rightarrow> bool" where
  "CommandIsPubSub name \<longleftrightarrow> CommandCategory name = RedisCommandPubSub"

definition CommandIsScript :: "string \<Rightarrow> bool" where
  "CommandIsScript name \<longleftrightarrow> CommandCategory name = RedisCommandScript"

definition CommandIsSet :: "string \<Rightarrow> bool" where
  "CommandIsSet name \<longleftrightarrow> CommandCategory name = RedisCommandSet"

definition CommandIsSortedSet :: "string \<Rightarrow> bool" where
  "CommandIsSortedSet name \<longleftrightarrow> CommandCategory name = RedisCommandSortedSet"

definition CommandIsString :: "string \<Rightarrow> bool" where
  "CommandIsString name \<longleftrightarrow> CommandCategory name = RedisCommandString"

definition CommandIsStream :: "string \<Rightarrow> bool" where
  "CommandIsStream name \<longleftrightarrow> CommandCategory name = RedisCommandStream"

definition CommandIsTransaction :: "string \<Rightarrow> bool" where
  "CommandIsTransaction name \<longleftrightarrow> CommandCategory name = RedisCommandTransaction"

text \<open>The test for unknown names compares with the wrong tag.\<close>

definition CommandIsUnknown :: "string \<Rightarrow> bool" where
  "CommandIsUnknown name \<longleftrightarrow> CommandCategory name = RedisCommandTransaction"

section \<open>Facts\<close>

text \<open>No name is in two tables.\<close>

lemma tables_distinct: "distinct (concat (map fst commandInfoMapList))"
  unfolding commandInfoMapList_def command_tables by code_simp

lemma tags_distinct: "distinct (map snd commandInfoMapList)" "RedisCommandUnknown \<notin> set (map snd commandInfoMapList)"
  by code_simp+

lemma category_loop_iff:
  "distinct (concat (map fst l)) \<Longrightarrow> distinct (map snd l) \<Longrightarrow> RedisCommandUnknown \<notin> set (map snd l) \<Longrightarrow>
   category_loop l name = tag \<longleftrightarrow>
     (\<exists>tbl. (tbl, tag) \<in> set l \<and> name \<in> set tbl) \<or> tag = RedisCommandUnknown \<and> name \<notin> set (concat (map fst l))"
proof (induction l)
  case (Cons x l)
  obtain tbl t where x: "x = (tbl, t)" by (cases x)
  show ?case
  proof (cases "name \<in> set tbl")
    case True
    then have "name \<notin> set (concat (map fst l))" using Cons.prems(1) by (auto simp: x)
    then show ?thesis using True Cons.prems(3) by (auto simp: x)
  next
    case False
    then show ?thesis using Cons by (auto simp: x)
  qed
qed auto

text \<open>
  the category of a Redis command is the tag of the table its name is in, whatever the order of
  the tables, because no name is in two of them; a name in none is unknown. But the predicate for
  unknown names answers yes exactly for the commands of the transaction table.
\<close>

theorem command_category:
  "(CommandCategory name = tag \<longleftrightarrow>
     (\<exists>tbl. (tbl, tag) \<in> set commandInfoMapList \<and> name \<in> set tbl) \<or>
     tag = RedisCommandUnknown \<and> name \<notin> set (concat (map fst commandInfoMapList))) \<and>
   (CommandIsUnknown name \<longleftrightarrow> name \<in> set redisCommandTransaction)"
proof
  show c: "CommandCategory name = tag \<longleftrightarrow>
     (\<exists>tbl. (tbl, tag) \<in> set commandInfoMapList \<and> name \<in> set tbl) \<or>
     tag = RedisCommandUnknown \<and> name \<notin> set (concat (map fst commandInfoMapList))" for tag
    unfolding CommandCategory_def by (rule category_loop_iff [OF tables_distinct tags_distinct])
  show "CommandIsUnknown name \<longleftrightarrow> name \<in> set redisCommandTransaction"
    unfolding CommandIsUnknown_def c by (simp add: commandInfoMapList_def command_tags)
qed

end
