(* ===== verification/RedisRuntime.thy ===== *)
theory RedisRuntime
  imports Server RedisCategory
begin

text \<open>
  Redis virtual hosts (\<open>redis/\<close>): the command and connection objects that scripts hold
  (\<open>runtime/command.go\<close>, \<open>connection.go\<close>), the handler of the events of a connection
  (\<open>vhost/service_handler.go\<close>), the configuration and the listener's callbacks (\<open>vhost/vhost.go\<close>,
  \<open>listener.go\<close>). A connection of the package \<open>redcon\<close> is the list of the calls made on it.
\<close>

section \<open>Commands\<close>

record command =
  cm_args :: "string list"
  cm_name :: string

definition CommandTypeId :: string where "CommandTypeId = ''redis.command''"
definition ConnTypeId :: string where "ConnTypeId = ''redis.conn''"

text \<open>A command of the connection is its arguments; the first one is its name.\<close>

definition newCommand :: "'w oenv \<Rightarrow> string list \<Rightarrow> command res" where
  "newCommand env raw =
     (case raw of
        [] \<Rightarrow> Panic ''slice bounds out of range''
      | a # as \<Rightarrow> Ok \<lparr>cm_args = as, cm_name = str_map (oe_upper env) a\<rparr>)"

definition ArgumentSize :: "command \<Rightarrow> nat" where
  "ArgumentSize c = length (cm_args c)"

definition command_property :: "command \<Rightarrow> string \<Rightarrow> val option" where
  "command_property c prop =
     (if prop = ''length'' then Some (VInt (word_of_nat (ArgumentSize c)))
      else if prop = ''command'' then Some (VStr (cm_name c))
      else if prop = ''category'' then Some (VStr (CommandCategoryName (cm_name c)))
      else None)"

definition command_Index :: "command \<Rightarrow> val \<Rightarrow> val res" where
  "command_Index c key =
     (let bad = Err (CommandTypeId @ '' index: invalid index'') in
      case key of
        VInt _ \<Rightarrow>
          rbind (with_err (\<lambda>e. CommandTypeId @ '' index: invalid index '' @ e) (ToIndex key)) (\<lambda>idx.
            if ArgumentSize c \<le> idx then Err (CommandTypeId @ '' index: index out of range'')
            else Ok (VStr (cm_args c ! idx)))
      | VStr s \<Rightarrow> (case command_property c s of Some v \<Rightarrow> Ok v | None \<Rightarrow> bad)
      | _ \<Rightarrow> bad)"

definition command_IndexSet :: "command \<Rightarrow> unit res" where
  "command_IndexSet c = Err (CommandTypeId @ '' index set: unsupported operation'')"

definition command_Dot :: "command \<Rightarrow> string \<Rightarrow> val res" where
  "command_Dot c name =
     (case command_property c name of
        Some v \<Rightarrow> Ok v
      | None \<Rightarrow> Err (CommandTypeId @ '' dot: unsupported operation''))"

definition command_DotSet :: "command \<Rightarrow> unit res" where
  "command_DotSet c = Err (CommandTypeId @ '' dot set: unsupported operation'')"

definition command_ToString :: "command \<Rightarrow> string" where
  "command_ToString c = str_join '','' (cm_args c)"

definition command_toindex :: "command \<Rightarrow> string \<Rightarrow> val \<Rightarrow> nat res" where
  "command_toindex c name a =
     rbind (with_err (\<lambda>e. CommandTypeId @ '' method '' @ name @ '': invalid index '' @ e) (ToIndex a)) (\<lambda>v.
       if ArgumentSize c \<le> v then Err (CommandTypeId @ '' method '' @ name @ '': index out of range'') else Ok v)"

text \<open>\<open>parse\<close> is \<open>strconv.ParseFloat\<close>. The message of \<open>asReal\<close> names another method.\<close>

definition command_Method ::
  "'w oenv \<Rightarrow> 'w store \<Rightarrow> (string \<Rightarrow> fl option) \<Rightarrow> command \<Rightarrow> string \<Rightarrow> val list \<Rightarrow> val res" where
  "command_Method env st parse c name arg =
     (let check = (\<lambda>d. check_args env st (''redis.command.'' @ name) d arg);
          is = (\<lambda>p. rbind (check ''%0'') (\<lambda>_. Ok (VBool (p (cm_name c)))));
          argat = (\<lambda>f. rbind (check ''%d'') (\<lambda>_. rbind (command_toindex c name (arg ! 0)) (\<lambda>i. f (cm_args c ! i))))
      in if name = ''isBitmap'' then is CommandIsBitmap
      else if name = ''isGeneric'' then is CommandIsGeneric
      else if name = ''isGeo'' then is CommandIsGeo
      else if name = ''isHash'' then is CommandIsHash
      else if name = ''isHyperLogLog'' then is CommandIsHyperLogLog
      else if name = ''isList'' then is CommandIsList
      else if name = ''isPubSub'' then is CommandIsPubSub
      else if name = ''isScript'' then is CommandIsScript
      else if name = ''isSet'' then is CommandIsSet
      else if name = ''isSortedSet'' then is CommandIsSortedSet
      else if name = ''isString'' then is CommandIsString
      else if name = ''isStream'' then is CommandIsStream
      else if name = ''isTransaction'' then is CommandIsTransaction
      else if name = ''isUnknown'' then is CommandIsUnknown
      else if name = ''asString'' then argat (\<lambda>s. Ok (VStr s))
      else if name = ''asInt'' then
        argat (\<lambda>s. case Atoi s of Some i \<Rightarrow> Ok (VInt (word_of_int i))
                 | None \<Rightarrow> Err (CommandTypeId @ '' method asInt: cannot convert to int''))
      else if name = ''asReal'' then
        argat (\<lambda>s. case parse s of Some r \<Rightarrow> Ok (VReal r)
                 | None \<Rightarrow> Err (CommandTypeId @ '' method asInt: cannot convert to real''))
      else if name = ''asBool'' then
        argat (\<lambda>s. if s = ''true'' then Ok (VBool True) else if s = ''false'' then Ok (VBool False)
                 else Err (CommandTypeId @ '' method asBool: cannot convert '' @ s @ '' to bool''))
      else Err (CommandTypeId @ '' method '' @ name @ '': unknown method''))"

record commanditer =
  ci_c :: command
  ci_cursor :: nat

definition ci_Has :: "commanditer \<Rightarrow> bool" where
  "ci_Has i \<longleftrightarrow> ci_cursor i < ArgumentSize (ci_c i)"

definition ci_Next :: "commanditer \<Rightarrow> bool \<times> commanditer" where
  "ci_Next i = (let i = i\<lparr>ci_cursor := ci_cursor i + 1\<rparr> in (ci_Has i, i))"

definition ci_Deref :: "commanditer \<Rightarrow> (val \<times> val) res" where
  "ci_Deref i =
     (if \<not> ci_Has i then Err ''iterator out of bound''
      else Ok (VInt (word_of_nat (ci_cursor i)), VStr (cm_args (ci_c i) ! ci_cursor i)))"

definition command_NewIterator :: "command \<Rightarrow> commanditer" where
  "command_NewIterator c = \<lparr>ci_c = c, ci_cursor = 0\<rparr>"

section \<open>Connections\<close>

datatype rcall =
    WriteError string | WriteString string | WriteInt int64 | WriteInt64 int64 | WriteUint64 int64
  | WriteArray nat | WriteBulkString string | WriteNull | CloseConn

text \<open>\<open>close\<close> is the error of closing the connection.\<close>

record rconn =
  cn_RemoteAddr :: string
  cn_close :: "string option"
  cn_calls :: "rcall list"

definition call :: "rcall \<Rightarrow> rconn \<Rightarrow> rconn" where
  "call x c = c\<lparr>cn_calls := cn_calls c @ [x]\<rparr>"

fun write_elements :: "'w oenv \<Rightarrow> 'w store \<Rightarrow> nat \<Rightarrow> nat list \<Rightarrow> rconn \<Rightarrow> val res \<times> rconn" where
  "write_elements env st l [] c = (Ok VNull, c)"
| "write_elements env st l (i # is) c =
     rlift (List_At l i st) c (\<lambda>v c.
       case v_ToString env st v of
         Ok s \<Rightarrow> write_elements env st l is (call (WriteBulkString s) c)
       | Err _ \<Rightarrow> (Err (ConnTypeId @ '' method writeList: '' @ int_dec (int i) @ ''th element is not string''), c)
       | Panic p \<Rightarrow> (Panic p, c)
       | Diverge \<Rightarrow> (Diverge, c))"

text \<open>
  The checks of three methods carry the name of \<open>writeInt\<close>; the error of \<open>writeNull\<close>'s check is dropped,
  and nothing is written then.
\<close>

definition conn_Method :: "'w oenv \<Rightarrow> 'w store \<Rightarrow> string \<Rightarrow> val list \<Rightarrow> rconn \<Rightarrow> val res \<times> rconn" where
  "conn_Method env st name arg c =
     (let check = (\<lambda>n d f. rlift (check_args env st (''redis.conn.'' @ n) d arg) c (\<lambda>_ c. f c));
          write = (\<lambda>x c. (Ok VNull, call x c));
          str = (\<lambda>f c. rlift (v_String (arg ! 0)) c (\<lambda>s. write (f s)));
          num = (\<lambda>f c. rlift (v_Int (arg ! 0)) c (\<lambda>i. f i))
      in if name = ''remoteAddr'' then check ''remoteAddr'' ''%0'' (\<lambda>c. (Ok (VStr (cn_RemoteAddr c)), c))
      else if name = ''close'' then
        check ''close'' ''%0'' (\<lambda>c.
          (case cn_close c of None \<Rightarrow> Ok VNull | Some e \<Rightarrow> Err e, call CloseConn c))
      else if name = ''writeError'' then check ''writeError'' ''%s'' (str WriteError)
      else if name = ''writeString'' then check ''writeString'' ''%s'' (str WriteString)
      else if name = ''writeInt'' then check ''writeInt'' ''%d'' (num (\<lambda>i. write (WriteInt i)))
      else if name = ''writeInt64'' then check ''writeInt'' ''%d'' (num (\<lambda>i. write (WriteInt64 i)))
      else if name = ''writeUint64'' then
        check ''writeInt'' ''%d'' (num (\<lambda>i c.
          if sint i < 0 then (Err (ConnTypeId @ '' method writeUint64: value is negative''), c)
          else write (WriteUint64 i) c))
      else if name = ''writeNull'' then
        (case check_args env st ''redis.conn.writeNull'' ''%0'' arg of
           Ok _ \<Rightarrow> write WriteNull c
         | Err _ \<Rightarrow> (Ok VNull, c)
         | Panic p \<Rightarrow> (Panic p, c)
         | Diverge \<Rightarrow> (Diverge, c))
      else if name = ''writeList'' then
        check ''writeList'' ''%l'' (\<lambda>c.
          case arg ! 0 of
            VList l \<Rightarrow>
              rlift (List_Length st l) c (\<lambda>n c. write_elements env st l [0..<n] (call (WriteArray n) c))
          | _ \<Rightarrow> (Panic ''must: must be list'', c))
      else (Err (ConnTypeId @ '' method '' @ name @ '': unknown method''), c))"

definition conn_Index :: "val res" where
  "conn_Index = Err (ConnTypeId @ '' index: unsupported operation'')"

definition conn_IndexSet :: "unit res" where
  "conn_IndexSet = Err (ConnTypeId @ '' index set: unsupported operation'')"

definition conn_DotSet :: "unit res" where
  "conn_DotSet = Err (ConnTypeId @ '' dot set: unsupported operation'')"

section \<open>Handlers\<close>

text \<open>
  The pool of handlers, which are numbered as they are made, and what one event works on: the
  connection, the objects of the scripts, the virtual host's HTTP clients and the ones in use.
\<close>

record handlerPool =
  rp_idle :: "nat list"
  rp_maxSize :: int

definition redis_newServicePool :: "int \<Rightarrow> handlerPool" where
  "redis_newServicePool cacheSize = \<lparr>rp_idle = [], rp_maxSize = (if cacheSize = 0 then 200 else cacheSize)\<rparr>"

definition rp_get :: "handlerPool \<Rightarrow> nat option \<times> handlerPool" where
  "rp_get s =
     (if rp_idle s = [] then (None, s) else (Some (last (rp_idle s)), s\<lparr>rp_idle := butlast (rp_idle s)\<rparr>))"

definition rp_put :: "nat \<Rightarrow> handlerPool \<Rightarrow> bool \<times> handlerPool" where
  "rp_put h s =
     (if int (length (rp_idle s)) + 1 \<ge> rp_maxSize s then (False, s)
      else (True, s\<lparr>rp_idle := rp_idle s @ [h]\<rparr>))"

record rsession =
  rk_conn :: rconn
  rk_st :: hstore
  rk_clients :: "HClient list"
  rk_pool :: HClientPool

datatype revent = NoContext | ErrorContext string | CommandContext command

text \<open>The module: whether it has a rule for an event, its session rule and its event rules.\<close>

record renv =
  re_env :: "hworld oenv"
  re_HasEvent :: "string \<Rightarrow> bool"
  re_init :: "rsession \<Rightarrow> unit res \<times> rsession"
  re_emit :: "string \<Rightarrow> revent \<Rightarrow> rsession \<Rightarrow> val res \<times> rsession"

definition redis_GetHttpClient :: "(string \<Rightarrow> URL res) \<Rightarrow> string \<Rightarrow> rsession \<Rightarrow> nat res \<times> rsession" where
  "redis_GetHttpClient parse url s =
     (let (r, p) = pool_Get parse url (rk_pool s); s = s\<lparr>rk_pool := p\<rparr>
      in rlift r s (\<lambda>c s. (Ok (length (rk_clients s)), s\<lparr>rk_clients := rk_clients s @ [c]\<rparr>)))"

definition redis_finish :: "rsession \<Rightarrow> rsession" where
  "redis_finish s =
     s\<lparr>rk_pool := fold (\<lambda>c p. snd (pool_Put c p)) (rk_clients s) (rk_pool s), rk_clients := []\<rparr>"

text \<open>What is deferred runs also when the event panicked.\<close>

definition redis_deferred :: "'a res \<times> rsession \<Rightarrow> 'a res \<times> rsession" where
  "redis_deferred x = (case x of (Diverge, s) \<Rightarrow> (Diverge, s) | (r, s) \<Rightarrow> (r, redis_finish s))"

definition redis_err :: "string \<Rightarrow> string \<Rightarrow> rsession \<Rightarrow> rsession" where
  "redis_err event e s = s\<lparr>rk_conn := call (WriteError (''Runtime('' @ event @ '') error: '' @ e)) (rk_conn s)\<rparr>"

text \<open>An error is told to the client, and the rest is left out.\<close>

definition or_tell :: "string \<Rightarrow> 'b \<Rightarrow> ('a \<Rightarrow> rsession \<Rightarrow> 'b res \<times> rsession) \<Rightarrow> 'a res \<times> rsession \<Rightarrow> 'b res \<times> rsession" where
  "or_tell event d f x =
     (case x of
        (Ok v, s) \<Rightarrow> f v s
      | (Err e, s) \<Rightarrow> (Ok d, redis_err event e s)
      | (Panic p, s) \<Rightarrow> (Panic p, s)
      | (Diverge, s) \<Rightarrow> (Diverge, s))"

definition redis_onEvent :: "renv \<Rightarrow> string list \<Rightarrow> rsession \<Rightarrow> unit res \<times> rsession" where
  "redis_onEvent re cmd s =
     redis_deferred
       (rlift (newCommand (re_env re) cmd) s (\<lambda>c s.
          let cmdEvent = ''redis.'' @ cm_name c in
          or_tell ''@init'' ()
            (\<lambda>_ s. or_tell cmdEvent () (\<lambda>_ s. (Ok (), s))
               (re_emit re (if re_HasEvent re cmdEvent then cmdEvent else ''redis.*'') (CommandContext c) s))
            (re_init re s)))"

definition redis_onAccept :: "renv \<Rightarrow> rsession \<Rightarrow> bool res \<times> rsession" where
  "redis_onAccept re s =
     redis_deferred
       (or_tell ''@init'' False
          (\<lambda>_ s. or_tell ''redis.@accept'' False
             (\<lambda>v s. (Ok (case v of VBool b \<Rightarrow> b | _ \<Rightarrow> True), s)) (re_emit re ''redis.@accept'' NoContext s))
          (re_init re s))"

definition redis_onClose :: "renv \<Rightarrow> string option \<Rightarrow> rsession \<Rightarrow> unit res \<times> rsession" where
  "redis_onClose re connErr s =
     redis_deferred
       (or_tell ''@init'' ()
          (\<lambda>_ s. or_tell ''redis.@close'' () (\<lambda>_ s. (Ok (), s))
             (re_emit re ''redis.@close'' (case connErr of None \<Rightarrow> NoContext | Some e \<Rightarrow> ErrorContext e) s))
          (re_init re s))"

text \<open>
  A virtual host takes a handler from the pool, or makes one, for every event; a handler keeps nothing
  that a later event could see.
\<close>

definition redis_getServiceHandler :: "nat \<Rightarrow> handlerPool \<Rightarrow> nat \<times> handlerPool" where
  "redis_getServiceHandler fresh p = (case rp_get p of (Some h, p) \<Rightarrow> (h, p) | (None, p) \<Rightarrow> (fresh, p))"

definition OnEvent :: "renv \<Rightarrow> nat \<Rightarrow> string list \<Rightarrow> handlerPool \<Rightarrow> rsession \<Rightarrow> (unit res \<times> rsession) \<times> handlerPool" where
  "OnEvent re fresh cmd p s = (let (h, p) = redis_getServiceHandler fresh p in (redis_onEvent re cmd s, p))"

definition OnAccept :: "renv \<Rightarrow> nat \<Rightarrow> handlerPool \<Rightarrow> rsession \<Rightarrow> (bool res \<times> rsession) \<times> handlerPool" where
  "OnAccept re fresh p s = (let (h, p) = redis_getServiceHandler fresh p in (redis_onAccept re s, p))"

definition OnClose ::
  "renv \<Rightarrow> nat \<Rightarrow> string option \<Rightarrow> handlerPool \<Rightarrow> rsession \<Rightarrow> (unit res \<times> rsession) \<times> handlerPool" where
  "OnClose re fresh e p s = (let (h, p) = redis_getServiceHandler fresh p in (redis_onClose re e s, p))"

text \<open>
  The callbacks of a listener; \<open>vh\<close> is what runs the event on a virtual host. Without one the client is
  told so.
\<close>

definition listener_onEvent ::
  "server_vhost option \<Rightarrow> (redis_hosted \<Rightarrow> rconn \<Rightarrow> unit res \<times> rconn) \<Rightarrow> rconn \<Rightarrow> unit res \<times> rconn" where
  "listener_onEvent p vh c =
     rlift (redis_vhs p) c (\<lambda>v c.
       case v of Some x \<Rightarrow> vh x c
       | None \<Rightarrow> (Ok (), call CloseConn (call (WriteError ''redis_vhost is not setup'') c)))"

definition listener_onAccept ::
  "server_vhost option \<Rightarrow> (redis_hosted \<Rightarrow> rconn \<Rightarrow> bool res \<times> rconn) \<Rightarrow> rconn \<Rightarrow> bool res \<times> rconn" where
  "listener_onAccept p vh c =
     rlift (redis_vhs p) c (\<lambda>v c.
       case v of Some x \<Rightarrow> vh x c | None \<Rightarrow> (Ok False, call (WriteError ''redis_vhost is not setup'') c))"

definition listener_onClose ::
  "server_vhost option \<Rightarrow> (redis_hosted \<Rightarrow> rconn \<Rightarrow> unit res \<times> rconn) \<Rightarrow> rconn \<Rightarrow> unit res \<times> rconn" where
  "listener_onClose p vh c =
     rlift (redis_vhs p) c (\<lambda>v c. case v of Some x \<Rightarrow> vh x c | None \<Rightarrow> (Ok (), c))"

section \<open>Configuration\<close>

record redisVHostConfig =
  rvc_Name :: string
  rvc_Comment :: string
  rvc_Listener :: string
  rvc_LogFormat :: string
  rvc_SessionCacheSize :: int64
  rvc_HttpClientPoolMaxSize :: int64
  rvc_HttpClientPoolTimeout :: int64
  rvc_HttpClientPoolMaxDrainSize :: int64

record redisVHost =
  rvh_Config :: redisVHostConfig
  rvh_LogFormat :: Format
  rvh_clientPool :: HClientPool
  rvh_servicePool :: handlerPool

definition redis_Compose :: "redisVHostConfig \<Rightarrow> redisVHost res" where
  "redis_Compose config =
     rbind (CompileFormat (NotZeroStr (rvc_LogFormat config) VHostLogFormat)) (\<lambda>logf.
       Ok \<lparr>rvh_Config = config, rvh_LogFormat = logf,
           rvh_clientPool =
             NewHClientPool (rvc_Name config) (sint (NotZeroInt64 (rvc_HttpClientPoolMaxSize config) 256))
               (sint (NotZeroInt64 (rvc_HttpClientPoolTimeout config) 30))
               (sint (NotZeroInt64 (rvc_HttpClientPoolMaxDrainSize config) 4096)),
           rvh_servicePool = redis_newServicePool (sint (rvc_SessionCacheSize config))\<rparr>)"

record redisConfigBuilder =
  rb_configPush :: bool
  rb_config :: redisVHostConfig

definition redis_PushConfig :: "string \<Rightarrow> redisConfigBuilder \<Rightarrow> unit res \<times> redisConfigBuilder" where
  "redis_PushConfig name x =
     (if rb_configPush x then (Err ''redis_vhost: nested config scope is not allowed'', x)
      else if name \<noteq> ''redis_vhost'' then
        (Err ''redis_vhost config: unknown config type, expect redis_vhost'', x)
      else (Ok (), x\<lparr>rb_configPush := True\<rparr>))"

definition redis_PopConfig :: "redisConfigBuilder \<Rightarrow> unit res \<times> redisConfigBuilder" where
  "redis_PopConfig x = (Ok (), x\<lparr>rb_configPush := False\<rparr>)"

definition rb_set :: "'a res \<Rightarrow> ('a \<Rightarrow> redisVHostConfig \<Rightarrow> redisVHostConfig) \<Rightarrow> redisConfigBuilder \<Rightarrow> unit res \<times> redisConfigBuilder" where
  "rb_set r f x = rlift r x (\<lambda>v x. (Ok (), x\<lparr>rb_config := f v (rb_config x)\<rparr>))"

definition redis_ConfigProperty ::
  "hworld oenv \<Rightarrow> hstore \<Rightarrow> string \<Rightarrow> val \<Rightarrow> redisConfigBuilder \<Rightarrow> unit res \<times> redisConfigBuilder" where
  "redis_ConfigProperty env st key value x =
     (let str = propSetString env st value; num = propSetInt64 value in
      if \<not> rb_configPush x then (Err ''config property must be inside of redis_vhost scope'', x)
      else if key = ''name'' then rb_set (str ''redis_vhost.name'') (\<lambda>v. rvc_Name_update (\<lambda>_. v)) x
      else if key = ''comment'' then rb_set (str ''redis_vhost.comment'') (\<lambda>v. rvc_Comment_update (\<lambda>_. v)) x
      else if key = ''listener'' then rb_set (str ''redis_vhost.listener'') (\<lambda>v. rvc_Listener_update (\<lambda>_. v)) x
      else if key = ''log_format'' then rb_set (str ''redis_vhost.LogFormat'') (\<lambda>v. rvc_LogFormat_update (\<lambda>_. v)) x
      else if key = ''session_cache_size'' then
        rb_set (propSetInt value ''redis_vhost.SessionCacheSize'') (\<lambda>v. rvc_SessionCacheSize_update (\<lambda>_. v)) x
      else if key = ''http_client_pool_max_size'' then
        rb_set (num ''redis_vhost.HttpClientPoolMaxSize'') (\<lambda>v. rvc_HttpClientPoolMaxSize_update (\<lambda>_. v)) x
      else if key = ''http_client_pool_timeout'' then
        rb_set (num ''redis_vhost.HttpClientPoolTimeout'') (\<lambda>v. rvc_HttpClientPoolTimeout_update (\<lambda>_. v)) x
      else if key = ''http_client_pool_max_drain_size'' then
        rb_set (num ''redis_vhost.HttpClientPoolMaxDrainSize'')
          (\<lambda>v. rvc_HttpClientPoolMaxDrainSize_update (\<lambda>_. v)) x
      else (Err (''redis_vhost: unknown property: '' @ key), x))"

definition redis_ConfigCommand :: "string \<Rightarrow> redisConfigBuilder \<Rightarrow> unit res \<times> redisConfigBuilder" where
  "redis_ConfigCommand key x = (Err (''redis_vhost: unknown command '' @ key), x)"

end
