(* ===== verification/ServerProps.thy ===== *)
theory ServerProps
  imports Server
begin

text \<open>
  What the server keeps of its listeners: consistent tables and virtual hosts of the right kind. The
  contract of a listener is a locale, which both kinds of listener satisfy for virtual hosts of their
  own kind.
\<close>

definition panics :: "'a res \<Rightarrow> bool" where
  "panics r \<longleftrightarrow> (\<exists>p. r = Panic p)"

lemma panics_simps [simp]: "panics (Panic p)" "\<not> panics (Ok x)" "\<not> panics (Err e)"
  by (simp_all add: panics_def)

section \<open>The contract of a listener\<close>

locale listener_contract =
  fixes inv :: "'s \<Rightarrow> bool" and takes :: "server_vhost \<Rightarrow> bool"
    and add upd :: "server_vhost \<Rightarrow> 's \<Rightarrow> unit res \<times> 's" and mount :: "'s \<Rightarrow> listener"
  assumes add_keeps: "inv s \<Longrightarrow> takes v \<Longrightarrow> inv (snd (add v s)) \<and> \<not> panics (fst (add v s))"
    and add_is: "takes v \<Longrightarrow> lis_AddVHost v (mount s) = (fst (add v s), mount (snd (add v s)))"
    and upd_is: "takes v \<Longrightarrow> lis_UpdateVHost v (mount s) = (fst (upd v s), mount (snd (upd v s)))"
    and upd_fine: "takes v \<Longrightarrow> \<not> panics (fst (upd v s))"
begin

lemma adds:
  assumes "inv s" "takes v" "lis_AddVHost v (mount s) = (r, l)"
  shows "\<exists>t. l = mount t \<and> inv t \<and> \<not> panics r"
  using add_keeps [OF assms(1,2)] add_is [OF assms(2), of s] assms(3) by auto

lemma updates: "takes v \<Longrightarrow> \<not> panics (fst (lis_UpdateVHost v (mount s)))"
  by (simp add: upd_is upd_fine)

end

definition is_http :: "server_vhost \<Rightarrow> bool" where
  "is_http v \<longleftrightarrow> vhost_ListenerType v = ''http''"

definition is_redis :: "server_vhost \<Rightarrow> bool" where
  "is_redis v \<longleftrightarrow> vhost_ListenerType v = ''redis''"

definition redis_ok :: "server_vhost option \<Rightarrow> bool" where
  "redis_ok p \<longleftrightarrow> (case p of None \<Rightarrow> True | Some v \<Rightarrow> is_redis v)"

lemma kinds: "is_http v \<longleftrightarrow> (\<exists>x. v = HttpVHost x)" "is_redis v \<longleftrightarrow> (\<exists>x. v = RedisVHost x)"
  by (cases v; simp add: is_http_def is_redis_def)+

text \<open>The operations of one kind, for virtual hosts of that kind.\<close>

definition http_add :: "server_vhost \<Rightarrow> vhostlist \<Rightarrow> unit res \<times> vhostlist" where
  "http_add v t = (case v of HttpVHost x \<Rightarrow> vl_add x t | RedisVHost _ \<Rightarrow> (Ok (), t))"

definition http_upd :: "server_vhost \<Rightarrow> vhostlist \<Rightarrow> unit res \<times> vhostlist" where
  "http_upd v t = (case v of HttpVHost x \<Rightarrow> (Ok (), vl_update x t) | RedisVHost _ \<Rightarrow> (Ok (), t))"

lemma vl_add_not_panics: "\<not> panics (fst (vl_add x t))"
  by (simp add: vl_add_def)

interpretation http: listener_contract vl_ok is_http http_add http_upd "HttpListener n"
  by unfold_locales
    (auto simp: kinds http_add_def http_upd_def as_http_def vl_add_ok vl_add_not_panics split: prod.split)

interpretation redis: listener_contract redis_ok is_redis redis_AddVHost "\<lambda>v p. (Ok (), redis_UpdateVHost v p)" "RedisListener n"
  by unfold_locales
    (auto simp: kinds redis_ok_def redis_AddVHost_def redis_vhs_def split: option.splits prod.split if_splits)

section \<open>The server\<close>

fun servable :: "listener \<Rightarrow> bool" where
  "servable (HttpListener n t) \<longleftrightarrow> vl_ok t"
| "servable (RedisListener n p) \<longleftrightarrow> redis_ok p"

lemma add_servable:
  assumes "servable l" "lis_Type l = vhost_ListenerType v" "lis_AddVHost v l = (r, l')"
  shows "servable l' \<and> \<not> panics r"
proof (cases l)
  case (HttpListener n t)
  then show ?thesis using http.adds [of t v n r l'] assms by (auto simp: is_http_def)
next
  case (RedisListener n p)
  then show ?thesis using redis.adds [of p v n r l'] assms by (auto simp: is_redis_def)
qed

lemma at_listener_some:
  assumes "getListener x s = Some l" "f l = (r, l')" "lis_Name l' = lis_Name l"
  shows "fst (at_listener x f none s) = r" "getListener x (snd (at_listener x f none s)) = Some l'"
    "list_all P s \<Longrightarrow> P l' \<Longrightarrow> list_all P (snd (at_listener x f none s))"
  using assms by (induction s) (auto split: if_splits prod.splits)

lemma add_name: "lis_Name (snd (lis_AddVHost v l)) = lis_Name l"
  by (cases "(v, l)" rule: lis_AddVHost.cases) (auto simp: as_http_def split: prod.split server_vhost.split)

lemma getListener_in: "getListener x s = Some l \<Longrightarrow> l \<in> set s"
  by (induction s) (auto split: if_splits)

lemma server_add_some:
  assumes "getListener (vhost_ListenerName v) s = Some l" "lis_AddVHost v l = (r, l')"
  shows "fst (server_AddVHost v s) = r" "getListener (vhost_ListenerName v) (snd (server_AddVHost v s)) = Some l'"
    "list_all servable s \<Longrightarrow> servable l' \<Longrightarrow> list_all servable (snd (server_AddVHost v s))"
proof -
  have name: "lis_Name l' = lis_Name l" using add_name [of v l] assms(2) by simp
  show "fst (server_AddVHost v s) = r" "getListener (vhost_ListenerName v) (snd (server_AddVHost v s)) = Some l'"
    "list_all servable s \<Longrightarrow> servable l' \<Longrightarrow> list_all servable (snd (server_AddVHost v s))"
    unfolding server_AddVHost_def by (rule at_listener_some [where f = "lis_AddVHost v", OF assms name]; assumption?)+
qed

lemma server_add_same:
  assumes "getListener (vhost_ListenerName v) s = Some l" "list_all servable s" "lis_Type l = vhost_ListenerType v"
  shows "list_all servable (snd (server_AddVHost v s)) \<and> \<not> panics (fst (server_AddVHost v s))"
proof -
  obtain r l' where a: "lis_AddVHost v l = (r, l')" by fastforce
  have "servable l" using assms(2) getListener_in [OF assms(1)] by (simp add: list_all_iff)
  then have "servable l' \<and> \<not> panics r" using assms(3) a by (rule add_servable)
  then show ?thesis using server_add_some(1,3) [OF assms(1) a] assms(2) by blast
qed

lemma server_add_http_panics:
  assumes "getListener (vhost_ListenerName v) s = Some l" "is_redis v" "lis_Type l = ''http''"
  shows "panics (fst (server_AddVHost v s))"
proof -
  obtain r l' where a: "lis_AddVHost v l = (r, l')" by fastforce
  then have "panics r" using assms(2,3) by (cases l) (auto simp: kinds as_http_def)
  then show ?thesis using server_add_some(1) [OF assms(1) a] by simp
qed

lemma server_add_redis_accepts:
  assumes "getListener (vhost_ListenerName v) s = Some (RedisListener n None)" "is_http v"
  shows "fst (server_AddVHost v s) = Ok ()"
    "getListener (vhost_ListenerName v) (snd (server_AddVHost v s)) = Some (RedisListener n (Some v))"
    "panics (redis_vhs (Some v))" "panics (fst (redis_AddVHost w (Some v)))"
proof -
  obtain x where v: "v = HttpVHost x" using \<open>is_http v\<close> unfolding kinds by blast
  have "lis_AddVHost v (RedisListener n None) = (Ok (), RedisListener n (Some v))"
    by (simp add: redis_AddVHost_def redis_vhs_def)
  from server_add_some(1,2) [OF assms(1) this]
  show "fst (server_AddVHost v s) = Ok ()"
    "getListener (vhost_ListenerName v) (snd (server_AddVHost v s)) = Some (RedisListener n (Some v))" by simp_all
  show "panics (redis_vhs (Some v))" "panics (fst (redis_AddVHost w (Some v)))"
    by (simp_all add: v redis_AddVHost_def redis_vhs_def)
qed

text \<open>A server with a listener of each kind, and virtual hosts that name the wrong ones.\<close>

definition s_two :: server where
  "s_two = [HttpListener ''web'' newvhostlist, RedisListener ''cache'' None]"

definition s_kv :: server_vhost where
  "s_kv = RedisVHost \<lparr>rv_id = 1, rv_Name = ''kv'', rv_Listener = ''web''\<rparr>"

definition s_page :: server_vhost where
  "s_page = HttpVHost \<lparr>vp_id = 1, vp_ServerName = ''a.com'', vp_Name = ''page'', vp_Listener = ''cache''\<rparr>"

section \<open>Removal\<close>

fun lists_vhost :: "string \<Rightarrow> listener \<Rightarrow> bool" where
  "lists_vhost x (HttpListener n t) \<longleftrightarrow> vl_get x t \<noteq> None"
| "lists_vhost x (RedisListener n p) \<longleftrightarrow> (\<exists>v. p = Some v \<and> vhost_Name v = x)"

definition has_empty :: "server \<Rightarrow> bool" where
  "has_empty s \<longleftrightarrow> (\<exists>n. RedisListener n None \<in> set s)"

lemma redis_RemoveVHost_eq:
  "redis_RemoveVHost n p =
     (case p of
        None \<Rightarrow> (Panic ''nil pointer'', None)
      | Some x \<Rightarrow> (Ok (), if vhost_Name x = n then None else Some x))"
  by (simp add: redis_RemoveVHost_def split: option.split)

lemma remove_one:
  "lis_RemoveVHost x l = (r, l') \<Longrightarrow>
     (panics r \<longleftrightarrow> (\<exists>n. l = RedisListener n None)) \<and> \<not> lists_vhost x l' \<and> (panics r \<or> r = Ok ())"
  by (cases l)
    (auto simp: redis_RemoveVHost_eq vl_remove_def vl_get_def split: option.splits prod.splits if_splits)

lemma remove_empties:
  "lis_RemoveVHost x (RedisListener n (Some v)) = (r, l') \<Longrightarrow> vhost_Name v = x \<Longrightarrow> l' = RedisListener n None"
  by (simp add: redis_RemoveVHost_eq)

lemma has_empty_Cons: "has_empty (l # s) \<longleftrightarrow> (\<exists>n. l = RedisListener n None) \<or> has_empty s"
  by (auto simp: has_empty_def)

lemma remove_panics: "panics (fst (server_RemoveVHost x s)) \<longleftrightarrow> has_empty s"
proof (induction s)
  case (Cons l s)
  obtain r l' where r: "lis_RemoveVHost x l = (r, l')" by fastforce
  show ?case
    using remove_one [OF r] Cons by (cases r) (auto simp: r has_empty_Cons split: prod.split)
qed (simp add: has_empty_def)

lemma remove_gone: "server_RemoveVHost x s = (Ok (), s') \<Longrightarrow> \<forall>l \<in> set s'. \<not> lists_vhost x l"
proof (induction s arbitrary: s')
  case (Cons l s)
  obtain r l' where r: "lis_RemoveVHost x l = (r, l')" by fastforce
  show ?case
    using remove_one [OF r] Cons by (cases r) (auto simp: r split: prod.splits)
qed simp

lemma remove_leaves_empty:
  "server_RemoveVHost x s = (Ok (), s') \<Longrightarrow> RedisListener n (Some v) \<in> set s \<Longrightarrow> vhost_Name v = x \<Longrightarrow> has_empty s'"
proof (induction s arbitrary: s')
  case (Cons l s)
  obtain r l' where r: "lis_RemoveVHost x l = (r, l')" by fastforce
  then have ok: "r = Ok ()" using remove_one [OF r] Cons.prems(1) by (cases r) (auto simp: r)
  obtain s1 where s1: "server_RemoveVHost x s = (Ok (), s1)" "s' = l' # s1"
    using Cons.prems(1) by (auto simp: r ok split: prod.splits)
  show ?case
  proof (cases "l = RedisListener n (Some v)")
    case True
    then show ?thesis using remove_empties [of x n v r l'] r Cons.prems(3) s1(2) by (auto simp: has_empty_Cons)
  next
    case False
    then show ?thesis using Cons.IH [OF s1(1)] Cons.prems(2,3) s1(2) by (auto simp: has_empty_Cons)
  qed
qed simp

text \<open>
  C22: Removing a virtual host from the server takes it off every listener, or panics, and it panics
  exactly if some Redis listener has no virtual host. So after the virtual host of a Redis listener is
  removed, no removal succeeds any more until the listener has another.
\<close>

theorem server_removal:
  "(panics (fst (server_RemoveVHost x s)) \<longleftrightarrow> has_empty s) \<and>
   (\<forall>s'. server_RemoveVHost x s = (Ok (), s') \<longrightarrow> (\<forall>l \<in> set s'. \<not> lists_vhost x l) \<and>
      (\<forall>n v. RedisListener n (Some v) \<in> set s \<and> vhost_Name v = x \<longrightarrow>
         (\<forall>y. panics (fst (server_RemoveVHost y s')))))"
  using remove_panics remove_gone remove_leaves_empty by blast

theorem server_removal_witness:
  "let s = [RedisListener ''cache'' (Some s_kv), HttpListener ''web'' newvhostlist];
     s' = [RedisListener ''cache'' None, HttpListener ''web'' newvhostlist]
   in server_RemoveVHost ''kv'' s = (Ok (), s') \<and> panics (fst (server_RemoveVHost ''page'' s'))"
proof -
  let ?s = "[RedisListener ''cache'' (Some s_kv), HttpListener ''web'' newvhostlist]"
  let ?t = "[RedisListener ''cache'' None, HttpListener ''web'' newvhostlist]"
  have kv: "vhost_Name s_kv = ''kv''" by (simp add: s_kv_def)
  then have run: "server_RemoveVHost ''kv'' ?s = (Ok (), ?t)"
    by (simp add: redis_RemoveVHost_eq vl_remove_def newvhostlist_def)
  have "\<forall>y. panics (fst (server_RemoveVHost y ?t))"
    using server_removal [of "''kv''" ?s] run kv by (metis list.set_intros(1))
  then show ?thesis using run by (simp only: Let_def)
qed

section \<open>Starting, configurations and manifests\<close>

text \<open>All goroutines may come to run the last listener; only the last is certain to run.\<close>

lemma Run_last_only: "s \<noteq> [] \<Longrightarrow> Run_may_start s (replicate (length s) (length s - 1))"
  by (auto simp: Run_may_start_def)

lemma Run_starts_last: "Run_may_start s js \<Longrightarrow> s \<noteq> [] \<Longrightarrow> length s - 1 \<in> set js"
  by (auto simp: Run_may_start_def in_set_conv_nth dest!: spec [of _ "length s - 1"] intro!: exI [of _ "length s - 1"])

text \<open>Text that is not JSON is always tried as a compact configuration: the last message is never given.\<close>

lemma split_on_nonempty: "split_on c s \<noteq> []"
  by (cases s) (auto split: list.split)

lemma tryCompact_some: "\<exists>t. tryCompact s = Some t"
  using split_on_nonempty [of "CHR '',''" s] by (auto simp: tryCompact_def neq_Nil_conv)

text \<open>
  A main file that is given without its directory loses its first two letters: the directory is a dot,
  which is no part of the path.
\<close>

lemma manifest_cuts_name:
  "length m \<ge> 2 \<Longrightarrow> NewManifestFromLocalDir ''.'' [(m, False, False)] m t =
     Ok \<lparr>mf_Main = drop 2 m, mf_ServiceFile = [], mf_Type = t\<rparr>"
  by (simp add: NewManifestFromLocalDir_def numeral_2_eq_2)

end
