(* ===== verification/RedisProps.thy ===== *)
theory RedisProps
  imports RedisRuntime ServerProps
begin

text \<open>
  The replies on a Redis connection, the handlers' pool, and what an event gives back.
\<close>

section \<open>Virtual hosts of the wrong kind\<close>

text \<open>What a Redis listener does whose virtual host is one for HTTP.\<close>

definition answers_nothing :: "server_vhost option \<Rightarrow> bool" where
  "answers_nothing p \<longleftrightarrow>
     (\<forall>vh c. panics (fst (listener_onEvent p vh c))) \<and> (\<forall>vh c. panics (fst (listener_onAccept p vh c))) \<and>
     (\<forall>vh c. panics (fst (listener_onClose p vh c))) \<and> (\<forall>w. panics (fst (redis_AddVHost w p))) \<and>
     (\<forall>n. panics (redis_GetVHost n p))"

lemma http_answers_nothing: "is_http v \<Longrightarrow> answers_nothing (Some v)"
  by (auto simp: kinds answers_nothing_def listener_onEvent_def listener_onAccept_def listener_onClose_def
      redis_AddVHost_def redis_GetVHost_def redis_vhs_def)

text \<open>
  C21: A virtual host given to a listener of its kind never panics and keeps every table consistent and
  every virtual host where it belongs. But the listener is looked up by name alone: a Redis virtual host
  that names an HTTP listener panics, and an HTTP virtual host that names a Redis listener is accepted
  by one that has none. From then on that listener panics at every event, connection and closed
  connection, and when a virtual host is added or looked up; only an update, which puts in another virtual host,
  and a removal, which takes it out again, still work.
\<close>

theorem server_listener_kinds:
  assumes "getListener (vhost_ListenerName v) s = Some l" "list_all servable s"
  shows "(lis_Type l = vhost_ListenerType v \<longrightarrow>
      list_all servable (snd (server_AddVHost v s)) \<and> \<not> panics (fst (server_AddVHost v s))) \<and>
    (is_redis v \<and> lis_Type l = ''http'' \<longrightarrow> panics (fst (server_AddVHost v s))) \<and>
    (\<forall>n. is_http v \<and> l = RedisListener n None \<longrightarrow> fst (server_AddVHost v s) = Ok () \<and>
      getListener (vhost_ListenerName v) (snd (server_AddVHost v s)) = Some (RedisListener n (Some v)) \<and>
      answers_nothing (Some v) \<and>
      (\<forall>w. lis_UpdateVHost w (RedisListener n (Some v)) = (Ok (), RedisListener n (Some w))) \<and>
      lis_RemoveVHost (vhost_Name v) (RedisListener n (Some v)) = (Ok (), RedisListener n None))"
proof (intro conjI allI impI)
  assume "lis_Type l = vhost_ListenerType v"
  from server_add_same [OF assms this]
  show "list_all servable (snd (server_AddVHost v s))" "\<not> panics (fst (server_AddVHost v s))" by simp_all
next
  assume "is_redis v \<and> lis_Type l = ''http''"
  then show "panics (fst (server_AddVHost v s))" using server_add_http_panics [OF assms(1)] by blast
next
  fix n
  assume n: "is_http v \<and> l = RedisListener n None"
  note accepts = server_add_redis_accepts [OF assms(1) [unfolded conjunct2 [OF n]] conjunct1 [OF n]]
  show "fst (server_AddVHost v s) = Ok ()" by (rule accepts(1))
  show "getListener (vhost_ListenerName v) (snd (server_AddVHost v s)) = Some (RedisListener n (Some v))"
    by (rule accepts(2))
  show "answers_nothing (Some v)" using n by (simp add: http_answers_nothing)
qed (simp_all add: redis_UpdateVHost_def redis_RemoveVHost_def)

theorem server_listener_kinds_witness:
  "panics (fst (server_AddVHost s_kv s_two)) \<and> fst (server_AddVHost s_page s_two) = Ok () \<and>
     getListener ''cache'' (snd (server_AddVHost s_page s_two)) = Some (RedisListener ''cache'' (Some s_page)) \<and>
     panics (fst (listener_onEvent (Some s_page) (\<lambda>_ c. (Ok (), c))
       \<lparr>cn_RemoteAddr = '''', cn_close = None, cn_calls = []\<rparr>))"
proof -
  have ok: "list_all servable s_two"
    by (simp add: s_two_def newvhostlist_ok redis_ok_def)
  have web: "getListener (vhost_ListenerName s_kv) s_two = Some (HttpListener ''web'' newvhostlist)"
    and cache: "getListener (vhost_ListenerName s_page) s_two = Some (RedisListener ''cache'' None)"
    and kinds: "is_redis s_kv" "is_http s_page" "vhost_ListenerName s_page = ''cache''"
    by (simp_all add: s_two_def s_kv_def s_page_def is_redis_def is_http_def)
  show ?thesis
    using server_listener_kinds [OF web ok] server_listener_kinds [OF cache ok] kinds
    by (simp add: answers_nothing_def)
qed

section \<open>Complete replies\<close>

text \<open>
  How many more replies the client waits for: a reply fills one open place, and an array opens as many
  as it announces. Closing is no reply.
\<close>

definition owed_after :: "nat \<Rightarrow> rcall \<Rightarrow> nat" where
  "owed_after n x =
     (case x of CloseConn \<Rightarrow> n | WriteArray k \<Rightarrow> (n - 1) + k | _ \<Rightarrow> n - 1)"

definition owed :: "rcall list \<Rightarrow> nat" where
  "owed xs = foldl owed_after 0 xs"

lemma owed_Nil [simp]: "owed [] = 0"
  by (simp add: owed_def)

lemma owed_snoc [simp]: "owed (xs @ [x]) = owed_after (owed xs) x"
  by (simp add: owed_def)

lemma owed_bulks: "owed (xs @ map WriteBulkString ss) = owed xs - length ss"
  by (induction ss rule: rev_induct) (simp_all add: owed_after_def flip: append_assoc)

lemma call_simps [simp]:
  "cn_calls (call x c) = cn_calls c @ [x]" "cn_close (call x c) = cn_close c"
  "cn_RemoteAddr (call x c) = cn_RemoteAddr c"
  by (simp_all add: call_def)

text \<open>What is written of a list: the elements up to the first that has no text.\<close>

lemma write_elements_calls:
  assumes "write_elements env st l is c = (r, c')"
  shows "\<exists>ss. cn_calls c' = cn_calls c @ map WriteBulkString ss \<and> length ss \<le> length is \<and>
    (r = Ok VNull \<longleftrightarrow> length ss = length is) \<and> (\<forall>v. r = Ok v \<longrightarrow> v = VNull) \<and>
    (\<forall>j < length ss. \<exists>v. List_At l (is ! j) st = Ok v \<and> v_ToString env st v = Ok (ss ! j))"
  using assms
proof (induction "is" arbitrary: c)
  case Nil
  then show ?case by auto
next
  case (Cons i js)
  show ?case
  proof (cases "List_At l i st")
    case (Ok v)
    show ?thesis
    proof (cases "v_ToString env st v")
      case (Ok s)
      then have "write_elements env st l js (call (WriteBulkString s) c) = (r, c')"
        using Cons.prems \<open>List_At l i st = Ok v\<close> by simp
      from Cons.IH [OF this] obtain ss where ss:
        "cn_calls c' = cn_calls c @ map WriteBulkString (s # ss)" "length (s # ss) \<le> length (i # js)"
        "r = Ok VNull \<longleftrightarrow> length (s # ss) = length (i # js)" "\<forall>v. r = Ok v \<longrightarrow> v = VNull"
        "\<forall>j < length ss. \<exists>v. List_At l (js ! j) st = Ok v \<and> v_ToString env st v = Ok (ss ! j)"
        by auto
      have "\<forall>j < length (s # ss). \<exists>v. List_At l ((i # js) ! j) st = Ok v \<and> v_ToString env st v = Ok ((s # ss) ! j)"
        using ss(5) Ok \<open>List_At l i st = Ok v\<close> by (simp add: nth_Cons split: nat.split)
      then show ?thesis using ss(1-4) by (intro exI [of _ "s # ss"] conjI)
    qed (use Cons.prems Ok in auto)
  qed (use Cons.prems in auto)
qed

text \<open>The methods other than \<open>writeList\<close> make at most one call, which leaves nothing open.\<close>

lemma one_call:
  assumes "conn_Method env st name arg c = (r, c')" "name \<noteq> ''writeList''"
  shows "cn_calls c' = cn_calls c \<or> (\<exists>x. cn_calls c' = cn_calls c @ [x] \<and> (\<forall>n. x \<noteq> WriteArray n))"
proof -
  have rl: "rlift x c f = (r, c') \<Longrightarrow> (\<And>v. x = Ok v \<Longrightarrow> f v c = (r, c') \<Longrightarrow> P) \<Longrightarrow> (c' = c \<Longrightarrow> P) \<Longrightarrow> P"
    for x :: "'z res" and f P by (cases x) (auto simp: rlift_def)
  show ?thesis
    using assms unfolding conn_Method_def Let_def
    by (simp only: if_False split: if_splits)
      (auto elim!: rl split: res.splits if_splits option.splits)
qed

lemma rlift_none: "rlift x c f = (r, c') \<Longrightarrow> \<forall>n. x \<noteq> Ok n \<Longrightarrow> c' = c \<and> (\<forall>v. r \<noteq> Ok v)"
  by (cases x) auto

lemma writeList_calls:
  assumes "conn_Method env st ''writeList'' arg c = (r, c')"
  shows "c' = c \<and> (\<forall>v. r \<noteq> Ok v) \<or>
    (\<exists>l n ss. arg ! 0 = VList l \<and> List_Length st l = Ok n \<and>
       cn_calls c' = cn_calls c @ WriteArray n # map WriteBulkString ss \<and> length ss \<le> n \<and>
       (r = Ok VNull \<longleftrightarrow> length ss = n) \<and> (\<forall>v. r = Ok v \<longrightarrow> v = VNull))"
proof (cases "check_args env st ''redis.conn.writeList'' ''%l'' arg")
  case (Ok x)
  then have m: "(case arg ! 0 of
      VList l \<Rightarrow> rlift (List_Length st l) c (\<lambda>n c. write_elements env st l [0..<n] (call (WriteArray n) c))
    | _ \<Rightarrow> (Panic ''must: must be list'', c)) = (r, c')"
    using assms by (simp add: conn_Method_def)
  show ?thesis
  proof (cases "\<exists>l n. arg ! 0 = VList l \<and> List_Length st l = Ok n")
    case True
    then obtain l n where l: "arg ! 0 = VList l" "List_Length st l = Ok n" by blast
    then have "write_elements env st l [0..<n] (call (WriteArray n) c) = (r, c')" using m by simp
    from write_elements_calls [OF this] show ?thesis using l by auto
  next
    case False
    then have "c' = c \<and> (\<forall>v. r \<noteq> Ok v)"
      using m by (cases "arg ! 0") (auto dest: rlift_none)
    then show ?thesis ..
  qed
qed (use assms in \<open>auto simp: conn_Method_def\<close>)

lemma owed_array: "owed (xs @ WriteArray n # map WriteBulkString ss) = (owed xs - 1) + n - length ss"
  using owed_bulks [of "xs @ [WriteArray n]" ss] by (simp add: owed_after_def)

text \<open>
  C23: A script's calls on a connection write whole replies, with one exception. If an element of a list
  has no text, the array that was announced stays unfinished, and the error that the handler then
  reports is taken by the client for the missing element.
\<close>

theorem list_reply_left_open:
  assumes "conn_Method env st name arg (rk_conn s) = (r, c')" "owed (cn_calls (rk_conn s)) = 0"
  shows "((\<exists>v. r = Ok v) \<or> name \<noteq> ''writeList'' \<longrightarrow> owed (cn_calls c') = 0) \<and>
    (name = ''writeList'' \<and> c' \<noteq> rk_conn s \<and> (\<forall>v. r \<noteq> Ok v) \<longrightarrow>
      (\<exists>l n i. arg ! 0 = VList l \<and> List_Length st l = Ok n \<and> i < n \<and> owed (cn_calls c') = n - i \<and>
         (\<forall>event e. owed (cn_calls (rk_conn (redis_err event e (s\<lparr>rk_conn := c'\<rparr>)))) = n - i - 1)))"
proof (cases "name = ''writeList''")
  case True
  note calls = writeList_calls [OF assms(1) [unfolded True]]
  show ?thesis
  proof (cases "c' = rk_conn s \<and> (\<forall>v. r \<noteq> Ok v)")
    case False
    then obtain l n ss where l: "arg ! 0 = VList l" "List_Length st l = Ok n"
      "cn_calls c' = cn_calls (rk_conn s) @ WriteArray n # map WriteBulkString ss" "length ss \<le> n"
      "r = Ok VNull \<longleftrightarrow> length ss = n" "\<forall>v. r = Ok v \<longrightarrow> v = VNull"
      using calls by blast
    have owed: "owed (cn_calls c') = n - length ss"
      unfolding l(3) owed_array assms(2) by simp
    have left: "length ss < n" if "\<forall>v. r \<noteq> Ok v"
      using that l(4,5) by (cases "length ss = n") auto
    have err: "\<forall>event e. owed (cn_calls (rk_conn (redis_err event e (s\<lparr>rk_conn := c'\<rparr>)))) = n - length ss - 1"
      using owed by (simp add: redis_err_def owed_after_def)
    have "owed (cn_calls c') = 0" if "\<exists>v. r = Ok v"
      using that l(5,6) owed by auto
    then show ?thesis using True l(1,2) owed left err by blast
  qed (use True assms(2) in auto)
next
  case False
  then show ?thesis
    using one_call [OF assms(1)] assms(2) by (auto simp: owed_after_def split: rcall.split)
qed

text \<open>A list that holds a text and itself: one element is announced and never sent.\<close>

definition s_items :: hstore where
  "s_items = (let (l, st) = new_list (st_init hworld_init);
     (_, st) = List_Append_all plain_hpl_env 0 [VStr ''a'', VList 0] st in st)"

definition s_session :: rsession where
  "s_session = \<lparr>rk_conn = \<lparr>cn_RemoteAddr = '''', cn_close = None, cn_calls = []\<rparr>, rk_st = s_items, rk_clients = [],
     rk_pool = NewHClientPool ''kv'' 2 30 4096\<rparr>"

theorem list_reply_left_open_witness:
  "\<exists>e c'. conn_Method plain_hpl_env s_items ''writeList'' [VList 0] (rk_conn s_session) = (Err e, c') \<and>
     cn_calls c' = [WriteArray 2, WriteBulkString ''a''] \<and> owed (cn_calls c') = 1 \<and>
     (\<forall>event e. owed (cn_calls (rk_conn (redis_err event e (s_session\<lparr>rk_conn := c'\<rparr>)))) = 0)"
proof -
  have check: "check_args plain_hpl_env s_items ''redis.conn.writeList'' ''%l'' [VList 0] = Ok 1" by code_simp
  have list: "List_Length s_items 0 = Ok 2" "List_At 0 0 s_items = Ok (VStr ''a'')" "List_At 0 1 s_items = Ok (VList 0)"
    by code_simp+
  let ?c = "call (WriteBulkString ''a'') (call (WriteArray 2) (rk_conn s_session))"
  have calls: "cn_calls ?c = [WriteArray 2, WriteBulkString ''a'']" "cn_calls (rk_conn s_session) = []"
    by (simp_all add: s_session_def)
  obtain e where run: "conn_Method plain_hpl_env s_items ''writeList'' [VList 0] (rk_conn s_session) = (Err e, ?c)"
    using check list by (auto simp: conn_Method_def upt_rec)
  have "?c \<noteq> rk_conn s_session" using calls by (metis list.distinct(1))
  then obtain n i where n: "List_Length s_items 0 = Ok n" "owed (cn_calls ?c) = n - i"
    "\<forall>event e. owed (cn_calls (rk_conn (redis_err event e (s_session\<lparr>rk_conn := ?c\<rparr>)))) = n - i - 1"
    using list_reply_left_open [OF run] calls(2) by auto
  moreover have "owed (cn_calls ?c) = 1"
    unfolding calls(1) by (simp add: owed_def owed_after_def)
  ultimately show ?thesis using run calls(1) by auto
qed

section \<open>Handlers and their clients\<close>

text \<open>Nothing puts a handler back: the pool stays empty and every event makes a handler of its own.\<close>

lemma handlers_never_reused:
  assumes "rp_idle p = []"
  shows "redis_getServiceHandler fresh p = (fresh, p)"
    "snd (OnAccept re fresh p s) = p" "snd (OnEvent re fresh cmd p s) = p" "snd (OnClose re fresh e p s) = p"
  using assms by (simp_all add: redis_getServiceHandler_def rp_get_def OnAccept_def OnEvent_def OnClose_def)

lemma redis_Compose_pool: "redis_Compose c = Ok v \<Longrightarrow> rp_idle (rvh_servicePool v) = []"
  by (auto simp: redis_Compose_def rbind_Ok_iff redis_newServicePool_def)

text \<open>However an event ends, the HTTP clients it used are given back.\<close>

lemma deferred_finishes: "redis_deferred x = (r, s) \<Longrightarrow> r \<noteq> Diverge \<Longrightarrow> rk_clients s = []"
  by (cases x; cases "fst x") (auto simp: redis_deferred_def redis_finish_def)

lemma events_finish:
  "redis_onEvent re cmd s = (r, t) \<Longrightarrow> r \<noteq> Diverge \<Longrightarrow> rk_clients t = []"
  "redis_onAccept re s = (b, t) \<Longrightarrow> b \<noteq> Diverge \<Longrightarrow> rk_clients t = []"
  "redis_onClose re e s = (r, t) \<Longrightarrow> r \<noteq> Diverge \<Longrightarrow> rk_clients t = []"
  unfolding redis_onEvent_def redis_onAccept_def redis_onClose_def by (rule deferred_finishes; assumption)+

text \<open>\<open>writeNull\<close> with an argument writes nothing and reports no error.\<close>

lemma writeNull_drops_error:
  "check_args env st ''redis.conn.writeNull'' ''%0'' arg = Err e \<Longrightarrow> conn_Method env st ''writeNull'' arg c = (Ok VNull, c)"
  by (simp add: conn_Method_def)

section \<open>Commands\<close>

text \<open>A command iterates over its arguments in order, once each.\<close>

fun command_walk :: "nat \<Rightarrow> commanditer \<Rightarrow> (val \<times> val) res list" where
  "command_walk 0 i = []"
| "command_walk (Suc n) i = ci_Deref i # command_walk n (snd (ci_Next i))"

lemma command_walk_from:
  "k + n \<le> ArgumentSize c \<Longrightarrow> command_walk n \<lparr>ci_c = c, ci_cursor = k\<rparr> =
     map (\<lambda>j. Ok (VInt (word_of_nat j), VStr (cm_args c ! j))) [k..<k + n]"
  by (induction n arbitrary: k) (simp_all add: ci_Deref_def ci_Has_def ci_Next_def Let_def upt_rec)

lemma command_iterates:
  "command_walk (ArgumentSize c) (command_NewIterator c) =
     map (\<lambda>j. Ok (VInt (word_of_nat j), VStr (cm_args c ! j))) [0..<ArgumentSize c]"
  using command_walk_from [of 0 "ArgumentSize c" c] by (simp add: command_NewIterator_def)

lemma command_Index_spec:
  "command_Index c (VInt i) =
     (if sint i < 0 then Err ''redis.command index: invalid index negative value cannot be index''
      else if nat (sint i) < ArgumentSize c then Ok (VStr (cm_args c ! nat (sint i)))
      else Err ''redis.command index: index out of range'')"
  by (simp add: command_Index_def CommandTypeId_def with_err_def)

end
