(* ===== verification/PipelineProps.thy ===== *)
theory PipelineProps
  imports HttpPipeline
begin

text \<open>
  What holds of every request: the response goes out once, and the phases come in order.
\<close>

section \<open>What leaves the handler alone\<close>

text \<open>
  A script reaches the response only through the writer, and neither the application nor the phases.
  \<open>quiet\<close> says the same of a part of the pipeline.
\<close>

definition quiet :: "henv \<Rightarrow> session \<Rightarrow> session \<Rightarrow> bool" where
  "quiet he s t \<longleftrightarrow>
     wops (he_env he) (he_ho he) (he_net he) s t \<and> ss_app t = ss_app s \<and> ss_trace t = ss_trace s"

definition script_env :: "henv \<Rightarrow> bool" where
  "script_env he \<longleftrightarrow>
     (\<forall>r p s. quiet he s (snd (he_init he r p s))) \<and> (\<forall>n v s. quiet he s (snd (he_emit he n v s)))"

lemma script_envD:
  assumes "script_env he"
  shows "quiet he s (snd (he_init he r p s))" "quiet he s (snd (he_emit he n v s))"
  using assms by (simp_all add: script_env_def)

lemma quiet_refl [simp]: "quiet he s s"
  by (simp add: quiet_def)

lemma quiet_trans: "quiet he s t \<Longrightarrow> quiet he t u \<Longrightarrow> quiet he s u"
  unfolding quiet_def by (metis rtranclp_trans)

lemma session_more:
  assumes "wst.more (t :: session) = wst.more s"
  shows "ss_app t = ss_app s" "ss_trace t = ss_trace s"
proof -
  have t: "t = s\<lparr>ws_w := ws_w t, ws_st := ws_st t\<rparr>"
    using assms by (intro wst.equality) simp_all
  show "ss_app t = ss_app s" by (subst t) simp
  show "ss_trace t = ss_trace s" by (subst t) simp
qed

lemma quietI:
  assumes "wops (he_env he) (he_ho he) (he_net he) s t" "wst.more t = wst.more s"
  shows "quiet he s t"
  using assms(1) session_more [OF assms(2)] by (simp add: quiet_def)

lemma quiet_ops:
  assumes "quiet he s t"
  shows "quiet he s (snd (SetReply c b t))" "quiet he s (SetHeader h t)" "quiet he s (WriteStatus c t)"
    "quiet he s (WriteBody r t)" "quiet he s (snd (Flush (he_net he) t))" "quiet he s (snd (on_st x t))"
  by (rule quiet_trans [OF assms quietI];
      simp add: more_ops more_Flush wops_ops [OF wops_refl] wops_on_st [OF wops_refl])+

lemma quiet_same:
  "quiet he s t \<Longrightarrow> ws_w t' = ws_w t \<Longrightarrow> ss_app t' = ss_app t \<Longrightarrow> ss_trace t' = ss_trace t \<Longrightarrow> quiet he s t'"
  unfolding quiet_def using wops_other by metis

lemmas quiet_binds = snd_mbind_keeps [where P = "quiet he s" for he s] snd_rlift_keeps [where P = "quiet he s" for he s]

lemma quiet_on_store: "quiet he s t \<Longrightarrow> quiet he s (snd (on_store f t))"
  by (simp add: on_store_def quiet_ops)

lemma quiet_string_reader: "quiet he s t \<Longrightarrow> string_reader b t = (r, u) \<Longrightarrow> quiet he s u"
  using quiet_ops(6) [of he s t "new_reader (RBytes (Some b)) (ws_st t)"] by (simp add: string_reader_def)

lemmas quiet_intros = quiet_ops quiet_binds quiet_on_store quiet_refl

lemma quiet_ignore_err: "quiet he s (snd x) \<Longrightarrow> quiet he s (snd (ignore_err x))"
  by (auto simp: ignore_err_def split: prod.split res.split)

lemma quiet_ReplyError:
  assumes "script_env he" "quiet he s t"
  shows "quiet he s (snd (ReplyError he reason c e t))"
proof -
  obtain b u where r: "SetReply c e t = (b, u)" by fastforce
  then have u: "quiet he s u" using quiet_ops(1) [OF assms(2), of c e] by simp
  then have "quiet he s (snd (ignore_err (he_emit he ''error'' (VStr reason) u)))"
    by (rule quiet_trans) (rule quiet_ignore_err, rule script_envD [OF assms(1)])
  then show ?thesis
    using u by (auto simp: ReplyError_def replyErr_def r intro!: quiet_intros)
qed

lemma quiet_Finalize: "quiet he s t \<Longrightarrow> quiet he s (snd (Finalize (he_net he) t))"
  by (simp add: Finalize_def quiet_ops)

section \<open>Middleware\<close>

text \<open>How an answer that may be an error goes on.\<close>

lemma quiet_cases:
  assumes "quiet he s (snd x)" "\<And>v t. x = (Ok v, t) \<Longrightarrow> quiet he s t \<Longrightarrow> quiet he s (snd (f v t))"
    "\<And>e t. x = (Err e, t) \<Longrightarrow> quiet he s t \<Longrightarrow> quiet he s (snd (g e t))"
  shows "quiet he s (snd (case x of (Err e, t) \<Rightarrow> g e t | (Ok v, t) \<Rightarrow> f v t | (Panic p, t) \<Rightarrow> (Panic p, t)
    | (Diverge, t) \<Rightarrow> (Diverge, t)))"
  using assms by (cases x; cases "fst x") auto

lemma quiet_flush_if: "quiet he s t \<Longrightarrow> quiet he s (snd (flush_if he b t))"
  by (auto simp: flush_if_def intro: quiet_ops)

lemma quiet_write_string: "quiet he s t \<Longrightarrow> quiet he s (write_string b t)"
  by (auto simp: write_string_def split: prod.split intro: quiet_ops quiet_string_reader)

lemma quiet_event:
  assumes "script_env he" "quiet he s t"
  shows "quiet he s (snd (event_Accept he args t))"
proof (cases "cfg_GetStr (he_env he) (ws_st t) args 0")
  case (Ok n)
  then show ?thesis
    using assms script_envD(2) [OF assms(1)]
    by (auto simp: event_Accept_def quiet_ReplyError intro!: quiet_binds quiet_cases intro: quiet_trans)
qed (use assms in \<open>auto simp: event_Accept_def quiet_ReplyError\<close>)

lemma quiet_mod:
  assumes "script_env he" "quiet he s t"
  shows "quiet he s (snd (mod_Accept he fn name args h t))"
  using assms quiet_on_store [OF assms(2)]
  by (auto simp: mod_Accept_def quiet_ReplyError intro!: quiet_cases)

lemma quiet_respmod: "script_env he \<Longrightarrow> quiet he s t \<Longrightarrow> quiet he s (snd (respmod_Accept he fn name args t))"
  by (simp add: respmod_Accept_def quiet_mod)

lemma quiet_reqmod: "script_env he \<Longrightarrow> quiet he s t \<Longrightarrow> quiet he s (snd (reqmod_Accept he fn name args req t))"
  by (auto simp: reqmod_Accept_def intro!: quiet_binds quiet_mod)

lemma quiet_echo: "quiet he s t \<Longrightarrow> quiet he s (snd (echo_Accept he args req t))"
  by (auto simp: echo_Accept_def intro!: quiet_binds quiet_flush_if quiet_ops)

lemma quiet_random: "quiet he s t \<Longrightarrow> quiet he s (snd (random_Accept he args t))"
proof -
  assume t: "quiet he s t"
  have "quiet he s (snd (rlift x u (\<lambda>text s. flush_if he b (write_string text s))))"
    if "quiet he s u" for x u b
    using that by (intro quiet_binds quiet_flush_if quiet_write_string)
  moreover have "quiet he s ((WriteStatus c u)\<lparr>ss_rand := rs\<rparr>)" if "quiet he s u" for c u rs
    using quiet_ops(3) [OF that, of c] by (rule quiet_same) simp_all
  ultimately show ?thesis
    using t by (auto simp: random_Accept_def Let_def split: prod.split intro!: quiet_binds)
qed

lemma quiet_response:
  assumes "script_env he" "quiet he s t"
  shows "quiet he s (snd (response_Accept he args t))"
proof -
  have fin: "quiet he s (snd (flush_if he b (write_string x (WriteStatus c u))))" if "quiet he s u" for b x c u
    using that by (intro quiet_flush_if quiet_write_string quiet_ops)
  have hdr: "quiet he s (snd (case on_store f u of
        (Err e, t) \<Rightarrow> mbind (ReplyError he r c' e t) (\<lambda>_ t. (Ok False, t))
      | (Ok hv, t) \<Rightarrow> rlift (g hv t) t (\<lambda>h t. flush_if he b (write_string x (WriteStatus c (SetHeader h t))))
      | (Panic p, t) \<Rightarrow> (Panic p, t) | (Diverge, t) \<Rightarrow> (Diverge, t)))"
    if "quiet he s u" for b x c c' u r f and g :: "'v \<Rightarrow> session \<Rightarrow> nat res"
    using that quiet_on_store [OF that, of f] assms(1)
    by (intro quiet_cases) (auto intro!: quiet_binds fin quiet_ops simp: quiet_ReplyError)
  show ?thesis
    using assms(2) unfolding response_Accept_def Let_def
    by (intro quiet_binds) (simp_all only: fin hdr simp_thms split: if_split)
qed

lemma quiet_bind_eq:
  assumes "quiet he s (snd p)" "\<And>x t. p = (Ok x, t) \<Longrightarrow> quiet he s t \<Longrightarrow> quiet he s (snd (f x t))"
  shows "quiet he s (snd (mbind p f))"
  using assms by (cases "(p, f)" rule: mbind.cases) auto

lemma quiet_chain:
  "script_env he \<Longrightarrow> quiet he s t \<Longrightarrow> quiet he s (snd (mw_Accept he req m t))"
  "script_env he \<Longrightarrow> quiet he s t \<Longrightarrow> quiet he s (snd (compose_Accept he req ms t))"
proof (induction he req m t and he req ms t rule: mw_Accept_compose_Accept.induct)
  case (9 he req x xs t)
  show ?case
    unfolding compose_Accept.simps
    by (rule quiet_bind_eq) (auto simp: 9)
qed (auto simp: quiet_event quiet_reqmod quiet_respmod quiet_echo quiet_random quiet_response)

section \<open>Applications\<close>

text \<open>
  An application may change its own state, but stays of its kind, and only a signature has a context.
\<close>

definition is_sign :: "app \<Rightarrow> bool" where
  "is_sign a \<longleftrightarrow> (case a of AppBodySign _ \<Rightarrow> True | _ \<Rightarrow> False)"

definition calm :: "henv \<Rightarrow> session \<Rightarrow> session \<Rightarrow> bool" where
  "calm he s t \<longleftrightarrow> wops (he_env he) (he_ho he) (he_net he) s t \<and> ss_trace t = ss_trace s"

lemma calm_refl [simp]: "calm he s s"
  by (simp add: calm_def)

lemma calm_trans: "calm he s t \<Longrightarrow> calm he t u \<Longrightarrow> calm he s u"
  unfolding calm_def by (metis rtranclp_trans)

lemma quiet_calm: "quiet he s t \<Longrightarrow> calm he s t"
  by (simp add: quiet_def calm_def)

lemma calm_quiet: "calm he s t \<Longrightarrow> quiet he t u \<Longrightarrow> calm he s u"
  using calm_trans quiet_calm by blast

lemma calm_same: "calm he s t \<Longrightarrow> ws_w t' = ws_w t \<Longrightarrow> ss_trace t' = ss_trace t \<Longrightarrow> calm he s t'"
  unfolding calm_def using wops_other by metis

lemma calm_on_store: "calm he s t \<Longrightarrow> calm he s (snd (on_store f t))"
  by (erule calm_quiet) (simp add: quiet_on_store)

lemma calm_set: "calm he s t \<Longrightarrow> calm he s (set_sign b t)" "calm he s t \<Longrightarrow> calm he s (set_concate c t)"
  by (auto simp: set_sign_def set_concate_def elim: calm_same)

lemmas calm_binds = snd_mbind_keeps [where P = "calm he s" for he s] snd_rlift_keeps [where P = "calm he s" for he s]

lemma calm_hashBody: "calm he s t \<Longrightarrow> calm he s (snd (hashBody he b data m t))"
proof -
  assume t: "calm he s t"
  obtain f u where f: "on_store (new_reader (RNet '''' None False)) t = (f, u)" by fastforce
  then have "calm he s u" using calm_on_store [OF t] by (metis snd_conv)
  then have u: "calm he s (u\<lparr>ss_files := ss_files u @ [f]\<rparr>)" by (rule calm_same) simp_all
  have "calm he s (snd (let ((bytes, err), v) = on_store (ReadAll data) v in
      case k bytes of Some e \<Rightarrow> (Err e, v)
      | None \<Rightarrow> (case err of Some e \<Rightarrow> (Err e, v) | None \<Rightarrow> (Ok (g bytes), v\<lparr>ws_st := h bytes (ws_st v)\<rparr>))))"
    if "calm he s v" for v and g :: "string \<Rightarrow> signResult" and h and k :: "string \<Rightarrow> string option"
  proof -
    obtain bytes err w where w: "on_store (ReadAll data) v = ((bytes, err), w)" by (metis prod.exhaust)
    then have "calm he s w" using calm_on_store [OF that] by (metis snd_conv)
    then show ?thesis by (auto simp: w split: option.split elim: calm_same)
  qed
  then show ?thesis
    using t u by (auto simp: hashBody_def f Let_def split: option.split intro!: calm_binds)
qed

lemma calm_sign: "calm he s t \<Longrightarrow> calm he s (snd (sign_Accept he b ctx t))"
proof -
  assume t: "calm he s t"
  have go: "calm he s (snd (mbind x (\<lambda>b u. case bs_r b of None \<Rightarrow> (Panic p, u)
      | Some r \<Rightarrow> mbind (on_store (f r) u) (\<lambda>body u. on_store (g r body) u))))"
    if "calm he s (snd x)" for x p f and g :: "signResult \<Rightarrow> 'u \<Rightarrow> hstore \<Rightarrow> ApplicationResult res \<times> hstore"
    by (rule calm_binds(1) [OF that]) (auto split: option.split intro!: calm_binds calm_on_store)
  have act: "calm he s (snd (do_sign he b d m u))" "calm he s (snd (do_verify he b d e m u))"
    if "calm he s u" for b d m e u
    using that by (auto simp: do_sign_def do_verify_def Let_def intro!: calm_binds calm_hashBody calm_set)
  show ?thesis
    unfolding sign_Accept_def Let_def
    by (rule calm_binds(2) [OF t]) (auto split: option.split intro!: go act calm_set)
qed

lemma calm_concate:
  assumes "script_env he" "calm he s t"
  shows "calm he s (snd (concate_Accept he c t))"
proof -
  obtain r u where r: "on_store (new_reader (RNet '''' None False)) t = (r, u)" by fastforce
  then have u: "calm he s u" using calm_on_store [OF assms(2)] by (metis snd_conv)
  have "calm he s (snd (he_emit he n v (set_concate c u)))" for n v c
    using calm_set(2) [OF u] script_envD(2) [OF assms(1)] by (rule calm_quiet)
  moreover have out: "calm he s (snd (case on_store (NewReadableStreamFromStream r) w of (v, w) \<Rightarrow> on_store (f v) w))"
    if "calm he s w" for w and f :: "val \<Rightarrow> hstore \<Rightarrow> ApplicationResult res \<times> hstore"
  proof -
    obtain v x where v: "on_store (NewReadableStreamFromStream r) w = (v, x)" by fastforce
    then have "calm he s x" using calm_on_store [OF that] by (metis snd_conv)
    then show ?thesis by (simp add: v calm_on_store)
  qed
  ultimately show ?thesis
    by (auto simp: concate_Accept_def r Let_def intro!: calm_binds calm_set out)
qed

lemma calm_app_Accept:
  assumes "script_env he" "calm he s t"
  shows "calm he s (snd (app_Accept he a ctx t))"
  using assms
  by (cases a)
    (auto simp: app_Accept_def eventApp_Accept_def calm_sign calm_concate intro!: calm_binds)

lemma calm_close: "calm he s t \<Longrightarrow> calm he s (t\<lparr>ws_st := st\<rparr>)"
  by (rule calm_same) simp_all

lemma calm_app_Done: "calm he s t \<Longrightarrow> calm he s (snd (app_Done a t))"
proof (cases a)
  case (AppBodySign b)
  assume t: "calm he s t"
  have "calm he s (t\<lparr>ws_st := st, ss_files := fs\<rparr>)" for st fs
    using t by (rule calm_same) simp_all
  then show ?thesis
    using t by (auto simp: app_Done_def AppBodySign sign_reset_def split: option.split intro: calm_set)
qed (auto simp: app_Done_def concate_Done_def Let_def split: option.split intro: calm_set calm_close)

section \<open>The phases of a request\<close>

definition passes :: "henv \<Rightarrow> nat list \<Rightarrow> session \<Rightarrow> session \<Rightarrow> bool" where
  "passes he ts s t \<longleftrightarrow> wops (he_env he) (he_ho he) (he_net he) s t \<and> ss_trace t = ss_trace s @ ts"

lemma passes_calm: "calm he s t \<Longrightarrow> passes he [] s t"
  by (simp add: passes_def calm_def)

lemma passes_trans: "passes he ts s t \<Longrightarrow> calm he t u \<Longrightarrow> passes he ts s u"
  unfolding passes_def calm_def by (metis rtranclp_trans)

lemma passes_append: "passes he ts s t \<Longrightarrow> passes he us t u \<Longrightarrow> passes he (ts @ us) s u"
  unfolding passes_def by (metis append_assoc rtranclp_trans)

lemma passes_onward: "passes he ts s t \<Longrightarrow> onward (ws_w s) (ws_w t)"
  by (auto simp: passes_def dest: wops_onward)

lemma passes_setPhase: "calm he s t \<Longrightarrow> passes he [p] s (setPhase p n t)"
  by (auto simp: passes_def calm_def setPhase_def intro: wops_other)

lemma setPhase_app [simp]: "ss_app (setPhase p n s) = ss_app s"
  by (simp add: setPhase_def)

lemma passes_phase:
  assumes "calm he (setPhase p n s) t"
  shows "passes he [p] s t"
  using passes_trans [OF passes_setPhase [OF calm_refl] assms] .

text \<open>What is deferred.\<close>

lemma finish_calm: "calm he s (finish_request s)"
  by (rule calm_same [OF calm_refl]) (simp_all add: finish_request_def)

lemma service_Log_calm: "script_env he \<Longrightarrow> calm he s (snd (service_Log he s))"
  by (simp add: service_Log_def quiet_calm quiet_ignore_err script_envD)

text \<open>
  The phases behind the body of a request that ends in session \<open>s\<close>: the response is finished; if that does
  not panic, an application that gave a context is told; if that does not panic, the request is logged.
\<close>

definition finished :: "henv \<Rightarrow> session \<Rightarrow> unit res \<times> session" where
  "finished he s = Finalize (he_net he) (setPhase PhaseHttpResponseFinalize ''http.response_finalize'' s)"

definition told :: "henv \<Rightarrow> session \<Rightarrow> unit res" where
  "told he s = (let u = setPhase PhaseApplicationDone ''application.done'' (snd (finished he s)) in fst (app_Done (ss_app u) u))"

definition end_run :: "henv \<Rightarrow> bool \<Rightarrow> session \<Rightarrow> nat list" where
  "end_run he ctx s =
     (if fst (finished he s) \<noteq> Ok () then [PhaseHttpResponseFinalize]
      else if \<not> ctx then [PhaseHttpResponseFinalize, PhaseAccessLog]
      else if told he s \<noteq> Ok () then [PhaseHttpResponseFinalize, PhaseApplicationDone]
      else [PhaseHttpResponseFinalize, PhaseApplicationDone, PhaseAccessLog])"

lemma log_passes:
  assumes "script_env he"
    and "mbind (service_Log he (setPhase PhaseAccessLog ''.access_log'' v)) (\<lambda>_ s. (Ok (), finish_request s)) = (r, t)"
  shows "passes he [PhaseAccessLog] v t"
proof -
  obtain r'' w where w: "service_Log he (setPhase PhaseAccessLog ''.access_log'' v) = (r'', w)" by fastforce
  then have "passes he [PhaseAccessLog] v w"
    using service_Log_calm [OF assms(1)] passes_phase by (metis snd_conv)
  moreover have "t = w \<or> t = finish_request w"
    using assms(2) w by (cases r'') auto
  ultimately show ?thesis using passes_trans finish_calm by blast
qed

lemma main_deferred_log:
  assumes "script_env he" "main_deferred he ctx s = (r, t)" "finished he s = (Ok (), u)"
  shows "\<exists>ts. passes he ts u t \<and> PhaseHttpResponseFinalize # ts = end_run he (ctx \<noteq> None) s"
proof (cases ctx)
  case None
  then have "passes he [PhaseAccessLog] u t"
    using assms(2,3) by (intro log_passes [OF assms(1)]) (simp add: main_deferred_def finished_def)
  then show ?thesis using None assms(3) by (simp add: end_run_def)
next
  case (Some c)
  let ?u = "setPhase PhaseApplicationDone ''application.done'' u"
  obtain r' v where v: "app_Done (ss_app ?u) ?u = (r', v)" by fastforce
  have dones: "passes he [PhaseApplicationDone] u v"
    using v calm_app_Done [OF calm_refl, of he ?u "ss_app ?u"] by (metis passes_phase snd_conv)
  have told: "told he s = r'" using v assms(3) by (simp add: told_def Let_def)
  have t: "main_deferred he ctx s = mbind (r', v) (\<lambda>_ s.
      mbind (service_Log he (setPhase PhaseAccessLog ''.access_log'' s)) (\<lambda>_ s. (Ok (), finish_request s)))"
    using assms(3) v by (simp add: main_deferred_def finished_def Some Let_def)
  show ?thesis
  proof (cases "r' = Ok ()")
    case True
    then have "passes he [PhaseAccessLog] v t"
      using assms(2) t by (intro log_passes [OF assms(1)]) simp
    then show ?thesis
      using passes_append [OF dones] True told Some assms(3) by (fastforce simp: end_run_def)
  next
    case False
    then have "t = v" using t assms(2) by (cases r') auto
    then show ?thesis using False dones told Some assms(3) by (auto simp: end_run_def)
  qed
qed

lemma main_deferred_passes:
  assumes "script_env he" "main_deferred he ctx s = (r, t)"
  shows "passes he (end_run he (ctx \<noteq> None) s) s t"
    and "wire_ok (ws_w s) \<Longrightarrow> r = Ok () \<Longrightarrow> IsFlushed t"
    and "r = Ok () \<Longrightarrow> PhaseAccessLog \<in> set (end_run he (ctx \<noteq> None) s)"
proof -
  obtain r' u where u: "finished he s = (r', u)" by fastforce
  then have s: "passes he [PhaseHttpResponseFinalize] s u"
    using passes_phase [OF quiet_calm [OF quiet_Finalize [OF quiet_refl]]] unfolding finished_def by (metis snd_conv)
  have fails: "t = u" "r \<noteq> Ok ()" if "r' \<noteq> Ok ()"
    using assms(2) u that by (cases r'; auto simp: main_deferred_def finished_def)+
  show "passes he (end_run he (ctx \<noteq> None) s) s t"
  proof (cases "r' = Ok ()")
    case True
    then obtain ts where "passes he ts u t" "PhaseHttpResponseFinalize # ts = end_run he (ctx \<noteq> None) s"
      using main_deferred_log [OF assms] u by blast
    then show ?thesis using passes_append [OF s] by fastforce
  qed (use fails s u in \<open>simp add: end_run_def\<close>)
  show "PhaseAccessLog \<in> set (end_run he (ctx \<noteq> None) s)" if "r = Ok ()"
  proof -
    have "r' = Ok ()" using fails that by blast
    moreover have "told he s = Ok ()" if "ctx = Some c" for c
    proof -
      let ?u = "setPhase PhaseApplicationDone ''application.done'' u"
      obtain d v where v: "app_Done (ss_app ?u) ?u = (d, v)" by fastforce
      have "d = Ok ()"
        using assms(2) u \<open>r' = Ok ()\<close> \<open>r = Ok ()\<close> that v
        by (cases d) (auto simp: main_deferred_def finished_def Let_def)
      then show ?thesis using u v by (simp add: told_def Let_def)
    qed
    ultimately show ?thesis using u by (cases ctx) (simp_all add: end_run_def)
  qed
  assume w: "wire_ok (ws_w s)" and "r = Ok ()"
  then have r': "r' = Ok ()" using fails by blast
  then obtain ts where "passes he ts u t" using main_deferred_log [OF assms] u by blast
  moreover have "IsFlushed u"
    using u r' by (auto simp: finished_def Finalize_def mbind_Ok_iff dest: Flush_Ok)
  moreover have "wire_ok (ws_w u)"
    using w passes_onward [OF s] by (simp add: onward_def)
  ultimately show "IsFlushed t"
    using passes_onward by (fastforce simp: onward_def IsFlushed_def)
qed

text \<open>From the start of a request to what is deferred.\<close>

lemma main_response_passes:
  "script_env he \<Longrightarrow> passes he [PhaseHttpResponse] s (snd (main_response he req sv s))"
  unfolding main_response_def
  by (rule passes_phase [where n = "''http.response''"], rule quiet_calm) (simp add: quiet_chain)

definition accept_runs :: "nat list set" where
  "accept_runs =
     {[PhaseApplicationAccept], [PhaseApplicationAccept, PhaseHttpResponse],
      [PhaseApplicationAccept, PhaseApplicationEvent],
      [PhaseApplicationAccept, PhaseApplicationEvent, PhaseHttpResponse]}"

lemma passes_reply:
  "script_env he \<Longrightarrow> passes he ts s t \<Longrightarrow> passes he ts s (snd (ReplyError he reason c e t))"
  using passes_trans quiet_calm quiet_ReplyError quiet_refl by blast

lemma passes_replied:
  "script_env he \<Longrightarrow> passes he ts s t \<Longrightarrow> ReplyError he reason c e t = (r, u) \<Longrightarrow> passes he ts s u"
  using passes_reply by (metis snd_conv)

lemma main_accept_passes:
  assumes "script_env he"
  shows "\<exists>ts \<in> accept_runs. passes he ts s (snd (main_accept he req sv ctx s))"
proof -
  obtain r t where r: "app_Accept he (ss_app s) ctx (setPhase PhaseApplicationAccept ''application.accept'' s) = (r, t)"
    by fastforce
  then have t: "passes he [PhaseApplicationAccept] s t"
    using calm_app_Accept [OF assms calm_refl] passes_phase by (metis snd_conv)
  have resp: "passes he [PhaseApplicationAccept, PhaseHttpResponse] s (snd (main_response he req sv t))"
    using passes_append [OF t main_response_passes [OF assms]] by simp
  have ev: "\<exists>ts \<in> accept_runs. passes he ts s (snd (case he_emit he n v (setPhase PhaseApplicationEvent m t) of
      (Err e, s) \<Rightarrow> ReplyError he ''hpl'' 500 e s | (Ok _, s) \<Rightarrow> main_response he req sv s
      | (Panic p, s) \<Rightarrow> (Panic p, s) | (Diverge, s) \<Rightarrow> (Diverge, s)))" for n v m
  proof -
    obtain r' u where u: "he_emit he n v (setPhase PhaseApplicationEvent m t) = (r', u)" by fastforce
    then have "passes he [PhaseApplicationEvent] t u"
      using script_envD(2) [OF assms] quiet_calm passes_phase by (metis snd_conv)
    then have u': "passes he [PhaseApplicationAccept, PhaseApplicationEvent] s u"
      using passes_append [OF t] by fastforce
    moreover have "passes he [PhaseApplicationAccept, PhaseApplicationEvent, PhaseHttpResponse] s
        (snd (main_response he req sv u))"
      using passes_append [OF u' main_response_passes [OF assms]] by simp
    ultimately show ?thesis
      using passes_reply [OF assms u'] by (cases r') (auto simp: u accept_runs_def)
  qed
  show ?thesis
    using t resp passes_reply [OF assms t]
    by (cases r) (auto simp: main_accept_def r Let_def ev, (auto simp: accept_runs_def)+)
qed

lemma app_Prepare_ctx: "app_Prepare a req p s = Ok ctx \<Longrightarrow> ctx \<noteq> None \<longleftrightarrow> is_sign a"
  by (cases a) (auto simp: app_Prepare_def is_sign_def rbind_Ok_iff)

definition start_runs :: "bool \<Rightarrow> nat list set" where
  "start_runs ctx =
     (if ctx then {} else {[PhaseInit], [PhaseInit, PhaseCreateService], [PhaseInit, PhaseHttpRequest],
        [PhaseInit, PhaseHttpRequest, PhaseApplicationPrepare]}) \<union>
     (\<lambda>ts. [PhaseInit, PhaseHttpRequest, PhaseApplicationPrepare] @ ts) ` accept_runs"

lemma main_app_passes:
  assumes "script_env he" "main_app he req p sv s = ((r, t), ctx)"
  shows "\<exists>ts. passes he (PhaseApplicationPrepare # ts) s t \<and>
    (ts = [] \<and> ctx = None \<or> ts \<in> accept_runs \<and> (ctx \<noteq> None \<longleftrightarrow> is_sign (ss_app s)))"
proof -
  let ?s = "setPhase PhaseApplicationPrepare ''application.prepare'' s"
  have prep: "passes he [PhaseApplicationPrepare] s ?s"
    by (rule passes_setPhase) simp
  show ?thesis
  proof (cases "app_Prepare (ss_app s) req p ?s")
    case (Ok ctx')
    obtain ts where "ts \<in> accept_runs" "passes he ts ?s t"
      using main_accept_passes [OF assms(1), of ?s req sv ctx'] assms(2) Ok by (auto simp: main_app_def)
    then have "passes he (PhaseApplicationPrepare # ts) s t"
      using passes_append [OF prep] by fastforce
    then show ?thesis
      using assms(2) Ok app_Prepare_ctx [OF Ok] \<open>ts \<in> accept_runs\<close> by (auto simp: main_app_def)
  next
    case (Err e)
    then have "passes he [PhaseApplicationPrepare] s t" "ctx = None"
      using assms(2) by (auto simp: main_app_def intro: passes_replied [OF assms(1) prep])
    then show ?thesis by auto
  qed (use assms(2) prep in \<open>auto simp: main_app_def\<close>)
qed

lemma start_runsI:
  "[PhaseInit] \<in> start_runs False" "[PhaseInit, PhaseCreateService] \<in> start_runs False"
  "[PhaseInit, PhaseHttpRequest] \<in> start_runs False"
  "[PhaseInit, PhaseHttpRequest, PhaseApplicationPrepare] \<in> start_runs False"
  "ts \<in> accept_runs \<Longrightarrow> PhaseInit # PhaseHttpRequest # PhaseApplicationPrepare # ts \<in> start_runs ctx"
  by (auto simp: start_runs_def)

lemma main_body_passes:
  assumes "script_env he" "main_body he service req p prev rv pv s = ((r, t), ctx)"
  shows "\<exists>ts \<in> start_runs (ctx \<noteq> None). passes he ts s t \<and>
    (PhaseApplicationAccept \<in> set ts \<longrightarrow> (ctx \<noteq> None \<longleftrightarrow> is_sign (ss_app s)))"
proof -
  obtain r1 s1 where i: "he_init he rv pv (setPhase PhaseInit ''.init'' s) = (r1, s1)" by fastforce
  have q: "quiet he (setPhase PhaseInit ''.init'' s) s1"
    using script_envD(1) [OF assms(1), of "setPhase PhaseInit ''.init'' s" rv pv] i by simp
  then have app1: "ss_app s1 = ss_app s" by (simp add: quiet_def)
  have s1: "passes he [PhaseInit] s s1"
    using q by (rule passes_phase [OF quiet_calm])
  have early: ?thesis if "passes he ts s t" "ctx = None" "ts \<in> start_runs False" "PhaseApplicationAccept \<notin> set ts" for ts
    using that by (intro bexI [of _ ts]) simp_all
  show ?thesis
  proof (cases "r1 = Ok () \<and> \<not> IsFlushed s1 \<and> prev = None")
    case False
    then consider "r1 \<noteq> Ok () \<or> IsFlushed s1" | e where "r1 = Ok ()" "\<not> IsFlushed s1" "prev = Some e" by auto
    then show ?thesis
    proof cases
      case 1
      then have "passes he [PhaseInit] s t \<and> ctx = None"
        using assms(2) i s1 by (cases r1) (auto simp: main_body_def simp del: One_nat_def intro: passes_replied [OF assms(1) s1])
      then show ?thesis by (intro early [of "[PhaseInit]"]) (use start_runsI(1,2) in simp_all)
    next
      case 2
      have cs: "passes he [PhaseInit, PhaseCreateService] s (setPhase PhaseCreateService n s1)" for n
        using passes_append [OF s1 passes_setPhase [OF calm_refl]] by simp
      have "passes he [PhaseInit, PhaseCreateService] s t \<and> ctx = None"
        using 2 assms(2) i by (auto simp: main_body_def simp del: One_nat_def intro: passes_replied [OF assms(1) cs])
      then show ?thesis by (intro early [of "[PhaseInit, PhaseCreateService]"]) (use start_runsI(1,2) in simp_all)
    qed
  next
    case True
    let ?s = "setPhase PhaseHttpRequest ''http.request'' s1"
    have s2: "passes he [PhaseInit, PhaseHttpRequest] s ?s"
      using passes_append [OF s1 passes_setPhase [OF calm_refl]] by simp
    show ?thesis
    proof (cases service)
      case None
      then show ?thesis
        using assms(2) i True s2 start_runsI(3) by (auto simp: main_body_def)
    next
      case (Some sv)
      obtain r3 s3 where m: "mw_Accept he req (sv_Request sv) ?s = (r3, s3)" by fastforce
      then have q: "quiet he ?s s3"
        using quiet_chain(1) [OF assms(1) quiet_refl] by (metis snd_conv)
      then have app3: "ss_app s3 = ss_app s" using app1 by (simp add: quiet_def)
      have s3: "passes he [PhaseInit, PhaseHttpRequest] s s3"
        by (rule passes_trans [OF s2 quiet_calm [OF q]])
      show ?thesis
      proof (cases "r3 = Ok True")
        case False
        then show ?thesis
          using assms(2) i True s3 start_runsI(3) Some m by (cases r3) (auto simp: main_body_def split: bool.splits)
      next
        case ok: True
        then have run: "main_app he req p sv s3 = ((r, t), ctx)"
          using assms(2) i True Some m by (simp add: main_body_def)
        obtain ts where ts: "passes he (PhaseApplicationPrepare # ts) s3 t"
            "ts = [] \<and> ctx = None \<or> ts \<in> accept_runs \<and> (ctx \<noteq> None \<longleftrightarrow> is_sign (ss_app s3))"
          using main_app_passes [OF assms(1) run] by blast
        have "passes he (PhaseInit # PhaseHttpRequest # PhaseApplicationPrepare # ts) s t"
          using passes_append [OF s3 ts(1)] by simp
        then show ?thesis
          using ts(2) app3 start_runsI(4) start_runsI(5) [of ts "ctx \<noteq> None"] by auto
      qed
    qed
  qed
qed

section \<open>A whole request\<close>

lemma newBodyVal_ok: "\<exists>v st'. NewBodyValFromStream r st = (Ok v, st')"
  by (simp add: writer_eval split: prod.split)

lemma NewRequestVal_ok:
  assumes "http_request st req = Ok rq"
  shows "\<exists>v st'. NewRequestVal req st = (Ok v, st')"
proof -
  obtain h st1 where h: "NewHeaderVal (r_Header rq) st = (h, st1)" by fastforce
  obtain u st2 where u: "NewUrlVal (r_URL rq) st1 = (u, st2)" by fastforce
  obtain b st3 where b: "NewBodyValFromStream (r_Body rq) st2 = (Ok b, st3)" using newBodyVal_ok by blast
  show ?thesis
    by (auto simp: NewRequestVal_def assms h u b split: prod.split)
qed

lemma newResponseWriterWrapper_ok: "\<exists>w st'. newResponseWriterWrapper st = Ok (w, st') \<and> wire_ok w"
  using newBodyVal_ok
  by (auto simp: newResponseWriterWrapper_def Let_def wire_ok_def split: prod.split res.split)
    (metis Pair_inject res.distinct)+

lemma service_main_starts:
  assumes "http_request (ws_st s) req = Ok rq" "service_main he service req p prev s = (r, t)"
  obtains u x ctx rv pv where "ss_trace u = ss_trace s" "ss_app u = ss_app s" "wire_ok (ws_w u)"
    "main_body he service req p prev rv pv u = (x, ctx)" "deferred x (main_deferred he ctx) = (r, t)"
proof -
  obtain rv st1 where "NewRequestVal req (ws_st s) = (Ok rv, st1)"
    using NewRequestVal_ok [OF assms(1)] by blast
  then have v: "on_store (NewRequestVal req) s = (Ok rv, s\<lparr>ws_st := st1\<rparr>)"
    by (simp add: on_store_def on_st_def)
  obtain pv st2 where "NewRouterParamsVal p st1 = (pv, st2)" by fastforce
  then have p: "on_store (NewRouterParamsVal p) (s\<lparr>ws_st := st1\<rparr>) = (pv, s\<lparr>ws_st := st2\<rparr>)"
    by (simp add: on_store_def on_st_def)
  obtain w st3 where w: "newResponseWriterWrapper st2 = Ok (w, st3)" "wire_ok w"
    using newResponseWriterWrapper_ok by blast
  obtain x ctx where x: "main_body he service req p prev rv pv (s\<lparr>ws_w := w, ws_st := st3\<rparr>) = (x, ctx)" by fastforce
  have "deferred x (main_deferred he ctx) = (r, t)"
    using assms(2) by (simp add: service_main_def v p w x)
  then show ?thesis
    using that [of "s\<lparr>ws_w := w, ws_st := st3\<rparr>"] x w(2) by simp
qed

lemma deferred_cases:
  assumes "deferred (r1, s1) d = (r, t)"
  shows "r1 = Diverge \<and> r = Diverge \<and> t = s1 \<or>
    r1 \<noteq> Diverge \<and> (\<exists>r2. d s1 = (r2, t) \<and> (r = Ok () \<longleftrightarrow> r1 = Ok () \<and> r2 = Ok ()))"
  using assms by (cases r1; cases "d s1"; cases "fst (d s1)") (auto simp: deferred_def)

text \<open>
  C4: Every request is answered once. Whatever the middleware, the application and the scripts do, and
  even when one of them panics, the connection gets at most one header and after it at most one body;
  and when the handler returns the response has been flushed.
\<close>

theorem request_answered_once:
  assumes "script_env he" "http_request (ws_st s) req = Ok rq"
    and "service_main he service req p prev s = (r, t)"
  shows "(w_wire (ws_w t) = [] \<or> (\<exists>c h. w_wire (ws_w t) = [WHeader c h]) \<or>
      (\<exists>c h b. w_wire (ws_w t) = [WHeader c h, WBody b])) \<and> (r = Ok () \<longrightarrow> IsFlushed t)"
proof -
  obtain u r1 s1 ctx rv pv where u: "wire_ok (ws_w u)"
    and b: "main_body he service req p prev rv pv u = ((r1, s1), ctx)"
    and d: "deferred (r1, s1) (main_deferred he ctx) = (r, t)"
    using service_main_starts [OF assms(2,3)] by (metis prod.exhaust)
  obtain ts where "passes he ts u s1" using main_body_passes [OF assms(1) b] by blast
  then have s1: "wire_ok (ws_w s1)"
    using u passes_onward onward_def by blast
  have "wire_ok (ws_w t) \<and> (r = Ok () \<longrightarrow> IsFlushed t)"
  proof (cases "r1 = Diverge")
    case False
    then obtain r2 where r2: "main_deferred he ctx s1 = (r2, t)" "r = Ok () \<longrightarrow> r2 = Ok ()"
      using deferred_cases [OF d] by blast
    have "wire_ok (ws_w t)"
      using s1 main_deferred_passes(1) [OF assms(1) r2(1)] passes_onward onward_def by blast
    then show ?thesis using main_deferred_passes(2) [OF assms(1) r2(1) s1] r2(2) by simp
  qed (use deferred_cases [OF d] s1 in auto)
  then show ?thesis using wire_okD [of "ws_w t"] by blast
qed

text \<open>
  C5: The phases of a request come in the order of the code, each at most once: from the session rule
  until something answers, and then, also after a panic, the response is finished. If finishing it panics
  (a status without three digits does) nothing follows. Otherwise the application is told that the request
  is done if its preparation gave a context, which only the signature's does, so the end of a concatenation
  or of an event is never told; and unless that panics the access log comes last. When the whole request
  ends without a panic it is always logged.
\<close>

theorem request_phases:
  assumes "script_env he" "http_request (ws_st s) req = Ok rq"
    and "service_main he service req p prev s = (r, t)" "r \<noteq> Diverge"
  shows "\<exists>u rv pv r1 s1 ctx ts. ss_trace u = ss_trace s \<and>
    main_body he service req p prev rv pv u = ((r1, s1), ctx) \<and>
    ts \<in> start_runs (ctx \<noteq> None) \<and> (PhaseApplicationAccept \<in> set ts \<longrightarrow> (ctx \<noteq> None \<longleftrightarrow> is_sign (ss_app s))) \<and>
    ss_trace s1 = ss_trace s @ ts \<and> ss_trace t = ss_trace s1 @ end_run he (ctx \<noteq> None) s1 \<and>
    (r = Ok () \<longrightarrow> PhaseAccessLog \<in> set (end_run he (ctx \<noteq> None) s1))"
proof -
  obtain u r1 s1 ctx rv pv where u: "ss_trace u = ss_trace s" "ss_app u = ss_app s"
    and b: "main_body he service req p prev rv pv u = ((r1, s1), ctx)"
    and d: "deferred (r1, s1) (main_deferred he ctx) = (r, t)"
    using service_main_starts [OF assms(2,3)] by (metis prod.exhaust)
  obtain ts where ts: "ts \<in> start_runs (ctx \<noteq> None)" "passes he ts u s1"
    "PhaseApplicationAccept \<in> set ts \<longrightarrow> (ctx \<noteq> None \<longleftrightarrow> is_sign (ss_app u))"
    using main_body_passes [OF assms(1) b] by blast
  obtain r2 where r2: "main_deferred he ctx s1 = (r2, t)" "r = Ok () \<longrightarrow> r2 = Ok ()"
    using deferred_cases [OF d] assms(4) by blast
  have "ss_trace t = ss_trace s1 @ end_run he (ctx \<noteq> None) s1"
    using main_deferred_passes(1) [OF assms(1) r2(1)] by (simp add: passes_def)
  moreover have "ss_trace s1 = ss_trace s @ ts" using ts(2) u(1) by (simp add: passes_def)
  moreover have "r = Ok () \<longrightarrow> PhaseAccessLog \<in> set (end_run he (ctx \<noteq> None) s1)"
    using main_deferred_passes(3) [OF assms(1) r2(1)] r2(2) by blast
  ultimately show ?thesis
    using u b ts(1,3) by (intro exI conjI) (assumption | simp)+
qed

text \<open>A request for a service that greets: an application that emits \<open>hello\<close>, whose rule replies.\<close>

definition s_env :: henv where
  "s_env =
     \<lparr>he_env = plain_hpl_env, he_ho = id, he_net = (\<lambda>_. None), he_init = (\<lambda>_ _ s. (Ok (), s)),
      he_emit = (\<lambda>n _ s. (Ok VNull, if n = ''hello'' then snd (SetReply 201 ''hi'' s) else s)),
      he_hasError = False, he_createTemp = (\<lambda>_ _. None), he_writeTemp = (\<lambda>_ _. None), he_digest = (\<lambda>_ b. b)\<rparr>"

definition s_service :: Service where
  "s_service = \<lparr>sv_Request = MwCompose ''request'' [], sv_Response = MwCompose ''response'' [],
     sv_App = AppEvent [VStr ''hello'']\<rparr>"

definition s_start :: session where
  "s_start =
     \<lparr>ws_w = ws_w s_new,
      ws_st = st_init (hworld_init\<lparr>hw_readers := [REof], hw_headers := [[]],
        hw_requests := [\<lparr>r_Method = ''GET'', r_Proto = ''HTTP/1.1'', r_ProtoMajor = 1, r_ProtoMinor = 1, r_Header = 0,
          r_URL = 0, r_Body = 0, r_RequestURI = '''', r_Host = ''a'', r_RemoteAddr = '''', r_TLS = None,
          r_ContentLength = 0, r_TransferEncoding = []\<rparr>]\<rparr>),
      ss_app = sv_App s_service, ss_phase = '''', ss_phaseIndex = 0, ss_trace = [], ss_clients = [],
      ss_pool = NewHClientPool '''' 2 30 4096, ss_rand = [], ss_files = []\<rparr>"

lemma s_env_script: "script_env s_env"
  by (auto simp: script_env_def s_env_def intro: quiet_ops(1) [of s_env, unfolded s_env_def])

lemma s_request: "\<exists>rq. http_request (ws_st s_start) 0 = Ok rq"
  by (simp add: http_request_def deref_def s_start_def st_init_def hworld_init_def)

lemmas s_run = service_main_def on_store_def NewRequestVal_def http_request_def deref_def s_start_def st_init_def
  hworld_init_def writer_eval NewUrlVal_def NewTLSConnStateVal_def NewRouterParamsVal_def
  newResponseWriterWrapper_def main_body_def s_env_def setPhase_def IsFlushed_def s_service_def
  main_app_def app_Prepare_def main_accept_def app_Accept_def eventApp_Accept_def cfg_GetStr_def cfg_Get_def
  cfg_TryGet_def or_default_def tryeval_def SetReply_def IsHeaderFlushed_def main_response_def deferred_def
  main_deferred_def Finalize_def Flush_def FlushHeader_def net_WriteHeader_def valid_code_def copy_body_def
  net_Write_def service_Log_def ignore_err_def finish_request_def

lemma s_run_result: "fst (service_main s_env (Some s_service) 0 0 None s_start) = Ok ()"
  by (simp add: s_run)

lemma s_trace: "PhaseApplicationAccept \<in> set (ss_trace (snd (service_main s_env (Some s_service) 0 0 None s_start)))"
  by (simp add: s_run)

theorem request_answered_once_witness:
  "\<exists>t. service_main s_env (Some s_service) 0 0 None s_start = (Ok (), t) \<and> IsFlushed t \<and>
     w_wire (ws_w t) = [WHeader 201 [], WBody ''hi'']"
proof -
  obtain rq where rq: "http_request (ws_st s_start) 0 = Ok rq" using s_request by blast
  obtain t where t: "service_main s_env (Some s_service) 0 0 None s_start = (Ok (), t)"
    using s_run_result by (metis prod.collapse)
  have "w_wire (ws_w (snd (service_main s_env (Some s_service) 0 0 None s_start))) = [WHeader 201 [], WBody ''hi'']"
    by (simp add: s_run)
  then show ?thesis
    using request_answered_once [OF s_env_script rq t] t by simp
qed

theorem request_phases_witness:
  "\<exists>ts us. ss_trace (snd (service_main s_env (Some s_service) 0 0 None s_start)) = ts @ us \<and>
     ts \<in> start_runs False \<and> PhaseApplicationAccept \<in> set ts \<and> us = [PhaseHttpResponseFinalize, PhaseAccessLog]"
proof -
  obtain rq where rq: "http_request (ws_st s_start) 0 = Ok rq" using s_request by blast
  obtain t where t: "service_main s_env (Some s_service) 0 0 None s_start = (Ok (), t)"
    using s_run_result by (metis prod.collapse)
  have a: "\<not> is_sign (ss_app s_start)" "ss_trace s_start = []"
    by (simp_all add: is_sign_def s_start_def s_service_def)
  obtain s1 ts and ctx :: "bodySignInput option" where r: "ts \<in> start_runs (ctx \<noteq> None)"
    "PhaseApplicationAccept \<in> set ts \<longrightarrow> ctx = None" "ss_trace t = ts @ end_run s_env (ctx \<noteq> None) s1"
    "PhaseAccessLog \<in> set (end_run s_env (ctx \<noteq> None) s1)"
    using request_phases [OF s_env_script rq t] a by auto
  have ts: "PhaseApplicationAccept \<in> set (ss_trace t)"
    using s_trace t by simp
  have "PhaseApplicationAccept \<notin> set (end_run s_env b s1)" for b by (simp add: end_run_def)
  with ts r(2,3) have acc: "PhaseApplicationAccept \<in> set ts" "ctx = None" by auto
  then have "end_run s_env (ctx \<noteq> None) s1 = [PhaseHttpResponseFinalize, PhaseAccessLog]"
    using r(4) by (simp add: end_run_def split: if_splits)
  with acc r(1,3) t show ?thesis by auto
qed

section \<open>Edges\<close>

text \<open>
  The status is not checked before it is sent: one that does not have three digits panics while the
  response is finished, so that the application is not told, nothing is logged, and the clients of the
  request do not come back.
\<close>

lemma invalid_status_panics:
  assumes "\<not> valid_code (w_status (ws_w s))" "\<not> w_headerDone (ws_w s)" "\<not> w_bodyDone (ws_w s)"
    "get_header_map (ws_st s) (w_header (ws_w s)) = Ok m"
  shows "\<exists>t. main_deferred he ctx s = (Panic ''invalid WriteHeader code'', t) \<and> ss_clients t = ss_clients s \<and>
    ss_trace t = ss_trace s @ [PhaseHttpResponseFinalize]"
  using assms
  by (simp add: main_deferred_def Finalize_def Flush_def FlushHeader_def Let_def setPhase_def net_WriteHeader_def
      upd_w_def)

text \<open>\<open>header_del\<close> compares with the names as the header has them, so a name in another case deletes nothing.\<close>

lemma header_del_is_case_sensitive:
  assumes "CHR ''*'' \<notin> set key" "key \<notin> set (map fst m)"
  shows "del_matching key m = m"
proof -
  have "ToMatcher key k key \<longleftrightarrow> k = key" for k
    using assms(1) has_prefix_set [of key "[CHR ''*'']"] has_suffix_set [of key "[CHR ''*'']"]
    by (auto simp: ToMatcher_def Let_def)
  then have "\<not> ToMatcher key k key" if "k \<in> set (map fst m)" for k
    using that assms(2) by auto
  then have "fold (\<lambda>k n. if ToMatcher key k key then hdr_Del n k else n) ks n = n"
    if "set ks \<subseteq> set (map fst m)" for ks n
    using that by (induction ks) auto
  then show ?thesis by (simp add: del_matching_def)
qed

text \<open>
  An operation that is given by the header only is not used, so the request is refused; and the end of
  a signature expects a result, so being told of it panics.
\<close>

lemma prepareConfig_r: "prepareConfig env st b = Ok b' \<Longrightarrow> bs_r b' = bs_r b"
  by (auto simp: prepareConfig_def Let_def rbind_Ok_iff)

lemma sign_by_header_panics:
  assumes "sign_Prepare b req p (ws_st s) = Ok i" "deref (hw_params (st_world (ws_st s))) p = Ok ps"
    "Params_ByName ps ''op'' = ''''" "prepareConfig (he_env he) (ws_st s) b = Ok b'" "bs_r b = None"
  shows "sign_Accept he b (Some i) s = (Err ''invalid operation '', set_sign b' s)"
    and "app_Done (AppBodySign b') t = (Panic ''nil pointer'', t)"
proof -
  have "bi_op i = ''''"
    using assms(1-3) by (auto simp: sign_Prepare_def Let_def rbind_Ok_iff split: if_splits)
  then show "sign_Accept he b (Some i) s = (Err ''invalid operation '', set_sign b' s)"
    by (simp add: sign_Accept_def assms(4) Let_def)
  show "app_Done (AppBodySign b') t = (Panic ''nil pointer'', t)"
    using prepareConfig_r [OF assms(4)] assms(5) by (simp add: app_Done_def sign_reset_def)
qed

text \<open>A concatenation never has work: only its own actions could give it some, and no script reaches them.\<close>

lemma concate_is_empty:
  assumes "script_env he" "concate_Accept he c s = (Ok a, t)"
  shows "\<exists>c'. ss_app t = AppConcate c' \<and> \<not> hasPending c' \<and> cc_closed c'"
proof -
  obtain r u where r: "on_store (new_reader (RNet '''' None False)) s = (r, u)" by fastforce
  let ?c = "(resetForAccept c)\<lparr>cc_reader := Some r\<rparr>"
  obtain r2 v where v: "he_emit he ''concate.generate'' VNull (set_concate ?c u) = (r2, v)" by fastforce
  then have c: "ss_app v = AppConcate ?c"
    using script_envD(2) [OF assms(1), of "set_concate ?c u" "''concate.generate''" VNull]
    by (simp add: quiet_def set_concate_def)
  obtain x where ok: "r2 = Ok x" using assms(2) r v by (cases r2) (auto simp: concate_Accept_def Let_def)
  have np: "\<not> hasPending ?c" by (simp add: hasPending_def resetForAccept_def)
  have "ss_app t = AppConcate (?c\<lparr>cc_closed := True\<rparr>)"
    using assms(2) r v ok c np
    by (auto simp: concate_Accept_def Let_def set_concate_def on_store_def on_st_def split: prod.splits)
  then show ?thesis using np by (simp add: hasPending_def)
qed

text \<open>
  An idle handler always has a service: creating one never fails for the modules of the program. The pool
  keeps fewer handlers than its size says.
\<close>

lemma create_loop_ok: "\<exists>l'. create_loop xs l = Ok l'"
proof (induction xs arbitrary: l)
  case (Cons x xs)
  obtain m where "mw_Create (fe_m x) (fe_config x) = Ok m" by (cases "fe_m x") auto
  then show ?case using Cons by simp
qed simp

lemma NewService_ok: "\<exists>sv. NewService f = Ok sv"
proof -
  obtain a where a: "app_Create (sf_App f) (sf_AppConfig f) = Ok a" by (cases "sf_App f") auto
  obtain l1 l2 where "create_loop (fl_l (sf_Request f)) [] = Ok l1" "create_loop (fl_l (sf_Response f)) [] = Ok l2"
    using create_loop_ok by meson
  then show ?thesis by (simp add: NewService_def list_Create_def a)
qed

definition handlers_ok :: "vHS \<Rightarrow> bool" where
  "handlers_ok v \<longleftrightarrow> None \<notin> set (sp_idle (vs_servicePool v)) \<and>
     (sp_idle (vs_servicePool v) = [] \<or> int (length (sp_idle (vs_servicePool v))) < sp_maxSize (vs_servicePool v))"

lemma getServiceHandler_ok:
  assumes "handlers_ok v"
  shows "\<exists>sv v'. getServiceHandler v = ((Some sv, None), v') \<and> handlers_ok v'"
proof (cases "sp_idle (vs_servicePool v) = []")
  case True
  obtain sv where "NewService (vs_factory v) = Ok sv" using NewService_ok by blast
  then show ?thesis using True assms by (simp add: getServiceHandler_def sp_get_def)
next
  case False
  then have "last (sp_idle (vs_servicePool v)) \<noteq> None"
    using assms by (metis handlers_ok_def last_in_set)
  then obtain sv where sv: "last (sp_idle (vs_servicePool v)) = Some sv" by blast
  show ?thesis
    using False assms sv by (auto simp: getServiceHandler_def sp_get_def handlers_ok_def dest: in_set_butlastD)
qed

lemma doRoute_handlers:
  assumes "handlers_ok v" "doRoute he req p v s = (x, v')"
  shows "handlers_ok v'"
proof -
  obtain sv u where g: "getServiceHandler v = ((Some sv, None), u)" "handlers_ok u"
    using getServiceHandler_ok [OF assms(1)] by blast
  obtain r t where m: "service_main he (Some sv) req p None (s\<lparr>ss_app := sv_App sv\<rparr>) = (r, t)" by fastforce
  have "handlers_ok (u\<lparr>vs_servicePool := snd (sp_put (Some y) (vs_servicePool u))\<rparr>)" for y
    using g(2) by (auto simp: handlers_ok_def sp_put_def)
  then show ?thesis
    using assms(2) g m by (cases r) (auto simp: doRoute_def)
qed

end
